(* ===== verification/Prelude.thy ===== *)
theory Prelude
  imports Main "HOL-Library.Word" "HOL-Library.List_Lexorder" "HOL-Library.Char_ord"
begin

text \<open>
  Shared vocabulary of the development: Rust strings as byte lists with their
  slicing rule, the \<open>?\<close> operator on results, machine integers, and the list
  lemmas that several components use.
\<close>

named_theorems key_simps "evaluation rules of the order-key functions"
named_theorems scene_simps "unfolding and look-up rules of the object scene"

subsection \<open>Results\<close>

text \<open>\<open>and_then m f\<close> is \<open>m?\<close> followed by \<open>f\<close>: an error short-circuits.\<close>

fun and_then :: "'e + 'a \<Rightarrow> ('a \<Rightarrow> 'e + 'b) \<Rightarrow> 'e + 'b" where
  "and_then (Inl e) f = Inl e"
| "and_then (Inr x) f = f x"

lemma and_then_Inr_iff:
  "and_then m f = Inr y \<longleftrightarrow> (\<exists>x. m = Inr x \<and> f x = Inr y)"
  by (cases m) auto

lemma and_then_InrE [elim!]:
  assumes "and_then m f = Inr y"
  obtains x where "m = Inr x" "f x = Inr y"
  using assms by (cases m) auto

lemma and_then_cong [fundef_cong]:
  "m = m' \<Longrightarrow> (\<And>x. m' = Inr x \<Longrightarrow> f x = g x) \<Longrightarrow> and_then m f = and_then m' g"
  by (cases m') auto

fun map_err :: "('e \<Rightarrow> 'f) \<Rightarrow> 'e + 'a \<Rightarrow> 'f + 'a" where
  "map_err h (Inl e) = Inl (h e)"
| "map_err h (Inr x) = Inr x"

lemma map_err_Inr_iff [simp]: "map_err h m = Inr x \<longleftrightarrow> m = Inr x"
  by (cases m) auto

fun ok_or :: "'e \<Rightarrow> 'a option \<Rightarrow> 'e + 'a" where
  "ok_or e None = Inl e"
| "ok_or e (Some x) = Inr x"

lemma ok_or_Inr_iff [simp]: "ok_or e m = Inr x \<longleftrightarrow> m = Some x"
  by (cases m) auto

subsection \<open>Strings\<close>

text \<open>
  A Rust \<open>str\<close> is its UTF-8 byte list; \<open>Ord\<close> on it is the lexicographic order of the
  bytes, which \<open>List_Lexorder\<close> and \<open>Char_ord\<close> give to \<open>string\<close>. A slice at an index
  that is not a character boundary panics.
\<close>

type_synonym str = string

abbreviation byte :: "char \<Rightarrow> nat" where
  "byte c \<equiv> of_char c"

definition is_char_boundary :: "str \<Rightarrow> nat \<Rightarrow> bool" where
  "is_char_boundary s n \<longleftrightarrow>
     n = 0 \<or> n = length s \<or> (n < length s \<and> \<not> (128 \<le> byte (s ! n) \<and> byte (s ! n) < 192))"

definition ascii :: "str \<Rightarrow> bool" where
  "ascii s \<longleftrightarrow> (\<forall>c \<in> set s. byte c < 128)"

lemma ascii_boundary: "ascii s \<Longrightarrow> n \<le> length s \<Longrightarrow> is_char_boundary s n"
  unfolding ascii_def is_char_boundary_def
  by (metis le_neq_implies_less not_le nth_mem)

lemma ascii_append [simp]: "ascii (xs @ ys) \<longleftrightarrow> ascii xs \<and> ascii ys"
  by (auto simp: ascii_def)

lemma ascii_Nil [simp]: "ascii []"
  by (simp add: ascii_def)

lemma ascii_Cons [simp]: "ascii (c # cs) \<longleftrightarrow> byte c < 128 \<and> ascii cs"
  by (auto simp: ascii_def)

lemma char_less_iff: "c < d \<longleftrightarrow> byte c < byte d"
  by (simp add: less_char_def)

lemma char_le_iff: "c \<le> d \<longleftrightarrow> byte c \<le> byte d"
  by (simp add: less_eq_char_def)

subsection \<open>Lexicographic order\<close>

lemma lex_append_left [simp]: "(xs @ ys :: 'a::order list) < xs @ zs \<longleftrightarrow> ys < zs"
  by (induction xs) auto

lemma lex_prefix: "ys \<noteq> [] \<Longrightarrow> (xs :: 'a::order list) < xs @ ys"
  by (induction xs) (auto simp: neq_Nil_conv)

lemma lex_append_same_length:
  "length xs = length ys \<Longrightarrow> (xs :: 'a::order list) < ys \<Longrightarrow> xs @ us < ys @ vs"
  by (induction xs ys rule: list_induct2) auto

lemma lex_append_same_length_iff:
  "length xs = length ys \<Longrightarrow>
   (xs :: 'a::linorder list) @ us < ys @ vs \<longleftrightarrow> xs < ys \<or> xs = ys \<and> us < vs"
  by (induction xs ys rule: list_induct2) auto

lemma lex_less_Cons_conv:
  "(xs :: 'a::order list) < y # ys \<longleftrightarrow> xs = [] \<or> (\<exists>x xs'. xs = x # xs' \<and> (x < y \<or> x = y \<and> xs' < ys))"
  by (cases xs) auto

subsection \<open>Machine integers\<close>

text \<open>
  The crates are built in release mode, where \<open>i32\<close>, \<open>i64\<close> and \<open>u64\<close> arithmetic wraps:
  \<open>+\<close> and \<open>-\<close> of the word types. The saturating operations are written out.
\<close>

type_synonym i32 = "32 word"
type_synonym i64 = "64 word"
type_synonym u32 = "32 word"
type_synonym u64 = "64 word"

text \<open>\<open>Ord::min\<close> and \<open>Ord::max\<close> of \<open>i32\<close>.\<close>

definition i32_smaller :: "i32 \<Rightarrow> i32 \<Rightarrow> i32" where
  "i32_smaller a b = (if sint b < sint a then b else a)"

definition i32_larger :: "i32 \<Rightarrow> i32 \<Rightarrow> i32" where
  "i32_larger a b = (if sint a \<le> sint b then b else a)"

definition i32_max :: i32 where "i32_max = 2147483647"

text \<open>\<open>i32::try_from(n).unwrap_or(i32::MAX)\<close> for a length \<open>n\<close>.\<close>

definition i32_of_len :: "nat \<Rightarrow> i32" where
  "i32_of_len n = (if n \<le> 2147483647 then of_nat n else i32_max)"

definition sat_add_i32 :: "i32 \<Rightarrow> i32 \<Rightarrow> i32" where
  "sat_add_i32 a b =
     (let s = sint a + sint b
      in if s > 2147483647 then 2147483647 else if s < -2147483648 then 2147483648 else word_of_int s)"

subsection \<open>Lists\<close>

text \<open>\<open>iter().position(p)\<close>.\<close>

fun position :: "('a \<Rightarrow> bool) \<Rightarrow> 'a list \<Rightarrow> nat option" where
  "position p [] = None"
| "position p (x # xs) = (if p x then Some 0 else map_option Suc (position p xs))"

lemma position_Some:
  "position p xs = Some i \<Longrightarrow> i < length xs \<and> p (xs ! i) \<and> (\<forall>j < i. \<not> p (xs ! j))"
  by (induction xs arbitrary: i) (auto split: if_splits simp: less_Suc_eq_0_disj)

lemma position_None: "position p xs = None \<longleftrightarrow> (\<forall>x \<in> set xs. \<not> p x)"
  by (induction xs) auto

lemma position_map: "position p (map f xs) = position (\<lambda>x. p (f x)) xs"
  by (induction xs) auto

lemma position_cong: "(\<And>x. x \<in> set xs \<Longrightarrow> p x = q x) \<Longrightarrow> position p xs = position q xs"
  by (induction xs) auto

lemma find_position: "find p xs = map_option (\<lambda>i. xs ! i) (position p xs)"
  by (induction xs) (auto simp: option.map_comp comp_def)

lemma find_distinct:
  "distinct (map f xs) \<Longrightarrow> x \<in> set xs \<Longrightarrow> find (\<lambda>y. f y = f x) xs = Some x"
  by (induction xs) force+

text \<open>\<open>Vec::remove(i)\<close> for an index in range.\<close>

definition remove_at :: "nat \<Rightarrow> 'a list \<Rightarrow> 'a list" where
  "remove_at i xs = take i xs @ drop (Suc i) xs"

lemma set_remove_at: "set (remove_at i xs) \<subseteq> set xs"
  unfolding remove_at_def using set_take_subset set_drop_subset by fastforce

end
