(* ===== verification/F64.thy ===== *)
theory F64
  imports Prelude
begin

unbundle bit_operations_syntax

text \<open>
  Rust's \<open>f64\<close>, as far as the modelled code uses it. A value is its 64-bit pattern; the
  basic operations are IEEE 754 binary64 with round to nearest, ties to even, computed
  exactly on integers and rounded once. Every operation that yields a NaN yields the one
  quiet NaN (its payload is unspecified in Rust). The transcendental functions, whose
  precision Rust leaves to the platform's math library, are the parameter \<open>libm\<close>.
\<close>

type_synonym f64 = "64 word"

record libm =
  sin_f :: "f64 \<Rightarrow> f64"
  cos_f :: "f64 \<Rightarrow> f64"
  tan_f :: "f64 \<Rightarrow> f64"
  atan2_f :: "f64 \<Rightarrow> f64 \<Rightarrow> f64"
  hypot_f :: "f64 \<Rightarrow> f64 \<Rightarrow> f64"

section \<open>Decoding\<close>

definition f_neg_sign :: "f64 \<Rightarrow> bool" where
  "f_neg_sign x \<longleftrightarrow> bit x 63"

text \<open>The pattern without its sign bit.\<close>

definition f_mag :: "f64 \<Rightarrow> int" where
  "f_mag x = uint x mod 2 ^ 63"

definition f_is_nan :: "f64 \<Rightarrow> bool" where
  "f_is_nan x \<longleftrightarrow> 2047 * 2 ^ 52 < f_mag x"

definition f_is_inf :: "f64 \<Rightarrow> bool" where
  "f_is_inf x \<longleftrightarrow> f_mag x = 2047 * 2 ^ 52"

definition f_is_zero :: "f64 \<Rightarrow> bool" where
  "f_is_zero x \<longleftrightarrow> f_mag x = 0"

text \<open>A finite value is \<open>f_mant x * 2 powi f_exp x\<close>, exactly.\<close>

definition f_mant :: "f64 \<Rightarrow> int" where
  "f_mant x =
     (let e = f_mag x div 2 ^ 52; m = f_mag x mod 2 ^ 52;
          n = (if e = 0 then m else m + 2 ^ 52)
      in if f_neg_sign x then - n else n)"

definition f_exp :: "f64 \<Rightarrow> int" where
  "f_exp x = (let e = f_mag x div 2 ^ 52 in if e = 0 then -1074 else e - 1075)"

section \<open>Encoding\<close>

definition f_sign_bit :: "bool \<Rightarrow> int" where
  "f_sign_bit neg = (if neg then 2 ^ 63 else 0)"

definition f_zero :: "bool \<Rightarrow> f64" where
  "f_zero neg = word_of_int (f_sign_bit neg)"

definition f_inf :: "bool \<Rightarrow> f64" where
  "f_inf neg = word_of_int (f_sign_bit neg + 2047 * 2 ^ 52)"

definition f_nan :: f64 where
  "f_nan = word_of_int (2047 * 2 ^ 52 + 2 ^ 51)"

fun bit_length :: "nat \<Rightarrow> nat" where
  "bit_length n = (if n = 0 then 0 else Suc (bit_length (n div 2)))"

declare bit_length.simps [simp del]

definition f_scaled :: "int \<Rightarrow> int \<Rightarrow> int \<Rightarrow> int \<times> int" where
  "f_scaled num den k = (if 0 \<le> k then (num, den * 2 ^ nat k) else (num * 2 ^ nat (- k), den))"

text \<open>
  The nearest binary64 to the non-negative number \<open>num / den * 2 powi e\<close>, with the given
  sign. \<open>k\<close> is the exponent of the last place; the pattern of a result with significand
  \<open>q\<close> is \<open>(k + 1074) * 2 ^ 52 + q\<close>, for subnormal results and for a carry out of \<open>q\<close> as
  well.
\<close>

definition f_round_rat :: "bool \<Rightarrow> int \<Rightarrow> int \<Rightarrow> int \<Rightarrow> f64" where
  "f_round_rat neg num den e =
     (if num = 0 then f_zero neg
      else
        let l = int (bit_length (nat num)) - int (bit_length (nat den));
            k0 = l - 53;
            k1 = (case f_scaled num den k0 of (n, d) \<Rightarrow> if 2 ^ 53 \<le> n div d then k0 + 1 else k0);
            k = max (k1 + e) (-1074)
        in case f_scaled num den (k - e) of (n, d) \<Rightarrow>
             let q = n div d; r = n mod d;
                 q' = (if d < 2 * r \<or> (2 * r = d \<and> odd q) then q + 1 else q)
             in word_of_int (f_sign_bit neg + min ((k + 1074) * 2 ^ 52 + q') (2047 * 2 ^ 52)))"

text \<open>The length on integers, for evaluation.\<close>

function int_length :: "int \<Rightarrow> int" where
  "int_length n = (if n \<le> 0 then 0 else 1 + int_length (n div 2))"
  by auto
termination by (relation "measure nat") auto

declare int_length.simps [simp del]

lemma bit_length_int: "int (bit_length (nat n)) = int_length n"
proof (induction n rule: int_length.induct)
  case (1 n)
  show ?case
  proof (cases "n \<le> 0")
    case True
    then show ?thesis by (simp add: bit_length.simps int_length.simps)
  next
    case False
    then have "nat n div 2 = nat (n div 2)" by (simp add: nat_div_distrib)
    then show ?thesis using 1 False by (simp add: bit_length.simps[of "nat n"] int_length.simps[of n])
  qed
qed

lemmas f_round_rat_code [code] = f_round_rat_def[unfolded bit_length_int]

text \<open>A signed numerator; a zero result takes the given sign.\<close>

definition f_round_signed :: "bool \<Rightarrow> int \<Rightarrow> int \<Rightarrow> int \<Rightarrow> f64" where
  "f_round_signed zero_neg num den e =
     (if num = 0 then f_zero zero_neg else f_round_rat (num < 0) \<bar>num\<bar> den e)"

section \<open>Arithmetic\<close>

definition f_neg :: "f64 \<Rightarrow> f64" where
  "f_neg x = x XOR (word_of_int (2 ^ 63))"

definition f_abs :: "f64 \<Rightarrow> f64" where
  "f_abs x = word_of_int (f_mag x)"

definition f_add :: "f64 \<Rightarrow> f64 \<Rightarrow> f64" where
  "f_add x y =
     (if f_is_nan x \<or> f_is_nan y then f_nan
      else if f_is_inf x then (if f_is_inf y \<and> f_neg_sign x \<noteq> f_neg_sign y then f_nan else x)
      else if f_is_inf y then y
      else
        let e = min (f_exp x) (f_exp y);
            n = f_mant x * 2 ^ nat (f_exp x - e) + f_mant y * 2 ^ nat (f_exp y - e)
        in f_round_signed (f_neg_sign x \<and> f_neg_sign y) n 1 e)"

definition f_sub :: "f64 \<Rightarrow> f64 \<Rightarrow> f64" where
  "f_sub x y = f_add x (if f_is_nan y then y else f_neg y)"

definition f_mul :: "f64 \<Rightarrow> f64 \<Rightarrow> f64" where
  "f_mul x y =
     (let neg = (f_neg_sign x \<noteq> f_neg_sign y) in
      if f_is_nan x \<or> f_is_nan y then f_nan
      else if f_is_inf x \<or> f_is_inf y
      then (if f_is_zero x \<or> f_is_zero y then f_nan else f_inf neg)
      else f_round_signed neg (f_mant x * f_mant y) 1 (f_exp x + f_exp y))"

definition f_div :: "f64 \<Rightarrow> f64 \<Rightarrow> f64" where
  "f_div x y =
     (let neg = (f_neg_sign x \<noteq> f_neg_sign y) in
      if f_is_nan x \<or> f_is_nan y then f_nan
      else if f_is_inf x then (if f_is_inf y then f_nan else f_inf neg)
      else if f_is_inf y then f_zero neg
      else if f_is_zero y then (if f_is_zero x then f_nan else f_inf neg)
      else f_round_signed neg (f_mant x * sgn (f_mant y)) \<bar>f_mant y\<bar> (f_exp x - f_exp y))"

text \<open>\<open>x % y\<close>: the exact remainder of truncating division, with the sign of \<open>x\<close>.\<close>

definition f_rem :: "f64 \<Rightarrow> f64 \<Rightarrow> f64" where
  "f_rem x y =
     (if f_is_nan x \<or> f_is_nan y \<or> f_is_inf x \<or> f_is_zero y then f_nan
      else if f_is_inf y then x
      else
        let e = min (f_exp x) (f_exp y);
            nx = \<bar>f_mant x\<bar> * 2 ^ nat (f_exp x - e); ny = \<bar>f_mant y\<bar> * 2 ^ nat (f_exp y - e)
        in f_round_signed (f_neg_sign x) (sgn (f_mant x) * (nx mod ny)) 1 e)"

text \<open>Newton's iteration for the integer square root, from above; \<open>fuel\<close> bounds its steps.\<close>

fun isqrt_loop :: "nat \<Rightarrow> int \<Rightarrow> int \<Rightarrow> int" where
  "isqrt_loop 0 n x = x"
| "isqrt_loop (Suc fuel) n x =
     (let y = (x + n div x) div 2 in if x \<le> y then x else isqrt_loop fuel n y)"

definition isqrt :: "int \<Rightarrow> int" where
  "isqrt n = (if n \<le> 0 then 0 else isqrt_loop (bit_length (nat n) + 8) n (2 ^ (bit_length (nat n) div 2 + 1)))"

text \<open>
  The square root: the exponent is made even, 220 extra bits put the integer root well past
  the rounding place, and a last bit tells an exact root from one with a remainder.
\<close>

definition f_sqrt :: "f64 \<Rightarrow> f64" where
  "f_sqrt x =
     (if f_is_nan x then f_nan
      else if f_is_zero x then x
      else if f_neg_sign x then f_nan
      else if f_is_inf x then x
      else
        let odd_e = (f_exp x mod 2 = 1);
            n = f_mant x * (if odd_e then 2 else 1) * 2 ^ 220; r = isqrt n;
            s = (if r * r = n then 2 * r else 2 * r + 1)
        in f_round_rat False s 1 ((f_exp x - (if odd_e then 1 else 0)) div 2 - 111))"

section \<open>Comparison\<close>

text \<open>The order of non-NaN values is the order of their signed patterns; both zeros are 0.\<close>

definition f_key :: "f64 \<Rightarrow> int" where
  "f_key x = (if f_neg_sign x then - f_mag x else f_mag x)"

definition f_lt :: "f64 \<Rightarrow> f64 \<Rightarrow> bool" where
  "f_lt x y \<longleftrightarrow> \<not> f_is_nan x \<and> \<not> f_is_nan y \<and> f_key x < f_key y"

definition f_le :: "f64 \<Rightarrow> f64 \<Rightarrow> bool" where
  "f_le x y \<longleftrightarrow> \<not> f_is_nan x \<and> \<not> f_is_nan y \<and> f_key x \<le> f_key y"

definition f_eq :: "f64 \<Rightarrow> f64 \<Rightarrow> bool" where
  "f_eq x y \<longleftrightarrow> \<not> f_is_nan x \<and> \<not> f_is_nan y \<and> f_key x = f_key y"

text \<open>\<open>f64::min\<close> and \<open>f64::max\<close> return the other operand when one is a NaN.\<close>

definition f_min :: "f64 \<Rightarrow> f64 \<Rightarrow> f64" where
  "f_min x y = (if f_is_nan x then y else if f_is_nan y then x else if f_lt y x then y else x)"

definition f_max :: "f64 \<Rightarrow> f64 \<Rightarrow> f64" where
  "f_max x y = (if f_is_nan x then y else if f_is_nan y then x else if f_lt x y then y else x)"

section \<open>Conversions\<close>

definition f_of_int :: "int \<Rightarrow> f64" where
  "f_of_int n = f_round_signed False n 1 0"

definition f_of_rat :: "int \<Rightarrow> int \<Rightarrow> f64" where
  "f_of_rat num den = f_round_signed False num den 0"

text \<open>\<open>f64::round\<close>: to the nearest integer, halves away from zero.\<close>

definition f_round :: "f64 \<Rightarrow> f64" where
  "f_round x =
     (if f_is_nan x then f_nan
      else if f_is_inf x \<or> 0 \<le> f_exp x then x
      else
        let u = 2 ^ nat (- f_exp x)
        in f_round_signed (f_neg_sign x) (sgn (f_mant x) * ((2 * \<bar>f_mant x\<bar> + u) div (2 * u))) 1 0)"

text \<open>The integer a finite value truncates to.\<close>

definition f_trunc_int :: "f64 \<Rightarrow> int" where
  "f_trunc_int x =
     (if 0 \<le> f_exp x then f_mant x * 2 ^ nat (f_exp x)
      else sgn (f_mant x) * (\<bar>f_mant x\<bar> div 2 ^ nat (- f_exp x)))"

text \<open>\<open>x as i32\<close> and \<open>x as u32\<close> saturate, and send a NaN to 0.\<close>

definition f_clamp_int :: "int \<Rightarrow> int \<Rightarrow> f64 \<Rightarrow> int" where
  "f_clamp_int lo hi x =
     (if f_is_nan x then 0
      else if f_is_inf x then (if f_neg_sign x then lo else hi)
      else max lo (min hi (f_trunc_int x)))"

definition f_to_i32 :: "f64 \<Rightarrow> i32" where
  "f_to_i32 x = word_of_int (f_clamp_int (- (2 ^ 31)) (2 ^ 31 - 1) x)"

definition f_to_u32 :: "f64 \<Rightarrow> u32" where
  "f_to_u32 x = word_of_int (f_clamp_int 0 (2 ^ 32 - 1) x)"

definition f_one :: f64 where
  "f_one = 0x3FF0000000000000"

definition f_half :: f64 where
  "f_half = 0x3FE0000000000000"

definition f_floor :: "f64 \<Rightarrow> f64" where
  "f_floor x =
     (if f_is_nan x then f_nan
      else if f_is_inf x \<or> 0 \<le> f_exp x then x
      else f_round_signed (f_neg_sign x) (f_mant x div 2 ^ nat (- f_exp x)) 1 0)"

text \<open>\<open>f64::clamp\<close>; a NaN stays.\<close>

definition f_clamp :: "f64 \<Rightarrow> f64 \<Rightarrow> f64 \<Rightarrow> f64" where
  "f_clamp x lo hi = (if f_lt x lo then lo else if f_lt hi x then hi else x)"

end
