(* ===== verification/Model.thy ===== *)
theory Model
  imports F64
begin

text \<open>
  The object substrate of the canvas: \<open>src/crates/scene-core/src/object/kernel/model.rs\<close>.
  Every struct is a record with the source's fields (prefixed, since field names are
  global here), every enum a datatype with the source's variants.

  \<open>json\<close> is the value type of \<open>serde_json\<close>, which the model only stores and compares.
\<close>

section \<open>Identifiers and opaque values\<close>

type_synonym object_id = str

datatype json =
    JNull
  | JBool bool
  | JPos u64
  | JNeg i64
  | JFloat f64
  | JString str
  | JArray "json list"
  | JObject "(str \<times> json) list"

type_synonym object_meta = "(str \<times> json) list"

definition geometry_quantum_per_px :: i32 where
  "geometry_quantum_per_px = 8"

section \<open>Geometry\<close>

record handle_point =
  h_dx :: i32
  h_dy :: i32

record path_node =
  n_x :: i32
  n_y :: i32
  n_in :: "handle_point option"
  n_out :: "handle_point option"
  n_width :: "i32 option"

definition corner :: "i32 \<Rightarrow> i32 \<Rightarrow> path_node" where
  "corner x y = \<lparr>n_x = x, n_y = y, n_in = None, n_out = None, n_width = None\<rparr>"

record sub_path =
  sp_closed :: bool
  sp_nodes :: "path_node list"

datatype fill_rule = EvenOdd | NonZero

record geometry =
  g_path :: str
  g_rule :: fill_rule
  g_subpaths :: "sub_path list"

section \<open>Transforms\<close>

text \<open>A row-major 3x3 matrix; a row is a triple.\<close>

type_synonym f_row = "f64 \<times> f64 \<times> f64"
type_synonym transform = "f_row \<times> f_row \<times> f_row"

definition transform_identity :: transform where
  "transform_identity = ((f_one, 0, 0), (0, f_one, 0), (0, 0, f_one))"

definition transform_translate :: "f64 \<Rightarrow> f64 \<Rightarrow> transform" where
  "transform_translate tx ty = ((f_one, 0, tx), (0, f_one, ty), (0, 0, f_one))"

text \<open>\<open>a[r][0] * b[0][c] + a[r][1] * b[1][c] + a[r][2] * b[2][c]\<close>, from the left.\<close>

fun row_dot :: "f_row \<Rightarrow> f64 \<Rightarrow> f64 \<Rightarrow> f64 \<Rightarrow> f64" where
  "row_dot (r0, r1, r2) c0 c1 c2 = f_add (f_add (f_mul r0 c0) (f_mul r1 c1)) (f_mul r2 c2)"

fun row_mul :: "f_row \<Rightarrow> transform \<Rightarrow> f_row" where
  "row_mul r ((b00, b01, b02), (b10, b11, b12), (b20, b21, b22)) =
     (row_dot r b00 b10 b20, row_dot r b01 b11 b21, row_dot r b02 b12 b22)"

fun transform_mul :: "transform \<Rightarrow> transform \<Rightarrow> transform" where
  "transform_mul (a0, a1, a2) b = (row_mul a0 b, row_mul a1 b, row_mul a2 b)"

text \<open>\<open>f64::EPSILON\<close> is \<open>2 powi -52\<close>.\<close>

definition f_epsilon :: f64 where
  "f_epsilon = 0x3CB0000000000000"

fun transform_apply_point :: "transform \<Rightarrow> f64 \<Rightarrow> f64 \<Rightarrow> f64 \<times> f64" where
  "transform_apply_point (m0, m1, (g, h, i)) x y =
     (case m0 of (a, b, c) \<Rightarrow> case m1 of (d, e, f) \<Rightarrow>
       let wx = f_add (f_add (f_mul a x) (f_mul b y)) c;
           wy = f_add (f_add (f_mul d x) (f_mul e y)) f;
           w = f_add (f_add (f_mul g x) (f_mul h y)) i
       in if f_lt f_epsilon (f_abs w) then (f_div wx w, f_div wy w) else (wx, wy))"

section \<open>Style, text, layout\<close>

record warp =
  w_cols :: i32
  w_rows :: i32
  w_points :: "path_node list"

record gradient_stop =
  gs_offset :: f64
  gs_color :: str

datatype paint =
    Solid (paint_color: str)
  | Gradient (paint_stops: "gradient_stop list") (paint_angle: f64)
  | Image (paint_ref: str)
  | PaintToken (paint_name: str)

record fill =
  f_paint :: paint
  f_opacity :: f64

datatype line_cap = Butt | RoundCap | Square
datatype line_join = Miter | RoundJoin | Bevel

record stroke =
  s_paint :: paint
  s_width :: i32
  s_opacity :: f64
  s_dash :: "i32 list"
  s_cap :: line_cap
  s_join :: line_join

datatype text_align = TextStart | TextCenter | TextEnd | Justify
datatype text_valign = Top | Middle | Bottom

record text_run =
  r_text :: str
  r_color :: "str option"
  r_size :: "i32 option"
  r_bold :: bool
  r_italic :: bool
  r_font :: "str option"

record text_block =
  t_runs :: "text_run list"
  t_align :: text_align
  t_valign :: text_valign

record local_point =
  l_x :: i32
  l_y :: i32

record anchor =
  a_node :: i32
  a_target :: object_id
  a_at :: local_point

datatype layout_axis = Horizontal | Vertical
datatype lanes = LaneCount (lane_value: u32) | LaneFill
datatype main_align = MainStart | MainCenter | MainEnd | SpaceBetween
datatype cross_align = CrossStart | CrossCenter | CrossEnd | Stretch

record align =
  al_main :: main_align
  al_cross :: cross_align

record layout =
  ly_axis :: layout_axis
  ly_lanes :: lanes
  ly_spacing :: i32
  ly_align :: align

datatype axis_sizing = Hug | FillAxis | Fixed (fixed_value: i32)

record sizing =
  sz_w :: axis_sizing
  sz_h :: axis_sizing

datatype comment_anchor = AtNode (ca_node: i32) | AtPoint (ca_at: local_point)

record comment =
  c_id :: str
  c_author :: str
  c_body :: str
  c_at :: "comment_anchor option"
  c_resolved :: bool

record content_embed =
  ce_kind :: str
  ce_ref :: str

section \<open>Objects and scenes\<close>

record object =
  o_id :: object_id
  o_parent :: "object_id option"
  o_order :: str
  o_transform :: transform
  o_warp :: "warp option"
  o_geometry :: geometry
  o_fill :: "fill option"
  o_stroke :: "stroke option"
  o_text :: "text_block option"
  o_anchors :: "anchor list"
  o_layout :: "layout option"
  o_sizing :: "sizing option"
  o_clip :: "bool option"
  o_comments :: "comment list"
  o_tags :: "str list"
  o_name :: "str option"
  o_hidden :: bool
  o_locked :: bool
  o_component_of :: "object_id option"
  o_content :: "content_embed option"
  o_meta :: "object_meta option"

definition object_new :: "object_id \<Rightarrow> str \<Rightarrow> geometry \<Rightarrow> object" where
  "object_new oid order geo =
     \<lparr>o_id = oid, o_parent = None, o_order = order, o_transform = transform_identity,
      o_warp = None, o_geometry = geo, o_fill = None, o_stroke = None, o_text = None,
      o_anchors = [], o_layout = None, o_sizing = None, o_clip = None, o_comments = [],
      o_tags = [], o_name = None, o_hidden = False, o_locked = False,
      o_component_of = None, o_content = None, o_meta = None\<rparr>"

record tag_def =
  tag_id :: str
  tag_name :: str
  tag_color :: str

datatype object_selection =
    SelCanvas
  | SelObject (sel_id: object_id)
  | SelMulti (sel_ids: "object_id list")

record scene =
  scene_version :: i64
  objects :: "object list"
  tags :: "tag_def list"
  selection :: object_selection
  updated_at :: str

definition scene_default :: scene where
  "scene_default =
     \<lparr>scene_version = 0, objects = [], tags = [], selection = SelCanvas, updated_at = []\<rparr>"

definition scene_get :: "scene \<Rightarrow> object_id \<Rightarrow> object option" where
  "scene_get sc oid = find (\<lambda>ob. o_id ob = oid) (objects sc)"

definition has_object :: "scene \<Rightarrow> object_id \<Rightarrow> bool" where
  "has_object sc oid \<longleftrightarrow> (\<exists>ob \<in> set (objects sc). o_id ob = oid)"

section \<open>Reading JSON values\<close>

definition json_str :: "json \<Rightarrow> str option" where
  "json_str v = (case v of JString s \<Rightarrow> Some s | _ \<Rightarrow> None)"

definition json_bool :: "json \<Rightarrow> bool option" where
  "json_bool v = (case v of JBool b \<Rightarrow> Some b | _ \<Rightarrow> None)"

definition json_f64 :: "json \<Rightarrow> f64 option" where
  "json_f64 v = (case v of JPos n \<Rightarrow> Some (f_of_int (uint n)) | JNeg n \<Rightarrow> Some (f_of_int (sint n))
     | JFloat f \<Rightarrow> Some f | _ \<Rightarrow> None)"

text \<open>JSON values compare with the equality of \<open>f64\<close> on numbers.\<close>

fun json_eq :: "json \<Rightarrow> json \<Rightarrow> bool" where
  "json_eq (JFloat a) (JFloat b) = f_eq a b"
| "json_eq (JArray xs) (JArray ys) = list_all2 json_eq xs ys"
| "json_eq (JObject m) (JObject n) = list_all2 (\<lambda>(k, x) (l, y). k = l \<and> json_eq x y) m n"
| "json_eq x y = (x = y)"

end
