(* ===== verification/Ops.thy ===== *)
theory Ops
  imports Model
begin

text \<open>
  The operation union and the requests of the feature channel: \<open>kernel/op.rs\<close>. Every edit of a scene is
  one \<open>object_op\<close>; its inverse is again an \<open>object_op\<close>.
\<close>

datatype 'a field_edit = SetTo (edit_value: 'a) | Clear

fun edit_from_option :: "'a option \<Rightarrow> 'a field_edit" where
  "edit_from_option (Some v) = SetTo v"
| "edit_from_option None = Clear"

fun edit_resolve :: "'a field_edit \<Rightarrow> 'a option \<Rightarrow> 'a option" where
  "edit_resolve (SetTo v) cur = Some v"
| "edit_resolve Clear cur = None"

lemma edit_resolve_from_option [simp]: "edit_resolve (edit_from_option v) cur = v"
  by (cases v) auto

datatype object_op =
    InsertObject object
  | EditGeometry object_id geometry
  | SetTransform object_id transform
  | SetStyle object_id "fill field_edit option" "stroke field_edit option"
  | SetText object_id "text_block option"
  | SetAnchor object_id "anchor list"
  | SetLayout object_id "layout option"
  | SetClip object_id "bool option"
  | SetSizing object_id "sizing option"
  | SetMeta object_id "str field_edit option" "bool option" "bool option"
  | Canonicalize object_id
  | AddComment object_id comment
  | SetComments object_id "comment list"
  | SetTags object_id "str list"
  | Reparent object_id "object_id option" str
  | Reorder object_id str
  | Delete object_id
  | Split object_id "object_id list" "i32 list"
  | Merge "object_id list" "object_id option"
  | Batch "object_op list"

text \<open>\<open>ObjectOp::kind\<close>: the wire name.\<close>

fun op_kind :: "object_op \<Rightarrow> str" where
  "op_kind (InsertObject _) = ''insert-object''"
| "op_kind (EditGeometry _ _) = ''edit-geometry''"
| "op_kind (SetTransform _ _) = ''set-transform''"
| "op_kind (SetStyle _ _ _) = ''set-style''"
| "op_kind (SetText _ _) = ''set-text''"
| "op_kind (SetAnchor _ _) = ''set-anchor''"
| "op_kind (SetLayout _ _) = ''set-layout''"
| "op_kind (SetClip _ _) = ''set-clip''"
| "op_kind (SetSizing _ _) = ''set-sizing''"
| "op_kind (SetMeta _ _ _ _) = ''set-meta''"
| "op_kind (Canonicalize _) = ''canonicalize''"
| "op_kind (AddComment _ _) = ''add-comment''"
| "op_kind (SetComments _ _) = ''set-comments''"
| "op_kind (SetTags _ _) = ''set-tags''"
| "op_kind (Reparent _ _ _) = ''reparent''"
| "op_kind (Reorder _ _) = ''reorder''"
| "op_kind (Delete _) = ''delete''"
| "op_kind (Split _ _ _) = ''split''"
| "op_kind (Merge _ _) = ''merge''"
| "op_kind (Batch _) = ''batch''"

text \<open>\<open>ObjectOp::target_ids\<close>; a batch concatenates the targets of its children.\<close>

fun target_ids :: "object_op \<Rightarrow> object_id list" where
  "target_ids (InsertObject ob) =
     o_id ob # (case o_parent ob of None \<Rightarrow> [] | Some p \<Rightarrow> [p])"
| "target_ids (EditGeometry oid _) = [oid]"
| "target_ids (SetTransform oid _) = [oid]"
| "target_ids (SetStyle oid _ _) = [oid]"
| "target_ids (SetText oid _) = [oid]"
| "target_ids (SetAnchor oid _) = [oid]"
| "target_ids (SetLayout oid _) = [oid]"
| "target_ids (SetClip oid _) = [oid]"
| "target_ids (SetSizing oid _) = [oid]"
| "target_ids (SetMeta oid _ _ _) = [oid]"
| "target_ids (Canonicalize oid) = [oid]"
| "target_ids (AddComment oid _) = [oid]"
| "target_ids (SetComments oid _) = [oid]"
| "target_ids (SetTags oid _) = [oid]"
| "target_ids (Reorder oid _) = [oid]"
| "target_ids (Delete oid) = [oid]"
| "target_ids (Reparent oid parent _) =
     oid # (case parent of None \<Rightarrow> [] | Some p \<Rightarrow> [p])"
| "target_ids (Split oid new_ids _) = oid # new_ids"
| "target_ids (Merge ids into) =
     ids @ (case into of None \<Rightarrow> [] | Some i \<Rightarrow> if i \<in> set ids then [] else [i])"
| "target_ids (Batch ops) = concat (map target_ids ops)"

datatype feature_request =
    CanvasSwitch str
  | CommentUpsert str object_id comment
  | TemplateApply str "object list" f64 f64
  | ExportRequest str "str list" str str

end
