(* ===== verification/Validate.thy ===== *)
theory Validate
  imports Model
begin

text \<open>
  The structural validators of \<open>kernel/validate.rs\<close>. \<open>apply_object_op\<close> is gated on the
  first three; the scene-wide ones report every defect of a whole scene.
\<close>

datatype validation_error =
    EmptyGeometry
  | DegenerateSubpath i32 bool i32
  | ParentCycle object_id
  | MissingTarget object_id object_id
  | AnchorNodeOutOfRange object_id i32 i32
  | CommentNodeOutOfRange object_id str i32 i32
  | NegativeSizing i32
  | ZeroLanes

fun validate_axis :: "axis_sizing \<Rightarrow> validation_error option" where
  "validate_axis (Fixed v) = (if sint v < 0 then Some (NegativeSizing v) else None)"
| "validate_axis _ = None"

definition validate_sizing :: "sizing \<Rightarrow> validation_error + unit" where
  "validate_sizing s =
     (case validate_axis (sz_w s) of
        Some e \<Rightarrow> Inl e
      | None \<Rightarrow> (case validate_axis (sz_h s) of Some e \<Rightarrow> Inl e | None \<Rightarrow> Inr ()))"

definition validate_layout :: "layout \<Rightarrow> validation_error + unit" where
  "validate_layout l =
     (case ly_lanes l of
        LaneCount v \<Rightarrow> if v < 1 then Inl ZeroLanes else Inr ()
      | LaneFill \<Rightarrow> Inr ())"

text \<open>Summed in \<open>i64\<close> (a length is below \<open>2^63\<close>) and saturated to \<open>i32\<close>.\<close>

definition flattened_node_count :: "geometry \<Rightarrow> i32" where
  "flattened_node_count g =
     (let total = sum_list (map (\<lambda>sp. of_nat (length (sp_nodes sp)) :: i64) (g_subpaths g))
      in if -2147483648 \<le> sint total \<and> sint total \<le> 2147483647
         then word_of_int (sint total) else i32_max)"

definition min_nodes :: "sub_path \<Rightarrow> nat" where
  "min_nodes sp = (if sp_closed sp then 3 else 2)"

fun degenerate_from :: "nat \<Rightarrow> sub_path list \<Rightarrow> validation_error + unit" where
  "degenerate_from i [] = Inr ()"
| "degenerate_from i (sp # sps) =
     (if sp_nodes sp = [] then degenerate_from (Suc i) sps
      else if length (sp_nodes sp) < min_nodes sp
      then Inl (DegenerateSubpath (i32_of_len i) (sp_closed sp) (i32_of_len (length (sp_nodes sp))))
      else degenerate_from (Suc i) sps)"

definition validate_geometry :: "geometry \<Rightarrow> validation_error + unit" where
  "validate_geometry g =
     (if \<not> (\<exists>sp \<in> set (g_subpaths g). sp_nodes sp \<noteq> []) then Inl EmptyGeometry
      else degenerate_from 0 (g_subpaths g))"

text \<open>The \<open>HashMap\<close> of parents: a later object with the same id replaces an earlier one.\<close>

definition parent_of :: "object list \<Rightarrow> object_id \<Rightarrow> object_id option" where
  "parent_of obs oid =
     Option.bind (map_of (rev (map (\<lambda>ob. (o_id ob, o_parent ob)) obs)) oid) (\<lambda>p. p)"

lemma parent_of_SomeD: "parent_of obs oid = Some p \<Longrightarrow> oid \<in> o_id ` set obs"
  by (auto simp: parent_of_def bind_eq_Some_conv dest!: map_of_SomeD)

function cycle_walk :: "object list \<Rightarrow> object_id list \<Rightarrow> object_id option \<Rightarrow> bool" where
  "cycle_walk obs seen None = False"
| "cycle_walk obs seen (Some p) =
     (if p \<in> set seen then True else cycle_walk obs (seen @ [p]) (parent_of obs p))"
  by pat_completeness auto
termination
proof (relation "measure (\<lambda>(obs, seen, cur).
    2 * card (o_id ` set obs - set seen) + (if cur = None then 0 else 1))")
  fix obs :: "object list" and seen :: "object_id list" and p :: object_id
  assume new: "p \<notin> set seen"
  show "((obs, seen @ [p], parent_of obs p), obs, seen, Some p) \<in>
      measure (\<lambda>(obs, seen, cur). 2 * card (o_id ` set obs - set seen) + (if cur = None then 0 else 1))"
  proof (cases "parent_of obs p")
    case None
    have "card (o_id ` set obs - set (seen @ [p])) \<le> card (o_id ` set obs - set seen)"
      by (intro card_mono) auto
    with None show ?thesis by simp
  next
    case (Some q)
    then have "p \<in> o_id ` set obs" by (rule parent_of_SomeD)
    then have "card (o_id ` set obs - set (seen @ [p])) < card (o_id ` set obs - set seen)"
      using new by (intro psubset_card_mono) auto
    with Some show ?thesis by simp
  qed
qed auto

fun first_cycle :: "object list \<Rightarrow> object list \<Rightarrow> validation_error + unit" where
  "first_cycle obs [] = Inr ()"
| "first_cycle obs (ob # rest) =
     (if cycle_walk obs [o_id ob] (parent_of obs (o_id ob)) then Inl (ParentCycle (o_id ob))
      else first_cycle obs rest)"

definition validate_no_parent_cycle :: "scene \<Rightarrow> validation_error + unit" where
  "validate_no_parent_cycle sc = first_cycle (objects sc) (objects sc)"

fun check_anchors :: "scene \<Rightarrow> object \<Rightarrow> i32 \<Rightarrow> anchor list \<Rightarrow> validation_error + unit" where
  "check_anchors sc ob count [] = Inr ()"
| "check_anchors sc ob count (a # as) =
     (if \<not> has_object sc (a_target a) then Inl (MissingTarget (o_id ob) (a_target a))
      else if sint (a_node a) < 0 \<or> sint count \<le> sint (a_node a)
      then Inl (AnchorNodeOutOfRange (o_id ob) (a_node a) count)
      else check_anchors sc ob count as)"

fun check_all_anchors :: "scene \<Rightarrow> object list \<Rightarrow> validation_error + unit" where
  "check_all_anchors sc [] = Inr ()"
| "check_all_anchors sc (ob # obs) =
     and_then (check_anchors sc ob (flattened_node_count (o_geometry ob)) (o_anchors ob))
       (\<lambda>_. check_all_anchors sc obs)"

definition validate_anchor_targets :: "scene \<Rightarrow> validation_error + unit" where
  "validate_anchor_targets sc = check_all_anchors sc (objects sc)"

fun check_comments :: "object \<Rightarrow> i32 \<Rightarrow> comment list \<Rightarrow> validation_error + unit" where
  "check_comments ob count [] = Inr ()"
| "check_comments ob count (c # cs) =
     (case c_at c of
        Some (AtNode i) \<Rightarrow>
          if sint i < 0 \<or> sint count \<le> sint i
          then Inl (CommentNodeOutOfRange (o_id ob) (c_id c) i count)
          else check_comments ob count cs
      | _ \<Rightarrow> check_comments ob count cs)"

definition validate_object :: "object \<Rightarrow> validation_error + unit" where
  "validate_object ob =
     and_then (validate_geometry (o_geometry ob)) (\<lambda>_.
       check_comments ob (flattened_node_count (o_geometry ob)) (o_comments ob))"

fun err_list :: "'e + 'a \<Rightarrow> 'e list" where
  "err_list (Inl e) = [e]"
| "err_list (Inr _) = []"

definition validate_scene :: "scene \<Rightarrow> validation_error list" where
  "validate_scene sc =
     concat (map (\<lambda>ob. err_list (validate_object ob)) (objects sc)) @
     err_list (validate_no_parent_cycle sc) @ err_list (validate_anchor_targets sc)"

end
