(* ===== verification/Decimal.thy ===== *)
theory Decimal
  imports Prelude
begin

text \<open>
  Decimal text of machine integers, as Rust's \<open>Display\<close> prints it and as
  \<open>str::parse\<close> reads it back, with the round trip between the two.
\<close>

section \<open>Printing\<close>

definition digit_char :: "nat \<Rightarrow> char" where
  "digit_char d = char_of (48 + d)"

fun show_nat :: "nat \<Rightarrow> str" where
  "show_nat n = (if n < 10 then [digit_char n] else show_nat (n div 10) @ [digit_char (n mod 10)])"

declare show_nat.simps [simp del]

definition show_int :: "int \<Rightarrow> str" where
  "show_int n = (if n < 0 then CHR ''-'' # show_nat (nat (- n)) else show_nat (nat n))"

definition show_i32 :: "i32 \<Rightarrow> str" where
  "show_i32 x = show_int (sint x)"

section \<open>Parsing\<close>

datatype int_error = EmptyInt | InvalidIntDigit | PosOverflow | NegOverflow

definition digit_value :: "char \<Rightarrow> nat option" where
  "digit_value c = (if 48 \<le> byte c \<and> byte c \<le> 57 then Some (byte c - 48) else None)"

text \<open>
  The digit loop of an integer type with the bounds \<open>lo\<close> and \<open>hi\<close>: \<open>checked_mul\<close> by ten, the
  digit test, then the overflow of the product and of the sum. \<open>sg\<close> is 1 or -1: a negative
  number is accumulated downwards.
\<close>

definition in_range :: "int \<Rightarrow> int \<Rightarrow> int \<Rightarrow> bool" where
  "in_range lo hi n \<longleftrightarrow> lo \<le> n \<and> n \<le> hi"

fun parse_digits :: "int \<Rightarrow> int \<Rightarrow> int \<Rightarrow> int \<Rightarrow> str \<Rightarrow> int_error + int" where
  "parse_digits lo hi sg acc [] = Inr acc"
| "parse_digits lo hi sg acc (c # cs) =
     (case digit_value c of
        None \<Rightarrow> Inl InvalidIntDigit
      | Some d \<Rightarrow>
          if in_range lo hi (acc * 10) \<and> in_range lo hi (acc * 10 + sg * int d)
          then parse_digits lo hi sg (acc * 10 + sg * int d) cs
          else Inl (if sg = 1 then PosOverflow else NegOverflow))"

definition parse_int :: "int \<Rightarrow> int \<Rightarrow> str \<Rightarrow> int_error + int" where
  "parse_int lo hi s =
     (if s = [] then Inl EmptyInt
      else if s = ''+'' \<or> s = ''-'' then Inl InvalidIntDigit
      else if hd s = CHR ''+'' then parse_digits lo hi 1 0 (tl s)
      else if hd s = CHR ''-'' then parse_digits lo hi (-1) 0 (tl s)
      else parse_digits lo hi 1 0 s)"

definition parse_i32 :: "str \<Rightarrow> int_error + i32" where
  "parse_i32 s = map_sum (\<lambda>e. e) word_of_int (parse_int (-2147483648) 2147483647 s)"

definition parse_i64 :: "str \<Rightarrow> int_error + i64" where
  "parse_i64 s = map_sum (\<lambda>e. e) word_of_int (parse_int (-9223372036854775808) 9223372036854775807 s)"

section \<open>Round trip\<close>

lemma byte_digit_char: "d < 10 \<Longrightarrow> byte (digit_char d) = 48 + d"
  by (simp add: digit_char_def of_char_of)

lemma digit_value_digit_char: "d < 10 \<Longrightarrow> digit_value (digit_char d) = Some d"
  by (simp add: digit_value_def byte_digit_char)

lemma parse_digits_append:
  "parse_digits lo hi sg acc (xs @ ys) =
     (case parse_digits lo hi sg acc xs of Inl e \<Rightarrow> Inl e | Inr a \<Rightarrow> parse_digits lo hi sg a ys)"
  by (induction xs arbitrary: acc) (auto split: option.splits)

lemma parse_digits_show_nat:
  assumes "sg = 1 \<or> sg = -1" and "in_range lo hi (sg * int n)" "lo < 0" "0 < hi"
  shows "parse_digits lo hi sg 0 (show_nat n) = Inr (sg * int n)"
  using assms(2)
proof (induction n rule: show_nat.induct)
  case (1 n)
  show ?case
  proof (cases "n < 10")
    case True
    then show ?thesis using 1(2) assms(3,4)
      by (simp add: show_nat.simps digit_value_digit_char in_range_def)
  next
    case False
    have split: "int n = int (n div 10) * 10 + int (n mod 10)"
      by (metis div_mult_mod_eq int_ops(7) of_nat_add of_nat_numeral)
    have "in_range lo hi (sg * int (n div 10))" and step: "in_range lo hi (sg * int (n div 10) * 10)"
      using 1(2) assms(1,3,4) split by (auto simp: in_range_def)
    then have ih: "parse_digits lo hi sg 0 (show_nat (n div 10)) = Inr (sg * int (n div 10))"
      using 1(1) False by blast
    have sum: "sg * int (n div 10) * 10 + sg * int (n mod 10) = sg * int n"
      using split by (metis distrib_left mult.assoc)
    have "parse_digits lo hi sg 0 (show_nat n) =
        parse_digits lo hi sg (sg * int (n div 10)) [digit_char (n mod 10)]"
      using False by (subst show_nat.simps) (simp add: parse_digits_append ih)
    also have "\<dots> = Inr (sg * int n)"
      using step sum 1(2) by (simp add: digit_value_digit_char del: of_nat_mod)
    finally show ?thesis .
  qed
qed

lemma show_nat_digits: "c \<in> set (show_nat n) \<Longrightarrow> 48 \<le> byte c \<and> byte c \<le> 57"
proof (induction n rule: show_nat.induct)
  case (1 n)
  have "byte (digit_char (n mod 10)) \<le> 57" "48 \<le> byte (digit_char (n mod 10))"
    using byte_digit_char[of "n mod 10"] by auto
  then show ?case using 1 byte_digit_char[of n]
    by (subst (asm) (2) show_nat.simps) (auto split: if_splits)
qed

lemma show_nat_not_Nil [simp]: "show_nat n \<noteq> []"
  by (subst show_nat.simps) simp

lemma show_int_not_Nil [simp]: "show_int n \<noteq> []"
  by (simp add: show_int_def)

lemma show_int_chars: "c \<in> set (show_int n) \<Longrightarrow> byte c = 45 \<or> (48 \<le> byte c \<and> byte c \<le> 57)"
  by (auto simp: show_int_def split: if_splits dest: show_nat_digits)

lemma parse_int_show:
  assumes "in_range lo hi n" "lo < 0" "0 < hi"
  shows "parse_int lo hi (show_int n) = Inr n"
proof (cases "n < 0")
  case True
  have "parse_digits lo hi (-1) 0 (show_nat (nat (- n))) = Inr n"
    using parse_digits_show_nat[of "-1" lo hi "nat (- n)"] assms True by simp
  with True show ?thesis
    by (simp add: show_int_def parse_int_def)
next
  case False
  let ?s = "show_nat (nat n)"
  have d: "c \<noteq> CHR ''+'' \<and> c \<noteq> CHR ''-''" if "c \<in> set ?s" for c
    using show_nat_digits[OF that] by auto
  have ne: "?s \<noteq> ''+''" "?s \<noteq> ''-''" using d by force+
  have hd: "hd ?s \<noteq> CHR ''+''" "hd ?s \<noteq> CHR ''-''" using d by (metis hd_in_set show_nat_not_Nil)+
  have "parse_digits lo hi 1 0 ?s = Inr n"
    using parse_digits_show_nat[of 1 lo hi "nat n"] assms False by simp
  with False hd ne show ?thesis
    by (simp add: show_int_def parse_int_def)
qed

lemma parse_i32_show: "parse_i32 (show_i32 x) = Inr x"
proof -
  have "in_range (-2147483648) 2147483647 (sint x)"
    using sint_range_size[of x] by (auto simp: in_range_def word_size)
  then show ?thesis by (simp add: show_i32_def parse_i32_def parse_int_show)
qed

lemma parse_i64_show: "parse_i64 (show_int (sint x)) = Inr x"
proof -
  have "in_range (-9223372036854775808) 9223372036854775807 (sint x)"
    using sint_range_size[of x] by (auto simp: in_range_def word_size)
  then show ?thesis by (simp add: parse_i64_def parse_int_show)
qed

end
