(* ===== verification/PathString.thy ===== *)
theory PathString
  imports Model Decimal
begin

text \<open>
  The path-string codec (\<open>path_string\<close> in \<open>kernel/model.rs\<close>) and the geometry
  methods built on it. Coordinate arithmetic is \<open>i32\<close> and wraps.
\<close>

section \<open>Encoding\<close>

definition handle_dx :: "handle_point option \<Rightarrow> i32" where
  "handle_dx h = (case h of None \<Rightarrow> 0 | Some p \<Rightarrow> h_dx p)"

definition handle_dy :: "handle_point option \<Rightarrow> i32" where
  "handle_dy h = (case h of None \<Rightarrow> 0 | Some p \<Rightarrow> h_dy p)"

definition emit_segment :: "path_node \<Rightarrow> path_node \<Rightarrow> str" where
  "emit_segment a b =
     (if n_out a = None \<and> n_in b = None
      then '' L '' @ show_i32 (n_x b) @ '' '' @ show_i32 (n_y b)
      else '' C '' @ show_i32 (n_x a + handle_dx (n_out a)) @
           '' '' @ show_i32 (n_y a + handle_dy (n_out a)) @
           '' '' @ show_i32 (n_x b + handle_dx (n_in b)) @
           '' '' @ show_i32 (n_y b + handle_dy (n_in b)) @
           '' '' @ show_i32 (n_x b) @ '' '' @ show_i32 (n_y b))"

text \<open>\<open>windows(2)\<close> over the nodes.\<close>

fun emit_windows :: "path_node list \<Rightarrow> str" where
  "emit_windows (a # b # ns) = emit_segment a b @ emit_windows (b # ns)"
| "emit_windows ns = []"

definition emit_closing :: "sub_path \<Rightarrow> str" where
  "emit_closing sp =
     (if sp_closed sp
      then (let l = last (sp_nodes sp); f = hd (sp_nodes sp)
            in if n_out l \<noteq> None \<or> n_in f \<noteq> None then emit_segment l f else []) @ '' Z''
      else [])"

fun serialize_from :: "str \<Rightarrow> sub_path list \<Rightarrow> str" where
  "serialize_from out [] = out"
| "serialize_from out (sp # sps) =
     (if sp_nodes sp = [] then serialize_from out sps
      else serialize_from
        (out @ (if out \<noteq> [] then '' '' else []) @
         ''M '' @ show_i32 (n_x (hd (sp_nodes sp))) @ '' '' @ show_i32 (n_y (hd (sp_nodes sp))) @
         emit_windows (sp_nodes sp) @ emit_closing sp) sps)"

definition serialize :: "sub_path list \<Rightarrow> str" where
  "serialize sps = serialize_from [] sps"

section \<open>Decoding\<close>

datatype path_error =
    UnexpectedEnd
  | BadCoordinate int_error
  | LBeforeM
  | CBeforeM
  | ZBeforeM
  | UnsupportedCommand str

text \<open>
  The number of bytes of a separator at the head of a string, 0 when there is none:
  a comma, or a character with the Unicode property \<open>White_Space\<close> in UTF-8.
\<close>

definition sep_len :: "str \<Rightarrow> nat" where
  "sep_len s =
     (case s of
        [] \<Rightarrow> 0
      | c # cs \<Rightarrow>
          if byte c = 44 \<or> byte c = 32 \<or> (9 \<le> byte c \<and> byte c \<le> 13) then 1
          else (case cs of
            [] \<Rightarrow> 0
          | d # ds \<Rightarrow>
              if byte c = 0xC2 \<and> (byte d = 0x85 \<or> byte d = 0xA0) then 2
              else (case ds of
                [] \<Rightarrow> 0
              | e # _ \<Rightarrow>
                  if (byte c = 0xE1 \<and> byte d = 0x9A \<and> byte e = 0x80) \<or>
                     (byte c = 0xE2 \<and> byte d = 0x80 \<and>
                       ((0x80 \<le> byte e \<and> byte e \<le> 0x8A) \<or> byte e = 0xA8 \<or> byte e = 0xA9 \<or> byte e = 0xAF)) \<or>
                     (byte c = 0xE2 \<and> byte d = 0x81 \<and> byte e = 0x9F) \<or>
                     (byte c = 0xE3 \<and> byte d = 0x80 \<and> byte e = 0x80)
                  then 3 else 0)))"

text \<open>Splitting at every separator, dropping empty pieces; \<open>cur\<close> is the piece being read.\<close>

definition push_token :: "str \<Rightarrow> str list \<Rightarrow> str list" where
  "push_token cur ts = (if cur = [] then ts else cur # ts)"

function tokens_from :: "str \<Rightarrow> str \<Rightarrow> str list" where
  "tokens_from cur [] = push_token cur []"
| "tokens_from cur (c # cs) =
     (if sep_len (c # cs) = 0 then tokens_from (cur @ [c]) cs
      else push_token cur (tokens_from [] (drop (sep_len (c # cs) - 1) cs)))"
  by pat_completeness auto
termination by (relation "measure (\<lambda>(cur, s). length s)") auto

definition tokens :: "str \<Rightarrow> str list" where
  "tokens s = tokens_from [] s"

fun next_num :: "str list \<Rightarrow> path_error + (i32 \<times> str list)" where
  "next_num [] = Inl UnexpectedEnd"
| "next_num (t # ts) = and_then (map_err BadCoordinate (parse_i32 t)) (\<lambda>x. Inr (x, ts))"

definition next_point :: "str list \<Rightarrow> path_error + (i32 \<times> i32 \<times> str list)" where
  "next_point ts =
     and_then (next_num ts) (\<lambda>(x, ts). and_then (next_num ts) (\<lambda>(y, ts). Inr (x, y, ts)))"

lemma next_num_shorter: "next_num ts = Inr (x, ts') \<Longrightarrow> length ts' < length ts"
  by (cases ts) (auto elim!: and_then_InrE)

lemma next_point_shorter: "next_point ts = Inr (x, y, ts') \<Longrightarrow> length ts' < length ts"
  unfolding next_point_def by (auto dest!: next_num_shorter)

definition push_node :: "sub_path \<Rightarrow> path_node \<Rightarrow> sub_path" where
  "push_node sp n = sp\<lparr>sp_nodes := sp_nodes sp @ [n]\<rparr>"

text \<open>\<open>if let Some(prev) = sp.nodes.last_mut()\<close>: set the outgoing handle of the last node.\<close>

definition set_last_out :: "i32 \<Rightarrow> i32 \<Rightarrow> sub_path \<Rightarrow> sub_path" where
  "set_last_out cx cy sp =
     (if sp_nodes sp = [] then sp
      else let p = last (sp_nodes sp) in
        sp\<lparr>sp_nodes := butlast (sp_nodes sp) @
             [p\<lparr>n_out := Some \<lparr>h_dx = cx - n_x p, h_dy = cy - n_y p\<rparr>\<rparr>]\<rparr>)"

definition opt_list :: "'a option \<Rightarrow> 'a list" where
  "opt_list m = (case m of None \<Rightarrow> [] | Some x \<Rightarrow> [x])"

text \<open>
  One command of the \<open>while let\<close> loop: the finished contours and the current one before and
  after it, and the tokens left.
\<close>

type_synonym path_state = "sub_path list \<times> sub_path option"

definition is_command :: "str \<Rightarrow> str \<Rightarrow> str \<Rightarrow> bool" where
  "is_command u l t \<longleftrightarrow> t = u \<or> t = l"

fun path_command ::
    "path_state \<Rightarrow> str \<Rightarrow> str list \<Rightarrow> path_error + (path_state \<times> str list)" where
  "path_command (sps, cur) t ts =
     (if is_command ''M'' ''m'' t then
        and_then (next_point ts) (\<lambda>(x, y, ts').
          Inr ((sps @ opt_list cur, Some \<lparr>sp_closed = False, sp_nodes = [corner x y]\<rparr>), ts'))
      else if is_command ''L'' ''l'' t then
        and_then (next_point ts) (\<lambda>(x, y, ts').
          case cur of
            None \<Rightarrow> Inl LBeforeM
          | Some sp \<Rightarrow> Inr ((sps, Some (push_node sp (corner x y))), ts'))
      else if is_command ''C'' ''c'' t then
        and_then (next_point ts) (\<lambda>(c1x, c1y, ts1).
        and_then (next_point ts1) (\<lambda>(c2x, c2y, ts2).
        and_then (next_point ts2) (\<lambda>(x, y, ts').
          case cur of
            None \<Rightarrow> Inl CBeforeM
          | Some sp \<Rightarrow>
              Inr ((sps,
                Some (push_node (set_last_out c1x c1y sp)
                   \<lparr>n_x = x, n_y = y, n_in = Some \<lparr>h_dx = c2x - x, h_dy = c2y - y\<rparr>,
                    n_out = None, n_width = None\<rparr>)), ts'))))
      else if is_command ''Z'' ''z'' t then
        (case cur of
           None \<Rightarrow> Inl ZBeforeM
         | Some sp \<Rightarrow> Inr ((sps, Some (sp\<lparr>sp_closed := True\<rparr>)), ts))
      else Inl (UnsupportedCommand t))"

lemma path_command_shorter:
  assumes "path_command st t ts = Inr (st', ts')" shows "length ts' \<le> length ts"
proof -
  obtain sps cur where st: "st = (sps, cur)" by (cases st)
  show ?thesis using assms unfolding st path_command.simps
    by (auto split: if_splits option.splits dest!: next_point_shorter)
qed

function (sequential) parse_loop :: "path_state \<Rightarrow> str list \<Rightarrow> path_error + sub_path list" where
  "parse_loop (sps, cur) [] = Inr (sps @ opt_list cur)"
| "parse_loop st (t # ts) =
     and_then (path_command st t ts) (\<lambda>r. parse_loop (fst r) (snd r))"
  by pat_completeness auto
termination
  by (relation "measure (\<lambda>(st, ts). length ts)")
    (auto dest!: path_command_shorter simp: less_Suc_eq_le)

declare path_command.simps [simp del]

definition parse_path :: "str \<Rightarrow> path_error + sub_path list" where
  "parse_path s = parse_loop ([], None) (tokens s)"

section \<open>Geometry methods\<close>

definition geometry_from_subpaths :: "sub_path list \<Rightarrow> fill_rule \<Rightarrow> geometry" where
  "geometry_from_subpaths sps rule =
     \<lparr>g_path = serialize sps, g_rule = rule, g_subpaths = sps\<rparr>"

definition geometry_parse :: "geometry \<Rightarrow> path_error + geometry" where
  "geometry_parse g = and_then (parse_path (g_path g)) (\<lambda>sps. Inr (g\<lparr>g_subpaths := sps\<rparr>))"

definition geometry_ensure_parsed :: "geometry \<Rightarrow> path_error + geometry" where
  "geometry_ensure_parsed g =
     (if g_subpaths g = [] \<and> g_path g \<noteq> [] then geometry_parse g else Inr g)"

definition geometry_reencode :: "geometry \<Rightarrow> geometry" where
  "geometry_reencode g = g\<lparr>g_path := serialize (g_subpaths g)\<rparr>"

definition object_ensure_parsed :: "object \<Rightarrow> path_error + object" where
  "object_ensure_parsed ob =
     and_then (geometry_ensure_parsed (o_geometry ob)) (\<lambda>g. Inr (ob\<lparr>o_geometry := g\<rparr>))"

text \<open>
  The loop over the scene's objects; an error leaves the objects before it parsed, which
  the first component of the result records.
\<close>

fun ensure_parsed_objects :: "object list \<Rightarrow> object list \<times> path_error option" where
  "ensure_parsed_objects [] = ([], None)"
| "ensure_parsed_objects (ob # obs) =
     (case object_ensure_parsed ob of
        Inl e \<Rightarrow> (ob # obs, Some e)
      | Inr ob' \<Rightarrow> (case ensure_parsed_objects obs of (obs', r) \<Rightarrow> (ob' # obs', r)))"

definition scene_ensure_parsed :: "scene \<Rightarrow> scene \<times> path_error option" where
  "scene_ensure_parsed sc =
     (case ensure_parsed_objects (objects sc) of (obs, r) \<Rightarrow> (sc\<lparr>objects := obs\<rparr>, r))"

end
