(* ===== verification/Affine.thy ===== *)
theory Affine
  imports PathString
begin

text \<open>
  Affine maps and the extraction of a geometry's dominant orientation:
  \<open>binding/affine.rs\<close> and the three affine helpers of \<open>binding/anchor_follow.rs\<close>.
  The transcendental functions come from the parameter \<open>lm\<close>.
\<close>

type_synonym affine = "f_row \<times> f_row"

definition affine_of :: "transform \<Rightarrow> affine" where
  "affine_of t = (case t of (r0, r1, r2) \<Rightarrow> (r0, r1))"

fun apply_affine :: "affine \<Rightarrow> f64 \<Rightarrow> f64 \<Rightarrow> f64 \<times> f64" where
  "apply_affine ((a00, a01, a02), (a10, a11, a12)) x y =
     (f_add (f_add (f_mul a00 x) (f_mul a01 y)) a02,
      f_add (f_add (f_mul a10 x) (f_mul a11 y)) a12)"

fun invert_affine :: "affine \<Rightarrow> affine" where
  "invert_affine ((a00, a01, a02), (a10, a11, a12)) =
     (let det = f_sub (f_mul a00 a11) (f_mul a01 a10) in
      if f_eq det 0 then ((f_one, 0, 0), (0, f_one, 0))
      else
        let ia = f_div a11 det; ib = f_div (f_neg a01) det;
            id' = f_div (f_neg a10) det; ie = f_div a00 det
        in ((ia, ib, f_neg (f_add (f_mul ia a02) (f_mul ib a12))),
            (id', ie, f_neg (f_add (f_mul id' a02) (f_mul ie a12)))))"

definition units_per_px :: f64 where "units_per_px = 0x4020000000000000"  \<comment> \<open>8.0\<close>
definition min_dominant_edge_px :: f64 where "min_dominant_edge_px = f_one"
definition angle_epsilon_rad :: f64 where "angle_epsilon_rad = 0x3EB0C6F7A0B5ED8D"  \<comment> \<open>1e-6\<close>
definition frac_pi_2 :: f64 where "frac_pi_2 = 0x3FF921FB54442D18"
definition f_pi :: f64 where "f_pi = 0x400921FB54442D18"

definition f_of_i32 :: "i32 \<Rightarrow> f64" where
  "f_of_i32 x = f_of_int (sint x)"

section \<open>Decomposition\<close>

record affine_decomposition =
  d_translate :: "f64 \<times> f64"
  d_rotation :: f64
  d_scale :: "f64 \<times> f64"
  d_skew :: f64

fun decompose_affine :: "libm \<Rightarrow> transform \<Rightarrow> affine_decomposition" where
  "decompose_affine lm ((a, c, e), (b, d, f), _) =
     (let scale_x = hypot_f lm a b in
      if f_eq scale_x 0
      then \<lparr>d_translate = (e, f), d_rotation = 0, d_scale = (0, hypot_f lm c d), d_skew = 0\<rparr>
      else
        let rotation = atan2_f lm b a;
            ax = f_div a scale_x; bx = f_div b scale_x;
            shear = f_add (f_mul ax c) (f_mul bx d);
            cy = f_sub c (f_mul ax shear); dy = f_sub d (f_mul bx shear);
            sy = hypot_f lm cy dy;
            det = f_sub (f_mul a d) (f_mul b c);
            scale_y = (if f_lt det 0 then f_neg sy else sy);
            skew = (if \<not> f_eq scale_y 0 then atan2_f lm shear scale_y else 0)
        in \<lparr>d_translate = (e, f), d_rotation = rotation, d_scale = (scale_x, scale_y),
            d_skew = skew\<rparr>)"

fun compose_affine :: "libm \<Rightarrow> f64 \<times> f64 \<Rightarrow> f64 \<Rightarrow> f64 \<times> f64 \<Rightarrow> f64 \<Rightarrow> transform" where
  "compose_affine lm (tx, ty) rotation (sx, sy) skew =
     (let c' = cos_f lm rotation; s' = sin_f lm rotation; t' = tan_f lm skew;
          a = f_mul c' sx; b = f_mul s' sx;
          c = f_mul (f_sub (f_mul c' t') s') sy;
          d = f_mul (f_add (f_mul s' t') c') sy
      in ((a, c, tx), (b, d, ty), (0, 0, f_one)))"

text \<open>\<open>f64::to_radians\<close> multiplies by \<open>PI / 180\<close>.\<close>

definition to_radians :: "f64 \<Rightarrow> f64" where
  "to_radians x = f_mul x (f_div f_pi (f_of_int 180))"

definition set_transform_field :: "libm \<Rightarrow> transform \<Rightarrow> str \<Rightarrow> f64 \<Rightarrow> transform" where
  "set_transform_field lm t field v =
     (let d = decompose_affine lm t;
          build = (\<lambda>d. compose_affine lm (d_translate d) (d_rotation d) (d_scale d) (d_skew d))
      in if field = ''x'' then build (d\<lparr>d_translate := (v, snd (d_translate d))\<rparr>)
         else if field = ''y'' then build (d\<lparr>d_translate := (fst (d_translate d), v)\<rparr>)
         else if field = ''rotation'' \<or> field = ''rotation-flow''
         then build (d\<lparr>d_rotation := to_radians v\<rparr>)
         else t)"

section \<open>Quantization and rotation\<close>

definition quantize_units :: "f64 \<Rightarrow> f64 \<Rightarrow> i32" where
  "quantize_units px scale = f_to_i32 (f_round (f_mul px scale))"

definition quantize :: "f64 \<Rightarrow> i32" where
  "quantize px = quantize_units px units_per_px"

definition rotate_point_q ::
    "i32 \<Rightarrow> i32 \<Rightarrow> f64 \<Rightarrow> f64 \<Rightarrow> f64 \<Rightarrow> f64 \<Rightarrow> i32 \<times> i32" where
  "rotate_point_q x y cx cy c s =
     (let px = f_sub (f_div (f_of_i32 x) units_per_px) cx;
          py = f_sub (f_div (f_of_i32 y) units_per_px) cy;
          rx = f_add (f_sub (f_mul c px) (f_mul s py)) cx;
          ry = f_add (f_add (f_mul s px) (f_mul c py)) cy
      in (quantize rx, quantize ry))"

definition rotate_handle :: "handle_point \<Rightarrow> f64 \<Rightarrow> f64 \<Rightarrow> handle_point" where
  "rotate_handle h c s =
     (let dx = f_div (f_of_i32 (h_dx h)) units_per_px;
          dy = f_div (f_of_i32 (h_dy h)) units_per_px
      in \<lparr>h_dx = quantize (f_sub (f_mul c dx) (f_mul s dy)),
          h_dy = quantize (f_add (f_mul s dx) (f_mul c dy))\<rparr>)"

text \<open>Sums in \<open>i64\<close>; \<open>as f64\<close> rounds to nearest.\<close>

definition all_nodes :: "geometry \<Rightarrow> path_node list" where
  "all_nodes g = concat (map sp_nodes (g_subpaths g))"

definition centroid_px :: "geometry \<Rightarrow> (f64 \<times> f64) option" where
  "centroid_px g =
     (let ns = all_nodes g;
          sum_x = sum_list (map (\<lambda>n. word_of_int (sint (n_x n)) :: i64) ns);
          sum_y = sum_list (map (\<lambda>n. word_of_int (sint (n_y n)) :: i64) ns);
          count = of_nat (length ns) :: i64
      in if count = 0 then None
         else Some (f_div (f_div (f_of_int (sint sum_x)) (f_of_int (sint count))) units_per_px,
                    f_div (f_div (f_of_int (sint sum_y)) (f_of_int (sint count))) units_per_px))"

definition fold_to_quadrant :: "f64 \<Rightarrow> f64" where
  "fold_to_quadrant angle =
     (let a = f_rem angle frac_pi_2 in if f_lt a 0 then f_add a frac_pi_2 else a)"

text \<open>
  The edges of a contour, in order: the consecutive pairs, and for a closed one the pair
  from the last node to the first. The accumulator is the longest edge so far.
\<close>

definition contour_edges :: "sub_path \<Rightarrow> (path_node \<times> path_node) list" where
  "contour_edges sp =
     (let ns = sp_nodes sp; n = length ns in
      if n < 2 then []
      else map (\<lambda>i. (ns ! i, ns ! (Suc i mod n))) [0..<(if sp_closed sp then n else n - 1)])"

definition edge_step :: "libm \<Rightarrow> f64 \<times> f64 \<Rightarrow> path_node \<times> path_node \<Rightarrow> f64 \<times> f64" where
  "edge_step lm best e =
     (case best of (best_len_sq, best_angle) \<Rightarrow> case e of (a, b) \<Rightarrow>
       let dx = f_div (f_of_i32 (n_x b - n_x a)) units_per_px;
           dy = f_div (f_of_i32 (n_y b - n_y a)) units_per_px;
           len_sq = f_add (f_mul dx dx) (f_mul dy dy)
       in if f_lt best_len_sq len_sq then (len_sq, atan2_f lm dy dx) else best)"

definition dominant_angle :: "libm \<Rightarrow> geometry \<Rightarrow> f64 option" where
  "dominant_angle lm g =
     (case foldl (edge_step lm) (0, 0) (concat (map contour_edges (g_subpaths g))) of
        (best_len_sq, best_angle) \<Rightarrow>
          if f_lt (f_sqrt best_len_sq) min_dominant_edge_px then None
          else Some (fold_to_quadrant best_angle))"

definition centroid_rotation :: "libm \<Rightarrow> f64 \<Rightarrow> f64 \<Rightarrow> f64 \<Rightarrow> transform" where
  "centroid_rotation lm cx cy angle =
     (let c = cos_f lm angle; s = sin_f lm angle;
          e = f_sub cx (f_sub (f_mul c cx) (f_mul s cy));
          f = f_sub cy (f_add (f_mul s cx) (f_mul c cy))
      in ((c, f_neg s, e), (s, c, f), (0, 0, f_one)))"

definition rotate_node :: "f64 \<Rightarrow> f64 \<Rightarrow> f64 \<Rightarrow> f64 \<Rightarrow> path_node \<Rightarrow> path_node" where
  "rotate_node cx cy c s n =
     (case rotate_point_q (n_x n) (n_y n) cx cy c s of (nx, ny) \<Rightarrow>
       n\<lparr>n_x := nx, n_y := ny,
         n_in := map_option (\<lambda>h. rotate_handle h c s) (n_in n),
         n_out := map_option (\<lambda>h. rotate_handle h c s) (n_out n)\<rparr>)"

definition canonicalize_orientation ::
    "libm \<Rightarrow> transform \<Rightarrow> geometry \<Rightarrow> (transform \<times> geometry) option" where
  "canonicalize_orientation lm t g =
     (case dominant_angle lm g of
        None \<Rightarrow> None
      | Some angle \<Rightarrow>
          if f_lt (f_abs angle) angle_epsilon_rad then None
          else (case centroid_px g of
            None \<Rightarrow> None
          | Some (cx, cy) \<Rightarrow>
              let c = cos_f lm (f_neg angle); s = sin_f lm (f_neg angle);
                  sps = map (\<lambda>sp. \<lparr>sp_closed = sp_closed sp,
                                   sp_nodes = map (rotate_node cx cy c s) (sp_nodes sp)\<rparr>)
                          (g_subpaths g)
              in Some (transform_mul t (centroid_rotation lm cx cy angle),
                       geometry_from_subpaths sps (g_rule g))))"

definition rehome_anchor_local :: "transform \<Rightarrow> transform \<Rightarrow> local_point \<Rightarrow> local_point" where
  "rehome_anchor_local old new at =
     (let lx = f_div (f_of_i32 (l_x at)) units_per_px;
          ly = f_div (f_of_i32 (l_y at)) units_per_px
      in case apply_affine (affine_of old) lx ly of (wx, wy) \<Rightarrow>
         case apply_affine (invert_affine (affine_of new)) wx wy of (nx, ny) \<Rightarrow>
           \<lparr>l_x = quantize nx, l_y = quantize ny\<rparr>)"

end
