(* ===== verification/Apply.thy ===== *)
theory Apply
  imports Ops Validate Affine Fractional
begin

text \<open>
  Applying an operation to a scene: \<open>kernel/apply.rs\<close>. Each step takes the scene and
  returns the scene after it together with the error or the inverse operation, so that what
  a failed operation has already changed is visible. The messages of \<open>BadGeometry\<close> are
  constructors, one per \<open>format!\<close> of the source.
\<close>

section \<open>Errors\<close>

datatype bad_geometry =
    InvalidGeometry validation_error
  | PathText path_error
  | SplitContourRange i32
  | SplitDuplicateContour i32
  | SplitNothing
  | SplitArity nat nat
  | SplitOrderKey key_error
  | MergeNoIds
  | MergeInto object_id

datatype apply_error =
    NotFound object_id
  | DuplicateId object_id
  | BadGeometry bad_geometry
  | Cycle object_id
  | MissingAnchorTarget object_id
  | Unsupported str

fun apply_error_from_validation :: "validation_error \<Rightarrow> apply_error" where
  "apply_error_from_validation (ParentCycle oid) = Cycle oid"
| "apply_error_from_validation (MissingTarget oid target) = MissingAnchorTarget target"
| "apply_error_from_validation e = BadGeometry (InvalidGeometry e)"

type_synonym 'r outcome = "scene \<times> (apply_error + 'r)"

section \<open>Access to the object list\<close>

definition index_of :: "scene \<Rightarrow> object_id \<Rightarrow> nat option" where
  "index_of sc oid = position (\<lambda>ob. o_id ob = oid) (objects sc)"

text \<open>\<open>let idx = index_of(scene, id)?\<close> and what follows it.\<close>

definition with_index :: "scene \<Rightarrow> object_id \<Rightarrow> (nat \<Rightarrow> 'r outcome) \<Rightarrow> 'r outcome" where
  "with_index sc oid k =
     (case index_of sc oid of None \<Rightarrow> (sc, Inl (NotFound oid)) | Some idx \<Rightarrow> k idx)"

definition object_at :: "scene \<Rightarrow> nat \<Rightarrow> object" where
  "object_at sc idx = objects sc ! idx"

definition modify_at :: "scene \<Rightarrow> nat \<Rightarrow> (object \<Rightarrow> object) \<Rightarrow> scene" where
  "modify_at sc idx f = sc\<lparr>objects := (objects sc)[idx := f (objects sc ! idx)]\<rparr>"

text \<open>\<open>check?\<close> on a validator, before the scene is touched.\<close>

definition guarded :: "scene \<Rightarrow> apply_error + 'a \<Rightarrow> ('a \<Rightarrow> 'r outcome) \<Rightarrow> 'r outcome" where
  "guarded sc m k = (case m of Inl e \<Rightarrow> (sc, Inl e) | Inr x \<Rightarrow> k x)"

definition checked :: "validation_error + 'a \<Rightarrow> apply_error + 'a" where
  "checked m = map_err apply_error_from_validation m"

definition parsed :: "path_error + 'a \<Rightarrow> apply_error + 'a" where
  "parsed m = map_err (\<lambda>e. BadGeometry (PathText e)) m"

section \<open>Insertion and deletion\<close>

definition apply_insert :: "scene \<Rightarrow> object \<Rightarrow> object_op outcome" where
  "apply_insert sc ob =
     (if has_object sc (o_id ob) then (sc, Inl (DuplicateId (o_id ob)))
      else
        guarded sc (parsed (object_ensure_parsed ob)) (\<lambda>ob'.
        guarded sc (checked (validate_geometry (o_geometry ob'))) (\<lambda>_.
          (sc\<lparr>objects := objects sc @ [ob']\<rparr>, Inr (Delete (o_id ob'))))))"

definition anchors_to :: "object_id \<Rightarrow> object \<Rightarrow> bool" where
  "anchors_to oid ob \<longleftrightarrow> (\<exists>a \<in> set (o_anchors ob). a_target a = oid)"

definition prune_anchors :: "object_id \<Rightarrow> object \<Rightarrow> object" where
  "prune_anchors oid ob =
     (if anchors_to oid ob
      then ob\<lparr>o_anchors := filter (\<lambda>a. a_target a \<noteq> oid) (o_anchors ob)\<rparr> else ob)"

definition restore_anchors :: "object \<Rightarrow> object_op" where
  "restore_anchors ob = SetAnchor (o_id ob) (o_anchors ob)"

definition apply_delete :: "scene \<Rightarrow> object_id \<Rightarrow> object_op outcome" where
  "apply_delete sc oid =
     with_index sc oid (\<lambda>idx.
       let removed = object_at sc idx;
           rest = remove_at idx (objects sc);
           restores = map restore_anchors (filter (anchors_to oid) rest);
           iv = InsertObject removed # restores
       in (sc\<lparr>objects := map (prune_anchors oid) rest\<rparr>,
           Inr (if length iv = 1 then hd iv else Batch iv)))"

section \<open>Field edits\<close>

definition apply_edit_geometry :: "scene \<Rightarrow> object_id \<Rightarrow> geometry \<Rightarrow> object_op outcome" where
  "apply_edit_geometry sc oid g =
     guarded sc (parsed (geometry_ensure_parsed g)) (\<lambda>g'.
     guarded sc (checked (validate_geometry g')) (\<lambda>_.
     with_index sc oid (\<lambda>idx.
       (modify_at sc idx (\<lambda>ob. ob\<lparr>o_geometry := g'\<rparr>),
        Inr (EditGeometry oid (o_geometry (object_at sc idx)))))))"

definition apply_set_transform :: "scene \<Rightarrow> object_id \<Rightarrow> transform \<Rightarrow> object_op outcome" where
  "apply_set_transform sc oid t =
     with_index sc oid (\<lambda>idx.
       (modify_at sc idx (\<lambda>ob. ob\<lparr>o_transform := t\<rparr>),
        Inr (SetTransform oid (o_transform (object_at sc idx)))))"

definition apply_set_style ::
    "scene \<Rightarrow> object_id \<Rightarrow> fill field_edit option \<Rightarrow> stroke field_edit option \<Rightarrow> object_op outcome"
where
  "apply_set_style sc oid fe se =
     with_index sc oid (\<lambda>idx.
       let old = object_at sc idx;
           sc1 = (case fe of None \<Rightarrow> sc
                  | Some e \<Rightarrow> modify_at sc idx (\<lambda>ob. ob\<lparr>o_fill := edit_resolve e (o_fill old)\<rparr>));
           sc2 = (case se of None \<Rightarrow> sc1
                  | Some e \<Rightarrow> modify_at sc1 idx (\<lambda>ob. ob\<lparr>o_stroke := edit_resolve e (o_stroke old)\<rparr>))
       in (sc2, Inr (SetStyle oid (map_option (\<lambda>_. edit_from_option (o_fill old)) fe)
                                  (map_option (\<lambda>_. edit_from_option (o_stroke old)) se))))"

definition apply_set_text :: "scene \<Rightarrow> object_id \<Rightarrow> text_block option \<Rightarrow> object_op outcome" where
  "apply_set_text sc oid t =
     with_index sc oid (\<lambda>idx.
       if o_text (object_at sc idx) = t then (sc, Inr (Batch []))
       else (modify_at sc idx (\<lambda>ob. ob\<lparr>o_text := t\<rparr>),
             Inr (SetText oid (o_text (object_at sc idx)))))"

definition apply_set_anchor :: "scene \<Rightarrow> object_id \<Rightarrow> anchor list \<Rightarrow> object_op outcome" where
  "apply_set_anchor sc oid anchors =
     (case index_of sc oid of
        None \<Rightarrow> (sc, Inr (Batch []))
      | Some idx \<Rightarrow>
          let kept = filter (\<lambda>a. has_object sc (a_target a)) anchors
          in (modify_at sc idx (\<lambda>ob. ob\<lparr>o_anchors := kept\<rparr>),
              Inr (SetAnchor oid (o_anchors (object_at sc idx)))))"

definition apply_set_layout :: "scene \<Rightarrow> object_id \<Rightarrow> layout option \<Rightarrow> object_op outcome" where
  "apply_set_layout sc oid l =
     guarded sc (case l of None \<Rightarrow> Inr () | Some v \<Rightarrow> checked (validate_layout v)) (\<lambda>_.
     with_index sc oid (\<lambda>idx.
       (modify_at sc idx (\<lambda>ob. ob\<lparr>o_layout := l\<rparr>),
        Inr (SetLayout oid (o_layout (object_at sc idx))))))"

definition apply_set_clip :: "scene \<Rightarrow> object_id \<Rightarrow> bool option \<Rightarrow> object_op outcome" where
  "apply_set_clip sc oid c =
     with_index sc oid (\<lambda>idx.
       (modify_at sc idx (\<lambda>ob. ob\<lparr>o_clip := c\<rparr>),
        Inr (SetClip oid (o_clip (object_at sc idx)))))"

definition apply_set_sizing :: "scene \<Rightarrow> object_id \<Rightarrow> sizing option \<Rightarrow> object_op outcome" where
  "apply_set_sizing sc oid s =
     guarded sc (case s of None \<Rightarrow> Inr () | Some v \<Rightarrow> checked (validate_sizing v)) (\<lambda>_.
     with_index sc oid (\<lambda>idx.
       (modify_at sc idx (\<lambda>ob. ob\<lparr>o_sizing := s\<rparr>),
        Inr (SetSizing oid (o_sizing (object_at sc idx))))))"

definition apply_set_meta ::
    "scene \<Rightarrow> object_id \<Rightarrow> str field_edit option \<Rightarrow> bool option \<Rightarrow> bool option \<Rightarrow> object_op outcome"
where
  "apply_set_meta sc oid ne he le =
     with_index sc oid (\<lambda>idx.
       let old = object_at sc idx;
           sc1 = (case ne of None \<Rightarrow> sc
                  | Some e \<Rightarrow> modify_at sc idx (\<lambda>ob. ob\<lparr>o_name := edit_resolve e (o_name old)\<rparr>));
           sc2 = (case he of None \<Rightarrow> sc1 | Some v \<Rightarrow> modify_at sc1 idx (\<lambda>ob. ob\<lparr>o_hidden := v\<rparr>));
           sc3 = (case le of None \<Rightarrow> sc2 | Some v \<Rightarrow> modify_at sc2 idx (\<lambda>ob. ob\<lparr>o_locked := v\<rparr>))
       in (sc3, Inr (SetMeta oid (map_option (\<lambda>_. edit_from_option (o_name old)) ne)
                       (map_option (\<lambda>_. o_hidden old) he) (map_option (\<lambda>_. o_locked old) le))))"

definition apply_add_comment :: "scene \<Rightarrow> object_id \<Rightarrow> comment \<Rightarrow> object_op outcome" where
  "apply_add_comment sc oid c =
     with_index sc oid (\<lambda>idx.
       (modify_at sc idx (\<lambda>ob. ob\<lparr>o_comments := o_comments ob @ [c]\<rparr>),
        Inr (SetComments oid (o_comments (object_at sc idx)))))"

definition apply_set_comments :: "scene \<Rightarrow> object_id \<Rightarrow> comment list \<Rightarrow> object_op outcome" where
  "apply_set_comments sc oid cs =
     with_index sc oid (\<lambda>idx.
       (modify_at sc idx (\<lambda>ob. ob\<lparr>o_comments := cs\<rparr>),
        Inr (SetComments oid (o_comments (object_at sc idx)))))"

definition apply_set_tags :: "scene \<Rightarrow> object_id \<Rightarrow> str list \<Rightarrow> object_op outcome" where
  "apply_set_tags sc oid ts =
     with_index sc oid (\<lambda>idx.
       (modify_at sc idx (\<lambda>ob. ob\<lparr>o_tags := ts\<rparr>),
        Inr (SetTags oid (o_tags (object_at sc idx)))))"

definition apply_reorder :: "scene \<Rightarrow> object_id \<Rightarrow> str \<Rightarrow> object_op outcome" where
  "apply_reorder sc oid order =
     with_index sc oid (\<lambda>idx.
       (modify_at sc idx (\<lambda>ob. ob\<lparr>o_order := order\<rparr>),
        Inr (Reorder oid (o_order (object_at sc idx)))))"

text \<open>The walk up from the new parent; \<open>guard\<close> counts the steps taken.\<close>

function cycle_from :: "scene \<Rightarrow> object_id \<Rightarrow> nat \<Rightarrow> object_id option \<Rightarrow> bool" where
  "cycle_from sc oid guard None = False"
| "cycle_from sc oid guard (Some cur) =
     (if cur = oid then True
      else if Suc guard > length (objects sc) + 1 then True
      else cycle_from sc oid (Suc guard) (Option.bind (scene_get sc cur) o_parent))"
  by pat_completeness auto
termination
  by (relation "measure (\<lambda>(sc, oid, guard, cur). length (objects sc) + 2 - guard)") auto

definition would_cycle :: "scene \<Rightarrow> object_id \<Rightarrow> object_id \<Rightarrow> bool" where
  "would_cycle sc oid new_parent \<longleftrightarrow> oid = new_parent \<or> cycle_from sc oid 0 (Some new_parent)"

definition apply_reparent ::
    "scene \<Rightarrow> object_id \<Rightarrow> object_id option \<Rightarrow> str \<Rightarrow> object_op outcome" where
  "apply_reparent sc oid parent order =
     (if (case parent of None \<Rightarrow> False | Some p \<Rightarrow> would_cycle sc oid p) then (sc, Inl (Cycle oid))
      else with_index sc oid (\<lambda>idx.
        (modify_at sc idx (\<lambda>ob. ob\<lparr>o_parent := parent, o_order := order\<rparr>),
         Inr (Reparent oid (o_parent (object_at sc idx)) (o_order (object_at sc idx))))))"

section \<open>Canonicalize\<close>

definition capture_peer_anchors :: "scene \<Rightarrow> object_id list \<Rightarrow> (object_id \<times> anchor list) list" where
  "capture_peer_anchors sc targets =
     map (\<lambda>ob. (o_id ob, o_anchors ob))
       (filter (\<lambda>ob. \<exists>a \<in> set (o_anchors ob). a_target a \<in> set targets) (objects sc))"

definition restore_ops :: "(object_id \<times> anchor list) list \<Rightarrow> object_op list" where
  "restore_ops peers = map (\<lambda>(oid, anchors). SetAnchor oid anchors) peers"

definition map_peers :: "object_id \<Rightarrow> (anchor \<Rightarrow> anchor) \<Rightarrow> scene \<Rightarrow> scene" where
  "map_peers oid f sc =
     sc\<lparr>objects := map (\<lambda>ob. if o_id ob = oid then ob
                            else ob\<lparr>o_anchors := map f (o_anchors ob)\<rparr>) (objects sc)\<rparr>"

definition apply_canonicalize :: "libm \<Rightarrow> scene \<Rightarrow> object_id \<Rightarrow> object_op outcome" where
  "apply_canonicalize lm sc oid =
     with_index sc oid (\<lambda>idx.
       let old_g = o_geometry (object_at sc idx); old_t = o_transform (object_at sc idx) in
       case canonicalize_orientation lm old_t old_g of
         None \<Rightarrow> (sc, Inr (Batch []))
       | Some (new_t, new_g) \<Rightarrow>
           guarded sc (parsed (geometry_ensure_parsed new_g)) (\<lambda>g'.
           guarded sc (checked (validate_geometry g')) (\<lambda>_.
             let before = capture_peer_anchors sc [oid];
                 sc1 = modify_at sc idx (\<lambda>ob. ob\<lparr>o_geometry := g', o_transform := new_t\<rparr>);
                 sc2 = map_peers oid (\<lambda>a. if a_target a = oid
                         then a\<lparr>a_at := rehome_anchor_local old_t new_t (a_at a)\<rparr> else a) sc1
             in (sc2, Inr (Batch ([EditGeometry oid old_g, SetTransform oid old_t] @
                           restore_ops before))))))"

section \<open>Split\<close>

definition node_count_i32 :: "sub_path \<Rightarrow> i32" where
  "node_count_i32 sp = i32_of_len (length (sp_nodes sp))"

fun offsets_from :: "i32 \<Rightarrow> sub_path list \<Rightarrow> i32 list" where
  "offsets_from acc [] = []"
| "offsets_from acc (sp # sps) =
     (let acc' = sat_add_i32 acc (node_count_i32 sp) in acc' # offsets_from acc' sps)"

definition subpath_offsets :: "sub_path list \<Rightarrow> i32 list" where
  "subpath_offsets sps = 0 # offsets_from 0 sps"

text \<open>The validated contour indices, in the order given.\<close>

fun peel_from :: "nat \<Rightarrow> nat list \<Rightarrow> i32 list \<Rightarrow> apply_error + nat list" where
  "peel_from n seen [] = Inr seen"
| "peel_from n seen (c # cs) =
     (if sint c < 0 \<or> n \<le> nat (sint c) then Inl (BadGeometry (SplitContourRange c))
      else if nat (sint c) \<in> set seen then Inl (BadGeometry (SplitDuplicateContour c))
      else peel_from n (seen @ [nat (sint c)]) cs)"

definition peel_list :: "nat \<Rightarrow> i32 list \<Rightarrow> apply_error + nat list" where
  "peel_list n contours = (if contours = [] then Inr [0..<n] else peel_from n [] contours)"

fun check_new_ids :: "scene \<Rightarrow> object_id \<Rightarrow> object_id list \<Rightarrow> apply_error + unit" where
  "check_new_ids sc oid [] = Inr ()"
| "check_new_ids sc oid (n # ns) =
     (if n = oid \<or> has_object sc n then Inl (DuplicateId n) else check_new_ids sc oid ns)"

text \<open>The loop that mints a key after the previous one, \<open>n\<close> times.\<close>

fun keys_after :: "nat \<Rightarrow> str \<Rightarrow> apply_error + str list" where
  "keys_after 0 prev = Inr []"
| "keys_after (Suc n) prev =
     and_then (map_err (\<lambda>e. BadGeometry (SplitOrderKey e)) (generate_key_between (Some prev) None))
       (\<lambda>key. and_then (keys_after n key) (\<lambda>rest. Inr (key # rest)))"

text \<open>Where each kept contour starts in the geometry that stays on the source.\<close>

fun kept_bases :: "sub_path list \<Rightarrow> i32 \<Rightarrow> nat list \<Rightarrow> i32 list \<Rightarrow> i32 list" where
  "kept_bases sps base [] bases = bases"
| "kept_bases sps base (c # cs) bases =
     kept_bases sps (sat_add_i32 base (node_count_i32 (sps ! c))) cs (bases[c := base])"

definition split_owner :: "i32 list \<Rightarrow> nat \<Rightarrow> i32 \<Rightarrow> nat option" where
  "split_owner offsets n flat =
     find (\<lambda>c. sint (offsets ! c) \<le> sint flat \<and> sint flat < sint (offsets ! Suc c)) [0..<n]"

definition split_anchor ::
    "object_id \<Rightarrow> nat \<Rightarrow> i32 list \<Rightarrow> (nat \<Rightarrow> nat option) \<Rightarrow> i32 list \<Rightarrow> object_id list \<Rightarrow> anchor \<Rightarrow> anchor"
where
  "split_anchor oid n offsets dest bases produced a =
     (if a_target a \<noteq> oid then a
      else case split_owner offsets n (a_node a) of
        None \<Rightarrow> a
      | Some c \<Rightarrow>
          let local = a_node a - offsets ! c in
          (case dest c of
             Some k \<Rightarrow> a\<lparr>a_target := produced ! k, a_node := local\<rparr>
           | None \<Rightarrow> a\<lparr>a_node := bases ! c + local\<rparr>))"

definition split_child :: "object \<Rightarrow> object_id \<Rightarrow> str \<Rightarrow> nat \<Rightarrow> object" where
  "split_child original nid key c =
     original\<lparr>o_id := nid, o_order := key,
       o_geometry := geometry_from_subpaths [g_subpaths (o_geometry original) ! c]
                       (g_rule (o_geometry original)),
       o_anchors := [], o_comments := []\<rparr>"

definition apply_split ::
    "scene \<Rightarrow> object_id \<Rightarrow> object_id list \<Rightarrow> i32 list \<Rightarrow> object_op outcome" where
  "apply_split sc oid new_ids contours =
     with_index sc oid (\<lambda>idx.
       let n = length (g_subpaths (o_geometry (object_at sc idx))) in
       guarded sc (peel_list n contours) (\<lambda>peel.
         if peel = [] then (sc, Inl (BadGeometry SplitNothing))
         else if length new_ids \<noteq> length peel
         then (sc, Inl (BadGeometry (SplitArity (length new_ids) (length peel))))
         else
           guarded sc (check_new_ids sc oid new_ids) (\<lambda>_.
             let original = object_at sc idx; sps = g_subpaths (o_geometry original);
                 before = capture_peer_anchors sc [oid];
                 offsets = subpath_offsets sps;
                 dest = (\<lambda>c. position (\<lambda>p. p = c) peel);
                 kept = filter (\<lambda>c. dest c = None) [0..<n];
                 bases = kept_bases sps 0 kept (replicate n 0)
             in guarded sc (keys_after (length peel) (o_order original)) (\<lambda>keys.
               let children = map (\<lambda>(nid, key, c). split_child original nid key c)
                                (zip new_ids (zip keys peel));
                   sc1 = map_peers oid (split_anchor oid n offsets dest bases new_ids) sc;
                   survives = (kept \<noteq> []);
                   sc2 = (if survives
                          then modify_at sc1 idx (\<lambda>ob. ob\<lparr>o_geometry :=
                                 geometry_from_subpaths (map (\<lambda>c. sps ! c) kept)
                                   (g_rule (o_geometry original))\<rparr>)
                          else sc1\<lparr>objects := remove_at idx (objects sc1)\<rparr>)
               in (sc2\<lparr>objects := objects sc2 @ children\<rparr>,
                   Inr (Batch (map Delete new_ids @ (if survives then [Delete oid] else []) @
                               [InsertObject original] @ restore_ops before)))))))"

section \<open>Merge\<close>

fun check_merged :: "scene \<Rightarrow> object_id list \<Rightarrow> object_id list \<Rightarrow> apply_error + unit" where
  "check_merged sc seen [] = Inr ()"
| "check_merged sc seen (m # ms) =
     (if index_of sc m = None then Inl (NotFound m)
      else if m \<in> set seen then Inl (DuplicateId m)
      else check_merged sc (seen @ [m]) ms)"

definition the_object :: "scene \<Rightarrow> object_id \<Rightarrow> object" where
  "the_object sc oid = the (scene_get sc oid)"

text \<open>The base index of each merged object and the concatenated contours.\<close>

fun sum_counts :: "i32 \<Rightarrow> sub_path list \<Rightarrow> i32" where
  "sum_counts acc [] = acc"
| "sum_counts acc (sp # sps) = sum_counts (sat_add_i32 acc (node_count_i32 sp)) sps"

fun merge_bases :: "scene \<Rightarrow> i32 \<Rightarrow> object_id list \<Rightarrow> (object_id \<times> i32) list" where
  "merge_bases sc acc [] = []"
| "merge_bases sc acc (m # ms) =
     (m, acc) # merge_bases sc (sum_counts acc (g_subpaths (o_geometry (the_object sc m)))) ms"

definition merge_anchor :: "(object_id \<times> i32) list \<Rightarrow> object_id \<Rightarrow> anchor \<Rightarrow> anchor" where
  "merge_anchor bases survivor a =
     (case map_of bases (a_target a) of
        None \<Rightarrow> a
      | Some base \<Rightarrow> a\<lparr>a_node := sat_add_i32 (a_node a) base, a_target := survivor\<rparr>)"

definition apply_merge :: "scene \<Rightarrow> object_id list \<Rightarrow> object_id option \<Rightarrow> object_op outcome" where
  "apply_merge sc ids into =
     (if ids = [] then (sc, Inl (BadGeometry MergeNoIds))
      else
        let survivor = (case into of Some i \<Rightarrow> i | None \<Rightarrow> hd ids) in
        if survivor \<notin> set ids then (sc, Inl (BadGeometry (MergeInto survivor)))
        else
          guarded sc (check_merged sc [] ids) (\<lambda>_.
            let order = survivor # filter (\<lambda>m. m \<noteq> survivor) ids;
                originals = map (the_object sc) ids;
                before = capture_peer_anchors sc ids;
                rule = g_rule (o_geometry (the_object sc survivor));
                bases = merge_bases sc 0 order;
                combined = concat (map (\<lambda>m. g_subpaths (o_geometry (the_object sc m))) order);
                sc1 = sc\<lparr>objects := filter (\<lambda>ob. o_id ob = survivor \<or> o_id ob \<notin> set ids) (objects sc)\<rparr>
            in with_index sc1 survivor (\<lambda>sidx.
              let sc2 = modify_at sc1 sidx
                          (\<lambda>ob. ob\<lparr>o_geometry := geometry_from_subpaths combined rule\<rparr>);
                  sc3 = sc2\<lparr>objects := map (\<lambda>ob. ob\<lparr>o_anchors :=
                                  map (merge_anchor bases survivor) (o_anchors ob)\<rparr>) (objects sc2)\<rparr>
              in (sc3, Inr (Batch (Delete survivor # map InsertObject originals @
                            restore_ops before))))))"

section \<open>The operation\<close>

text \<open>
  \<open>apply_inner\<close>. A batch runs on a working copy: \<open>apply_children\<close> threads it through the
  children and collects their inverses, and the copy is committed when all succeeded.
\<close>

fun apply_inner :: "libm \<Rightarrow> scene \<Rightarrow> object_op \<Rightarrow> object_op outcome"
  and apply_children :: "libm \<Rightarrow> scene \<Rightarrow> object_op list \<Rightarrow> object_op list outcome" where
  "apply_inner lm sc (InsertObject ob) = apply_insert sc ob"
| "apply_inner lm sc (Delete oid) = apply_delete sc oid"
| "apply_inner lm sc (EditGeometry oid g) = apply_edit_geometry sc oid g"
| "apply_inner lm sc (SetTransform oid t) = apply_set_transform sc oid t"
| "apply_inner lm sc (SetStyle oid fe se) = apply_set_style sc oid fe se"
| "apply_inner lm sc (SetText oid t) = apply_set_text sc oid t"
| "apply_inner lm sc (SetAnchor oid as) = apply_set_anchor sc oid as"
| "apply_inner lm sc (SetLayout oid l) = apply_set_layout sc oid l"
| "apply_inner lm sc (SetClip oid c) = apply_set_clip sc oid c"
| "apply_inner lm sc (SetSizing oid s) = apply_set_sizing sc oid s"
| "apply_inner lm sc (SetMeta oid n h l) = apply_set_meta sc oid n h l"
| "apply_inner lm sc (Canonicalize oid) = apply_canonicalize lm sc oid"
| "apply_inner lm sc (AddComment oid c) = apply_add_comment sc oid c"
| "apply_inner lm sc (SetComments oid cs) = apply_set_comments sc oid cs"
| "apply_inner lm sc (SetTags oid ts) = apply_set_tags sc oid ts"
| "apply_inner lm sc (Reorder oid order) = apply_reorder sc oid order"
| "apply_inner lm sc (Reparent oid p order) = apply_reparent sc oid p order"
| "apply_inner lm sc (Split oid new_ids contours) = apply_split sc oid new_ids contours"
| "apply_inner lm sc (Merge ids into) = apply_merge sc ids into"
| "apply_inner lm sc (Batch ops) =
     (case apply_children lm sc ops of
        (working, Inl e) \<Rightarrow> (sc, Inl e)
      | (working, Inr invs) \<Rightarrow> (working, Inr (Batch (rev invs))))"
| "apply_children lm working [] = (working, Inr [])"
| "apply_children lm working (op # ops) =
     (case apply_inner lm working op of
        (working1, Inl e) \<Rightarrow> (working1, Inl e)
      | (working1, Inr iv) \<Rightarrow>
          (case apply_children lm working1 ops of
             (working2, Inl e) \<Rightarrow> (working2, Inl e)
           | (working2, Inr invs) \<Rightarrow> (working2, Inr (iv # invs))))"

definition apply_object_op :: "libm \<Rightarrow> scene \<Rightarrow> object_op \<Rightarrow> object_op outcome" where
  "apply_object_op lm sc op =
     (case apply_inner lm sc op of
        (sc1, Inl e) \<Rightarrow> (sc1, Inl e)
      | (sc1, Inr iv) \<Rightarrow> (sc1\<lparr>scene_version := scene_version sc1 + 1\<rparr>, Inr iv))"

text \<open>\<open>apply_sequence\<close>: the operations before a failing one stay applied.\<close>

fun apply_each :: "libm \<Rightarrow> scene \<Rightarrow> object_op list \<Rightarrow> object_op list outcome" where
  "apply_each lm sc [] = (sc, Inr [])"
| "apply_each lm sc (op # ops) =
     (case apply_object_op lm sc op of
        (sc1, Inl e) \<Rightarrow> (sc1, Inl e)
      | (sc1, Inr iv) \<Rightarrow>
          (case apply_each lm sc1 ops of
             (sc2, Inl e) \<Rightarrow> (sc2, Inl e)
           | (sc2, Inr invs) \<Rightarrow> (sc2, Inr (iv # invs))))"

definition apply_sequence :: "libm \<Rightarrow> scene \<Rightarrow> object_op list \<Rightarrow> object_op list outcome" where
  "apply_sequence lm sc ops =
     (case apply_each lm sc ops of
        (sc1, Inl e) \<Rightarrow> (sc1, Inl e)
      | (sc1, Inr invs) \<Rightarrow> (sc1, Inr (rev invs)))"

end
