(* ===== verification/PathString_Laws.thy ===== *)
theory PathString_Laws
  imports PathString
begin

text \<open>
  What parsing recovers of a serialized path: the normal form \<open>norm_sub\<close> (empty contours
  and node widths are gone, the handles of a segment come in pairs, a closing curve has
  become an explicit last node), and that serializing the normal form gives the same text.
\<close>

section \<open>Tokens\<close>

definition is_space :: "char \<Rightarrow> bool" where
  "is_space c \<longleftrightarrow> byte c = 44 \<or> byte c = 32 \<or> (9 \<le> byte c \<and> byte c \<le> 13)"

definition word_of_chars :: "str \<Rightarrow> bool" where
  "word_of_chars w \<longleftrightarrow> w \<noteq> [] \<and> (\<forall>c \<in> set w. byte c < 128 \<and> \<not> is_space c)"

lemma sep_len_ascii: "byte c < 128 \<Longrightarrow> sep_len (c # cs) = (if is_space c then 1 else 0)"
  by (auto simp: sep_len_def is_space_def split: list.splits)

lemma tokens_from_append:
  "ascii xs \<Longrightarrow> tokens_from cur (xs @ CHR '' '' # ys) = tokens_from cur xs @ tokens ys"
proof (induction xs arbitrary: cur)
  case Nil
  show ?case by (simp add: sep_len_ascii is_space_def tokens_def push_token_def)
next
  case (Cons c xs)
  then have "byte c < 128" "ascii xs" by (auto simp: ascii_def)
  then show ?case using Cons.IH by (simp add: sep_len_ascii push_token_def)
qed

lemma tokens_append: "ascii xs \<Longrightarrow> tokens (xs @ CHR '' '' # ys) = tokens xs @ tokens ys"
  by (simp add: tokens_def tokens_from_append)

lemma tokens_from_word:
  "\<forall>c \<in> set w. byte c < 128 \<and> \<not> is_space c \<Longrightarrow> tokens_from cur w = push_token (cur @ w) []"
  by (induction w arbitrary: cur) (auto simp: sep_len_ascii)

lemma tokens_word: "word_of_chars w \<Longrightarrow> tokens w = [w]"
  by (simp add: tokens_def tokens_from_word word_of_chars_def push_token_def)

lemma tokens_Nil [simp]: "tokens [] = []"
  by (simp add: tokens_def push_token_def)

lemma tokens_space [simp]: "tokens (CHR '' '' # ys) = tokens ys"
  using tokens_append[of "[]" ys] by (simp add: ascii_def)

lemma word_ascii: "word_of_chars w \<Longrightarrow> ascii w"
  by (simp add: word_of_chars_def ascii_def)

lemma tokens_word_append:
  "word_of_chars w \<Longrightarrow> tokens (w @ CHR '' '' # ys) = w # tokens ys"
  by (simp add: tokens_append word_ascii tokens_word)

lemma word_show [simp]: "word_of_chars (show_i32 x)"
proof -
  have "\<not> is_space c \<and> byte c < 128" if "c \<in> set (show_i32 x)" for c
    using show_int_chars[of c "sint x"] that by (auto simp: show_i32_def is_space_def)
  then show ?thesis by (auto simp: word_of_chars_def show_i32_def)
qed

lemma ascii_show [simp]: "ascii (show_i32 x)"
  by (rule word_ascii) simp

section \<open>The tokens of a serialized path\<close>

definition seg_tokens :: "path_node \<Rightarrow> path_node \<Rightarrow> str list" where
  "seg_tokens a b =
     (if n_out a = None \<and> n_in b = None
      then [''L'', show_i32 (n_x b), show_i32 (n_y b)]
      else [''C'', show_i32 (n_x a + handle_dx (n_out a)), show_i32 (n_y a + handle_dy (n_out a)),
            show_i32 (n_x b + handle_dx (n_in b)), show_i32 (n_y b + handle_dy (n_in b)),
            show_i32 (n_x b), show_i32 (n_y b)])"

fun window_tokens :: "path_node list \<Rightarrow> str list" where
  "window_tokens (a # b # ns) = seg_tokens a b @ window_tokens (b # ns)"
| "window_tokens ns = []"

definition close_tokens :: "sub_path \<Rightarrow> str list" where
  "close_tokens sp =
     (if sp_closed sp
      then (let l = last (sp_nodes sp); f = hd (sp_nodes sp)
            in if n_out l \<noteq> None \<or> n_in f \<noteq> None then seg_tokens l f else []) @ [''Z'']
      else [])"

definition sub_tokens :: "sub_path \<Rightarrow> str list" where
  "sub_tokens sp =
     [''M'', show_i32 (n_x (hd (sp_nodes sp))), show_i32 (n_y (hd (sp_nodes sp)))] @
     window_tokens (sp_nodes sp) @ close_tokens sp"

lemma word_letters [simp]:
  "word_of_chars ''M''" "word_of_chars ''L''" "word_of_chars ''C''" "word_of_chars ''Z''"
  by (simp_all add: word_of_chars_def is_space_def)

definition spaced :: "str \<Rightarrow> bool" where
  "spaced s \<longleftrightarrow> s = [] \<or> hd s = CHR '' ''"

lemma tokens_append_spaced: "ascii xs \<Longrightarrow> spaced ys \<Longrightarrow> tokens (xs @ ys) = tokens xs @ tokens ys"
  by (cases ys) (auto simp: spaced_def tokens_append)

lemma spaced_append: "spaced xs \<Longrightarrow> spaced ys \<Longrightarrow> spaced (xs @ ys)"
  by (cases xs) (auto simp: spaced_def)

lemma letter_tokens:
  "tokens (CHR ''L'' # CHR '' '' # ys) = ''L'' # tokens ys"
  "tokens (CHR ''C'' # CHR '' '' # ys) = ''C'' # tokens ys"
  "tokens (CHR ''M'' # CHR '' '' # ys) = ''M'' # tokens ys"
  "tokens ''Z'' = [''Z'']"
  using tokens_word_append[of "''L''" ys] tokens_word_append[of "''C''" ys]
    tokens_word_append[of "''M''" ys] tokens_word[of "''Z''"] by simp_all

lemma emit_segment_tokens:
  "spaced (emit_segment a b)" "ascii (emit_segment a b)" "tokens (emit_segment a b) = seg_tokens a b"
  by (simp_all add: emit_segment_def seg_tokens_def spaced_def letter_tokens tokens_word_append tokens_word)

lemma emit_windows_tokens:
  "spaced (emit_windows ns) \<and> ascii (emit_windows ns) \<and> tokens (emit_windows ns) = window_tokens ns"
  by (induction ns rule: emit_windows.induct)
    (auto simp: emit_segment_tokens spaced_append tokens_append_spaced, simp_all add: spaced_def)

lemma spaced_Z: "spaced '' Z''" "ascii '' Z''" "tokens '' Z'' = [''Z'']"
  by (simp_all add: spaced_def letter_tokens)

lemma emit_closing_tokens:
  "spaced (emit_closing sp) \<and> ascii (emit_closing sp) \<and> tokens (emit_closing sp) = close_tokens sp"
proof -
  have Z: "spaced (s @ '' Z'') \<and> ascii (s @ '' Z'') \<and> tokens (s @ '' Z'') = tokens s @ [''Z'']"
    if "spaced s" "ascii s" for s
    using that spaced_Z by (metis ascii_append spaced_append tokens_append_spaced)
  show ?thesis
    using Z[OF emit_segment_tokens(1,2)[of "last (sp_nodes sp)" "hd (sp_nodes sp)"]] Z[of "[]"]
    by (simp add: emit_closing_def close_tokens_def Let_def emit_segment_tokens spaced_def)
qed

definition sub_text :: "sub_path \<Rightarrow> str" where
  "sub_text sp =
     ''M '' @ show_i32 (n_x (hd (sp_nodes sp))) @ '' '' @ show_i32 (n_y (hd (sp_nodes sp))) @
     emit_windows (sp_nodes sp) @ emit_closing sp"

lemma sub_text_tokens: "ascii (sub_text sp)" "tokens (sub_text sp) = sub_tokens sp"
proof -
  show "ascii (sub_text sp)"
    using emit_windows_tokens emit_closing_tokens by (simp add: sub_text_def)
  have "tokens (show_i32 y @ emit_windows ns @ emit_closing sp) =
      show_i32 y # window_tokens ns @ close_tokens sp" for y ns
    using emit_windows_tokens[of ns] emit_closing_tokens[of sp]
    by (simp add: tokens_append_spaced spaced_append tokens_word)
  then show "tokens (sub_text sp) = sub_tokens sp"
    by (simp add: sub_text_def sub_tokens_def letter_tokens tokens_word_append)
qed

lemma serialize_from_Cons:
  "sp_nodes sp \<noteq> [] \<Longrightarrow> serialize_from out (sp # sps) =
     serialize_from (if out = [] then sub_text sp else out @ '' '' @ sub_text sp) sps"
  by (simp add: sub_text_def)

lemma serialize_from_tokens:
  "ascii out \<Longrightarrow> tokens (serialize_from out sps) =
     tokens out @ concat (map sub_tokens (filter (\<lambda>sp. sp_nodes sp \<noteq> []) sps))"
proof (induction sps arbitrary: out)
  case (Cons sp sps)
  show ?case
  proof (cases "sp_nodes sp = []")
    case False
    then show ?thesis
      using Cons.IH[of "sub_text sp"] Cons.IH[of "out @ '' '' @ sub_text sp"] Cons.prems
      by (simp add: serialize_from_Cons sub_text_tokens tokens_append del: serialize_from.simps)
  qed (use Cons in simp)
qed simp

section \<open>Parsing the tokens back\<close>

definition seg_out :: "path_node \<Rightarrow> path_node \<Rightarrow> handle_point option" where
  "seg_out a b =
     (if n_out a = None \<and> n_in b = None then None
      else Some \<lparr>h_dx = handle_dx (n_out a), h_dy = handle_dy (n_out a)\<rparr>)"

definition seg_in :: "path_node \<Rightarrow> path_node \<Rightarrow> handle_point option" where
  "seg_in a b =
     (if n_out a = None \<and> n_in b = None then None
      else Some \<lparr>h_dx = handle_dx (n_in b), h_dy = handle_dy (n_in b)\<rparr>)"

definition bare :: "path_node \<Rightarrow> handle_point option \<Rightarrow> handle_point option \<Rightarrow> path_node" where
  "bare n i u = \<lparr>n_x = n_x n, n_y = n_y n, n_in = i, n_out = u, n_width = None\<rparr>"

text \<open>The nodes read back from \<open>a # ns\<close>, the incoming handle of \<open>a\<close> being \<open>i\<close>.\<close>

fun norm_from :: "handle_point option \<Rightarrow> path_node \<Rightarrow> path_node list \<Rightarrow> path_node list" where
  "norm_from i a [] = [bare a i None]"
| "norm_from i a (b # ns) = bare a i (seg_out a b) # norm_from (seg_in a b) b ns"

definition closing_nodes :: "sub_path \<Rightarrow> path_node list" where
  "closing_nodes sp =
     (let l = last (sp_nodes sp); f = hd (sp_nodes sp)
      in if sp_closed sp \<and> (n_out l \<noteq> None \<or> n_in f \<noteq> None) then [f] else [])"

definition norm_sub :: "sub_path \<Rightarrow> sub_path" where
  "norm_sub sp =
     \<lparr>sp_closed = sp_closed sp,
      sp_nodes = norm_from None (hd (sp_nodes sp)) (tl (sp_nodes sp) @ closing_nodes sp)\<rparr>"

definition norm_path :: "sub_path list \<Rightarrow> sub_path list" where
  "norm_path sps = map norm_sub (filter (\<lambda>sp. sp_nodes sp \<noteq> []) sps)"

lemma next_point_show [simp]:
  "next_point (show_i32 x # show_i32 y # ts) = Inr (x, y, ts)"
  by (simp add: next_point_def parse_i32_show)

lemma command_simps [simp]:
  "is_command ''M'' ''m'' ''M''" "is_command ''L'' ''l'' ''L''" "\<not> is_command ''M'' ''m'' ''L''"
  "is_command ''C'' ''c'' ''C''" "\<not> is_command ''M'' ''m'' ''C''" "\<not> is_command ''L'' ''l'' ''C''"
  "is_command ''Z'' ''z'' ''Z''" "\<not> is_command ''M'' ''m'' ''Z''" "\<not> is_command ''L'' ''l'' ''Z''"
  "\<not> is_command ''C'' ''c'' ''Z''"
  by (simp_all add: is_command_def)

text \<open>Reading one segment: the last node gets its outgoing handle and a node is appended.\<close>

lemma parse_segment:
  "parse_loop (sps, Some \<lparr>sp_closed = c, sp_nodes = ns @ [bare a i None]\<rparr>) (seg_tokens a b @ ts) =
   parse_loop (sps, Some \<lparr>sp_closed = c, sp_nodes = ns @ [bare a i (seg_out a b), bare b (seg_in a b) None]\<rparr>) ts"
  by (simp add: seg_tokens_def path_command.simps push_node_def set_last_out_def bare_def corner_def
      seg_out_def seg_in_def)

lemma parse_windows:
  "parse_loop (sps, Some \<lparr>sp_closed = c, sp_nodes = ms @ [bare a i None]\<rparr>) (window_tokens (a # ns) @ ts) =
   parse_loop (sps, Some \<lparr>sp_closed = c, sp_nodes = ms @ norm_from i a ns\<rparr>) ts"
proof (induction ns arbitrary: ms a i)
  case (Cons b ns)
  then show ?case
    using Cons.IH[of "ms @ [bare a i (seg_out a b)]" b "seg_in a b"] by (simp add: parse_segment)
qed simp

lemma norm_from_snoc:
  "norm_from i a (ns @ [b]) =
   butlast (norm_from i a ns) @
     [bare (last (a # ns)) (n_in (last (norm_from i a ns))) (seg_out (last (a # ns)) b),
      bare b (seg_in (last (a # ns)) b) None]"
proof (induction ns arbitrary: i a)
  case Nil
  show ?case by (simp add: bare_def)
next
  case (Cons c ns)
  have "norm_from (seg_in a c) c ns \<noteq> []" by (cases ns) auto
  with Cons show ?case by simp
qed

lemma norm_from_last:
  "norm_from i a ns = butlast (norm_from i a ns) @ [bare (last (a # ns)) (n_in (last (norm_from i a ns))) None]"
proof (induction ns arbitrary: i a)
  case Nil
  show ?case by (simp add: bare_def)
next
  case (Cons c ns)
  have "norm_from (seg_in a c) c ns \<noteq> []" by (cases ns) auto
  then show ?case using Cons[of "seg_in a c" c] by simp
qed

lemma parse_close:
  assumes "ns \<noteq> []" "sp = \<lparr>sp_closed = c, sp_nodes = ns\<rparr>"
  shows "parse_loop (sps, Some \<lparr>sp_closed = False, sp_nodes = norm_from None (hd ns) (tl ns)\<rparr>)
           (close_tokens sp @ ts) =
         parse_loop (sps, Some (norm_sub sp)) ts"
proof -
  let ?m = "norm_from None (hd ns) (tl ns)"
  define b where "b = butlast ?m"
  define i where "i = n_in (last ?m)"
  have m: "?m = b @ [bare (last ns) i None]"
    using norm_from_last[of None "hd ns" "tl ns"] assms(1) by (simp add: b_def i_def)
  have z: "parse_loop (sps, Some \<lparr>sp_closed = False, sp_nodes = xs\<rparr>) (''Z'' # ts) =
      parse_loop (sps, Some \<lparr>sp_closed = True, sp_nodes = xs\<rparr>) ts" for xs
    by (simp add: path_command.simps)
  show ?thesis
  proof (cases "c \<and> (n_out (last ns) \<noteq> None \<or> n_in (hd ns) \<noteq> None)")
    case True
    have "norm_from None (hd ns) (tl ns @ [hd ns]) =
        b @ [bare (last ns) i (seg_out (last ns) (hd ns)), bare (hd ns) (seg_in (last ns) (hd ns)) None]"
      using norm_from_snoc[of None "hd ns" "tl ns" "hd ns"] assms(1) by (simp add: b_def i_def)
    with True show ?thesis using assms(2)
      by (simp add: m close_tokens_def norm_sub_def closing_nodes_def parse_segment z Let_def
          del: parse_loop.simps)
  next
    case False
    then show ?thesis using assms(2)
      by (cases c) (simp_all add: close_tokens_def norm_sub_def closing_nodes_def z Let_def
          del: parse_loop.simps)
  qed
qed

lemma parse_sub:
  assumes "sp_nodes sp \<noteq> []"
  shows "parse_loop (sps, cur) (sub_tokens sp @ ts) =
         parse_loop (sps @ opt_list cur, Some (norm_sub sp)) ts"
proof -
  obtain a ns where n: "sp_nodes sp = a # ns" using assms by (cases "sp_nodes sp") auto
  have "parse_loop (sps, cur) (sub_tokens sp @ ts) =
      parse_loop (sps @ opt_list cur, Some \<lparr>sp_closed = False, sp_nodes = [] @ [bare a None None]\<rparr>)
        (window_tokens (a # ns) @ close_tokens sp @ ts)"
    by (simp add: sub_tokens_def n path_command.simps corner_def bare_def)
  also have "\<dots> = parse_loop (sps @ opt_list cur,
        Some \<lparr>sp_closed = False, sp_nodes = norm_from None a ns\<rparr>) (close_tokens sp @ ts)"
    by (subst parse_windows) simp
  also have "\<dots> = parse_loop (sps @ opt_list cur, Some (norm_sub sp)) ts"
    using parse_close[of "a # ns" sp "sp_closed sp" "sps @ opt_list cur" ts] n by simp
  finally show ?thesis .
qed

lemma parse_subs:
  assumes "\<forall>sp \<in> set sps. sp_nodes sp \<noteq> []"
  shows "parse_loop (done, cur) (concat (map sub_tokens sps)) =
         Inr (done @ opt_list cur @ map norm_sub sps)"
  using assms
proof (induction sps arbitrary: "done" cur)
  case (Cons sp sps)
  then show ?case by (simp add: parse_sub opt_list_def)
qed (simp add: opt_list_def)

lemma parse_path_serialize: "parse_path (serialize sps) = Inr (norm_path sps)"
proof -
  have "tokens (serialize sps) = concat (map sub_tokens (filter (\<lambda>sp. sp_nodes sp \<noteq> []) sps))"
    by (simp add: serialize_def serialize_from_tokens)
  then show ?thesis by (simp add: parse_path_def parse_subs norm_path_def opt_list_def)
qed

section \<open>The normal form serializes to the same text\<close>

lemma norm_from_not_Nil [simp]: "norm_from i a ns \<noteq> []"
  by (cases ns) auto

lemma hd_norm_from: "n_x (hd (norm_from i a ns)) = n_x a" "n_y (hd (norm_from i a ns)) = n_y a"
  "n_in (hd (norm_from i a ns)) = i"
  by (cases ns; simp add: bare_def)+

lemma emit_segment_bare:
  "n_x b' = n_x b \<Longrightarrow> n_y b' = n_y b \<Longrightarrow> n_in b' = seg_in a b \<Longrightarrow>
   emit_segment (bare a i (seg_out a b)) b' = emit_segment a b"
  by (simp add: emit_segment_def seg_out_def seg_in_def bare_def handle_dx_def handle_dy_def)

lemma emit_windows_norm: "emit_windows (norm_from i a ns) = emit_windows (a # ns)"
proof (induction ns arbitrary: i a)
  case (Cons b ns)
  let ?t = "norm_from (seg_in a b) b ns"
  have "emit_windows (norm_from i a (b # ns)) =
      emit_segment (bare a i (seg_out a b)) (hd ?t) @ emit_windows ?t"
    by (cases ?t) simp_all
  then show ?case using Cons by (simp add: emit_segment_bare hd_norm_from)
qed simp

lemma emit_windows_snoc:
  "ns \<noteq> [] \<Longrightarrow> emit_windows (ns @ [b]) = emit_windows ns @ emit_segment (last ns) b"
  by (induction ns rule: emit_windows.induct) auto

lemma sub_text_norm:
  assumes "sp_nodes sp \<noteq> []"
  shows "sub_text (norm_sub sp) = sub_text sp"
proof -
  obtain a ns where n: "sp_nodes sp = a # ns" using assms by (cases "sp_nodes sp") auto
  let ?m = "norm_from None a (ns @ closing_nodes sp)"
  have "n_out (last ?m) = None"
    using norm_from_last[of None a "ns @ closing_nodes sp"]
    by (metis last_snoc bare_def path_node.select_convs(4))
  then have "emit_closing (norm_sub sp) = (if sp_closed sp then '' Z'' else [])"
    by (simp add: emit_closing_def norm_sub_def n hd_norm_from)
  moreover have "emit_windows (a # ns @ closing_nodes sp) @ (if sp_closed sp then '' Z'' else []) =
      emit_windows (a # ns) @ emit_closing sp"
    using emit_windows_snoc[of "a # ns" a]
    by (auto simp: closing_nodes_def emit_closing_def n Let_def)
  ultimately show ?thesis
    by (simp add: sub_text_def norm_sub_def n hd_norm_from emit_windows_norm)
qed

lemma serialize_from_norm: "serialize_from out (norm_path sps) = serialize_from out sps"
proof (induction sps arbitrary: out)
  case (Cons sp sps)
  show ?case
  proof (cases "sp_nodes sp = []")
    case False
    then have "sp_nodes (norm_sub sp) \<noteq> []" by (simp add: norm_sub_def)
    with False Cons show ?thesis
      by (simp add: norm_path_def serialize_from_Cons sub_text_norm del: serialize_from.simps)
  qed (use Cons in \<open>simp add: norm_path_def\<close>)
qed (simp add: norm_path_def)

lemma serialize_norm_path: "serialize (norm_path sps) = serialize sps"
  by (simp add: serialize_def serialize_from_norm)

section \<open>Contours that are their own normal form\<close>

definition canonical :: "sub_path \<Rightarrow> bool" where
  "canonical sp \<longleftrightarrow>
     sp_nodes sp \<noteq> [] \<and> n_in (hd (sp_nodes sp)) = None \<and> n_out (last (sp_nodes sp)) = None \<and>
     (\<forall>n \<in> set (sp_nodes sp). n_width n = None) \<and>
     successively (\<lambda>a b. n_out a = None \<longleftrightarrow> n_in b = None) (sp_nodes sp)"

lemma seg_out_self: "n_out a = None \<longleftrightarrow> n_in b = None \<Longrightarrow> seg_out a b = n_out a"
  by (cases "n_out a") (auto simp: seg_out_def handle_dx_def handle_dy_def)

lemma seg_in_self: "n_out a = None \<longleftrightarrow> n_in b = None \<Longrightarrow> seg_in a b = n_in b"
  by (cases "n_in b") (auto simp: seg_in_def handle_dx_def handle_dy_def)

lemma norm_from_self:
  "\<lbrakk>successively (\<lambda>a b. n_out a = None \<longleftrightarrow> n_in b = None) (a # ns); n_out (last (a # ns)) = None;
    \<forall>n \<in> set (a # ns). n_width n = None\<rbrakk> \<Longrightarrow> norm_from (n_in a) a ns = a # ns"
proof (induction ns arbitrary: a)
  case (Cons b ns)
  then show ?case by (simp add: seg_out_self seg_in_self) (simp add: bare_def)
qed (simp add: bare_def)

lemma norm_sub_canonical: "canonical sp \<Longrightarrow> norm_sub sp = sp"
proof -
  assume c: "canonical sp"
  then obtain a ns where n: "sp_nodes sp = a # ns" by (cases "sp_nodes sp") (auto simp: canonical_def)
  with c have "norm_from None a ns = a # ns"
    using norm_from_self[of a ns] by (auto simp: canonical_def)
  with c n show ?thesis by (simp add: norm_sub_def closing_nodes_def canonical_def)
qed

lemma norm_path_canonical: "\<forall>sp \<in> set sps. canonical sp \<Longrightarrow> norm_path sps = sps"
proof (induction sps)
  case (Cons sp sps)
  then have "norm_path sps = sps" "norm_sub sp = sp" "sp_nodes sp \<noteq> []"
    by (auto simp: norm_sub_canonical) (simp add: canonical_def)
  then show ?case by (simp add: norm_path_def)
qed (simp add: norm_path_def)

lemma parse_serialize_canonical:
  "\<forall>sp \<in> set sps. canonical sp \<Longrightarrow> parse_path (serialize sps) = Inr sps"
  by (simp add: parse_path_serialize norm_path_canonical)

text \<open>Whatever the parser returns is canonical.\<close>

lemma canonical_corner: "canonical \<lparr>sp_closed = c, sp_nodes = [corner x y]\<rparr>"
  by (simp add: canonical_def corner_def)

lemma canonical_close: "canonical sp \<Longrightarrow> canonical (sp\<lparr>sp_closed := c\<rparr>)"
  by (simp add: canonical_def)

lemma canonical_push_corner: "canonical sp \<Longrightarrow> canonical (push_node sp (corner x y))"
  by (auto simp: canonical_def push_node_def corner_def successively_append_iff)

lemma canonical_push_curve:
  assumes "canonical sp" "n_in b \<noteq> None" "n_out b = None" "n_width b = None"
  shows "canonical (push_node (set_last_out cx cy sp) b)"
proof -
  obtain ns p where n: "sp_nodes sp = ns @ [p]"
    using assms(1) by (cases "sp_nodes sp" rule: rev_cases) (auto simp: canonical_def)
  let ?p = "p\<lparr>n_out := Some \<lparr>h_dx = cx - n_x p, h_dy = cy - n_y p\<rparr>\<rparr>"
  have "sp_nodes (push_node (set_last_out cx cy sp) b) = ns @ [?p, b]"
    by (simp add: push_node_def set_last_out_def n)
  moreover have "successively (\<lambda>a b. n_out a = None \<longleftrightarrow> n_in b = None) (ns @ [?p, b])"
    using assms by (simp add: canonical_def n successively_append_iff)
  ultimately show ?thesis using assms
    by (cases ns) (auto simp: canonical_def n)
qed

lemma path_command_canonical:
  assumes "path_command (sps, cur) t ts = Inr ((sps', cur'), ts')"
    and "\<forall>sp \<in> set (sps @ opt_list cur). canonical sp"
  shows "\<forall>sp \<in> set (sps' @ opt_list cur'). canonical sp"
  using assms
  by (auto simp: path_command.simps opt_list_def canonical_corner canonical_close
      canonical_push_corner canonical_push_curve split: if_splits option.splits prod.splits)

lemma parse_loop_canonical:
  "\<lbrakk>parse_loop st ts = Inr out; \<forall>sp \<in> set (fst st @ opt_list (snd st)). canonical sp\<rbrakk>
   \<Longrightarrow> \<forall>sp \<in> set out. canonical sp"
proof (induction st ts rule: parse_loop.induct)
  case (2 st t ts)
  then obtain r where r: "path_command st t ts = Inr r" "parse_loop (fst r) (snd r) = Inr out"
    by auto
  have "\<forall>sp \<in> set (fst (fst r) @ opt_list (snd (fst r))). canonical sp"
    using path_command_canonical[of "fst st" "snd st" t ts "fst (fst r)" "snd (fst r)" "snd r"]
      r(1) "2.prems"(2) by simp
  then show ?case using "2.IH"[OF r(1)] r(2) by blast
qed simp

lemma parse_path_canonical: "parse_path s = Inr sps \<Longrightarrow> \<forall>sp \<in> set sps. canonical sp"
  using parse_loop_canonical[of "([], None)" "tokens s" sps] by (simp add: parse_path_def opt_list_def)

end
