(* ===== verification/Apply_Laws.thy ===== *)
theory Apply_Laws
  imports Apply PathString_Laws "HOL-Library.Multiset"
begin

text \<open>
  What \<open>apply_object_op\<close> keeps of a scene: a failed operation changes nothing, ids stay
  unique, and every stored geometry stays valid and equal to what its path text decodes to.
\<close>

section \<open>Look-up\<close>

definition ids :: "scene \<Rightarrow> object_id list" where
  "ids sc = map o_id (objects sc)"

lemma has_object_ids: "has_object sc oid \<longleftrightarrow> oid \<in> set (ids sc)"
  by (auto simp: has_object_def ids_def)

lemma index_of_Some:
  "index_of sc oid = Some idx \<Longrightarrow> idx < length (objects sc) \<and> o_id (objects sc ! idx) = oid"
  by (auto simp: index_of_def dest: position_Some)

lemma index_of_None: "index_of sc oid = None \<longleftrightarrow> oid \<notin> set (ids sc)"
  by (auto simp: index_of_def position_None ids_def)

lemma index_of_eq:
  assumes "distinct (ids sc)" "idx < length (objects sc)" "o_id (objects sc ! idx) = oid"
  shows "index_of sc oid = Some idx"
proof (cases "index_of sc oid")
  case None
  then show ?thesis using assms(2,3) by (force simp: index_of_None ids_def)
next
  case (Some j)
  then have "j < length (objects sc)" "o_id (objects sc ! j) = oid"
    by (auto dest: index_of_Some)
  then have "j = idx" using assms unfolding ids_def distinct_conv_nth
    by (metis length_map nth_map)
  with Some show ?thesis by simp
qed

lemma with_index_simps [scene_simps]:
  "index_of sc oid = None \<Longrightarrow> with_index sc oid k = (sc, Inl (NotFound oid))"
  "index_of sc oid = Some idx \<Longrightarrow> with_index sc oid k = k idx"
  by (simp_all add: with_index_def)

lemma guarded_Inr_iff:
  "guarded sc m k = (sc', Inr r) \<longleftrightarrow> (\<exists>x. m = Inr x \<and> k x = (sc', Inr r))"
  by (cases m) (auto simp: guarded_def)

lemma with_index_Inr_iff:
  "with_index sc oid k = (sc', Inr r) \<longleftrightarrow> (\<exists>idx. index_of sc oid = Some idx \<and> k idx = (sc', Inr r))"
  by (auto simp: with_index_def split: option.splits)

lemma ids_modify_at:
  assumes "\<And>ob. o_id (f ob) = o_id ob" shows "ids (modify_at sc idx f) = ids sc"
proof (cases "idx < length (objects sc)")
  case True
  then have "map o_id ((objects sc)[idx := f (objects sc ! idx)]) = map o_id (objects sc)"
    by (metis assms list_update_id map_update nth_map)
  then show ?thesis by (simp add: ids_def modify_at_def)
qed (simp add: ids_def modify_at_def list_update_beyond)

lemma objects_modify_at [scene_simps]:
  "objects (modify_at sc idx f) = (objects sc)[idx := f (objects sc ! idx)]"
  by (simp add: modify_at_def)

section \<open>A failed operation changes nothing\<close>

lemma with_index_error:
  "\<lbrakk>with_index sc oid k = (sc', Inl e); \<And>idx. k idx = (sc', Inl e) \<Longrightarrow> sc' = sc\<rbrakk> \<Longrightarrow> sc' = sc"
  by (auto simp: with_index_def split: option.splits)

lemma guarded_error:
  "\<lbrakk>guarded sc m k = (sc', Inl e); \<And>x. k x = (sc', Inl e) \<Longrightarrow> sc' = sc\<rbrakk> \<Longrightarrow> sc' = sc"
  by (auto simp: guarded_def split: sum.splits)

lemmas field_op_defs =
  apply_edit_geometry_def apply_set_transform_def apply_set_style_def apply_set_text_def
  apply_set_anchor_def apply_set_layout_def apply_set_clip_def apply_set_sizing_def
  apply_set_meta_def apply_add_comment_def apply_set_comments_def apply_set_tags_def
  apply_reorder_def apply_reparent_def

lemmas structural_op_defs =
  apply_insert_def apply_delete_def apply_canonicalize_def apply_split_def apply_merge_def

lemma merge_survivor_stays:
  assumes "check_merged sc seen ms = Inr ()" "s \<in> set ms" "s \<in> set all_ids"
  shows "index_of (sc\<lparr>objects := filter (\<lambda>ob. o_id ob = s \<or> o_id ob \<notin> set all_ids) (objects sc)\<rparr>) s
           \<noteq> None"
proof -
  have "s \<in> set (ids sc)"
    using assms(1,2)
    by (induction ms arbitrary: seen) (auto split: if_splits simp: index_of_None)
  then show ?thesis by (auto simp: index_of_None ids_def)
qed

lemma apply_merge_error:
  assumes "apply_merge sc ms into = (sc', Inl e)" shows "sc' = sc"
proof -
  define s where "s = (case into of Some i \<Rightarrow> i | None \<Rightarrow> hd ms)"
  show ?thesis
    using assms merge_survivor_stays[of sc "[]" ms s ms]
    by (auto simp: apply_merge_def s_def[symmetric] Let_def guarded_def with_index_def
        split: if_splits sum.splits option.splits)
qed

lemma leaf_error:
  "apply_insert sc ob = (sc', Inl e) \<Longrightarrow> sc' = sc"
  "apply_delete sc oid = (sc', Inl e) \<Longrightarrow> sc' = sc"
  "apply_canonicalize lm sc oid = (sc', Inl e) \<Longrightarrow> sc' = sc"
  "apply_split sc oid ns cs = (sc', Inl e) \<Longrightarrow> sc' = sc"
  "apply_edit_geometry sc oid g = (sc', Inl e) \<Longrightarrow> sc' = sc"
  "apply_set_transform sc oid t = (sc', Inl e) \<Longrightarrow> sc' = sc"
  "apply_set_style sc oid fe se = (sc', Inl e) \<Longrightarrow> sc' = sc"
  "apply_set_text sc oid x = (sc', Inl e) \<Longrightarrow> sc' = sc"
  "apply_set_anchor sc oid as = (sc', Inl e) \<Longrightarrow> sc' = sc"
  "apply_set_layout sc oid l = (sc', Inl e) \<Longrightarrow> sc' = sc"
  "apply_set_clip sc oid c = (sc', Inl e) \<Longrightarrow> sc' = sc"
  "apply_set_sizing sc oid z = (sc', Inl e) \<Longrightarrow> sc' = sc"
  "apply_set_meta sc oid n h k = (sc', Inl e) \<Longrightarrow> sc' = sc"
  "apply_add_comment sc oid cm = (sc', Inl e) \<Longrightarrow> sc' = sc"
  "apply_set_comments sc oid cms = (sc', Inl e) \<Longrightarrow> sc' = sc"
  "apply_set_tags sc oid ts = (sc', Inl e) \<Longrightarrow> sc' = sc"
  "apply_reorder sc oid order = (sc', Inl e) \<Longrightarrow> sc' = sc"
  "apply_reparent sc oid p order = (sc', Inl e) \<Longrightarrow> sc' = sc"
  by (auto simp: field_op_defs structural_op_defs Let_def with_index_def guarded_def
      split: if_splits option.splits sum.splits prod.splits)

lemma apply_inner_error: "apply_inner lm sc op = (sc', Inl e) \<Longrightarrow> sc' = sc"
  by (cases op) (auto dest: leaf_error apply_merge_error split: prod.splits sum.splits)

lemma apply_object_op_error: "apply_object_op lm sc op = (sc', Inl e) \<Longrightarrow> sc' = sc"
  by (auto simp: apply_object_op_def dest: apply_inner_error split: prod.splits sum.splits)

section \<open>The scene invariant\<close>

text \<open>
  Ids are unique; every geometry is valid and its runtime contours are what its path text
  decodes to.
\<close>

definition geometry_ok :: "geometry \<Rightarrow> bool" where
  "geometry_ok g \<longleftrightarrow> parse_path (g_path g) = Inr (g_subpaths g) \<and> validate_geometry g = Inr ()"

definition scene_ok :: "scene \<Rightarrow> bool" where
  "scene_ok sc \<longleftrightarrow> distinct (ids sc) \<and> (\<forall>ob \<in> set (objects sc). geometry_ok (o_geometry ob))"

text \<open>
  A geometry as an operation carries it: without contours, as it comes off the wire, or
  already hydrated. A split names each new object once.
\<close>

definition geometry_in :: "geometry \<Rightarrow> bool" where
  "geometry_in g \<longleftrightarrow> g_subpaths g = [] \<or> parse_path (g_path g) = Inr (g_subpaths g)"

fun op_ok :: "object_op \<Rightarrow> bool" where
  "op_ok (InsertObject ob) = geometry_in (o_geometry ob)"
| "op_ok (EditGeometry oid g) = geometry_in g"
| "op_ok (Split oid new_ids contours) = distinct new_ids"
| "op_ok (Batch ops) = list_all op_ok ops"
| "op_ok _ = True"

definition drawable :: "sub_path list \<Rightarrow> bool" where
  "drawable sps \<longleftrightarrow> sps \<noteq> [] \<and> (\<forall>sp \<in> set sps. min_nodes sp \<le> length (sp_nodes sp))"

lemma min_nodes_pos: "0 < min_nodes sp"
  by (simp add: min_nodes_def)

lemma degenerate_from_ok:
  "degenerate_from i sps = Inr () \<longleftrightarrow>
     (\<forall>sp \<in> set sps. sp_nodes sp \<noteq> [] \<longrightarrow> min_nodes sp \<le> length (sp_nodes sp))"
  by (induction sps arbitrary: i) auto

lemma validate_geometry_drawable:
  assumes "\<forall>sp \<in> set (g_subpaths g). canonical sp"
  shows "validate_geometry g = Inr () \<longleftrightarrow> drawable (g_subpaths g)"
proof -
  have "\<forall>sp \<in> set (g_subpaths g). sp_nodes sp \<noteq> []"
    using assms by (simp add: canonical_def)
  then show ?thesis
    by (cases "g_subpaths g") (auto simp: validate_geometry_def degenerate_from_ok drawable_def)
qed

lemma geometry_okD:
  assumes "geometry_ok g"
  shows "\<forall>sp \<in> set (g_subpaths g). canonical sp" "drawable (g_subpaths g)" "geometry_in g"
    "geometry_ensure_parsed g = Inr g" "validate_geometry g = Inr ()"
proof -
  show c: "\<forall>sp \<in> set (g_subpaths g). canonical sp"
    using assms parse_path_canonical by (auto simp: geometry_ok_def)
  then show d: "drawable (g_subpaths g)"
    using assms by (simp add: geometry_ok_def validate_geometry_drawable)
  then show "geometry_ensure_parsed g = Inr g"
    by (simp add: geometry_ensure_parsed_def drawable_def)
  show "geometry_in g" "validate_geometry g = Inr ()"
    using assms by (simp_all add: geometry_ok_def geometry_in_def)
qed

lemma geometry_from_subpaths_ok:
  "\<lbrakk>\<forall>sp \<in> set sps. canonical sp; drawable sps\<rbrakk> \<Longrightarrow> geometry_ok (geometry_from_subpaths sps r)"
  using validate_geometry_drawable[of "geometry_from_subpaths sps r"]
  by (simp add: geometry_ok_def geometry_from_subpaths_def parse_serialize_canonical)

lemma hydrated_ok:
  assumes "geometry_ensure_parsed g = Inr g'" "geometry_in g" "validate_geometry g' = Inr ()"
  shows "geometry_ok g'"
proof (cases "g_subpaths g = [] \<and> g_path g \<noteq> []")
  case True
  then show ?thesis using assms
    by (auto simp: geometry_ensure_parsed_def geometry_parse_def geometry_ok_def)
next
  case False
  then have "g' = g" using assms(1) by (auto simp: geometry_ensure_parsed_def)
  moreover have "g_subpaths g \<noteq> []"
    using assms(3) \<open>g' = g\<close> by (auto simp: validate_geometry_def)
  ultimately show ?thesis using assms by (auto simp: geometry_in_def geometry_ok_def)
qed

lemma rotate_node_simps [simp]:
  "n_in (rotate_node cx cy c s n) = map_option (\<lambda>h. rotate_handle h c s) (n_in n)"
  "n_out (rotate_node cx cy c s n) = map_option (\<lambda>h. rotate_handle h c s) (n_out n)"
  "n_width (rotate_node cx cy c s n) = n_width n"
  by (simp_all add: rotate_node_def split: prod.splits)

lemma canonical_rotate:
  "canonical sp \<Longrightarrow> canonical \<lparr>sp_closed = c, sp_nodes = map (rotate_node cx cy cs sn) (sp_nodes sp)\<rparr>"
  by (auto simp: canonical_def hd_map last_map successively_map)

lemma canonicalize_geometry_ok:
  assumes "canonicalize_orientation lm t g = Some (t', g')" "geometry_ok g"
  shows "geometry_ok g'"
proof -
  obtain cx cy c s where g': "g' = geometry_from_subpaths
      (map (\<lambda>sp. \<lparr>sp_closed = sp_closed sp, sp_nodes = map (rotate_node cx cy c s) (sp_nodes sp)\<rparr>)
        (g_subpaths g)) (g_rule g)"
    using assms(1) by (auto simp: canonicalize_orientation_def Let_def split: option.splits if_splits)
  show ?thesis unfolding g'
    using geometry_okD(1,2)[OF assms(2)]
    by (intro geometry_from_subpaths_ok) (auto simp: canonical_rotate drawable_def min_nodes_def)
qed

section \<open>Every operation keeps the invariant\<close>

text \<open>
  The two halves of the invariant are proved together: with \<open>uq\<close> the ids are unique and
  every split names each new object once, without it only the geometries are claimed. The
  inverse an operation returns carries hydrated geometries.
\<close>

definition scene_inv :: "bool \<Rightarrow> scene \<Rightarrow> bool" where
  "scene_inv uq sc \<longleftrightarrow> (uq \<longrightarrow> distinct (ids sc)) \<and> (\<forall>ob \<in> set (objects sc). geometry_ok (o_geometry ob))"

fun op_inv :: "bool \<Rightarrow> object_op \<Rightarrow> bool" where
  "op_inv uq (InsertObject ob) = geometry_in (o_geometry ob)"
| "op_inv uq (EditGeometry oid g) = geometry_in g"
| "op_inv uq (Split oid new_ids contours) = (uq \<longrightarrow> distinct new_ids)"
| "op_inv uq (Batch ops) = list_all (op_inv uq) ops"
| "op_inv uq _ = True"

lemma scene_inv_True: "scene_inv True sc = scene_ok sc"
  by (simp add: scene_inv_def scene_ok_def)

lemma op_inv_True: "op_inv True op = op_ok op"
  by (induction op rule: op_ok.induct) (simp_all add: list_all_iff)

lemma scene_inv_modify_at:
  assumes "scene_inv uq sc" "\<And>ob. o_id (f ob) = o_id ob"
    and "\<And>ob. geometry_ok (o_geometry ob) \<Longrightarrow> geometry_ok (o_geometry (f ob))"
  shows "scene_inv uq (modify_at sc idx f)"
proof (cases "idx < length (objects sc)")
  case True
  have "geometry_ok (o_geometry ob)" if "ob \<in> set ((objects sc)[idx := f (objects sc ! idx)])" for ob
    using set_update_subset_insert[of "objects sc" idx "f (objects sc ! idx)"] that True assms(1,3)
    by (auto simp: scene_inv_def)
  then show ?thesis
    using assms(1,2) by (simp add: scene_inv_def ids_modify_at objects_modify_at)
qed (use assms(1) in \<open>simp add: modify_at_def list_update_beyond\<close>)

lemma scene_inv_mapI:
  assumes "scene_inv uq sc" "\<And>ob. o_id (f ob) = o_id ob \<and> o_geometry (f ob) = o_geometry ob"
  shows "scene_inv uq (sc\<lparr>objects := map f (objects sc)\<rparr>)"
  using assms by (auto simp: scene_inv_def ids_def comp_def)

lemma scene_inv_sublist:
  assumes "scene_inv uq sc" "uq \<longrightarrow> distinct (map o_id obs)" "set obs \<subseteq> set (objects sc)"
  shows "scene_inv uq (sc\<lparr>objects := obs\<rparr>)"
  using assms by (auto simp: scene_inv_def ids_def)

lemma scene_inv_at: "scene_inv uq sc \<Longrightarrow> index_of sc oid = Some idx \<Longrightarrow>
    geometry_ok (o_geometry (object_at sc idx))"
  by (auto simp: scene_inv_def object_at_def dest!: index_of_Some)

lemma distinct_remove_at: "distinct xs \<Longrightarrow> distinct (remove_at i xs)"
  by (auto simp: remove_at_def set_take_disj_set_drop_if_distinct)

lemma map_remove_at: "map f (remove_at i xs) = remove_at i (map f xs)"
  by (simp add: remove_at_def take_map drop_map)

lemma scene_inv_remove_at: "scene_inv uq sc \<Longrightarrow> scene_inv uq (sc\<lparr>objects := remove_at idx (objects sc)\<rparr>)"
  by (rule scene_inv_sublist) (auto simp: map_remove_at scene_inv_def ids_def distinct_remove_at
      set_remove_at intro: subsetD[OF set_remove_at])

lemma insert_ok:
  assumes "scene_inv uq sc" "geometry_in (o_geometry ob)" "apply_insert sc ob = (sc', Inr iv)"
  shows "scene_inv uq sc' \<and> op_inv uq iv"
  using assms hydrated_ok[of "o_geometry ob"]
  by (auto simp: apply_insert_def guarded_Inr_iff parsed_def checked_def object_ensure_parsed_def
      scene_inv_def ids_def has_object_def split: if_splits) metis

lemma delete_ok:
  assumes "scene_inv uq sc" "apply_delete sc oid = (sc', Inr iv)"
  shows "scene_inv uq sc' \<and> op_inv uq iv"
proof -
  obtain idx where i: "index_of sc oid = Some idx"
    and sc': "sc' = sc\<lparr>objects := map (prune_anchors oid) (remove_at idx (objects sc))\<rparr>"
    and iv: "iv = (let l = InsertObject (object_at sc idx) #
        map restore_anchors (filter (anchors_to oid) (remove_at idx (objects sc)))
      in if length l = 1 then hd l else Batch l)"
    using assms(2) by (auto simp: apply_delete_def with_index_Inr_iff Let_def)
  have "op_inv uq iv"
    using geometry_okD(3)[OF scene_inv_at[OF assms(1) i]]
    by (auto simp: iv Let_def list_all_iff restore_anchors_def)
  moreover have "scene_inv uq sc'"
    using scene_inv_mapI[OF scene_inv_remove_at[OF assms(1), of idx], of "prune_anchors oid"]
    by (simp add: sc' prune_anchors_def)
  ultimately show ?thesis by simp
qed

lemma edit_geometry_ok:
  assumes "scene_inv uq sc" "geometry_in g" "apply_edit_geometry sc oid g = (sc', Inr iv)"
  shows "scene_inv uq sc' \<and> op_inv uq iv"
proof -
  obtain g' idx where g': "geometry_ok g'" and i: "index_of sc oid = Some idx"
    and sc': "sc' = modify_at sc idx (\<lambda>ob. ob\<lparr>o_geometry := g'\<rparr>)"
    and iv: "iv = EditGeometry oid (o_geometry (object_at sc idx))"
    using assms(2,3) hydrated_ok[of g]
    by (auto simp: apply_edit_geometry_def guarded_Inr_iff with_index_Inr_iff parsed_def checked_def)
  then show ?thesis
    using scene_inv_modify_at[OF assms(1)] geometry_okD(3)[OF scene_inv_at[OF assms(1) i]] by simp
qed

lemma scene_inv_opt:
  assumes "scene_inv uq sc" "\<And>v ob. o_id (f v ob) = o_id ob \<and> o_geometry (f v ob) = o_geometry ob"
  shows "scene_inv uq (case e of None \<Rightarrow> sc | Some v \<Rightarrow> modify_at sc idx (f v))"
  using assms by (cases e) (auto intro: scene_inv_modify_at)

lemma multi_field_ok:
  assumes "scene_inv uq sc"
  shows "apply_set_style sc oid fe se = (sc', Inr iv) \<Longrightarrow> scene_inv uq sc' \<and> op_inv uq iv"
    "apply_set_meta sc oid n h k = (sc', Inr iv) \<Longrightarrow> scene_inv uq sc' \<and> op_inv uq iv"
  using assms
  by (auto simp: apply_set_style_def apply_set_meta_def Let_def with_index_Inr_iff intro!: scene_inv_opt)

lemma field_ops_ok:
  assumes "scene_inv uq sc"
  shows "apply_set_transform sc oid t = (sc', Inr iv) \<Longrightarrow> scene_inv uq sc' \<and> op_inv uq iv"
    "apply_set_text sc oid x = (sc', Inr iv) \<Longrightarrow> scene_inv uq sc' \<and> op_inv uq iv"
    "apply_set_anchor sc oid as = (sc', Inr iv) \<Longrightarrow> scene_inv uq sc' \<and> op_inv uq iv"
    "apply_set_layout sc oid l = (sc', Inr iv) \<Longrightarrow> scene_inv uq sc' \<and> op_inv uq iv"
    "apply_set_clip sc oid c = (sc', Inr iv) \<Longrightarrow> scene_inv uq sc' \<and> op_inv uq iv"
    "apply_set_sizing sc oid z = (sc', Inr iv) \<Longrightarrow> scene_inv uq sc' \<and> op_inv uq iv"
    "apply_add_comment sc oid cm = (sc', Inr iv) \<Longrightarrow> scene_inv uq sc' \<and> op_inv uq iv"
    "apply_set_comments sc oid cms = (sc', Inr iv) \<Longrightarrow> scene_inv uq sc' \<and> op_inv uq iv"
    "apply_set_tags sc oid ts = (sc', Inr iv) \<Longrightarrow> scene_inv uq sc' \<and> op_inv uq iv"
    "apply_reorder sc oid order = (sc', Inr iv) \<Longrightarrow> scene_inv uq sc' \<and> op_inv uq iv"
  using assms
  by (auto simp: field_op_defs Let_def with_index_Inr_iff guarded_Inr_iff
      intro!: scene_inv_modify_at split: if_split_asm option.split_asm)

lemma reparent_ok:
  assumes "scene_inv uq sc" "apply_reparent sc oid p order = (sc', Inr iv)"
  shows "scene_inv uq sc' \<and> op_inv uq iv"
  using assms
  by (auto simp: apply_reparent_def with_index_Inr_iff intro!: scene_inv_modify_at
      simp del: cycle_from.simps split: if_split_asm)

lemma map_peers_ok:
  "scene_inv uq sc \<Longrightarrow> scene_inv uq (map_peers oid f sc)"
  by (auto simp: map_peers_def intro!: scene_inv_mapI)

lemma canonicalize_ok:
  assumes "scene_inv uq sc" "apply_canonicalize lm sc oid = (sc', Inr iv)"
  shows "scene_inv uq sc' \<and> op_inv uq iv"
proof -
  obtain idx where i: "index_of sc oid = Some idx"
    using assms(2) by (auto simp: apply_canonicalize_def with_index_Inr_iff)
  let ?g = "o_geometry (object_at sc idx)" and ?t = "o_transform (object_at sc idx)"
  have g: "geometry_ok ?g" using scene_inv_at[OF assms(1) i] .
  show ?thesis
  proof (cases "canonicalize_orientation lm ?t ?g")
    case None
    then show ?thesis using assms i by (auto simp: apply_canonicalize_def with_index_Inr_iff)
  next
    case (Some r)
    obtain t' g1 where r: "r = (t', g1)" by (cases r)
    then have g1: "geometry_ok g1" using canonicalize_geometry_ok Some g by blast
    have sc': "sc' = map_peers oid (\<lambda>a. if a_target a = oid
          then a\<lparr>a_at := rehome_anchor_local ?t t' (a_at a)\<rparr> else a)
          (modify_at sc idx (\<lambda>ob. ob\<lparr>o_geometry := g1, o_transform := t'\<rparr>))"
      and iv: "iv = Batch ([EditGeometry oid ?g, SetTransform oid ?t] @
          restore_ops (capture_peer_anchors sc [oid]))"
      using assms(2) i Some r geometry_okD(4,5)[OF g1]
      by (auto simp: apply_canonicalize_def with_index_Inr_iff guarded_Inr_iff parsed_def checked_def Let_def)
    have "scene_inv uq (modify_at sc idx (\<lambda>ob. ob\<lparr>o_geometry := g1, o_transform := t'\<rparr>))"
      by (rule scene_inv_modify_at) (use assms(1) g1 in auto)
    then show ?thesis unfolding sc' iv
      using geometry_okD(3)[OF g] by (auto simp: map_peers_ok restore_ops_def list_all_iff)
  qed
qed

subsection \<open>Split\<close>

lemma keys_after_length: "keys_after n prev = Inr ks \<Longrightarrow> length ks = n"
  by (induction n arbitrary: prev ks) auto

lemma peel_from_ok:
  "\<lbrakk>peel_from n seen cs = Inr peel; set seen \<subseteq> {..<n}; distinct seen\<rbrakk>
   \<Longrightarrow> set peel \<subseteq> {..<n} \<and> distinct peel"
  by (induction n seen cs rule: peel_from.induct) (auto split: if_split_asm)

lemma peel_list_ok: "peel_list n cs = Inr peel \<Longrightarrow> set peel \<subseteq> {..<n} \<and> distinct peel"
  using peel_from_ok[of n "[]" cs peel] by (auto simp: peel_list_def split: if_split_asm)

lemma check_new_ids_ok:
  "check_new_ids sc oid ns = Inr () \<longleftrightarrow> (\<forall>n \<in> set ns. n \<noteq> oid \<and> \<not> has_object sc n)"
  by (induction ns) auto

definition kept_of :: "nat \<Rightarrow> nat list \<Rightarrow> nat list" where
  "kept_of n peel = filter (\<lambda>c. c \<notin> set peel) [0..<n]"

lemma position_eq_None: "position (\<lambda>p. p = c) peel = None \<longleftrightarrow> c \<notin> set peel"
  by (auto simp: position_None)

text \<open>What a successful split did, in closed form.\<close>

definition split_children :: "object \<Rightarrow> object_id list \<Rightarrow> str list \<Rightarrow> nat list \<Rightarrow> object list" where
  "split_children original new_ids keys peel =
     map (\<lambda>(nid, key, c). split_child original nid key c) (zip new_ids (zip keys peel))"

lemma split_shape:
  assumes "apply_split sc oid new_ids contours = (sc', Inr iv)"
  obtains idx peel keys sc1 f sc2 where
    "index_of sc oid = Some idx"
    "peel_list (length (g_subpaths (o_geometry (object_at sc idx)))) contours = Inr peel"
    "length new_ids = length peel" "length keys = length peel"
    "\<forall>n \<in> set new_ids. n \<noteq> oid \<and> \<not> has_object sc n"
    "sc1 = map_peers oid f sc" "\<And>a. a_target a \<noteq> oid \<Longrightarrow> f a = a"
    "sc2 = (if kept_of (length (g_subpaths (o_geometry (object_at sc idx)))) peel \<noteq> []
            then modify_at sc1 idx (\<lambda>ob. ob\<lparr>o_geometry := geometry_from_subpaths
              (map (\<lambda>c. g_subpaths (o_geometry (object_at sc idx)) ! c)
                (kept_of (length (g_subpaths (o_geometry (object_at sc idx)))) peel))
              (g_rule (o_geometry (object_at sc idx)))\<rparr>)
            else sc1\<lparr>objects := remove_at idx (objects sc1)\<rparr>)"
    "sc' = sc2\<lparr>objects := objects sc2 @ split_children (object_at sc idx) new_ids keys peel\<rparr>"
    "iv = Batch (map Delete new_ids @
        (if kept_of (length (g_subpaths (o_geometry (object_at sc idx)))) peel \<noteq> []
         then [Delete oid] else []) @
        [InsertObject (object_at sc idx)] @ restore_ops (capture_peer_anchors sc [oid]))"
proof -
  obtain idx where i: "index_of sc oid = Some idx"
    using assms by (auto simp: apply_split_def with_index_Inr_iff)
  let ?ob = "object_at sc idx"
  let ?sps = "g_subpaths (o_geometry ?ob)"
  obtain peel keys where peel: "peel_list (length ?sps) contours = Inr peel"
    and len: "length new_ids = length peel" and chk: "check_new_ids sc oid new_ids = Inr ()"
    and keys: "keys_after (length peel) (o_order ?ob) = Inr keys"
    using assms i
    by (auto simp: apply_split_def with_index_Inr_iff guarded_Inr_iff Let_def split: if_split_asm)
  let ?n = "length ?sps" and ?dest = "\<lambda>c. position (\<lambda>p. p = c) peel"
  let ?f = "split_anchor oid ?n (subpath_offsets ?sps) ?dest
      (kept_bases ?sps 0 (filter (\<lambda>c. ?dest c = None) [0..<?n]) (replicate ?n 0)) new_ids"
  have kept: "filter (\<lambda>c. ?dest c = None) [0..<?n] = kept_of ?n peel"
    by (simp add: kept_of_def position_eq_None)
  show ?thesis
  proof (rule that[OF i peel len keys_after_length[OF keys], of "map_peers oid ?f sc" ?f])
    show "\<forall>n \<in> set new_ids. n \<noteq> oid \<and> \<not> has_object sc n"
      using chk by (simp add: check_new_ids_ok)
    show "?f a = a" if "a_target a \<noteq> oid" for a using that by (simp add: split_anchor_def)
  qed (use assms i peel len chk keys kept in
      \<open>auto simp: apply_split_def with_index_Inr_iff guarded_Inr_iff Let_def split_children_def
        split: if_split_asm\<close>)
qed

lemma split_children_ids:
  "\<lbrakk>length new_ids = length peel; length keys = length peel\<rbrakk> \<Longrightarrow>
   map o_id (split_children original new_ids keys peel) = new_ids"
proof -
  assume "length new_ids = length peel" "length keys = length peel"
  then have "length new_ids = length keys" "length keys = length peel" by simp_all
  then show ?thesis unfolding split_children_def
    by (induction new_ids keys peel rule: list_induct3) (auto simp: split_child_def)
qed

lemma split_children_in:
  "ob \<in> set (split_children original new_ids keys peel) \<Longrightarrow>
   \<exists>nid key c. c \<in> set peel \<and> ob = split_child original nid key c"
  by (auto simp: split_children_def dest!: set_zip_rightD)

lemma sub_geometry_ok:
  assumes "geometry_ok g" "cs \<noteq> []" "set cs \<subseteq> {..<length (g_subpaths g)}"
  shows "geometry_ok (geometry_from_subpaths (map (\<lambda>c. g_subpaths g ! c) cs) r)"
  using geometry_okD(1,2)[OF assms(1)] assms(2,3)
  by (intro geometry_from_subpaths_ok) (force simp: drawable_def)+

lemma kept_of_subset: "set (kept_of n peel) \<subseteq> {..<n}"
  by (auto simp: kept_of_def)

lemma index_of_map_peers: "index_of (map_peers oid f sc) x = index_of sc x"
  by (auto simp: index_of_def map_peers_def position_map intro!: position_cong)

lemma ids_map_peers [simp]: "ids (map_peers oid f sc) = ids sc"
  by (simp add: ids_def map_peers_def)

lemma split_ok:
  assumes "scene_inv uq sc" "uq \<longrightarrow> distinct new_ids" "apply_split sc oid new_ids contours = (sc', Inr iv)"
  shows "scene_inv uq sc' \<and> op_inv uq iv"
  using assms(3)
proof (rule split_shape)
  fix idx peel keys sc1 f sc2
  let ?ob = "object_at sc idx"
  let ?g = "o_geometry ?ob"
  let ?sps = "g_subpaths ?g"
  let ?kept = "kept_of (length ?sps) peel"
  assume i: "index_of sc oid = Some idx"
    and peel: "peel_list (length ?sps) contours = Inr peel"
    and len: "length new_ids = length peel" "length keys = length peel"
    and fresh: "\<forall>n \<in> set new_ids. n \<noteq> oid \<and> \<not> has_object sc n"
    and sc1: "sc1 = map_peers oid f sc"
    and sc2: "sc2 = (if ?kept \<noteq> []
            then modify_at sc1 idx (\<lambda>ob. ob\<lparr>o_geometry := geometry_from_subpaths
              (map (\<lambda>c. ?sps ! c) ?kept) (g_rule ?g)\<rparr>)
            else sc1\<lparr>objects := remove_at idx (objects sc1)\<rparr>)"
    and sc': "sc' = sc2\<lparr>objects := objects sc2 @ split_children ?ob new_ids keys peel\<rparr>"
    and iv: "iv = Batch (map Delete new_ids @ (if ?kept \<noteq> [] then [Delete oid] else []) @
        [InsertObject ?ob] @ restore_ops (capture_peer_anchors sc [oid]))"
  have g: "geometry_ok ?g" using scene_inv_at[OF assms(1) i] .
  have p: "set peel \<subseteq> {..<length ?sps}" using peel_list_ok[OF peel] by simp
  have ok1: "scene_inv uq sc1" using assms(1) by (simp add: sc1 map_peers_ok)
  have ok2: "scene_inv uq sc2"
  proof (cases "?kept = []")
    case True
    then show ?thesis using scene_inv_remove_at[OF ok1] by (simp add: sc2)
  next
    case False
    then have "geometry_ok (geometry_from_subpaths (map (\<lambda>c. ?sps ! c) ?kept) (g_rule ?g))"
      using sub_geometry_ok[OF g] kept_of_subset by blast
    with False show ?thesis using scene_inv_modify_at[OF ok1] by (simp add: sc2)
  qed
  have "set (ids sc2) \<subseteq> set (ids sc)"
    by (auto simp: sc2 sc1 ids_modify_at)
      (auto simp: ids_def map_peers_def dest!: subsetD[OF set_remove_at])
  then have "uq \<longrightarrow> distinct (ids sc2 @ new_ids)"
    using ok2 assms(2) fresh by (auto simp: scene_inv_def has_object_ids)
  moreover have "geometry_ok (o_geometry ob)" if "ob \<in> set (split_children ?ob new_ids keys peel)" for ob
    using split_children_in[OF that] sub_geometry_ok[OF g, of "[_]"] p
    by (auto simp: split_child_def)
  ultimately have "scene_inv uq sc'"
    using ok2 split_children_ids[OF len] by (auto simp: sc' scene_inv_def ids_def)
  moreover have "op_inv uq iv"
    using geometry_okD(3)[OF g] by (auto simp: iv list_all_iff restore_ops_def)
  ultimately show ?thesis by simp
qed

subsection \<open>Merge\<close>

text \<open>What a successful merge did.\<close>

definition survivor_of :: "object_id list \<Rightarrow> object_id option \<Rightarrow> object_id" where
  "survivor_of ms into = (case into of Some i \<Rightarrow> i | None \<Rightarrow> hd ms)"

definition merge_list :: "object_id list \<Rightarrow> object_id \<Rightarrow> object_id list" where
  "merge_list ms s = s # filter (\<lambda>m. m \<noteq> s) ms"

definition merged_geometry :: "scene \<Rightarrow> object_id list \<Rightarrow> object_id \<Rightarrow> geometry" where
  "merged_geometry sc ms s = geometry_from_subpaths
     (concat (map (\<lambda>m. g_subpaths (o_geometry (the_object sc m))) (merge_list ms s)))
     (g_rule (o_geometry (the_object sc s)))"

lemma check_merged_ok:
  "check_merged sc seen ms = Inr () \<longleftrightarrow>
     distinct ms \<and> set ms \<inter> set seen = {} \<and> set ms \<subseteq> set (ids sc)"
  by (induction ms arbitrary: seen) (auto simp: index_of_None)

lemma merge_shape:
  assumes "apply_merge sc ms into = (sc', Inr iv)"
  obtains s sc1 sidx bases where
    "s = survivor_of ms into" "s \<in> set ms" "distinct ms" "set ms \<subseteq> set (ids sc)"
    "sc1 = sc\<lparr>objects := filter (\<lambda>ob. o_id ob = s \<or> o_id ob \<notin> set ms) (objects sc)\<rparr>"
    "index_of sc1 s = Some sidx"
    "bases = merge_bases sc 0 (merge_list ms s)"
    "sc' = (modify_at sc1 sidx (\<lambda>ob. ob\<lparr>o_geometry := merged_geometry sc ms s\<rparr>))
       \<lparr>objects := map (\<lambda>ob. ob\<lparr>o_anchors := map (merge_anchor bases s) (o_anchors ob)\<rparr>)
         (objects (modify_at sc1 sidx (\<lambda>ob. ob\<lparr>o_geometry := merged_geometry sc ms s\<rparr>)))\<rparr>"
    "iv = Batch (Delete s # map InsertObject (map (the_object sc) ms) @
        restore_ops (capture_peer_anchors sc ms))"
proof -
  have ne: "ms \<noteq> []" and s: "survivor_of ms into \<in> set ms"
    using assms by (auto simp: apply_merge_def survivor_of_def Let_def split: if_split_asm)
  have chk: "check_merged sc [] ms = Inr ()"
    using assms ne s by (auto simp: apply_merge_def survivor_of_def Let_def guarded_Inr_iff split: if_split_asm)
  then have d: "distinct ms" "set ms \<subseteq> set (ids sc)" by (simp_all add: check_merged_ok)
  let ?s = "survivor_of ms into"
  let ?sc1 = "sc\<lparr>objects := filter (\<lambda>ob. o_id ob = ?s \<or> o_id ob \<notin> set ms) (objects sc)\<rparr>"
  obtain sidx where si: "index_of ?sc1 ?s = Some sidx"
    using merge_survivor_stays[OF chk s s] by auto
  show ?thesis
    by (rule that[OF refl s d refl si refl])
      (use assms ne s chk si in \<open>auto simp: apply_merge_def survivor_of_def[symmetric] Let_def
        guarded_Inr_iff with_index_Inr_iff merged_geometry_def merge_list_def\<close>)
qed

lemma the_object_inv:
  assumes "scene_inv uq sc" "oid \<in> set (ids sc)"
  shows "the_object sc oid \<in> set (objects sc)" "o_id (the_object sc oid) = oid"
    "geometry_ok (o_geometry (the_object sc oid))"
proof -
  obtain ob where ob: "scene_get sc oid = Some ob"
    using assms(2) by (cases "scene_get sc oid") (auto simp: scene_get_def find_None_iff ids_def)
  then have "ob \<in> set (objects sc)" "o_id ob = oid"
    by (auto simp: scene_get_def find_Some_iff)
  with ob assms(1) show "the_object sc oid \<in> set (objects sc)" "o_id (the_object sc oid) = oid"
    "geometry_ok (o_geometry (the_object sc oid))"
    by (auto simp: the_object_def scene_inv_def)
qed

lemma merged_geometry_ok:
  assumes "scene_inv uq sc" "s \<in> set ms" "set ms \<subseteq> set (ids sc)"
  shows "geometry_ok (merged_geometry sc ms s)"
  unfolding merged_geometry_def
proof (rule geometry_from_subpaths_ok)
  have ok: "geometry_ok (o_geometry (the_object sc m))" if "m \<in> set (merge_list ms s)" for m
    using that assms the_object_inv(3) by (auto simp: merge_list_def)
  let ?l = "concat (map (\<lambda>m. g_subpaths (o_geometry (the_object sc m))) (merge_list ms s))"
  show "\<forall>sp \<in> set ?l. canonical sp"
    using geometry_okD(1)[OF ok] by auto
  show "drawable ?l"
    using geometry_okD(2)[OF ok] by (fastforce simp: drawable_def merge_list_def)
qed

lemma merge_ok:
  assumes "scene_inv uq sc" "apply_merge sc ms into = (sc', Inr iv)"
  shows "scene_inv uq sc' \<and> op_inv uq iv"
  using assms(2)
proof (rule merge_shape)
  fix s sc1 sidx bases
  let ?sc2 = "modify_at sc1 sidx (\<lambda>ob. ob\<lparr>o_geometry := merged_geometry sc ms s\<rparr>)"
  assume s: "s \<in> set ms" "set ms \<subseteq> set (ids sc)"
    and sc1: "sc1 = sc\<lparr>objects := filter (\<lambda>ob. o_id ob = s \<or> o_id ob \<notin> set ms) (objects sc)\<rparr>"
    and sc': "sc' = ?sc2\<lparr>objects := map (\<lambda>ob. ob\<lparr>o_anchors := map (merge_anchor bases s)
         (o_anchors ob)\<rparr>) (objects ?sc2)\<rparr>"
    and iv: "iv = Batch (Delete s # map InsertObject (map (the_object sc) ms) @
        restore_ops (capture_peer_anchors sc ms))"
  have "scene_inv uq sc1" unfolding sc1
    by (rule scene_inv_sublist[OF assms(1)])
      (use assms(1) in \<open>auto simp: scene_inv_def ids_def distinct_map_filter\<close>)
  then have "scene_inv uq ?sc2"
    by (rule scene_inv_modify_at) (use merged_geometry_ok[OF assms(1) s] in auto)
  then have "scene_inv uq sc'" unfolding sc' by (rule scene_inv_mapI) simp
  moreover have "op_inv uq iv"
    using the_object_inv(3)[OF assms(1)] s(2) geometry_okD(3)
    by (auto simp: iv list_all_iff restore_ops_def)
  ultimately show ?thesis by simp
qed

section \<open>The invariant, for every operation\<close>

lemma apply_inner_ok:
  "apply_inner lm sc op = (sc', Inr iv) \<Longrightarrow> scene_inv uq sc \<Longrightarrow> op_inv uq op \<Longrightarrow> scene_inv uq sc' \<and> op_inv uq iv"
  "apply_children lm sc ops = (sc', Inr ivs) \<Longrightarrow> scene_inv uq sc \<Longrightarrow> list_all (op_inv uq) ops \<Longrightarrow>
     scene_inv uq sc' \<and> list_all (op_inv uq) ivs"
proof (induction lm sc op and lm sc ops arbitrary: sc' iv and sc' ivs
    rule: apply_inner_apply_children.induct)
  case (20 lm sc ops)
  then show ?case by (auto split: prod.splits sum.splits)
next
  case (22 lm working op ops)
  then show ?case by (auto split: prod.splits sum.splits)
qed (auto dest: insert_ok delete_ok edit_geometry_ok multi_field_ok field_ops_ok reparent_ok
      canonicalize_ok split_ok merge_ok)

lemma apply_object_op_inv:
  assumes "apply_object_op lm sc op = (sc', Inr iv)" "scene_inv uq sc" "op_inv uq op"
  shows "scene_inv uq sc' \<and> op_inv uq iv"
  using assms apply_inner_ok(1)[where uq = uq, of lm sc op]
  by (auto simp: apply_object_op_def scene_inv_def ids_def split: prod.splits sum.splits)

lemmas apply_object_op_ok = apply_object_op_inv[where uq = True, unfolded scene_inv_True op_inv_True]
lemmas scene_ok_modify_at = scene_inv_modify_at[where uq = True, unfolded scene_inv_True]
lemmas scene_ok_at = scene_inv_at[where uq = True, unfolded scene_inv_True]
lemmas the_object_ok = the_object_inv[where uq = True, unfolded scene_inv_True]

text \<open>A split keeps the ids unique exactly when it names each new object once.\<close>

lemma split_ids_unique:
  assumes "apply_object_op lm sc (Split oid new_ids contours) = (sc', Inr iv)" "distinct (ids sc)"
  shows "distinct (ids sc') \<longleftrightarrow> distinct new_ids"
proof -
  obtain sc1 where s: "apply_split sc oid new_ids contours = (sc1, Inr iv)" "ids sc' = ids sc1"
    using assms(1) by (auto simp: apply_object_op_def ids_def split: prod.splits sum.splits)
  show ?thesis using s(1)
  proof (rule split_shape)
    fix idx peel keys sc2 f sc3
    assume len: "length new_ids = length peel" "length keys = length peel"
      and fresh: "\<forall>n \<in> set new_ids. n \<noteq> oid \<and> \<not> has_object sc n"
      and sc2: "sc2 = map_peers oid f sc"
      and sc3: "sc3 = (if kept_of (length (g_subpaths (o_geometry (object_at sc idx)))) peel \<noteq> []
            then modify_at sc2 idx (\<lambda>ob. ob\<lparr>o_geometry := geometry_from_subpaths
              (map (\<lambda>c. g_subpaths (o_geometry (object_at sc idx)) ! c)
                (kept_of (length (g_subpaths (o_geometry (object_at sc idx)))) peel))
              (g_rule (o_geometry (object_at sc idx)))\<rparr>)
            else sc2\<lparr>objects := remove_at idx (objects sc2)\<rparr>)"
      and sc1: "sc1 = sc3\<lparr>objects := objects sc3 @ split_children (object_at sc idx) new_ids keys peel\<rparr>"
    have "ids (sc2\<lparr>objects := remove_at idx (objects sc2)\<rparr>) = remove_at idx (ids sc2)"
      by (simp add: ids_def map_remove_at)
    moreover have "ids sc2 = ids sc" by (simp add: sc2)
    ultimately have "ids sc3 = ids sc \<or> ids sc3 = remove_at idx (ids sc)"
      by (simp add: sc3 ids_modify_at)
    then have "distinct (ids sc3)" "set (ids sc3) \<subseteq> set (ids sc)"
      using assms(2) by (auto simp: distinct_remove_at dest: subsetD[OF set_remove_at])
    moreover have "ids sc1 = ids sc3 @ new_ids"
      using split_children_ids[OF len] by (simp add: sc1 ids_def)
    ultimately show ?thesis using fresh s(2) by (auto simp: has_object_ids)
  qed
qed

end
