(* ===== verification/Undo_Laws.thy ===== *)
theory Undo_Laws
  imports Apply_Laws
begin

text \<open>
  The inverse an operation returns does undo it. Field edits, canonicalization and batches
  of them restore the object list exactly; the structural operations restore every object
  and may change the order of the list.
\<close>

section \<open>The parent relation\<close>

definition parent_rel :: "scene \<Rightarrow> (object_id \<times> object_id) set" where
  "parent_rel sc = {(o_id ob, p) | ob p. ob \<in> set (objects sc) \<and> o_parent ob = Some p}"

lemma scene_get_Some: "scene_get sc x = Some ob \<Longrightarrow> ob \<in> set (objects sc) \<and> o_id ob = x"
  by (auto simp: scene_get_def find_Some_iff)

lemma scene_get_eq:
  "distinct (ids sc) \<Longrightarrow> ob \<in> set (objects sc) \<Longrightarrow> scene_get sc (o_id ob) = Some ob"
  by (simp add: scene_get_def ids_def find_distinct)

lemma parent_rel_iff:
  assumes "distinct (ids sc)"
  shows "(x, p) \<in> parent_rel sc \<longleftrightarrow> Option.bind (scene_get sc x) o_parent = Some p"
proof
  assume "(x, p) \<in> parent_rel sc"
  then show "Option.bind (scene_get sc x) o_parent = Some p"
    using scene_get_eq[OF assms] by (auto simp: parent_rel_def)
next
  assume "Option.bind (scene_get sc x) o_parent = Some p"
  then show "(x, p) \<in> parent_rel sc"
    by (auto simp: parent_rel_def bind_eq_Some_conv dest!: scene_get_Some)
qed

lemma cycle_from_False:
  assumes "distinct (ids sc)" "\<not> cycle_from sc oid g cur" "cur = Some c"
  shows "(c, oid) \<notin> (parent_rel sc)\<^sup>*"
  using assms
proof (induction sc oid g cur arbitrary: c rule: cycle_from.induct)
  case (2 sc oid g cur)
  have ne: "cur \<noteq> oid" and g: "\<not> Suc g > length (objects sc) + 1"
    and rec: "\<not> cycle_from sc oid (Suc g) (Option.bind (scene_get sc cur) o_parent)"
    using "2.prems"(2) by (auto split: if_split_asm)
  show ?case
  proof
    assume "(c, oid) \<in> (parent_rel sc)\<^sup>*"
    with ne "2.prems"(3) obtain q where "(cur, q) \<in> parent_rel sc" "(q, oid) \<in> (parent_rel sc)\<^sup>*"
      by (auto elim: converse_rtranclE)
    then show False
      using "2.IH"[OF ne g "2.prems"(1) rec] parent_rel_iff[OF "2.prems"(1)] by blast
  qed
qed simp

lemma cycle_from_acyclic:
  assumes "distinct (ids sc)" "acyclic (parent_rel sc)"
    and "\<And>c. cur = Some c \<Longrightarrow> (c, oid) \<notin> (parent_rel sc)\<^sup>*"
    and "V \<subseteq> set (ids sc)" "card V = g" "\<And>c v. cur = Some c \<Longrightarrow> v \<in> V \<Longrightarrow> (v, c) \<in> (parent_rel sc)\<^sup>+"
  shows "\<not> cycle_from sc oid g cur"
  using assms
proof (induction sc oid g cur arbitrary: V rule: cycle_from.induct)
  case (2 sc oid g cur)
  let ?next = "Option.bind (scene_get sc cur) o_parent"
  have fin: "finite V" using "2.prems"(4) finite_subset by blast
  have len: "card (set (ids sc)) = length (objects sc)"
    using "2.prems"(1) by (metis distinct_card ids_def length_map)
  have ne: "cur \<noteq> oid" using "2.prems"(3) by auto
  have new: "cur \<notin> V" using "2.prems"(2,6) by (auto simp: acyclic_def)
  show ?case
  proof (cases ?next)
    case None
    have "g \<le> length (objects sc)"
      using "2.prems"(4,5) len by (metis List.finite_set card_mono)
    with None ne show ?thesis by simp
  next
    case (Some q)
    then have rel: "(cur, q) \<in> parent_rel sc" using parent_rel_iff[OF "2.prems"(1)] by simp
    then have "cur \<in> set (ids sc)" by (auto simp: parent_rel_def ids_def)
    then have sub: "insert cur V \<subseteq> set (ids sc)" using "2.prems"(4) by simp
    then have "card (insert cur V) \<le> length (objects sc)"
      using len by (metis List.finite_set card_mono)
    then have g: "\<not> Suc g > length (objects sc) + 1" and card: "card (insert cur V) = Suc g"
      using new fin "2.prems"(5) by auto
    have "\<not> cycle_from sc oid (Suc g) ?next"
    proof (rule "2.IH"[OF ne g "2.prems"(1,2) _ sub card])
      fix c assume c: "?next = Some c"
      then have "c = q" using Some by simp
      then show "(c, oid) \<notin> (parent_rel sc)\<^sup>*"
        using "2.prems"(3)[OF refl] rel by (meson converse_rtrancl_into_rtrancl)
      show "(v, c) \<in> (parent_rel sc)\<^sup>+" if "v \<in> insert cur V" for v
        using that rel \<open>c = q\<close> "2.prems"(6)[OF refl] by (auto intro: trancl_into_trancl)
    qed
    then show ?thesis using ne g by simp
  qed
qed simp

lemma would_cycle_iff:
  assumes "distinct (ids sc)" "acyclic (parent_rel sc)"
  shows "would_cycle sc oid p \<longleftrightarrow> (p, oid) \<in> (parent_rel sc)\<^sup>*"
  using cycle_from_False[OF assms(1), of oid 0 "Some p" p]
    cycle_from_acyclic[OF assms, of "Some p" oid "{}" 0]
  by (auto simp: would_cycle_def simp del: cycle_from.simps)

section \<open>Look-up after an edit\<close>

lemma index_of_position: "index_of sc oid = position (\<lambda>x. x = oid) (ids sc)"
  by (simp add: index_of_def ids_def position_map)

lemma modify_at_undo:
  assumes "idx < length (objects sc)" "g (f (objects sc ! idx)) = objects sc ! idx"
  shows "modify_at (modify_at sc idx f) idx g = sc"
  using assms by (simp add: modify_at_def)

lemma modify_at_modify_at:
  "idx < length (objects sc) \<Longrightarrow> modify_at (modify_at sc idx f) idx g = modify_at sc idx (\<lambda>ob. g (f ob))"
  by (simp add: modify_at_def)

lemma object_at_modify_at:
  "idx < length (objects sc) \<Longrightarrow> object_at (modify_at sc idx f) idx = f (object_at sc idx)"
  by (simp add: modify_at_def object_at_def)

lemma index_of_modify_at:
  "(\<And>ob. o_id (f ob) = o_id ob) \<Longrightarrow> index_of (modify_at sc idx f) oid = index_of sc oid"
  by (simp add: index_of_position ids_modify_at)

lemma has_object_modify_at:
  "(\<And>ob. o_id (f ob) = o_id ob) \<Longrightarrow> has_object (modify_at sc idx f) x = has_object sc x"
  by (simp add: has_object_ids ids_modify_at)

section \<open>Scenes in which every edit can be undone\<close>

text \<open>
  Beside the invariant: anchors point at objects of the scene, stored layouts and sizings
  pass their own validators, and no parent chain runs in a circle.
\<close>

definition anchors_resolved :: "scene \<Rightarrow> bool" where
  "anchors_resolved sc \<longleftrightarrow>
     (\<forall>ob \<in> set (objects sc). \<forall>a \<in> set (o_anchors ob). has_object sc (a_target a))"

definition fields_valid :: "object \<Rightarrow> bool" where
  "fields_valid ob \<longleftrightarrow>
     (\<forall>l. o_layout ob = Some l \<longrightarrow> validate_layout l = Inr ()) \<and>
     (\<forall>s. o_sizing ob = Some s \<longrightarrow> validate_sizing s = Inr ())"

definition undo_ready :: "scene \<Rightarrow> bool" where
  "undo_ready sc \<longleftrightarrow> scene_ok sc \<and> anchors_resolved sc \<and>
     (\<forall>ob \<in> set (objects sc). fields_valid ob) \<and> acyclic (parent_rel sc)"

text \<open>Operations that neither create nor remove an object.\<close>

fun field_op :: "object_op \<Rightarrow> bool" where
  "field_op (InsertObject _) = False"
| "field_op (Delete _) = False"
| "field_op (Split _ _ _) = False"
| "field_op (Merge _ _) = False"
| "field_op (Batch ops) = list_all field_op ops"
| "field_op _ = True"

lemma undo_readyD:
  assumes "undo_ready sc"
  shows "scene_ok sc" "distinct (ids sc)" "anchors_resolved sc" "acyclic (parent_rel sc)"
    "\<And>ob. ob \<in> set (objects sc) \<Longrightarrow> fields_valid ob"
  using assms by (auto simp: undo_ready_def scene_ok_def)

lemma object_at_in: "index_of sc oid = Some idx \<Longrightarrow> object_at sc idx \<in> set (objects sc)"
  by (auto simp: object_at_def dest: index_of_Some)


lemma undo_ready_modify_at:
  assumes "undo_ready sc" "\<And>ob. o_id (f ob) = o_id ob" "\<And>ob. o_parent (f ob) = o_parent ob"
    and "\<And>ob. ob \<in> set (objects sc) \<Longrightarrow> geometry_ok (o_geometry (f ob))"
    and "\<And>ob. ob \<in> set (objects sc) \<Longrightarrow> fields_valid (f ob)"
    and "\<And>ob a. ob \<in> set (objects sc) \<Longrightarrow> a \<in> set (o_anchors (f ob)) \<Longrightarrow> has_object sc (a_target a)"
  shows "undo_ready (modify_at sc idx f)"
proof (cases "idx < length (objects sc)")
  case True
  let ?x = "objects sc ! idx"
  have x: "?x \<in> set (objects sc)" using True by simp
  have obs: "set (objects (modify_at sc idx f)) \<subseteq> insert (f ?x) (set (objects sc))"
    by (simp add: objects_modify_at set_update_subset_insert)
  have has: "has_object (modify_at sc idx f) = has_object sc"
    using assms(2) by (simp add: fun_eq_iff has_object_modify_at)
  have "parent_rel (modify_at sc idx f) \<subseteq> parent_rel sc"
    using obs x by (fastforce simp: parent_rel_def assms(2,3))
  then have "acyclic (parent_rel (modify_at sc idx f))"
    using undo_readyD(4)[OF assms(1)] acyclic_subset by blast
  moreover have "scene_ok (modify_at sc idx f)"
    using undo_readyD(1)[OF assms(1)] obs assms(4)[OF x]
    by (auto simp: scene_ok_def ids_modify_at assms(2))
  moreover have "anchors_resolved (modify_at sc idx f)"
    using undo_readyD(3)[OF assms(1)] obs assms(6)[OF x] unfolding anchors_resolved_def has by blast
  moreover have "\<forall>ob \<in> set (objects (modify_at sc idx f)). fields_valid ob"
    using undo_readyD(5)[OF assms(1)] obs assms(5)[OF x] by blast
  ultimately show ?thesis by (simp add: undo_ready_def)
qed (use assms(1) in \<open>simp add: modify_at_def list_update_beyond\<close>)

text \<open>The operation \<open>iv\<close> takes \<open>sc'\<close> back to \<open>sc\<close>.\<close>

definition undoes :: "libm \<Rightarrow> object_op \<Rightarrow> scene \<Rightarrow> scene \<Rightarrow> bool" where
  "undoes lm iv sc' sc \<longleftrightarrow> (\<exists>iv'. apply_inner lm sc' iv = (sc, Inr iv'))"

text \<open>One edited object, whose inverse is an edit at the same index.\<close>

lemma undo_at:
  assumes "index_of sc oid = Some idx" "\<And>ob. o_id (f ob) = o_id ob"
    and "g (f (object_at sc idx)) = object_at sc idx"
    and "apply_inner lm (modify_at sc idx f) iv = (modify_at (modify_at sc idx f) idx g, Inr iv')"
  shows "undoes lm iv (modify_at sc idx f) sc"
  using assms modify_at_undo[of idx sc g f] index_of_Some[OF assms(1)]
  by (auto simp: undoes_def object_at_def)

lemma undo_nothing: "undoes lm (Batch []) sc sc"
  by (simp add: undoes_def)

lemma undo_style:
  assumes "undo_ready sc" "apply_set_style sc oid fe se = (sc', Inr iv)"
  shows "undoes lm iv sc' sc \<and> undo_ready sc'"
proof -
  obtain idx where i: "index_of sc oid = Some idx"
    using assms(2) by (auto simp: apply_set_style_def with_index_Inr_iff)
  then have l: "idx < length (objects sc)" by (auto dest: index_of_Some)
  let ?old = "object_at sc idx"
  define f where "f = (\<lambda>ob :: object. ob\<lparr>o_fill := (case fe of None \<Rightarrow> o_fill ob | Some e \<Rightarrow> edit_resolve e (o_fill ?old)),
      o_stroke := (case se of None \<Rightarrow> o_stroke ob | Some e \<Rightarrow> edit_resolve e (o_stroke ?old))\<rparr>)"
  define g where "g = (\<lambda>ob :: object. ob\<lparr>o_fill := (case fe of None \<Rightarrow> o_fill ob | Some e \<Rightarrow> o_fill ?old),
      o_stroke := (case se of None \<Rightarrow> o_stroke ob | Some e \<Rightarrow> o_stroke ?old)\<rparr>)"
  have keeps: "o_id (f ob) = o_id ob" for ob by (simp add: f_def)
  have sc': "sc' = modify_at sc idx f"
    and iv: "iv = SetStyle oid (map_option (\<lambda>_. edit_from_option (o_fill ?old)) fe)
      (map_option (\<lambda>_. edit_from_option (o_stroke ?old)) se)"
    using assms(2) i l
    by (cases fe; cases se; simp add: apply_set_style_def with_index_simps Let_def
        modify_at_modify_at f_def; simp add: modify_at_def)+
  have "undoes lm iv (modify_at sc idx f) sc"
  proof (rule undo_at[OF i keeps])
    show "g (f ?old) = ?old" by (cases fe; cases se) (auto simp: f_def g_def)
    show "apply_inner lm (modify_at sc idx f) iv = (modify_at (modify_at sc idx f) idx g,
        Inr (SetStyle oid (map_option (\<lambda>_. edit_from_option (o_fill (f ?old))) fe)
          (map_option (\<lambda>_. edit_from_option (o_stroke (f ?old))) se)))"
      using i l
      by (cases fe; cases se; simp add: iv apply_set_style_def with_index_simps index_of_modify_at keeps
          Let_def object_at_modify_at modify_at_modify_at g_def; simp add: modify_at_def)
  qed
  moreover have "undo_ready (modify_at sc idx f)"
    using undo_readyD[OF assms(1)]
    by (intro undo_ready_modify_at[OF assms(1)])
      (auto simp: f_def scene_ok_def fields_valid_def anchors_resolved_def)
  ultimately show ?thesis by (simp add: sc')
qed


lemma undo_field:
  assumes "undo_ready sc" "index_of sc oid = Some idx"
    and f: "\<And>ob. o_id (f ob) = o_id ob" "\<And>ob. o_parent (f ob) = o_parent ob"
      "\<And>ob. o_geometry (f ob) = o_geometry ob" "\<And>ob. o_anchors (f ob) = o_anchors ob"
      "\<And>ob. fields_valid ob \<Longrightarrow> fields_valid (f ob)"
    and "g (f (object_at sc idx)) = object_at sc idx"
    and "apply_inner lm (modify_at sc idx f) iv = (modify_at (modify_at sc idx f) idx g, Inr iv')"
  shows "undoes lm iv (modify_at sc idx f) sc \<and> undo_ready (modify_at sc idx f)"
proof
  show "undoes lm iv (modify_at sc idx f) sc"
    using undo_at[OF assms(2) f(1) assms(8,9)] .
  show "undo_ready (modify_at sc idx f)"
    using undo_readyD[OF assms(1)] f
    by (intro undo_ready_modify_at[OF assms(1)]) (auto simp: scene_ok_def anchors_resolved_def)
qed

lemma undo_meta:
  assumes "undo_ready sc" "apply_set_meta sc oid ne he le = (sc', Inr iv)"
  shows "undoes lm iv sc' sc \<and> undo_ready sc'"
proof -
  obtain idx where i: "index_of sc oid = Some idx"
    using assms(2) by (auto simp: apply_set_meta_def with_index_Inr_iff)
  then have l: "idx < length (objects sc)" by (auto dest: index_of_Some)
  let ?old = "object_at sc idx"
  define f where "f = (\<lambda>ob :: object. ob
    \<lparr>o_name := (case ne of None \<Rightarrow> o_name ob | Some e \<Rightarrow> edit_resolve e (o_name ?old)),
     o_hidden := (case he of None \<Rightarrow> o_hidden ob | Some v \<Rightarrow> v),
     o_locked := (case le of None \<Rightarrow> o_locked ob | Some v \<Rightarrow> v)\<rparr>)"
  define g where "g = (\<lambda>ob :: object. ob
    \<lparr>o_name := (case ne of None \<Rightarrow> o_name ob | Some e \<Rightarrow> o_name ?old),
     o_hidden := (case he of None \<Rightarrow> o_hidden ob | Some v \<Rightarrow> o_hidden ?old),
     o_locked := (case le of None \<Rightarrow> o_locked ob | Some v \<Rightarrow> o_locked ?old)\<rparr>)"
  have sc': "sc' = modify_at sc idx f"
    and iv: "iv = SetMeta oid (map_option (\<lambda>_. edit_from_option (o_name ?old)) ne)
      (map_option (\<lambda>_. o_hidden ?old) he) (map_option (\<lambda>_. o_locked ?old) le)"
    using assms(2) i l
    by (cases ne; cases he; cases le; simp add: apply_set_meta_def with_index_simps Let_def
        modify_at_modify_at f_def; simp add: modify_at_def)+
  have keeps: "o_id (f ob) = o_id ob" for ob by (simp add: f_def)
  show ?thesis unfolding sc'
  proof (rule undo_field[OF assms(1) i])
    show "g (f ?old) = ?old" by (cases ne; cases he; cases le) (auto simp: f_def g_def)
    show "apply_inner lm (modify_at sc idx f) iv = (modify_at (modify_at sc idx f) idx g,
        Inr (SetMeta oid (map_option (\<lambda>_. edit_from_option (o_name (f ?old))) ne)
          (map_option (\<lambda>_. o_hidden (f ?old)) he) (map_option (\<lambda>_. o_locked (f ?old)) le)))"
      using i l
      by (cases ne; cases he; cases le; simp add: iv apply_set_meta_def with_index_simps
          index_of_modify_at keeps Let_def object_at_modify_at modify_at_modify_at g_def;
          simp add: modify_at_def)
  qed (auto simp: f_def fields_valid_def)
qed

lemmas field_undo_simps =
  with_index_simps index_of_modify_at object_at_modify_at fields_valid_def

lemma single_field_undo:
  assumes "undo_ready sc"
  shows "apply_set_transform sc oid t = (sc', Inr iv) \<Longrightarrow> undoes lm iv sc' sc \<and> undo_ready sc'"
    "apply_set_clip sc oid c = (sc', Inr iv) \<Longrightarrow> undoes lm iv sc' sc \<and> undo_ready sc'"
    "apply_set_tags sc oid ts = (sc', Inr iv) \<Longrightarrow> undoes lm iv sc' sc \<and> undo_ready sc'"
    "apply_reorder sc oid order = (sc', Inr iv) \<Longrightarrow> undoes lm iv sc' sc \<and> undo_ready sc'"
    "apply_set_comments sc oid cms = (sc', Inr iv) \<Longrightarrow> undoes lm iv sc' sc \<and> undo_ready sc'"
    "apply_add_comment sc oid cm = (sc', Inr iv) \<Longrightarrow> undoes lm iv sc' sc \<and> undo_ready sc'"
    "apply_set_text sc oid x = (sc', Inr iv) \<Longrightarrow> undoes lm iv sc' sc \<and> undo_ready sc'"
proof -
  note field = undo_field[OF assms]
  show "undoes lm iv sc' sc \<and> undo_ready sc'" if a: "apply_set_transform sc oid t = (sc', Inr iv)"
  proof -
    obtain idx where i: "index_of sc oid = Some idx"
      and e: "sc' = modify_at sc idx (\<lambda>ob. ob\<lparr>o_transform := t\<rparr>)"
      and iv: "iv = SetTransform oid (o_transform (object_at sc idx))"
      using a by (auto simp: apply_set_transform_def with_index_Inr_iff)
    show ?thesis unfolding e
      by (rule field[OF i, where g = "\<lambda>ob. ob\<lparr>o_transform := o_transform (object_at sc idx)\<rparr>"])
        (use i in \<open>simp_all add: iv apply_set_transform_def field_undo_simps\<close>)
  qed
  show "undoes lm iv sc' sc \<and> undo_ready sc'" if a: "apply_set_clip sc oid c = (sc', Inr iv)"
  proof -
    obtain idx where i: "index_of sc oid = Some idx"
      and e: "sc' = modify_at sc idx (\<lambda>ob. ob\<lparr>o_clip := c\<rparr>)"
      and iv: "iv = SetClip oid (o_clip (object_at sc idx))"
      using a by (auto simp: apply_set_clip_def with_index_Inr_iff)
    show ?thesis unfolding e
      by (rule field[OF i, where g = "\<lambda>ob. ob\<lparr>o_clip := o_clip (object_at sc idx)\<rparr>"])
        (use i in \<open>simp_all add: iv apply_set_clip_def field_undo_simps\<close>)
  qed
  show "undoes lm iv sc' sc \<and> undo_ready sc'" if a: "apply_set_tags sc oid ts = (sc', Inr iv)"
  proof -
    obtain idx where i: "index_of sc oid = Some idx"
      and e: "sc' = modify_at sc idx (\<lambda>ob. ob\<lparr>o_tags := ts\<rparr>)"
      and iv: "iv = SetTags oid (o_tags (object_at sc idx))"
      using a by (auto simp: apply_set_tags_def with_index_Inr_iff)
    show ?thesis unfolding e
      by (rule field[OF i, where g = "\<lambda>ob. ob\<lparr>o_tags := o_tags (object_at sc idx)\<rparr>"])
        (use i in \<open>simp_all add: iv apply_set_tags_def field_undo_simps\<close>)
  qed
  show "undoes lm iv sc' sc \<and> undo_ready sc'" if a: "apply_reorder sc oid order = (sc', Inr iv)"
  proof -
    obtain idx where i: "index_of sc oid = Some idx"
      and e: "sc' = modify_at sc idx (\<lambda>ob. ob\<lparr>o_order := order\<rparr>)"
      and iv: "iv = Reorder oid (o_order (object_at sc idx))"
      using a by (auto simp: apply_reorder_def with_index_Inr_iff)
    show ?thesis unfolding e
      by (rule field[OF i, where g = "\<lambda>ob. ob\<lparr>o_order := o_order (object_at sc idx)\<rparr>"])
        (use i in \<open>simp_all add: iv apply_reorder_def field_undo_simps\<close>)
  qed
  show "undoes lm iv sc' sc \<and> undo_ready sc'" if a: "apply_set_comments sc oid cms = (sc', Inr iv)"
  proof -
    obtain idx where i: "index_of sc oid = Some idx"
      and e: "sc' = modify_at sc idx (\<lambda>ob. ob\<lparr>o_comments := cms\<rparr>)"
      and iv: "iv = SetComments oid (o_comments (object_at sc idx))"
      using a by (auto simp: apply_set_comments_def with_index_Inr_iff)
    show ?thesis unfolding e
      by (rule field[OF i, where g = "\<lambda>ob. ob\<lparr>o_comments := o_comments (object_at sc idx)\<rparr>"])
        (use i in \<open>simp_all add: iv apply_set_comments_def field_undo_simps\<close>)
  qed
  show "undoes lm iv sc' sc \<and> undo_ready sc'" if a: "apply_add_comment sc oid cm = (sc', Inr iv)"
  proof -
    obtain idx where i: "index_of sc oid = Some idx"
      and e: "sc' = modify_at sc idx (\<lambda>ob. ob\<lparr>o_comments := o_comments ob @ [cm]\<rparr>)"
      and iv: "iv = SetComments oid (o_comments (object_at sc idx))"
      using a by (auto simp: apply_add_comment_def with_index_Inr_iff)
    show ?thesis unfolding e
      by (rule field[OF i, where g = "\<lambda>ob. ob\<lparr>o_comments := o_comments (object_at sc idx)\<rparr>"])
        (use i in \<open>simp_all add: iv apply_set_comments_def field_undo_simps\<close>)
  qed
  show "undoes lm iv sc' sc \<and> undo_ready sc'" if a: "apply_set_text sc oid x = (sc', Inr iv)"
  proof -
    obtain idx where i: "index_of sc oid = Some idx"
      using a by (auto simp: apply_set_text_def with_index_Inr_iff)
    show ?thesis
    proof (cases "o_text (object_at sc idx) = x")
      case True
      then show ?thesis using a i assms by (auto simp: apply_set_text_def with_index_simps undo_nothing)
    next
      case False
      then have e: "sc' = modify_at sc idx (\<lambda>ob. ob\<lparr>o_text := x\<rparr>)"
        and iv: "iv = SetText oid (o_text (object_at sc idx))"
        using a i by (auto simp: apply_set_text_def with_index_simps)
      show ?thesis unfolding e
        by (rule field[OF i, where g = "\<lambda>ob. ob\<lparr>o_text := o_text (object_at sc idx)\<rparr>"])
          (use i False index_of_Some[OF i] in \<open>simp_all add: iv apply_set_text_def field_undo_simps\<close>)
    qed
  qed
qed


lemma undo_layout:
  assumes "undo_ready sc" "apply_set_layout sc oid l = (sc', Inr iv)"
  shows "undoes lm iv sc' sc \<and> undo_ready sc'"
proof -
  obtain idx where i: "index_of sc oid = Some idx"
    and v: "\<And>y. l = Some y \<Longrightarrow> validate_layout y = Inr ()"
    and e: "sc' = modify_at sc idx (\<lambda>ob. ob\<lparr>o_layout := l\<rparr>)"
    and iv: "iv = SetLayout oid (o_layout (object_at sc idx))"
    using assms(2)
    by (auto simp: apply_set_layout_def with_index_Inr_iff guarded_Inr_iff checked_def split: option.splits)
  have "fields_valid (object_at sc idx)" using undo_readyD(5)[OF assms(1) object_at_in[OF i]] .
  then show ?thesis unfolding e
    by (intro undo_field[OF assms(1) i, where g = "\<lambda>ob. ob\<lparr>o_layout := o_layout (object_at sc idx)\<rparr>"])
      (use i v in \<open>auto simp: iv apply_set_layout_def field_undo_simps guarded_def checked_def
        split: option.splits\<close>)
qed

lemma undo_sizing:
  assumes "undo_ready sc" "apply_set_sizing sc oid z = (sc', Inr iv)"
  shows "undoes lm iv sc' sc \<and> undo_ready sc'"
proof -
  obtain idx where i: "index_of sc oid = Some idx"
    and v: "\<And>y. z = Some y \<Longrightarrow> validate_sizing y = Inr ()"
    and e: "sc' = modify_at sc idx (\<lambda>ob. ob\<lparr>o_sizing := z\<rparr>)"
    and iv: "iv = SetSizing oid (o_sizing (object_at sc idx))"
    using assms(2)
    by (auto simp: apply_set_sizing_def with_index_Inr_iff guarded_Inr_iff checked_def split: option.splits)
  have "fields_valid (object_at sc idx)" using undo_readyD(5)[OF assms(1) object_at_in[OF i]] .
  then show ?thesis unfolding e
    by (intro undo_field[OF assms(1) i, where g = "\<lambda>ob. ob\<lparr>o_sizing := o_sizing (object_at sc idx)\<rparr>"])
      (use i v in \<open>auto simp: iv apply_set_sizing_def field_undo_simps guarded_def checked_def
        split: option.splits\<close>)
qed

lemma undo_geometry:
  assumes "undo_ready sc" "geometry_in g" "apply_edit_geometry sc oid g = (sc', Inr iv)"
  shows "undoes lm iv sc' sc \<and> undo_ready sc'"
proof -
  obtain g' idx where g': "geometry_ok g'" and i: "index_of sc oid = Some idx"
    and e: "sc' = modify_at sc idx (\<lambda>ob. ob\<lparr>o_geometry := g'\<rparr>)"
    and iv: "iv = EditGeometry oid (o_geometry (object_at sc idx))"
    using assms(2,3) hydrated_ok[of g]
    by (auto simp: apply_edit_geometry_def guarded_Inr_iff with_index_Inr_iff parsed_def checked_def)
  note old = geometry_okD(4,5)[OF scene_ok_at[OF undo_readyD(1)[OF assms(1)] i]]
  have "undoes lm iv sc' sc" unfolding e
    by (rule undo_at[OF i, where g = "\<lambda>ob. ob\<lparr>o_geometry := o_geometry (object_at sc idx)\<rparr>"])
      (use i old in \<open>simp_all add: iv apply_edit_geometry_def field_undo_simps guarded_def parsed_def checked_def\<close>)
  moreover have "undo_ready sc'" unfolding e
    using undo_readyD[OF assms(1)] g'
    by (intro undo_ready_modify_at[OF assms(1)]) (auto simp: fields_valid_def anchors_resolved_def)
  ultimately show ?thesis by simp
qed

lemma filter_all_True: "(\<And>x. x \<in> set xs \<Longrightarrow> p x) \<Longrightarrow> filter p xs = xs"
  by (simp add: filter_id_conv)

lemma undo_anchor:
  assumes "undo_ready sc" "apply_set_anchor sc oid as = (sc', Inr iv)"
  shows "undoes lm iv sc' sc \<and> undo_ready sc'"
proof (cases "index_of sc oid")
  case None
  then show ?thesis using assms by (auto simp: apply_set_anchor_def undo_nothing)
next
  case (Some idx)
  let ?kept = "filter (\<lambda>a. has_object sc (a_target a)) as"
  let ?f = "\<lambda>ob :: object. ob\<lparr>o_anchors := ?kept\<rparr>"
  have e: "sc' = modify_at sc idx ?f" and iv: "iv = SetAnchor oid (o_anchors (object_at sc idx))"
    using assms(2) Some by (auto simp: apply_set_anchor_def Let_def)
  have old: "filter (\<lambda>a. has_object sc (a_target a)) (o_anchors (object_at sc idx)) =
      o_anchors (object_at sc idx)"
    using undo_readyD(3)[OF assms(1)] object_at_in[OF Some]
    by (intro filter_all_True) (auto simp: anchors_resolved_def)
  have "undoes lm iv sc' sc" unfolding e
    by (rule undo_at[OF Some, where g = "\<lambda>ob. ob\<lparr>o_anchors := o_anchors (object_at sc idx)\<rparr>"])
      (use Some old in \<open>simp_all add: iv apply_set_anchor_def field_undo_simps has_object_modify_at Let_def\<close>)
  moreover have "undo_ready sc'" unfolding e
    using undo_readyD[OF assms(1)]
    by (intro undo_ready_modify_at[OF assms(1)]) (auto simp: fields_valid_def scene_ok_def)
  ultimately show ?thesis by simp
qed

section \<open>Reparenting\<close>

text \<open>\<open>Reparent\<close> is gated on \<open>would_cycle\<close>, and so keeps the parent relation acyclic.\<close>

lemma parent_rel_reparent:
  "parent_rel (modify_at sc idx (\<lambda>ob. ob\<lparr>o_parent := parent, o_order := order\<rparr>)) \<subseteq>
     parent_rel sc \<union> {(o_id (objects sc ! idx), p) | p. parent = Some p}"
proof (cases "idx < length (objects sc)")
  case True
  have "set (objects (modify_at sc idx (\<lambda>ob. ob\<lparr>o_parent := parent, o_order := order\<rparr>))) \<subseteq>
      insert ((objects sc ! idx)\<lparr>o_parent := parent, o_order := order\<rparr>) (set (objects sc))"
    by (simp add: objects_modify_at set_update_subset_insert)
  then show ?thesis by (fastforce simp: parent_rel_def)
qed (simp add: modify_at_def list_update_beyond)

lemma undo_reparent:
  assumes "undo_ready sc" "apply_reparent sc oid parent order = (sc', Inr iv)"
  shows "undoes lm iv sc' sc \<and> undo_ready sc'"
proof -
  note ready = undo_readyD[OF assms(1)]
  let ?f = "\<lambda>ob :: object. ob\<lparr>o_parent := parent, o_order := order\<rparr>"
  obtain idx where i: "index_of sc oid = Some idx"
    and free: "\<And>p. parent = Some p \<Longrightarrow> \<not> would_cycle sc oid p"
    and e: "sc' = modify_at sc idx ?f"
    and iv: "iv = Reparent oid (o_parent (object_at sc idx)) (o_order (object_at sc idx))"
    using assms(2)
    by (auto simp: apply_reparent_def with_index_Inr_iff simp del: cycle_from.simps
        split: if_split_asm option.splits)
  have oid: "o_id (objects sc ! idx) = oid" and l: "idx < length (objects sc)"
    using index_of_Some[OF i] by auto
  have ids: "ids sc' = ids sc" by (simp add: e ids_modify_at)
  have acy: "acyclic (parent_rel sc')"
  proof (cases parent)
    case None
    then show ?thesis
      using parent_rel_reparent[where sc = sc and idx = idx and parent = parent and order = order] ready(4) by (auto simp: e intro: acyclic_subset)
  next
    case (Some p)
    then have "acyclic (insert (oid, p) (parent_rel sc))"
      using ready(4) free would_cycle_iff[OF ready(2,4)] by (simp add: acyclic_insert)
    then show ?thesis
      by (rule acyclic_subset) (use parent_rel_reparent[where sc = sc and idx = idx and parent = parent and order = order] Some oid in \<open>auto simp: e\<close>)
  qed
  have return: "\<not> would_cycle sc' oid q" if "o_parent (object_at sc idx) = Some q" for q
  proof -
    have q: "(oid, q) \<in> parent_rel sc"
      using object_at_in[OF i] that oid by (force simp: parent_rel_def object_at_def)
    have sub: "parent_rel sc' - {oid} \<times> UNIV \<subseteq> parent_rel sc"
      using parent_rel_reparent[where sc = sc and idx = idx and parent = parent and order = order] oid by (auto simp: e)
    have "(q, oid) \<notin> (parent_rel sc')\<^sup>*"
    proof
      assume "(q, oid) \<in> (parent_rel sc')\<^sup>*"
      then have "(q, oid) \<in> (parent_rel sc)\<^sup>* \<or> q = oid"
      proof (induction rule: converse_rtrancl_induct)
        case (step y z)
        then show ?case
          using sub by (cases "y = oid") (auto intro: converse_rtrancl_into_rtrancl)
      qed simp
      then have "(oid, oid) \<in> (parent_rel sc)\<^sup>+"
        using q by (auto intro: rtrancl_into_trancl2)
      then show False using ready(4) by (auto simp: acyclic_def)
    qed
    then show ?thesis using would_cycle_iff[of sc' oid q] acy ready(2) ids by simp
  qed
  have "undoes lm iv sc' sc" unfolding e
    by (rule undo_at[OF i, where g = "\<lambda>ob. ob\<lparr>o_parent := o_parent (object_at sc idx),
          o_order := o_order (object_at sc idx)\<rparr>"])
      (use i return in \<open>auto simp: iv apply_reparent_def field_undo_simps e simp del: cycle_from.simps
        split: option.splits\<close>)
  moreover have "scene_ok sc'" unfolding e
    by (rule scene_ok_modify_at[OF ready(1)]) auto
  moreover have obs: "\<exists>x \<in> set (objects sc). o_anchors ob = o_anchors x \<and>
      o_layout ob = o_layout x \<and> o_sizing ob = o_sizing x" if "ob \<in> set (objects sc')" for ob
  proof -
    have "ob \<in> insert (?f (objects sc ! idx)) (set (objects sc))"
      using that set_update_subset_insert[of "objects sc" idx "?f (objects sc ! idx)"]
      by (auto simp: e objects_modify_at)
    then consider "ob = ?f (objects sc ! idx)" | "ob \<in> set (objects sc)" by blast
    then show ?thesis
    proof cases
      case 1
      then show ?thesis using l by (intro bexI[of _ "objects sc ! idx"]) auto
    qed blast
  qed
  moreover have "has_object sc' = has_object sc"
    by (simp add: fun_eq_iff has_object_ids ids)
  then have "anchors_resolved sc'"
    using ready(3) obs unfolding anchors_resolved_def by metis
  moreover have "\<forall>ob \<in> set (objects sc'). fields_valid ob"
    using ready(5) obs unfolding fields_valid_def by metis
  ultimately show ?thesis using acy by (simp add: undo_ready_def)
qed

section \<open>Running the operations of a batch\<close>

definition runs :: "libm \<Rightarrow> scene \<Rightarrow> object_op list \<Rightarrow> scene \<Rightarrow> bool" where
  "runs lm sc ops sc' \<longleftrightarrow> (\<exists>ivs. apply_children lm sc ops = (sc', Inr ivs))"

lemma runs_Nil [simp]: "runs lm sc [] sc' \<longleftrightarrow> sc' = sc"
  by (auto simp: runs_def)

lemma runs_Cons:
  "runs lm sc (op # ops) sc' \<longleftrightarrow> (\<exists>sc1. undoes lm op sc sc1 \<and> runs lm sc1 ops sc')"
  by (auto simp: runs_def undoes_def split: prod.splits sum.splits)

lemma runs_append:
  "runs lm sc (xs @ ys) sc' \<longleftrightarrow> (\<exists>sc1. runs lm sc xs sc1 \<and> runs lm sc1 ys sc')"
  by (induction xs arbitrary: sc) (auto simp: runs_Cons)

lemma undoes_Batch: "undoes lm (Batch ops) sc sc' \<longleftrightarrow> runs lm sc ops sc'"
  by (auto simp: undoes_def runs_def split: prod.splits sum.splits)

section \<open>Restoring peer anchors\<close>

lemma modify_at_map:
  assumes "distinct (ids sc)" "index_of sc oid = Some idx"
  shows "modify_at sc idx f = sc\<lparr>objects := map (\<lambda>ob. if o_id ob = oid then f ob else ob) (objects sc)\<rparr>"
proof -
  have l: "idx < length (objects sc)" and o: "o_id (objects sc ! idx) = oid"
    using index_of_Some[OF assms(2)] by auto
  have "(objects sc)[idx := f (objects sc ! idx)] =
      map (\<lambda>ob. if o_id ob = oid then f ob else ob) (objects sc)"
  proof (rule nth_equalityI)
    fix i assume i: "i < length ((objects sc)[idx := f (objects sc ! idx)])"
    then have "o_id (objects sc ! i) = oid \<longleftrightarrow> i = idx"
      using assms(1) l o by (auto simp: ids_def distinct_conv_nth)
    then show "(objects sc)[idx := f (objects sc ! idx)] ! i =
        map (\<lambda>ob. if o_id ob = oid then f ob else ob) (objects sc) ! i"
      using i by (auto simp: nth_list_update)
  qed simp
  then show ?thesis by (simp add: modify_at_def)
qed

definition restore_with :: "(object_id \<times> anchor list) list \<Rightarrow> object \<Rightarrow> object" where
  "restore_with peers ob =
     (case map_of peers (o_id ob) of None \<Rightarrow> ob | Some as \<Rightarrow> ob\<lparr>o_anchors := as\<rparr>)"

lemma restore_with_id [simp]: "o_id (restore_with peers ob) = o_id ob"
  by (simp add: restore_with_def split: option.splits)

lemma set_anchor_map:
  assumes "distinct (ids sc)" "\<And>a. a \<in> set as \<Longrightarrow> has_object sc (a_target a)"
  shows "undoes lm (SetAnchor oid as) sc
    (sc\<lparr>objects := map (\<lambda>ob. if o_id ob = oid then ob\<lparr>o_anchors := as\<rparr> else ob) (objects sc)\<rparr>)"
proof (cases "index_of sc oid")
  case None
  then have "map (\<lambda>ob. if o_id ob = oid then ob\<lparr>o_anchors := as\<rparr> else ob) (objects sc) = objects sc"
    by (intro map_idI) (auto simp: index_of_None ids_def)
  with None show ?thesis by (simp add: undoes_def apply_set_anchor_def)
next
  case (Some idx)
  have "filter (\<lambda>a. has_object sc (a_target a)) as = as"
    using assms(2) by (rule filter_all_True)
  with Some show ?thesis
    by (simp add: undoes_def apply_set_anchor_def Let_def modify_at_map[OF assms(1) Some])
qed

lemma runs_restore:
  assumes "distinct (ids sc)" "distinct (map fst peers)"
    and "\<And>x as a. (x, as) \<in> set peers \<Longrightarrow> a \<in> set as \<Longrightarrow> has_object sc (a_target a)"
  shows "runs lm sc (restore_ops peers) (sc\<lparr>objects := map (restore_with peers) (objects sc)\<rparr>)"
  using assms
proof (induction peers arbitrary: sc)
  case Nil
  have "restore_with [] = (\<lambda>ob. ob)" by (simp add: fun_eq_iff restore_with_def)
  then show ?case by (simp add: restore_ops_def)
next
  case (Cons p peers)
  obtain x as where p: "p = (x, as)" by (cases p)
  let ?h = "\<lambda>ob :: object. if o_id ob = x then ob\<lparr>o_anchors := as\<rparr> else ob"
  let ?sc1 = "sc\<lparr>objects := map ?h (objects sc)\<rparr>"
  have ids: "ids ?sc1 = ids sc" by (auto simp: ids_def)
  have s1: "undoes lm (SetAnchor x as) sc ?sc1"
    using Cons.prems(1,3) p by (intro set_anchor_map) auto
  have s2: "runs lm ?sc1 (restore_ops peers) (?sc1\<lparr>objects := map (restore_with peers) (objects ?sc1)\<rparr>)"
    using Cons.prems ids by (intro Cons.IH) (auto simp: has_object_ids)
  have "map (restore_with peers) (map ?h (objects sc)) = map (restore_with (p # peers)) (objects sc)"
    using Cons.prems(2) p
    by (auto simp: restore_with_def map_of_eq_None_iff[THEN iffD2] split: option.splits dest: map_of_SomeD)
  then have eq: "?sc1\<lparr>objects := map (restore_with peers) (objects ?sc1)\<rparr> =
      sc\<lparr>objects := map (restore_with (p # peers)) (objects sc)\<rparr>"
    by simp
  have ops: "restore_ops (p # peers) = SetAnchor x as # restore_ops peers"
    by (simp add: restore_ops_def p)
  show ?case unfolding runs_Cons ops using s1 s2[unfolded eq] by blast
qed

lemma capture_fst: "map fst (capture_peer_anchors sc ts) =
    map o_id (filter (\<lambda>ob. \<exists>a \<in> set (o_anchors ob). a_target a \<in> set ts) (objects sc))"
  by (simp add: capture_peer_anchors_def comp_def)

lemma capture_distinct: "distinct (ids sc) \<Longrightarrow> distinct (map fst (capture_peer_anchors sc ts))"
  by (simp add: capture_fst ids_def distinct_map_filter)

lemma capture_map_of:
  assumes "distinct (ids sc)" "ob \<in> set (objects sc)"
  shows "map_of (capture_peer_anchors sc ts) (o_id ob) =
    (if \<exists>a \<in> set (o_anchors ob). a_target a \<in> set ts then Some (o_anchors ob) else None)"
proof (cases "\<exists>a \<in> set (o_anchors ob). a_target a \<in> set ts")
  case True
  then have "(o_id ob, o_anchors ob) \<in> set (capture_peer_anchors sc ts)"
    using assms(2) by (auto simp: capture_peer_anchors_def)
  then show ?thesis using True map_of_is_SomeI[OF capture_distinct[OF assms(1)]] by simp
next
  case False
  have "o_id ob \<notin> set (map fst (capture_peer_anchors sc ts))"
  proof
    assume "o_id ob \<in> set (map fst (capture_peer_anchors sc ts))"
    then obtain x where "o_id ob = o_id x"
      "x \<in> set (filter (\<lambda>ob. \<exists>a \<in> set (o_anchors ob). a_target a \<in> set ts) (objects sc))"
      unfolding capture_fst set_map by (rule imageE)
    then have x: "x \<in> set (objects sc)" "o_id x = o_id ob"
      "\<exists>a \<in> set (o_anchors x). a_target a \<in> set ts"
      by simp_all
    then have "x = ob"
      using scene_get_eq[OF assms(1) x(1)] scene_get_eq[OF assms] by (metis option.inject)
    then show False using x(3) False by simp
  qed
  then have "map_of (capture_peer_anchors sc ts) (o_id ob) = None" by (simp add: map_of_eq_None_iff)
  with False show ?thesis by simp
qed

lemma capture_resolved:
  "anchors_resolved sc \<Longrightarrow> (x, as) \<in> set (capture_peer_anchors sc ts) \<Longrightarrow> a \<in> set as \<Longrightarrow>
   has_object sc (a_target a)"
  by (auto simp: capture_peer_anchors_def anchors_resolved_def)

text \<open>An object captured from \<open>sc\<close> gets its anchors back; any other must have kept them.\<close>

lemma restore_capture:
  assumes "distinct (ids sc)" "ob \<in> set (objects sc)" "ob' = ob\<lparr>o_anchors := as\<rparr>"
    and "(\<forall>a \<in> set (o_anchors ob). a_target a \<notin> set ts) \<Longrightarrow> as = o_anchors ob"
  shows "restore_with (capture_peer_anchors sc ts) ob' = ob"
  using capture_map_of[OF assms(1,2), of ts] assms(3,4)
  by (auto simp: restore_with_def split: if_split_asm)

section \<open>Canonicalize\<close>

lemma undo_ready_map:
  assumes "undo_ready sc" "\<And>ob. o_id (h ob) = o_id ob" "\<And>ob. o_parent (h ob) = o_parent ob"
    and "\<And>ob. ob \<in> set (objects sc) \<Longrightarrow> geometry_ok (o_geometry (h ob))"
    and "\<And>ob. fields_valid ob \<Longrightarrow> fields_valid (h ob)"
    and "\<And>ob. a_target ` set (o_anchors (h ob)) \<subseteq> a_target ` set (o_anchors ob)"
  shows "undo_ready (sc\<lparr>objects := map h (objects sc)\<rparr>)"
proof -
  let ?sc = "sc\<lparr>objects := map h (objects sc)\<rparr>"
  note ready = undo_readyD[OF assms(1)]
  have ids: "ids ?sc = ids sc" by (auto simp: ids_def assms(2))
  have "parent_rel ?sc = parent_rel sc"
    by (auto simp: parent_rel_def assms(2,3)) (metis assms(2,3) imageI)
  moreover have "anchors_resolved ?sc"
  proof -
    have "has_object ?sc (a_target a)" if "ob \<in> set (objects sc)" "a \<in> set (o_anchors (h ob))" for ob a
    proof -
      from that(2) have "a_target a \<in> a_target ` set (o_anchors ob)" using assms(6)[of ob] by blast
      then show ?thesis using ready(3) that(1) by (auto simp: has_object_ids ids anchors_resolved_def)
    qed
    then show ?thesis by (auto simp: anchors_resolved_def)
  qed
  ultimately show ?thesis
    using ready ids assms(4,5) by (auto simp: undo_ready_def scene_ok_def)
qed

lemma undo_canonicalize:
  assumes "undo_ready sc" "apply_canonicalize lm sc oid = (sc', Inr iv)"
  shows "undoes lm iv sc' sc \<and> undo_ready sc'"
proof -
  note ready = undo_readyD[OF assms(1)]
  obtain idx where i: "index_of sc oid = Some idx"
    using assms(2) by (auto simp: apply_canonicalize_def with_index_Inr_iff)
  let ?old = "object_at sc idx"
  let ?g = "o_geometry ?old" and ?t = "o_transform ?old"
  have g: "geometry_ok ?g" using scene_ok_at[OF ready(1) i] .
  show ?thesis
  proof (cases "canonicalize_orientation lm ?t ?g")
    case None
    then show ?thesis using assms i
      by (auto simp: apply_canonicalize_def with_index_simps undo_nothing)
  next
    case (Some r)
    obtain t' g1 where r: "r = (t', g1)" by (cases r)
    then have g1: "geometry_ok g1" using canonicalize_geometry_ok Some g by blast
    define F where "F = (\<lambda>a :: anchor. if a_target a = oid
        then a\<lparr>a_at := rehome_anchor_local ?t t' (a_at a)\<rparr> else a)"
    define h where "h = (\<lambda>ob :: object. if o_id ob = oid then ob\<lparr>o_geometry := g1, o_transform := t'\<rparr>
        else ob\<lparr>o_anchors := map F (o_anchors ob)\<rparr>)"
    have h_id: "o_id (h ob) = o_id ob" for ob by (simp add: h_def)
    let ?peers = "capture_peer_anchors sc [oid]"
    have sc': "sc' = sc\<lparr>objects := map h (objects sc)\<rparr>"
      and iv: "iv = Batch ([EditGeometry oid ?g, SetTransform oid ?t] @ restore_ops ?peers)"
      using assms(2) i Some r geometry_okD(4,5)[OF g1]
      by (auto simp: apply_canonicalize_def with_index_simps guarded_Inr_iff parsed_def checked_def
          Let_def map_peers_def modify_at_map[OF ready(2) i] F_def h_def intro!: map_cong)
    have ids': "ids sc' = ids sc" by (simp add: sc' ids_def h_id)
    have i': "index_of sc' oid = Some idx" using i by (simp add: index_of_position ids')
    let ?sc1 = "modify_at sc' idx (\<lambda>ob. ob\<lparr>o_geometry := ?g\<rparr>)"
    let ?sc2 = "modify_at ?sc1 idx (\<lambda>ob. ob\<lparr>o_transform := ?t\<rparr>)"
    have steps: "undoes lm (EditGeometry oid ?g) sc' ?sc1" "undoes lm (SetTransform oid ?t) ?sc1 ?sc2"
      using i' geometry_okD(4,5)[OF g]
      by (auto simp: undoes_def apply_edit_geometry_def apply_set_transform_def guarded_def parsed_def
          checked_def with_index_simps index_of_modify_at)
    have ids2: "ids ?sc2 = ids sc" by (simp add: ids_modify_at ids')
    have "runs lm ?sc2 (restore_ops ?peers)
        (?sc2\<lparr>objects := map (restore_with ?peers) (objects ?sc2)\<rparr>)"
      using ready(2,3) capture_resolved by (intro runs_restore capture_distinct) (auto simp: ids2 has_object_ids)
    moreover have "?sc2\<lparr>objects := map (restore_with ?peers) (objects ?sc2)\<rparr> = sc"
    proof -
      have l: "idx < length (objects sc')" using index_of_Some[OF i'] by simp
      have "?sc2 = sc'\<lparr>objects := map (\<lambda>ob. if o_id ob = oid
          then ob\<lparr>o_geometry := ?g, o_transform := ?t\<rparr> else ob) (objects sc')\<rparr>"
        by (subst modify_at_modify_at[OF l], rule modify_at_map) (use ids' ready(2) i' in simp_all)
      moreover have "restore_with ?peers (if o_id (h ob) = oid
          then (h ob)\<lparr>o_geometry := ?g, o_transform := ?t\<rparr> else h ob) = ob"
        if "ob \<in> set (objects sc)" for ob
      proof (cases "o_id ob = oid")
        case True
        then have "ob = ?old"
          using that scene_get_eq[OF ready(2)] object_at_in[OF i] index_of_Some[OF i]
          by (metis object_at_def option.inject)
        then show ?thesis using True that ready(2)
          by (intro restore_capture[of sc ob _ "o_anchors ob"]) (auto simp: h_def)
      next
        case False
        then show ?thesis using that ready(2)
          by (intro restore_capture[of sc ob _ "map F (o_anchors ob)"])
            (auto simp: h_def F_def intro!: map_idI)
      qed
      ultimately show ?thesis by (simp add: sc' map_idI)
    qed
    ultimately have "undoes lm iv sc' sc"
      using steps by (auto simp: iv undoes_Batch runs_append runs_Cons)
    moreover have "undo_ready sc'" unfolding sc'
      using ready g1 by (intro undo_ready_map[OF assms(1)])
        (auto simp: h_def F_def fields_valid_def scene_ok_def split: if_split_asm)
    ultimately show ?thesis by simp
  qed
qed

section \<open>Batches\<close>

lemma undo_field_op:
  "apply_inner lm sc op = (sc', Inr iv) \<Longrightarrow> field_op op \<Longrightarrow> op_ok op \<Longrightarrow> undo_ready sc \<Longrightarrow>
     undoes lm iv sc' sc \<and> undo_ready sc'"
  "apply_children lm sc ops = (sc', Inr ivs) \<Longrightarrow> list_all field_op ops \<Longrightarrow> list_all op_ok ops \<Longrightarrow>
     undo_ready sc \<Longrightarrow> runs lm sc' (rev ivs) sc \<and> undo_ready sc'"
proof (induction lm sc op and lm sc ops arbitrary: sc' iv and sc' ivs
    rule: apply_inner_apply_children.induct)
  case (20 lm sc ops)
  then show ?case by (auto simp: undoes_Batch split: prod.splits sum.splits)
next
  case (22 lm working op ops)
  then obtain sc1 iv1 ivs1 where 1: "apply_inner lm working op = (sc1, Inr iv1)"
    and 2: "apply_children lm sc1 ops = (sc', Inr ivs1)" and ivs: "ivs = iv1 # ivs1"
    by (auto split: prod.splits sum.splits)
  have u1: "undoes lm iv1 sc1 working" "undo_ready sc1"
    using "22.IH"(1)[OF 1] "22.prems" by auto
  then have "runs lm sc' (rev ivs1) sc1" "undo_ready sc'"
    using "22.IH"(2)[OF 1[symmetric] refl 2] "22.prems" by auto
  then show ?case using u1 by (auto simp: ivs runs_append runs_Cons)
qed (auto dest: undo_style undo_meta single_field_undo undo_layout undo_sizing undo_geometry
      undo_anchor undo_reparent undo_canonicalize)

section \<open>Structural operations\<close>

text \<open>The same objects, possibly in another order of the list; every other field equal.\<close>

definition permuted :: "scene \<Rightarrow> scene \<Rightarrow> bool" where
  "permuted sc' sc \<longleftrightarrow>
     mset (objects sc') = mset (objects sc) \<and> sc'\<lparr>objects := []\<rparr> = sc\<lparr>objects := []\<rparr>"

definition undoes_perm :: "libm \<Rightarrow> object_op \<Rightarrow> scene \<Rightarrow> scene \<Rightarrow> bool" where
  "undoes_perm lm iv sc' sc \<longleftrightarrow> (\<exists>sc''. undoes lm iv sc' sc'' \<and> permuted sc'' sc)"

lemma permutedI: "mset obs = mset (objects sc) \<Longrightarrow> permuted (sc\<lparr>objects := obs\<rparr>) sc"
  by (simp add: permuted_def)

lemma undoes_perm_runs:
  "runs lm sc' ops (sc\<lparr>objects := obs\<rparr>) \<Longrightarrow> mset obs = mset (objects sc) \<Longrightarrow>
   undoes_perm lm (Batch ops) sc' sc"
  unfolding undoes_perm_def undoes_Batch using permutedI by blast

subsection \<open>Deletions and insertions as list operations\<close>

definition prune_all :: "object_id list \<Rightarrow> object \<Rightarrow> object" where
  "prune_all ds ob = ob\<lparr>o_anchors := filter (\<lambda>a. a_target a \<notin> set ds) (o_anchors ob)\<rparr>"

lemma prune_anchors_eq: "prune_anchors d ob = prune_all [d] ob"
proof (cases "anchors_to d ob")
  case False
  then have "filter (\<lambda>a. a_target a \<noteq> d) (o_anchors ob) = o_anchors ob"
    by (intro filter_all_True) (auto simp: anchors_to_def)
  with False show ?thesis by (simp add: prune_anchors_def prune_all_def)
qed (simp add: prune_anchors_def prune_all_def)

lemma prune_all_id [simp]: "o_id (prune_all ds ob) = o_id ob"
  by (simp add: prune_all_def)

lemma remove_at_filter:
  assumes "distinct (map o_id obs)" "idx < length obs" "o_id (obs ! idx) = oid"
  shows "remove_at idx obs = filter (\<lambda>ob. o_id ob \<noteq> oid) obs"
proof -
  let ?P = "\<lambda>ob. o_id ob \<noteq> oid"
  have split: "obs = take idx obs @ obs ! idx # drop (Suc idx) obs"
    using assms(2) by (simp add: id_take_nth_drop)
  have "distinct (map o_id (take idx obs @ obs ! idx # drop (Suc idx) obs))"
    using assms(1) split by simp
  then have "o_id (obs ! idx) \<notin> o_id ` (set (take idx obs) \<union> set (drop (Suc idx) obs))" by auto
  then have "oid \<notin> o_id ` (set (take idx obs) \<union> set (drop (Suc idx) obs))" using assms(3) by simp
  then have "filter ?P (take idx obs) = take idx obs" "filter ?P (drop (Suc idx) obs) = drop (Suc idx) obs"
    by (auto simp: filter_id_conv)
  moreover have "filter ?P obs = filter ?P (take idx obs) @ filter ?P (obs ! idx # drop (Suc idx) obs)"
    by (subst split) simp
  ultimately show ?thesis using assms(3) by (simp add: remove_at_def)
qed

lemma remove_index:
  assumes "distinct (ids sc)" "index_of sc oid = Some idx"
  shows "remove_at idx (objects sc) = filter (\<lambda>ob. o_id ob \<noteq> oid) (objects sc)"
  using assms index_of_Some[OF assms(2)] by (intro remove_at_filter) (auto simp: ids_def)

lemma filter_map_others:
  "\<lbrakk>\<And>ob. o_id (h ob) = o_id ob; \<And>ob. o_id ob \<noteq> oid \<Longrightarrow> h ob = h' ob\<rbrakk> \<Longrightarrow>
   filter (\<lambda>ob. o_id ob \<noteq> oid) (map h obs) = map h' (filter (\<lambda>ob. o_id ob \<noteq> oid) obs)"
  by (induction obs) auto

lemma undoes_Delete:
  assumes "distinct (ids sc)" "d \<in> set (ids sc)"
  shows "undoes lm (Delete d) sc
    (sc\<lparr>objects := map (prune_all [d]) (filter (\<lambda>ob. o_id ob \<noteq> d) (objects sc))\<rparr>)"
proof -
  obtain idx where i: "index_of sc d = Some idx"
    using assms(2) index_of_None by (cases "index_of sc d") auto
  then show ?thesis
    by (simp add: undoes_def apply_delete_def with_index_simps Let_def remove_index[OF assms(1) i]
        prune_anchors_eq[abs_def])
qed

lemma runs_deletes:
  "\<lbrakk>distinct (ids sc); distinct ds; set ds \<subseteq> set (ids sc)\<rbrakk> \<Longrightarrow>
   runs lm sc (map Delete ds)
     (sc\<lparr>objects := map (prune_all ds) (filter (\<lambda>ob. o_id ob \<notin> set ds) (objects sc))\<rparr>)"
proof (induction ds arbitrary: sc)
  case Nil
  have "prune_all [] = (\<lambda>ob. ob)" by (simp add: fun_eq_iff prune_all_def)
  then show ?case by simp
next
  case (Cons d ds)
  let ?sc1 = "sc\<lparr>objects := map (prune_all [d]) (filter (\<lambda>ob. o_id ob \<noteq> d) (objects sc))\<rparr>"
  have ids: "ids ?sc1 = filter (\<lambda>x. x \<noteq> d) (ids sc)"
    by (simp add: ids_def filter_map comp_def)
  have s1: "undoes lm (Delete d) sc ?sc1"
    using Cons.prems by (intro undoes_Delete) auto
  have s2: "runs lm ?sc1 (map Delete ds)
     (?sc1\<lparr>objects := map (prune_all ds) (filter (\<lambda>ob. o_id ob \<notin> set ds) (objects ?sc1))\<rparr>)"
    using Cons.prems by (intro Cons.IH) (auto simp: ids)
  have "map (prune_all ds) (filter (\<lambda>ob. o_id ob \<notin> set ds)
        (map (prune_all [d]) (filter (\<lambda>ob. o_id ob \<noteq> d) (objects sc)))) =
      map (prune_all (d # ds)) (filter (\<lambda>ob. o_id ob \<notin> set (d # ds)) (objects sc))"
    by (induction "objects sc" arbitrary: sc)
      (simp, auto simp: filter_map comp_def prune_all_def conj_commute intro!: map_cong filter_cong)
  then have eq: "?sc1\<lparr>objects := map (prune_all ds) (filter (\<lambda>ob. o_id ob \<notin> set ds) (objects ?sc1))\<rparr> =
      sc\<lparr>objects := map (prune_all (d # ds)) (filter (\<lambda>ob. o_id ob \<notin> set (d # ds)) (objects sc))\<rparr>"
    by simp
  show ?case unfolding list.map runs_Cons using s1 s2[unfolded eq] by blast
qed

lemma undoes_Insert:
  assumes "geometry_ok (o_geometry ob)" "o_id ob \<notin> set (ids sc)"
  shows "undoes lm (InsertObject ob) sc (sc\<lparr>objects := objects sc @ [ob]\<rparr>)"
  using assms geometry_okD(4,5)[OF assms(1)]
  by (simp add: undoes_def apply_insert_def has_object_ids guarded_def parsed_def checked_def
      object_ensure_parsed_def)

lemma runs_inserts:
  "\<lbrakk>\<forall>ob \<in> set obs. geometry_ok (o_geometry ob); distinct (ids sc @ map o_id obs)\<rbrakk> \<Longrightarrow>
   runs lm sc (map InsertObject obs) (sc\<lparr>objects := objects sc @ obs\<rparr>)"
proof (induction obs arbitrary: sc)
  case (Cons ob obs)
  let ?sc1 = "sc\<lparr>objects := objects sc @ [ob]\<rparr>"
  have "undoes lm (InsertObject ob) sc ?sc1" using Cons.prems by (intro undoes_Insert) auto
  moreover have "runs lm ?sc1 (map InsertObject obs) (?sc1\<lparr>objects := objects ?sc1 @ obs\<rparr>)"
    using Cons.prems by (intro Cons.IH) (auto simp: ids_def)
  ultimately show ?case by (auto simp: runs_Cons)
qed simp

text \<open>
  The common end of the three inverses: the peers are what is left of the old objects with
  other anchors, the removed objects come back, and the captured anchors are restored.
\<close>

lemma runs_reinsert:
  assumes "undo_ready sc" "set ts \<subseteq> set (ids sc)" "distinct ts"
    and "objects sc1 = map (\<lambda>ob. ob\<lparr>o_anchors := A ob\<rparr>) (filter (\<lambda>ob. o_id ob \<notin> set ts) (objects sc))"
    and "sc1\<lparr>objects := []\<rparr> = sc\<lparr>objects := []\<rparr>"
    and keep: "\<And>ob. ob \<in> set (objects sc) \<Longrightarrow> \<forall>a \<in> set (o_anchors ob). a_target a \<notin> set ts \<Longrightarrow> A ob = o_anchors ob"
  shows "runs lm sc1 (map InsertObject (map (the_object sc) ts) @ restore_ops (capture_peer_anchors sc ts))
      (sc\<lparr>objects := filter (\<lambda>ob. o_id ob \<notin> set ts) (objects sc) @ map (the_object sc) ts\<rparr>)"
proof -
  note ready = undo_readyD[OF assms(1)]
  let ?peers = "capture_peer_anchors sc ts" and ?new = "map (the_object sc) ts"
  let ?rest = "filter (\<lambda>ob. o_id ob \<notin> set ts) (objects sc)"
  let ?sc2 = "sc1\<lparr>objects := objects sc1 @ ?new\<rparr>"
  have t: "the_object sc x \<in> set (objects sc)" "o_id (the_object sc x) = x"
    "geometry_ok (o_geometry (the_object sc x))" if "x \<in> set ts" for x
    using the_object_ok[OF ready(1)] assms(2) that by auto
  have new_ids: "map o_id ?new = ts" using t(2) by (simp add: map_idI)
  have ids1: "ids sc1 = filter (\<lambda>x. x \<notin> set ts) (ids sc)"
    by (simp add: ids_def assms(4) filter_map comp_def)
  have d2: "distinct (ids sc1 @ map o_id ?new)"
    using ready(2) assms(3) by (auto simp: ids1 new_ids simp del: map_map)
  then have ins: "runs lm sc1 (map InsertObject ?new) ?sc2"
    using t(3) by (intro runs_inserts) auto
  have "ids ?sc2 = ids sc1 @ ts"
    using new_ids by (simp add: ids_def)
  then have ids2: "set (ids ?sc2) = set (ids sc)" "distinct (ids ?sc2)"
    using d2 assms(2) by (auto simp: ids1 new_ids simp del: map_map)
  have r: "runs lm ?sc2 (restore_ops ?peers) (?sc2\<lparr>objects := map (restore_with ?peers) (objects ?sc2)\<rparr>)"
    using ready(2,3) capture_resolved ids2
    by (intro runs_restore capture_distinct) (auto simp: has_object_ids)
  have "map (restore_with ?peers) (objects ?sc2) = ?rest @ ?new"
  proof -
    have "restore_with ?peers (ob\<lparr>o_anchors := A ob\<rparr>) = ob" if "ob \<in> set (objects sc)" for ob
      using that keep ready(2) by (intro restore_capture[where as = "A ob"]) auto
    moreover have "restore_with ?peers (the_object sc x) = the_object sc x" if "x \<in> set ts" for x
      using t(1)[OF that] ready(2) by (intro restore_capture[of _ _ _ "o_anchors (the_object sc x)"]) auto
    ultimately show ?thesis by (auto simp: assms(4) intro!: map_idI)
  qed
  moreover have "?sc2\<lparr>objects := ?rest @ ?new\<rparr> = sc\<lparr>objects := ?rest @ ?new\<rparr>"
    using assms(5) by (cases sc; cases sc1) auto
  ultimately have e: "?sc2\<lparr>objects := map (restore_with ?peers) (objects ?sc2)\<rparr> =
      sc\<lparr>objects := ?rest @ ?new\<rparr>"
    by (simp only:)
  show ?thesis unfolding runs_append using ins r[unfolded e] by blast
qed

lemma mset_reinsert:
  assumes "undo_ready sc" "set ts \<subseteq> set (ids sc)" "distinct ts"
  shows "mset (filter (\<lambda>ob. o_id ob \<notin> set ts) (objects sc) @ map (the_object sc) ts) = mset (objects sc)"
proof -
  note ready = undo_readyD[OF assms(1)]
  have d: "distinct (objects sc)" using ready(2) by (simp add: ids_def distinct_map)
  have t: "the_object sc x \<in> set (objects sc)" "o_id (the_object sc x) = x" if "x \<in> set ts" for x
    using the_object_ok(1,2)[OF ready(1)] assms(2) that by auto
  have "distinct (map (the_object sc) ts)"
    using assms(3) t(2) by (auto simp: distinct_map intro!: inj_onI) metis
  moreover have "set (map (the_object sc) ts) = set (filter (\<lambda>ob. o_id ob \<in> set ts) (objects sc))"
  proof -
    have "the_object sc (o_id ob) = ob" if "ob \<in> set (objects sc)" for ob
      using scene_get_eq[OF ready(2) that] by (simp add: the_object_def)
    then show ?thesis using t by (force simp: image_iff)
  qed
  ultimately have "mset (map (the_object sc) ts) = mset (filter (\<lambda>ob. o_id ob \<in> set ts) (objects sc))"
    using d by (metis set_eq_iff_mset_eq_distinct distinct_filter)
  then show ?thesis
    using multiset_partition[of "mset (objects sc)" "\<lambda>ob. o_id ob \<in> set ts"] by (simp add: mset_filter)
qed

subsection \<open>The four structural operations\<close>

lemma undo_insert:
  assumes "undo_ready sc" "apply_insert sc ob = (sc', Inr iv)"
  shows "undoes lm iv sc' sc"
proof -
  note ready = undo_readyD[OF assms(1)]
  obtain g where "o_id ob \<notin> set (ids sc)" "iv = Delete (o_id ob)"
    "sc' = sc\<lparr>objects := objects sc @ [ob\<lparr>o_geometry := g\<rparr>]\<rparr>"
    using assms(2)
    by (auto simp: apply_insert_def guarded_Inr_iff parsed_def checked_def object_ensure_parsed_def
        has_object_ids split: if_split_asm)
  then obtain ob' where fresh: "o_id ob' \<notin> set (ids sc)" and iv: "iv = Delete (o_id ob')"
    and sc': "sc' = sc\<lparr>objects := objects sc @ [ob']\<rparr>"
    by (metis object.select_convs(1) object.surjective object.update_convs(6))
  have rest: "filter (\<lambda>ob. o_id ob \<noteq> o_id ob') (objects sc) = objects sc"
    using fresh by (intro filter_all_True) (auto simp: ids_def intro: rev_image_eqI)
  have "prune_all [o_id ob'] ob = ob" if "ob \<in> set (objects sc)" for ob
  proof -
    have "a_target a \<noteq> o_id ob'" if "a \<in> set (o_anchors ob)" for a
      using ready(3) \<open>ob \<in> set (objects sc)\<close> that fresh
      unfolding anchors_resolved_def has_object_ids by metis
    then have "filter (\<lambda>a. a_target a \<notin> set [o_id ob']) (o_anchors ob) = o_anchors ob"
      by (intro filter_all_True) simp
    then show ?thesis unfolding prune_all_def by simp
  qed
  then have "map (prune_all [o_id ob']) (objects sc) = objects sc" by (rule map_idI)
  then show ?thesis
    using undoes_Delete[of sc' "o_id ob'" lm] ready(2) fresh rest by (simp add: iv sc' ids_def)
qed

lemma undo_delete:
  assumes "undo_ready sc" "apply_delete sc oid = (sc', Inr iv)"
  shows "undoes_perm lm iv sc' sc"
proof -
  note ready = undo_readyD[OF assms(1)]
  obtain idx where i: "index_of sc oid = Some idx"
    and sc': "sc' = sc\<lparr>objects := map (prune_all [oid]) (filter (\<lambda>ob. o_id ob \<noteq> oid) (objects sc))\<rparr>"
    and iv: "iv = (let l = InsertObject (object_at sc idx) # map restore_anchors
        (filter (anchors_to oid) (filter (\<lambda>ob. o_id ob \<noteq> oid) (objects sc)))
      in if length l = 1 then hd l else Batch l)"
    using assms(2) remove_index[OF ready(2)]
    by (auto simp: apply_delete_def with_index_Inr_iff Let_def prune_anchors_eq[abs_def])
  let ?rest = "filter (\<lambda>ob. o_id ob \<noteq> oid) (objects sc)"
  let ?removed = "object_at sc idx"
  let ?peers = "map (\<lambda>ob. (o_id ob, o_anchors ob)) (filter (anchors_to oid) ?rest)"
  have oid: "oid \<in> set (ids sc)" using i index_of_None by (metis option.distinct(1))
  have rem: "the_object sc oid = ?removed"
    using scene_get_eq[OF ready(2) object_at_in[OF i]] index_of_Some[OF i]
    by (simp add: the_object_def object_at_def)
  have ops: "undoes lm iv s t \<longleftrightarrow> runs lm s (InsertObject ?removed # restore_ops ?peers) t" for s t
  proof -
    have "map restore_anchors (filter (anchors_to oid) ?rest) = restore_ops ?peers"
      by (simp add: restore_ops_def restore_anchors_def comp_def)
    then show ?thesis
      by (cases "restore_ops ?peers") (auto simp: iv Let_def undoes_Batch runs_Cons)
  qed
  let ?scR = "sc\<lparr>objects := ?rest\<rparr>"
  have peers: "?peers = capture_peer_anchors ?scR [oid]"
    by (simp add: capture_peer_anchors_def anchors_to_def)
  let ?sc1 = "sc'\<lparr>objects := objects sc' @ [?removed]\<rparr>"
  have g: "geometry_ok (o_geometry ?removed)" using scene_ok_at[OF ready(1) i] .
  have idR: "o_id ?removed = oid" using index_of_Some[OF i] by (simp add: object_at_def)
  have ids': "ids sc' = filter (\<lambda>x. x \<noteq> oid) (ids sc)" by (simp add: sc' ids_def filter_map comp_def)
  have s1: "undoes lm (InsertObject ?removed) sc' ?sc1"
    using g idR by (intro undoes_Insert) (auto simp: ids')
  have ids1: "ids ?sc1 = ids sc' @ [oid]" using idR by (simp add: ids_def)
  have dR: "distinct (ids ?scR)"
    using ready(2) by (simp add: ids_def distinct_map_filter)
  have "runs lm ?sc1 (restore_ops ?peers) (?sc1\<lparr>objects := map (restore_with ?peers) (objects ?sc1)\<rparr>)"
  proof (rule runs_restore)
    show "distinct (ids ?sc1)" using ready(2) by (simp add: ids1 ids')
    show "distinct (map fst ?peers)" unfolding peers by (rule capture_distinct[OF dR])
    show "has_object ?sc1 (a_target a)" if "(x, as) \<in> set ?peers" "a \<in> set as" for x as a
      using that ready(3) oid by (auto simp: has_object_ids ids1 ids' anchors_resolved_def)
  qed
  moreover have "map (restore_with ?peers) (objects ?sc1) = ?rest @ [?removed]"
  proof -
    have "restore_with ?peers (prune_all [oid] ob) = ob" if "ob \<in> set ?rest" for ob
      unfolding peers prune_all_def
      using that
      by (intro restore_capture[OF dR, where as = "filter (\<lambda>a. a_target a \<notin> set [oid]) (o_anchors ob)"])
        (auto simp: filter_id_conv)
    moreover have "map_of ?peers oid = None" by (auto simp: map_of_eq_None_iff)
    then have "restore_with ?peers ?removed = ?removed" by (simp add: restore_with_def idR)
    ultimately show ?thesis by (auto simp: sc' intro!: map_idI)
  qed
  ultimately have "undoes lm iv sc' (sc\<lparr>objects := ?rest @ [?removed]\<rparr>)"
    unfolding ops runs_Cons using s1 by (auto simp: sc')
  moreover have "mset (?rest @ [?removed]) = mset (objects sc)"
    using mset_reinsert[OF assms(1), of "[oid]"] oid rem by simp
  ultimately show ?thesis unfolding undoes_perm_def using permutedI by blast
qed

lemma map_of_merge_bases:
  "m \<notin> set ms \<Longrightarrow> map_of (merge_bases sc acc ms) m = None"
  by (induction ms arbitrary: acc) auto

lemma undo_merge:
  assumes "undo_ready sc" "apply_merge sc ms into = (sc', Inr iv)"
  shows "undoes_perm lm iv sc' sc"
  using assms(2)
proof (rule merge_shape)
  note ready = undo_readyD[OF assms(1)]
  fix s sc1 sidx bases
  let ?f = "\<lambda>ob :: object. ob\<lparr>o_geometry := merged_geometry sc ms s\<rparr>"
  let ?sc2 = "modify_at sc1 sidx ?f"
  assume s: "s \<in> set ms" "distinct ms" "set ms \<subseteq> set (ids sc)"
    and sc1: "sc1 = sc\<lparr>objects := filter (\<lambda>ob. o_id ob = s \<or> o_id ob \<notin> set ms) (objects sc)\<rparr>"
    and i: "index_of sc1 s = Some sidx"
    and bases: "bases = merge_bases sc 0 (merge_list ms s)"
    and sc': "sc' = ?sc2\<lparr>objects := map (\<lambda>ob. ob\<lparr>o_anchors := map (merge_anchor bases s)
         (o_anchors ob)\<rparr>) (objects ?sc2)\<rparr>"
    and iv: "iv = Batch (Delete s # map InsertObject (map (the_object sc) ms) @
        restore_ops (capture_peer_anchors sc ms))"
  have d1: "distinct (ids sc1)" using ready(2) by (simp add: sc1 ids_def distinct_map_filter)
  have ids': "ids sc' = ids sc1" by (simp add: sc' ids_def modify_at_map[OF d1 i])
  have s1: "s \<in> set (ids sc1)" using i index_of_None by (metis option.distinct(1))
  let ?A = "\<lambda>ob. filter (\<lambda>a. a_target a \<notin> set [s]) (map (merge_anchor bases s) (o_anchors ob))"
  let ?sc3 = "sc'\<lparr>objects := map (prune_all [s]) (filter (\<lambda>ob. o_id ob \<noteq> s) (objects sc'))\<rparr>"
  have del: "undoes lm (Delete s) sc' ?sc3"
    using d1 s1 by (intro undoes_Delete) (simp_all add: ids')
  have "runs lm ?sc3 (map InsertObject (map (the_object sc) ms) @ restore_ops (capture_peer_anchors sc ms))
      (sc\<lparr>objects := filter (\<lambda>ob. o_id ob \<notin> set ms) (objects sc) @ map (the_object sc) ms\<rparr>)"
  proof (rule runs_reinsert[OF assms(1) s(3,2)])
    show "objects ?sc3 = map (\<lambda>ob. ob\<lparr>o_anchors := ?A ob\<rparr>) (filter (\<lambda>ob. o_id ob \<notin> set ms) (objects sc))"
    proof -
      let ?B = "\<lambda>ob :: object. ob\<lparr>o_anchors := map (merge_anchor bases s) (o_anchors ob)\<rparr>"
      have "objects sc' = map (\<lambda>ob. ?B (if o_id ob = s then ?f ob else ob)) (objects sc1)"
        by (simp add: sc' modify_at_map[OF d1 i])
      then have "filter (\<lambda>ob. o_id ob \<noteq> s) (objects sc') = map ?B (filter (\<lambda>ob. o_id ob \<noteq> s) (objects sc1))"
        using filter_map_others[of "\<lambda>ob. ?B (if o_id ob = s then ?f ob else ob)" s ?B] by simp
      moreover have "filter (\<lambda>ob. o_id ob \<noteq> s) (objects sc1) = filter (\<lambda>ob. o_id ob \<notin> set ms) (objects sc)"
        using s(1) by (auto simp: sc1 intro!: filter_cong)
      ultimately show ?thesis by (simp add: prune_all_def comp_def)
    qed
    show "?sc3\<lparr>objects := []\<rparr> = sc\<lparr>objects := []\<rparr>"
      by (simp add: sc' sc1 modify_at_def)
    show "?A ob = o_anchors ob" if "ob \<in> set (objects sc)" "\<forall>a \<in> set (o_anchors ob). a_target a \<notin> set ms" for ob
    proof -
      have "set (merge_list ms s) = set ms" using s(1) by (auto simp: merge_list_def)
      then have "map (merge_anchor bases s) (o_anchors ob) = o_anchors ob"
        using that(2) by (intro map_idI) (simp add: merge_anchor_def bases map_of_merge_bases)
      then show ?thesis using that(2) s(1) by (simp only:) (auto intro!: filter_all_True)
    qed
  qed
  then have "runs lm sc' (Delete s # map InsertObject (map (the_object sc) ms) @
      restore_ops (capture_peer_anchors sc ms))
      (sc\<lparr>objects := filter (\<lambda>ob. o_id ob \<notin> set ms) (objects sc) @ map (the_object sc) ms\<rparr>)"
    unfolding runs_Cons using del by blast
  then show ?thesis unfolding iv
    by (rule undoes_perm_runs) (rule mset_reinsert[OF assms(1) s(3,2)])
qed

lemma undo_split:
  assumes "undo_ready sc" "distinct new_ids" "apply_split sc oid new_ids contours = (sc', Inr iv)"
  shows "undoes_perm lm iv sc' sc"
  using assms(3)
proof (rule split_shape)
  note ready = undo_readyD[OF assms(1)]
  fix idx peel keys sc1 f sc2
  let ?ob = "object_at sc idx"
  let ?sps = "g_subpaths (o_geometry ?ob)"
  let ?kept = "kept_of (length ?sps) peel"
  let ?G = "geometry_from_subpaths (map (\<lambda>c. ?sps ! c) ?kept) (g_rule (o_geometry ?ob))"
  assume i: "index_of sc oid = Some idx"
    and len: "length new_ids = length peel" "length keys = length peel"
    and fresh: "\<forall>n \<in> set new_ids. n \<noteq> oid \<and> \<not> has_object sc n"
    and sc1: "sc1 = map_peers oid f sc" and f: "\<And>a. a_target a \<noteq> oid \<Longrightarrow> f a = a"
    and sc2: "sc2 = (if ?kept \<noteq> [] then modify_at sc1 idx (\<lambda>ob. ob\<lparr>o_geometry := ?G\<rparr>)
            else sc1\<lparr>objects := remove_at idx (objects sc1)\<rparr>)"
    and sc': "sc' = sc2\<lparr>objects := objects sc2 @ split_children ?ob new_ids keys peel\<rparr>"
    and iv: "iv = Batch (map Delete new_ids @ (if ?kept \<noteq> [] then [Delete oid] else []) @
        [InsertObject ?ob] @ restore_ops (capture_peer_anchors sc [oid]))"
  define ds where "ds = new_ids @ (if ?kept \<noteq> [] then [oid] else [])"
  have oid: "oid \<in> set (ids sc)" using i index_of_None by (metis option.distinct(1))
  have rem: "the_object sc oid = ?ob"
    using scene_get_eq[OF ready(2) object_at_in[OF i]] index_of_Some[OF i]
    by (simp add: the_object_def object_at_def)
  have i1: "index_of sc1 oid = Some idx" using i by (simp add: sc1 index_of_map_peers)
  have d1: "distinct (ids sc1)" using ready(2) by (simp add: sc1)
  have others: "filter (\<lambda>ob. o_id ob \<noteq> oid) (objects sc2) =
      map (\<lambda>ob. ob\<lparr>o_anchors := map f (o_anchors ob)\<rparr>) (filter (\<lambda>ob. o_id ob \<noteq> oid) (objects sc))"
  proof -
    have "objects sc1 = map (\<lambda>ob. if o_id ob = oid then ob else ob\<lparr>o_anchors := map f (o_anchors ob)\<rparr>) (objects sc)"
      by (simp add: sc1 map_peers_def)
    then have 1: "filter (\<lambda>ob. o_id ob \<noteq> oid) (map h (objects sc1)) =
        map (\<lambda>ob. ob\<lparr>o_anchors := map f (o_anchors ob)\<rparr>) (filter (\<lambda>ob. o_id ob \<noteq> oid) (objects sc))"
      if "\<And>ob. o_id (h ob) = o_id ob" "\<And>ob. o_id ob \<noteq> oid \<Longrightarrow> h ob = ob" for h
      using that by (simp only: map_map) (rule filter_map_others; simp)
    show ?thesis
    proof (cases "?kept = []")
      case True
      then show ?thesis using 1[of "\<lambda>ob. ob"] by (simp add: sc2 remove_index[OF d1 i1])
    next
      case False
      then show ?thesis
        using 1[of "\<lambda>ob. if o_id ob = oid then ob\<lparr>o_geometry := ?G\<rparr> else ob"]
        by (simp add: sc2 modify_at_map[OF d1 i1])
    qed
  qed
  have ids2: "ids sc2 = (if ?kept \<noteq> [] then ids sc else filter (\<lambda>x. x \<noteq> oid) (ids sc))"
    using remove_index[OF d1 i1]
    by (simp add: sc2 ids_modify_at) (simp add: sc1 ids_def map_peers_def filter_map comp_def)
  have ids': "ids sc' = ids sc2 @ new_ids"
    using split_children_ids[OF len] by (simp add: sc' ids_def)
  have disj: "set (ids sc2) \<inter> set new_ids = {}"
    using fresh by (auto simp: ids2 has_object_ids split: if_split_asm)
  have "runs lm sc' (map Delete ds)
     (sc'\<lparr>objects := map (prune_all ds) (filter (\<lambda>ob. o_id ob \<notin> set ds) (objects sc'))\<rparr>)"
  proof (rule runs_deletes)
    show "distinct (ids sc')" using ready(2) assms(2) disj by (simp add: ids') (simp add: ids2)
    show "distinct ds" using assms(2) fresh by (auto simp: ds_def)
    show "set ds \<subseteq> set (ids sc')" using oid by (auto simp: ds_def ids' ids2)
  qed
  moreover have "runs lm (sc'\<lparr>objects := map (prune_all ds) (filter (\<lambda>ob. o_id ob \<notin> set ds) (objects sc'))\<rparr>)
      (map InsertObject (map (the_object sc) [oid]) @ restore_ops (capture_peer_anchors sc [oid]))
      (sc\<lparr>objects := filter (\<lambda>ob. o_id ob \<notin> set [oid]) (objects sc) @ map (the_object sc) [oid]\<rparr>)"
  proof (rule runs_reinsert[OF assms(1)])
    let ?A = "\<lambda>ob. filter (\<lambda>a. a_target a \<notin> set ds) (map f (o_anchors ob))"
    have kids: "filter (\<lambda>ob. o_id ob \<notin> set ds) (split_children ?ob new_ids keys peel) = []"
    proof -
      have "o_id x \<in> set new_ids" if "x \<in> set (split_children ?ob new_ids keys peel)" for x
        using that split_children_ids[OF len, of ?ob] by (metis image_eqI list.set_map)
      then show ?thesis by (auto simp: filter_empty_conv ds_def)
    qed
    have "o_id x \<notin> set ds \<longleftrightarrow> o_id x \<noteq> oid" if "x \<in> set (objects sc2)" for x
    proof -
      have "o_id x \<in> set (ids sc2)" using that by (simp add: ids_def)
      then show ?thesis using disj by (cases "?kept = []") (auto simp: ds_def ids2)
    qed
    then have "filter (\<lambda>ob. o_id ob \<notin> set ds) (objects sc2) = filter (\<lambda>ob. o_id ob \<noteq> oid) (objects sc2)"
      by (intro filter_cong) auto
    then show "objects (sc'\<lparr>objects := map (prune_all ds) (filter (\<lambda>ob. o_id ob \<notin> set ds) (objects sc'))\<rparr>) =
        map (\<lambda>ob. ob\<lparr>o_anchors := ?A ob\<rparr>) (filter (\<lambda>ob. o_id ob \<notin> set [oid]) (objects sc))"
      using kids by (simp add: sc' others prune_all_def comp_def)
    show "(sc'\<lparr>objects := map (prune_all ds) (filter (\<lambda>ob. o_id ob \<notin> set ds) (objects sc'))\<rparr>)\<lparr>objects := []\<rparr> =
        sc\<lparr>objects := []\<rparr>"
      by (simp add: sc' sc2 sc1 map_peers_def modify_at_def)
    show "?A ob = o_anchors ob" if "ob \<in> set (objects sc)" "\<forall>a \<in> set (o_anchors ob). a_target a \<notin> set [oid]" for ob
    proof -
      have "map f (o_anchors ob) = o_anchors ob" using that(2) f by (intro map_idI) auto
      moreover have "a_target a \<notin> set ds" if "a \<in> set (o_anchors ob)" for a
        using that \<open>ob \<in> set (objects sc)\<close> \<open>\<forall>a \<in> set (o_anchors ob). a_target a \<notin> set [oid]\<close>
          ready(3) fresh by (auto simp: ds_def anchors_resolved_def)
      ultimately show ?thesis by (simp only:) (auto intro!: filter_all_True)
    qed
  qed (use oid in simp_all)
  ultimately have "runs lm sc' (map Delete ds @ map InsertObject (map (the_object sc) [oid]) @
        restore_ops (capture_peer_anchors sc [oid]))
      (sc\<lparr>objects := filter (\<lambda>ob. o_id ob \<notin> set [oid]) (objects sc) @ map (the_object sc) [oid]\<rparr>)"
    unfolding runs_append by blast
  then have "undoes_perm lm (Batch (map Delete ds @ map InsertObject (map (the_object sc) [oid]) @
        restore_ops (capture_peer_anchors sc [oid]))) sc' sc"
    by (rule undoes_perm_runs) (rule mset_reinsert[OF assms(1)], use oid in simp_all)
  then show ?thesis by (simp add: iv ds_def rem split: if_splits)
qed

section \<open>Versions and the public operation\<close>

text \<open>
  Operations read and write the object list only: the version counter is a frame. This
  carries the undo results from \<open>apply_inner\<close> to \<open>apply_object_op\<close>.
\<close>

definition with_version :: "i64 \<Rightarrow> scene \<Rightarrow> scene" where
  "with_version v sc = sc\<lparr>scene_version := v\<rparr>"

definition versioned :: "i64 \<Rightarrow> 'r outcome \<Rightarrow> 'r outcome" where
  "versioned v r = (with_version v (fst r), snd r)"

lemma versioned_Pair [simp]: "versioned v (sc, r) = (with_version v sc, r)"
  by (simp add: versioned_def)

lemma with_version_frame [simp]:
  "objects (with_version v sc) = objects sc" "index_of (with_version v sc) oid = index_of sc oid"
  "has_object (with_version v sc) oid = has_object sc oid"
  "object_at (with_version v sc) idx = object_at sc idx"
  "scene_get (with_version v sc) oid = scene_get sc oid"
  "the_object (with_version v sc) oid = the_object sc oid"
  "modify_at (with_version v sc) idx f = with_version v (modify_at sc idx f)"
  "map_peers oid g (with_version v sc) = with_version v (map_peers oid g sc)"
  "capture_peer_anchors (with_version v sc) ts = capture_peer_anchors sc ts"
  "(with_version v sc)\<lparr>objects := obs\<rparr> = with_version v (sc\<lparr>objects := obs\<rparr>)"
  by (simp_all add: with_version_def index_of_def has_object_def object_at_def scene_get_def
      the_object_def modify_at_def map_peers_def capture_peer_anchors_def)

lemma with_index_frame:
  "(\<And>idx. k' idx = versioned v (k idx)) \<Longrightarrow>
   with_index (with_version v sc) oid k' = versioned v (with_index sc oid k)"
  by (simp add: with_index_def split: option.splits)

lemma guarded_frame:
  "(\<And>x. k' x = versioned v (k x)) \<Longrightarrow> guarded (with_version v sc) m k' = versioned v (guarded sc m k)"
  by (simp add: guarded_def split: sum.splits)

lemma cycle_from_frame: "cycle_from (with_version v sc) oid g cur = cycle_from sc oid g cur"
  by (induction sc oid g cur rule: cycle_from.induct) simp_all

lemma would_cycle_frame: "would_cycle (with_version v sc) oid p = would_cycle sc oid p"
  by (simp add: would_cycle_def cycle_from_frame del: cycle_from.simps)

lemma check_new_ids_frame: "check_new_ids (with_version v sc) oid ns = check_new_ids sc oid ns"
  by (induction ns) auto

lemma check_merged_frame: "check_merged (with_version v sc) seen ms = check_merged sc seen ms"
  by (induction ms arbitrary: seen) auto

lemma merge_bases_frame: "merge_bases (with_version v sc) acc ms = merge_bases sc acc ms"
  by (induction ms arbitrary: acc) auto

lemma case_option_frame:
  "(case e of None \<Rightarrow> with_version v sc | Some x \<Rightarrow> with_version v (f x)) =
   with_version v (case e of None \<Rightarrow> sc | Some x \<Rightarrow> f x)"
  by (cases e) auto

lemmas frame_simps = Let_def case_option_frame would_cycle_frame check_new_ids_frame
  check_merged_frame merge_bases_frame

lemma field_ops_frame:
  "apply_edit_geometry (with_version v sc) oid g = versioned v (apply_edit_geometry sc oid g)"
  "apply_set_transform (with_version v sc) oid t = versioned v (apply_set_transform sc oid t)"
  "apply_set_text (with_version v sc) oid x = versioned v (apply_set_text sc oid x)"
  "apply_set_layout (with_version v sc) oid l = versioned v (apply_set_layout sc oid l)"
  "apply_set_clip (with_version v sc) oid c = versioned v (apply_set_clip sc oid c)"
  "apply_set_sizing (with_version v sc) oid z = versioned v (apply_set_sizing sc oid z)"
  "apply_add_comment (with_version v sc) oid cm = versioned v (apply_add_comment sc oid cm)"
  "apply_set_comments (with_version v sc) oid cms = versioned v (apply_set_comments sc oid cms)"
  "apply_set_tags (with_version v sc) oid ts = versioned v (apply_set_tags sc oid ts)"
  "apply_reorder (with_version v sc) oid order = versioned v (apply_reorder sc oid order)"
  unfolding field_op_defs
  by (intro guarded_frame with_index_frame; simp add: frame_simps split: prod.splits)+

lemma multi_field_frame:
  "apply_set_style (with_version v sc) oid fe se = versioned v (apply_set_style sc oid fe se)"
  "apply_set_meta (with_version v sc) oid n h k = versioned v (apply_set_meta sc oid n h k)"
  unfolding apply_set_style_def apply_set_meta_def
  by (intro with_index_frame, cases fe; cases se; simp add: Let_def)
    (intro with_index_frame, cases n; cases h; cases k; simp add: Let_def)

lemma other_ops_frame:
  "apply_set_anchor (with_version v sc) oid as = versioned v (apply_set_anchor sc oid as)"
  "apply_reparent (with_version v sc) oid p order = versioned v (apply_reparent sc oid p order)"
  "apply_insert (with_version v sc) ob = versioned v (apply_insert sc ob)"
  "apply_delete (with_version v sc) oid = versioned v (apply_delete sc oid)"
  by (auto simp: apply_set_anchor_def apply_reparent_def apply_insert_def apply_delete_def frame_simps
      with_index_def guarded_def split: option.splits sum.splits)

lemma canonicalize_frame:
  "apply_canonicalize lm (with_version v sc) oid = versioned v (apply_canonicalize lm sc oid)"
  unfolding apply_canonicalize_def
  by (intro with_index_frame) (auto simp: frame_simps intro!: guarded_frame split: option.splits prod.splits)

lemma split_frame:
  "apply_split (with_version v sc) oid ns cs = versioned v (apply_split sc oid ns cs)"
  unfolding apply_split_def
  by (intro with_index_frame) (auto simp: frame_simps intro!: guarded_frame)

lemma merge_frame:
  "apply_merge (with_version v sc) ms into = versioned v (apply_merge sc ms into)"
  unfolding apply_merge_def
  by (auto simp: frame_simps intro!: guarded_frame with_index_frame)

lemma apply_inner_frame:
  "apply_inner lm (with_version v sc) op = versioned v (apply_inner lm sc op)"
  "apply_children lm (with_version v sc) ops = versioned v (apply_children lm sc ops)"
  by (induction lm sc op and lm sc ops rule: apply_inner_apply_children.induct)
    (simp_all add: field_ops_frame multi_field_frame other_ops_frame canonicalize_frame split_frame merge_frame
      versioned_def split: prod.splits sum.splits)

section \<open>Undo through the public entry point\<close>

text \<open>Equal but for the version counter.\<close>

definition same_content :: "scene \<Rightarrow> scene \<Rightarrow> bool" where
  "same_content sc' sc \<longleftrightarrow> with_version 0 sc' = with_version 0 sc"

definition same_objects :: "scene \<Rightarrow> scene \<Rightarrow> bool" where
  "same_objects sc' sc \<longleftrightarrow> mset (objects sc') = mset (objects sc) \<and> tags sc' = tags sc \<and>
     selection sc' = selection sc \<and> updated_at sc' = updated_at sc"

lemma with_version_idem [simp]: "with_version v (with_version w sc) = with_version v sc"
  "with_version (scene_version sc) sc = sc"
  by (simp_all add: with_version_def)

lemma apply_object_op_iff:
  "apply_object_op lm sc op = (sc', Inr iv) \<longleftrightarrow>
     (\<exists>sc1. apply_inner lm sc op = (sc1, Inr iv) \<and> sc' = with_version (scene_version sc1 + 1) sc1)"
  by (auto simp: apply_object_op_def with_version_def split: prod.splits sum.splits)

lemma undo_public:
  assumes "apply_object_op lm sc op = (sc', Inr iv)"
    and "\<And>sc1. apply_inner lm sc op = (sc1, Inr iv) \<Longrightarrow> \<exists>sc2. undoes lm iv sc1 sc2 \<and> P sc2"
  shows "\<exists>sc2 sc3 iv'. apply_object_op lm sc' iv = (sc3, Inr iv') \<and> P sc2 \<and> same_content sc3 sc2"
proof -
  obtain sc1 where 1: "apply_inner lm sc op = (sc1, Inr iv)" "sc' = with_version (scene_version sc1 + 1) sc1"
    using assms(1) by (auto simp: apply_object_op_iff)
  then obtain sc2 iv' where 2: "apply_inner lm sc1 iv = (sc2, Inr iv')" "P sc2"
    using assms(2) by (auto simp: undoes_def)
  have "apply_inner lm sc' iv = (with_version (scene_version sc1 + 1) sc2, Inr iv')"
    using 2(1) by (simp add: 1(2) apply_inner_frame)
  then have "apply_object_op lm sc' iv = (with_version (scene_version (with_version (scene_version sc1 + 1) sc2) + 1)
      (with_version (scene_version sc1 + 1) sc2), Inr iv')"
    by (simp add: apply_object_op_iff)
  then show ?thesis using 2(2) unfolding same_content_def by (metis with_version_idem(1))
qed

definition structural_op :: "object_op \<Rightarrow> bool" where
  "structural_op op \<longleftrightarrow> (\<exists>ob. op = InsertObject ob) \<or> (\<exists>oid. op = Delete oid) \<or>
     (\<exists>oid ns cs. op = Split oid ns cs) \<or> (\<exists>ms into. op = Merge ms into)"

lemma structural_undo:
  assumes "undo_ready sc" "structural_op op" "op_ok op" "apply_inner lm sc op = (sc1, Inr iv)"
  shows "\<exists>sc2. undoes lm iv sc1 sc2 \<and> permuted sc2 sc"
  using assms undo_insert[of sc _ sc1 iv lm] undo_delete[of sc _ sc1 iv lm]
    undo_split[of sc _ _ _ sc1 iv lm] undo_merge[of sc _ _ sc1 iv lm]
  by (fastforce simp: structural_op_def undoes_perm_def permuted_def)

end
