(* ===== verification/Fractional_Laws.thy ===== *)
theory Fractional_Laws
  imports Fractional
begin

text \<open>
  The laws of the order keys, down from the digits: the midpoint of two fractions, the carry and
  the borrow of an integer part, a key between any two ordered bounds, and a run of keys.
\<close>

section \<open>Digits\<close>

definition is_digit :: "char \<Rightarrow> bool" where
  "is_digit c \<longleftrightarrow> (\<exists>d. digit_index c = Inr d)"

definition digit_byte :: "nat \<Rightarrow> nat" where
  "digit_byte d = (if d < 10 then d + 48 else if d < 36 then d + 55 else d + 61)"

lemma base_62_digits_byte: "d < 62 \<Longrightarrow> byte (base_62_digits ! d) = digit_byte d"
proof -
  have "map byte base_62_digits = map digit_byte [0..<62]"
    by (simp add: base_62_digits_def upt_conv_Cons digit_byte_def)
  then have "map byte base_62_digits ! d = map digit_byte [0..<62] ! d" by simp
  moreover have "length base_62_digits = 62" by (simp add: base_62_digits_def)
  ultimately show "d < 62 \<Longrightarrow> byte (base_62_digits ! d) = digit_byte d" by simp
qed

lemma length_base_62_digits [simp]: "length base_62_digits = 62"
  by (simp add: base_62_digits_def)

lemma digit_index_iff: "digit_index c = Inr d \<longleftrightarrow> d < 62 \<and> byte c = digit_byte d"
  by (auto simp: digit_index_def digit_byte_def split: if_splits)

lemma digit_byte_mono: "digit_byte d < digit_byte e \<longleftrightarrow> d < e" if "d < 62" "e < 62"
  using that by (auto simp: digit_byte_def)

lemma digit_at [simp]: "d < 62 \<Longrightarrow> digit_index (base_62_digits ! d) = Inr d"
  by (simp add: digit_index_iff base_62_digits_byte)

lemma digit_at_inv: "digit_index c = Inr d \<Longrightarrow> base_62_digits ! d = c"
  by (metis digit_index_iff base_62_digits_byte of_char_eq_iff)

lemma is_digitE:
  assumes "is_digit c"
  obtains d where "digit_index c = Inr d" "d < 62" "c = base_62_digits ! d"
  using assms digit_at_inv digit_index_bound unfolding is_digit_def by metis

lemma is_digit_at [simp]: "d < 62 \<Longrightarrow> is_digit (base_62_digits ! d)"
  by (auto simp: is_digit_def)

lemma digit_less_iff:
  "digit_index c = Inr d \<Longrightarrow> digit_index c' = Inr d' \<Longrightarrow> c < c' \<longleftrightarrow> d < d'"
  by (simp add: char_less_iff digit_index_iff digit_byte_mono)

lemma digit_at_less [simp]:
  "d < 62 \<Longrightarrow> e < 62 \<Longrightarrow> base_62_digits ! d < base_62_digits ! e \<longleftrightarrow> d < e"
  by (simp add: char_less_iff base_62_digits_byte digit_byte_mono)

lemma digit_zero: "digit_index (CHR ''0'') = Inr 0"
  by (simp add: digit_index_iff digit_byte_def)

lemma digit_z: "digit_index (CHR ''z'') = Inr 61"
  by (simp add: digit_index_iff digit_byte_def)

lemma is_digit_zero [simp]: "is_digit (CHR ''0'')" and is_digit_z [simp]: "is_digit (CHR ''z'')"
  using digit_zero digit_z by (auto simp: is_digit_def)

lemma digit_eq_zero_iff: "digit_index c = Inr d \<Longrightarrow> c = CHR ''0'' \<longleftrightarrow> d = 0"
  using digit_at_inv digit_zero by (metis Inr_inject)

lemma digit_at_eq_zero: "d < 62 \<Longrightarrow> base_62_digits ! d = CHR ''0'' \<longleftrightarrow> d = 0"
  using digit_eq_zero_iff digit_at by blast

lemma zero_le_digit: "is_digit c \<Longrightarrow> c \<noteq> CHR ''0'' \<Longrightarrow> CHR ''0'' < c"
  unfolding is_digit_def
  by (metis digit_less_iff digit_zero digit_eq_zero_iff gr0I)

lemma digit_le_z: "is_digit c \<Longrightarrow> c \<noteq> CHR ''z'' \<Longrightarrow> c < CHR ''z''"
proof -
  assume "is_digit c" "c \<noteq> CHR ''z''"
  then obtain d where d: "digit_index c = Inr d" "d \<noteq> 61"
    using digit_z digit_at_inv unfolding is_digit_def by metis
  then have "d < 61" using digit_index_bound[of c d] by simp
  then show ?thesis using digit_less_iff[OF d(1) digit_z] by simp
qed

lemma is_digit_ascii: "is_digit c \<Longrightarrow> byte c < 128"
  by (auto simp: is_digit_def digit_index_def split: if_splits)

lemma check_digits_iff: "check_digits cs = Inr () \<longleftrightarrow> (\<forall>c \<in> set cs. is_digit c)"
  by (induction cs) (auto simp: and_then_Inr_iff is_digit_def)

lemma in_set_tlD: "x \<in> set (tl xs) \<Longrightarrow> x \<in> set xs"
  by (cases xs) auto

abbreviation digits :: "str \<Rightarrow> bool" where
  "digits s \<equiv> (\<forall>c \<in> set s. is_digit c)"

lemma digits_ascii: "digits s \<Longrightarrow> ascii s"
  by (simp add: ascii_def is_digit_ascii)

lemma str_from_digits: "digits s \<Longrightarrow> n \<le> length s \<Longrightarrow> str_from s n = Inr (drop n s)"
  by (simp add: str_from_def ascii_boundary digits_ascii)

lemma str_upto_digits: "digits s \<Longrightarrow> n \<le> length s \<Longrightarrow> str_upto s n = Inr (take n s)"
  by (simp add: str_upto_def ascii_boundary digits_ascii)

section \<open>The midpoint\<close>

text \<open>A fraction is a digit string without a trailing zero.\<close>

definition fraction :: "str \<Rightarrow> bool" where
  "fraction f \<longleftrightarrow> digits f \<and> \<not> ends_with_zero f"

lemma fraction_Nil [simp]: "fraction []"
  by (simp add: fraction_def ends_with_zero_def)

lemma fraction_drop: "fraction f \<Longrightarrow> fraction (drop n f)"
  by (auto simp: fraction_def ends_with_zero_def dest: in_set_dropD)

lemma fraction_append: "digits p \<Longrightarrow> fraction q \<Longrightarrow> q \<noteq> [] \<Longrightarrow> fraction (p @ q)"
  by (auto simp: fraction_def ends_with_zero_def)

lemma fraction_Cons: "is_digit c \<Longrightarrow> fraction q \<Longrightarrow> q \<noteq> [] \<Longrightarrow> fraction (c # q)"
  using fraction_append[of "[c]" q] by simp

lemma common_prefix_take:
  "take (common_prefix a b) b
     = take (common_prefix a b) a @ replicate (common_prefix a b - length a) (CHR ''0'')"
  by (induction a b rule: common_prefix.induct) auto

lemma common_prefix_stop:
  "common_prefix a b = 0 \<Longrightarrow> b \<noteq> [] \<Longrightarrow> hd b \<noteq> (if a = [] then CHR ''0'' else hd a)"
  by (cases "(a, b)" rule: common_prefix.cases) (auto split: if_splits)

lemma common_prefix_short:
  assumes "a < b" "\<not> ends_with_zero b"
  shows "common_prefix a b < length b \<and> drop (common_prefix a b) a < drop (common_prefix a b) b"
  using assms
proof (induction a b rule: common_prefix.induct)
  case (1 a)
  then show ?case by simp
next
  case (2 y ys)
  then show ?case
  proof (cases "CHR ''0'' = y")
    case True
    with 2 have "ys \<noteq> []" by (auto simp: ends_with_zero_def)
    moreover from 2 this have "\<not> ends_with_zero ys" by (auto simp: ends_with_zero_def)
    moreover from \<open>ys \<noteq> []\<close> have "[] < ys" by (cases ys) auto
    ultimately show ?thesis using 2 True by simp
  qed simp
next
  case (3 x xs y ys)
  then show ?case
    by (cases "x = y") (auto simp: ends_with_zero_def split: if_splits)
qed

text \<open>The padded prefix of \<open>a\<close> bounds \<open>a\<close> from below any extension.\<close>

lemma prefix_extends_above:
  assumes "drop (common_prefix a b) a < inner"
  shows "a < take (common_prefix a b) b @ inner"
proof (cases "common_prefix a b \<le> length a")
  case True
  then have "take (common_prefix a b) b = take (common_prefix a b) a"
    using common_prefix_take[of a b] by simp
  then show ?thesis
    using assms lex_append_left[of "take (common_prefix a b) a" "drop (common_prefix a b) a" inner]
    by simp
next
  case False
  then have "take (common_prefix a b) b = a @ replicate (common_prefix a b - length a) (CHR ''0'')"
    using common_prefix_take[of a b] by simp
  with False show ?thesis by (simp add: lex_prefix)
qed

text \<open>The pre-conditions under which the source calls \<open>midpoint\<close>.\<close>

definition mid_pre :: "str \<Rightarrow> str option \<Rightarrow> bool" where
  "mid_pre a b \<longleftrightarrow> fraction a \<and> (case b of None \<Rightarrow> True | Some b' \<Rightarrow> fraction b' \<and> a < b')"

definition mid_post :: "str \<Rightarrow> str option \<Rightarrow> str \<Rightarrow> bool" where
  "mid_post a b m \<longleftrightarrow> fraction m \<and> a < m \<and> (case b of None \<Rightarrow> True | Some b' \<Rightarrow> m < b')"

lemma mid_pre_guards:
  "mid_pre a b \<Longrightarrow> \<not> not_below a b
     \<and> \<not> (ends_with_zero a \<or> (case b of None \<Rightarrow> False | Some b' \<Rightarrow> ends_with_zero b'))"
  by (auto simp: mid_pre_def not_below_def fraction_def split: option.splits)


lemma mid_digits:
  assumes "mid_pre a b" and "case b of None \<Rightarrow> True | Some b' \<Rightarrow> common_prefix a b' = 0"
  obtains da db where
    "first_digit a 0 = Inr da"
    "(case b of None \<Rightarrow> Inr 62 | Some b' \<Rightarrow> first_digit b' 62) = Inr db"
    "da < db" "db \<le> 62" "a \<noteq> [] \<Longrightarrow> hd a = base_62_digits ! da" "a = [] \<Longrightarrow> da = 0"
    "\<And>b'. b = Some b' \<Longrightarrow> db < 62 \<and> b' \<noteq> [] \<and> hd b' = base_62_digits ! db"
proof -
  have "\<exists>da. first_digit a 0 = Inr da \<and> da < 62
      \<and> (a \<noteq> [] \<longrightarrow> hd a = base_62_digits ! da) \<and> (a = [] \<longrightarrow> da = 0)"
    using assms(1) by (cases a)
      (auto simp: mid_pre_def fraction_def first_digit_def is_digit_def digit_at_inv
            dest: digit_index_bound)
  then obtain da where da: "first_digit a 0 = Inr da" "da < 62"
      "a \<noteq> [] \<Longrightarrow> hd a = base_62_digits ! da" "a = [] \<Longrightarrow> da = 0" by blast
  show thesis
  proof (cases b)
    case None
    with da show thesis by (intro that[of da 62]) auto
  next
    case (Some b')
    with assms have pre: "fraction b'" "a < b'" and stop: "common_prefix a b' = 0"
      by (auto simp: mid_pre_def)
    from pre(2) have ne: "b' \<noteq> []" by auto
    with pre obtain db where db: "digit_index (hd b') = Inr db"
      by (cases b') (auto simp: fraction_def is_digit_def)
    then have hdb: "db < 62" "hd b' = base_62_digits ! db"
      by (auto simp: digit_at_inv digit_index_bound)
    have "da < db"
    proof (cases "a = []")
      case True
      with common_prefix_stop[OF stop ne] have "hd b' \<noteq> CHR ''0''" by simp
      with True da hdb show ?thesis using digit_at_eq_zero by simp
    next
      case False
      with common_prefix_stop[OF stop ne] have "hd b' \<noteq> hd a" by simp
      moreover from pre(2) False ne have "hd a \<le> hd b'" by (cases a; cases b') auto
      ultimately have "hd a < hd b'" by simp
      with False da hdb show ?thesis by simp
    qed
    with da db hdb ne Some show thesis
      by (intro that[of da db]) (auto simp: first_digit_def)
  qed
qed

text \<open>The subtraction \<open>digit_b - digit_a\<close> of the source cannot wrap.\<close>

lemma midpoint_digits_ordered:
  assumes "mid_pre a b" "case b of None \<Rightarrow> True | Some b' \<Rightarrow> common_prefix a b' = 0"
    "first_digit a 0 = Inr da" "(case b of None \<Rightarrow> Inr 62 | Some b' \<Rightarrow> first_digit b' 62) = Inr db"
  shows "da < db"
  using mid_digits[OF assms(1,2)] assms(3,4) by (metis Inr_inject)

lemma midpoint_prefix:
  assumes "mid_pre a (Some b)" "0 < common_prefix a b"
    "midpoint (drop (common_prefix a b) a) (Some (drop (common_prefix a b) b)) = Inr inner"
  shows "midpoint a (Some b) = Inr (take (common_prefix a b) b @ inner)"
proof -
  let ?n = "common_prefix a b"
  have "digits a" "digits b" using assms(1) by (auto simp: mid_pre_def fraction_def)
  then have "(if ?n < length a then str_from a ?n else Inr []) = Inr (drop ?n a)"
      "str_from b ?n = Inr (drop ?n b)" "str_upto b ?n = Inr (take ?n b)"
    by (auto simp: str_from_digits str_upto_digits common_prefix_le)
  with assms mid_pre_guards[OF assms(1)] show ?thesis
    by (subst midpoint.simps) (simp add: Let_def)
qed

lemma mid_pre_drop:
  assumes "mid_pre a (Some b)"
  shows "mid_pre (drop (common_prefix a b) a) (Some (drop (common_prefix a b) b))"
  using assms common_prefix_short[of a b]
  by (auto simp: mid_pre_def fraction_drop fraction_def[of b])

lemma mid_post_prefix:
  assumes pre: "mid_pre a (Some b)"
    and post: "mid_post (drop (common_prefix a b) a) (Some (drop (common_prefix a b) b)) inner"
  shows "mid_post a (Some b) (take (common_prefix a b) b @ inner)"
proof -
  let ?n = "common_prefix a b"
  from post have inner: "fraction inner" "drop ?n a < inner" "inner < drop ?n b"
    by (auto simp: mid_post_def)
  from inner(2) have "inner \<noteq> []" by auto
  moreover have "digits (take ?n b)"
    using pre by (auto simp: mid_pre_def fraction_def dest: in_set_takeD)
  ultimately have "fraction (take ?n b @ inner)" using inner(1) by (intro fraction_append)
  moreover have "a < take ?n b @ inner" using inner(2) by (rule prefix_extends_above)
  moreover have "take ?n b @ inner < take ?n b @ drop ?n b" using inner(3) by (simp del: append_take_drop_id)
  ultimately show ?thesis by (simp add: mid_post_def)
qed

text \<open>The step without a common prefix, on the first digits \<open>da < db\<close>.\<close>

lemma midpoint_digit_step:
  assumes pre: "mid_pre a b" and stop: "case b of None \<Rightarrow> True | Some b' \<Rightarrow> common_prefix a b' = 0"
    and da: "first_digit a 0 = Inr da"
    and db: "(case b of None \<Rightarrow> Inr 62 | Some b' \<Rightarrow> first_digit b' 62) = Inr db"
  shows "midpoint a b =
     (if db - da > 1 then Inr [base_62_digits ! ((da + db + 1) div 2)]
      else if (case b of None \<Rightarrow> False | Some b' \<Rightarrow> length b' > 1) then Inr [hd (the b)]
      else and_then (midpoint (drop 1 a) None) (\<lambda>inner. Inr ((base_62_digits ! da) # inner)))"
proof -
  have dig: "digits a" "\<And>b'. b = Some b' \<Longrightarrow> digits b'"
    using pre by (auto simp: mid_pre_def fraction_def split: option.splits)
  have n: "(case b of None \<Rightarrow> 0 | Some b' \<Rightarrow> common_prefix a b') = 0"
    using stop by (auto split: option.splits)
  have upto: "length b' > 1 \<Longrightarrow> str_upto b' 1 = Inr [hd b']" if "b = Some b'" for b'
    using dig(2)[OF that] by (cases b') (auto simp: str_upto_digits)
  have from_a: "(if length a > 1 then str_from a 1 else Inr []) = Inr (drop 1 a)"
    using dig(1) str_from_digits[of a 1] by auto
  show ?thesis
    using mid_pre_guards[OF pre] n da db upto from_a
    by (subst midpoint.simps) (auto simp: Let_def split: option.splits)
qed


lemma mid_pre_tail: "mid_pre a b \<Longrightarrow> mid_pre (drop 1 a) None"
  using fraction_drop[of a 1] by (simp add: mid_pre_def)

lemma fraction_digit: "0 < d \<Longrightarrow> d < 62 \<Longrightarrow> fraction [base_62_digits ! d]"
  by (simp add: fraction_def ends_with_zero_def digit_at_eq_zero)

lemma lex_singleton_above: "(a = [] \<or> hd a < (c :: char)) \<Longrightarrow> a < [c]"
  by (cases a) auto

lemma mid_post_digit:
  assumes "da < mid" "mid < db" "db \<le> 62" "a = [] \<or> hd a = base_62_digits ! da"
    "\<And>b'. b = Some b' \<Longrightarrow> db < 62 \<and> b' \<noteq> [] \<and> hd b' = base_62_digits ! db"
  shows "mid_post a b [base_62_digits ! mid]"
proof -
  have "a < [base_62_digits ! mid]"
    using assms(1-4) by (intro lex_singleton_above) auto
  moreover have "[base_62_digits ! mid] < b'" if "b = Some b'" for b'
    using assms(2) assms(5)[OF that] by (cases b') auto
  moreover have "fraction [base_62_digits ! mid]"
    using assms by (intro fraction_digit) auto
  ultimately show ?thesis by (auto simp: mid_post_def split: option.splits)
qed

lemma mid_post_head:
  assumes "mid_pre a (Some b)" "da < db" "a = [] \<or> hd a = base_62_digits ! da"
    "db < 62" "hd b = base_62_digits ! db" "length b > 1"
  shows "mid_post a (Some b) [hd b]"
proof -
  have "a < [hd b]" using assms(2-5) by (intro lex_singleton_above) auto
  moreover have "[hd b] < b" using assms(6) by (cases b) (auto simp: Suc_less_eq2 neq_Nil_conv)
  moreover have "fraction [hd b]" using assms(2,4,5) fraction_digit[of db] by simp
  ultimately show ?thesis by (simp add: mid_post_def)
qed

lemma mid_post_descend:
  assumes "mid_post (drop 1 a) None inner" "da < 62" "da < db" "db \<le> 62"
    "a \<noteq> [] \<Longrightarrow> hd a = base_62_digits ! da"
    "\<And>b'. b = Some b' \<Longrightarrow> db < 62 \<and> b' \<noteq> [] \<and> hd b' = base_62_digits ! db"
  shows "mid_post a b ((base_62_digits ! da) # inner)"
proof -
  from assms(1) have inner: "fraction inner" "drop 1 a < inner" "inner \<noteq> []"
    by (auto simp: mid_post_def)
  have "a < (base_62_digits ! da) # inner"
    using inner(2) assms(5) by (cases a) auto
  moreover have "(base_62_digits ! da) # inner < b'" if "b = Some b'" for b'
    using assms(2,3) assms(6)[OF that] by (cases b') auto
  moreover have "fraction ((base_62_digits ! da) # inner)"
    using inner assms(2) by (intro fraction_Cons) auto
  ultimately show ?thesis by (auto simp: mid_post_def split: option.splits)
qed

lemma midpoint_ok:
  "mid_pre a b \<Longrightarrow> \<exists>m. midpoint a b = Inr m \<and> mid_post a b m"
proof (induction "length a + (case b of None \<Rightarrow> 0 | Some b' \<Rightarrow> Suc (length b'))"
    arbitrary: a b rule: less_induct)
  case less
  note pre = less.prems
  show ?case
  proof (cases "case b of None \<Rightarrow> True | Some b' \<Rightarrow> common_prefix a b' = 0")
    case False
    then obtain b' where b: "b = Some b'" and n: "0 < common_prefix a b'"
      by (auto split: option.splits)
    let ?n = "common_prefix a b'"
    have "mid_pre (drop ?n a) (Some (drop ?n b'))" using mid_pre_drop pre b by blast
    moreover have "length (drop ?n a) + Suc (length (drop ?n b')) < length a + Suc (length b')"
      using n common_prefix_le[of a b'] by simp
    ultimately obtain inner where "midpoint (drop ?n a) (Some (drop ?n b')) = Inr inner"
        "mid_post (drop ?n a) (Some (drop ?n b')) inner"
      using less.hyps[of "drop ?n a" "Some (drop ?n b')"] b by auto
    then show ?thesis
      using midpoint_prefix mid_post_prefix pre n b by blast
  next
    case stop: True
    obtain da db where da: "first_digit a 0 = Inr da"
      and db: "(case b of None \<Rightarrow> Inr 62 | Some b' \<Rightarrow> first_digit b' 62) = Inr db"
      and ord: "da < db" "db \<le> 62" and hda: "a \<noteq> [] \<Longrightarrow> hd a = base_62_digits ! da"
      and anil: "a = [] \<Longrightarrow> da = 0"
      and hdb: "\<And>b'. b = Some b' \<Longrightarrow> db < 62 \<and> b' \<noteq> [] \<and> hd b' = base_62_digits ! db"
      using mid_digits[OF pre stop] by metis
    note step = midpoint_digit_step[OF pre stop da db]
    consider (gap) "db - da > 1"
      | (long) "\<not> db - da > 1" "case b of None \<Rightarrow> False | Some b' \<Rightarrow> length b' > 1"
      | (down) "\<not> db - da > 1" "\<not> (case b of None \<Rightarrow> False | Some b' \<Rightarrow> length b' > 1)"
      by blast
    then show ?thesis
    proof cases
      case gap
      then have "da < (da + db + 1) div 2" "(da + db + 1) div 2 < db" by auto
      from mid_post_digit[OF this ord(2) _ hdb] hda gap step show ?thesis by auto
    next
      case long
      then obtain b' where "b = Some b'" "length b' > 1" by (auto split: option.splits)
      then show ?thesis
        using long(1) step mid_post_head[of a b' da db] pre ord hda hdb[of b'] by auto
    next
      case down
      have "a \<noteq> [] \<or> b \<noteq> None"
        using down(1) anil db by (cases b) auto
      then have "length (drop 1 a) < length a + (case b of None \<Rightarrow> 0 | Some b' \<Rightarrow> Suc (length b'))"
        by (cases a; cases b) auto
      then obtain inner where "midpoint (drop 1 a) None = Inr inner" "mid_post (drop 1 a) None inner"
        using less.hyps[of "drop 1 a" None] mid_pre_tail[OF pre] by auto
      with down step ord hda hdb show ?thesis
        using mid_post_descend[of a inner da db b] by auto
    qed
  qed
qed


section \<open>Integer parts\<close>

definition wf_int :: "str \<Rightarrow> bool" where
  "wf_int i \<longleftrightarrow> i \<noteq> [] \<and> get_integer_length (hd i) = Inr (length i) \<and> digits (tl i)"

lemma integer_length_iff:
  "get_integer_length h = Inr n \<longleftrightarrow>
     (97 \<le> byte h \<and> byte h \<le> 122 \<and> n = byte h - 95) \<or> (65 \<le> byte h \<and> byte h \<le> 90 \<and> n = 92 - byte h)"
  by (auto simp: get_integer_length_def split: if_splits)

lemma integer_length_ge: "get_integer_length h = Inr n \<Longrightarrow> 2 \<le> n"
  by (auto simp: integer_length_iff)

lemma wf_int_cases:
  assumes "wf_int i"
  obtains h ds where "i = h # ds" "get_integer_length h = Inr (Suc (length ds))" "digits ds" "ds \<noteq> []"
proof -
  from assms obtain h ds where i: "i = h # ds" "get_integer_length h = Inr (Suc (length ds))" "digits ds"
    by (cases i) (auto simp: wf_int_def)
  moreover from i have "ds \<noteq> []" using integer_length_ge[of h] by auto
  ultimately show thesis by (rule that)
qed

lemma wf_int_Cons:
  "wf_int (h # ds) \<longleftrightarrow> get_integer_length h = Inr (Suc (length ds)) \<and> digits ds"
  by (simp add: wf_int_def)

lemma wf_int_ascii: "wf_int i \<Longrightarrow> ascii i"
  by (erule wf_int_cases) (auto simp: ascii_def is_digit_ascii integer_length_iff)

lemma fraction_ascii: "fraction f \<Longrightarrow> ascii f"
  by (simp add: fraction_def digits_ascii)

lemma get_integer_part_wf:
  assumes "wf_int i" "ascii f"
  shows "get_integer_part (i @ f) = Inr i" "str_from (i @ f) (length i) = Inr f"
proof -
  have b: "is_char_boundary (i @ f) (length i)"
    using assms by (intro ascii_boundary) (auto simp: wf_int_ascii)
  have len: "get_integer_length (hd (i @ f)) = Inr (length i)" "i \<noteq> []"
    using assms(1) by (auto simp: wf_int_def)
  show "get_integer_part (i @ f) = Inr i"
    using b len by (simp add: get_integer_part_def str_upto_def)
  show "str_from (i @ f) (length i) = Inr f" using b by (simp add: str_from_def)
qed

text \<open>The shape of an order key: a well-formed integer part and a fraction.\<close>

lemma valid_key_iff:
  "validate_order_key k = Inr () \<longleftrightarrow>
     k \<noteq> smallest_integer \<and> (\<exists>i f. k = i @ f \<and> wf_int i \<and> fraction f)"
proof
  assume v: "validate_order_key k = Inr ()"
  then have ne: "k \<noteq> smallest_integer" by (auto simp: validate_order_key_def)
  with v obtain i f where i: "get_integer_part k = Inr i" and f: "str_from k (length i) = Inr f"
    and d: "digits (tl i)" "digits f" "\<not> ends_with_zero f"
    by (auto simp: validate_order_key_def check_digits_iff split: if_splits)
  from i obtain n where n: "k \<noteq> []" "get_integer_length (hd k) = Inr n" "n \<le> length k" "i = take n k"
    by (auto simp: get_integer_part_def str_upto_def split: if_splits)
  then have "2 \<le> n" using integer_length_ge by blast
  with n have "wf_int i" using d(1) by (cases k) (auto simp: wf_int_def take_Cons')
  moreover have "fraction f" using d by (simp add: fraction_def)
  moreover have "k = i @ f"
    using f n by (auto simp: str_from_def split: if_splits)
  ultimately show "k \<noteq> smallest_integer \<and> (\<exists>i f. k = i @ f \<and> wf_int i \<and> fraction f)"
    using ne by blast
next
  assume "k \<noteq> smallest_integer \<and> (\<exists>i f. k = i @ f \<and> wf_int i \<and> fraction f)"
  then obtain i f where k: "k = i @ f" "wf_int i" "fraction f" "k \<noteq> smallest_integer" by blast
  have "digits (tl i)" using k(2) by (simp add: wf_int_def)
  then show "validate_order_key k = Inr ()"
    using k get_integer_part_wf[of i f]
    by (auto simp: validate_order_key_def fraction_ascii check_digits_iff fraction_def
          and_then_Inr_iff)
qed

lemma wf_int_less_iff:
  assumes "wf_int i" "wf_int j"
  shows "i @ f < j @ g \<longleftrightarrow> i < j \<or> i = j \<and> f < g"
proof -
  obtain h ds where i: "i = h # ds" "get_integer_length h = Inr (Suc (length ds))"
    using assms(1) by (rule wf_int_cases)
  obtain h' ds' where j: "j = h' # ds'" "get_integer_length h' = Inr (Suc (length ds'))"
    using assms(2) by (rule wf_int_cases)
  show ?thesis
  proof (cases "h = h'")
    case True
    with i j have "length ds = length ds'" by simp
    with i j True show ?thesis by (auto simp: lex_append_same_length_iff)
  next
    case False
    with i j show ?thesis by auto
  qed
qed

lemma wf_int_smallest: "wf_int smallest_integer"
  by (simp add: smallest_integer_def wf_int_Cons integer_length_iff)

lemma zeros_least: "digits ds \<Longrightarrow> replicate (length ds) (CHR ''0'') \<le> ds"
  by (induction ds) (auto dest: zero_le_digit)

lemma smallest_integer_least:
  assumes "wf_int i"
  shows "smallest_integer \<le> i"
  using assms
proof (rule wf_int_cases)
  fix h ds
  assume i: "i = h # ds" "get_integer_length h = Inr (Suc (length ds))" "digits ds"
  show ?thesis
  proof (cases "h = CHR ''A''")
    case True
    with i have "length ds = 26" by (simp add: integer_length_iff)
    with i True zeros_least[OF i(3)] show ?thesis by (simp add: smallest_integer_def)
  next
    case False
    then have "byte h \<noteq> 65" using of_char_eq_iff[of h "CHR ''A''"] by simp
    with i(2) have "CHR ''A'' < h" by (auto simp: char_less_iff integer_length_iff)
    with i show ?thesis by (simp add: smallest_integer_def)
  qed
qed

section \<open>Carry and borrow\<close>

lemma carry_loop_ok:
  "digits cs \<Longrightarrow> \<exists>c cs'. carry_loop cs = Inr (c, cs') \<and> digits cs' \<and> length cs' = length cs
     \<and> (\<not> c \<longrightarrow> rev cs < rev cs')"
proof (induction cs)
  case Nil
  then show ?case by (auto intro: exI[of _ True])
next
  case (Cons x xs)
  then obtain d where d: "digit_index x = Inr d" "d < 62" "x = base_62_digits ! d"
    by (auto elim: is_digitE)
  from Cons obtain c xs' where rec: "carry_loop xs = Inr (c, xs')" "digits xs'"
      "length xs' = length xs" "\<not> c \<longrightarrow> rev xs < rev xs'"
    by (auto simp: is_digit_def)
  show ?case
  proof (cases "d + 1 = 62")
    case True
    with d rec show ?thesis by (auto simp: lex_append_same_length)
  next
    case False
    with d have "d + 1 < 62" by simp
    then show ?thesis using d Cons.prems by (auto intro: exI[of _ False])
  qed
qed

lemma borrow_loop_ok:
  "digits cs \<Longrightarrow> \<exists>b cs'. borrow_loop cs = Inr (b, cs') \<and> digits cs' \<and> length cs' = length cs
     \<and> (\<not> b \<longrightarrow> rev cs' < rev cs) \<and> (b \<longrightarrow> cs = replicate (length cs) (CHR ''0''))"
proof (induction cs)
  case Nil
  then show ?case by (auto intro: exI[of _ True])
next
  case (Cons x xs)
  then obtain d where d: "digit_index x = Inr d" "d < 62" "x = base_62_digits ! d"
    by (auto elim: is_digitE)
  from Cons obtain b xs' where rec: "borrow_loop xs = Inr (b, xs')" "digits xs'"
      "length xs' = length xs" "\<not> b \<longrightarrow> rev xs' < rev xs"
      "b \<longrightarrow> xs = replicate (length xs) (CHR ''0'')"
    by (auto simp: is_digit_def)
  show ?case
  proof (cases "d = 0")
    case True
    then have "x = CHR ''0''" using d(1) digit_eq_zero_iff by blast
    with d rec True show ?thesis by (auto simp: lex_append_same_length)
  next
    case False
    then have "d - 1 < 62" using d by simp
    then show ?thesis using d Cons.prems False by (auto intro: exI[of _ False])
  qed
qed

lemma validate_integer_wf: "wf_int x \<Longrightarrow> validate_integer x = Inr ()"
  by (auto simp: wf_int_def validate_integer_def)

lemma char_succ_byte: "byte h < 255 \<Longrightarrow> byte (char_of (byte h + 1) :: char) = byte h + 1"
  by simp

lemma char_pred_byte: "0 < byte h \<Longrightarrow> byte (char_of (byte h - 1) :: char) = byte h - 1"
proof -
  have "byte h - 1 < 256" using nat_of_char_less_256[of h] by linarith
  then show ?thesis by simp
qed

lemma byte_eq_iff: "byte c = byte d \<longleftrightarrow> c = d"
  by simp

lemma increment_integer_ok:
  assumes "wf_int x"
  shows "\<exists>r. increment_integer x = Inr r
     \<and> (\<forall>y. r = Some y \<longrightarrow> wf_int y \<and> (\<forall>f g. x @ f < y @ g))"
  using assms
proof (rule wf_int_cases)
  fix h ds
  assume x: "x = h # ds" "get_integer_length h = Inr (Suc (length ds))" "digits ds" "ds \<noteq> []"
  obtain c cs' where loop: "carry_loop (rev ds) = Inr (c, cs')" "digits cs'"
      "length cs' = length ds" "\<not> c \<longrightarrow> ds < rev cs'"
    using carry_loop_ok[of "rev ds"] x(3) by auto
  note v = validate_integer_wf[OF assms]
  have inc: "increment_integer x =
      (if c then
         if h = CHR ''Z'' then Inr (Some ''a0'')
         else if h = CHR ''z'' then Inr None
         else Inr (Some (make_int (char_of (byte h + 1))
            (if CHR ''a'' < char_of (byte h + 1) then rev cs' @ ''0'' else butlast (rev cs'))))
       else Inr (Some (make_int h (rev cs'))))"
    using v loop x by (simp add: increment_integer_def Let_def)
  consider (keep) "\<not> c" | (cross) "c" "h = CHR ''Z''" | (top) "c" "h = CHR ''z''"
    | (bump) "c" "h \<noteq> CHR ''Z''" "h \<noteq> CHR ''z''" by blast
  then show ?thesis
  proof cases
    case keep
    then have "wf_int (h # rev cs')" using x loop by (simp add: wf_int_Cons)
    moreover have "x @ f < (h # rev cs') @ g" for f g
      using x loop keep by (simp add: lex_append_same_length)
    ultimately show ?thesis using inc keep by (auto simp: make_int_def)
  next
    case cross
    then show ?thesis
      using inc x by (auto simp: wf_int_Cons integer_length_iff char_less_iff)
  next
    case top
    then show ?thesis using inc x by simp
  next
    case bump
    let ?h = "char_of (byte h + 1) :: char"
    have ranges: "97 \<le> byte h \<and> byte h < 122 \<or> 65 \<le> byte h \<and> byte h < 90"
      using x(2) bump byte_eq_iff[of h "CHR ''z''"] byte_eq_iff[of h "CHR ''Z''"]
      by (auto simp: integer_length_iff)
    then have bh: "byte ?h = byte h + 1" by (intro char_succ_byte) auto
    let ?ds = "if CHR ''a'' < ?h then rev cs' @ ''0'' else butlast (rev cs')"
    have "length ?ds + 1 = (if 97 \<le> byte h then byte h - 94 else 91 - byte h)"
      using ranges x(2) loop(3) bh by (auto simp: char_less_iff integer_length_iff)
    then have "get_integer_length ?h = Inr (Suc (length ?ds))"
      using ranges bh by (auto simp: integer_length_iff)
    moreover have "digits ?ds" using loop(2) by (auto dest: in_set_tlD)
    ultimately have "wf_int (?h # ?ds)" by (simp only: wf_int_Cons)
    moreover have "h < ?h" using bh by (simp only: char_less_iff)
    ultimately show ?thesis using inc bump x by (simp add: make_int_def)
  qed
qed

lemma decrement_integer_ok:
  assumes "wf_int x" "x \<noteq> smallest_integer"
  shows "\<exists>y. decrement_integer x = Inr (Some y) \<and> wf_int y \<and> (\<forall>f g. y @ f < x @ g)"
  using assms(1)
proof (rule wf_int_cases)
  fix h ds
  assume x: "x = h # ds" "get_integer_length h = Inr (Suc (length ds))" "digits ds" "ds \<noteq> []"
  obtain b cs' where loop: "borrow_loop (rev ds) = Inr (b, cs')" "digits cs'"
      "length cs' = length ds" "\<not> b \<longrightarrow> rev cs' < ds"
      "b \<longrightarrow> rev ds = replicate (length ds) (CHR ''0'')"
    using borrow_loop_ok[of "rev ds"] x(3) by auto
  note v = validate_integer_wf[OF assms(1)]
  have dec: "decrement_integer x =
      (if b then
         if h = CHR ''a'' then Inr (Some ''Zz'')
         else if h = CHR ''A'' then Inr None
         else Inr (Some (make_int (char_of (byte h - 1))
            (if char_of (byte h - 1) < CHR ''Z'' then rev cs' @ ''z'' else butlast (rev cs'))))
       else Inr (Some (make_int h (rev cs'))))"
    using v loop x by (simp add: decrement_integer_def Let_def)
  consider (keep) "\<not> b" | (cross) "b" "h = CHR ''a''" | (bottom) "b" "h = CHR ''A''"
    | (drop) "b" "h \<noteq> CHR ''a''" "h \<noteq> CHR ''A''" by blast
  then show ?thesis
  proof cases
    case keep
    then have "wf_int (h # rev cs')" using x loop by (simp add: wf_int_Cons)
    moreover have "(h # rev cs') @ f < x @ g" for f g
      using x loop keep by (simp add: lex_append_same_length)
    ultimately show ?thesis using dec keep by (auto simp: make_int_def)
  next
    case cross
    then show ?thesis
      using dec x by (auto simp: wf_int_Cons integer_length_iff char_less_iff)
  next
    case bottom
    then have "rev ds = replicate 26 (CHR ''0'')"
      using loop(5) x(2) by (simp add: integer_length_iff)
    then have "ds = replicate 26 (CHR ''0'')" by (metis rev_replicate rev_rev_ident)
    with bottom x assms(2) show ?thesis by (simp add: smallest_integer_def)
  next
    case drop
    let ?h = "char_of (byte h - 1) :: char"
    have ranges: "97 < byte h \<and> byte h \<le> 122 \<or> 65 < byte h \<and> byte h \<le> 90"
      using x(2) drop byte_eq_iff[of h "CHR ''a''"] byte_eq_iff[of h "CHR ''A''"]
      by (auto simp: integer_length_iff)
    then have bh: "byte ?h = byte h - 1" by (intro char_pred_byte) auto
    let ?ds = "if ?h < CHR ''Z'' then rev cs' @ ''z'' else butlast (rev cs')"
    have "length ?ds + 1 = (if 97 \<le> byte h then byte h - 96 else 93 - byte h)"
      using ranges x(2) loop(3) bh by (auto simp: char_less_iff integer_length_iff)
    then have "get_integer_length ?h = Inr (Suc (length ?ds))"
      using ranges bh by (auto simp: integer_length_iff)
    moreover have "digits ?ds" using loop(2) by (auto dest: in_set_tlD)
    ultimately have "wf_int (?h # ?ds)" by (simp only: wf_int_Cons)
    moreover have "?h < h" using bh ranges by (auto simp: char_less_iff)
    ultimately show ?thesis using dec drop x by (simp add: make_int_def)
  qed
qed


text \<open>Only the largest integer part has no successor.\<close>

lemma carry_loop_top:
  "digits cs \<Longrightarrow> carry_loop cs = Inr (True, cs') \<Longrightarrow> set cs \<subseteq> {CHR ''z''}"
proof (induction cs arbitrary: cs')
  case (Cons x xs)
  from Cons.prems obtain d where d: "digit_index x = Inr d" "x = base_62_digits ! d"
    by (auto elim: is_digitE)
  have d61: "d = 61"
  proof (rule ccontr)
    assume "d \<noteq> 61"
    then show False using Cons.prems(2) d(1) by simp
  qed
  then have "x = CHR ''z''" using d digit_z digit_at_inv by metis
  moreover obtain ds where "carry_loop xs = Inr (True, ds)"
    using Cons.prems(2) d(1) d61 by (auto simp: and_then_Inr_iff)
  then have "set xs \<subseteq> {CHR ''z''}" using Cons.IH Cons.prems(1) by simp
  ultimately show ?case by simp
qed simp

lemma digits_le_top: "digits ds \<Longrightarrow> ds \<le> replicate (length ds) (CHR ''z'')"
  by (induction ds) (auto dest: digit_le_z)

lemma increment_top:
  assumes "wf_int x" "increment_integer x = Inr None" "wf_int y"
  shows "\<not> x < y"
proof -
  obtain h ds where x: "x = h # ds" "get_integer_length h = Inr (Suc (length ds))" "digits ds"
    using assms(1) by (rule wf_int_cases)
  obtain h' ds' where y: "y = h' # ds'" "get_integer_length h' = Inr (Suc (length ds'))" "digits ds'"
    using assms(3) by (rule wf_int_cases)
  from assms(2) x(1) obtain cs' where top: "carry_loop (rev ds) = Inr (True, cs')" "h = CHR ''z''"
    by (auto simp: increment_integer_def Let_def split: if_splits prod.splits)
  with x(3) have "set ds \<subseteq> {CHR ''z''}"
    using carry_loop_top[of "rev ds" cs'] by simp
  then have ds: "ds = replicate (length ds) (CHR ''z'')"
    by (metis replicate_eqI singletonD subsetD)
  show ?thesis
  proof (cases "h' = h")
    case True
    with x y have "length ds' = length ds" by simp
    with digits_le_top[OF y(3)] ds have "ds' \<le> ds" by metis
    with True x y show ?thesis by auto
  next
    case False
    with y(2) top(2) have "h' < h"
      using byte_eq_iff[of h' "CHR ''z''"] by (auto simp: char_less_iff integer_length_iff)
    with x y show ?thesis by auto
  qed
qed

section \<open>Keys between two bounds\<close>

text \<open>The relation a minted key is to have to its bounds.\<close>

definition over_bound :: "str option \<Rightarrow> str \<Rightarrow> bool" where
  "over_bound a k \<longleftrightarrow> (\<forall>x. a = Some x \<longrightarrow> x < k)"

definition under_bound :: "str option \<Rightarrow> str \<Rightarrow> bool" where
  "under_bound b k \<longleftrightarrow> (\<forall>y. b = Some y \<longrightarrow> k < y)"

definition bounds_ok :: "str option \<Rightarrow> str option \<Rightarrow> bool" where
  "bounds_ok a b \<longleftrightarrow> validate_bound a = Inr () \<and> validate_bound b = Inr ()
     \<and> (\<forall>x y. a = Some x \<longrightarrow> b = Some y \<longrightarrow> x < y)"

abbreviation valid_key :: "str \<Rightarrow> bool" where
  "valid_key k \<equiv> validate_order_key k = Inr ()"

lemma valid_keyE:
  assumes "valid_key k"
  obtains i f where "k = i @ f" "wf_int i" "fraction f" "k \<noteq> smallest_integer"
  using assms valid_key_iff by blast

lemma valid_keyI: "wf_int i \<Longrightarrow> fraction f \<Longrightarrow> i @ f \<noteq> smallest_integer \<Longrightarrow> valid_key (i @ f)"
  using valid_key_iff by blast

lemma wf_int_not_smallest:
  "wf_int i \<Longrightarrow> wf_int x \<Longrightarrow> x @ f < i @ g \<Longrightarrow> i @ h = smallest_integer \<Longrightarrow> h \<noteq> [] \<or> x = i"
  using smallest_integer_least[of x] wf_int_less_iff[of x i f g] by auto

lemma valid_after_least:
  assumes "wf_int i" "fraction f" "smallest_integer < i @ f"
  shows "valid_key (i @ f)"
  using assms by (intro valid_keyI) auto

lemma wf_int_least_append: "wf_int i \<Longrightarrow> smallest_integer \<le> i @ f"
proof -
  assume i: "wf_int i"
  from smallest_integer_least[OF i] have "smallest_integer @ [] \<le> i @ f"
    using wf_int_less_iff[OF i wf_int_smallest, of f "[]"] by (auto simp: not_less[symmetric])
  then show ?thesis by simp
qed

lemma valid_above:
  assumes "wf_int x" "x @ f < i @ g" "wf_int i" "fraction g"
  shows "valid_key (i @ g)"
  using wf_int_least_append[OF assms(1), of f] assms(2) valid_after_least[OF assms(3,4)]
  by (meson order_le_less_trans)

lemma midpoint_fraction:
  assumes "fraction f"
  obtains m where "midpoint f None = Inr m" "fraction m" "f < m"
  using midpoint_ok[of f None] assms by (auto simp: mid_pre_def mid_post_def)

lemma midpoint_fractions:
  assumes "fraction f" "fraction g" "f < g"
  obtains m where "midpoint f (Some g) = Inr m" "fraction m" "f < m" "m < g"
  using midpoint_ok[of f "Some g"] assms by (auto simp: mid_pre_def mid_post_def)

lemma key_after_ok:
  assumes "valid_key x"
  shows "\<exists>k. key_after x = Inr k \<and> x < k \<and> valid_key k"
  using assms
proof (rule valid_keyE)
  fix i f
  assume x: "x = i @ f" "wf_int i" "fraction f"
  note parts = get_integer_part_wf[OF x(2) fraction_ascii[OF x(3)]]
  obtain r where r: "increment_integer i = Inr r"
      "\<And>y. r = Some y \<Longrightarrow> wf_int y \<and> (\<forall>f g. i @ f < y @ g)"
    using increment_integer_ok[OF x(2)] by blast
  obtain m where m: "midpoint f None = Inr m" "fraction m" "f < m"
    using x(3) by (rule midpoint_fraction)
  show ?thesis
  proof (cases r)
    case None
    have "i @ f < i @ m" using m(3) by simp
    moreover from this have "valid_key (i @ m)"
      using x(2) m(2) valid_above by blast
    ultimately show ?thesis using x parts r(1) None m by (simp add: key_after_def)
  next
    case (Some y)
    with r have y: "wf_int y" "\<And>g. i @ f < y @ g" by auto
    then have "valid_key (y @ [])"
      using x(2) y(1) y(2)[of "[]"] valid_above[of i f y "[]"] by simp
    moreover have "x < y" using y(2)[of "[]"] x(1) by simp
    ultimately show ?thesis using Some x parts r(1) by (simp add: key_after_def)
  qed
qed

lemma key_before_ok:
  assumes "valid_key y"
  shows "\<exists>k. key_before y = Inr k \<and> k < y \<and> (valid_key k \<or> k = smallest_integer)"
  using assms
proof (rule valid_keyE)
  fix i f
  assume y: "y = i @ f" "wf_int i" "fraction f" "y \<noteq> smallest_integer"
  note parts = get_integer_part_wf[OF y(2) fraction_ascii[OF y(3)]]
  consider (least) "i = smallest_integer" | (frac) "i \<noteq> smallest_integer" "i < i @ f"
    | (int) "i \<noteq> smallest_integer" "\<not> i < i @ f" by blast
  then show ?thesis
  proof cases
    case least
    with y have "[] < f" by (cases f) auto
    then obtain m where m: "midpoint [] (Some f) = Inr m" "fraction m" "[] < m" "m < f"
      using midpoint_fractions[OF fraction_Nil y(3)] by blast
    from m(3) have "i < i @ m" by (intro lex_prefix) auto
    then have "valid_key (i @ m)" using least y(2) m(2) by (intro valid_after_least) auto
    with m y parts least show ?thesis by (simp add: key_before_def)
  next
    case frac
    have "smallest_integer < i @ []" using frac(1) smallest_integer_least[OF y(2)] by simp
    then have "valid_key (i @ [])" using y(2) by (intro valid_after_least) auto
    with frac y parts show ?thesis by (simp add: key_before_def)
  next
    case int
    then have "f = []" using lex_prefix[of f i] by blast
    obtain k where k: "decrement_integer i = Inr (Some k)" "wf_int k" "\<forall>f g. k @ f < i @ g"
      using decrement_integer_ok[OF y(2) int(1)] by blast
    have "k @ [] < i @ f" using k(3) by blast
    moreover have "valid_key (k @ []) \<or> k = smallest_integer"
      using smallest_integer_least[OF k(2)] k(2) valid_keyI[OF k(2), of "[]"] by auto
    ultimately show ?thesis using k y parts int by (simp add: key_before_def)
  qed
qed

lemma key_mid_ok:
  assumes "valid_key x" "valid_key y" "x < y"
  shows "\<exists>k. key_mid x y = Inr k \<and> x < k \<and> k < y \<and> valid_key k"
proof -
  obtain i f where x: "x = i @ f" "wf_int i" "fraction f" using assms(1) by (rule valid_keyE)
  obtain j g where y: "y = j @ g" "wf_int j" "fraction g" using assms(2) by (rule valid_keyE)
  note px = get_integer_part_wf[OF x(2) fraction_ascii[OF x(3)]]
  note py = get_integer_part_wf[OF y(2) fraction_ascii[OF y(3)]]
  have ord: "i < j \<or> i = j \<and> f < g" using assms(3) x y wf_int_less_iff by blast
  show ?thesis
  proof (cases "i = j")
    case True
    with ord have "f < g" by auto
    then obtain m where m: "midpoint f (Some g) = Inr m" "fraction m" "f < m" "m < g"
      using midpoint_fractions x(3) y(3) by blast
    have "i @ f < i @ m" using m(3) by simp
    then have "valid_key (i @ m)" using x(2) m(2) valid_above by blast
    with m x y px py True show ?thesis by (simp add: key_mid_def)
  next
    case False
    with ord have ij: "\<And>u v. i @ u < j @ v" using wf_int_less_iff[OF x(2) y(2)] by blast
    obtain r where r: "increment_integer i = Inr r"
        "\<And>k. r = Some k \<Longrightarrow> wf_int k \<and> (\<forall>f g. i @ f < k @ g)"
      using increment_integer_ok[OF x(2)] by blast
    have top: "r \<noteq> None"
      using increment_top[OF x(2)] r(1) ij y(2) by (metis append_Nil2)
    then obtain k where k: "r = Some k" "wf_int k" "\<And>f g. i @ f < k @ g" using r(2) by blast
    show ?thesis
    proof (cases "k < y")
      case True
      have "i @ f < k @ []" using k(3) by blast
      then have "valid_key (k @ [])" using x(2) k(2) valid_above fraction_Nil by blast
      with True k x y px py r(1) False k(3)[of f "[]"] show ?thesis by (simp add: key_mid_def)
    next
      case kept: False
      obtain m where m: "midpoint f None = Inr m" "fraction m" "f < m"
        using x(3) by (rule midpoint_fraction)
      have "i @ f < i @ m" using m(3) by simp
      then have "valid_key (i @ m)" using x(2) m(2) valid_above by blast
      with m kept k x y px py r(1) False ij[of m g] show ?thesis by (simp add: key_mid_def)
    qed
  qed
qed


lemma key_between_iff:
  "(\<exists>k. generate_key_between a b = Inr k) \<longleftrightarrow> bounds_ok a b"
proof
  assume "\<exists>k. generate_key_between a b = Inr k"
  then show "bounds_ok a b"
    by (auto simp: generate_key_between_def bounds_ok_def split: option.splits if_splits)
next
  assume ok: "bounds_ok a b"
  then have "\<exists>k. generate_key_between a b
      = (case a of None \<Rightarrow> (case b of None \<Rightarrow> Inr ''a0'' | Some y \<Rightarrow> key_before y)
         | Some x \<Rightarrow> (case b of None \<Rightarrow> key_after x | Some y \<Rightarrow> key_mid x y))"
    by (auto simp: generate_key_between_def bounds_ok_def split: option.splits)
  then show "\<exists>k. generate_key_between a b = Inr k"
    using ok key_before_ok key_after_ok key_mid_ok
    unfolding generate_key_between_def bounds_ok_def validate_bound_def
    by (fastforce split: option.splits)
qed

lemma key_between_strict:
  assumes "generate_key_between a b = Inr k"
  shows "over_bound a k \<and> under_bound b k \<and> (valid_key k \<or> a = None \<and> b \<noteq> None \<and> k = smallest_integer)"
proof -
  have ok: "bounds_ok a b" using assms key_between_iff by blast
  have a0: "valid_key ''a0''" by code_simp
  show ?thesis
  proof (cases a)
    case None
    with assms ok a0 show ?thesis
      using key_before_ok by (fastforce simp: generate_key_between_def bounds_ok_def validate_bound_def
          over_bound_def under_bound_def split: option.splits)
  next
    case (Some x)
    with assms ok show ?thesis
      using key_after_ok[of x] key_mid_ok[of x]
      by (fastforce simp: generate_key_between_def bounds_ok_def validate_bound_def
          over_bound_def under_bound_def split: option.splits if_splits)
  qed
qed


lemma key_between_total:
  "bounds_ok a b \<Longrightarrow> \<exists>k. generate_key_between a b = Inr k"
  using key_between_iff by blast

section \<open>Runs of keys\<close>

lemma keys_upward_sorted:
  "keys_upward n c = Inr ks \<Longrightarrow> length ks = n \<and> sorted_wrt (<) (c # ks)"
proof (induction n arbitrary: c ks)
  case (Suc n)
  then obtain c' rest where step: "generate_key_between (Some c) None = Inr c'"
      "keys_upward n c' = Inr rest" "ks = c' # rest"
    by auto
  have "c < c'" using key_between_strict[OF step(1)] by (simp add: over_bound_def)
  moreover have "length rest = n \<and> sorted_wrt (<) (c' # rest)" using Suc.IH step(2) by blast
  ultimately show ?case using step(3) by (auto intro: order_less_trans)
qed simp

lemma keys_downward_sorted:
  "keys_downward n c = Inr ks \<Longrightarrow> length ks = n \<and> sorted_wrt (>) (c # ks)"
proof (induction n arbitrary: c ks)
  case (Suc n)
  then obtain c' rest where step: "generate_key_between None (Some c) = Inr c'"
      "keys_downward n c' = Inr rest" "ks = c' # rest"
    by auto
  have "c' < c" using key_between_strict[OF step(1)] by (simp add: under_bound_def)
  moreover have "length rest = n \<and> sorted_wrt (>) (c' # rest)" using Suc.IH step(2) by blast
  ultimately show ?case using step(3) by (auto intro: order_less_trans)
qed simp

text \<open>What a run of keys between two bounds is to be.\<close>

definition run_of_keys :: "str option \<Rightarrow> str option \<Rightarrow> nat \<Rightarrow> str list \<Rightarrow> bool" where
  "run_of_keys a b n ks \<longleftrightarrow>
     length ks = n \<and> sorted_wrt (<) ks \<and> (\<forall>k \<in> set ks. over_bound a k \<and> under_bound b k)"

lemma run_of_keys_up:
  assumes "over_bound a c" "length ks = n" "sorted_wrt (<) (c # ks)"
  shows "run_of_keys a None (Suc n) (c # ks)"
  using assms by (auto simp: run_of_keys_def over_bound_def under_bound_def dest: order_less_trans)

lemma run_of_keys_down:
  assumes "under_bound b c" "length ks = n" "sorted_wrt (>) (c # ks)"
  shows "run_of_keys None b (Suc n) (rev (c # ks))"
proof -
  have "sorted_wrt (<) (rev (c # ks))"
    using assms(3) by (subst sorted_wrt_rev) (simp add: conversep.intros)
  moreover have "\<forall>k \<in> set (rev (c # ks)). over_bound None k \<and> under_bound b k"
    using assms by (auto simp: over_bound_def under_bound_def dest: order_less_trans)
  ultimately show ?thesis using assms(2) by (simp add: run_of_keys_def)
qed

lemma run_of_keys_join:
  assumes "run_of_keys a (Some c) m ls" "run_of_keys (Some c) b n rs" "over_bound a c" "under_bound b c"
  shows "run_of_keys a b (m + 1 + n) (ls @ [c] @ rs)"
proof -
  have ls: "\<forall>k \<in> set ls. over_bound a k \<and> k < c" and rs: "\<forall>k \<in> set rs. c < k \<and> under_bound b k"
    using assms(1,2) by (auto simp: run_of_keys_def over_bound_def under_bound_def)
  then have cross: "\<forall>x \<in> set ls. \<forall>y \<in> set rs. x < y" by (meson order_less_trans)
  have "\<forall>k \<in> set ls. under_bound b k" "\<forall>k \<in> set rs. over_bound a k"
    using ls rs assms(3,4) unfolding over_bound_def under_bound_def by (meson order_less_trans)+
  with assms ls rs cross show ?thesis
    by (auto simp: run_of_keys_def sorted_wrt_append)
qed

lemma n_keys_eqs:
  "generate_n_keys_between a b 0 = Inr []"
  "generate_n_keys_between a b (Suc 0) = and_then (generate_key_between a b) (\<lambda>k. Inr [k])"
  "Suc 0 < n \<Longrightarrow> generate_n_keys_between a None n =
     and_then (generate_key_between a None) (\<lambda>c.
     and_then (keys_upward (n - 1) c) (\<lambda>rest. Inr (c # rest)))"
  "Suc 0 < n \<Longrightarrow> generate_n_keys_between None (Some y) n =
     and_then (generate_key_between None (Some y)) (\<lambda>c.
     and_then (keys_downward (n - 1) c) (\<lambda>rest. Inr (rev (c # rest))))"
  "Suc 0 < n \<Longrightarrow> generate_n_keys_between (Some x) (Some y) n =
     and_then (generate_key_between (Some x) (Some y)) (\<lambda>c.
     and_then (generate_n_keys_between (Some x) (Some c) (n div 2)) (\<lambda>left.
     and_then (generate_n_keys_between (Some c) (Some y) (n - n div 2 - 1)) (\<lambda>right.
       Inr (left @ [c] @ right))))"
  by (subst generate_n_keys_between.simps; simp add: Let_def)+

lemma generate_n_keys_run:
  "generate_n_keys_between a b n = Inr ks \<Longrightarrow> run_of_keys a b n ks"
proof (induction a b n arbitrary: ks rule: generate_n_keys_between.induct)
  case (1 a b n)
  consider (none) "n = 0" | (one) "n = 1" | (up) "n > 1" "b = None"
    | (down) "n > 1" "b \<noteq> None" "a = None" | (both) "n > 1" "b \<noteq> None" "a \<noteq> None"
    by (cases n rule: nat.exhaust) auto
  then show ?case
  proof cases
    case none
    with "1.prems" show ?thesis by (simp add: n_keys_eqs run_of_keys_def)
  next
    case one
    with "1.prems" obtain k where "ks = [k]" "generate_key_between a b = Inr k"
      by (auto simp: n_keys_eqs)
    then show ?thesis using key_between_strict one by (auto simp: run_of_keys_def)
  next
    case up
    with "1.prems" obtain c rest where "generate_key_between a b = Inr c"
        "keys_upward (n - 1) c = Inr rest" "ks = c # rest"
      by (auto simp: n_keys_eqs)
    then show ?thesis
      using up key_between_strict[of a b c] keys_upward_sorted[of "n - 1" c rest]
        run_of_keys_up[of a c rest "n - 1"] by simp
  next
    case down
    with "1.prems" obtain c rest where "generate_key_between a b = Inr c"
        "keys_downward (n - 1) c = Inr rest" "ks = rev (c # rest)"
      by (auto simp: n_keys_eqs)
    then show ?thesis
      using down key_between_strict[of a b c] keys_downward_sorted[of "n - 1" c rest]
        run_of_keys_down[of b c rest "n - 1"] by simp
  next
    case both
    then have guards: "n \<noteq> 0" "n \<noteq> 1" by auto
    with both "1.prems" obtain c ls rs where c: "generate_key_between a b = Inr c"
      and ls: "generate_n_keys_between a (Some c) (n div 2) = Inr ls"
      and rs: "generate_n_keys_between (Some c) b (n - n div 2 - 1) = Inr rs"
      and ks: "ks = ls @ [c] @ rs"
      by (auto simp: n_keys_eqs Let_def)
    have "run_of_keys a (Some c) (n div 2) ls"
      using "1.IH"(1)[OF guards both(2,3) refl c ls] .
    moreover have "run_of_keys (Some c) b (n - n div 2 - 1) rs"
      using "1.IH"(2)[OF guards both(2,3) refl c ls rs] .
    ultimately have "run_of_keys a b (n div 2 + 1 + (n - n div 2 - 1)) ks"
      using key_between_strict[OF c] ks run_of_keys_join by blast
    moreover have "n div 2 + 1 + (n - n div 2 - 1) = n" using both(1) by linarith
    ultimately show ?thesis by simp
  qed
qed

lemma bounds_okI_up: "valid_key c \<Longrightarrow> bounds_ok (Some c) None"
  by (simp add: bounds_ok_def validate_bound_def)

lemma key_between_bounds:
  assumes "generate_key_between a b = Inr c" "a \<noteq> None \<or> b = None"
  shows "valid_key c" "bounds_ok a (Some c)" "bounds_ok (Some c) b"
proof -
  have ok: "bounds_ok a b" using assms(1) key_between_iff by blast
  note strict = key_between_strict[OF assms(1)]
  show c: "valid_key c" using strict assms(2) by auto
  with ok strict show "bounds_ok a (Some c)" "bounds_ok (Some c) b"
    by (auto simp: bounds_ok_def validate_bound_def over_bound_def under_bound_def)
qed

lemma keys_upward_total: "valid_key c \<Longrightarrow> \<exists>ks. keys_upward n c = Inr ks"
proof (induction n arbitrary: c)
  case (Suc n)
  obtain c' where c': "generate_key_between (Some c) None = Inr c'"
    using key_between_total[OF bounds_okI_up[OF Suc.prems]] by blast
  then have "valid_key c'" using key_between_bounds(1) by blast
  then obtain ks where "keys_upward n c' = Inr ks" using Suc.IH by blast
  with c' show ?case by simp
qed simp

lemma generate_n_keys_total:
  "bounds_ok a b \<Longrightarrow> a \<noteq> None \<or> b = None \<Longrightarrow> \<exists>ks. generate_n_keys_between a b n = Inr ks"
proof (induction a b n rule: generate_n_keys_between.induct)
  case (1 a b n)
  obtain c where c: "generate_key_between a b = Inr c" using key_between_total "1.prems"(1) by blast
  note between = key_between_bounds[OF c "1.prems"(2)]
  consider (none) "n = 0" | (one) "n = 1" | (up) "n > 1" "b = None"
    | (both) "n > 1" "b \<noteq> None" "a \<noteq> None"
    using "1.prems"(2) by (cases n rule: nat.exhaust) auto
  then show ?case
  proof cases
    case none
    then show ?thesis by (simp add: n_keys_eqs)
  next
    case one
    with c show ?thesis by (simp add: n_keys_eqs)
  next
    case up
    obtain ks where "keys_upward (n - 1) c = Inr ks" using keys_upward_total between(1) by blast
    with up c show ?thesis by (simp add: n_keys_eqs)
  next
    case both
    then have guards: "n \<noteq> 0" "n \<noteq> 1" by auto
    obtain ls where ls: "generate_n_keys_between a (Some c) (n div 2) = Inr ls"
      using "1.IH"(1)[OF guards both(2,3) refl c between(2)] both(3) by blast
    obtain rs where "generate_n_keys_between (Some c) b (n - n div 2 - 1) = Inr rs"
      using "1.IH"(2)[OF guards both(2,3) refl c ls between(3)] by blast
    with ls c both guards show ?thesis
      by (auto simp: n_keys_eqs Let_def)
  qed
qed

end
