(* ===== verification/OrderKeys.thy ===== *)
theory OrderKeys
  imports Fractional_Laws Undo_Laws
begin

text \<open>
  The scene-aware order-key surface at the end of \<open>fractional.rs\<close>: the key of a new object
  on top or at the back, and the one-step reorder. \<open>unwrap_or_else\<close> catches an \<open>Err\<close> but
  not a panic.
\<close>

definition is_panic :: "key_error \<Rightarrow> bool" where
  "is_panic e = (case e of PanicSlice _ _ \<Rightarrow> True | _ \<Rightarrow> False)"

definition or_first_key :: "key_error + str \<Rightarrow> key_error + str" where
  "or_first_key m =
     (case m of Inr k \<Rightarrow> Inr k
      | Inl e \<Rightarrow> if is_panic e then Inl e else generate_key_between None None)"

definition orders :: "scene \<Rightarrow> str list" where
  "orders sc = map o_order (objects sc)"

definition next_order_key :: "scene \<Rightarrow> key_error + str" where
  "next_order_key sc =
     (case orders sc of
        [] \<Rightarrow> generate_key_between None None
      | k # ks \<Rightarrow> or_first_key (generate_key_between (Some (foldl max k ks)) None))"

definition back_order_key :: "scene \<Rightarrow> key_error + str" where
  "back_order_key sc =
     (case orders sc of
        [] \<Rightarrow> generate_key_between None None
      | k # ks \<Rightarrow> or_first_key (generate_key_between None (Some (foldl min k ks))))"

datatype reorder_direction = Forward | Backward

text \<open>\<open>checked_add(1)\<close> and \<open>checked_sub(1)\<close> on the index.\<close>

fun step_index :: "reorder_direction \<Rightarrow> nat \<Rightarrow> nat option" where
  "step_index Forward i = Some (Suc i)"
| "step_index Backward i = (if i = 0 then None else Some (i - 1))"

text \<open>\<open>sort_by\<close> is stable, as is \<open>sort_key\<close>.\<close>

definition paint_order :: "scene \<Rightarrow> object list" where
  "paint_order sc = sort_key o_order (objects sc)"

definition reorder_step_ops ::
    "scene \<Rightarrow> object_id \<Rightarrow> reorder_direction \<Rightarrow> object_op list option" where
  "reorder_step_ops sc oid dir =
     (let sorted = paint_order sc in
      case position (\<lambda>ob. o_id ob = oid) sorted of
        None \<Rightarrow> None
      | Some i \<Rightarrow>
          (case step_index dir i of
             None \<Rightarrow> None
           | Some j \<Rightarrow>
               if j < length sorted
               then Some [Reorder (o_id (sorted ! i)) (o_order (sorted ! j)),
                          Reorder (o_id (sorted ! j)) (o_order (sorted ! i))]
               else None))"

section \<open>Laws of the order keys\<close>

text \<open>
  A key minted for the top of a scene with valid keys is above all of them, one for the back
  is below all of them, and a one-step reorder exchanges two neighbours of the paint order.
\<close>

lemma foldl_max: "foldl max (k :: str) ks \<in> insert k (set ks) \<and> (\<forall>x \<in> insert k (set ks). x \<le> foldl max k ks)"
proof (induction ks arbitrary: k)
  case (Cons a ks)
  have "k \<le> max k a" "a \<le> max k a" "max k a = k \<or> max k a = a" by (auto simp: max_def)
  then show ?case using Cons[of "max k a"] by (auto intro: order_trans)
qed simp

lemma foldl_min: "foldl min (k :: str) ks \<in> insert k (set ks) \<and> (\<forall>x \<in> insert k (set ks). foldl min k ks \<le> x)"
proof (induction ks arbitrary: k)
  case (Cons a ks)
  have "min k a \<le> k" "min k a \<le> a" "min k a = k \<or> min k a = a" by (auto simp: min_def)
  then show ?case using Cons[of "min k a"] by (auto intro: order_trans)
qed simp

lemma first_key: "generate_key_between None None = Inr ''a0''" "valid_key ''a0''"
  by (simp_all add: generate_key_between_def validate_bound_def) code_simp

lemma next_order_key_top:
  assumes "\<forall>k \<in> set (orders sc). valid_key k"
  shows "\<exists>k. next_order_key sc = Inr k \<and> valid_key k \<and> (\<forall>x \<in> set (orders sc). x < k)"
proof (cases "orders sc")
  case Nil
  then show ?thesis by (simp add: next_order_key_def first_key)
next
  case (Cons k ks)
  let ?m = "foldl max k ks"
  have m: "?m \<in> set (orders sc)" "\<forall>x \<in> set (orders sc). x \<le> ?m"
    using foldl_max[of k ks] Cons by auto
  then have ok: "bounds_ok (Some ?m) None" using assms by (intro bounds_okI_up) auto
  then obtain r where r: "generate_key_between (Some ?m) None = Inr r"
    using key_between_total by blast
  then have "?m < r" "valid_key r"
    using key_between_strict[OF r] by (auto simp: over_bound_def)
  then show ?thesis
    using m(2) r Cons by (auto simp: next_order_key_def or_first_key_def intro: order_le_less_trans)
qed

lemma back_order_key_bottom:
  assumes "\<forall>k \<in> set (orders sc). valid_key k"
  shows "\<exists>k. back_order_key sc = Inr k \<and> (valid_key k \<or> k = smallest_integer) \<and>
    (\<forall>x \<in> set (orders sc). k < x)"
proof (cases "orders sc")
  case Nil
  then show ?thesis by (simp add: back_order_key_def first_key)
next
  case (Cons k ks)
  let ?m = "foldl min k ks"
  have m: "?m \<in> set (orders sc)" "\<forall>x \<in> set (orders sc). ?m \<le> x"
    using foldl_min[of k ks] Cons by auto
  then have ok: "bounds_ok None (Some ?m)" using assms by (simp add: bounds_ok_def validate_bound_def)
  then obtain r where r: "generate_key_between None (Some ?m) = Inr r"
    using key_between_total by blast
  then have "r < ?m" "valid_key r \<or> r = smallest_integer"
    using key_between_strict[OF r] by (auto simp: under_bound_def)
  then show ?thesis
    using m(2) r Cons by (auto simp: back_order_key_def or_first_key_def intro: order_less_le_trans)
qed

section \<open>The one-step reorder\<close>

definition swap_at :: "nat \<Rightarrow> nat \<Rightarrow> 'a list \<Rightarrow> 'a list" where
  "swap_at i j xs = xs[i := xs ! j, j := xs ! i]"

lemma paint_order_facts:
  "mset (paint_order sc) = mset (objects sc)" "set (paint_order sc) = set (objects sc)"
  "length (paint_order sc) = length (objects sc)" "sorted (map o_order (paint_order sc))"
  by (simp_all add: paint_order_def)

lemma sorted_lists_unique:
  assumes "mset xs = mset ys" "sorted (map f xs)" "sorted (map f ys)" "distinct (map f xs)"
  shows "xs = ys"
proof -
  have "map f xs = map f ys"
    using assms by (metis mset_map properties_for_sort)
  moreover have "set xs = set ys" using assms(1) by (rule mset_eq_setD)
  ultimately show ?thesis using assms(4) by (intro map_inj_on[of f]) (auto simp: distinct_map)
qed

lemma undoes_Reorder:
  assumes "distinct (ids sc)" "oid \<in> set (ids sc)"
  shows "undoes lm (Reorder oid k) sc
    (sc\<lparr>objects := map (\<lambda>ob. if o_id ob = oid then ob\<lparr>o_order := k\<rparr> else ob) (objects sc)\<rparr>)"
proof -
  obtain idx where i: "index_of sc oid = Some idx"
    using assms(2) index_of_None by (cases "index_of sc oid") auto
  then show ?thesis
    by (simp add: undoes_def apply_reorder_def with_index_simps modify_at_map[OF assms(1) i])
qed

definition swap_orders :: "object \<Rightarrow> object \<Rightarrow> object \<Rightarrow> object" where
  "swap_orders a b ob =
     (if o_id ob = o_id a then ob\<lparr>o_order := o_order b\<rparr>
      else if o_id ob = o_id b then ob\<lparr>o_order := o_order a\<rparr> else ob)"

lemma swap_orders_id [simp]: "o_id (swap_orders a b ob) = o_id ob"
  by (simp add: swap_orders_def)

lemma runs_swap_orders:
  assumes "distinct (ids sc)" "a \<in> set (objects sc)" "b \<in> set (objects sc)" "o_id a \<noteq> o_id b"
  shows "runs lm sc [Reorder (o_id a) (o_order b), Reorder (o_id b) (o_order a)]
    (sc\<lparr>objects := map (swap_orders a b) (objects sc)\<rparr>)"
proof -
  let ?h = "\<lambda>ob :: object. if o_id ob = o_id a then ob\<lparr>o_order := o_order b\<rparr> else ob"
  let ?sc1 = "sc\<lparr>objects := map ?h (objects sc)\<rparr>"
  have ids: "ids ?sc1 = ids sc" by (auto simp: ids_def)
  have s1: "undoes lm (Reorder (o_id a) (o_order b)) sc ?sc1"
    using assms by (intro undoes_Reorder) (auto simp: ids_def)
  have s2: "undoes lm (Reorder (o_id b) (o_order a)) ?sc1
      (?sc1\<lparr>objects := map (\<lambda>ob. if o_id ob = o_id b then ob\<lparr>o_order := o_order a\<rparr> else ob) (objects ?sc1)\<rparr>)"
  proof (rule undoes_Reorder)
    show "distinct (ids ?sc1)" "o_id b \<in> set (ids ?sc1)"
      unfolding ids using assms by (auto simp: ids_def)
  qed
  have eq: "?sc1\<lparr>objects := map (\<lambda>ob. if o_id ob = o_id b then ob\<lparr>o_order := o_order a\<rparr> else ob) (objects ?sc1)\<rparr> =
      sc\<lparr>objects := map (swap_orders a b) (objects sc)\<rparr>"
    using assms(4) by (simp add: swap_orders_def comp_def)
  show ?thesis unfolding runs_Cons runs_Nil using s1 s2[unfolded eq] by blast
qed

text \<open>The two positions a step exchanges.\<close>

definition steps :: "scene \<Rightarrow> object_id \<Rightarrow> reorder_direction \<Rightarrow> nat \<Rightarrow> nat \<Rightarrow> bool" where
  "steps sc oid dir i j \<longleftrightarrow>
     position (\<lambda>ob. o_id ob = oid) (paint_order sc) = Some i \<and> step_index dir i = Some j \<and>
     j < length (paint_order sc)"

lemma reorder_steps:
  "reorder_step_ops sc oid dir = Some ops \<longleftrightarrow> (\<exists>i j. steps sc oid dir i j \<and>
     ops = [Reorder (o_id (paint_order sc ! i)) (o_order (paint_order sc ! j)),
            Reorder (o_id (paint_order sc ! j)) (o_order (paint_order sc ! i))])"
  by (auto simp: reorder_step_ops_def steps_def Let_def split: option.splits)

lemma step_index_neq: "step_index dir i = Some j \<Longrightarrow> i \<noteq> j"
  by (cases dir) (auto split: if_split_asm)

lemma paint_order_swapped:
  assumes "distinct (ids sc)" "distinct (orders sc)" "i < length (objects sc)" "j < length (objects sc)" "i \<noteq> j"
  shows "map o_id (paint_order (sc\<lparr>objects := map (swap_orders (paint_order sc ! i) (paint_order sc ! j)) (objects sc)\<rparr>)) =
    swap_at i j (map o_id (paint_order sc))"
proof -
  let ?S = "paint_order sc"
  let ?a = "?S ! i" and ?b = "?S ! j"
  let ?h = "swap_orders ?a ?b"
  let ?sc = "sc\<lparr>objects := map ?h (objects sc)\<rparr>"
  let ?T = "swap_at i j (map ?h ?S)"
  have l: "length ?S = length (objects sc)" by (simp add: paint_order_facts)
  have dS: "distinct (map o_id ?S)" "distinct (map o_order ?S)"
    using assms(1,2) paint_order_facts(1)[of sc]
    by (metis ids_def orders_def mset_map mset_eq_imp_distinct_iff)+
  have ne: "o_id ?a \<noteq> o_id ?b"
    using dS(1) assms(3-5) l by (simp add: distinct_conv_nth)
  have same: "map o_order ?T = map o_order ?S"
  proof (rule nth_equalityI)
    fix k assume "k < length (map o_order ?T)"
    then have k: "k < length ?S" by (simp add: swap_at_def)
    have "o_id (?S ! k) = o_id ?a \<longleftrightarrow> k = i" "o_id (?S ! k) = o_id ?b \<longleftrightarrow> k = j"
      using dS(1) k assms(3,4) l by (auto simp: distinct_conv_nth)
    then show "map o_order ?T ! k = map o_order ?S ! k"
      using k assms(3-5) l ne by (auto simp: swap_at_def swap_orders_def nth_list_update)
  qed (simp add: swap_at_def)
  have mset: "mset ?T = mset (objects ?sc)"
  proof -
    have "mset ?T = mset (map ?h ?S)"
      unfolding swap_at_def using assms(3,4) l
      by (subst list_update_swap[OF assms(5)]) (simp add: mset_swap del: nth_map mset_map)
    then show ?thesis using paint_order_facts(1)[of sc] by simp
  qed
  have "?T = paint_order ?sc"
    by (rule sorted_lists_unique[where f = o_order])
      (use mset same dS(2) paint_order_facts in \<open>simp_all del: map_map\<close>)
  moreover have "map o_id ?T = swap_at i j (map o_id ?S)"
    using assms(3,4) l by (simp add: swap_at_def map_update comp_def)
  ultimately show ?thesis by simp
qed

end
