(* ===== verification/Lww.thy ===== *)
theory Lww
  imports Undo_Laws
begin

text \<open>
  Per-property last-writer-wins: the register and the store of \<open>lww.rs\<close>, and the gate
  \<open>apply_object_op_lww\<close> of \<open>kernel/apply.rs\<close> that skips stale writes.
\<close>

section \<open>The register\<close>

record lww_entry =
  le_value :: json
  le_seq :: i64

record lww_token =
  lt_revision :: i64
  lt_seq :: i64

definition wins_over :: "lww_token \<Rightarrow> lww_token \<Rightarrow> bool" where
  "wins_over a b \<longleftrightarrow> sint (lt_seq b) < sint (lt_seq a)"

definition lww_merge_property :: "lww_entry option \<Rightarrow> lww_entry \<Rightarrow> bool" where
  "lww_merge_property cur incoming =
     (case cur of None \<Rightarrow> True | Some c \<Rightarrow> sint (le_seq c) < sint (le_seq incoming))"

section \<open>The store\<close>

text \<open>\<open>BTreeMap<String, BTreeMap<String, LwwEntry>>\<close>.\<close>

type_synonym property_store = "object_id \<rightharpoonup> (str \<rightharpoonup> lww_entry)"

definition store_new :: property_store where
  "store_new = Map.empty"

definition store_object :: "property_store \<Rightarrow> object_id \<Rightarrow> (str \<rightharpoonup> lww_entry) option" where
  "store_object st oid = st oid"

definition store_get :: "property_store \<Rightarrow> object_id \<Rightarrow> str \<Rightarrow> lww_entry option" where
  "store_get st oid prop = Option.bind (st oid) (\<lambda>props. props prop)"

definition store_get_value :: "property_store \<Rightarrow> object_id \<Rightarrow> str \<Rightarrow> json option" where
  "store_get_value st oid prop = map_option le_value (store_get st oid prop)"

text \<open>\<open>entry(id).or_default()\<close> creates the object's map even when the write loses.\<close>

definition store_apply ::
    "property_store \<Rightarrow> object_id \<Rightarrow> str \<Rightarrow> json \<Rightarrow> i64 \<Rightarrow> property_store \<times> bool" where
  "store_apply st oid prop v seq =
     (let incoming = \<lparr>le_value = v, le_seq = seq\<rparr>;
          props = (case st oid of None \<Rightarrow> Map.empty | Some m \<Rightarrow> m)
      in if lww_merge_property (props prop) incoming
         then (st(oid \<mapsto> props(prop \<mapsto> incoming)), True)
         else (st(oid \<mapsto> props), False))"

section \<open>The gate on operations\<close>

definition style_props :: "object_id \<Rightarrow> (bool \<times> str) list \<Rightarrow> (object_id \<times> str) list" where
  "style_props oid flags = map (\<lambda>(_, p). (oid, p)) (filter fst flags)"

fun touched_properties :: "object_op \<Rightarrow> (object_id \<times> str) list" where
  "touched_properties (EditGeometry oid _) = [(oid, ''geometry'')]"
| "touched_properties (SetTransform oid _) = [(oid, ''transform'')]"
| "touched_properties (SetStyle oid fe se) =
     style_props oid [(fe \<noteq> None, ''fill''), (se \<noteq> None, ''stroke'')]"
| "touched_properties (SetText oid _) = [(oid, ''text'')]"
| "touched_properties (SetAnchor oid _) = [(oid, ''anchors'')]"
| "touched_properties (SetLayout oid _) = [(oid, ''layout'')]"
| "touched_properties (SetClip oid _) = [(oid, ''clip'')]"
| "touched_properties (SetSizing oid _) = [(oid, ''sizing'')]"
| "touched_properties (SetMeta oid n h l) =
     style_props oid [(n \<noteq> None, ''name''), (h \<noteq> None, ''hidden''), (l \<noteq> None, ''locked'')]"
| "touched_properties (AddComment oid _) = [(oid, ''comments'')]"
| "touched_properties (SetComments oid _) = [(oid, ''comments'')]"
| "touched_properties (SetTags oid _) = [(oid, ''tags'')]"
| "touched_properties (Reparent oid _ _) = [(oid, ''parent''), (oid, ''order'')]"
| "touched_properties (Reorder oid _) = [(oid, ''order'')]"
| "touched_properties _ = []"

text \<open>\<open>i64::try_from(seq).unwrap_or(i64::MAX)\<close>.\<close>

definition seq_i64 :: "u64 \<Rightarrow> i64" where
  "seq_i64 seq = (if uint seq < 2 ^ 63 then seq else 0x7FFFFFFFFFFFFFFF)"

definition is_stale :: "property_store \<Rightarrow> i64 \<Rightarrow> object_id \<times> str \<Rightarrow> bool" where
  "is_stale st seq p =
     (case store_get st (fst p) (snd p) of
        None \<Rightarrow> False | Some e \<Rightarrow> sint seq \<le> sint (le_seq e))"

definition record_seq :: "i64 \<Rightarrow> property_store \<Rightarrow> object_id \<times> str \<Rightarrow> property_store" where
  "record_seq seq st p = fst (store_apply st (fst p) (snd p) JNull seq)"

definition apply_object_op_lww ::
    "libm \<Rightarrow> scene \<Rightarrow> property_store \<Rightarrow> object_op \<Rightarrow> u64 \<Rightarrow>
     scene \<times> property_store \<times> (apply_error + object_op)" where
  "apply_object_op_lww lm sc st op seq =
     (let s = seq_i64 seq; props = touched_properties op in
      if \<exists>p \<in> set props. is_stale st s p then (sc, st, Inr (Batch []))
      else case apply_object_op lm sc op of
             (sc1, Inl e) \<Rightarrow> (sc1, st, Inl e)
           | (sc1, Inr iv) \<Rightarrow> (sc1, foldl (record_seq s) st props, Inr iv))"

section \<open>Laws of the merge\<close>

text \<open>
  The contract of a last-writer-wins store, as a locale: a write takes effect exactly when
  its rank beats the entry it finds. In it, what a sequence of writes leaves behind is the
  entry of the highest rank, so replicas that saw the same writes in any order agree. The
  store of \<open>lww.rs\<close> is an interpretation.
\<close>

section \<open>The contract\<close>

locale lww_store =
  fixes get :: "'s \<Rightarrow> 'k \<Rightarrow> 'e option"
    and put :: "'s \<Rightarrow> 'k \<Rightarrow> 'e \<Rightarrow> 's"
    and rank :: "'e \<Rightarrow> int"
  assumes get_put:
    "get (put s k e) k' =
       (if k' = k then Some (case get s k of None \<Rightarrow> e | Some c \<Rightarrow> if rank c < rank e then e else c)
        else get s k')"
begin

definition put_all :: "('k \<times> 'e) list \<Rightarrow> 's \<Rightarrow> 's" where
  "put_all ws s = fold (\<lambda>(k, e) s. put s k e) ws s"

definition entries :: "'s \<Rightarrow> ('k \<times> 'e) list \<Rightarrow> 'k \<Rightarrow> 'e set" where
  "entries s ws k = set_option (get s k) \<union> {e. (k, e) \<in> set ws}"

lemma put_all_Cons: "put_all ((k, e) # ws) s = put_all ws (put s k e)"
  by (simp add: put_all_def)

lemma put_all_None: "get (put_all ws s) k = None \<longleftrightarrow> entries s ws k = {}"
  by (induction ws arbitrary: s)
    (auto simp: put_all_def entries_def get_put split: if_split_asm)

lemma put_all_wins:
  "get (put_all ws s) k = Some e \<Longrightarrow> e \<in> entries s ws k \<and> (\<forall>x \<in> entries s ws k. rank x \<le> rank e)"
proof (induction ws arbitrary: s)
  case Nil
  then show ?case by (simp add: put_all_def entries_def)
next
  case (Cons w ws)
  obtain k' x where w: "w = (k', x)" by (cases w)
  have ih: "e \<in> entries (put s k' x) ws k" "\<forall>y \<in> entries (put s k' x) ws k. rank y \<le> rank e"
    using Cons.IH[of "put s k' x"] Cons.prems by (auto simp: w put_all_Cons)
  show ?case
  proof (cases "k' = k")
    case False
    then have "entries (put s k' x) ws k = entries s (w # ws) k"
      by (auto simp: entries_def get_put w)
    with ih show ?thesis by simp
  next
    case True
    show ?thesis
    proof (cases "get s k")
      case None
      then have "entries (put s k' x) ws k = entries s (w # ws) k"
        using True by (auto simp: entries_def get_put w)
      with ih show ?thesis by simp
    next
      case (Some c)
      let ?m = "if rank c < rank x then x else c"
      have 1: "entries (put s k' x) ws k = insert ?m {e. (k, e) \<in> set ws}"
        and 2: "entries s (w # ws) k = {c, x} \<union> {e. (k, e) \<in> set ws}"
        using True Some by (auto simp: entries_def get_put w)
      have "rank c \<le> rank ?m" "rank x \<le> rank ?m" by auto
      moreover have "rank ?m \<le> rank e" using ih(2) 1 by blast
      ultimately show ?thesis using ih unfolding 1 2 by (auto split: if_split_asm)
    qed
  qed
qed

text \<open>Two entries for one key never tie on their rank.\<close>

definition ranked :: "'s \<Rightarrow> ('k \<times> 'e) list \<Rightarrow> bool" where
  "ranked s ws \<longleftrightarrow> (\<forall>k. inj_on rank (entries s ws k))"

lemma converges:
  assumes "ranked s ws" "set ws = set ws'"
  shows "get (put_all ws s) = get (put_all ws' s)"
proof
  fix k
  have same: "entries s ws k = entries s ws' k" using assms(2) by (simp add: entries_def)
  show "get (put_all ws s) k = get (put_all ws' s) k"
  proof (cases "get (put_all ws s) k")
    case None
    then show ?thesis using put_all_None[of ws s k] put_all_None[of ws' s k] same by simp
  next
    case (Some e)
    then obtain e' where e': "get (put_all ws' s) k = Some e'"
      using put_all_None[of ws s k] put_all_None[of ws' s k] same
      by (cases "get (put_all ws' s) k") auto
    have "rank e \<le> rank e'" "rank e' \<le> rank e"
      using put_all_wins[OF Some] put_all_wins[OF e'] same by blast+
    then have "rank e = rank e'" by (rule order_antisym)
    then have "e = e'"
      using put_all_wins[OF Some] put_all_wins[OF e'] assms(1) same
      by (auto simp: ranked_def dest: inj_onD)
    then show ?thesis using Some e' by simp
  qed
qed

lemma idempotent: "rank e \<le> rank c \<Longrightarrow> get s k = Some c \<Longrightarrow> get (put s k e) = get s"
  by (auto simp: get_put fun_eq_iff)

end

section \<open>The property store\<close>

definition entry_at :: "property_store \<Rightarrow> object_id \<times> str \<Rightarrow> lww_entry option" where
  "entry_at st p = store_get st (fst p) (snd p)"

definition write_at :: "property_store \<Rightarrow> object_id \<times> str \<Rightarrow> lww_entry \<Rightarrow> property_store" where
  "write_at st p e = fst (store_apply st (fst p) (snd p) (le_value e) (le_seq e))"

lemma entry_at_write_at:
  "entry_at (write_at st p e) p' =
     (if p' = p then Some (case entry_at st p of None \<Rightarrow> e
        | Some c \<Rightarrow> if sint (le_seq c) < sint (le_seq e) then e else c)
      else entry_at st p')"
  by (cases p; cases p')
    (auto simp: entry_at_def write_at_def store_get_def store_apply_def Let_def lww_merge_property_def
      split: option.splits)

interpretation store: lww_store entry_at write_at "\<lambda>e. sint (le_seq e)"
  by unfold_locales (rule entry_at_write_at)

section \<open>The gate\<close>

lemma record_seq_write: "record_seq s st p = write_at st p \<lparr>le_value = JNull, le_seq = s\<rparr>"
  by (simp add: record_seq_def write_at_def)

lemma is_stale_entry:
  "is_stale st s p \<longleftrightarrow> (\<exists>e. entry_at st p = Some e \<and> sint s \<le> sint (le_seq e))"
  by (auto simp: is_stale_def entry_at_def split: option.splits)

lemma stale_mono: "is_stale st s p \<Longrightarrow> sint s' \<le> sint s \<Longrightarrow> is_stale st s' p"
  by (auto simp: is_stale_entry)

lemma record_keeps_stale: "is_stale st s p \<Longrightarrow> is_stale (record_seq s' st q) s p"
  by (auto simp: is_stale_entry record_seq_write entry_at_write_at)

lemma record_makes_stale: "is_stale (record_seq s st p) s p"
  by (auto simp: is_stale_entry record_seq_write entry_at_write_at split: option.splits)

lemma recorded_stale: "p \<in> set props \<Longrightarrow> is_stale (foldl (record_seq s) st props) s p"
proof (induction props arbitrary: st)
  case (Cons q props)
  have keep: "is_stale (foldl (record_seq s) st' ps) s p" if "is_stale st' s p" for st' ps
    using that by (induction ps arbitrary: st') (auto intro: record_keeps_stale)
  show ?case
  proof (cases "p = q")
    case True
    then show ?thesis using keep[OF record_makes_stale] by simp
  next
    case False
    then show ?thesis using Cons by simp
  qed
qed simp

lemma lww_stale_skips:
  "\<exists>p \<in> set (touched_properties op). is_stale st (seq_i64 seq) p \<Longrightarrow>
   apply_object_op_lww lm sc st op seq = (sc, st, Inr (Batch []))"
  by (simp add: apply_object_op_lww_def Let_def)

lemma lww_fresh_applies:
  "\<not> (\<exists>p \<in> set (touched_properties op). is_stale st (seq_i64 seq) p) \<Longrightarrow>
   apply_object_op_lww lm sc st op seq =
     (case apply_object_op lm sc op of (sc1, Inl e) \<Rightarrow> (sc1, st, Inl e)
      | (sc1, Inr iv) \<Rightarrow> (sc1, foldl (record_seq (seq_i64 seq)) st (touched_properties op), Inr iv))"
  by (simp add: apply_object_op_lww_def Let_def)

text \<open>A sequence of writes, applied in order.\<close>

definition apply_writes :: "property_store \<Rightarrow> ((object_id \<times> str) \<times> lww_entry) list \<Rightarrow> property_store" where
  "apply_writes st ws = fold (\<lambda>(p, e) st. write_at st p e) ws st"

end
