(* ===== verification/Samples.thy ===== *)
theory Samples
  imports Undo_Laws OrderKeys Lww
begin

text \<open>
  Concrete values for the witnesses: a math library that always answers zero and a scene of
  two objects, an open line \<open>a\<close> and a drawing \<open>b\<close> of two contours whose first node
  \<open>a\<close> is anchored to.
\<close>

definition zero_libm :: libm where
  "zero_libm = \<lparr>sin_f = (\<lambda>_. 0), cos_f = (\<lambda>_. 0), tan_f = (\<lambda>_. 0),
     atan2_f = (\<lambda>_ _. 0), hypot_f = (\<lambda>_ _. 0)\<rparr>"

definition line_a :: geometry where
  "line_a = geometry_from_subpaths
     [\<lparr>sp_closed = False, sp_nodes = [corner 0 0, corner 80 (-8)]\<rparr>] EvenOdd"

definition two_contours :: geometry where
  "two_contours = geometry_from_subpaths
     [\<lparr>sp_closed = True, sp_nodes = [corner 0 0, corner 80 0, corner 80 80]\<rparr>,
      \<lparr>sp_closed = False, sp_nodes = [corner 8 8, corner 16 8]\<rparr>] NonZero"

definition object_a :: object where
  "object_a = (object_new ''a'' ''a0'' line_a)
     \<lparr>o_anchors := [\<lparr>a_node = 0, a_target = ''b'', a_at = \<lparr>l_x = 8, l_y = 8\<rparr>\<rparr>]\<rparr>"

definition object_b :: object where
  "object_b = object_new ''b'' ''a1'' two_contours"

definition sample :: scene where
  "sample = scene_default\<lparr>objects := [object_a, object_b]\<rparr>"

lemma line_a_ok: "geometry_ok line_a"
  unfolding line_a_def
  by (rule geometry_from_subpaths_ok) (auto simp: canonical_def corner_def drawable_def min_nodes_def)

lemma two_contours_ok: "geometry_ok two_contours"
  unfolding two_contours_def
  by (rule geometry_from_subpaths_ok) (auto simp: canonical_def corner_def drawable_def min_nodes_def)

lemma sample_ok: "scene_ok sample"
  by (simp add: scene_ok_def sample_def ids_def object_a_def object_b_def object_new_def line_a_ok
      two_contours_ok)

lemma sample_ready: "undo_ready sample"
proof -
  have "parent_rel sample = {}"
    by (auto simp: parent_rel_def sample_def object_a_def object_b_def object_new_def)
  moreover have "anchors_resolved sample"
    by (simp add: anchors_resolved_def has_object_def sample_def object_a_def object_b_def object_new_def)
  moreover have "\<forall>ob \<in> set (objects sample). fields_valid ob"
    by (simp add: fields_valid_def sample_def object_a_def object_b_def object_new_def)
  ultimately show ?thesis using sample_ok by (simp add: undo_ready_def acyclic_def)
qed

section \<open>Evaluation on the sample\<close>

lemma sample_objects: "objects sample = [object_a, object_b]"
  by (simp add: sample_def)

lemma sample_fields [simp]:
  "o_id object_a = ''a''" "o_id object_b = ''b''" "o_order object_a = ''a0''" "o_order object_b = ''a1''"
  "o_geometry object_a = line_a" "o_geometry object_b = two_contours" "o_parent object_a = None"
  "o_parent object_b = None"
  by (simp_all add: object_a_def object_b_def object_new_def)

lemma two_contours_length [simp]:
  "length (g_subpaths two_contours) = 2" "g_subpaths two_contours \<noteq> []"
  by (simp_all add: two_contours_def geometry_from_subpaths_def)

lemma sample_index: "index_of sample ''a'' = Some 0" "index_of sample ''b'' = Some (Suc 0)"
  by (simp_all add: index_of_def sample_objects)

lemma sample_at: "object_at sample 0 = object_a" "object_at sample (Suc 0) = object_b"
  by (simp_all add: object_at_def sample_objects)

lemma sample_has: "has_object sample x \<longleftrightarrow> x = ''a'' \<or> x = ''b''"
  by (auto simp: has_object_def sample_objects)

lemma sample_keys:
  "generate_key_between (Some ''a1'') None = Inr ''a2''"
  "generate_key_between (Some ''a2'') None = Inr ''a3''"
  by code_simp+

lemma sample_valid_keys: "valid_key ''a0''" "valid_key ''a1''" "valid_key ''a0V''"
  by code_simp+

lemmas sample_simps = sample_objects sample_index sample_at sample_has sample_keys with_index_simps
  Let_def guarded_def

lemma sample_split: "\<exists>sc' iv. apply_inner zero_libm sample (Split ''b'' [''c'', ''d''] []) = (sc', Inr iv)"
  by (simp add: apply_split_def sample_simps peel_list_def numeral_2_eq_2)

lemma sample_batch:
  "\<exists>sc' iv. apply_inner zero_libm sample
     (Batch [SetClip ''a'' (Some True), Reparent ''b'' (Some ''a'') ''Zz'']) = (sc', Inr iv)"
  by (simp add: apply_set_clip_def apply_reparent_def sample_simps index_of_modify_at would_cycle_def
      scene_get_def objects_modify_at)

lemma apply_object_op_exists:
  "\<exists>sc1 iv. apply_inner lm sc op = (sc1, Inr iv) \<Longrightarrow> \<exists>sc' iv. apply_object_op lm sc op = (sc', Inr iv)"
  by (auto simp: apply_object_op_iff)

end
