(* ===== verification/Kernel_Properties.thy ===== *)
theory Kernel_Properties
  imports Samples
begin

text \<open>
  The properties of the scene kernel: order keys, the path codec, the operations and their
  inverses, and the last-writer-wins gate. Each is a short consequence of the laws of its
  component; the witnesses apply it to the sample scene.
\<close>

section \<open>Order keys\<close>

text \<open>C4: on valid, ordered bounds \<open>generate_key_between\<close> returns a key, and the key lies
  strictly between them in byte order. The key is itself valid, except that below the
  smallest representable keys the sentinel integer part can come out.\<close>

theorem key_between_sound:
  assumes "bounds_ok a b"
  shows "\<exists>k. generate_key_between a b = Inr k \<and> over_bound a k \<and> under_bound b k \<and>
    (valid_key k \<or> a = None \<and> b \<noteq> None \<and> k = smallest_integer)"
  using key_between_total[OF assms] key_between_strict by blast

theorem key_between_sound_witness:
  "\<exists>k. generate_key_between (Some ''a0'') (Some ''a1'') = Inr k \<and> over_bound (Some ''a0'') k \<and>
    under_bound (Some ''a1'') k \<and>
    (valid_key k \<or> Some ''a0'' = None \<and> Some ''a1'' \<noteq> None \<and> k = smallest_integer)"
  by (rule key_between_sound)
    (simp add: bounds_ok_def validate_bound_def sample_valid_keys)

text \<open>\<open>generate_key_between\<close> fails exactly when a bound is not a valid key or the lower
  bound is not below the upper one.\<close>

theorem key_between_error_iff:
  "(\<exists>e. generate_key_between a b = Inl e) \<longleftrightarrow> \<not> bounds_ok a b"
  using key_between_iff[of a b] by (cases "generate_key_between a b") auto

text \<open>For valid bounds with a lower end (or no bound at all) \<open>generate_n_keys_between\<close>
  returns exactly \<open>n\<close> keys, strictly increasing and all strictly between the bounds.\<close>

theorem n_keys_sorted_between:
  assumes "bounds_ok a b" "a \<noteq> None \<or> b = None"
  shows "\<exists>ks. generate_n_keys_between a b n = Inr ks \<and> length ks = n \<and> sorted_wrt (<) ks \<and>
    (\<forall>k \<in> set ks. over_bound a k \<and> under_bound b k)"
  using generate_n_keys_total[OF assms, of n] generate_n_keys_run by (fastforce simp: run_of_keys_def)

theorem n_keys_sorted_between_witness:
  "\<exists>ks. generate_n_keys_between (Some ''a0'') (Some ''a1'') 3 = Inr ks \<and> length ks = 3 \<and>
    sorted_wrt (<) ks \<and> (\<forall>k \<in> set ks. over_bound (Some ''a0'') k \<and> under_bound (Some ''a1'') k)"
  by (rule n_keys_sorted_between)
    (simp_all add: bounds_ok_def validate_bound_def sample_valid_keys)

text \<open>In a scene whose order keys are valid, \<open>next_order_key\<close> returns a valid key above
  every key of the scene and \<open>back_order_key\<close> one below every key of the scene.\<close>

theorem scene_keys_outermost:
  assumes "\<forall>k \<in> set (orders sc). valid_key k"
  shows "(\<exists>k. next_order_key sc = Inr k \<and> valid_key k \<and> (\<forall>x \<in> set (orders sc). x < k)) \<and>
    (\<exists>k. back_order_key sc = Inr k \<and> (valid_key k \<or> k = smallest_integer) \<and>
      (\<forall>x \<in> set (orders sc). k < x))"
  using next_order_key_top[OF assms] back_order_key_bottom[OF assms] by blast

theorem scene_keys_outermost_witness:
  "(\<exists>k. next_order_key sample = Inr k \<and> valid_key k \<and> (\<forall>x \<in> set (orders sample). x < k)) \<and>
    (\<exists>k. back_order_key sample = Inr k \<and> (valid_key k \<or> k = smallest_integer) \<and>
      (\<forall>x \<in> set (orders sample). k < x))"
  by (rule scene_keys_outermost) (simp add: orders_def sample_objects sample_valid_keys)

text \<open>In a scene with distinct ids and distinct order keys, the operations of
  \<open>reorder_step_ops\<close> apply and exchange the object with its neighbour in the paint order,
  leaving every other position as it was.\<close>

theorem reorder_step_swaps:
  assumes "distinct (ids sc)" "distinct (orders sc)" "reorder_step_ops sc oid dir = Some ops"
  shows "\<exists>i j sc' iv. position (\<lambda>ob. o_id ob = oid) (paint_order sc) = Some i \<and>
    step_index dir i = Some j \<and> apply_inner lm sc (Batch ops) = (sc', Inr iv) \<and>
    map o_id (paint_order sc') = swap_at i j (map o_id (paint_order sc))"
proof -
  obtain i j where st: "steps sc oid dir i j"
    and ops: "ops = [Reorder (o_id (paint_order sc ! i)) (o_order (paint_order sc ! j)),
            Reorder (o_id (paint_order sc ! j)) (o_order (paint_order sc ! i))]"
    using assms(3) reorder_steps by blast
  let ?a = "paint_order sc ! i" and ?b = "paint_order sc ! j"
  have "i < length (paint_order sc)" "i \<noteq> j"
    using st by (auto simp: steps_def dest: position_Some step_index_neq)
  then have l: "i < length (objects sc)" "j < length (objects sc)" "i \<noteq> j"
    using st by (auto simp: steps_def paint_order_facts)
  then have in_scene: "?a \<in> set (objects sc)" "?b \<in> set (objects sc)"
    by (metis nth_mem paint_order_facts(2,3))+
  have "distinct (map o_id (paint_order sc))"
    using assms(1) paint_order_facts(1)[of sc] by (metis ids_def mset_map mset_eq_imp_distinct_iff)
  then have ne: "o_id ?a \<noteq> o_id ?b" using l by (simp add: distinct_conv_nth paint_order_facts(3))
  show ?thesis
    using runs_swap_orders[OF assms(1) in_scene ne, of lm] paint_order_swapped[OF assms(1,2) l] st
    unfolding ops steps_def undoes_Batch[symmetric] undoes_def by blast
qed

theorem reorder_step_swaps_witness:
  "\<exists>ops. reorder_step_ops sample ''a'' Forward = Some ops \<and>
    (\<exists>i j sc' iv. position (\<lambda>ob. o_id ob = ''a'') (paint_order sample) = Some i \<and>
      step_index Forward i = Some j \<and> apply_inner zero_libm sample (Batch ops) = (sc', Inr iv) \<and>
      map o_id (paint_order sc') = swap_at i j (map o_id (paint_order sample)))"
proof -
  have s: "paint_order sample = [object_a, object_b]"
    by (rule sorted_lists_unique[where f = o_order, symmetric])
      (simp_all add: paint_order_facts sample_objects)
  have "reorder_step_ops sample ''a'' Forward = Some [Reorder ''a'' ''a1'', Reorder ''b'' ''a0'']"
    by (simp add: reorder_step_ops_def s)
  then show ?thesis
    using reorder_step_swaps[of sample "''a''" Forward _ zero_libm]
    by (simp add: ids_def orders_def sample_objects)
qed

section \<open>The path codec\<close>

text \<open>C5: parsing the text \<open>serialize\<close> writes never fails, whatever the contours; it returns
  their normal form, and serializing that again gives the same text. So the path text at rest
  is a fixed point of decoding and encoding.\<close>

theorem path_text_stable:
  "parse_path (serialize sps) = Inr (norm_path sps) \<and> serialize (norm_path sps) = serialize sps"
  by (simp add: parse_path_serialize serialize_norm_path)

text \<open>C6: an operation that returns an error leaves the whole scene as it was; for a batch,
  also when some of its children had succeeded before the failing one.\<close>

theorem failed_op_changes_nothing:
  assumes "apply_object_op lm sc op = (sc', Inl e)"
  shows "sc' = sc"
  by (rule apply_object_op_error[OF assms])

theorem failed_op_changes_nothing_witness:
  "\<exists>e. apply_object_op zero_libm sample (Batch [SetClip ''a'' (Some True), Delete ''x'']) =
    (sample, Inl e)"
proof -
  have "index_of sample ''x'' = None" by (simp add: index_of_def sample_objects)
  then obtain sc' e where "apply_object_op zero_libm sample
      (Batch [SetClip ''a'' (Some True), Delete ''x'']) = (sc', Inl e)"
    by (simp add: apply_object_op_def apply_set_clip_def apply_delete_def sample_simps
        index_of_modify_at with_index_def)
  then show ?thesis using failed_op_changes_nothing by blast
qed

section \<open>Operations\<close>

text \<open>A split whose new ids repeat is accepted and leaves two objects with one id.\<close>

theorem split_duplicate_ids:
  "\<exists>sc' iv. apply_object_op zero_libm sample (Split ''b'' [''c'', ''c''] []) = (sc', Inr iv) \<and>
    map o_id (objects sc') = [''a'', ''c'', ''c'']"
  by (simp add: apply_object_op_iff apply_split_def sample_simps peel_list_def numeral_2_eq_2
      with_version_def map_peers_def remove_at_def split_child_def)

text \<open>C3: every accepted operation, whatever it is, keeps every geometry valid and its runtime
  contours equal to what its path text decodes to; the geometries an operation brings are bare, as
  off the wire, or hydrated, and the inverse it returns carries such ones. It keeps the ids unique
  when its splits name each new object once; a split that is not in a batch keeps them unique
  exactly then.\<close>

theorem op_keeps_scene_ok:
  assumes "apply_object_op lm sc op = (sc', Inr iv)" "op_inv False op"
    and "\<forall>ob \<in> set (objects sc). geometry_ok (o_geometry ob)"
  shows "(\<forall>ob \<in> set (objects sc'). geometry_ok (o_geometry ob)) \<and> op_inv False iv \<and>
    (distinct (ids sc) \<and> op_inv True op \<longrightarrow> distinct (ids sc') \<and> op_inv True iv) \<and>
    (distinct (ids sc) \<longrightarrow> (\<forall>oid new_ids contours. op = Split oid new_ids contours \<longrightarrow>
       (distinct (ids sc') \<longleftrightarrow> distinct new_ids)))"
  using apply_object_op_inv[OF assms(1), of False] apply_object_op_inv[OF assms(1), of True] assms
    split_ids_unique
  by (auto simp: scene_inv_def)

theorem op_keeps_scene_ok_witness:
  "\<exists>sc' iv. apply_object_op zero_libm sample (Split ''b'' [''c'', ''c''] []) = (sc', Inr iv) \<and>
    (\<forall>ob \<in> set (objects sc'). geometry_ok (o_geometry ob)) \<and> \<not> distinct (ids sc')"
proof -
  obtain sc' iv where s: "apply_object_op zero_libm sample (Split ''b'' [''c'', ''c''] []) = (sc', Inr iv)"
    using split_duplicate_ids by (elim exE conjE)
  have "(\<forall>ob \<in> set (objects sample). geometry_ok (o_geometry ob))" "distinct (ids sample)"
    using sample_ok by (auto simp: scene_ok_def)
  then have "(\<forall>ob \<in> set (objects sc'). geometry_ok (o_geometry ob)) \<and> \<not> distinct (ids sc')"
    using op_keeps_scene_ok[OF s] by simp
  with s show ?thesis by blast
qed

text \<open>C1: undoing a field edit, a canonicalization, a reparent or a batch of them by the
  returned inverse restores the scene exactly, the version counter apart.\<close>

theorem field_op_undo_exact:
  assumes "undo_ready sc" "field_op op" "op_ok op" "apply_object_op lm sc op = (sc', Inr iv)"
  shows "\<exists>sc'' iv'. apply_object_op lm sc' iv = (sc'', Inr iv') \<and> same_content sc'' sc"
  using undo_public[OF assms(4), of "\<lambda>s. s = sc"] undo_field_op(1)[OF _ assms(2,3,1)] by blast

theorem field_op_undo_exact_witness:
  "\<exists>sc' iv sc'' iv'. apply_object_op zero_libm sample
      (Batch [SetClip ''a'' (Some True), Reparent ''b'' (Some ''a'') ''Zz'']) = (sc', Inr iv) \<and>
    apply_object_op zero_libm sc' iv = (sc'', Inr iv') \<and> same_content sc'' sample"
proof -
  let ?op = "Batch [SetClip ''a'' (Some True), Reparent ''b'' (Some ''a'') ''Zz'']"
  obtain sc' iv where r: "apply_object_op zero_libm sample ?op = (sc', Inr iv)"
    using apply_object_op_exists[OF sample_batch] by blast
  then show ?thesis using field_op_undo_exact[OF sample_ready _ _ r] by auto
qed

text \<open>C2: undoing an insertion, a deletion, a split or a merge by the returned inverse
  restores every object with all its fields, peer anchors included; only the position in the
  object list may differ.\<close>

theorem structural_op_undo:
  assumes "undo_ready sc" "structural_op op" "op_ok op" "apply_object_op lm sc op = (sc', Inr iv)"
  shows "\<exists>sc'' iv'. apply_object_op lm sc' iv = (sc'', Inr iv') \<and> same_objects sc'' sc"
proof -
  obtain sc2 sc3 iv' where u: "apply_object_op lm sc' iv = (sc3, Inr iv')" "permuted sc2 sc"
    "same_content sc3 sc2"
    using undo_public[OF assms(4), of "\<lambda>s. permuted s sc"] structural_undo[OF assms(1-3)] by blast
  then have "same_objects sc3 sc"
    by (cases sc; cases sc2; cases sc3)
      (auto simp: same_objects_def permuted_def same_content_def with_version_def)
  with u(1) show ?thesis by blast
qed

theorem structural_op_undo_witness:
  "\<exists>sc' iv sc'' iv'. apply_object_op zero_libm sample (Split ''b'' [''c'', ''d''] []) = (sc', Inr iv) \<and>
    apply_object_op zero_libm sc' iv = (sc'', Inr iv') \<and> same_objects sc'' sample"
proof -
  obtain sc' iv where r: "apply_object_op zero_libm sample (Split ''b'' [''c'', ''d''] []) = (sc', Inr iv)"
    using apply_object_op_exists[OF sample_split] by blast
  have "structural_op (Split ''b'' [''c'', ''d''] [])" by (simp add: structural_op_def)
  then show ?thesis using structural_op_undo[OF sample_ready _ _ r] r by auto
qed

text \<open>C7: a reparent is refused exactly when the new parent is the object itself or below it;
  an accepted one keeps the parent relation free of cycles.\<close>

theorem reparent_gate_exact:
  assumes "undo_ready sc" "oid \<in> set (ids sc)"
  shows "if (p, oid) \<in> (parent_rel sc)\<^sup>*
    then snd (apply_object_op lm sc (Reparent oid (Some p) order)) = Inl (Cycle oid)
    else \<exists>sc' iv. apply_object_op lm sc (Reparent oid (Some p) order) = (sc', Inr iv) \<and>
      acyclic (parent_rel sc')"
proof -
  note ready = undo_readyD[OF assms(1)]
  obtain idx where i: "index_of sc oid = Some idx"
    using assms(2) index_of_None by (cases "index_of sc oid") auto
  show ?thesis
  proof (cases "would_cycle sc oid p")
    case True
    then show ?thesis
      using would_cycle_iff[OF ready(2,4)] by (simp add: apply_object_op_def apply_reparent_def)
  next
    case False
    then obtain sc1 iv where r: "apply_reparent sc oid (Some p) order = (sc1, Inr iv)"
      using i by (simp add: apply_reparent_def with_index_simps)
    then have "acyclic (parent_rel (with_version (scene_version sc1 + 1) sc1))"
      using undo_reparent[OF assms(1) r] undo_readyD(4)[of sc1] by (auto simp: parent_rel_def)
    then show ?thesis
      using False r would_cycle_iff[OF ready(2,4)] by (auto simp: apply_object_op_iff)
  qed
qed

theorem reparent_gate_exact_witness:
  "if (''b'', ''a'') \<in> (parent_rel sample)\<^sup>*
    then snd (apply_object_op zero_libm sample (Reparent ''a'' (Some ''b'') ''a0'')) = Inl (Cycle ''a'')
    else \<exists>sc' iv. apply_object_op zero_libm sample (Reparent ''a'' (Some ''b'') ''a0'') = (sc', Inr iv) \<and>
      acyclic (parent_rel sc')"
  by (rule reparent_gate_exact[OF sample_ready]) (simp add: ids_def sample_objects)

text \<open>Insertion has no such gate: an object that is its own parent is accepted.\<close>

theorem insert_accepts_self_parent:
  "\<exists>sc' iv. apply_object_op zero_libm sample
      (InsertObject ((object_new ''s'' ''a2'' line_a)\<lparr>o_parent := Some ''s''\<rparr>)) = (sc', Inr iv) \<and>
    (''s'', ''s'') \<in> parent_rel sc'"
proof -
  have "(x, p) \<in> parent_rel sc \<longleftrightarrow> (\<exists>ob \<in> set (objects sc). o_id ob = x \<and> o_parent ob = Some p)" for x p sc
    by (auto simp: parent_rel_def)
  then show ?thesis
    using geometry_okD(4,5)[OF line_a_ok]
    by (simp add: apply_object_op_iff apply_insert_def sample_simps object_ensure_parsed_def
        parsed_def checked_def object_new_def with_version_def)
qed

section \<open>The last-writer-wins gate\<close>

text \<open>C8: once an operation has been accepted at a sequence number, any operation that touches
  one of the same properties with a number not above it is skipped: scene and store stay as
  they are and the inverse is the empty batch.\<close>

theorem lww_later_write_wins:
  assumes "apply_object_op_lww lm sc st op seq = (sc', st', Inr iv)"
    and "\<not> (\<exists>p \<in> set (touched_properties op). is_stale st (seq_i64 seq) p)"
    and "p \<in> set (touched_properties op)" "p \<in> set (touched_properties op')"
    and "sint (seq_i64 seq') \<le> sint (seq_i64 seq)"
  shows "apply_object_op_lww lm sc' st' op' seq' = (sc', st', Inr (Batch []))"
proof (rule lww_stale_skips)
  have "st' = foldl (record_seq (seq_i64 seq)) st (touched_properties op)"
    using assms(1) unfolding lww_fresh_applies[OF assms(2)] by (auto split: prod.splits sum.splits)
  then have "is_stale st' (seq_i64 seq) p" using recorded_stale[OF assms(3)] by simp
  then show "\<exists>p \<in> set (touched_properties op'). is_stale st' (seq_i64 seq') p"
    using stale_mono[OF _ assms(5)] assms(4) by blast
qed

theorem lww_later_write_wins_witness:
  "\<exists>sc' st' iv. apply_object_op_lww zero_libm sample store_new (SetClip ''a'' (Some True)) 2 = (sc', st', Inr iv) \<and>
    apply_object_op_lww zero_libm sc' st' (SetClip ''a'' None) 1 = (sc', st', Inr (Batch []))"
proof -
  have fresh: "\<not> (\<exists>p \<in> set (touched_properties (SetClip ''a'' (Some True))). is_stale store_new (seq_i64 2) p)"
    by (simp add: is_stale_def store_get_def store_new_def)
  then obtain sc' st' iv where
    r: "apply_object_op_lww zero_libm sample store_new (SetClip ''a'' (Some True)) 2 = (sc', st', Inr iv)"
    unfolding lww_fresh_applies[OF fresh]
    by (simp add: apply_object_op_def apply_set_clip_def sample_simps)
  have "sint (seq_i64 1) \<le> sint (seq_i64 2)" by code_simp
  then show ?thesis
    using r lww_later_write_wins[OF r fresh, of "(''a'', ''clip'')" "SetClip ''a'' None" 1] by auto
qed

text \<open>C9: property stores that received the same writes, in any order and with repetitions,
  hold the same entry for every property, as long as no two different writes to one property
  carry the same sequence number.\<close>

theorem property_store_converges:
  assumes "set ws = set ws'"
    and "\<And>p. inj_on (\<lambda>e. sint (le_seq e)) (set_option (entry_at st p) \<union> {e. (p, e) \<in> set ws})"
  shows "store_get (apply_writes st ws) oid prop = store_get (apply_writes st ws') oid prop"
proof -
  have "store.ranked st ws" using assms(2) by (simp add: store.ranked_def store.entries_def)
  from store.converges[OF this assms(1)] have "entry_at (store.put_all ws st) (oid, prop) =
      entry_at (store.put_all ws' st) (oid, prop)" by simp
  then show ?thesis by (simp add: apply_writes_def store.put_all_def entry_at_def)
qed

theorem property_store_converges_witness:
  "store_get (apply_writes store_new [((''a'', ''fill''), \<lparr>le_value = JNull, le_seq = 1\<rparr>),
      ((''a'', ''fill''), \<lparr>le_value = JBool True, le_seq = 2\<rparr>)]) ''a'' ''fill'' =
   store_get (apply_writes store_new [((''a'', ''fill''), \<lparr>le_value = JBool True, le_seq = 2\<rparr>),
      ((''a'', ''fill''), \<lparr>le_value = JNull, le_seq = 1\<rparr>)]) ''a'' ''fill''"
  by (rule property_store_converges)
    (auto simp: inj_on_def entry_at_def store_get_def store_new_def)

end
