(* ===== verification/UndoStack.thy ===== *)
theory UndoStack
  imports Undo_Laws
begin

text \<open>
  Undo and redo: the bookkeeping stack of \<open>kernel/undo.rs\<close>. The engine never applies an
  operation; \<open>undo\<close> hands out an inverse, the host applies it and reports the re-inverse
  through \<open>note_undo_applied\<close>. The second half is the wrapper the shell holds,
  \<open>WasmUndoStack\<close> of \<open>wasm_api.rs\<close>, whose mirrored flag keeps the engine from
  panicking.
\<close>

section \<open>The engine\<close>

record undo_entry =
  ue_forward :: object_op
  ue_inverse :: object_op

datatype pending = PendingUndo object_op | PendingRedo object_op

record undo_stack =
  us_actor :: str
  us_undo :: "undo_entry list"
  us_redo :: "undo_entry list"
  us_open :: bool
  us_coalescing :: "undo_entry option"
  us_pending :: "pending option"

text \<open>The two stacks are \<open>Vec\<close>s: \<open>push\<close> appends and \<open>pop\<close> takes the last entry.\<close>

definition undo_stack_new :: "str \<Rightarrow> undo_stack" where
  "undo_stack_new actor = \<lparr>us_actor = actor, us_undo = [], us_redo = [], us_open = False,
     us_coalescing = None, us_pending = None\<rparr>"

definition is_noop_inverse :: "object_op \<Rightarrow> bool" where
  "is_noop_inverse iv \<longleftrightarrow> iv = Batch []"

definition record_edit :: "undo_stack \<Rightarrow> object_op \<Rightarrow> object_op \<Rightarrow> undo_stack" where
  "record_edit st fwd iv =
     (if is_noop_inverse iv then st
      else let st' = st\<lparr>us_redo := []\<rparr> in
        if us_open st'
        then (case us_coalescing st' of
            Some entry \<Rightarrow> st'\<lparr>us_coalescing := Some (entry\<lparr>ue_forward := fwd\<rparr>)\<rparr>
          | None \<Rightarrow> st'\<lparr>us_coalescing := Some \<lparr>ue_forward = fwd, ue_inverse = iv\<rparr>\<rparr>)
        else st'\<lparr>us_undo := us_undo st' @ [\<lparr>ue_forward = fwd, ue_inverse = iv\<rparr>]\<rparr>)"

definition begin_coalesce :: "undo_stack \<Rightarrow> undo_stack" where
  "begin_coalesce st = st\<lparr>us_open := True\<rparr>"

definition end_coalesce :: "undo_stack \<Rightarrow> undo_stack" where
  "end_coalesce st =
     (let st' = st\<lparr>us_open := False, us_coalescing := None\<rparr> in
      case us_coalescing st of
        None \<Rightarrow> st'
      | Some entry \<Rightarrow> st'\<lparr>us_undo := us_undo st' @ [entry]\<rparr>)"

definition flush_coalesce :: "undo_stack \<Rightarrow> undo_stack" where
  "flush_coalesce st = (if us_open st then end_coalesce st else st)"

definition pop_last :: "'a list \<Rightarrow> ('a list \<times> 'a) option" where
  "pop_last xs = (if xs = [] then None else Some (butlast xs, last xs))"

text \<open>The \<open>debug_assert!\<close> on a handshake in flight is not compiled in release builds.\<close>

definition undo :: "undo_stack \<Rightarrow> undo_stack \<times> object_op option" where
  "undo st0 =
     (let st = flush_coalesce st0 in
      case pop_last (us_undo st) of
        None \<Rightarrow> (st, None)
      | Some (rest, entry) \<Rightarrow>
          (st\<lparr>us_undo := rest, us_pending := Some (PendingUndo (ue_forward entry))\<rparr>,
           Some (ue_inverse entry)))"

definition redo :: "undo_stack \<Rightarrow> undo_stack \<times> object_op option" where
  "redo st0 =
     (let st = flush_coalesce st0 in
      case pop_last (us_redo st) of
        None \<Rightarrow> (st, None)
      | Some (rest, entry) \<Rightarrow>
          (st\<lparr>us_redo := rest, us_pending := Some (PendingRedo (ue_forward entry))\<rparr>,
           Some (ue_forward entry)))"

text \<open>\<open>Inl\<close> is the panic on a missing handshake; the pending value is put back first.\<close>

datatype stack_panic = NoPendingUndo | NoPendingRedo

definition note_undo_applied :: "undo_stack \<Rightarrow> object_op \<Rightarrow> stack_panic + undo_stack" where
  "note_undo_applied st re_inverse =
     (case us_pending st of
        Some (PendingUndo fwd) \<Rightarrow>
          Inr (st\<lparr>us_pending := None,
                 us_redo := us_redo st @ [\<lparr>ue_forward = fwd, ue_inverse = re_inverse\<rparr>]\<rparr>)
      | _ \<Rightarrow> Inl NoPendingUndo)"

definition note_redo_applied :: "undo_stack \<Rightarrow> object_op \<Rightarrow> stack_panic + undo_stack" where
  "note_redo_applied st iv =
     (case us_pending st of
        Some (PendingRedo fwd) \<Rightarrow>
          Inr (st\<lparr>us_pending := None,
                 us_undo := us_undo st @ [\<lparr>ue_forward = fwd, ue_inverse = iv\<rparr>]\<rparr>)
      | _ \<Rightarrow> Inl NoPendingRedo)"

definition abort_pending :: "undo_stack \<Rightarrow> undo_stack" where
  "abort_pending st = st\<lparr>us_pending := None\<rparr>"

definition can_undo :: "undo_stack \<Rightarrow> bool" where
  "can_undo st \<longleftrightarrow> us_undo st \<noteq> [] \<or> us_coalescing st \<noteq> None"

definition can_redo :: "undo_stack \<Rightarrow> bool" where
  "can_redo st \<longleftrightarrow> us_redo st \<noteq> []"

definition undo_depth :: "undo_stack \<Rightarrow> nat" where
  "undo_depth st = length (us_undo st)"

definition redo_depth :: "undo_stack \<Rightarrow> nat" where
  "redo_depth st = length (us_redo st)"

section \<open>Laws of the engine\<close>

text \<open>A pending gesture entry exists only while the window is open.\<close>

definition stack_wf :: "undo_stack \<Rightarrow> bool" where
  "stack_wf st \<longleftrightarrow> (us_coalescing st \<noteq> None \<longrightarrow> us_open st)"

lemma pop_last_simps [simp]: "pop_last [] = None" "pop_last (xs @ [x]) = Some (xs, x)"
  by (simp_all add: pop_last_def)

lemma stack_wf_steps:
  "stack_wf (undo_stack_new a)"
  "stack_wf st \<Longrightarrow> stack_wf (record_edit st f iv)"
  "stack_wf st \<Longrightarrow> stack_wf (begin_coalesce st)"
  "stack_wf st \<Longrightarrow> stack_wf (end_coalesce st)"
  "stack_wf st \<Longrightarrow> stack_wf (fst (undo st))"
  "stack_wf st \<Longrightarrow> stack_wf (fst (redo st))"
  "stack_wf st \<Longrightarrow> note_undo_applied st x = Inr st' \<Longrightarrow> stack_wf st'"
  "stack_wf st \<Longrightarrow> note_redo_applied st x = Inr st' \<Longrightarrow> stack_wf st'"
  "stack_wf st \<Longrightarrow> stack_wf (abort_pending st)"
  by (auto simp: stack_wf_def undo_stack_new_def record_edit_def begin_coalesce_def end_coalesce_def
      undo_def redo_def flush_coalesce_def note_undo_applied_def note_redo_applied_def
      abort_pending_def Let_def split: option.splits pending.splits if_splits)

lemma can_undo_iff: "stack_wf st \<Longrightarrow> can_undo st \<longleftrightarrow> snd (undo st) \<noteq> None"
  by (auto simp: can_undo_def stack_wf_def undo_def flush_coalesce_def end_coalesce_def pop_last_def Let_def
      split: option.splits)

lemma can_redo_iff: "can_redo st \<longleftrightarrow> snd (redo st) \<noteq> None"
  by (auto simp: can_redo_def redo_def flush_coalesce_def end_coalesce_def pop_last_def Let_def
      split: option.splits)

lemma record_noop: "record_edit st f (Batch []) = st"
  by (simp add: record_edit_def is_noop_inverse_def)

lemma record_then_undo:
  assumes "iv \<noteq> Batch []" "\<not> us_open st"
  shows "snd (undo (record_edit st f iv)) = Some iv \<and>
    fst (undo (record_edit st f iv)) = st\<lparr>us_redo := [], us_pending := Some (PendingUndo f)\<rparr>"
  using assms by (simp add: record_edit_def is_noop_inverse_def undo_def flush_coalesce_def Let_def)

text \<open>An undo answered by the host and a redo answered by the host leave the depth as it was.\<close>

lemma handshake_moves:
  assumes "undo st = (st1, Some op)" "\<not> us_open st"
  shows "\<exists>st2. note_undo_applied st1 re = Inr st2 \<and> undo_depth st = Suc (undo_depth st2) \<and>
     redo_depth st2 = Suc (redo_depth st) \<and> us_pending st2 = None \<and>
     us_redo st2 = us_redo st @ [\<lparr>ue_forward = ue_forward (last (us_undo st)), ue_inverse = re\<rparr>]"
  using assms
  by (auto simp: undo_def flush_coalesce_def note_undo_applied_def undo_depth_def redo_depth_def
      pop_last_def Let_def split: option.splits if_splits)

section \<open>The wrapper of the shell\<close>

text \<open>
  Operations cross the boundary as JSON text: \<open>None\<close> is a text that does not parse, and the
  boolean is the answer of the call. \<open>Inl\<close> is a panic of the engine.
\<close>

datatype pending_kind = KindUndo | KindRedo

record wasm_undo_stack =
  wu_inner :: undo_stack
  wu_pending :: "pending_kind option"

definition wasm_undo_new :: "str \<Rightarrow> wasm_undo_stack" where
  "wasm_undo_new actor = \<lparr>wu_inner = undo_stack_new actor, wu_pending = None\<rparr>"

definition wasm_record ::
    "wasm_undo_stack \<Rightarrow> object_op option \<Rightarrow> object_op option \<Rightarrow> wasm_undo_stack \<times> bool" where
  "wasm_record st fwd iv =
     (case fwd of
        None \<Rightarrow> (st, False)
      | Some f \<Rightarrow>
          (case iv of
             None \<Rightarrow> (st, False)
           | Some i \<Rightarrow> (st\<lparr>wu_inner := record_edit (wu_inner st) f i\<rparr>, True)))"

definition wasm_begin_coalesce :: "wasm_undo_stack \<Rightarrow> wasm_undo_stack" where
  "wasm_begin_coalesce st = st\<lparr>wu_inner := begin_coalesce (wu_inner st)\<rparr>"

definition wasm_end_coalesce :: "wasm_undo_stack \<Rightarrow> wasm_undo_stack" where
  "wasm_end_coalesce st = st\<lparr>wu_inner := end_coalesce (wu_inner st)\<rparr>"

definition wasm_undo :: "wasm_undo_stack \<Rightarrow> wasm_undo_stack \<times> object_op option" where
  "wasm_undo st =
     (case undo (wu_inner st) of
        (i, None) \<Rightarrow> (st\<lparr>wu_inner := i\<rparr>, None)
      | (i, Some op) \<Rightarrow> (st\<lparr>wu_inner := i, wu_pending := Some KindUndo\<rparr>, Some op))"

definition wasm_note_undo_applied ::
    "wasm_undo_stack \<Rightarrow> object_op option \<Rightarrow> stack_panic + wasm_undo_stack \<times> bool" where
  "wasm_note_undo_applied st re_inverse =
     (if wu_pending st \<noteq> Some KindUndo then Inr (st, False)
      else case re_inverse of
        None \<Rightarrow> Inr (st, False)
      | Some re \<Rightarrow>
          (case note_undo_applied (wu_inner st) re of
             Inl p \<Rightarrow> Inl p
           | Inr i \<Rightarrow> Inr (st\<lparr>wu_inner := i, wu_pending := None\<rparr>, True)))"

definition wasm_redo :: "wasm_undo_stack \<Rightarrow> wasm_undo_stack \<times> object_op option" where
  "wasm_redo st =
     (case redo (wu_inner st) of
        (i, None) \<Rightarrow> (st\<lparr>wu_inner := i\<rparr>, None)
      | (i, Some op) \<Rightarrow> (st\<lparr>wu_inner := i, wu_pending := Some KindRedo\<rparr>, Some op))"

definition wasm_note_redo_applied ::
    "wasm_undo_stack \<Rightarrow> object_op option \<Rightarrow> stack_panic + wasm_undo_stack \<times> bool" where
  "wasm_note_redo_applied st iv =
     (if wu_pending st \<noteq> Some KindRedo then Inr (st, False)
      else case iv of
        None \<Rightarrow> Inr (st, False)
      | Some i \<Rightarrow>
          (case note_redo_applied (wu_inner st) i of
             Inl p \<Rightarrow> Inl p
           | Inr j \<Rightarrow> Inr (st\<lparr>wu_inner := j, wu_pending := None\<rparr>, True)))"

definition wasm_abort :: "wasm_undo_stack \<Rightarrow> wasm_undo_stack" where
  "wasm_abort st = st\<lparr>wu_inner := abort_pending (wu_inner st), wu_pending := None\<rparr>"

text \<open>The flag of the wrapper mirrors the handshake of the engine, so no note can panic.\<close>

fun pending_kind_of :: "pending \<Rightarrow> pending_kind" where
  "pending_kind_of (PendingUndo _) = KindUndo"
| "pending_kind_of (PendingRedo _) = KindRedo"

definition mirrors :: "wasm_undo_stack \<Rightarrow> bool" where
  "mirrors st \<longleftrightarrow> wu_pending st = map_option pending_kind_of (us_pending (wu_inner st))"

lemma coalesce_pending [simp]:
  "us_pending (begin_coalesce st) = us_pending st"
  "us_pending (end_coalesce st) = us_pending st"
  "us_pending (flush_coalesce st) = us_pending st"
  "us_pending (record_edit st f i) = us_pending st"
  by (auto simp: begin_coalesce_def end_coalesce_def flush_coalesce_def record_edit_def Let_def split: option.splits)

lemma undo_pending:
  "undo st = (st', None) \<Longrightarrow> us_pending st' = us_pending st"
  "undo st = (st', Some op) \<Longrightarrow> \<exists>f. us_pending st' = Some (PendingUndo f)"
  "redo st = (st', None) \<Longrightarrow> us_pending st' = us_pending st"
  "redo st = (st', Some op) \<Longrightarrow> \<exists>f. us_pending st' = Some (PendingRedo f)"
  by (auto simp: undo_def redo_def Let_def split: option.splits)

lemma mirrors_steps:
  "mirrors (wasm_undo_new a)"
  "mirrors st \<Longrightarrow> mirrors (fst (wasm_record st f i))"
  "mirrors st \<Longrightarrow> mirrors (wasm_begin_coalesce st)"
  "mirrors st \<Longrightarrow> mirrors (wasm_end_coalesce st)"
  "mirrors st \<Longrightarrow> mirrors (fst (wasm_undo st))"
  "mirrors st \<Longrightarrow> mirrors (fst (wasm_redo st))"
  "mirrors (wasm_abort st)"
  by (auto simp: mirrors_def wasm_undo_new_def undo_stack_new_def wasm_record_def wasm_begin_coalesce_def
      wasm_end_coalesce_def wasm_undo_def wasm_redo_def wasm_abort_def abort_pending_def
      split: option.splits prod.splits dest: undo_pending)

lemma notes_never_panic:
  assumes "mirrors st"
  shows "\<exists>st' ok. wasm_note_undo_applied st re = Inr (st', ok) \<and> mirrors st'"
    "\<exists>st' ok. wasm_note_redo_applied st re = Inr (st', ok) \<and> mirrors st'"
  using assms
  by (auto simp: mirrors_def wasm_note_undo_applied_def wasm_note_redo_applied_def note_undo_applied_def
      note_redo_applied_def split: option.splits pending.splits)

end
