(* ===== verification/History.thy ===== *)
theory History
  imports UndoStack Samples
begin

text \<open>
  The undo engine driven by the kernel, as its host drives it: an edit is applied and
  recorded with the inverse the kernel returned; undo and redo apply the operation the engine
  hands out and report the result back. The abstract specification is a timeline of scenes,
  the past, the present and the future of one actor; the refinement lemma shows that the
  engine and the kernel implement it for field edits. The repository has no host but the
  contract in the header of \<open>undo.rs\<close> and the tests that follow it (here, in
  \<open>wasm_api.rs\<close> and in \<open>object-op-apply.test.ts\<close>); the shell's loop over the
  wrapper is at the end.
\<close>

section \<open>The host loop\<close>

record host =
  h_scene :: scene
  h_stack :: undo_stack

datatype command = DoEdit object_op | DoUndo | DoRedo

definition host_edit :: "libm \<Rightarrow> host \<Rightarrow> object_op \<Rightarrow> host" where
  "host_edit lm h op =
     (case apply_object_op lm (h_scene h) op of
        (sc', Inl _) \<Rightarrow> h\<lparr>h_scene := sc'\<rparr>
      | (sc', Inr iv) \<Rightarrow> \<lparr>h_scene = sc', h_stack = record_edit (h_stack h) op iv\<rparr>)"

definition host_answer ::
    "libm \<Rightarrow> host \<Rightarrow> (undo_stack \<Rightarrow> object_op \<Rightarrow> stack_panic + undo_stack) \<Rightarrow>
     undo_stack \<times> object_op option \<Rightarrow> host" where
  "host_answer lm h note r =
     (case r of
        (st, None) \<Rightarrow> h\<lparr>h_stack := st\<rparr>
      | (st, Some op) \<Rightarrow>
          (case apply_object_op lm (h_scene h) op of
             (sc', Inl _) \<Rightarrow> \<lparr>h_scene = sc', h_stack = abort_pending st\<rparr>
           | (sc', Inr iv) \<Rightarrow>
               (case note st iv of
                  Inl _ \<Rightarrow> \<lparr>h_scene = sc', h_stack = st\<rparr>
                | Inr st' \<Rightarrow> \<lparr>h_scene = sc', h_stack = st'\<rparr>)))"

fun host_step :: "libm \<Rightarrow> host \<Rightarrow> command \<Rightarrow> host" where
  "host_step lm h (DoEdit op) = host_edit lm h op"
| "host_step lm h DoUndo = host_answer lm h note_undo_applied (undo (h_stack h))"
| "host_step lm h DoRedo = host_answer lm h note_redo_applied (redo (h_stack h))"

definition host_run :: "libm \<Rightarrow> host \<Rightarrow> command list \<Rightarrow> host" where
  "host_run lm h cs = fold (\<lambda>c h. host_step lm h c) cs h"

section \<open>The timeline\<close>

record timeline =
  past :: "scene list"
  present :: scene
  future :: "scene list"

fun timeline_step :: "libm \<Rightarrow> timeline \<Rightarrow> command \<Rightarrow> timeline" where
  "timeline_step lm t (DoEdit op) =
     (case apply_object_op lm (present t) op of
        (_, Inl _) \<Rightarrow> t
      | (sc', Inr iv) \<Rightarrow>
          if iv = Batch [] then t
          else \<lparr>past = present t # past t, present = sc', future = []\<rparr>)"
| "timeline_step lm t DoUndo =
     (case past t of [] \<Rightarrow> t
      | p # ps \<Rightarrow> \<lparr>past = ps, present = p, future = present t # future t\<rparr>)"
| "timeline_step lm t DoRedo =
     (case future t of [] \<Rightarrow> t
      | n # ns \<Rightarrow> \<lparr>past = present t # past t, present = n, future = ns\<rparr>)"

definition timeline_run :: "libm \<Rightarrow> timeline \<Rightarrow> command list \<Rightarrow> timeline" where
  "timeline_run lm t cs = fold (\<lambda>c t. timeline_step lm t c) cs t"

section \<open>The simulation relation\<close>

text \<open>\<open>takes lm op p n\<close>: applying \<open>op\<close> to the content of \<open>p\<close> gives the content of \<open>n\<close>.\<close>

definition takes :: "libm \<Rightarrow> object_op \<Rightarrow> scene \<Rightarrow> scene \<Rightarrow> bool" where
  "takes lm op p n \<longleftrightarrow> (\<exists>s iv. apply_inner lm p op = (s, Inr iv) \<and> same_content s n)"

definition replayable :: "libm \<Rightarrow> object_op \<Rightarrow> scene \<Rightarrow> scene \<Rightarrow> bool" where
  "replayable lm op p n \<longleftrightarrow> field_op op \<and> op_ok op \<and> undo_ready p \<and> takes lm op p n"

fun undo_links :: "libm \<Rightarrow> scene \<Rightarrow> undo_entry list \<Rightarrow> scene list \<Rightarrow> bool" where
  "undo_links lm now [] [] = True"
| "undo_links lm now (e # es) (p # ps) \<longleftrightarrow>
     replayable lm (ue_forward e) p now \<and> takes lm (ue_inverse e) now p \<and> undo_links lm p es ps"
| "undo_links lm now _ _ = False"

fun redo_links :: "libm \<Rightarrow> scene \<Rightarrow> undo_entry list \<Rightarrow> scene list \<Rightarrow> bool" where
  "redo_links lm now [] [] = True"
| "redo_links lm now (e # es) (n # ns) \<longleftrightarrow>
     replayable lm (ue_forward e) now n \<and> redo_links lm n es ns"
| "redo_links lm now _ _ = False"

definition follows :: "libm \<Rightarrow> host \<Rightarrow> timeline \<Rightarrow> bool" where
  "follows lm h t \<longleftrightarrow> same_content (h_scene h) (present t) \<and> undo_ready (present t) \<and>
     \<not> us_open (h_stack h) \<and> us_coalescing (h_stack h) = None \<and> us_pending (h_stack h) = None \<and>
     undo_links lm (present t) (rev (us_undo (h_stack h))) (past t) \<and>
     redo_links lm (present t) (rev (us_redo (h_stack h))) (future t)"

fun command_ok :: "command \<Rightarrow> bool" where
  "command_ok (DoEdit op) \<longleftrightarrow> field_op op \<and> op_ok op"
| "command_ok _ = True"

section \<open>Simulation\<close>

lemma same_content_trans: "same_content a b \<Longrightarrow> same_content b c \<Longrightarrow> same_content a c"
  by (simp add: same_content_def)

lemma same_content_sym: "same_content a b \<Longrightarrow> same_content b a"
  by (simp add: same_content_def)

lemma same_content_refl [simp]: "same_content a a"
  "same_content (with_version v a) b \<longleftrightarrow> same_content a b"
  "same_content a (with_version v b) \<longleftrightarrow> same_content a b"
  by (simp_all add: same_content_def)

lemma same_contentE:
  assumes "same_content a b"
  obtains "a = with_version (scene_version a) b"
  using assms by (cases a; cases b) (auto simp: same_content_def with_version_def)

lemma same_content_inner:
  assumes "same_content p' p" "apply_inner lm p' op = (s', r)"
  shows "\<exists>s. apply_inner lm p op = (s, r) \<and> same_content s' s"
proof -
  have "p = with_version (scene_version p) p'"
    using assms(1) by (blast elim: same_contentE dest: same_content_sym)
  then have "apply_inner lm p op = versioned (scene_version p) (s', r)"
    using assms(2) apply_inner_frame(1) by metis
  then show ?thesis by simp
qed

lemma undo_ready_content:
  assumes "same_content a b" "undo_ready b"
  shows "undo_ready a"
proof -
  have "a = with_version (scene_version a) b" using assms(1) by (blast elim: same_contentE)
  then have "a = b\<lparr>scene_version := scene_version a\<rparr>" by (simp add: with_version_def)
  moreover have "undo_ready (b\<lparr>scene_version := v\<rparr>)" for v
    using assms(2)
    by (simp add: undo_ready_def scene_ok_def ids_def anchors_resolved_def has_object_def parent_rel_def)
  ultimately show ?thesis by metis
qed

lemma apply_on_content:
  assumes "same_content h p" "takes lm op p n"
  shows "\<exists>sc' iv. apply_object_op lm h op = (sc', Inr iv) \<and> same_content sc' n"
proof -
  obtain s iv where s: "apply_inner lm p op = (s, Inr iv)" "same_content s n"
    using assms(2) by (auto simp: takes_def)
  obtain s' where "apply_inner lm h op = (s', Inr iv)" "same_content s s'"
    using same_content_inner[OF same_content_sym[OF assms(1)] s(1)] by blast
  then have "apply_object_op lm h op = (with_version (scene_version s' + 1) s', Inr iv)" "same_content s' n"
    using s(2) by (simp_all add: apply_object_op_iff same_content_def)
  then show ?thesis by auto
qed

text \<open>An accepted field edit: it can be replayed, and the returned inverse goes back.\<close>

lemma accepted_edit:
  assumes "apply_object_op lm h op = (sc', Inr iv)" "same_content h p" "undo_ready p" "field_op op" "op_ok op"
  shows "\<exists>n. apply_object_op lm p op = (n, Inr iv) \<and> same_content sc' n \<and> undo_ready n \<and>
     replayable lm op p n \<and> takes lm iv n p"
proof -
  obtain s1 where s1: "apply_inner lm h op = (s1, Inr iv)" "same_content sc' s1"
    using assms(1) by (auto simp: apply_object_op_iff)
  obtain s where s: "apply_inner lm p op = (s, Inr iv)" "same_content s1 s"
    using same_content_inner[OF assms(2) s1(1)] by blast
  have goes_back: "undoes lm iv s p" "undo_ready s"
    using undo_field_op(1)[OF s(1) assms(4,5,3)] by auto
  let ?n = "with_version (scene_version s + 1) s"
  have "takes lm iv ?n p"
    using goes_back(1) apply_inner_frame(1)[of lm "scene_version s + 1" s iv] by (auto simp: undoes_def takes_def)
  moreover have "undo_ready ?n" by (rule undo_ready_content[OF _ goes_back(2)]) simp
  moreover have "replayable lm op p ?n"
    using assms(3-5) s(1) by (auto simp: replayable_def takes_def)
  moreover have "apply_object_op lm p op = (?n, Inr iv)" using s(1) by (auto simp: apply_object_op_iff)
  moreover have "same_content sc' ?n" using s1(2) s(2) by (simp add: same_content_def)
  ultimately show ?thesis by blast
qed

lemma noop_inverse_content:
  assumes "takes lm (Batch []) n p"
  shows "same_content n p"
  using assms by (auto simp: takes_def)

lemma replay_on_content:
  assumes "replayable lm op p n" "same_content h p"
  shows "\<exists>sc' iv. apply_object_op lm h op = (sc', Inr iv) \<and> same_content sc' n \<and> takes lm iv n p \<and>
     undo_ready n"
proof -
  obtain sc' iv where a: "apply_object_op lm h op = (sc', Inr iv)" "same_content sc' n"
    using apply_on_content[OF assms(2), of lm op n] assms(1) unfolding replayable_def by blast
  obtain m where m: "same_content sc' m" "undo_ready m" "takes lm iv m p"
    using accepted_edit[OF a(1) assms(2)] assms(1) unfolding replayable_def by blast
  have nm: "same_content m n" using m(1) a(2) by (simp add: same_content_def)
  have "takes lm iv n p"
    using m(3) same_content_inner[OF nm] unfolding takes_def same_content_def by metis
  moreover have "undo_ready n" using undo_ready_content[OF same_content_sym[OF nm] m(2)] .
  ultimately show ?thesis using a by blast
qed

section \<open>Every command is simulated\<close>

lemma undo_links_cases:
  "undo_links lm now es [] \<longleftrightarrow> es = []"
  "undo_links lm now es (p # ps) \<Longrightarrow> \<exists>e es'. es = e # es'"
  by (cases es; simp)+

lemma redo_links_cases:
  "redo_links lm now es [] \<longleftrightarrow> es = []"
  "redo_links lm now es (n # ns) \<Longrightarrow> \<exists>e es'. es = e # es'"
  by (cases es; simp)+

lemma edit_follows:
  assumes "follows lm h t" "field_op op" "op_ok op"
  shows "follows lm (host_edit lm h op) (timeline_step lm t (DoEdit op))"
proof (cases "apply_object_op lm (h_scene h) op")
  case (Pair sc' r)
  show ?thesis
  proof (cases r)
    case (Inl e)
    have sc: "sc' = h_scene h" using apply_object_op_error Pair Inl by blast
    have "snd (apply_object_op lm (present t) op) = Inl e"
    proof (rule ccontr)
      assume "\<not> ?thesis"
      then obtain n iv where n: "apply_inner lm (present t) op = (n, Inr iv)"
        using same_content_inner[of "h_scene h" "present t" lm op] Pair Inl assms(1)
        by (auto simp: apply_object_op_def follows_def split: prod.splits sum.splits)
      then have "takes lm op (present t) n" by (auto simp: takes_def)
      then have "\<exists>x iv. apply_object_op lm (h_scene h) op = (x, Inr iv)"
        using apply_on_content[of "h_scene h" "present t" lm op n] assms(1) by (auto simp: follows_def)
      then show False using Pair Inl by simp
    qed
    then have "timeline_step lm t (DoEdit op) = t"
      by (cases "apply_object_op lm (present t) op") auto
    then show ?thesis using assms(1) Pair Inl sc by (simp add: host_edit_def)
  next
    case (Inr iv)
    have f: "same_content (h_scene h) (present t)" "undo_ready (present t)"
      using assms(1) by (auto simp: follows_def)
    obtain n where n: "apply_object_op lm (present t) op = (n, Inr iv)" "same_content sc' n" "undo_ready n"
      "replayable lm op (present t) n" "takes lm iv n (present t)"
      using accepted_edit[OF _ f assms(2,3)] Pair Inr by blast
    show ?thesis
    proof (cases "iv = Batch []")
      case True
      then have "same_content n (present t)" using n(5) noop_inverse_content by blast
      then have "same_content sc' (present t)" using n(2) by (simp add: same_content_def)
      then show ?thesis using assms(1) Pair Inr n(1) True
        by (simp add: host_edit_def record_noop follows_def)
    next
      case False
      then show ?thesis using assms(1) Pair Inr n
        by (simp add: host_edit_def record_edit_def is_noop_inverse_def follows_def)
    qed
  qed
qed

lemma undo_follows:
  assumes "follows lm h t"
  shows "follows lm (host_step lm h DoUndo) (timeline_step lm t DoUndo)"
proof (cases "past t")
  case Nil
  then show ?thesis using assms
    by (simp add: follows_def undo_links_cases(1) undo_def flush_coalesce_def host_answer_def)
next
  case (Cons p ps)
  have "undo_links lm (present t) (rev (us_undo (h_stack h))) (p # ps)"
    using assms Cons unfolding follows_def by metis
  then obtain e es where e: "rev (us_undo (h_stack h)) = e # es"
    using undo_links_cases(2) by blast
  then have us: "us_undo (h_stack h) = rev es @ [e]" by (simp add: rev_swap)
  have l: "replayable lm (ue_forward e) p (present t)" "takes lm (ue_inverse e) (present t) p"
    "undo_links lm p es ps" "same_content (h_scene h) (present t)"
    using assms Cons e unfolding follows_def by simp_all
  obtain sc' re where a: "apply_object_op lm (h_scene h) (ue_inverse e) = (sc', Inr re)" "same_content sc' p"
    using apply_on_content[OF l(4,2)] by blast
  have "undo_ready p" using l(1) by (simp add: replayable_def)
  moreover have "host_step lm h DoUndo = \<lparr>h_scene = sc', h_stack = (h_stack h)
      \<lparr>us_undo := rev es, us_pending := None,
        us_redo := us_redo (h_stack h) @ [\<lparr>ue_forward = ue_forward e, ue_inverse = re\<rparr>]\<rparr>\<rparr>"
    using assms us a(1)
    by (simp add: follows_def undo_def flush_coalesce_def host_answer_def note_undo_applied_def)
  moreover have "timeline_step lm t DoUndo = \<lparr>past = ps, present = p, future = present t # future t\<rparr>"
    using Cons by simp
  ultimately show ?thesis using assms l a(2) unfolding follows_def by simp
qed

lemma redo_follows:
  assumes "follows lm h t"
  shows "follows lm (host_step lm h DoRedo) (timeline_step lm t DoRedo)"
proof (cases "future t")
  case Nil
  then show ?thesis using assms
    by (simp add: follows_def redo_links_cases(1) redo_def flush_coalesce_def host_answer_def)
next
  case (Cons n ns)
  have "redo_links lm (present t) (rev (us_redo (h_stack h))) (n # ns)"
    using assms Cons unfolding follows_def by metis
  then obtain e es where e: "rev (us_redo (h_stack h)) = e # es"
    using redo_links_cases(2) by blast
  then have us: "us_redo (h_stack h) = rev es @ [e]" by (simp add: rev_swap)
  have l: "replayable lm (ue_forward e) (present t) n" "redo_links lm n es ns"
    "same_content (h_scene h) (present t)"
    using assms Cons e unfolding follows_def by simp_all
  obtain sc' iv where a: "apply_object_op lm (h_scene h) (ue_forward e) = (sc', Inr iv)" "same_content sc' n"
    "takes lm iv n (present t)" "undo_ready n"
    using replay_on_content[OF l(1,3)] by blast
  have "host_step lm h DoRedo = \<lparr>h_scene = sc', h_stack = (h_stack h)
      \<lparr>us_redo := rev es, us_pending := None,
        us_undo := us_undo (h_stack h) @ [\<lparr>ue_forward = ue_forward e, ue_inverse = iv\<rparr>]\<rparr>\<rparr>"
    using assms us a(1)
    by (simp add: follows_def redo_def flush_coalesce_def host_answer_def note_redo_applied_def)
  moreover have "timeline_step lm t DoRedo = \<lparr>past = present t # past t, present = n, future = ns\<rparr>"
    using Cons by simp
  ultimately show ?thesis using assms l a(2-4) unfolding follows_def by simp
qed

lemma step_follows:
  assumes "follows lm h t" "command_ok c"
  shows "follows lm (host_step lm h c) (timeline_step lm t c)"
  using assms edit_follows[OF assms(1)] undo_follows[OF assms(1)] redo_follows[OF assms(1)]
  by (cases c) auto

lemma run_follows:
  assumes "follows lm h t" "list_all command_ok cs"
  shows "follows lm (host_run lm h cs) (timeline_run lm t cs)"
  using assms
  by (induction cs arbitrary: h t) (simp_all add: host_run_def timeline_run_def step_follows)

lemma start_follows:
  assumes "undo_ready sc"
  shows "follows lm \<lparr>h_scene = sc, h_stack = undo_stack_new actor\<rparr> \<lparr>past = [], present = sc, future = []\<rparr>"
  using assms by (simp add: follows_def undo_stack_new_def)

section \<open>The loop over the wrapper\<close>

text \<open>
  What the shell does with \<open>WasmUndoStack\<close>: author and record; or take the operation
  handed out, apply it, and report the inverse, or abort when the kernel refuses.
\<close>

record shell =
  sh_scene :: scene
  sh_stack :: wasm_undo_stack

definition shell_edit :: "libm \<Rightarrow> shell \<Rightarrow> object_op \<Rightarrow> shell" where
  "shell_edit lm h op =
     (case apply_object_op lm (sh_scene h) op of
        (sc', Inl _) \<Rightarrow> h\<lparr>sh_scene := sc'\<rparr>
      | (sc', Inr iv) \<Rightarrow> \<lparr>sh_scene = sc', sh_stack = fst (wasm_record (sh_stack h) (Some op) (Some iv))\<rparr>)"

definition shell_answer ::
    "libm \<Rightarrow> shell \<Rightarrow> (wasm_undo_stack \<Rightarrow> object_op option \<Rightarrow> stack_panic + wasm_undo_stack \<times> bool) \<Rightarrow>
     wasm_undo_stack \<times> object_op option \<Rightarrow> shell" where
  "shell_answer lm h note r =
     (case r of
        (st, None) \<Rightarrow> h\<lparr>sh_stack := st\<rparr>
      | (st, Some op) \<Rightarrow>
          (case apply_object_op lm (sh_scene h) op of
             (sc', Inl _) \<Rightarrow> \<lparr>sh_scene = sc', sh_stack = wasm_abort st\<rparr>
           | (sc', Inr iv) \<Rightarrow>
               (case note st (Some iv) of
                  Inl _ \<Rightarrow> \<lparr>sh_scene = sc', sh_stack = st\<rparr>
                | Inr (st', _) \<Rightarrow> \<lparr>sh_scene = sc', sh_stack = st'\<rparr>)))"

fun shell_step :: "libm \<Rightarrow> shell \<Rightarrow> command \<Rightarrow> shell" where
  "shell_step lm h (DoEdit op) = shell_edit lm h op"
| "shell_step lm h DoUndo = shell_answer lm h wasm_note_undo_applied (wasm_undo (sh_stack h))"
| "shell_step lm h DoRedo = shell_answer lm h wasm_note_redo_applied (wasm_redo (sh_stack h))"

definition shell_run :: "libm \<Rightarrow> shell \<Rightarrow> command list \<Rightarrow> shell" where
  "shell_run lm h cs = fold (\<lambda>c h. shell_step lm h c) cs h"

definition shell_start :: "scene \<Rightarrow> str \<Rightarrow> shell" where
  "shell_start sc actor = \<lparr>sh_scene = sc, sh_stack = wasm_undo_new actor\<rparr>"

definition wraps :: "shell \<Rightarrow> host \<Rightarrow> bool" where
  "wraps s h \<longleftrightarrow> sh_scene s = h_scene h \<and> wu_inner (sh_stack s) = h_stack h \<and> mirrors (sh_stack s)"

lemma shell_undo_wraps:
  assumes "wraps s h"
  shows "wraps (shell_step lm s DoUndo) (host_step lm h DoUndo)"
proof (cases "undo (h_stack h)")
  case (Pair st r)
  show ?thesis
  proof (cases r)
    case None
    then show ?thesis using assms Pair undo_pending(1)[of "h_stack h" st]
      by (simp add: wraps_def shell_answer_def host_answer_def wasm_undo_def mirrors_def)
  next
    case (Some op)
    then obtain f where "us_pending st = Some (PendingUndo f)" using Pair undo_pending(2) by blast
    then show ?thesis using assms Pair Some
      by (auto simp: wraps_def shell_answer_def host_answer_def wasm_undo_def mirrors_def
          wasm_note_undo_applied_def note_undo_applied_def wasm_abort_def abort_pending_def
          split: prod.splits sum.splits)
  qed
qed

lemma shell_redo_wraps:
  assumes "wraps s h"
  shows "wraps (shell_step lm s DoRedo) (host_step lm h DoRedo)"
proof (cases "redo (h_stack h)")
  case (Pair st r)
  show ?thesis
  proof (cases r)
    case None
    then show ?thesis using assms Pair undo_pending(3)[of "h_stack h" st]
      by (simp add: wraps_def shell_answer_def host_answer_def wasm_redo_def mirrors_def)
  next
    case (Some op)
    then obtain f where "us_pending st = Some (PendingRedo f)" using Pair undo_pending(4) by blast
    then show ?thesis using assms Pair Some
      by (auto simp: wraps_def shell_answer_def host_answer_def wasm_redo_def mirrors_def
          wasm_note_redo_applied_def note_redo_applied_def wasm_abort_def abort_pending_def
          split: prod.splits sum.splits)
  qed
qed

lemma shell_step_wraps:
  assumes "wraps s h"
  shows "wraps (shell_step lm s c) (host_step lm h c)"
proof (cases c)
  case (DoEdit op)
  then show ?thesis using assms
    by (auto simp: wraps_def shell_edit_def host_edit_def wasm_record_def mirrors_def
        split: prod.splits sum.splits)
qed (use shell_undo_wraps[OF assms] shell_redo_wraps[OF assms] in simp_all)

lemma shell_run_wraps: "wraps s h \<Longrightarrow> wraps (shell_run lm s cs) (host_run lm h cs)"
  by (induction cs arbitrary: s h) (simp_all add: shell_run_def host_run_def shell_step_wraps)

lemma shell_start_wraps: "wraps (shell_start sc actor) \<lparr>h_scene = sc, h_stack = undo_stack_new actor\<rparr>"
  by (simp add: wraps_def shell_start_def mirrors_steps) (simp add: wasm_undo_new_def)

section \<open>Gestures\<close>

text \<open>A drag: a coalescing window around edits of one transform.\<close>

definition drag :: "libm \<Rightarrow> host \<Rightarrow> object_id \<Rightarrow> transform list \<Rightarrow> host" where
  "drag lm h oid ts =
     (let h1 = h\<lparr>h_stack := begin_coalesce (h_stack h)\<rparr>;
          h2 = fold (\<lambda>t h. host_edit lm h (SetTransform oid t)) ts h1
      in h2\<lparr>h_stack := end_coalesce (h_stack h2)\<rparr>)"

definition with_transform :: "scene \<Rightarrow> nat \<Rightarrow> transform \<Rightarrow> scene" where
  "with_transform sc idx t = modify_at sc idx (\<lambda>ob. ob\<lparr>o_transform := t\<rparr>)"

lemma set_transform_inner:
  assumes "index_of sc oid = Some idx"
  shows "apply_object_op lm sc (SetTransform oid t) =
    (with_version (scene_version sc + 1) (with_transform sc idx t),
     Inr (SetTransform oid (o_transform (object_at sc idx))))"
  using assms
  by (simp add: apply_object_op_def apply_set_transform_def with_index_def with_transform_def
      with_version_def modify_at_def)

lemma version_of_with_version [simp]: "scene_version (with_version v sc) = v"
  by (simp add: with_version_def)

lemma with_transform_version [simp]:
  "with_transform (with_version v sc) idx t = with_version v (with_transform sc idx t)"
  by (simp add: with_transform_def)

lemma with_transform_simps:
  assumes "index_of sc oid = Some idx"
  shows "index_of (with_transform sc idx t) oid = Some idx"
    "with_transform (with_transform sc idx t) idx t' = with_transform sc idx t'"
    "with_transform sc idx (o_transform (object_at sc idx)) = sc"
proof -
  have b: "idx < length (objects sc)"
    using assms by (auto simp: index_of_def dest: position_Some)
  show "index_of (with_transform sc idx t) oid = Some idx"
    using assms by (simp add: with_transform_def index_of_modify_at)
  show "with_transform (with_transform sc idx t) idx t' = with_transform sc idx t'"
    using b by (simp add: with_transform_def modify_at_modify_at)
  show "with_transform sc idx (o_transform (object_at sc idx)) = sc"
    using b by (simp add: with_transform_def modify_at_def object_at_def)
qed

abbreviation (input) live_entry :: "object_id \<Rightarrow> transform \<Rightarrow> transform \<Rightarrow> undo_entry" where
  "live_entry oid new old \<equiv> \<lparr>ue_forward = SetTransform oid new, ue_inverse = SetTransform oid old\<rparr>"

text \<open>Inside the window the first inverse stays and the forward operation is replaced.\<close>

lemma drag_loop:
  assumes "index_of sc oid = Some idx"
    and "h = \<lparr>h_scene = with_version v (with_transform sc idx t),
          h_stack = st\<lparr>us_open := True, us_redo := [], us_coalescing := Some (live_entry oid t old)\<rparr>\<rparr>"
  shows "\<exists>w. fold (\<lambda>t h. host_edit lm h (SetTransform oid t)) ts h =
     \<lparr>h_scene = with_version w (with_transform sc idx (last (t # ts))),
      h_stack = st\<lparr>us_open := True, us_redo := [],
                  us_coalescing := Some (live_entry oid (last (t # ts)) old)\<rparr>\<rparr>"
  using assms(2)
proof (induction ts arbitrary: h t v)
  case Nil
  then show ?case by auto
next
  case (Cons t' ts)
  have "host_edit lm h (SetTransform oid t') =
     \<lparr>h_scene = with_version (v + 1) (with_transform sc idx t'),
      h_stack = st\<lparr>us_open := True, us_redo := [], us_coalescing := Some (live_entry oid t' old)\<rparr>\<rparr>"
    using assms(1) Cons.prems set_transform_inner[of "with_version v (with_transform sc idx t)" oid idx lm t']
    by (simp add: host_edit_def with_transform_simps record_edit_def is_noop_inverse_def)
  then show ?case using Cons.IH[of _ "v + 1" t'] by simp
qed

lemma drag_result:
  assumes "index_of (h_scene h) oid = Some idx" "ts \<noteq> []"
    and "\<not> us_open (h_stack h)" "us_coalescing (h_stack h) = None"
  shows "\<exists>w. drag lm h oid ts =
     \<lparr>h_scene = with_version w (with_transform (h_scene h) idx (last ts)),
      h_stack = (h_stack h)\<lparr>us_redo := [], us_undo := us_undo (h_stack h) @
         [live_entry oid (last ts) (o_transform (object_at (h_scene h) idx))]\<rparr>\<rparr>"
proof -
  obtain t ts' where ts: "ts = t # ts'" using assms(2) by (cases ts) auto
  let ?sc = "h_scene h" and ?st = "h_stack h"
  let ?old = "o_transform (object_at ?sc idx)"
  have "host_edit lm (h\<lparr>h_stack := begin_coalesce ?st\<rparr>) (SetTransform oid t) =
    \<lparr>h_scene = with_version (scene_version ?sc + 1) (with_transform ?sc idx t),
     h_stack = ?st\<lparr>us_open := True, us_redo := [], us_coalescing := Some (live_entry oid t ?old)\<rparr>\<rparr>"
    using assms set_transform_inner[OF assms(1), of lm t]
    by (simp add: host_edit_def begin_coalesce_def record_edit_def is_noop_inverse_def)
  from drag_loop[OF assms(1) this, of lm ts']
  obtain w where w: "fold (\<lambda>t h. host_edit lm h (SetTransform oid t)) ts (h\<lparr>h_stack := begin_coalesce ?st\<rparr>) =
     \<lparr>h_scene = with_version w (with_transform ?sc idx (last ts)),
      h_stack = ?st\<lparr>us_open := True, us_redo := [],
                  us_coalescing := Some (live_entry oid (last ts) ?old)\<rparr>\<rparr>"
    by (auto simp: ts)
  then show ?thesis using assms(3,4)
    by (cases ?st) (auto simp: drag_def Let_def end_coalesce_def)
qed

text \<open>Undoing a move on the moved scene.\<close>

lemma undo_of_transform:
  assumes "index_of sc oid = Some idx"
  shows "apply_object_op lm (with_version w (with_transform sc idx t))
      (SetTransform oid (o_transform (object_at sc idx))) =
    (with_version (w + 1) sc, Inr (SetTransform oid t))"
proof -
  have b: "idx < length (objects sc)" using assms by (auto simp: index_of_def dest: position_Some)
  then have "o_transform (object_at (with_transform sc idx t) idx) = t"
    by (simp add: with_transform_def object_at_modify_at)
  then show ?thesis
    using set_transform_inner[of "with_version w (with_transform sc idx t)" oid idx lm
        "o_transform (object_at sc idx)"] assms
    by (simp add: with_transform_simps)
qed

lemma undo_links_length: "undo_links lm now es ps \<Longrightarrow> length es = length ps"
  by (induction lm now es ps rule: undo_links.induct) auto

lemma redo_links_length: "redo_links lm now es ns \<Longrightarrow> length es = length ns"
  by (induction lm now es ns rule: redo_links.induct) auto

end
