(* ===== verification/Selection.thy ===== *)
theory Selection
  imports Model
begin

text \<open>
  Selection queries: \<open>kernel/selection.rs\<close>, the rule that drops dead ids and collapses the
  kind of a selection.
\<close>

fun collapse :: "object_id list \<Rightarrow> object_selection" where
  "collapse [] = SelCanvas"
| "collapse [i] = SelObject i"
| "collapse ids = SelMulti ids"

fun valid_selection :: "scene \<Rightarrow> object_selection \<Rightarrow> object_selection" where
  "valid_selection sc SelCanvas = SelCanvas"
| "valid_selection sc (SelObject i) = (if has_object sc i then SelObject i else SelCanvas)"
| "valid_selection sc (SelMulti ids) = collapse (filter (has_object sc) ids)"

definition select_all :: "scene \<Rightarrow> object_selection" where
  "select_all sc = collapse (map o_id (objects sc))"

fun selected_ids :: "object_selection \<Rightarrow> object_id list" where
  "selected_ids SelCanvas = []"
| "selected_ids (SelObject i) = [i]"
| "selected_ids (SelMulti ids) = ids"

text \<open>The kind of a selection fits the number of its ids.\<close>

definition canonical_selection :: "object_selection \<Rightarrow> bool" where
  "canonical_selection s \<longleftrightarrow> collapse (selected_ids s) = s"

lemma selected_collapse [simp]: "selected_ids (collapse ids) = ids"
  by (cases ids rule: collapse.cases) auto

lemma canonical_collapse [simp]: "canonical_selection (collapse ids)"
  by (simp add: canonical_selection_def)

lemma canonical_small [simp]: "canonical_selection SelCanvas" "canonical_selection (SelObject i)"
  by (simp_all add: canonical_selection_def)

lemma valid_selection_ids:
  "selected_ids (valid_selection sc s) = filter (has_object sc) (selected_ids s)"
  by (cases s) auto

lemma valid_selection_canonical: "canonical_selection (valid_selection sc s)"
  by (cases s) auto

lemma canonical_eqI:
  "canonical_selection s \<Longrightarrow> canonical_selection s' \<Longrightarrow> selected_ids s = selected_ids s' \<Longrightarrow> s = s'"
  by (metis canonical_selection_def)

text \<open>The rule in one line: the collapse of the live ids.\<close>

lemma valid_selection_collapse:
  "valid_selection sc s = collapse (filter (has_object sc) (selected_ids s))"
  by (rule canonical_eqI) (simp_all add: valid_selection_canonical valid_selection_ids)

lemma valid_selection_idem: "valid_selection sc (valid_selection sc s) = valid_selection sc s"
  by (simp add: valid_selection_collapse)

lemma valid_selection_mono:
  assumes "\<And>i. has_object sc' i \<Longrightarrow> has_object sc i"
  shows "valid_selection sc' (valid_selection sc s) = valid_selection sc' s"
  using assms by (simp add: valid_selection_collapse) (metis (mono_tags, lifting) filter_cong)

lemma select_all_valid: "valid_selection sc (select_all sc) = select_all sc"
proof -
  have "filter (has_object sc) (map o_id (objects sc)) = map o_id (objects sc)"
    by (rule filter_True) (auto simp: has_object_def)
  then show ?thesis by (simp add: valid_selection_collapse select_all_def)
qed

end
