(* ===== verification/Wire.thy ===== *)
theory Wire
  imports Ops Decimal
begin

text \<open>
  The wire protocol types of \<open>scene-core/src/wire.rs\<close> and the two rectangles of
  \<open>scene-core/src/model.rs\<close> they carry. JSON encoding is the derived one of
  \<open>serde\<close>; the operation codec is a parameter (\<open>codec\<close>) of what uses it.
\<close>

record world_point =
  wp_x :: f64
  wp_y :: f64

record bounds =
  bd_x :: f64
  bd_y :: f64
  bd_width :: f64
  bd_height :: f64

record region =
  rg_canvas :: str
  rg_bbox :: "bounds option"

record op_id =
  oi_client :: str
  oi_seq :: i64

record wire_op =
  wo_op_id :: op_id
  wo_object_id :: str
  wo_kind :: str
  wo_prop_delta :: json
  wo_base_revision :: i64
  wo_actor :: str
  wo_ts :: str

datatype client_message =
    Hello str region i64
  | Subscribe str region
  | ClientOps "wire_op list"
  | ClientPresence str json
  | Resume str i64

datatype server_message =
    Welcome "scene option" "i64 option" i64 i64
  | Ack "op_id list" i64 i64
  | Patch "wire_op list" i64
  | ServerPresence json
  | ServerError str

datatype channel = ReliableOrdered | EphemeralBestEffort

fun channel_as_str :: "channel \<Rightarrow> str" where
  "channel_as_str ReliableOrdered = ''reliable_ordered''"
| "channel_as_str EphemeralBestEffort = ''ephemeral_besteffort''"

text \<open>
  \<open>serde_json::to_value\<close> and \<open>from_value\<close> at \<open>ObjectOp\<close>, generated by the derive macros.
\<close>

record codec =
  c_enc :: "object_op \<Rightarrow> json"
  c_dec :: "json \<Rightarrow> object_op option"

text \<open>\<open>client_runtime::outbox::op_id_key\<close>: \<open>clientId:localSeq\<close>.\<close>

definition op_id_key :: "op_id \<Rightarrow> str" where
  "op_id_key oi = oi_client oi @ '':'' @ show_int (sint (oi_seq oi))"

section \<open>The key of an operation id is unique\<close>

fun nat_of_digits :: "str \<Rightarrow> nat" where
  "nat_of_digits ds = foldl (\<lambda>n c. 10 * n + (byte c - 48)) 0 ds"

lemma nat_of_digits_show: "nat_of_digits (show_nat n) = n"
proof (induction n rule: show_nat.induct)
  case (1 n)
  then show ?case by (subst show_nat.simps) (simp add: byte_digit_char)
qed

lemma show_nat_inj: "show_nat m = show_nat n \<longleftrightarrow> m = n"
  using nat_of_digits_show by metis

lemma show_nat_no_minus: "show_nat n \<noteq> CHR ''-'' # cs"
  using show_nat_digits[of "CHR ''-''" n] by auto

lemma show_int_inj: "show_int m = show_int n \<longleftrightarrow> m = n"
  by (auto simp: show_int_def show_nat_inj show_nat_no_minus show_nat_no_minus[symmetric] split: if_splits)

lemma show_int_no_colon: "CHR '':'' \<notin> set (show_int n)"
  using show_int_chars[of "CHR '':''" n] by auto

lemma takeWhile_until_colon:
  "c \<notin> set ys \<Longrightarrow> takeWhile (\<lambda>x. x \<noteq> c) (ys @ c # xs) = ys"
  by (induction ys) auto

lemma append_last_colon:
  assumes "xs @ c # ys = xs' @ c # ys'" "c \<notin> set ys" "c \<notin> set ys'"
  shows "xs = xs' \<and> ys = ys'"
proof -
  have "rev ys @ c # rev xs = rev ys' @ c # rev xs'" using arg_cong[OF assms(1), of rev] by simp
  then have "rev ys = rev ys'"
    using takeWhile_until_colon[of c "rev ys"] takeWhile_until_colon[of c "rev ys'"] assms(2,3)
    by (metis set_rev)
  with assms(1) show ?thesis by simp
qed

lemma op_id_key_inj: "op_id_key a = op_id_key b \<longleftrightarrow> a = b"
proof
  assume "op_id_key a = op_id_key b"
  then have "oi_client a = oi_client b \<and> show_int (sint (oi_seq a)) = show_int (sint (oi_seq b))"
    unfolding op_id_key_def by (intro append_last_colon[of _ "CHR '':''"]) (simp_all add: show_int_no_colon)
  then show "a = b" by (cases a; cases b) (simp add: show_int_inj signed_word_eqI)
qed simp

end
