(* ===== verification/Outbox.thy ===== *)
theory Outbox
  imports Wire "HOL-Library.Multiset"
begin

text \<open>
  The durable outbox of unacknowledged operations: \<open>client-runtime/src/outbox.rs\<close>. The
  port \<open>OutboxStore\<close> is a record of operations, each with the error its signature
  allows, and its contract is the locale \<open>outbox_store\<close>; the in-memory store is the
  provider.
\<close>

section \<open>The port\<close>

type_synonym outbox_entry = wire_op

datatype outbox_error = OutboxError str

text \<open>\<open>&mut self\<close> methods return the store also when they fail.\<close>

record 's outbox_ops =
  ox_append :: "'s \<Rightarrow> outbox_entry \<Rightarrow> 's \<times> (outbox_error + unit)"
  ox_all :: "'s \<Rightarrow> outbox_error + outbox_entry list"
  ox_remove :: "'s \<Rightarrow> op_id list \<Rightarrow> 's \<times> (outbox_error + unit)"
  ox_clear :: "'s \<Rightarrow> 's \<times> (outbox_error + unit)"
  ox_next_seq :: "'s \<Rightarrow> 's \<times> (outbox_error + i64)"
  ox_reseed :: "'s \<Rightarrow> outbox_entry list \<Rightarrow> 's \<times> (outbox_error + unit)"

text \<open>The trait's default \<open>reseed\<close>: clear, then append row by row.\<close>

fun append_all ::
    "('s \<Rightarrow> outbox_entry \<Rightarrow> 's \<times> (outbox_error + unit)) \<Rightarrow> 's \<Rightarrow> outbox_entry list \<Rightarrow>
     's \<times> (outbox_error + unit)" where
  "append_all app s [] = (s, Inr ())"
| "append_all app s (e # es) =
     (case app s e of (s', Inl err) \<Rightarrow> (s', Inl err) | (s', Inr _) \<Rightarrow> append_all app s' es)"

definition reseed_default ::
    "('s \<Rightarrow> outbox_entry \<Rightarrow> 's \<times> (outbox_error + unit)) \<Rightarrow> ('s \<Rightarrow> 's \<times> (outbox_error + unit)) \<Rightarrow>
     's \<Rightarrow> outbox_entry list \<Rightarrow> 's \<times> (outbox_error + unit)" where
  "reseed_default app clr s es =
     (case clr s of (s', Inl err) \<Rightarrow> (s', Inl err) | (s', Inr _) \<Rightarrow> append_all app s' es)"

section \<open>The in-memory store\<close>

record memory_outbox =
  mo_entries :: "outbox_entry list"
  mo_seq :: i64

definition memory_outbox_new :: memory_outbox where
  "memory_outbox_new = \<lparr>mo_entries = [], mo_seq = 0\<rparr>"

definition entry_seq :: "outbox_entry \<Rightarrow> int" where
  "entry_seq e = sint (oi_seq (wo_op_id e))"

definition entry_key :: "outbox_entry \<Rightarrow> str" where
  "entry_key e = op_id_key (wo_op_id e)"

definition mem_append :: "memory_outbox \<Rightarrow> outbox_entry \<Rightarrow> memory_outbox \<times> (outbox_error + unit)" where
  "mem_append m e = (m\<lparr>mo_entries := mo_entries m @ [e]\<rparr>, Inr ())"

text \<open>\<open>sort_by_key\<close> is stable, and so is \<open>sort_key\<close>.\<close>

definition mem_all :: "memory_outbox \<Rightarrow> outbox_error + outbox_entry list" where
  "mem_all m = Inr (sort_key entry_seq (mo_entries m))"

definition mem_remove :: "memory_outbox \<Rightarrow> op_id list \<Rightarrow> memory_outbox \<times> (outbox_error + unit)" where
  "mem_remove m ois =
     (if ois = [] then (m, Inr ())
      else let dropped = set (map op_id_key ois) in
        (m\<lparr>mo_entries := filter (\<lambda>e. entry_key e \<notin> dropped) (mo_entries m)\<rparr>, Inr ()))"

definition mem_clear :: "memory_outbox \<Rightarrow> memory_outbox \<times> (outbox_error + unit)" where
  "mem_clear m = (m\<lparr>mo_entries := []\<rparr>, Inr ())"

definition mem_next_local_seq :: "memory_outbox \<Rightarrow> memory_outbox \<times> (outbox_error + i64)" where
  "mem_next_local_seq m = (let n = mo_seq m + 1 in (m\<lparr>mo_seq := n\<rparr>, Inr n))"

fun max_seq :: "outbox_entry list \<Rightarrow> i64 option" where
  "max_seq [] = None"
| "max_seq (e # es) =
     (case max_seq es of
        None \<Rightarrow> Some (oi_seq (wo_op_id e))
      | Some m \<Rightarrow> Some (if sint m < entry_seq e then oi_seq (wo_op_id e) else m))"

definition mem_reseed :: "memory_outbox \<Rightarrow> outbox_entry list \<Rightarrow> memory_outbox \<times> (outbox_error + unit)" where
  "mem_reseed m es =
     (\<lparr>mo_entries = es, mo_seq = (case max_seq es of None \<Rightarrow> 0 | Some n \<Rightarrow> n)\<rparr>, Inr ())"

definition mem_ops :: "memory_outbox outbox_ops" where
  "mem_ops = \<lparr>ox_append = mem_append, ox_all = mem_all, ox_remove = mem_remove, ox_clear = mem_clear,
     ox_next_seq = mem_next_local_seq, ox_reseed = mem_reseed\<rparr>"

section \<open>The contract\<close>

text \<open>
  \<open>rows\<close> are the stored entries in insertion order and \<open>high\<close> the last sequence number
  handed out. A store that keeps the contract never fails before the counter is exhausted.
\<close>

locale outbox_store =
  fixes io :: "'s outbox_ops"
    and rows :: "'s \<Rightarrow> outbox_entry list"
    and high :: "'s \<Rightarrow> int"
  assumes append_law: "\<And>s e. \<exists>s'. ox_append io s e = (s', Inr ()) \<and> rows s' = rows s @ [e] \<and> high s' = high s"
    and all_law: "\<And>s. ox_all io s = Inr (sort_key entry_seq (rows s))"
    and remove_law: "\<And>s ois. \<exists>s'. ox_remove io s ois = (s', Inr ()) \<and>
        rows s' = filter (\<lambda>e. entry_key e \<notin> op_id_key ` set ois) (rows s) \<and> high s' = high s"
    and clear_law: "\<And>s. \<exists>s'. ox_clear io s = (s', Inr ()) \<and> rows s' = [] \<and> high s' = high s"
    and next_law: "\<And>s. high s < 2 ^ 63 - 1 \<Longrightarrow> \<exists>s' n. ox_next_seq io s = (s', Inr n) \<and>
        sint n = high s + 1 \<and> rows s' = rows s \<and> high s' = sint n"
    and reseed_law: "\<And>s es. \<exists>s'. ox_reseed io s es = (s', Inr ()) \<and> rows s' = es"
begin

text \<open>Ids are unique and none is above the counter.\<close>

definition rows_ok :: "'s \<Rightarrow> bool" where
  "rows_ok s \<longleftrightarrow> distinct (map entry_key (rows s)) \<and> (\<forall>e \<in> set (rows s). entry_seq e \<le> high s)"

lemma minted_fresh:
  assumes "rows_ok s" "sint (oi_seq oi) = high s + 1"
  shows "op_id_key oi \<notin> entry_key ` set (rows s)"
proof
  assume "op_id_key oi \<in> entry_key ` set (rows s)"
  then obtain e where e: "e \<in> set (rows s)" "wo_op_id e = oi"
    by (auto simp: entry_key_def op_id_key_inj)
  then have "entry_seq e \<le> high s" using assms(1) by (auto simp: rows_ok_def)
  with e(2) assms(2) show False by (simp add: entry_seq_def)
qed

lemma mint_and_append:
  assumes "rows_ok s" "high s < 2 ^ 63 - 1"
  shows "\<exists>s1 n. ox_next_seq io s = (s1, Inr n) \<and> rows s1 = rows s \<and> sint n = high s + 1 \<and>
    (\<forall>e. oi_seq (wo_op_id e) = n \<longrightarrow> entry_key e \<notin> entry_key ` set (rows s) \<and>
      (\<exists>s2. ox_append io s1 e = (s2, Inr ()) \<and> rows s2 = rows s @ [e] \<and> high s2 = high s + 1 \<and> rows_ok s2))"
proof -
  obtain s1 n where n: "ox_next_seq io s = (s1, Inr n)" "sint n = high s + 1" "rows s1 = rows s" "high s1 = sint n"
    using next_law[OF assms(2)] by blast
  have "entry_key e \<notin> entry_key ` set (rows s) \<and>
      (\<exists>s2. ox_append io s1 e = (s2, Inr ()) \<and> rows s2 = rows s @ [e] \<and> high s2 = high s + 1 \<and> rows_ok s2)"
    if e: "oi_seq (wo_op_id e) = n" for e
  proof -
    have fresh: "entry_key e \<notin> entry_key ` set (rows s)"
      using minted_fresh[OF assms(1), of "wo_op_id e"] e n(2) by (simp add: entry_key_def)
    obtain s2 where s2: "ox_append io s1 e = (s2, Inr ())" "rows s2 = rows s @ [e]" "high s2 = high s + 1"
      using append_law[of s1 e] n by auto
    have "entry_seq e = high s + 1" using e n(2) by (simp add: entry_seq_def)
    then have "rows_ok s2" using assms(1) fresh s2 by (fastforce simp: rows_ok_def)
    with fresh s2 show ?thesis by blast
  qed
  with n show ?thesis by blast
qed

lemma rows_ok_remove:
  "rows_ok s \<Longrightarrow> rows s' = filter P (rows s) \<Longrightarrow> high s' = high s \<Longrightarrow> rows_ok s'"
  by (auto simp: rows_ok_def distinct_map_filter)

lemma all_sorted: "\<exists>es. ox_all io s = Inr es \<and> sorted (map entry_seq es) \<and> mset es = mset (rows s)"
  by (simp add: all_law)

lemma default_reseed:
  "\<exists>s'. reseed_default (ox_append io) (ox_clear io) s es = (s', Inr ()) \<and> rows s' = es"
proof -
  obtain s0 where s0: "ox_clear io s = (s0, Inr ())" "rows s0 = []"
    using clear_law by blast
  have "\<exists>s'. append_all (ox_append io) t es = (s', Inr ()) \<and> rows s' = rows t @ es" for t
  proof (induction es arbitrary: t)
    case (Cons e es)
    obtain t' where "ox_append io t e = (t', Inr ())" "rows t' = rows t @ [e]"
      using append_law by blast
    with Cons[of t'] show ?case by auto
  qed simp
  with s0 show ?thesis by (simp add: reseed_default_def) (metis append_Nil)
qed

end

section \<open>The in-memory store keeps the contract\<close>

lemma sint_succ:
  assumes "sint (x :: i64) < 2 ^ 63 - 1"
  shows "sint (x + 1) = sint x + 1"
  using assms sint_greater_eq[of x]
  by (simp add: sint_word_ariths signed_take_bit_int_eq_self)

interpretation mem: outbox_store mem_ops mo_entries "\<lambda>m. sint (mo_seq m)"
proof
  fix m :: memory_outbox
  assume "sint (mo_seq m) < 2 ^ 63 - 1"
  then show "\<exists>s' n. ox_next_seq mem_ops m = (s', Inr n) \<and> sint n = sint (mo_seq m) + 1 \<and>
      mo_entries s' = mo_entries m \<and> sint (mo_seq s') = sint n"
    by (simp add: mem_ops_def mem_next_local_seq_def Let_def sint_succ)
qed (auto simp: mem_ops_def mem_append_def mem_all_def mem_remove_def mem_clear_def mem_reseed_def Let_def)

lemma max_seq_bound: "e \<in> set es \<Longrightarrow> \<exists>m. max_seq es = Some m \<and> entry_seq e \<le> sint m"
  by (induction es) (fastforce simp: entry_seq_def split: option.splits)+

lemma mem_reseed_ok:
  assumes "distinct (map entry_key es)"
  shows "mem.rows_ok (fst (mem_reseed m es))"
  using assms max_seq_bound by (fastforce simp: mem.rows_ok_def mem_reseed_def)

end
