(* ===== verification/SyncEngine.thy ===== *)
theory SyncEngine
  imports Outbox Apply
begin

text \<open>
  The client sync engine: \<open>client-runtime/src/sync_engine.rs\<close>. The engine is generic in its
  outbox, whose operations are the parameter \<open>io\<close>; its transport is the buffering one of
  \<open>wasm_session.rs\<close>. Rejection errors are kept as values where the code renders them
  with \<open>to_string\<close>.
\<close>

section \<open>Keys and envelopes\<close>

definition coalesce_ms_default :: i64 where
  "coalesce_ms_default = 33"

record author_result =
  ar_errors :: "apply_error list"
  ar_op_id :: "op_id option"
  ar_inverse :: "object_op option"

fun owned_keys :: "object_op \<Rightarrow> str list" where
  "owned_keys (SetTransform oid _) = [oid @ '':transform'']"
| "owned_keys (EditGeometry oid _) = [oid @ '':geometry'']"
| "owned_keys (SetText oid _) = [oid @ '':text'']"
| "owned_keys (SetStyle oid _ _) = [oid @ '':style'']"
| "owned_keys (Batch ops) = concat (map owned_keys ops)"
| "owned_keys _ = []"

definition remote_touches_owned_key :: "object_op \<Rightarrow> (str \<rightharpoonup> i64) \<Rightarrow> bool" where
  "remote_touches_owned_key op owned =
     (if owned = Map.empty then False else list_ex (\<lambda>k. owned k \<noteq> None) (owned_keys op))"

definition engine_op_kind :: "codec \<Rightarrow> object_op \<Rightarrow> str" where
  "engine_op_kind cd op =
     (case c_enc cd op of
        JObject m \<Rightarrow> (case map_of m ''kind'' of Some (JString k) \<Rightarrow> k | _ \<Rightarrow> [])
      | _ \<Rightarrow> [])"

definition wire_op_of :: "codec \<Rightarrow> object_op \<Rightarrow> str \<Rightarrow> i64 \<Rightarrow> i64 \<Rightarrow> str \<Rightarrow> wire_op" where
  "wire_op_of cd op client seq base ts =
     \<lparr>wo_op_id = \<lparr>oi_client = client, oi_seq = seq\<rparr>,
      wo_object_id = (case target_ids op of [] \<Rightarrow> [] | i # _ \<Rightarrow> i),
      wo_kind = engine_op_kind cd op,
      wo_prop_delta = c_enc cd op,
      wo_base_revision = base,
      wo_actor = client,
      wo_ts = ts\<rparr>"

section \<open>The buffering transport\<close>

type_synonym buffer_transport = "outbox_entry list"

definition send_envelopes :: "buffer_transport \<Rightarrow> outbox_entry list \<Rightarrow> buffer_transport" where
  "send_envelopes flushed entries = flushed @ entries"

definition buffer_take :: "buffer_transport \<Rightarrow> buffer_transport \<times> outbox_entry list" where
  "buffer_take flushed = ([], flushed)"

section \<open>The engine\<close>

record 's sync_engine =
  se_client_id :: str
  se_outbox :: 's
  se_transport :: buffer_transport
  se_coalesce_ms :: i64
  se_scene :: scene
  se_base_revision :: i64
  se_pending :: "outbox_entry list"
  se_timer_armed :: bool
  se_ownership :: "str \<rightharpoonup> i64"
  se_op_owned_keys :: "str \<rightharpoonup> str list"
  se_settled_keys :: "str list"

definition sync_engine_new :: "scene \<Rightarrow> str \<Rightarrow> 's \<Rightarrow> i64 option \<Rightarrow> 's sync_engine" where
  "sync_engine_new sc client ob ms =
     \<lparr>se_client_id = client, se_outbox = ob, se_transport = [],
      se_coalesce_ms = (case ms of None \<Rightarrow> coalesce_ms_default | Some m \<Rightarrow> m),
      se_scene = sc, se_base_revision = scene_version sc, se_pending = [], se_timer_armed = False,
      se_ownership = Map.empty, se_op_owned_keys = Map.empty, se_settled_keys = []\<rparr>"

definition take_settled_keys :: "'s sync_engine \<Rightarrow> 's sync_engine \<times> str list" where
  "take_settled_keys en = (en\<lparr>se_settled_keys := []\<rparr>, se_settled_keys en)"

definition outbox_len :: "'s outbox_ops \<Rightarrow> 's sync_engine \<Rightarrow> nat" where
  "outbox_len io en = (case ox_all io (se_outbox en) of Inl _ \<Rightarrow> 0 | Inr es \<Rightarrow> length es)"

definition find_outbox_entry :: "'s outbox_ops \<Rightarrow> 's sync_engine \<Rightarrow> op_id \<Rightarrow> outbox_entry option" where
  "find_outbox_entry io en oi =
     (case ox_all io (se_outbox en) of
        Inl _ \<Rightarrow> None
      | Inr es \<Rightarrow> find (\<lambda>e. entry_key e = op_id_key oi) es)"

text \<open>\<open>let _ = self.outbox.reseed(entries)\<close>: a failure is dropped.\<close>

definition reseed_outbox :: "'s outbox_ops \<Rightarrow> 's sync_engine \<Rightarrow> outbox_entry list \<Rightarrow> 's sync_engine" where
  "reseed_outbox io en es = en\<lparr>se_outbox := fst (ox_reseed io (se_outbox en) es)\<rparr>"

definition bump :: "(str \<rightharpoonup> i64) \<Rightarrow> str \<Rightarrow> (str \<rightharpoonup> i64)" where
  "bump own k = own(k \<mapsto> (case own k of None \<Rightarrow> 0 | Some c \<Rightarrow> c) + 1)"

definition take_ownership :: "'s sync_engine \<Rightarrow> op_id \<Rightarrow> str list \<Rightarrow> 's sync_engine" where
  "take_ownership en oi keys =
     en\<lparr>se_op_owned_keys := (se_op_owned_keys en)(op_id_key oi \<mapsto> keys),
        se_ownership := foldl bump (se_ownership en) keys\<rparr>"

definition release_key :: "(str \<rightharpoonup> i64) \<times> str list \<Rightarrow> str \<Rightarrow> (str \<rightharpoonup> i64) \<times> str list" where
  "release_key st k =
     (let (own, settled) = st;
          count = (case own k of None \<Rightarrow> 0 | Some c \<Rightarrow> c) - 1
      in if sint count \<le> 0 then (own(k := None), settled @ [k]) else (own(k \<mapsto> count), settled))"

definition release_ownership :: "'s sync_engine \<Rightarrow> op_id \<Rightarrow> 's sync_engine" where
  "release_ownership en oi =
     (case se_op_owned_keys en (op_id_key oi) of
        None \<Rightarrow> en
      | Some keys \<Rightarrow>
          let (own, settled) = foldl release_key (se_ownership en, se_settled_keys en) keys
          in en\<lparr>se_op_owned_keys := (se_op_owned_keys en)(op_id_key oi := None),
                se_ownership := own, se_settled_keys := settled\<rparr>)"

definition enqueue :: "'s sync_engine \<Rightarrow> outbox_entry \<Rightarrow> 's sync_engine" where
  "enqueue en e = en\<lparr>se_pending := se_pending en @ [e], se_timer_armed := True\<rparr>"

text \<open>
  \<open>author\<close>: the three early returns (kernel rejection, no-op, a failing outbox) and the
  order of the effects as in the code.
\<close>

definition author ::
    "libm \<Rightarrow> codec \<Rightarrow> 's outbox_ops \<Rightarrow> 's sync_engine \<Rightarrow> object_op \<Rightarrow> str \<Rightarrow>
     's sync_engine \<times> (outbox_error + author_result)" where
  "author lm cd io en op ts =
     (case apply_object_op lm (se_scene en) op of
        (_, Inl e) \<Rightarrow> (en, Inr \<lparr>ar_errors = [e], ar_op_id = None, ar_inverse = None\<rparr>)
      | (nxt, Inr iv) \<Rightarrow>
          if iv = Batch []
          then (en, Inr \<lparr>ar_errors = [], ar_op_id = None, ar_inverse = Some iv\<rparr>)
          else (case ox_next_seq io (se_outbox en) of
              (ob, Inl err) \<Rightarrow> (en\<lparr>se_outbox := ob\<rparr>, Inl err)
            | (ob, Inr seq) \<Rightarrow>
                let entry = wire_op_of cd op (se_client_id en) seq (se_base_revision en) ts;
                    oi = wo_op_id entry;
                    en1 = take_ownership (en\<lparr>se_outbox := ob, se_scene := nxt\<rparr>) oi (owned_keys op)
                in (case ox_append io (se_outbox en1) entry of
                      (ob2, Inl err) \<Rightarrow> (en1\<lparr>se_outbox := ob2\<rparr>, Inl err)
                    | (ob2, Inr _) \<Rightarrow>
                        (enqueue (en1\<lparr>se_outbox := ob2\<rparr>) entry,
                         Inr \<lparr>ar_errors = [], ar_op_id = Some oi, ar_inverse = Some iv\<rparr>))))"

definition apply_remote :: "libm \<Rightarrow> 's sync_engine \<Rightarrow> object_op \<Rightarrow> 's sync_engine \<times> bool" where
  "apply_remote lm en op =
     (if remote_touches_owned_key op (se_ownership en) then (en, False)
      else (case apply_object_op lm (se_scene en) op of
          (_, Inl _) \<Rightarrow> (en, False)
        | (nxt, Inr _) \<Rightarrow> (en\<lparr>se_scene := nxt\<rparr>, True)))"

definition on_ack ::
    "'s outbox_ops \<Rightarrow> 's sync_engine \<Rightarrow> op_id list \<Rightarrow> i64 option \<Rightarrow> 's sync_engine \<times> (outbox_error + unit)"
where
  "on_ack io en ois revision =
     (case ox_remove io (se_outbox en) ois of
        (ob, Inl err) \<Rightarrow> (en\<lparr>se_outbox := ob\<rparr>, Inl err)
      | (ob, Inr _) \<Rightarrow>
          let en1 = foldl release_ownership (en\<lparr>se_outbox := ob\<rparr>) ois
          in (case revision of
                None \<Rightarrow> en1
              | Some r \<Rightarrow> en1\<lparr>se_base_revision :=
                   (if sint (se_base_revision en1) < sint r then r else se_base_revision en1)\<rparr>,
              Inr ()))"

definition on_rejected ::
    "'s outbox_ops \<Rightarrow> 's sync_engine \<Rightarrow> op_id list \<Rightarrow> 's sync_engine \<times> (outbox_error + unit)" where
  "on_rejected io en ois =
     (case ox_remove io (se_outbox en) ois of
        (ob, Inl err) \<Rightarrow> (en\<lparr>se_outbox := ob\<rparr>, Inl err)
      | (ob, Inr _) \<Rightarrow> (foldl release_ownership (en\<lparr>se_outbox := ob\<rparr>) ois, Inr ()))"

definition replay_entry :: "libm \<Rightarrow> codec \<Rightarrow> 's sync_engine \<Rightarrow> outbox_entry \<Rightarrow> 's sync_engine" where
  "replay_entry lm cd en e =
     (case c_dec cd (wo_prop_delta e) of
        None \<Rightarrow> en
      | Some op \<Rightarrow>
          let en1 = (case apply_object_op lm (se_scene en) op of
                       (_, Inl _) \<Rightarrow> en
                     | (nxt, Inr _) \<Rightarrow> en\<lparr>se_scene := nxt\<rparr>)
          in take_ownership en1 (wo_op_id e) (owned_keys op))"

definition reconcile_snapshot ::
    "libm \<Rightarrow> codec \<Rightarrow> 's outbox_ops \<Rightarrow> 's sync_engine \<Rightarrow> scene \<Rightarrow> 's sync_engine \<times> (outbox_error + unit)"
where
  "reconcile_snapshot lm cd io en snapshot =
     (if sint (scene_version snapshot) < sint (se_base_revision en) then (en, Inr ())
      else
        let en1 = en\<lparr>se_base_revision := scene_version snapshot, se_scene := snapshot,
                     se_ownership := Map.empty, se_op_owned_keys := Map.empty\<rparr>
        in (case ox_all io (se_outbox en1) of
              Inl err \<Rightarrow> (en1, Inl err)
            | Inr es \<Rightarrow>
                let en2 = foldl (replay_entry lm cd) en1 es
                in (if es = [] then en2
                    else en2\<lparr>se_transport := send_envelopes (se_transport en2) es\<rparr>, Inr ())))"

definition flush :: "'s sync_engine \<Rightarrow> 's sync_engine" where
  "flush en =
     (let en1 = en\<lparr>se_timer_armed := False\<rparr> in
      if se_pending en1 = [] then en1
      else en1\<lparr>se_pending := [], se_transport := send_envelopes (se_transport en1) (se_pending en1)\<rparr>)"

definition on_flush_due :: "'s sync_engine \<Rightarrow> 's sync_engine" where
  "on_flush_due en =
     (let en1 = en\<lparr>se_timer_armed := False\<rparr> in
      if se_pending en1 = [] then en1
      else en1\<lparr>se_pending := [], se_transport := send_envelopes (se_transport en1) (se_pending en1)\<rparr>)"

end
