(* ===== verification/SyncEngine_Laws.thy ===== *)
theory SyncEngine_Laws
  imports SyncEngine
begin

text \<open>
  Laws of the client sync engine. The ownership counters count the claims of unacknowledged
  operations and a claim belongs to an entry of the outbox: proved once over the outbox
  contract, for the in-memory store through its interpretation. The last two sections run
  whole sessions: an engine built on any outbox, reseeded from durable rows at any point and
  drained by the shell, with what was shipped and what was never replayed kept beside it.
\<close>

section \<open>Counting claims\<close>

text \<open>How often the operations of \<open>m\<close> claim the key \<open>k\<close>, and all claims together.\<close>

definition claims :: "(str \<rightharpoonup> str list) \<Rightarrow> str \<Rightarrow> nat" where
  "claims m k = (\<Sum>i \<in> dom m. count_list (the (m i)) k)"

definition claim_total :: "(str \<rightharpoonup> str list) \<Rightarrow> nat" where
  "claim_total m = (\<Sum>i \<in> dom m. length (the (m i)))"

definition counted :: "(str \<rightharpoonup> i64) \<Rightarrow> (str \<Rightarrow> nat) \<Rightarrow> bool" where
  "counted own f \<longleftrightarrow> (\<forall>k. own k = (if f k = 0 then None else Some (of_nat (f k))))"

lemma claims_le_total: "finite (dom m) \<Longrightarrow> claims m k \<le> claim_total m"
  unfolding claims_def claim_total_def by (rule sum_mono) (rule count_le_length)

lemma claims_empty [simp]: "claims Map.empty k = 0"
  by (simp add: claims_def)

lemma claims_insert:
  assumes "finite (dom m)" "m i = None"
  shows "claims (m(i \<mapsto> ks)) k = claims m k + count_list ks k"
proof -
  have "(\<Sum>j \<in> dom m. count_list (the ((m(i \<mapsto> ks)) j)) k) = claims m k"
    unfolding claims_def using assms(2) by (intro sum.cong) auto
  moreover have "i \<notin> dom m" using assms(2) by auto
  ultimately show ?thesis using assms(1) by (simp add: claims_def)
qed

lemma claims_remove:
  assumes "finite (dom m)" "m i = Some ks"
  shows "claims m k = claims (m(i := None)) k + count_list ks k"
proof -
  have m: "m = (m(i := None))(i \<mapsto> ks)" using assms(2) by auto
  have "claims ((m(i := None))(i \<mapsto> ks)) k = claims (m(i := None)) k + count_list ks k"
    using assms(1) by (intro claims_insert) auto
  with m show ?thesis by metis
qed

lemma claims_pos: "finite (dom m) \<Longrightarrow> 0 < claims m k \<longleftrightarrow> (\<exists>i ks. m i = Some ks \<and> k \<in> set ks)"
proof -
  assume "finite (dom m)"
  then have "claims m k = 0 \<longleftrightarrow> (\<forall>i \<in> dom m. k \<notin> set (the (m i)))"
    by (simp add: claims_def count_list_0_iff)
  also have "\<dots> \<longleftrightarrow> \<not> (\<exists>i ks. m i = Some ks \<and> k \<in> set ks)"
    by (auto simp: dom_def)
  finally show ?thesis by auto
qed

lemma counted_bump: "counted own f \<Longrightarrow> counted (bump own k) (f(k := Suc (f k)))"
  by (auto simp: counted_def bump_def)

lemma counted_bumps:
  "counted own f \<Longrightarrow> counted (foldl bump own ks) (\<lambda>k. f k + count_list ks k)"
proof (induction ks arbitrary: own f)
  case (Cons x ks)
  have "(\<lambda>k. (f(x := Suc (f x))) k + count_list ks k) = (\<lambda>k. f k + count_list (x # ks) k)"
    by auto
  with Cons.IH[OF counted_bump[OF Cons.prems, of x]] show ?case by simp
qed simp

lemma sint_of_nat_small: "n < 2 ^ 63 \<Longrightarrow> sint (of_nat n :: i64) = int n"
  by (simp add: signed_of_nat signed_take_bit_int_eq_self)

lemma counted_release:
  assumes "counted own f" "0 < f k" "f k < 2 ^ 63"
  shows "release_key (own, settled) k =
    (if f k = 1 then (own(k := None), settled @ [k]) else (own(k \<mapsto> of_nat (f k - 1)), settled))"
proof -
  have "own k = Some (of_nat (f k))" using assms(1,2) by (simp add: counted_def)
  moreover have "(of_nat (f k) :: i64) - 1 = of_nat (f k - 1)" using assms(2) by (simp add: of_nat_diff)
  moreover have "sint (of_nat (f k - 1) :: i64) = int (f k - 1)"
    using assms(3) by (intro sint_of_nat_small) simp
  ultimately show ?thesis using assms(2) by (auto simp: release_key_def Let_def)
qed

lemma counted_release_step:
  assumes "counted own f" "0 < f k" "f k < 2 ^ 63"
  shows "\<exists>own' new. release_key (own, settled) k = (own', settled @ new) \<and>
    counted own' (f(k := f k - 1)) \<and> set new = {j. j = k \<and> f k = 1}"
  using assms counted_release[OF assms, of settled] by (cases "f k = 1") (auto simp: counted_def)

lemma counted_releases:
  assumes "counted own f" "\<forall>k. count_list ks k \<le> f k" "\<forall>k. f k < 2 ^ 63"
  shows "\<exists>own' new. foldl release_key (own, settled) ks = (own', settled @ new) \<and>
    counted own' (\<lambda>k. f k - count_list ks k) \<and> set new = {k \<in> set ks. f k = count_list ks k}"
  using assms
proof (induction ks arbitrary: own f settled)
  case (Cons x ks)
  have x: "0 < f x" using Cons.prems(2)[rule_format, of x] by simp
  obtain own1 new1 where 1: "release_key (own, settled) x = (own1, settled @ new1)"
    "counted own1 (f(x := f x - 1))" "set new1 = {j. j = x \<and> f x = 1}"
    using counted_release_step[OF Cons.prems(1) x, of settled] Cons.prems(3) by blast
  have le: "count_list ks k \<le> (f(x := f x - 1)) k" for k
    using Cons.prems(2)[rule_format, of k] x by (cases "k = x") auto
  have lt: "(f(x := f x - 1)) k < 2 ^ 63" for k
    using Cons.prems(3)[rule_format, of k] by (cases "k = x") auto
  obtain own2 new2 where 2: "foldl release_key (own1, settled @ new1) ks = (own2, (settled @ new1) @ new2)"
    "counted own2 (\<lambda>k. (f(x := f x - 1)) k - count_list ks k)"
    "set new2 = {k \<in> set ks. (f(x := f x - 1)) k = count_list ks k}"
    using Cons.IH[OF 1(2)] le lt by blast
  have "(\<lambda>k. (f(x := f x - 1)) k - count_list ks k) = (\<lambda>k. f k - count_list (x # ks) k)"
    by auto
  with 2(2) have "counted own2 (\<lambda>k. f k - count_list (x # ks) k)" by simp
  moreover have "k \<in> set (new1 @ new2) \<longleftrightarrow> k \<in> set (x # ks) \<and> f k = count_list (x # ks) k" for k
  proof (cases "k = x")
    case True
    have "x \<in> set ks \<or> count_list ks x = 0" by (simp add: count_list_0_iff)
    then show ?thesis using True x Cons.prems(2)[rule_format, of x] by (auto simp: 1(3) 2(3))
  next
    case False
    then show ?thesis by (auto simp: 1(3) 2(3))
  qed
  then have "set (new1 @ new2) = {k \<in> set (x # ks). f k = count_list (x # ks) k}" by blast
  moreover have "foldl release_key (own, settled) (x # ks) = (own2, settled @ (new1 @ new2))"
    using 1(1) 2(1) by simp
  ultimately show ?case by blast
qed (auto simp: counted_def)

section \<open>The engine's invariant\<close>

datatype engine_event =
    EvAuthor object_op str
  | EvRemote object_op
  | EvAck "op_id list" "i64 option"
  | EvReject "op_id list"
  | EvSnapshot scene
  | EvFlush
  | EvFlushDue
  | EvTakeSettled

fun engine_step ::
    "libm \<Rightarrow> codec \<Rightarrow> 's outbox_ops \<Rightarrow> 's sync_engine \<Rightarrow> engine_event \<Rightarrow> 's sync_engine" where
  "engine_step lm cd io en (EvAuthor op ts) = fst (author lm cd io en op ts)"
| "engine_step lm cd io en (EvRemote op) = fst (apply_remote lm en op)"
| "engine_step lm cd io en (EvAck ois r) = fst (on_ack io en ois r)"
| "engine_step lm cd io en (EvReject ois) = fst (on_rejected io en ois)"
| "engine_step lm cd io en (EvSnapshot sc) = fst (reconcile_snapshot lm cd io en sc)"
| "engine_step lm cd io en EvFlush = flush en"
| "engine_step lm cd io en EvFlushDue = on_flush_due en"
| "engine_step lm cd io en EvTakeSettled = fst (take_settled_keys en)"

text \<open>The counters agree with the claims.\<close>

definition ownership_ok :: "'s sync_engine \<Rightarrow> bool" where
  "ownership_ok en \<longleftrightarrow> finite (dom (se_op_owned_keys en)) \<and>
     counted (se_ownership en) (claims (se_op_owned_keys en))"

lemma take_ownership_ok:
  assumes "ownership_ok en" "se_op_owned_keys en (op_id_key oi) = None"
  shows "ownership_ok (take_ownership en oi ks)"
proof -
  have "(\<lambda>k. claims (se_op_owned_keys en) k + count_list ks k) =
      claims ((se_op_owned_keys en)(op_id_key oi \<mapsto> ks))"
    using assms by (auto simp: ownership_ok_def claims_insert)
  then show ?thesis
    using assms counted_bumps[of "se_ownership en" "claims (se_op_owned_keys en)" ks]
    by (simp add: ownership_ok_def take_ownership_def)
qed

lemma release_ownership_law:
  assumes "ownership_ok en" "claim_total (se_op_owned_keys en) < 2 ^ 63"
  shows "\<exists>new. ownership_ok (release_ownership en oi) \<and>
    se_op_owned_keys (release_ownership en oi) = (se_op_owned_keys en)(op_id_key oi := None) \<and>
    claim_total (se_op_owned_keys (release_ownership en oi)) < 2 ^ 63 \<and>
    se_settled_keys (release_ownership en oi) = se_settled_keys en @ new \<and>
    (\<forall>k. k \<in> set new \<longleftrightarrow> se_ownership en k \<noteq> None \<and> se_ownership (release_ownership en oi) k = None)"
proof (cases "se_op_owned_keys en (op_id_key oi)")
  case None
  then have "release_ownership en oi = en" "(se_op_owned_keys en)(op_id_key oi := None) = se_op_owned_keys en"
    by (auto simp: release_ownership_def)
  then show ?thesis using assms by auto
next
  case (Some ks)
  let ?m = "se_op_owned_keys en" and ?i = "op_id_key oi"
  have fin: "finite (dom ?m)" and cnt: "counted (se_ownership en) (claims ?m)"
    using assms(1) by (auto simp: ownership_ok_def)
  have split: "claims ?m k = claims (?m(?i := None)) k + count_list ks k" for k
    using claims_remove[OF fin Some] .
  have lt: "claims ?m k < 2 ^ 63" for k using claims_le_total[OF fin, of k] assms(2) by linarith
  obtain own new where r: "foldl release_key (se_ownership en, se_settled_keys en) ks =
      (own, se_settled_keys en @ new)" "counted own (\<lambda>k. claims ?m k - count_list ks k)"
    "set new = {k \<in> set ks. claims ?m k = count_list ks k}"
    using counted_releases[OF cnt, of ks "se_settled_keys en"] split lt by auto
  have own: "counted own (claims (?m(?i := None)))" using r(2) by (simp add: split)
  have total: "claim_total (?m(?i := None)) \<le> claim_total ?m"
    unfolding claim_total_def using fin by (intro order.trans[OF sum_mono sum_mono2]) (auto split: if_splits)
  have new: "k \<in> set new \<longleftrightarrow> se_ownership en k \<noteq> None \<and> own k = None" for k
    using own cnt by (auto simp: r(3) counted_def split count_list_0_iff)
  show ?thesis
    using Some r(1) own new fin total assms(2)
    by (auto simp: release_ownership_def ownership_ok_def intro!: exI[of _ new])
qed

lemma release_ownership_frame [simp]:
  "se_outbox (release_ownership en oi) = se_outbox en"
  "se_pending (release_ownership en oi) = se_pending en"
  "se_transport (release_ownership en oi) = se_transport en"
  "se_base_revision (release_ownership en oi) = se_base_revision en"
  "se_scene (release_ownership en oi) = se_scene en"
  by (auto simp: release_ownership_def Let_def split: option.splits prod.splits)

lemma releases_frame [simp]:
  "se_outbox (foldl release_ownership en ois) = se_outbox en"
  "se_pending (foldl release_ownership en ois) = se_pending en"
  "se_transport (foldl release_ownership en ois) = se_transport en"
  "se_base_revision (foldl release_ownership en ois) = se_base_revision en"
  "se_scene (foldl release_ownership en ois) = se_scene en"
  by (induction ois arbitrary: en) simp_all

lemma releases_law:
  assumes "ownership_ok en" "claim_total (se_op_owned_keys en) < 2 ^ 63"
  shows "\<exists>new. ownership_ok (foldl release_ownership en ois) \<and>
    se_op_owned_keys (foldl release_ownership en ois) = se_op_owned_keys en |` (- op_id_key ` set ois) \<and>
    se_settled_keys (foldl release_ownership en ois) = se_settled_keys en @ new \<and>
    (\<forall>k. k \<in> set new \<longleftrightarrow> se_ownership en k \<noteq> None \<and> se_ownership (foldl release_ownership en ois) k = None)"
  using assms
proof (induction ois arbitrary: en)
  case (Cons oi ois)
  let ?en = "release_ownership en oi"
  obtain n1 where 1: "ownership_ok ?en" "se_op_owned_keys ?en = (se_op_owned_keys en)(op_id_key oi := None)"
    "claim_total (se_op_owned_keys ?en) < 2 ^ 63" "se_settled_keys ?en = se_settled_keys en @ n1"
    "\<And>k. k \<in> set n1 \<longleftrightarrow> se_ownership en k \<noteq> None \<and> se_ownership ?en k = None"
    using release_ownership_law[OF Cons.prems, of oi] by blast
  let ?fin = "foldl release_ownership ?en ois"
  obtain n2 where 2: "ownership_ok ?fin"
    "se_op_owned_keys ?fin = se_op_owned_keys ?en |` (- op_id_key ` set ois)"
    "se_settled_keys ?fin = se_settled_keys ?en @ n2"
    "\<And>k. k \<in> set n2 \<longleftrightarrow> se_ownership ?en k \<noteq> None \<and> se_ownership ?fin k = None"
    using Cons.IH[OF 1(1,3)] by blast
  have keys: "se_op_owned_keys ?fin = se_op_owned_keys en |` (- op_id_key ` set (oi # ois))"
    by (auto simp: 1(2) 2(2) restrict_map_def fun_eq_iff)
  have gone: "se_ownership ?fin k = None" if "se_ownership ?en k = None" for k
  proof -
    have "claims (se_op_owned_keys ?en) k = 0" using 1(1) that
      by (auto simp: ownership_ok_def counted_def split: if_splits)
    then have "\<not> (\<exists>i ks. se_op_owned_keys ?en i = Some ks \<and> k \<in> set ks)"
      using 1(1) claims_pos[of "se_op_owned_keys ?en" k] by (auto simp: ownership_ok_def)
    then have "\<not> (\<exists>i ks. se_op_owned_keys ?fin i = Some ks \<and> k \<in> set ks)"
      by (auto simp: 2(2) restrict_map_def split: if_splits)
    then have "claims (se_op_owned_keys ?fin) k = 0"
      using 2(1) claims_pos[of "se_op_owned_keys ?fin" k] by (auto simp: ownership_ok_def)
    then show ?thesis using 2(1) by (simp add: ownership_ok_def counted_def)
  qed
  have fewer: "se_ownership en k \<noteq> None" if "se_ownership ?en k \<noteq> None" for k
    using that 1(5)[of k] Cons.prems(1) 1(1,2) claims_pos[of "se_op_owned_keys ?en" k]
      claims_pos[of "se_op_owned_keys en" k]
    by (auto simp: ownership_ok_def counted_def split: if_splits)
  have "k \<in> set (n1 @ n2) \<longleftrightarrow> se_ownership en k \<noteq> None \<and> se_ownership ?fin k = None" for k
    using 1(5)[of k] 2(4)[of k] gone[of k] fewer[of k] by auto
  then show ?case using 2(1,3) keys 1(4) by (intro exI[of _ "n1 @ n2"]) simp
qed (auto simp: restrict_map_def)

section \<open>Replaying the outbox\<close>

lemma take_ownership_frame [simp]:
  "se_outbox (take_ownership en oi ks) = se_outbox en"
  "se_pending (take_ownership en oi ks) = se_pending en"
  "se_transport (take_ownership en oi ks) = se_transport en"
  "se_scene (take_ownership en oi ks) = se_scene en"
  "se_base_revision (take_ownership en oi ks) = se_base_revision en"
  "se_timer_armed (take_ownership en oi ks) = se_timer_armed en"
  "se_op_owned_keys (take_ownership en oi ks) = (se_op_owned_keys en)(op_id_key oi \<mapsto> ks)"
  by (simp_all add: take_ownership_def)

lemma replay_entry_frame [simp]:
  "se_outbox (replay_entry lm cd en e) = se_outbox en"
  "se_pending (replay_entry lm cd en e) = se_pending en"
  "se_transport (replay_entry lm cd en e) = se_transport en"
  "se_base_revision (replay_entry lm cd en e) = se_base_revision en"
  "se_timer_armed (replay_entry lm cd en e) = se_timer_armed en"
  by (auto simp: replay_entry_def Let_def split: option.splits prod.splits sum.splits)

lemma ownership_ok_scene [simp]: "ownership_ok (en\<lparr>se_scene := sc\<rparr>) = ownership_ok en"
  by (simp add: ownership_ok_def)

lemma replay_entry_some:
  assumes "c_dec cd (wo_prop_delta e) = Some op"
  shows "\<exists>sc. replay_entry lm cd en e = take_ownership (en\<lparr>se_scene := sc\<rparr>) (wo_op_id e) (owned_keys op)"
proof -
  have "\<exists>sc. (case apply_object_op lm (se_scene en) op of (_, Inl _) \<Rightarrow> en | (nxt, Inr _) \<Rightarrow> en\<lparr>se_scene := nxt\<rparr>)
      = en\<lparr>se_scene := sc\<rparr>"
    by (auto split: prod.splits sum.splits intro: exI[of _ "se_scene en"])
  then show ?thesis using assms by (auto simp: replay_entry_def Let_def)
qed

lemma replay_entry_ok:
  assumes "ownership_ok en" "se_op_owned_keys en (entry_key e) = None"
  shows "ownership_ok (replay_entry lm cd en e) \<and>
    dom (se_op_owned_keys (replay_entry lm cd en e)) \<subseteq> insert (entry_key e) (dom (se_op_owned_keys en))"
proof (cases "c_dec cd (wo_prop_delta e)")
  case (Some op)
  obtain sc where "replay_entry lm cd en e = take_ownership (en\<lparr>se_scene := sc\<rparr>) (wo_op_id e) (owned_keys op)"
    using Some replay_entry_some by blast
  then show ?thesis using assms take_ownership_ok[of "en\<lparr>se_scene := sc\<rparr>" "wo_op_id e" "owned_keys op"]
    by (auto simp: entry_key_def)
qed (use assms in \<open>auto simp: replay_entry_def\<close>)

lemma replay_ok:
  assumes "ownership_ok en" "distinct (map entry_key es)"
    and "\<forall>e \<in> set es. se_op_owned_keys en (entry_key e) = None"
  shows "ownership_ok (foldl (replay_entry lm cd) en es) \<and>
    dom (se_op_owned_keys (foldl (replay_entry lm cd) en es)) \<subseteq> entry_key ` set es \<union> dom (se_op_owned_keys en)"
  using assms
proof (induction es arbitrary: en)
  case (Cons e es)
  let ?en = "replay_entry lm cd en e"
  have e: "ownership_ok ?en" "dom (se_op_owned_keys ?en) \<subseteq> insert (entry_key e) (dom (se_op_owned_keys en))"
    using replay_entry_ok[of en e lm cd] Cons.prems by auto
  have "se_op_owned_keys ?en (entry_key x) = None" if "x \<in> set es" for x
  proof -
    have "entry_key x \<noteq> entry_key e" using that Cons.prems(2) by (metis distinct.simps(2) imageI list.simps(9) set_map)
    then show ?thesis using e(2) that Cons.prems(3) by (auto simp: dom_def)
  qed
  then have "ownership_ok (foldl (replay_entry lm cd) ?en es)"
    "dom (se_op_owned_keys (foldl (replay_entry lm cd) ?en es)) \<subseteq> entry_key ` set es \<union> dom (se_op_owned_keys ?en)"
    using Cons.IH[of ?en] e(1) Cons.prems(2) by auto
  with e(2) show ?case by (simp del: dom_fun_upd) blast
qed simp

lemma replays_frame [simp]:
  "se_outbox (foldl (replay_entry lm cd) en es) = se_outbox en"
  "se_pending (foldl (replay_entry lm cd) en es) = se_pending en"
  "se_transport (foldl (replay_entry lm cd) en es) = se_transport en"
  "se_base_revision (foldl (replay_entry lm cd) en es) = se_base_revision en"
  "se_timer_armed (foldl (replay_entry lm cd) en es) = se_timer_armed en"
  by (induction es arbitrary: en) simp_all

lemma take_ownership_outbox:
  "(take_ownership (en\<lparr>se_outbox := a, se_scene := n\<rparr>) oi ks)\<lparr>se_outbox := b\<rparr> =
     take_ownership (en\<lparr>se_outbox := b, se_scene := n\<rparr>) oi ks"
  by (cases en) (simp add: take_ownership_def)

lemma releases_timer [simp]:
  "se_timer_armed (foldl release_ownership en ois) = se_timer_armed en"
  by (induction ois arbitrary: en)
    (auto simp: release_ownership_def Let_def split: option.splits prod.splits)

text \<open>What a replay does to the scene and to the claims, entry by entry.\<close>

definition replay_scene :: "libm \<Rightarrow> codec \<Rightarrow> scene \<Rightarrow> outbox_entry \<Rightarrow> scene" where
  "replay_scene lm cd sc e =
     (case c_dec cd (wo_prop_delta e) of
        None \<Rightarrow> sc
      | Some op \<Rightarrow> (case apply_object_op lm sc op of (_, Inl _) \<Rightarrow> sc | (nxt, Inr _) \<Rightarrow> nxt))"

definition replay_keys :: "codec \<Rightarrow> outbox_entry \<Rightarrow> str list option" where
  "replay_keys cd e = map_option owned_keys (c_dec cd (wo_prop_delta e))"

lemma replay_entry_scene: "se_scene (replay_entry lm cd en e) = replay_scene lm cd (se_scene en) e"
  by (auto simp: replay_entry_def replay_scene_def Let_def split: option.splits prod.splits sum.splits)

lemma replays_scene:
  "se_scene (foldl (replay_entry lm cd) en es) = foldl (replay_scene lm cd) (se_scene en) es"
  by (induction es arbitrary: en) (simp_all add: replay_entry_scene)

text \<open>A key is owned after a replay when it was before or a replayed entry claims it.\<close>

lemma bumps_owned: "foldl bump own ks k \<noteq> None \<longleftrightarrow> k \<in> set ks \<or> own k \<noteq> None"
  by (induction ks arbitrary: own) (auto simp: bump_def)

lemma replay_entry_owned:
  "se_ownership (replay_entry lm cd en e) k \<noteq> None \<longleftrightarrow>
     (\<exists>ks. replay_keys cd e = Some ks \<and> k \<in> set ks) \<or> se_ownership en k \<noteq> None"
proof (cases "c_dec cd (wo_prop_delta e)")
  case (Some op)
  obtain sc where "replay_entry lm cd en e = take_ownership (en\<lparr>se_scene := sc\<rparr>) (wo_op_id e) (owned_keys op)"
    using Some replay_entry_some by blast
  then show ?thesis using Some by (simp add: take_ownership_def replay_keys_def bumps_owned del: not_None_eq)
qed (simp add: replay_entry_def replay_keys_def)

lemma replays_owned:
  "se_ownership (foldl (replay_entry lm cd) en es) k \<noteq> None \<longleftrightarrow>
     (\<exists>e \<in> set es. \<exists>ks. replay_keys cd e = Some ks \<and> k \<in> set ks) \<or> se_ownership en k \<noteq> None"
  by (induction es arbitrary: en) (auto simp: replay_entry_owned simp del: not_None_eq)

section \<open>The engine on a store that keeps the contract\<close>

context outbox_store
begin

text \<open>The counters are exact, the stored ids unique, and claims belong to stored entries.\<close>

definition sound :: "'s sync_engine \<Rightarrow> bool" where
  "sound en \<longleftrightarrow> ownership_ok en \<and> rows_ok (se_outbox en) \<and>
     dom (se_op_owned_keys en) \<subseteq> entry_key ` set (rows (se_outbox en))"

definition fits :: "'s sync_engine \<Rightarrow> bool" where
  "fits en \<longleftrightarrow> claim_total (se_op_owned_keys en) < 2 ^ 63 \<and> high (se_outbox en) < 2 ^ 63 - 1"

lemma author_success:
  assumes "sound en" "fits en" "apply_object_op lm (se_scene en) op = (nxt, Inr iv)" "iv \<noteq> Batch []"
  shows "\<exists>seq ob. let e = wire_op_of cd op (se_client_id en) seq (se_base_revision en) ts in
    sint seq = high (se_outbox en) + 1 \<and> entry_key e \<notin> entry_key ` set (rows (se_outbox en)) \<and>
    rows ob = rows (se_outbox en) @ [e] \<and> rows_ok ob \<and>
    author lm cd io en op ts =
      (enqueue (take_ownership (en\<lparr>se_outbox := ob, se_scene := nxt\<rparr>) (wo_op_id e) (owned_keys op)) e,
       Inr \<lparr>ar_errors = [], ar_op_id = Some (wo_op_id e), ar_inverse = Some iv\<rparr>)"
proof -
  obtain s1 n where n: "ox_next_seq io (se_outbox en) = (s1, Inr n)" "sint n = high (se_outbox en) + 1"
    "\<And>e. oi_seq (wo_op_id e) = n \<Longrightarrow> entry_key e \<notin> entry_key ` set (rows (se_outbox en)) \<and>
      (\<exists>s2. ox_append io s1 e = (s2, Inr ()) \<and> rows s2 = rows (se_outbox en) @ [e] \<and>
        high s2 = high (se_outbox en) + 1 \<and> rows_ok s2)"
    using mint_and_append[of "se_outbox en"] assms(1,2) by (auto simp: sound_def fits_def)
  let ?e = "wire_op_of cd op (se_client_id en) n (se_base_revision en) ts"
  have "oi_seq (wo_op_id ?e) = n" by (simp add: wire_op_of_def)
  from n(3)[OF this] obtain s2 where s2: "entry_key ?e \<notin> entry_key ` set (rows (se_outbox en))"
    "ox_append io s1 ?e = (s2, Inr ())" "rows s2 = rows (se_outbox en) @ [?e]" "rows_ok s2"
    by blast
  have "author lm cd io en op ts =
      (enqueue (take_ownership (en\<lparr>se_outbox := s2, se_scene := nxt\<rparr>) (wo_op_id ?e) (owned_keys op)) ?e,
       Inr \<lparr>ar_errors = [], ar_op_id = Some (wo_op_id ?e), ar_inverse = Some iv\<rparr>)"
    using assms(3,4) n(1) s2(2) by (simp add: author_def Let_def take_ownership_outbox)
  with n(2) s2 show ?thesis by (auto simp: Let_def)
qed

lemma author_sound:
  assumes "sound en" "fits en"
  shows "sound (fst (author lm cd io en op ts))"
proof (cases "\<exists>nxt iv. apply_object_op lm (se_scene en) op = (nxt, Inr iv) \<and> iv \<noteq> Batch []")
  case True
  then obtain nxt iv where a: "apply_object_op lm (se_scene en) op = (nxt, Inr iv)" "iv \<noteq> Batch []" by blast
  obtain seq ob where s: "rows ob = rows (se_outbox en) @ [wire_op_of cd op (se_client_id en) seq (se_base_revision en) ts]"
    "rows_ok ob" "entry_key (wire_op_of cd op (se_client_id en) seq (se_base_revision en) ts) \<notin> entry_key ` set (rows (se_outbox en))"
    "fst (author lm cd io en op ts) = enqueue (take_ownership (en\<lparr>se_outbox := ob, se_scene := nxt\<rparr>)
       (wo_op_id (wire_op_of cd op (se_client_id en) seq (se_base_revision en) ts)) (owned_keys op))
       (wire_op_of cd op (se_client_id en) seq (se_base_revision en) ts)"
    using author_success[OF assms a, of cd ts] by (auto simp: Let_def)
  define e where "e = wire_op_of cd op (se_client_id en) seq (se_base_revision en) ts"
  have "se_op_owned_keys en (entry_key e) = None" using s(3) assms(1) by (auto simp: sound_def e_def)
  then have "ownership_ok (take_ownership (en\<lparr>se_outbox := ob, se_scene := nxt\<rparr>) (wo_op_id e) (owned_keys op))"
    using assms(1) by (intro take_ownership_ok) (auto simp: sound_def ownership_ok_def entry_key_def)
  then show ?thesis using assms(1) s(1,2,4) unfolding e_def[symmetric]
    by (auto simp: sound_def enqueue_def ownership_ok_def entry_key_def)
next
  case False
  then have "fst (author lm cd io en op ts) = en"
    by (auto simp: author_def split: prod.splits sum.splits)
  then show ?thesis using assms(1) by simp
qed

lemma release_sound:
  assumes "sound en" "fits en" "ox_remove io (se_outbox en) ois = (ob, r)"
  shows "sound (foldl release_ownership (en\<lparr>se_outbox := ob\<rparr>) ois)"
proof -
  have ob: "rows ob = filter (\<lambda>e. entry_key e \<notin> op_id_key ` set ois) (rows (se_outbox en))"
    "high ob = high (se_outbox en)"
    using remove_law[of "se_outbox en" ois] assms(3) by auto
  let ?en = "foldl release_ownership (en\<lparr>se_outbox := ob\<rparr>) ois"
  have l: "ownership_ok ?en" "se_op_owned_keys ?en = se_op_owned_keys en |` (- op_id_key ` set ois)"
    using releases_law[of "en\<lparr>se_outbox := ob\<rparr>" ois] assms(1,2)
    by (auto simp: sound_def fits_def ownership_ok_def)
  have "rows_ok ob" using rows_ok_remove[OF _ ob] assms(1) by (simp add: sound_def)
  then show ?thesis using assms(1) l ob(1) by (auto simp: sound_def)
qed

text \<open>An adopted snapshot makes any engine with unique stored ids exact, whatever it was before.\<close>

lemma reconcile_adopted_sound:
  assumes "rows_ok (se_outbox en)" "\<not> sint (scene_version sc) < sint (se_base_revision en)"
  shows "sound (fst (reconcile_snapshot lm cd io en sc))"
proof -
  let ?en1 = "en\<lparr>se_base_revision := scene_version sc, se_scene := sc,
                se_ownership := Map.empty, se_op_owned_keys := Map.empty\<rparr>"
  let ?es = "sort_key entry_seq (rows (se_outbox en))"
  let ?en2 = "foldl (replay_entry lm cd) ?en1 ?es"
  have "distinct (map entry_key ?es)"
    using assms(1) by (simp add: rows_ok_def distinct_map)
  then have "ownership_ok ?en2" "dom (se_op_owned_keys ?en2) \<subseteq> entry_key ` set ?es \<union> dom (se_op_owned_keys ?en1)"
    using replay_ok[of ?en1 ?es lm cd] by (auto simp: ownership_ok_def counted_def)
  moreover have "fst (reconcile_snapshot lm cd io en sc) =
      (if ?es = [] then ?en2 else ?en2\<lparr>se_transport := send_envelopes (se_transport ?en2) ?es\<rparr>)"
    using assms(2) by (simp add: reconcile_snapshot_def all_law Let_def)
  ultimately show ?thesis using assms(1)
    by (auto simp: sound_def ownership_ok_def send_envelopes_def)
qed

lemma reconcile_sound:
  assumes "sound en"
  shows "sound (fst (reconcile_snapshot lm cd io en sc))"
  using assms reconcile_adopted_sound[of en sc lm cd]
  by (cases "sint (scene_version sc) < sint (se_base_revision en)")
    (simp_all add: reconcile_snapshot_def sound_def)

lemma flush_sound: "sound en \<Longrightarrow> sound (flush en)"
  by (auto simp: sound_def flush_def Let_def ownership_ok_def send_envelopes_def)

lemma ack_step:
  "\<exists>ob r. ox_remove io (se_outbox en) ois = (ob, Inr ()) \<and>
    fst (on_ack io en ois rv) = (foldl release_ownership (en\<lparr>se_outbox := ob\<rparr>) ois)\<lparr>se_base_revision := r\<rparr>"
proof -
  obtain ob where ob: "ox_remove io (se_outbox en) ois = (ob, Inr ())" using remove_law by blast
  let ?en = "foldl release_ownership (en\<lparr>se_outbox := ob\<rparr>) ois"
  have same: "\<exists>r. ?en = ?en\<lparr>se_base_revision := r\<rparr>"
    by (rule exI[of _ "se_base_revision ?en"]) (cases ?en, simp)
  have "\<exists>r. fst (on_ack io en ois rv) = ?en\<lparr>se_base_revision := r\<rparr>"
  proof (cases rv)
    case None
    then show ?thesis using ob same by (simp add: on_ack_def Let_def)
  next
    case (Some v)
    then show ?thesis using ob by (auto simp: on_ack_def Let_def)
  qed
  with ob show ?thesis by blast
qed

lemma sound_base [simp]: "sound (en\<lparr>se_base_revision := r\<rparr>) = sound en"
  by (simp add: sound_def ownership_ok_def)

lemma step_sound:
  assumes "sound en" "fits en"
  shows "sound (engine_step lm cd io en ev)"
proof (cases ev)
  case (EvRemote op)
  then show ?thesis using assms
    by (auto simp: apply_remote_def sound_def ownership_ok_def split: prod.splits sum.splits)
next
  case (EvAck ois r)
  obtain ob rv where "ox_remove io (se_outbox en) ois = (ob, Inr ())"
    "fst (on_ack io en ois r) = (foldl release_ownership (en\<lparr>se_outbox := ob\<rparr>) ois)\<lparr>se_base_revision := rv\<rparr>"
    using ack_step by blast
  then show ?thesis using EvAck release_sound[OF assms] by simp
next
  case (EvReject ois)
  obtain ob where "ox_remove io (se_outbox en) ois = (ob, Inr ())" using remove_law by blast
  then show ?thesis using EvReject release_sound[OF assms] by (simp add: on_rejected_def)
next
  case EvFlushDue
  have "on_flush_due en = flush en" by (simp add: on_flush_due_def flush_def)
  then show ?thesis using EvFlushDue flush_sound[OF assms(1)] by simp
next
  case EvTakeSettled
  then show ?thesis using assms(1) by (simp add: take_settled_keys_def sound_def ownership_ok_def)
qed (use assms author_sound reconcile_sound flush_sound in simp_all)

text \<open>A key settles exactly when the last claim on it is released.\<close>

lemma ack_settles:
  assumes "sound en" "fits en"
  shows "\<exists>new. se_settled_keys (fst (on_ack io en ois rv)) = se_settled_keys en @ new \<and>
    (\<forall>k. k \<in> set new \<longleftrightarrow> se_ownership en k \<noteq> None \<and> se_ownership (fst (on_ack io en ois rv)) k = None)"
proof -
  obtain ob r where ob: "ox_remove io (se_outbox en) ois = (ob, Inr ())"
    "fst (on_ack io en ois rv) = (foldl release_ownership (en\<lparr>se_outbox := ob\<rparr>) ois)\<lparr>se_base_revision := r\<rparr>"
    using ack_step by blast
  have "ownership_ok (en\<lparr>se_outbox := ob\<rparr>)" "claim_total (se_op_owned_keys (en\<lparr>se_outbox := ob\<rparr>)) < 2 ^ 63"
    using assms by (auto simp: sound_def fits_def ownership_ok_def)
  from releases_law[OF this, of ois] show ?thesis using ob(2) by auto
qed

text \<open>Once every stored operation is acknowledged nothing is owned.\<close>

lemma ack_all_frees:
  assumes "sound en" "fits en" "op_id_key ` set ois \<supseteq> entry_key ` set (rows (se_outbox en))"
  shows "se_ownership (fst (on_ack io en ois rv)) = Map.empty \<and> rows (se_outbox (fst (on_ack io en ois rv))) = []"
proof -
  obtain ob r where ob: "ox_remove io (se_outbox en) ois = (ob, Inr ())"
    "fst (on_ack io en ois rv) = (foldl release_ownership (en\<lparr>se_outbox := ob\<rparr>) ois)\<lparr>se_base_revision := r\<rparr>"
    using ack_step by blast
  let ?en = "foldl release_ownership (en\<lparr>se_outbox := ob\<rparr>) ois"
  have s: "sound ?en" using release_sound[OF assms(1,2) ob(1)] .
  have "rows ob = []" using remove_law[of "se_outbox en" ois] ob(1) assms(3) by (auto simp: filter_empty_conv)
  then have "dom (se_op_owned_keys ?en) = {}" using s by (simp add: sound_def)
  then have "claims (se_op_owned_keys ?en) k = 0" for k by (simp add: claims_def)
  then have "se_ownership ?en = Map.empty" using s by (auto simp: sound_def ownership_ok_def counted_def)
  with ob(2) \<open>rows ob = []\<close> show ?thesis by simp
qed

text \<open>A key is owned exactly when an unacknowledged operation claims it.\<close>

lemma owned_iff:
  assumes "sound en"
  shows "se_ownership en k \<noteq> None \<longleftrightarrow>
    (\<exists>e \<in> set (rows (se_outbox en)). \<exists>ks. se_op_owned_keys en (entry_key e) = Some ks \<and> k \<in> set ks)"
proof -
  have o: "ownership_ok en" and d: "dom (se_op_owned_keys en) \<subseteq> entry_key ` set (rows (se_outbox en))"
    using assms by (auto simp: sound_def)
  have "se_ownership en k \<noteq> None \<longleftrightarrow> 0 < claims (se_op_owned_keys en) k"
    using o by (simp add: ownership_ok_def counted_def)
  also have "\<dots> \<longleftrightarrow> (\<exists>i ks. se_op_owned_keys en i = Some ks \<and> k \<in> set ks)"
    using o by (intro claims_pos) (simp add: ownership_ok_def)
  also have "\<dots> \<longleftrightarrow> (\<exists>e \<in> set (rows (se_outbox en)). \<exists>ks. se_op_owned_keys en (entry_key e) = Some ks \<and> k \<in> set ks)"
  proof
    assume "\<exists>i ks. se_op_owned_keys en i = Some ks \<and> k \<in> set ks"
    then obtain i ks where i: "se_op_owned_keys en i = Some ks" "k \<in> set ks" by blast
    then have "i \<in> entry_key ` set (rows (se_outbox en))" using d by blast
    then obtain e where "e \<in> set (rows (se_outbox en))" "i = entry_key e" by blast
    with i show "\<exists>e \<in> set (rows (se_outbox en)). \<exists>ks. se_op_owned_keys en (entry_key e) = Some ks \<and> k \<in> set ks"
      by blast
  qed blast
  finally show ?thesis .
qed

text \<open>A reconnect replays the stored entries on the snapshot and claims their keys anew.\<close>

lemma reconcile_replays:
  assumes "\<not> sint (scene_version sc) < sint (se_base_revision en)"
    and "en' = fst (reconcile_snapshot lm cd io en sc)"
  shows "se_scene en' = foldl (replay_scene lm cd) sc (sort_key entry_seq (rows (se_outbox en)))"
    "se_transport en' = se_transport en @ sort_key entry_seq (rows (se_outbox en))"
    "se_outbox en' = se_outbox en" "se_base_revision en' = scene_version sc"
    "se_ownership en' k \<noteq> None \<longleftrightarrow>
       (\<exists>e \<in> set (rows (se_outbox en)). \<exists>ks. replay_keys cd e = Some ks \<and> k \<in> set ks)"
    "se_pending en' = se_pending en" "se_timer_armed en' = se_timer_armed en"
proof -
  let ?en1 = "en\<lparr>se_base_revision := scene_version sc, se_scene := sc,
                se_ownership := Map.empty, se_op_owned_keys := Map.empty\<rparr>"
  let ?es = "sort_key entry_seq (rows (se_outbox en))"
  let ?en2 = "foldl (replay_entry lm cd) ?en1 ?es"
  have en': "en' = (if ?es = [] then ?en2 else ?en2\<lparr>se_transport := send_envelopes (se_transport ?en2) ?es\<rparr>)"
    using assms by (simp add: reconcile_snapshot_def all_law Let_def)
  have "se_ownership en' = se_ownership ?en2" unfolding en' by (simp split: if_split)
  then show "se_ownership en' k \<noteq> None \<longleftrightarrow>
       (\<exists>e \<in> set (rows (se_outbox en)). \<exists>ks. replay_keys cd e = Some ks \<and> k \<in> set ks)"
    by (simp add: replays_owned del: not_None_eq)
  show "se_scene en' = foldl (replay_scene lm cd) sc ?es" by (simp add: en' replays_scene)
  show "se_transport en' = se_transport en @ ?es" by (simp add: en' send_envelopes_def)
  show "se_outbox en' = se_outbox en" "se_base_revision en' = scene_version sc"
    "se_pending en' = se_pending en" "se_timer_armed en' = se_timer_armed en" by (simp_all add: en')
qed

lemma base_never_falls: "sint (se_base_revision en) \<le> sint (se_base_revision (engine_step lm cd io en ev))"
proof (cases ev)
  case (EvAuthor op ts)
  then show ?thesis
    by (auto simp: author_def enqueue_def take_ownership_def Let_def split: prod.splits sum.splits)
next
  case (EvRemote op)
  then show ?thesis by (auto simp: apply_remote_def split: prod.splits sum.splits)
next
  case (EvAck ois r)
  then show ?thesis by (auto simp: on_ack_def Let_def split: prod.splits sum.splits option.splits)
next
  case (EvReject ois)
  then show ?thesis by (auto simp: on_rejected_def split: prod.splits sum.splits)
next
  case (EvSnapshot sc)
  then show ?thesis by (auto simp: reconcile_snapshot_def Let_def split: sum.splits)
qed (simp_all add: flush_def on_flush_due_def take_settled_keys_def Let_def)

end

section \<open>Runs on the in-memory store\<close>

text \<open>Engines built on an empty outbox that is never reseeded; sessions are below.\<close>

definition counters_fit :: "memory_outbox sync_engine \<Rightarrow> bool" where
  "counters_fit en \<longleftrightarrow> claim_total (se_op_owned_keys en) < 2 ^ 63 \<and> sint (mo_seq (se_outbox en)) < 2 ^ 63 - 1"

inductive engine_reach :: "libm \<Rightarrow> codec \<Rightarrow> memory_outbox sync_engine \<Rightarrow> bool" for lm cd where
  connect: "engine_reach lm cd (sync_engine_new sc client memory_outbox_new ms)"
| event: "engine_reach lm cd en \<Longrightarrow> counters_fit en \<Longrightarrow> engine_reach lm cd (engine_step lm cd mem_ops en ev)"

inductive_cases engine_reachE: "engine_reach lm cd en"

lemma counters_fit_iff: "counters_fit en \<longleftrightarrow> mem.fits en"
  by (simp add: counters_fit_def mem.fits_def)

lemma reach_sound: "engine_reach lm cd en \<Longrightarrow> mem.sound en"
proof (induction rule: engine_reach.induct)
  case (connect sc client ms)
  then show ?case
    by (simp add: mem.sound_def mem.rows_ok_def sync_engine_new_def ownership_ok_def counted_def
        memory_outbox_new_def)
qed (simp add: mem.step_sound counters_fit_iff)

section \<open>Sessions\<close>

text \<open>
  A session is an engine with what its surroundings did to it: \<open>ss_shipped\<close> is what the
  shell took from the transport so far, \<open>ss_unread\<close> the rows that came from disk (with
  the outbox the engine was built on, or by a reseed) and that no adopted snapshot has replayed,
  and \<open>ss_exact\<close> says that since the last adopted snapshot over unique ids, or since a
  start on an outbox whose ids are unique and counted, no reseed and no overflow of a counter
  happened. The shell's reconcile is a reseed followed by a snapshot.
\<close>

record session =
  ss_engine :: "memory_outbox sync_engine"
  ss_shipped :: "outbox_entry list"
  ss_unread :: "outbox_entry list"
  ss_exact :: bool

datatype session_event =
    SevEngine engine_event
  | SevReseed "outbox_entry list"
  | SevTakePending

definition outbox_ids_ok :: "memory_outbox \<Rightarrow> bool" where
  "outbox_ids_ok m \<longleftrightarrow> distinct (map entry_key (mo_entries m)) \<and>
     list_all (\<lambda>e. entry_seq e \<le> sint (mo_seq m)) (mo_entries m)"

fun adopts :: "memory_outbox sync_engine \<Rightarrow> engine_event \<Rightarrow> bool" where
  "adopts en (EvSnapshot sc) = (\<not> sint (scene_version sc) < sint (se_base_revision en))"
| "adopts en _ = False"

definition session_start :: "scene \<Rightarrow> str \<Rightarrow> memory_outbox \<Rightarrow> i64 option \<Rightarrow> session" where
  "session_start sc client ob ms =
     \<lparr>ss_engine = sync_engine_new sc client ob ms, ss_shipped = [], ss_unread = mo_entries ob,
      ss_exact = outbox_ids_ok ob\<rparr>"

fun session_step :: "libm \<Rightarrow> codec \<Rightarrow> session \<Rightarrow> session_event \<Rightarrow> session" where
  "session_step lm cd s (SevEngine ev) =
     (let en = ss_engine s in
      \<lparr>ss_engine = engine_step lm cd mem_ops en ev, ss_shipped = ss_shipped s,
       ss_unread = (if adopts en ev then [] else ss_unread s),
       ss_exact = (if adopts en ev then outbox_ids_ok (se_outbox en) else ss_exact s \<and> counters_fit en)\<rparr>)"
| "session_step lm cd s (SevReseed es) =
     s\<lparr>ss_engine := reseed_outbox mem_ops (ss_engine s) es, ss_unread := es, ss_exact := False\<rparr>"
| "session_step lm cd s SevTakePending =
     (let (left, taken) = buffer_take (se_transport (ss_engine s))
      in s\<lparr>ss_engine := (ss_engine s)\<lparr>se_transport := left\<rparr>, ss_shipped := ss_shipped s @ taken\<rparr>)"

definition session_run :: "libm \<Rightarrow> codec \<Rightarrow> session \<Rightarrow> session_event list \<Rightarrow> session" where
  "session_run lm cd s evs = foldl (session_step lm cd) s evs"

lemma session_run_simps [simp]:
  "session_run lm cd s [] = s"
  "session_run lm cd s (ev # evs) = session_run lm cd (session_step lm cd s ev) evs"
  by (simp_all add: session_run_def)

text \<open>An invariant of the steps is an invariant of the runs.\<close>

lemma session_run_invariant:
  assumes "P s" "\<And>s ev. P s \<Longrightarrow> P (session_step lm cd s ev)"
  shows "P (session_run lm cd s evs)"
  using assms(1) by (induction evs arbitrary: s) (simp_all add: assms(2))

lemma outbox_ids_ok_iff: "outbox_ids_ok m \<longleftrightarrow> mem.rows_ok m"
  by (simp add: outbox_ids_ok_def mem.rows_ok_def list_all_iff)

subsection \<open>Exact ownership\<close>

definition ownership_exact :: "memory_outbox sync_engine \<Rightarrow> bool" where
  "ownership_exact en \<longleftrightarrow>
     (\<forall>k. se_ownership en k = (if claims (se_op_owned_keys en) k = 0 then None
        else Some (of_nat (claims (se_op_owned_keys en) k)))) \<and>
     dom (se_op_owned_keys en) \<subseteq> entry_key ` set (mo_entries (se_outbox en))"

lemma sound_exact: "mem.sound en \<Longrightarrow> ownership_exact en"
  by (simp add: mem.sound_def ownership_exact_def ownership_ok_def counted_def)

lemma adopted_sound:
  assumes "adopts en ev" "outbox_ids_ok (se_outbox en)"
  shows "mem.sound (engine_step lm cd mem_ops en ev)"
  using assms mem.reconcile_adopted_sound[of en]
  by (cases ev) (simp_all add: outbox_ids_ok_iff)

lemma session_step_sound:
  assumes "ss_exact s \<longrightarrow> mem.sound (ss_engine s)"
  shows "ss_exact (session_step lm cd s ev) \<longrightarrow> mem.sound (ss_engine (session_step lm cd s ev))"
proof (cases ev)
  case (SevEngine x)
  then show ?thesis using assms adopted_sound[of "ss_engine s" x lm cd] mem.step_sound[of "ss_engine s" lm cd x]
    by (simp add: Let_def counters_fit_iff)
qed (use assms in \<open>simp_all add: buffer_take_def mem.sound_def ownership_ok_def\<close>)

lemma session_start_sound:
  "ss_exact (session_start sc client ob ms) \<longrightarrow> mem.sound (ss_engine (session_start sc client ob ms))"
  by (simp add: session_start_def outbox_ids_ok_iff mem.sound_def sync_engine_new_def ownership_ok_def counted_def)

lemmas session_run_sound = session_run_invariant[of "\<lambda>s. ss_exact s \<longrightarrow> mem.sound (ss_engine s)",
    OF session_start_sound session_step_sound]

lemma reseed_ids_ok:
  "distinct (map entry_key es) \<Longrightarrow> outbox_ids_ok (se_outbox (reseed_outbox mem_ops en es))"
  using mem_reseed_ok[of es "se_outbox en"] by (simp add: outbox_ids_ok_iff reseed_outbox_def mem_ops_def)

lemma reseed_frame [simp]:
  "mo_entries (se_outbox (reseed_outbox mem_ops en es)) = es"
  "se_base_revision (reseed_outbox mem_ops en es) = se_base_revision en"
  "se_ownership (reseed_outbox mem_ops en es) = se_ownership en"
  "se_op_owned_keys (reseed_outbox mem_ops en es) = se_op_owned_keys en"
  "se_transport (reseed_outbox mem_ops en es) = se_transport en"
  "se_pending (reseed_outbox mem_ops en es) = se_pending en"
  "se_timer_armed (reseed_outbox mem_ops en es) = se_timer_armed en"
  by (simp_all add: reseed_outbox_def mem_ops_def mem_reseed_def)

subsection \<open>Delivery\<close>

text \<open>Every stored entry was shipped, is with the transport, waits for the flush, or is unread.\<close>

definition delivered :: "session \<Rightarrow> bool" where
  "delivered s \<longleftrightarrow> (let en = ss_engine s in
     set (mo_entries (se_outbox en)) \<subseteq>
       set (ss_shipped s) \<union> set (se_transport en) \<union> set (se_pending en) \<union> set (ss_unread s) \<and>
     (se_pending en = [] \<or> se_timer_armed en))"

lemma mem_author_cases:
  "fst (author lm cd mem_ops en op ts) = en \<or>
   (\<exists>ob n oi ks e. mo_entries ob = mo_entries (se_outbox en) @ [e] \<and>
     fst (author lm cd mem_ops en op ts) =
       enqueue (take_ownership (en\<lparr>se_outbox := ob, se_scene := n\<rparr>) oi ks) e)"
proof (cases "\<exists>nxt iv. apply_object_op lm (se_scene en) op = (nxt, Inr iv) \<and> iv \<noteq> Batch []")
  case True
  then obtain nxt iv where a: "apply_object_op lm (se_scene en) op = (nxt, Inr iv)" "iv \<noteq> Batch []" by blast
  let ?ob = "se_outbox en" and ?q = "mo_seq (se_outbox en) + 1"
  let ?e = "wire_op_of cd op (se_client_id en) ?q (se_base_revision en) ts"
  let ?ob' = "?ob\<lparr>mo_seq := ?q, mo_entries := mo_entries ?ob @ [?e]\<rparr>"
  have "fst (author lm cd mem_ops en op ts) =
      enqueue (take_ownership (en\<lparr>se_outbox := ?ob', se_scene := nxt\<rparr>) (wo_op_id ?e) (owned_keys op)) ?e"
    using a by (simp add: author_def mem_ops_def mem_next_local_seq_def mem_append_def Let_def take_ownership_outbox)
  moreover have "mo_entries ?ob' = mo_entries ?ob @ [?e]" by simp
  ultimately show ?thesis by blast
qed (auto simp: author_def split: prod.splits sum.splits)

lemma mem_ack_frame:
  assumes "en' = fst (on_ack mem_ops en ois r) \<or> en' = fst (on_rejected mem_ops en ois)"
  shows "set (mo_entries (se_outbox en')) \<subseteq> set (mo_entries (se_outbox en)) \<and> se_pending en' = se_pending en \<and>
    se_transport en' = se_transport en \<and> se_timer_armed en' = se_timer_armed en"
  using assms
  by (auto simp: on_ack_def on_rejected_def mem_ops_def mem_remove_def Let_def split: option.splits if_splits)

lemma session_step_delivered:
  assumes "delivered s"
  shows "delivered (session_step lm cd s ev)"
proof (cases ev)
  case (SevEngine x)
  let ?en = "ss_engine s"
  show ?thesis
  proof (cases x)
    case (EvAuthor op ts)
    then show ?thesis using assms SevEngine mem_author_cases[of lm cd ?en op ts]
      by (auto simp: delivered_def Let_def enqueue_def)
  next
    case (EvRemote op)
    then show ?thesis using assms SevEngine
      by (auto simp: delivered_def Let_def apply_remote_def split: prod.splits sum.splits)
  next
    case (EvAck ois r)
    then show ?thesis using assms SevEngine mem_ack_frame[of "fst (on_ack mem_ops ?en ois r)" ?en ois r]
      by (auto simp: delivered_def Let_def)
  next
    case (EvReject ois)
    then show ?thesis using assms SevEngine mem_ack_frame[of "fst (on_rejected mem_ops ?en ois)" ?en ois None]
      by (auto simp: delivered_def Let_def)
  next
    case (EvSnapshot sc)
    show ?thesis
    proof (cases "adopts ?en x")
      case True
      then show ?thesis
        using assms SevEngine EvSnapshot mem.reconcile_replays(2,3,6,7)[of sc ?en _ lm cd, OF _ refl]
        by (auto simp: delivered_def Let_def)
    next
      case False
      then show ?thesis using assms SevEngine EvSnapshot
        by (simp add: delivered_def Let_def reconcile_snapshot_def)
    qed
  qed (use assms SevEngine in \<open>auto simp: delivered_def Let_def flush_def on_flush_due_def
        send_envelopes_def take_settled_keys_def\<close>)
qed (use assms in \<open>auto simp: delivered_def Let_def buffer_take_def\<close>)

lemma session_start_delivered: "delivered (session_start sc client ob ms)"
  by (simp add: delivered_def session_start_def sync_engine_new_def)

lemmas session_run_delivered = session_run_invariant[of delivered, OF session_start_delivered session_step_delivered]

text \<open>What is unread was on disk.\<close>

fun loaded_rows :: "session_event list \<Rightarrow> outbox_entry list" where
  "loaded_rows [] = []"
| "loaded_rows (SevReseed es # evs) = es @ loaded_rows evs"
| "loaded_rows (_ # evs) = loaded_rows evs"

lemma unread_loaded:
  "set (ss_unread (session_run lm cd s evs)) \<subseteq> set (ss_unread s) \<union> set (loaded_rows evs)"
proof (induction evs arbitrary: s)
  case (Cons ev evs)
  show ?case using Cons[of "session_step lm cd s ev"]
    by (cases ev) (auto simp: Let_def buffer_take_def split: if_splits)
qed simp

end
