(* ===== verification/Presence.thy ===== *)
theory Presence
  imports Wire F64 "HOL-Library.AList"
begin

text \<open>
  Peer presence (\<open>client-runtime/src/peers.rs\<close>) and the subscribed window
  (\<open>client-runtime/src/scene_client.rs\<close>). The clock is a parameter, as in the code;
  decoding a presence payload from JSON is derived by \<open>serde\<close> and a parameter too.
\<close>

section \<open>Peers\<close>

record presence_payload =
  pp_user_id :: str
  pp_cursor :: "world_point option"
  pp_viewport :: "bounds option"

record peer_presence =
  pr_user_id :: str
  pr_cursor :: "world_point option"
  pr_viewport :: "bounds option"
  pr_color :: str
  pr_last_seen :: i64

definition default_peer_ttl_ms :: i64 where
  "default_peer_ttl_ms = 10000"

definition peer_colors :: "str list" where
  "peer_colors = [''#6b8df2'', ''#12a594'', ''#d17b31'', ''#b65fcf'', ''#d84d66'', ''#3aa655'',
     ''#e0a92e'', ''#5b6df0'']"

text \<open>The \<open>HashMap\<close> of peers is an association list; its order is never read.\<close>

record peer_registry =
  rg_peers :: "(str \<times> peer_presence) list"
  rg_self :: "str option"
  rg_ttl_ms :: i64
  rg_color_cursor :: nat

definition peer_registry_new :: "str option \<Rightarrow> i64 option \<Rightarrow> peer_registry" where
  "peer_registry_new self ttl =
     \<lparr>rg_peers = [], rg_self = self,
      rg_ttl_ms = (case ttl of None \<Rightarrow> default_peer_ttl_ms | Some t \<Rightarrow> t), rg_color_cursor = 0\<rparr>"

definition next_color :: "peer_registry \<Rightarrow> str \<Rightarrow> str \<times> nat" where
  "next_color rg user =
     (case map_of (rg_peers rg) user of
        Some existing \<Rightarrow> (pr_color existing, rg_color_cursor rg)
      | None \<Rightarrow> (peer_colors ! (rg_color_cursor rg mod length peer_colors), rg_color_cursor rg + 1))"

definition ingest ::
    "(json \<Rightarrow> presence_payload option) \<Rightarrow> peer_registry \<Rightarrow> json \<Rightarrow> i64 \<Rightarrow> peer_registry \<times> bool" where
  "ingest decode rg raw now_ms =
     (case decode raw of
        None \<Rightarrow> (rg, False)
      | Some p \<Rightarrow>
          if rg_self rg = Some (pp_user_id p) then (rg, False)
          else
            let (color, cursor) = next_color rg (pp_user_id p) in
            (rg\<lparr>rg_color_cursor := cursor,
                rg_peers := AList.update (pp_user_id p)
                  \<lparr>pr_user_id = pp_user_id p, pr_cursor = pp_cursor p, pr_viewport = pp_viewport p,
                   pr_color = color, pr_last_seen = now_ms\<rparr> (rg_peers rg)\<rparr>, True))"

definition expire :: "peer_registry \<Rightarrow> i64 \<Rightarrow> peer_registry \<times> bool" where
  "expire rg now_ms =
     (let cutoff = now_ms - rg_ttl_ms rg;
          kept = filter (\<lambda>(_, p). sint cutoff \<le> sint (pr_last_seen p)) (rg_peers rg)
      in (rg\<lparr>rg_peers := kept\<rparr>, length kept \<noteq> length (rg_peers rg)))"

definition peer_list :: "peer_registry \<Rightarrow> peer_presence list" where
  "peer_list rg = sort_key pr_user_id (map snd (rg_peers rg))"

definition peer_get :: "peer_registry \<Rightarrow> str \<Rightarrow> peer_presence option" where
  "peer_get rg user = map_of (rg_peers rg) user"

definition clear_peers :: "peer_registry \<Rightarrow> peer_registry" where
  "clear_peers rg = rg\<lparr>rg_peers := [], rg_color_cursor := 0\<rparr>"

section \<open>The registry's invariant\<close>

text \<open>
  One entry per user, filed under its own id, never the local user, and each with the colour
  of a slot already handed out.
\<close>

definition registry_ok :: "peer_registry \<Rightarrow> bool" where
  "registry_ok rg \<longleftrightarrow> distinct (map fst (rg_peers rg)) \<and>
     (\<forall>(u, p) \<in> set (rg_peers rg). pr_user_id p = u \<and> rg_self rg \<noteq> Some u \<and>
        (\<exists>i < rg_color_cursor rg. pr_color p = peer_colors ! (i mod 8)))"

lemma peer_colors_length [simp]: "length peer_colors = 8"
  by (simp add: peer_colors_def)

lemma registry_new_ok: "registry_ok (peer_registry_new self ttl)"
  by (simp add: registry_ok_def peer_registry_new_def)

lemma next_color_slot:
  assumes "registry_ok rg" "next_color rg u = (c, n)"
  shows "rg_color_cursor rg \<le> n \<and> (\<exists>i < n. c = peer_colors ! (i mod 8))"
proof (cases "map_of (rg_peers rg) u")
  case None
  then show ?thesis using assms(2) by (auto simp: next_color_def intro!: exI[of _ "rg_color_cursor rg"])
next
  case (Some p)
  then have "(u, p) \<in> set (rg_peers rg)" by (rule map_of_SomeD)
  then show ?thesis using assms Some by (auto simp: registry_ok_def next_color_def)
qed

lemma in_updated: "x \<in> set (AList.update k v xs) \<Longrightarrow> x = (k, v) \<or> x \<in> set xs"
  by (induction xs) (auto split: if_splits)

lemma ingest_ok:
  assumes "registry_ok rg"
  shows "registry_ok (fst (ingest decode rg raw now_ms))"
proof (cases "\<exists>p. decode raw = Some p \<and> rg_self rg \<noteq> Some (pp_user_id p)")
  case True
  then obtain p where p: "decode raw = Some p" "rg_self rg \<noteq> Some (pp_user_id p)" by blast
  obtain c n where c: "next_color rg (pp_user_id p) = (c, n)" by force
  have n: "rg_color_cursor rg \<le> n" "\<exists>i < n. c = peer_colors ! (i mod 8)"
    using next_color_slot[OF assms c] by auto
  define q where "q = \<lparr>pr_user_id = pp_user_id p, pr_cursor = pp_cursor p, pr_viewport = pp_viewport p,
    pr_color = c, pr_last_seen = now_ms\<rparr>"
  have r: "fst (ingest decode rg raw now_ms) =
      rg\<lparr>rg_color_cursor := n, rg_peers := AList.update (pp_user_id p) q (rg_peers rg)\<rparr>"
    using p c by (simp add: ingest_def q_def)
  have "pr_user_id x = u \<and> rg_self rg \<noteq> Some u \<and> (\<exists>i < n. pr_color x = peer_colors ! (i mod 8))"
    if x: "(u, x) \<in> set (AList.update (pp_user_id p) q (rg_peers rg))" for u x
    using in_updated[OF x]
  proof
    assume "(u, x) = (pp_user_id p, q)"
    then show ?thesis using n(2) p(2) by (auto simp: q_def)
  next
    assume "(u, x) \<in> set (rg_peers rg)"
    then have "pr_user_id x = u \<and> rg_self rg \<noteq> Some u \<and>
        (\<exists>i < rg_color_cursor rg. pr_color x = peer_colors ! (i mod 8))"
      using assms unfolding registry_ok_def by blast
    then show ?thesis using n(1) less_le_trans by blast
  qed
  moreover have "distinct (map fst (AList.update (pp_user_id p) q (rg_peers rg)))"
    using assms by (simp add: registry_ok_def distinct_update)
  ultimately show ?thesis unfolding r registry_ok_def by auto
qed (use assms in \<open>auto simp: ingest_def split: option.splits\<close>)

lemma expire_ok: "registry_ok rg \<Longrightarrow> registry_ok (fst (expire rg now_ms))"
  by (auto simp: registry_ok_def expire_def Let_def distinct_map_filter)

lemma clear_ok: "registry_ok (clear_peers rg)"
  by (simp add: registry_ok_def clear_peers_def)

text \<open>What the registry answers after a frame: the frame of its sender, nothing new for others.\<close>

lemma peer_get_ingest:
  assumes "decode raw = Some p" "rg_self rg \<noteq> Some (pp_user_id p)"
  shows "peer_get (fst (ingest decode rg raw now_ms)) u =
    (if u = pp_user_id p
     then Some \<lparr>pr_user_id = u, pr_cursor = pp_cursor p, pr_viewport = pp_viewport p,
                pr_color = fst (next_color rg u), pr_last_seen = now_ms\<rparr>
     else peer_get rg u)"
  using assms by (auto simp: ingest_def peer_get_def update_conv' split: prod.splits)

lemma peer_color_stable:
  assumes "peer_get rg u = Some q" "peer_get (fst (ingest decode rg raw now_ms)) u = Some q'"
  shows "pr_color q' = pr_color q"
proof (cases "\<exists>p. decode raw = Some p \<and> rg_self rg \<noteq> Some (pp_user_id p)")
  case True
  then obtain p where p: "decode raw = Some p" "rg_self rg \<noteq> Some (pp_user_id p)" by blast
  show ?thesis
    using assms peer_get_ingest[of decode raw p rg now_ms u] p by (auto simp: next_color_def peer_get_def split: if_splits)
next
  case False
  then have "fst (ingest decode rg raw now_ms) = rg" by (auto simp: ingest_def split: option.splits)
  with assms show ?thesis by simp
qed

lemma peer_get_expire:
  assumes "registry_ok rg"
  shows "peer_get (fst (expire rg now_ms)) u =
    (case peer_get rg u of None \<Rightarrow> None
     | Some p \<Rightarrow> if sint (now_ms - rg_ttl_ms rg) \<le> sint (pr_last_seen p) then Some p else None)"
proof -
  have "map_of (filter (\<lambda>(_, p). P p) xs) u = (case map_of xs u of None \<Rightarrow> None | Some p \<Rightarrow> if P p then Some p else None)"
    if "distinct (map fst xs)" for P and xs :: "(str \<times> peer_presence) list"
    using that by (induction xs) (auto simp: map_of_eq_None_iff split: option.splits)
  from this[of "rg_peers rg"] show ?thesis
    using assms by (simp add: registry_ok_def expire_def peer_get_def Let_def)
qed

section \<open>The subscribed window\<close>

definition default_viewport_margin :: f64 where
  "default_viewport_margin = f_half"

definition window_from_viewport :: "bounds \<Rightarrow> f64 \<Rightarrow> bounds" where
  "window_from_viewport vp margin =
     (let pad_x = f_mul (bd_width vp) margin;
          pad_y = f_mul (bd_height vp) margin
      in \<lparr>bd_x = f_sub (bd_x vp) pad_x,
          bd_y = f_sub (bd_y vp) pad_y,
          bd_width = f_add (bd_width vp) (f_mul pad_x (f_of_int 2)),
          bd_height = f_add (bd_height vp) (f_mul pad_y (f_of_int 2))\<rparr>)"

fun bbox_equals :: "bounds option \<Rightarrow> bounds option \<Rightarrow> bool" where
  "bbox_equals (Some a) (Some b) \<longleftrightarrow>
     f_eq (bd_x a) (bd_x b) \<and> f_eq (bd_y a) (bd_y b) \<and> f_eq (bd_width a) (bd_width b) \<and>
     f_eq (bd_height a) (bd_height b)"
| "bbox_equals None None = True"
| "bbox_equals _ _ = False"

record window_state =
  ws_window :: "bounds option"
  ws_margin :: f64

definition window_state_new :: "bounds option \<Rightarrow> window_state" where
  "window_state_new seed = \<lparr>ws_window = seed, ws_margin = default_viewport_margin\<rparr>"

definition window_with_margin :: "bounds option \<Rightarrow> f64 \<Rightarrow> window_state" where
  "window_with_margin seed margin = \<lparr>ws_window = seed, ws_margin = margin\<rparr>"

definition set_window :: "window_state \<Rightarrow> bounds \<Rightarrow> window_state \<times> bounds option" where
  "set_window ws bbox =
     (if bbox_equals (ws_window ws) (Some bbox) then (ws, None)
      else (ws\<lparr>ws_window := Some bbox\<rparr>, Some bbox))"

definition on_viewport :: "window_state \<Rightarrow> bounds \<Rightarrow> window_state \<times> bounds option" where
  "on_viewport ws vp = set_window ws (window_from_viewport vp (ws_margin ws))"

definition subscribe_whole_canvas :: "window_state \<Rightarrow> window_state \<times> bool" where
  "subscribe_whole_canvas ws =
     (if ws_window ws = None then (ws, False) else (ws\<lparr>ws_window := None\<rparr>, True))"

definition bounds_nan :: "bounds \<Rightarrow> bool" where
  "bounds_nan b \<longleftrightarrow> f_is_nan (bd_x b) \<or> f_is_nan (bd_y b) \<or> f_is_nan (bd_width b) \<or> f_is_nan (bd_height b)"

lemma f_eq_self: "f_eq x x \<longleftrightarrow> \<not> f_is_nan x"
  by (auto simp: f_eq_def)

lemma bbox_equals_self: "bbox_equals (Some b) (Some b) \<longleftrightarrow> \<not> bounds_nan b"
  by (auto simp: f_eq_self bounds_nan_def)

text \<open>Re-aiming at the same viewport sends no second frame, unless a coordinate is NaN.\<close>

lemma on_viewport_twice:
  assumes "on_viewport ws vp = (ws', r)"
  shows "on_viewport ws' vp =
    (ws', if r \<noteq> None \<and> bounds_nan (window_from_viewport vp (ws_margin ws))
          then Some (window_from_viewport vp (ws_margin ws)) else None)"
  using assms
  by (auto simp: on_viewport_def set_window_def bbox_equals_self simp del: bbox_equals.simps split: if_splits)

end
