(* ===== verification/Client_Properties.thy ===== *)
theory Client_Properties
  imports History Selection SyncEngine_Laws Presence
begin

text \<open>
  The properties of the client session: undo history, selection, the sync engine over the
  in-memory outbox, peer presence and the subscribed window. Each rests on the lemmas of its
  component; the witnesses run the sample scene through a connected engine.
\<close>

section \<open>A connected sample engine\<close>

definition sample_codec :: codec where
  "sample_codec = \<lparr>c_enc = (\<lambda>_. JNull), c_dec = (\<lambda>_. None)\<rparr>"

definition sample_engine :: "memory_outbox sync_engine" where
  "sample_engine = sync_engine_new sample ''me'' memory_outbox_new None"

definition moved :: transform where
  "moved = ((0, 0, 0), (0, 0, 0), (0, 0, 0))"

definition sample_drag :: object_op where
  "sample_drag = SetTransform ''a'' moved"

definition busy_engine :: "memory_outbox sync_engine" where
  "busy_engine = engine_step zero_libm sample_codec mem_ops sample_engine (EvAuthor sample_drag ''t0'')"

lemma sample_engine_reach: "engine_reach zero_libm sample_codec sample_engine"
  unfolding sample_engine_def by (rule engine_reach.connect)

lemma sample_engine_fits: "counters_fit sample_engine"
  by (simp add: counters_fit_def sample_engine_def sync_engine_new_def memory_outbox_new_def claim_total_def)

lemma sample_drag_applies:
  "\<exists>nxt iv. apply_object_op zero_libm sample sample_drag = (nxt, Inr iv) \<and> iv \<noteq> Batch []"
  unfolding sample_drag_def by (simp add: set_transform_inner[OF sample_index(1)])




text \<open>The engine it came from keeps its revision and its transport.\<close>

lemma busy_engine_frame:
  "se_base_revision busy_engine = scene_version sample \<and> se_transport busy_engine = []"
proof -
  obtain nxt iv where a: "apply_object_op zero_libm sample sample_drag = (nxt, Inr iv)" "iv \<noteq> Batch []"
    using sample_drag_applies by blast
  moreover have "se_scene sample_engine = sample" "se_base_revision sample_engine = scene_version sample"
    "se_transport sample_engine = []"
    by (simp_all add: sample_engine_def sync_engine_new_def)
  ultimately show ?thesis
    by (simp add: busy_engine_def author_def mem_ops_def mem_next_local_seq_def mem_append_def enqueue_def Let_def)
qed

text \<open>Durable rows of an earlier session, and a codec that reads them.\<close>

definition still :: transform where
  "still = ((1, 0, 0), (0, 1, 0), (0, 0, 1))"

definition row :: "i64 \<Rightarrow> bool \<Rightarrow> outbox_entry" where
  "row n b = \<lparr>wo_op_id = \<lparr>oi_client = ''me'', oi_seq = n\<rparr>, wo_object_id = ''a'', wo_kind = ''set-transform'',
     wo_prop_delta = JBool b, wo_base_revision = 0, wo_actor = ''me'', wo_ts = ''t''\<rparr>"

definition row_codec :: codec where
  "row_codec = \<lparr>c_enc = (\<lambda>_. JNull),
     c_dec = (\<lambda>j. case j of JBool b \<Rightarrow> Some (SetTransform ''a'' (if b then moved else still)) | _ \<Rightarrow> None)\<rparr>"

definition stored_rows :: memory_outbox where
  "stored_rows = \<lparr>mo_entries = [row 1 False], mo_seq = 1\<rparr>"

section \<open>Undo history\<close>

text \<open>C10: driven through the wrapper by field edits, canonicalizations, reparents and batches of
  these, undos and redos in any order, the undo engine and the kernel behave like a timeline of
  scenes: the scene always has the content of the present, the two depths are the lengths of the
  past and of the future, and the wrapper's flag agrees with the engine, so that no report is
  refused and none panics. Operations that create or remove objects are not among these commands.\<close>

theorem undo_redo_timeline:
  assumes "undo_ready sc" "list_all command_ok cs"
    and "h = shell_run lm (shell_start sc actor) cs"
    and "t = timeline_run lm \<lparr>past = [], present = sc, future = []\<rparr> cs"
  shows "same_content (sh_scene h) (present t) \<and>
    undo_depth (wu_inner (sh_stack h)) = length (past t) \<and>
    redo_depth (wu_inner (sh_stack h)) = length (future t) \<and>
    (can_undo (wu_inner (sh_stack h)) \<longleftrightarrow> past t \<noteq> []) \<and>
    (can_redo (wu_inner (sh_stack h)) \<longleftrightarrow> future t \<noteq> []) \<and>
    wu_pending (sh_stack h) = None \<and> mirrors (sh_stack h)"
proof -
  let ?h = "host_run lm \<lparr>h_scene = sc, h_stack = undo_stack_new actor\<rparr> cs"
  have f: "follows lm ?h t" unfolding assms(4) by (rule run_follows[OF start_follows[OF assms(1)] assms(2)])
  have w: "wraps h ?h" unfolding assms(3) by (rule shell_run_wraps[OF shell_start_wraps])
  have l: "length (us_undo (h_stack ?h)) = length (past t)" "length (us_redo (h_stack ?h)) = length (future t)"
    using f undo_links_length redo_links_length unfolding follows_def by (metis length_rev)+
  then have "us_undo (h_stack ?h) = [] \<longleftrightarrow> past t = []" "us_redo (h_stack ?h) = [] \<longleftrightarrow> future t = []"
    by (metis length_0_conv)+
  with f w l show ?thesis
    by (simp add: follows_def wraps_def undo_depth_def redo_depth_def can_undo_def can_redo_def mirrors_def)
qed

theorem undo_redo_timeline_witness:
  "let cs = [DoEdit (SetClip ''a'' (Some True)), DoUndo, DoRedo];
       h = shell_run zero_libm (shell_start sample ''u'') cs;
       t = timeline_run zero_libm \<lparr>past = [], present = sample, future = []\<rparr> cs
   in same_content (sh_scene h) (present t) \<and> undo_depth (wu_inner (sh_stack h)) = length (past t) \<and>
      redo_depth (wu_inner (sh_stack h)) = length (future t)"
  using undo_redo_timeline[OF sample_ready _ refl refl, of "[DoEdit (SetClip ''a'' (Some True)), DoUndo, DoRedo]"
      zero_libm "''u''"]
  unfolding Let_def by simp

text \<open>A drag of any number of moves inside a coalescing window leaves one undo entry, and
  one undo brings the scene back to the content it had before the drag.\<close>

theorem drag_undone_at_once:
  assumes "index_of (h_scene h) oid = Some idx" "ts \<noteq> []" "\<not> us_open (h_stack h)"
    and "us_coalescing (h_stack h) = None"
  shows "undo_depth (h_stack (drag lm h oid ts)) = Suc (undo_depth (h_stack h)) \<and>
    same_content (h_scene (host_step lm (drag lm h oid ts) DoUndo)) (h_scene h) \<and>
    undo_depth (h_stack (host_step lm (drag lm h oid ts) DoUndo)) = undo_depth (h_stack h)"
proof -
  let ?e = "live_entry oid (last ts) (o_transform (object_at (h_scene h) idx))"
  obtain w where d: "drag lm h oid ts = \<lparr>h_scene = with_version w (with_transform (h_scene h) idx (last ts)),
      h_stack = (h_stack h)\<lparr>us_redo := [], us_undo := us_undo (h_stack h) @ [?e]\<rparr>\<rparr>"
    using drag_result[OF assms] by blast
  have "host_step lm (drag lm h oid ts) DoUndo = \<lparr>h_scene = with_version (w + 1) (h_scene h),
      h_stack = (h_stack h)\<lparr>us_undo := us_undo (h_stack h), us_pending := None,
        us_redo := [\<lparr>ue_forward = SetTransform oid (last ts), ue_inverse = SetTransform oid (last ts)\<rparr>]\<rparr>\<rparr>"
    using assms(1,3) undo_of_transform[OF assms(1)] unfolding d
    by (simp add: undo_def flush_coalesce_def host_answer_def note_undo_applied_def)
  then show ?thesis using d by (simp add: undo_depth_def)
qed

theorem drag_undone_at_once_witness:
  "let h = \<lparr>h_scene = sample, h_stack = undo_stack_new ''u''\<rparr>; d = drag zero_libm h ''a'' [moved, moved]
   in undo_depth (h_stack d) = Suc (undo_depth (h_stack h)) \<and>
      same_content (h_scene (host_step zero_libm d DoUndo)) (h_scene h) \<and>
      undo_depth (h_stack (host_step zero_libm d DoUndo)) = undo_depth (h_stack h)"
  unfolding Let_def
  by (rule drag_undone_at_once[where idx = 0]) (simp_all add: sample_index undo_stack_new_def)

section \<open>Selection\<close>

text \<open>Reconciling a selection keeps exactly its live ids in their order, gives the kind that
  fits their number, does nothing on a selection already reconciled, and forgets nothing that a
  smaller scene would keep; selecting everything is already reconciled.\<close>

theorem selection_reconciled:
  "selected_ids (valid_selection sc s) = filter (has_object sc) (selected_ids s) \<and>
   canonical_selection (valid_selection sc s) \<and>
   valid_selection sc (valid_selection sc s) = valid_selection sc s \<and>
   (set (map o_id (objects sc')) \<subseteq> set (map o_id (objects sc)) \<longrightarrow>
      valid_selection sc' (valid_selection sc s) = valid_selection sc' s) \<and>
   valid_selection sc (select_all sc) = select_all sc"
proof -
  have "valid_selection sc' (valid_selection sc s) = valid_selection sc' s"
    if "set (map o_id (objects sc')) \<subseteq> set (map o_id (objects sc))"
    using that by (intro valid_selection_mono) (fastforce simp: has_object_def)
  then show ?thesis
    using valid_selection_ids valid_selection_canonical valid_selection_idem select_all_valid by blast
qed

theorem selection_reconciled_witness:
  "valid_selection (sample\<lparr>objects := []\<rparr>) (valid_selection sample (SelMulti [''a'', ''x''])) =
   valid_selection (sample\<lparr>objects := []\<rparr>) (SelMulti [''a'', ''x''])"
  using selection_reconciled[of sample "SelMulti [''a'', ''x'']" "sample\<lparr>objects := []\<rparr>"] by simp

section \<open>The sync engine\<close>

text \<open>C11: in every session, on whatever outbox the engine was built, while \<open>ss_exact\<close>
  holds (no reseed and no overflow since the last adopted snapshot, or since a start on unique
  ids) the ownership counter of a key is the number of claims the unacknowledged operations have
  on it, and every claiming operation is an entry of the outbox; and from any session at all a
  reseed with unique ids followed by a snapshot that is not stale brings that state about.\<close>

theorem ownership_tracks_unacked:
  assumes "s = session_run lm cd (session_start sc client ob ms) evs"
    and "s' = session_run lm cd s [SevReseed rows, SevEngine (EvSnapshot snap)]"
  shows "(ss_exact s \<longrightarrow> ownership_exact (ss_engine s)) \<and>
    (distinct (map entry_key rows) \<and> \<not> sint (scene_version snap) < sint (se_base_revision (ss_engine s)) \<longrightarrow>
       ss_exact s' \<and> ownership_exact (ss_engine s'))"
proof -
  have "ss_exact s \<longrightarrow> ownership_exact (ss_engine s)"
    using session_run_sound sound_exact unfolding assms(1) by blast
  moreover have "ss_exact s' \<longrightarrow> ownership_exact (ss_engine s')"
    using session_run_sound[of lm cd sc client ob ms "evs @ [SevReseed rows, SevEngine (EvSnapshot snap)]"] sound_exact
    unfolding assms by (simp only: session_run_def foldl_append) blast
  ultimately show ?thesis using reseed_ids_ok[of rows "ss_engine s"] by (simp add: assms(2) Let_def)
qed

theorem ownership_tracks_unacked_witness:
  "ownership_exact (ss_engine (session_run zero_libm row_codec (session_start sample ''me'' stored_rows None)
     [SevReseed [row 2 True, row 1 False], SevEngine (EvSnapshot sample)]))"
proof -
  have "distinct (map entry_key [row 2 True, row 1 False])"
    by (simp add: row_def entry_key_def op_id_key_inj)
  then show ?thesis
    using ownership_tracks_unacked[OF refl refl, of zero_libm row_codec sample "''me''" stored_rows None "[]"]
    by (simp add: session_start_def sync_engine_new_def del: session_step.simps)
qed

text \<open>A reseed followed by a stale snapshot is the exception: the outbox holds the rows read back,
  but nothing is replayed or sent and the claims are still those from before the reseed.\<close>

lemma stale_snapshot_after_reseed:
  assumes "sint (scene_version snap) < sint (se_base_revision (ss_engine s))"
    and "s' = session_run lm cd s [SevReseed rows, SevEngine (EvSnapshot snap)]"
  shows "mo_entries (se_outbox (ss_engine s')) = rows \<and> ss_unread s' = rows \<and>
    se_transport (ss_engine s') = se_transport (ss_engine s) \<and>
    se_ownership (ss_engine s') = se_ownership (ss_engine s) \<and>
    se_op_owned_keys (ss_engine s') = se_op_owned_keys (ss_engine s)"
  using assms(1) unfolding assms(2) by (simp add: Let_def reconcile_snapshot_def)





text \<open>C15: in every session, also one on a persisted or reseeded outbox, an entry of the outbox
  was shipped, is with the transport, waits for the flush with the timer armed, or came from disk
  and was not replayed yet. The flush followed by a drain ships every entry that is not such an
  unread row, in the order it was authored; after a snapshot that is not stale nothing is unread,
  so they ship all of them.\<close>

theorem unacked_is_sent_or_pending:
  assumes "s = session_run lm cd (session_start sc client ob ms) evs" "en = ss_engine s"
    and "f = session_run lm cd s [SevEngine EvFlushDue, SevTakePending]"
    and "r = session_run lm cd s [SevEngine (EvSnapshot snap), SevEngine EvFlushDue, SevTakePending]"
  shows "set (mo_entries (se_outbox en)) \<subseteq>
      set (ss_shipped s) \<union> set (se_transport en) \<union> set (se_pending en) \<union> set (ss_unread s) \<and>
    set (ss_unread s) \<subseteq> set (mo_entries ob) \<union> set (loaded_rows evs) \<and>
    (se_pending en = [] \<or> se_timer_armed en) \<and>
    ss_shipped f = ss_shipped s @ se_transport en @ se_pending en \<and>
    se_pending (ss_engine f) = [] \<and> \<not> se_timer_armed (ss_engine f) \<and>
    set (mo_entries (se_outbox (ss_engine f))) \<subseteq> set (ss_shipped f) \<union> set (ss_unread s) \<and>
    (\<not> sint (scene_version snap) < sint (se_base_revision en) \<longrightarrow>
       set (mo_entries (se_outbox (ss_engine r))) \<subseteq> set (ss_shipped r))"
proof -
  have d: "delivered s" unfolding assms(1) by (rule session_run_delivered)
  have f: "delivered f" "delivered r"
    using session_run_invariant[of delivered, OF d session_step_delivered] unfolding assms(3,4) by blast+
  have u: "set (ss_unread s) \<subseteq> set (mo_entries ob) \<union> set (loaded_rows evs)"
    using unread_loaded[of lm cd "session_start sc client ob ms" evs] assms(1) by (simp add: session_start_def)
  have "ss_shipped f = ss_shipped s @ se_transport en @ se_pending en" "se_pending (ss_engine f) = []"
    "\<not> se_timer_armed (ss_engine f)" "se_transport (ss_engine f) = []" "ss_unread f = ss_unread s"
    by (auto simp: assms(2,3) on_flush_due_def send_envelopes_def buffer_take_def Let_def)
  moreover have "se_pending (ss_engine r) = []" "se_transport (ss_engine r) = []"
    by (auto simp: assms(4) on_flush_due_def buffer_take_def Let_def)
  moreover have "ss_unread r = []" if "\<not> sint (scene_version snap) < sint (se_base_revision en)"
    using that by (simp add: assms(2,4) buffer_take_def Let_def)
  moreover have "set (mo_entries (se_outbox (ss_engine f))) \<subseteq> set (ss_shipped f) \<union> set (ss_unread s)"
    using f(1) calculation by (simp add: delivered_def Let_def)
  moreover have "set (mo_entries (se_outbox (ss_engine r))) \<subseteq> set (ss_shipped r)"
    if "\<not> sint (scene_version snap) < sint (se_base_revision en)"
    using f(2) calculation(6-8) that by (simp add: delivered_def Let_def)
  ultimately show ?thesis using d u by (simp add: delivered_def Let_def assms(2))
qed

theorem unacked_is_sent_or_pending_witness:
  "let r = session_run zero_libm row_codec (session_start sample ''me'' stored_rows None)
       [SevEngine (EvSnapshot sample), SevEngine EvFlushDue, SevTakePending]
   in row 1 False \<in> set (mo_entries (se_outbox (ss_engine r))) \<and> row 1 False \<in> set (ss_shipped r)"
proof -
  let ?s = "session_start sample ''me'' stored_rows None"
  let ?r = "session_run zero_libm row_codec ?s [SevEngine (EvSnapshot sample), SevEngine EvFlushDue, SevTakePending]"
  have n: "\<not> sint (scene_version sample) < sint (se_base_revision (ss_engine ?s))"
    by (simp add: session_start_def sync_engine_new_def)
  have "se_outbox (ss_engine ?r) = se_outbox (ss_engine ?s)"
    using mem.reconcile_replays(3)[OF n refl, of zero_libm row_codec]
    by (simp add: Let_def buffer_take_def on_flush_due_def)
  then have "row 1 False \<in> set (mo_entries (se_outbox (ss_engine ?r)))"
    by (simp add: session_start_def sync_engine_new_def stored_rows_def)
  moreover have "set (mo_entries (se_outbox (ss_engine ?r))) \<subseteq> set (ss_shipped ?r)"
    using unacked_is_sent_or_pending[OF refl refl refl refl, of zero_libm row_codec sample "''me''" stored_rows None "[]" sample]
      n by (simp only: session_run_simps(1) simp_thms)
  ultimately show ?thesis unfolding Let_def by blast
qed

text \<open>Authoring an operation the kernel accepts and that changes something shows the kernel's
  scene at once, stores and queues one envelope under an id never used by a stored entry, and takes
  the operation's keys; an operation that is rejected or changes nothing leaves the engine as it
  was.\<close>

theorem author_effects:
  assumes "engine_reach lm cd en" "counters_fit en"
  shows "case apply_object_op lm (se_scene en) op of
      (_, Inl e) \<Rightarrow> author lm cd mem_ops en op ts =
        (en, Inr \<lparr>ar_errors = [e], ar_op_id = None, ar_inverse = None\<rparr>)
    | (nxt, Inr iv) \<Rightarrow>
        if iv = Batch [] then author lm cd mem_ops en op ts =
          (en, Inr \<lparr>ar_errors = [], ar_op_id = None, ar_inverse = Some iv\<rparr>)
        else \<exists>en' e. author lm cd mem_ops en op ts =
            (en', Inr \<lparr>ar_errors = [], ar_op_id = Some (wo_op_id e), ar_inverse = Some iv\<rparr>) \<and>
          se_scene en' = nxt \<and> mo_entries (se_outbox en') = mo_entries (se_outbox en) @ [e] \<and>
          entry_key e \<notin> entry_key ` set (mo_entries (se_outbox en)) \<and>
          se_pending en' = se_pending en @ [e] \<and> se_timer_armed en' \<and>
          wo_prop_delta e = c_enc cd op \<and> wo_base_revision e = se_base_revision en \<and>
          se_op_owned_keys en' = (se_op_owned_keys en)(entry_key e \<mapsto> owned_keys op)"
proof (cases "apply_object_op lm (se_scene en) op")
  case (Pair nxt r)
  have s: "mem.sound en" "mem.fits en" using assms by (simp_all add: reach_sound flip: counters_fit_iff)
  show ?thesis
  proof (cases "\<exists>iv. r = Inr iv \<and> iv \<noteq> Batch []")
    case True
    then obtain iv where iv: "r = Inr iv" "iv \<noteq> Batch []" by blast
    from mem.author_success[OF s Pair[unfolded iv(1)] iv(2), of cd ts]
    show ?thesis using Pair iv
      by (fastforce simp: Let_def enqueue_def entry_key_def wire_op_of_def)
  next
    case False
    then show ?thesis using Pair by (auto simp: author_def split: sum.splits)
  qed
qed

theorem author_effects_witness:
  "\<exists>e. se_op_owned_keys (fst (author zero_libm sample_codec mem_ops sample_engine sample_drag ''t0'')) =
     (se_op_owned_keys sample_engine)(entry_key e \<mapsto> owned_keys sample_drag)"
proof -
  obtain nxt iv where "apply_object_op zero_libm sample sample_drag = (nxt, Inr iv)" "iv \<noteq> Batch []"
    using sample_drag_applies by blast
  moreover have "se_scene sample_engine = sample" by (simp add: sample_engine_def sync_engine_new_def)
  ultimately show ?thesis
    using author_effects[OF sample_engine_reach sample_engine_fits, of sample_drag "''t0''"] by auto
qed

text \<open>C13: whatever the state of the engine, after its outbox was reseeded with durable rows a
  snapshot below the confirmed revision is ignored; any other becomes the base on which the rows
  are replayed in sequence order, every row is sent again, and afterwards a key is owned exactly
  when a stored operation that decodes writes it. Without a reseed the same holds of the rows the
  outbox has.\<close>

theorem reconnect_replays_outbox:
  assumes "en = (case reseeded of None \<Rightarrow> en0 | Some rows \<Rightarrow> reseed_outbox mem_ops en0 rows)"
    and "es = sort_key entry_seq (case reseeded of None \<Rightarrow> mo_entries (se_outbox en0) | Some rows \<Rightarrow> rows)"
    and "en' = engine_step lm cd mem_ops en (EvSnapshot sc)"
  shows "if sint (scene_version sc) < sint (se_base_revision en0) then en' = en
    else se_scene en' = foldl (replay_scene lm cd) sc es \<and> se_transport en' = se_transport en0 @ es \<and>
      se_outbox en' = se_outbox en \<and> se_base_revision en' = scene_version sc \<and>
      (\<forall>k. se_ownership en' k \<noteq> None \<longleftrightarrow>
         (\<exists>e \<in> set es. \<exists>op. c_dec cd (wo_prop_delta e) = Some op \<and> k \<in> set (owned_keys op)))"
proof -
  have frame: "se_base_revision en = se_base_revision en0" "se_transport en = se_transport en0"
    "es = sort_key entry_seq (mo_entries (se_outbox en))"
    using assms(1,2) by (simp_all split: option.splits)
  show ?thesis
  proof (cases "sint (scene_version sc) < sint (se_base_revision en)")
    case True
    then show ?thesis using assms(3) frame by (simp add: reconcile_snapshot_def)
  next
    case False
    have "en' = fst (reconcile_snapshot lm cd mem_ops en sc)" using assms(3) by simp
    note rec = mem.reconcile_replays(1-5)[OF False this]
    have "se_ownership en' k \<noteq> None \<longleftrightarrow>
        (\<exists>e \<in> set es. \<exists>op. c_dec cd (wo_prop_delta e) = Some op \<and> k \<in> set (owned_keys op))" for k
      using rec(5)[of k] by (fastforce simp: replay_keys_def frame(3))
    then show ?thesis using False rec(1-4) frame by simp
  qed
qed

theorem reconnect_replays_outbox_witness:
  "let en = reseed_outbox mem_ops busy_engine [row 2 True, row 1 False];
       en' = engine_step zero_libm row_codec mem_ops en (EvSnapshot sample)
   in se_scene en' = replay_scene zero_libm row_codec (replay_scene zero_libm row_codec sample (row 1 False)) (row 2 True) \<and>
      se_transport en' = [row 1 False, row 2 True] \<and> se_ownership en' ''a:transform'' \<noteq> None"
proof -
  let ?en = "reseed_outbox mem_ops busy_engine [row 2 True, row 1 False]"
  have b: "se_base_revision busy_engine = scene_version sample" "se_transport busy_engine = []"
    using busy_engine_frame by simp_all
  have es: "sort_key entry_seq (mo_entries (se_outbox ?en)) = [row 1 False, row 2 True]"
    by (simp add: row_def entry_seq_def)
  have d: "c_dec row_codec (wo_prop_delta (row 1 False)) = Some (SetTransform ''a'' still)"
    by (simp add: row_codec_def row_def)
  show ?thesis
    using reconnect_replays_outbox[where reseeded = "Some [row 2 True, row 1 False]" and sc = sample
        and ?en0.0 = busy_engine and lm = zero_libm and cd = row_codec, OF refl refl refl] b d es
    by (simp add: Let_def del: not_None_eq engine_step.simps)
qed

text \<open>Whatever happens, the base revision of the engine never goes down.\<close>

theorem base_revision_monotone:
  "sint (se_base_revision en) \<le> sint (se_base_revision (engine_step lm cd mem_ops en ev))"
  by (rule mem.base_never_falls)

text \<open>When the outbox fails to append, author reports the error but has already shown the
  operation and taken its keys; the id is not in the outbox, so no acknowledgement of a stored
  entry releases them.\<close>

theorem append_failure_leaks_ownership:
  assumes "apply_object_op lm (se_scene en) (SetTransform oid tr) = (nxt, Inr iv)" "iv \<noteq> Batch []"
    and "io = mem_ops\<lparr>ox_append := \<lambda>m _. (m, Inl err)\<rparr>"
  shows "\<exists>en' oi. author lm cd io en (SetTransform oid tr) ts = (en', Inl err) \<and> se_scene en' = nxt \<and>
    se_ownership en' (oid @ '':transform'') \<noteq> None \<and>
    se_op_owned_keys en' (op_id_key oi) = Some [oid @ '':transform''] \<and>
    mo_entries (se_outbox en') = mo_entries (se_outbox en) \<and> se_pending en' = se_pending en"
  using assms
  by (auto simp: author_def mem_ops_def mem_next_local_seq_def take_ownership_def Let_def bump_def)

theorem append_failure_leaks_ownership_witness:
  "\<exists>en' oi. author zero_libm sample_codec (mem_ops\<lparr>ox_append := \<lambda>m _. (m, Inl (OutboxError ''full''))\<rparr>)
       sample_engine (SetTransform ''a'' moved) ''t0'' = (en', Inl (OutboxError ''full'')) \<and>
     se_op_owned_keys en' (op_id_key oi) = Some [''a:transform''] \<and> mo_entries (se_outbox en') = []"
proof -
  have "se_scene sample_engine = sample" "mo_entries (se_outbox sample_engine) = []"
    by (simp_all add: sample_engine_def sync_engine_new_def memory_outbox_new_def)
  moreover obtain nxt iv where "apply_object_op zero_libm sample (SetTransform ''a'' moved) = (nxt, Inr iv)" "iv \<noteq> Batch []"
    using sample_drag_applies unfolding sample_drag_def by blast
  ultimately show ?thesis
    using append_failure_leaks_ownership[of zero_libm sample_engine "''a''" moved nxt iv _ _ sample_codec "''t0''",
      OF _ _ refl] by fastforce
qed

section \<open>Presence and the window\<close>

text \<open>After a presence frame of another user the registry answers with that frame, in the
  colour the user had before or the next slot of the palette, and the same as before for everybody
  else; frames that do not decode or come from the local user change nothing.\<close>

theorem presence_latest_wins:
  "peer_get (fst (ingest decode rg raw now_ms)) u =
    (case decode raw of
       None \<Rightarrow> peer_get rg u
     | Some p \<Rightarrow>
         if rg_self rg \<noteq> Some (pp_user_id p) \<and> u = pp_user_id p
         then Some \<lparr>pr_user_id = u, pr_cursor = pp_cursor p, pr_viewport = pp_viewport p,
           pr_color = (case peer_get rg u of Some q \<Rightarrow> pr_color q
                       | None \<Rightarrow> peer_colors ! (rg_color_cursor rg mod 8)),
           pr_last_seen = now_ms\<rparr>
         else peer_get rg u)"
proof (cases "\<exists>p. decode raw = Some p \<and> rg_self rg \<noteq> Some (pp_user_id p)")
  case True
  then obtain p where p: "decode raw = Some p" "rg_self rg \<noteq> Some (pp_user_id p)" by blast
  show ?thesis using peer_get_ingest[of decode raw p rg now_ms u] p
    by (auto simp: next_color_def peer_get_def split: option.splits)
qed (auto simp: ingest_def split: option.splits)

text \<open>A viewport that asks for the window already subscribed sends nothing, unless a
  coordinate is not a number, in which case every call subscribes again.\<close>

theorem window_reaim_idempotent:
  assumes "on_viewport ws vp = (ws', r)"
  shows "on_viewport ws' vp =
    (ws', if r \<noteq> None \<and> bounds_nan (window_from_viewport vp (ws_margin ws))
          then Some (window_from_viewport vp (ws_margin ws)) else None)"
  by (rule on_viewport_twice[OF assms])

theorem window_reaim_idempotent_witness:
  "\<exists>ws' r. on_viewport (window_state_new None) \<lparr>bd_x = 0, bd_y = 0, bd_width = 0, bd_height = 0\<rparr> = (ws', r) \<and>
    fst (on_viewport ws' \<lparr>bd_x = 0, bd_y = 0, bd_width = 0, bd_height = 0\<rparr>) = ws'"
proof -
  obtain ws' r where "on_viewport (window_state_new None)
      \<lparr>bd_x = 0, bd_y = 0, bd_width = 0, bd_height = 0\<rparr> = (ws', r)" by force
  with window_reaim_idempotent[OF this] show ?thesis by auto
qed

end
