(* ===== verification/BTreeMap.thy ===== *)
theory BTreeMap
  imports Prelude
begin

text \<open>
  Rust's \<open>BTreeMap<String, V>\<close> as the list of its entries in key order: the order its
  iterators yield. The operations are stated for any ordered key.
\<close>

type_synonym 'v btree = "(str \<times> 'v) list"

fun bt_insert :: "'k::linorder \<Rightarrow> 'v \<Rightarrow> ('k \<times> 'v) list \<Rightarrow> ('k \<times> 'v) list" where
  "bt_insert k v [] = [(k, v)]"
| "bt_insert k v ((k', v') # t) =
     (if k < k' then (k, v) # (k', v') # t else if k = k' then (k, v) # t else (k', v') # bt_insert k v t)"

definition bt_remove :: "'k \<Rightarrow> ('k \<times> 'v) list \<Rightarrow> ('k \<times> 'v) list" where
  "bt_remove k t = filter (\<lambda>e. fst e \<noteq> k) t"

definition bt_get :: "('k \<times> 'v) list \<Rightarrow> 'k \<Rightarrow> 'v option" where
  "bt_get t k = map_of t k"

definition bt_keys :: "('k \<times> 'v) list \<Rightarrow> 'k list" where
  "bt_keys t = map fst t"

definition bt_ok :: "('k::linorder \<times> 'v) list \<Rightarrow> bool" where
  "bt_ok t \<longleftrightarrow> sorted_wrt (<) (map fst t)"

lemma bt_ok_Nil [simp]: "bt_ok []"
  by (simp add: bt_ok_def)

lemma bt_ok_Cons: "bt_ok ((k, v) # t) \<longleftrightarrow> (\<forall>e \<in> set t. k < fst e) \<and> bt_ok t"
  by (auto simp: bt_ok_def)

lemma bt_get_Nil [simp]: "bt_get [] k = None"
  by (simp add: bt_get_def)

lemma bt_insert_keys: "fst ` set (bt_insert k v t) = insert k (fst ` set t)"
  by (induction k v t rule: bt_insert.induct) auto

lemma bt_insert_ok [simp]: "bt_ok t \<Longrightarrow> bt_ok (bt_insert k v t)"
proof (induction k v t rule: bt_insert.induct)
  case (2 k v k' v' t)
  have bt: "bt_ok t" "\<forall>x \<in> fst ` set t. k' < x" using 2(2) by (auto simp: bt_ok_Cons)
  show ?case
  proof (cases "k < k'")
    case True
    then have "\<forall>e \<in> set t. k < fst e" using bt(2) by fastforce
    then show ?thesis using True bt 2(2) by (simp add: bt_ok_Cons)
  next
    case False
    have "\<forall>x \<in> fst ` set (bt_insert k v t). k' < x" if "k \<noteq> k'"
      unfolding bt_insert_keys using False bt(2) that by auto
    then show ?thesis using False bt 2(1) by (auto simp: bt_ok_Cons)
  qed
qed (simp add: bt_ok_Cons)

lemma bt_remove_ok [simp]: "bt_ok t \<Longrightarrow> bt_ok (bt_remove k t)"
  by (simp add: bt_ok_def bt_remove_def sorted_wrt_map sorted_wrt_filter)

lemma bt_get_insert [simp]: "bt_ok t \<Longrightarrow> bt_get (bt_insert k v t) = (bt_get t)(k \<mapsto> v)"
proof (induction k v t rule: bt_insert.induct)
  case (2 k v k' v' t)
  have "map_of t k = None" if "k < k'" using 2(2) that
    by (force simp: bt_ok_Cons map_of_eq_None_iff)
  then show ?case using 2 by (auto simp: bt_get_def bt_ok_Cons fun_eq_iff)
qed (auto simp: bt_get_def)

lemma bt_get_remove [simp]: "bt_get (bt_remove k t) = (bt_get t)(k := None)"
  by (induction t) (auto simp: bt_get_def bt_remove_def fun_eq_iff)

lemma bt_keys_dom: "set (bt_keys t) = dom (bt_get t)"
  by (simp add: bt_keys_def bt_get_def[abs_def] dom_map_of_conv_image_fst)

lemma bt_ok_distinct: "bt_ok t \<Longrightarrow> distinct (map fst t)"
  by (simp add: bt_ok_def strict_sorted_iff)

lemma bt_get_iff: "bt_ok t \<Longrightarrow> bt_get t k = Some v \<longleftrightarrow> (k, v) \<in> set t"
  by (simp add: bt_get_def bt_ok_distinct)

text \<open>Two trees with the same lookups are the same list of entries.\<close>

lemma bt_eqI:
  assumes "bt_ok s" "bt_ok t" "bt_get s = bt_get t"
  shows "s = t"
proof -
  have "set s = set t"
    using assms(3) bt_get_iff[OF assms(1)] bt_get_iff[OF assms(2)] by (auto simp: fun_eq_iff)
  moreover have "sorted (map fst s)" "sorted (map fst t)" "distinct (map fst s)" "distinct (map fst t)"
    using assms by (simp_all add: bt_ok_def strict_sorted_iff)
  ultimately show ?thesis by (simp add: map_sorted_distinct_set_unique distinct_map inj_onI
        map_sorted_distinct_set_unique[of fst])
qed

end
