(* ===== verification/Bytes.thy ===== *)
theory Bytes
  imports Decimal
begin

text \<open>
  Byte strings: fixed-width integers in both byte orders, the bytes of a string, and what
  \<open>String::from_utf8\<close> accepts and reports.
\<close>

unbundle bit_operations_syntax

type_synonym bytes = "8 word list"

section \<open>Integers\<close>

definition be_bytes :: "nat \<Rightarrow> 'a::len word \<Rightarrow> bytes" where
  "be_bytes n w = map (\<lambda>i. ucast (drop_bit (8 * (n - 1 - i)) w)) [0..<n]"

definition le_bytes :: "nat \<Rightarrow> 'a::len word \<Rightarrow> bytes" where
  "le_bytes n w = map (\<lambda>i. ucast (drop_bit (8 * i) w)) [0..<n]"

fun be_value :: "bytes \<Rightarrow> nat" where
  "be_value [] = 0"
| "be_value (b # bs) = unat b * 256 ^ length bs + be_value bs"

definition le_nat :: "bytes \<Rightarrow> nat" where
  "le_nat bs = foldr (\<lambda>b n. unat b + 256 * n) bs 0"

lemma be_bytes_length [simp]: "length (be_bytes n w) = n"
  by (simp add: be_bytes_def)

lemma le_bytes_length [simp]: "length (le_bytes n w) = n"
  by (simp add: le_bytes_def)

lemma byte_le_255: "unat (b :: 8 word) \<le> 255"
proof -
  have "unat b < 2 ^ LENGTH(8)" by (rule unsigned_less)
  then show ?thesis by simp
qed

lemma be_value_bound: "be_value bs < 256 ^ length bs"
proof (induction bs)
  case (Cons b bs)
  have "unat b * 256 ^ length bs \<le> 255 * 256 ^ length bs"
    using byte_le_255 by (intro mult_right_mono) auto
  with Cons have "unat b * 256 ^ length bs + be_value bs < 255 * 256 ^ length bs + 256 ^ length bs"
    by (rule add_le_less_mono[rotated])
  then show ?case by simp
qed simp

lemma be_bytes_Suc: "be_bytes (Suc n) w = ucast (drop_bit (8 * n) w) # be_bytes n w"
  unfolding be_bytes_def upt_conv_Cons[OF zero_less_Suc]
  by (simp add: map_Suc_upt[symmetric] del: upt_Suc)

text \<open>The byte at a position is a digit in base 256.\<close>

lemma byte_digit: "unat (ucast (drop_bit (8 * n) w) :: 8 word) = unat w div 256 ^ n mod 256"
  for w :: "'a::len word"
proof -
  have p: "(2::nat) ^ (8 * n) = 256 ^ n" by (simp add: power_mult)
  have "unat (drop_bit (8 * n) w) = drop_bit (8 * n) (unat w)"
    by (simp only: unsigned_drop_bit_eq take_bit_nat_eq_self[OF unsigned_less])
  also have "\<dots> = unat w div 256 ^ n" by (simp only: drop_bit_eq_div p)
  finally show ?thesis by (simp only: unsigned_ucast_eq) (simp add: take_bit_eq_mod)
qed

lemma be_bytes_value: "be_value (be_bytes n w) = unat w mod 256 ^ n"
proof (induction n)
  case 0
  then show ?case by (simp add: be_bytes_def)
next
  case (Suc n)
  have "unat w mod (256 ^ n * 256) = 256 ^ n * (unat w div 256 ^ n mod 256) + unat w mod 256 ^ n"
    by (rule mod_mult2_eq)
  then show ?case
    unfolding be_bytes_Suc be_value.simps Suc be_bytes_length byte_digit power_Suc2 by (simp only: mult.commute)
qed

lemma be_bytes_round:
  fixes w :: "'a::len word"
  assumes "LENGTH('a) \<le> 8 * n"
  shows "be_value (be_bytes n w) = unat w"
proof -
  have "unat w < 2 ^ LENGTH('a)" by (rule unsigned_less)
  also have "\<dots> \<le> 2 ^ (8 * n)" using assms by (rule power_increasing) simp
  also have "\<dots> = 256 ^ n" by (simp add: power_mult)
  finally show ?thesis by (simp add: be_bytes_value)
qed

lemma le_bytes_rev: "le_bytes n w = rev (be_bytes n w)"
proof (induction n)
  case (Suc n)
  have "le_bytes (Suc n) w = le_bytes n w @ [ucast (drop_bit (8 * n) w)]" by (simp add: le_bytes_def)
  then show ?case by (simp add: Suc be_bytes_Suc)
qed (simp add: le_bytes_def be_bytes_def)

lemma le_nat_snoc: "le_nat (bs @ [b]) = le_nat bs + unat b * 256 ^ length bs"
proof (induction bs)
  case (Cons c bs)
  then show ?case by (simp add: le_nat_def algebra_simps)
qed (simp add: le_nat_def)

lemma le_nat_rev: "le_nat (rev bs) = be_value bs"
  by (induction bs) (simp_all add: le_nat_snoc le_nat_def[of "[]"])

lemma le_bytes_value: "le_nat (le_bytes n w) = unat w mod 256 ^ n"
  by (simp add: le_bytes_rev le_nat_rev be_bytes_value)

lemma le_bytes_round:
  fixes w :: "'a::len word"
  assumes "LENGTH('a) \<le> 8 * n"
  shows "le_nat (le_bytes n w) = unat w"
  using be_bytes_round[OF assms, of w] by (simp add: le_bytes_rev le_nat_rev)

lemma be_value_less:
  "length xs = length ys \<Longrightarrow> xs < ys \<longleftrightarrow> be_value xs < be_value ys"
proof (induction xs ys rule: list_induct2)
  case (Cons x xs y ys)
  let ?p = "256 ^ length ys :: nat"
  have *: "a * ?p + u < b * ?p + v" if "a < b" "u < ?p" for a b u v :: nat
  proof -
    have "a * ?p + u < Suc a * ?p" using that(2) by simp
    also have "\<dots> \<le> b * ?p" using that(1) by (intro mult_right_mono) auto
    finally show ?thesis by simp
  qed
  have b: "be_value xs < ?p" "be_value ys < ?p"
    using be_value_bound[of xs] be_value_bound[of ys] Cons(1) by simp_all
  consider "x < y" | "x = y" | "y < x" by fastforce
  then show ?case
  proof cases
    case 1
    then show ?thesis using *[of "unat x" "unat y"] b Cons(1) by (simp add: word_less_nat_alt)
  next
    case 2
    then show ?thesis using Cons by simp
  next
    case 3
    then have "be_value (y # ys) < be_value (x # xs)"
      using *[of "unat y" "unat x"] b Cons(1) by (simp add: word_less_nat_alt)
    then show ?thesis using 3 by auto
  qed
qed simp

section \<open>Strings\<close>

definition str_bytes :: "str \<Rightarrow> bytes" where
  "str_bytes s = map (\<lambda>c. of_nat (byte c)) s"

definition bytes_str :: "bytes \<Rightarrow> str" where
  "bytes_str bs = map (\<lambda>b. char_of (unat b)) bs"

lemma byte_round [simp]: "char_of (unat (of_nat (byte c) :: 8 word)) = c"
  by (simp add: unat_of_nat)

lemma bytes_str_bytes [simp]: "bytes_str (str_bytes s) = s"
  by (simp add: bytes_str_def str_bytes_def o_def)

lemma str_bytes_length [simp]: "length (str_bytes s) = length s"
  by (simp add: str_bytes_def)

lemma str_bytes_inj: "str_bytes a = str_bytes b \<longleftrightarrow> a = b"
  by (metis bytes_str_bytes)

text \<open>
  UTF-8 validation of the standard library: the first position that is not valid, and the
  length of the bad sequence, None when the input ends inside a character.
\<close>

definition cont_byte :: "8 word \<Rightarrow> bool" where
  "cont_byte b \<longleftrightarrow> 0x80 \<le> b \<and> b < 0xC0"

definition second_ok :: "8 word \<Rightarrow> 8 word \<Rightarrow> bool" where
  "second_ok b0 b1 \<longleftrightarrow>
     (if b0 = 0xE0 then 0xA0 \<le> b1 \<and> b1 < 0xC0
      else if b0 = 0xED then 0x80 \<le> b1 \<and> b1 < 0xA0
      else if b0 = 0xF0 then 0x90 \<le> b1 \<and> b1 < 0xC0
      else if b0 = 0xF4 then 0x80 \<le> b1 \<and> b1 < 0x90
      else cont_byte b1)"

definition utf8_width :: "8 word \<Rightarrow> nat" where
  "utf8_width b = (if b < 0x80 then 1 else if 0xC2 \<le> b \<and> b < 0xE0 then 2
     else if 0xE0 \<le> b \<and> b < 0xF0 then 3 else if 0xF0 \<le> b \<and> b < 0xF5 then 4 else 0)"

text \<open>The rest after one character, or the length of the bad sequence.\<close>

fun utf8_char :: "bytes \<Rightarrow> nat option + bytes" where
  "utf8_char [] = Inl None"
| "utf8_char (b0 # bs) =
     (if utf8_width b0 = 1 then Inr bs
      else if utf8_width b0 = 0 then Inl (Some 1)
      else case bs of [] \<Rightarrow> Inl None | b1 # bs1 \<Rightarrow>
        if \<not> second_ok b0 b1 then Inl (Some 1)
        else if utf8_width b0 = 2 then Inr bs1
        else case bs1 of [] \<Rightarrow> Inl None | b2 # bs2 \<Rightarrow>
          if \<not> cont_byte b2 then Inl (Some 2)
          else if utf8_width b0 = 3 then Inr bs2
          else case bs2 of [] \<Rightarrow> Inl None | b3 # bs3 \<Rightarrow>
            if \<not> cont_byte b3 then Inl (Some 3) else Inr bs3)"

lemma utf8_char_shorter: "utf8_char bs = Inr bs' \<Longrightarrow> length bs' < length bs"
  by (cases bs) (auto split: if_splits list.splits)

function utf8_error :: "nat \<Rightarrow> bytes \<Rightarrow> (nat \<times> nat option) option" where
  "utf8_error pos bs =
     (if bs = [] then None
      else case utf8_char bs of
             Inl len \<Rightarrow> Some (pos, len)
           | Inr bs' \<Rightarrow> utf8_error (pos + (length bs - length bs')) bs')"
  by pat_completeness auto
termination by (relation "measure (\<lambda>(_, bs). length bs)") (auto dest: utf8_char_shorter)

declare utf8_error.simps [simp del]

definition utf8_valid :: "bytes \<Rightarrow> bool" where
  "utf8_valid bs \<longleftrightarrow> utf8_error 0 bs = None"

text \<open>The display of a \<open>Utf8Error\<close>.\<close>

fun utf8_error_text :: "nat \<times> nat option \<Rightarrow> str" where
  "utf8_error_text (pos, Some len) =
     ''invalid utf-8 sequence of '' @ show_nat len @ '' bytes from index '' @ show_nat pos"
| "utf8_error_text (pos, None) = ''incomplete utf-8 byte sequence from index '' @ show_nat pos"

definition from_utf8 :: "bytes \<Rightarrow> str + str" where
  "from_utf8 bs = (case utf8_error 0 bs of None \<Rightarrow> Inr (bytes_str bs) | Some e \<Rightarrow> Inl (utf8_error_text e))"

lemma from_utf8_str [simp]: "utf8_valid (str_bytes s) \<Longrightarrow> from_utf8 (str_bytes s) = Inr s"
  by (simp add: from_utf8_def utf8_valid_def)

end
