(* ===== verification/Storage.thy ===== *)
theory Storage
  imports BTreeMap F64 Bytes
begin

text \<open>
  The store-neutral layer: records and snapshots (\<open>storage-core/src/record.rs\<close>), the
  adapter port (\<open>adapter.rs\<close>, \<open>spatial.rs\<close>) with its contract, and the in-memory
  adapter (\<open>adapters/memory.rs\<close>).
\<close>

unbundle bit_operations_syntax

text \<open>A loop that returns at the first error.\<close>

fun try_map :: "('a \<Rightarrow> 'e + 'b) \<Rightarrow> 'a list \<Rightarrow> 'e + 'b list" where
  "try_map f [] = Inr []"
| "try_map f (x # xs) = and_then (f x) (\<lambda>y. and_then (try_map f xs) (\<lambda>ys. Inr (y # ys)))"

lemma try_map_all:
  "(\<And>x. x \<in> set xs \<Longrightarrow> f x = Inr (g x)) \<Longrightarrow> try_map f xs = Inr (map g xs)"
  by (induction xs) auto

section \<open>Records and snapshots\<close>

type_synonym payload = bytes

record store_record =
  sr_id :: str
  sr_kind :: str
  sr_version :: u64
  sr_payload :: payload

definition record_new :: "str \<Rightarrow> str \<Rightarrow> payload \<Rightarrow> store_record" where
  "record_new i k p = \<lparr>sr_id = i, sr_kind = k, sr_version = 1, sr_payload = p\<rparr>"

type_synonym store_snapshot = "store_record btree"

definition snapshot_insert :: "store_snapshot \<Rightarrow> store_record \<Rightarrow> store_snapshot \<times> store_record option" where
  "snapshot_insert sn r = (bt_insert (sr_id r) r sn, bt_get sn (sr_id r))"

definition snapshot_remove :: "store_snapshot \<Rightarrow> str \<Rightarrow> store_snapshot \<times> store_record option" where
  "snapshot_remove sn i = (bt_remove i sn, bt_get sn i)"

definition snapshot_contains :: "store_snapshot \<Rightarrow> str \<Rightarrow> bool" where
  "snapshot_contains sn i \<longleftrightarrow> bt_get sn i \<noteq> None"

definition snapshot_ids :: "store_snapshot \<Rightarrow> str list" where
  "snapshot_ids sn = bt_keys sn"

definition snapshot_records :: "store_snapshot \<Rightarrow> store_record list" where
  "snapshot_records sn = map snd sn"

definition snapshot_from_records :: "store_record list \<Rightarrow> store_snapshot" where
  "snapshot_from_records rs = foldl (\<lambda>sn r. fst (snapshot_insert sn r)) [] rs"

section \<open>Errors\<close>

datatype storage_error =
    StorageNotFound str
  | StorageFormat str
  | StorageIo str
  | StorageSerde str
  | StorageUnsupported str str

fun storage_error_text :: "storage_error \<Rightarrow> str" where
  "storage_error_text (StorageNotFound i) = ''record not found: '' @ i"
| "storage_error_text (StorageFormat msg) = ''portable format error: '' @ msg"
| "storage_error_text (StorageIo msg) = ''io error: '' @ msg"
| "storage_error_text (StorageSerde msg) = ''serde error: '' @ msg"
| "storage_error_text (StorageUnsupported kind op) =
     ''adapter '' @ [CHR 0x27] @ kind @ [CHR 0x27] @ '' does not support operation '' @ [CHR 0x27] @ op @ [CHR 0x27]"

section \<open>The port\<close>

datatype adapter_kind = MemoryKind | FileKind | RedbKind | PostgresKind | S3Kind | RemoteServerKind

fun adapter_kind_str :: "adapter_kind \<Rightarrow> str" where
  "adapter_kind_str MemoryKind = ''memory''"
| "adapter_kind_str FileKind = ''file''"
| "adapter_kind_str RedbKind = ''redb''"
| "adapter_kind_str PostgresKind = ''postgres''"
| "adapter_kind_str S3Kind = ''s3''"
| "adapter_kind_str RemoteServerKind = ''remote-server''"

record region_key =
  rk_canvas_id :: str
  rk_min_x :: f64
  rk_min_y :: f64
  rk_max_x :: f64
  rk_max_y :: f64

type_synonym bbox = "f64 \<times> f64 \<times> f64 \<times> f64"

definition bbox_overlaps :: "f64 \<Rightarrow> f64 \<Rightarrow> f64 \<Rightarrow> f64 \<Rightarrow> f64 \<Rightarrow> f64 \<Rightarrow> f64 \<Rightarrow> f64 \<Rightarrow> bool" where
  "bbox_overlaps min_x min_y max_x max_y qminx qminy qmaxx qmaxy \<longleftrightarrow>
     f_le min_x qmaxx \<and> f_le qminx max_x \<and> f_le min_y qmaxy \<and> f_le qminy max_y"

text \<open>
  \<open>StorageAdapter\<close> and \<open>SpatialStore\<close>; a cursor is the list it yields, \<open>ingest\<close> is
  \<open>save\<close> by default.
\<close>

record 'a storage_ops =
  so_save :: "'a \<Rightarrow> store_record \<Rightarrow> 'a \<times> (storage_error + unit)"
  so_load :: "'a \<Rightarrow> str \<Rightarrow> storage_error + store_record"
  so_delete :: "'a \<Rightarrow> str \<Rightarrow> 'a \<times> (storage_error + bool)"
  so_list :: "'a \<Rightarrow> storage_error + str list"
  so_records :: "'a \<Rightarrow> storage_error + store_record list"
  so_snapshot :: "'a \<Rightarrow> storage_error + store_snapshot"
  so_restore :: "'a \<Rightarrow> store_snapshot \<Rightarrow> 'a \<times> (storage_error + unit)"

record 'a spatial_ops = "'a storage_ops" +
  so_save_indexed :: "'a \<Rightarrow> store_record \<Rightarrow> region_key option \<Rightarrow> 'a \<times> (storage_error + unit)"
  so_query_region :: "'a \<Rightarrow> str \<Rightarrow> bbox option \<Rightarrow> storage_error + store_record list"

definition ingest_default :: "('a, 'z) storage_ops_scheme \<Rightarrow> 'a \<Rightarrow> store_record \<Rightarrow> 'a \<times> (storage_error + unit)" where
  "ingest_default io a r = so_save io a r"

section \<open>The in-memory adapter\<close>

record memory_adapter =
  ma_snapshot :: store_snapshot
  ma_regions :: "region_key btree"

definition memory_adapter_new :: memory_adapter where
  "memory_adapter_new = \<lparr>ma_snapshot = [], ma_regions = []\<rparr>"

definition memory_from_snapshot :: "store_snapshot \<Rightarrow> memory_adapter" where
  "memory_from_snapshot sn = \<lparr>ma_snapshot = sn, ma_regions = []\<rparr>"

definition memory_save :: "memory_adapter \<Rightarrow> store_record \<Rightarrow> memory_adapter \<times> (storage_error + unit)" where
  "memory_save m r = (m\<lparr>ma_snapshot := fst (snapshot_insert (ma_snapshot m) r)\<rparr>, Inr ())"

definition memory_load :: "memory_adapter \<Rightarrow> str \<Rightarrow> storage_error + store_record" where
  "memory_load m i = ok_or (StorageNotFound i) (bt_get (ma_snapshot m) i)"

definition memory_delete :: "memory_adapter \<Rightarrow> str \<Rightarrow> memory_adapter \<times> (storage_error + bool)" where
  "memory_delete m i =
     (let (sn, old) = snapshot_remove (ma_snapshot m) i
      in (m\<lparr>ma_regions := bt_remove i (ma_regions m), ma_snapshot := sn\<rparr>, Inr (old \<noteq> None)))"

definition memory_list :: "memory_adapter \<Rightarrow> storage_error + str list" where
  "memory_list m = Inr (snapshot_ids (ma_snapshot m))"

definition memory_records :: "memory_adapter \<Rightarrow> storage_error + store_record list" where
  "memory_records m = Inr (snapshot_records (ma_snapshot m))"

definition memory_snapshot :: "memory_adapter \<Rightarrow> storage_error + store_snapshot" where
  "memory_snapshot m = Inr (ma_snapshot m)"

definition memory_restore :: "memory_adapter \<Rightarrow> store_snapshot \<Rightarrow> memory_adapter \<times> (storage_error + unit)" where
  "memory_restore m sn = (m\<lparr>ma_snapshot := sn, ma_regions := []\<rparr>, Inr ())"

definition memory_save_indexed ::
    "memory_adapter \<Rightarrow> store_record \<Rightarrow> region_key option \<Rightarrow> memory_adapter \<times> (storage_error + unit)" where
  "memory_save_indexed m r key =
     (let regions = (case key of
            Some k \<Rightarrow> bt_insert (sr_id r) k (ma_regions m)
          | None \<Rightarrow> bt_remove (sr_id r) (ma_regions m))
      in (m\<lparr>ma_regions := regions, ma_snapshot := fst (snapshot_insert (ma_snapshot m) r)\<rparr>, Inr ()))"

definition region_matches :: "str \<Rightarrow> bbox option \<Rightarrow> region_key \<Rightarrow> bool" where
  "region_matches canvas bbox key \<longleftrightarrow> rk_canvas_id key = canvas \<and>
     (case bbox of None \<Rightarrow> True
      | Some (qminx, qminy, qmaxx, qmaxy) \<Rightarrow>
          bbox_overlaps (rk_min_x key) (rk_min_y key) (rk_max_x key) (rk_max_y key) qminx qminy qmaxx qmaxy)"

definition memory_query_region ::
    "memory_adapter \<Rightarrow> str \<Rightarrow> bbox option \<Rightarrow> storage_error + store_record list" where
  "memory_query_region m canvas bbox =
     Inr (List.map_filter (\<lambda>(i, _). bt_get (ma_snapshot m) i)
            (filter (\<lambda>(_, key). region_matches canvas bbox key) (ma_regions m)))"

definition memory_ops :: "memory_adapter spatial_ops" where
  "memory_ops = \<lparr>so_save = memory_save, so_load = memory_load, so_delete = memory_delete,
     so_list = memory_list, so_records = memory_records, so_snapshot = memory_snapshot,
     so_restore = memory_restore, so_save_indexed = memory_save_indexed,
     so_query_region = memory_query_region\<rparr>"

section \<open>The contract\<close>

text \<open>
  A store is a finite map from ids to records and, where it has an index, one from ids to
  region keys: \<open>repr a C R\<close>. \<open>rec_ok\<close> holds the records a backend can keep, \<open>fits\<close> the maps
  it has room for. Listings come
  in id order. A region query answers with the overlapping records that the scan of the index
  meets (\<open>seen\<close>).
\<close>

definition snapshot_ok :: "store_snapshot \<Rightarrow> bool" where
  "snapshot_ok sn \<longleftrightarrow> bt_ok sn \<and> (\<forall>(i, r) \<in> set sn. sr_id r = i)"

type_synonym records_map = "str \<rightharpoonup> store_record"
type_synonym regions_map = "str \<rightharpoonup> region_key"

locale record_store =
  fixes io :: "('a, 'z) storage_ops_scheme"
    and rec_ok :: "store_record \<Rightarrow> bool"
    and fits :: "records_map \<Rightarrow> bool"
    and repr :: "'a \<Rightarrow> records_map \<Rightarrow> regions_map \<Rightarrow> bool"
  assumes save_law: "\<And>a C R r a' x. repr a C R \<Longrightarrow> rec_ok r \<Longrightarrow> fits (C(sr_id r \<mapsto> r)) \<Longrightarrow>
        so_save io a r = (a', x) \<Longrightarrow> x = Inr () \<and> repr a' (C(sr_id r \<mapsto> r)) R"
    and load_law: "\<And>a C R i. repr a C R \<Longrightarrow> so_load io a i = ok_or (StorageNotFound i) (C i)"
    and delete_law: "\<And>a C R i a' x. repr a C R \<Longrightarrow> so_delete io a i = (a', x) \<Longrightarrow>
        x = Inr (C i \<noteq> None) \<and> repr a' (C(i := None)) (R(i := None))"
    and list_law: "\<And>a C R. repr a C R \<Longrightarrow>
        \<exists>is. so_list io a = Inr is \<and> set is = dom C \<and> sorted_wrt (<) is"
    and records_law: "\<And>a C R. repr a C R \<Longrightarrow>
        \<exists>sn. so_records io a = Inr (map snd sn) \<and> snapshot_ok sn \<and> bt_get sn = C"
    and snapshot_law: "\<And>a C R. repr a C R \<Longrightarrow>
        \<exists>sn. so_snapshot io a = Inr sn \<and> snapshot_ok sn \<and> bt_get sn = C"
    and restore_law: "\<And>a C R sn a' x. repr a C R \<Longrightarrow> snapshot_ok sn \<Longrightarrow> \<forall>r \<in> snd ` set sn. rec_ok r \<Longrightarrow>
        fits (bt_get sn) \<Longrightarrow> so_restore io a sn = (a', x) \<Longrightarrow> x = Inr () \<and> repr a' (bt_get sn) Map.empty"
    and ids_law: "\<And>a C R i r. repr a C R \<Longrightarrow> C i = Some r \<Longrightarrow> sr_id r = i \<and> rec_ok r"
    and fits_sub: "\<And>C D. fits C \<Longrightarrow> dom D \<subseteq> dom C \<Longrightarrow> fits D"
begin

lemma load_after_save:
  assumes "repr a C R" "rec_ok r" "fits (C(sr_id r \<mapsto> r))" "so_save io a r = (a', x)"
  shows "so_load io a' i = (if i = sr_id r then Inr r else so_load io a i)"
  using save_law[OF assms] load_law[OF assms(1)] load_law by fastforce

lemma load_after_delete:
  assumes "repr a C R" "so_delete io a i = (a', x)"
  shows "so_load io a' j = (if j = i then Inl (StorageNotFound i) else so_load io a j)"
  using delete_law[OF assms] load_law[OF assms(1)] load_law by fastforce

text \<open>Several records, as \<open>import\<close> and the object store write them.\<close>

fun save_all :: "'a \<Rightarrow> store_record list \<Rightarrow> 'a" where
  "save_all a [] = a"
| "save_all a (r # rs) = save_all (fst (so_save io a r)) rs"

lemma save_all_repr:
  assumes "repr a C R" "\<forall>r \<in> set rs. rec_ok r"
    "fits (C ++ map_of (map (\<lambda>r. (sr_id r, r)) (rev rs)))"
  shows "repr (save_all a rs) (C ++ map_of (map (\<lambda>r. (sr_id r, r)) (rev rs))) R"
  using assms
proof (induction rs arbitrary: a C)
  case (Cons r rs)
  obtain a' x where s: "so_save io a r = (a', x)" by (cases "so_save io a r")
  have all: "C ++ map_of (map (\<lambda>r. (sr_id r, r)) (rev (r # rs))) =
      C(sr_id r \<mapsto> r) ++ map_of (map (\<lambda>r. (sr_id r, r)) (rev rs))"
    by (rule ext) (simp add: map_add_def split: option.split)
  have "fits (C(sr_id r \<mapsto> r))" by (rule fits_sub[OF Cons.prems(3)]) (auto simp: all)
  then have "repr a' (C(sr_id r \<mapsto> r)) R" using save_law[OF Cons.prems(1) _ _ s] Cons.prems(2) by simp
  then have "repr (save_all a' rs) (C(sr_id r \<mapsto> r) ++ map_of (map (\<lambda>r. (sr_id r, r)) (rev rs))) R"
    by (rule Cons.IH) (use Cons.prems(2) in simp, rule Cons.prems(3)[unfolded all])
  with all show ?case by (simp only: save_all.simps s fst_conv)
qed simp

text \<open>Every store lists what it holds; a snapshot restores to the same map.\<close>

lemma snapshot_restore:
  assumes "repr a C R" "so_snapshot io a = Inr sn" "repr b D S" "fits C" "so_restore io b sn = (b', x)"
  shows "x = Inr () \<and> repr b' C Map.empty"
proof -
  obtain sn' where sn': "so_snapshot io a = Inr sn'" "snapshot_ok sn'" "bt_get sn' = C"
    using snapshot_law[OF assms(1)] by blast
  then have sn: "snapshot_ok sn" "bt_get sn = C" using assms(2) by simp_all
  have "\<forall>r \<in> snd ` set sn. rec_ok r"
  proof
    fix r assume "r \<in> snd ` set sn"
    then obtain i where "bt_get sn i = Some r" using sn(1) by (auto simp: snapshot_ok_def bt_get_iff)
    then show "rec_ok r" using ids_law[OF assms(1), of i r] sn(2) by simp
  qed
  with restore_law[OF assms(3) sn(1) _ _ assms(5)] sn(2) assms(4) show ?thesis by simp
qed

end

locale spatial_store = record_store io rec_ok fits repr
  for io :: "('a, 'z) spatial_ops_scheme" and rec_ok and fits and repr +
  fixes canvas_ok :: "str \<Rightarrow> bool"
    and seen :: "bbox option \<Rightarrow> region_key \<Rightarrow> bool"
  assumes save_indexed_law: "\<And>a C R r key a' x. repr a C R \<Longrightarrow> rec_ok r \<Longrightarrow> fits (C(sr_id r \<mapsto> r)) \<Longrightarrow>
        (\<And>k. key = Some k \<Longrightarrow> canvas_ok (rk_canvas_id k)) \<Longrightarrow> so_save_indexed io a r key = (a', x) \<Longrightarrow>
        x = Inr () \<and> repr a' (C(sr_id r \<mapsto> r)) (R(sr_id r := key))"
    and query_law: "\<And>a C R canvas win. repr a C R \<Longrightarrow> canvas_ok canvas \<Longrightarrow>
        \<exists>rs. so_query_region io a canvas win = Inr rs \<and> sorted_wrt (<) (map sr_id rs) \<and>
        set rs = {r. \<exists>i key. C i = Some r \<and> R i = Some key \<and> region_matches canvas win key \<and> seen win key}"
begin

text \<open>An indexed record is in the answer exactly when its key matches.\<close>

lemma query_after_save:
  assumes "repr a C R" "rec_ok r" "fits (C(sr_id r \<mapsto> r))" "canvas_ok (rk_canvas_id k)" "canvas_ok canvas"
    "so_save_indexed io a r (Some k) = (a', x)" "so_query_region io a' canvas win = Inr rs"
  shows "r \<in> set rs \<longleftrightarrow> region_matches canvas win k \<and> seen win k"
proof -
  have r: "repr a' (C(sr_id r \<mapsto> r)) (R(sr_id r \<mapsto> k))"
    using save_indexed_law[OF assms(1,2,3) _ assms(6)] assms(4) by simp
  have *: "i = sr_id r" if "(C(sr_id r \<mapsto> r)) i = Some r" for i
    using ids_law[OF r that] by simp
  have "set rs = {q. \<exists>i key. (C(sr_id r \<mapsto> r)) i = Some q \<and> (R(sr_id r \<mapsto> k)) i = Some key \<and>
      region_matches canvas win key \<and> seen win key}"
    using query_law[OF r assms(5), of win] assms(7) by auto
  then have "r \<in> set rs \<longleftrightarrow> (\<exists>i key. (C(sr_id r \<mapsto> r)) i = Some r \<and> (R(sr_id r \<mapsto> k)) i = Some key \<and>
      region_matches canvas win key \<and> seen win key)" by simp
  also have "\<dots> \<longleftrightarrow> region_matches canvas win k \<and> seen win k"
    using * by (metis fun_upd_same option.inject)
  finally show ?thesis .
qed

end

section \<open>The in-memory adapter keeps the contract\<close>

definition memory_repr :: "memory_adapter \<Rightarrow> records_map \<Rightarrow> regions_map \<Rightarrow> bool" where
  "memory_repr m C R \<longleftrightarrow> snapshot_ok (ma_snapshot m) \<and> bt_ok (ma_regions m) \<and>
     bt_get (ma_snapshot m) = C \<and> bt_get (ma_regions m) = R"

lemma snapshot_ok_ids: "snapshot_ok sn \<Longrightarrow> bt_get sn i = Some r \<Longrightarrow> sr_id r = i"
  by (auto simp: snapshot_ok_def bt_get_iff)

lemma bt_insert_set: "x \<in> set (bt_insert k v t) \<Longrightarrow> x = (k, v) \<or> x \<in> set t"
  by (induction k v t rule: bt_insert.induct) (auto split: if_splits)

lemma bt_remove_set: "x \<in> set (bt_remove k t) \<Longrightarrow> x \<in> set t"
  by (simp add: bt_remove_def)

lemma snapshot_ok_insert [simp]: "snapshot_ok sn \<Longrightarrow> snapshot_ok (bt_insert (sr_id r) r sn)"
  by (auto simp: snapshot_ok_def dest!: bt_insert_set)

lemma snapshot_ok_remove [simp]: "snapshot_ok sn \<Longrightarrow> snapshot_ok (bt_remove i sn)"
  by (auto simp: snapshot_ok_def dest: bt_remove_set)

lemma snapshot_ok_bt [simp]: "snapshot_ok sn \<Longrightarrow> bt_ok sn"
  by (simp add: snapshot_ok_def)

lemma snapshot_ok_Nil [simp]: "snapshot_ok []"
  by (simp add: snapshot_ok_def)

lemma map_filter_ids:
  assumes "snapshot_ok sn"
  shows "map sr_id (List.map_filter (bt_get sn) is) = filter (\<lambda>i. bt_get sn i \<noteq> None) is"
  using snapshot_ok_ids[OF assms] by (induction "is") (auto simp: List.map_filter_simps split: option.split)

lemma in_map_filter: "y \<in> set (List.map_filter f xs) \<longleftrightarrow> (\<exists>x \<in> set xs. f x = Some y)"
  by (force simp: List.map_filter_def)

lemma map_filter_fst: "List.map_filter (\<lambda>(i, _). f i) xs = List.map_filter f (map fst xs)"
  by (induction xs) (auto simp: List.map_filter_simps split: option.split)

lemma memory_query_law:
  assumes "memory_repr m C R"
  shows "\<exists>rs. memory_query_region m canvas win = Inr rs \<and> sorted_wrt (<) (map sr_id rs) \<and>
    set rs = {r. \<exists>i key. C i = Some r \<and> R i = Some key \<and> region_matches canvas win key \<and> True}"
proof -
  let ?hits = "filter (\<lambda>(_, key). region_matches canvas win key) (ma_regions m)"
  let ?rs = "List.map_filter (bt_get (ma_snapshot m)) (map fst ?hits)"
  have sn: "snapshot_ok (ma_snapshot m)" and rg: "bt_ok (ma_regions m)"
    using assms by (simp_all add: memory_repr_def)
  have "sorted_wrt (<) (map sr_id ?rs)"
    unfolding map_filter_ids[OF sn] using rg
    by (intro sorted_wrt_filter) (simp add: bt_ok_def sorted_wrt_map sorted_wrt_filter)
  moreover have "r \<in> set ?rs \<longleftrightarrow> (\<exists>i key. C i = Some r \<and> R i = Some key \<and> region_matches canvas win key)" for r
    using assms bt_get_iff[OF rg] by (fastforce simp: in_map_filter memory_repr_def)
  ultimately show ?thesis
    by (intro exI[of _ ?rs]) (auto simp: memory_query_region_def map_filter_fst)
qed

interpretation mem_store: spatial_store memory_ops "\<lambda>_. True" "\<lambda>_. True" memory_repr "\<lambda>_. True" "\<lambda>_ _. True"
proof
  fix a C R and r :: store_record and a' x
  assume "memory_repr a C R" "so_save memory_ops a r = (a', x)"
  then show "x = Inr () \<and> memory_repr a' (C(sr_id r \<mapsto> r)) R"
    by (auto simp: memory_ops_def memory_save_def snapshot_insert_def memory_repr_def)
next
  fix a C R i a' x
  assume "memory_repr a C R" "so_delete memory_ops a i = (a', x)"
  then show "x = Inr (C i \<noteq> None) \<and> memory_repr a' (C(i := None)) (R(i := None))"
    by (auto simp: memory_ops_def memory_delete_def snapshot_remove_def memory_repr_def)
next
  fix a C R and r :: store_record and key a' x
  assume "memory_repr a C R" "so_save_indexed memory_ops a r key = (a', x)"
  then show "x = Inr () \<and> memory_repr a' (C(sr_id r \<mapsto> r)) (R(sr_id r := key))"
    by (auto simp: memory_ops_def memory_save_indexed_def snapshot_insert_def memory_repr_def Let_def
        split: option.splits)
next
  fix a C R
  assume "memory_repr a C R"
  then show "\<exists>is. so_list memory_ops a = Inr is \<and> set is = dom C \<and> sorted_wrt (<) is"
    by (auto simp: memory_ops_def memory_list_def snapshot_ids_def bt_keys_dom memory_repr_def
        bt_ok_def bt_keys_def[symmetric] snapshot_ok_def)
next
  fix a C R canvas win
  assume "memory_repr a C R"
  then show "\<exists>rs. so_query_region memory_ops a canvas win = Inr rs \<and> sorted_wrt (<) (map sr_id rs) \<and>
      set rs = {r. \<exists>i key. C i = Some r \<and> R i = Some key \<and> region_matches canvas win key \<and> True}"
    using memory_query_law by (simp add: memory_ops_def)
qed (auto simp: memory_ops_def memory_load_def memory_records_def snapshot_records_def memory_snapshot_def
    memory_restore_def memory_repr_def dest: snapshot_ok_ids)

end
