(* ===== verification/Morton.thy ===== *)
theory Morton
  imports F64 Bytes
begin

text \<open>
  Morton keys (\<open>storage-core/src/morton.rs\<close>): interleaving the bits of two axis values,
  the key rows of the region index, and why a scan between the codes of two corners covers
  the window. Spreading and gathering bits distribute over OR, so they are decided on single
  bits.
\<close>

unbundle bit_operations_syntax

section \<open>Codes\<close>

definition world_offset :: int where "world_offset = 2 ^ 31"

text \<open>\<open>f64::clamp\<close>.\<close>

definition world_to_axis :: "f64 \<Rightarrow> u32" where
  "world_to_axis v =
     (if f_is_nan v then 2147483647
      else f_to_u32 (f_clamp (f_add (f_round v) (f_of_int world_offset)) (f_of_int 0) (f_of_int 4294967295)))"

definition spread :: "u32 \<Rightarrow> u64" where
  "spread v =
     (let n = (ucast v :: u64);
          n = (n OR push_bit 16 n) AND 0x0000FFFF0000FFFF;
          n = (n OR push_bit 8 n) AND 0x00FF00FF00FF00FF;
          n = (n OR push_bit 4 n) AND 0x0F0F0F0F0F0F0F0F;
          n = (n OR push_bit 2 n) AND 0x3333333333333333;
          n = (n OR push_bit 1 n) AND 0x5555555555555555
      in n)"

definition compact :: "u64 \<Rightarrow> u32" where
  "compact m =
     (let n = m AND 0x5555555555555555;
          n = (n OR drop_bit 1 n) AND 0x3333333333333333;
          n = (n OR drop_bit 2 n) AND 0x0F0F0F0F0F0F0F0F;
          n = (n OR drop_bit 4 n) AND 0x00FF00FF00FF00FF;
          n = (n OR drop_bit 8 n) AND 0x0000FFFF0000FFFF;
          n = (n OR drop_bit 16 n) AND 0x00000000FFFFFFFF
      in ucast n)"

definition morton_encode :: "u32 \<Rightarrow> u32 \<Rightarrow> u64" where
  "morton_encode x y = spread x OR push_bit 1 (spread y)"

definition morton_decode :: "u64 \<Rightarrow> u32 \<times> u32" where
  "morton_decode code = (compact code, compact (drop_bit 1 code))"

definition morton_of_world :: "f64 \<Rightarrow> f64 \<Rightarrow> u64" where
  "morton_of_world x y = morton_encode (world_to_axis x) (world_to_axis y)"

definition morton_range :: "f64 \<Rightarrow> f64 \<Rightarrow> f64 \<Rightarrow> f64 \<Rightarrow> u64 \<times> u64" where
  "morton_range min_x min_y max_x max_y =
     (let lo = morton_of_world min_x min_y; hi = morton_of_world max_x max_y
      in (min lo hi, max lo hi))"

section \<open>Rows\<close>

definition region_scan_start :: "str \<Rightarrow> u64 \<Rightarrow> bytes" where
  "region_scan_start canvas morton = str_bytes canvas @ [0] @ be_bytes 8 morton"

definition region_row_key :: "str \<Rightarrow> u64 \<Rightarrow> str \<Rightarrow> bytes" where
  "region_row_key canvas morton oid = region_scan_start canvas morton @ str_bytes oid"

definition region_scan_end_excl :: "str \<Rightarrow> u64 \<Rightarrow> bytes" where
  "region_scan_end_excl canvas hi =
     (if hi = 0xFFFFFFFFFFFFFFFF then str_bytes canvas @ [1] else region_scan_start canvas (hi + 1))"

section \<open>Functions that distribute over OR\<close>

definition or_linear :: "('a::len word \<Rightarrow> 'b::len word) \<Rightarrow> bool" where
  "or_linear f \<longleftrightarrow> f 0 = 0 \<and> (\<forall>a b. f (a OR b) = f a OR f b)"

definition spread_step :: "nat \<Rightarrow> u64 \<Rightarrow> u64 \<Rightarrow> u64" where
  "spread_step k m n = (n OR push_bit k n) AND m"

definition gather_step :: "nat \<Rightarrow> u64 \<Rightarrow> u64 \<Rightarrow> u64" where
  "gather_step k m n = (n OR drop_bit k n) AND m"

lemma or_linear_steps:
  "or_linear (spread_step k m)" "or_linear (gather_step k m)" "or_linear (\<lambda>n :: u64. n AND m)"
  "or_linear (ucast :: u32 \<Rightarrow> u64)" "or_linear (ucast :: u64 \<Rightarrow> u32)"
  unfolding or_linear_def spread_step_def gather_step_def
  by (auto intro!: bit_word_eqI simp: bit_simps)

lemma or_linear_comp: "or_linear f \<Longrightarrow> or_linear g \<Longrightarrow> or_linear (\<lambda>x. f (g x))"
  by (simp add: or_linear_def)

lemma spread_steps:
  "spread v = spread_step 1 0x5555555555555555 (spread_step 2 0x3333333333333333
     (spread_step 4 0x0F0F0F0F0F0F0F0F (spread_step 8 0x00FF00FF00FF00FF
     (spread_step 16 0x0000FFFF0000FFFF (ucast v)))))"
  by (simp only: spread_def spread_step_def Let_def)

lemma compact_steps:
  "compact m = ucast (gather_step 16 0x00000000FFFFFFFF (gather_step 8 0x0000FFFF0000FFFF
     (gather_step 4 0x00FF00FF00FF00FF (gather_step 2 0x0F0F0F0F0F0F0F0F
     (gather_step 1 0x3333333333333333 (m AND 0x5555555555555555))))))"
  by (simp only: compact_def gather_step_def Let_def)

lemma or_linear_spread: "or_linear spread"
  unfolding spread_steps[abs_def] by (intro or_linear_comp[OF or_linear_steps(1)] or_linear_steps)

lemma or_linear_compact: "or_linear compact"
  unfolding compact_steps[abs_def]
  by (rule or_linear_comp[OF or_linear_steps(5)], intro or_linear_comp[OF or_linear_steps(2)] or_linear_steps)

text \<open>A word is the OR of its bits, so such a function is the OR of its values on them.\<close>

fun bits_below :: "nat \<Rightarrow> 'a::len word \<Rightarrow> 'a word" where
  "bits_below 0 v = 0"
| "bits_below (Suc n) v = bits_below n v OR (if bit v n then push_bit n 1 else 0)"

lemma bit_bits_below: "bit (bits_below n v) i \<longleftrightarrow> i < n \<and> bit v i"
  by (induction n) (auto simp: bit_simps less_Suc_eq dest: bit_imp_le_length)

lemma bits_below_all: "bits_below LENGTH('a) v = (v :: 'a::len word)"
  by (rule bit_word_eqI) (simp add: bit_bits_below)

lemma or_linear_bits:
  assumes "or_linear f"
  shows "bit (f (bits_below n v)) i \<longleftrightarrow> (\<exists>j < n. bit v j \<and> bit (f (push_bit j 1)) i)"
proof (induction n)
  case 0
  then show ?case using assms by (simp add: or_linear_def)
next
  case (Suc n)
  then show ?case using assms
    by (auto simp: or_linear_def bit_or_iff less_Suc_eq)
qed

lemma or_linear_bit:
  fixes f :: "'a::len word \<Rightarrow> 'b::len word"
  assumes "or_linear f"
  shows "bit (f v) i \<longleftrightarrow> (\<exists>j < LENGTH('a). bit v j \<and> bit (f (push_bit j 1)) i)"
  using or_linear_bits[OF assms, of "LENGTH('a)" v i] by (simp add: bits_below_all)

lemma spread_one: "\<forall>j \<in> set [0..<32]. spread (push_bit j 1) = push_bit (2 * j) 1"
  by (simp add: upt_rec spread_def Let_def)

text \<open>One bit under a gathering step; the positions of the mask decide where it goes.\<close>

definition one_at :: "nat \<Rightarrow> u64" where
  "one_at j = push_bit j 1"

lemma gather_one:
  "j < 64 \<Longrightarrow> gather_step k m (one_at j) =
     (if bit m j then one_at j else 0) OR (if k \<le> j \<and> bit m (j - k) then one_at (j - k) else 0)"
  by (rule bit_word_eqI) (auto simp: gather_step_def one_at_def bit_simps)

lemma mask_one: "one_at j AND m = (if bit m j then one_at j else 0)"
  by (rule bit_word_eqI) (auto simp: one_at_def bit_simps)

lemma ucast_one: "j < 32 \<Longrightarrow> (ucast (one_at j) :: u32) = push_bit j 1"
  by (rule bit_word_eqI) (auto simp: one_at_def bit_simps)

lemma gather_zero [simp]: "gather_step k m 0 = 0"
  by (simp add: gather_step_def)

lemma compact_one:
  "\<forall>j \<in> set [0..<64]. compact (push_bit j 1) = (if even j then push_bit (j div 2) 1 else 0)"
  unfolding compact_steps one_at_def[symmetric] mask_one
  by (simp add: upt_rec gather_one ucast_one)

lemma bit_u32_less: "bit (v :: u32) j \<Longrightarrow> j < 32"
  using bit_imp_le_length[of v j] by simp

lemma bit_u64_less: "bit (v :: u64) j \<Longrightarrow> j < 64"
  using bit_imp_le_length[of v j] by simp

lemma bit_spread: "bit (spread v) i \<longleftrightarrow> even i \<and> bit v (i div 2)"
proof -
  have "bit (spread v) i \<longleftrightarrow> (\<exists>j < 32. bit v j \<and> bit (push_bit (2 * j) 1 :: u64) i)"
    using or_linear_bit[OF or_linear_spread, of v i] spread_one by auto
  also have "\<dots> \<longleftrightarrow> (\<exists>j < 32. bit v j \<and> i = 2 * j)"
    by (intro ex_cong1) (auto simp: bit_simps)
  also have "\<dots> \<longleftrightarrow> even i \<and> bit v (i div 2)"
    using bit_u32_less[of v "i div 2"] by auto
  finally show ?thesis .
qed

lemma bit_compact: "bit (compact m) i \<longleftrightarrow> i < 32 \<and> bit m (2 * i)"
proof -
  have "bit (compact m) i \<longleftrightarrow> (\<exists>j < 64. bit m j \<and> bit (compact (push_bit j 1)) i)"
    using or_linear_bit[OF or_linear_compact, of m i] by simp
  also have "\<dots> \<longleftrightarrow> (\<exists>j < 64. bit m j \<and> j = 2 * i \<and> i < 32)"
  proof (intro ex_cong1 conj_cong refl)
    fix j :: nat
    assume "j < 64"
    then have "compact (push_bit j 1) = (if even j then push_bit (j div 2) 1 else 0)"
      using compact_one by simp
    then show "bit (compact (push_bit j 1)) i \<longleftrightarrow> j = 2 * i \<and> i < 32"
      using \<open>j < 64\<close> by (auto simp: bit_simps)
  qed
  also have "\<dots> \<longleftrightarrow> i < 32 \<and> bit m (2 * i)" by auto
  finally show ?thesis .
qed

lemma bit_morton:
  "bit (morton_encode x y) i \<longleftrightarrow> (if even i then bit x (i div 2) else bit y (i div 2))"
proof -
  have "bit (morton_encode x y) i \<longleftrightarrow> bit (spread x) i \<or> 1 \<le> i \<and> i < 64 \<and> bit (spread y) (i - 1)"
    unfolding morton_encode_def bit_or_iff bit_push_bit_iff possible_bit_def by auto
  then show ?thesis using bit_u32_less[of y "i div 2"]
    by (cases "even i") (auto simp: bit_spread elim!: oddE)
qed

lemma morton_round: "morton_decode (morton_encode x y) = (x, y)"
proof -
  have "bit (compact (morton_encode x y)) i = bit x i" for i
    using bit_u32_less[of x i] by (auto simp: bit_compact bit_morton)
  then have "compact (morton_encode x y) = x" by (intro bit_eqI)
  moreover have "bit (compact (drop_bit 1 (morton_encode x y))) i = bit y i" for i
    using bit_u32_less[of y i] unfolding bit_compact bit_drop_bit_eq o_def bit_morton by auto
  then have "compact (drop_bit 1 (morton_encode x y)) = y" by (intro bit_eqI)
  ultimately show ?thesis by (simp add: morton_decode_def del: drop_bit_of_1)
qed

lemma top_bit_less:
  fixes a b :: nat
  assumes "\<not> bit a i" "bit b i" "\<forall>j > i. bit a j = bit b j"
  shows "a < b"
proof -
  have "drop_bit (Suc i) a = drop_bit (Suc i) b"
    by (rule bit_eqI) (use assms(3) in \<open>simp add: bit_drop_bit_eq\<close>)
  then have d: "a div 2 ^ Suc i = b div 2 ^ Suc i" by (simp add: drop_bit_eq_div)
  have "even (a div 2 ^ i)" "odd (b div 2 ^ i)" using assms(1,2) by (simp_all add: bit_iff_odd)
  moreover have "a div 2 ^ i div 2 = b div 2 ^ i div 2" using d by (simp only: power_Suc2 div_mult2_eq)
  moreover have "x < y" if "even x" "odd y" "x div 2 = y div 2" for x y :: nat using that by presburger
  ultimately have l: "a div 2 ^ i < b div 2 ^ i" by blast
  show ?thesis
  proof (rule ccontr)
    assume "\<not> a < b"
    then have "b div 2 ^ i \<le> a div 2 ^ i" by (intro div_le_mono) simp
    with l show False by simp
  qed
qed

lemma word_bit_less_aux:
  fixes a b :: "'a::len word"
  assumes "\<not> bit a i" "bit b i" "\<forall>j > i. bit a j = bit b j"
  shows "a < b"
  using top_bit_less[of "unat a" i "unat b"] assms
  by (simp add: bit_unsigned_iff word_less_nat_alt)

section \<open>A scan between two corners covers the window\<close>

text \<open>The order of words is decided at the highest bit where they differ.\<close>

lemma word_less_bit:
  fixes a b :: "'a::len word"
  shows "a < b \<longleftrightarrow> (\<exists>i. \<not> bit a i \<and> bit b i \<and> (\<forall>j > i. bit a j = bit b j))"
proof
  assume "a < b"
  then have "a \<noteq> b" by simp
  then obtain i where "bit a i \<noteq> bit b i" using bit_eq_iff by blast
  define D where "D = {i. bit a i \<noteq> bit b i}"
  have fin: "finite D"
    by (rule finite_subset[of _ "{..<LENGTH('a)}"]) (auto simp: D_def dest: bit_imp_le_length)
  let ?i = "Max D"
  have i: "?i \<in> D" using fin \<open>bit a i \<noteq> bit b i\<close> by (intro Max_in) (auto simp: D_def)
  have above: "\<forall>j > ?i. bit a j = bit b j"
  proof (intro allI impI)
    fix j assume "?i < j"
    then have "j \<notin> D" using Max_ge[OF fin, of j] by auto
    then show "bit a j = bit b j" by (simp add: D_def)
  qed
  have diff: "bit a ?i \<noteq> bit b ?i" using i by (simp add: D_def)
  have "\<not> bit a ?i"
  proof
    assume "bit a ?i"
    then have "b < a" using diff above by (intro word_bit_less_aux[of b ?i a]) auto
    with \<open>a < b\<close> show False by simp
  qed
  then show "\<exists>i. \<not> bit a i \<and> bit b i \<and> (\<forall>j > i. bit a j = bit b j)" using diff above by blast
next
  assume "\<exists>i. \<not> bit a i \<and> bit b i \<and> (\<forall>j > i. bit a j = bit b j)"
  then show "a < b" using word_bit_less_aux by blast
qed

lemma morton_mono:
  assumes "x \<le> x'" "y \<le> y'"
  shows "morton_encode x y \<le> morton_encode x' y'"
proof (rule ccontr)
  assume "\<not> morton_encode x y \<le> morton_encode x' y'"
  then obtain i where i: "\<not> bit (morton_encode x' y') i" "bit (morton_encode x y) i"
    "\<forall>j > i. bit (morton_encode x' y') j = bit (morton_encode x y) j"
    by (auto simp: not_le word_less_bit)
  show False
  proof (cases "even i")
    case True
    have "bit x' j = bit x j" if "j > i div 2" for j using i(3) that
      by (auto simp: bit_morton dest!: spec[of _ "2 * j"])
    then have "x' < x" using i(1,2) True by (intro word_bit_less_aux[of x' "i div 2" x]) (simp_all add: bit_morton)
    with assms(1) show False by simp
  next
    case False
    have "bit y' j = bit y j" if "j > i div 2" for j using i(3) that
      by (auto simp: bit_morton dest!: spec[of _ "2 * j + 1"])
    then have "y' < y" using i(1,2) False by (intro word_bit_less_aux[of y' "i div 2" y]) (simp_all add: bit_morton)
    with assms(2) show False by simp
  qed
qed

section \<open>Byte order of the rows is the order of the codes\<close>

lemma be_u64_less: "be_bytes 8 (a :: u64) < be_bytes 8 b \<longleftrightarrow> a < b"
  by (simp add: be_value_less be_bytes_round word_less_nat_alt)

lemma be_u64_inj: "be_bytes 8 (a :: u64) = be_bytes 8 b \<longleftrightarrow> a = b"
  by (metis be_u64_less less_irrefl linorder_cases)

text \<open>The rows of a canvas that a scan from \<open>lo\<close> to \<open>hi\<close> meets are those with codes between.\<close>

lemma scan_rows:
  "region_scan_start c lo \<le> region_row_key c m i \<and> region_row_key c m i < region_scan_end_excl c hi \<longleftrightarrow>
   lo \<le> m \<and> m \<le> hi"
proof -
  have "region_scan_start c lo \<le> region_row_key c m i \<longleftrightarrow> lo \<le> m"
    using lex_append_same_length_iff[of "be_bytes 8 m" "be_bytes 8 lo" "str_bytes i" "[]"]
    by (simp add: region_row_key_def region_scan_start_def not_less[symmetric] lex_append_left be_u64_less)
  moreover have "region_row_key c m i < region_scan_end_excl c hi \<longleftrightarrow> m \<le> hi"
  proof (cases "hi = 0xFFFFFFFFFFFFFFFF")
    case True
    then have "hi = - 1" by simp
    then show ?thesis
      by (simp add: region_scan_end_excl_def region_row_key_def region_scan_start_def lex_append_left)
  next
    case False
    have max: "(0xFFFFFFFFFFFFFFFF :: u64) = - 1" by simp
    have "m < hi + 1 \<longleftrightarrow> m \<le> hi"
      using inc_less_eq_iff[of hi m] False unfolding max by (auto simp: not_le[symmetric])
    then show ?thesis using False lex_append_same_length_iff[of "be_bytes 8 m" "be_bytes 8 (hi + 1)" "str_bytes i" "[]"]
      by (simp add: region_scan_end_excl_def region_row_key_def region_scan_start_def lex_append_left be_u64_less)
  qed
  ultimately show ?thesis by blast
qed

text \<open>The row of an object in a canvas is its own.\<close>

lemma row_key_inj: "region_row_key c m i = region_row_key c m' j \<longleftrightarrow> m = m' \<and> i = j"
  by (auto simp: region_row_key_def region_scan_start_def be_u64_inj str_bytes_inj
      dest!: append_eq_append_conv[THEN iffD1, rotated])

end
