(* ===== verification/Redb.thy ===== *)
theory Redb
  imports Storage Morton
begin

text \<open>
  The embedded key-value adapter (\<open>storage-core/src/adapters/redb_store.rs\<close>): value framing,
  the two tables and the region query. The engine and the compressor are not part of the
  repository, so their operations are parameters (\<open>redb_env\<close>); a write transaction that
  returns an error is dropped and leaves the database as it was, failing IO is not modelled.
\<close>

section \<open>The engine\<close>

record ('t, 'k) table_api =
  tb_get :: "'t \<Rightarrow> 'k \<Rightarrow> bytes option"
  tb_insert :: "'t \<Rightarrow> 'k \<Rightarrow> bytes \<Rightarrow> 't"
  tb_remove :: "'t \<Rightarrow> 'k \<Rightarrow> 't"
  tb_iter :: "'t \<Rightarrow> ('k \<times> bytes) list"
  tb_range :: "'t \<Rightarrow> 'k \<Rightarrow> 'k \<Rightarrow> ('k \<times> bytes) list"

record ('m, 'r) redb_env =
  rv_main :: "('m, str) table_api"
  rv_region :: "('r, bytes) table_api"
  rv_zip :: "payload \<Rightarrow> payload option"
  rv_unzip :: "payload \<Rightarrow> str + payload"

record ('m, 'r) redb_db =
  rb_main :: 'm
  rb_region :: 'r

section \<open>Framed values\<close>

definition sat_u32 :: "nat \<Rightarrow> u32" where
  "sat_u32 n = (if n < 2 ^ 32 then of_nat n else 4294967295)"

definition put_bytes :: "bytes \<Rightarrow> bytes" where
  "put_bytes bs = be_bytes 4 (sat_u32 (length bs)) @ bs"

text \<open>A cursor is the bytes that are left.\<close>

definition cur_take :: "nat \<Rightarrow> bytes \<Rightarrow> storage_error + bytes \<times> bytes" where
  "cur_take n cur =
     (if n \<le> length cur then Inr (take n cur, drop n cur)
      else Inl (StorageFormat ''redb: framed value truncated''))"

definition cur_u8 :: "bytes \<Rightarrow> storage_error + 8 word \<times> bytes" where
  "cur_u8 cur = and_then (cur_take 1 cur) (\<lambda>(b, c). Inr (hd b, c))"

definition cur_u32 :: "bytes \<Rightarrow> storage_error + u32 \<times> bytes" where
  "cur_u32 cur = and_then (cur_take 4 cur) (\<lambda>(b, c). Inr (of_nat (be_value b), c))"

definition cur_u64 :: "bytes \<Rightarrow> storage_error + u64 \<times> bytes" where
  "cur_u64 cur = and_then (cur_take 8 cur) (\<lambda>(b, c). Inr (of_nat (be_value b), c))"

definition cur_f64 :: "bytes \<Rightarrow> storage_error + f64 \<times> bytes" where
  "cur_f64 cur = cur_u64 cur"

definition cur_bytes :: "bytes \<Rightarrow> storage_error + bytes \<times> bytes" where
  "cur_bytes cur = and_then (cur_u32 cur) (\<lambda>(n, c). cur_take (unat n) c)"

definition zstd_compress :: "('m, 'r) redb_env \<Rightarrow> payload \<Rightarrow> payload" where
  "zstd_compress env raw = (case rv_zip env raw of Some c \<Rightarrow> c | None \<Rightarrow> raw)"

definition zstd_decompress :: "('m, 'r) redb_env \<Rightarrow> payload \<Rightarrow> storage_error + payload" where
  "zstd_decompress env c = map_err (\<lambda>e. StorageFormat (''redb: zstd decode failed: '' @ e)) (rv_unzip env c)"

definition encode_record_value :: "('m, 'r) redb_env \<Rightarrow> store_record \<Rightarrow> bytes" where
  "encode_record_value env r =
     (let raw_len = be_bytes 4 (sat_u32 (length (sr_payload r)));
          compressed = zstd_compress env (sr_payload r)
      in put_bytes (str_bytes (sr_kind r)) @ be_bytes 8 (sr_version r) @
         (if sr_payload r = [] then [0] @ be_bytes 4 (0 :: u32)
          else if length compressed < length (sr_payload r) then [1] @ raw_len @ compressed
          else [0] @ raw_len @ sr_payload r))"

definition decode_record_value :: "('m, 'r) redb_env \<Rightarrow> str \<Rightarrow> bytes \<Rightarrow> storage_error + store_record" where
  "decode_record_value env i bs =
     and_then (cur_bytes bs) (\<lambda>(kind, c1).
     and_then (cur_u64 c1) (\<lambda>(version, c2).
     and_then (cur_u8 c2) (\<lambda>(marker, c3).
     and_then (cur_u32 c3) (\<lambda>(_, body).
     and_then
       (if marker = 0 then Inr body
        else if marker = 1 then zstd_decompress env body
        else Inl (StorageFormat (''redb: unknown payload marker '' @ show_nat (unat marker) @ '' for id '' @ i)))
       (\<lambda>payload.
     and_then (map_err (\<lambda>e. StorageFormat (''redb: kind not utf-8 for id '' @ i @ '': '' @ e)) (from_utf8 kind))
       (\<lambda>k. Inr \<lparr>sr_id = i, sr_kind = k, sr_version = version, sr_payload = payload\<rparr>))))))"

definition encode_region_value :: "str \<Rightarrow> region_key \<Rightarrow> bytes" where
  "encode_region_value oid key =
     put_bytes (str_bytes oid) @ be_bytes 8 (rk_min_x key) @ be_bytes 8 (rk_min_y key) @
     be_bytes 8 (rk_max_x key) @ be_bytes 8 (rk_max_y key)"

definition decode_region_value :: "bytes \<Rightarrow> storage_error + str \<times> bbox" where
  "decode_region_value bs =
     and_then (cur_bytes bs) (\<lambda>(raw, c0).
     and_then (map_err (\<lambda>e. StorageFormat (''redb: region object_id not utf-8: '' @ e)) (from_utf8 raw)) (\<lambda>oid.
     and_then (cur_f64 c0) (\<lambda>(min_x, c1).
     and_then (cur_f64 c1) (\<lambda>(min_y, c2).
     and_then (cur_f64 c2) (\<lambda>(max_x, c3).
     and_then (cur_f64 c3) (\<lambda>(max_y, _).
     Inr (oid, min_x, min_y, max_x, max_y)))))))"

section \<open>Operations\<close>

definition collect_region_rows_for :: "('m, 'r) redb_env \<Rightarrow> 'r \<Rightarrow> str \<Rightarrow> storage_error + bytes list" where
  "collect_region_rows_for env region i =
     and_then (try_map (\<lambda>(k, v). and_then (decode_region_value v) (\<lambda>(oid, _). Inr (oid, k)))
                (tb_iter (rv_region env) region))
       (\<lambda>rows. Inr (map snd (filter (\<lambda>(oid, _). oid = i) rows)))"

definition remove_all_keys :: "('t, 'k) table_api \<Rightarrow> 't \<Rightarrow> 'k list \<Rightarrow> 't" where
  "remove_all_keys tb t ks = foldl (tb_remove tb) t ks"

definition put_record ::
    "('m, 'r) redb_env \<Rightarrow> ('m, 'r) redb_db \<Rightarrow> store_record \<Rightarrow> ('m, 'r) redb_db \<times> (storage_error + unit)" where
  "put_record env db r =
     (db\<lparr>rb_main := tb_insert (rv_main env) (rb_main db) (sr_id r) (encode_record_value env r)\<rparr>, Inr ())"

definition get_record :: "('m, 'r) redb_env \<Rightarrow> ('m, 'r) redb_db \<Rightarrow> str \<Rightarrow> storage_error + store_record" where
  "get_record env db i =
     and_then (ok_or (StorageNotFound i) (tb_get (rv_main env) (rb_main db) i)) (decode_record_value env i)"

definition remove_record ::
    "('m, 'r) redb_env \<Rightarrow> ('m, 'r) redb_db \<Rightarrow> str \<Rightarrow> ('m, 'r) redb_db \<times> (storage_error + bool)" where
  "remove_record env db i =
     (let removed = (tb_get (rv_main env) (rb_main db) i \<noteq> None);
          main = tb_remove (rv_main env) (rb_main db) i
      in if removed
         then (case collect_region_rows_for env (rb_region db) i of
                 Inl e \<Rightarrow> (db, Inl e)
               | Inr stale \<Rightarrow>
                   (db\<lparr>rb_main := main, rb_region := remove_all_keys (rv_region env) (rb_region db) stale\<rparr>, Inr True))
         else (db\<lparr>rb_main := main\<rparr>, Inr False))"

definition all_ids :: "('m, 'r) redb_env \<Rightarrow> ('m, 'r) redb_db \<Rightarrow> storage_error + str list" where
  "all_ids env db = Inr (map fst (tb_iter (rv_main env) (rb_main db)))"

definition all_records :: "('m, 'r) redb_env \<Rightarrow> ('m, 'r) redb_db \<Rightarrow> storage_error + store_record list" where
  "all_records env db = try_map (\<lambda>(k, v). decode_record_value env k v) (tb_iter (rv_main env) (rb_main db))"

definition redb_snapshot :: "('m, 'r) redb_env \<Rightarrow> ('m, 'r) redb_db \<Rightarrow> storage_error + store_snapshot" where
  "redb_snapshot env db = and_then (all_records env db) (\<lambda>rs. Inr (snapshot_from_records rs))"

definition replace_all ::
    "('m, 'r) redb_env \<Rightarrow> ('m, 'r) redb_db \<Rightarrow> store_snapshot \<Rightarrow> ('m, 'r) redb_db \<times> (storage_error + unit)" where
  "replace_all env db sn =
     (let emptied = remove_all_keys (rv_main env) (rb_main db) (map fst (tb_iter (rv_main env) (rb_main db)));
          main = foldl (\<lambda>t r. tb_insert (rv_main env) t (sr_id r) (encode_record_value env r)) emptied
                   (snapshot_records sn);
          region = remove_all_keys (rv_region env) (rb_region db) (map fst (tb_iter (rv_region env) (rb_region db)))
      in (db\<lparr>rb_main := main, rb_region := region\<rparr>, Inr ()))"

definition centre_code :: "region_key \<Rightarrow> u64" where
  "centre_code key =
     (let cx = f_div (f_add (rk_min_x key) (rk_max_x key)) (f_of_int 2);
          cy = f_div (f_add (rk_min_y key) (rk_max_y key)) (f_of_int 2)
      in morton_of_world cx cy)"

definition put_indexed ::
    "('m, 'r) redb_env \<Rightarrow> ('m, 'r) redb_db \<Rightarrow> store_record \<Rightarrow> region_key option \<Rightarrow>
     ('m, 'r) redb_db \<times> (storage_error + unit)" where
  "put_indexed env db r key =
     (let main = tb_insert (rv_main env) (rb_main db) (sr_id r) (encode_record_value env r)
      in case collect_region_rows_for env (rb_region db) (sr_id r) of
           Inl e \<Rightarrow> (db, Inl e)
         | Inr stale \<Rightarrow>
             let region = remove_all_keys (rv_region env) (rb_region db) stale;
                 region' = (case key of
                     None \<Rightarrow> region
                   | Some k \<Rightarrow> tb_insert (rv_region env) region
                       (region_row_key (rk_canvas_id k) (centre_code k) (sr_id r))
                       (encode_region_value (sr_id r) k))
             in (db\<lparr>rb_main := main, rb_region := region'\<rparr>, Inr ()))"

definition window_overlaps :: "bbox \<Rightarrow> bbox \<Rightarrow> bool" where
  "window_overlaps w b =
     (case (w, b) of ((wx0, wy0, wx1, wy1), (x0, y0, x1, y1)) \<Rightarrow>
        f_le x0 wx1 \<and> f_le wx0 x1 \<and> f_le y0 wy1 \<and> f_le wy0 y1)"

definition scan_bounds :: "bbox option \<Rightarrow> u64 \<times> u64" where
  "scan_bounds w = (case w of Some (x0, y0, x1, y1) \<Rightarrow> morton_range x0 y0 x1 y1 | None \<Rightarrow> (0, 0xFFFFFFFFFFFFFFFF))"

text \<open>\<open>dedup\<close> drops an element that equals the one before it.\<close>

fun dedup :: "'a list \<Rightarrow> 'a list" where
  "dedup (x # y # zs) = (if x = y then dedup (y # zs) else x # dedup (y # zs))"
| "dedup xs = xs"

definition region_query ::
    "('m, 'r) redb_env \<Rightarrow> ('m, 'r) redb_db \<Rightarrow> str \<Rightarrow> bbox option \<Rightarrow> storage_error + store_record list" where
  "region_query env db canvas w =
     (let (lo, hi) = scan_bounds w;
          range = tb_range (rv_region env) (rb_region db) (region_scan_start canvas lo) (region_scan_end_excl canvas hi)
      in and_then (try_map (\<lambda>(_, v). decode_region_value v) range) (\<lambda>cands.
         let kept = filter (\<lambda>(_, b). case w of Some win \<Rightarrow> window_overlaps win b | None \<Rightarrow> True) cands;
             ids = dedup (sort (map fst kept));
             found = List.map_filter (\<lambda>i. map_option (Pair i) (tb_get (rv_main env) (rb_main db) i)) ids
         in try_map (\<lambda>(i, v). decode_record_value env i v) found))"

definition redb_ops :: "('m, 'r) redb_env \<Rightarrow> ('m, 'r) redb_db spatial_ops" where
  "redb_ops env = \<lparr>so_save = put_record env, so_load = get_record env, so_delete = remove_record env,
     so_list = all_ids env, so_records = all_records env, so_snapshot = redb_snapshot env,
     so_restore = replace_all env, so_save_indexed = put_indexed env, so_query_region = region_query env\<rparr>"

end
