(* ===== verification/ObjectStore.thy ===== *)
theory ObjectStore
  imports Lww Storage
begin

text \<open>
  The server's object store: \<open>server/src/object_store.rs\<close>. A scene is kept as one record per
  object, with a region row where the object has extents, and one record for the scene's own
  fields; \<open>apply\<close> runs an operation on the cached scene and writes the touched objects through.
  The storage backend \<open>io\<close> and the JSON text of objects (\<open>serde_json\<close>) are parameters.
\<close>

section \<open>Data\<close>

definition kind_object :: str where "kind_object = ''object''"
definition kind_canvas :: str where "kind_canvas = ''canvas''"

datatype object_store_error =
    StoreApply apply_error
  | StoreStorage storage_error

definition object_record_id :: "str \<Rightarrow> object_id \<Rightarrow> str" where
  "object_record_id canvas oid = canvas @ '':'' @ kind_object @ '':'' @ oid"

definition canvas_record_id :: "str \<Rightarrow> str" where
  "canvas_record_id canvas = canvas @ '':'' @ kind_canvas"

definition canvas_record_prefix :: "str \<Rightarrow> str" where
  "canvas_record_prefix canvas = canvas @ '':''"

definition has_prefix :: "str \<Rightarrow> str \<Rightarrow> bool" where
  "has_prefix p s \<longleftrightarrow> take (length p) s = p"

record canvas_meta =
  cm_scene_version :: i64
  cm_tags :: "tag_def list"
  cm_selection :: object_selection
  cm_updated_at :: str

definition meta_default :: canvas_meta where
  "meta_default = \<lparr>cm_scene_version = 0, cm_tags = [], cm_selection = SelCanvas, cm_updated_at = []\<rparr>"

definition meta_of_scene :: "scene \<Rightarrow> canvas_meta" where
  "meta_of_scene sc = \<lparr>cm_scene_version = scene_version sc, cm_tags = tags sc,
     cm_selection = selection sc, cm_updated_at = updated_at sc\<rparr>"

definition scene_from_meta :: "canvas_meta \<Rightarrow> object list \<Rightarrow> scene" where
  "scene_from_meta m obs = \<lparr>scene_version = cm_scene_version m, objects = obs, tags = cm_tags m,
     selection = cm_selection m, updated_at = cm_updated_at m\<rparr>"

text \<open>\<open>serde_json::to_vec\<close> and \<open>from_slice\<close> at the two record types; an error is its text.\<close>

record scene_codec =
  sj_write_object :: "object \<Rightarrow> payload"
  sj_read_object :: "payload \<Rightarrow> str + object"
  sj_write_meta :: "canvas_meta \<Rightarrow> payload"
  sj_read_meta :: "payload \<Rightarrow> str + canvas_meta"

section \<open>Region keys\<close>

definition local_extents :: "geometry \<Rightarrow> (i32 \<times> i32 \<times> i32 \<times> i32) option" where
  "local_extents g =
     (let nodes = concat (map sp_nodes (g_subpaths g)) in
      if nodes = [] then None
      else Some (foldl (\<lambda>(x0, y0, x1, y1) n.
              (i32_smaller x0 (n_x n), i32_smaller y0 (n_y n), i32_larger x1 (n_x n), i32_larger y1 (n_y n)))
            (0x7FFFFFFF, 0x7FFFFFFF, 0x80000000, 0x80000000) nodes))"

definition grow_box :: "transform \<Rightarrow> bbox \<Rightarrow> f64 \<times> f64 \<Rightarrow> bbox" where
  "grow_box t b p =
     (case b of (x0, y0, x1, y1) \<Rightarrow> case transform_apply_point t (fst p) (snd p) of (wx, wy) \<Rightarrow>
        (f_min x0 wx, f_min y0 wy, f_max x1 wx, f_max y1 wy))"

definition object_region_key :: "str \<Rightarrow> object \<Rightarrow> region_key option" where
  "object_region_key canvas ob =
     (case geometry_ensure_parsed (o_geometry ob) of
        Inl _ \<Rightarrow> None
      | Inr g \<Rightarrow>
          (case local_extents g of
             None \<Rightarrow> None
           | Some (lx0, ly0, lx1, ly1) \<Rightarrow>
               let per_px = f_of_i32 geometry_quantum_per_px;
                   px = (\<lambda>q. f_div (f_of_i32 q) per_px);
                   corners = [(px lx0, px ly0), (px lx1, px ly0), (px lx1, px ly1), (px lx0, px ly1)]
               in case foldl (grow_box (o_transform ob)) (f_inf False, f_inf False, f_inf True, f_inf True) corners of
                    (x0, y0, x1, y1) \<Rightarrow>
                      Some \<lparr>rk_canvas_id = canvas, rk_min_x = x0, rk_min_y = y0, rk_max_x = x1, rk_max_y = y1\<rparr>))"

section \<open>Records\<close>

definition object_to_record ::
    "('z) scene_codec_scheme \<Rightarrow> str \<Rightarrow> object \<Rightarrow> u64 \<Rightarrow> store_record \<times> region_key option" where
  "object_to_record cd canvas ob version =
     (\<lparr>sr_id = object_record_id canvas (o_id ob), sr_kind = kind_object, sr_version = version,
       sr_payload = sj_write_object cd ob\<rparr>, object_region_key canvas ob)"

definition meta_to_record :: "('z) scene_codec_scheme \<Rightarrow> str \<Rightarrow> scene \<Rightarrow> u64 \<Rightarrow> store_record" where
  "meta_to_record cd canvas sc version =
     \<lparr>sr_id = canvas_record_id canvas, sr_kind = kind_canvas, sr_version = version,
      sr_payload = sj_write_meta cd (meta_of_scene sc)\<rparr>"

definition decode_payload :: "(payload \<Rightarrow> str + 'b) \<Rightarrow> store_record \<Rightarrow> storage_error + 'b" where
  "decode_payload rd r = map_err (\<lambda>e. StorageSerde (''record '' @ sr_id r @ '': '' @ e)) (rd (sr_payload r))"

text \<open>\<open>let _ = object.ensure_parsed()\<close>: a path that does not parse leaves the object as it is.\<close>

definition hydrate :: "object \<Rightarrow> object" where
  "hydrate ob = (case object_ensure_parsed ob of Inl _ \<Rightarrow> ob | Inr ob' \<Rightarrow> ob')"

section \<open>Loading\<close>

record 'a object_store =
  os_adapter :: 'a
  os_working :: "str \<rightharpoonup> scene \<times> property_store"

definition object_store_new :: "'a \<Rightarrow> 'a object_store" where
  "object_store_new a = \<lparr>os_adapter = a, os_working = Map.empty\<rparr>"

text \<open>One turn of the loop of \<open>load_scene\<close>, over what it has collected.\<close>

definition collect_record ::
    "('a, 'y) storage_ops_scheme \<Rightarrow> ('z) scene_codec_scheme \<Rightarrow> str \<Rightarrow> 'a \<Rightarrow> str \<Rightarrow>
     object list \<times> canvas_meta option \<Rightarrow> storage_error + (object list \<times> canvas_meta option)" where
  "collect_record io cd canvas a i acc =
     (if \<not> has_prefix (canvas_record_prefix canvas) i then Inr acc
      else and_then (so_load io a i) (\<lambda>r.
        if sr_kind r = kind_object
        then and_then (decode_payload (sj_read_object cd) r) (\<lambda>ob. Inr (fst acc @ [hydrate ob], snd acc))
        else if sr_kind r = kind_canvas \<and> i = canvas_record_id canvas
        then and_then (decode_payload (sj_read_meta cd) r) (\<lambda>m. Inr (fst acc, Some m))
        else Inr acc))"

fun collect_records ::
    "('a, 'y) storage_ops_scheme \<Rightarrow> ('z) scene_codec_scheme \<Rightarrow> str \<Rightarrow> 'a \<Rightarrow> str list \<Rightarrow>
     object list \<times> canvas_meta option \<Rightarrow> storage_error + (object list \<times> canvas_meta option)" where
  "collect_records io cd canvas a [] acc = Inr acc"
| "collect_records io cd canvas a (i # is) acc =
     and_then (collect_record io cd canvas a i acc) (collect_records io cd canvas a is)"

definition load_scene ::
    "('a, 'y) storage_ops_scheme \<Rightarrow> ('z) scene_codec_scheme \<Rightarrow> str \<Rightarrow> 'a \<Rightarrow> object_store_error + scene" where
  "load_scene io cd canvas a =
     map_err StoreStorage (and_then (so_list io a) (\<lambda>is.
       and_then (collect_records io cd canvas a is ([], None)) (\<lambda>(obs, meta).
         Inr (scene_from_meta (case meta of None \<Rightarrow> meta_default | Some m \<Rightarrow> m) (sort_key o_id obs)))))"

definition ensure_loaded ::
    "('a, 'y) storage_ops_scheme \<Rightarrow> ('z) scene_codec_scheme \<Rightarrow> str \<Rightarrow> 'a object_store \<Rightarrow>
     'a object_store \<times> (object_store_error + scene \<times> property_store)" where
  "ensure_loaded io cd canvas os =
     (case os_working os canvas of
        Some w \<Rightarrow> (os, Inr w)
      | None \<Rightarrow>
          (case load_scene io cd canvas (os_adapter os) of
             Inl e \<Rightarrow> (os, Inl e)
           | Inr sc \<Rightarrow>
               (os\<lparr>os_working := (os_working os)(canvas \<mapsto> (sc, store_new))\<rparr>, Inr (sc, store_new))))"

definition store_scene ::
    "('a, 'y) storage_ops_scheme \<Rightarrow> ('z) scene_codec_scheme \<Rightarrow> str \<Rightarrow> 'a object_store \<Rightarrow>
     'a object_store \<times> (object_store_error + scene)" where
  "store_scene io cd canvas os = apsnd (map_sum (\<lambda>e. e) fst) (ensure_loaded io cd canvas os)"

section \<open>Writing\<close>

definition save_object ::
    "('a, 'y) spatial_ops_scheme \<Rightarrow> ('z) scene_codec_scheme \<Rightarrow> str \<Rightarrow> 'a \<Rightarrow> object \<Rightarrow> u64 \<Rightarrow>
     'a \<times> (storage_error + unit)" where
  "save_object io cd canvas a ob version =
     (case object_to_record cd canvas ob version of (r, region) \<Rightarrow> so_save_indexed io a r region)"

definition save_meta ::
    "('a, 'y) spatial_ops_scheme \<Rightarrow> ('z) scene_codec_scheme \<Rightarrow> str \<Rightarrow> 'a \<Rightarrow> scene \<Rightarrow> u64 \<Rightarrow>
     'a \<times> (storage_error + unit)" where
  "save_meta io cd canvas a sc version = so_save io a (meta_to_record cd canvas sc version)"

text \<open>The loop over the touched ids: present objects are written, absent ones removed.\<close>

fun persist_touched ::
    "('a, 'y) spatial_ops_scheme \<Rightarrow> ('z) scene_codec_scheme \<Rightarrow> str \<Rightarrow> u64 \<Rightarrow> 'a \<Rightarrow>
     (object_id \<times> object option) list \<Rightarrow> 'a \<times> (storage_error + unit)" where
  "persist_touched io cd canvas seq a [] = (a, Inr ())"
| "persist_touched io cd canvas seq a ((oid, Some ob) # ps) =
     (case save_object io cd canvas a ob seq of
        (a1, Inl e) \<Rightarrow> (a1, Inl e)
      | (a1, Inr _) \<Rightarrow> persist_touched io cd canvas seq a1 ps)"
| "persist_touched io cd canvas seq a ((oid, None) # ps) =
     (case so_delete io a (object_record_id canvas oid) of
        (a1, Inl e) \<Rightarrow> (a1, Inl e)
      | (a1, Inr _) \<Rightarrow> persist_touched io cd canvas seq a1 ps)"

definition persist_scene ::
    "('a, 'y) spatial_ops_scheme \<Rightarrow> ('z) scene_codec_scheme \<Rightarrow> str \<Rightarrow> u64 \<Rightarrow> 'a \<Rightarrow> object_id list \<Rightarrow> scene \<Rightarrow>
     'a \<times> (storage_error + unit)" where
  "persist_scene io cd canvas seq a touched sc =
     (case persist_touched io cd canvas seq a (map (\<lambda>oid. (oid, scene_get sc oid)) touched) of
        (a1, Inl e) \<Rightarrow> (a1, Inl e)
      | (a1, Inr _) \<Rightarrow> save_meta io cd canvas a1 sc seq)"

text \<open>\<open>ObjectStore::apply\<close>; an empty batch as the inverse is read as a stale operation.\<close>

definition object_store_apply ::
    "libm \<Rightarrow> ('a, 'y) spatial_ops_scheme \<Rightarrow> ('z) scene_codec_scheme \<Rightarrow> str \<Rightarrow> 'a object_store \<Rightarrow> object_op \<Rightarrow> u64 \<Rightarrow>
     'a object_store \<times> (object_store_error + object_op)" where
  "object_store_apply lm io cd canvas os op seq =
     (case ensure_loaded io cd canvas os of
        (os1, Inl e) \<Rightarrow> (os1, Inl e)
      | (os1, Inr (sc, ps)) \<Rightarrow>
          (case apply_object_op_lww lm sc ps op seq of
             (sc1, ps1, res) \<Rightarrow>
               let os2 = os1\<lparr>os_working := (os_working os1)(canvas \<mapsto> (sc1, ps1))\<rparr> in
               (case res of
                  Inl e \<Rightarrow> (os2, Inl (StoreApply e))
                | Inr iv \<Rightarrow>
                    if iv = Batch [] then (os2, Inr iv)
                    else case persist_scene io cd canvas seq (os_adapter os2) (target_ids op) sc1 of
                           (a, r) \<Rightarrow> (os2\<lparr>os_adapter := a\<rparr>, map_sum StoreStorage (\<lambda>_. iv) r))))"

text \<open>
  \<open>query_region\<close> reads the backend, not the working scene. A window is its four bounds, as
  \<open>region_window_to_bbox\<close> makes it.
\<close>

fun decode_objects ::
    "('z) scene_codec_scheme \<Rightarrow> store_record list \<Rightarrow> storage_error + object list" where
  "decode_objects cd [] = Inr []"
| "decode_objects cd (r # rs) =
     (if sr_kind r = kind_object
      then and_then (decode_payload (sj_read_object cd) r) (\<lambda>ob.
             and_then (decode_objects cd rs) (\<lambda>obs. Inr (hydrate ob # obs)))
      else decode_objects cd rs)"

definition store_query_region ::
    "('a, 'y) spatial_ops_scheme \<Rightarrow> ('z) scene_codec_scheme \<Rightarrow> str \<Rightarrow> 'a object_store \<Rightarrow> bbox option \<Rightarrow>
     object_store_error + object list" where
  "store_query_region io cd canvas os window =
     map_err StoreStorage (and_then (so_query_region io (os_adapter os) canvas window) (decode_objects cd))"

end
