(* ===== verification/ObjectStore_Laws.thy ===== *)
theory ObjectStore_Laws
  imports ObjectStore Undo_Laws "HOL-Library.Multiset"
begin

text \<open>
  What the records of a canvas say of its scene: the relation \<open>on_disk\<close>, the scene that
  \<open>load_scene\<close> builds from such records, and how \<open>apply\<close> keeps the relation. Proved over the
  storage contract, so for every adapter that keeps it.
\<close>

section \<open>Record ids\<close>

lemma has_prefix_append [simp]: "has_prefix p (p @ s)"
  by (simp add: has_prefix_def)

lemma has_prefix_iff: "has_prefix p s \<longleftrightarrow> (\<exists>t. s = p @ t)"
  by (metis append_take_drop_id has_prefix_append has_prefix_def)

lemma record_ids_apart:
  "object_record_id canvas oid = object_record_id canvas oid' \<longleftrightarrow> oid = oid'"
  "object_record_id canvas oid \<noteq> canvas_record_id canvas" "canvas_record_id canvas \<noteq> object_record_id canvas oid"
  "has_prefix (canvas_record_prefix canvas) (object_record_id canvas oid)"
  "has_prefix (canvas_record_prefix canvas) (canvas_record_id canvas)"
  by (simp_all add: object_record_id_def canvas_record_id_def canvas_record_prefix_def kind_object_def
      kind_canvas_def has_prefix_def)

section \<open>Scenes and their records\<close>

text \<open>The contours of a geometry are not in its JSON.\<close>

definition at_rest :: "object \<Rightarrow> object" where
  "at_rest ob = ob\<lparr>o_geometry := (o_geometry ob)\<lparr>g_subpaths := []\<rparr>\<rparr>"

lemma hydrate_at_rest:
  assumes "geometry_ok (o_geometry ob)"
  shows "hydrate (at_rest ob) = ob"
proof -
  let ?g = "o_geometry ob"
  have "g_subpaths ?g \<noteq> []" "parse_path (g_path ?g) = Inr (g_subpaths ?g)"
    using assms by (auto simp: geometry_ok_def validate_geometry_def)
  moreover from this have "g_path ?g \<noteq> []" by (auto simp: parse_path_def parse_loop.simps opt_list_def)
  ultimately show ?thesis
    by (simp add: hydrate_def at_rest_def object_ensure_parsed_def geometry_ensure_parsed_def geometry_parse_def)
qed

definition reads_back :: "('z) scene_codec_scheme \<Rightarrow> scene \<Rightarrow> bool" where
  "reads_back cd sc \<longleftrightarrow>
     (\<forall>ob \<in> set (objects sc). sj_read_object cd (sj_write_object cd ob) = Inr (at_rest ob)) \<and>
     sj_read_meta cd (sj_write_meta cd (meta_of_scene sc)) = Inr (meta_of_scene sc)"

definition on_disk :: "('z) scene_codec_scheme \<Rightarrow> str \<Rightarrow> scene \<Rightarrow> records_map \<Rightarrow> bool" where
  "on_disk cd canvas sc C \<longleftrightarrow>
     (\<forall>oid. case scene_get sc oid of
        Some ob \<Rightarrow> (\<exists>r. C (object_record_id canvas oid) = Some r \<and> sr_kind r = kind_object \<and>
                      sr_payload r = sj_write_object cd ob)
      | None \<Rightarrow> C (object_record_id canvas oid) = None) \<and>
     (\<forall>i r. C i = Some r \<longrightarrow> has_prefix (canvas_record_prefix canvas) i \<longrightarrow> sr_kind r = kind_object \<longrightarrow>
        (\<exists>oid. i = object_record_id canvas oid)) \<and>
     (case C (canvas_record_id canvas) of
        None \<Rightarrow> meta_of_scene sc = meta_default
      | Some r \<Rightarrow> sr_kind r = kind_canvas \<and> sr_payload r = sj_write_meta cd (meta_of_scene sc))"

definition by_id :: "scene \<Rightarrow> scene" where
  "by_id sc = sc\<lparr>objects := sort_key o_id (objects sc)\<rparr>"

lemma sort_key_unique:
  assumes "distinct (map f xs)" "distinct (map f ys)" "set xs = set ys"
  shows "sort_key f xs = sort_key f ys"
proof (rule map_sorted_distinct_set_unique)
  have d: "distinct (map f (sort_key f zs))" if "distinct (map f zs)" for zs
    using that by (metis distinct_map distinct_sort set_sort)
  show "inj_on f (set (sort_key f xs) \<union> set (sort_key f ys))"
    using assms by (simp add: distinct_map)
qed (use assms in \<open>auto simp: distinct_map distinct_sort\<close>)

lemma fresh_on_disk: "on_disk cd canvas scene_default Map.empty"
  by (simp add: on_disk_def scene_get_def scene_default_def meta_of_scene_def meta_default_def)


section \<open>Loading\<close>

definition found :: "scene \<Rightarrow> str \<Rightarrow> str \<Rightarrow> object list" where
  "found sc canvas i =
     (if \<exists>oid. i = object_record_id canvas oid
      then case scene_get sc (THE oid. i = object_record_id canvas oid) of None \<Rightarrow> [] | Some ob \<Rightarrow> [ob] else [])"

lemma found_object: "found sc canvas (object_record_id canvas oid) = (case scene_get sc oid of None \<Rightarrow> [] | Some ob \<Rightarrow> [ob])"
  by (simp add: found_def record_ids_apart)

lemma found_other: "\<forall>oid. i \<noteq> object_record_id canvas oid \<Longrightarrow> found sc canvas i = []"
  by (simp add: found_def)

lemma found_set: "ob \<in> set (found sc canvas i) \<longleftrightarrow> i = object_record_id canvas (o_id ob) \<and> scene_get sc (o_id ob) = Some ob"
proof (cases "\<exists>oid. i = object_record_id canvas oid")
  case True
  then obtain oid where i: "i = object_record_id canvas oid" by blast
  show ?thesis
    by (cases "scene_get sc oid") (auto simp: i found_object record_ids_apart dest: scene_get_Some)
qed (auto simp: found_other)

lemma found_ids: "map (\<lambda>ob. object_record_id canvas (o_id ob)) (found sc canvas i) = (if found sc canvas i = [] then [] else [i])"
proof (cases "found sc canvas i")
  case (Cons ob obs)
  have "length (found sc canvas i) \<le> 1" by (simp add: found_def split: option.split)
  then have "obs = []" using Cons by simp
  then show ?thesis using Cons found_set[of ob sc canvas i] by simp
qed simp

lemma found_all_distinct:
  assumes "distinct is"
  shows "distinct (map o_id (concat (map (found sc canvas) is)))"
proof -
  have "map (\<lambda>ob. object_record_id canvas (o_id ob)) (concat (map (found sc canvas) is)) =
      filter (\<lambda>i. found sc canvas i \<noteq> []) is"
    by (induction "is") (simp_all add: found_ids)
  then have "distinct (map (\<lambda>ob. object_record_id canvas (o_id ob)) (concat (map (found sc canvas) is)))"
    using assms by simp
  then show ?thesis by (auto simp: distinct_map inj_on_def record_ids_apart)
qed

text \<open>One record: what the loop collects from it.\<close>

context record_store begin

lemma collect_record_law:
  assumes "repr a C R" "on_disk cd canvas sc C" "scene_ok sc" "reads_back cd sc" "C i \<noteq> None"
  shows "collect_record io cd canvas a i acc =
    Inr (fst acc @ found sc canvas i,
         if i = canvas_record_id canvas then Some (meta_of_scene sc) else snd acc)"
proof -
  obtain r where r: "C i = Some r" using assms(5) by blast
  have l: "so_load io a i = Inr r" using load_law[OF assms(1)] r by simp
  consider (ob) oid where "i = object_record_id canvas oid" | (meta) "i = canvas_record_id canvas"
    | (other) "\<forall>oid. i \<noteq> object_record_id canvas oid" "i \<noteq> canvas_record_id canvas" by blast
  then show ?thesis
  proof cases
    case ob
    then obtain x where x: "scene_get sc oid = Some x" "sr_kind r = kind_object" "sr_payload r = sj_write_object cd x"
      using assms(2) r by (cases "scene_get sc oid") (auto simp: on_disk_def dest!: spec[of _ oid])
    then have "x \<in> set (objects sc)" using scene_get_Some by blast
    then have "sj_read_object cd (sj_write_object cd x) = Inr (at_rest x)" "hydrate (at_rest x) = x"
      using assms(3,4) hydrate_at_rest[of x] by (auto simp: reads_back_def scene_ok_def)
    then show ?thesis using ob x l
      by (simp add: collect_record_def record_ids_apart decode_payload_def found_object)
  next
    case meta
    then have m: "sr_kind r = kind_canvas" "sr_payload r = sj_write_meta cd (meta_of_scene sc)"
      using assms(2) r by (auto simp: on_disk_def)
    have f: "found sc canvas i = []" by (rule found_other) (simp add: meta record_ids_apart)
    show ?thesis using assms(4) meta m l f
      by (simp add: collect_record_def record_ids_apart decode_payload_def kind_object_def kind_canvas_def reads_back_def)
  next
    case other
    have f: "found sc canvas i = []" by (rule found_other[OF other(1)])
    have "has_prefix (canvas_record_prefix canvas) i \<Longrightarrow> sr_kind r \<noteq> kind_object"
      using assms(2) r other(1) unfolding on_disk_def by blast
    then show ?thesis using other f l by (simp add: collect_record_def)
  qed
qed

lemma collect_records_law:
  assumes "repr a C R" "on_disk cd canvas sc C" "scene_ok sc" "reads_back cd sc" "set is \<subseteq> dom C"
  shows "collect_records io cd canvas a is acc =
    Inr (fst acc @ concat (map (found sc canvas) is),
         if canvas_record_id canvas \<in> set is then Some (meta_of_scene sc) else snd acc)"
  using assms(5)
proof (induction "is" arbitrary: acc)
  case (Cons i "is")
  then have "C i \<noteq> None" by auto
  with Cons show ?case by (auto simp: collect_record_law[OF assms(1-4)])
qed simp

text \<open>Loading gives the scene back, its objects in id order.\<close>

lemma load_scene_law:
  assumes "repr a C R" "on_disk cd canvas sc C" "scene_ok sc" "reads_back cd sc"
  shows "load_scene io cd canvas a = Inr (by_id sc)"
proof -
  obtain ids' where l: "so_list io a = Inr ids'" "set ids' = dom C" "sorted_wrt (<) ids'"
    using list_law[OF assms(1)] by blast
  let ?obs = "concat (map (found sc canvas) ids')"
  have d: "distinct (map o_id (objects sc))" using assms(3) by (simp add: scene_ok_def ids_def)
  have "distinct ids'" using l(3) by (simp add: strict_sorted_iff)
  then have dobs: "distinct (map o_id ?obs)" by (rule found_all_distinct)
  have "x \<in> set ?obs \<longleftrightarrow> x \<in> set (objects sc)" for x
  proof
    assume "x \<in> set ?obs"
    then show "x \<in> set (objects sc)" by (auto simp: found_set dest: scene_get_Some)
  next
    assume "x \<in> set (objects sc)"
    then have g: "scene_get sc (o_id x) = Some x" using scene_get_eq[of sc x] d by (simp add: ids_def)
    then have "object_record_id canvas (o_id x) \<in> dom C"
      using assms(2) by (auto simp: on_disk_def dest!: spec[of _ "o_id x"])
    with g l(2) show "x \<in> set ?obs" by (auto simp: found_set)
  qed
  then have "sort_key o_id ?obs = sort_key o_id (objects sc)" by (intro sort_key_unique dobs d) blast
  moreover have "C (canvas_record_id canvas) = None \<Longrightarrow> meta_default = meta_of_scene sc"
    using assms(2) by (simp add: on_disk_def)
  moreover have "scene_from_meta (meta_of_scene sc) obs = sc\<lparr>objects := obs\<rparr>" for obs
    by (simp add: scene_from_meta_def meta_of_scene_def)
  ultimately show ?thesis
    using l collect_records_law[OF assms, of ids' "([], None)"]
    by (auto simp: load_scene_def by_id_def split: if_splits)
qed

end

section \<open>Writing\<close>

definition object_record :: "('z) scene_codec_scheme \<Rightarrow> str \<Rightarrow> u64 \<Rightarrow> object \<Rightarrow> store_record" where
  "object_record cd canvas version ob = fst (object_to_record cd canvas ob version)"

lemma object_record_simps [simp]:
  "sr_id (object_record cd canvas v ob) = object_record_id canvas (o_id ob)"
  "sr_kind (object_record cd canvas v ob) = kind_object"
  "sr_payload (object_record cd canvas v ob) = sj_write_object cd ob"
  by (simp_all add: object_record_def object_to_record_def)

lemma region_key_canvas: "object_region_key canvas ob = Some k \<Longrightarrow> rk_canvas_id k = canvas"
  by (auto simp: object_region_key_def Let_def split: sum.splits option.splits prod.splits)

text \<open>The records after the touched objects are written: theirs are exact, the others stay.\<close>

definition touched_written ::
    "('z) scene_codec_scheme \<Rightarrow> str \<Rightarrow> u64 \<Rightarrow> object_id list \<Rightarrow> scene \<Rightarrow> records_map \<Rightarrow> records_map" where
  "touched_written cd canvas v touched sc C = (\<lambda>i.
     if \<exists>oid \<in> set touched. i = object_record_id canvas oid
     then map_option (object_record cd canvas v) (scene_get sc (THE oid. i = object_record_id canvas oid)) else C i)"

lemma touched_written_object:
  "touched_written cd canvas v touched sc C (object_record_id canvas oid) =
     (if oid \<in> set touched then map_option (object_record cd canvas v) (scene_get sc oid)
      else C (object_record_id canvas oid))"
  by (simp add: touched_written_def record_ids_apart)

lemma touched_written_other:
  "\<forall>oid. i \<noteq> object_record_id canvas oid \<Longrightarrow> touched_written cd canvas v touched sc C i = C i"
  by (simp add: touched_written_def)

lemma touched_written_step:
  "touched_written cd canvas v touched sc
     (C(object_record_id canvas oid := map_option (object_record cd canvas v) (scene_get sc oid))) =
   touched_written cd canvas v (oid # touched) sc C"
proof
  fix i
  show "touched_written cd canvas v touched sc
      (C(object_record_id canvas oid := map_option (object_record cd canvas v) (scene_get sc oid))) i =
    touched_written cd canvas v (oid # touched) sc C i"
  proof (cases "\<exists>x. i = object_record_id canvas x")
    case True
    then show ?thesis by (auto simp: touched_written_object record_ids_apart)
  next
    case False
    then show ?thesis by (simp add: touched_written_other)
  qed
qed

text \<open>A store with room for the records of a canvas.\<close>

locale canvas_store = spatial_store io rec_ok fits repr canvas_ok seen
  for io :: "('a, 'y) spatial_ops_scheme" and rec_ok and fits and repr and canvas_ok and seen +
  fixes canvas :: str
    and id_ok :: "str \<Rightarrow> bool"
  assumes room: "\<And>C. fits C"
    and canvas_id_ok: "canvas_ok canvas"
    and record_ok: "\<And>r. id_ok (sr_id r) \<Longrightarrow> sr_kind r \<in> {kind_object, kind_canvas, ''journal''} \<Longrightarrow> rec_ok r"
    and canvas_record_ok: "id_ok (canvas_record_id canvas)"
begin

lemma persist_touched_law:
  assumes "repr a C R" "\<forall>oid \<in> set touched. id_ok (object_record_id canvas oid)"
    "persist_touched io cd canvas v a (map (\<lambda>oid. (oid, scene_get sc oid)) touched) = (a', x)"
  shows "x = Inr () \<and> (\<exists>R'. repr a' (touched_written cd canvas v touched sc C) R')"
  using assms
proof (induction touched arbitrary: a C R)
  case Nil
  then show ?case by (auto simp: touched_written_def)
next
  case (Cons oid touched)
  let ?C = "C(object_record_id canvas oid := map_option (object_record cd canvas v) (scene_get sc oid))"
  have "\<exists>a1 R1. persist_touched io cd canvas v a1 (map (\<lambda>oid. (oid, scene_get sc oid)) touched) = (a', x) \<and>
      repr a1 ?C R1"
  proof (cases "scene_get sc oid")
    case None
    obtain a1 y where d: "so_delete io a (object_record_id canvas oid) = (a1, y)"
      by (cases "so_delete io a (object_record_id canvas oid)")
    then have "y = Inr (C (object_record_id canvas oid) \<noteq> None)"
      "repr a1 (C(object_record_id canvas oid := None)) (R(object_record_id canvas oid := None))"
      using delete_law[OF Cons.prems(1) d] by simp_all
    then show ?thesis using None d Cons.prems(3) by fastforce
  next
    case (Some ob)
    then have o: "o_id ob = oid" using scene_get_Some by blast
    let ?r = "object_record cd canvas v ob"
    obtain a1 y where d: "so_save_indexed io a ?r (object_region_key canvas ob) = (a1, y)"
      by (cases "so_save_indexed io a ?r (object_region_key canvas ob)")
    have ok: "rec_ok ?r" using record_ok[of ?r] Cons.prems(2) o by simp
    have "y = Inr () \<and> repr a1 (C(sr_id ?r \<mapsto> ?r)) (R(sr_id ?r := object_region_key canvas ob))"
      by (rule save_indexed_law[OF Cons.prems(1) ok room _ d]) (simp add: region_key_canvas canvas_id_ok)
    moreover have "save_object io cd canvas a ob v = (a1, y)"
      using d by (simp add: save_object_def object_record_def case_prod_unfold object_to_record_def)
    ultimately show ?thesis using Some o Cons.prems(3) by fastforce
  qed
  then obtain a1 R1 where s: "persist_touched io cd canvas v a1 (map (\<lambda>oid. (oid, scene_get sc oid)) touched) = (a', x)"
    "repr a1 ?C R1" by (elim exE conjE)
  have "\<forall>oid \<in> set touched. id_ok (object_record_id canvas oid)" using Cons.prems(2) by simp
  from Cons.IH[OF s(2) this s(1)] show ?case by (simp only: touched_written_step)
qed

text \<open>\<open>persist_scene\<close>, the rest of \<open>apply\<close>.\<close>

definition scene_written :: "('z) scene_codec_scheme \<Rightarrow> u64 \<Rightarrow> object_id list \<Rightarrow> scene \<Rightarrow> records_map \<Rightarrow> records_map" where
  "scene_written cd v touched sc C =
     (touched_written cd canvas v touched sc C)(canvas_record_id canvas \<mapsto> meta_to_record cd canvas sc v)"

lemma persist_scene_law:
  assumes "repr a C R" "\<forall>oid \<in> set touched. id_ok (object_record_id canvas oid)"
    "persist_scene io cd canvas v a touched sc = (a', x)"
  shows "x = Inr () \<and> (\<exists>R'. repr a' (scene_written cd v touched sc C) R')"
proof -
  obtain a1 y where p: "persist_touched io cd canvas v a (map (\<lambda>oid. (oid, scene_get sc oid)) touched) = (a1, y)"
    by (cases "persist_touched io cd canvas v a (map (\<lambda>oid. (oid, scene_get sc oid)) touched)")
  obtain R1 where r: "y = Inr ()" "repr a1 (touched_written cd canvas v touched sc C) R1"
    using persist_touched_law[OF assms(1,2) p] by blast
  have s: "so_save io a1 (meta_to_record cd canvas sc v) = (a', x)"
    using assms(3) p r(1) by (simp add: persist_scene_def save_meta_def)
  have m: "sr_id (meta_to_record cd canvas sc v) = canvas_record_id canvas"
    "sr_kind (meta_to_record cd canvas sc v) = kind_canvas" by (simp_all add: meta_to_record_def)
  have "rec_ok (meta_to_record cd canvas sc v)" by (rule record_ok) (simp_all add: m canvas_record_ok)
  from save_law[OF r(2) this room s] show ?thesis by (auto simp: scene_written_def m)
qed

end

text \<open>
  An edit that changes no object outside the touched ids leaves the records exact.
\<close>

definition same_outside :: "object_id list \<Rightarrow> scene \<Rightarrow> scene \<Rightarrow> bool" where
  "same_outside touched sc sc' \<longleftrightarrow> (\<forall>oid. oid \<notin> set touched \<longrightarrow> scene_get sc' oid = scene_get sc oid)"

lemma on_disk_written:
  assumes "on_disk cd canvas sc C" "same_outside touched sc sc'"
  shows "on_disk cd canvas sc'
    ((touched_written cd canvas v touched sc' C)(canvas_record_id canvas \<mapsto> meta_to_record cd canvas sc' v))"
    (is "on_disk cd canvas sc' ?D")
proof -
  have obj: "?D (object_record_id canvas oid) =
      (if oid \<in> set touched then map_option (object_record cd canvas v) (scene_get sc' oid)
       else C (object_record_id canvas oid))" for oid
    by (simp add: record_ids_apart touched_written_object)
  have 1: "case scene_get sc' oid of
      Some ob \<Rightarrow> (\<exists>r. ?D (object_record_id canvas oid) = Some r \<and> sr_kind r = kind_object \<and>
                   sr_payload r = sj_write_object cd ob)
    | None \<Rightarrow> ?D (object_record_id canvas oid) = None" for oid
  proof (cases "oid \<in> set touched")
    case True
    then show ?thesis unfolding obj by (simp split: option.split)
  next
    case False
    then have "scene_get sc' oid = scene_get sc oid" using assms(2) by (simp add: same_outside_def)
    then show ?thesis using assms(1) False unfolding obj on_disk_def by simp
  qed
  have 2: "\<exists>oid. i = object_record_id canvas oid"
    if "?D i = Some r" "has_prefix (canvas_record_prefix canvas) i" "sr_kind r = kind_object" for i r
  proof (rule ccontr)
    assume n: "\<nexists>oid. i = object_record_id canvas oid"
    then have "i \<noteq> canvas_record_id canvas"
      using that(1,3) by (auto simp: meta_to_record_def kind_object_def kind_canvas_def)
    then have "C i = Some r" using that(1) n by (simp add: touched_written_other)
    with assms(1) that(2,3) n show False unfolding on_disk_def by blast
  qed
  have 3: "?D (canvas_record_id canvas) = Some (meta_to_record cd canvas sc' v)" by simp
  show ?thesis unfolding on_disk_def 3
    by (intro conjI allI impI 1) (rule 2, assumption+, simp add: meta_to_record_def)
qed

end
