(* ===== verification/Dedup.thy ===== *)
theory Dedup
  imports Ops
begin

text \<open>
  The sync primitives of the canvas actor: \<open>server/src/sync.rs\<close>. Operation ids, the
  envelope around an operation, the journal entry, and the bounded table of operations that
  were already acknowledged.
\<close>

section \<open>Data\<close>

record sync_op_id =
  si_client_id :: str
  si_local_seq :: i64

record op_envelope =
  en_op_id :: sync_op_id
  en_base_revision :: i64
  en_ts :: str
  en_op :: object_op

record op_ack =
  ak_seq :: i64
  ak_revision :: i64

record journal_entry =
  je_seq :: i64
  je_op_id :: "sync_op_id option"
  je_base_revision :: i64
  je_op :: object_op

definition checkpoint_interval :: i64 where
  "checkpoint_interval = 32"

section \<open>The table\<close>

text \<open>\<open>dt_order\<close> is the queue of the ids in insertion order, oldest first.\<close>

record dedup_table =
  dt_acks :: "sync_op_id \<rightharpoonup> op_ack"
  dt_order :: "sync_op_id list"

definition max_seen_ops :: nat where
  "max_seen_ops = 4096"

definition dedup_new :: dedup_table where
  "dedup_new = \<lparr>dt_acks = Map.empty, dt_order = []\<rparr>"

definition dedup_seen :: "dedup_table \<Rightarrow> sync_op_id \<Rightarrow> op_ack option" where
  "dedup_seen t oi = dt_acks t oi"

text \<open>The eviction loop: the front leaves while the queue is longer than \<open>MAX_SEEN_OPS\<close>.\<close>

function dedup_evict :: "dedup_table \<Rightarrow> dedup_table" where
  "dedup_evict t =
     (if length (dt_order t) \<le> max_seen_ops then t
      else case dt_order t of
             [] \<Rightarrow> t
           | evicted # rest \<Rightarrow> dedup_evict (t\<lparr>dt_order := rest, dt_acks := (dt_acks t)(evicted := None)\<rparr>))"
  by pat_completeness auto
termination by (relation "measure (\<lambda>t. length (dt_order t))") auto

declare dedup_evict.simps [simp del]

definition dedup_record :: "dedup_table \<Rightarrow> sync_op_id \<Rightarrow> op_ack \<Rightarrow> dedup_table" where
  "dedup_record t oi ack =
     (if dt_acks t oi \<noteq> None then t
      else dedup_evict (t\<lparr>dt_acks := (dt_acks t)(oi \<mapsto> ack), dt_order := dt_order t @ [oi]\<rparr>))"

definition dedup_len :: "dedup_table \<Rightarrow> nat" where
  "dedup_len t = card (dom (dt_acks t))"

definition dedup_is_empty :: "dedup_table \<Rightarrow> bool" where
  "dedup_is_empty t \<longleftrightarrow> dt_acks t = Map.empty"

section \<open>Laws\<close>

text \<open>The queue holds the ids of the table, each once, and the table has room for them.\<close>

definition dedup_ok :: "dedup_table \<Rightarrow> bool" where
  "dedup_ok t \<longleftrightarrow> set (dt_order t) = dom (dt_acks t) \<and> distinct (dt_order t) \<and>
     length (dt_order t) \<le> max_seen_ops"

lemma dedup_new_ok [simp]: "dedup_ok dedup_new"
  by (simp add: dedup_ok_def dedup_new_def)

text \<open>One eviction is enough after one insertion.\<close>

lemma dedup_record_cases:
  assumes "dedup_ok t" "dt_acks t oi = None"
  shows "dedup_record t oi ack =
    (if length (dt_order t) < max_seen_ops
     then t\<lparr>dt_acks := (dt_acks t)(oi \<mapsto> ack), dt_order := dt_order t @ [oi]\<rparr>
     else t\<lparr>dt_acks := ((dt_acks t)(oi \<mapsto> ack))(hd (dt_order t) := None),
            dt_order := tl (dt_order t) @ [oi]\<rparr>)"
proof (cases "length (dt_order t) < max_seen_ops")
  case True
  then show ?thesis using assms(2) by (simp add: dedup_record_def dedup_evict.simps)
next
  case False
  then have l: "length (dt_order t) = max_seen_ops" using assms(1) by (simp add: dedup_ok_def)
  then obtain x xs where o: "dt_order t = x # xs" by (cases "dt_order t") (auto simp: max_seen_ops_def)
  then show ?thesis using assms(2) l
    by (simp add: dedup_record_def dedup_evict.simps)
qed

lemma dedup_record_ok:
  assumes "dedup_ok t"
  shows "dedup_ok (dedup_record t oi ack)"
proof (cases "dt_acks t oi")
  case None
  have "max_seen_ops \<noteq> 0" by (simp add: max_seen_ops_def)
  then show ?thesis
    using assms None dedup_record_cases[OF assms None]
    by (cases "dt_order t") (auto simp: dedup_ok_def domIff)
qed (simp add: dedup_record_def assms)

lemma dedup_len_order: "dedup_ok t \<Longrightarrow> dedup_len t = length (dt_order t)"
  by (metis dedup_len_def dedup_ok_def distinct_card)

lemma dedup_keeps:
  assumes "dedup_seen t oi = Some a"
  shows "dedup_record t oi b = t"
  using assms by (simp add: dedup_record_def dedup_seen_def)

lemma dedup_record_seen:
  assumes "dedup_ok t"
  shows "dedup_seen (dedup_record t oi ack) oi = Some (case dedup_seen t oi of None \<Rightarrow> ack | Some a \<Rightarrow> a)"
proof (cases "dedup_seen t oi")
  case None
  then have n: "dt_acks t oi = None" by (simp add: dedup_seen_def)
  show ?thesis
  proof (cases "length (dt_order t) < max_seen_ops")
    case False
    then obtain x xs where o: "dt_order t = x # xs" by (cases "dt_order t") (auto simp: max_seen_ops_def)
    then have "oi \<noteq> x" using assms n by (auto simp: dedup_ok_def)
    with False o None show ?thesis using dedup_record_cases[OF assms n] by (simp add: dedup_seen_def)
  qed (use dedup_record_cases[OF assms n] None in \<open>simp add: dedup_seen_def\<close>)
qed (simp add: dedup_keeps)

text \<open>Below its bound the table forgets nothing.\<close>

lemma dedup_record_below:
  assumes "dedup_ok t" "length (dt_order t) < max_seen_ops"
  shows "dt_acks (dedup_record t oi ack) = (if dt_acks t oi = None then (dt_acks t)(oi \<mapsto> ack) else dt_acks t)"
    "length (dt_order (dedup_record t oi ack)) \<le> Suc (length (dt_order t))"
  using dedup_record_cases[OF assms(1)] assms(2) by (auto simp: dedup_record_def)

text \<open>No recording changes the ack of an operation that stays in the table.\<close>

lemma dedup_record_other:
  assumes "dedup_ok t" "dedup_seen (dedup_record t oi ack) x = Some a" "x \<noteq> oi"
  shows "dedup_seen t x = Some a"
proof (cases "dt_acks t oi")
  case None
  then show ?thesis using assms dedup_record_cases[OF assms(1) None]
    by (auto simp: dedup_seen_def split: if_splits)
qed (use assms in \<open>simp add: dedup_record_def\<close>)

end
