(* ===== verification/Region.thy ===== *)
theory Region
  imports Affine Ops
begin

text \<open>
  Derived regions and the connection graph: \<open>binding/region.rs\<close> and the graph part of
  \<open>binding/anchors.rs\<close>. \<open>FLATNESS\<close> is not carried: the stub deriver ignores it.
\<close>

section \<open>Regions\<close>

record local_bounds =
  lb_min_x :: i32
  lb_min_y :: i32
  lb_max_x :: i32
  lb_max_y :: i32

record derived_region =
  rg_outline :: "local_point list"
  rg_bounds :: local_bounds
  rg_closed :: bool

datatype region_error = RegionEmpty | RegionDegenerate

definition grow_bounds :: "local_bounds \<Rightarrow> local_point \<Rightarrow> local_bounds" where
  "grow_bounds b p = \<lparr>lb_min_x = i32_smaller (lb_min_x b) (l_x p), lb_min_y = i32_smaller (lb_min_y b) (l_y p),
     lb_max_x = i32_larger (lb_max_x b) (l_x p), lb_max_y = i32_larger (lb_max_y b) (l_y p)\<rparr>"

definition derive_region :: "geometry \<Rightarrow> region_error + derived_region" where
  "derive_region g =
     (let outline = concat (map (\<lambda>sp. map (\<lambda>n. \<lparr>l_x = n_x n, l_y = n_y n\<rparr>) (sp_nodes sp)) (g_subpaths g));
          any_closed = (\<exists>sp \<in> set (g_subpaths g). sp_closed sp)
      in case outline of
           [] \<Rightarrow> Inl RegionEmpty
         | [p] \<Rightarrow> Inl RegionDegenerate
         | p # ps \<Rightarrow>
             Inr \<lparr>rg_outline = outline,
                  rg_bounds = foldl grow_bounds
                    \<lparr>lb_min_x = l_x p, lb_min_y = l_y p, lb_max_x = l_x p, lb_max_y = l_y p\<rparr> ps,
                  rg_closed = any_closed\<rparr>)"

text \<open>
  The even-odd ray cast. The edge of a vertex starts at the vertex before it, the first one's
  at the last. The products are those of \<open>i64\<close> and wrap: a difference of two \<open>i32\<close> needs 33
  bits, so a product of two can need 65.
\<close>

definition ray_crosses :: "local_point \<Rightarrow> local_point \<Rightarrow> local_point \<Rightarrow> bool" where
  "ray_crosses p vi vj =
     (let wide = (\<lambda>q :: i32. word_of_int (sint q) :: i64);
          px = wide (l_x p); py = wide (l_y p);
          xi = wide (l_x vi); yi = wide (l_y vi); xj = wide (l_x vj); yj = wide (l_y vj);
          dy = yj - yi; lhs = (px - xi) * dy; rhs = (xj - xi) * (py - yi)
      in (sint py < sint yi) \<noteq> (sint py < sint yj) \<and>
         (if 0 < sint dy then sint lhs < sint rhs else sint rhs < sint lhs))"

definition point_in_polygon :: "local_point list \<Rightarrow> local_point \<Rightarrow> bool" where
  "point_in_polygon poly p =
     (if length poly < 3 then False
      else foldl (\<lambda>inside (vi, vj). inside \<noteq> ray_crosses p vi vj) False
             (zip poly (last poly # butlast poly)))"

definition region_contains :: "derived_region \<Rightarrow> local_point \<Rightarrow> bool" where
  "region_contains r p = point_in_polygon (rg_outline r) p"

text \<open>\<open>min_by_key\<close> keeps the first of equal keys; the differences are those of \<open>i32\<close>.\<close>

definition dist_key :: "local_point \<Rightarrow> local_point \<Rightarrow> int" where
  "dist_key at q =
     (let dx = word_of_int (sint (l_x q - l_x at)) :: i64; dy = word_of_int (sint (l_y q - l_y at)) :: i64
      in sint (dx * dx + dy * dy))"

fun min_by_key :: "('a \<Rightarrow> int) \<Rightarrow> 'a list \<Rightarrow> 'a option" where
  "min_by_key f [] = None"
| "min_by_key f (x # xs) =
     (case min_by_key f xs of None \<Rightarrow> Some x | Some y \<Rightarrow> if f y < f x then Some y else Some x)"

definition nearest_on_outline :: "local_point list \<Rightarrow> local_point \<Rightarrow> local_point option" where
  "nearest_on_outline poly at = min_by_key (dist_key at) poly"

definition region_reproject :: "derived_region \<Rightarrow> local_point \<Rightarrow> local_point" where
  "region_reproject r at = (case nearest_on_outline (rg_outline r) at of None \<Rightarrow> at | Some q \<Rightarrow> q)"

definition world_to_local_quantized :: "object \<Rightarrow> f64 \<Rightarrow> f64 \<Rightarrow> (i32 \<times> i32) option" where
  "world_to_local_quantized ob wx wy =
     (case affine_of (o_transform ob) of ((a00, a01, a02), (a10, a11, a12)) \<Rightarrow>
        let det = f_sub (f_mul a00 a11) (f_mul a01 a10) in
        if f_lt (f_abs det) 0x3E112E0BE826D695  \<comment> \<open>1e-9\<close> then None
        else case apply_affine (invert_affine (affine_of (o_transform ob))) wx wy of (lx, ly) \<Rightarrow>
               Some (quantize lx, quantize ly))"

section \<open>Anchors\<close>

definition resolve_endpoint :: "anchor \<Rightarrow> object \<Rightarrow> local_point option" where
  "resolve_endpoint an target =
     (case derive_region (o_geometry target) of
        Inl _ \<Rightarrow> None | Inr r \<Rightarrow> Some (region_reproject r (a_at an)))"

definition reproject_object_anchors :: "scene \<Rightarrow> object_id \<Rightarrow> (nat \<times> local_point) list" where
  "reproject_object_anchors sc oid =
     (case scene_get sc oid of
        None \<Rightarrow> []
      | Some ob \<Rightarrow> List.map_filter (\<lambda>(i, an).
          Option.bind (scene_get sc (a_target an)) (\<lambda>target.
            map_option (Pair i) (resolve_endpoint an target)))
          (enumerate 0 (o_anchors ob)))"

definition distinct_targets :: "object \<Rightarrow> object_id list" where
  "distinct_targets ob =
     foldl (\<lambda>ts a. if a_target a = o_id ob \<or> a_target a \<in> set ts then ts else ts @ [a_target a]) [] (o_anchors ob)"

fun ordered_pairs :: "'a list \<Rightarrow> ('a \<times> 'a) list" where
  "ordered_pairs [] = []"
| "ordered_pairs (x # xs) = map (Pair x) xs @ ordered_pairs xs"

definition object_edges :: "object \<Rightarrow> (object_id \<times> object_id) list" where
  "object_edges ob =
     (case distinct_targets ob of [] \<Rightarrow> [] | [t] \<Rightarrow> [(o_id ob, t)] | ts \<Rightarrow> ordered_pairs ts)"

definition connection_graph :: "scene \<Rightarrow> (object_id \<times> object_id) list" where
  "connection_graph sc = concat (map object_edges (objects sc))"

definition other_end :: "object_id \<Rightarrow> object_id \<times> object_id \<Rightarrow> object_id option" where
  "other_end t e = (if fst e = t then Some (snd e) else if snd e = t then Some (fst e) else None)"

definition neighbors :: "scene \<Rightarrow> object_id \<Rightarrow> object_id list" where
  "neighbors sc t =
     foldl (\<lambda>out e. case other_end t e of
              None \<Rightarrow> out | Some x \<Rightarrow> if x \<noteq> t \<and> x \<notin> set out then out @ [x] else out)
       [] (connection_graph sc)"

section \<open>Laws\<close>

lemma distinct_targets_fold:
  "distinct ts \<Longrightarrow> x \<notin> set ts \<Longrightarrow>
   (let r = foldl (\<lambda>ts a. if a_target a = x \<or> a_target a \<in> set ts then ts else ts @ [a_target a]) ts ans
    in distinct r \<and> set r = set ts \<union> (a_target ` set ans - {x}))"
  by (induction ans arbitrary: ts) (auto simp: Let_def)

lemma distinct_targets_law:
  "distinct (distinct_targets ob)" "set (distinct_targets ob) = a_target ` set (o_anchors ob) - {o_id ob}"
  using distinct_targets_fold[of "[]" "o_id ob" "o_anchors ob"] by (simp_all add: distinct_targets_def Let_def)

lemma ordered_pairs_iff:
  "distinct xs \<Longrightarrow> (a, b) \<in> set (ordered_pairs xs) \<Longrightarrow> a \<noteq> b \<and> a \<in> set xs \<and> b \<in> set xs"
  by (induction xs) auto

lemma ordered_pairs_full:
  "a \<in> set xs \<Longrightarrow> b \<in> set xs \<Longrightarrow> a \<noteq> b \<Longrightarrow> (a, b) \<in> set (ordered_pairs xs) \<or> (b, a) \<in> set (ordered_pairs xs)"
  by (induction xs) auto

text \<open>The graph has no self-loop.\<close>

lemma connection_graph_irreflexive:
  assumes "(a, b) \<in> set (connection_graph sc)"
  shows "a \<noteq> b"
proof -
  obtain ob where ob: "(a, b) \<in> set (object_edges ob)"
    using assms by (auto simp: connection_graph_def)
  show ?thesis
  proof (cases "distinct_targets ob" rule: remdups_adj.cases)
    case (2 t)
    then have "t \<noteq> o_id ob" using distinct_targets_law(2)[of ob] by auto
    then show ?thesis using ob 2 by (simp add: object_edges_def)
  next
    case (3 x y xs)
    then show ?thesis using ob distinct_targets_law(1)[of ob] ordered_pairs_iff[of "x # y # xs" a b]
      by (simp add: object_edges_def)
  qed (use ob in \<open>simp add: object_edges_def\<close>)
qed

lemma neighbors_fold:
  "distinct out \<Longrightarrow> t \<notin> set out \<Longrightarrow>
   (let r = foldl (\<lambda>out e. case other_end t e of
              None \<Rightarrow> out | Some x \<Rightarrow> if x \<noteq> t \<and> x \<notin> set out then out @ [x] else out) out es
    in distinct r \<and> set r = set out \<union> {x. x \<noteq> t \<and> (\<exists>e \<in> set es. other_end t e = Some x)})"
proof (induction es arbitrary: out)
  case (Cons e es)
  show ?case
  proof (cases "other_end t e")
    case None
    then show ?thesis using Cons.IH[of out] Cons.prems by (auto simp: Let_def)
  next
    case (Some x)
    show ?thesis
    proof (cases "x \<noteq> t \<and> x \<notin> set out")
      case True
      then show ?thesis using Cons.IH[of "out @ [x]"] Cons.prems Some by (auto simp: Let_def)
    next
      case False
      then have "foldl (\<lambda>out e. case other_end t e of
              None \<Rightarrow> out | Some x \<Rightarrow> if x \<noteq> t \<and> x \<notin> set out then out @ [x] else out) out (e # es) =
          foldl (\<lambda>out e. case other_end t e of
              None \<Rightarrow> out | Some x \<Rightarrow> if x \<noteq> t \<and> x \<notin> set out then out @ [x] else out) out es"
        using Some by auto
      then show ?thesis using Cons.IH[of out] Cons.prems Some False by (auto simp: Let_def)
    qed
  qed
qed simp

text \<open>The neighbours are exactly the other ends of the edges at the object, each once.\<close>

lemma neighbors_law:
  "distinct (neighbors sc t)"
  "x \<in> set (neighbors sc t) \<longleftrightarrow> (t, x) \<in> set (connection_graph sc) \<or> (x, t) \<in> set (connection_graph sc)"
proof -
  show "distinct (neighbors sc t)"
    using neighbors_fold[of "[]" t "connection_graph sc"] by (simp add: neighbors_def Let_def)
  have "x \<in> set (neighbors sc t) \<longleftrightarrow> x \<noteq> t \<and> (\<exists>e \<in> set (connection_graph sc). other_end t e = Some x)"
    using neighbors_fold[of "[]" t "connection_graph sc"] by (simp add: neighbors_def Let_def)
  also have "\<dots> \<longleftrightarrow> (t, x) \<in> set (connection_graph sc) \<or> (x, t) \<in> set (connection_graph sc)"
  proof
    assume "x \<noteq> t \<and> (\<exists>e \<in> set (connection_graph sc). other_end t e = Some x)"
    then obtain a b where "(a, b) \<in> set (connection_graph sc)" "other_end t (a, b) = Some x" by auto
    then show "(t, x) \<in> set (connection_graph sc) \<or> (x, t) \<in> set (connection_graph sc)"
      by (auto simp: other_end_def split: if_splits)
  next
    assume e: "(t, x) \<in> set (connection_graph sc) \<or> (x, t) \<in> set (connection_graph sc)"
    then have "x \<noteq> t" using connection_graph_irreflexive by blast
    then have "other_end t (t, x) = Some x" "other_end t (x, t) = Some x" by (simp_all add: other_end_def)
    with e \<open>x \<noteq> t\<close> show "x \<noteq> t \<and> (\<exists>e \<in> set (connection_graph sc). other_end t e = Some x)" by blast
  qed
  finally show "x \<in> set (neighbors sc t) \<longleftrightarrow>
    (t, x) \<in> set (connection_graph sc) \<or> (x, t) \<in> set (connection_graph sc)" .
qed

end
