(* ===== verification/ObjectTools.thy ===== *)
theory ObjectTools
  imports Region Apply_Laws
begin

text \<open>
  The object toolset of the MCP server, \<open>server/src/object_mcp.rs\<close>: descriptive labels,
  bounds, the lowering of create and patch specifications to operations, queries, and the text
  digests. Its presets are those of \<open>authoring/templates.rs\<close>.
\<close>

section \<open>Text\<close>

text \<open>
  \<open>str::trim\<close>: the characters with the Unicode property White_Space, as UTF-8. A sequence that
  starts with a lead byte is a whole character, so the test also works at the end of a string.
\<close>

definition white_space :: "str \<Rightarrow> bool" where
  "white_space s \<longleftrightarrow>
     (case map byte s of
        [a] \<Rightarrow> (9 \<le> a \<and> a \<le> 13) \<or> a = 32
      | [a, b] \<Rightarrow> a = 0xC2 \<and> (b = 0x85 \<or> b = 0xA0)
      | [a, b, c] \<Rightarrow> (a = 0xE1 \<and> b = 0x9A \<and> c = 0x80) \<or>
          (a = 0xE2 \<and> b = 0x80 \<and> ((0x80 \<le> c \<and> c \<le> 0x8A) \<or> c = 0xA8 \<or> c = 0xA9 \<or> c = 0xAF)) \<or>
          (a = 0xE2 \<and> b = 0x81 \<and> c = 0x9F) \<or> (a = 0xE3 \<and> b = 0x80 \<and> c = 0x80)
      | _ \<Rightarrow> False)"

definition space_at_start :: "str \<Rightarrow> nat option" where
  "space_at_start s = find (\<lambda>n. n \<le> length s \<and> white_space (take n s)) [1, 2, 3]"

function trim_start :: "str \<Rightarrow> str" where
  "trim_start s = (case space_at_start s of None \<Rightarrow> s | Some n \<Rightarrow> trim_start (drop n s))"
  by pat_completeness auto
termination
proof (relation "measure length")
  fix s n assume "space_at_start s = Some n"
  then have "0 < n \<and> n \<le> length s" by (auto simp: space_at_start_def split: if_splits)
  then show "(drop n s, s) \<in> measure length" by (simp, linarith)
qed simp

declare trim_start.simps [simp del]

definition space_at_end :: "str \<Rightarrow> nat option" where
  "space_at_end s = find (\<lambda>n. n \<le> length s \<and> white_space (drop (length s - n) s)) [1, 2, 3]"

function trim_end :: "str \<Rightarrow> str" where
  "trim_end s = (case space_at_end s of None \<Rightarrow> s | Some n \<Rightarrow> trim_end (take (length s - n) s))"
  by pat_completeness auto
termination
proof (relation "measure length")
  fix s n assume "space_at_end s = Some n"
  then have "0 < n \<and> n \<le> length s" by (auto simp: space_at_end_def split: if_splits)
  then show "(take (length s - n) s, s) \<in> measure length" by (simp, linarith)
qed simp

declare trim_end.simps [simp del]

definition trim :: "str \<Rightarrow> str" where
  "trim s = trim_end (trim_start s)"

section \<open>Presets\<close>

definition semantic_presets :: "str list" where
  "semantic_presets = [''default'', ''decision'', ''risk'', ''proposition'', ''decision_point'', ''option'',
     ''evidence'', ''tradeoff'', ''blocker'', ''subdecision'', ''task'', ''artifact'']"

definition preset_colors :: "str \<Rightarrow> str \<times> str \<times> str" where
  "preset_colors p =
     (if p = ''decision'' \<or> p = ''decision_point'' then (''#f7fbff'', ''#2f7ee6'', ''#102033'')
      else if p = ''risk'' then (''#fff8f1'', ''#c67914'', ''#2a1b0b'')
      else if p = ''proposition'' then (''#f4fbf9'', ''#19917f'', ''#10231f'')
      else if p = ''option'' then (''#f4fbf6'', ''#26965e'', ''#10251a'')
      else if p = ''evidence'' then (''#f4fbff'', ''#228bb8'', ''#102432'')
      else if p = ''tradeoff'' then (''#fff8f1'', ''#c17518'', ''#2a1b0b'')
      else if p = ''blocker'' then (''#fff7f8'', ''#d14c58'', ''#2c1014'')
      else if p = ''subdecision'' then (''#f8f7ff'', ''#7a68ce'', ''#1d1833'')
      else if p = ''task'' then (''#f7faff'', ''#5371b3'', ''#111c33'')
      else if p = ''artifact'' then (''#f7fafb'', ''#617a85'', ''#142027'')
      else (''#ffffff'', ''#7b8794'', ''#172026''))"

text \<open>\<open>p * GEOMETRY_QUANTUM_PER_PX\<close>, an \<open>i32\<close> product that wraps.\<close>

definition px_units :: "i32 \<Rightarrow> i32" where
  "px_units p = p * geometry_quantum_per_px"

definition semantic_preset_style :: "str \<Rightarrow> fill option \<times> stroke option \<times> str option" where
  "semantic_preset_style preset =
     (case preset_colors preset of (fill_hex, stroke_hex, text_hex) \<Rightarrow>
        (Some \<lparr>f_paint = Solid fill_hex, f_opacity = f_one\<rparr>,
         Some \<lparr>s_paint = Solid stroke_hex, s_width = px_units 1, s_opacity = f_one, s_dash = [],
               s_cap = Butt, s_join = RoundJoin\<rparr>,
         Some text_hex))"

section \<open>Labels and bounds\<close>

definition has_text :: "object \<Rightarrow> bool" where
  "has_text ob \<longleftrightarrow> (case o_text ob of None \<Rightarrow> False | Some t \<Rightarrow> \<exists>r \<in> set (t_runs t). trim (r_text r) \<noteq> [])"

definition kind_label :: "object \<Rightarrow> str" where
  "kind_label ob =
     (let targets = length (distinct_targets ob);
          closed = length (filter sp_closed (g_subpaths (o_geometry ob)));
          has_open = (\<exists>sp \<in> set (g_subpaths (o_geometry ob)). \<not> sp_closed sp)
      in if 2 \<le> targets then ''connector''
         else if has_text ob \<and> closed = 0 then ''text''
         else if closed = 1 \<and> \<not> has_open then ''shape''
         else if has_open then (if targets = 1 then ''connector'' else ''stroke'')
         else if 1 < closed then ''shape''
         else if has_text ob then ''text''
         else ''shape'')"

record tool_bounds =
  bd_x :: f64
  bd_y :: f64
  bd_width :: f64
  bd_height :: f64

definition object_bounds_px :: "object \<Rightarrow> tool_bounds option" where
  "object_bounds_px ob =
     (case derive_region (o_geometry ob) of
        Inl _ \<Rightarrow> None
      | Inr rg \<Rightarrow>
          let q = f_of_i32 geometry_quantum_per_px; b = rg_bounds rg;
              at = (\<lambda>x y. transform_apply_point (o_transform ob) (f_div (f_of_i32 x) q) (f_div (f_of_i32 y) q));
              first = at (lb_min_x b) (lb_min_y b);
              rest = [at (lb_max_x b) (lb_min_y b), at (lb_max_x b) (lb_max_y b), at (lb_min_x b) (lb_max_y b)]
          in case foldl (\<lambda>(x0, y0, x1, y1) (wx, wy). (f_min x0 wx, f_min y0 wy, f_max x1 wx, f_max y1 wy))
                    (fst first, snd first, fst first, snd first) rest of
               (x0, y0, x1, y1) \<Rightarrow>
                 Some \<lparr>bd_x = x0, bd_y = y0, bd_width = f_sub x1 x0, bd_height = f_sub y1 y0\<rparr>)"

record object_summary =
  os_id :: object_id
  os_kind :: str
  os_bounds :: "tool_bounds option"
  os_tags :: "str list"

definition list_objects :: "scene \<Rightarrow> object_summary list" where
  "list_objects sc = map (\<lambda>ob. \<lparr>os_id = o_id ob, os_kind = kind_label ob,
     os_bounds = object_bounds_px ob, os_tags = o_tags ob\<rparr>) (objects sc)"

definition get_object :: "scene \<Rightarrow> object_id \<Rightarrow> object option" where
  "get_object sc oid = scene_get sc oid"

section \<open>Creating\<close>

datatype create_shape = CreateRect | CreateText

record create_object_spec =
  co_id :: object_id
  co_order :: str
  co_shape :: create_shape
  co_x :: f64
  co_y :: f64
  co_width :: "i32 option"
  co_height :: "i32 option"
  co_text :: "str option"
  co_style :: "str option"
  co_tags :: "str list"

definition rect_geometry :: "i32 \<Rightarrow> i32 \<Rightarrow> geometry" where
  "rect_geometry w_q h_q = geometry_from_subpaths
     [\<lparr>sp_closed = True, sp_nodes = [corner 0 0, corner w_q 0, corner w_q h_q, corner 0 h_q]\<rparr>] EvenOdd"

definition label_text :: "str \<Rightarrow> str option \<Rightarrow> text_block" where
  "label_text text color =
     \<lparr>t_runs = [\<lparr>r_text = text, r_color = color, r_size = Some (px_units 13), r_bold = False, r_italic = False,
        r_font = None\<rparr>], t_align = TextCenter, t_valign = Middle\<rparr>"

definition unwrap_or :: "'a option \<Rightarrow> 'a \<Rightarrow> 'a" where
  "unwrap_or m d = (case m of None \<Rightarrow> d | Some x \<Rightarrow> x)"

definition non_blank :: "str option \<Rightarrow> str option" where
  "non_blank m = (case m of None \<Rightarrow> None | Some t \<Rightarrow> if trim t = [] then None else Some t)"

definition created_object ::
    "create_object_spec \<Rightarrow> geometry \<Rightarrow> fill option \<Rightarrow> stroke option \<Rightarrow> text_block option \<Rightarrow> object_op" where
  "created_object spec geo fi st text = InsertObject
     ((object_new (co_id spec) (co_order spec) geo)\<lparr>o_transform := transform_translate (co_x spec) (co_y spec),
        o_fill := fi, o_stroke := st, o_text := text, o_tags := co_tags spec\<rparr>)"

definition create_object :: "create_object_spec \<Rightarrow> str + object_op" where
  "create_object spec =
     (case (case co_style spec of Some p \<Rightarrow> semantic_preset_style p | None \<Rightarrow> (None, None, None)) of
        (fi, st, text_color) \<Rightarrow>
          (case co_shape spec of
             CreateRect \<Rightarrow>
               let w = unwrap_or (co_width spec) 160; h = unwrap_or (co_height spec) 100 in
               if sint w \<le> 0 \<or> sint h \<le> 0 then Inl ''rect width/height must be positive''
               else Inr (created_object spec (rect_geometry (px_units w) (px_units h)) fi st
                      (map_option (\<lambda>t. label_text t text_color) (non_blank (co_text spec))))
           | CreateText \<Rightarrow>
               (case non_blank (co_text spec) of
                  None \<Rightarrow> Inl ''text object requires a non-empty text''
                | Some body \<Rightarrow>
                    let w = unwrap_or (co_width spec) 200; h = unwrap_or (co_height spec) 40 in
                    if sint w \<le> 0 \<or> sint h \<le> 0 then Inl ''text box width/height must be positive''
                    else Inr (created_object spec (rect_geometry (px_units w) (px_units h)) fi st
                           (Some (label_text body text_color))))))"

section \<open>Patching\<close>

record patch_object_spec =
  po_id :: object_id
  po_text :: "str option"
  po_style :: "str option"
  po_x :: "f64 option"
  po_y :: "f64 option"
  po_width :: "i32 option"
  po_height :: "i32 option"

definition patch_size :: "patch_object_spec \<Rightarrow> str + object_op list" where
  "patch_size spec =
     (case (po_width spec, po_height spec) of
        (Some w, Some h) \<Rightarrow>
          if sint w \<le> 0 \<or> sint h \<le> 0 then Inl ''width/height must be positive''
          else Inr [EditGeometry (po_id spec) (rect_geometry (px_units w) (px_units h))]
      | (None, None) \<Rightarrow> Inr []
      | _ \<Rightarrow> Inl ''width and height must be set together'')"

definition patch_position :: "patch_object_spec \<Rightarrow> str + object_op list" where
  "patch_position spec =
     (case (po_x spec, po_y spec) of
        (Some x, Some y) \<Rightarrow> Inr [SetTransform (po_id spec) (transform_translate x y)]
      | (None, None) \<Rightarrow> Inr []
      | _ \<Rightarrow> Inl ''x and y must be set together'')"

definition patch_style :: "patch_object_spec \<Rightarrow> object_op list" where
  "patch_style spec =
     (case po_style spec of
        None \<Rightarrow> []
      | Some preset \<Rightarrow> (case semantic_preset_style preset of (fi, st, _) \<Rightarrow>
          [SetStyle (po_id spec) (Some (edit_from_option fi)) (Some (edit_from_option st))]))"

definition patch_text :: "patch_object_spec \<Rightarrow> object_op list" where
  "patch_text spec =
     (case po_text spec of
        None \<Rightarrow> []
      | Some t \<Rightarrow> [SetText (po_id spec) (if trim t = [] then None else Some (label_text t None))])"

definition patch_object :: "patch_object_spec \<Rightarrow> str + object_op list" where
  "patch_object spec =
     and_then (patch_size spec) (\<lambda>size.
     and_then (patch_position spec) (\<lambda>pos.
       let ops = size @ pos @ patch_style spec @ patch_text spec in
       if ops = [] then Inl ''patch is empty (no fields set)'' else Inr ops))"

definition tag_object :: "object_id \<Rightarrow> str list \<Rightarrow> object_op" where
  "tag_object oid ts = SetTags oid ts"

definition add_comment :: "object_id \<Rightarrow> str \<Rightarrow> str \<Rightarrow> str \<Rightarrow> i32 option \<Rightarrow> object_op" where
  "add_comment oid comment_id author body node_index =
     AddComment oid \<lparr>c_id = comment_id, c_author = author, c_body = body,
       c_at = map_option AtNode node_index, c_resolved = False\<rparr>"

definition set_selection :: "scene \<Rightarrow> object_selection \<Rightarrow> scene" where
  "set_selection sc sel = sc\<lparr>selection := sel\<rparr>"

section \<open>Queries\<close>

record query_filter =
  qf_tags :: "str list"
  qf_connected_to :: "object_id option"
  qf_region :: "tool_bounds option"

definition bounds_intersect :: "tool_bounds \<Rightarrow> tool_bounds \<Rightarrow> bool" where
  "bounds_intersect a b \<longleftrightarrow>
     f_le (bd_x a) (f_add (bd_x b) (bd_width b)) \<and> f_le (bd_x b) (f_add (bd_x a) (bd_width a)) \<and>
     f_le (bd_y a) (f_add (bd_y b) (bd_height b)) \<and> f_le (bd_y b) (f_add (bd_y a) (bd_height a))"

definition query_matches :: "object_id list option \<Rightarrow> query_filter \<Rightarrow> object \<Rightarrow> bool" where
  "query_matches connected qf ob \<longleftrightarrow>
     (\<forall>t \<in> set (qf_tags qf). t \<in> set (o_tags ob)) \<and>
     (case connected of None \<Rightarrow> True | Some ns \<Rightarrow> o_id ob \<in> set ns) \<and>
     (case qf_region qf of None \<Rightarrow> True
      | Some r \<Rightarrow> (case object_bounds_px ob of None \<Rightarrow> False | Some b \<Rightarrow> bounds_intersect b r))"

definition query_objects :: "scene \<Rightarrow> query_filter \<Rightarrow> object_id list" where
  "query_objects sc qf =
     (let connected = map_option (neighbors sc) (qf_connected_to qf)
      in map o_id (filter (query_matches connected qf) (objects sc)))"

section \<open>Digests\<close>

definition display_label :: "object \<Rightarrow> str" where
  "display_label ob =
     (let text = Option.bind (o_text ob) (\<lambda>t. find (\<lambda>s. s \<noteq> []) (map (\<lambda>r. trim (r_text r)) (t_runs t)))
      in case text of Some t \<Rightarrow> t | None \<Rightarrow> kind_label ob @ '' '' @ o_id ob)"

definition ascii_letter_digit :: "char \<Rightarrow> bool" where
  "ascii_letter_digit c \<longleftrightarrow> (48 \<le> byte c \<and> byte c \<le> 57) \<or> (65 \<le> byte c \<and> byte c \<le> 90) \<or>
     (97 \<le> byte c \<and> byte c \<le> 122)"

text \<open>
  One character out per character in: the continuation bytes of a longer character are part
  of it.
\<close>

definition mermaid_id :: "str \<Rightarrow> str" where
  "mermaid_id s =
     (let out = map (\<lambda>c. if ascii_letter_digit c then c else CHR ''_'')
                  (filter (\<lambda>c. \<not> (128 \<le> byte c \<and> byte c < 192)) s)
      in if out = [] then ''n'' else out)"

definition escape_mermaid :: "str \<Rightarrow> str" where
  "escape_mermaid s = map (\<lambda>c. if c = CHR 0x22 then CHR 0x27 else c) s"

definition newline :: str where "newline = [CHR 0x0A]"

definition render_mermaid :: "object list \<Rightarrow> (object_id \<times> object_id) list \<Rightarrow> str" where
  "render_mermaid nodes edges =
     ''flowchart LR'' @ newline @
     concat (map (\<lambda>n. ''  '' @ mermaid_id (o_id n) @ ''['' @ [CHR 0x22] @
        escape_mermaid (display_label n) @ [CHR 0x22] @ '']'' @ newline) nodes) @
     concat (map (\<lambda>(a, b). ''  '' @ mermaid_id a @ '' --> '' @ mermaid_id b @ newline) edges)"

definition render_digest :: "object list \<Rightarrow> (object_id \<times> object_id) list \<Rightarrow> str" where
  "render_digest nodes edges =
     ''Objects:'' @ newline @
     concat (map (\<lambda>n. ''- '' @ o_id n @ '' ('' @ kind_label n @ ''): '' @ display_label n @ newline) nodes) @
     ''Edges:'' @ newline @
     (if edges = [] then ''- (none)'' @ newline
      else concat (map (\<lambda>(a, b). ''- '' @ a @ '' -> '' @ b @ newline) edges))"

definition export_scene :: "scene \<Rightarrow> object_id list \<Rightarrow> str \<Rightarrow> str" where
  "export_scene sc scope_ids export_type =
     (let in_scope = (\<lambda>i. scope_ids = [] \<or> i \<in> set scope_ids);
          nodes = filter (\<lambda>ob. in_scope (o_id ob)) (objects sc);
          edges = filter (\<lambda>(a, b). in_scope a \<and> in_scope b) (connection_graph sc)
      in if export_type = ''mermaid'' then render_mermaid nodes edges else render_digest nodes edges)"

section \<open>Features over the tools\<close>

text \<open>
  The feature channel: \<open>server/src/object_feature.rs\<close>. A request is lowered to operations,
  which are tried on a scratch scene; the caller drives the ones that were applied. Messages
  are constructors, as those of the kernel's errors.
\<close>

datatype feature_message =
    ApplyFailed apply_error
  | UnsupportedExport str
  | ActorUnavailable
  | ActorDroppedReply

datatype feature_response =
    CanvasSwitched str u64 u64
  | CommentUpserted object_id str
  | TemplateApplied "str list"
  | ExportReady str str str
  | FeatureError "str option" feature_message

record feature_ctx =
  fx_now :: str
  fx_seq :: u64
  fx_revision :: u64

definition template_to_ops :: "object list \<Rightarrow> object_op list" where
  "template_to_ops obs = map InsertObject obs"

text \<open>On a failure the operations before it stay applied.\<close>

fun apply_lowered :: "libm \<Rightarrow> scene \<Rightarrow> object_op list \<Rightarrow> scene \<times> (apply_error + object_op list)" where
  "apply_lowered lm sc [] = (sc, Inr [])"
| "apply_lowered lm sc (op # ops) =
     (case apply_object_op lm sc op of
        (sc1, Inl e) \<Rightarrow> (sc1, Inl e)
      | (sc1, Inr _) \<Rightarrow>
          (case apply_lowered lm sc1 ops of
             (sc2, Inl e) \<Rightarrow> (sc2, Inl e)
           | (sc2, Inr applied) \<Rightarrow> (sc2, Inr (op # applied))))"

definition is_supported_export :: "str \<Rightarrow> bool" where
  "is_supported_export t \<longleftrightarrow> t = ''mermaid'' \<or> t = ''digest''"

definition export_content_type :: "str \<Rightarrow> str" where
  "export_content_type t = (if t = ''mermaid'' then ''text/markdown'' else ''text/plain'')"

fun handle_feature ::
    "libm \<Rightarrow> feature_request \<Rightarrow> scene \<Rightarrow> feature_ctx \<Rightarrow> scene \<times> object_op list \<times> feature_response" where
  "handle_feature lm (CommentUpsert _ oid comment) sc ctx =
     (case apply_lowered lm sc [AddComment oid comment] of
        (sc1, Inr applied) \<Rightarrow> (sc1\<lparr>updated_at := fx_now ctx\<rparr>, applied, CommentUpserted oid (c_id comment))
      | (sc1, Inl e) \<Rightarrow> (sc1, [], FeatureError None (ApplyFailed e)))"
| "handle_feature lm (TemplateApply _ recipe _ _) sc ctx =
     (case apply_lowered lm sc (template_to_ops recipe) of
        (sc1, Inr applied) \<Rightarrow> (sc1\<lparr>updated_at := fx_now ctx\<rparr>, applied, TemplateApplied (map o_id recipe))
      | (sc1, Inl e) \<Rightarrow> (sc1, [], FeatureError None (ApplyFailed e)))"
| "handle_feature lm (CanvasSwitch canvas) sc ctx =
     (sc, [], CanvasSwitched canvas (fx_seq ctx) (fx_revision ctx))"
| "handle_feature lm (ExportRequest _ scope_ids export_type request_id) sc ctx =
     (if \<not> is_supported_export export_type
      then (sc, [], FeatureError (Some request_id) (UnsupportedExport export_type))
      else (sc, [], ExportReady request_id (export_scene sc scope_ids export_type) (export_content_type export_type)))"

section \<open>Laws\<close>

text \<open>Lowering runs the operations as \<open>apply_sequence\<close> does and forgets the inverses.\<close>

lemma apply_lowered_each:
  "apply_lowered lm sc ops =
     (case apply_each lm sc ops of (sc', Inl e) \<Rightarrow> (sc', Inl e) | (sc', Inr _) \<Rightarrow> (sc', Inr ops))"
  by (induction ops arbitrary: sc) (auto split: prod.splits sum.splits)

end
