(* ===== verification/CanvasActor.thy ===== *)
theory CanvasActor
  imports ObjectStore Dedup ObjectTools
begin

text \<open>
  The canvas actor: \<open>server/src/canvas_actor.rs\<close>. One task per canvas takes its commands in
  order; a command is one step on the actor's state. The shared store behind its mutex is the
  adapter inside the object store; what other canvases write to it between two steps is not
  modelled. A step that panics ends the task: its result is \<open>Inl\<close> of the message of the
  \<open>expect\<close>, with the state at that point.
\<close>

section \<open>Data\<close>

text \<open>\<open>Rejected\<close> carries the error whose display the code sends.\<close>

datatype apply_result =
    Applied i64 i64
  | Rejected object_store_error

record patch_broadcast =
  pb_seq :: i64
  pb_op :: object_op
  pb_scene :: scene
  pb_author :: "str option"

datatype canvas_command =
    ApplyEnvelope op_envelope str
  | ApplyOp object_op str
  | Feature feature_request str
  | GetScene
  | GetSceneRegion "bbox option"
  | Shutdown

datatype command_reply =
    ReplyApply apply_result
  | ReplyFeature feature_response
  | ReplyScene scene
  | ReplyDone

record 'a canvas_actor =
  ca_canvas_id :: str
  ca_store :: "'a object_store"
  ca_seq :: i64
  ca_dedup :: dedup_table

text \<open>The JSON of the journal entries, beside that of objects and scene fields.\<close>

record journal_codec = scene_codec +
  sj_write_entry :: "journal_entry \<Rightarrow> payload"
  sj_read_entry :: "payload \<Rightarrow> str + journal_entry"

definition now :: str where
  "now = ''1970-01-01T00:00:00Z''"

definition journal_prefix :: "str \<Rightarrow> str" where
  "journal_prefix canvas = canvas @ '':journal:''"

definition journal_record_id :: "str \<Rightarrow> i64 \<Rightarrow> str" where
  "journal_record_id canvas seq = canvas @ '':journal:'' @ show_int (sint seq)"

text \<open>\<open>u64::try_from(seq).unwrap_or(u64::MAX)\<close>.\<close>

definition seq_u64 :: "i64 \<Rightarrow> u64" where
  "seq_u64 seq = (if sint seq < 0 then 0xFFFFFFFFFFFFFFFF else seq)"

section \<open>Steps\<close>

type_synonym ('a, 'r) step = "'a canvas_actor \<Rightarrow> 'a canvas_actor \<times> patch_broadcast list \<times> (str + 'r)"

definition actor_scene ::
    "('a, 'y) spatial_ops_scheme \<Rightarrow> ('z) journal_codec_scheme \<Rightarrow> 'a canvas_actor \<Rightarrow> 'a canvas_actor \<times> (str + scene)" where
  "actor_scene io cd ca =
     (case store_scene io cd (ca_canvas_id ca) (ca_store ca) of
        (os, Inl e) \<Rightarrow> (ca\<lparr>ca_store := os\<rparr>, Inl ''scene loads'')
      | (os, Inr sc) \<Rightarrow> (ca\<lparr>ca_store := os\<rparr>, Inr sc))"

definition write_journal ::
    "('a, 'y) spatial_ops_scheme \<Rightarrow> ('z) journal_codec_scheme \<Rightarrow> 'a canvas_actor \<Rightarrow> journal_entry \<Rightarrow>
     'a canvas_actor \<times> (str + unit)" where
  "write_journal io cd ca e =
     (let r = \<lparr>sr_id = journal_record_id (ca_canvas_id ca) (je_seq e), sr_kind = ''journal'',
               sr_version = seq_u64 (je_seq e), sr_payload = sj_write_entry cd e\<rparr>
      in case so_save io (os_adapter (ca_store ca)) r of
           (a, res) \<Rightarrow> (ca\<lparr>ca_store := (ca_store ca)\<lparr>os_adapter := a\<rparr>\<rparr>,
                        map_sum (\<lambda>_. ''journal entry persists'') (\<lambda>_. ()) res))"

text \<open>
  \<open>handle_apply\<close>: the object store first, then the journal, then the ack and the broadcast.
  An error of the store, even in the middle of its writes, leaves the sequence number.
\<close>

definition handle_apply ::
    "libm \<Rightarrow> ('a, 'y) spatial_ops_scheme \<Rightarrow> ('z) journal_codec_scheme \<Rightarrow> object_op \<Rightarrow> i64 \<Rightarrow>
     sync_op_id option \<Rightarrow> str \<Rightarrow> ('a, apply_result) step" where
  "handle_apply lm io cd op base_revision oid user ca =
     (let seq = ca_seq ca + 1 in
      case object_store_apply lm io cd (ca_canvas_id ca) (ca_store ca) op (seq_u64 seq) of
        (os, Inl e) \<Rightarrow> (ca\<lparr>ca_store := os\<rparr>, [], Inr (Rejected e))
      | (os, Inr _) \<Rightarrow>
          (case write_journal io cd (ca\<lparr>ca_store := os, ca_seq := seq\<rparr>)
                  \<lparr>je_seq = seq, je_op_id = oid, je_base_revision = base_revision, je_op = op\<rparr> of
             (ca2, Inl p) \<Rightarrow> (ca2, [], Inl p)
           | (ca2, Inr _) \<Rightarrow>
               (case actor_scene io cd ca2 of
                  (ca3, Inl p) \<Rightarrow> (ca3, [], Inl p)
                | (ca3, Inr sc) \<Rightarrow>
                    let revision = scene_version sc;
                        dedup = (case oid of
                          None \<Rightarrow> ca_dedup ca3
                        | Some i \<Rightarrow> dedup_record (ca_dedup ca3) i \<lparr>ak_seq = seq, ak_revision = revision\<rparr>)
                    in (ca3\<lparr>ca_dedup := dedup\<rparr>,
                        [\<lparr>pb_seq = seq, pb_op = op, pb_scene = sc, pb_author = Some user\<rparr>],
                        Inr (Applied seq revision)))))"

definition handle_apply_envelope ::
    "libm \<Rightarrow> ('a, 'y) spatial_ops_scheme \<Rightarrow> ('z) journal_codec_scheme \<Rightarrow> op_envelope \<Rightarrow> str \<Rightarrow>
     ('a, apply_result) step" where
  "handle_apply_envelope lm io cd en user ca =
     (case dedup_seen (ca_dedup ca) (en_op_id en) of
        Some ack \<Rightarrow> (ca, [], Inr (Applied (ak_seq ack) (ak_revision ack)))
      | None \<Rightarrow> handle_apply lm io cd (en_op en) (en_base_revision en) (Some (en_op_id en)) user ca)"

text \<open>\<open>revision()\<close>, then the operation with it as the base revision.\<close>

definition apply_at_revision ::
    "libm \<Rightarrow> ('a, 'y) spatial_ops_scheme \<Rightarrow> ('z) journal_codec_scheme \<Rightarrow> object_op \<Rightarrow> str \<Rightarrow> ('a, apply_result) step" where
  "apply_at_revision lm io cd op user ca =
     (case actor_scene io cd ca of
        (ca1, Inl p) \<Rightarrow> (ca1, [], Inl p)
      | (ca1, Inr sc) \<Rightarrow> handle_apply lm io cd op (scene_version sc) None user ca1)"

text \<open>The operations of a feature, one after the other; their results are dropped.\<close>

fun drive_ops ::
    "libm \<Rightarrow> ('a, 'y) spatial_ops_scheme \<Rightarrow> ('z) journal_codec_scheme \<Rightarrow> object_op list \<Rightarrow> str \<Rightarrow> ('a, unit) step" where
  "drive_ops lm io cd [] user ca = (ca, [], Inr ())"
| "drive_ops lm io cd (op # ops) user ca =
     (case apply_at_revision lm io cd op user ca of
        (ca1, bs, Inl p) \<Rightarrow> (ca1, bs, Inl p)
      | (ca1, bs, Inr _) \<Rightarrow>
          (case drive_ops lm io cd ops user ca1 of (ca2, bs2, r) \<Rightarrow> (ca2, bs @ bs2, r)))"

definition actor_feature ::
    "libm \<Rightarrow> ('a, 'y) spatial_ops_scheme \<Rightarrow> ('z) journal_codec_scheme \<Rightarrow> feature_request \<Rightarrow> str \<Rightarrow>
     ('a, feature_response) step" where
  "actor_feature lm io cd req user ca =
     (case actor_scene io cd ca of
        (ca1, Inl p) \<Rightarrow> (ca1, [], Inl p)
      | (ca1, Inr scratch) \<Rightarrow>
          let ctx = \<lparr>fx_now = now, fx_seq = seq_u64 (ca_seq ca1), fx_revision = seq_u64 (scene_version scratch)\<rparr> in
          (case handle_feature lm req scratch ctx of
             (_, ops, response) \<Rightarrow>
               (case drive_ops lm io cd ops user ca1 of
                  (ca2, bs, Inl p) \<Rightarrow> (ca2, bs, Inl p)
                | (ca2, bs, Inr _) \<Rightarrow> (ca2, bs, Inr response))))"

definition get_scene_region ::
    "('a, 'y) spatial_ops_scheme \<Rightarrow> ('z) journal_codec_scheme \<Rightarrow> bbox option \<Rightarrow> 'a canvas_actor \<Rightarrow>
     'a canvas_actor \<times> (str + scene)" where
  "get_scene_region io cd window ca =
     (case store_query_region io cd (ca_canvas_id ca) (ca_store ca) window of
        Inl _ \<Rightarrow> (ca, Inl ''region query'')
      | Inr obs \<Rightarrow>
          (case actor_scene io cd ca of
             (ca1, Inl p) \<Rightarrow> (ca1, Inl p)
           | (ca1, Inr sc) \<Rightarrow> (ca1, Inr (sc\<lparr>objects := obs\<rparr>))))"

text \<open>The body of the loop of \<open>run\<close>.\<close>

fun actor_command ::
    "libm \<Rightarrow> ('a, 'y) spatial_ops_scheme \<Rightarrow> ('z) journal_codec_scheme \<Rightarrow> canvas_command \<Rightarrow> ('a, command_reply) step" where
  "actor_command lm io cd (ApplyEnvelope en user) ca =
     apsnd (apsnd (map_sum (\<lambda>p. p) ReplyApply)) (handle_apply_envelope lm io cd en user ca)"
| "actor_command lm io cd (ApplyOp op user) ca =
     apsnd (apsnd (map_sum (\<lambda>p. p) ReplyApply)) (apply_at_revision lm io cd op user ca)"
| "actor_command lm io cd (Feature req user) ca =
     apsnd (apsnd (map_sum (\<lambda>p. p) ReplyFeature)) (actor_feature lm io cd req user ca)"
| "actor_command lm io cd GetScene ca =
     (case actor_scene io cd ca of (ca1, r) \<Rightarrow> (ca1, [], map_sum (\<lambda>p. p) ReplyScene r))"
| "actor_command lm io cd (GetSceneRegion window) ca =
     (case get_scene_region io cd window ca of (ca1, r) \<Rightarrow> (ca1, [], map_sum (\<lambda>p. p) ReplyScene r))"
| "actor_command lm io cd Shutdown ca = (ca, [], Inr ReplyDone)"

text \<open>The queue of commands, to the shutdown or to the panic; the replies in order.\<close>

fun actor_run ::
    "libm \<Rightarrow> ('a, 'y) spatial_ops_scheme \<Rightarrow> ('z) journal_codec_scheme \<Rightarrow> canvas_command list \<Rightarrow>
     'a canvas_actor \<Rightarrow> 'a canvas_actor \<times> patch_broadcast list \<times> command_reply list \<times> str option" where
  "actor_run lm io cd [] ca = (ca, [], [], None)"
| "actor_run lm io cd (c # cs) ca =
     (case actor_command lm io cd c ca of
        (ca1, bs, Inl p) \<Rightarrow> (ca1, bs, [], Some p)
      | (ca1, bs, Inr r) \<Rightarrow>
          if c = Shutdown then (ca1, bs, [r], None)
          else case actor_run lm io cd cs ca1 of (ca2, bs2, rs, p) \<Rightarrow> (ca2, bs @ bs2, r # rs, p))"

section \<open>Recovery\<close>

definition journal_seq_of :: "str \<Rightarrow> str \<Rightarrow> i64" where
  "journal_seq_of i prefix =
     (if has_prefix prefix i
      then (case parse_i64 (drop (length prefix) i) of Inl _ \<Rightarrow> 0 | Inr n \<Rightarrow> n) else 0)"

definition read_entry ::
    "('a, 'y) storage_ops_scheme \<Rightarrow> ('z) journal_codec_scheme \<Rightarrow> 'a \<Rightarrow> str \<Rightarrow> str + journal_entry" where
  "read_entry io cd a i =
     (case so_load io a i of
        Inl _ \<Rightarrow> Inl ''journal record loads''
      | Inr r \<Rightarrow> map_err (\<lambda>_. ''journal entry deserializes'') (sj_read_entry cd (sr_payload r)))"

definition load_journal ::
    "('a, 'y) storage_ops_scheme \<Rightarrow> ('z) journal_codec_scheme \<Rightarrow> str \<Rightarrow> 'a \<Rightarrow> str + journal_entry list" where
  "load_journal io cd canvas a =
     (case so_list io a of
        Inl _ \<Rightarrow> Inl ''journal ids list''
      | Inr is \<Rightarrow>
          try_map (read_entry io cd a)
            (sort_key (\<lambda>i. sint (journal_seq_of i (journal_prefix canvas)))
              (filter (has_prefix (journal_prefix canvas)) is)))"

definition rebuild_dedup_from_suffix :: "journal_entry list \<Rightarrow> dedup_table" where
  "rebuild_dedup_from_suffix es =
     foldl (\<lambda>t e. case je_op_id e of
              None \<Rightarrow> t
            | Some i \<Rightarrow> dedup_record t i \<lparr>ak_seq = je_seq e, ak_revision = je_seq e\<rparr>)
       dedup_new (drop (length es - max_seen_ops) es)"

text \<open>The replay of the entries past the loaded revision; its errors are ignored.\<close>

fun replay_entries ::
    "libm \<Rightarrow> ('a, 'y) spatial_ops_scheme \<Rightarrow> ('z) journal_codec_scheme \<Rightarrow> str \<Rightarrow> i64 \<Rightarrow> 'a object_store \<Rightarrow>
     journal_entry list \<Rightarrow> 'a object_store" where
  "replay_entries lm io cd canvas revision os [] = os"
| "replay_entries lm io cd canvas revision os (e # es) =
     (if sint (je_seq e) \<le> sint revision then replay_entries lm io cd canvas revision os es
      else replay_entries lm io cd canvas revision
             (fst (object_store_apply lm io cd canvas os (je_op e) (seq_u64 (je_seq e)))) es)"

definition journal_max_seq :: "journal_entry list \<Rightarrow> i64" where
  "journal_max_seq es = (case es of [] \<Rightarrow> 0
     | e # es' \<Rightarrow> foldl (\<lambda>m x. if sint m \<le> sint (je_seq x) then je_seq x else m) (je_seq e) es')"

text \<open>\<open>spawn\<close>: \<open>recover_durable_state\<close> on a fresh object store, then the actor.\<close>

definition recover_durable_state ::
    "libm \<Rightarrow> ('a, 'y) spatial_ops_scheme \<Rightarrow> ('z) journal_codec_scheme \<Rightarrow> str \<Rightarrow> 'a object_store \<Rightarrow>
     str + ('a object_store \<times> i64 \<times> dedup_table)" where
  "recover_durable_state lm io cd canvas os =
     (case store_scene io cd canvas os of
        (os1, Inl _) \<Rightarrow> Inl ''scene loads''
      | (os1, Inr sc) \<Rightarrow>
          and_then (load_journal io cd canvas (os_adapter os1)) (\<lambda>es.
            let os2 = replay_entries lm io cd canvas (scene_version sc) os1 es;
                seq = (if sint (journal_max_seq es) < sint (scene_version sc) then scene_version sc else journal_max_seq es)
            in Inr (os2, seq, rebuild_dedup_from_suffix es)))"

definition actor_spawn ::
    "libm \<Rightarrow> ('a, 'y) spatial_ops_scheme \<Rightarrow> ('z) journal_codec_scheme \<Rightarrow> str \<Rightarrow> 'a \<Rightarrow> str + 'a canvas_actor" where
  "actor_spawn lm io cd canvas a =
     and_then (recover_durable_state lm io cd canvas (object_store_new a)) (\<lambda>(os, seq, dedup).
       Inr \<lparr>ca_canvas_id = canvas, ca_store = os, ca_seq = seq, ca_dedup = dedup\<rparr>)"

end
