(* ===== verification/Touched_Laws.thy ===== *)
theory Touched_Laws
  imports ObjectStore_Laws CanvasActor
begin

text \<open>
  Which operations change only the objects that \<open>target_ids\<close> names, so that writing those is
  enough, and which results \<open>ObjectStore::apply\<close> reads as stale.
\<close>

section \<open>Operations on their own objects\<close>

fun edits_own :: "object_op \<Rightarrow> bool" where
  "edits_own (Delete _) = False"
| "edits_own (Split _ _ _) = False"
| "edits_own (Merge _ _) = False"
| "edits_own (Canonicalize _) = False"
| "edits_own (Batch ops) = list_all edits_own ops"
| "edits_own _ = True"

lemma same_outside_refl [simp]: "same_outside ts sc sc"
  by (simp add: same_outside_def)

lemma same_outside_trans:
  "same_outside ts sc sc1 \<Longrightarrow> same_outside us sc1 sc2 \<Longrightarrow> same_outside (ts @ us) sc sc2"
  by (simp add: same_outside_def)

lemma same_outside_more: "same_outside ts sc sc' \<Longrightarrow> set ts \<subseteq> set us \<Longrightarrow> same_outside us sc sc'"
  by (auto simp: same_outside_def)

lemma find_update:
  "i < length xs \<Longrightarrow> \<not> P (xs ! i) \<Longrightarrow> \<not> P y \<Longrightarrow> find P (xs[i := y]) = find P xs"
proof (induction xs arbitrary: i)
  case (Cons x xs)
  then show ?case by (cases i) auto
qed simp

definition at_index :: "scene \<Rightarrow> nat \<Rightarrow> object_id \<Rightarrow> bool" where
  "at_index sc idx oid \<longleftrightarrow> idx < length (objects sc) \<and> o_id (objects sc ! idx) = oid"

lemma index_of_at: "index_of sc oid = Some idx \<Longrightarrow> at_index sc idx oid"
  by (auto simp: at_index_def dest: index_of_Some)

lemma at_index_modify [simp]:
  "(\<And>ob. o_id (f ob) = o_id ob) \<Longrightarrow> at_index (modify_at sc idx f) idx oid \<longleftrightarrow> at_index sc idx oid"
  by (auto simp: at_index_def modify_at_def)

lemma modify_outside:
  assumes "at_index sc idx oid" "\<And>ob. o_id (f ob) = o_id ob" "same_outside [oid] sc0 sc"
  shows "same_outside [oid] sc0 (modify_at sc idx f)"
  using assms by (auto simp: same_outside_def modify_at_def scene_get_def at_index_def find_update)

lemma modify_opt_outside:
  assumes "at_index sc idx oid" "\<And>v ob. o_id (f v ob) = o_id ob" "same_outside [oid] sc0 sc"
  shows "same_outside [oid] sc0 (case m of None \<Rightarrow> sc | Some v \<Rightarrow> modify_at sc idx (f v))"
  using assms by (auto split: option.split intro: modify_outside)

lemma modify_opt_at:
  assumes "at_index sc idx oid" "\<And>v ob. o_id (f v ob) = o_id ob"
  shows "at_index (case m of None \<Rightarrow> sc | Some v \<Rightarrow> modify_at sc idx (f v)) idx oid"
  using assms by (auto split: option.split)

lemma insert_outside:
  assumes "apply_insert sc ob = (sc', Inr iv)"
  shows "same_outside [o_id ob] sc sc'"
proof -
  obtain ob' where ob': "object_ensure_parsed ob = Inr ob'" "sc' = sc\<lparr>objects := objects sc @ [ob']\<rparr>"
    using assms by (auto simp: apply_insert_def guarded_Inr_iff parsed_def split: if_splits)
  then have "o_id ob' = o_id ob" by (auto simp: object_ensure_parsed_def)
  moreover have "find P (xs @ [y]) = find P xs" if "\<not> P y" for P and xs :: "object list" and y
    using that by (induction xs) auto
  ultimately show ?thesis by (simp add: same_outside_def scene_get_def ob'(2))
qed

lemma field_ops_outside:
  "apply_edit_geometry sc oid g = (sc', Inr iv) \<Longrightarrow> same_outside [oid] sc sc'"
  "apply_set_transform sc oid t = (sc', Inr iv) \<Longrightarrow> same_outside [oid] sc sc'"
  "apply_set_text sc oid x = (sc', Inr iv) \<Longrightarrow> same_outside [oid] sc sc'"
  "apply_set_layout sc oid l = (sc', Inr iv) \<Longrightarrow> same_outside [oid] sc sc'"
  "apply_set_clip sc oid c = (sc', Inr iv) \<Longrightarrow> same_outside [oid] sc sc'"
  "apply_set_sizing sc oid z = (sc', Inr iv) \<Longrightarrow> same_outside [oid] sc sc'"
  "apply_add_comment sc oid cm = (sc', Inr iv) \<Longrightarrow> same_outside [oid] sc sc'"
  "apply_set_comments sc oid cms = (sc', Inr iv) \<Longrightarrow> same_outside [oid] sc sc'"
  "apply_set_tags sc oid ts = (sc', Inr iv) \<Longrightarrow> same_outside [oid] sc sc'"
  "apply_reorder sc oid order = (sc', Inr iv) \<Longrightarrow> same_outside [oid] sc sc'"
  by (auto simp: field_op_defs Let_def with_index_Inr_iff guarded_Inr_iff
      intro!: modify_outside index_of_at split: if_split_asm option.split_asm)

lemma anchor_outside:
  "apply_set_anchor sc oid as = (sc', Inr iv) \<Longrightarrow> same_outside [oid] sc sc'"
  by (auto simp: apply_set_anchor_def Let_def intro!: modify_outside index_of_at split: option.split_asm)

lemma reparent_outside:
  "apply_reparent sc oid p order = (sc', Inr iv) \<Longrightarrow> same_outside [oid] sc sc'"
  by (auto simp: apply_reparent_def Let_def with_index_Inr_iff guarded_Inr_iff
      intro!: modify_outside index_of_at split: if_split_asm option.split_asm)

lemma multi_field_outside:
  "apply_set_style sc oid fe se = (sc', Inr iv) \<Longrightarrow> same_outside [oid] sc sc'"
  "apply_set_meta sc oid n h k = (sc', Inr iv) \<Longrightarrow> same_outside [oid] sc sc'"
  by (auto simp: apply_set_style_def apply_set_meta_def Let_def with_index_Inr_iff dest!: index_of_at
      intro!: modify_opt_outside modify_opt_at)

lemma inner_outside:
  "apply_inner lm sc op = (sc', Inr iv) \<Longrightarrow> edits_own op \<Longrightarrow> same_outside (target_ids op) sc sc'"
  "apply_children lm sc ops = (sc', Inr ivs) \<Longrightarrow> list_all edits_own ops \<Longrightarrow>
     same_outside (concat (map target_ids ops)) sc sc'"
proof (induction lm sc op and lm sc ops arbitrary: sc' iv and sc' ivs
    rule: apply_inner_apply_children.induct)
  case (1 lm sc ob)
  then show ?case using insert_outside[of sc ob sc' iv] same_outside_more[of "[o_id ob]" sc sc'] by simp
next
  case (17 lm sc oid p order)
  then show ?case using reparent_outside[of sc oid p order sc' iv] same_outside_more[of "[oid]" sc sc'] by simp
next
  case (20 lm sc ops)
  then show ?case by (auto split: prod.splits sum.splits)
next
  case (22 lm working op ops)
  then show ?case by (auto split: prod.splits sum.splits intro: same_outside_trans)
qed (auto dest: field_ops_outside anchor_outside multi_field_outside)

text \<open>A deletion does so when no other object is anchored to the deleted one.\<close>

definition unanchored :: "scene \<Rightarrow> object_id \<Rightarrow> bool" where
  "unanchored sc oid \<longleftrightarrow> (\<forall>ob \<in> set (objects sc). o_id ob \<noteq> oid \<longrightarrow> \<not> anchors_to oid ob)"

lemma delete_outside:
  assumes "apply_delete sc oid = (sc', Inr iv)" "unanchored sc oid" "distinct (ids sc)"
  shows "same_outside [oid] sc sc'"
proof -
  obtain idx where i: "index_of sc oid = Some idx"
    "sc' = sc\<lparr>objects := map (prune_anchors oid) (remove_at idx (objects sc))\<rparr>"
    using assms(1) by (auto simp: apply_delete_def with_index_Inr_iff Let_def)
  have idx: "idx < length (objects sc)" "o_id (objects sc ! idx) = oid" using index_of_Some[OF i(1)] by auto
  have split: "objects sc = take idx (objects sc) @ objects sc ! idx # drop (Suc idx) (objects sc)"
    using idx(1) by (rule id_take_nth_drop)
  have "oid \<notin> o_id ` set (take idx (objects sc)) \<union> o_id ` set (drop (Suc idx) (objects sc))"
  proof -
    have "distinct (map o_id (take idx (objects sc) @ objects sc ! idx # drop (Suc idx) (objects sc)))"
      using assms(3) split by (metis ids_def)
    then show ?thesis using idx(2) by auto
  qed
  then have ne: "o_id ob \<noteq> oid" if "ob \<in> set (remove_at idx (objects sc))" for ob
    using that by (auto simp: remove_at_def)
  have "map (prune_anchors oid) (remove_at idx (objects sc)) = remove_at idx (objects sc)"
    using assms(2) ne set_remove_at[of idx "objects sc"]
    by (intro map_idI) (auto simp: prune_anchors_def unanchored_def)
  then have sc': "objects sc' = take idx (objects sc) @ drop (Suc idx) (objects sc)" by (simp add: i(2) remove_at_def)
  have skip: "find P (xs @ x # ys) = find P (xs @ ys)" if "\<not> P x" for P x and xs ys :: "object list"
    using that by (induction xs) auto
  have "scene_get sc' x = scene_get sc x" if "x \<noteq> oid" for x
    unfolding scene_get_def sc' by (subst (2) split) (rule skip[symmetric], use idx(2) that in simp)
  then show ?thesis by (simp add: same_outside_def)
qed

section \<open>The public entry\<close>

text \<open>The operations that write through completely.\<close>

definition writes_through :: "scene \<Rightarrow> object_op \<Rightarrow> bool" where
  "writes_through sc op \<longleftrightarrow> edits_own op \<or> (\<exists>oid. op = Delete oid \<and> unanchored sc oid)"

lemma apply_outside:
  assumes "apply_object_op lm sc op = (sc', Inr iv)" "writes_through sc op" "distinct (ids sc)"
  shows "same_outside (target_ids op) sc sc'"
proof -
  obtain sc1 where sc1: "apply_inner lm sc op = (sc1, Inr iv)" "sc' = with_version (scene_version sc1 + 1) sc1"
    using assms(1) by (auto simp: apply_object_op_iff)
  have "same_outside (target_ids op) sc sc1"
    using assms(2) inner_outside(1)[OF sc1(1)] delete_outside[OF _ _ assms(3)] sc1(1)
    by (auto simp: writes_through_def)
  then show ?thesis by (simp add: same_outside_def sc1(2))
qed

lemma inner_version:
  "apply_inner lm sc op = (sc', r) \<Longrightarrow> scene_version sc' = scene_version sc"
  "apply_children lm sc ops = (sc', rs) \<Longrightarrow> scene_version sc' = scene_version sc"
proof -
  have v: "scene_version (fst (apply_inner lm (with_version v sc) op)) = v"
    "scene_version (fst (apply_children lm (with_version v sc) ops)) = v" for v
    by (simp_all add: apply_inner_frame versioned_def) (simp_all add: with_version_def)
  show "apply_inner lm sc op = (sc', r) \<Longrightarrow> scene_version sc' = scene_version sc"
    using v(1)[of "scene_version sc"] by (auto simp: with_version_idem)
  show "apply_children lm sc ops = (sc', rs) \<Longrightarrow> scene_version sc' = scene_version sc"
    using v(2)[of "scene_version sc"] by (auto simp: with_version_idem)
qed

lemma apply_version:
  "apply_object_op lm sc op = (sc', Inr iv) \<Longrightarrow> scene_version sc' = scene_version sc + 1"
  by (auto simp: apply_object_op_def dest: inner_version split: prod.splits sum.splits)

section \<open>Touched records\<close>

text \<open>
  What the canvas actor keeps from step to step and across a restart: the scene on disk, the
  journal on disk, the table of acknowledged operations, and one number that is at once the
  sequence, the revision and the length of the journal.
\<close>

section \<open>The dedup table and the journal\<close>

definition ack_of :: "journal_entry \<Rightarrow> op_ack" where
  "ack_of e = \<lparr>ak_seq = je_seq e, ak_revision = je_seq e\<rparr>"

definition ids_of :: "journal_entry list \<Rightarrow> sync_op_id list" where
  "ids_of es = List.map_filter je_op_id es"

lemma ids_of_simps [simp]:
  "ids_of [] = []" "ids_of (e # es) = (case je_op_id e of None \<Rightarrow> ids_of es | Some i \<Rightarrow> i # ids_of es)"
  "ids_of (es @ fs) = ids_of es @ ids_of fs"
  by (simp_all add: ids_of_def List.map_filter_def split: option.split)

lemma ids_of_length: "length (ids_of es) \<le> length es"
  by (induction es) (auto split: option.split)

lemma ids_of_mem: "i \<in> set (ids_of es) \<longleftrightarrow> (\<exists>e \<in> set es. je_op_id e = Some i)"
  by (induction es) (auto split: option.split)

text \<open>
  The table holds the ids of a suffix of the journal that is at least the last
  \<open>MAX_SEEN_OPS\<close> entries, each with the ack of its entry.
\<close>

definition tracks_from :: "nat \<Rightarrow> dedup_table \<Rightarrow> journal_entry list \<Rightarrow> bool" where
  "tracks_from k t es \<longleftrightarrow> dedup_ok t \<and> dt_order t = ids_of (drop k es) \<and>
     (\<forall>e \<in> set (drop k es). \<forall>i. je_op_id e = Some i \<longrightarrow> dedup_seen t i = Some (ack_of e))"

definition tracks :: "dedup_table \<Rightarrow> journal_entry list \<Rightarrow> bool" where
  "tracks t es \<longleftrightarrow> (\<exists>k \<le> length es - max_seen_ops. tracks_from k t es)"

lemma tracks_seen:
  assumes "tracks t es" "dedup_seen t i = Some a"
  shows "\<exists>e \<in> set es. je_op_id e = Some i \<and> a = ack_of e"
proof -
  obtain k where k: "tracks_from k t es" using assms(1) by (auto simp: tracks_def)
  then have "i \<in> set (ids_of (drop k es))"
    using assms(2) by (auto simp: tracks_from_def dedup_ok_def dedup_seen_def)
  then obtain e where e: "e \<in> set (drop k es)" "je_op_id e = Some i" by (auto simp: ids_of_mem)
  then have "a = ack_of e" using k assms(2) by (auto simp: tracks_from_def)
  with e show ?thesis by (auto dest: in_set_dropD)
qed

lemma tracks_recent:
  assumes "tracks t es" "e \<in> set (drop (length es - max_seen_ops) es)" "je_op_id e = Some i"
  shows "dedup_seen t i = Some (ack_of e)"
proof -
  obtain k where k: "k \<le> length es - max_seen_ops" "tracks_from k t es" using assms(1) by (auto simp: tracks_def)
  then have "e \<in> set (drop k es)" using assms(2) set_drop_subset_set_drop[OF k(1), of es] by blast
  with k(2) assms(3) show ?thesis by (simp add: tracks_from_def)
qed

lemma tracks_none: "tracks t es \<Longrightarrow> je_op_id e = None \<Longrightarrow> tracks t (es @ [e])"
proof -
  assume "tracks t es" and e: "je_op_id e = None"
  then obtain k where k: "k \<le> length es - max_seen_ops" "tracks_from k t es" by (auto simp: tracks_def)
  then have "tracks_from k t (es @ [e])" using e by (auto simp: tracks_from_def)
  with k(1) show "tracks t (es @ [e])" unfolding tracks_def by (intro exI[of _ k]) simp
qed

text \<open>The entry whose id is the first in a list of entries.\<close>

lemma ids_of_tl:
  "ids_of es = i # is \<Longrightarrow> \<exists>j < length es. ids_of (drop (Suc j) es) = is \<and> je_op_id (es ! j) = Some i"
proof (induction es)
  case (Cons e es)
  show ?case
  proof (cases "je_op_id e")
    case None
    then obtain j where "j < length es" "ids_of (drop (Suc j) es) = is" "je_op_id (es ! j) = Some i"
      using Cons by auto
    then show ?thesis by (intro exI[of _ "Suc j"]) simp
  qed (use Cons in \<open>auto intro!: exI[of _ 0]\<close>)
qed simp

lemma tracks_some:
  assumes "tracks t es" "je_op_id e = Some i" "dedup_seen t i = None"
  shows "tracks (dedup_record t i (ack_of e)) (es @ [e])"
proof -
  obtain k where k: "k \<le> length es - max_seen_ops" "tracks_from k t es" using assms(1) by (auto simp: tracks_def)
  then have kl: "k \<le> length es" and ok: "dedup_ok t" and n: "dt_acks t i = None"
    and o: "dt_order t = ids_of (drop k es)"
    and acks: "\<And>x j. x \<in> set (drop k es) \<Longrightarrow> je_op_id x = Some j \<Longrightarrow> dedup_seen t j = Some (ack_of x)"
    using assms(3) by (auto simp: tracks_from_def dedup_seen_def)
  have i: "i \<notin> set (dt_order t)" using ok n by (auto simp: dedup_ok_def)
  let ?t = "dedup_record t i (ack_of e)"
  have ok': "dedup_ok ?t" by (rule dedup_record_ok[OF ok])
  show ?thesis
  proof (cases "length (dt_order t) < max_seen_ops")
    case True
    then have r: "?t = t\<lparr>dt_acks := (dt_acks t)(i \<mapsto> ack_of e), dt_order := dt_order t @ [i]\<rparr>"
      using dedup_record_cases[OF ok n] by simp
    have "tracks_from k ?t (es @ [e])"
      using ok' i acks assms(2) o kl unfolding tracks_from_def
      by (auto simp: r dedup_seen_def ids_of_mem)
    with k(1) show ?thesis unfolding tracks_def by (intro exI[of _ k]) simp
  next
    case False
    then have full: "length (dt_order t) = max_seen_ops" using ok by (simp add: dedup_ok_def)
    then obtain x xs where x: "dt_order t = x # xs" by (cases "dt_order t") (auto simp: max_seen_ops_def)
    then have r: "?t = t\<lparr>dt_acks := ((dt_acks t)(i \<mapsto> ack_of e))(x := None), dt_order := xs @ [i]\<rparr>"
      using dedup_record_cases[OF ok n] False by simp
    obtain j where j: "j < length (drop k es)" "ids_of (drop (Suc j) (drop k es)) = xs"
      using ids_of_tl[of "drop k es" x xs] o x by auto
    let ?k = "Suc (j + k)"
    have d: "ids_of (drop ?k es) = xs" using j(2) by (simp add: add.commute)
    have "length xs \<le> length (drop ?k es)" using ids_of_length[of "drop ?k es"] d by simp
    then have kk: "?k \<le> length (es @ [e]) - max_seen_ops" "?k \<le> length es"
      using full x j(1) kl by (auto simp: max_seen_ops_def)
    have "x \<notin> set xs" "i \<noteq> x" using ok x i by (auto simp: dedup_ok_def)
    have "dedup_seen ?t y = Some (ack_of f)" if "f \<in> set (drop ?k es)" "je_op_id f = Some y" for f y
    proof -
      have "y \<in> set xs" using that d by (auto simp: ids_of_mem)
      then have "y \<noteq> x" "y \<noteq> i" using \<open>x \<notin> set xs\<close> i x by auto
      moreover have "f \<in> set (drop k es)" using that(1) set_drop_subset_set_drop[of k ?k es] by auto
      ultimately show ?thesis using acks[of f y] that(2) by (simp add: r dedup_seen_def)
    qed
    moreover have "dedup_seen ?t i = Some (ack_of e)" using \<open>i \<noteq> x\<close> by (simp add: r dedup_seen_def)
    ultimately have "tracks_from ?k ?t (es @ [e])"
      using ok' assms(2) kk(2) d unfolding tracks_from_def by (auto simp: r)
    with kk(1) show ?thesis unfolding tracks_def by (intro exI[of _ ?k]) simp
  qed
qed

text \<open>The rebuilt table keeps track again: it records the last entries and evicts nothing.\<close>

lemma record_entries_all:
  assumes "tracks_from k t es" "k \<le> length es" "distinct (ids_of (drop k es @ fs))"
    "length (drop k es) + length fs \<le> max_seen_ops"
  shows "tracks_from k (foldl (\<lambda>t e. case je_op_id e of None \<Rightarrow> t
      | Some i \<Rightarrow> dedup_record t i \<lparr>ak_seq = je_seq e, ak_revision = je_seq e\<rparr>) t fs) (es @ fs)"
  using assms
proof (induction fs arbitrary: t es)
  case (Cons f fs)
  have s: "tracks_from k (case je_op_id f of None \<Rightarrow> t
      | Some i \<Rightarrow> dedup_record t i \<lparr>ak_seq = je_seq f, ak_revision = je_seq f\<rparr>) (es @ [f])"
  proof (cases "je_op_id f")
    case None
    then show ?thesis using Cons.prems(1,2) by (auto simp: tracks_from_def)
  next
    case (Some i)
    have ok: "dedup_ok t" and o: "dt_order t = ids_of (drop k es)"
      and acks: "\<And>x j. x \<in> set (drop k es) \<Longrightarrow> je_op_id x = Some j \<Longrightarrow> dedup_seen t j = Some (ack_of x)"
      using Cons.prems(1) by (auto simp: tracks_from_def)
    have i: "i \<notin> set (ids_of (drop k es))" using Cons.prems(3) Some by simp
    then have n: "dt_acks t i = None" using ok o by (auto simp: dedup_ok_def)
    have l: "length (dt_order t) < max_seen_ops"
      using ids_of_length[of "drop k es"] o Cons.prems(4) by simp
    then have r: "dedup_record t i (ack_of f) = t\<lparr>dt_acks := (dt_acks t)(i \<mapsto> ack_of f), dt_order := dt_order t @ [i]\<rparr>"
      using dedup_record_cases[OF ok n] by simp
    have "tracks_from k (dedup_record t i (ack_of f)) (es @ [f])"
      using dedup_record_ok[OF ok, of i "ack_of f"] i acks Some o Cons.prems(2) unfolding tracks_from_def
      by (auto simp: r dedup_seen_def ids_of_mem)
    with Some show ?thesis by (simp add: ack_of_def)
  qed
  have "tracks_from k (foldl (\<lambda>t e. case je_op_id e of None \<Rightarrow> t
      | Some i \<Rightarrow> dedup_record t i \<lparr>ak_seq = je_seq e, ak_revision = je_seq e\<rparr>) (case je_op_id f of None \<Rightarrow> t
      | Some i \<Rightarrow> dedup_record t i \<lparr>ak_seq = je_seq f, ak_revision = je_seq f\<rparr>) fs) ((es @ [f]) @ fs)"
    by (rule Cons.IH[OF s]) (use Cons.prems in simp_all)
  then show ?case by simp
qed simp

lemma tracks_distinct_recent:
  assumes "tracks t es"
  shows "distinct (ids_of (drop (length es - max_seen_ops) es))"
proof -
  obtain k where k: "k \<le> length es - max_seen_ops" "tracks_from k t es" using assms by (auto simp: tracks_def)
  then have d: "distinct (ids_of (drop k es))" by (auto simp: tracks_from_def dedup_ok_def)
  let ?m = "length es - max_seen_ops - k"
  have "drop k es = take ?m (drop k es) @ drop (length es - max_seen_ops) es"
  proof -
    have "?m + k = length es - max_seen_ops" using k(1) by simp
    then show ?thesis using append_take_drop_id[of ?m "drop k es"] by (simp only: drop_drop)
  qed
  then have "ids_of (drop k es) = ids_of (take ?m (drop k es)) @ ids_of (drop (length es - max_seen_ops) es)"
    using ids_of_simps(3)[of "take ?m (drop k es)" "drop (length es - max_seen_ops) es"] by simp
  with d show ?thesis by simp
qed

lemma rebuild_tracks:
  assumes "tracks t es"
  shows "tracks (rebuild_dedup_from_suffix es) es"
proof -
  let ?k = "length es - max_seen_ops" and ?p = "take (length es - max_seen_ops) es"
  have "tracks_from ?k dedup_new ?p" by (simp add: tracks_from_def dedup_new_def dedup_ok_def)
  then have "tracks_from ?k (rebuild_dedup_from_suffix es) (?p @ drop ?k es)"
    unfolding rebuild_dedup_from_suffix_def
    by (rule record_entries_all) (use tracks_distinct_recent[OF assms] in simp_all)
  then show ?thesis unfolding tracks_def by (intro exI[of _ ?k]) simp
qed

end
