(* ===== verification/Recovery_Laws.thy ===== *)
theory Recovery_Laws
  imports Touched_Laws
begin

text \<open>
  The invariant of the canvas actor over a store that keeps the storage contract, its steps, and
  its restart.
\<close>

section \<open>Sequence numbers\<close>

definition seq_no :: "nat \<Rightarrow> i64" where
  "seq_no n = of_nat n"

lemma seq_no_sint: "n < 2 ^ 63 \<Longrightarrow> sint (seq_no n) = int n"
  by (simp add: seq_no_def signed_of_nat signed_take_bit_int_eq_self)

lemma seq_no_Suc: "seq_no n + 1 = seq_no (Suc n)"
  by (simp add: seq_no_def)

lemma seq_u64_round: "0 \<le> sint s \<Longrightarrow> seq_i64 (seq_u64 s) = s"
proof -
  assume s: "0 \<le> sint s"
  have "sint s < 2 ^ 63" using sint_lt[of s] by simp
  with s have "uint s = sint s" by (simp add: uint_sint take_bit_int_eq_self)
  with \<open>sint s < 2 ^ 63\<close> have "uint s < 2 ^ 63" by simp
  then show ?thesis using s by (simp add: seq_u64_def seq_i64_def)
qed

section \<open>The property store is always behind\<close>

definition seqs_below :: "property_store \<Rightarrow> i64 \<Rightarrow> bool" where
  "seqs_below ps s \<longleftrightarrow> (\<forall>p e. entry_at ps p = Some e \<longrightarrow> sint (le_seq e) \<le> sint s)"

lemma seqs_belowD: "seqs_below ps s \<Longrightarrow> entry_at ps p = Some e \<Longrightarrow> sint (le_seq e) \<le> sint s"
  unfolding seqs_below_def by blast

lemma seqs_below_new: "seqs_below store_new s"
  by (simp add: seqs_below_def entry_at_def store_get_def store_new_def)

lemma seqs_below_record:
  assumes "seqs_below ps s" "sint s \<le> sint s'"
  shows "seqs_below (foldl (record_seq s') ps props) s'"
proof -
  have "seqs_below ps s'" unfolding seqs_below_def using seqs_belowD[OF assms(1)] assms(2) order_trans by blast
  then show ?thesis
  proof (induction props arbitrary: ps)
    case (Cons q props)
    have "sint (le_seq e) \<le> sint s'" if "entry_at (record_seq s' ps q) p = Some e" for p e
      using that seqs_belowD[OF Cons.prems, of p e] seqs_belowD[OF Cons.prems, of q]
      by (cases "entry_at ps q") (auto simp: record_seq_write entry_at_write_at split: if_splits)
    then have "seqs_below (record_seq s' ps q) s'" unfolding seqs_below_def by blast
    then show ?case using Cons.IH by simp
  qed simp
qed

text \<open>So the last-writer-wins gate of the server lets every operation pass.\<close>

lemma gate_passes:
  assumes "seqs_below ps s" "sint s < sint s'" "0 \<le> sint s'"
  shows "apply_object_op_lww lm sc ps op (seq_u64 s') =
    (case apply_object_op lm sc op of (sc1, Inl e) \<Rightarrow> (sc1, ps, Inl e)
     | (sc1, Inr iv) \<Rightarrow> (sc1, foldl (record_seq s') ps (touched_properties op), Inr iv))"
proof -
  have "\<not> is_stale ps s' p" for p
    using seqs_belowD[OF assms(1), of p] assms(2) by (fastforce simp: is_stale_entry)
  then show ?thesis using lww_fresh_applies[of op ps "seq_u64 s'"] by (simp add: seq_u64_round assms(3))
qed

section \<open>The journal on disk\<close>

definition entry_reads_back :: "('z) journal_codec_scheme \<Rightarrow> journal_entry \<Rightarrow> bool" where
  "entry_reads_back cd e \<longleftrightarrow> sj_read_entry cd (sj_write_entry cd e) = Inr e"

definition journal_on_disk :: "('z) journal_codec_scheme \<Rightarrow> str \<Rightarrow> journal_entry list \<Rightarrow> records_map \<Rightarrow> bool" where
  "journal_on_disk cd canvas es C \<longleftrightarrow>
     (\<forall>e \<in> set es. \<exists>r. C (journal_record_id canvas (je_seq e)) = Some r \<and> sr_payload r = sj_write_entry cd e) \<and>
     (\<forall>i \<in> dom C. has_prefix (journal_prefix canvas) i \<longrightarrow>
        (\<exists>e \<in> set es. i = journal_record_id canvas (je_seq e))) \<and>
     map je_seq es = map (\<lambda>n. seq_no (Suc n)) [0..<length es]"

lemma journal_ids_apart [simp]:
  "journal_record_id canvas n \<noteq> object_record_id canvas oid" "object_record_id canvas oid \<noteq> journal_record_id canvas n"
  "journal_record_id canvas n \<noteq> canvas_record_id canvas" "canvas_record_id canvas \<noteq> journal_record_id canvas n"
  "\<not> has_prefix (journal_prefix canvas) (object_record_id canvas oid)"
  "\<not> has_prefix (journal_prefix canvas) (canvas_record_id canvas)"
  "has_prefix (journal_prefix canvas) (journal_record_id canvas n)"
  by (simp_all add: journal_record_id_def object_record_id_def canvas_record_id_def journal_prefix_def
      kind_object_def kind_canvas_def has_prefix_def)

lemma journal_seq_of_id [simp]: "journal_seq_of (journal_record_id canvas n) (journal_prefix canvas) = n"
  by (simp add: journal_seq_of_def journal_record_id_def journal_prefix_def has_prefix_def parse_i64_show)

lemma journal_record_id_inj: "journal_record_id canvas m = journal_record_id canvas n \<longleftrightarrow> m = n"
  by (metis journal_seq_of_id)

lemma numbered_nth:
  assumes "map je_seq es = map (\<lambda>n. seq_no (Suc n)) [0..<length es]" "i < length es"
  shows "je_seq (es ! i) = seq_no (Suc i)"
proof -
  have "map je_seq es ! i = map (\<lambda>n. seq_no (Suc n)) [0..<length es] ! i" by (simp only: assms(1))
  with assms(2) show ?thesis by simp
qed

lemma numbered_sorted:
  assumes "map je_seq es = map (\<lambda>n. seq_no (Suc n)) [0..<length es]" "length es < 2 ^ 63"
  shows "sorted_wrt (<) (map (\<lambda>e. sint (je_seq e)) es)"
  unfolding sorted_wrt_iff_nth_less
  using numbered_nth[OF assms(1)] assms(2) by (auto simp: seq_no_sint)

text \<open>Scene writes leave the journal, journal writes leave the scene.\<close>

lemma journal_after_scene:
  assumes "journal_on_disk cd canvas es C"
  shows "journal_on_disk cd canvas es
    ((touched_written cd' canvas v touched sc C)(canvas_record_id canvas \<mapsto> m))"
proof -
  have o: "touched_written cd' canvas v touched sc C (journal_record_id canvas n) = C (journal_record_id canvas n)" for n
    by (simp add: touched_written_other)
  have "\<exists>e \<in> set es. i = journal_record_id canvas (je_seq e)"
    if "i \<in> dom ((touched_written cd' canvas v touched sc C)(canvas_record_id canvas \<mapsto> m))"
      "has_prefix (journal_prefix canvas) i" for i
  proof -
    have "i \<noteq> canvas_record_id canvas" "\<forall>oid. i \<noteq> object_record_id canvas oid" using that(2) by auto
    then have "i \<in> dom C" using that(1) by (auto simp: touched_written_other domIff)
    then show ?thesis using assms that(2) by (simp add: journal_on_disk_def)
  qed
  then show ?thesis using assms by (simp add: journal_on_disk_def o)
qed

lemma scene_after_journal:
  assumes "on_disk cd canvas sc C" "sr_kind r = ''journal''"
  shows "on_disk cd canvas sc (C(journal_record_id canvas n \<mapsto> r))"
proof -
  let ?D = "C(journal_record_id canvas n \<mapsto> r)"
  have s: "?D (object_record_id canvas oid) = C (object_record_id canvas oid)"
    "?D (canvas_record_id canvas) = C (canvas_record_id canvas)" for oid by simp_all
  have "C i = Some x" if "?D i = Some x" "sr_kind x = kind_object" for i x
    using that assms(2) by (auto simp: kind_object_def split: if_splits)
  then show ?thesis using assms(1) unfolding on_disk_def s by blast
qed

lemma journal_append:
  assumes "journal_on_disk cd canvas es C" "je_seq e = seq_no (Suc (length es))" "length es + 1 < 2 ^ 63"
    "sr_payload r = sj_write_entry cd e"
  shows "journal_on_disk cd canvas (es @ [e]) (C(journal_record_id canvas (je_seq e) \<mapsto> r))"
proof -
  have num: "map je_seq es = map (\<lambda>n. seq_no (Suc n)) [0..<length es]" using assms(1) by (simp add: journal_on_disk_def)
  have "je_seq x \<noteq> je_seq e" if x: "x \<in> set es" for x
  proof -
    obtain i where i: "i < length es" "es ! i = x" using x by (auto simp: in_set_conv_nth)
    have l: "Suc i < 2 ^ 63" "Suc (length es) < 2 ^ 63" using i(1) assms(3) by (simp_all only: Suc_eq_plus1)
    have "sint (je_seq x) = int (Suc i)" unfolding i(2)[symmetric] numbered_nth[OF num i(1)] by (rule seq_no_sint[OF l(1)])
    moreover have "sint (je_seq e) = int (Suc (length es))" unfolding assms(2) by (rule seq_no_sint[OF l(2)])
    ultimately have "sint (je_seq x) < sint (je_seq e)" using i(1) by simp
    then show ?thesis by auto
  qed
  then show ?thesis using assms(1,2,4) by (auto simp: journal_on_disk_def journal_record_id_inj)
qed

section \<open>Recovery\<close>

text \<open>
  The invariant of a running actor, what a step does under it, and the actor that
  \<open>spawn\<close> builds from the records it left.
\<close>

section \<open>The invariant\<close>

text \<open>
  \<open>sc\<close> is the working scene and \<open>es\<close> the journal: the scene is on disk, every entry reads back,
  and the sequence number, the revision and the length of the journal are one number.
\<close>

definition on_store ::
    "('a \<Rightarrow> records_map \<Rightarrow> regions_map \<Rightarrow> bool) \<Rightarrow> ('z) journal_codec_scheme \<Rightarrow> str \<Rightarrow> 'a \<Rightarrow> scene \<Rightarrow>
     journal_entry list \<Rightarrow> bool" where
  "on_store repr cd canvas a sc es \<longleftrightarrow>
     scene_ok sc \<and> reads_back cd sc \<and> (\<forall>e \<in> set es. entry_reads_back cd e) \<and>
     (\<exists>C R. repr a C R \<and> on_disk cd canvas sc C \<and> journal_on_disk cd canvas es C)"

definition durable ::
    "('a \<Rightarrow> records_map \<Rightarrow> regions_map \<Rightarrow> bool) \<Rightarrow> ('z) journal_codec_scheme \<Rightarrow> str \<Rightarrow> 'a canvas_actor \<Rightarrow> scene \<Rightarrow>
     journal_entry list \<Rightarrow> bool" where
  "durable repr cd canvas ca sc es \<longleftrightarrow>
     ca_canvas_id ca = canvas \<and>
     (\<exists>ps. os_working (ca_store ca) canvas = Some (sc, ps) \<and> seqs_below ps (ca_seq ca)) \<and>
     on_store repr cd canvas (os_adapter (ca_store ca)) sc es \<and>
     scene_version sc = seq_no (length es) \<and> ca_seq ca = seq_no (length es) \<and> length es < 2 ^ 63 \<and>
     tracks (ca_dedup ca) es"

text \<open>
  What every accepted operation keeps: all of it but the agreement of the scene with its records.
  An operation writes the records of the objects it names and of the canvas; \<open>saved_at\<close>
  says that those agree with the scene.
\<close>

definition journaled ::
    "('a \<Rightarrow> records_map \<Rightarrow> regions_map \<Rightarrow> bool) \<Rightarrow> ('z) journal_codec_scheme \<Rightarrow> str \<Rightarrow> 'a canvas_actor \<Rightarrow> scene \<Rightarrow>
     journal_entry list \<Rightarrow> bool" where
  "journaled repr cd canvas ca sc es \<longleftrightarrow>
     ca_canvas_id ca = canvas \<and>
     (\<exists>ps. os_working (ca_store ca) canvas = Some (sc, ps) \<and> seqs_below ps (ca_seq ca)) \<and>
     (\<forall>e \<in> set es. entry_reads_back cd e) \<and>
     (\<exists>C R. repr (os_adapter (ca_store ca)) C R \<and> journal_on_disk cd canvas es C) \<and>
     scene_version sc = seq_no (length es) \<and> ca_seq ca = seq_no (length es) \<and> length es < 2 ^ 63 \<and>
     tracks (ca_dedup ca) es"

definition saved_at ::
    "('a \<Rightarrow> records_map \<Rightarrow> regions_map \<Rightarrow> bool) \<Rightarrow> ('z) journal_codec_scheme \<Rightarrow> str \<Rightarrow> 'a \<Rightarrow> object_id list \<Rightarrow>
     scene \<Rightarrow> bool" where
  "saved_at repr cd canvas a touched sc \<longleftrightarrow>
     (\<exists>C R. repr a C R \<and>
       (\<forall>oid \<in> set touched. map_option sr_payload (C (object_record_id canvas oid)) =
          map_option (sj_write_object cd) (scene_get sc oid)) \<and>
       map_option sr_payload (C (canvas_record_id canvas)) = Some (sj_write_meta cd (meta_of_scene sc)))"

lemma durable_iff:
  "durable repr cd canvas ca sc es \<longleftrightarrow>
     journaled repr cd canvas ca sc es \<and> on_store repr cd canvas (os_adapter (ca_store ca)) sc es"
  by (auto simp: durable_def journaled_def on_store_def)

lemma by_id_get: "distinct (ids sc) \<Longrightarrow> scene_get (by_id sc) oid = scene_get sc oid"
proof -
  assume d: "distinct (ids sc)"
  have i: "distinct (ids (by_id sc))" "set (objects (by_id sc)) = set (objects sc)"
    using d by (auto simp: by_id_def ids_def distinct_map)
  show ?thesis
  proof (cases "\<exists>ob \<in> set (objects sc). o_id ob = oid")
    case True
    then obtain ob where "ob \<in> set (objects sc)" "o_id ob = oid" by blast
    then show ?thesis using scene_get_eq[OF d] scene_get_eq[OF i(1)] i(2) by auto
  next
    case False
    then have "scene_get sc oid = None"
      using scene_get_Some[of sc oid] by (cases "scene_get sc oid") blast+
    moreover have "scene_get (by_id sc) oid = None"
      using False scene_get_Some[of "by_id sc" oid] unfolding i(2) by (cases "scene_get (by_id sc) oid") blast+
    ultimately show ?thesis by simp
  qed
qed

lemma by_id_ok:
  assumes "scene_ok sc"
  shows "scene_ok (by_id sc)"
  using assms by (auto simp: scene_ok_def by_id_def ids_def distinct_map)

lemma by_id_disk:
  assumes "scene_ok sc" "on_disk cd canvas sc C"
  shows "on_disk cd canvas (by_id sc) C"
proof -
  have d: "distinct (ids sc)" using assms(1) by (simp add: scene_ok_def)
  have m: "meta_of_scene (by_id sc) = meta_of_scene sc" by (simp add: meta_of_scene_def by_id_def)
  show ?thesis using assms(2) unfolding on_disk_def by_id_get[OF d] m .
qed

lemma by_id_reads: "reads_back cd sc \<Longrightarrow> reads_back cd (by_id sc)"
  by (simp add: reads_back_def by_id_def meta_of_scene_def)

section \<open>Steps\<close>

text \<open>A refused operation changes nothing at all.\<close>

lemma rejected_step:
  assumes "durable repr cd canvas ca sc es" "length es + 1 < 2 ^ 63" "apply_object_op lm sc op = (sc', Inl e)"
  shows "handle_apply lm io cd op base oi user ca = (ca, [], Inr (Rejected (StoreApply e)))"
proof -
  obtain ps where ps: "os_working (ca_store ca) canvas = Some (sc, ps)" "seqs_below ps (ca_seq ca)"
    using assms(1) by (auto simp: durable_def)
  have s: "ca_canvas_id ca = canvas" "ca_seq ca = seq_no (length es)" using assms(1) by (auto simp: durable_def)
  have l: "length es < 2 ^ 63" "Suc (length es) < 2 ^ 63" using assms(2) by simp_all
  have n: "sint (ca_seq ca) < sint (ca_seq ca + 1)" "0 \<le> sint (ca_seq ca + 1)"
    unfolding s(2) seq_no_Suc by (simp_all only: seq_no_sint[OF l(1)] seq_no_sint[OF l(2)])
  have sc': "sc' = sc" using assms(3) by (rule apply_object_op_error)
  have g: "apply_object_op_lww lm sc ps op (seq_u64 (ca_seq ca + 1)) = (sc, ps, Inl e)"
    by (simp add: gate_passes[OF ps(2) n] assms(3) sc')
  have w: "(os_working (ca_store ca))(canvas \<mapsto> (sc, ps)) = os_working (ca_store ca)"
    using ps(1) by (simp add: fun_upd_idem)
  have "object_store_apply lm io cd canvas (ca_store ca) op (seq_u64 (ca_seq ca + 1)) =
      (ca_store ca, Inl (StoreApply e))"
    by (simp add: object_store_apply_def ensure_loaded_def ps(1) g w)
  then show ?thesis by (simp add: handle_apply_def s(1))
qed

text \<open>A duplicate is answered from the table and changes nothing.\<close>

lemma duplicate_step:
  assumes "durable repr cd canvas ca sc es" "dedup_seen (ca_dedup ca) (en_op_id en) = Some ack"
  shows "handle_apply_envelope lm io cd en user ca = (ca, [], Inr (Applied (ak_seq ack) (ak_revision ack)))"
    "\<exists>e \<in> set es. je_op_id e = Some (en_op_id en) \<and> ack = ack_of e"
  using assms tracks_seen[of "ca_dedup ca" es "en_op_id en" ack]
  by (simp_all add: handle_apply_envelope_def durable_def)

context canvas_store begin

text \<open>An accepted operation, from the call to the broadcast.\<close>

lemma accepted_run:
  assumes d: "journaled repr cd canvas ca sc es" and len: "length es + 1 < 2 ^ 63"
    and c: "repr (os_adapter (ca_store ca)) C R" "journal_on_disk cd canvas es C"
    and ap: "apply_object_op lm sc op = (sc', Inr iv)" "iv \<noteq> Batch []"
    and idok: "\<forall>oid \<in> set (target_ids op). id_ok (object_record_id canvas oid)"
      "id_ok (journal_record_id canvas (ca_seq ca + 1))"
    and e: "e = \<lparr>je_seq = ca_seq ca + 1, je_op_id = oi, je_base_revision = base, je_op = op\<rparr>" "entry_reads_back cd e"
    and new: "\<And>i. oi = Some i \<Longrightarrow> dedup_seen (ca_dedup ca) i = None"
  shows "\<exists>ca'. handle_apply lm io cd op base oi user ca =
      (ca', [\<lparr>pb_seq = ca_seq ca + 1, pb_op = op, pb_scene = sc', pb_author = Some user\<rparr>],
       Inr (Applied (ca_seq ca + 1) (ca_seq ca + 1))) \<and>
    ca_seq ca' = ca_seq ca + 1 \<and> journaled repr cd canvas ca' sc' (es @ [e]) \<and>
    saved_at repr cd canvas (os_adapter (ca_store ca')) (target_ids op) sc' \<and>
    (on_disk cd canvas sc C \<and> scene_ok sc \<and> writes_through sc op \<and> op_ok op \<and> reads_back cd sc' \<longrightarrow>
       durable repr cd canvas ca' sc' (es @ [e]))"
proof -
  obtain ps where ps: "os_working (ca_store ca) canvas = Some (sc, ps)" "seqs_below ps (ca_seq ca)"
    using d by (auto simp: journaled_def)
  have s: "ca_canvas_id ca = canvas" "ca_seq ca = seq_no (length es)" "scene_version sc = seq_no (length es)"
    "tracks (ca_dedup ca) es" "\<forall>e \<in> set es. entry_reads_back cd e"
    using d by (auto simp: journaled_def)
  let ?n = "ca_seq ca + 1"
  have l: "length es < 2 ^ 63" "Suc (length es) < 2 ^ 63" using len by simp_all
  have n: "sint (ca_seq ca) < sint ?n" "0 \<le> sint ?n"
    unfolding s(2) seq_no_Suc by (simp_all only: seq_no_sint[OF l(1)] seq_no_sint[OF l(2)])
  let ?ps = "foldl (record_seq ?n) ps (touched_properties op)"
  have g: "apply_object_op_lww lm sc ps op (seq_u64 ?n) = (sc', ?ps, Inr iv)"
    by (simp add: gate_passes[OF ps(2) n] ap(1))
  have below: "seqs_below ?ps ?n" by (rule seqs_below_record[OF ps(2)]) (use n(1) in simp)
  obtain a x where p: "persist_scene io cd canvas (seq_u64 ?n) (os_adapter (ca_store ca)) (target_ids op) sc' = (a, x)"
    by (cases "persist_scene io cd canvas (seq_u64 ?n) (os_adapter (ca_store ca)) (target_ids op) sc'")
  let ?C = "scene_written cd (seq_u64 ?n) (target_ids op) sc' C"
  obtain R1 where a: "x = Inr ()" "repr a ?C R1" using persist_scene_law[OF c(1) idok(1) p] by blast
  let ?os = "\<lparr>os_adapter = a, os_working = (os_working (ca_store ca))(canvas \<mapsto> (sc', ?ps))\<rparr>"
  have st: "object_store_apply lm io cd canvas (ca_store ca) op (seq_u64 ?n) = (?os, Inr iv)"
    using p a(1) ap(2) by (simp add: object_store_apply_def ensure_loaded_def ps(1) g)
  let ?r = "\<lparr>sr_id = journal_record_id canvas ?n, sr_kind = ''journal'', sr_version = seq_u64 ?n,
      sr_payload = sj_write_entry cd e\<rparr>"
  obtain b y where j: "so_save io a ?r = (b, y)" by (cases "so_save io a ?r")
  have "rec_ok ?r" using record_ok[of ?r] idok(2) by simp
  from save_law[OF a(2) this room j] have b: "y = Inr ()" "repr b (?C(journal_record_id canvas ?n \<mapsto> ?r)) R1" by simp_all
  let ?ca = "ca\<lparr>ca_store := ?os\<lparr>os_adapter := b\<rparr>, ca_seq := ?n\<rparr>"
  have wj: "write_journal io cd (ca\<lparr>ca_store := ?os, ca_seq := ?n\<rparr>) e = (?ca, Inr ())"
    using j b(1) by (simp add: write_journal_def s(1) e(1))
  have v: "scene_version sc' = ?n" using apply_version[OF ap(1)] s(2,3) by simp
  let ?ca' = "?ca\<lparr>ca_dedup := (case oi of None \<Rightarrow> ca_dedup ca
      | Some i \<Rightarrow> dedup_record (ca_dedup ca) i \<lparr>ak_seq = ?n, ak_revision = ?n\<rparr>)\<rparr>"
  have sc: "actor_scene io cd ?ca = (?ca, Inr sc')"
    by (simp add: actor_scene_def store_scene_def ensure_loaded_def s(1))
  have run: "handle_apply lm io cd op base oi user ca =
      (?ca', [\<lparr>pb_seq = ?n, pb_op = op, pb_scene = sc', pb_author = Some user\<rparr>], Inr (Applied ?n ?n))"
    unfolding handle_apply_def Let_def s(1) st prod.case sum.case e(1)[symmetric] wj sc v
    by (cases oi) simp_all
  have jd: "journal_on_disk cd canvas (es @ [e]) (?C(journal_record_id canvas (je_seq e) \<mapsto> ?r))"
    by (rule journal_append) (use len s(2) e(1) journal_after_scene[OF c(2)] seq_no_Suc in
      \<open>simp_all add: scene_written_def\<close>)
  have tr: "tracks (ca_dedup ?ca') (es @ [e])"
  proof (cases oi)
    case None
    then show ?thesis using tracks_none[OF s(4), of e] by (simp add: e(1))
  next
    case (Some i)
    then show ?thesis using tracks_some[OF s(4), of e i] new[OF Some] by (simp add: e(1) ack_of_def)
  qed
  have jn: "journaled repr cd canvas ?ca' sc' (es @ [e])"
    unfolding journaled_def using s(1,2,5) below jd b(2) tr e v l(2) seq_no_Suc by (auto simp: e(1))
  have sv: "saved_at repr cd canvas (os_adapter (ca_store ?ca')) (target_ids op) sc'"
    unfolding saved_at_def
    by (rule exI[of _ "?C(journal_record_id canvas ?n \<mapsto> ?r)"], rule exI[of _ R1])
      (use b(2) in \<open>simp add: scene_written_def touched_written_object record_ids_apart
        option.map_comp comp_def meta_to_record_def\<close>)
  have du: "durable repr cd canvas ?ca' sc' (es @ [e])"
    if h: "on_disk cd canvas sc C" "scene_ok sc" "writes_through sc op" "op_ok op" "reads_back cd sc'"
  proof -
    have out: "same_outside (target_ids op) sc sc'"
      by (rule apply_outside[OF ap(1) h(3)]) (use h(2) in \<open>simp add: scene_ok_def\<close>)
    have "on_disk cd canvas sc' (?C(journal_record_id canvas ?n \<mapsto> ?r))"
      by (rule scene_after_journal) (simp_all add: scene_written_def on_disk_written[OF h(1) out])
    then have "on_store repr cd canvas (os_adapter (ca_store ?ca')) sc' (es @ [e])"
      unfolding on_store_def using apply_object_op_ok[OF ap(1) h(2,4)] h(5) s(5) e b(2) jd by auto
    with jn show ?thesis by (simp add: durable_iff)
  qed
  show ?thesis
    by (rule exI[of _ ?ca']) (use run jn sv du in simp)
qed

lemma accepted_step:
  assumes d: "durable repr cd canvas ca sc es" and len: "length es + 1 < 2 ^ 63"
    and ap: "apply_object_op lm sc op = (sc', Inr iv)" "iv \<noteq> Batch []"
    and wt: "writes_through sc op" "op_ok op" "reads_back cd sc'"
    and idok: "\<forall>oid \<in> set (target_ids op). id_ok (object_record_id canvas oid)"
      "id_ok (journal_record_id canvas (ca_seq ca + 1))"
    and e: "e = \<lparr>je_seq = ca_seq ca + 1, je_op_id = oi, je_base_revision = base, je_op = op\<rparr>" "entry_reads_back cd e"
    and new: "\<And>i. oi = Some i \<Longrightarrow> dedup_seen (ca_dedup ca) i = None"
  shows "\<exists>ca'. handle_apply lm io cd op base oi user ca =
      (ca', [\<lparr>pb_seq = ca_seq ca + 1, pb_op = op, pb_scene = sc', pb_author = Some user\<rparr>],
       Inr (Applied (ca_seq ca + 1) (ca_seq ca + 1))) \<and>
    ca_seq ca' = ca_seq ca + 1 \<and> durable repr cd canvas ca' sc' (es @ [e])"
proof -
  have j: "journaled repr cd canvas ca sc es" "scene_ok sc" using d by (simp_all add: durable_iff on_store_def)
  obtain C R where c: "repr (os_adapter (ca_store ca)) C R" "journal_on_disk cd canvas es C" "on_disk cd canvas sc C"
    using d by (auto simp: durable_def on_store_def)
  from accepted_run[OF j(1) len c(1,2) ap idok e new] c(3) j(2) wt show ?thesis by blast
qed

end

section \<open>Reading the journal\<close>

lemma try_map_inverse: "(\<And>x. x \<in> set xs \<Longrightarrow> f (g x) = Inr x) \<Longrightarrow> try_map f (map g xs) = Inr xs"
  by (induction xs) auto

lemma journal_ids_order:
  assumes "journal_on_disk cd canvas es C" "length es < 2 ^ 63" "set is = dom C" "sorted_wrt (<) is"
  shows "sort_key (\<lambda>i. sint (journal_seq_of i (journal_prefix canvas))) (filter (has_prefix (journal_prefix canvas)) is) =
    map (\<lambda>e. journal_record_id canvas (je_seq e)) es"
proof -
  let ?f = "\<lambda>i. sint (journal_seq_of i (journal_prefix canvas))"
  let ?xs = "filter (has_prefix (journal_prefix canvas)) is"
  let ?ys = "map (\<lambda>e. journal_record_id canvas (je_seq e)) es"
  have num: "map je_seq es = map (\<lambda>n. seq_no (Suc n)) [0..<length es]"
    and present: "\<forall>e \<in> set es. \<exists>r. C (journal_record_id canvas (je_seq e)) = Some r"
    and only: "\<forall>i \<in> dom C. has_prefix (journal_prefix canvas) i \<longrightarrow> (\<exists>e \<in> set es. i = journal_record_id canvas (je_seq e))"
    using assms(1) unfolding journal_on_disk_def by blast+
  have s: "sorted_wrt (<) (map ?f ?ys)"
    using numbered_sorted[OF num assms(2)] by (simp add: comp_def)
  then have so: "sorted (map ?f ?ys)" "distinct (map ?f ?ys)"
    using strict_sorted_iff by blast+
  have eq: "set ?xs = set ?ys" using present only assms(3) by fastforce
  moreover have "inj_on ?f (set ?ys)" using so(2) by (simp only: distinct_map)
  moreover have "distinct ?xs" using assms(4) by (simp add: strict_sorted_iff)
  ultimately have "distinct (map ?f ?xs)" by (simp only: distinct_map)
  then have "sort_key ?f ?xs = sort_key ?f ?ys" by (rule sort_key_unique) (use so(2) eq in simp_all)
  also have "\<dots> = ?ys" by (rule sort_key_id_if_sorted[OF so(1)])
  finally show ?thesis .
qed

context record_store begin

lemma load_journal_law:
  assumes "repr a C R" "journal_on_disk cd canvas es C" "length es < 2 ^ 63" "\<forall>e \<in> set es. entry_reads_back cd e"
  shows "load_journal io cd canvas a = Inr es"
proof -
  obtain "is" where l: "so_list io a = Inr is" "set is = dom C" "sorted_wrt (<) is"
    using list_law[OF assms(1)] by blast
  have "read_entry io cd a (journal_record_id canvas (je_seq e)) = Inr e" if "e \<in> set es" for e
  proof -
    have "\<forall>e \<in> set es. \<exists>r. C (journal_record_id canvas (je_seq e)) = Some r \<and> sr_payload r = sj_write_entry cd e"
      using assms(2) by (simp add: journal_on_disk_def)
    from bspec[OF this that] obtain r
      where "C (journal_record_id canvas (je_seq e)) = Some r" "sr_payload r = sj_write_entry cd e" by blast
    then show ?thesis using that assms(4) load_law[OF assms(1)] by (simp add: read_entry_def entry_reads_back_def)
  qed
  then have "try_map (read_entry io cd a) (map (\<lambda>e. journal_record_id canvas (je_seq e)) es) = Inr es"
    by (rule try_map_inverse)
  then show ?thesis by (simp add: load_journal_def l(1) journal_ids_order[OF assms(2,3) l(2,3)])
qed

end

text \<open>The highest number of a numbered journal is its length.\<close>

lemma journal_max_numbered:
  assumes "map je_seq es = map (\<lambda>n. seq_no (Suc n)) [0..<length es]" "length es < 2 ^ 63"
  shows "journal_max_seq es = seq_no (length es)"
  using assms
proof (induction es rule: rev_induct)
  case Nil
  then show ?case by (simp add: journal_max_seq_def seq_no_def)
next
  case (snoc e es)
  have e: "je_seq e = seq_no (Suc (length es))" and es: "map je_seq es = map (\<lambda>n. seq_no (Suc n)) [0..<length es]"
    using snoc.prems(1) by simp_all
  have l: "length es < 2 ^ 63" "Suc (length es) < 2 ^ 63" using snoc.prems(2) by simp_all
  have ih: "journal_max_seq es = seq_no (length es)" using snoc.IH es l(1) by blast
  have "sint (seq_no (length es)) \<le> sint (seq_no (Suc (length es)))"
    unfolding seq_no_sint[OF l(1)] seq_no_sint[OF l(2)] by simp
  then show ?case using ih e by (cases es) (auto simp: journal_max_seq_def)
qed

text \<open>The entries up to the loaded revision are not replayed.\<close>

lemma replay_none:
  "\<forall>e \<in> set es. sint (je_seq e) \<le> sint revision \<Longrightarrow> replay_entries lm io cd canvas revision os es = os"
  by (induction es) auto

lemma replay_append:
  "replay_entries lm io cd canvas revision os (es @ fs) =
   replay_entries lm io cd canvas revision (replay_entries lm io cd canvas revision os es) fs"
  by (induction es arbitrary: os) auto

lemma numbered_below:
  assumes "map je_seq es = map (\<lambda>n. seq_no (Suc n)) [0..<length es]" "length es \<le> v" "v < 2 ^ 63" "e \<in> set es"
  shows "sint (je_seq e) \<le> sint (seq_no v)"
proof -
  obtain i where i: "i < length es" "es ! i = e" using assms(4) by (auto simp: in_set_conv_nth)
  have l: "Suc i < 2 ^ 63" "Suc i \<le> v" using i(1) assms(2,3) by linarith+
  have "je_seq e = seq_no (Suc i)" using numbered_nth[OF assms(1) i(1)] i(2) by simp
  then show ?thesis using l(2) by (simp only: seq_no_sint[OF l(1)] seq_no_sint[OF assms(3)] of_nat_le_iff)
qed

section \<open>Spawning\<close>

text \<open>
  An actor spawned over records whose scene is at least as new as the journal: it resumes at the
  revision of the scene, whatever the journal says.
\<close>

context spatial_store begin

lemma spawn_law:
  assumes "repr a C R" "on_disk cd canvas sc C" "journal_on_disk cd canvas es C"
    "scene_ok sc" "reads_back cd sc" "\<forall>e \<in> set es. entry_reads_back cd e"
    "scene_version sc = seq_no v" "length es \<le> v" "v < 2 ^ 63"
  shows "actor_spawn lm io cd canvas a = Inr \<lparr>ca_canvas_id = canvas,
      ca_store = \<lparr>os_adapter = a, os_working = [canvas \<mapsto> (by_id sc, store_new)]\<rparr>,
      ca_seq = seq_no v, ca_dedup = rebuild_dedup_from_suffix es\<rparr>"
proof -
  have num: "map je_seq es = map (\<lambda>n. seq_no (Suc n)) [0..<length es]" using assms(3) by (simp add: journal_on_disk_def)
  have l: "length es < 2 ^ 63" using assms(8,9) by linarith
  have bv: "scene_version (by_id sc) = seq_no v" using assms(7) by (simp add: by_id_def)
  have ld: "load_scene io cd canvas a = Inr (by_id sc)" by (rule load_scene_law[OF assms(1,2,4,5)])
  have js: "load_journal io cd canvas a = Inr es" by (rule load_journal_law[OF assms(1,3) l assms(6)])
  have rp: "replay_entries lm io cd canvas (seq_no v) os es = os" for os
    by (rule replay_none) (use numbered_below[OF num assms(8,9)] in blast)
  have m: "seq_no (length es) = seq_no v" if "\<not> sint (seq_no (length es)) < sint (seq_no v)"
    using that assms(8) unfolding seq_no_sint[OF l] seq_no_sint[OF assms(9)] by simp
  show ?thesis
    by (simp add: actor_spawn_def recover_durable_state_def store_scene_def ensure_loaded_def object_store_new_def
        ld js bv rp journal_max_numbered[OF num l] m del: fun_upd_apply)
qed

text \<open>On a store without records of the canvas: an empty scene and an empty journal.\<close>

lemma fresh_law:
  assumes "repr a Map.empty Map.empty" "reads_back cd scene_default"
  shows "\<exists>ca. actor_spawn lm io cd canvas a = Inr ca \<and> ca_seq ca = seq_no 0 \<and>
    durable repr cd canvas ca scene_default []"
proof -
  have j: "journal_on_disk cd canvas [] Map.empty" by (simp add: journal_on_disk_def)
  have ok: "scene_ok scene_default" by (simp add: scene_ok_def scene_default_def ids_def)
  have v: "scene_version scene_default = seq_no 0" "by_id scene_default = scene_default"
    by (simp_all add: scene_default_def seq_no_def by_id_def)
  have t: "tracks (rebuild_dedup_from_suffix []) []"
    by (rule rebuild_tracks[of dedup_new]) (simp add: tracks_def tracks_from_def dedup_new_def dedup_ok_def)
  note sp = spawn_law[OF assms(1) fresh_on_disk j ok assms(2) _ v(1), of lm]
  show ?thesis
    by (intro exI conjI, rule sp) (use assms fresh_on_disk j ok v t in \<open>auto simp: durable_def on_store_def seqs_below_new\<close>)
qed

text \<open>After a stop between two commands the next actor is as good as the one before.\<close>

lemma restart_law:
  assumes "durable repr cd canvas ca sc es"
  shows "\<exists>ca'. actor_spawn lm io cd canvas (os_adapter (ca_store ca)) = Inr ca' \<and>
    ca_seq ca' = ca_seq ca \<and> durable repr cd canvas ca' (by_id sc) es"
proof -
  have d: "scene_version sc = seq_no (length es)" "ca_seq ca = seq_no (length es)" "length es < 2 ^ 63"
    "tracks (ca_dedup ca) es" "scene_ok sc" "reads_back cd sc" "\<forall>e \<in> set es. entry_reads_back cd e"
    using assms by (auto simp: durable_def on_store_def)
  obtain C R where c: "repr (os_adapter (ca_store ca)) C R" "on_disk cd canvas sc C" "journal_on_disk cd canvas es C"
    using assms by (auto simp: durable_def on_store_def)
  note sp = spawn_law[OF c d(5,6,7,1) order_refl d(3), of lm]
  have "scene_version (by_id sc) = seq_no (length es)" using d(1) by (simp add: by_id_def)
  then have "durable repr cd canvas \<lparr>ca_canvas_id = canvas,
      ca_store = \<lparr>os_adapter = os_adapter (ca_store ca), os_working = [canvas \<mapsto> (by_id sc, store_new)]\<rparr>,
      ca_seq = seq_no (length es), ca_dedup = rebuild_dedup_from_suffix es\<rparr> (by_id sc) es"
    unfolding durable_def on_store_def
    using c(1,3) by_id_disk[OF d(5) c(2)] by_id_ok[OF d(5)] by_id_reads[OF d(6)] d(3,7) rebuild_tracks[OF d(4)]
    by (auto simp: seqs_below_new)
  then show ?thesis using sp d(2) by simp
qed

end

section \<open>A stop inside a command\<close>

context canvas_store begin

text \<open>
  The touched records and the scene record are written before the journal entry. A stop
  between the two leaves the operation in the scene, at a revision the journal never reaches,
  and its id unknown to the next actor.
\<close>

lemma torn_step:
  assumes d: "durable repr cd canvas ca sc es" and len: "length es + 1 < 2 ^ 63"
    and ap: "apply_object_op lm sc op = (sc', Inr iv)" "iv \<noteq> Batch []"
    and wt: "writes_through sc op" "op_ok op" "reads_back cd sc'"
    and idok: "\<forall>oid \<in> set (target_ids op). id_ok (object_record_id canvas oid)"
    and new: "\<forall>e \<in> set es. je_op_id e \<noteq> Some i"
  shows "\<exists>os ca'. object_store_apply lm io cd canvas (ca_store ca) op (seq_u64 (ca_seq ca + 1)) = (os, Inr iv) \<and>
    actor_spawn lm io cd canvas (os_adapter os) = Inr ca' \<and> ca_seq ca' = ca_seq ca + 1 \<and>
    os_working (ca_store ca') canvas = Some (by_id sc', store_new) \<and>
    load_journal io cd canvas (os_adapter os) = Inr es \<and> dedup_seen (ca_dedup ca') i = None"
proof -
  obtain ps where ps: "os_working (ca_store ca) canvas = Some (sc, ps)" "seqs_below ps (ca_seq ca)"
    using d by (auto simp: durable_def)
  obtain C R where c: "repr (os_adapter (ca_store ca)) C R" "on_disk cd canvas sc C" "journal_on_disk cd canvas es C"
    using d by (auto simp: durable_def on_store_def)
  have s: "ca_seq ca = seq_no (length es)" "scene_version sc = seq_no (length es)" "scene_ok sc"
    "tracks (ca_dedup ca) es" "\<forall>e \<in> set es. entry_reads_back cd e"
    using d by (auto simp: durable_def on_store_def)
  let ?n = "ca_seq ca + 1"
  have l: "length es < 2 ^ 63" "Suc (length es) < 2 ^ 63" using len by simp_all
  have n: "sint (ca_seq ca) < sint ?n" "0 \<le> sint ?n"
    unfolding s(1) seq_no_Suc by (simp_all only: seq_no_sint[OF l(1)] seq_no_sint[OF l(2)])
  let ?ps = "foldl (record_seq ?n) ps (touched_properties op)"
  have g: "apply_object_op_lww lm sc ps op (seq_u64 ?n) = (sc', ?ps, Inr iv)"
    by (simp add: gate_passes[OF ps(2) n] ap(1))
  obtain a x where p: "persist_scene io cd canvas (seq_u64 ?n) (os_adapter (ca_store ca)) (target_ids op) sc' = (a, x)"
    by (cases "persist_scene io cd canvas (seq_u64 ?n) (os_adapter (ca_store ca)) (target_ids op) sc'")
  let ?C = "scene_written cd (seq_u64 ?n) (target_ids op) sc' C"
  obtain R1 where a: "x = Inr ()" "repr a ?C R1" using persist_scene_law[OF c(1) idok p] by blast
  let ?os = "\<lparr>os_adapter = a, os_working = (os_working (ca_store ca))(canvas \<mapsto> (sc', ?ps))\<rparr>"
  have st: "object_store_apply lm io cd canvas (ca_store ca) op (seq_u64 ?n) = (?os, Inr iv)"
    using p a(1) ap(2) by (simp add: object_store_apply_def ensure_loaded_def ps(1) g)
  have out: "same_outside (target_ids op) sc sc'"
    by (rule apply_outside[OF ap(1) wt(1)]) (use s(3) in \<open>simp add: scene_ok_def\<close>)
  have disk: "on_disk cd canvas sc' ?C" by (simp add: scene_written_def on_disk_written[OF c(2) out])
  have jd: "journal_on_disk cd canvas es ?C" using journal_after_scene[OF c(3)] by (simp add: scene_written_def)
  have v: "scene_version sc' = seq_no (Suc (length es))" using apply_version[OF ap(1)] s(2) seq_no_Suc by simp
  have ok: "scene_ok sc'" using apply_object_op_ok[OF ap(1) s(3) wt(2)] by simp
  have j: "load_journal io cd canvas a = Inr es" by (rule load_journal_law[OF a(2) jd l(1) s(5)])
  have t: "tracks (rebuild_dedup_from_suffix es) es" by (rule rebuild_tracks[OF s(4)])
  have u: "dedup_seen (rebuild_dedup_from_suffix es) i = None"
    using tracks_seen[OF t, of i] new by (cases "dedup_seen (rebuild_dedup_from_suffix es) i") auto
  have q: "seq_no (Suc (length es)) = ?n" by (simp only: s(1) seq_no_Suc)
  note sp = spawn_law[OF a(2) disk jd ok wt(3) s(5) v le_SucI[OF order_refl] l(2), of lm]
  show ?thesis by (rule exI[of _ ?os], rule exI, intro conjI, rule st, simp, rule sp) (simp_all add: q j u)
qed

end

end
