(* ===== verification/Redb_Laws.thy ===== *)
theory Redb_Laws
  imports Redb "HOL-Library.RBT" Recovery_Laws
begin

text \<open>
  The key-value adapter keeps the contract of a store; its region query sees an indexed record
  only when the Morton code of the box's centre lies between the codes of the window's corners.
\<close>

section \<open>Framing round trips\<close>

lemma cur_take_append [simp]: "n = length a \<Longrightarrow> cur_take n (a @ b) = Inr (a, b)"
  by (simp add: cur_take_def)

lemma cur_u32_bytes [simp]: "cur_u32 (be_bytes 4 (w :: u32) @ c) = Inr (w, c)"
  by (simp add: cur_u32_def be_bytes_round)

lemma cur_u64_bytes [simp]: "cur_u64 (be_bytes 8 (w :: u64) @ c) = Inr (w, c)"
  by (simp add: cur_u64_def be_bytes_round)

lemma cur_f64_bytes [simp]: "cur_f64 (be_bytes 8 (w :: u64) @ c) = Inr (w, c)"
  by (simp add: cur_f64_def)

lemma cur_u8_Cons [simp]: "cur_u8 (b # c) = Inr (b, c)"
  by (simp add: cur_u8_def cur_take_def)

lemma cur_put_bytes [simp]: "length bs < 2 ^ 32 \<Longrightarrow> cur_bytes (put_bytes bs @ c) = Inr (bs, c)"
  by (simp add: cur_bytes_def put_bytes_def sat_u32_def unat_of_nat)

definition redb_rec_ok :: "store_record \<Rightarrow> bool" where
  "redb_rec_ok r \<longleftrightarrow> utf8_valid (str_bytes (sr_kind r)) \<and> length (sr_kind r) < 2 ^ 32 \<and>
     utf8_valid (str_bytes (sr_id r)) \<and> length (sr_id r) < 2 ^ 32"

lemma record_value_round:
  assumes "redb_rec_ok r" "\<And>p c. rv_zip env p = Some c \<Longrightarrow> rv_unzip env c = Inr p"
  shows "decode_record_value env (sr_id r) (encode_record_value env r) = Inr r"
proof -
  have z: "rv_unzip env (zstd_compress env p) = Inr p" if "length (zstd_compress env p) < length p" for p
    using that assms(2) by (auto simp: zstd_compress_def split: option.splits)
  show ?thesis using assms(1) z[of "sr_payload r"] cur_u32_bytes[of 0 "[]"]
    by (cases r) (simp add: decode_record_value_def encode_record_value_def Let_def redb_rec_ok_def zstd_decompress_def)
qed

lemma region_value_round:
  assumes "utf8_valid (str_bytes i)" "length i < 2 ^ 32"
  shows "decode_region_value (encode_region_value i key) =
    Inr (i, rk_min_x key, rk_min_y key, rk_max_x key, rk_max_y key)"
  using assms cur_f64_bytes[of _ "[]"]
  by (simp add: decode_region_value_def encode_region_value_def)

section \<open>Rows of several canvases\<close>

definition no_nul :: "str \<Rightarrow> bool" where
  "no_nul s \<longleftrightarrow> 0 \<notin> set (str_bytes s)"

lemma nul_end: "0 \<notin> set a \<Longrightarrow> 0 \<notin> set b \<Longrightarrow> a @ 0 # u = b @ 0 # v \<longleftrightarrow> a = b \<and> u = v"
proof (induction a arbitrary: b)
  case Nil
  then show ?case by (cases b) auto
next
  case (Cons x a)
  then show ?case by (cases b) auto
qed

lemma row_inj:
  "no_nul c \<Longrightarrow> no_nul c' \<Longrightarrow> region_row_key c m i = region_row_key c' m' j \<longleftrightarrow> c = c' \<and> m = m' \<and> i = j"
  using row_key_inj[of c m i m' j]
  by (auto simp: region_row_key_def region_scan_start_def no_nul_def nul_end str_bytes_inj)

lemma byte_below_one: "(y :: 8 word) < 1 \<longleftrightarrow> y = 0"
  by (simp add: word_less_nat_alt unat_eq_0)

lemma between_same_canvas:
  "0 \<notin> set a \<Longrightarrow> 0 \<notin> set b \<Longrightarrow> E = 0 # w \<or> E = [1] \<Longrightarrow>
   a @ 0 # u \<le> b @ 0 # v \<Longrightarrow> b @ 0 # v < a @ E \<Longrightarrow> a = (b :: bytes)"
proof (induction a arbitrary: b)
  case Nil
  then show ?case by (cases b) (auto simp: byte_below_one)
next
  case (Cons x a)
  then show ?case by (cases b) auto
qed

lemma scan_rows_canvas:
  assumes "no_nul c" "no_nul c'"
  shows "region_scan_start c lo \<le> region_row_key c' m i \<and> region_row_key c' m i < region_scan_end_excl c hi
     \<longleftrightarrow> c = c' \<and> lo \<le> m \<and> m \<le> hi"
proof (cases "c = c'")
  case True
  then show ?thesis using scan_rows[of c lo m i hi] by simp
next
  case False
  have "\<exists>E w. region_scan_end_excl c hi = str_bytes c @ E \<and> (E = 0 # w \<or> E = [1])"
    by (auto simp: region_scan_end_excl_def region_scan_start_def)
  then obtain E w where "region_scan_end_excl c hi = str_bytes c @ E" "E = 0 # w \<or> E = [1]" by blast
  then have "str_bytes c = str_bytes c'" if "region_scan_start c lo \<le> region_row_key c' m i"
    "region_row_key c' m i < region_scan_end_excl c hi"
    using that assms between_same_canvas[of "str_bytes c" "str_bytes c'" E w "be_bytes 8 lo" "be_bytes 8 m @ str_bytes i"]
    by (simp add: region_row_key_def region_scan_start_def no_nul_def)
  then show ?thesis using False by (auto simp: str_bytes_inj)
qed

section \<open>Helper loops\<close>

lemma snd_filter_keyed:
  "set (map snd (filter (\<lambda>(j, _). j = i) (map (\<lambda>(k, v). (f v, k)) rows))) = {k. \<exists>v. (k, v) \<in> set rows \<and> f v = i}"
  by (induction rows) auto

lemma fst_filter_mapped:
  "set (map fst (filter (\<lambda>(_, b). P b) (map (\<lambda>(_, v). f v) rows))) =
   {i. \<exists>k v. (k, v) \<in> set rows \<and> fst (f v) = i \<and> P (snd (f v))}"
proof -
  have "filter (\<lambda>(_, b). P b) (map (\<lambda>(_, v). f v) rows) =
      map (\<lambda>(_, v). f v) (filter (\<lambda>(_, v). P (snd (f v))) rows)"
    by (induction rows) (auto simp: case_prod_unfold)
  then show ?thesis by (simp add: case_prod_unfold set_eq_iff image_iff) (metis snd_conv)
qed

lemma dedup_set [simp]: "set (dedup xs) = set xs"
  by (induction xs rule: dedup.induct) auto

lemma dedup_strict: "sorted xs \<Longrightarrow> sorted_wrt (<) (dedup (xs :: 'a::linorder list))"
proof (induction xs rule: dedup.induct)
  case (1 x y zs)
  then show ?case by (auto simp: less_le)
qed auto

section \<open>The engine's laws\<close>

text \<open>A table is an ordered map: what the engine documents of get, insert, remove, iter and range.\<close>

definition table_law :: "('t, 'k::linorder) table_api \<Rightarrow> bool" where
  "table_law tb \<longleftrightarrow> (\<forall>t. bt_ok (tb_iter tb t) \<and> (\<forall>k. tb_get tb t k = bt_get (tb_iter tb t) k) \<and>
     (\<forall>k v. tb_iter tb (tb_insert tb t k v) = bt_insert k v (tb_iter tb t)) \<and>
     (\<forall>k. tb_iter tb (tb_remove tb t k) = bt_remove k (tb_iter tb t)) \<and>
     (\<forall>lo hi. tb_range tb t lo hi = filter (\<lambda>(k, _). lo \<le> k \<and> k < hi) (tb_iter tb t)))"

lemma table_lawD:
  assumes "table_law tb"
  shows "bt_ok (tb_iter tb t)" "tb_get tb t k = bt_get (tb_iter tb t) k"
    "tb_iter tb (tb_insert tb t k v) = bt_insert k v (tb_iter tb t)"
    "tb_iter tb (tb_remove tb t k) = bt_remove k (tb_iter tb t)"
    "tb_range tb t lo hi = filter (\<lambda>(k, _). lo \<le> k \<and> k < hi) (tb_iter tb t)"
  using assms by (simp_all add: table_law_def)

lemma remove_all_keys_iter:
  "table_law tb \<Longrightarrow> tb_iter tb (remove_all_keys tb t ks) = filter (\<lambda>e. fst e \<notin> set ks) (tb_iter tb t)"
proof (induction ks arbitrary: t)
  case (Cons k ks)
  then show ?case by (simp add: remove_all_keys_def table_lawD(4) bt_remove_def conj_commute)
qed (simp add: remove_all_keys_def)

section \<open>What a database represents\<close>

definition row_of :: "str \<Rightarrow> region_key \<Rightarrow> bytes" where
  "row_of i key = region_row_key (rk_canvas_id key) (centre_code key) i"

definition index_repr :: "(bytes \<times> bytes) list \<Rightarrow> regions_map \<Rightarrow> bool" where
  "index_repr rows R \<longleftrightarrow>
     (\<forall>k v. (k, v) \<in> set rows \<longleftrightarrow> (\<exists>i key. R i = Some key \<and> k = row_of i key \<and> v = encode_region_value i key))"

definition redb_repr :: "('m, 'r) redb_env \<Rightarrow> ('m, 'r) redb_db \<Rightarrow> records_map \<Rightarrow> regions_map \<Rightarrow> bool" where
  "redb_repr env db C R \<longleftrightarrow>
     (\<exists>sn. snapshot_ok sn \<and> bt_get sn = C \<and>
        tb_iter (rv_main env) (rb_main db) = map (\<lambda>(i, r). (i, encode_record_value env r)) sn) \<and>
     (\<forall>i r. C i = Some r \<longrightarrow> redb_rec_ok r) \<and> dom R \<subseteq> dom C \<and>
     (\<forall>i key. R i = Some key \<longrightarrow> no_nul (rk_canvas_id key)) \<and>
     index_repr (tb_iter (rv_region env) (rb_region db)) R"

text \<open>The keys whose rows a scan visits.\<close>

definition seen_by_scan :: "bbox option \<Rightarrow> region_key \<Rightarrow> bool" where
  "seen_by_scan win key \<longleftrightarrow> fst (scan_bounds win) \<le> centre_code key \<and> centre_code key \<le> snd (scan_bounds win)"

section \<open>The contract\<close>

text \<open>The engine as an ordered map, and a compressor whose output decompresses.\<close>

locale redb_engine =
  fixes env :: "('m, 'r) redb_env"
  assumes main_law: "table_law (rv_main env)"
    and region_law: "table_law (rv_region env)"
    and unzip_law: "\<And>p c. rv_zip env p = Some c \<Longrightarrow> rv_unzip env c = Inr p"
begin

lemmas main = table_lawD[OF main_law]
lemmas region = table_lawD[OF region_law]

lemma stored_id_ok:
  "redb_repr env db C R \<Longrightarrow> R i = Some key \<Longrightarrow> utf8_valid (str_bytes i) \<and> length i < 2 ^ 32"
proof -
  assume r: "redb_repr env db C R" "R i = Some key"
  then obtain q where q: "C i = Some q" by (auto simp: redb_repr_def)
  moreover have "sr_id q = i" using r(1) q snapshot_ok_ids by (auto simp: redb_repr_def)
  ultimately show ?thesis using r(1) by (auto simp: redb_repr_def redb_rec_ok_def)
qed

lemma decode_row:
  assumes "redb_repr env db C R" "(k, v) \<in> set (tb_iter (rv_region env) (rb_region db))"
  obtains i key where "R i = Some key" "k = row_of i key" "v = encode_region_value i key"
    "decode_region_value v = Inr (i, rk_min_x key, rk_min_y key, rk_max_x key, rk_max_y key)"
proof -
  obtain i key where i: "R i = Some key" "k = row_of i key" "v = encode_region_value i key"
    using assms by (auto simp: redb_repr_def index_repr_def)
  moreover have "decode_region_value v = Inr (i, rk_min_x key, rk_min_y key, rk_max_x key, rk_max_y key)"
    using stored_id_ok[OF assms(1) i(1)] i(3) by (simp add: region_value_round)
  ultimately show ?thesis by (rule that)
qed

text \<open>The stale rows of an id are the row of its region key.\<close>

lemma stale_rows:
  assumes "redb_repr env db C R"
  shows "\<exists>ks. collect_region_rows_for env (rb_region db) i = Inr ks \<and>
    (\<forall>k. k \<in> set ks \<longleftrightarrow> (\<exists>key. R i = Some key \<and> k = row_of i key))"
proof -
  let ?rows = "tb_iter (rv_region env) (rb_region db)"
  let ?id = "\<lambda>v. case decode_region_value v of Inr (oid, _) \<Rightarrow> oid | Inl _ \<Rightarrow> []"
  have "and_then (decode_region_value v) (\<lambda>(oid, _). Inr (oid, k)) = Inr (?id v, k)"
    if "(k, v) \<in> set ?rows" for k v
    by (rule decode_row[OF assms that]) simp
  then have "try_map (\<lambda>(k, v). and_then (decode_region_value v) (\<lambda>(oid, _). Inr (oid, k))) ?rows =
      Inr (map (\<lambda>(k, v). (?id v, k)) ?rows)"
    by (intro try_map_all) auto
  then have c: "collect_region_rows_for env (rb_region db) i =
      Inr (map snd (filter (\<lambda>(oid, _). oid = i) (map (\<lambda>(k, v). (?id v, k)) ?rows)))"
    by (simp add: collect_region_rows_for_def)
  have "(\<exists>v. (k, v) \<in> set ?rows \<and> ?id v = i) \<longleftrightarrow> (\<exists>key. R i = Some key \<and> k = row_of i key)" for k
  proof
    assume "\<exists>v. (k, v) \<in> set ?rows \<and> ?id v = i"
    then obtain v where v: "(k, v) \<in> set ?rows" "?id v = i" by blast
    show "\<exists>key. R i = Some key \<and> k = row_of i key"
      by (rule decode_row[OF assms v(1)]) (use v(2) in auto)
  next
    assume "\<exists>key. R i = Some key \<and> k = row_of i key"
    then obtain key where key: "R i = Some key" "k = row_of i key" by blast
    then have "(k, encode_region_value i key) \<in> set ?rows"
      using assms by (auto simp: redb_repr_def index_repr_def)
    moreover have "?id (encode_region_value i key) = i"
      using stored_id_ok[OF assms key(1)] by (simp add: region_value_round)
    ultimately show "\<exists>v. (k, v) \<in> set ?rows \<and> ?id v = i" by blast
  qed
  then have "\<forall>k. k \<in> set (map snd (filter (\<lambda>(oid, _). oid = i) (map (\<lambda>(k, v). (?id v, k)) ?rows))) \<longleftrightarrow>
      (\<exists>key. R i = Some key \<and> k = row_of i key)"
    unfolding snd_filter_keyed by simp
  with c show ?thesis by blast
qed

text \<open>Dropping them drops the key of the id.\<close>

lemma drop_stale:
  assumes "redb_repr env db C R" "collect_region_rows_for env (rb_region db) i = Inr ks"
  shows "index_repr (tb_iter (rv_region env) (remove_all_keys (rv_region env) (rb_region db) ks)) (R(i := None))"
proof -
  have ks: "k \<in> set ks \<longleftrightarrow> (\<exists>key. R i = Some key \<and> k = row_of i key)" for k
    using stale_rows[OF assms(1), of i] assms(2) by auto
  let ?rows = "tb_iter (rv_region env) (rb_region db)"
  have mine: "row_of j key \<in> set ks \<longleftrightarrow> j = i" if "R j = Some key" for j key
    using that assms(1) by (auto simp: redb_repr_def row_of_def row_inj ks)
  have "(k, v) \<in> set (filter (\<lambda>e. fst e \<notin> set ks) ?rows) \<longleftrightarrow>
      (\<exists>j key. (R(i := None)) j = Some key \<and> k = row_of j key \<and> v = encode_region_value j key)" for k v
  proof -
    have "(k, v) \<in> set ?rows \<longleftrightarrow> (\<exists>j key. R j = Some key \<and> k = row_of j key \<and> v = encode_region_value j key)"
      using assms(1) by (simp add: redb_repr_def index_repr_def)
    then have "(k, v) \<in> set (filter (\<lambda>e. fst e \<notin> set ks) ?rows) \<longleftrightarrow>
        (\<exists>j key. R j = Some key \<and> k = row_of j key \<and> v = encode_region_value j key \<and> k \<notin> set ks)" by auto
    also have "\<dots> \<longleftrightarrow> (\<exists>j key. R j = Some key \<and> k = row_of j key \<and> v = encode_region_value j key \<and> j \<noteq> i)"
      using mine by (intro ex_cong1) blast
    finally show ?thesis by auto
  qed
  then show ?thesis by (simp add: remove_all_keys_iter[OF region_law] index_repr_def)
qed

lemma main_insert:
  assumes "snapshot_ok sn" "tb_iter (rv_main env) t = map (\<lambda>(i, r). (i, encode_record_value env r)) sn"
  shows "tb_iter (rv_main env) (tb_insert (rv_main env) t (sr_id r) (encode_record_value env r)) =
    map (\<lambda>(i, r). (i, encode_record_value env r)) (bt_insert (sr_id r) r sn)"
proof -
  have "bt_insert k (encode_record_value env r) (map (\<lambda>(i, r). (i, encode_record_value env r)) t) =
      map (\<lambda>(i, r). (i, encode_record_value env r)) (bt_insert k r t)" for k r t
    by (induction k r t rule: bt_insert.induct) auto
  then show ?thesis using assms by (simp add: main)
qed

lemma save_repr:
  assumes "redb_repr env db C R" "redb_rec_ok r"
  shows "redb_repr env (db\<lparr>rb_main := tb_insert (rv_main env) (rb_main db) (sr_id r) (encode_record_value env r)\<rparr>)
    (C(sr_id r \<mapsto> r)) R"
proof -
  obtain sn where sn: "snapshot_ok sn" "bt_get sn = C"
    "tb_iter (rv_main env) (rb_main db) = map (\<lambda>(i, r). (i, encode_record_value env r)) sn"
    using assms(1) by (auto simp: redb_repr_def)
  have "snapshot_ok (bt_insert (sr_id r) r sn)" "bt_get (bt_insert (sr_id r) r sn) = C(sr_id r \<mapsto> r)"
    using sn by simp_all
  with main_insert[OF sn(1,3), of r] assms show ?thesis
    by (fastforce simp: redb_repr_def split: if_splits)
qed

lemma get_law:
  assumes "redb_repr env db C R"
  shows "get_record env db i = ok_or (StorageNotFound i) (C i)"
proof -
  obtain sn where sn: "snapshot_ok sn" "bt_get sn = C"
    "tb_iter (rv_main env) (rb_main db) = map (\<lambda>(i, r). (i, encode_record_value env r)) sn"
    using assms by (auto simp: redb_repr_def)
  have g: "tb_get (rv_main env) (rb_main db) i = map_option (encode_record_value env) (C i)"
    by (simp add: main(2) sn(3) bt_get_def map_of_map sn(2)[symmetric])
  show ?thesis
  proof (cases "C i")
    case (Some r)
    then have "sr_id r = i" "redb_rec_ok r"
      using assms snapshot_ok_ids[OF sn(1)] sn(2) by (auto simp: redb_repr_def)
    then show ?thesis using record_value_round[of r env] unzip_law Some g by (auto simp: get_record_def)
  qed (simp add: get_record_def g)
qed

lemma records_law_redb:
  assumes "redb_repr env db C R"
  shows "\<exists>sn. all_records env db = Inr (map snd sn) \<and> snapshot_ok sn \<and> bt_get sn = C"
proof -
  obtain sn where sn: "snapshot_ok sn" "bt_get sn = C"
    "tb_iter (rv_main env) (rb_main db) = map (\<lambda>(i, r). (i, encode_record_value env r)) sn"
    using assms by (auto simp: redb_repr_def)
  have "decode_record_value env i (encode_record_value env r) = Inr r" if "(i, r) \<in> set sn" for i r
  proof -
    have "C i = Some r" using that sn by (simp add: bt_get_iff[symmetric])
    then have "sr_id r = i" "redb_rec_ok r" using assms snapshot_ok_ids[OF sn(1)] sn(2) by (auto simp: redb_repr_def)
    then show ?thesis using record_value_round[of r env] unzip_law by simp
  qed
  then have "all_records env db = Inr (map snd sn)"
    unfolding all_records_def sn(3)
    by (subst try_map_all[where g = "\<lambda>(k, v). case decode_record_value env k v of Inr r \<Rightarrow> r"])
      (auto simp: o_def case_prod_unfold)
  with sn show ?thesis by blast
qed

lemma delete_repr:
  assumes "redb_repr env db C R" "remove_record env db i = (db', x)"
  shows "x = Inr (C i \<noteq> None) \<and> redb_repr env db' (C(i := None)) (R(i := None))"
proof -
  obtain sn where sn: "snapshot_ok sn" "bt_get sn = C"
    "tb_iter (rv_main env) (rb_main db) = map (\<lambda>(i, r). (i, encode_record_value env r)) sn"
    using assms by (auto simp: redb_repr_def)
  have g: "tb_get (rv_main env) (rb_main db) i = map_option (encode_record_value env) (C i)"
    by (simp add: main(2) sn(3) bt_get_def map_of_map sn(2)[symmetric])
  have m: "tb_iter (rv_main env) (tb_remove (rv_main env) (rb_main db) i) =
      map (\<lambda>(i, r). (i, encode_record_value env r)) (bt_remove i sn)"
    by (simp add: main sn(3) bt_remove_def filter_map o_def case_prod_unfold)
  have sn': "snapshot_ok (bt_remove i sn)" "bt_get (bt_remove i sn) = C(i := None)"
    using sn by simp_all
  obtain ks where ks: "collect_region_rows_for env (rb_region db) i = Inr ks"
    using stale_rows[OF assms(1)] by blast
  show ?thesis
  proof (cases "C i = None")
    case True
    then have "R i = None" using assms(1) by (auto simp: redb_repr_def)
    then have same: "R(i := None) = R" "C(i := None) = C" using True by auto
    have x: "x = Inr False" "db' = db\<lparr>rb_main := tb_remove (rv_main env) (rb_main db) i\<rparr>"
      using assms(2) g True by (auto simp: remove_record_def Let_def)
    have "redb_repr env db' C R" using assms(1) x sn' m same by (auto simp: redb_repr_def)
    then show ?thesis using x True same by simp
  next
    case False
    then have x: "x = Inr True"
      "db' = db\<lparr>rb_main := tb_remove (rv_main env) (rb_main db) i,
        rb_region := remove_all_keys (rv_region env) (rb_region db) ks\<rparr>"
      using assms(2) g ks by (auto simp: remove_record_def Let_def)
    have "dom (R(i := None)) \<subseteq> dom (C(i := None))" using assms(1) by (auto simp: redb_repr_def)
    with False x sn' m drop_stale[OF assms(1) ks] assms(1) show ?thesis
      by (fastforce simp: redb_repr_def split: if_splits)
  qed
qed

lemma index_repr_insert:
  assumes "index_repr rows R" "R i = None" "bt_ok rows" "no_nul (rk_canvas_id key)"
    "\<And>j key. R j = Some key \<Longrightarrow> no_nul (rk_canvas_id key)"
  shows "index_repr (bt_insert (row_of i key) (encode_region_value i key) rows) (R(i \<mapsto> key))"
proof -
  have new: "row_of j key' \<noteq> row_of i key" if "R j = Some key'" for j key'
    using that assms(2,4,5) by (auto simp: row_of_def row_inj)
  let ?new = "bt_insert (row_of i key) (encode_region_value i key) rows"
  have "(k, v) \<in> set ?new \<longleftrightarrow> bt_get ?new k = Some v" for k v
    by (simp only: bt_get_iff[OF bt_insert_ok[OF assms(3)]])
  then have m: "(k, v) \<in> set ?new \<longleftrightarrow> (if k = row_of i key then v = encode_region_value i key else (k, v) \<in> set rows)" for k v
    using bt_get_iff[OF assms(3), of k v] by (auto simp: bt_get_insert[OF assms(3)])
  show ?thesis unfolding index_repr_def m
  proof (intro allI iffI)
    fix k v
    assume "if k = row_of i key then v = encode_region_value i key else (k, v) \<in> set rows"
    then show "\<exists>j key'. (R(i \<mapsto> key)) j = Some key' \<and> k = row_of j key' \<and> v = encode_region_value j key'"
    proof (cases "k = row_of i key")
      case False
      then obtain j key' where j: "R j = Some key'" "k = row_of j key'" "v = encode_region_value j key'"
        using assms(1) \<open>if k = row_of i key then _ else _\<close> by (auto simp: index_repr_def)
      moreover have "j \<noteq> i" using j(1) assms(2) by auto
      ultimately have "(R(i \<mapsto> key)) j = Some key' \<and> k = row_of j key' \<and> v = encode_region_value j key'" by simp
      then show ?thesis by blast
    qed (auto intro: exI[of _ i])
  next
    fix k v
    assume "\<exists>j key'. (R(i \<mapsto> key)) j = Some key' \<and> k = row_of j key' \<and> v = encode_region_value j key'"
    then obtain j key' where j: "(R(i \<mapsto> key)) j = Some key'" "k = row_of j key'" "v = encode_region_value j key'"
      by blast
    show "if k = row_of i key then v = encode_region_value i key else (k, v) \<in> set rows"
    proof (cases "j = i")
      case False
      then have "R j = Some key'" using j(1) by simp
      then show ?thesis using new j assms(1) by (auto simp: index_repr_def)
    qed (use j in simp)
  qed
qed

lemma indexed_repr:
  assumes "redb_repr env db C R" "redb_rec_ok r" "\<And>k. key = Some k \<Longrightarrow> no_nul (rk_canvas_id k)"
    "put_indexed env db r key = (db', x)"
  shows "x = Inr () \<and> redb_repr env db' (C(sr_id r \<mapsto> r)) (R(sr_id r := key))"
proof -
  obtain ks where ks: "collect_region_rows_for env (rb_region db) (sr_id r) = Inr ks"
    using stale_rows[OF assms(1)] by blast
  let ?clean = "remove_all_keys (rv_region env) (rb_region db) ks"
  let ?rg = "case key of None \<Rightarrow> ?clean
    | Some k \<Rightarrow> tb_insert (rv_region env) ?clean (row_of (sr_id r) k) (encode_region_value (sr_id r) k)"
  have db': "x = Inr ()" "db' = db\<lparr>rb_main := tb_insert (rv_main env) (rb_main db) (sr_id r) (encode_record_value env r),
      rb_region := ?rg\<rparr>"
    using assms(4) ks by (auto simp: put_indexed_def Let_def row_of_def split: option.splits)
  have nul: "no_nul (rk_canvas_id k)" if "R j = Some k" for j k
    using that assms(1) by (auto simp: redb_repr_def)
  have "index_repr (tb_iter (rv_region env) ?rg) (R(sr_id r := key))"
  proof (cases key)
    case None
    then show ?thesis using drop_stale[OF assms(1) ks] by simp
  next
    case (Some k)
    have "index_repr (bt_insert (row_of (sr_id r) k) (encode_region_value (sr_id r) k)
        (tb_iter (rv_region env) ?clean)) (R(sr_id r := None, sr_id r \<mapsto> k))"
      by (rule index_repr_insert[OF drop_stale[OF assms(1) ks] fun_upd_same region(1) assms(3)[OF Some]])
        (use nul in \<open>simp split: if_splits\<close>)
    then show ?thesis by (simp only: Some option.case region(3) fun_upd_upd)
  qed
  moreover have "redb_repr env (db\<lparr>rb_main := tb_insert (rv_main env) (rb_main db) (sr_id r) (encode_record_value env r)\<rparr>)
      (C(sr_id r \<mapsto> r)) R"
    by (rule save_repr[OF assms(1,2)])
  moreover have "\<forall>j k. (R(sr_id r := key)) j = Some k \<longrightarrow> no_nul (rk_canvas_id k)" using nul assms(3) by simp
  moreover have "dom (R(sr_id r := key)) \<subseteq> dom (C(sr_id r \<mapsto> r))" using assms(1) by (auto simp: redb_repr_def)
  ultimately show ?thesis using db' by (simp add: redb_repr_def)
qed

lemma list_law_redb:
  assumes "redb_repr env db C R"
  shows "\<exists>is. all_ids env db = Inr is \<and> set is = dom C \<and> sorted_wrt (<) is"
proof -
  obtain sn where sn: "snapshot_ok sn" "bt_get sn = C"
    "tb_iter (rv_main env) (rb_main db) = map (\<lambda>(i, r). (i, encode_record_value env r)) sn"
    using assms by (auto simp: redb_repr_def)
  then have "map fst (tb_iter (rv_main env) (rb_main db)) = bt_keys sn"
    by (simp add: bt_keys_def o_def case_prod_unfold)
  then show ?thesis using sn snapshot_ok_bt[OF sn(1)]
    by (simp add: all_ids_def bt_keys_dom bt_ok_def bt_keys_def[symmetric])
qed

text \<open>A list in id order builds the snapshot it came from.\<close>

lemma snapshot_of_records:
  assumes "snapshot_ok sn"
  shows "snapshot_from_records (map snd sn) = sn"
proof -
  have last: "bt_insert k v t = t @ [(k, v)]" if "\<forall>e \<in> set t. fst e < k" for k :: str and v :: store_record and t
    using that by (induction k v t rule: bt_insert.induct) auto
  have "foldl (\<lambda>sn r. fst (snapshot_insert sn r)) p (map snd q) = p @ q"
    if "snapshot_ok (p @ q)" for p q
    using that
  proof (induction q arbitrary: p)
    case (Cons e q)
    have e: "sr_id (snd e) = fst e" "\<forall>d \<in> set p. fst d < fst e"
      using Cons.prems by (cases e; auto simp: snapshot_ok_def bt_ok_def sorted_wrt_append)+
    then have "fst (snapshot_insert p (snd e)) = p @ [e]"
      by (cases e) (simp add: snapshot_insert_def last)
    with Cons.IH[of "p @ [e]"] Cons.prems show ?case by simp
  qed simp
  from this[of "[]" sn] assms show ?thesis by (simp add: snapshot_from_records_def)
qed

lemma replace_repr:
  assumes "redb_repr env db C R" "snapshot_ok sn" "\<forall>r \<in> snd ` set sn. redb_rec_ok r"
    "replace_all env db sn = (db', x)"
  shows "x = Inr () \<and> redb_repr env db' (bt_get sn) Map.empty"
proof -
  let ?enc = "\<lambda>(i, r). (i, encode_record_value env r)"
  define emptied where
    "emptied = remove_all_keys (rv_main env) (rb_main db) (map fst (tb_iter (rv_main env) (rb_main db)))"
  let ?region = "remove_all_keys (rv_region env) (rb_region db) (map fst (tb_iter (rv_region env) (rb_region db)))"
  let ?fill = "\<lambda>t. foldl (\<lambda>t r. tb_insert (rv_main env) t (sr_id r) (encode_record_value env r)) t"
  have none: "tb_iter (rv_main env) emptied = []" "tb_iter (rv_region env) ?region = []"
    unfolding emptied_def remove_all_keys_iter[OF main_law] remove_all_keys_iter[OF region_law] by auto
  have fill: "tb_iter (rv_main env) (?fill t rs) = map ?enc (foldl (\<lambda>sn r. fst (snapshot_insert sn r)) p rs)"
    if "tb_iter (rv_main env) t = map ?enc p" "snapshot_ok p" for t p rs
    using that
  proof (induction rs arbitrary: t p)
    case (Cons r rs)
    have "tb_iter (rv_main env) (tb_insert (rv_main env) t (sr_id r) (encode_record_value env r)) =
        map ?enc (bt_insert (sr_id r) r p)"
      by (rule main_insert[OF Cons.prems(2,1)])
    from Cons.IH[OF this] Cons.prems(2) show ?case by (simp add: snapshot_insert_def)
  qed simp
  have m: "tb_iter (rv_main env) (?fill emptied (snapshot_records sn)) = map ?enc sn"
    using fill[of emptied "[]" "snapshot_records sn"] none(1) snapshot_of_records[OF assms(2)]
    by (simp add: snapshot_from_records_def snapshot_records_def)
  have ok: "redb_rec_ok r" if "bt_get sn i = Some r" for i r
    using assms(3) that snapshot_ok_bt[OF assms(2)] by (force simp: bt_get_iff)
  have "x = Inr ()" "db' = db\<lparr>rb_main := ?fill emptied (snapshot_records sn), rb_region := ?region\<rparr>"
    using assms(4) by (simp_all add: replace_all_def Let_def emptied_def)
  then show ?thesis using m none(2) ok assms(2) by (auto simp: redb_repr_def index_repr_def)
qed

text \<open>The rows of a scan.\<close>

lemma scan_rows_of:
  assumes "redb_repr env db C R" "no_nul canvas"
  shows "(k, v) \<in> set (tb_range (rv_region env) (rb_region db)
      (region_scan_start canvas lo) (region_scan_end_excl canvas hi)) \<longleftrightarrow>
    (\<exists>i key. R i = Some key \<and> k = row_of i key \<and> v = encode_region_value i key \<and>
       rk_canvas_id key = canvas \<and> lo \<le> centre_code key \<and> centre_code key \<le> hi)"
proof -
  have "(k, v) \<in> set (tb_iter (rv_region env) (rb_region db)) \<longleftrightarrow>
      (\<exists>i key. R i = Some key \<and> k = row_of i key \<and> v = encode_region_value i key)"
    using assms(1) by (simp add: redb_repr_def index_repr_def)
  moreover have "region_scan_start canvas lo \<le> row_of i key \<and> row_of i key < region_scan_end_excl canvas hi \<longleftrightarrow>
      rk_canvas_id key = canvas \<and> lo \<le> centre_code key \<and> centre_code key \<le> hi" if "R i = Some key" for i key
    using scan_rows_canvas[OF assms(2), of "rk_canvas_id key" lo "centre_code key" i hi] that assms(1)
    by (auto simp: redb_repr_def row_of_def)
  ultimately show ?thesis unfolding region(5) by (simp only: set_filter mem_Collect_eq case_prod_conv) blast
qed

lemma query_law_redb:
  assumes "redb_repr env db C R" "no_nul canvas"
  shows "\<exists>rs. region_query env db canvas win = Inr rs \<and> sorted_wrt (<) (map sr_id rs) \<and>
    set rs = {r. \<exists>i key. C i = Some r \<and> R i = Some key \<and> region_matches canvas win key \<and> seen_by_scan win key}"
proof -
  obtain lo hi where b: "scan_bounds win = (lo, hi)" by (cases "scan_bounds win")
  let ?range = "tb_range (rv_region env) (rb_region db) (region_scan_start canvas lo) (region_scan_end_excl canvas hi)"
  let ?dec = "\<lambda>v. case decode_region_value v of Inr c \<Rightarrow> c | Inl _ \<Rightarrow> undefined"
  let ?win = "\<lambda>b. case win of Some w \<Rightarrow> window_overlaps w b | None \<Rightarrow> True"
  have dec: "decode_region_value v = Inr (?dec v)" if mem: "(k, v) \<in> set ?range" for k v
  proof -
    obtain i key where "R i = Some key" "v = encode_region_value i key"
      using mem scan_rows_of[OF assms, of k v lo hi] by blast
    then show ?thesis using stored_id_ok[OF assms(1), of i key] by (simp add: region_value_round)
  qed
  define cands where "cands = map (\<lambda>(_, v). ?dec v) ?range"
  have c: "try_map (\<lambda>(_, v). decode_region_value v) ?range = Inr cands"
    unfolding cands_def by (rule try_map_all) (use dec in auto)
  define ids where "ids = dedup (sort (map fst (filter (\<lambda>(_, b). ?win b) cands)))"
  have hit: "i \<in> set ids \<longleftrightarrow> (\<exists>key. R i = Some key \<and> region_matches canvas win key \<and> seen_by_scan win key)" for i
  proof -
    have "i \<in> set ids \<longleftrightarrow> (\<exists>k v. (k, v) \<in> set ?range \<and> fst (?dec v) = i \<and> ?win (snd (?dec v)))"
      unfolding ids_def cands_def dedup_set set_sort fst_filter_mapped by simp
    also have "\<dots> \<longleftrightarrow> (\<exists>key. R i = Some key \<and> rk_canvas_id key = canvas \<and> lo \<le> centre_code key \<and>
        centre_code key \<le> hi \<and> ?win (rk_min_x key, rk_min_y key, rk_max_x key, rk_max_y key))"
    proof -
      have d: "?dec (encode_region_value j key) = (j, rk_min_x key, rk_min_y key, rk_max_x key, rk_max_y key)"
        if "R j = Some key" for j key
        using stored_id_ok[OF assms(1) that] by (simp add: region_value_round)
      have "(\<exists>k v. (k, v) \<in> set ?range \<and> fst (?dec v) = i \<and> ?win (snd (?dec v))) \<longleftrightarrow>
          (\<exists>j key. R j = Some key \<and> rk_canvas_id key = canvas \<and> lo \<le> centre_code key \<and> centre_code key \<le> hi \<and>
             fst (?dec (encode_region_value j key)) = i \<and> ?win (snd (?dec (encode_region_value j key))))"
        unfolding scan_rows_of[OF assms] by blast
      also have "\<dots> \<longleftrightarrow> (\<exists>key. R i = Some key \<and> rk_canvas_id key = canvas \<and> lo \<le> centre_code key \<and>
          centre_code key \<le> hi \<and> ?win (rk_min_x key, rk_min_y key, rk_max_x key, rk_max_y key))"
      proof -
        have "(R j = Some key \<and> rk_canvas_id key = canvas \<and> lo \<le> centre_code key \<and> centre_code key \<le> hi \<and>
             fst (?dec (encode_region_value j key)) = i \<and> ?win (snd (?dec (encode_region_value j key)))) \<longleftrightarrow>
          (j = i \<and> R i = Some key \<and> rk_canvas_id key = canvas \<and> lo \<le> centre_code key \<and> centre_code key \<le> hi \<and>
             ?win (rk_min_x key, rk_min_y key, rk_max_x key, rk_max_y key))" for j key
          using d[of j key] by (cases "R j = Some key"; cases win) auto
        then show ?thesis by simp
      qed
      finally show ?thesis .
    qed
    also have "\<dots> \<longleftrightarrow> (\<exists>key. R i = Some key \<and> region_matches canvas win key \<and> seen_by_scan win key)"
      by (intro ex_cong1) (auto simp: region_matches_def seen_by_scan_def b window_overlaps_def bbox_overlaps_def
          split: option.splits)
    finally show ?thesis .
  qed
  obtain sn where sn: "snapshot_ok sn" "bt_get sn = C"
    "tb_iter (rv_main env) (rb_main db) = map (\<lambda>(i, r). (i, encode_record_value env r)) sn"
    using assms(1) by (auto simp: redb_repr_def)
  have g: "tb_get (rv_main env) (rb_main db) i = map_option (encode_record_value env) (C i)" for i
    by (simp add: main(2) sn(3) bt_get_def map_of_map sn(2)[symmetric])
  have rec: "sr_id r = i \<and> redb_rec_ok r" if "C i = Some r" for i r
    using assms(1) snapshot_ok_ids[OF sn(1)] sn(2) that by (auto simp: redb_repr_def)
  have in_C: "\<exists>r. C i = Some r" if "i \<in> set ids" for i
  proof -
    from that obtain key where "R i = Some key" by (auto simp: hit)
    then have "i \<in> dom C" using assms(1) by (auto simp: redb_repr_def)
    then show ?thesis by auto
  qed
  have found: "List.map_filter (\<lambda>i. map_option (Pair i) (tb_get (rv_main env) (rb_main db) i)) is =
      map (\<lambda>i. (i, encode_record_value env (the (C i)))) is" if "set is \<subseteq> set ids" for "is"
    using that
  proof (induction "is")
    case (Cons i "is")
    then show ?case using in_C[of i] by (auto simp: List.map_filter_simps g)
  qed (simp add: List.map_filter_simps)
  have "try_map (\<lambda>(i, v). decode_record_value env i v)
      (map (\<lambda>i. (i, encode_record_value env (the (C i)))) ids) = Inr (map (\<lambda>i. the (C i)) ids)"
  proof -
    have "decode_record_value env i (encode_record_value env (the (C i))) = Inr (the (C i))" if "i \<in> set ids" for i
      using in_C[OF that] rec[of i] record_value_round[of "the (C i)" env] unzip_law by fastforce
    then show ?thesis by (induction ids) auto
  qed
  then have "region_query env db canvas win = Inr (map (\<lambda>i. the (C i)) ids)"
    by (simp add: region_query_def b c found flip: ids_def)
  moreover have "map sr_id (map (\<lambda>i. the (C i)) ids) = ids"
    using in_C rec by (fastforce simp: map_idI)
  then have "sorted_wrt (<) (map sr_id (map (\<lambda>i. the (C i)) ids))"
    by (simp only: ids_def dedup_strict sorted_sort)
  moreover have "set (map (\<lambda>i. the (C i)) ids) =
      {r. \<exists>i key. C i = Some r \<and> R i = Some key \<and> region_matches canvas win key \<and> seen_by_scan win key}"
    using in_C by (force simp: hit)
  ultimately show ?thesis by blast
qed

end

text \<open>The adapter is a store for every engine that keeps its laws.\<close>

sublocale redb_engine \<subseteq> redb_store: spatial_store "redb_ops env" redb_rec_ok "\<lambda>_. True" "redb_repr env" no_nul seen_by_scan
proof
  fix a C R and r :: store_record and a' x
  assume "redb_repr env a C R" "redb_rec_ok r" "so_save (redb_ops env) a r = (a', x)"
  then show "x = Inr () \<and> redb_repr env a' (C(sr_id r \<mapsto> r)) R"
    using save_repr by (auto simp: redb_ops_def put_record_def)
next
  fix a C R i a' x
  assume "redb_repr env a C R" "so_delete (redb_ops env) a i = (a', x)"
  then show "x = Inr (C i \<noteq> None) \<and> redb_repr env a' (C(i := None)) (R(i := None))"
    using delete_repr by (simp add: redb_ops_def)
next
  fix a C R sn a' x
  assume "redb_repr env a C R" "snapshot_ok sn" "\<forall>r \<in> snd ` set sn. redb_rec_ok r"
    "so_restore (redb_ops env) a sn = (a', x)"
  then show "x = Inr () \<and> redb_repr env a' (bt_get sn) Map.empty"
    using replace_repr by (simp add: redb_ops_def)
next
  fix a C R i r
  assume "redb_repr env a C R" "C i = Some r"
  then show "sr_id r = i \<and> redb_rec_ok r" using snapshot_ok_ids by (auto simp: redb_repr_def)
next
  fix a C R
  assume "redb_repr env a C R"
  from records_law_redb[OF this]
  show "\<exists>sn. so_snapshot (redb_ops env) a = Inr sn \<and> snapshot_ok sn \<and> bt_get sn = C"
    using snapshot_of_records by (auto simp: redb_ops_def redb_snapshot_def)
next
  fix a C R r key a' x
  assume "redb_repr env a C R" "redb_rec_ok r" "\<And>k. key = Some k \<Longrightarrow> no_nul (rk_canvas_id k)"
    "so_save_indexed (redb_ops env) a r key = (a', x)"
  then show "x = Inr () \<and> redb_repr env a' (C(sr_id r \<mapsto> r)) (R(sr_id r := key))"
    by (intro indexed_repr) (auto simp: redb_ops_def)
qed (use get_law list_law_redb records_law_redb query_law_redb in \<open>auto simp: redb_ops_def\<close>)

section \<open>An engine on red-black trees\<close>

text \<open>The laws can be kept: tables as search trees, and a compressor that always gives up.\<close>

definition tree_table :: "(('k::linorder, bytes) RBT.rbt, 'k) table_api" where
  "tree_table = \<lparr>tb_get = RBT.lookup, tb_insert = (\<lambda>t k v. RBT.insert k v t), tb_remove = (\<lambda>t k. RBT.delete k t),
     tb_iter = RBT.entries, tb_range = (\<lambda>t lo hi. filter (\<lambda>(k, _). lo \<le> k \<and> k < hi) (RBT.entries t))\<rparr>"

lemma tree_entries_ok: "bt_ok (RBT.entries t)"
  by (simp add: bt_ok_def strict_sorted_iff RBT.sorted_entries RBT.distinct_entries)

lemma tree_entries_get: "bt_get (RBT.entries t) = RBT.lookup t"
  by (simp add: bt_get_def fun_eq_iff RBT.map_of_entries)

lemma tree_table_law: "table_law tree_table"
  unfolding table_law_def
  by (auto simp: tree_table_def tree_entries_ok tree_entries_get intro!: bt_eqI)

definition tree_env :: "((str, bytes) RBT.rbt, (bytes, bytes) RBT.rbt) redb_env" where
  "tree_env = \<lparr>rv_main = tree_table, rv_region = tree_table, rv_zip = (\<lambda>_. None),
     rv_unzip = (\<lambda>_. Inl ''unsupported frame'')\<rparr>"

definition tree_db :: "((str, bytes) RBT.rbt, (bytes, bytes) RBT.rbt) redb_db" where
  "tree_db = \<lparr>rb_main = RBT.empty, rb_region = RBT.empty\<rparr>"

interpretation tree_redb: redb_engine tree_env
  by unfold_locales (simp_all add: tree_env_def tree_table_law)

lemma tree_entries_empty: "RBT.entries RBT.empty = []"
  by (rule bt_eqI) (auto simp: tree_entries_ok tree_entries_get fun_eq_iff)

lemma tree_db_repr: "redb_repr tree_env tree_db Map.empty Map.empty"
  by (auto simp: redb_repr_def tree_env_def tree_table_def tree_db_def index_repr_def tree_entries_empty
      intro!: exI[of _ "[]"])

section \<open>The adapter as a canvas store\<close>

text \<open>
  A canvas on the key-value adapter, the store the server runs on (\<open>SharedStore\<close> of
  \<open>canvas_actor.rs\<close>): the laws of the object store and of the actor hold for it, for every
  canvas id without a zero byte.
\<close>

section \<open>Record ids the adapter can frame\<close>

definition redb_id_ok :: "str \<Rightarrow> bool" where
  "redb_id_ok i \<longleftrightarrow> utf8_valid (str_bytes i) \<and> length i < 2 ^ 32"

definition redb_canvas_ok :: "str \<Rightarrow> bool" where
  "redb_canvas_ok canvas \<longleftrightarrow> no_nul canvas \<and> redb_id_ok (canvas_record_id canvas)"

lemma record_kinds_utf8:
  "k \<in> {kind_object, kind_canvas, ''journal''} \<Longrightarrow> utf8_valid (str_bytes k) \<and> length k < 2 ^ 32"
proof -
  have "utf8_valid (str_bytes ''object'')" "utf8_valid (str_bytes ''canvas'')" "utf8_valid (str_bytes ''journal'')"
    by code_simp+
  then show "k \<in> {kind_object, kind_canvas, ''journal''} \<Longrightarrow> utf8_valid (str_bytes k) \<and> length k < 2 ^ 32"
    by (auto simp: kind_object_def kind_canvas_def)
qed

locale redb_canvas = redb_engine env
  for env :: "('m, 'r) redb_env" +
  fixes canvas :: str
  assumes canvas_ok: "redb_canvas_ok canvas"

sublocale redb_canvas \<subseteq> canvas_store "redb_ops env" redb_rec_ok "\<lambda>_. True" "redb_repr env" no_nul seen_by_scan
    canvas redb_id_ok
  using canvas_ok record_kinds_utf8
  by unfold_locales (simp_all add: redb_canvas_ok_def redb_rec_ok_def redb_id_ok_def)

context redb_engine begin

lemma as_spatial:
  "spatial_store (redb_ops env) redb_rec_ok (\<lambda>_. True) (redb_repr env) no_nul seen_by_scan"
  by (rule redb_store.spatial_store_axioms)

end

context redb_canvas begin

lemma as_store:
  "canvas_store (redb_ops env) redb_rec_ok (\<lambda>_. True) (redb_repr env) no_nul seen_by_scan canvas redb_id_ok"
  by (rule canvas_store_axioms)

end

lemmas redb_spatial_store = redb_engine.as_spatial

lemma redb_canvas_store:
  assumes "redb_engine env" "redb_canvas_ok canvas"
  shows "canvas_store (redb_ops env) redb_rec_ok (\<lambda>_. True) (redb_repr env) no_nul seen_by_scan canvas redb_id_ok"
proof -
  have "redb_canvas env canvas" using assms by (simp add: redb_canvas_def redb_canvas_axioms_def)
  then show ?thesis by (rule redb_canvas.as_store)
qed

text \<open>On search trees.\<close>

lemma plain_canvas_ok: "redb_canvas_ok ''c''"
proof -
  have "utf8_valid (str_bytes ''c:canvas'')" "no_nul ''c''" by code_simp+
  then show ?thesis by (simp add: redb_canvas_ok_def redb_id_ok_def canvas_record_id_def kind_canvas_def)
qed

interpretation tree_canvas: redb_canvas tree_env "''c''"
  by unfold_locales (rule plain_canvas_ok)

end
