(* ===== verification/Server_Samples.thy ===== *)
theory Server_Samples
  imports Redb_Laws Samples
begin

text \<open>
  Concrete values for the witnesses of the server: a JSON codec that reads back what one
  canvas holds, an envelope that inserts the drawing \<open>b\<close>, and the actor before and after it.
\<close>

definition sample_insert :: op_envelope where
  "sample_insert = \<lparr>en_op_id = \<lparr>si_client_id = ''u'', si_local_seq = 1\<rparr>, en_base_revision = 0, en_ts = [],
     en_op = InsertObject object_b\<rparr>"

definition sample_entry :: journal_entry where
  "sample_entry = \<lparr>je_seq = 1, je_op_id = Some (en_op_id sample_insert), je_base_revision = 0,
     je_op = InsertObject object_b\<rparr>"

text \<open>An object's text stands for \<open>b\<close>, a scene's for its version, an entry's for the insertion.\<close>

definition sample_codec :: journal_codec where
  "sample_codec =
     \<lparr>sj_write_object = (\<lambda>_. []), sj_read_object = (\<lambda>_. Inr (at_rest object_b)),
      sj_write_meta = (\<lambda>m. be_bytes 8 (cm_scene_version m)),
      sj_read_meta = (\<lambda>p. Inr (meta_default\<lparr>cm_scene_version := of_nat (be_value p)\<rparr>)),
      sj_write_entry = (\<lambda>_. []), sj_read_entry = (\<lambda>_. Inr sample_entry)\<rparr>"

definition scene_with_b :: scene where
  "scene_with_b = scene_default\<lparr>objects := [object_b], scene_version := 1\<rparr>"

lemma meta_reads_back: "tags sc = [] \<Longrightarrow> selection sc = SelCanvas \<Longrightarrow> updated_at sc = [] \<Longrightarrow>
  sj_read_meta sample_codec (sj_write_meta sample_codec (meta_of_scene sc)) = Inr (meta_of_scene sc)"
  by (simp add: sample_codec_def meta_of_scene_def meta_default_def be_bytes_round)

lemma sample_reads_back: "reads_back sample_codec scene_default" "reads_back sample_codec scene_with_b"
  "entry_reads_back sample_codec sample_entry"
  by (simp_all add: reads_back_def meta_reads_back scene_default_def scene_with_b_def entry_reads_back_def)
    (simp_all add: sample_codec_def)

lemma insert_b: "apply_object_op lm scene_default (InsertObject object_b) = (scene_with_b, Inr (Delete ''b''))"
proof -
  have "object_ensure_parsed object_b = Inr object_b"
    by (simp add: object_ensure_parsed_def geometry_ensure_parsed_def)
  moreover have "validate_geometry two_contours = Inr ()"
    using two_contours_ok by (simp add: geometry_ok_def)
  ultimately show ?thesis
    by (simp add: apply_object_op_iff apply_insert_def guarded_def has_object_def scene_default_def scene_with_b_def
        with_version_def parsed_def checked_def)
qed

lemma insert_b_ok: "op_ok (InsertObject object_b)" "edits_own (InsertObject object_b)"
  using two_contours_ok by (simp_all add: geometry_in_def geometry_ok_def validate_geometry_def)

lemma sample_ids_ok:
  "redb_id_ok (object_record_id ''c'' ''b'')" "redb_id_ok (journal_record_id ''c'' 1)"
proof -
  have "utf8_valid (str_bytes ''c:object:b'')" "utf8_valid (str_bytes ''c:journal:1'')" "show_int (sint (1 :: i64)) = ''1''"
    by code_simp+
  then show "redb_id_ok (object_record_id ''c'' ''b'')" "redb_id_ok (journal_record_id ''c'' 1)"
    by (simp_all add: redb_id_ok_def object_record_id_def kind_object_def journal_record_id_def)
qed

text \<open>An actor on an empty database, and the one after the envelope.\<close>

lemma tree_engine: "redb_engine tree_env"
  by (rule tree_redb.redb_engine_axioms)

lemma sample_start:
  "\<exists>ca. durable (redb_repr tree_env) sample_codec ''c'' ca scene_default [] \<and> ca_seq ca = 0"
  using spatial_store.fresh_law[OF redb_spatial_store[OF tree_engine] tree_db_repr sample_reads_back(1)] by (auto simp: seq_no_def)

lemma durable_fresh_ids: "durable repr cd canvas ca sc [] \<Longrightarrow> dedup_seen (ca_dedup ca) i = None"
  using tracks_seen[of "ca_dedup ca" "[]" i] by (cases "dedup_seen (ca_dedup ca) i") (auto simp: durable_def)

lemma sample_accepted:
  "\<exists>ca. durable (redb_repr tree_env) sample_codec ''c'' ca scene_with_b [sample_entry] \<and> ca_seq ca = 1"
proof -
  obtain ca where ca: "durable (redb_repr tree_env) sample_codec ''c'' ca scene_default []" "ca_seq ca = 0"
    using sample_start by blast
  have "\<exists>ca'. handle_apply zero_libm (redb_ops tree_env) sample_codec (InsertObject object_b) 0
      (Some (en_op_id sample_insert)) [] ca =
      (ca', [\<lparr>pb_seq = ca_seq ca + 1, pb_op = InsertObject object_b, pb_scene = scene_with_b, pb_author = Some []\<rparr>],
       Inr (Applied (ca_seq ca + 1) (ca_seq ca + 1))) \<and>
    ca_seq ca' = ca_seq ca + 1 \<and> durable (redb_repr tree_env) sample_codec ''c'' ca' scene_with_b ([] @ [sample_entry])"
    using ca(2) sample_ids_ok sample_reads_back insert_b_ok
    by (intro tree_canvas.accepted_step[OF ca(1) _ insert_b])
      (simp_all add: durable_fresh_ids[OF ca(1)] writes_through_def, simp add: sample_entry_def)
  then show ?thesis using ca(2) by auto
qed

section \<open>A region whose centre is outside a window inside it\<close>

text \<open>The box from (10, 10) to (110, 110) and the window from (90, 90) to (95, 95).\<close>

definition wide_key :: region_key where
  "wide_key = \<lparr>rk_canvas_id = ''c'', rk_min_x = 0x4024000000000000, rk_min_y = 0x4024000000000000,
     rk_max_x = 0x405B800000000000, rk_max_y = 0x405B800000000000\<rparr>"

definition inner_window :: bbox where
  "inner_window = (0x4056800000000000, 0x4056800000000000, 0x4057C00000000000, 0x4057C00000000000)"

lemma wide_centre: "f_div (f_add 0x4024000000000000 0x405B800000000000) (f_of_int 2) = 0x404E000000000000"
  by code_simp

lemma wide_axes:
  "world_to_axis 0x404E000000000000 = 0x8000003C" "world_to_axis 0x4056800000000000 = 0x8000005A"
  "world_to_axis 0x4057C00000000000 = 0x8000005F"
  by code_simp+

lemma wide_key_matches: "region_matches ''c'' (Some inner_window) wide_key"
  by code_simp

lemma wide_key_unseen: "\<not> seen_by_scan (Some inner_window) wide_key"
proof -
  have "morton_encode 0x8000003C 0x8000003C < morton_encode 0x8000005A 0x8000005A"
    "morton_encode 0x8000003C 0x8000003C < morton_encode 0x8000005F 0x8000005F"
    by code_simp+
  then show ?thesis
    by (auto simp: seen_by_scan_def scan_bounds_def inner_window_def wide_key_def centre_code_def Let_def
        morton_range_def morton_of_world_def wide_centre wide_axes min_def)
qed

lemma wide_saved:
  assumes "redb_engine env" "redb_repr env db Map.empty Map.empty" "redb_rec_ok r"
    "so_save_indexed (redb_ops env) db r (Some wide_key) = (db', x)"
  shows "x = Inr () \<and> redb_repr env db' (Map.empty(sr_id r \<mapsto> r)) (Map.empty(sr_id r := Some wide_key))"
proof -
  have "no_nul (rk_canvas_id wide_key)" by code_simp
  then show ?thesis
    by (intro spatial_store.save_indexed_law[OF redb_spatial_store[OF assms(1)] assms(2,3) TrueI _ assms(4)]) simp
qed

definition wide_record :: store_record where
  "wide_record = \<lparr>sr_id = ''c:object:b'', sr_kind = kind_object, sr_version = 1, sr_payload = []\<rparr>"

lemma wide_record_ok: "redb_rec_ok wide_record"
proof -
  have "utf8_valid (str_bytes ''c:object:b'')" "utf8_valid (str_bytes ''object'')" by code_simp+
  then show ?thesis by (simp add: redb_rec_ok_def wide_record_def kind_object_def)
qed

end
