(* ===== verification/Bundle.thy ===== *)
theory Bundle
  imports Storage Decimal
begin

text \<open>
  The portable bundle (\<open>storage-core/src/format.rs\<close>): shards of framed records under a
  CRC-32, the streaming export and import, the rewrite of one shard, and the merging cursor.
  A bundle directory is a map from file names to contents, and its files can be read and
  written; the JSON of the manifest is a parameter (\<open>bundle_env\<close>). The value None stands for
  the panic of \<open>field_len\<close> on a length of four gigabytes.
\<close>

unbundle bit_operations_syntax

type_synonym dir = "str \<rightharpoonup> bytes"

record shard_entry =
  sh_index :: u32
  sh_records :: u32
  sh_crc32 :: u32

record manifest =
  mf_format_version :: "16 word"
  mf_total_records :: u64
  mf_shard_count :: u32
  mf_shards :: "shard_entry list"

text \<open>\<open>be_path\<close> displays the path of a file of the bundle, \<open>be_missing\<close> is the error of opening a missing one.\<close>

record bundle_env =
  be_to_json :: "manifest \<Rightarrow> str + bytes"
  be_from_json :: "bytes \<Rightarrow> str + manifest"
  be_path :: "str \<Rightarrow> str"
  be_missing :: str

definition format_version :: "16 word" where "format_version = 1"
definition default_shard_count :: u32 where "default_shard_count = 8"
definition copy_chunk :: nat where "copy_chunk = 16384"
definition manifest_name :: str where "manifest_name = ''manifest.json''"
definition shard_magic :: bytes where "shard_magic = str_bytes ''SHPSHARD''"

definition pad5 :: "str \<Rightarrow> str" where
  "pad5 s = replicate (5 - length s) (CHR ''0'') @ s"

definition shard_file_name :: "u32 \<Rightarrow> str" where
  "shard_file_name index = ''shard-'' @ pad5 (show_nat (unat index)) @ ''.bin''"

definition shard_body_tmp_name :: "u32 \<Rightarrow> str" where
  "shard_body_tmp_name index = ''shard-'' @ pad5 (show_nat (unat index)) @ ''.bin.body''"

section \<open>Shards of ids, checksums\<close>

definition shard_of :: "str \<Rightarrow> u32 \<Rightarrow> u32" where
  "shard_of i n =
     (let hash = foldl (\<lambda>h b. (h XOR of_nat (byte b)) * 0x00000100000001b3) 0xcbf29ce484222325 i :: u64
      in ucast (hash mod ucast n))"

text \<open>The body of the inner loop, one bit.\<close>

definition crc_bit :: "u32 \<Rightarrow> u32" where
  "crc_bit crc = drop_bit 1 crc XOR (0xedb88320 AND (- (crc AND 1)))"

definition crc_byte :: "u32 \<Rightarrow> 8 word \<Rightarrow> u32" where
  "crc_byte crc b = (crc_bit ^^ 8) (crc XOR ucast b)"

definition crc_new :: u32 where "crc_new = 0xffffffff"

definition crc_update :: "u32 \<Rightarrow> bytes \<Rightarrow> u32" where
  "crc_update crc bs = foldl crc_byte crc bs"

definition crc_value :: "u32 \<Rightarrow> u32" where
  "crc_value crc = NOT crc"

section \<open>Frames\<close>

definition field_len :: "nat \<Rightarrow> u32 option" where
  "field_len n = (if n < 2 ^ 32 then Some (of_nat n) else None)"

definition encode_record_frame :: "store_record \<Rightarrow> bytes option" where
  "encode_record_frame r =
     Option.bind (field_len (length (sr_id r))) (\<lambda>il.
     Option.bind (field_len (length (sr_kind r))) (\<lambda>kl.
     Option.bind (field_len (length (sr_payload r))) (\<lambda>pl.
     Some (le_bytes 4 il @ str_bytes (sr_id r) @ le_bytes 4 kl @ str_bytes (sr_kind r) @
           le_bytes 8 (sr_version r) @ le_bytes 4 pl @ sr_payload r))))"

definition shard_header :: "u32 \<Rightarrow> bytes" where
  "shard_header count = shard_magic @ le_bytes 2 format_version @ le_bytes 4 count"

section \<open>Export\<close>

definition starts_with :: "str \<Rightarrow> str \<Rightarrow> bool" where
  "starts_with p s \<longleftrightarrow> take (length p) s = p"

definition ends_with :: "str \<Rightarrow> str \<Rightarrow> bool" where
  "ends_with p s \<longleftrightarrow> length p \<le> length s \<and> drop (length s - length p) s = p"

definition clear_stale_shards :: "dir \<Rightarrow> dir" where
  "clear_stale_shards d =
     (\<lambda>name. if starts_with ''shard-'' name \<and> (ends_with ''.bin'' name \<or> ends_with ''.bin.body'' name)
             then None else d name)"

definition create_bodies :: "u32 \<Rightarrow> dir \<Rightarrow> dir" where
  "create_bodies n d = foldl (\<lambda>d index. d(shard_body_tmp_name (of_nat index) \<mapsto> [])) d [0..<unat n]"

definition append_file :: "str \<Rightarrow> bytes \<Rightarrow> dir \<Rightarrow> dir" where
  "append_file name bs d = (case d name of None \<Rightarrow> d | Some old \<Rightarrow> d(name \<mapsto> old @ bs))"

text \<open>The loop over the cursor: the directory, the counts and the total, or the error that ends it.\<close>

fun write_bodies ::
    "u32 \<Rightarrow> (storage_error + store_record) list \<Rightarrow> dir \<Rightarrow> (u32 \<Rightarrow> u32) \<Rightarrow> u64 \<Rightarrow>
     (dir \<times> (storage_error + (u32 \<Rightarrow> u32) \<times> u64)) option" where
  "write_bodies n [] d counts tot = Some (d, Inr (counts, tot))"
| "write_bodies n (Inl e # items) d counts tot = Some (d, Inl e)"
| "write_bodies n (Inr r # items) d counts tot =
     (let idx = shard_of (sr_id r) n in
      Option.bind (encode_record_frame r) (\<lambda>frame.
      let d' = append_file (shard_body_tmp_name idx) frame d in
      if counts idx = 0xffffffff
      then Some (d', Inl (StorageFormat (''shard '' @ show_nat (unat idx) @ '' record count exceeds u32::MAX'')))
      else write_bodies n items d' (counts(idx := counts idx + 1)) (tot + 1)))"

text \<open>The copy loop of \<open>finalize_shard\<close>: chunk by chunk into the output and the checksum.\<close>

function copy_loop :: "bytes \<Rightarrow> bytes \<Rightarrow> u32 \<Rightarrow> bytes \<times> u32" where
  "copy_loop body out crc =
     (if body = [] then (out, crc)
      else copy_loop (drop copy_chunk body) (out @ take copy_chunk body) (crc_update crc (take copy_chunk body)))"
  by pat_completeness auto
termination by (relation "measure (\<lambda>(body, _, _). length body)") (auto simp: copy_chunk_def)

declare copy_loop.simps [simp del]

definition finalize_shard :: "dir \<Rightarrow> u32 \<Rightarrow> u32 \<Rightarrow> dir \<times> shard_entry" where
  "finalize_shard d index count =
     (let header = shard_header count;
          body = (case d (shard_body_tmp_name index) of Some b \<Rightarrow> b | None \<Rightarrow> []);
          (out, crc) = copy_loop body header (crc_update crc_new header)
      in (d(shard_file_name index \<mapsto> out, shard_body_tmp_name index := None),
          \<lparr>sh_index = index, sh_records = count, sh_crc32 = crc_value crc\<rparr>))"

fun finalize_all :: "(u32 \<Rightarrow> u32) \<Rightarrow> nat list \<Rightarrow> dir \<Rightarrow> dir \<times> shard_entry list" where
  "finalize_all counts [] d = (d, [])"
| "finalize_all counts (i # is) d =
     (let (d1, e) = finalize_shard d (of_nat i) (counts (of_nat i));
          (d2, es) = finalize_all counts is d1
      in (d2, e # es))"

definition write_manifest :: "bundle_env \<Rightarrow> dir \<Rightarrow> manifest \<Rightarrow> dir \<times> (storage_error + unit)" where
  "write_manifest env d m =
     (case be_to_json env m of
        Inl e \<Rightarrow> (d, Inl (StorageSerde e))
      | Inr json \<Rightarrow> (d(manifest_name \<mapsto> json), Inr ()))"

definition export_stream ::
    "bundle_env \<Rightarrow> (storage_error + store_record) list \<Rightarrow> dir \<Rightarrow> u32 \<Rightarrow>
     (dir \<times> (storage_error + manifest)) option" where
  "export_stream env records root shard_count =
     (let n = max shard_count 1;
          d0 = create_bodies n (clear_stale_shards root)
      in Option.bind (write_bodies n records d0 (\<lambda>_. 0) 0) (\<lambda>(d1, res).
         case res of
           Inl e \<Rightarrow> Some (d1, Inl e)
         | Inr (counts, tot) \<Rightarrow>
             let (d2, shards) = finalize_all counts [0..<unat n] d1;
                 m = \<lparr>mf_format_version = format_version, mf_total_records = tot, mf_shard_count = n,
                      mf_shards = sort_key sh_index shards\<rparr>;
                 (d3, w) = write_manifest env d2 m
             in Some (d3, and_then w (\<lambda>_. Inr m))))"

definition export_bundle ::
    "bundle_env \<Rightarrow> store_snapshot \<Rightarrow> dir \<Rightarrow> u32 \<Rightarrow> (dir \<times> (storage_error + manifest)) option" where
  "export_bundle env sn root n = export_stream env (map Inr (snapshot_records sn)) root n"

section \<open>Reading a shard\<close>

text \<open>A reader is the bytes that are left and the checksum of those consumed.\<close>

type_synonym reader = "bytes \<times> u32"

definition rd_new :: "bytes \<Rightarrow> reader" where
  "rd_new bs = (bs, crc_new)"

definition rd_take :: "nat \<Rightarrow> reader \<Rightarrow> storage_error + bytes \<times> reader" where
  "rd_take n rd =
     (case rd of (rest, crc) \<Rightarrow>
        if n \<le> length rest then Inr (take n rest, drop n rest, crc_update crc (take n rest))
        else Inl (StorageFormat ''unexpected end of shard''))"

definition rd_u16 :: "reader \<Rightarrow> storage_error + 16 word \<times> reader" where
  "rd_u16 rd = and_then (rd_take 2 rd) (\<lambda>(b, rd). Inr (of_nat (le_nat b), rd))"

definition rd_u32 :: "reader \<Rightarrow> storage_error + u32 \<times> reader" where
  "rd_u32 rd = and_then (rd_take 4 rd) (\<lambda>(b, rd). Inr (of_nat (le_nat b), rd))"

definition rd_u64 :: "reader \<Rightarrow> storage_error + u64 \<times> reader" where
  "rd_u64 rd = and_then (rd_take 8 rd) (\<lambda>(b, rd). Inr (of_nat (le_nat b), rd))"

definition rd_string :: "nat \<Rightarrow> reader \<Rightarrow> storage_error + str \<times> reader" where
  "rd_string n rd = and_then (rd_take n rd) (\<lambda>(b, rd).
     and_then (map_err (\<lambda>e. StorageFormat (''invalid utf-8: '' @ e)) (from_utf8 b)) (\<lambda>s. Inr (s, rd)))"

definition rd_record :: "reader \<Rightarrow> storage_error + store_record \<times> reader" where
  "rd_record rd0 =
     and_then (rd_u32 rd0) (\<lambda>(id_len, rd1).
     and_then (rd_string (unat id_len) rd1) (\<lambda>(i, rd2).
     and_then (rd_u32 rd2) (\<lambda>(kind_len, rd3).
     and_then (rd_string (unat kind_len) rd3) (\<lambda>(kind, rd4).
     and_then (rd_u64 rd4) (\<lambda>(version, rd5).
     and_then (rd_u32 rd5) (\<lambda>(payload_len, rd6).
     and_then (rd_take (unat payload_len) rd6) (\<lambda>(payload, rd7).
     Inr (\<lparr>sr_id = i, sr_kind = kind, sr_version = version, sr_payload = payload\<rparr>, rd7))))))))"

definition rd_expect_eof :: "reader \<Rightarrow> storage_error + unit" where
  "rd_expect_eof rd = (if fst rd = [] then Inr () else Inl (StorageFormat ''trailing bytes in shard''))"

definition open_file :: "bundle_env \<Rightarrow> dir \<Rightarrow> str \<Rightarrow> storage_error + bytes" where
  "open_file env d name =
     ok_or (StorageIo (''reading '' @ be_path env name @ '': '' @ be_missing env)) (d name)"

definition crc_mismatch :: "shard_entry \<Rightarrow> storage_error" where
  "crc_mismatch entry =
     StorageFormat (''shard '' @ show_nat (unat (sh_index entry)) @ '' crc mismatch (corrupt or tampered)'')"

text \<open>The header that \<open>stream_shard\<close> and \<open>ShardStream::open\<close> check; the count that follows it.\<close>

definition rd_header :: "reader \<Rightarrow> storage_error + u32 \<times> reader" where
  "rd_header rd0 =
     and_then (rd_take 8 rd0) (\<lambda>(magic, rd1).
     if magic \<noteq> shard_magic then Inl (StorageFormat ''bad shard magic'')
     else and_then (rd_u16 rd1) (\<lambda>(version, rd2).
     if version \<noteq> format_version
     then Inl (StorageFormat (''unsupported shard version '' @ show_nat (unat version) @ '' (expected 1)''))
     else rd_u32 rd2))"

section \<open>Streaming import\<close>

text \<open>A sink threads its own state.\<close>

type_synonym 's sink = "'s \<Rightarrow> store_record \<Rightarrow> 's \<times> (storage_error + unit)"

fun sink_records :: "'s sink \<Rightarrow> nat \<Rightarrow> reader \<Rightarrow> 's \<Rightarrow> 's \<times> (storage_error + reader)" where
  "sink_records sink 0 rd s = (s, Inr rd)"
| "sink_records sink (Suc n) rd s =
     (case rd_record rd of
        Inl e \<Rightarrow> (s, Inl e)
      | Inr (r, rd') \<Rightarrow>
          (case sink s r of
             (s', Inl e) \<Rightarrow> (s', Inl e)
           | (s', Inr ()) \<Rightarrow> sink_records sink n rd' s'))"

definition stream_shard ::
    "bundle_env \<Rightarrow> dir \<Rightarrow> shard_entry \<Rightarrow> 's sink \<Rightarrow> 's \<Rightarrow> 's \<times> (storage_error + u32)" where
  "stream_shard env d entry sink s =
     (case and_then (open_file env d (shard_file_name (sh_index entry))) (\<lambda>bs. rd_header (rd_new bs)) of
        Inl e \<Rightarrow> (s, Inl e)
      | Inr (count, rd) \<Rightarrow>
          (case sink_records sink (unat count) rd s of
             (s', Inl e) \<Rightarrow> (s', Inl e)
           | (s', Inr rd') \<Rightarrow>
               (s', and_then (rd_expect_eof rd') (\<lambda>_.
                    if crc_value (snd rd') \<noteq> sh_crc32 entry then Inl (crc_mismatch entry) else Inr count))))"

definition read_manifest :: "bundle_env \<Rightarrow> dir \<Rightarrow> storage_error + manifest" where
  "read_manifest env d =
     and_then (open_file env d manifest_name) (\<lambda>json.
     and_then (map_err StorageSerde (be_from_json env json)) (\<lambda>m.
     if mf_format_version m \<noteq> format_version
     then Inl (StorageFormat (''unsupported bundle version '' @ show_nat (unat (mf_format_version m)) @ '' (expected 1)''))
     else Inr m))"

fun import_shards ::
    "bundle_env \<Rightarrow> dir \<Rightarrow> shard_entry list \<Rightarrow> 's sink \<Rightarrow> 's \<Rightarrow> u64 \<Rightarrow> 's \<times> (storage_error + u64)" where
  "import_shards env d [] sink s tot = (s, Inr tot)"
| "import_shards env d (entry # es) sink s tot =
     (case stream_shard env d entry sink s of
        (s', Inl e) \<Rightarrow> (s', Inl e)
      | (s', Inr decoded) \<Rightarrow>
          if decoded \<noteq> sh_records entry
          then (s', Inl (StorageFormat (''shard '' @ show_nat (unat (sh_index entry)) @
                  '' record count mismatch: manifest '' @ show_nat (unat (sh_records entry)) @
                  '' vs decoded '' @ show_nat (unat decoded))))
          else import_shards env d es sink s' (tot + ucast decoded))"

definition import_stream :: "bundle_env \<Rightarrow> dir \<Rightarrow> 's sink \<Rightarrow> 's \<Rightarrow> 's \<times> (storage_error + manifest)" where
  "import_stream env d sink s =
     (case read_manifest env d of
        Inl e \<Rightarrow> (s, Inl e)
      | Inr m \<Rightarrow>
          (case import_shards env d (mf_shards m) sink s 0 of
             (s', Inl e) \<Rightarrow> (s', Inl e)
           | (s', Inr tot) \<Rightarrow>
               if tot \<noteq> mf_total_records m
               then (s', Inl (StorageFormat (''total record count mismatch: manifest '' @
                       show_nat (unat (mf_total_records m)) @ '' vs imported '' @ show_nat (unat tot))))
               else (s', Inr m)))"

definition snapshot_sink :: "store_snapshot sink" where
  "snapshot_sink sn r = (fst (snapshot_insert sn r), Inr ())"

definition import_bundle :: "bundle_env \<Rightarrow> dir \<Rightarrow> storage_error + store_snapshot" where
  "import_bundle env d =
     (case import_stream env d snapshot_sink [] of
        (_, Inl e) \<Rightarrow> Inl e
      | (sn, Inr _) \<Rightarrow> Inr sn)"

section \<open>One shard\<close>

definition shard_index_of :: "str \<Rightarrow> u32 \<Rightarrow> u32" where
  "shard_index_of i n = shard_of i (max n 1)"

definition manifest_of :: "bundle_env \<Rightarrow> dir \<Rightarrow> storage_error + manifest" where
  "manifest_of env d = read_manifest env d"

definition push_sink :: "store_record list sink" where
  "push_sink rs r = (rs @ [r], Inr ())"

definition shard_missing :: "u32 \<Rightarrow> storage_error" where
  "shard_missing index = StorageFormat (''shard '' @ show_nat (unat index) @ '' missing from manifest'')"

definition read_shard_records :: "bundle_env \<Rightarrow> dir \<Rightarrow> u32 \<Rightarrow> storage_error + store_record list" where
  "read_shard_records env d index =
     and_then (read_manifest env d) (\<lambda>m.
     and_then (ok_or (shard_missing index) (find (\<lambda>e. sh_index e = index) (mf_shards m))) (\<lambda>entry.
     (case stream_shard env d entry push_sink [] of
        (_, Inl e) \<Rightarrow> Inl e
      | (out, Inr _) \<Rightarrow> Inr out)))"

fun write_frames :: "store_record list \<Rightarrow> bytes \<Rightarrow> u32 \<Rightarrow> (bytes \<times> u32) option" where
  "write_frames [] out crc = Some (out, crc)"
| "write_frames (r # rs) out crc =
     Option.bind (encode_record_frame r) (\<lambda>frame. write_frames rs (out @ frame) (crc_update crc frame))"

text \<open>\<open>find\<close> on a mutable iterator and the assignment to the entry it finds.\<close>

fun patch_entry :: "u32 \<Rightarrow> u32 \<Rightarrow> u32 \<Rightarrow> shard_entry list \<Rightarrow> shard_entry list option" where
  "patch_entry index records crc [] = None"
| "patch_entry index records crc (e # es) =
     (if sh_index e = index then Some (e\<lparr>sh_records := records, sh_crc32 := crc\<rparr> # es)
      else map_option (Cons e) (patch_entry index records crc es))"

definition rewrite_shard ::
    "bundle_env \<Rightarrow> dir \<Rightarrow> u32 \<Rightarrow> u32 \<Rightarrow> (store_record list \<Rightarrow> store_record list) \<Rightarrow>
     (dir \<times> (storage_error + unit)) option" where
  "rewrite_shard env d shard_count index mutate =
     (case and_then (read_manifest env d) (\<lambda>m. and_then (read_shard_records env d index) (\<lambda>rs. Inr (m, rs))) of
        Inl e \<Rightarrow> Some (d, Inl e)
      | Inr (m, before) \<Rightarrow>
          let records = sort_key sr_id (mutate before) in
          Option.bind (field_len (length records)) (\<lambda>n.
          let header = shard_header n in
          Option.bind (write_frames records header (crc_update crc_new header)) (\<lambda>(out, crc).
          let d1 = d(shard_file_name index \<mapsto> out) in
          case patch_entry index n (crc_value crc) (mf_shards m) of
            None \<Rightarrow> Some (d1, Inl (shard_missing index))
          | Some es \<Rightarrow>
              Some (write_manifest env d1
                (m\<lparr>mf_shards := es, mf_shard_count := max shard_count 1,
                   mf_total_records := mf_total_records m + of_nat (length records) - of_nat (length before)\<rparr>)))))"

section \<open>The merging cursor\<close>

record shard_stream =
  ss_reader :: reader
  ss_entry :: shard_entry
  ss_remaining :: nat

definition shard_open :: "bundle_env \<Rightarrow> dir \<Rightarrow> shard_entry \<Rightarrow> storage_error + shard_stream" where
  "shard_open env d entry =
     and_then (open_file env d (shard_file_name (sh_index entry))) (\<lambda>bs.
     and_then (rd_header (rd_new bs)) (\<lambda>(count, rd).
     Inr \<lparr>ss_reader = rd, ss_entry = entry, ss_remaining = unat count\<rparr>))"

definition next_record :: "shard_stream \<Rightarrow> shard_stream \<times> (storage_error + store_record option)" where
  "next_record ss =
     (if ss_remaining ss = 0
      then (ss, and_then (rd_expect_eof (ss_reader ss)) (\<lambda>_.
                if crc_value (snd (ss_reader ss)) \<noteq> sh_crc32 (ss_entry ss)
                then Inl (crc_mismatch (ss_entry ss)) else Inr None))
      else case rd_record (ss_reader ss) of
             Inl e \<Rightarrow> (ss, Inl e)
           | Inr (r, rd) \<Rightarrow> (ss\<lparr>ss_reader := rd, ss_remaining := ss_remaining ss - 1\<rparr>, Inr (Some r)))"

record bundle_cursor =
  bc_shards :: "shard_stream list"
  bc_fronts :: "store_record option list"

fun prime :: "shard_stream list \<Rightarrow> storage_error + shard_stream list \<times> store_record option list" where
  "prime [] = Inr ([], [])"
| "prime (ss # sss) =
     (case next_record ss of
        (_, Inl e) \<Rightarrow> Inl e
      | (ss', Inr front) \<Rightarrow> and_then (prime sss) (\<lambda>(sss', fronts). Inr (ss' # sss', front # fronts)))"

definition stream_bundle :: "bundle_env \<Rightarrow> dir \<Rightarrow> storage_error + bundle_cursor" where
  "stream_bundle env d =
     and_then (read_manifest env d) (\<lambda>m.
     and_then (try_map (shard_open env d) (mf_shards m)) (\<lambda>sss.
     and_then (prime sss) (\<lambda>(sss', fronts). Inr \<lparr>bc_shards = sss', bc_fronts = fronts\<rparr>)))"

text \<open>The loop over the fronts; the first of several with the smallest id wins.\<close>

definition best_front :: "store_record option list \<Rightarrow> nat option" where
  "best_front fronts =
     foldl (\<lambda>best i. case fronts ! i of
         None \<Rightarrow> best
       | Some r \<Rightarrow> (case best of
             None \<Rightarrow> Some i
           | Some b \<Rightarrow> if sr_id r < sr_id (the (fronts ! b)) then Some i else Some b)) None [0..<length fronts]"

text \<open>\<open>next\<close>: the item, if any, and the cursor after it.\<close>

definition cursor_next :: "bundle_cursor \<Rightarrow> bundle_cursor \<times> (storage_error + store_record) option" where
  "cursor_next c =
     (case best_front (bc_fronts c) of
        None \<Rightarrow> (c, None)
      | Some idx \<Rightarrow>
          let record = the (bc_fronts c ! idx);
              (ss, res) = next_record (bc_shards c ! idx)
          in (case res of
                Inr front \<Rightarrow>
                  (c\<lparr>bc_shards := (bc_shards c)[idx := ss], bc_fronts := (bc_fronts c)[idx := front]\<rparr>, Some (Inr record))
              | Inl e \<Rightarrow>
                  (c\<lparr>bc_shards := (bc_shards c)[idx := ss], bc_fronts := (bc_fronts c)[idx := None]\<rparr>, Some (Inl e))))"

text \<open>What the cursor yields until it is exhausted; \<open>cursor_size\<close> shrinks with every item.\<close>

definition cursor_size :: "bundle_cursor \<Rightarrow> nat" where
  "cursor_size c = sum_list (map ss_remaining (bc_shards c)) + length (filter (\<lambda>f. f \<noteq> None) (bc_fronts c))"

fun cursor_items :: "nat \<Rightarrow> bundle_cursor \<Rightarrow> (storage_error + store_record) list" where
  "cursor_items 0 c = []"
| "cursor_items (Suc n) c =
     (case cursor_next c of
        (_, None) \<Rightarrow> []
      | (c', Some item) \<Rightarrow> item # cursor_items n c')"

definition cursor_all :: "bundle_cursor \<Rightarrow> (storage_error + store_record) list" where
  "cursor_all c = cursor_items (cursor_size c) c"

end
