(* ===== verification/Bundle_Laws.thy ===== *)
theory Bundle_Laws
  imports Bundle
begin

text \<open>
  The checksum of a bundle, the names of its files, and the round trip of its frames.
\<close>

unbundle bit_operations_syntax

section \<open>The checksum\<close>

text \<open>The top bit tells which branch a step took, so a step can be undone.\<close>

lemma crc_mask: "- (x AND 1) = (if bit x 0 then - 1 else (0 :: u32))"
  by (auto simp: and_one_eq bit_0 odd_iff_mod_2_eq_one even_iff_mod_2_eq_zero)

lemma crc_bit_if: "crc_bit x = drop_bit 1 x XOR (if bit x 0 then 0xedb88320 else 0)"
  by (simp add: crc_bit_def crc_mask)

lemma word_bit_31: "bit (0xedb88320 :: u32) 31"
  by simp

lemma bit_drop_1: "bit (drop_bit 1 x) i = bit x (Suc i)" for x :: u32
  by (simp only: bit_drop_bit_eq comp_def) simp

lemma no_bit_32: "\<not> bit (x :: u32) 32"
  using bit_imp_le_length[of x 32] by auto

lemma crc_bit_top: "bit (crc_bit x) 31 = bit x 0"
  unfolding crc_bit_if bit_xor_iff bit_drop_1 using no_bit_32[of x] word_bit_31 by simp

lemma crc_bit_inj: "crc_bit x = crc_bit y \<longleftrightarrow> x = y"
proof
  assume e: "crc_bit x = crc_bit y"
  have low: "bit x 0 = bit y 0" using e crc_bit_top by metis
  let ?m = "if bit x 0 then 0xedb88320 else 0 :: u32"
  have "(drop_bit 1 x XOR ?m) XOR ?m = (drop_bit 1 y XOR ?m) XOR ?m"
    using e low unfolding crc_bit_if by simp
  then have "drop_bit 1 x = drop_bit 1 y" by (simp only: xor.assoc xor_self_eq xor.right_neutral)
  then have up: "bit x (Suc i) = bit y (Suc i)" for i by (simp only: bit_drop_1[symmetric])
  show "x = y"
  proof (rule bit_word_eqI)
    fix i show "bit x i = bit y i" using low up by (cases i) simp_all
  qed
qed simp

lemma crc_bits_inj: "(crc_bit ^^ n) x = (crc_bit ^^ n) y \<longleftrightarrow> x = y"
  by (induction n arbitrary: x y) (simp_all add: crc_bit_inj)

lemma crc_byte_state_inj: "crc_byte x b = crc_byte y b \<longleftrightarrow> x = y"
proof -
  have "x XOR c = y XOR c \<longleftrightarrow> x = y" for c :: u32
    by (metis xor.assoc xor_self_eq xor.right_neutral)
  then show ?thesis by (simp only: crc_byte_def crc_bits_inj)
qed

lemma crc_byte_inj: "crc_byte x a = crc_byte x b \<longleftrightarrow> a = b"
proof -
  have "x XOR c = x XOR d \<longleftrightarrow> c = d" for c d :: u32
    by (metis xor.assoc xor_self_eq xor.left_neutral)
  moreover have "(ucast a :: u32) = ucast b \<longleftrightarrow> a = b"
    by (simp add: word_unat_eq_iff unsigned_ucast_eq take_bit_nat_eq_self
        order.strict_trans2[OF unsigned_less[where 'a = nat and 'b = 8]])
  ultimately show ?thesis by (simp only: crc_byte_def crc_bits_inj)
qed

lemma crc_update_append: "crc_update c (xs @ ys) = crc_update (crc_update c xs) ys"
  by (simp add: crc_update_def)

lemma crc_update_state_inj: "crc_update x bs = crc_update y bs \<longleftrightarrow> x = y"
  by (induction bs arbitrary: x y) (simp_all add: crc_update_def crc_byte_state_inj)

text \<open>A changed byte changes the checksum.\<close>

lemma crc_one_byte:
  assumes "i < length bs" "bs ! i \<noteq> b"
  shows "crc_value (crc_update crc_new (bs[i := b])) \<noteq> crc_value (crc_update crc_new bs)"
proof -
  have s: "bs = take i bs @ bs ! i # drop (Suc i) bs" using assms(1) by (rule id_take_nth_drop)
  have t: "bs[i := b] = take i bs @ b # drop (Suc i) bs" using assms(1) by (rule upd_conv_take_nth_drop)
  have "crc_update crc_new (bs[i := b]) = crc_update crc_new bs \<longleftrightarrow>
      crc_byte (crc_update crc_new (take i bs)) b = crc_byte (crc_update crc_new (take i bs)) (bs ! i)"
    unfolding t by (subst (2) s) (simp add: crc_update_append crc_update_def[of _ "_ # _"]
        flip: crc_update_def, simp add: crc_update_state_inj)
  then show ?thesis using assms(2) by (simp add: crc_byte_inj crc_value_def)
qed

text \<open>Chunking the copy does not change what is written or checked.\<close>

lemma copy_loop_all: "copy_loop body out crc = (out @ body, crc_update crc body)"
proof (induction body out crc rule: copy_loop.induct)
  case (1 body out crc)
  then show ?case
    by (subst copy_loop.simps)
      (simp add: crc_update_append[symmetric], simp add: crc_update_def)
qed

section \<open>File names\<close>

definition dec_value :: "str \<Rightarrow> nat" where
  "dec_value s = foldl (\<lambda>a c. 10 * a + (byte c - 48)) 0 s"

lemma dec_value_show: "dec_value (show_nat n) = n"
proof (induction n rule: show_nat.induct)
  case (1 n)
  show ?case
  proof (cases "n < 10")
    case True
    then show ?thesis by (simp add: show_nat.simps[of n] dec_value_def byte_digit_char)
  next
    case False
    have d: "dec_value (xs @ [c]) = 10 * dec_value xs + (byte c - 48)" for xs c
      by (simp add: dec_value_def)
    show ?thesis using False 1 by (subst show_nat.simps) (simp add: d byte_digit_char)
  qed
qed

lemma dec_value_zeros: "dec_value (replicate n (CHR ''0'') @ s) = dec_value s"
  by (induction n) (simp_all add: dec_value_def)

lemma dec_value_pad5: "dec_value (pad5 (show_nat n)) = n"
  by (simp add: pad5_def dec_value_zeros dec_value_show)

lemma shard_file_name_inj [simp]: "shard_file_name i = shard_file_name j \<longleftrightarrow> i = j"
proof
  assume "shard_file_name i = shard_file_name j"
  then have "pad5 (show_nat (unat i)) = pad5 (show_nat (unat j))" by (simp add: shard_file_name_def)
  then show "i = j" by (metis dec_value_pad5 word_unat_eq_iff)
qed simp

lemma body_name_inj [simp]: "shard_body_tmp_name i = shard_body_tmp_name j \<longleftrightarrow> i = j"
proof
  assume "shard_body_tmp_name i = shard_body_tmp_name j"
  then have "pad5 (show_nat (unat i)) = pad5 (show_nat (unat j))" by (simp add: shard_body_tmp_name_def)
  then show "i = j" by (metis dec_value_pad5 word_unat_eq_iff)
qed simp

lemma names_differ [simp]:
  "shard_file_name i \<noteq> shard_body_tmp_name j" "shard_body_tmp_name j \<noteq> shard_file_name i"
  "shard_file_name i \<noteq> manifest_name" "manifest_name \<noteq> shard_file_name i"
  "shard_body_tmp_name i \<noteq> manifest_name" "manifest_name \<noteq> shard_body_tmp_name i"
proof -
  have "last (shard_file_name i) \<noteq> last (shard_body_tmp_name j)"
    by (simp add: shard_file_name_def shard_body_tmp_name_def)
  then show "shard_file_name i \<noteq> shard_body_tmp_name j" "shard_body_tmp_name j \<noteq> shard_file_name i" by auto
qed (simp_all add: shard_file_name_def shard_body_tmp_name_def manifest_name_def)

section \<open>Reading frames\<close>

definition rec_fits :: "store_record \<Rightarrow> bool" where
  "rec_fits r \<longleftrightarrow> utf8_valid (str_bytes (sr_id r)) \<and> length (sr_id r) < 2 ^ 32 \<and>
     utf8_valid (str_bytes (sr_kind r)) \<and> length (sr_kind r) < 2 ^ 32 \<and> length (sr_payload r) < 2 ^ 32"

definition frame_of :: "store_record \<Rightarrow> bytes" where
  "frame_of r = the (encode_record_frame r)"

definition body_of :: "store_record list \<Rightarrow> bytes" where
  "body_of rs = concat (map frame_of rs)"

definition shard_bytes :: "store_record list \<Rightarrow> bytes" where
  "shard_bytes rs = shard_header (of_nat (length rs)) @ body_of rs"

definition entry_of :: "u32 \<Rightarrow> store_record list \<Rightarrow> shard_entry" where
  "entry_of i rs = \<lparr>sh_index = i, sh_records = of_nat (length rs),
     sh_crc32 = crc_value (crc_update crc_new (shard_bytes rs))\<rparr>"

lemma frame_of_fits: "rec_fits r \<Longrightarrow> encode_record_frame r = Some (frame_of r)"
  by (simp add: rec_fits_def frame_of_def encode_record_frame_def field_len_def)

lemma rd_take_append [simp]: "n = length a \<Longrightarrow> rd_take n (a @ b, c) = Inr (a, b, crc_update c a)"
  by (simp add: rd_take_def)

lemma rd_u16_bytes [simp]: "rd_u16 (le_bytes 2 (w :: 16 word) @ b, c) = Inr (w, b, crc_update c (le_bytes 2 w))"
  by (simp add: rd_u16_def le_bytes_round)

lemma rd_u32_bytes [simp]: "rd_u32 (le_bytes 4 (w :: u32) @ b, c) = Inr (w, b, crc_update c (le_bytes 4 w))"
  by (simp add: rd_u32_def le_bytes_round)

lemma rd_u64_bytes [simp]: "rd_u64 (le_bytes 8 (w :: u64) @ b, c) = Inr (w, b, crc_update c (le_bytes 8 w))"
  by (simp add: rd_u64_def le_bytes_round)

lemma rd_string_bytes [simp]:
  "n = length s \<Longrightarrow> utf8_valid (str_bytes s) \<Longrightarrow>
   rd_string n (str_bytes s @ b, c) = Inr (s, b, crc_update c (str_bytes s))"
  by (simp add: rd_string_def)

lemma rd_record_frame:
  assumes "rec_fits r"
  shows "rd_record (frame_of r @ rest, c) = Inr (r, rest, crc_update c (frame_of r))"
proof -
  have f: "frame_of r = le_bytes 4 (of_nat (length (sr_id r)) :: u32) @ str_bytes (sr_id r) @
      le_bytes 4 (of_nat (length (sr_kind r)) :: u32) @ str_bytes (sr_kind r) @
      le_bytes 8 (sr_version r) @ le_bytes 4 (of_nat (length (sr_payload r)) :: u32) @ sr_payload r"
    using assms by (simp add: frame_of_def encode_record_frame_def field_len_def rec_fits_def)
  show ?thesis using assms unfolding f
    by (cases r) (simp add: rd_record_def rec_fits_def unat_of_nat crc_update_append)
qed

lemma rd_header_bytes [simp]:
  "rd_header (shard_header n @ b, c) = Inr (n, b, crc_update c (shard_header n))"
  by (simp add: rd_header_def shard_header_def shard_magic_def[THEN arg_cong, of length] crc_update_append)

text \<open>A sink that never fails.\<close>

definition total_sink :: "('s \<Rightarrow> store_record \<Rightarrow> 's) \<Rightarrow> 's sink" where
  "total_sink f s r = (f s r, Inr ())"

lemma sinks_total: "push_sink = total_sink (\<lambda>rs r. rs @ [r])"
  "snapshot_sink = total_sink (\<lambda>sn r. fst (snapshot_insert sn r))"
  by (simp_all add: fun_eq_iff total_sink_def push_sink_def snapshot_sink_def)

lemma sink_records_frames:
  "\<forall>r \<in> set rs. rec_fits r \<Longrightarrow> sink_records (total_sink f) (length rs) (body_of rs @ rest, c) s =
     (foldl f s rs, Inr (rest, crc_update c (body_of rs)))"
proof (induction rs arbitrary: c s)
  case Nil
  then show ?case by (simp add: body_of_def crc_update_def)
next
  case (Cons r rs)
  then show ?case by (simp add: body_of_def rd_record_frame total_sink_def crc_update_append split: unit.splits)
qed

lemma stream_shard_bytes:
  assumes "\<forall>r \<in> set rs. rec_fits r" "length rs < 2 ^ 32" "d (shard_file_name i) = Some (shard_bytes rs)"
  shows "stream_shard env d (entry_of i rs) (total_sink f) s = (foldl f s rs, Inr (of_nat (length rs)))"
  using assms sink_records_frames[OF assms(1), of f "[]"]
  by (simp add: stream_shard_def entry_of_def open_file_def shard_bytes_def rd_new_def rd_expect_eof_def
      unat_of_nat crc_update_append)

lemma import_shards_bytes:
  assumes "\<forall>i \<in> set is. (\<forall>r \<in> set (parts i). rec_fits r) \<and> length (parts i) < 2 ^ 32 \<and>
    d (shard_file_name i) = Some (shard_bytes (parts i))"
  shows "import_shards env d (map (\<lambda>i. entry_of i (parts i)) is) (total_sink f) s t =
    (foldl f s (concat (map parts is)), Inr (t + of_nat (length (concat (map parts is)))))"
  using assms
proof (induction "is" arbitrary: s t)
  case (Cons i "is")
  then have l: "length (parts i) < 2 ^ 32" by simp
  have e: "sh_records (entry_of i (parts i)) = of_nat (length (parts i))" by (simp add: entry_of_def)
  have u: "(ucast (of_nat (length (parts i)) :: u32) :: u64) = of_nat (length (parts i))"
    using l by (simp add: word_unat_eq_iff unsigned_ucast_eq unat_of_nat take_bit_nat_eq_self)
  from Cons e u stream_shard_bytes[of "parts i" d i env f s] show ?case by simp
qed simp

section \<open>Laws of the bundle\<close>

text \<open>
  What reading a well-formed bundle gives. A bundle of a list of records holds in each shard
  the records of that shard, in the order of the list.
\<close>

unbundle bit_operations_syntax

section \<open>A well-formed bundle\<close>

definition shard_part :: "u32 \<Rightarrow> store_record list \<Rightarrow> u32 \<Rightarrow> store_record list" where
  "shard_part n rs i = filter (\<lambda>r. shard_of (sr_id r) n = i) rs"

definition shard_ids :: "u32 \<Rightarrow> u32 list" where
  "shard_ids n = map of_nat [0..<unat n]"

definition manifest_for :: "u32 \<Rightarrow> store_record list \<Rightarrow> manifest" where
  "manifest_for n rs = \<lparr>mf_format_version = format_version, mf_total_records = of_nat (length rs),
     mf_shard_count = n, mf_shards = map (\<lambda>i. entry_of i (shard_part n rs i)) (shard_ids n)\<rparr>"

text \<open>What the parameters promise: the manifest's JSON reads back.\<close>

definition json_law :: "bundle_env \<Rightarrow> bool" where
  "json_law env \<longleftrightarrow> (\<forall>m. \<exists>json. be_to_json env m = Inr json \<and> be_from_json env json = Inr m)"

definition bundle_of :: "bundle_env \<Rightarrow> dir \<Rightarrow> u32 \<Rightarrow> store_record list \<Rightarrow> bool" where
  "bundle_of env d n rs \<longleftrightarrow> 1 \<le> n \<and>
     (\<exists>json. d manifest_name = Some json \<and> be_from_json env json = Inr (manifest_for n rs)) \<and>
     (\<forall>i < n. d (shard_file_name i) = Some (shard_bytes (shard_part n rs i)))"

lemma shard_ids_set: "set (shard_ids n) = {..<n}"
proof -
  have "i \<in> set (shard_ids n) \<longleftrightarrow> i < n" for i
  proof
    assume "i < n"
    then have "i = of_nat (unat i)" "unat i < unat n" by (simp_all add: word_less_nat_alt)
    then show "i \<in> set (shard_ids n)" unfolding shard_ids_def by (metis atLeastLessThan_iff imageI le0 set_map set_upt)
  next
    assume "i \<in> set (shard_ids n)"
    then obtain k where k: "i = of_nat k" "k < unat n" by (auto simp: shard_ids_def)
    moreover have "unat n < 2 ^ LENGTH(32)" by (rule unsigned_less)
    ultimately show "i < n" by (simp add: word_less_nat_alt unat_of_nat)
  qed
  then show ?thesis by auto
qed

lemma shard_ids_distinct: "distinct (shard_ids n)"
proof -
  have "unat n < 2 ^ LENGTH(32)" by (rule unsigned_less)
  then have "inj_on (of_nat :: nat \<Rightarrow> u32) (set [0..<unat n])"
    by (intro inj_onI) (simp add: word_unat_eq_iff unat_of_nat)
  then show ?thesis by (simp add: shard_ids_def distinct_map)
qed

lemma shard_of_less: "1 \<le> n \<Longrightarrow> shard_of i n < n"
proof -
  assume n: "1 \<le> n"
  define h :: "str \<Rightarrow> u64" where
    "h s = foldl (\<lambda>h b. (h XOR of_nat (byte b)) * 0x00000100000001b3) 0xcbf29ce484222325 s" for s
  have "unat (1 :: u32) \<le> unat n" using n by (simp only: word_le_nat_alt)
  then have p: "0 < unat n" by (simp del: unat_gt_0)
  have lt: "unat n < 2 ^ LENGTH(32)" by (rule unsigned_less)
  have un: "unat (ucast n :: u64) = unat n"
    using lt by (simp add: unsigned_ucast_eq take_bit_nat_eq_self)
  have "unat (h i mod ucast n) = unat (h i) mod unat n" by (simp add: unat_mod un)
  moreover have "unat (h i) mod unat n < unat n" using p by simp
  ultimately have "unat (shard_of i n) < unat n"
    using lt by (simp add: shard_of_def Let_def flip: h_def) (simp add: unsigned_ucast_eq take_bit_nat_eq_self)
  then show ?thesis by (simp add: word_less_nat_alt)
qed

text \<open>The parts are a partition.\<close>

lemma parts_set: "1 \<le> n \<Longrightarrow> set (concat (map (shard_part n rs) (shard_ids n))) = set rs"
  using shard_of_less by (auto simp: shard_part_def shard_ids_set)

lemma parts_distinct:
  assumes "distinct (map sr_id rs)"
  shows "distinct (map sr_id (concat (map (shard_part n rs) (shard_ids n))))"
proof -
  have "distinct (map sr_id (concat (map (shard_part n rs) is)))" if "distinct is" for "is"
    using that assms by (induction "is") (auto simp: shard_part_def distinct_map_filter)
  then show ?thesis using shard_ids_distinct .
qed

lemma parts_length: "1 \<le> n \<Longrightarrow> length (concat (map (shard_part n rs) (shard_ids n))) = length rs"
proof -
  assume n: "1 \<le> n"
  have "length (concat (map (shard_part n rs) is)) = length (filter (\<lambda>r. shard_of (sr_id r) n \<in> set is) rs)"
    if "distinct is" for "is"
    using that
  proof (induction "is")
    case (Cons i "is")
    have "length (filter (\<lambda>r. shard_of (sr_id r) n \<in> set (i # is)) rs) =
        length (shard_part n rs i) + length (filter (\<lambda>r. shard_of (sr_id r) n \<in> set is) rs)"
      using Cons.prems by (induction rs) (auto simp: shard_part_def)
    then show ?case using Cons by simp
  qed simp
  from this[OF shard_ids_distinct] show ?thesis using shard_of_less[OF n] by (simp add: shard_ids_set)
qed

section \<open>Reading a bundle\<close>

lemma read_manifest_bundle: "bundle_of env d n rs \<Longrightarrow> read_manifest env d = Inr (manifest_for n rs)"
  by (auto simp: bundle_of_def read_manifest_def open_file_def manifest_for_def)

definition records_fit :: "store_record list \<Rightarrow> bool" where
  "records_fit rs \<longleftrightarrow> (\<forall>r \<in> set rs. rec_fits r) \<and> length rs < 2 ^ 32"

lemma shard_part_fits: "records_fit rs \<Longrightarrow> records_fit (shard_part n rs i)"
  unfolding records_fit_def shard_part_def using le_less_trans[OF length_filter_le] by auto

lemma import_stream_bundle:
  assumes "bundle_of env d n rs" "records_fit rs"
  shows "import_stream env d (total_sink f) s =
    (foldl f s (concat (map (shard_part n rs) (shard_ids n))), Inr (manifest_for n rs))"
proof -
  have "import_shards env d (map (\<lambda>i. entry_of i (shard_part n rs i)) (shard_ids n)) (total_sink f) s 0 =
      (foldl f s (concat (map (shard_part n rs) (shard_ids n))),
       Inr (0 + of_nat (length (concat (map (shard_part n rs) (shard_ids n))))))"
    using assms shard_part_fits[OF assms(2), of n]
    by (intro import_shards_bytes) (auto simp: bundle_of_def shard_ids_set records_fit_def)
  moreover have "length (concat (map (shard_part n rs) (shard_ids n))) = length rs"
    using assms(1) by (intro parts_length) (simp add: bundle_of_def)
  ultimately show ?thesis
    by (simp add: import_stream_def read_manifest_bundle[OF assms(1)] manifest_for_def)
qed

lemma snapshot_sink_get:
  "bt_ok sn \<Longrightarrow> bt_get (foldl (\<lambda>sn r. fst (snapshot_insert sn r)) sn rs) =
     bt_get sn ++ map_of (map (\<lambda>r. (sr_id r, r)) (rev rs)) \<and>
   bt_ok (foldl (\<lambda>sn r. fst (snapshot_insert sn r)) sn rs)"
proof (induction rs arbitrary: sn)
  case (Cons r rs)
  then show ?case by (simp add: snapshot_insert_def) (rule ext, simp add: map_add_def split: option.split)
qed simp

text \<open>A list of records in id order is the list of a snapshot.\<close>

definition record_entries :: "store_record list \<Rightarrow> store_snapshot" where
  "record_entries rs = map (\<lambda>r. (sr_id r, r)) rs"

lemma entries_snapshot: "snapshot_ok sn \<Longrightarrow> record_entries (map snd sn) = sn"
  by (auto simp: record_entries_def snapshot_ok_def map_idI case_prod_unfold)

lemma import_bundle_entries:
  assumes "bundle_of env d n rs" "records_fit rs" "sorted_wrt (<) (map sr_id rs)"
  shows "import_bundle env d = Inr (record_entries rs)"
proof -
  let ?all = "concat (map (shard_part n rs) (shard_ids n))"
  let ?sn = "foldl (\<lambda>sn r. fst (snapshot_insert sn r)) [] ?all"
  have n: "1 \<le> n" using assms(1) by (simp add: bundle_of_def)
  have dist: "distinct (map sr_id rs)" using assms(3) by (simp add: strict_sorted_iff)
  have ok: "bt_ok (record_entries rs)" using assms(3) by (simp add: bt_ok_def record_entries_def o_def)
  have "map_of (map (\<lambda>r. (sr_id r, r)) (rev ?all)) = map_of (record_entries rs)"
    unfolding record_entries_def
    by (rule map_of_eqI) (use parts_set[OF n] parts_distinct[OF dist] dist in
        \<open>auto simp: map_of_map_restrict image_iff o_def rev_map distinct_map\<close>)
  then have "bt_get ?sn = bt_get (record_entries rs)"
    using snapshot_sink_get[of "[]" ?all] by (simp add: bt_get_def fun_eq_iff map_add_def split: option.split)
  then have "?sn = record_entries rs" using snapshot_sink_get[of "[]" ?all] ok by (intro bt_eqI) auto
  then show ?thesis
    by (simp add: import_bundle_def sinks_total import_stream_bundle[OF assms(1,2)])
qed

lemma read_shard_bundle:
  assumes "bundle_of env d n rs" "records_fit rs" "i < n"
  shows "read_shard_records env d i = Inr (shard_part n rs i)"
proof -
  have "find (\<lambda>e. sh_index e = i) (map (\<lambda>i. entry_of i (shard_part n rs i)) is) =
      (if i \<in> set is then Some (entry_of i (shard_part n rs i)) else None)" for "is"
    by (induction "is") (auto simp: entry_of_def)
  moreover have "foldl (\<lambda>rs r. rs @ [r]) a xs = a @ xs" for a xs :: "store_record list"
    by (induction xs arbitrary: a) simp_all
  then have "stream_shard env d (entry_of i (shard_part n rs i)) push_sink [] = (shard_part n rs i, Inr (of_nat (length (shard_part n rs i))))"
    using stream_shard_bytes[of "shard_part n rs i" d i env "\<lambda>rs r. rs @ [r]" "[]"] shard_part_fits[OF assms(2), of n i] assms
    by (simp add: sinks_total records_fit_def bundle_of_def)
  ultimately show ?thesis using assms(3)
    by (simp add: read_shard_records_def read_manifest_bundle[OF assms(1)] manifest_for_def shard_ids_set)
qed

section \<open>Exporting a bundle\<close>

lemma fold_bodies_get:
  "foldl (\<lambda>d k. d(shard_body_tmp_name (of_nat k) \<mapsto> [])) d ks name =
     (if \<exists>k \<in> set ks. name = shard_body_tmp_name (of_nat k) then Some [] else d name)"
  by (induction ks arbitrary: d) auto

lemma create_bodies_get: "i < n \<Longrightarrow> create_bodies n d (shard_body_tmp_name i) = Some []"
  using shard_ids_set[of n] by (force simp: create_bodies_def fold_bodies_get shard_ids_def)

lemma shard_part_Cons: "shard_part n (r # rs) i = (if shard_of (sr_id r) n = i then r # shard_part n rs i else shard_part n rs i)"
  by (simp add: shard_part_def)

lemma body_of_Cons: "body_of (r # rs) = frame_of r @ body_of rs"
  by (simp add: body_of_def)

lemma write_bodies_records:
  assumes "\<forall>r \<in> set rs. rec_fits r" "1 \<le> n" "\<forall>i < n. d (shard_body_tmp_name i) = Some (B i)"
    "\<forall>i. unat (c i) + length (shard_part n rs i) < 2 ^ 32"
  shows "\<exists>d' c'. write_bodies n (map Inr rs) d c t = Some (d', Inr (c', t + of_nat (length rs))) \<and>
    (\<forall>i < n. d' (shard_body_tmp_name i) = Some (B i @ body_of (shard_part n rs i))) \<and>
    (\<forall>i. c' i = c i + of_nat (length (shard_part n rs i)))"
  using assms
proof (induction rs arbitrary: d c t B)
  case Nil
  then show ?case by (simp add: shard_part_def body_of_def)
next
  case (Cons r rs)
  let ?i = "shard_of (sr_id r) n"
  have i: "?i < n" by (rule shard_of_less[OF Cons.prems(2)])
  let ?d = "append_file (shard_body_tmp_name ?i) (frame_of r) d"
  let ?c = "c(?i := c ?i + 1)"
  have room: "unat (c ?i) + 1 < 2 ^ 32" using Cons.prems(4)[rule_format, of ?i] by (simp add: shard_part_Cons)
  then have c1: "unat (c ?i + 1) = unat (c ?i) + 1" by (simp add: unat_word_ariths)
  have "c ?i \<noteq> 0xffffffff"
  proof
    assume "c ?i = 0xffffffff"
    then have "unat (c ?i) = 4294967295" by simp
    with room show False by simp
  qed
  moreover have B: "\<forall>i < n. ?d (shard_body_tmp_name i) = Some (if i = ?i then B i @ frame_of r else B i)"
    using Cons.prems(3) i by (simp add: append_file_def)
  moreover have "\<forall>i. unat (?c i) + length (shard_part n rs i) < 2 ^ 32"
  proof
    fix i show "unat (?c i) + length (shard_part n rs i) < 2 ^ 32"
      using Cons.prems(4)[rule_format, of i] c1 by (auto simp: shard_part_Cons)
  qed
  moreover have "\<forall>r \<in> set rs. rec_fits r" "rec_fits r" using Cons.prems(1) by simp_all
  ultimately obtain d' c' where IH:
    "write_bodies n (map Inr rs) ?d ?c (t + 1) = Some (d', Inr (c', (t + 1) + of_nat (length rs)))"
    "\<forall>i < n. d' (shard_body_tmp_name i) = Some ((if i = ?i then B i @ frame_of r else B i) @ body_of (shard_part n rs i))"
    "\<forall>i. c' i = ?c i + of_nat (length (shard_part n rs i))"
    using Cons.IH[of ?d "\<lambda>i. if i = ?i then B i @ frame_of r else B i" ?c "t + 1"] Cons.prems(2) by blast
  have "write_bodies n (map Inr (r # rs)) d c t = Some (d', Inr (c', t + of_nat (length (r # rs))))"
    using IH(1) \<open>c ?i \<noteq> 0xffffffff\<close> \<open>rec_fits r\<close> by (simp add: Let_def frame_of_fits ac_simps)
  moreover have "\<forall>i < n. d' (shard_body_tmp_name i) = Some (B i @ body_of (shard_part n (r # rs) i))"
    using IH(2) by (simp add: shard_part_Cons body_of_Cons)
  moreover have "\<forall>i. c' i = c i + of_nat (length (shard_part n (r # rs) i))"
    using IH(3) by (simp add: shard_part_Cons)
  ultimately show ?case by blast
qed

definition sealed :: "(u32 \<Rightarrow> u32) \<Rightarrow> (u32 \<Rightarrow> bytes) \<Rightarrow> u32 \<Rightarrow> shard_entry" where
  "sealed c B i = \<lparr>sh_index = i, sh_records = c i, sh_crc32 = crc_value (crc_update crc_new (shard_header (c i) @ B i))\<rparr>"

lemma finalize_all_bodies:
  assumes "distinct (map of_nat ks :: u32 list)"
    "\<forall>k \<in> set ks. d (shard_body_tmp_name (of_nat k)) = Some (B (of_nat k))"
  shows "\<exists>d'. finalize_all c ks d = (d', map (\<lambda>k. sealed c B (of_nat k)) ks) \<and>
    (\<forall>k \<in> set ks. d' (shard_file_name (of_nat k)) = Some (shard_header (c (of_nat k)) @ B (of_nat k))) \<and>
    (\<forall>i. i \<notin> of_nat ` set ks \<longrightarrow> d' (shard_file_name i) = d (shard_file_name i))"
  using assms
proof (induction ks arbitrary: d)
  case (Cons k ks)
  let ?d = "d(shard_file_name (of_nat k) \<mapsto> shard_header (c (of_nat k)) @ B (of_nat k),
    shard_body_tmp_name (of_nat k) := None)"
  have f: "finalize_shard d (of_nat k) (c (of_nat k)) = (?d, sealed c B (of_nat k))"
    using Cons.prems(2) by (simp add: finalize_shard_def copy_loop_all sealed_def crc_update_append Let_def)
  have bodies: "\<forall>j \<in> set ks. ?d (shard_body_tmp_name (of_nat j)) = Some (B (of_nat j))"
    using Cons.prems by (auto simp: image_iff)
  have ks: "distinct (map of_nat ks :: u32 list)" using Cons.prems(1) by simp
  obtain d' where IH: "finalize_all c ks ?d = (d', map (\<lambda>k. sealed c B (of_nat k)) ks)"
    "\<forall>j \<in> set ks. d' (shard_file_name (of_nat j)) = Some (shard_header (c (of_nat j)) @ B (of_nat j))"
    "\<forall>i. i \<notin> of_nat ` set ks \<longrightarrow> d' (shard_file_name i) = ?d (shard_file_name i)"
    using Cons.IH[OF ks bodies] by blast
  have "finalize_all c (k # ks) d = (d', map (\<lambda>k. sealed c B (of_nat k)) (k # ks))"
    by (simp add: f IH(1))
  moreover have "d' (shard_file_name (of_nat k)) = Some (shard_header (c (of_nat k)) @ B (of_nat k))"
    using IH(3) Cons.prems(1) by auto
  ultimately show ?case using IH(2,3) by (intro exI[of _ d']) auto
qed simp

lemma shard_ids_sorted: "sorted (shard_ids n)"
proof -
  have lt: "unat n < 2 ^ LENGTH(32)" by (rule unsigned_less)
  have "(of_nat i :: u32) \<le> of_nat j" if "i < j" "j < unat n" for i j
    using that lt by (simp add: word_le_nat_alt unat_of_nat)
  then show ?thesis by (simp add: shard_ids_def sorted_iff_nth_mono_less)
qed

lemma export_bundle_of:
  assumes "json_law env" "records_fit rs"
  shows "\<exists>d'. export_stream env (map Inr rs) root n = Some (d', Inr (manifest_for (max n 1) rs)) \<and>
    bundle_of env d' (max n 1) rs"
proof -
  let ?n = "max n 1"
  have n: "1 \<le> ?n" by simp
  let ?d0 = "create_bodies ?n (clear_stale_shards root)"
  have "length (shard_part ?n rs i) < 2 ^ 32" for i
    using shard_part_fits[OF assms(2)] by (simp add: records_fit_def)
  then have "\<forall>i. unat (0 :: u32) + length (shard_part ?n rs i) < 2 ^ 32" by simp
  then obtain d1 c where w: "write_bodies ?n (map Inr rs) ?d0 (\<lambda>_. 0) 0 = Some (d1, Inr (c, 0 + of_nat (length rs)))"
    "\<forall>i < ?n. d1 (shard_body_tmp_name i) = Some ([] @ body_of (shard_part ?n rs i))"
    "\<forall>i. c i = 0 + of_nat (length (shard_part ?n rs i))"
    using write_bodies_records[of rs ?n ?d0 "\<lambda>_. []" "\<lambda>_. 0" 0] assms(2) create_bodies_get n
    by (auto simp: records_fit_def)
  let ?B = "\<lambda>i. body_of (shard_part ?n rs i)"
  have ids: "k \<in> set [0..<unat ?n] \<Longrightarrow> (of_nat k :: u32) < ?n" for k
    using shard_ids_set[of ?n] by (auto simp: shard_ids_def)
  obtain d2 where f: "finalize_all c [0..<unat ?n] d1 = (d2, map (\<lambda>k. sealed c ?B (of_nat k)) [0..<unat ?n])"
    "\<forall>k \<in> set [0..<unat ?n]. d2 (shard_file_name (of_nat k)) = Some (shard_header (c (of_nat k)) @ ?B (of_nat k))"
    using finalize_all_bodies[of "[0..<unat ?n]" d1 ?B c] shard_ids_distinct[of ?n] w(2) ids
    by (auto simp: shard_ids_def)
  have sealed: "sealed c ?B i = entry_of i (shard_part ?n rs i)" for i
    using w(3) by (simp add: sealed_def entry_of_def shard_bytes_def)
  have shards: "map (\<lambda>k. sealed c ?B (of_nat k)) [0..<unat ?n] = map (\<lambda>i. entry_of i (shard_part ?n rs i)) (shard_ids ?n)"
    by (simp add: shard_ids_def sealed o_def)
  have "map sh_index (map (\<lambda>i. entry_of i (shard_part ?n rs i)) (shard_ids ?n)) = shard_ids ?n"
    by (simp add: o_def entry_of_def)
  then have sorted: "sort_key sh_index (map (\<lambda>i. entry_of i (shard_part ?n rs i)) (shard_ids ?n)) =
      map (\<lambda>i. entry_of i (shard_part ?n rs i)) (shard_ids ?n)"
    using shard_ids_sorted by (metis sort_key_id_if_sorted)
  obtain json where json: "be_to_json env (manifest_for ?n rs) = Inr json" "be_from_json env json = Inr (manifest_for ?n rs)"
    using assms(1) unfolding json_law_def by blast
  let ?d3 = "d2(manifest_name \<mapsto> json)"
  have "export_stream env (map Inr rs) root n = Some (?d3, Inr (manifest_for ?n rs))"
    using json(1) by (simp add: export_stream_def w(1) f(1) shards sorted write_manifest_def flip: manifest_for_def)
  moreover have "bundle_of env ?d3 ?n rs"
  proof -
    have "?d3 (shard_file_name i) = Some (shard_bytes (shard_part ?n rs i))" if "i < ?n" for i
    proof -
      have "i \<in> set (shard_ids ?n)" using that by (simp only: shard_ids_set lessThan_iff)
      then obtain k where "i = of_nat k" "k \<in> set [0..<unat ?n]" by (auto simp: shard_ids_def)
      then show ?thesis using f(2) w(3) by (simp add: shard_bytes_def)
    qed
    then show ?thesis using json(2) by (simp add: bundle_of_def)
  qed
  ultimately show ?thesis by blast
qed

section \<open>Rewriting one shard\<close>

lemma write_frames_body:
  "\<forall>r \<in> set rs. rec_fits r \<Longrightarrow> write_frames rs out c = Some (out @ body_of rs, crc_update c (body_of rs))"
  by (induction rs arbitrary: out c)
    (simp_all add: body_of_def crc_update_def[of _ "[]"] frame_of_fits crc_update_append)

lemma patch_entry_map:
  assumes "distinct is" "i \<in> set is" "\<forall>j \<in> set is. sh_index (f j) = j"
  shows "patch_entry i k c (map f is) =
    Some (map (\<lambda>j. if j = i then (f j)\<lparr>sh_records := k, sh_crc32 := c\<rparr> else f j) is)"
  using assms
proof (induction "is")
  case (Cons j "is")
  show ?case
  proof (cases "j = i")
    case True
    then have "map (\<lambda>j. if j = i then (f j)\<lparr>sh_records := k, sh_crc32 := c\<rparr> else f j) is = map f is"
      using Cons.prems(1) by (intro map_cong) auto
    then show ?thesis using True Cons.prems(3) by simp
  qed (use Cons in auto)
qed simp

lemma parts_sum: "1 \<le> n \<Longrightarrow> length rs = (\<Sum>j < n. length (shard_part n rs j))"
  using parts_length[of n rs]
  by (simp add: length_concat o_def sum_list_distinct_conv_sum_set[OF shard_ids_distinct] shard_ids_set)

lemma rewrite_shard_bundle:
  assumes "json_law env" "bundle_of env d n rs" "records_fit rs" "records_fit rs'" "i < n"
    "sort_key sr_id (mutate (shard_part n rs i)) = shard_part n rs' i" "\<And>j. j \<noteq> i \<Longrightarrow> shard_part n rs' j = shard_part n rs j"
  shows "\<exists>d'. rewrite_shard env d n i mutate = Some (d', Inr ()) \<and> bundle_of env d' n rs'"
proof -
  let ?old = "shard_part n rs i" and ?new = "shard_part n rs' i"
  have n: "1 \<le> n" using assms(2) by (simp add: bundle_of_def)
  then have mx: "max n 1 = n" by (rule max_absorb1)
  have fit: "\<forall>r \<in> set ?new. rec_fits r" "length ?new < 2 ^ 32"
    using shard_part_fits[OF assms(4), of n i] by (simp_all add: records_fit_def)
  have len: "length rs' + length ?old = length rs + length ?new"
  proof -
    have "(\<Sum>j < n. length (shard_part n q j)) = length (shard_part n q i) + (\<Sum>j \<in> {..<n} - {i}. length (shard_part n q j))" for q
      using assms(5) by (intro sum.remove) auto
    moreover have "(\<Sum>j \<in> {..<n} - {i}. length (shard_part n rs' j)) = (\<Sum>j \<in> {..<n} - {i}. length (shard_part n rs j))"
      using assms(7) by (intro sum.cong) auto
    ultimately show ?thesis using parts_sum[OF n, of rs] parts_sum[OF n, of rs'] by simp
  qed
  have tot: "of_nat (length rs) + of_nat (length ?new) - of_nat (length ?old) = (of_nat (length rs') :: u64)"
    using arg_cong[OF len, of "of_nat :: nat \<Rightarrow> u64"] by (simp add: algebra_simps)
  let ?crc = "crc_value (crc_update crc_new (shard_bytes ?new))"
  have patch: "patch_entry i (of_nat (length ?new)) ?crc (map (\<lambda>j. entry_of j (shard_part n rs j)) (shard_ids n)) =
      Some (map (\<lambda>j. entry_of j (shard_part n rs' j)) (shard_ids n))"
    by (subst patch_entry_map)
      (use assms(5,7) shard_ids_distinct in \<open>auto simp: shard_ids_set entry_of_def\<close>)
  let ?d1 = "d(shard_file_name i \<mapsto> shard_bytes ?new)"
  obtain json where json: "be_to_json env (manifest_for n rs') = Inr json" "be_from_json env json = Inr (manifest_for n rs')"
    using assms(1) unfolding json_law_def by blast
  have m: "(manifest_for n rs)\<lparr>mf_shards := map (\<lambda>j. entry_of j (shard_part n rs' j)) (shard_ids n), mf_shard_count := n,
      mf_total_records := of_nat (length rs')\<rparr> = manifest_for n rs'"
    by (simp add: manifest_for_def)
  have lm: "length (mutate (shard_part n rs i)) = length ?new" by (metis assms(6) length_sort)
  have "rewrite_shard env d n i mutate = Some (?d1(manifest_name \<mapsto> json), Inr ())"
    using fit(2) json(1) patch m tot
    by (simp add: rewrite_shard_def read_manifest_bundle[OF assms(2)] read_shard_bundle[OF assms(2,3,5)]
        assms(6) field_len_def write_frames_body[OF fit(1)] mx lm Let_def write_manifest_def shard_bytes_def
        crc_update_append manifest_for_def)
  moreover have "bundle_of env (?d1(manifest_name \<mapsto> json)) n rs'"
    using assms(2,5,7) json(2) by (auto simp: bundle_of_def)
  ultimately show ?thesis by blast
qed

text \<open>Lists in id order with the same records are equal.\<close>

lemma id_order_unique:
  assumes "sorted_wrt (<) (map sr_id xs)" "sorted_wrt (<) (map sr_id ys)" "set xs = set ys"
  shows "xs = ys"
proof -
  have "inj_on sr_id (set ys)" using assms(2) by (simp add: strict_sorted_iff distinct_map)
  then show ?thesis
    using assms by (intro map_sorted_distinct_set_unique[of sr_id]) (auto simp: strict_sorted_iff distinct_map)
qed

end
