(* ===== verification/Cursor_Laws.thy ===== *)
theory Cursor_Laws
  imports Bundle_Laws "HOL-Library.Multiset"
begin

text \<open>
  The merging cursor of a bundle: over shards in id order it yields all records in id order.
\<close>

section \<open>One shard\<close>

text \<open>The records that a stream has yet to yield; its checksum comes out right at the end.\<close>

definition stream_for :: "shard_stream \<Rightarrow> store_record list \<Rightarrow> bool" where
  "stream_for ss q \<longleftrightarrow> (\<forall>r \<in> set q. rec_fits r) \<and> ss_remaining ss = length q \<and> fst (ss_reader ss) = body_of q \<and>
     crc_value (crc_update (snd (ss_reader ss)) (body_of q)) = sh_crc32 (ss_entry ss)"

lemma next_record_end: "stream_for ss [] \<Longrightarrow> next_record ss = (ss, Inr None)"
  by (simp add: stream_for_def next_record_def rd_expect_eof_def body_of_def crc_update_def)

lemma next_record_some:
  assumes "stream_for ss (r # q)"
  obtains ss' where "next_record ss = (ss', Inr (Some r))" "stream_for ss' q"
proof -
  obtain rest c where rd: "ss_reader ss = (rest, c)" by (cases "ss_reader ss")
  have rest: "rest = frame_of r @ body_of q" using assms rd by (simp add: stream_for_def body_of_Cons)
  have "rd_record (ss_reader ss) = Inr (r, body_of q, crc_update c (frame_of r))"
    using assms rd_record_frame[of r "body_of q" c] by (simp only: rd rest stream_for_def) simp
  moreover have "stream_for (ss\<lparr>ss_reader := (body_of q, crc_update c (frame_of r)), ss_remaining := length q\<rparr>) q"
    using assms rd by (simp add: stream_for_def body_of_Cons crc_update_append)
  ultimately show ?thesis using assms that
    by (simp add: next_record_def stream_for_def)
qed

lemma shard_open_bundle:
  assumes "bundle_of env d n rs" "records_fit rs" "i < n"
  obtains ss where "shard_open env d (entry_of i (shard_part n rs i)) = Inr ss" "stream_for ss (shard_part n rs i)"
proof -
  have "records_fit (shard_part n rs i)" by (rule shard_part_fits[OF assms(2)])
  then show ?thesis using assms(1,3) that
    by (simp add: shard_open_def open_file_def bundle_of_def entry_of_def shard_bytes_def rd_new_def
        stream_for_def records_fit_def unat_of_nat crc_update_append)
qed

section \<open>The merge\<close>

text \<open>\<open>cur_for c qs\<close>: shard \<open>k\<close> has yet to yield \<open>qs ! k\<close>, whose head is its front.\<close>

definition front_for :: "shard_stream \<Rightarrow> store_record option \<Rightarrow> store_record list \<Rightarrow> bool" where
  "front_for ss f q \<longleftrightarrow> (case q of [] \<Rightarrow> f = None \<and> stream_for ss [] | r # q' \<Rightarrow> f = Some r \<and> stream_for ss q')"

definition cur_for :: "bundle_cursor \<Rightarrow> store_record list list \<Rightarrow> bool" where
  "cur_for c qs \<longleftrightarrow> length (bc_shards c) = length qs \<and> length (bc_fronts c) = length qs \<and>
     (\<forall>k < length qs. front_for (bc_shards c ! k) (bc_fronts c ! k) (qs ! k))"

lemma best_front_upto:
  assumes "m \<le> length fs"
  shows "case foldl (\<lambda>best i. case fs ! i of
         None \<Rightarrow> best
       | Some r \<Rightarrow> (case best of
             None \<Rightarrow> Some i
           | Some b \<Rightarrow> if sr_id r < sr_id (the (fs ! b)) then Some i else Some b)) None [0..<m] of
      None \<Rightarrow> (\<forall>k < m. fs ! k = None)
    | Some b \<Rightarrow> b < m \<and> fs ! b \<noteq> None \<and> (\<forall>k < m. \<forall>r. fs ! k = Some r \<longrightarrow> sr_id (the (fs ! b)) \<le> sr_id r)"
  using assms
proof (induction m)
  case (Suc m)
  let ?g = "\<lambda>best i. case fs ! i of None \<Rightarrow> best
       | Some r \<Rightarrow> (case best of None \<Rightarrow> Some i
           | Some b \<Rightarrow> if sr_id r < sr_id (the (fs ! b)) then Some i else Some b)"
  have IH: "case foldl ?g None [0..<m] of
      None \<Rightarrow> (\<forall>k < m. fs ! k = None)
    | Some b \<Rightarrow> b < m \<and> fs ! b \<noteq> None \<and> (\<forall>k < m. \<forall>r. fs ! k = Some r \<longrightarrow> sr_id (the (fs ! b)) \<le> sr_id r)"
    using Suc by simp
  show ?case
  proof (cases "fs ! m")
    case None
    then show ?thesis using IH by (auto simp: less_Suc_eq split: option.splits)
  next
    case (Some r)
    show ?thesis
    proof (cases "foldl ?g None [0..<m]")
      case None
      then show ?thesis using IH Some by (auto simp: less_Suc_eq)
    next
      case b: (Some b)
      then show ?thesis using IH Some by (auto simp: less_Suc_eq not_less dest: order.strict_trans1 intro: less_imp_le)
    qed
  qed
qed simp

lemma best_front_spec:
  "case best_front fs of
      None \<Rightarrow> (\<forall>k < length fs. fs ! k = None)
    | Some b \<Rightarrow> b < length fs \<and> fs ! b \<noteq> None \<and>
        (\<forall>k < length fs. \<forall>r. fs ! k = Some r \<longrightarrow> sr_id (the (fs ! b)) \<le> sr_id r)"
  unfolding best_front_def by (rule best_front_upto) simp

lemma front_for_next:
  assumes "front_for ss f (r # q)"
  obtains ss' f' where "next_record ss = (ss', Inr f')" "front_for ss' f' q"
proof (cases q)
  case Nil
  then show ?thesis using assms that next_record_end by (fastforce simp: front_for_def)
next
  case (Cons r' q')
  then have "stream_for ss (r' # q')" using assms by (simp add: front_for_def)
  then obtain ss' where "next_record ss = (ss', Inr (Some r'))" "stream_for ss' q'" by (rule next_record_some)
  then show ?thesis using that Cons by (simp add: front_for_def)
qed

text \<open>One step yields a record with the smallest id of all that are left.\<close>

lemma cursor_next_step:
  assumes "cur_for c qs"
  shows "(\<forall>q \<in> set qs. q = []) \<and> snd (cursor_next c) = None \<or>
    (\<exists>b r q c'. b < length qs \<and> qs ! b = r # q \<and> cursor_next c = (c', Some (Inr r)) \<and> cur_for c' (qs[b := q]) \<and>
       (\<forall>p \<in> set qs. \<forall>x xs. p = x # xs \<longrightarrow> sr_id r \<le> sr_id x))"
proof (cases "best_front (bc_fronts c)")
  case None
  then have "\<forall>k < length qs. bc_fronts c ! k = None"
    using best_front_spec[of "bc_fronts c"] assms by (simp add: cur_for_def)
  moreover have "bc_fronts c ! k \<noteq> None" if "k < length qs" "qs ! k \<noteq> []" for k
    using assms that by (cases "qs ! k") (auto simp: cur_for_def front_for_def)
  ultimately have "\<forall>k < length qs. qs ! k = []" by blast
  then have "\<forall>q \<in> set qs. q = []" by (auto simp: in_set_conv_nth)
  then show ?thesis using None by (simp add: cursor_next_def)
next
  case (Some b)
  then have b: "b < length qs" "bc_fronts c ! b \<noteq> None"
    "\<forall>k < length qs. \<forall>r. bc_fronts c ! k = Some r \<longrightarrow> sr_id (the (bc_fronts c ! b)) \<le> sr_id r"
    using best_front_spec[of "bc_fronts c"] assms by (simp_all add: cur_for_def)
  have f: "front_for (bc_shards c ! b) (bc_fronts c ! b) (qs ! b)" using assms b(1) by (simp add: cur_for_def)
  then obtain r q where rq: "qs ! b = r # q" "bc_fronts c ! b = Some r"
    using b(2) by (auto simp: front_for_def split: list.splits)
  obtain ss' f' where nx: "next_record (bc_shards c ! b) = (ss', Inr f')" "front_for ss' f' q"
    using front_for_next f rq(1) by metis
  let ?c = "c\<lparr>bc_shards := (bc_shards c)[b := ss'], bc_fronts := (bc_fronts c)[b := f']\<rparr>"
  have "cursor_next c = (?c, Some (Inr r))" using Some rq nx by (simp add: cursor_next_def)
  moreover have "cur_for ?c (qs[b := q])"
    unfolding cur_for_def
  proof (intro conjI allI impI)
    fix k assume "k < length (qs[b := q])"
    then show "front_for (bc_shards ?c ! k) (bc_fronts ?c ! k) (qs[b := q] ! k)"
      using assms nx(2) b(1) by (cases "k = b") (simp_all add: cur_for_def)
  qed (use assms in \<open>simp_all add: cur_for_def\<close>)
  moreover have "\<forall>p \<in> set qs. \<forall>x xs. p = x # xs \<longrightarrow> sr_id r \<le> sr_id x"
  proof (intro ballI allI impI)
    fix p x xs assume p: "p \<in> set qs" "p = x # xs"
    then obtain k where k: "k < length qs" "qs ! k = x # xs" by (auto simp: in_set_conv_nth)
    then have "bc_fronts c ! k = Some x" using assms by (force simp: cur_for_def front_for_def)
    then show "sr_id r \<le> sr_id x" using b(3) k(1) rq(2) by fastforce
  qed
  ultimately show ?thesis using b(1) rq(1) by blast
qed

text \<open>Strictly sorted queues with distinct ids merge into one strictly sorted list.\<close>

definition queues_ok :: "store_record list list \<Rightarrow> bool" where
  "queues_ok qs \<longleftrightarrow> (\<forall>q \<in> set qs. sorted_wrt (<) (map sr_id q)) \<and> distinct (map sr_id (concat qs))"

lemma concat_update:
  assumes "b < length qs" "qs ! b = r # q"
  shows "mset (concat qs) = add_mset r (mset (concat (qs[b := q])))"
proof -
  have "qs = take b qs @ (r # q) # drop (Suc b) qs" using assms by (metis id_take_nth_drop)
  moreover have "qs[b := q] = take b qs @ q # drop (Suc b) qs" using assms(1) by (rule upd_conv_take_nth_drop)
  ultimately have "mset (concat qs) = mset (concat (take b qs @ (r # q) # drop (Suc b) qs))"
    "mset (concat (qs[b := q])) = mset (concat (take b qs @ q # drop (Suc b) qs))" by simp_all
  then show ?thesis by simp
qed

lemma cursor_items_merge:
  assumes "cur_for c qs" "queues_ok qs" "m = length (concat qs)"
  shows "\<exists>out. cursor_items m c = map Inr out \<and> sorted_wrt (<) (map sr_id out) \<and> set out = set (concat qs)"
  using assms
proof (induction m arbitrary: c qs)
  case 0
  then show ?case by (intro exI[of _ "[]"]) simp
next
  case (Suc m)
  have nonempty: "\<not> (\<forall>q \<in> set qs. q = [])"
  proof
    assume "\<forall>q \<in> set qs. q = []"
    then have "concat qs = []" by simp
    with Suc.prems(3) show False by simp
  qed
  obtain b r q c' where s: "b < length qs" "qs ! b = r # q" "cursor_next c = (c', Some (Inr r))"
    "cur_for c' (qs[b := q])" "\<forall>p \<in> set qs. \<forall>x xs. p = x # xs \<longrightarrow> sr_id r \<le> sr_id x"
    using cursor_next_step[OF Suc.prems(1)] nonempty by blast
  have ms: "mset (concat qs) = add_mset r (mset (concat (qs[b := q])))" by (rule concat_update[OF s(1,2)])
  have dist: "distinct (map sr_id (r # concat (qs[b := q])))"
  proof -
    have "mset (map sr_id (concat qs)) = mset (map sr_id (r # concat (qs[b := q])))" using ms by simp
    then show ?thesis using Suc.prems(2) by (metis mset_eq_imp_distinct_iff queues_ok_def)
  qed
  have sorted: "\<forall>p \<in> set qs. sorted_wrt (<) (map sr_id p)" using Suc.prems(2) by (simp add: queues_ok_def)
  have "r # q \<in> set qs" using s(1,2) by (metis nth_mem)
  then have "sorted_wrt (<) (map sr_id q)" using sorted by fastforce
  then have ok: "queues_ok (qs[b := q])"
    using sorted dist by (auto simp: queues_ok_def dest!: set_update_subset_insert[THEN subsetD])
  have "m = length (concat (qs[b := q]))" using Suc.prems(3) arg_cong[OF ms, of size] by simp
  then obtain out where out: "cursor_items m c' = map Inr out" "sorted_wrt (<) (map sr_id out)"
    "set out = set (concat (qs[b := q]))"
    using Suc.IH[OF s(4) ok] by blast
  have set: "set (concat qs) = insert r (set out)"
    using arg_cong[OF ms, of set_mset] out(3) by simp
  have "sr_id r < sr_id x" if "x \<in> set out" for x
  proof -
    have "x \<in> set (concat qs)" using that set by simp
    then obtain p where p: "p \<in> set qs" "x \<in> set p" by auto
    obtain y ys where y: "p = y # ys" using p(2) by (cases p) auto
    have "sr_id r \<le> sr_id y" using s(5) p(1) y by blast
    also have "sr_id y \<le> sr_id x" using sorted p y by (auto simp: less_imp_le)
    finally have "sr_id r \<le> sr_id x" .
    moreover have "sr_id r \<noteq> sr_id x" using dist that out(3) by auto
    ultimately show ?thesis by simp
  qed
  then show ?case using s(3) out set by (intro exI[of _ "r # out"]) simp
qed

section \<open>A bundle's cursor\<close>

lemma prime_streams:
  assumes "list_all2 stream_for sss qs"
  shows "\<exists>sss' fronts. prime sss = Inr (sss', fronts) \<and> cur_for \<lparr>bc_shards = sss', bc_fronts = fronts\<rparr> qs"
  using assms
proof (induction sss qs rule: list_all2_induct)
  case Nil
  then show ?case by (simp add: cur_for_def)
next
  case (Cons ss sss q qs)
  then obtain sss' fronts where IH: "prime sss = Inr (sss', fronts)"
    "cur_for \<lparr>bc_shards = sss', bc_fronts = fronts\<rparr> qs" by blast
  obtain ss' f where "next_record ss = (ss', Inr f)" "front_for ss' f q"
  proof (cases q)
    case Nil
    then show ?thesis using Cons.hyps(1) next_record_end that by (simp add: front_for_def)
  next
    case (Cons r q')
    then have "stream_for ss (r # q')" using \<open>stream_for ss q\<close> by simp
    then obtain ss' where "next_record ss = (ss', Inr (Some r))" "stream_for ss' q'" by (rule next_record_some)
    then show ?thesis using that Cons by (simp add: front_for_def)
  qed
  then have "prime (ss # sss) = Inr (ss' # sss', f # fronts)" "cur_for \<lparr>bc_shards = ss' # sss', bc_fronts = f # fronts\<rparr> (q # qs)"
    using IH by (simp_all add: cur_for_def nth_Cons split: nat.split)
  then show ?case by blast
qed

lemma cur_for_size: "cur_for c qs \<Longrightarrow> cursor_size c = length (concat qs)"
proof -
  have "length sss = length qs \<Longrightarrow> length fs = length qs \<Longrightarrow> \<forall>k < length qs. front_for (sss ! k) (fs ! k) (qs ! k) \<Longrightarrow>
      sum_list (map ss_remaining sss) + length (filter (\<lambda>f. f \<noteq> None) fs) = length (concat qs)" for sss fs
  proof (induction qs arbitrary: sss fs)
    case (Cons q qs)
    obtain ss sss' f fs' where s: "sss = ss # sss'" "fs = f # fs'"
      using Cons.prems(1,2) by (cases sss; cases fs) auto
    have "front_for ss f q" using Cons.prems(3) s by auto
    then have "ss_remaining ss + (if f \<noteq> None then 1 else 0) = length q"
      by (cases q) (auto simp: front_for_def stream_for_def)
    moreover have "\<forall>k < length qs. front_for (sss' ! k) (fs' ! k) (qs ! k)" using Cons.prems(3) s by auto
    then have "sum_list (map ss_remaining sss') + length (filter (\<lambda>f. f \<noteq> None) fs') = length (concat qs)"
      using Cons.prems(1,2) s by (intro Cons.IH) auto
    ultimately show ?case using s by (auto split: if_splits)
  qed simp
  then show "cur_for c qs \<Longrightarrow> cursor_size c = length (concat qs)" by (simp add: cur_for_def cursor_size_def)
qed

lemma stream_bundle_all:
  assumes "bundle_of env d n rs" "records_fit rs" "sorted_wrt (<) (map sr_id rs)"
  shows "\<exists>c. stream_bundle env d = Inr c \<and> cursor_all c = map Inr rs"
proof -
  have n: "1 \<le> n" using assms(1) by (simp add: bundle_of_def)
  let ?qs = "map (shard_part n rs) (shard_ids n)"
  have "\<exists>sss. try_map (shard_open env d) (map (\<lambda>i. entry_of i (shard_part n rs i)) is) = Inr sss \<and>
      list_all2 stream_for sss (map (shard_part n rs) is)" if "set is \<subseteq> set (shard_ids n)" for "is"
    using that
  proof (induction "is")
    case (Cons i "is")
    have "i < n" using Cons.prems by (simp add: shard_ids_set)
    then obtain ss where "shard_open env d (entry_of i (shard_part n rs i)) = Inr ss" "stream_for ss (shard_part n rs i)"
      using shard_open_bundle[OF assms(1,2)] by blast
    with Cons show ?case by auto
  qed simp
  then obtain sss where sss: "try_map (shard_open env d) (mf_shards (manifest_for n rs)) = Inr sss"
    "list_all2 stream_for sss ?qs"
    by (auto simp: manifest_for_def)
  obtain sss' fronts where p: "prime sss = Inr (sss', fronts)" "cur_for \<lparr>bc_shards = sss', bc_fronts = fronts\<rparr> ?qs"
    using prime_streams[OF sss(2)] by blast
  let ?c = "\<lparr>bc_shards = sss', bc_fronts = fronts\<rparr>"
  have "sorted_wrt (<) (map sr_id (shard_part n rs i))" for i
    using assms(3) by (simp add: shard_part_def sorted_wrt_map sorted_wrt_filter)
  moreover have "distinct (map sr_id rs)" using assms(3) by (simp add: strict_sorted_iff)
  ultimately have ok: "queues_ok ?qs" using parts_distinct by (auto simp: queues_ok_def)
  obtain out where out: "cursor_items (length (concat ?qs)) ?c = map Inr out" "sorted_wrt (<) (map sr_id out)"
    "set out = set (concat ?qs)"
    using cursor_items_merge[OF p(2) ok refl] by blast
  then have "out = rs" using id_order_unique[OF out(2) assms(3)] parts_set[OF n] by simp
  then have "cursor_all ?c = map Inr rs" using out(1) by (simp only: cursor_all_def cur_for_size[OF p(2)])
  then show ?thesis using sss(1) p(1) by (simp add: stream_bundle_def read_manifest_bundle[OF assms(1)])
qed

section \<open>The cursor ends\<close>

text \<open>On any directory, damaged shards included: every item uses up a record or a front.\<close>

definition cursor_ok :: "bundle_cursor \<Rightarrow> bool" where
  "cursor_ok c \<longleftrightarrow> length (bc_shards c) = length (bc_fronts c)"

lemma filter_update:
  "i < length xs \<Longrightarrow> length (filter P (xs[i := y])) + (if P (xs ! i) then 1 else 0) =
    length (filter P xs) + (if P y then 1 else 0)"
proof (induction xs arbitrary: i)
  case (Cons x xs)
  then show ?case by (cases i) (use Cons.IH in \<open>force+\<close>)
qed simp

lemma sum_update: "i < length xs \<Longrightarrow> sum_list (xs[i := y]) + xs ! i = sum_list xs + (y :: nat)"
  by (induction xs arbitrary: i) (auto split: nat.split)

lemma next_record_size:
  "next_record ss = (ss', Inr (Some r)) \<Longrightarrow> Suc (ss_remaining ss') = ss_remaining ss"
  "next_record ss = (ss', Inr None) \<Longrightarrow> ss_remaining ss' = ss_remaining ss"
  "next_record ss = (ss', Inl e) \<Longrightarrow> ss_remaining ss' = ss_remaining ss"
  by (auto simp: next_record_def split: if_splits sum.splits prod.splits)

lemma cursor_next_size:
  assumes "cursor_ok c" "cursor_next c = (c', Some item)"
  shows "cursor_ok c' \<and> Suc (cursor_size c') = cursor_size c"
proof -
  obtain b where b: "best_front (bc_fronts c) = Some b" using assms(2) by (auto simp: cursor_next_def split: option.splits)
  then have bl: "b < length (bc_fronts c)" "bc_fronts c ! b \<noteq> None" using best_front_spec[of "bc_fronts c"] by auto
  obtain ss res where n: "next_record (bc_shards c ! b) = (ss, res)" by fastforce
  have c': "c' = c\<lparr>bc_shards := (bc_shards c)[b := ss], bc_fronts := (bc_fronts c)[b := (case res of Inr f \<Rightarrow> f | Inl _ \<Rightarrow> None)]\<rparr>"
    using assms(2) b n by (auto simp: cursor_next_def Let_def split: sum.splits)
  have "ss_remaining ss + (case res of Inr (Some _) \<Rightarrow> 1 | _ \<Rightarrow> 0) = ss_remaining (bc_shards c ! b)"
    using n next_record_size[of "bc_shards c ! b" ss] by (auto split: sum.split option.split)
  moreover have "sum_list (map ss_remaining ((bc_shards c)[b := ss])) + ss_remaining (bc_shards c ! b) =
      sum_list (map ss_remaining (bc_shards c)) + ss_remaining ss"
    using sum_update[of b "map ss_remaining (bc_shards c)" "ss_remaining ss"] bl(1) assms(1)
    by (simp add: map_update cursor_ok_def)
  ultimately show ?thesis
    using filter_update[OF bl(1), of "\<lambda>f. f \<noteq> None" "case res of Inr f \<Rightarrow> f | Inl _ \<Rightarrow> None"] bl(2) assms(1) c'
    by (auto simp: cursor_size_def cursor_ok_def split: sum.splits option.splits)
qed

lemma cursor_fuel:
  assumes "cursor_ok c" "cursor_size c \<le> n"
  shows "cursor_items n c = cursor_all c \<and> length (cursor_all c) \<le> cursor_size c"
  using assms
proof (induction n arbitrary: c)
  case (Suc n)
  show ?case
  proof (cases "cursor_next c")
    case (Pair c' x)
    show ?thesis
    proof (cases x)
      case None
      then show ?thesis using Pair by (cases "cursor_size c") (simp_all add: cursor_all_def)
    next
      case (Some item)
      then have s: "cursor_ok c'" "Suc (cursor_size c') = cursor_size c"
        using cursor_next_size[OF Suc.prems(1)] Pair by auto
      then have "cursor_items n c' = cursor_all c'" "length (cursor_all c') \<le> cursor_size c'"
        using Suc.IH[of c'] Suc.prems(2) by auto
      moreover have "cursor_all c = item # cursor_all c'"
        using Pair Some by (simp add: cursor_all_def flip: s(2))
      ultimately show ?thesis using Pair Some s(2) by simp
    qed
  qed
qed (simp add: cursor_all_def)

lemma prime_lengths: "prime sss = Inr (sss', fs) \<Longrightarrow> length sss' = length fs"
  by (induction sss arbitrary: sss' fs) (auto split: prod.splits sum.splits)

lemma stream_bundle_ok: "stream_bundle env d = Inr c \<Longrightarrow> cursor_ok c"
  by (auto simp: stream_bundle_def cursor_ok_def dest: prime_lengths)

end
