(* ===== verification/FileStore.thy ===== *)
theory FileStore
  imports Cursor_Laws
begin

text \<open>
  The on-disk adapter (\<open>storage-core/src/adapters/file.rs\<close>): its store is a bundle
  directory, one record is one shard rewritten, and an import merges two cursors into a fresh
  bundle that is swapped in. It keeps the contract of a store; a swap that fails after the old
  bundle is removed loses both.
\<close>

section \<open>The adapter\<close>

text \<open>A directory that does not exist is the empty map.\<close>

record file_store =
  fs_root :: dir
  fs_shard_count :: u32

definition write_empty :: "bundle_env \<Rightarrow> file_store \<Rightarrow> (file_store \<times> (storage_error + unit)) option" where
  "write_empty env fs =
     map_option (\<lambda>(d, res). (fs\<lparr>fs_root := d\<rparr>, and_then res (\<lambda>_. Inr ())))
       (export_stream env [] (fs_root fs) (fs_shard_count fs))"

definition file_open :: "bundle_env \<Rightarrow> dir \<Rightarrow> (file_store \<times> (storage_error + unit)) option" where
  "file_open env root =
     (if root manifest_name \<noteq> None
      then (case manifest_of env root of
              Inl e \<Rightarrow> Some (\<lparr>fs_root = root, fs_shard_count = default_shard_count\<rparr>, Inl e)
            | Inr m \<Rightarrow> Some (\<lparr>fs_root = root, fs_shard_count = max (mf_shard_count m) 1\<rparr>, Inr ()))
      else write_empty env \<lparr>fs_root = root, fs_shard_count = default_shard_count\<rparr>)"

definition file_len :: "bundle_env \<Rightarrow> file_store \<Rightarrow> nat" where
  "file_len env fs = (case manifest_of env (fs_root fs) of Inr m \<Rightarrow> unat (mf_total_records m) | Inl _ \<Rightarrow> 0)"

text \<open>
  The standard library's binary search, on a list that is sorted by id: the position of the
  id, or where it belongs.
\<close>

definition upsert_sorted :: "store_record \<Rightarrow> store_record list \<Rightarrow> store_record list" where
  "upsert_sorted r rs =
     (case position (\<lambda>x. sr_id x = sr_id r) rs of
        Some p \<Rightarrow> rs[p := r]
      | None \<Rightarrow> (let p = length (takeWhile (\<lambda>x. sr_id x < sr_id r) rs) in take p rs @ r # drop p rs))"

definition remove_id :: "str \<Rightarrow> store_record list \<Rightarrow> store_record list" where
  "remove_id i rs = (case position (\<lambda>r. sr_id r = i) rs of Some p \<Rightarrow> remove_at p rs | None \<Rightarrow> rs)"

definition file_save ::
    "bundle_env \<Rightarrow> file_store \<Rightarrow> store_record \<Rightarrow> (file_store \<times> (storage_error + unit)) option" where
  "file_save env fs r =
     map_option (\<lambda>(d, res). (fs\<lparr>fs_root := d\<rparr>, res))
       (rewrite_shard env (fs_root fs) (fs_shard_count fs) (shard_index_of (sr_id r) (fs_shard_count fs))
          (upsert_sorted r))"

definition file_load :: "bundle_env \<Rightarrow> file_store \<Rightarrow> str \<Rightarrow> storage_error + store_record" where
  "file_load env fs i =
     and_then (read_shard_records env (fs_root fs) (shard_index_of i (fs_shard_count fs))) (\<lambda>rs.
     ok_or (StorageNotFound i) (find (\<lambda>r. sr_id r = i) rs))"

text \<open>\<open>removed\<close> is set by the closure when it finds the id among the records that were read.\<close>

definition file_delete :: "bundle_env \<Rightarrow> file_store \<Rightarrow> str \<Rightarrow> (file_store \<times> (storage_error + bool)) option" where
  "file_delete env fs i =
     (let index = shard_index_of i (fs_shard_count fs);
          removed = (case read_shard_records env (fs_root fs) index of
                       Inr rs \<Rightarrow> position (\<lambda>r. sr_id r = i) rs \<noteq> None | Inl _ \<Rightarrow> False)
      in map_option (\<lambda>(d, res). (fs\<lparr>fs_root := d\<rparr>, and_then res (\<lambda>_. Inr removed)))
           (rewrite_shard env (fs_root fs) (fs_shard_count fs) index (remove_id i)))"

definition id_sink :: "str list sink" where
  "id_sink ids r = (ids @ [sr_id r], Inr ())"

definition file_list :: "bundle_env \<Rightarrow> file_store \<Rightarrow> storage_error + str list" where
  "file_list env fs =
     (case import_stream env (fs_root fs) id_sink [] of (_, Inl e) \<Rightarrow> Inl e | (ids, Inr _) \<Rightarrow> Inr (sort ids))"

text \<open>The records of the cursor, up to the first error.\<close>

definition file_records :: "bundle_env \<Rightarrow> file_store \<Rightarrow> storage_error + store_record list" where
  "file_records env fs = and_then (stream_bundle env (fs_root fs)) (\<lambda>c. try_map (\<lambda>item. item) (cursor_all c))"

definition file_snapshot :: "bundle_env \<Rightarrow> file_store \<Rightarrow> storage_error + store_snapshot" where
  "file_snapshot env fs = import_bundle env (fs_root fs)"

definition file_restore ::
    "bundle_env \<Rightarrow> file_store \<Rightarrow> store_snapshot \<Rightarrow> (file_store \<times> (storage_error + unit)) option" where
  "file_restore env fs sn =
     map_option (\<lambda>(d, res). (fs\<lparr>fs_root := d\<rparr>, and_then res (\<lambda>_. Inr ())))
       (export_bundle env sn (fs_root fs) (fs_shard_count fs))"

section \<open>Swapping bundles\<close>

text \<open>Both streams in id order; the right one wins on equal ids, and an error is passed on.\<close>

fun merge_by_id ::
    "(storage_error + store_record) list \<Rightarrow> (storage_error + store_record) list \<Rightarrow> (storage_error + store_record) list" where
  "merge_by_id (Inl e # ls) rs = Inl e # merge_by_id ls rs"
| "merge_by_id [] (Inl e # rs) = Inl e # merge_by_id [] rs"
| "merge_by_id (Inr l # ls) (Inl e # rs) = Inl e # merge_by_id (Inr l # ls) rs"
| "merge_by_id [] [] = []"
| "merge_by_id (Inr l # ls) [] = Inr l # merge_by_id ls []"
| "merge_by_id [] (Inr r # rs) = Inr r # merge_by_id [] rs"
| "merge_by_id (Inr l # ls) (Inr r # rs) =
     (if sr_id l < sr_id r then Inr l # merge_by_id ls (Inr r # rs)
      else if sr_id r < sr_id l then Inr r # merge_by_id (Inr l # ls) rs
      else Inr r # merge_by_id ls rs)"

text \<open>
  The bundle's directory and the temporary one beside it. \<open>rename_error\<close> is the outcome of the
  rename; removing a directory is taken to succeed.
\<close>

record swap_disk =
  sd_live :: dir
  sd_tmp :: dir

definition replace_bundle :: "str option \<Rightarrow> swap_disk \<Rightarrow> swap_disk \<times> (storage_error + unit)" where
  "replace_bundle rename_error sd =
     (let removed = sd\<lparr>sd_live := Map.empty\<rparr> in
      case rename_error of
        Some e \<Rightarrow> (removed, Inl (StorageIo e))
      | None \<Rightarrow> (\<lparr>sd_live = sd_tmp sd, sd_tmp = Map.empty\<rparr>, Inr ()))"

definition write_then_swap ::
    "str option \<Rightarrow> dir \<Rightarrow> (dir \<Rightarrow> (dir \<times> (storage_error + unit)) option) \<Rightarrow>
     (swap_disk \<times> (storage_error + unit)) option" where
  "write_then_swap rename_error dst write =
     Option.bind (write Map.empty) (\<lambda>(tmp, written).
     let sd = \<lparr>sd_live = dst, sd_tmp = tmp\<rparr>;
         (sd', res) = (case written of Inl e \<Rightarrow> (sd, Inl e) | Inr _ \<Rightarrow> replace_bundle rename_error sd)
     in case res of
          Inr _ \<Rightarrow> Some (sd', Inr ())
        | Inl e \<Rightarrow> Some (sd'\<lparr>sd_tmp := Map.empty\<rparr>, Inl e))"

definition reshard ::
    "bundle_env \<Rightarrow> str option \<Rightarrow> file_store \<Rightarrow> u32 \<Rightarrow> (file_store \<times> (storage_error + unit)) option" where
  "reshard env rename_error fs n =
     (case stream_bundle env (fs_root fs) of
        Inl e \<Rightarrow> Some (fs, Inl e)
      | Inr c \<Rightarrow>
          map_option (\<lambda>(sd, res). (fs\<lparr>fs_root := sd_live sd\<rparr>, res))
            (write_then_swap rename_error (fs_root fs)
               (\<lambda>dst. map_option (apsnd (\<lambda>res. and_then res (\<lambda>_. Inr ()))) (export_stream env (cursor_all c) dst n))))"

definition with_shard_count :: "bundle_env \<Rightarrow> str option \<Rightarrow> file_store \<Rightarrow> u32 \<Rightarrow> file_store option" where
  "with_shard_count env rename_error fs n =
     (let target = max n 1 in
      if target \<noteq> fs_shard_count fs
      then map_option (\<lambda>(fs', res). case res of Inr () \<Rightarrow> fs'\<lparr>fs_shard_count := target\<rparr> | Inl _ \<Rightarrow> fs')
             (reshard env rename_error fs target)
      else Some fs)"

definition file_import ::
    "bundle_env \<Rightarrow> str option \<Rightarrow> file_store \<Rightarrow> dir \<Rightarrow> (file_store \<times> (storage_error + unit)) option" where
  "file_import env rename_error fs root =
     (case and_then (stream_bundle env (fs_root fs)) (\<lambda>a. and_then (stream_bundle env root) (\<lambda>b. Inr (a, b))) of
        Inl e \<Rightarrow> Some (fs, Inl e)
      | Inr (existing, incoming) \<Rightarrow>
          map_option (\<lambda>(sd, res). (fs\<lparr>fs_root := sd_live sd\<rparr>, res))
            (write_then_swap rename_error (fs_root fs)
               (\<lambda>dst. map_option (apsnd (\<lambda>res. and_then res (\<lambda>_. Inr ())))
                  (export_stream env (merge_by_id (cursor_all existing) (cursor_all incoming)) dst (fs_shard_count fs)))))"

section \<open>As a store\<close>

text \<open>A caller that catches the panic of \<open>field_len\<close> sees a failed call.\<close>

definition unless_panic :: "'a \<Rightarrow> ('a \<times> (storage_error + 'b)) option \<Rightarrow> 'a \<times> (storage_error + 'b)" where
  "unless_panic a res =
     (case res of Some x \<Rightarrow> x | None \<Rightarrow> (a, Inl (StorageIo ''bundle field length exceeds u32 (4 GiB cap)'')))"

definition file_ops :: "bundle_env \<Rightarrow> file_store storage_ops" where
  "file_ops env = \<lparr>so_save = (\<lambda>fs r. unless_panic fs (file_save env fs r)), so_load = file_load env,
     so_delete = (\<lambda>fs i. unless_panic fs (file_delete env fs i)), so_list = file_list env,
     so_records = file_records env, so_snapshot = file_snapshot env,
     so_restore = (\<lambda>fs sn. unless_panic fs (file_restore env fs sn))\<rparr>"

section \<open>The contract\<close>

definition file_repr :: "bundle_env \<Rightarrow> file_store \<Rightarrow> records_map \<Rightarrow> regions_map \<Rightarrow> bool" where
  "file_repr env fs C R \<longleftrightarrow>
     (\<exists>rs. bundle_of env (fs_root fs) (fs_shard_count fs) rs \<and> records_fit rs \<and>
        sorted_wrt (<) (map sr_id rs) \<and> bt_get (record_entries rs) = C) \<and> R = Map.empty"

definition file_room :: "records_map \<Rightarrow> bool" where
  "file_room C \<longleftrightarrow> finite (dom C) \<and> card (dom C) < 2 ^ 32"

lemma entries_ok: "sorted_wrt (<) (map sr_id rs) \<longleftrightarrow> snapshot_ok (record_entries rs)"
  by (auto simp: snapshot_ok_def record_entries_def bt_ok_def o_def)

lemma entries_get: "sorted_wrt (<) (map sr_id rs) \<Longrightarrow> bt_get (record_entries rs) i = Some r \<longleftrightarrow> r \<in> set rs \<and> sr_id r = i"
  by (subst bt_get_iff) (auto simp: record_entries_def bt_ok_def o_def)

lemma entries_dom: "dom (bt_get (record_entries rs)) = sr_id ` set rs"
  by (simp add: bt_keys_dom[symmetric] bt_keys_def record_entries_def image_image)

lemma room_length: "sorted_wrt (<) (map sr_id rs) \<Longrightarrow> file_room (bt_get (record_entries rs)) \<longleftrightarrow> length rs < 2 ^ 32"
  unfolding file_room_def entries_dom
  by (metis List.finite_set card_image distinct_card distinct_map finite_imageI strict_sorted_iff)

text \<open>The lists that saving and deleting make of a list in id order.\<close>

lemma upsert_list:
  assumes "distinct (map sr_id rs)"
  shows "set (upsert_sorted r rs) = insert r {x \<in> set rs. sr_id x \<noteq> sr_id r} \<and> distinct (map sr_id (upsert_sorted r rs))"
proof (cases "position (\<lambda>x. sr_id x = sr_id r) rs")
  case None
  let ?p = "length (takeWhile (\<lambda>x. sr_id x < sr_id r) rs)"
  have new: "\<forall>x \<in> set rs. sr_id x \<noteq> sr_id r" using None by (simp add: position_None)
  have u: "upsert_sorted r rs = take ?p rs @ r # drop ?p rs" using None by (simp add: upsert_sorted_def Let_def)
  have m: "mset (upsert_sorted r rs) = mset (r # rs)"
    unfolding u by simp (metis append_take_drop_id mset_append)
  then have "set (upsert_sorted r rs) = set (r # rs)" by (rule mset_eq_setD)
  moreover have "mset (map sr_id (upsert_sorted r rs)) = mset (map sr_id (r # rs))" using m by (metis mset_map)
  then have "distinct (map sr_id (upsert_sorted r rs)) \<longleftrightarrow> distinct (map sr_id (r # rs))"
    by (rule mset_eq_imp_distinct_iff)
  moreover have "distinct (map sr_id (r # rs))" using assms new by auto
  ultimately show ?thesis using new by auto
next
  case (Some p)
  then have p: "p < length rs" "sr_id (rs ! p) = sr_id r" using position_Some by fastforce+
  have ids: "map sr_id (rs[p := r]) = map sr_id rs" using p by (simp add: map_update list_update_same_conv)
  have "set (rs[p := r]) = insert r {x \<in> set rs. sr_id x \<noteq> sr_id r}"
  proof -
    have "x = rs ! p" if "x \<in> set rs" "sr_id x = sr_id r" for x
      using find_distinct[OF assms that(1)] find_distinct[OF assms nth_mem[OF p(1)]] that(2) p(2) by simp
    then have "{x \<in> set rs. sr_id x \<noteq> sr_id r} = set rs - {rs ! p}" using p(2) by auto
    moreover have "distinct rs" using assms by (simp add: distinct_map)
    ultimately show ?thesis using set_update_distinct[of rs p r] p(1) by simp
  qed
  then show ?thesis using Some ids assms by (simp add: upsert_sorted_def)
qed

lemma remove_list:
  assumes "distinct (map sr_id rs)"
  shows "set (remove_id i rs) = {x \<in> set rs. sr_id x \<noteq> i} \<and> distinct (map sr_id (remove_id i rs))"
proof (cases "position (\<lambda>r. sr_id r = i) rs")
  case None
  then have "remove_id i rs = rs" by (simp add: remove_id_def)
  moreover have "\<forall>x \<in> set rs. sr_id x \<noteq> i" using None by (simp add: position_None)
  ultimately show ?thesis using assms by auto
next
  case (Some p)
  then have p: "p < length rs" "sr_id (rs ! p) = i" using position_Some by fastforce+
  have split: "rs = take p rs @ rs ! p # drop (Suc p) rs" using p(1) by (rule id_take_nth_drop)
  have "distinct (map sr_id (take p rs @ rs ! p # drop (Suc p) rs))" using assms split by metis
  then have "set (take p rs @ drop (Suc p) rs) = {x \<in> set (take p rs @ rs ! p # drop (Suc p) rs). sr_id x \<noteq> i}"
    "distinct (map sr_id (take p rs @ drop (Suc p) rs))"
    using p(2) by (auto simp: image_iff)
  then show ?thesis using Some split by (simp add: remove_id_def remove_at_def)
qed

text \<open>A rewritten shard gives the bundle of the changed list.\<close>

lemma rewrite_repr:
  assumes "json_law env" "bundle_of env d n rs" "records_fit rs" "sorted_wrt (<) (map sr_id rs)"
    "records_fit rs'" "sorted_wrt (<) (map sr_id rs')" "i < n"
    "distinct (map sr_id (mutate (shard_part n rs i)))"
    "set (mutate (shard_part n rs i)) = {x \<in> set rs'. shard_of (sr_id x) n = i}"
    "{x \<in> set rs'. shard_of (sr_id x) n \<noteq> i} = {x \<in> set rs. shard_of (sr_id x) n \<noteq> i}"
  shows "\<exists>d'. rewrite_shard env d n i mutate = Some (d', Inr ()) \<and> bundle_of env d' n rs'"
proof (rule rewrite_shard_bundle[OF assms(1,2,3,5,7)])
  have sorted: "sorted_wrt (<) (map sr_id (shard_part n q j))" if "sorted_wrt (<) (map sr_id q)" for q j
    using that by (simp add: shard_part_def sorted_wrt_map sorted_wrt_filter)
  show "sort_key sr_id (mutate (shard_part n rs i)) = shard_part n rs' i"
  proof (rule id_order_unique)
    show "sorted_wrt (<) (map sr_id (sort_key sr_id (mutate (shard_part n rs i))))"
      using assms(8) by (simp add: strict_sorted_iff distinct_map)
  qed (use sorted[OF assms(6)] assms(9) in \<open>auto simp: shard_part_def\<close>)
  show "shard_part n rs' j = shard_part n rs j" if "j \<noteq> i" for j
    by (rule id_order_unique[OF sorted[OF assms(6)] sorted[OF assms(4)]])
      (use assms(10) that in \<open>auto simp: shard_part_def\<close>)
qed

lemma shard_index: "1 \<le> n \<Longrightarrow> shard_index_of i n = shard_of i n" "1 \<le> n \<Longrightarrow> shard_index_of i n < n"
  using shard_of_less by (simp_all add: shard_index_of_def max_absorb1)

lemma file_save_repr:
  assumes "json_law env" "file_repr env fs C R" "rec_fits r" "file_room (C(sr_id r \<mapsto> r))"
  shows "\<exists>fs'. file_save env fs r = Some (fs', Inr ()) \<and> file_repr env fs' (C(sr_id r \<mapsto> r)) R"
proof -
  obtain rs where rs: "bundle_of env (fs_root fs) (fs_shard_count fs) rs" "records_fit rs"
    "sorted_wrt (<) (map sr_id rs)" "bt_get (record_entries rs) = C" "R = Map.empty"
    using assms(2) by (auto simp: file_repr_def)
  let ?n = "fs_shard_count fs" and ?sn = "bt_insert (sr_id r) r (record_entries rs)"
  define rs' where "rs' = map snd ?sn"
  have n: "1 \<le> ?n" using rs(1) by (simp add: bundle_of_def)
  have sn: "snapshot_ok ?sn" using rs(3) by (simp add: entries_ok)
  then have e: "record_entries rs' = ?sn" by (simp add: rs'_def entries_snapshot)
  have s: "sorted_wrt (<) (map sr_id rs')" using sn e by (simp add: entries_ok)
  have C: "bt_get (record_entries rs') = C(sr_id r \<mapsto> r)" using rs(3,4) e by (simp add: entries_ok)
  have set: "x \<in> set rs' \<longleftrightarrow> x = r \<or> x \<in> set rs \<and> sr_id x \<noteq> sr_id r" for x
    using entries_get[OF s, of "sr_id x" x] entries_get[OF rs(3), of "sr_id x" x] C rs(4)
    by (cases "sr_id x = sr_id r") auto
  have fit: "records_fit rs'"
    using rs(2) assms(3,4) set room_length[OF s] C by (auto simp: records_fit_def)
  have dist: "distinct (map sr_id (shard_part ?n rs i))" for i
    using rs(3) by (simp add: shard_part_def strict_sorted_iff distinct_map_filter)
  have "\<exists>d'. rewrite_shard env (fs_root fs) ?n (shard_index_of (sr_id r) ?n) (upsert_sorted r) = Some (d', Inr ()) \<and>
      bundle_of env d' ?n rs'"
    by (rule rewrite_repr[OF assms(1) rs(1,2,3) fit s shard_index(2)[OF n]])
      (use upsert_list[OF dist] set in \<open>auto simp: shard_index(1)[OF n] shard_part_def\<close>)
  then show ?thesis using fit s C rs(5) by (auto simp: file_save_def file_repr_def)
qed

lemma file_delete_repr:
  assumes "json_law env" "file_repr env fs C R"
  shows "\<exists>fs'. file_delete env fs i = Some (fs', Inr (C i \<noteq> None)) \<and> file_repr env fs' (C(i := None)) R"
proof -
  obtain rs where rs: "bundle_of env (fs_root fs) (fs_shard_count fs) rs" "records_fit rs"
    "sorted_wrt (<) (map sr_id rs)" "bt_get (record_entries rs) = C" "R = Map.empty"
    using assms(2) by (auto simp: file_repr_def)
  let ?n = "fs_shard_count fs" and ?i = "shard_index_of i (fs_shard_count fs)"
  define rs' where "rs' = filter (\<lambda>x. sr_id x \<noteq> i) rs"
  have n: "1 \<le> ?n" using rs(1) by (simp add: bundle_of_def)
  have s: "sorted_wrt (<) (map sr_id rs')" using rs(3) by (simp add: rs'_def sorted_wrt_map sorted_wrt_filter)
  have "record_entries rs' = bt_remove i (record_entries rs)" by (simp add: rs'_def record_entries_def bt_remove_def filter_map o_def)
  then have C: "bt_get (record_entries rs') = C(i := None)" using rs(4) by simp
  have fit: "records_fit rs'"
    using rs(2) le_less_trans[OF length_filter_le] by (auto simp: records_fit_def rs'_def)
  have dist: "distinct (map sr_id (shard_part ?n rs j))" for j
    using rs(3) by (simp add: shard_part_def strict_sorted_iff distinct_map_filter)
  have w: "\<exists>d'. rewrite_shard env (fs_root fs) ?n ?i (remove_id i) = Some (d', Inr ()) \<and> bundle_of env d' ?n rs'"
    by (rule rewrite_repr[OF assms(1) rs(1,2,3) fit s shard_index(2)[OF n]])
      (use remove_list[OF dist] in \<open>auto simp: shard_index(1)[OF n] shard_part_def rs'_def\<close>)
  have "(position (\<lambda>r. sr_id r = i) (shard_part ?n rs ?i) \<noteq> None) \<longleftrightarrow> C i \<noteq> None"
  proof -
    have "C i \<noteq> None \<longleftrightarrow> (\<exists>r \<in> set rs. sr_id r = i)"
      using entries_dom[of rs] rs(4) domIff[of i C] by (auto simp: image_iff)
    moreover have "position (\<lambda>r. sr_id r = i) (shard_part ?n rs ?i) \<noteq> None \<longleftrightarrow>
        (\<exists>r \<in> set (shard_part ?n rs ?i). sr_id r = i)"
      by (simp add: position_None)
    ultimately show ?thesis by (auto simp: shard_part_def shard_index(1)[OF n])
  qed
  then show ?thesis using w fit s C rs(5) read_shard_bundle[OF rs(1,2) shard_index(2)[OF n], of i]
    by (auto simp: file_delete_def file_repr_def Let_def)
qed

lemma file_load_repr:
  assumes "file_repr env fs C R"
  shows "file_load env fs i = ok_or (StorageNotFound i) (C i)"
proof -
  obtain rs where rs: "bundle_of env (fs_root fs) (fs_shard_count fs) rs" "records_fit rs"
    "sorted_wrt (<) (map sr_id rs)" "bt_get (record_entries rs) = C"
    using assms by (auto simp: file_repr_def)
  let ?n = "fs_shard_count fs" and ?i = "shard_index_of i (fs_shard_count fs)"
  have n: "1 \<le> ?n" using rs(1) by (simp add: bundle_of_def)
  have "find (\<lambda>r. sr_id r = i) (shard_part ?n rs ?i) = C i"
  proof (cases "C i")
    case None
    then have "\<not> (\<exists>r \<in> set rs. sr_id r = i)" using entries_dom[of rs] rs(4) domIff[of i C] by (auto simp: image_iff)
    then show ?thesis using None by (auto simp: find_None_iff shard_part_def)
  next
    case (Some r)
    then have r: "r \<in> set rs" "sr_id r = i" using entries_get[OF rs(3)] rs(4) by auto
    have d: "distinct (map sr_id (shard_part ?n rs ?i))"
      using rs(3) by (simp add: shard_part_def strict_sorted_iff distinct_map_filter)
    have "r \<in> set (shard_part ?n rs ?i)" using r by (simp add: shard_part_def shard_index(1)[OF n])
    from find_distinct[OF d this] show ?thesis using Some r(2) by simp
  qed
  then show ?thesis
    by (simp add: file_load_def read_shard_bundle[OF rs(1,2) shard_index(2)[OF n]])
qed

lemma file_list_repr:
  assumes "file_repr env fs C R"
  shows "\<exists>is. file_list env fs = Inr is \<and> set is = dom C \<and> sorted_wrt (<) is"
proof -
  obtain rs where rs: "bundle_of env (fs_root fs) (fs_shard_count fs) rs" "records_fit rs"
    "sorted_wrt (<) (map sr_id rs)" "bt_get (record_entries rs) = C"
    using assms by (auto simp: file_repr_def)
  let ?n = "fs_shard_count fs"
  let ?all = "concat (map (shard_part ?n rs) (shard_ids ?n))"
  have n: "1 \<le> ?n" using rs(1) by (simp add: bundle_of_def)
  have k: "id_sink = total_sink (\<lambda>ids r. ids @ [sr_id r])" by (simp add: fun_eq_iff id_sink_def total_sink_def)
  have "foldl (\<lambda>ids r. ids @ [sr_id r]) a xs = a @ map sr_id xs" for a and xs :: "store_record list"
    by (induction xs arbitrary: a) simp_all
  then have "file_list env fs = Inr (sort (map sr_id ?all))"
    by (simp add: file_list_def k import_stream_bundle[OF rs(1,2)])
  moreover have "set (sort (map sr_id ?all)) = dom C"
    using parts_set[OF n, of rs] entries_dom[of rs] rs(4) by (simp only: set_sort set_map)
  moreover have "sorted_wrt (<) (sort (map sr_id ?all))"
    using parts_distinct[of rs ?n] rs(3) by (simp add: strict_sorted_iff del: map_concat)
  ultimately show ?thesis by blast
qed

lemma file_records_repr:
  assumes "file_repr env fs C R"
  shows "\<exists>sn. file_records env fs = Inr (map snd sn) \<and> snapshot_ok sn \<and> bt_get sn = C"
proof -
  obtain rs where rs: "bundle_of env (fs_root fs) (fs_shard_count fs) rs" "records_fit rs"
    "sorted_wrt (<) (map sr_id rs)" "bt_get (record_entries rs) = C"
    using assms by (auto simp: file_repr_def)
  obtain c where c: "stream_bundle env (fs_root fs) = Inr c" "cursor_all c = map Inr rs"
    using stream_bundle_all[OF rs(1,2,3)] by blast
  have "try_map (\<lambda>item. item) (map Inr rs) = (Inr rs :: storage_error + store_record list)"
    by (induction rs) simp_all
  then have "file_records env fs = Inr (map snd (record_entries rs))"
    by (simp add: file_records_def c record_entries_def o_def)
  then show ?thesis using rs(3,4) by (auto simp: entries_ok)
qed

lemma file_snapshot_repr:
  assumes "file_repr env fs C R"
  shows "\<exists>sn. file_snapshot env fs = Inr sn \<and> snapshot_ok sn \<and> bt_get sn = C"
  using assms import_bundle_entries by (auto simp: file_repr_def file_snapshot_def entries_ok)

text \<open>A list written out is what the adapter then represents.\<close>

lemma written_repr:
  assumes "records_fit rs" "sorted_wrt (<) (map sr_id rs)" "bundle_of env d n rs"
  shows "file_repr env \<lparr>fs_root = d, fs_shard_count = n\<rparr> (bt_get (record_entries rs)) Map.empty"
  using assms by (auto simp: file_repr_def)

lemma snapshot_fits:
  assumes "snapshot_ok sn" "\<forall>r \<in> snd ` set sn. rec_fits r" "file_room (bt_get sn)"
  shows "records_fit (map snd sn)" "sorted_wrt (<) (map sr_id (map snd sn))" "record_entries (map snd sn) = sn"
proof -
  show e: "record_entries (map snd sn) = sn" by (rule entries_snapshot[OF assms(1)])
  then show s: "sorted_wrt (<) (map sr_id (map snd sn))" using assms(1) by (metis entries_ok)
  show "records_fit (map snd sn)"
    using room_length[OF s] assms(2,3) e by (simp add: records_fit_def)
qed

lemma file_restore_repr:
  assumes "json_law env" "file_repr env fs C R" "snapshot_ok sn" "\<forall>r \<in> snd ` set sn. rec_fits r"
    "file_room (bt_get sn)"
  shows "\<exists>fs'. file_restore env fs sn = Some (fs', Inr ()) \<and> file_repr env fs' (bt_get sn) Map.empty"
proof -
  let ?n = "fs_shard_count fs"
  have n: "max ?n 1 = ?n" using assms(2) by (auto simp: file_repr_def bundle_of_def max_absorb1)
  note f = snapshot_fits[OF assms(3,4,5)]
  obtain d where "export_stream env (map Inr (map snd sn)) (fs_root fs) ?n = Some (d, Inr (manifest_for ?n (map snd sn)))"
    "bundle_of env d ?n (map snd sn)"
    using export_bundle_of[OF assms(1) f(1), of "fs_root fs" ?n] n by auto
  then show ?thesis using written_repr[OF f(1,2)] f(3)
    by (cases fs) (simp add: file_restore_def export_bundle_def snapshot_records_def)
qed

text \<open>The adapter is a store wherever the manifest's JSON reads back.\<close>

locale bundle_files =
  fixes env :: bundle_env
  assumes json: "json_law env"

sublocale bundle_files \<subseteq> file_adapter: record_store "file_ops env" rec_fits file_room "file_repr env"
proof
  fix a C R and r :: store_record and a' x
  assume "file_repr env a C R" "rec_fits r" "file_room (C(sr_id r \<mapsto> r))" "so_save (file_ops env) a r = (a', x)"
  then show "x = Inr () \<and> file_repr env a' (C(sr_id r \<mapsto> r)) R"
    using file_save_repr[OF json] by (fastforce simp: file_ops_def unless_panic_def)
next
  fix a C R i a' x
  assume r: "file_repr env a C R" "so_delete (file_ops env) a i = (a', x)"
  moreover have "R(i := None) = R" using r(1) by (auto simp: file_repr_def)
  ultimately show "x = Inr (C i \<noteq> None) \<and> file_repr env a' (C(i := None)) (R(i := None))"
    using file_delete_repr[OF json, of a C R i] by (auto simp: file_ops_def unless_panic_def)
next
  fix a C R sn a' x
  assume "file_repr env a C R" "snapshot_ok sn" "\<forall>r \<in> snd ` set sn. rec_fits r" "file_room (bt_get sn)"
    "so_restore (file_ops env) a sn = (a', x)"
  then show "x = Inr () \<and> file_repr env a' (bt_get sn) Map.empty"
    using file_restore_repr[OF json] by (fastforce simp: file_ops_def unless_panic_def)
next
  fix a C R i r
  assume "file_repr env a C R" "C i = Some r"
  then show "sr_id r = i \<and> rec_fits r"
    using entries_get by (fastforce simp: file_repr_def records_fit_def)
next
  fix C D :: records_map
  assume "file_room C" "dom D \<subseteq> dom C"
  then show "file_room D"
    unfolding file_room_def by (meson card_mono finite_subset le_less_trans)
qed (use file_load_repr file_list_repr file_records_repr file_snapshot_repr in \<open>auto simp: file_ops_def\<close>)

section \<open>Import and reshard\<close>

text \<open>Two lists in id order merge to the list of the combined map.\<close>

fun merge_records :: "store_record list \<Rightarrow> store_record list \<Rightarrow> store_record list" where
  "merge_records [] rs = rs"
| "merge_records ls [] = ls"
| "merge_records (l # ls) (r # rs) =
     (if sr_id l < sr_id r then l # merge_records ls (r # rs)
      else if sr_id r < sr_id l then r # merge_records (l # ls) rs else r # merge_records ls rs)"

lemma merge_by_id_records: "merge_by_id (map Inr ls) (map Inr rs) = map Inr (merge_records ls rs)"
proof -
  have "merge_by_id (map Inr ls) [] = map Inr ls" for ls by (induction ls) simp_all
  moreover have "merge_by_id [] (map Inr rs) = map Inr rs" for rs by (induction rs) simp_all
  ultimately show ?thesis by (induction ls rs rule: merge_records.induct) simp_all
qed

lemma merge_records_ids: "set (merge_records ls rs) \<subseteq> set ls \<union> set rs"
  by (induction ls rs rule: merge_records.induct) auto

lemma merge_records_sorted:
  assumes "sorted_wrt (<) (map sr_id ls)" "sorted_wrt (<) (map sr_id rs)"
  shows "sorted_wrt (<) (map sr_id (merge_records ls rs)) \<and>
    set (merge_records ls rs) = set rs \<union> {l \<in> set ls. \<forall>r \<in> set rs. sr_id r \<noteq> sr_id l}"
  using assms
proof (induction ls rs rule: merge_records.induct)
  case (3 l ls r rs)
  consider "sr_id l < sr_id r" | "sr_id r < sr_id l" | "sr_id l = sr_id r" by fastforce
  then show ?case
  proof cases
    case 1
    then have n: "\<forall>x \<in> set (r # rs). sr_id l < sr_id x" using 3(5) by auto
    have IH: "sorted_wrt (<) (map sr_id (merge_records ls (r # rs)))"
      "set (merge_records ls (r # rs)) = set (r # rs) \<union> {l \<in> set ls. \<forall>r \<in> set (r # rs). sr_id r \<noteq> sr_id l}"
      using 3(1)[OF 1] 3(4,5) by simp_all
    have "\<forall>x \<in> set (merge_records ls (r # rs)). sr_id l < sr_id x" unfolding IH(2) using n 3(4) by auto
    moreover have "\<forall>x \<in> set (r # rs). sr_id x \<noteq> sr_id l" using n by auto
    ultimately show ?thesis using 1 IH by auto
  next
    case 2
    then have n: "\<forall>x \<in> set (l # ls). sr_id r < sr_id x" using 3(4) by auto
    have IH: "sorted_wrt (<) (map sr_id (merge_records (l # ls) rs))"
      "set (merge_records (l # ls) rs) = set rs \<union> {x \<in> set (l # ls). \<forall>r \<in> set rs. sr_id r \<noteq> sr_id x}"
      using 3(2)[OF _ 2] 2 3(4,5) by auto
    have "\<forall>x \<in> set (merge_records (l # ls) rs). sr_id r < sr_id x" unfolding IH(2) using n 3(5) by auto
    moreover have "\<forall>x \<in> set (l # ls). sr_id r \<noteq> sr_id x" using n by auto
    ultimately show ?thesis using 2 IH by auto
  next
    case e: 3
    have IH: "sorted_wrt (<) (map sr_id (merge_records ls rs))"
      "set (merge_records ls rs) = set rs \<union> {x \<in> set ls. \<forall>r \<in> set rs. sr_id r \<noteq> sr_id x}"
      using 3(3) e 3(4,5) by auto
    have n: "\<forall>x \<in> set ls. sr_id r < sr_id x" using 3(4) e by auto
    have "\<forall>x \<in> set (merge_records ls rs). sr_id r < sr_id x" unfolding IH(2) using n 3(5) by auto
    moreover have "\<forall>x \<in> set ls. sr_id r \<noteq> sr_id x" using n by auto
    ultimately show ?thesis using e IH by auto
  qed
qed auto

text \<open>The merged bundle is written whole before the swap; a swap whose rename fails leaves neither.\<close>

lemma import_written:
  assumes "json_law env" "file_repr env fs C R" "bundle_of env root m qs" "records_fit qs"
    "sorted_wrt (<) (map sr_id qs)" "file_room (C ++ bt_get (record_entries qs))"
  shows "\<exists>d. file_repr env (fs\<lparr>fs_root := d\<rparr>) (C ++ bt_get (record_entries qs)) Map.empty \<and>
    (\<forall>failed. file_import env failed fs root = Some (case failed of
        None \<Rightarrow> (fs\<lparr>fs_root := d\<rparr>, Inr ())
      | Some e \<Rightarrow> (fs\<lparr>fs_root := Map.empty\<rparr>, Inl (StorageIo e))))"
proof -
  obtain rs where rs: "bundle_of env (fs_root fs) (fs_shard_count fs) rs" "records_fit rs"
    "sorted_wrt (<) (map sr_id rs)" "bt_get (record_entries rs) = C"
    using assms(2) by (auto simp: file_repr_def)
  obtain a where a: "stream_bundle env (fs_root fs) = Inr a" "cursor_all a = map Inr rs"
    using stream_bundle_all[OF rs(1,2,3)] by blast
  obtain b where b: "stream_bundle env root = Inr b" "cursor_all b = map Inr qs"
    using stream_bundle_all[OF assms(3,4,5)] by blast
  let ?all = "merge_records rs qs"
  have s: "sorted_wrt (<) (map sr_id ?all)"
    "set ?all = set qs \<union> {l \<in> set rs. \<forall>r \<in> set qs. sr_id r \<noteq> sr_id l}"
    using merge_records_sorted[OF rs(3) assms(5)] by simp_all
  have get: "bt_get (record_entries ?all) = C ++ bt_get (record_entries qs)"
  proof (rule ext)
    fix i
    have iff: "bt_get (record_entries ?all) i = Some r \<longleftrightarrow> (C ++ bt_get (record_entries qs)) i = Some r" for r
      using entries_get[OF s(1), of i r] entries_get[OF rs(3), of i r] entries_get[OF assms(5), of i] rs(4)
        entries_dom[of qs] domIff[of i "bt_get (record_entries qs)"]
      by (auto simp: s(2) map_add_Some_iff image_iff)
    show "bt_get (record_entries ?all) i = (C ++ bt_get (record_entries qs)) i"
      using iff by (metis not_None_eq)
  qed
  have fit: "records_fit ?all"
    using rs(2) assms(4,6) room_length[OF s(1)] get s(2) by (auto simp: records_fit_def)
  have n: "max (fs_shard_count fs) 1 = fs_shard_count fs" using rs(1) by (simp add: bundle_of_def max_absorb1)
  obtain d where d: "export_stream env (map Inr ?all) Map.empty (fs_shard_count fs) =
      Some (d, Inr (manifest_for (fs_shard_count fs) ?all))" "bundle_of env d (fs_shard_count fs) ?all"
    using export_bundle_of[OF assms(1) fit, of Map.empty "fs_shard_count fs"] n by auto
  have "file_import env failed fs root = Some (case failed of
        None \<Rightarrow> (fs\<lparr>fs_root := d\<rparr>, Inr ()) | Some e \<Rightarrow> (fs\<lparr>fs_root := Map.empty\<rparr>, Inl (StorageIo e)))" for failed
    by (cases failed) (simp_all add: file_import_def a b merge_by_id_records d(1) write_then_swap_def replace_bundle_def)
  moreover have "file_repr env (fs\<lparr>fs_root := d\<rparr>) (C ++ bt_get (record_entries qs)) Map.empty"
    using written_repr[OF fit s(1) d(2)] get by (cases fs) simp
  ultimately show ?thesis by blast
qed

section \<open>A codec for manifests\<close>

text \<open>The law of the JSON parameter can be kept: a fixed-width encoding that reads back.\<close>

definition pack_entry :: "shard_entry \<Rightarrow> bytes" where
  "pack_entry e = be_bytes 4 (sh_index e) @ be_bytes 4 (sh_records e) @ be_bytes 4 (sh_crc32 e)"

definition pack_manifest :: "manifest \<Rightarrow> bytes" where
  "pack_manifest m = be_bytes 2 (mf_format_version m) @ be_bytes 8 (mf_total_records m) @
     be_bytes 4 (mf_shard_count m) @ concat (map pack_entry (mf_shards m))"

fun unpack_entries :: "nat \<Rightarrow> bytes \<Rightarrow> shard_entry list" where
  "unpack_entries 0 bs = []"
| "unpack_entries (Suc n) bs =
     (if bs = [] then []
      else \<lparr>sh_index = of_nat (be_value (take 4 bs)), sh_records = of_nat (be_value (take 4 (drop 4 bs))),
             sh_crc32 = of_nat (be_value (take 4 (drop 8 bs)))\<rparr> # unpack_entries n (drop 12 bs))"

definition unpack_manifest :: "bytes \<Rightarrow> str + manifest" where
  "unpack_manifest bs =
     (if length bs < 14 then Inl ''EOF while parsing a value''
      else Inr \<lparr>mf_format_version = of_nat (be_value (take 2 bs)), mf_total_records = of_nat (be_value (take 8 (drop 2 bs))),
                mf_shard_count = of_nat (be_value (take 4 (drop 10 bs))),
                mf_shards = unpack_entries (length bs) (drop 14 bs)\<rparr>)"

lemma unpack_pack_entries:
  "length es \<le> n \<Longrightarrow> unpack_entries n (concat (map pack_entry es)) = es"
proof (induction es arbitrary: n)
  case Nil
  then show ?case by (cases n) simp_all
next
  case (Cons e es)
  then obtain k where n: "n = Suc k" "length es \<le> k" by (cases n) auto
  have "length (pack_entry e @ rest) = 12 + length rest" for rest by (simp add: pack_entry_def)
  then have ne: "pack_entry e @ rest \<noteq> []" for rest by (metis add_is_0 list.size(3) zero_neq_numeral)
  let ?bs = "pack_entry e @ concat (map pack_entry es)"
  have "unpack_entries (Suc k) ?bs =
    \<lparr>sh_index = of_nat (be_value (take 4 ?bs)), sh_records = of_nat (be_value (take 4 (drop 4 ?bs))),
      sh_crc32 = of_nat (be_value (take 4 (drop 8 ?bs)))\<rparr> # unpack_entries k (drop 12 ?bs)"
    by (simp only: unpack_entries.simps ne if_False)
  also have "\<dots> = e # unpack_entries k (concat (map pack_entry es))"
    by (simp add: pack_entry_def be_bytes_round)
  finally show ?case using Cons.IH[OF n(2)] n(1) by simp
qed

lemma unpack_pack: "unpack_manifest (pack_manifest m) = Inr m"
proof -
  have "length (concat (map pack_entry es)) = 12 * length es" for es
    by (induction es) (simp_all add: pack_entry_def)
  then show ?thesis
    by (simp add: unpack_manifest_def pack_manifest_def be_bytes_round unpack_pack_entries)
qed

definition packed_env :: bundle_env where
  "packed_env = \<lparr>be_to_json = (\<lambda>m. Inr (pack_manifest m)), be_from_json = unpack_manifest,
     be_path = (\<lambda>name. ''store/'' @ name), be_missing = ''No such file or directory (os error 2)''\<rparr>"

lemma packed_json: "json_law packed_env"
  by (simp add: json_law_def packed_env_def unpack_pack)

interpretation packed_files: bundle_files packed_env
  by unfold_locales (rule packed_json)

end
