(* ===== verification/Coordination.thy ===== *)
theory Coordination
  imports Bytes "HOL-Library.AList"
begin

text \<open>
  Scale-out coordination: \<open>coordination/src/lib.rs\<close>, the in-process coordinator of
  \<open>inmem.rs\<close>, and the hash, the file stem and the frame log of \<open>file.rs\<close>. A call
  reads the clock and then runs its critical section under the lock, so the critical
  sections are the atomic steps and carry the time that was read before them.
\<close>

unbundle bit_operations_syntax

section \<open>State\<close>

record lease =
  ls_canvas_id :: str
  ls_owner :: str
  ls_token :: str
  ls_expires_at :: u64

record lease_entry =
  ln_owner :: str
  ln_token :: str
  ln_expires_at :: u64

record presence_entry =
  pn_val :: bytes
  pn_expires_at :: u64

record coordinator =
  co_leases :: "str \<rightharpoonup> lease_entry"
  co_presence :: "str \<rightharpoonup> (str \<times> presence_entry) list"
  co_counter :: u64

definition coordinator_new :: coordinator where
  "coordinator_new = \<lparr>co_leases = Map.empty, co_presence = Map.empty, co_counter = 0\<rparr>"

text \<open>A duration is its number of milliseconds, a \<open>u128\<close> in the code.\<close>

definition millis_u64 :: "nat \<Rightarrow> u64" where
  "millis_u64 d = (if d < 2 ^ 64 then of_nat d else 18446744073709551615)"

section \<open>Leases\<close>

datatype coordination_error =
    LeasedBy str str u64
  | NoLongerHeld str str

definition next_token :: "coordinator \<Rightarrow> str \<Rightarrow> coordinator \<times> str" where
  "next_token co owner =
     (co\<lparr>co_counter := co_counter co + 1\<rparr>, owner @ ''-'' @ show_nat (unat (co_counter co)))"

definition acquire_lease ::
    "coordinator \<Rightarrow> u64 \<Rightarrow> str \<Rightarrow> str \<Rightarrow> nat \<Rightarrow> coordinator \<times> (coordination_error + lease)" where
  "acquire_lease co now canvas owner ttl =
     (let refused = (case co_leases co canvas of
            None \<Rightarrow> None
          | Some existing \<Rightarrow>
              if now < ln_expires_at existing \<and> ln_owner existing \<noteq> owner
              then Some (LeasedBy canvas (ln_owner existing) (ln_expires_at existing)) else None)
      in case refused of
           Some e \<Rightarrow> (co, Inl e)
         | None \<Rightarrow>
             let (co1, token) = next_token co owner;
                 expires = now + millis_u64 ttl
             in (co1\<lparr>co_leases := (co_leases co1)
                   (canvas \<mapsto> \<lparr>ln_owner = owner, ln_token = token, ln_expires_at = expires\<rparr>)\<rparr>,
                 Inr \<lparr>ls_canvas_id = canvas, ls_owner = owner, ls_token = token, ls_expires_at = expires\<rparr>))"

definition renew :: "coordinator \<Rightarrow> u64 \<Rightarrow> lease \<Rightarrow> nat \<Rightarrow> coordinator \<times> (coordination_error + unit)" where
  "renew co now l ttl =
     (let lost = (co, Inl (NoLongerHeld (ls_canvas_id l) (ls_owner l))) in
      case co_leases co (ls_canvas_id l) of
        None \<Rightarrow> lost
      | Some entry \<Rightarrow>
          if ln_token entry = ls_token l \<and> ln_owner entry = ls_owner l \<and> now < ln_expires_at entry
          then (co\<lparr>co_leases := (co_leases co)
                  (ls_canvas_id l \<mapsto> entry\<lparr>ln_expires_at := now + millis_u64 ttl\<rparr>)\<rparr>, Inr ())
          else lost)"

definition release_lease :: "coordinator \<Rightarrow> lease \<Rightarrow> coordinator" where
  "release_lease co l =
     (case co_leases co (ls_canvas_id l) of
        None \<Rightarrow> co
      | Some entry \<Rightarrow>
          if ln_token entry = ls_token l \<and> ln_owner entry = ls_owner l
          then co\<lparr>co_leases := (co_leases co)(ls_canvas_id l := None)\<rparr> else co)"

definition find_owner :: "coordinator \<Rightarrow> u64 \<Rightarrow> str \<Rightarrow> str option" where
  "find_owner co now canvas =
     (case co_leases co canvas of
        None \<Rightarrow> None
      | Some e \<Rightarrow> if now < ln_expires_at e then Some (ln_owner e) else None)"

section \<open>Presence\<close>

definition presence_put :: "coordinator \<Rightarrow> u64 \<Rightarrow> str \<Rightarrow> str \<Rightarrow> bytes \<Rightarrow> nat \<Rightarrow> coordinator" where
  "presence_put co now canvas key v ttl =
     (let entries = (case co_presence co canvas of None \<Rightarrow> [] | Some es \<Rightarrow> es)
      in co\<lparr>co_presence := (co_presence co)
           (canvas \<mapsto> AList.update key \<lparr>pn_val = v, pn_expires_at = now + millis_u64 ttl\<rparr> entries)\<rparr>)"

text \<open>Expired entries are dropped on the read; the order of the answer is not specified.\<close>

definition presence_get :: "coordinator \<Rightarrow> u64 \<Rightarrow> str \<Rightarrow> coordinator \<times> (str \<times> bytes) list" where
  "presence_get co now canvas =
     (case co_presence co canvas of
        None \<Rightarrow> (co, [])
      | Some es \<Rightarrow>
          let live = filter (\<lambda>(_, e). now < pn_expires_at e) es
          in (co\<lparr>co_presence := (co_presence co)(canvas \<mapsto> live)\<rparr>, map (\<lambda>(k, e). (k, pn_val e)) live))"

section \<open>File names\<close>

definition fnv_offset :: u64 where "fnv_offset = 0xcbf29ce484222325"
definition fnv_prime :: u64 where "fnv_prime = 0x00000100000001b3"

definition fnv1a64 :: "str \<Rightarrow> u64" where
  "fnv1a64 s = foldl (\<lambda>h b. (h XOR of_nat (byte b)) * fnv_prime) fnv_offset s"

definition hex_digit :: "nat \<Rightarrow> char" where
  "hex_digit d = (''0123456789abcdef'' ! d)"

text \<open>\<open>{:016x}\<close>: sixteen lower-case digits, most significant first.\<close>

definition hex16 :: "u64 \<Rightarrow> str" where
  "hex16 w = map (\<lambda>i. hex_digit (unat (drop_bit (4 * (15 - i)) w AND 15))) [0..<16]"

definition ascii_alphanumeric :: "char \<Rightarrow> bool" where
  "ascii_alphanumeric c \<longleftrightarrow> (48 \<le> byte c \<and> byte c \<le> 57) \<or> (65 \<le> byte c \<and> byte c \<le> 90) \<or>
     (97 \<le> byte c \<and> byte c \<le> 122)"

text \<open>
  One underscore for every character that is not alphanumeric: the continuation bytes of a
  multi-byte character (10xxxxxx) give none.
\<close>

definition continuation_byte :: "char \<Rightarrow> bool" where
  "continuation_byte c \<longleftrightarrow> 128 \<le> byte c \<and> byte c < 192"

definition stem :: "str \<Rightarrow> str" where
  "stem canvas =
     map (\<lambda>c. if ascii_alphanumeric c then c else CHR ''_'') (filter (\<lambda>c. \<not> continuation_byte c) canvas)
       @ ''-'' @ hex16 (fnv1a64 canvas)"

section \<open>The file-backed coordinator\<close>

text \<open>
  The lease file and the presence file of a canvas are found under its stem. Under the
  advisory lock a file holds what was last written to it; failing IO is not modelled.
\<close>

record file_coordinator =
  fc_leases :: "str \<rightharpoonup> lease_entry"
  fc_presence :: "str \<rightharpoonup> (str \<times> presence_entry) list"
  fc_counter :: u64

definition file_coordinator_open :: file_coordinator where
  "file_coordinator_open = \<lparr>fc_leases = Map.empty, fc_presence = Map.empty, fc_counter = 0\<rparr>"

definition file_next_token :: "file_coordinator \<Rightarrow> str \<Rightarrow> file_coordinator \<times> str" where
  "file_next_token fc owner =
     (fc\<lparr>fc_counter := fc_counter fc + 1\<rparr>, owner @ ''-'' @ show_nat (unat (fc_counter fc)))"

text \<open>The token is drawn before the lock is taken, also by a call that is then refused.\<close>

definition file_acquire_lease ::
    "file_coordinator \<Rightarrow> u64 \<Rightarrow> str \<Rightarrow> str \<Rightarrow> nat \<Rightarrow> file_coordinator \<times> (coordination_error + lease)" where
  "file_acquire_lease fc0 now canvas owner ttl =
     (let (fc, token) = file_next_token fc0 owner;
          expires = now + millis_u64 ttl;
          refused = (case fc_leases fc (stem canvas) of
            None \<Rightarrow> None
          | Some existing \<Rightarrow>
              if now < ln_expires_at existing \<and> ln_owner existing \<noteq> owner
              then Some (LeasedBy canvas (ln_owner existing) (ln_expires_at existing)) else None)
      in case refused of
           Some e \<Rightarrow> (fc, Inl e)
         | None \<Rightarrow>
             (fc\<lparr>fc_leases := (fc_leases fc)
                (stem canvas \<mapsto> \<lparr>ln_owner = owner, ln_token = token, ln_expires_at = expires\<rparr>)\<rparr>,
              Inr \<lparr>ls_canvas_id = canvas, ls_owner = owner, ls_token = token, ls_expires_at = expires\<rparr>))"

definition file_renew ::
    "file_coordinator \<Rightarrow> u64 \<Rightarrow> lease \<Rightarrow> nat \<Rightarrow> file_coordinator \<times> (coordination_error + unit)" where
  "file_renew fc now l ttl =
     (let lost = (fc, Inl (NoLongerHeld (ls_canvas_id l) (ls_owner l))) in
      case fc_leases fc (stem (ls_canvas_id l)) of
        None \<Rightarrow> lost
      | Some existing \<Rightarrow>
          if ln_token existing = ls_token l \<and> ln_owner existing = ls_owner l \<and> now < ln_expires_at existing
          then (fc\<lparr>fc_leases := (fc_leases fc)(stem (ls_canvas_id l) \<mapsto>
                  \<lparr>ln_owner = ls_owner l, ln_token = ls_token l, ln_expires_at = now + millis_u64 ttl\<rparr>)\<rparr>,
                Inr ())
          else lost)"

definition file_release_lease :: "file_coordinator \<Rightarrow> lease \<Rightarrow> file_coordinator" where
  "file_release_lease fc l =
     (case fc_leases fc (stem (ls_canvas_id l)) of
        None \<Rightarrow> fc
      | Some existing \<Rightarrow>
          if ln_token existing = ls_token l \<and> ln_owner existing = ls_owner l
          then fc\<lparr>fc_leases := (fc_leases fc)(stem (ls_canvas_id l) := None)\<rparr> else fc)"

definition file_find_owner :: "file_coordinator \<Rightarrow> u64 \<Rightarrow> str \<Rightarrow> str option" where
  "file_find_owner fc now canvas =
     (case fc_leases fc (stem canvas) of
        None \<Rightarrow> None
      | Some e \<Rightarrow> if now < ln_expires_at e then Some (ln_owner e) else None)"

definition file_presence_put ::
    "file_coordinator \<Rightarrow> u64 \<Rightarrow> str \<Rightarrow> str \<Rightarrow> bytes \<Rightarrow> nat \<Rightarrow> file_coordinator" where
  "file_presence_put fc now canvas key v ttl =
     (let entries = (case fc_presence fc (stem canvas) of None \<Rightarrow> [] | Some es \<Rightarrow> es)
      in fc\<lparr>fc_presence := (fc_presence fc)
           (stem canvas \<mapsto> AList.update key \<lparr>pn_val = v, pn_expires_at = now + millis_u64 ttl\<rparr> entries)\<rparr>)"

definition file_presence_get ::
    "file_coordinator \<Rightarrow> u64 \<Rightarrow> str \<Rightarrow> file_coordinator \<times> (str \<times> bytes) list" where
  "file_presence_get fc now canvas =
     (let es = (case fc_presence fc (stem canvas) of None \<Rightarrow> [] | Some es \<Rightarrow> es);
          live = filter (\<lambda>(_, e). now < pn_expires_at e) es
      in (fc\<lparr>fc_presence := (fc_presence fc)(stem canvas \<mapsto> live)\<rparr>, map (\<lambda>(k, e). (k, pn_val e)) live))"

section \<open>The frame log\<close>

text \<open>\<open>append_frame\<close>: a message of \<open>2 ^ 32\<close> bytes or more is an error.\<close>

definition append_frame :: "bytes \<Rightarrow> bytes \<Rightarrow> bytes option" where
  "append_frame log msg =
     (if length msg < 2 ^ 32 then Some (log @ le_bytes 4 (of_nat (length msg) :: u32) @ msg) else None)"

function decode_from :: "bytes \<Rightarrow> nat \<Rightarrow> bytes list" where
  "decode_from buf i =
     (if i + 4 \<le> length buf
      then let len = le_nat (take 4 (drop i buf)) in
        if i + 4 + len > length buf then []
        else take len (drop (i + 4) buf) # decode_from buf (i + 4 + len)
      else [])"
  by pat_completeness auto
termination by (relation "measure (\<lambda>(buf, i). length buf - i)") auto

declare decode_from.simps [simp del]

definition decode_frames :: "bytes \<Rightarrow> bytes list" where
  "decode_frames buf = decode_from buf 0"

text \<open>One round of the tail task: what it sends and the next offset.\<close>

definition poll_log :: "bytes \<Rightarrow> nat \<Rightarrow> nat \<times> bytes list" where
  "poll_log log offset =
     (if length log > offset
      then (offset + length (drop offset log), decode_frames (drop offset log))
      else (length log, []))"

section \<open>Laws of the coordination\<close>

text \<open>
  The single-writer guarantee of the coordinators. The contract of a lease table is the
  locale \<open>lease_table\<close>, kept by the in-process and by the file-backed coordinator; a run
  interleaves critical sections whose clock readings may be old, and remembers in an auxiliary
  variable which lease each owner was last given. Then the frame log of the file-backed one.
\<close>

section \<open>Runs\<close>

text \<open>
  \<open>wd_held\<close> maps a slot and an owner to the token and the expiry of the lease the owner was
  last given there.
\<close>

record ('s, 'k) world =
  wd_clock :: u64
  wd_state :: 's
  wd_held :: "'k \<times> str \<rightharpoonup> str \<times> u64"

record 's lease_ops =
  lo_acquire :: "'s \<Rightarrow> u64 \<Rightarrow> str \<Rightarrow> str \<Rightarrow> nat \<Rightarrow> 's \<times> (coordination_error + lease)"
  lo_renew :: "'s \<Rightarrow> u64 \<Rightarrow> lease \<Rightarrow> nat \<Rightarrow> 's \<times> (coordination_error + unit)"
  lo_release :: "'s \<Rightarrow> lease \<Rightarrow> 's"

inductive world_step :: "'s lease_ops \<Rightarrow> (str \<Rightarrow> 'k) \<Rightarrow> ('s, 'k) world \<Rightarrow> ('s, 'k) world \<Rightarrow> bool"
  for ops slot where
  tick: "wd_clock w \<le> t \<Longrightarrow> world_step ops slot w (w\<lparr>wd_clock := t\<rparr>)"
| acquired: "now \<le> wd_clock w \<Longrightarrow> lo_acquire ops (wd_state w) now c own ttl = (s, Inr l) \<Longrightarrow>
    world_step ops slot w (w\<lparr>wd_state := s, wd_held := (wd_held w)((slot c, own) \<mapsto> (ls_token l, ls_expires_at l))\<rparr>)"
| refused: "now \<le> wd_clock w \<Longrightarrow> lo_acquire ops (wd_state w) now c own ttl = (s, Inl e) \<Longrightarrow>
    world_step ops slot w (w\<lparr>wd_state := s\<rparr>)"
| renewed: "now \<le> wd_clock w \<Longrightarrow> lo_renew ops (wd_state w) now l ttl = (s, Inr ()) \<Longrightarrow>
    world_step ops slot w (w\<lparr>wd_state := s,
      wd_held := (wd_held w)((slot (ls_canvas_id l), ls_owner l) \<mapsto> (ls_token l, now + millis_u64 ttl))\<rparr>)"
| lost: "now \<le> wd_clock w \<Longrightarrow> lo_renew ops (wd_state w) now l ttl = (s, Inl e) \<Longrightarrow>
    world_step ops slot w (w\<lparr>wd_state := s\<rparr>)"
| released: "world_step ops slot w (w\<lparr>wd_state := lo_release ops (wd_state w) l,
      wd_held := (case wd_held w (slot (ls_canvas_id l), ls_owner l) of
         None \<Rightarrow> wd_held w
       | Some (tok, _) \<Rightarrow> if tok = ls_token l then (wd_held w)((slot (ls_canvas_id l), ls_owner l) := None) else wd_held w)\<rparr>)"

inductive_cases world_stepE: "world_step ops slot w w'"

inductive world_reach :: "'s lease_ops \<Rightarrow> (str \<Rightarrow> 'k) \<Rightarrow> 's \<Rightarrow> ('s, 'k) world \<Rightarrow> bool"
  for ops slot s0 where
  start: "world_reach ops slot s0 \<lparr>wd_clock = t, wd_state = s0, wd_held = Map.empty\<rparr>"
| more: "world_reach ops slot s0 w \<Longrightarrow> world_step ops slot w w' \<Longrightarrow> world_reach ops slot s0 w'"

text \<open>\<open>live w k a\<close>: the lease last given to \<open>a\<close> has neither expired nor been returned.\<close>

definition live :: "('s, 'k) world \<Rightarrow> 'k \<Rightarrow> str \<Rightarrow> bool" where
  "live w k a \<longleftrightarrow> (\<exists>tok ex. wd_held w (k, a) = Some (tok, ex) \<and> wd_clock w < ex)"

section \<open>The contract\<close>

text \<open>
  A table of lease entries by slot; canvases with the same slot share their lease.
\<close>

locale lease_table =
  fixes ops :: "'s lease_ops"
    and slot :: "str \<Rightarrow> 'k"
    and table :: "'s \<Rightarrow> 'k \<rightharpoonup> lease_entry"
  assumes acquire_ok: "\<And>s now c own ttl s' l. lo_acquire ops s now c own ttl = (s', Inr l) \<Longrightarrow>
      (case table s (slot c) of None \<Rightarrow> True | Some e \<Rightarrow> ln_expires_at e \<le> now \<or> ln_owner e = own) \<and>
      table s' = (table s)(slot c \<mapsto>
        \<lparr>ln_owner = own, ln_token = ls_token l, ln_expires_at = ls_expires_at l\<rparr>)"
    and acquire_err: "\<And>s now c own ttl s' e. lo_acquire ops s now c own ttl = (s', Inl e) \<Longrightarrow> table s' = table s"
    and renew_ok: "\<And>s now l ttl s'. lo_renew ops s now l ttl = (s', Inr ()) \<Longrightarrow>
      (\<exists>e. table s (slot (ls_canvas_id l)) = Some e \<and> ln_owner e = ls_owner l \<and> ln_token e = ls_token l) \<and>
      table s' = (table s)(slot (ls_canvas_id l) \<mapsto>
        \<lparr>ln_owner = ls_owner l, ln_token = ls_token l, ln_expires_at = now + millis_u64 ttl\<rparr>)"
    and renew_err: "\<And>s now l ttl s' e. lo_renew ops s now l ttl = (s', Inl e) \<Longrightarrow> table s' = table s"
    and release_law: "\<And>s l. table (lo_release ops s l) =
      (case table s (slot (ls_canvas_id l)) of
         None \<Rightarrow> table s
       | Some e \<Rightarrow> if ln_token e = ls_token l \<and> ln_owner e = ls_owner l
                    then (table s)(slot (ls_canvas_id l) := None) else table s)"
begin

text \<open>A live lease is the entry of its slot.\<close>

definition held_ok :: "('s, 'k) world \<Rightarrow> bool" where
  "held_ok w \<longleftrightarrow> (\<forall>k a tok ex. wd_held w (k, a) = Some (tok, ex) \<longrightarrow> wd_clock w < ex \<longrightarrow>
     table (wd_state w) k = Some \<lparr>ln_owner = a, ln_token = tok, ln_expires_at = ex\<rparr>)"

lemma held_okD:
  "held_ok w \<Longrightarrow> wd_held w (k, a) = Some (tok, ex) \<Longrightarrow> wd_clock w < ex \<Longrightarrow>
   table (wd_state w) k = Some \<lparr>ln_owner = a, ln_token = tok, ln_expires_at = ex\<rparr>"
  by (simp add: held_ok_def)

lemma held_ok_tick: "held_ok w \<Longrightarrow> wd_clock w \<le> t \<Longrightarrow> held_ok (w\<lparr>wd_clock := t\<rparr>)"
  by (auto simp: held_ok_def dest: le_less_trans)

lemma held_ok_same: "held_ok w \<Longrightarrow> table s = table (wd_state w) \<Longrightarrow> held_ok (w\<lparr>wd_state := s\<rparr>)"
  by (simp add: held_ok_def)

text \<open>A grant at a slot where no other owner is live.\<close>

lemma held_ok_grant:
  assumes "held_ok w" "\<And>a. a \<noteq> own \<Longrightarrow> \<not> live w k a"
    and "table s = (table (wd_state w))(k \<mapsto> \<lparr>ln_owner = own, ln_token = tok, ln_expires_at = ex\<rparr>)"
  shows "held_ok (w\<lparr>wd_state := s, wd_held := (wd_held w)((k, own) \<mapsto> (tok, ex))\<rparr>)"
  using assms by (auto simp: held_ok_def live_def)

lemma held_ok_acquired:
  assumes "held_ok w" "now \<le> wd_clock w" "lo_acquire ops (wd_state w) now c own ttl = (s, Inr l)"
  shows "held_ok (w\<lparr>wd_state := s, wd_held := (wd_held w)((slot c, own) \<mapsto> (ls_token l, ls_expires_at l))\<rparr>)"
proof (rule held_ok_grant[OF assms(1)])
  note law = acquire_ok[OF assms(3)]
  show "table s = (table (wd_state w))(slot c \<mapsto>
      \<lparr>ln_owner = own, ln_token = ls_token l, ln_expires_at = ls_expires_at l\<rparr>)"
    using law by blast
  show "\<not> live w (slot c) a" if "a \<noteq> own" for a
  proof
    assume "live w (slot c) a"
    then obtain tok ex where h: "wd_held w (slot c, a) = Some (tok, ex)" "wd_clock w < ex"
      by (auto simp: live_def)
    have "table (wd_state w) (slot c) = Some \<lparr>ln_owner = a, ln_token = tok, ln_expires_at = ex\<rparr>"
      by (rule held_okD[OF assms(1) h])
    with law have "ex \<le> now \<or> a = own" by auto
    with h(2) assms(2) that show False by auto
  qed
qed

lemma held_ok_renewed:
  assumes "held_ok w" "lo_renew ops (wd_state w) now l ttl = (s, Inr ())"
  shows "held_ok (w\<lparr>wd_state := s,
    wd_held := (wd_held w)((slot (ls_canvas_id l), ls_owner l) \<mapsto> (ls_token l, now + millis_u64 ttl))\<rparr>)"
proof (rule held_ok_grant[OF assms(1)])
  note law = renew_ok[OF assms(2)]
  show "table s = (table (wd_state w))(slot (ls_canvas_id l) \<mapsto>
      \<lparr>ln_owner = ls_owner l, ln_token = ls_token l, ln_expires_at = now + millis_u64 ttl\<rparr>)"
    using law by blast
  show "\<not> live w (slot (ls_canvas_id l)) a" if "a \<noteq> ls_owner l" for a
    using law held_okD[OF assms(1)] that by (fastforce simp: live_def)
qed

lemma held_ok_released:
  assumes "held_ok w"
  shows "held_ok (w\<lparr>wd_state := lo_release ops (wd_state w) l,
    wd_held := (case wd_held w (slot (ls_canvas_id l), ls_owner l) of
         None \<Rightarrow> wd_held w
       | Some (tok, _) \<Rightarrow> if tok = ls_token l then (wd_held w)((slot (ls_canvas_id l), ls_owner l) := None)
                         else wd_held w)\<rparr>)" (is "held_ok (w\<lparr>wd_state := _, wd_held := ?held\<rparr>)")
proof -
  let ?k = "slot (ls_canvas_id l)"
  have "table (lo_release ops (wd_state w) l) k = Some \<lparr>ln_owner = a, ln_token = tok, ln_expires_at = ex\<rparr>"
    if h: "?held (k, a) = Some (tok, ex)" "wd_clock w < ex" for k a tok ex
  proof -
    have w: "wd_held w (k, a) = Some (tok, ex)"
      using h(1) by (auto split: option.splits if_splits)
    have e: "table (wd_state w) k = Some \<lparr>ln_owner = a, ln_token = tok, ln_expires_at = ex\<rparr>"
      by (rule held_okD[OF assms w h(2)])
    have "\<not> (k = ?k \<and> tok = ls_token l \<and> a = ls_owner l)" using h(1) w by auto
    with e show ?thesis by (auto simp: release_law split: option.splits)
  qed
  then show ?thesis by (simp add: held_ok_def)
qed

lemma step_held_ok: "world_step ops slot w w' \<Longrightarrow> held_ok w \<Longrightarrow> held_ok w'"
proof (induction rule: world_step.induct)
  case (acquired now w c own ttl s l)
  then show ?case by (intro held_ok_acquired)
next
  case (renewed now w l ttl s)
  then show ?case by (intro held_ok_renewed)
qed (auto intro: held_ok_tick held_ok_same held_ok_released dest: acquire_err renew_err)

lemma reach_held_ok: "world_reach ops slot s0 w \<Longrightarrow> held_ok w"
proof (induction rule: world_reach.induct)
  case (start t)
  then show ?case by (simp add: held_ok_def)
next
  case (more w w')
  then show ?case by (blast intro: step_held_ok)
qed

text \<open>At most one owner is live at a slot.\<close>

lemma single_writer:
  assumes "world_reach ops slot s0 w" "live w k a" "live w k b"
  shows "a = b"
proof -
  have "held_ok w" by (rule reach_held_ok[OF assms(1)])
  with assms(2,3) have "\<exists>x. table (wd_state w) k = Some x \<and> ln_owner x = a"
    "\<exists>x. table (wd_state w) k = Some x \<and> ln_owner x = b"
    by (auto simp: live_def dest: held_okD)
  then show ?thesis by auto
qed

lemma live_entry:
  assumes "world_reach ops slot s0 w" "live w k a"
  shows "\<exists>e. table (wd_state w) k = Some e \<and> ln_owner e = a \<and> wd_clock w < ln_expires_at e"
  using reach_held_ok[OF assms(1)] assms(2) by (auto simp: live_def dest: held_okD)

end

section \<open>Both coordinators keep the contract\<close>

definition memory_lease_ops :: "coordinator lease_ops" where
  "memory_lease_ops = \<lparr>lo_acquire = acquire_lease, lo_renew = renew, lo_release = release_lease\<rparr>"

definition file_lease_ops :: "file_coordinator lease_ops" where
  "file_lease_ops = \<lparr>lo_acquire = file_acquire_lease, lo_renew = file_renew, lo_release = file_release_lease\<rparr>"

interpretation inproc: lease_table memory_lease_ops "\<lambda>c. c" co_leases
  by unfold_locales
    (auto simp: memory_lease_ops_def acquire_lease_def next_token_def renew_def release_lease_def Let_def
      split: option.splits if_splits)

interpretation onfile: lease_table file_lease_ops stem fc_leases
  by unfold_locales
    (auto simp: file_lease_ops_def file_acquire_lease_def file_next_token_def file_renew_def
      file_release_lease_def Let_def split: option.splits if_splits)

text \<open>A first acquisition reaches a world with a live lease.\<close>

lemma first_lease:
  assumes "lo_acquire ops s0 0 c own ttl = (s, Inr l)" "0 < ls_expires_at l"
  shows "\<exists>w. world_reach ops slot s0 w \<and> live w (slot c) own"
proof -
  let ?w = "\<lparr>wd_clock = 0, wd_state = s0, wd_held = Map.empty\<rparr>"
  have "world_step ops slot ?w (?w\<lparr>wd_state := s, wd_held := (wd_held ?w)((slot c, own) \<mapsto> (ls_token l, ls_expires_at l))\<rparr>)"
    by (rule world_step.acquired) (use assms(1) in simp_all)
  from world_reach.more[OF world_reach.start this] assms(2) show ?thesis
    by (intro exI conjI) (auto simp: live_def)
qed

text \<open>When a call is granted.\<close>

lemma acquire_granted_iff:
  "(\<exists>l. snd (acquire_lease co now c own ttl) = Inr l) \<longleftrightarrow>
   (find_owner co now c = None \<or> find_owner co now c = Some own)"
  by (auto simp: acquire_lease_def find_owner_def next_token_def Let_def split: option.splits)

lemma acquired_owner:
  assumes "acquire_lease co now c own ttl = (co', Inr l)" "t < ls_expires_at l"
  shows "find_owner co' t c = Some own"
  using assms by (auto simp: acquire_lease_def find_owner_def next_token_def Let_def split: option.splits if_splits)

section \<open>The frame log\<close>

definition frame :: "bytes \<Rightarrow> bytes" where
  "frame msg = le_bytes 4 (of_nat (length msg) :: u32) @ msg"

lemma frame_prefix:
  assumes "length msg < 2 ^ 32"
  shows "length (frame msg) = 4 + length msg" "le_nat (take 4 (frame msg)) = length msg"
  using assms by (simp_all add: frame_def le_bytes_round unat_of_nat)

lemma append_frame_iff: "append_frame log msg = Some log' \<longleftrightarrow> length msg < 2 ^ 32 \<and> log' = log @ frame msg"
  by (auto simp: append_frame_def frame_def)

lemma decode_from_shift: "decode_from (xs @ ys) (length xs + i) = decode_from ys i"
proof (induction ys i rule: decode_from.induct)
  case (1 ys i)
  then show ?case
    by (subst (1 2) decode_from.simps) (auto simp: Let_def ac_simps)
qed

text \<open>A whole frame at the head is delivered; a torn one ends the round.\<close>

lemma decode_frame:
  assumes "length msg < 2 ^ 32"
  shows "decode_frames (frame msg @ rest) = msg # decode_frames rest"
proof -
  have t: "take 4 (frame msg @ rest) = take 4 (frame msg)"
    by (simp add: frame_def)
  have d: "drop 4 (frame msg) = msg" by (simp add: frame_def)
  have "decode_from (frame msg @ rest) 0 = msg # decode_from (frame msg @ rest) (length (frame msg) + 0)"
    using assms frame_prefix[OF assms]
    by (subst decode_from.simps) (simp add: t d Let_def)
  then show ?thesis by (simp only: decode_frames_def decode_from_shift)
qed

lemma decode_torn:
  assumes "length msg < 2 ^ 32" "k < length (frame msg)"
  shows "decode_frames (take k (frame msg)) = []"
proof (cases "4 \<le> k")
  case True
  then have "take 4 (take k (frame msg)) = take 4 (frame msg)" by (simp add: min_def)
  then show ?thesis using True assms frame_prefix[OF assms(1)]
    by (subst decode_frames_def, subst decode_from.simps) (simp add: Let_def)
next
  case False
  then show ?thesis by (subst decode_frames_def, subst decode_from.simps) (simp add: min_def)
qed

lemma decode_log:
  assumes "\<forall>m \<in> set msgs. length m < 2 ^ 32" "decode_frames rest = []"
  shows "decode_frames (concat (map frame msgs) @ rest) = msgs"
  using assms by (induction msgs) (simp_all add: decode_frame)

end
