(* ===== verification/Base64.thy ===== *)
theory Base64
  imports Storage
begin

text \<open>
  The base64 text of a payload (\<open>bytes_as_base64\<close> of \<open>storage-core/src/record.rs\<close>) and
  its round trip. Arithmetic is on \<open>u32\<close>, as in the code.
\<close>

section \<open>Encoding\<close>

text \<open>\<open>chunks(n)\<close> for \<open>n\<close> at least 1: the last chunk may be shorter.\<close>

function chunks :: "nat \<Rightarrow> 'a list \<Rightarrow> 'a list list" where
  "chunks n xs = (if xs = [] \<or> n = 0 then [] else take n xs # chunks n (drop n xs))"
  by pat_completeness auto
termination by (relation "measure (\<lambda>(n, xs). length xs)") auto

declare chunks.simps [simp del]

definition b64_alphabet :: str where
  "b64_alphabet = ''ABCDEFGHIJKLMNOPQRSTUVWXYZabcdefghijklmnopqrstuvwxyz0123456789+/''"

definition b64_char :: "u32 \<Rightarrow> char" where
  "b64_char w = b64_alphabet ! unat (w AND 0x3f)"

definition byte_or_zero :: "payload \<Rightarrow> nat \<Rightarrow> u32" where
  "byte_or_zero chunk i = (if i < length chunk then ucast (chunk ! i) else 0)"

definition encode_chunk :: "payload \<Rightarrow> str" where
  "encode_chunk chunk =
     (let b0 = byte_or_zero chunk 0; b1 = byte_or_zero chunk 1; b2 = byte_or_zero chunk 2;
          n = push_bit 16 b0 OR push_bit 8 b1 OR b2
      in [b64_char (drop_bit 18 n), b64_char (drop_bit 12 n),
          (if length chunk > 1 then b64_char (drop_bit 6 n) else CHR ''=''),
          (if length chunk > 2 then b64_char n else CHR ''='')])"

definition b64_encode :: "payload \<Rightarrow> str" where
  "b64_encode input = concat (map encode_chunk (chunks 3 input))"

section \<open>Decoding\<close>

datatype b64_error = InvalidByte nat | BadLength

definition b64_val :: "char \<Rightarrow> b64_error + u32" where
  "b64_val c =
     (if 65 \<le> byte c \<and> byte c \<le> 90 then Inr (of_nat (byte c - 65))
      else if 97 \<le> byte c \<and> byte c \<le> 122 then Inr (of_nat (byte c - 97 + 26))
      else if 48 \<le> byte c \<and> byte c \<le> 57 then Inr (of_nat (byte c - 48 + 52))
      else if byte c = 43 then Inr 62
      else if byte c = 47 then Inr 63
      else Inl (InvalidByte (byte c)))"

definition b64_val_or_pad :: "char \<Rightarrow> b64_error + u32" where
  "b64_val_or_pad c = (if c = CHR ''='' then Inr 0 else b64_val c)"

definition decode_chunk :: "str \<Rightarrow> b64_error + payload" where
  "decode_chunk chunk =
     (let pad = length (filter (\<lambda>c. c = CHR ''='') chunk) in
      and_then (b64_val (chunk ! 0)) (\<lambda>v0.
      and_then (b64_val (chunk ! 1)) (\<lambda>v1.
      and_then (b64_val_or_pad (chunk ! 2)) (\<lambda>v2.
      and_then (b64_val_or_pad (chunk ! 3)) (\<lambda>v3.
        let n = push_bit 18 v0 OR push_bit 12 v1 OR push_bit 6 v2 OR v3
        in Inr ([ucast (drop_bit 16 n)] @ (if pad < 2 then [ucast (drop_bit 8 n)] else [])
                @ (if pad < 1 then [ucast n] else [])))))))"

definition ascii_whitespace :: "char \<Rightarrow> bool" where
  "ascii_whitespace c \<longleftrightarrow> byte c \<in> {32, 9, 10, 12, 13}"

fun decode_chunks :: "str list \<Rightarrow> b64_error + payload" where
  "decode_chunks [] = Inr []"
| "decode_chunks (c # cs) = and_then (decode_chunk c) (\<lambda>bs. and_then (decode_chunks cs) (\<lambda>rest. Inr (bs @ rest)))"

definition b64_decode :: "str \<Rightarrow> b64_error + payload" where
  "b64_decode input =
     (let bytes = filter (\<lambda>c. \<not> ascii_whitespace c) input in
      if length bytes mod 4 \<noteq> 0 then Inl BadLength else decode_chunks (chunks 4 bytes))"

section \<open>Round trip\<close>

lemma alphabet_list:
  "list_all2 (\<lambda>k c. b64_val c = Inr (of_nat k) \<and> c \<noteq> CHR ''='' \<and> \<not> ascii_whitespace c) [0..<64] b64_alphabet"
  by (simp add: upt_rec b64_alphabet_def b64_val_def ascii_whitespace_def)

lemma alphabet_round:
  "\<forall>k \<in> set [0..<64]. b64_val (b64_alphabet ! k) = Inr (of_nat k) \<and> b64_alphabet ! k \<noteq> CHR ''='' \<and>
     \<not> ascii_whitespace (b64_alphabet ! k)"
  using list_all2_nthD[OF alphabet_list] by simp

lemma b64_val_char:
  "b64_val (b64_char w) = Inr (w AND 0x3f)" "b64_char w \<noteq> CHR ''=''" "\<not> ascii_whitespace (b64_char w)"
proof -
  have "w AND 0x3f = take_bit 6 w" by (simp add: take_bit_eq_mask mask_eq_exp_minus_1)
  then have "unat (w AND 0x3f) < 64" by (simp add: unsigned_take_bit_eq take_bit_nat_less_exp[of 6, simplified])
  then have "b64_val (b64_alphabet ! unat (w AND 0x3f)) = Inr (of_nat (unat (w AND 0x3f))) \<and>
      b64_alphabet ! unat (w AND 0x3f) \<noteq> CHR ''='' \<and> \<not> ascii_whitespace (b64_alphabet ! unat (w AND 0x3f))"
    using alphabet_round by auto
  then show "b64_val (b64_char w) = Inr (w AND 0x3f)" "b64_char w \<noteq> CHR ''=''" "\<not> ascii_whitespace (b64_char w)"
    by (simp_all add: b64_char_def)
qed

lemma and63: "(w AND 0x3f :: u32) = take_bit 6 w"
  by (simp add: take_bit_eq_mask mask_eq_exp_minus_1)

text \<open>Four groups of six bits put back together.\<close>

lemma sextets:
  fixes n :: u32
  assumes "take_bit 24 n = n"
  shows "push_bit 18 (take_bit 6 (drop_bit 18 n)) OR push_bit 12 (take_bit 6 (drop_bit 12 n)) OR
    push_bit 6 (take_bit 6 (drop_bit 6 n)) OR take_bit 6 n = n"
proof (rule bit_word_eqI)
  fix i
  assume "i < LENGTH(32)"
  have top: "bit n i \<longrightarrow> i < 24" using assms by (metis bit_take_bit_iff)
  have "i < 6 \<or> 6 \<le> i \<and> i < 12 \<or> 12 \<le> i \<and> i < 18 \<or> 18 \<le> i" by linarith
  then show "bit (push_bit 18 (take_bit 6 (drop_bit 18 n)) OR push_bit 12 (take_bit 6 (drop_bit 12 n)) OR
    push_bit 6 (take_bit 6 (drop_bit 6 n)) OR take_bit 6 n) i = bit n i"
    using \<open>i < LENGTH(32)\<close> top by (elim disjE conjE) (simp_all add: bit_simps less_diff_conv2, blast?)
qed

definition packed :: "8 word \<Rightarrow> 8 word \<Rightarrow> 8 word \<Rightarrow> u32" where
  "packed a b c = push_bit 16 (ucast a) OR push_bit 8 (ucast b) OR ucast c"

lemma packed_24: "take_bit 24 (packed a b c) = packed a b c"
  by (rule bit_word_eqI) (auto simp: packed_def bit_simps dest: bit_imp_le_length)

lemma unpacked:
  "ucast (drop_bit 16 (packed a b c)) = a" "ucast (drop_bit 8 (packed a b c)) = b" "ucast (packed a b c) = c"
  by (rule bit_word_eqI; auto simp: packed_def bit_simps dest: bit_imp_le_length)+

lemma sextet_packed:
  "push_bit 18 (take_bit 6 (drop_bit 18 (packed a b c))) OR push_bit 12 (take_bit 6 (drop_bit 12 (packed a b c))) OR
    push_bit 6 (take_bit 6 (drop_bit 6 (packed a b c))) OR take_bit 6 (packed a b c) = packed a b c"
  by (rule sextets[OF packed_24])

text \<open>The sextets that padding replaces are zero.\<close>

lemma padded_sextets: "take_bit 6 (packed a b 0) = 0" "take_bit 6 (drop_bit 6 (packed a 0 0)) = 0"
  by (rule bit_word_eqI; auto simp: packed_def bit_simps dest: bit_imp_le_length)+

lemma encode_chunk_simps:
  "encode_chunk [a] = [b64_char (drop_bit 18 (packed a 0 0)), b64_char (drop_bit 12 (packed a 0 0)), CHR ''='', CHR ''='']"
  "encode_chunk [a, b] = [b64_char (drop_bit 18 (packed a b 0)), b64_char (drop_bit 12 (packed a b 0)),
     b64_char (drop_bit 6 (packed a b 0)), CHR ''='']"
  "encode_chunk [a, b, c] = [b64_char (drop_bit 18 (packed a b c)), b64_char (drop_bit 12 (packed a b c)),
     b64_char (drop_bit 6 (packed a b c)), b64_char (packed a b c)]"
  by (simp_all add: encode_chunk_def byte_or_zero_def packed_def Let_def numeral_2_eq_2)

lemma decode_encode_chunk:
  assumes "chunk \<noteq> []" "length chunk \<le> 3"
  shows "decode_chunk (encode_chunk chunk) = Inr chunk"
proof -
  consider a where "chunk = [a]" | a b where "chunk = [a, b]" | a b c where "chunk = [a, b, c]"
  proof (cases chunk)
    case Nil
    then show ?thesis using assms(1) by simp
  next
    case (Cons a r)
    then show ?thesis using assms(2) that by (cases r; cases "tl r"; cases "tl (tl r)") auto
  qed
  then show ?thesis
  proof cases
    case (1 a)
    then show ?thesis using sextet_packed[of a 0 0] unpacked(1)[of a 0 0]
      by (simp add: encode_chunk_simps decode_chunk_def b64_val_or_pad_def b64_val_char and63 padded_sextets Let_def
          del: drop_bit_or unsigned_or_eq)
  next
    case (2 a b)
    then show ?thesis using sextet_packed[of a b 0] unpacked(1,2)[of a b 0]
      by (simp add: encode_chunk_simps decode_chunk_def b64_val_or_pad_def b64_val_char and63 padded_sextets Let_def
          del: drop_bit_or unsigned_or_eq)
  next
    case (3 a b c)
    then show ?thesis using sextet_packed[of a b c] unpacked[of a b c]
      by (simp add: encode_chunk_simps decode_chunk_def b64_val_or_pad_def b64_val_char and63 Let_def
          del: drop_bit_or unsigned_or_eq)
  qed
qed

lemma encode_chunk_length [simp]: "length (encode_chunk c) = 4"
  by (simp add: encode_chunk_def Let_def)

lemma encode_chunk_chars: "x \<in> set (encode_chunk c) \<Longrightarrow> x \<in> range b64_char \<or> x = CHR ''=''"
  unfolding encode_chunk_def Let_def by (auto split: if_splits)

lemma encode_chunk_no_space: "x \<in> set (encode_chunk c) \<Longrightarrow> \<not> ascii_whitespace x"
proof -
  assume "x \<in> set (encode_chunk c)"
  then have "x \<in> range b64_char \<or> x = CHR ''=''" by (rule encode_chunk_chars)
  moreover have "\<not> ascii_whitespace (CHR ''='')" by (simp add: ascii_whitespace_def)
  ultimately show ?thesis using b64_val_char(3) by blast
qed

lemma chunks_3: "c \<in> set (chunks 3 xs) \<Longrightarrow> c \<noteq> [] \<and> length c \<le> 3"
proof (induction "3 :: nat" xs rule: chunks.induct)
  case (1 xs)
  then show ?case by (subst (asm) (2) chunks.simps) (auto split: if_splits)
qed

lemma chunks_concat: "0 < n \<Longrightarrow> concat (chunks n xs) = xs"
proof (induction n xs rule: chunks.induct)
  case (1 n xs)
  then show ?case by (subst chunks.simps) auto
qed

lemma chunks_4_groups:
  "\<forall>g \<in> set gs. length g = 4 \<Longrightarrow> chunks 4 (concat gs) = gs"
proof (induction gs)
  case Nil
  then show ?case by (simp add: chunks.simps)
next
  case (Cons g gs)
  then show ?case by (subst chunks.simps) auto
qed

lemma decode_chunks_encoded:
  "\<forall>c \<in> set cs. c \<noteq> [] \<and> length c \<le> 3 \<Longrightarrow> decode_chunks (map encode_chunk cs) = Inr (concat cs)"
  by (induction cs) (simp_all add: decode_encode_chunk)

lemma b64_round: "b64_decode (b64_encode input) = Inr input"
proof -
  let ?gs = "map encode_chunk (chunks 3 input)"
  have w: "filter (\<lambda>c. \<not> ascii_whitespace c) (concat ?gs) = concat ?gs"
    by (rule filter_True) (auto dest: encode_chunk_no_space)
  have g: "\<forall>g \<in> set ?gs. length g = 4" by simp
  then have "length (concat ?gs) mod 4 = 0" by (induction ?gs) (simp_all add: length_concat sum_list_triv comp_def)
  moreover have "chunks 4 (concat ?gs) = ?gs" by (rule chunks_4_groups[OF g])
  moreover have "decode_chunks ?gs = Inr (concat (chunks 3 input))"
    using chunks_3 by (intro decode_chunks_encoded) blast
  ultimately show ?thesis using w by (simp add: b64_decode_def b64_encode_def Let_def chunks_concat)
qed

end
