(* ===== verification/Server_Properties.thy ===== *)
theory Server_Properties
  imports Server_Samples FileStore Cursor_Laws Coordination Base64 Region ObjectTools
begin

text \<open>
  The properties of the storage layer and of the server: the canvas actor on the key-value
  adapter, the region query, the shard bundles and the leases. The engine of the adapter
  (\<open>redb_engine\<close>) and the JSON of the records (\<open>reads_back\<close>, \<open>json_law\<close>) enter as hypotheses.
\<close>

section \<open>The canvas actor\<close>

text \<open>C16: an envelope not acknowledged before whose operation the kernel accepts with an effect, of
  whatever kind (an empty batch as the inverse marks a stale one, for which no record is written),
  is acknowledged and
  broadcast under the next number; afterwards the actor holds the new scene, the journal on disk
  ends with the operation, the table knows it, the records of the objects it names and of the
  canvas are those of the new scene, and number, revision and journal length agree. The whole
  scene is on disk afterwards when it was before and the operation changes no other object
  (\<open>writes_through\<close>: no split, merge or canonicalization, and no delete of an object that
  others are anchored to).\<close>

theorem accepted_op_durable:
  assumes "redb_engine env" "redb_canvas_ok canvas" "journaled (redb_repr env) cd canvas ca sc es"
    "length es + 1 < 2 ^ 63" "apply_object_op lm sc (en_op en) = (sc', Inr iv)" "iv \<noteq> Batch []"
    "\<forall>oid \<in> set (target_ids (en_op en)). redb_id_ok (object_record_id canvas oid)"
    "redb_id_ok (journal_record_id canvas (ca_seq ca + 1))"
    "e = \<lparr>je_seq = ca_seq ca + 1, je_op_id = Some (en_op_id en), je_base_revision = en_base_revision en, je_op = en_op en\<rparr>"
    "entry_reads_back cd e" "dedup_seen (ca_dedup ca) (en_op_id en) = None"
  shows "\<exists>ca'. handle_apply_envelope lm (redb_ops env) cd en user ca =
      (ca', [\<lparr>pb_seq = ca_seq ca + 1, pb_op = en_op en, pb_scene = sc', pb_author = Some user\<rparr>],
       Inr (Applied (ca_seq ca + 1) (ca_seq ca + 1))) \<and>
    ca_seq ca' = ca_seq ca + 1 \<and> journaled (redb_repr env) cd canvas ca' sc' (es @ [e]) \<and>
    saved_at (redb_repr env) cd canvas (os_adapter (ca_store ca')) (target_ids (en_op en)) sc' \<and>
    (durable (redb_repr env) cd canvas ca sc es \<and> writes_through sc (en_op en) \<and> op_ok (en_op en) \<and>
       reads_back cd sc' \<longrightarrow> durable (redb_repr env) cd canvas ca' sc' (es @ [e]))"
proof -
  let ?ha = "handle_apply lm (redb_ops env) cd (en_op en) (en_base_revision en) (Some (en_op_id en)) user ca"
  have h: "handle_apply_envelope lm (redb_ops env) cd en user ca = ?ha"
    by (simp add: handle_apply_envelope_def assms(11))
  have new: "\<And>i. Some (en_op_id en) = Some i \<Longrightarrow> dedup_seen (ca_dedup ca) i = None" using assms(11) by simp
  obtain C R where c: "redb_repr env (os_adapter (ca_store ca)) C R" "journal_on_disk cd canvas es C"
    using assms(3) by (auto simp: journaled_def)
  from canvas_store.accepted_run[OF redb_canvas_store[OF assms(1,2)] assms(3,4) c assms(5-10) new, where user = user]
  obtain ca' where r: "?ha = (ca', [\<lparr>pb_seq = ca_seq ca + 1, pb_op = en_op en, pb_scene = sc', pb_author = Some user\<rparr>],
       Inr (Applied (ca_seq ca + 1) (ca_seq ca + 1)))"
    "ca_seq ca' = ca_seq ca + 1" "journaled (redb_repr env) cd canvas ca' sc' (es @ [e])"
    "saved_at (redb_repr env) cd canvas (os_adapter (ca_store ca')) (target_ids (en_op en)) sc'"
    by blast
  have "durable (redb_repr env) cd canvas ca' sc' (es @ [e])"
    if d: "durable (redb_repr env) cd canvas ca sc es" "writes_through sc (en_op en)" "op_ok (en_op en)" "reads_back cd sc'"
    using canvas_store.accepted_step[OF redb_canvas_store[OF assms(1,2)] d(1) assms(4-6) d(2-4) assms(7-10) new, where user = user]
    unfolding r(1) by blast
  with r h show ?thesis by auto
qed

theorem accepted_op_durable_witness:
  "\<exists>ca ca'. handle_apply_envelope zero_libm (redb_ops tree_env) sample_codec sample_insert ''u'' ca =
      (ca', [\<lparr>pb_seq = 1, pb_op = InsertObject object_b, pb_scene = scene_with_b, pb_author = Some ''u''\<rparr>],
       Inr (Applied 1 1)) \<and>
    ca_seq ca' = 1 \<and> durable (redb_repr tree_env) sample_codec ''c'' ca' scene_with_b [sample_entry]"
proof -
  obtain ca where ca: "durable (redb_repr tree_env) sample_codec ''c'' ca scene_default []" "ca_seq ca = 0"
    using sample_start by blast
  have op: "en_op sample_insert = InsertObject object_b" by (simp add: sample_insert_def)
  have wt: "writes_through scene_default (en_op sample_insert)" "op_ok (en_op sample_insert)"
    using insert_b_ok by (simp_all add: op writes_through_def)
  have "\<exists>ca'. handle_apply_envelope zero_libm (redb_ops tree_env) sample_codec sample_insert ''u'' ca =
      (ca', [\<lparr>pb_seq = ca_seq ca + 1, pb_op = en_op sample_insert, pb_scene = scene_with_b, pb_author = Some ''u''\<rparr>],
       Inr (Applied (ca_seq ca + 1) (ca_seq ca + 1))) \<and>
    ca_seq ca' = ca_seq ca + 1 \<and> journaled (redb_repr tree_env) sample_codec ''c'' ca' scene_with_b ([] @ [sample_entry]) \<and>
    saved_at (redb_repr tree_env) sample_codec ''c'' (os_adapter (ca_store ca')) (target_ids (en_op sample_insert)) scene_with_b \<and>
    (durable (redb_repr tree_env) sample_codec ''c'' ca scene_default [] \<and> writes_through scene_default (en_op sample_insert) \<and>
       op_ok (en_op sample_insert) \<and> reads_back sample_codec scene_with_b \<longrightarrow>
       durable (redb_repr tree_env) sample_codec ''c'' ca' scene_with_b ([] @ [sample_entry]))"
    using ca(2) sample_ids_ok sample_reads_back insert_b_ok
    by (intro accepted_op_durable[OF tree_engine plain_canvas_ok conjunct1[OF ca(1)[unfolded durable_iff]] _ insert_b[folded op]])
      (simp_all add: op durable_fresh_ids[OF ca(1)],
        simp add: sample_entry_def sample_insert_def)
  with ca wt sample_reads_back show ?thesis by (auto simp: op)
qed

text \<open>C17: after a stop between two commands, an actor spawned on what is on disk has the same
  scene (its objects in id order), the same number and a table that knows the last operations.\<close>

theorem restart_restores:
  assumes "redb_engine env" "durable (redb_repr env) cd canvas ca sc es"
  shows "\<exists>ca'. actor_spawn lm (redb_ops env) cd canvas (os_adapter (ca_store ca)) = Inr ca' \<and>
    ca_seq ca' = ca_seq ca \<and> durable (redb_repr env) cd canvas ca' (by_id sc) es"
  by (rule spatial_store.restart_law[OF redb_spatial_store[OF assms(1)] assms(2)])

theorem restart_restores_witness:
  "\<exists>ca ca'. durable (redb_repr tree_env) sample_codec ''c'' ca scene_with_b [sample_entry] \<and>
    actor_spawn zero_libm (redb_ops tree_env) sample_codec ''c'' (os_adapter (ca_store ca)) = Inr ca' \<and>
    ca_seq ca' = ca_seq ca \<and> durable (redb_repr tree_env) sample_codec ''c'' ca' (by_id scene_with_b) [sample_entry]"
proof -
  obtain ca where ca: "durable (redb_repr tree_env) sample_codec ''c'' ca scene_with_b [sample_entry]"
    using sample_accepted by blast
  from restart_restores[OF tree_engine ca, of zero_libm] ca show ?thesis by blast
qed

text \<open>C18: an operation among the last 4096 of the journal is applied once: sent again,
  even to an actor spawned after a stop, it gets the answer it had, and nothing changes.\<close>

theorem resent_op_answered_once:
  assumes "redb_engine env" "durable (redb_repr env) cd canvas ca sc es"
    "e \<in> set (drop (length es - 4096) es)" "je_op_id e = Some (en_op_id en)"
    "ca' = ca \<or> actor_spawn lm (redb_ops env) cd canvas (os_adapter (ca_store ca)) = Inr ca'"
  shows "handle_apply_envelope lm (redb_ops env) cd en user ca' = (ca', [], Inr (Applied (je_seq e) (je_seq e)))"
proof -
  obtain sc' where "durable (redb_repr env) cd canvas ca' sc' es"
    using assms(2,5) spatial_store.restart_law[OF redb_spatial_store[OF assms(1)] assms(2), of lm] by auto
  then have "tracks (ca_dedup ca') es" by (simp add: durable_def)
  from tracks_recent[OF this assms(3)[folded max_seen_ops_def] assms(4)] show ?thesis by (simp add: handle_apply_envelope_def ack_of_def)
qed

theorem resent_op_answered_once_witness:
  "\<exists>ca ca'. durable (redb_repr tree_env) sample_codec ''c'' ca scene_with_b [sample_entry] \<and>
    actor_spawn zero_libm (redb_ops tree_env) sample_codec ''c'' (os_adapter (ca_store ca)) = Inr ca' \<and>
    handle_apply_envelope zero_libm (redb_ops tree_env) sample_codec sample_insert ''u'' ca' = (ca', [], Inr (Applied 1 1))"
proof -
  obtain ca where ca: "durable (redb_repr tree_env) sample_codec ''c'' ca scene_with_b [sample_entry]"
    using sample_accepted by blast
  obtain ca' where ca': "actor_spawn zero_libm (redb_ops tree_env) sample_codec ''c'' (os_adapter (ca_store ca)) = Inr ca'"
    using spatial_store.restart_law[OF redb_spatial_store[OF tree_engine] ca, of zero_libm] by blast
  have "handle_apply_envelope zero_libm (redb_ops tree_env) sample_codec sample_insert ''u'' ca' =
      (ca', [], Inr (Applied (je_seq sample_entry) (je_seq sample_entry)))"
    by (rule resent_op_answered_once[OF tree_engine ca _ _ disjI2[OF ca']])
      (simp_all add: sample_entry_def sample_insert_def)
  then have "handle_apply_envelope zero_libm (redb_ops tree_env) sample_codec sample_insert ''u'' ca' =
      (ca', [], Inr (Applied 1 1))" by (simp add: sample_entry_def)
  with ca ca' show ?thesis by blast
qed

text \<open>C19: an operation the kernel refuses is answered with its error and changes neither the scene
  nor a record nor the number, the journal or the table.\<close>

theorem rejected_op_changes_nothing:
  assumes "durable (redb_repr env) cd canvas ca sc es" "length es + 1 < 2 ^ 63"
    "apply_object_op lm sc (en_op en) = (sc', Inl e)" "dedup_seen (ca_dedup ca) (en_op_id en) = None"
  shows "handle_apply_envelope lm (redb_ops env) cd en user ca = (ca, [], Inr (Rejected (StoreApply e)))"
  by (simp add: handle_apply_envelope_def assms(4) rejected_step[OF assms(1-3)])

theorem rejected_op_changes_nothing_witness:
  "\<exists>ca. handle_apply_envelope zero_libm (redb_ops tree_env) sample_codec (sample_insert\<lparr>en_op := Delete ''x''\<rparr>) ''u'' ca =
    (ca, [], Inr (Rejected (StoreApply (NotFound ''x''))))"
proof -
  obtain ca where ca: "durable (redb_repr tree_env) sample_codec ''c'' ca scene_default []" using sample_start by blast
  have "apply_object_op zero_libm scene_default (en_op (sample_insert\<lparr>en_op := Delete ''x''\<rparr>)) =
      (scene_default, Inl (NotFound ''x''))"
    by (simp add: apply_object_op_def apply_delete_def scene_default_def index_of_def with_index_def)
  from rejected_op_changes_nothing[OF ca _ this durable_fresh_ids[OF ca]] show ?thesis by simp blast
qed

text \<open>The records are written before the journal entry. A stop between the two leaves the
  operation in the scene, out of the journal and out of the table of the next actor, which runs
  at the advanced revision: sent again, the operation is applied a second time.\<close>

theorem stop_before_journal:
  assumes "redb_engine env" "redb_canvas_ok canvas" "durable (redb_repr env) cd canvas ca sc es"
    "length es + 1 < 2 ^ 63" "apply_object_op lm sc op = (sc', Inr iv)" "iv \<noteq> Batch []"
    "writes_through sc op" "op_ok op" "reads_back cd sc'"
    "\<forall>oid \<in> set (target_ids op). redb_id_ok (object_record_id canvas oid)" "\<forall>e \<in> set es. je_op_id e \<noteq> Some i"
  shows "\<exists>os ca'. object_store_apply lm (redb_ops env) cd canvas (ca_store ca) op (seq_u64 (ca_seq ca + 1)) = (os, Inr iv) \<and>
    actor_spawn lm (redb_ops env) cd canvas (os_adapter os) = Inr ca' \<and> ca_seq ca' = ca_seq ca + 1 \<and>
    os_working (ca_store ca') canvas = Some (by_id sc', store_new) \<and>
    load_journal (redb_ops env) cd canvas (os_adapter os) = Inr es \<and> dedup_seen (ca_dedup ca') i = None"
  by (rule canvas_store.torn_step[OF redb_canvas_store[OF assms(1,2)] assms(3-11)])

theorem stop_before_journal_witness:
  "\<exists>ca os ca'. durable (redb_repr tree_env) sample_codec ''c'' ca scene_default [] \<and>
    object_store_apply zero_libm (redb_ops tree_env) sample_codec ''c'' (ca_store ca) (InsertObject object_b)
      (seq_u64 (ca_seq ca + 1)) = (os, Inr (Delete ''b'')) \<and>
    actor_spawn zero_libm (redb_ops tree_env) sample_codec ''c'' (os_adapter os) = Inr ca' \<and> ca_seq ca' = ca_seq ca + 1 \<and>
    os_working (ca_store ca') ''c'' = Some (by_id scene_with_b, store_new) \<and>
    load_journal (redb_ops tree_env) sample_codec ''c'' (os_adapter os) = Inr [] \<and>
    dedup_seen (ca_dedup ca') (en_op_id sample_insert) = None"
proof -
  obtain ca where ca: "durable (redb_repr tree_env) sample_codec ''c'' ca scene_default []" using sample_start by blast
  show ?thesis
    using ca stop_before_journal[OF tree_engine plain_canvas_ok ca _ insert_b _ _ insert_b_ok(1) sample_reads_back(2),
        where i = "en_op_id sample_insert"] sample_ids_ok(1) insert_b_ok(2)
    by (simp add: writes_through_def) blast
qed

section \<open>The region query\<close>

text \<open>C20: the query of the key-value adapter answers, in id order, exactly the records of the
  canvas whose box overlaps the window and whose centre code lies between the codes of the
  window's corners.\<close>

theorem region_query_exact:
  assumes "redb_engine env" "redb_repr env db C R" "no_nul canvas"
  shows "\<exists>rs. region_query env db canvas win = Inr rs \<and> sorted_wrt (<) (map sr_id rs) \<and>
    set rs = {r. \<exists>i key. C i = Some r \<and> R i = Some key \<and> region_matches canvas win key \<and> seen_by_scan win key}"
  by (rule redb_engine.query_law_redb[OF assms])

theorem region_query_exact_witness:
  "\<exists>db rs. region_query tree_env db ''c'' None = Inr rs \<and> sorted_wrt (<) (map sr_id rs) \<and> set rs = {wide_record}"
proof -
  obtain db x where d: "so_save_indexed (redb_ops tree_env) tree_db wide_record (Some wide_key) = (db, x)"
    by (cases "so_save_indexed (redb_ops tree_env) tree_db wide_record (Some wide_key)")
  note s = conjunct2[OF wide_saved[OF tree_engine tree_db_repr wide_record_ok d]]
  have n: "no_nul ''c''" by code_simp
  have top: "(0xFFFFFFFFFFFFFFFF :: u64) = - 1" by simp
  have sc: "seen_by_scan None wide_key"
    unfolding seen_by_scan_def scan_bounds_def by (simp only: option.case fst_conv snd_conv top word_order.extremum word_coorder.extremum simp_thms)
  have m: "region_matches ''c'' None wide_key"
    by (simp add: region_matches_def wide_key_def)
  obtain rs where rs: "region_query tree_env db ''c'' None = Inr rs" "sorted_wrt (<) (map sr_id rs)"
    "set rs = {q. \<exists>i key. (Map.empty(sr_id wide_record \<mapsto> wide_record)) i = Some q \<and>
       (Map.empty(sr_id wide_record \<mapsto> wide_key)) i = Some key \<and> region_matches ''c'' None key \<and> seen_by_scan None key}"
    using region_query_exact[OF tree_engine s n, of None] by blast
  have "set rs = {wide_record}" unfolding rs(3) using sc m by (auto split: if_splits)
  with rs(1,2) show ?thesis by blast
qed

text \<open>A record whose box overlaps the window is missed when its centre code lies below the code
  of the window's lower corner: the key-value adapter answers nothing where the memory adapter
  answers the record.\<close>

theorem region_query_misses:
  assumes "redb_engine env" "redb_repr env db Map.empty Map.empty" "redb_rec_ok r"
    "so_save_indexed (redb_ops env) db r (Some wide_key) = (db', x)"
  shows "x = Inr () \<and> region_query env db' ''c'' (Some inner_window) = Inr [] \<and>
    memory_query_region (fst (memory_save_indexed memory_adapter_new r (Some wide_key))) ''c'' (Some inner_window) = Inr [r]"
proof -
  have n: "no_nul ''c''" by code_simp
  note s = wide_saved[OF assms]
  obtain rs where "region_query env db' ''c'' (Some inner_window) = Inr rs"
    "set rs = {q. \<exists>i key. (Map.empty(sr_id r \<mapsto> r)) i = Some q \<and> (Map.empty(sr_id r \<mapsto> wide_key)) i = Some key \<and>
       region_matches ''c'' (Some inner_window) key \<and> seen_by_scan (Some inner_window) key}"
    using redb_engine.query_law_redb[OF assms(1) conjunct2[OF s] n] by blast
  then have "region_query env db' ''c'' (Some inner_window) = Inr []"
    using wide_key_unseen by (auto split: if_splits)
  then show ?thesis
    using s wide_key_matches
    by (simp add: memory_query_region_def memory_save_indexed_def memory_adapter_new_def snapshot_insert_def 
        List.map_filter_simps bt_get_def)
qed

theorem region_query_misses_witness:
  "\<exists>db'. region_query tree_env db' ''c'' (Some inner_window) = Inr [] \<and>
    so_load (redb_ops tree_env) db' (sr_id wide_record) = Inr wide_record"
proof -
  obtain db' x where d: "so_save_indexed (redb_ops tree_env) tree_db wide_record (Some wide_key) = (db', x)"
    by (cases "so_save_indexed (redb_ops tree_env) tree_db wide_record (Some wide_key)")
  note s = conjunct2[OF wide_saved[OF tree_engine tree_db_repr wide_record_ok d]]
  have "so_load (redb_ops tree_env) db' (sr_id wide_record) = Inr wide_record"
    using record_store.load_law[OF spatial_store.axioms(1)[OF redb_spatial_store[OF tree_engine]] s, of "sr_id wide_record"]
    by simp
  then show ?thesis using region_query_misses[OF tree_engine tree_db_repr wide_record_ok d] by blast
qed

section \<open>Shard bundles\<close>

text \<open>C21: exporting records in id order over any directory and streaming the bundle back yields
  exactly those records in that order, for every number of shards.\<close>

theorem bundle_export_roundtrip:
  assumes "json_law env" "records_fit rs" "sorted_wrt (<) (map sr_id rs)"
  shows "\<exists>d' c. export_stream env (map Inr rs) root n = Some (d', Inr (manifest_for (max n 1) rs)) \<and>
    stream_bundle env d' = Inr c \<and> cursor_all c = map Inr rs"
  using export_bundle_of[OF assms(1,2), of root n] stream_bundle_all[OF _ assms(2,3)] by blast

theorem bundle_export_roundtrip_witness:
  "\<exists>d' c. export_stream packed_env (map Inr [wide_record]) Map.empty 4 =
      Some (d', Inr (manifest_for (max 4 1) [wide_record])) \<and>
    stream_bundle packed_env d' = Inr c \<and> cursor_all c = map Inr [wide_record]"
proof (rule bundle_export_roundtrip[OF packed_json])
  show "records_fit [wide_record]"
    using wide_record_ok by (simp add: records_fit_def rec_fits_def redb_rec_ok_def wide_record_def)
qed simp

text \<open>Importing a bundle into another writes the merged bundle, where the imported record wins
  on a common id; when the rename that swaps the directories fails, both bundles are gone.\<close>

theorem bundle_import_swap:
  assumes "json_law env" "file_repr env fs C R" "bundle_of env root m qs" "records_fit qs"
    "sorted_wrt (<) (map sr_id qs)" "file_room (C ++ bt_get (record_entries qs))"
  shows "\<exists>d. file_repr env (fs\<lparr>fs_root := d\<rparr>) (C ++ bt_get (record_entries qs)) Map.empty \<and>
    (\<forall>failed. file_import env failed fs root = Some (case failed of
        None \<Rightarrow> (fs\<lparr>fs_root := d\<rparr>, Inr ())
      | Some e \<Rightarrow> (fs\<lparr>fs_root := Map.empty\<rparr>, Inl (StorageIo e))))"
  by (rule import_written[OF assms])

theorem bundle_import_swap_witness:
  "\<exists>fs root d. file_repr packed_env fs Map.empty Map.empty \<and>
    file_import packed_env None fs root = Some (fs\<lparr>fs_root := d\<rparr>, Inr ()) \<and>
    file_import packed_env (Some ''denied'') fs root = Some (fs\<lparr>fs_root := Map.empty\<rparr>, Inl (StorageIo ''denied'')) \<and>
    file_repr packed_env (fs\<lparr>fs_root := d\<rparr>) [''c:object:b'' \<mapsto> wide_record] Map.empty"
proof -
  obtain d0 where d0: "bundle_of packed_env d0 (max 1 1) []"
    using export_bundle_of[OF packed_json, of "[]" Map.empty 1] by (auto simp: records_fit_def)
  let ?fs = "\<lparr>fs_root = d0, fs_shard_count = 1\<rparr>"
  have r0: "file_repr packed_env ?fs Map.empty Map.empty"
    using d0 by (auto simp: file_repr_def records_fit_def record_entries_def bt_get_def intro!: exI[of _ "[]"])
  have fit: "records_fit [wide_record]"
    using wide_record_ok by (simp add: records_fit_def rec_fits_def redb_rec_ok_def wide_record_def)
  obtain root where root: "bundle_of packed_env root (max 4 1) [wide_record]"
    using export_bundle_of[OF packed_json fit, of Map.empty 4] by blast
  have e: "Map.empty ++ bt_get (record_entries [wide_record]) = [''c:object:b'' \<mapsto> wide_record]"
    by (simp add: record_entries_def wide_record_def) (simp add: bt_get_def fun_eq_iff)
  have "file_room (Map.empty ++ bt_get (record_entries [wide_record]))" unfolding e by (simp add: file_room_def)
  from bundle_import_swap[OF packed_json r0 root fit _ this] obtain d where
    "file_repr packed_env (?fs\<lparr>fs_root := d\<rparr>) [''c:object:b'' \<mapsto> wide_record] Map.empty"
    "\<And>failed. file_import packed_env failed ?fs root = Some (case failed of
        None \<Rightarrow> (?fs\<lparr>fs_root := d\<rparr>, Inr ()) | Some e \<Rightarrow> (?fs\<lparr>fs_root := Map.empty\<rparr>, Inl (StorageIo e)))"
    unfolding e by auto
  with r0 show ?thesis by (intro exI[of _ ?fs] exI[of _ root] exI[of _ d]) simp
qed

section \<open>Leases\<close>

text \<open>C22: in every interleaving of acquire, renew and release calls, with clock readings that may be
  late, at most one owner holds an unexpired lease of a canvas, with the in-process coordinator
  and with the file-backed one.\<close>

theorem lease_single_writer:
  "(world_reach memory_lease_ops (\<lambda>c. c) co w \<and> live w canvas a \<and> live w canvas b \<longrightarrow> a = b) \<and>
   (world_reach file_lease_ops stem fc v \<and> live v (stem canvas) a \<and> live v (stem canvas) b \<longrightarrow> a = b)"
  using inproc.single_writer onfile.single_writer by blast

theorem lease_single_writer_witness:
  "\<exists>w v. world_reach memory_lease_ops (\<lambda>c. c) coordinator_new w \<and> live w ''c'' ''a'' \<and> \<not> live w ''c'' ''b'' \<and>
    world_reach file_lease_ops stem file_coordinator_open v \<and> live v (stem ''c'') ''a'' \<and> \<not> live v (stem ''c'') ''b''"
proof -
  obtain s l where "lo_acquire memory_lease_ops coordinator_new 0 ''c'' ''a'' 10 = (s, Inr l)" "0 < ls_expires_at l"
    by (simp add: memory_lease_ops_def acquire_lease_def coordinator_new_def next_token_def Let_def millis_u64_def)
  from first_lease[OF this, of "\<lambda>c. c"] obtain w where
    w: "world_reach memory_lease_ops (\<lambda>c. c) coordinator_new w" "live w ''c'' ''a''" by blast
  obtain t k where "lo_acquire file_lease_ops file_coordinator_open 0 ''c'' ''a'' 10 = (t, Inr k)" "0 < ls_expires_at k"
    by (simp add: file_lease_ops_def file_acquire_lease_def file_coordinator_open_def file_next_token_def Let_def
        millis_u64_def)
  from first_lease[OF this, of stem] obtain v where
    v: "world_reach file_lease_ops stem file_coordinator_open v" "live v (stem ''c'') ''a''" by blast
  have ab: "''a'' \<noteq> ''b''" by simp
  show ?thesis using w v lease_single_writer ab by metis
qed

text \<open>C23: on every directory, damaged shards included, the cursor of a bundle ends: it yields at
  most as many items as its shards announce, and reading on yields no more.\<close>

theorem bundle_cursor_ends:
  assumes "stream_bundle env d = Inr c" "cursor_size c \<le> n"
  shows "cursor_items n c = cursor_all c \<and> length (cursor_all c) \<le> cursor_size c"
  by (rule cursor_fuel[OF stream_bundle_ok[OF assms(1)] assms(2)])

theorem bundle_cursor_ends_witness:
  "\<exists>d c. stream_bundle packed_env d = Inr c \<and> cursor_items (cursor_size c + 5) c = cursor_all c \<and>
    length (cursor_all c) \<le> cursor_size c"
proof -
  have fit: "records_fit [wide_record]"
    using wide_record_ok by (simp add: records_fit_def rec_fits_def redb_rec_ok_def wide_record_def)
  obtain d where d: "bundle_of packed_env d (max 4 1) [wide_record]"
    using export_bundle_of[OF packed_json fit, of Map.empty 4] by blast
  obtain c where c: "stream_bundle packed_env d = Inr c" using stream_bundle_all[OF d fit] by auto
  from bundle_cursor_ends[OF c le_add1[of _ 5]] c show ?thesis by blast
qed

end
