(* ===== verification/Extensions.thy ===== *)
theory Extensions
  imports ObjectTools BTreeMap
begin

text \<open>
  The data-representation extensions: the contract (\<open>extensions/extension-contract\<close>), the
  kanban board (\<open>extensions/todo-kanban\<close>) and the diagram (\<open>extensions/structure-diagram\<close>), each
  with its domain model, its edits, its read projection and its export to insert operations.
  The JSON form of a domain model (\<open>serde_json\<close> on derived types) is a parameter.
\<close>

section \<open>The contract\<close>

definition meta_ext_key :: str where "meta_ext_key = ''ext''"
definition meta_domain_key :: str where "meta_domain_key = ''extKey''"
definition meta_model_key :: str where "meta_model_key = ''extModel''"

record mcp_tool_meta =
  mt_name :: str
  mt_description :: str
  mt_write :: bool
  mt_schema :: json

record id_order_alloc =
  ia_prefix :: str
  ia_order_n :: u64

definition alloc_new :: "str \<Rightarrow> id_order_alloc" where
  "alloc_new prefix = \<lparr>ia_prefix = prefix, ia_order_n = 0\<rparr>"

definition alloc_id :: "id_order_alloc \<Rightarrow> str \<Rightarrow> object_id" where
  "alloc_id al key = ''ext-'' @ ia_prefix al @ ''-'' @ key"

text \<open>\<open>{:08}\<close>: at least eight digits.\<close>

definition pad8 :: "str \<Rightarrow> str" where
  "pad8 s = replicate (8 - length s) CHR ''0'' @ s"

definition alloc_order :: "id_order_alloc \<Rightarrow> id_order_alloc \<times> str" where
  "alloc_order al =
     (let n = ia_order_n al + 1 in (al\<lparr>ia_order_n := n\<rparr>, CHR ''e'' # pad8 (show_nat (unat n))))"

text \<open>The trait object.\<close>

record extension =
  ex_name :: str
  ex_mcp_tools :: "mcp_tool_meta list"
  ex_read :: "json \<Rightarrow> str \<Rightarrow> json \<Rightarrow> str + json"
  ex_author :: "json \<Rightarrow> str \<Rightarrow> json \<Rightarrow> str + json"
  ex_export :: "json \<Rightarrow> id_order_alloc \<Rightarrow> id_order_alloc \<times> (str + object_op list)"
  ex_empty_model :: json

definition tag_meta :: "object_meta \<Rightarrow> str \<Rightarrow> str \<Rightarrow> object_meta" where
  "tag_meta m ext key = bt_insert meta_domain_key (JString key) (bt_insert meta_ext_key (JString ext) m)"

section \<open>Arguments\<close>

definition json_get :: "json \<Rightarrow> str \<Rightarrow> json option" where
  "json_get v key = (case v of JObject m \<Rightarrow> bt_get m key | _ \<Rightarrow> None)"

definition str_arg :: "json \<Rightarrow> str \<Rightarrow> str + str" where
  "str_arg args key = ok_or (''missing string arg: '' @ key) (Option.bind (json_get args key) json_str)"

definition opt_str_arg :: "json \<Rightarrow> str \<Rightarrow> str" where
  "opt_str_arg args key = unwrap_or (Option.bind (json_get args key) json_str) []"

definition f64_arg :: "json \<Rightarrow> str \<Rightarrow> str + f64" where
  "f64_arg args key = ok_or (''missing number arg: '' @ key) (Option.bind (json_get args key) json_f64)"

definition some_if :: "bool \<Rightarrow> str \<Rightarrow> str + unit" where
  "some_if refused e = (if refused then Inl e else Inr ())"

section \<open>Kanban\<close>

subsection \<open>Model\<close>

record card =
  cd_id :: str
  cd_title :: str
  cd_body :: str
  cd_done :: bool

record column =
  cl_id :: str
  cl_title :: str
  cl_cards :: "card list"

record board =
  bd_columns :: "column list"

definition board_default :: board where
  "board_default = \<lparr>bd_columns = []\<rparr>"

definition board_column :: "board \<Rightarrow> str \<Rightarrow> column option" where
  "board_column b i = find (\<lambda>c. cl_id c = i) (bd_columns b)"

text \<open>\<open>column_mut\<close> followed by a change of the column.\<close>

definition update_column :: "board \<Rightarrow> str \<Rightarrow> (column \<Rightarrow> column) \<Rightarrow> board option" where
  "update_column b i f =
     (case position (\<lambda>c. cl_id c = i) (bd_columns b) of
        None \<Rightarrow> None
      | Some k \<Rightarrow> Some \<lparr>bd_columns = (bd_columns b)[k := f (bd_columns b ! k)]\<rparr>)"

fun find_card_in :: "column list \<Rightarrow> nat \<Rightarrow> str \<Rightarrow> (nat \<times> nat) option" where
  "find_card_in [] ci i = None"
| "find_card_in (c # cs) ci i =
     (case position (\<lambda>k. cd_id k = i) (cl_cards c) of
        Some ki \<Rightarrow> Some (ci, ki)
      | None \<Rightarrow> find_card_in cs (Suc ci) i)"

definition find_card :: "board \<Rightarrow> str \<Rightarrow> (nat \<times> nat) option" where
  "find_card b i = find_card_in (bd_columns b) 0 i"

subsection \<open>Edits\<close>

definition push_card :: "card \<Rightarrow> column \<Rightarrow> column" where
  "push_card k c = c\<lparr>cl_cards := cl_cards c @ [k]\<rparr>"

definition add_column :: "board \<Rightarrow> json \<Rightarrow> str + board" where
  "add_column b args =
     and_then (str_arg args ''id'') (\<lambda>i.
     and_then (some_if (board_column b i \<noteq> None) (''column id already exists: '' @ i)) (\<lambda>_.
     Inr \<lparr>bd_columns = bd_columns b @ [\<lparr>cl_id = i, cl_title = opt_str_arg args ''title'', cl_cards = []\<rparr>]\<rparr>))"

definition add_card :: "board \<Rightarrow> json \<Rightarrow> str + board" where
  "add_card b args =
     and_then (str_arg args ''id'') (\<lambda>i.
     and_then (some_if (find_card b i \<noteq> None) (''card id already exists: '' @ i)) (\<lambda>_.
     and_then (str_arg args ''column'') (\<lambda>column.
     ok_or (''no such column: '' @ column)
       (update_column b column (push_card \<lparr>cd_id = i, cd_title = opt_str_arg args ''title'',
          cd_body = opt_str_arg args ''body'', cd_done = False\<rparr>)))))"

definition remove_card :: "board \<Rightarrow> nat \<Rightarrow> nat \<Rightarrow> card \<times> board" where
  "remove_card b ci ki =
     (let c = bd_columns b ! ci in
      (cl_cards c ! ki, \<lparr>bd_columns = (bd_columns b)[ci := c\<lparr>cl_cards := remove_at ki (cl_cards c)\<rparr>]\<rparr>))"

text \<open>The target column was looked up before, so the last step cannot fail.\<close>

definition move_card :: "board \<Rightarrow> json \<Rightarrow> str + board" where
  "move_card b args =
     and_then (str_arg args ''card'') (\<lambda>i.
     and_then (str_arg args ''toColumn'') (\<lambda>target.
     and_then (ok_or (''no such card: '' @ i) (find_card b i)) (\<lambda>(ci, ki).
     and_then (some_if (board_column b target = None) (''no such column: '' @ target)) (\<lambda>_.
     case remove_card b ci ki of
       (k, b1) \<Rightarrow> ok_or ''target column validated'' (update_column b1 target (push_card k))))))"

definition set_done :: "board \<Rightarrow> json \<Rightarrow> str + board" where
  "set_done b args =
     and_then (str_arg args ''card'') (\<lambda>i.
     and_then (ok_or ''missing bool arg: done'' (Option.bind (json_get args ''done'') json_bool)) (\<lambda>d.
     and_then (ok_or (''no such card: '' @ i) (find_card b i)) (\<lambda>(ci, ki).
     let c = bd_columns b ! ci in
     Inr \<lparr>bd_columns = (bd_columns b)[ci := c\<lparr>cl_cards := (cl_cards c)[ki := (cl_cards c ! ki)\<lparr>cd_done := d\<rparr>]\<rparr>]\<rparr>)))"

definition board_edit :: "board \<Rightarrow> str \<Rightarrow> json \<Rightarrow> str + board" where
  "board_edit b tool args =
     (if tool = ''add_column'' then add_column b args
      else if tool = ''add_card'' then add_card b args
      else if tool = ''move_card'' then move_card b args
      else if tool = ''set_done'' then set_done b args
      else Inl (''unknown kanban author tool: '' @ tool))"

definition list_board :: "board \<Rightarrow> json" where
  "list_board b = JObject [(''columns'', JArray (map (\<lambda>c. JObject
     [(''cards'', JArray (map (\<lambda>k. JObject
        [(''done'', JBool (cd_done k)), (''id'', JString (cd_id k)), (''title'', JString (cd_title k))]) (cl_cards c))),
      (''id'', JString (cl_id c)), (''title'', JString (cl_title c))]) (bd_columns b)))]"

subsection \<open>Export\<close>

definition ext_meta :: "str \<Rightarrow> str \<Rightarrow> object_meta option" where
  "ext_meta ext key = Some (tag_meta [] ext key)"

definition flow_layout :: "layout_axis \<Rightarrow> layout" where
  "flow_layout axis = \<lparr>ly_axis = axis, ly_lanes = LaneCount 1, ly_spacing = px_units 12,
     ly_align = \<lparr>al_main = MainStart, al_cross = CrossStart\<rparr>\<rparr>"

definition column_layout :: layout where "column_layout = flow_layout Vertical"
definition board_layout :: layout where "board_layout = flow_layout Horizontal"

definition hug_sizing :: sizing where
  "hug_sizing = \<lparr>sz_w = Hug, sz_h = Hug\<rparr>"

definition ext_rect :: "i32 \<Rightarrow> i32 \<Rightarrow> geometry" where
  "ext_rect w h = rect_geometry (px_units w) (px_units h)"

definition heading :: "str \<Rightarrow> text_block" where
  "heading text =
     \<lparr>t_runs = [\<lparr>r_text = text, r_color = None, r_size = Some (px_units 14), r_bold = True, r_italic = False,
        r_font = None\<rparr>], t_align = TextStart, t_valign = Top\<rparr>"

definition root_object :: "str \<Rightarrow> str \<Rightarrow> json \<Rightarrow> object_id \<Rightarrow> str \<Rightarrow> object" where
  "root_object ext name model oid order =
     (object_new oid order (ext_rect 1 1))
       \<lparr>o_transform := transform_translate 0 0, o_hidden := True, o_name := Some name,
        o_meta := Some (bt_insert meta_model_key model (tag_meta [] ext ''root''))\<rparr>"

definition token_fill :: "str \<Rightarrow> fill option" where
  "token_fill name = Some \<lparr>f_paint = PaintToken name, f_opacity = f_one\<rparr>"

definition row_object :: "object_id \<Rightarrow> str \<Rightarrow> object" where
  "row_object oid order =
     (object_new oid order (ext_rect 1200 520))
       \<lparr>o_layout := Some board_layout, o_sizing := Some hug_sizing, o_fill := token_fill ''surface-muted'',
        o_meta := ext_meta ''kanban'' ''board''\<rparr>"

definition column_object :: "object_id \<Rightarrow> column \<Rightarrow> object_id \<Rightarrow> str \<Rightarrow> object" where
  "column_object row c oid order =
     (object_new oid order (ext_rect 244 520))
       \<lparr>o_parent := Some row, o_layout := Some column_layout, o_sizing := Some hug_sizing,
        o_fill := token_fill ''surface'', o_text := Some (heading (cl_title c)), o_name := Some (cl_title c),
        o_meta := ext_meta ''kanban'' (''col:'' @ cl_id c)\<rparr>"

definition card_object :: "object_id \<Rightarrow> card \<Rightarrow> object_id \<Rightarrow> str \<Rightarrow> object" where
  "card_object col k oid order =
     (case semantic_preset_style (if cd_done k then ''artifact'' else ''task'') of (fi, st, color) \<Rightarrow>
        (object_new oid order (ext_rect 220 64))
          \<lparr>o_parent := Some col, o_fill := fi, o_stroke := st, o_text := Some (label_text (cd_title k) color),
           o_name := Some (cd_title k), o_meta := ext_meta ''kanban'' (''card:'' @ cd_id k)\<rparr>)"

fun export_cards :: "object_id \<Rightarrow> card list \<Rightarrow> id_order_alloc \<Rightarrow> id_order_alloc \<times> object_op list" where
  "export_cards col [] al = (al, [])"
| "export_cards col (k # ks) al =
     (case alloc_order al of (al1, order) \<Rightarrow>
      case export_cards col ks al1 of (al2, ops) \<Rightarrow>
        (al2, InsertObject (card_object col k (alloc_id al (''card:'' @ cd_id k)) order) # ops))"

fun export_columns :: "object_id \<Rightarrow> column list \<Rightarrow> id_order_alloc \<Rightarrow> id_order_alloc \<times> object_op list" where
  "export_columns row [] al = (al, [])"
| "export_columns row (c # cs) al =
     (let col = alloc_id al (''col:'' @ cl_id c) in
      case alloc_order al of (al1, order) \<Rightarrow>
      case export_cards col (cl_cards c) al1 of (al2, card_ops) \<Rightarrow>
      case export_columns row cs al2 of (al3, ops) \<Rightarrow>
        (al3, InsertObject (column_object row c col order) # card_ops @ ops))"

definition export_board :: "board \<Rightarrow> json \<Rightarrow> id_order_alloc \<Rightarrow> id_order_alloc \<times> object_op list" where
  "export_board b model al =
     (let row = alloc_id al ''board'' in
      case alloc_order al of (al1, order1) \<Rightarrow>
      case alloc_order al1 of (al2, order2) \<Rightarrow>
      case export_columns row (bd_columns b) al2 of (al3, ops) \<Rightarrow>
        (al3, InsertObject (root_object ''kanban'' ''Kanban board'' model (alloc_id al ''root'') order1) #
              InsertObject (row_object row order2) # ops))"

section \<open>Diagram\<close>

subsection \<open>Model\<close>

record diagram_node =
  dn_id :: str
  dn_label :: str
  dn_x :: f64
  dn_y :: f64

record diagram_edge =
  de_id :: str
  de_from :: str
  de_to :: str
  de_label :: "str option"

record diagram =
  dg_nodes :: "diagram_node list"
  dg_edges :: "diagram_edge list"

definition diagram_default :: diagram where
  "diagram_default = \<lparr>dg_nodes = [], dg_edges = []\<rparr>"

definition diagram_node_of :: "diagram \<Rightarrow> str \<Rightarrow> diagram_node option" where
  "diagram_node_of d i = find (\<lambda>n. dn_id n = i) (dg_nodes d)"

definition diagram_edge_of :: "diagram \<Rightarrow> str \<Rightarrow> diagram_edge option" where
  "diagram_edge_of d i = find (\<lambda>e. de_id e = i) (dg_edges d)"

text \<open>\<open>node_mut\<close> followed by a change of the node.\<close>

definition update_node :: "diagram \<Rightarrow> str \<Rightarrow> (diagram_node \<Rightarrow> diagram_node) \<Rightarrow> diagram option" where
  "update_node d i f =
     (case position (\<lambda>n. dn_id n = i) (dg_nodes d) of
        None \<Rightarrow> None
      | Some k \<Rightarrow> Some (d\<lparr>dg_nodes := (dg_nodes d)[k := f (dg_nodes d ! k)]\<rparr>))"

subsection \<open>Edits\<close>

definition add_node :: "diagram \<Rightarrow> json \<Rightarrow> str + diagram" where
  "add_node d args =
     and_then (str_arg args ''id'') (\<lambda>i.
     and_then (some_if (diagram_node_of d i \<noteq> None) (''node id already exists: '' @ i)) (\<lambda>_.
     Inr (d\<lparr>dg_nodes := dg_nodes d @ [\<lparr>dn_id = i, dn_label = opt_str_arg args ''label'',
       dn_x = unwrap_or (Option.bind (json_get args ''x'') json_f64) 0,
       dn_y = unwrap_or (Option.bind (json_get args ''y'') json_f64) 0\<rparr>]\<rparr>)))"

definition connect_nodes :: "diagram \<Rightarrow> json \<Rightarrow> str + diagram" where
  "connect_nodes d args =
     and_then (str_arg args ''id'') (\<lambda>i.
     and_then (some_if (diagram_edge_of d i \<noteq> None) (''edge id already exists: '' @ i)) (\<lambda>_.
     and_then (str_arg args ''from'') (\<lambda>f.
     and_then (str_arg args ''to'') (\<lambda>t.
     and_then (some_if (diagram_node_of d f = None) (''no such node: '' @ f)) (\<lambda>_.
     and_then (some_if (diagram_node_of d t = None) (''no such node: '' @ t)) (\<lambda>_.
     Inr (d\<lparr>dg_edges := dg_edges d @ [\<lparr>de_id = i, de_from = f, de_to = t,
       de_label = Option.bind (json_get args ''label'') json_str\<rparr>]\<rparr>)))))))"

definition relabel :: "diagram \<Rightarrow> json \<Rightarrow> str + diagram" where
  "relabel d args =
     and_then (str_arg args ''node'') (\<lambda>i.
     and_then (str_arg args ''label'') (\<lambda>l.
     ok_or (''no such node: '' @ i) (update_node d i (\<lambda>n. n\<lparr>dn_label := l\<rparr>))))"

definition move_node :: "diagram \<Rightarrow> json \<Rightarrow> str + diagram" where
  "move_node d args =
     and_then (str_arg args ''node'') (\<lambda>i.
     and_then (f64_arg args ''x'') (\<lambda>x.
     and_then (f64_arg args ''y'') (\<lambda>y.
     ok_or (''no such node: '' @ i) (update_node d i (\<lambda>n. n\<lparr>dn_x := x, dn_y := y\<rparr>)))))"

definition diagram_edit :: "diagram \<Rightarrow> str \<Rightarrow> json \<Rightarrow> str + diagram" where
  "diagram_edit d tool args =
     (if tool = ''add_node'' then add_node d args
      else if tool = ''connect'' then connect_nodes d args
      else if tool = ''relabel'' then relabel d args
      else if tool = ''move_node'' then move_node d args
      else Inl (''unknown diagram author tool: '' @ tool))"

text \<open>\<open>json!\<close> of a number that is not finite is null.\<close>

definition json_of_f64 :: "f64 \<Rightarrow> json" where
  "json_of_f64 x = (if f_is_nan x \<or> f_is_inf x then JNull else JFloat x)"

definition list_diagram :: "diagram \<Rightarrow> json" where
  "list_diagram d = JObject
     [(''edges'', JArray (map (\<lambda>e. JObject [(''from'', JString (de_from e)), (''id'', JString (de_id e)),
         (''label'', case de_label e of None \<Rightarrow> JNull | Some l \<Rightarrow> JString l), (''to'', JString (de_to e))]) (dg_edges d))),
      (''nodes'', JArray (map (\<lambda>n. JObject [(''id'', JString (dn_id n)), (''label'', JString (dn_label n)),
         (''x'', json_of_f64 (dn_x n)), (''y'', json_of_f64 (dn_y n))]) (dg_nodes d)))]"

subsection \<open>Export\<close>

definition segment_geometry :: geometry where
  "segment_geometry = geometry_from_subpaths
     [\<lparr>sp_closed = False, sp_nodes = [corner 0 0, corner (px_units 40) 0]\<rparr>] NonZero"

text \<open>\<open>px(NODE_W) / 2\<close> and \<open>px(NODE_H) / 2\<close>, for boxes of 160 by 72.\<close>

definition node_center :: local_point where
  "node_center = \<lparr>l_x = px_units 80, l_y = px_units 36\<rparr>"

definition node_object :: "diagram_node \<Rightarrow> object_id \<Rightarrow> str \<Rightarrow> object" where
  "node_object n oid order =
     (case semantic_preset_style ''decision'' of (fi, st, color) \<Rightarrow>
        (object_new oid order (ext_rect 160 72))
          \<lparr>o_transform := transform_translate (dn_x n) (dn_y n), o_fill := fi, o_stroke := st,
           o_text := Some (label_text (dn_label n) color), o_name := Some (dn_label n),
           o_meta := ext_meta ''diagram'' (''node:'' @ dn_id n)\<rparr>)"

definition edge_object :: "id_order_alloc \<Rightarrow> diagram_edge \<Rightarrow> object_id \<Rightarrow> str \<Rightarrow> object" where
  "edge_object al e oid order =
     (object_new oid order segment_geometry)
       \<lparr>o_stroke := Some \<lparr>s_paint = Solid ''#7b8794'', s_width = px_units 2, s_opacity = f_one, s_dash = [],
          s_cap = RoundCap, s_join = RoundJoin\<rparr>,
        o_anchors := [\<lparr>a_node = 0, a_target = alloc_id al (''node:'' @ de_from e), a_at = node_center\<rparr>,
                      \<lparr>a_node = 1, a_target = alloc_id al (''node:'' @ de_to e), a_at = node_center\<rparr>],
        o_text := map_option (\<lambda>l. label_text l None) (de_label e),
        o_meta := ext_meta ''diagram'' (''edge:'' @ de_id e)\<rparr>"

fun export_nodes :: "diagram_node list \<Rightarrow> id_order_alloc \<Rightarrow> id_order_alloc \<times> object_op list" where
  "export_nodes [] al = (al, [])"
| "export_nodes (n # ns) al =
     (case alloc_order al of (al1, order) \<Rightarrow>
      case export_nodes ns al1 of (al2, ops) \<Rightarrow>
        (al2, InsertObject (node_object n (alloc_id al (''node:'' @ dn_id n)) order) # ops))"

fun export_edges :: "diagram_edge list \<Rightarrow> id_order_alloc \<Rightarrow> id_order_alloc \<times> object_op list" where
  "export_edges [] al = (al, [])"
| "export_edges (e # es) al =
     (case alloc_order al of (al1, order) \<Rightarrow>
      case export_edges es al1 of (al2, ops) \<Rightarrow>
        (al2, InsertObject (edge_object al e (alloc_id al (''edge:'' @ de_id e)) order) # ops))"

definition export_diagram :: "diagram \<Rightarrow> json \<Rightarrow> id_order_alloc \<Rightarrow> id_order_alloc \<times> object_op list" where
  "export_diagram d model al =
     (case alloc_order al of (al1, order) \<Rightarrow>
      case export_nodes (dg_nodes d) al1 of (al2, node_ops) \<Rightarrow>
      case export_edges (dg_edges d) al2 of (al3, edge_ops) \<Rightarrow>
        (al3, InsertObject (root_object ''diagram'' ''Structure diagram'' model (alloc_id al ''root'') order) #
              node_ops @ edge_ops))"

section \<open>The handles\<close>

text \<open>\<open>from_value\<close> and \<open>to_value\<close> at a domain model.\<close>

record 'm model_codec =
  mc_read :: "json \<Rightarrow> str + 'm"
  mc_write :: "'m \<Rightarrow> json"

definition model_of :: "'m model_codec \<Rightarrow> 'm \<Rightarrow> str \<Rightarrow> json \<Rightarrow> str + 'm" where
  "model_of cd dflt what v =
     (if v = JNull then Inr dflt else map_err (\<lambda>e. ''invalid '' @ what @ '' model: '' @ e) (mc_read cd v))"

text \<open>\<open>json!\<close> keeps the keys of an object sorted.\<close>

definition schema_of :: "(str \<times> str) list \<Rightarrow> str list \<Rightarrow> json" where
  "schema_of props required = JObject
     ([(''properties'', JObject (map (\<lambda>(k, ty). (k, JObject [(''type'', JString ty)])) props))] @
      (if required = [] then [] else [(''required'', JArray (map JString required))]) @
      [(''type'', JString ''object'')])"

definition tool_row :: "str \<Rightarrow> str \<Rightarrow> bool \<Rightarrow> json \<Rightarrow> mcp_tool_meta" where
  "tool_row name description write schema =
     \<lparr>mt_name = name, mt_description = description, mt_write = write, mt_schema = schema\<rparr>"

definition kanban_tools :: "mcp_tool_meta list" where
  "kanban_tools =
     [tool_row ''list_board'' ''List the kanban board as columns and their cards (domain vocabulary).'' False
        (schema_of [] []),
      tool_row ''add_column'' ''Append a column to the board.'' True
        (schema_of [(''id'', ''string''), (''title'', ''string'')] [''id'']),
      tool_row ''add_card'' ''Append a card to a column.'' True
        (schema_of [(''body'', ''string''), (''column'', ''string''), (''id'', ''string''), (''title'', ''string'')]
           [''id'', ''column'']),
      tool_row ''move_card'' ''Move a card to another column (appended at the end).'' True
        (schema_of [(''card'', ''string''), (''toColumn'', ''string'')] [''card'', ''toColumn'']),
      tool_row ''set_done'' (''Set a card'' @ [CHR 0x27] @ ''s done flag (flips its semantic style on export).'') True
        (schema_of [(''card'', ''string''), (''done'', ''boolean'')] [''card'', ''done''])]"

definition diagram_tools :: "mcp_tool_meta list" where
  "diagram_tools =
     [tool_row ''list'' ''List the diagram as nodes and edges (domain vocabulary).'' False (schema_of [] []),
      tool_row ''add_node'' ''Add a node at an optional (x, y) world position.'' True
        (schema_of [(''id'', ''string''), (''label'', ''string''), (''x'', ''number''), (''y'', ''number'')] [''id'']),
      tool_row ''connect'' ''Connect two existing nodes with a directed edge.'' True
        (schema_of [(''from'', ''string''), (''id'', ''string''), (''label'', ''string''), (''to'', ''string'')]
           [''id'', ''from'', ''to'']),
      tool_row ''relabel'' (''Set a node'' @ [CHR 0x27] @ ''s label.'') True
        (schema_of [(''label'', ''string''), (''node'', ''string'')] [''node'', ''label'']),
      tool_row ''move_node'' ''Move a node to a new (x, y) world position.'' True
        (schema_of [(''node'', ''string''), (''x'', ''number''), (''y'', ''number'')] [''node'', ''x'', ''y''])]"

definition kanban_extension :: "board model_codec \<Rightarrow> extension" where
  "kanban_extension cd =
     \<lparr>ex_name = ''kanban'',
      ex_mcp_tools = kanban_tools,
      ex_read = (\<lambda>model tool args. and_then (model_of cd board_default ''kanban'' model) (\<lambda>b.
        if tool = ''list_board'' then Inr (list_board b) else Inl (''unknown kanban read tool: '' @ tool))),
      ex_author = (\<lambda>model tool args. and_then (model_of cd board_default ''kanban'' model) (\<lambda>b.
        and_then (board_edit b tool args) (\<lambda>b'. Inr (mc_write cd b')))),
      ex_export = (\<lambda>model al. case model_of cd board_default ''kanban'' model of
        Inl e \<Rightarrow> (al, Inl e) | Inr b \<Rightarrow> apsnd Inr (export_board b model al)),
      ex_empty_model = mc_write cd board_default\<rparr>"

definition diagram_extension :: "diagram model_codec \<Rightarrow> extension" where
  "diagram_extension cd =
     \<lparr>ex_name = ''diagram'',
      ex_mcp_tools = diagram_tools,
      ex_read = (\<lambda>model tool args. and_then (model_of cd diagram_default ''diagram'' model) (\<lambda>d.
        if tool = ''list'' then Inr (list_diagram d) else Inl (''unknown diagram read tool: '' @ tool))),
      ex_author = (\<lambda>model tool args. and_then (model_of cd diagram_default ''diagram'' model) (\<lambda>d.
        and_then (diagram_edit d tool args) (\<lambda>d'. Inr (mc_write cd d')))),
      ex_export = (\<lambda>model al. case model_of cd diagram_default ''diagram'' model of
        Inl e \<Rightarrow> (al, Inl e) | Inr d \<Rightarrow> apsnd Inr (export_diagram d model al)),
      ex_empty_model = mc_write cd diagram_default\<rparr>"

end
