(* ===== verification/ExtensionRegistry.thy ===== *)
theory ExtensionRegistry
  imports Extensions CanvasActor
begin

text \<open>
  The server's extension registry: \<open>server/src/extension_registry.rs\<close>. An extension tool call
  loads the domain model from the blob of the extension's root object, and for a write edits it,
  exports it again, and applies the difference between the export and the scene.
\<close>

section \<open>Equality\<close>

text \<open>
  The derived \<open>PartialEq\<close>: fields of type \<open>f64\<close> are compared as numbers, where a NaN differs
  from itself and the two zeros are equal.
\<close>

definition opt_eq :: "('a \<Rightarrow> 'a \<Rightarrow> bool) \<Rightarrow> 'a option \<Rightarrow> 'a option \<Rightarrow> bool" where
  "opt_eq eq a b = (case (a, b) of (None, None) \<Rightarrow> True | (Some x, Some y) \<Rightarrow> eq x y | _ \<Rightarrow> False)"

definition row_eq :: "f_row \<Rightarrow> f_row \<Rightarrow> bool" where
  "row_eq r s = (case (r, s) of ((a, b, c), (d, e, f)) \<Rightarrow> f_eq a d \<and> f_eq b e \<and> f_eq c f)"

definition transform_eq :: "transform \<Rightarrow> transform \<Rightarrow> bool" where
  "transform_eq t u = (case (t, u) of ((a, b, c), (d, e, f)) \<Rightarrow> row_eq a d \<and> row_eq b e \<and> row_eq c f)"

fun paint_eq :: "paint \<Rightarrow> paint \<Rightarrow> bool" where
  "paint_eq (Gradient s a) (Gradient t b) =
     (list_all2 (\<lambda>x y. f_eq (gs_offset x) (gs_offset y) \<and> gs_color x = gs_color y) s t \<and> f_eq a b)"
| "paint_eq p q = (p = q)"

definition fill_eq :: "fill \<Rightarrow> fill \<Rightarrow> bool" where
  "fill_eq a b \<longleftrightarrow> paint_eq (f_paint a) (f_paint b) \<and> f_eq (f_opacity a) (f_opacity b)"

definition stroke_eq :: "stroke \<Rightarrow> stroke \<Rightarrow> bool" where
  "stroke_eq a b \<longleftrightarrow> paint_eq (s_paint a) (s_paint b) \<and> s_width a = s_width b \<and>
     f_eq (s_opacity a) (s_opacity b) \<and> s_dash a = s_dash b \<and> s_cap a = s_cap b \<and> s_join a = s_join b"

definition meta_eq :: "object_meta \<Rightarrow> object_meta \<Rightarrow> bool" where
  "meta_eq m n = json_eq (JObject m) (JObject n)"

definition object_eq :: "object \<Rightarrow> object \<Rightarrow> bool" where
  "object_eq a b \<longleftrightarrow>
     o_id a = o_id b \<and> o_parent a = o_parent b \<and> o_order a = o_order b \<and>
     transform_eq (o_transform a) (o_transform b) \<and> o_warp a = o_warp b \<and> o_geometry a = o_geometry b \<and>
     opt_eq fill_eq (o_fill a) (o_fill b) \<and> opt_eq stroke_eq (o_stroke a) (o_stroke b) \<and> o_text a = o_text b \<and>
     o_anchors a = o_anchors b \<and> o_layout a = o_layout b \<and> o_sizing a = o_sizing b \<and> o_clip a = o_clip b \<and>
     o_comments a = o_comments b \<and> o_tags a = o_tags b \<and> o_name a = o_name b \<and> o_hidden a = o_hidden b \<and>
     o_locked a = o_locked b \<and> o_component_of a = o_component_of b \<and> o_content a = o_content b \<and>
     opt_eq meta_eq (o_meta a) (o_meta b)"

section \<open>The registry\<close>

type_synonym extension_registry = "extension list"

definition with_builtins :: "board model_codec \<Rightarrow> diagram model_codec \<Rightarrow> extension_registry" where
  "with_builtins kb dg = [kanban_extension kb, diagram_extension dg]"

definition ns_prefix :: str where "ns_prefix = ''ext_''"

record ext_tool_def =
  td_name :: str
  td_description :: str
  td_schema :: json

definition tool_defs :: "extension_registry \<Rightarrow> ext_tool_def list" where
  "tool_defs reg = concat (map (\<lambda>ext. map (\<lambda>t.
     \<lparr>td_name = ns_prefix @ ex_name ext @ ''_'' @ mt_name t, td_description = mt_description t,
      td_schema = mt_schema t\<rparr>) (ex_mcp_tools ext)) reg)"

definition strip_prefix :: "str \<Rightarrow> str \<Rightarrow> str option" where
  "strip_prefix p s = (if has_prefix p s then Some (drop (length p) s) else None)"

fun split_tool_in :: "extension_registry \<Rightarrow> str \<Rightarrow> (extension \<times> str) option" where
  "split_tool_in [] rest = None"
| "split_tool_in (ext # exts) rest =
     (case strip_prefix (ex_name ext @ ''_'') rest of
        Some tool \<Rightarrow> Some (ext, tool)
      | None \<Rightarrow> split_tool_in exts rest)"

definition split_tool :: "extension_registry \<Rightarrow> str \<Rightarrow> (extension \<times> str) option" where
  "split_tool reg name = Option.bind (strip_prefix ns_prefix name) (split_tool_in reg)"

definition handles_tool :: "extension_registry \<Rightarrow> str \<Rightarrow> bool" where
  "handles_tool reg name \<longleftrightarrow> split_tool reg name \<noteq> None"

definition is_write_tool :: "extension \<Rightarrow> str \<Rightarrow> bool" where
  "is_write_tool ext tool \<longleftrightarrow> (\<exists>t \<in> set (ex_mcp_tools ext). mt_name t = tool \<and> mt_write t)"

section \<open>Scene and export\<close>

definition meta_str :: "object \<Rightarrow> str \<Rightarrow> str option" where
  "meta_str ob key = Option.bind (Option.bind (o_meta ob) (\<lambda>m. bt_get m key)) json_str"

fun load_model_in :: "object list \<Rightarrow> str \<Rightarrow> json option" where
  "load_model_in [] ext = None"
| "load_model_in (ob # obs) ext =
     (if meta_str ob meta_ext_key = Some ext \<and> meta_str ob meta_domain_key = Some ''root''
      then case Option.bind (o_meta ob) (\<lambda>m. bt_get m meta_model_key) of
             Some v \<Rightarrow> Some v
           | None \<Rightarrow> load_model_in obs ext
      else load_model_in obs ext)"

definition load_model :: "scene \<Rightarrow> str \<Rightarrow> json option" where
  "load_model sc ext = load_model_in (objects sc) ext"

text \<open>\<open>collect\<close> into a \<open>BTreeMap\<close>: sorted by id, a later object replaces an earlier one.\<close>

definition btree_of :: "(str \<times> 'v) list \<Rightarrow> 'v btree" where
  "btree_of kvs = foldl (\<lambda>t (k, v). bt_insert k v t) [] kvs"

definition current_ext_objects :: "scene \<Rightarrow> str \<Rightarrow> object btree" where
  "current_ext_objects sc ext =
     btree_of (map (\<lambda>ob. (o_id ob, ob)) (filter (\<lambda>ob. meta_str ob meta_ext_key = Some ext) (objects sc)))"

definition carries_model_blob :: "object \<Rightarrow> bool" where
  "carries_model_blob ob \<longleftrightarrow> (case o_meta ob of None \<Rightarrow> False | Some m \<Rightarrow> bt_get m meta_model_key \<noteq> None)"

definition field_diff :: "object \<Rightarrow> object \<Rightarrow> object_op list" where
  "field_diff have_ob want =
     (let i = o_id want in
      (if transform_eq (o_transform have_ob) (o_transform want) then [] else [SetTransform i (o_transform want)]) @
      (if o_text have_ob = o_text want then [] else [SetText i (o_text want)]) @
      (if opt_eq fill_eq (o_fill have_ob) (o_fill want) \<and> opt_eq stroke_eq (o_stroke have_ob) (o_stroke want) then []
       else [SetStyle i (Some (edit_from_option (o_fill want))) (Some (edit_from_option (o_stroke want)))]) @
      (if o_anchors have_ob = o_anchors want then [] else [SetAnchor i (o_anchors want)]) @
      (if o_layout have_ob = o_layout want then [] else [SetLayout i (o_layout want)]) @
      (if o_sizing have_ob = o_sizing want then [] else [SetSizing i (o_sizing want)]) @
      (if o_parent have_ob \<noteq> o_parent want then [Reparent i (o_parent want) (o_order want)]
       else if o_order have_ob \<noteq> o_order want then [Reorder i (o_order want)] else []) @
      (let name_changed = (o_name have_ob \<noteq> o_name want);
           hidden_changed = (o_hidden have_ob \<noteq> o_hidden want);
           locked_changed = (o_locked have_ob \<noteq> o_locked want)
       in if name_changed \<or> hidden_changed \<or> locked_changed
          then [SetMeta i (if name_changed then Some (edit_from_option (o_name want)) else None)
                  (if hidden_changed then Some (o_hidden want) else None)
                  (if locked_changed then Some (o_locked want) else None)]
          else []))"

text \<open>The first loop: the ids in order and the objects by id; another kind of operation is an error.\<close>

fun index_desired :: "object_op list \<Rightarrow> str list \<Rightarrow> object btree \<Rightarrow> str + str list \<times> object btree" where
  "index_desired [] order desired = Inr (order, desired)"
| "index_desired (InsertObject ob # ops) order desired =
     index_desired ops (order @ [o_id ob]) (bt_insert (o_id ob) ob desired)"
| "index_desired (op # ops) order desired =
     Inl (''extension export must emit only insert-object ops, got '' @ op_kind op)"

definition reconcile_object :: "object btree \<Rightarrow> object \<Rightarrow> object_op list" where
  "reconcile_object current want =
     (case bt_get current (o_id want) of
        None \<Rightarrow> [InsertObject want]
      | Some have_ob \<Rightarrow>
          if object_eq have_ob want then []
          else if carries_model_blob want then [Delete (o_id want), InsertObject want]
          else field_diff have_ob want)"

definition reconcile :: "scene \<Rightarrow> str \<Rightarrow> object_op list \<Rightarrow> str + object_op list" where
  "reconcile sc ext desired_ops =
     (let current = current_ext_objects sc ext in
      and_then (index_desired desired_ops [] []) (\<lambda>(order, desired).
        Inr (concat (map (\<lambda>i. reconcile_object current (the (bt_get desired i))) order) @
             map Delete (filter (\<lambda>i. bt_get desired i = None) (bt_keys current)))))"

section \<open>Dispatch\<close>

text \<open>
  The messages to the actor in their order, with no other client's message between them. A
  refused operation ends the call, the operations before it stay applied.
\<close>

datatype dispatch_error =
    DispatchText str
  | DispatchRejected object_store_error

fun dispatch_ops ::
    "libm \<Rightarrow> ('a, 'y) spatial_ops_scheme \<Rightarrow> ('z) journal_codec_scheme \<Rightarrow> object_op list \<Rightarrow>
     ('a, dispatch_error + unit) step" where
  "dispatch_ops lm io cd [] ca = (ca, [], Inr (Inr ()))"
| "dispatch_ops lm io cd (op # ops) ca =
     (case apply_at_revision lm io cd op ''mcp'' ca of
        (ca1, bs, Inl p) \<Rightarrow> (ca1, bs, Inl p)
      | (ca1, bs, Inr (Rejected e)) \<Rightarrow> (ca1, bs, Inr (Inl (DispatchRejected e)))
      | (ca1, bs, Inr (Applied _ _)) \<Rightarrow>
          (case dispatch_ops lm io cd ops ca1 of (ca2, bs2, r) \<Rightarrow> (ca2, bs @ bs2, r)))"

definition dispatch ::
    "extension_registry \<Rightarrow> libm \<Rightarrow> ('a, 'y) spatial_ops_scheme \<Rightarrow> ('z) journal_codec_scheme \<Rightarrow> str \<Rightarrow> json \<Rightarrow>
     ('a, dispatch_error + json) step" where
  "dispatch reg lm io cd name args ca =
     (case split_tool reg name of
        None \<Rightarrow> (ca, [], Inr (Inl (DispatchText (''no such extension tool: '' @ name))))
      | Some (ext, tool) \<Rightarrow>
          (case actor_scene io cd ca of
             (ca1, Inl p) \<Rightarrow> (ca1, [], Inl p)
           | (ca1, Inr sc) \<Rightarrow>
               let model = unwrap_or (load_model sc (ex_name ext)) (ex_empty_model ext) in
               if \<not> is_write_tool ext tool then (ca1, [], Inr (map_err DispatchText (ex_read ext model tool args)))
               else
                 case and_then (ex_author ext model tool args) (\<lambda>new_model.
                        and_then (snd (ex_export ext new_model (alloc_new (ex_name ext)))) (\<lambda>desired.
                        and_then (reconcile sc (ex_name ext) desired) (\<lambda>ops. Inr (new_model, ops)))) of
                   Inl e \<Rightarrow> (ca1, [], Inr (Inl (DispatchText e)))
                 | Inr (new_model, ops) \<Rightarrow>
                     (case dispatch_ops lm io cd ops ca1 of
                        (ca2, bs, Inl p) \<Rightarrow> (ca2, bs, Inl p)
                      | (ca2, bs, Inr (Inl e)) \<Rightarrow> (ca2, bs, Inr (Inl e))
                      | (ca2, bs, Inr (Inr _)) \<Rightarrow> (ca2, bs, Inr (Inr new_model)))))"

end
