(* ===== verification/Extension_Laws.thy ===== *)
theory Extension_Laws
  imports ExtensionRegistry Touched_Laws OrderKeys
begin

text \<open>
  What the extensions and their registry keep: unique ids in the domain models, exports that
  name parents and anchor targets before they are used, and a reconciliation after which the
  scene agrees with the export.
\<close>

section \<open>The kanban board\<close>

definition board_cards :: "board \<Rightarrow> card list" where
  "board_cards b = concat (map cl_cards (bd_columns b))"

definition board_ok :: "board \<Rightarrow> bool" where
  "board_ok b \<longleftrightarrow> distinct (map cl_id (bd_columns b)) \<and> distinct (map cd_id (board_cards b))"

lemma some_if_Inr [simp]: "some_if p e = Inr u \<longleftrightarrow> \<not> p"
  by (simp add: some_if_def)

lemma find_card_in_Some:
  "find_card_in cs n i = Some (ci, ki) \<Longrightarrow>
   n \<le> ci \<and> ci - n < length cs \<and> ki < length (cl_cards (cs ! (ci - n))) \<and> cd_id (cl_cards (cs ! (ci - n)) ! ki) = i"
proof (induction cs arbitrary: n)
  case (Cons c cs)
  show ?case
  proof (cases "position (\<lambda>k. cd_id k = i) (cl_cards c)")
    case None
    then have "find_card_in cs (Suc n) i = Some (ci, ki)" using Cons.prems by simp
    note ih = Cons.IH[OF this]
    then have "ci - n = Suc (ci - Suc n)" by linarith
    with ih show ?thesis by auto
  next
    case (Some k)
    then show ?thesis using Cons.prems position_Some[OF Some] by auto
  qed
qed simp

lemma find_card_Some:
  assumes "find_card b i = Some (ci, ki)"
  shows "ci < length (bd_columns b)" "ki < length (cl_cards (bd_columns b ! ci))"
    "cd_id (cl_cards (bd_columns b ! ci) ! ki) = i"
  using find_card_in_Some[of "bd_columns b" 0 i ci ki] assms by (simp_all add: find_card_def)

lemma find_card_in_None: "find_card_in cs n i = None \<longleftrightarrow> i \<notin> cd_id ` set (concat (map cl_cards cs))"
proof (induction cs arbitrary: n)
  case (Cons c cs)
  show ?case
  proof (cases "position (\<lambda>k. cd_id k = i) (cl_cards c)")
    case None
    then have "i \<notin> cd_id ` set (cl_cards c)" by (auto simp: position_None)
    moreover have "find_card_in (c # cs) n i = find_card_in cs (Suc n) i" using None by simp
    ultimately show ?thesis using Cons.IH[of "Suc n"] by (simp add: image_Un)
  next
    case (Some k)
    then have "\<exists>x \<in> set (cl_cards c). cd_id x = i" using position_Some[OF Some] nth_mem by blast
    then show ?thesis using Some by auto
  qed
qed simp

lemma find_card_None: "find_card b i = None \<longleftrightarrow> i \<notin> cd_id ` set (board_cards b)"
  by (simp add: find_card_def board_cards_def find_card_in_None)

lemma board_column_None: "board_column b i = None \<longleftrightarrow> i \<notin> cl_id ` set (bd_columns b)"
  by (auto simp: board_column_def find_None_iff)

lemma update_column_Some:
  assumes "update_column b i f = Some b'"
  obtains k where "k < length (bd_columns b)" "cl_id (bd_columns b ! k) = i"
    "bd_columns b' = (bd_columns b)[k := f (bd_columns b ! k)]"
proof (cases "position (\<lambda>c. cl_id c = i) (bd_columns b)")
  case None
  then show ?thesis using assms by (simp add: update_column_def)
next
  case (Some k)
  then have "b' = \<lparr>bd_columns = (bd_columns b)[k := f (bd_columns b ! k)]\<rparr>" using assms by (simp add: update_column_def)
  then show ?thesis using that[of k] position_Some[OF Some] by simp
qed

lemma cards_update:
  "k < length cs \<Longrightarrow> mset (concat (map cl_cards (cs[k := c]))) + mset (cl_cards (cs ! k)) =
   mset (concat (map cl_cards cs)) + mset (cl_cards c)"
proof (induction cs arbitrary: k)
  case (Cons x cs)
  then show ?case by (cases k) (auto simp: ac_simps)
qed simp

lemma column_ids_update: "k < length cs \<Longrightarrow> cl_id c = cl_id (cs ! k) \<Longrightarrow> map cl_id (cs[k := c]) = map cl_id cs"
  by (metis list_update_id map_update)

lemma push_card_simps [simp]: "cl_id (push_card k c) = cl_id c" "cl_cards (push_card k c) = cl_cards c @ [k]"
  by (simp_all add: push_card_def)

lemma pushed:
  assumes "update_column b i (push_card k) = Some b'"
  shows "map cl_id (bd_columns b') = map cl_id (bd_columns b)" "mset (board_cards b') = mset (board_cards b) + {#k#}"
proof -
  obtain n where n: "n < length (bd_columns b)" "bd_columns b' = (bd_columns b)[n := push_card k (bd_columns b ! n)]"
    using update_column_Some[OF assms] by metis
  show "map cl_id (bd_columns b') = map cl_id (bd_columns b)" using n by (simp add: column_ids_update)
  show "mset (board_cards b') = mset (board_cards b) + {#k#}"
    using cards_update[OF n(1), of "push_card k (bd_columns b ! n)"] by (simp add: board_cards_def n(2))
qed

lemma mset_remove_at: "i < length xs \<Longrightarrow> mset xs = add_mset (xs ! i) (mset (remove_at i xs))"
  by (subst id_take_nth_drop[of i xs]) (simp_all add: remove_at_def)

lemma removed:
  assumes "ci < length (bd_columns b)" "ki < length (cl_cards (bd_columns b ! ci))" "remove_card b ci ki = (k, b')"
  shows "map cl_id (bd_columns b') = map cl_id (bd_columns b)" "add_mset k (mset (board_cards b')) = mset (board_cards b)"
proof -
  let ?c = "bd_columns b ! ci"
  have b': "k = cl_cards ?c ! ki" "bd_columns b' = (bd_columns b)[ci := ?c\<lparr>cl_cards := remove_at ki (cl_cards ?c)\<rparr>]"
    using assms(3) by (auto simp: remove_card_def Let_def)
  show "map cl_id (bd_columns b') = map cl_id (bd_columns b)" using assms(1) by (simp add: b' column_ids_update)
  show "add_mset k (mset (board_cards b')) = mset (board_cards b)"
    using cards_update[OF assms(1), of "?c\<lparr>cl_cards := remove_at ki (cl_cards ?c)\<rparr>"] mset_remove_at[OF assms(2)]
    by (simp add: board_cards_def b')
qed

text \<open>A move keeps the cards, an insertion adds one whose id is new.\<close>

lemma move_card_cards:
  assumes "move_card b args = Inr b'"
  shows "map cl_id (bd_columns b') = map cl_id (bd_columns b)" "mset (board_cards b') = mset (board_cards b)"
proof -
  obtain i target ci ki where i: "find_card b i = Some (ci, ki)"
    "(case remove_card b ci ki of (k, b1) \<Rightarrow> ok_or ''target column validated'' (update_column b1 target (push_card k))) = Inr b'"
    using assms unfolding move_card_def and_then_Inr_iff by fastforce
  obtain k b1 where rc: "remove_card b ci ki = (k, b1)" by fastforce
  have f: "find_card b i = Some (ci, ki)" "remove_card b ci ki = (k, b1)" "update_column b1 target (push_card k) = Some b'"
    using i rc by simp_all
  note r = removed[OF find_card_Some(1,2)[OF f(1)] f(2)]
  show "map cl_id (bd_columns b') = map cl_id (bd_columns b)" "mset (board_cards b') = mset (board_cards b)"
    using pushed[OF f(3)] r by simp_all
qed

lemma distinct_mset_eq: "mset xs = mset ys \<Longrightarrow> distinct (map f xs) \<Longrightarrow> distinct (map f ys)"
  by (metis mset_eq_imp_distinct_iff mset_map)

lemma set_done_cards:
  assumes "set_done b args = Inr b'"
  shows "map cl_id (bd_columns b') = map cl_id (bd_columns b)" "map cd_id (board_cards b') = map cd_id (board_cards b)"
proof -
  obtain i d ci ki where f: "find_card b i = Some (ci, ki)" and b': "bd_columns b' = (bd_columns b)[ci :=
      (bd_columns b ! ci)\<lparr>cl_cards := (cl_cards (bd_columns b ! ci))[ki := (cl_cards (bd_columns b ! ci) ! ki)\<lparr>cd_done := d\<rparr>]\<rparr>]"
    using assms by (auto simp: set_done_def and_then_Inr_iff Let_def)
  note s = find_card_Some[OF f]
  show "map cl_id (bd_columns b') = map cl_id (bd_columns b)" using s(1) by (simp add: b' column_ids_update)
  have one: "map cd_id ((cl_cards (bd_columns b ! ci))[ki := (cl_cards (bd_columns b ! ci) ! ki)\<lparr>cd_done := d\<rparr>]) =
      map cd_id (cl_cards (bd_columns b ! ci))"
    using s(2) by (simp add: map_update list_update_same_conv)
  have "map (\<lambda>c. map cd_id (cl_cards c)) (bd_columns b') = map (\<lambda>c. map cd_id (cl_cards c)) (bd_columns b)"
    unfolding b' map_update by (rule list_update_same_conv[THEN iffD2]) (use s(1) one in simp_all)
  then show "map cd_id (board_cards b') = map cd_id (board_cards b)"
    by (simp add: board_cards_def map_concat comp_def)
qed

lemma board_edit_ok:
  assumes "board_ok b" "board_edit b tool args = Inr b'"
  shows "board_ok b'"
proof -
  consider (col) "add_column b args = Inr b'" | (card) "add_card b args = Inr b'" | (move) "move_card b args = Inr b'"
    | (flip) "set_done b args = Inr b'"
    using assms(2) by (auto simp: board_edit_def split: if_splits)
  then show ?thesis
  proof cases
    case col
    then show ?thesis using assms(1)
      by (auto simp: add_column_def board_ok_def board_cards_def and_then_Inr_iff board_column_None)
  next
    case card
    then obtain i t bd column where f: "find_card b i = None"
      "update_column b column (push_card \<lparr>cd_id = i, cd_title = t, cd_body = bd, cd_done = False\<rparr>) = Some b'"
      unfolding add_card_def and_then_Inr_iff some_if_Inr ok_or_Inr_iff by blast
    let ?k = "\<lparr>cd_id = i, cd_title = t, cd_body = bd, cd_done = False\<rparr>"
    have "distinct (map cd_id (?k # board_cards b))" using assms(1) f(1) by (auto simp: board_ok_def find_card_None)
    moreover have "mset (?k # board_cards b) = mset (board_cards b')" using pushed(2)[OF f(2)] by simp
    ultimately have "distinct (map cd_id (board_cards b'))" using distinct_mset_eq by blast
    then show ?thesis using assms(1) pushed(1)[OF f(2)] by (simp add: board_ok_def)
  next
    case move
    then show ?thesis
      using assms(1) move_card_cards[OF move] distinct_mset_eq[of "board_cards b" "board_cards b'" cd_id]
      by (simp add: board_ok_def)
  next
    case flip
    then show ?thesis using assms(1) set_done_cards[OF flip] by (simp add: board_ok_def)
  qed
qed

section \<open>The diagram\<close>

definition diagram_ok :: "diagram \<Rightarrow> bool" where
  "diagram_ok d \<longleftrightarrow> distinct (map dn_id (dg_nodes d)) \<and> distinct (map de_id (dg_edges d)) \<and>
     (\<forall>e \<in> set (dg_edges d). de_from e \<in> dn_id ` set (dg_nodes d) \<and> de_to e \<in> dn_id ` set (dg_nodes d))"

lemma diagram_find:
  "diagram_node_of d i = None \<longleftrightarrow> i \<notin> dn_id ` set (dg_nodes d)"
  "diagram_edge_of d i = None \<longleftrightarrow> i \<notin> de_id ` set (dg_edges d)"
  by (auto simp: diagram_node_of_def diagram_edge_of_def find_None_iff)

lemma update_node_ids:
  assumes "update_node d i f = Some d'" "\<And>n. dn_id (f n) = dn_id n"
  shows "map dn_id (dg_nodes d') = map dn_id (dg_nodes d)" "dg_edges d' = dg_edges d"
proof -
  obtain k where k: "position (\<lambda>n. dn_id n = i) (dg_nodes d) = Some k"
    "d' = d\<lparr>dg_nodes := (dg_nodes d)[k := f (dg_nodes d ! k)]\<rparr>"
    using assms(1) by (auto simp: update_node_def split: option.splits)
  have "k < length (dg_nodes d)" using position_Some[OF k(1)] by simp
  then show "map dn_id (dg_nodes d') = map dn_id (dg_nodes d)" "dg_edges d' = dg_edges d"
    by (simp_all add: k(2) map_update assms(2) list_update_same_conv)
qed

lemma diagram_edit_ok:
  assumes "diagram_ok d" "diagram_edit d tool args = Inr d'"
  shows "diagram_ok d'"
proof -
  consider (node) "add_node d args = Inr d'" | (edge) "connect_nodes d args = Inr d'" | (label) "relabel d args = Inr d'"
    | (move) "move_node d args = Inr d'"
    using assms(2) by (auto simp: diagram_edit_def split: if_splits)
  then show ?thesis
  proof cases
    case node
    then show ?thesis using assms(1) by (auto simp: add_node_def diagram_ok_def and_then_Inr_iff diagram_find(1))
  next
    case edge
    then show ?thesis using assms(1)
      by (auto simp: connect_nodes_def diagram_ok_def and_then_Inr_iff diagram_find)
  next
    case label
    then obtain i l where u: "update_node d i (\<lambda>n. n\<lparr>dn_label := l\<rparr>) = Some d'"
      by (auto simp: relabel_def and_then_Inr_iff)
    have "map dn_id (dg_nodes d') = map dn_id (dg_nodes d)" "dg_edges d' = dg_edges d" using update_node_ids[OF u] by simp_all
    then show ?thesis using assms(1) by (metis diagram_ok_def list.set_map)
  next
    case move
    then obtain i x y where u: "update_node d i (\<lambda>n. n\<lparr>dn_x := x, dn_y := y\<rparr>) = Some d'"
      by (auto simp: move_node_def and_then_Inr_iff)
    have "map dn_id (dg_nodes d') = map dn_id (dg_nodes d)" "dg_edges d' = dg_edges d" using update_node_ids[OF u] by simp_all
    then show ?thesis using assms(1) by (metis diagram_ok_def list.set_map)
  qed
qed

end
