(* ===== verification/Reexport_Laws.thy ===== *)
theory Reexport_Laws
  imports Extension_Laws
begin

text \<open>
  The reconciliation of a re-export: applied to the scene it was computed from, it leaves every
  exported object with the exported fields and removes the objects that are no longer exported.
\<close>

section \<open>Field operations on one object\<close>

fun effect :: "object_op \<Rightarrow> object \<Rightarrow> object" where
  "effect (SetTransform _ t) ob = ob\<lparr>o_transform := t\<rparr>"
| "effect (SetText _ t) ob = ob\<lparr>o_text := t\<rparr>"
| "effect (SetStyle _ fe se) ob = ob\<lparr>o_fill := (case fe of None \<Rightarrow> o_fill ob | Some e \<Rightarrow> edit_resolve e (o_fill ob)),
     o_stroke := (case se of None \<Rightarrow> o_stroke ob | Some e \<Rightarrow> edit_resolve e (o_stroke ob))\<rparr>"
| "effect (SetAnchor _ as) ob = ob\<lparr>o_anchors := as\<rparr>"
| "effect (SetLayout _ l) ob = ob\<lparr>o_layout := l\<rparr>"
| "effect (SetSizing _ z) ob = ob\<lparr>o_sizing := z\<rparr>"
| "effect (Reparent _ p k) ob = ob\<lparr>o_parent := p, o_order := k\<rparr>"
| "effect (Reorder _ k) ob = ob\<lparr>o_order := k\<rparr>"
| "effect (SetMeta _ ne he le) ob = ob\<lparr>o_name := (case ne of None \<Rightarrow> o_name ob | Some e \<Rightarrow> edit_resolve e (o_name ob)),
     o_hidden := (case he of None \<Rightarrow> o_hidden ob | Some v \<Rightarrow> v),
     o_locked := (case le of None \<Rightarrow> o_locked ob | Some v \<Rightarrow> v)\<rparr>"
| "effect _ ob = ob"

fun edits_field :: "object_id \<Rightarrow> object_op \<Rightarrow> bool" where
  "edits_field i (SetTransform j _) = (j = i)"
| "edits_field i (SetText j _) = (j = i)"
| "edits_field i (SetStyle j _ _) = (j = i)"
| "edits_field i (SetAnchor j _) = (j = i)"
| "edits_field i (SetLayout j _) = (j = i)"
| "edits_field i (SetSizing j _) = (j = i)"
| "edits_field i (Reparent j _ _) = (j = i)"
| "edits_field i (Reorder j _) = (j = i)"
| "edits_field i (SetMeta j _ _ _) = (j = i)"
| "edits_field i _ = False"

text \<open>The anchors an operation sets point to objects of the scene.\<close>

fun anchors_exist :: "scene \<Rightarrow> object_op \<Rightarrow> bool" where
  "anchors_exist sc (SetAnchor _ as) = (\<forall>a \<in> set as. has_object sc (a_target a))"
| "anchors_exist sc _ = True"

lemma effect_id [simp]: "o_id (effect op ob) = o_id ob"
  by (cases "(op, ob)" rule: effect.cases) simp_all

lemma modify_get:
  assumes "index_of sc i = Some idx" "\<And>ob. o_id (f ob) = o_id ob"
  shows "scene_get (modify_at sc idx f) i = Some (f (object_at sc idx))"
proof -
  have "idx < length (objects sc)" using index_of_Some[OF assms(1)] by simp
  moreover have "index_of (modify_at sc idx f) i = Some idx" using assms by (simp add: index_of_modify_at)
  ultimately show ?thesis
    by (simp add: scene_get_def find_position index_of_def objects_modify_at object_at_def)
qed

lemma get_at: "index_of sc i = Some idx \<Longrightarrow> scene_get sc i = Some (object_at sc idx)"
  by (simp add: scene_get_def find_position index_of_def object_at_def)

lemma modify_cong: "f (object_at sc idx) = g (object_at sc idx) \<Longrightarrow> modify_at sc idx f = modify_at sc idx g"
  by (simp add: modify_at_def object_at_def)

lemma modify_same: "f (object_at sc idx) = object_at sc idx \<Longrightarrow> modify_at sc idx f = sc"
  by (simp add: modify_at_def object_at_def)

lemma style_effect:
  assumes "apply_set_style sc i fe se = (sc', Inr iv)" "index_of sc i = Some idx"
  shows "sc' = modify_at sc idx (effect (SetStyle i fe se))"
proof -
  have l: "idx < length (objects sc)" using index_of_Some[OF assms(2)] by simp
  let ?old = "object_at sc idx"
  have s: "sc' = (let sc1 = (case fe of None \<Rightarrow> sc | Some e \<Rightarrow> modify_at sc idx (\<lambda>ob. ob\<lparr>o_fill := edit_resolve e (o_fill ?old)\<rparr>))
     in case se of None \<Rightarrow> sc1 | Some e \<Rightarrow> modify_at sc1 idx (\<lambda>ob. ob\<lparr>o_stroke := edit_resolve e (o_stroke ?old)\<rparr>))"
    using assms by (simp add: apply_set_style_def with_index_def Let_def)
  show ?thesis unfolding s Let_def
    by (cases fe; cases se) (auto simp: modify_at_modify_at[OF l] intro!: modify_cong modify_same[symmetric])
qed

lemma meta_effect:
  assumes "apply_set_meta sc i ne he le = (sc', Inr iv)" "index_of sc i = Some idx"
  shows "sc' = modify_at sc idx (effect (SetMeta i ne he le))"
proof -
  have l: "idx < length (objects sc)" using index_of_Some[OF assms(2)] by simp
  let ?old = "object_at sc idx"
  have s: "sc' = (let sc1 = (case ne of None \<Rightarrow> sc | Some e \<Rightarrow> modify_at sc idx (\<lambda>ob. ob\<lparr>o_name := edit_resolve e (o_name ?old)\<rparr>));
      sc2 = (case he of None \<Rightarrow> sc1 | Some v \<Rightarrow> modify_at sc1 idx (\<lambda>ob. ob\<lparr>o_hidden := v\<rparr>))
     in case le of None \<Rightarrow> sc2 | Some v \<Rightarrow> modify_at sc2 idx (\<lambda>ob. ob\<lparr>o_locked := v\<rparr>))"
    using assms by (simp add: apply_set_meta_def with_index_def Let_def)
  show ?thesis unfolding s Let_def
    by (cases ne; cases he; cases le) (auto simp: modify_at_modify_at[OF l] intro!: modify_cong modify_same[symmetric])
qed

lemma field_modify:
  assumes "apply_inner lm sc op = (sc', Inr iv)" "edits_field i op" "anchors_exist sc op"
    "index_of sc i = Some idx" "object_at sc idx = ob"
  shows "sc' = modify_at sc idx (effect op) \<or> sc' = sc \<and> effect op ob = ob"
proof -
  note idx = assms(4,5)
  show ?thesis
  proof (cases op)
    case (SetStyle j fe se)
    then show ?thesis using assms(1,2) style_effect[OF _ idx(1)] by simp
  next
    case (SetMeta j ne he le)
    then show ?thesis using assms(1,2) meta_effect[OF _ idx(1)] by simp
  next
    case (SetAnchor j as)
    then have "filter (\<lambda>a. has_object sc (a_target a)) as = as" using assms(3) by simp
    then show ?thesis using SetAnchor assms(1,2) idx by (auto simp: apply_set_anchor_def intro!: modify_cong)
  next
    case (SetText j t)
    then show ?thesis using assms(1,2) idx
      by (cases "o_text ob = t") (auto simp: apply_set_text_def with_index_Inr_iff intro!: modify_cong)
  next
    case (SetLayout j l)
    then show ?thesis using assms(1,2) idx
      by (auto simp: apply_set_layout_def guarded_Inr_iff with_index_Inr_iff intro!: modify_cong)
  next
    case (SetSizing j z)
    then show ?thesis using assms(1,2) idx
      by (auto simp: apply_set_sizing_def guarded_Inr_iff with_index_Inr_iff intro!: modify_cong)
  next
    case (Reparent j p k)
    then show ?thesis using assms(1,2) idx
      by (auto simp: apply_reparent_def with_index_Inr_iff intro!: modify_cong split: if_split_asm)
  qed (use assms(1,2) idx in \<open>auto simp: apply_set_transform_def apply_reorder_def with_index_Inr_iff intro!: modify_cong\<close>)
qed

lemma modify_other:
  assumes "index_of sc i = Some idx" "\<And>ob. o_id (f ob) = o_id ob" "x \<noteq> i"
  shows "scene_get (modify_at sc idx f) x = scene_get sc x"
proof -
  have "at_index sc idx i" using index_of_Some[OF assms(1)] by (simp add: at_index_def)
  then have "same_outside [i] sc (modify_at sc idx f)"
    by (rule modify_outside) (simp_all add: assms(2))
  then show ?thesis using assms(3) by (simp add: same_outside_def)
qed

lemma field_effect:
  assumes "apply_inner lm sc op = (sc', Inr iv)" "edits_field i op" "anchors_exist sc op" "scene_get sc i = Some ob"
  shows "scene_get sc' i = Some (effect op ob) \<and> ids sc' = ids sc \<and> (\<forall>x. x \<noteq> i \<longrightarrow> scene_get sc' x = scene_get sc x)"
proof -
  obtain idx where idx: "index_of sc i = Some idx" "object_at sc idx = ob"
    using assms(4) by (cases "index_of sc i") (auto simp: scene_get_def find_position index_of_def object_at_def)
  from field_modify[OF assms(1-3) idx] show ?thesis
  proof
    assume s: "sc' = modify_at sc idx (effect op)"
    have "scene_get sc' i = Some (effect op ob)" using modify_get[OF idx(1), of "effect op"] idx(2) by (simp add: s)
    moreover have "ids sc' = ids sc" by (simp add: s ids_modify_at)
    ultimately show ?thesis using modify_other[OF idx(1), of "effect op"] by (simp add: s)
  qed (use assms(4) in simp)
qed

text \<open>Operations in sequence; the first refusal ends it.\<close>

fun apply_ops :: "libm \<Rightarrow> scene \<Rightarrow> object_op list \<Rightarrow> scene option" where
  "apply_ops lm sc [] = Some sc"
| "apply_ops lm sc (op # ops) =
     (case apply_object_op lm sc op of (sc', Inr _) \<Rightarrow> apply_ops lm sc' ops | _ \<Rightarrow> None)"

lemma apply_ops_append:
  "apply_ops lm sc (xs @ ys) = Option.bind (apply_ops lm sc xs) (\<lambda>sc'. apply_ops lm sc' ys)"
  by (induction xs arbitrary: sc) (auto split: prod.split sum.split)

lemma apply_ops_Cons:
  "apply_ops lm sc (op # ops) = Some sc' \<longleftrightarrow>
   (\<exists>sc1 iv. apply_object_op lm sc op = (sc1, Inr iv) \<and> apply_ops lm sc1 ops = Some sc')"
  by (auto split: prod.splits sum.splits)

lemma version_get [simp]: "scene_get (with_version v sc) x = scene_get sc x" "ids (with_version v sc) = ids sc"
  by (simp_all add: with_version_def scene_get_def ids_def)

lemma public_inner:
  "apply_object_op lm sc op = (sc', Inr iv) \<Longrightarrow>
   \<exists>sc1. apply_inner lm sc op = (sc1, Inr iv) \<and> sc' = with_version (scene_version sc1 + 1) sc1"
  by (simp add: apply_object_op_iff)

lemma field_ops_effect:
  assumes "apply_ops lm sc ops = Some sc'" "list_all (edits_field i) ops" "scene_get sc i = Some ob"
    "\<forall>op \<in> set ops. \<forall>j as. op = SetAnchor j as \<longrightarrow> (\<forall>a \<in> set as. a_target a \<in> set (ids sc))"
  shows "scene_get sc' i = Some (fold effect ops ob) \<and> ids sc' = ids sc \<and>
    (\<forall>x. x \<noteq> i \<longrightarrow> scene_get sc' x = scene_get sc x)"
  using assms
proof (induction ops arbitrary: sc ob)
  case (Cons op ops)
  obtain sc1 iv where s: "apply_object_op lm sc op = (sc1, Inr iv)" "apply_ops lm sc1 ops = Some sc'"
    using Cons.prems(1) unfolding apply_ops_Cons by blast
  obtain sc2 where sc2: "apply_inner lm sc op = (sc2, Inr iv)" "sc1 = with_version (scene_version sc2 + 1) sc2"
    using public_inner[OF s(1)] by blast
  have "anchors_exist sc op" using Cons.prems(4) by (cases op) (auto simp: has_object_ids)
  then have one: "scene_get sc1 i = Some (effect op ob)" "ids sc1 = ids sc"
      "\<forall>x. x \<noteq> i \<longrightarrow> scene_get sc1 x = scene_get sc x"
    using field_effect[OF sc2(1) _ _ Cons.prems(3)] Cons.prems(2) by (simp_all add: sc2(2))
  have "scene_get sc' i = Some (fold effect ops (effect op ob)) \<and> ids sc' = ids sc1 \<and>
      (\<forall>x. x \<noteq> i \<longrightarrow> scene_get sc' x = scene_get sc1 x)"
    by (rule Cons.IH[OF s(2) _ one(1)]) (use Cons.prems(2,4) one(2) in auto)
  with one(2,3) show ?case by simp
qed simp

section \<open>The difference of two objects\<close>

text \<open>The fields a re-export can change.\<close>

definition agrees :: "object \<Rightarrow> object \<Rightarrow> bool" where
  "agrees ob want \<longleftrightarrow>
     (o_transform ob = o_transform want \<or> transform_eq (o_transform ob) (o_transform want)) \<and>
     o_text ob = o_text want \<and>
     (o_fill ob = o_fill want \<or> opt_eq fill_eq (o_fill ob) (o_fill want)) \<and>
     (o_stroke ob = o_stroke want \<or> opt_eq stroke_eq (o_stroke ob) (o_stroke want)) \<and>
     o_anchors ob = o_anchors want \<and> o_layout ob = o_layout want \<and> o_sizing ob = o_sizing want \<and>
     o_parent ob = o_parent want \<and> o_order ob = o_order want \<and> o_name ob = o_name want \<and>
     o_hidden ob = o_hidden want \<and> o_locked ob = o_locked want"

lemma object_eq_agrees: "object_eq ob want \<Longrightarrow> agrees ob want"
  by (simp add: object_eq_def agrees_def)

lemma agrees_refl [simp]: "agrees ob ob"
  by (simp add: agrees_def)

lemma fold_effect_if: "fold effect (if c then [] else [op]) ob = (if c then ob else effect op ob)"
  "fold effect (if c then [op] else []) ob = (if c then effect op ob else ob)"
  "fold effect (if c then [op] else if d then [op'] else []) ob =
     (if c then effect op ob else if d then effect op' ob else ob)"
  by simp_all

lemma field_diff_fields: "list_all (edits_field (o_id want)) (field_diff ob want)"
  by (simp add: field_diff_def Let_def)

lemma field_diff_anchors: "SetAnchor j as \<in> set (field_diff ob want) \<Longrightarrow> as = o_anchors want"
  by (auto simp: field_diff_def Let_def split: if_splits)

lemma field_diff_agrees: "agrees (fold effect (field_diff ob want) ob) want"
  unfolding field_diff_def Let_def fold_append comp_apply fold_effect_if
  unfolding agrees_def by (intro conjI) simp_all

text \<open>
  The fields no update touches, and what an exported object is in the scene afterwards: the
  export itself (new, or the refreshed root with its model blob, or found equal), or the former
  object with the exported fields and everything else kept.
\<close>

definition other_fields where
  "other_fields ob = (o_id ob, o_warp ob, o_geometry ob, o_clip ob, o_comments ob, o_tags ob,
     o_component_of ob, o_content ob, o_meta ob)"

definition exported_as :: "object option \<Rightarrow> object \<Rightarrow> object \<Rightarrow> bool" where
  "exported_as prev ob want \<longleftrightarrow> agrees ob want \<and>
     (case prev of
        None \<Rightarrow> ob = want
      | Some p \<Rightarrow> if carries_model_blob want then ob = want \<or> object_eq ob want
                else other_fields ob = other_fields p)"

lemma effect_other [simp]: "other_fields (effect op ob) = other_fields ob"
  by (cases "(op, ob)" rule: effect.cases) (simp_all add: other_fields_def)

lemma effects_other: "other_fields (fold effect ops ob) = other_fields ob"
  by (induction ops arbitrary: ob) simp_all

section \<open>Export again\<close>

text \<open>
  The reconciliation as a whole: what its two passes do to the scene, and that a second one has
  nothing to do.
\<close>

section \<open>Objects by id\<close>

lemma btree_fold:
  "bt_ok t \<Longrightarrow> bt_ok (foldl (\<lambda>t (k, v). bt_insert k v t) t kvs) \<and>
   bt_get (foldl (\<lambda>t (k, v). bt_insert k v t) t kvs) = bt_get t ++ map_of (rev kvs)"
proof (induction kvs arbitrary: t)
  case (Cons kv kvs)
  obtain k v where kv: "kv = (k, v)" by (cases kv)
  have "bt_ok (bt_insert k v t)" "bt_get (bt_insert k v t) = (bt_get t)(k \<mapsto> v)" using Cons.prems by simp_all
  with Cons.IH[of "bt_insert k v t"] show ?case by (simp add: kv map_add_def fun_eq_iff split: option.split)
qed (simp add: map_add_def)

lemma btree_of_law: "bt_ok (btree_of kvs)" "bt_get (btree_of kvs) = map_of (rev kvs)"
  using btree_fold[of "[]" kvs] by (simp_all add: btree_of_def fun_eq_iff map_add_def split: option.split)

lemma map_of_objects:
  "distinct (map o_id obs) \<Longrightarrow> map_of (rev (map (\<lambda>ob. (o_id ob, ob)) obs)) i = Some ob \<longleftrightarrow> ob \<in> set obs \<and> o_id ob = i"
proof -
  assume d: "distinct (map o_id obs)"
  have "distinct (map fst (rev (map (\<lambda>ob. (o_id ob, ob)) obs)))" using d by (simp add: rev_map[symmetric] comp_def)
  then show ?thesis by (auto simp: map_of_eq_Some_iff)
qed

definition tagged :: "str \<Rightarrow> object \<Rightarrow> bool" where
  "tagged ext ob \<longleftrightarrow> meta_str ob meta_ext_key = Some ext"

lemma current_get:
  assumes "distinct (ids sc)"
  shows "bt_get (current_ext_objects sc ext) i = Some ob \<longleftrightarrow> scene_get sc i = Some ob \<and> tagged ext ob"
proof -
  have "distinct (map o_id (filter (tagged ext) (objects sc)))"
    using assms by (simp add: ids_def distinct_map_filter)
  from map_of_objects[OF this, of i ob] have "bt_get (current_ext_objects sc ext) i = Some ob \<longleftrightarrow>
      ob \<in> set (objects sc) \<and> tagged ext ob \<and> o_id ob = i"
    by (simp add: current_ext_objects_def btree_of_law tagged_def[abs_def])
  then show ?thesis using scene_get_eq[OF assms, of ob] scene_get_Some[of sc i ob] by auto
qed

lemma index_desired_inserts:
  "index_desired (map InsertObject obs) order desired =
     Inr (order @ map o_id obs, foldl (\<lambda>t (k, v). bt_insert k v t) desired (map (\<lambda>ob. (o_id ob, ob)) obs))"
  by (induction obs arbitrary: order desired) simp_all

lemma reconcile_inserts:
  assumes "distinct (map o_id obs)"
  shows "reconcile sc ext (map InsertObject obs) =
    Inr (concat (map (reconcile_object (current_ext_objects sc ext)) obs) @
         map Delete (filter (\<lambda>i. i \<notin> o_id ` set obs) (bt_keys (current_ext_objects sc ext))))"
proof -
  let ?d = "btree_of (map (\<lambda>ob. (o_id ob, ob)) obs)"
  have g: "bt_get ?d i = Some ob \<longleftrightarrow> ob \<in> set obs \<and> o_id ob = i" for i ob
    by (simp add: btree_of_law map_of_objects[OF assms])
  have "bt_get ?d (o_id ob) = Some ob" if "ob \<in> set obs" for ob using that g by blast
  then have order: "map (\<lambda>i. reconcile_object c (the (bt_get ?d i))) (map o_id obs) = map (reconcile_object c) obs" for c
    by simp
  have none: "bt_get ?d i = None \<longleftrightarrow> i \<notin> o_id ` set obs" for i
  proof (cases "bt_get ?d i")
    case None
    then show ?thesis using g[of i] by fastforce
  next
    case (Some ob)
    then show ?thesis using g[of i ob] by auto
  qed
  have desired: "index_desired (map InsertObject obs) [] [] = Inr (map o_id obs, ?d)"
    by (simp add: index_desired_inserts btree_of_def)
  show ?thesis
    unfolding reconcile_def Let_def desired and_then.simps split_conv order none by (rule refl)
qed

section \<open>Deleting and inserting\<close>

lemma find_map_id: "(\<And>x. P (f x) = P x) \<Longrightarrow> find P (map f xs) = map_option f (find P xs)"
  by (induction xs) auto

lemma prune_id [simp]: "o_id (prune_anchors oid ob) = o_id ob"
  by (simp add: prune_anchors_def)

lemma prune_same: "\<not> anchors_to oid ob \<Longrightarrow> prune_anchors oid ob = ob"
  by (simp add: prune_anchors_def)

lemma delete_get:
  assumes "apply_delete sc oid = (sc', Inr iv)" "distinct (ids sc)"
  shows "scene_get sc' x = (if x = oid then None else map_option (prune_anchors oid) (scene_get sc x))"
proof -
  obtain idx where i: "index_of sc oid = Some idx"
    "sc' = sc\<lparr>objects := map (prune_anchors oid) (remove_at idx (objects sc))\<rparr>"
    using assms(1) by (auto simp: apply_delete_def with_index_Inr_iff Let_def)
  have idx: "idx < length (objects sc)" "o_id (objects sc ! idx) = oid" using index_of_Some[OF i(1)] by auto
  have split: "objects sc = take idx (objects sc) @ objects sc ! idx # drop (Suc idx) (objects sc)"
    using idx(1) by (rule id_take_nth_drop)
  have ne: "\<forall>ob \<in> set (remove_at idx (objects sc)). o_id ob \<noteq> oid"
  proof -
    have "distinct (map o_id (take idx (objects sc) @ objects sc ! idx # drop (Suc idx) (objects sc)))"
      using assms(2) split by (simp add: ids_def)
    then have "o_id (objects sc ! idx) \<notin> o_id ` set (remove_at idx (objects sc))" by (auto simp: remove_at_def)
    then have "oid \<notin> o_id ` set (remove_at idx (objects sc))" by (simp only: idx(2) not_False_eq_True)
    then show ?thesis by blast
  qed
  have skip: "find P (remove_at idx (objects sc)) = find P (objects sc)" if "\<not> P (objects sc ! idx)" for P
  proof -
    have "find P (xs @ y # ys) = find P (xs @ ys)" if "\<not> P y" for xs ys and y :: object using that by (induction xs) auto
    from this[OF that] have "find P (take idx (objects sc) @ objects sc ! idx # drop (Suc idx) (objects sc)) =
        find P (remove_at idx (objects sc))" by (simp add: remove_at_def)
    then show ?thesis by (simp only: split[symmetric])
  qed
  have g: "scene_get sc' x = map_option (prune_anchors oid) (find (\<lambda>ob. o_id ob = x) (remove_at idx (objects sc)))"
    by (simp add: i(2) scene_get_def find_map_id)
  show ?thesis
  proof (cases "x = oid")
    case True
    then have "find (\<lambda>ob. o_id ob = x) (remove_at idx (objects sc)) = None" using ne by (auto simp: find_None_iff)
    then show ?thesis using g True by simp
  next
    case False
    then have "find (\<lambda>ob. o_id ob = x) (remove_at idx (objects sc)) = scene_get sc x"
      using skip[of "\<lambda>ob. o_id ob = x"] idx(2) by (simp add: scene_get_def)
    then show ?thesis using g False by simp
  qed
qed

lemma insert_get:
  assumes "apply_insert sc ob = (sc', Inr iv)" "geometry_ok (o_geometry ob)"
  shows "scene_get sc' (o_id ob) = Some ob"
    "x \<noteq> o_id ob \<Longrightarrow> scene_get sc' x = scene_get sc x"
proof -
  have "object_ensure_parsed ob = Inr ob"
    using geometry_okD(4)[OF assms(2)] by (simp add: object_ensure_parsed_def)
  then have ob': "sc' = sc\<lparr>objects := objects sc @ [ob]\<rparr>" "\<not> has_object sc (o_id ob)"
    using assms(1) by (auto simp: apply_insert_def guarded_Inr_iff parsed_def split: if_splits)
  have "find P (xs @ [y]) = (case find P xs of Some z \<Rightarrow> Some z | None \<Rightarrow> if P y then Some y else None)"
    for P and xs :: "object list" and y by (induction xs) auto
  then have g: "scene_get sc' x = (case scene_get sc x of Some z \<Rightarrow> Some z | None \<Rightarrow> if o_id ob = x then Some ob else None)" for x
    by (simp add: scene_get_def ob'(1))
  have "scene_get sc (o_id ob) = None" using ob'(2) by (auto simp: scene_get_def has_object_def find_None_iff)
  then show "scene_get sc' (o_id ob) = Some ob" by (simp add: g)
  show "x \<noteq> o_id ob \<Longrightarrow> scene_get sc' x = scene_get sc x" by (simp add: g split: option.split)
qed

lemma public_delete:
  assumes "apply_object_op lm sc (Delete oid) = (sc', Inr iv)" "distinct (ids sc)"
  shows "scene_get sc' x = (if x = oid then None else map_option (prune_anchors oid) (scene_get sc x))"
proof -
  obtain sc1 where "apply_delete sc oid = (sc1, Inr iv)" "sc' = with_version (scene_version sc1 + 1) sc1"
    using public_inner[OF assms(1)] by auto
  then show ?thesis using delete_get[OF _ assms(2)] by simp
qed

lemma public_insert:
  assumes "apply_object_op lm sc (InsertObject ob) = (sc', Inr iv)" "geometry_ok (o_geometry ob)"
  shows "scene_get sc' (o_id ob) = Some ob"
    "x \<noteq> o_id ob \<Longrightarrow> scene_get sc' x = scene_get sc x"
proof -
  obtain sc1 where "apply_insert sc ob = (sc1, Inr iv)" "sc' = with_version (scene_version sc1 + 1) sc1"
    using public_inner[OF assms(1)] by auto
  then show "scene_get sc' (o_id ob) = Some ob" "x \<noteq> o_id ob \<Longrightarrow> scene_get sc' x = scene_get sc x"
    using insert_get[OF _ assms(2)] by simp_all
qed

lemma apply_ops_ok: "apply_ops lm sc ops = Some sc' \<Longrightarrow> scene_ok sc \<Longrightarrow> list_all op_ok ops \<Longrightarrow> scene_ok sc'"
proof (induction ops arbitrary: sc)
  case (Cons op ops)
  then show ?case unfolding apply_ops_Cons using apply_object_op_ok by fastforce
qed simp

section \<open>One exported object\<close>

definition refs :: "object \<Rightarrow> object_id set" where
  "refs ob = set_option (o_parent ob) \<union> a_target ` set (o_anchors ob)"

text \<open>An export: every object refers to earlier objects of it.\<close>

fun closed_from :: "object_id set \<Rightarrow> object list \<Rightarrow> bool" where
  "closed_from known [] = True"
| "closed_from known (ob # obs) = (refs ob \<subseteq> known \<and> closed_from (insert (o_id ob) known) obs)"

lemma agrees_anchors: "agrees ob want \<Longrightarrow> anchors_to i ob = anchors_to i want"
  by (simp add: agrees_def anchors_to_def)

lemma field_diff_ok: "list_all op_ok (field_diff ob want)"
  by (simp add: field_diff_def Let_def)

lemma reconcile_one:
  assumes sc: "scene_ok sc" "apply_ops lm sc (reconcile_object current want) = Some sc'"
    and cur: "\<And>ob. bt_get current (o_id want) = Some ob \<Longrightarrow> scene_get sc (o_id want) = Some ob"
    and anch: "a_target ` set (o_anchors want) \<subseteq> set (ids sc)"
    and blob: "carries_model_blob want \<Longrightarrow> \<forall>ob \<in> set (objects sc). \<not> anchors_to (o_id want) ob"
    and g: "geometry_ok (o_geometry want)"
  shows "scene_ok sc' \<and>
    (\<exists>ob. scene_get sc' (o_id want) = Some ob \<and> exported_as (bt_get current (o_id want)) ob want) \<and>
    (\<forall>x. x \<noteq> o_id want \<longrightarrow> scene_get sc' x = scene_get sc x)"
proof -
  have d: "distinct (ids sc)" using sc(1) by (simp add: scene_ok_def)
  have ok: "scene_ok sc'"
    by (rule apply_ops_ok[OF sc(2,1)]) (use geometry_okD(3)[OF g] field_diff_ok in \<open>simp add: reconcile_object_def split: option.split\<close>)
  show ?thesis
  proof (cases "bt_get current (o_id want)")
    case None
    then obtain iv where "apply_object_op lm sc (InsertObject want) = (sc', Inr iv)"
      using sc(2) by (auto simp: reconcile_object_def split: prod.splits sum.splits)
    from public_insert[OF this g] ok None show ?thesis by (simp add: exported_as_def)
  next
    case (Some ob)
    note get = cur[OF Some]
    consider (same) "object_eq ob want" | (blob) "\<not> object_eq ob want" "carries_model_blob want"
      | (diff) "\<not> object_eq ob want" "\<not> carries_model_blob want" by blast
    then show ?thesis
    proof cases
      case same
      then have "sc' = sc" using sc(2) Some by (simp add: reconcile_object_def)
      then show ?thesis using get object_eq_agrees[OF same] same ok Some by (simp add: exported_as_def)
    next
      case blob
      then obtain sc1 iv1 iv2 where s: "apply_object_op lm sc (Delete (o_id want)) = (sc1, Inr iv1)"
        "apply_object_op lm sc1 (InsertObject want) = (sc', Inr iv2)"
        using sc(2) Some by (auto simp: reconcile_object_def split: prod.splits sum.splits)
      have "scene_get sc1 x = scene_get sc x" if "x \<noteq> o_id want" for x
      proof -
        have "map_option (prune_anchors (o_id want)) (scene_get sc x) = scene_get sc x"
          using assms(5)[OF blob(2)] scene_get_Some[of sc x] by (cases "scene_get sc x") (auto simp: prune_same)
        then show ?thesis using public_delete[OF s(1) d, of x] that by simp
      qed
      then show ?thesis using public_insert[OF s(2) g] ok Some blob(2) by (simp add: exported_as_def)
    next
      case diff
      then have ops: "apply_ops lm sc (field_diff ob want) = Some sc'" using sc(2) Some by (simp add: reconcile_object_def)
      have "scene_get sc' (o_id want) = Some (fold effect (field_diff ob want) ob) \<and> ids sc' = ids sc \<and>
          (\<forall>x. x \<noteq> o_id want \<longrightarrow> scene_get sc' x = scene_get sc x)"
        by (rule field_ops_effect[OF ops field_diff_fields get]) (use anch field_diff_anchors in blast)
      then show ?thesis
        using field_diff_agrees ok Some diff(2) effects_other by (simp add: exported_as_def)
    qed
  qed
qed

section \<open>The passes\<close>

lemma reconcile_pass:
  assumes "apply_ops lm sc (concat (map (reconcile_object (current_ext_objects sc0 ext)) todo)) = Some sc'"
    "scene_ok sc" "distinct (ids sc0)" "distinct (map o_id (past @ todo))"
    "closed_from (o_id ` set past) todo" "\<forall>w \<in> set todo. geometry_ok (o_geometry w)"
    "\<forall>w \<in> set past. \<exists>ob. scene_get sc (o_id w) = Some ob \<and>
       exported_as (bt_get (current_ext_objects sc0 ext) (o_id w)) ob w"
    "\<forall>x. x \<notin> o_id ` set past \<longrightarrow> scene_get sc x = scene_get sc0 x"
    "\<forall>w \<in> set todo. carries_model_blob w \<longrightarrow>
       (\<forall>ob \<in> set (objects sc0) \<union> set (past @ todo). \<not> anchors_to (o_id w) ob)"
  shows "scene_ok sc' \<and> (\<forall>w \<in> set (past @ todo). \<exists>ob. scene_get sc' (o_id w) = Some ob \<and>
       exported_as (bt_get (current_ext_objects sc0 ext) (o_id w)) ob w) \<and>
    (\<forall>x. x \<notin> o_id ` set (past @ todo) \<longrightarrow> scene_get sc' x = scene_get sc0 x)"
  using assms
proof (induction todo arbitrary: sc past)
  case (Cons w todo)
  let ?cur = "current_ext_objects sc0 ext"
  obtain sc1 where s: "apply_ops lm sc (reconcile_object ?cur w) = Some sc1"
    "apply_ops lm sc1 (concat (map (reconcile_object ?cur) todo)) = Some sc'"
    using Cons.prems(1) by (auto simp: apply_ops_append bind_eq_Some_conv)
  have dsc: "distinct (ids sc)" using Cons.prems(2) by (simp add: scene_ok_def)
  have fresh: "o_id w \<notin> o_id ` set past" using Cons.prems(4) by auto
  have "scene_get sc (o_id w) = Some ob" if "bt_get ?cur (o_id w) = Some ob" for ob
    using that Cons.prems(8) fresh current_get[OF Cons.prems(3)] by simp
  moreover have "a_target ` set (o_anchors w) \<subseteq> set (ids sc)"
  proof -
    have "o_id v \<in> set (ids sc)" if "v \<in> set past" for v
    proof -
      from bspec[OF Cons.prems(7) that] obtain ob where "scene_get sc (o_id v) = Some ob" by (elim exE conjE)
      from scene_get_Some[OF this] show ?thesis unfolding ids_def set_map by (metis image_eqI)
    qed
    then have "o_id ` set past \<subseteq> set (ids sc)" by blast
    moreover have "a_target ` set (o_anchors w) \<subseteq> o_id ` set past" using Cons.prems(5) by (simp add: refs_def)
    ultimately show ?thesis by (rule subset_trans[rotated])
  qed
  moreover have "\<forall>ob \<in> set (objects sc). \<not> anchors_to (o_id w) ob" if b: "carries_model_blob w"
  proof
    fix ob assume "ob \<in> set (objects sc)"
    then have get: "scene_get sc (o_id ob) = Some ob" by (rule scene_get_eq[OF dsc])
    show "\<not> anchors_to (o_id w) ob"
    proof (cases "o_id ob \<in> o_id ` set past")
      case True
      then obtain v where v: "v \<in> set past" "o_id v = o_id ob" by auto
      then have "agrees ob v" using Cons.prems(7) get by (auto simp: exported_as_def)
      then show ?thesis using Cons.prems(9) b v(1) agrees_anchors by auto
    next
      case False
      then have "scene_get sc0 (o_id ob) = Some ob" using get Cons.prems(8) by simp
      then have "ob \<in> set (objects sc0)" using scene_get_Some by blast
      then show ?thesis using Cons.prems(9) b by auto
    qed
  qed
  ultimately have one: "scene_ok sc1" "\<exists>ob. scene_get sc1 (o_id w) = Some ob \<and> exported_as (bt_get ?cur (o_id w)) ob w"
    "\<And>x. x \<noteq> o_id w \<Longrightarrow> scene_get sc1 x = scene_get sc x"
    using reconcile_one[OF Cons.prems(2) s(1)] Cons.prems(6) by auto
  have "scene_ok sc' \<and> (\<forall>v \<in> set ((past @ [w]) @ todo). \<exists>ob. scene_get sc' (o_id v) = Some ob \<and> exported_as (bt_get ?cur (o_id v)) ob v) \<and>
    (\<forall>x. x \<notin> o_id ` set ((past @ [w]) @ todo) \<longrightarrow> scene_get sc' x = scene_get sc0 x)"
  proof (rule Cons.IH[OF s(2) one(1) Cons.prems(3)])
    show "distinct (map o_id ((past @ [w]) @ todo))" using Cons.prems(4) by simp
    show "closed_from (o_id ` set (past @ [w])) todo" using Cons.prems(5) by simp
    show "\<forall>v \<in> set todo. geometry_ok (o_geometry v)" using Cons.prems(6) by simp
    show "\<forall>v \<in> set (past @ [w]). \<exists>ob. scene_get sc1 (o_id v) = Some ob \<and> exported_as (bt_get ?cur (o_id v)) ob v"
    proof
      fix v assume "v \<in> set (past @ [w])"
      then consider "v = w" | "v \<in> set past" by auto
      then show "\<exists>ob. scene_get sc1 (o_id v) = Some ob \<and> exported_as (bt_get ?cur (o_id v)) ob v"
      proof cases
        case 2
        then have "o_id v \<noteq> o_id w" using fresh by (metis image_eqI)
        then show ?thesis using one(3) Cons.prems(7) 2 by simp
      qed (use one(2) in simp)
    qed
    show "\<forall>x. x \<notin> o_id ` set (past @ [w]) \<longrightarrow> scene_get sc1 x = scene_get sc0 x" using Cons.prems(8) one(3) by simp
    show "\<forall>v \<in> set todo. carries_model_blob v \<longrightarrow>
        (\<forall>ob \<in> set (objects sc0) \<union> set ((past @ [w]) @ todo). \<not> anchors_to (o_id v) ob)"
      using Cons.prems(9) by simp
  qed
  then show ?case by simp
qed simp

text \<open>The deletions: the named objects go, what remains loses at most anchors to them.\<close>

lemma delete_pass:
  assumes "apply_ops lm sc (map Delete ks) = Some sc'" "scene_ok sc"
  shows "scene_get sc' x = (if x \<in> set ks then None else map_option (\<lambda>ob. fold prune_anchors ks ob) (scene_get sc x))"
  using assms
proof (induction ks arbitrary: sc)
  case (Cons k ks)
  obtain sc1 iv where s: "apply_object_op lm sc (Delete k) = (sc1, Inr iv)" "apply_ops lm sc1 (map Delete ks) = Some sc'"
    using Cons.prems(1) unfolding list.map apply_ops_Cons by blast
  have d: "distinct (ids sc)" using Cons.prems(2) by (simp add: scene_ok_def)
  have "scene_ok sc1" using apply_object_op_ok[OF s(1) Cons.prems(2)] by simp
  from Cons.IH[OF s(2) this] public_delete[OF s(1) d, of x] show ?case
    by (auto simp: option.map_comp comp_def)
qed (simp add: option.map_ident id_def)

lemma prune_agrees: "agrees ob w \<Longrightarrow> a_target ` set (o_anchors w) \<inter> set ks = {} \<Longrightarrow> fold prune_anchors ks ob = ob"
proof (induction ks)
  case (Cons k ks)
  have "\<not> anchors_to k w" using Cons.prems(2) by (auto simp: anchors_to_def)
  then have "prune_anchors k ob = ob" using agrees_anchors[OF Cons.prems(1)] by (simp add: prune_same)
  then show ?case using Cons by simp
qed simp

lemma closed_targets: "closed_from known obs \<Longrightarrow> w \<in> set obs \<Longrightarrow> a_target ` set (o_anchors w) \<subseteq> known \<union> o_id ` set obs"
proof (induction obs arbitrary: known)
  case (Cons ob obs)
  from Cons.prems(1) have c: "a_target ` set (o_anchors ob) \<subseteq> known" "closed_from (insert (o_id ob) known) obs"
    by (simp_all add: refs_def)
  show ?case
  proof (cases "w = ob")
    case True
    then show ?thesis using c(1) by blast
  next
    case False
    then have "a_target ` set (o_anchors w) \<subseteq> insert (o_id ob) known \<union> o_id ` set obs"
      using Cons.prems(2) Cons.IH[OF c(2)] by simp
    then show ?thesis by (simp add: Un_insert_left Un_insert_right)
  qed
qed simp

lemma reconcile_converges:
  assumes "scene_ok sc" "reconcile sc ext (map InsertObject obs) = Inr ops" "apply_ops lm sc ops = Some sc'"
    "distinct (map o_id obs)" "closed_from {} obs" "\<forall>w \<in> set obs. geometry_ok (o_geometry w)"
    "\<forall>w \<in> set obs. carries_model_blob w \<longrightarrow> (\<forall>ob \<in> set (objects sc) \<union> set obs. \<not> anchors_to (o_id w) ob)"
  shows "(\<forall>w \<in> set obs. \<exists>ob. scene_get sc' (o_id w) = Some ob \<and>
      exported_as (bt_get (current_ext_objects sc ext) (o_id w)) ob w) \<and>
    (\<forall>ob \<in> set (objects sc). tagged ext ob \<and> o_id ob \<notin> o_id ` set obs \<longrightarrow> scene_get sc' (o_id ob) = None)"
proof -
  let ?cur = "current_ext_objects sc ext"
  let ?ks = "filter (\<lambda>i. i \<notin> o_id ` set obs) (bt_keys ?cur)"
  have d: "distinct (ids sc)" using assms(1) by (simp add: scene_ok_def)
  have ops: "ops = concat (map (reconcile_object ?cur) obs) @ map Delete ?ks"
    using assms(2) reconcile_inserts[OF assms(4), of sc ext] by simp
  obtain sc1 where s: "apply_ops lm sc (concat (map (reconcile_object ?cur) obs)) = Some sc1"
    "apply_ops lm sc1 (map Delete ?ks) = Some sc'"
    using assms(3) by (auto simp: ops apply_ops_append bind_eq_Some_conv)
  have p: "scene_ok sc1" "\<forall>w \<in> set obs. \<exists>ob. scene_get sc1 (o_id w) = Some ob \<and> exported_as (bt_get ?cur (o_id w)) ob w"
    using reconcile_pass[OF s(1) assms(1) d, of "[]"] assms(4-7) by auto
  note del = delete_pass[OF s(2) p(1)]
  have "\<exists>ob. scene_get sc' (o_id w) = Some ob \<and> exported_as (bt_get ?cur (o_id w)) ob w" if w: "w \<in> set obs" for w
  proof -
    obtain ob where ob: "scene_get sc1 (o_id w) = Some ob" "exported_as (bt_get ?cur (o_id w)) ob w" using p(2) w by blast
    have "a_target ` set (o_anchors w) \<inter> set ?ks = {}" using closed_targets[OF assms(5) w] by auto
    then have "fold prune_anchors ?ks ob = ob" by (rule prune_agrees[rotated]) (use ob(2) in \<open>simp add: exported_as_def\<close>)
    then show ?thesis using ob w by (simp add: del)
  qed
  moreover have "scene_get sc' (o_id ob) = None"
    if "ob \<in> set (objects sc)" "tagged ext ob" "o_id ob \<notin> o_id ` set obs" for ob
  proof -
    have "bt_get ?cur (o_id ob) = Some ob" using that scene_get_eq[OF d that(1)] by (simp add: current_get[OF d])
    then have "o_id ob \<in> set (bt_keys ?cur)" by (auto simp: bt_keys_dom)
    then show ?thesis using that(3) by (simp add: del)
  qed
  ultimately show ?thesis by blast
qed

text \<open>On a scene that already holds the export there is nothing to do.\<close>

lemma reconcile_nothing:
  assumes "distinct (ids sc)" "distinct (map o_id obs)"
    "\<forall>w \<in> set obs. \<exists>ob. scene_get sc (o_id w) = Some ob \<and> tagged ext ob \<and> object_eq ob w"
    "\<forall>ob \<in> set (objects sc). tagged ext ob \<longrightarrow> o_id ob \<in> o_id ` set obs"
  shows "reconcile sc ext (map InsertObject obs) = Inr []"
proof -
  let ?cur = "current_ext_objects sc ext"
  have "reconcile_object ?cur w = []" if w: "w \<in> set obs" for w
  proof -
    obtain ob where ob: "scene_get sc (o_id w) = Some ob" "tagged ext ob" "object_eq ob w" using assms(3) w by blast
    then have "bt_get ?cur (o_id w) = Some ob" by (simp add: current_get[OF assms(1)])
    then show ?thesis using ob(3) by (simp add: reconcile_object_def)
  qed
  moreover have "i \<in> o_id ` set obs" if "i \<in> set (bt_keys ?cur)" for i
  proof -
    obtain ob where "bt_get ?cur i = Some ob" using \<open>i \<in> set (bt_keys ?cur)\<close> by (auto simp: bt_keys_dom)
    then show ?thesis using assms(4) current_get[OF assms(1)] scene_get_Some[of sc i ob] by blast
  qed
  ultimately show ?thesis using reconcile_inserts[OF assms(2), of sc ext] by (simp add: filter_empty_conv)
qed

end
