(* ===== verification/Export_Laws.thy ===== *)
theory Export_Laws
  imports Reexport_Laws
begin

text \<open>
  The exports of the two extensions: insert operations for objects with distinct ids, each of
  which refers to earlier objects only, with well formed outlines and the model blob on the root.
\<close>

section \<open>Lists of exported objects\<close>

text \<open>What every exported object that is not the root satisfies.\<close>

definition plain_export :: "str \<Rightarrow> object \<Rightarrow> bool" where
  "plain_export ext ob \<longleftrightarrow> geometry_ok (o_geometry ob) \<and> \<not> carries_model_blob ob \<and> tagged ext ob"

lemma closed_from_append:
  "closed_from known (xs @ ys) \<longleftrightarrow> closed_from known xs \<and> closed_from (known \<union> o_id ` set xs) ys"
  by (induction xs arbitrary: known) (simp_all add: Un_insert_left)

lemma closed_from_flat: "\<forall>ob \<in> set obs. refs ob \<subseteq> known \<Longrightarrow> closed_from known obs"
proof (induction obs arbitrary: known)
  case (Cons ob obs)
  have "closed_from (insert (o_id ob) known) obs" by (rule Cons.IH) (use Cons.prems in auto)
  then show ?case using Cons.prems by simp
qed simp

lemma alloc_order_prefix [simp]: "ia_prefix (fst (alloc_order al)) = ia_prefix al"
  by (simp add: alloc_order_def Let_def)

lemma alloc_id_eq [simp]: "ia_prefix al = ia_prefix al' \<Longrightarrow> alloc_id al k = alloc_id al' k' \<longleftrightarrow> k = k'"
  by (simp add: alloc_id_def)

lemma alloc_id_prefix: "ia_prefix al = ia_prefix al' \<Longrightarrow> alloc_id al = alloc_id al'"
  by (simp add: alloc_id_def fun_eq_iff)

lemma distinct_alloc: "distinct keys \<Longrightarrow> distinct (map (alloc_id al) keys)"
  unfolding distinct_map by (auto intro: inj_onI)

lemma rect_geometry_ok: "geometry_ok (rect_geometry w h)"
  unfolding rect_geometry_def
  by (rule geometry_from_subpaths_ok) (simp_all add: canonical_def corner_def drawable_def min_nodes_def)

lemma segment_geometry_ok: "geometry_ok segment_geometry"
  unfolding segment_geometry_def
  by (rule geometry_from_subpaths_ok) (simp_all add: canonical_def corner_def drawable_def min_nodes_def)

lemmas export_geometry [simp] = rect_geometry_ok segment_geometry_ok

text \<open>The metadata of an exported object.\<close>

lemma ext_meta_get: "bt_get (tag_meta [] ext key) meta_ext_key = Some (JString ext)"
    "bt_get (tag_meta [] ext key) meta_model_key = None" "bt_ok (tag_meta [] ext key)"
  by (simp_all add: tag_meta_def meta_ext_key_def meta_domain_key_def meta_model_key_def bt_get_def bt_ok_def)

lemma plain_meta:
  "o_meta ob = ext_meta ext key \<Longrightarrow> tagged ext ob \<and> \<not> carries_model_blob ob"
  by (simp add: tagged_def meta_str_def carries_model_blob_def ext_meta_def ext_meta_get json_str_def)

lemma root_meta:
  "tagged ext (root_object ext name model oid order)" "carries_model_blob (root_object ext name model oid order)"
  by (simp_all add: tagged_def meta_str_def carries_model_blob_def root_object_def ext_meta_get json_str_def)
    (simp_all add: meta_ext_key_def meta_model_key_def)

lemma root_facts:
  "o_id (root_object ext name model oid order) = oid" "refs (root_object ext name model oid order) = {}"
  "geometry_ok (o_geometry (root_object ext name model oid order))"
  by (simp_all add: root_object_def object_new_def refs_def ext_rect_def)

section \<open>The board\<close>

lemma card_object_facts:
  "o_id (card_object col k oid order) = oid" "refs (card_object col k oid order) = {col}"
  "o_anchors (card_object col k oid order) = []" "plain_export ''kanban'' (card_object col k oid order)"
proof -
  obtain fi st color where p: "semantic_preset_style (if cd_done k then ''artifact'' else ''task'') = (fi, st, color)"
    by (cases "semantic_preset_style (if cd_done k then ''artifact'' else ''task'')")
  note d = card_object_def p prod.case object_new_def ext_rect_def
  have "o_meta (card_object col k oid order) = ext_meta ''kanban'' (''card:'' @ cd_id k)" by (simp add: d)
  from plain_meta[OF this] show "plain_export ''kanban'' (card_object col k oid order)"
    by (simp add: plain_export_def) (simp add: d)
  show "o_id (card_object col k oid order) = oid" "refs (card_object col k oid order) = {col}"
    "o_anchors (card_object col k oid order) = []" by (simp_all add: d refs_def)
qed

lemma column_object_facts:
  "o_id (column_object row c oid order) = oid" "refs (column_object row c oid order) = {row}"
  "o_anchors (column_object row c oid order) = []" "plain_export ''kanban'' (column_object row c oid order)"
proof -
  note d = column_object_def object_new_def ext_rect_def
  have "o_meta (column_object row c oid order) = ext_meta ''kanban'' (''col:'' @ cl_id c)" by (simp add: d)
  from plain_meta[OF this] show "plain_export ''kanban'' (column_object row c oid order)"
    by (simp add: plain_export_def) (simp add: d)
qed (simp_all add: column_object_def object_new_def refs_def)

lemma row_object_facts:
  "o_id (row_object oid order) = oid" "refs (row_object oid order) = {}"
  "o_anchors (row_object oid order) = []" "plain_export ''kanban'' (row_object oid order)"
proof -
  note d = row_object_def object_new_def ext_rect_def
  have "o_meta (row_object oid order) = ext_meta ''kanban'' ''board''" by (simp add: d)
  from plain_meta[OF this] show "plain_export ''kanban'' (row_object oid order)"
    by (simp add: plain_export_def) (simp add: d)
qed (simp_all add: row_object_def object_new_def refs_def)

lemma export_cards_shape:
  assumes "export_cards col ks al = (al', ops)"
  shows "\<exists>obs. ops = map InsertObject obs \<and> ia_prefix al' = ia_prefix al \<and>
    map o_id obs = map (\<lambda>k. alloc_id al (''card:'' @ cd_id k)) ks \<and>
    (\<forall>ob \<in> set obs. refs ob = {col} \<and> o_anchors ob = [] \<and> plain_export ''kanban'' ob)"
  using assms
proof (induction ks arbitrary: al al' ops)
  case (Cons k ks)
  obtain al1 order where a: "alloc_order al = (al1, order)" by (cases "alloc_order al")
  have pr: "ia_prefix al1 = ia_prefix al" using alloc_order_prefix[of al] by (simp add: a)
  obtain al2 ops2 where e: "export_cards col ks al1 = (al2, ops2)" by (cases "export_cards col ks al1")
  obtain obs where obs: "ops2 = map InsertObject obs" "ia_prefix al2 = ia_prefix al1"
    "map o_id obs = map (\<lambda>k. alloc_id al (''card:'' @ cd_id k)) ks"
    "\<forall>ob \<in> set obs. refs ob = {col} \<and> o_anchors ob = [] \<and> plain_export ''kanban'' ob"
    using Cons.IH[OF e] unfolding alloc_id_prefix[OF pr] by (elim exE conjE)
  let ?ob = "card_object col k (alloc_id al (''card:'' @ cd_id k)) order"
  have "al' = al2" "ops = map InsertObject (?ob # obs)" using Cons.prems by (simp_all add: a e obs(1))
  then show ?case using obs pr by (intro exI[of _ "?ob # obs"]) (simp add: card_object_facts)
qed simp

text \<open>The keys of a list of columns, in the order of the export.\<close>

definition column_keys :: "column list \<Rightarrow> str list" where
  "column_keys cs = concat (map (\<lambda>c. (''col:'' @ cl_id c) # map (\<lambda>k. ''card:'' @ cd_id k) (cl_cards c)) cs)"

lemma export_columns_shape:
  assumes "export_columns row cs al = (al', ops)" "row \<in> known"
  shows "\<exists>obs. ops = map InsertObject obs \<and> ia_prefix al' = ia_prefix al \<and>
    map o_id obs = map (alloc_id al) (column_keys cs) \<and> closed_from known obs \<and>
    (\<forall>ob \<in> set obs. o_anchors ob = [] \<and> plain_export ''kanban'' ob)"
  using assms
proof (induction cs arbitrary: al al' ops known)
  case (Cons c cs)
  let ?col = "alloc_id al (''col:'' @ cl_id c)"
  obtain al1 order where a: "alloc_order al = (al1, order)" by (cases "alloc_order al")
  have pr: "ia_prefix al1 = ia_prefix al" using alloc_order_prefix[of al] by (simp add: a)
  obtain al2 ops2 where e: "export_cards ?col (cl_cards c) al1 = (al2, ops2)" by (cases "export_cards ?col (cl_cards c) al1")
  obtain obs where obs: "ops2 = map InsertObject obs" "ia_prefix al2 = ia_prefix al"
    "map o_id obs = map (\<lambda>k. alloc_id al (''card:'' @ cd_id k)) (cl_cards c)"
    "\<forall>ob \<in> set obs. refs ob = {?col} \<and> o_anchors ob = [] \<and> plain_export ''kanban'' ob"
    using export_cards_shape[OF e] unfolding alloc_id_prefix[OF pr] pr by (elim exE conjE)
  obtain al3 ops3 where e2: "export_columns row cs al2 = (al3, ops3)" by (cases "export_columns row cs al2")
  let ?ob = "column_object row c ?col order"
  let ?known = "insert ?col known \<union> o_id ` set obs"
  obtain obs2 where obs2: "ops3 = map InsertObject obs2" "ia_prefix al3 = ia_prefix al"
    "map o_id obs2 = map (alloc_id al) (column_keys cs)" "closed_from ?known obs2"
    "\<forall>ob \<in> set obs2. o_anchors ob = [] \<and> plain_export ''kanban'' ob"
    using Cons.IH[OF e2, of ?known] Cons.prems(2) unfolding alloc_id_prefix[OF obs(2)] obs(2) by auto
  have "closed_from (insert ?col known) obs" by (rule closed_from_flat) (use obs(4) in simp)
  then have "closed_from known (?ob # obs @ obs2)"
    using Cons.prems(2) obs2(4) by (simp add: column_object_facts closed_from_append)
  moreover have "al' = al3" "ops = map InsertObject (?ob # obs @ obs2)"
    using Cons.prems(1) unfolding export_columns.simps Let_def a prod.case e e2 obs(1) obs2(1) by simp_all
  moreover have "map o_id (?ob # obs @ obs2) = map (alloc_id al) (column_keys (c # cs))"
    using obs(3) obs2(3) by (simp add: column_keys_def column_object_facts comp_def)
  moreover have "\<forall>ob \<in> set (?ob # obs @ obs2). o_anchors ob = [] \<and> plain_export ''kanban'' ob"
    using obs(4) obs2(5) by (auto simp: column_object_facts)
  ultimately show ?case using obs2(2) by blast
qed (simp add: column_keys_def)

lemma column_keys_distinct:
  assumes "board_ok b"
  shows "distinct (''root'' # ''board'' # column_keys (bd_columns b))"
proof -
  have m: "mset (column_keys cs) = mset (map (\<lambda>c. ''col:'' @ cl_id c) cs) +
      mset (map (\<lambda>k. ''card:'' @ cd_id k) (concat (map cl_cards cs)))" for cs
    by (induction cs) (simp_all add: column_keys_def)
  have "distinct (map ((@) ''col:'') (map cl_id (bd_columns b)))"
    "distinct (map ((@) ''card:'') (map cd_id (board_cards b)))"
    using assms by (simp_all add: board_ok_def distinct_map inj_on_def)
  then have "distinct (map (\<lambda>c. ''col:'' @ cl_id c) (bd_columns b) @ map (\<lambda>k. ''card:'' @ cd_id k) (board_cards b))"
    by (auto simp: comp_def)
  moreover have "mset (map (\<lambda>c. ''col:'' @ cl_id c) (bd_columns b) @ map (\<lambda>k. ''card:'' @ cd_id k) (board_cards b)) =
      mset (column_keys (bd_columns b))" by (simp add: m board_cards_def)
  ultimately have "distinct (column_keys (bd_columns b))" using mset_eq_imp_distinct_iff by blast
  moreover have "''root'' \<notin> set (column_keys cs)" "''board'' \<notin> set (column_keys cs)" for cs
    by (auto simp: column_keys_def)
  ultimately show ?thesis by simp
qed

text \<open>What the laws of the re-export ask of an export.\<close>

definition good_export :: "str \<Rightarrow> object list \<Rightarrow> bool" where
  "good_export ext obs \<longleftrightarrow> distinct (map o_id obs) \<and> closed_from {} obs \<and>
     (\<forall>w \<in> set obs. geometry_ok (o_geometry w) \<and> tagged ext w) \<and>
     (\<forall>w \<in> set obs. carries_model_blob w \<longrightarrow> (\<forall>ob \<in> set obs. \<not> anchors_to (o_id w) ob))"

lemma export_board_good:
  assumes "board_ok b" "export_board b model al = (al', ops)"
  shows "\<exists>obs. ops = map InsertObject obs \<and> good_export ''kanban'' obs \<and>
    map o_id obs = map (alloc_id al) (''root'' # ''board'' # column_keys (bd_columns b)) \<and>
    (\<forall>w \<in> set obs. carries_model_blob w \<longrightarrow> o_id w = alloc_id al ''root'')"
proof -
  obtain al1 order1 where a: "alloc_order al = (al1, order1)" by (cases "alloc_order al")
  obtain al2 order2 where a2: "alloc_order al1 = (al2, order2)" by (cases "alloc_order al1")
  have pr: "ia_prefix al2 = ia_prefix al" using alloc_order_prefix[of al] alloc_order_prefix[of al1] by (simp add: a a2)
  let ?row = "alloc_id al ''board''"
  obtain al3 ops3 where e: "export_columns ?row (bd_columns b) al2 = (al3, ops3)"
    by (cases "export_columns ?row (bd_columns b) al2")
  let ?known = "{?row, alloc_id al ''root''}"
  obtain obs where obs: "ops3 = map InsertObject obs"
    "map o_id obs = map (alloc_id al) (column_keys (bd_columns b))" "closed_from ?known obs"
    "\<forall>ob \<in> set obs. o_anchors ob = [] \<and> plain_export ''kanban'' ob"
    using export_columns_shape[OF e, of ?known] unfolding alloc_id_prefix[OF pr] by auto
  let ?root = "root_object ''kanban'' ''Kanban board'' model (alloc_id al ''root'') order1"
  let ?rowob = "row_object ?row order2"
  let ?all = "?root # ?rowob # obs"
  have ids: "map o_id ?all = map (alloc_id al) (''root'' # ''board'' # column_keys (bd_columns b))"
    by (simp add: root_facts row_object_facts obs(2))
  have "distinct (map o_id ?all)" unfolding ids by (rule distinct_alloc[OF column_keys_distinct[OF assms(1)]])
  moreover have "closed_from {} ?all" using obs(3) by (simp add: root_facts row_object_facts)
  moreover have "o_anchors ?root = []" by (simp add: root_object_def object_new_def)
  then have "\<forall>ob \<in> set ?all. o_anchors ob = []" using obs(4) by (auto simp: row_object_facts)
  then have "\<forall>ob \<in> set ?all. \<not> anchors_to i ob" for i by (simp add: anchors_to_def)
  moreover have "\<forall>w \<in> set ?all. geometry_ok (o_geometry w) \<and> tagged ''kanban'' w"
    using obs(4) row_object_facts(4) by (auto simp: root_facts root_meta plain_export_def)
  ultimately have "good_export ''kanban'' ?all" unfolding good_export_def by blast
  moreover have "ops = map InsertObject ?all" using assms(2) by (simp add: export_board_def a a2 e obs(1) Let_def)
  moreover have "\<forall>w \<in> set ?all. carries_model_blob w \<longrightarrow> o_id w = alloc_id al ''root''"
    using obs(4) row_object_facts(4) by (auto simp: root_facts plain_export_def)
  ultimately show ?thesis using ids by blast
qed

section \<open>The diagram\<close>

lemma node_object_facts:
  "o_id (node_object n oid order) = oid" "refs (node_object n oid order) = {}"
  "o_anchors (node_object n oid order) = []" "plain_export ''diagram'' (node_object n oid order)"
proof -
  obtain fi st color where p: "semantic_preset_style ''decision'' = (fi, st, color)"
    by (cases "semantic_preset_style ''decision''")
  note d = node_object_def p prod.case object_new_def ext_rect_def
  have "o_meta (node_object n oid order) = ext_meta ''diagram'' (''node:'' @ dn_id n)" by (simp add: d)
  from plain_meta[OF this] show "plain_export ''diagram'' (node_object n oid order)"
    by (simp add: plain_export_def) (simp add: d)
  show "o_id (node_object n oid order) = oid" "refs (node_object n oid order) = {}"
    "o_anchors (node_object n oid order) = []" by (simp_all add: d refs_def)
qed

lemma edge_object_facts:
  "o_id (edge_object al e oid order) = oid"
  "refs (edge_object al e oid order) = {alloc_id al (''node:'' @ de_from e), alloc_id al (''node:'' @ de_to e)}"
  "plain_export ''diagram'' (edge_object al e oid order)"
proof -
  note d = edge_object_def object_new_def
  have "o_meta (edge_object al e oid order) = ext_meta ''diagram'' (''edge:'' @ de_id e)" by (simp add: d)
  from plain_meta[OF this] show "plain_export ''diagram'' (edge_object al e oid order)"
    by (simp add: plain_export_def) (simp add: d)
qed (simp_all add: edge_object_def object_new_def refs_def)

lemma export_nodes_shape:
  assumes "export_nodes ns al = (al', ops)"
  shows "\<exists>obs. ops = map InsertObject obs \<and> ia_prefix al' = ia_prefix al \<and>
    map o_id obs = map (\<lambda>n. alloc_id al (''node:'' @ dn_id n)) ns \<and>
    (\<forall>ob \<in> set obs. refs ob = {} \<and> o_anchors ob = [] \<and> plain_export ''diagram'' ob)"
  using assms
proof (induction ns arbitrary: al al' ops)
  case (Cons n ns)
  obtain al1 order where a: "alloc_order al = (al1, order)" by (cases "alloc_order al")
  have pr: "ia_prefix al1 = ia_prefix al" using alloc_order_prefix[of al] by (simp add: a)
  obtain al2 ops2 where e: "export_nodes ns al1 = (al2, ops2)" by (cases "export_nodes ns al1")
  obtain obs where obs: "ops2 = map InsertObject obs" "ia_prefix al2 = ia_prefix al1"
    "map o_id obs = map (\<lambda>n. alloc_id al (''node:'' @ dn_id n)) ns"
    "\<forall>ob \<in> set obs. refs ob = {} \<and> o_anchors ob = [] \<and> plain_export ''diagram'' ob"
    using Cons.IH[OF e] unfolding alloc_id_prefix[OF pr] by (elim exE conjE)
  let ?ob = "node_object n (alloc_id al (''node:'' @ dn_id n)) order"
  have "al' = al2" "ops = map InsertObject (?ob # obs)" using Cons.prems by (simp_all add: a e obs(1))
  then show ?case using obs pr by (intro exI[of _ "?ob # obs"]) (simp add: node_object_facts)
qed simp

lemma export_edges_shape:
  assumes "export_edges es al = (al', ops)"
  shows "\<exists>obs. ops = map InsertObject obs \<and> map o_id obs = map (\<lambda>e. alloc_id al (''edge:'' @ de_id e)) es \<and>
    (\<forall>ob \<in> set obs. plain_export ''diagram'' ob \<and> (\<exists>e \<in> set es. refs ob =
       {alloc_id al (''node:'' @ de_from e), alloc_id al (''node:'' @ de_to e)}))"
  using assms
proof (induction es arbitrary: al al' ops)
  case (Cons e es)
  obtain al1 order where a: "alloc_order al = (al1, order)" by (cases "alloc_order al")
  have pr: "ia_prefix al1 = ia_prefix al" using alloc_order_prefix[of al] by (simp add: a)
  obtain al2 ops2 where ex: "export_edges es al1 = (al2, ops2)" by (cases "export_edges es al1")
  obtain obs where obs: "ops2 = map InsertObject obs"
    "map o_id obs = map (\<lambda>e. alloc_id al (''edge:'' @ de_id e)) es"
    "\<forall>ob \<in> set obs. plain_export ''diagram'' ob \<and> (\<exists>e \<in> set es. refs ob =
       {alloc_id al (''node:'' @ de_from e), alloc_id al (''node:'' @ de_to e)})"
    using Cons.IH[OF ex] unfolding alloc_id_prefix[OF pr] by (elim exE conjE)
  let ?ob = "edge_object al e (alloc_id al (''edge:'' @ de_id e)) order"
  have "ops = map InsertObject (?ob # obs)" using Cons.prems by (simp add: a ex obs(1))
  then show ?case using obs(2,3) by (intro exI[of _ "?ob # obs"]) (simp add: edge_object_facts)
qed simp

lemma diagram_keys_distinct:
  assumes "diagram_ok d"
  shows "distinct (''root'' # map (\<lambda>n. ''node:'' @ dn_id n) (dg_nodes d) @ map (\<lambda>e. ''edge:'' @ de_id e) (dg_edges d))"
proof -
  have "distinct (map ((@) ''node:'') (map dn_id (dg_nodes d)))" "distinct (map ((@) ''edge:'') (map de_id (dg_edges d)))"
    using assms by (simp_all add: diagram_ok_def distinct_map inj_on_def)
  then show ?thesis by (auto simp: comp_def)
qed

lemma export_diagram_good:
  assumes "diagram_ok d" "export_diagram d model al = (al', ops)"
  shows "\<exists>obs. ops = map InsertObject obs \<and> good_export ''diagram'' obs \<and>
    map o_id obs = map (alloc_id al) (''root'' # map (\<lambda>n. ''node:'' @ dn_id n) (dg_nodes d) @
      map (\<lambda>e. ''edge:'' @ de_id e) (dg_edges d))"
proof -
  obtain al1 order where a: "alloc_order al = (al1, order)" by (cases "alloc_order al")
  have pr: "ia_prefix al1 = ia_prefix al" using alloc_order_prefix[of al] by (simp add: a)
  obtain al2 ops2 where n: "export_nodes (dg_nodes d) al1 = (al2, ops2)" by (cases "export_nodes (dg_nodes d) al1")
  obtain ns where ns: "ops2 = map InsertObject ns" "ia_prefix al2 = ia_prefix al"
    "map o_id ns = map (\<lambda>n. alloc_id al (''node:'' @ dn_id n)) (dg_nodes d)"
    "\<forall>ob \<in> set ns. refs ob = {} \<and> o_anchors ob = [] \<and> plain_export ''diagram'' ob"
    using export_nodes_shape[OF n] unfolding alloc_id_prefix[OF pr] pr by (elim exE conjE)
  obtain al3 ops3 where e: "export_edges (dg_edges d) al2 = (al3, ops3)" by (cases "export_edges (dg_edges d) al2")
  obtain es where es: "ops3 = map InsertObject es"
    "map o_id es = map (\<lambda>e. alloc_id al (''edge:'' @ de_id e)) (dg_edges d)"
    "\<forall>ob \<in> set es. plain_export ''diagram'' ob \<and> (\<exists>e \<in> set (dg_edges d). refs ob =
       {alloc_id al (''node:'' @ de_from e), alloc_id al (''node:'' @ de_to e)})"
    using export_edges_shape[OF e] unfolding alloc_id_prefix[OF ns(2)] by (elim exE conjE)
  let ?rid = "alloc_id al ''root''"
  let ?root = "root_object ''diagram'' ''Structure diagram'' model ?rid order"
  let ?all = "?root # ns @ es"
  let ?keys = "''root'' # map (\<lambda>n. ''node:'' @ dn_id n) (dg_nodes d) @ map (\<lambda>e. ''edge:'' @ de_id e) (dg_edges d)"
  have ids: "map o_id ?all = map (alloc_id al) ?keys" by (simp add: root_facts ns(3) es(2) comp_def)
  have nodes: "refs ob \<subseteq> o_id ` set ns \<and> ?rid \<notin> refs ob" if "ob \<in> set es" for ob
  proof -
    obtain e where ed: "e \<in> set (dg_edges d)" "refs ob = {alloc_id al (''node:'' @ de_from e), alloc_id al (''node:'' @ de_to e)}"
      using es(3) \<open>ob \<in> set es\<close> by blast
    have "o_id ` set ns = (\<lambda>n. alloc_id al (''node:'' @ dn_id n)) ` set (dg_nodes d)"
      using arg_cong[OF ns(3), of set] by simp
    then show ?thesis using ed assms(1) by (auto simp: diagram_ok_def)
  qed
  have "distinct (map o_id ?all)" unfolding ids by (rule distinct_alloc[OF diagram_keys_distinct[OF assms(1)]])
  moreover have "closed_from {} ?all"
    unfolding closed_from.simps closed_from_append
    using ns(4) nodes by (auto simp: root_facts intro!: closed_from_flat)
  moreover have "\<forall>ob \<in> set ?all. geometry_ok (o_geometry ob) \<and> tagged ''diagram'' ob"
    using ns(4) es(3) by (auto simp: root_facts root_meta plain_export_def)
  moreover have "\<not> anchors_to (o_id w) ob" if "w \<in> set ?all" "carries_model_blob w" "ob \<in> set ?all" for w ob
  proof -
    have "w = ?root" using that(1,2) ns(4) es(3) by (auto simp: plain_export_def)
    then have w: "o_id w = ?rid" by (simp add: root_facts)
    have "?rid \<notin> refs ob" using that(3) nodes ns(4) by (auto simp: root_facts)
    then have "?rid \<notin> a_target ` set (o_anchors ob)" by (simp add: refs_def)
    then show ?thesis unfolding w anchors_to_def by (metis image_eqI)
  qed
  ultimately have "good_export ''diagram'' ?all" unfolding good_export_def by blast
  moreover have "ops = map InsertObject ?all"
    using assms(2) by (simp add: export_diagram_def a n e ns(1) es(1))
  ultimately show ?thesis using ids by blast
qed

section \<open>Re-export\<close>

lemma good_export_converges:
  assumes "good_export ext obs" "scene_ok sc" "reconcile sc ext (map InsertObject obs) = Inr ops" "apply_ops lm sc ops = Some sc'"
    "\<forall>w \<in> set obs. carries_model_blob w \<longrightarrow> (\<forall>ob \<in> set (objects sc). \<not> anchors_to (o_id w) ob)"
  shows "(\<forall>w \<in> set obs. \<exists>ob. scene_get sc' (o_id w) = Some ob \<and>
      exported_as (bt_get (current_ext_objects sc ext) (o_id w)) ob w) \<and>
    (\<forall>ob \<in> set (objects sc). tagged ext ob \<and> o_id ob \<notin> o_id ` set obs \<longrightarrow> scene_get sc' (o_id ob) = None)"
proof (rule reconcile_converges[OF assms(2,3,4)])
  show "\<forall>w \<in> set obs. carries_model_blob w \<longrightarrow> (\<forall>ob \<in> set (objects sc) \<union> set obs. \<not> anchors_to (o_id w) ob)"
    using assms(1,5) by (auto simp: good_export_def)
qed (use assms(1) in \<open>auto simp: good_export_def\<close>)

text \<open>On a scene without the ids of an export, all its insertions succeed.\<close>

lemma insert_succeeds:
  assumes "geometry_ok (o_geometry ob)" "\<not> has_object sc (o_id ob)"
  shows "apply_object_op lm sc (InsertObject ob) =
    (sc\<lparr>objects := objects sc @ [ob], scene_version := scene_version sc + 1\<rparr>, Inr (Delete (o_id ob)))"
proof -
  show ?thesis using assms(2) geometry_okD(4,5)[OF assms(1)]
    by (simp add: object_ensure_parsed_def apply_object_op_def apply_insert_def guarded_def parsed_def checked_def with_version_def)
qed

lemma inserts_succeed:
  assumes "\<forall>w \<in> set obs. geometry_ok (o_geometry w)" "distinct (map o_id obs)" "\<forall>w \<in> set obs. \<not> has_object sc (o_id w)"
  shows "\<exists>sc'. apply_ops lm sc (map InsertObject obs) = Some sc' \<and> objects sc' = objects sc @ obs"
  using assms
proof (induction obs arbitrary: sc)
  case (Cons w obs)
  let ?sc = "sc\<lparr>objects := objects sc @ [w], scene_version := scene_version sc + 1\<rparr>"
  have "\<exists>sc'. apply_ops lm ?sc (map InsertObject obs) = Some sc' \<and> objects sc' = objects ?sc @ obs"
  proof (rule Cons.IH)
    have "o_id v \<noteq> o_id w" if "v \<in> set obs" for v using Cons.prems(2) that by (metis distinct.simps(2) image_eqI list.simps(9) set_map)
    then show "\<forall>v \<in> set obs. \<not> has_object ?sc (o_id v)" using Cons.prems(3) by (simp add: has_object_ids ids_def)
  qed (use Cons.prems in simp_all)
  then show ?case using insert_succeeds[of w sc lm] Cons.prems by simp
qed simp

lemma reconcile_fresh:
  assumes "distinct (map o_id obs)" "\<forall>ob \<in> set (objects sc). \<not> tagged ext ob"
  shows "reconcile sc ext (map InsertObject obs) = Inr (map InsertObject obs)"
proof -
  have "filter (tagged ext) (objects sc) = []" using assms(2) by (simp add: filter_empty_conv)
  then have "current_ext_objects sc ext = []" by (simp add: current_ext_objects_def btree_of_def tagged_def[abs_def])
  moreover have "concat (map (reconcile_object []) obs) = map InsertObject obs"
    by (induction obs) (simp_all add: reconcile_object_def)
  ultimately show ?thesis by (simp add: reconcile_inserts[OF assms(1)] bt_keys_def)
qed

end
