(* ===== verification/Extension_Properties.thy ===== *)
theory Extension_Properties
  imports Export_Laws Samples
begin

text \<open>
  The properties of the extensions: the domain models stay well formed under the tools, and an
  edited model that is exported again replaces what the scene held.
\<close>

text \<open>A board with one card, and a node with a label.\<close>

definition sample_board :: board where
  "sample_board = \<lparr>bd_columns = [\<lparr>cl_id = ''todo'', cl_title = ''To do'',
     cl_cards = [\<lparr>cd_id = ''c1'', cd_title = ''Write'', cd_body = [], cd_done = False\<rparr>]\<rparr>]\<rparr>"

definition sample_diagram :: diagram where
  "sample_diagram = \<lparr>dg_nodes = [\<lparr>dn_id = ''n'', dn_label = ''Start'', dn_x = 0, dn_y = 0\<rparr>], dg_edges = []\<rparr>"

definition loop_args :: json where
  "loop_args = JObject [(''from'', JString ''n''), (''id'', JString ''e''), (''to'', JString ''n'')]"

definition done_args :: json where
  "done_args = JObject [(''card'', JString ''c1''), (''done'', JBool True)]"

text \<open>C24: the tools of the kanban board keep the ids of columns and of cards unique over the whole
  board, and the tools of the diagram keep the ids of nodes and of edges unique and every edge
  between two nodes of the diagram.\<close>

theorem author_keeps_model_ok:
  assumes "board_ok b" "board_edit b tool args = Inr b'" "diagram_ok d" "diagram_edit d tool2 args2 = Inr d'"
  shows "board_ok b' \<and> diagram_ok d'"
  using board_edit_ok[OF assms(1,2)] diagram_edit_ok[OF assms(3,4)] by (rule conjI)

theorem author_keeps_model_ok_witness:
  "\<exists>b' d'. board_edit sample_board ''set_done'' done_args = Inr b' \<and>
     diagram_edit sample_diagram ''connect'' loop_args = Inr d' \<and> board_ok b' \<and> diagram_ok d'"
proof -
  have ok: "board_ok sample_board" "diagram_ok sample_diagram"
    by (simp_all add: board_ok_def board_cards_def sample_board_def diagram_ok_def sample_diagram_def)
  have "\<not> isl (board_edit sample_board ''set_done'' done_args)"
    "\<not> isl (diagram_edit sample_diagram ''connect'' loop_args)" by code_simp+
  then obtain b' d' where "board_edit sample_board ''set_done'' done_args = Inr b'"
    "diagram_edit sample_diagram ''connect'' loop_args = Inr d'"
    by (auto simp: isl_def) (metis sum.collapse(2) isl_def)
  then show ?thesis using author_keeps_model_ok[OF ok(1) _ ok(2)] by blast
qed

text \<open>C25: the operations that the host derives from an exported board, applied to the scene,
  leave every object of the export: as exported where the scene had none of the board under its id;
  the root as exported, with its new model blob (or as it was, if that is equal in every field); any
  other with all the exported fields that an update can carry, and with everything else (geometry,
  meta, tags, comments, warp, clip) as it was. They remove the board's objects that are no longer
  exported. Nothing may be anchored to the root.\<close>

theorem board_reexport_converges:
  assumes "board_ok b" "export_board b model al = (al', desired)" "scene_ok sc"
    "reconcile sc ''kanban'' desired = Inr ops" "apply_ops lm sc ops = Some sc'"
    "\<forall>ob \<in> set (objects sc). \<not> anchors_to (alloc_id al ''root'') ob"
  shows "(\<forall>w. InsertObject w \<in> set desired \<longrightarrow> (\<exists>ob. scene_get sc' (o_id w) = Some ob \<and>
      exported_as (bt_get (current_ext_objects sc ''kanban'') (o_id w)) ob w)) \<and>
    (\<forall>ob \<in> set (objects sc). tagged ''kanban'' ob \<and> (\<forall>w. InsertObject w \<in> set desired \<longrightarrow> o_id w \<noteq> o_id ob) \<longrightarrow>
       scene_get sc' (o_id ob) = None)"
proof -
  obtain obs where obs: "desired = map InsertObject obs" "good_export ''kanban'' obs"
    "\<forall>w \<in> set obs. carries_model_blob w \<longrightarrow> o_id w = alloc_id al ''root''"
    using export_board_good[OF assms(1,2)] by blast
  have blob: "\<forall>w \<in> set obs. carries_model_blob w \<longrightarrow> (\<forall>ob \<in> set (objects sc). \<not> anchors_to (o_id w) ob)"
    using obs(3) assms(6) by simp
  have mem: "InsertObject w \<in> set desired \<longleftrightarrow> w \<in> set obs" for w by (auto simp: obs(1))
  have none: "o_id ob \<notin> o_id ` set obs" if "\<forall>w. w \<in> set obs \<longrightarrow> o_id w \<noteq> o_id ob" for ob using that by auto
  note conv = good_export_converges[OF obs(2) assms(3) assms(4)[unfolded obs(1)] assms(5) blob]
  show ?thesis unfolding mem using conv none by blast
qed

theorem board_reexport_converges_witness:
  "\<exists>ops sc' ob. reconcile scene_default ''kanban'' (snd (export_board sample_board JNull (alloc_new ''kanban''))) = Inr ops \<and>
     apply_ops zero_libm scene_default ops = Some sc' \<and>
     scene_get sc' ''ext-kanban-card:c1'' = Some ob \<and> InsertObject ob \<in> set ops"
proof -
  obtain al' desired where ex: "export_board sample_board JNull (alloc_new ''kanban'') = (al', desired)"
    by (cases "export_board sample_board JNull (alloc_new ''kanban'')")
  have ok: "board_ok sample_board" "scene_ok scene_default"
    by (simp_all add: board_ok_def board_cards_def sample_board_def scene_ok_def scene_default_def ids_def)
  obtain obs where obs: "desired = map InsertObject obs" "good_export ''kanban'' obs"
    and ids: "map o_id obs = map (alloc_id (alloc_new ''kanban'')) (''root'' # ''board'' # column_keys (bd_columns sample_board))"
    using export_board_good[OF ok(1) ex] by blast
  have none: "objects scene_default = []" by (simp add: scene_default_def)
  have "reconcile scene_default ''kanban'' desired = Inr desired"
    unfolding obs(1) by (rule reconcile_fresh) (use obs(2) none in \<open>simp_all add: good_export_def\<close>)
  moreover have "\<exists>sc'. apply_ops zero_libm scene_default desired = Some sc' \<and> objects sc' = objects scene_default @ obs"
    unfolding obs(1) by (rule inserts_succeed) (use obs(2) none in \<open>auto simp: good_export_def has_object_ids ids_def\<close>)
  ultimately obtain sc' where s: "reconcile scene_default ''kanban'' desired = Inr desired"
    "apply_ops zero_libm scene_default desired = Some sc'" by blast
  have "map o_id obs = map (alloc_id (alloc_new ''kanban'')) [''root'', ''board'', ''col:todo'', ''card:c1'']"
    using ids by (simp add: column_keys_def sample_board_def)
  then have "''ext-kanban-card:c1'' \<in> set (map o_id obs)" by (simp add: alloc_id_def alloc_new_def)
  from this[unfolded set_map] obtain w where mem: "w \<in> set obs" and wid: "''ext-kanban-card:c1'' = o_id w"
    by (elim imageE)
  have w: "InsertObject w \<in> set desired" using mem by (simp add: obs(1))
  have "\<forall>ob \<in> set (objects scene_default). \<not> anchors_to (alloc_id (alloc_new ''kanban'') ''root'') ob"
    by (simp add: scene_default_def)
  from board_reexport_converges[OF ok(1) ex ok(2) s this] w
  obtain ob where ob: "scene_get sc' (o_id w) = Some ob"
    "exported_as (bt_get (current_ext_objects scene_default ''kanban'') (o_id w)) ob w" by blast
  have "bt_get (current_ext_objects scene_default ''kanban'') (o_id w) = None"
    by (simp add: current_ext_objects_def scene_default_def btree_of_def)
  with ob(2) have "ob = w" by (simp add: exported_as_def)
  then show ?thesis using s ob(1) mem unfolding ex snd_conv wid by (auto simp: obs(1))
qed

end
