(* ===== verification/Deform.thy ===== *)
theory Deform
  imports Region
begin

text \<open>
  The coordinate pairs of a path text (\<open>binding/anchor_follow.rs\<close>) and the chord deformation of
  an open path (\<open>authoring/deform.rs\<close>): when the ends of an open path move, the similarity that
  takes the old chord to the new one is applied to every coordinate pair.
\<close>

section \<open>Numbers of a path text\<close>

definition ascii_digit :: "char \<Rightarrow> bool" where
  "ascii_digit c \<longleftrightarrow> 48 \<le> byte c \<and> byte c \<le> 57"

definition skip_digits :: "str \<Rightarrow> nat \<Rightarrow> nat" where
  "skip_digits d pos = pos + length (takeWhile ascii_digit (drop pos d))"

text \<open>The end of the number that starts at \<open>pos\<close>: a sign, digits, and a fraction.\<close>

definition number_end :: "str \<Rightarrow> nat \<Rightarrow> nat" where
  "number_end d pos =
     (let p1 = skip_digits d (if d ! pos = CHR ''-'' then pos + 1 else pos)
      in if p1 < length d \<and> d ! p1 = CHR ''.'' then skip_digits d (p1 + 1) else p1)"

lemma skip_digits_le: "pos \<le> skip_digits d pos"
  by (simp add: skip_digits_def)

lemma number_end_greater:
  assumes "pos < length d" "d ! pos = CHR ''-'' \<or> ascii_digit (d ! pos)"
  shows "pos < number_end d pos"
proof -
  have "pos < skip_digits d (if d ! pos = CHR ''-'' then pos + 1 else pos)"
  proof (cases "d ! pos = CHR ''-''")
    case True
    then show ?thesis using skip_digits_le[of "pos + 1" d] by simp
  next
    case False
    then have "takeWhile ascii_digit (drop pos d) = d ! pos # takeWhile ascii_digit (drop (Suc pos) d)"
      using assms by (simp add: Cons_nth_drop_Suc[symmetric])
    then show ?thesis using False by (simp add: skip_digits_def)
  qed
  then show ?thesis using skip_digits_le[of "skip_digits d (if d ! pos = CHR ''-'' then pos + 1 else pos) + 1" d]
    by (auto simp: number_end_def Let_def)
qed

function spans_from :: "str \<Rightarrow> nat \<Rightarrow> (nat \<times> nat) list" where
  "spans_from d pos =
     (if length d \<le> pos then []
      else if d ! pos \<noteq> CHR ''-'' \<and> \<not> ascii_digit (d ! pos) then spans_from d (pos + 1)
      else (pos, number_end d pos) # spans_from d (number_end d pos))"
  by auto
termination
  by (relation "measure (\<lambda>(d, pos). length d - pos)") (auto simp: not_le intro!: diff_less_mono2 number_end_greater)

declare spans_from.simps [simp del]

definition number_spans :: "str \<Rightarrow> (nat \<times> nat) list" where
  "number_spans d = spans_from d 0"

definition text_slice :: "str \<Rightarrow> nat \<Rightarrow> nat \<Rightarrow> str" where
  "text_slice d lo hi = take (hi - lo) (drop lo d)"

text \<open>\<open>parse::<f64>().unwrap_or(0.0)\<close> of the text of a span; a sign alone does not parse.\<close>

definition span_value :: "str \<Rightarrow> f64" where
  "span_value s =
     (let neg = (s \<noteq> [] \<and> hd s = CHR ''-'');
          body = (if neg then tl s else s);
          ip = takeWhile ascii_digit body;
          rest = dropWhile ascii_digit body;
          fp = (if rest = [] then [] else tl rest);
          n = foldl (\<lambda>a c. 10 * a + (int (byte c) - 48)) 0 (ip @ fp)
      in if ip = [] \<and> fp = [] then 0
         else f_round_signed neg (if neg then - n else n) (10 ^ length fp) 0)"

fun pair_up :: "'a list \<Rightarrow> ('a \<times> 'a) list" where
  "pair_up (x # y # zs) = (x, y) # pair_up zs"
| "pair_up _ = []"

definition local_nodes :: "str \<Rightarrow> (f64 \<times> f64) list" where
  "local_nodes d = pair_up (map (\<lambda>(a, b). span_value (text_slice d a b)) (number_spans d))"

text \<open>
  The rewrite of one pair. The loop keeps the text written so far, the end of the last number,
  the index of the pair, whether the number is an x, and the two flags.
\<close>

fun rewrite_spans ::
    "str \<Rightarrow> i32 \<Rightarrow> i64 \<Rightarrow> i64 \<Rightarrow> (nat \<times> nat) list \<Rightarrow> str \<Rightarrow> nat \<Rightarrow> int \<Rightarrow> bool \<Rightarrow> bool \<Rightarrow> bool \<Rightarrow> str option" where
  "rewrite_spans d node x y [] out last_end pair is_x hit changed =
     (if hit \<and> changed then Some (out @ drop last_end d) else None)"
| "rewrite_spans d node x y ((a, b) # spans) out last_end pair is_x hit changed =
     (let gap = text_slice d last_end a;
          original = text_slice d a b;
          text = show_int (sint (if is_x then x else y));
          pair' = (if is_x then pair else pair + 1)
      in if pair = sint node
         then rewrite_spans d node x y spans (out @ gap @ text) b pair' (\<not> is_x) True (changed \<or> original \<noteq> text)
         else rewrite_spans d node x y spans (out @ gap @ original) b pair' (\<not> is_x) hit changed)"

definition set_path_node :: "str \<Rightarrow> i32 \<Rightarrow> i64 \<Rightarrow> i64 \<Rightarrow> str option" where
  "set_path_node d node x y = rewrite_spans d node x y (number_spans d) [] 0 0 True False False"

section \<open>Open paths\<close>

definition min_chord_units :: f64 where "min_chord_units = units_per_px"
definition sigma_max :: f64 where "sigma_max = f_of_int 64"

fun single_open :: "sub_path list \<Rightarrow> bool" where
  "single_open [sp] = (\<not> sp_closed sp)"
| "single_open _ = False"

definition is_open_class_d :: "str \<Rightarrow> bool" where
  "is_open_class_d d = (case parse_path d of Inl _ \<Rightarrow> False | Inr sps \<Rightarrow> single_open sps)"

definition is_open_class :: "geometry \<Rightarrow> bool" where
  "is_open_class g = (if g_subpaths g = [] then is_open_class_d (g_path g) else single_open (g_subpaths g))"

definition round_unit :: "f64 \<Rightarrow> i32" where
  "round_unit v =
     (if f_is_nan v then 0 else f_to_i32 (f_clamp (f_round v) (f_of_int (- (2 ^ 31))) (f_of_int (2 ^ 31 - 1))))"

type_synonym point = "f64 \<times> f64"

definition node_point :: "path_node \<Rightarrow> point" where
  "node_point n = (f_of_i32 (n_x n), f_of_i32 (n_y n))"

text \<open>The similarity as a complex ratio; none when the old chord or the scale is degenerate.\<close>

definition chord_ratio :: "libm \<Rightarrow> point \<Rightarrow> point \<Rightarrow> point \<Rightarrow> point \<Rightarrow> point option" where
  "chord_ratio lm old_start old_end new_start new_end =
     (let ux = f_sub (fst old_end) (fst old_start); uy = f_sub (snd old_end) (snd old_start);
          vx = f_sub (fst new_end) (fst new_start); vy = f_sub (snd new_end) (snd new_start);
          chord_sq = f_add (f_mul ux ux) (f_mul uy uy)
      in if \<not> f_le min_chord_units (f_sqrt chord_sq) then None
         else
           let zr = f_div (f_add (f_mul vx ux) (f_mul vy uy)) chord_sq;
               zi = f_div (f_sub (f_mul vy ux) (f_mul vx uy)) chord_sq;
               sigma = hypot_f lm zr zi
           in if f_le (f_div f_one sigma_max) sigma \<and> f_le sigma sigma_max then Some (zr, zi) else None)"

definition chord_map :: "point option \<Rightarrow> point \<Rightarrow> point \<Rightarrow> point \<Rightarrow> point" where
  "chord_map z old_start new_start p =
     (case z of
        Some (zr, zi) \<Rightarrow>
          let dx = f_sub (fst p) (fst old_start); dy = f_sub (snd p) (snd old_start)
          in (f_sub (f_add (fst new_start) (f_mul zr dx)) (f_mul zi dy),
              f_add (f_add (snd new_start) (f_mul zi dx)) (f_mul zr dy))
      | None \<Rightarrow> (f_sub (f_add (fst p) (fst new_start)) (fst old_start),
                 f_sub (f_add (snd p) (snd new_start)) (snd old_start)))"

definition deform_handle :: "(point \<Rightarrow> point) \<Rightarrow> path_node \<Rightarrow> i32 \<Rightarrow> i32 \<Rightarrow> handle_point \<Rightarrow> handle_point" where
  "deform_handle m n qx qy h =
     (case m (f_of_i32 (n_x n + h_dx h), f_of_i32 (n_y n + h_dy h)) of (ax, ay) \<Rightarrow>
        \<lparr>h_dx = round_unit ax - qx, h_dy = round_unit ay - qy\<rparr>)"

definition deform_node :: "(point \<Rightarrow> point) \<Rightarrow> path_node \<Rightarrow> path_node" where
  "deform_node m n =
     (case m (node_point n) of (x, y) \<Rightarrow>
        let qx = round_unit x; qy = round_unit y in
        \<lparr>n_x = qx, n_y = qy, n_in = map_option (deform_handle m n qx qy) (n_in n),
         n_out = map_option (deform_handle m n qx qy) (n_out n), n_width = n_width n\<rparr>)"

definition deform_open_path :: "libm \<Rightarrow> str \<Rightarrow> point \<Rightarrow> point \<Rightarrow> str option" where
  "deform_open_path lm d new_start new_end =
     (case parse_path d of
        Inl _ \<Rightarrow> None
      | Inr sps \<Rightarrow>
          if \<not> single_open sps then None
          else if sp_nodes (hd sps) = [] then None
          else
            let nodes = sp_nodes (hd sps);
                old_start = node_point (hd nodes);
                old_end = node_point (last nodes);
                m = chord_map (chord_ratio lm old_start old_end new_start new_end) old_start new_start
            in Some (serialize [\<lparr>sp_closed = False, sp_nodes = map (deform_node m) nodes\<rparr>]))"

section \<open>Members of a moved set\<close>

definition is_pure_translate :: "transform \<Rightarrow> bool" where
  "is_pure_translate t =
     (case t of ((m00, m01, m02), (m10, m11, m12), (m20, m21, m22)) \<Rightarrow>
        f_eq m00 f_one \<and> f_eq m01 0 \<and> f_eq m10 0 \<and> f_eq m11 f_one \<and>
        f_eq m20 0 \<and> f_eq m21 0 \<and> f_eq m22 f_one)"

text \<open>\<open>i32::try_from\<close> of the index of the last pair.\<close>

definition last_pair :: "nat \<Rightarrow> i32 option" where
  "last_pair n = (if int n - 1 < 2 ^ 31 then Some (word_of_int (int n - 1)) else None)"

definition open_endpoint_pins :: "str \<Rightarrow> anchor list \<Rightarrow> (object_id \<Rightarrow> bool) \<Rightarrow> (bool \<times> bool) option" where
  "open_endpoint_pins d as moved =
     (let pairs = length (local_nodes d) in
      if pairs < 2 then None
      else case last_pair pairs of
        None \<Rightarrow> None
      | Some l \<Rightarrow>
          if \<exists>a \<in> set as. a_node a \<noteq> 0 \<and> a_node a \<noteq> l then None
          else
            let pinned = (\<lambda>i. \<exists>a \<in> set as. a_node a = i \<and> \<not> moved (a_target a))
            in Some (pinned 0, pinned l))"

datatype endpoint_route = RouteTranslate | RoutePinned | RouteDeform point point

definition follow_delta :: "transform \<Rightarrow> transform \<Rightarrow> path_node \<Rightarrow> point" where
  "follow_delta t delta n =
     (case transform_apply_point t (f_div (f_of_i32 (n_x n)) units_per_px) (f_div (f_of_i32 (n_y n)) units_per_px) of
        (wx, wy) \<Rightarrow> case transform_apply_point delta wx wy of
          (mx, my) \<Rightarrow> case apply_affine (invert_affine (affine_of t)) mx my of
            (lx, ly) \<Rightarrow> (f_mul lx units_per_px, f_mul ly units_per_px))"

definition route_open_endpoints :: "str \<Rightarrow> transform \<Rightarrow> transform \<Rightarrow> bool \<Rightarrow> bool \<Rightarrow> endpoint_route option" where
  "route_open_endpoints d t delta start_pinned end_pinned =
     (case parse_path d of
        Inl _ \<Rightarrow> None
      | Inr sps \<Rightarrow>
          if \<not> single_open sps then None
          else if start_pinned \<and> end_pinned then Some RoutePinned
          else if \<not> start_pinned \<and> \<not> end_pinned \<and> is_pure_translate delta then Some RouteTranslate
          else if sp_nodes (hd sps) = [] then None
          else
            let first = hd (sp_nodes (hd sps)); final = last (sp_nodes (hd sps))
            in Some (RouteDeform (if start_pinned then node_point first else follow_delta t delta first)
                                 (if end_pinned then node_point final else follow_delta t delta final)))"

text \<open>A geometry that carries only its path text.\<close>

definition text_geometry :: "str \<Rightarrow> fill_rule \<Rightarrow> geometry" where
  "text_geometry d rule = \<lparr>g_path = d, g_rule = rule, g_subpaths = []\<rparr>"

text \<open>The release of a dragged end: the deformation, and the anchors with this end bound anew.\<close>

definition release_anchors ::
    "scene \<Rightarrow> object \<Rightarrow> i32 \<Rightarrow> (object_id \<times> point) option \<Rightarrow> anchor list" where
  "release_anchors sc ob node snap =
     (let kept = filter (\<lambda>a. a_node a \<noteq> node) (o_anchors ob) in
      case snap of
        None \<Rightarrow> kept
      | Some (target_id, (ax, ay)) \<Rightarrow>
          if target_id = o_id ob then kept
          else case scene_get sc target_id of
            None \<Rightarrow> kept
          | Some target \<Rightarrow>
              (case apply_affine (invert_affine (affine_of (o_transform target))) ax ay of (tx, ty) \<Rightarrow>
                 kept @ [\<lparr>a_node = node, a_target = o_id target, a_at = \<lparr>l_x = quantize tx, l_y = quantize ty\<rparr>\<rparr>]))"

definition endpoint_release_ops ::
    "libm \<Rightarrow> scene \<Rightarrow> object_id \<Rightarrow> i32 \<Rightarrow> point \<Rightarrow> (object_id \<times> point) option \<Rightarrow> object_op list" where
  "endpoint_release_ops lm sc i node new_point snap =
     (case scene_get sc i of
        None \<Rightarrow> []
      | Some ob \<Rightarrow>
          let d = g_path (o_geometry ob); pairs = local_nodes d in
          if \<not> is_open_class_d d \<or> length pairs < 2 then []
          else case last_pair (length pairs) of
            None \<Rightarrow> []
          | Some l \<Rightarrow>
              if node \<noteq> 0 \<and> node \<noteq> l then []
              else case apply_affine (invert_affine (affine_of (o_transform ob))) (fst new_point) (snd new_point) of
                (lx, ly) \<Rightarrow>
                  let new_local = (f_mul lx units_per_px, f_mul ly units_per_px);
                      ends = (if node = 0 then (new_local, last pairs) else (hd pairs, new_local));
                      edit = (case deform_open_path lm d (fst ends) (snd ends) of
                          None \<Rightarrow> []
                        | Some new_d \<Rightarrow>
                            if new_d = d then []
                            else [EditGeometry (o_id ob) (text_geometry new_d (g_rule (o_geometry ob)))]);
                      anchors = release_anchors sc ob node snap
                  in edit @ (if anchors = o_anchors ob then [] else [SetAnchor (o_id ob) anchors]))"

end
