(* ===== verification/MoveTogether.thy ===== *)
theory MoveTogether
  imports Apply_Laws BTreeMap
begin

text \<open>
  The propagation graph of a drag: \<open>binding/move_together.rs\<close>. Children carry world
  transforms, so they ride the delta of their parent; objects anchored to a moved object have to
  be projected again.
\<close>

section \<open>The graph\<close>

record binding_node =
  bn_id :: str
  bn_parent :: "str option"
  bn_anchor_targets :: "str list"

datatype prop_kind = SameDelta | Reproject

record prop_edge =
  pe_id :: str
  pe_kind :: prop_kind

text \<open>The adjacency is only read by key, so the order of the entries does not matter.\<close>

type_synonym binding_graph = "prop_edge list btree"

definition push_edge :: "str \<Rightarrow> prop_edge \<Rightarrow> binding_graph \<Rightarrow> binding_graph" where
  "push_edge k e g = bt_insert k ((case bt_get g k of None \<Rightarrow> [] | Some es \<Rightarrow> es) @ [e]) g"

definition node_edges :: "binding_node \<Rightarrow> (str \<times> prop_edge) list" where
  "node_edges n =
     (case bn_parent n of None \<Rightarrow> [] | Some p \<Rightarrow> [(p, \<lparr>pe_id = bn_id n, pe_kind = SameDelta\<rparr>)]) @
     map (\<lambda>t. (t, \<lparr>pe_id = bn_id n, pe_kind = Reproject\<rparr>)) (bn_anchor_targets n)"

definition graph_build :: "binding_node list \<Rightarrow> binding_graph" where
  "graph_build nodes = foldl (\<lambda>g n. foldl (\<lambda>g (k, e). push_edge k e g) g (node_edges n)) [] nodes"

definition graph_edges :: "binding_graph \<Rightarrow> str \<Rightarrow> prop_edge list" where
  "graph_edges g i = (case bt_get g i of None \<Rightarrow> [] | Some es \<Rightarrow> es)"

section \<open>The closure\<close>

text \<open>The inner loop over the edges of one object: new children are recorded and queued.\<close>

fun visit_edges :: "prop_edge list \<Rightarrow> str list \<Rightarrow> str list \<Rightarrow> str list \<times> str list" where
  "visit_edges [] seen queue = (seen, queue)"
| "visit_edges (e # es) seen queue =
     (if pe_kind e = SameDelta \<and> pe_id e \<notin> set seen
      then visit_edges es (seen @ [pe_id e]) (queue @ [pe_id e])
      else visit_edges es seen queue)"

lemma visit_edges_shape:
  "visit_edges es seen queue = (seen', queue') \<Longrightarrow>
   \<exists>new. seen' = seen @ new \<and> queue' = queue @ new \<and> set new \<subseteq> pe_id ` set es - set seen \<and> distinct new"
proof (induction es arbitrary: seen queue)
  case (Cons e es)
  show ?case
  proof (cases "pe_kind e = SameDelta \<and> pe_id e \<notin> set seen")
    case True
    then have "visit_edges es (seen @ [pe_id e]) (queue @ [pe_id e]) = (seen', queue')" using Cons.prems by simp
    from Cons.IH[OF this] obtain new where
      "seen' = (seen @ [pe_id e]) @ new" "queue' = (queue @ [pe_id e]) @ new"
      "set new \<subseteq> pe_id ` set es - set (seen @ [pe_id e])" "distinct new" by blast
    then show ?thesis using True by (intro exI[of _ "pe_id e # new"]) auto
  next
    case False
    then have "visit_edges es seen queue = (seen', queue')" using Cons.prems by auto
    from Cons.IH[OF this] show ?thesis by auto
  qed
qed simp

text \<open>The ids that edges lead to.\<close>

definition edge_ids :: "binding_graph \<Rightarrow> str set" where
  "edge_ids g = pe_id ` (\<Union>es \<in> snd ` set g. set es)"

lemma finite_edge_ids [simp]: "finite (edge_ids g)"
  by (simp add: edge_ids_def)

lemma graph_edges_ids: "pe_id ` set (graph_edges g i) \<subseteq> edge_ids g"
proof (cases "bt_get g i")
  case (Some es)
  then have "(i, es) \<in> set g" by (simp add: bt_get_def map_of_SomeD)
  then show ?thesis using Some by (force simp: graph_edges_def edge_ids_def)
qed (simp add: graph_edges_def)

text \<open>The queue loop of one root. Every object is queued once, so it ends.\<close>

function expand_root :: "binding_graph \<Rightarrow> str list \<Rightarrow> str list \<Rightarrow> str list" where
  "expand_root g seen [] = seen"
| "expand_root g seen (current # queue) =
     (case visit_edges (graph_edges g current) seen queue of (seen', queue') \<Rightarrow> expand_root g seen' queue')"
  by pat_completeness auto
termination
proof (relation "measure (\<lambda>(g, seen, queue). 2 * card (edge_ids g - set seen) + length queue)", goal_cases)
  case (2 g seen current queue seen' queue')
  obtain new where new: "seen' = seen @ new" "queue' = queue @ new"
    "set new \<subseteq> pe_id ` set (graph_edges g current) - set seen" "distinct new"
    using visit_edges_shape[of "graph_edges g current" seen queue seen' queue'] 2 by auto
  have sub: "set new \<subseteq> edge_ids g - set seen" using new(3) graph_edges_ids[of g current] by blast
  have "edge_ids g - set seen' = (edge_ids g - set seen) - set new" by (auto simp: new(1))
  then have "card (edge_ids g - set seen') = card (edge_ids g - set seen) - length new"
    using card_Diff_subset[OF _ sub] distinct_card[OF new(4)] by simp
  moreover have "length new \<le> card (edge_ids g - set seen)"
    using card_mono[OF _ sub] distinct_card[OF new(4)] by simp
  ultimately show ?case by (simp add: new(2))
qed simp

fun expand_roots :: "binding_graph \<Rightarrow> str list \<Rightarrow> str list \<Rightarrow> str list" where
  "expand_roots g [] seen = seen"
| "expand_roots g (root # roots) seen =
     (if root \<in> set seen then expand_roots g roots seen
      else expand_roots g roots (expand_root g (seen @ [root]) [root]))"

fun reproject_edges :: "str list \<Rightarrow> str \<Rightarrow> prop_edge list \<Rightarrow> (str \<times> str) list \<Rightarrow> (str \<times> str) list" where
  "reproject_edges same moved [] acc = acc"
| "reproject_edges same moved (e # es) acc =
     (if pe_kind e \<noteq> Reproject \<or> pe_id e \<in> set same \<or> (pe_id e, moved) \<in> set acc
      then reproject_edges same moved es acc
      else reproject_edges same moved es (acc @ [(pe_id e, moved)]))"

definition propagation_closure :: "binding_graph \<Rightarrow> str list \<Rightarrow> str list \<times> (str \<times> str) list" where
  "propagation_closure g roots =
     (let same = expand_roots g roots [] in
      (same, foldl (\<lambda>acc moved. reproject_edges same moved (graph_edges g moved) acc) [] same))"

text \<open>The nodes of a scene, in its order (\<open>cascade.rs\<close>).\<close>

definition binding_nodes :: "scene \<Rightarrow> binding_node list" where
  "binding_nodes sc = map (\<lambda>ob. \<lparr>bn_id = o_id ob, bn_parent = o_parent ob,
     bn_anchor_targets = map a_target (o_anchors ob)\<rparr>) (objects sc)"

section \<open>What the graph holds\<close>

lemma push_edges_law:
  assumes "bt_ok g"
  shows "bt_ok (foldl (\<lambda>g (k, e). push_edge k e g) g kes) \<and>
    graph_edges (foldl (\<lambda>g (k, e). push_edge k e g) g kes) i = graph_edges g i @ map snd (filter (\<lambda>ke. fst ke = i) kes)"
  using assms
proof (induction kes arbitrary: g)
  case (Cons ke kes)
  obtain k e where ke: "ke = (k, e)" by (cases ke)
  have ok: "bt_ok (push_edge k e g)" using Cons.prems by (simp add: push_edge_def)
  have "graph_edges (push_edge k e g) i = graph_edges g i @ (if k = i then [e] else [])"
    using Cons.prems by (simp add: graph_edges_def push_edge_def)
  then show ?case using Cons.IH[OF ok] by (simp add: ke)
qed simp

lemma build_law_aux:
  assumes "bt_ok g"
  shows "bt_ok (foldl (\<lambda>g n. foldl (\<lambda>g (k, e). push_edge k e g) g (node_edges n)) g nodes) \<and>
    graph_edges (foldl (\<lambda>g n. foldl (\<lambda>g (k, e). push_edge k e g) g (node_edges n)) g nodes) i =
    graph_edges g i @ map snd (filter (\<lambda>ke. fst ke = i) (concat (map node_edges nodes)))"
  using assms
proof (induction nodes arbitrary: g)
  case (Cons n nodes)
  note p = push_edges_law[OF Cons.prems, of "node_edges n" i]
  show ?case using Cons.IH[OF conjunct1[OF p]] p by simp
qed simp

lemma graph_build_edges:
  "graph_edges (graph_build nodes) i = map snd (filter (\<lambda>ke. fst ke = i) (concat (map node_edges nodes)))"
  using build_law_aux[of "[]" nodes i] by (simp add: graph_build_def graph_edges_def)

definition child_in :: "binding_graph \<Rightarrow> str \<Rightarrow> str \<Rightarrow> bool" where
  "child_in g p c \<longleftrightarrow> (\<exists>e \<in> set (graph_edges g p). pe_kind e = SameDelta \<and> pe_id e = c)"

definition follower_in :: "binding_graph \<Rightarrow> str \<Rightarrow> str \<Rightarrow> bool" where
  "follower_in g t f \<longleftrightarrow> (\<exists>e \<in> set (graph_edges g t). pe_kind e = Reproject \<and> pe_id e = f)"

lemma mem_filtered: "e \<in> set (map snd (filter (\<lambda>ke. fst ke = p) kes)) \<longleftrightarrow> (p, e) \<in> set kes"
  by force

lemma scene_edges:
  "e \<in> set (graph_edges (graph_build (binding_nodes sc)) p) \<longleftrightarrow> (\<exists>ob \<in> set (objects sc).
     o_parent ob = Some p \<and> e = \<lparr>pe_id = o_id ob, pe_kind = SameDelta\<rparr> \<or>
     (\<exists>a \<in> set (o_anchors ob). a_target a = p) \<and> e = \<lparr>pe_id = o_id ob, pe_kind = Reproject\<rparr>)"
proof -
  have "(p, e) \<in> set (node_edges \<lparr>bn_id = o_id ob, bn_parent = o_parent ob, bn_anchor_targets = map a_target (o_anchors ob)\<rparr>) \<longleftrightarrow>
      o_parent ob = Some p \<and> e = \<lparr>pe_id = o_id ob, pe_kind = SameDelta\<rparr> \<or>
      (\<exists>a \<in> set (o_anchors ob). a_target a = p) \<and> e = \<lparr>pe_id = o_id ob, pe_kind = Reproject\<rparr>" for ob :: object
    by (auto simp: node_edges_def split: option.splits)
  then show ?thesis unfolding graph_build_edges mem_filtered by (simp add: binding_nodes_def)
qed

lemma scene_child_in:
  "child_in (graph_build (binding_nodes sc)) p c \<longleftrightarrow> (\<exists>ob \<in> set (objects sc). o_id ob = c \<and> o_parent ob = Some p)"
proof
  assume "child_in (graph_build (binding_nodes sc)) p c"
  then obtain e where e: "e \<in> set (graph_edges (graph_build (binding_nodes sc)) p)" "pe_kind e = SameDelta" "pe_id e = c"
    unfolding child_in_def by blast
  from e(1) obtain ob where "ob \<in> set (objects sc)" "o_parent ob = Some p \<and> e = \<lparr>pe_id = o_id ob, pe_kind = SameDelta\<rparr> \<or>
     (\<exists>a \<in> set (o_anchors ob). a_target a = p) \<and> e = \<lparr>pe_id = o_id ob, pe_kind = Reproject\<rparr>"
    unfolding scene_edges by (elim bexE)
  then show "\<exists>ob \<in> set (objects sc). o_id ob = c \<and> o_parent ob = Some p" using e(2,3) by auto
next
  assume "\<exists>ob \<in> set (objects sc). o_id ob = c \<and> o_parent ob = Some p"
  then obtain ob where ob: "ob \<in> set (objects sc)" "o_id ob = c" "o_parent ob = Some p" by (elim bexE conjE)
  have "\<lparr>pe_id = c, pe_kind = SameDelta\<rparr> \<in> set (graph_edges (graph_build (binding_nodes sc)) p)"
    unfolding scene_edges by (rule bexI[OF _ ob(1)]) (use ob(2,3) in simp)
  then show "child_in (graph_build (binding_nodes sc)) p c" unfolding child_in_def by (rule bexI[rotated]) simp
qed

lemma scene_follower_in:
  "follower_in (graph_build (binding_nodes sc)) t f \<longleftrightarrow>
   (\<exists>ob \<in> set (objects sc). o_id ob = f \<and> (\<exists>a \<in> set (o_anchors ob). a_target a = t))"
proof
  assume "follower_in (graph_build (binding_nodes sc)) t f"
  then obtain e where e: "e \<in> set (graph_edges (graph_build (binding_nodes sc)) t)" "pe_kind e = Reproject" "pe_id e = f"
    unfolding follower_in_def by blast
  from e(1) obtain ob where "ob \<in> set (objects sc)" "o_parent ob = Some t \<and> e = \<lparr>pe_id = o_id ob, pe_kind = SameDelta\<rparr> \<or>
     (\<exists>a \<in> set (o_anchors ob). a_target a = t) \<and> e = \<lparr>pe_id = o_id ob, pe_kind = Reproject\<rparr>"
    unfolding scene_edges by (elim bexE)
  then show "\<exists>ob \<in> set (objects sc). o_id ob = f \<and> (\<exists>a \<in> set (o_anchors ob). a_target a = t)" using e(2,3) by auto
next
  assume "\<exists>ob \<in> set (objects sc). o_id ob = f \<and> (\<exists>a \<in> set (o_anchors ob). a_target a = t)"
  then obtain ob where ob: "ob \<in> set (objects sc)" "o_id ob = f" "\<exists>a \<in> set (o_anchors ob). a_target a = t" by blast
  have "\<lparr>pe_id = f, pe_kind = Reproject\<rparr> \<in> set (graph_edges (graph_build (binding_nodes sc)) t)"
    unfolding scene_edges by (rule bexI[OF _ ob(1)]) (use ob(2,3) in simp)
  then show "follower_in (graph_build (binding_nodes sc)) t f" unfolding follower_in_def by (rule bexI[rotated]) simp
qed

section \<open>What the closure holds\<close>

lemma visit_edges_law:
  assumes "visit_edges es seen queue = (seen', queue')"
  shows "\<exists>new. seen' = seen @ new \<and> queue' = queue @ new \<and> distinct new \<and> set new \<inter> set seen = {} \<and>
    (\<forall>x \<in> set new. \<exists>e \<in> set es. pe_kind e = SameDelta \<and> pe_id e = x) \<and>
    (\<forall>e \<in> set es. pe_kind e = SameDelta \<longrightarrow> pe_id e \<in> set seen')"
  using assms
proof (induction es arbitrary: seen queue)
  case (Cons e es)
  show ?case
  proof (cases "pe_kind e = SameDelta \<and> pe_id e \<notin> set seen")
    case True
    then have "visit_edges es (seen @ [pe_id e]) (queue @ [pe_id e]) = (seen', queue')" using Cons.prems by simp
    from Cons.IH[OF this] obtain new where
      "seen' = (seen @ [pe_id e]) @ new" "queue' = (queue @ [pe_id e]) @ new" "distinct new"
      "set new \<inter> set (seen @ [pe_id e]) = {}" "\<forall>x \<in> set new. \<exists>e \<in> set es. pe_kind e = SameDelta \<and> pe_id e = x"
      "\<forall>e \<in> set es. pe_kind e = SameDelta \<longrightarrow> pe_id e \<in> set seen'" by blast
    then show ?thesis using True by (intro exI[of _ "pe_id e # new"]) auto
  next
    case False
    then have "visit_edges es seen queue = (seen', queue')" using Cons.prems by auto
    from Cons.IH[OF this] obtain new where new: "seen' = seen @ new" "queue' = queue @ new" "distinct new"
      "set new \<inter> set seen = {}" "\<forall>x \<in> set new. \<exists>e \<in> set es. pe_kind e = SameDelta \<and> pe_id e = x"
      "\<forall>e \<in> set es. pe_kind e = SameDelta \<longrightarrow> pe_id e \<in> set seen'" by blast
    then show ?thesis using False by (intro exI[of _ new]) auto
  qed
qed simp

text \<open>Every object of the list is a root or comes after a parent of it.\<close>

definition parents_first :: "binding_graph \<Rightarrow> str set \<Rightarrow> str list \<Rightarrow> bool" where
  "parents_first g roots xs \<longleftrightarrow> (\<forall>i < length xs. xs ! i \<in> roots \<or> (\<exists>p \<in> set (take i xs). child_in g p (xs ! i)))"

lemma parents_first_append:
  assumes "parents_first g roots xs" "\<forall>y \<in> set ys. y \<in> roots \<or> (\<exists>p \<in> set xs. child_in g p y)"
  shows "parents_first g roots (xs @ ys)"
  unfolding parents_first_def
proof (intro allI impI)
  fix i assume i: "i < length (xs @ ys)"
  show "(xs @ ys) ! i \<in> roots \<or> (\<exists>p \<in> set (take i (xs @ ys)). child_in g p ((xs @ ys) ! i))"
  proof (cases "i < length xs")
    case True
    then show ?thesis using assms(1) by (auto simp: parents_first_def nth_append)
  next
    case False
    then have "(xs @ ys) ! i \<in> set ys" "set xs \<subseteq> set (take i (xs @ ys))" using i by (auto simp: nth_append)
    then show ?thesis using assms(2) by blast
  qed
qed

lemma expand_root_law:
  assumes "set queue \<subseteq> set seen" "distinct seen" "parents_first g roots seen"
    "\<forall>x \<in> set seen - set queue. \<forall>c. child_in g x c \<longrightarrow> c \<in> set seen"
  shows "distinct (expand_root g seen queue) \<and> parents_first g roots (expand_root g seen queue) \<and>
    set seen \<subseteq> set (expand_root g seen queue) \<and>
    (\<forall>x \<in> set (expand_root g seen queue). \<forall>c. child_in g x c \<longrightarrow> c \<in> set (expand_root g seen queue))"
  using assms
proof (induction g seen queue rule: expand_root.induct)
  case (2 g seen current queue)
  obtain seen' queue' where v: "visit_edges (graph_edges g current) seen queue = (seen', queue')"
    by (cases "visit_edges (graph_edges g current) seen queue")
  obtain new where new: "seen' = seen @ new" "queue' = queue @ new" "distinct new" "set new \<inter> set seen = {}"
    "\<forall>x \<in> set new. child_in g current x" "\<forall>c. child_in g current c \<longrightarrow> c \<in> set seen'"
    using visit_edges_law[OF v] unfolding child_in_def by blast
  have cur: "current \<in> set seen" using 2(2) by simp
  have step: "expand_root g seen (current # queue) = expand_root g seen' queue'" by (simp add: v)
  have "distinct (expand_root g seen' queue') \<and> parents_first g roots (expand_root g seen' queue') \<and>
    set seen' \<subseteq> set (expand_root g seen' queue') \<and>
    (\<forall>x \<in> set (expand_root g seen' queue'). \<forall>c. child_in g x c \<longrightarrow> c \<in> set (expand_root g seen' queue'))"
  proof (rule 2(1)[OF v[symmetric]])
    show "set queue' \<subseteq> set seen'" using 2(2) by (auto simp: new)
    show "distinct seen'" using 2(3) new(3,4) by (auto simp: new(1))
    show "parents_first g roots seen'" unfolding new(1)
      by (rule parents_first_append[OF 2(4)]) (use new(5) cur in blast)
    show "\<forall>x \<in> set seen' - set queue'. \<forall>c. child_in g x c \<longrightarrow> c \<in> set seen'"
    proof (intro ballI allI impI)
      fix x c assume x: "x \<in> set seen' - set queue'" "child_in g x c"
      show "c \<in> set seen'"
      proof (cases "x = current")
        case True
        then show ?thesis using new(6) x(2) by simp
      next
        case False
        then have "x \<in> set seen" "x \<notin> set (current # queue)" using x(1) by (auto simp: new(1,2))
        then have "c \<in> set seen" using 2(5) x(2) by (metis DiffI)
        then show ?thesis by (simp add: new(1))
      qed
    qed
  qed
  then show ?case unfolding step by (auto simp: new(1))
qed simp

lemma parents_first_more: "parents_first g roots xs \<Longrightarrow> roots \<subseteq> roots' \<Longrightarrow> parents_first g roots' xs"
  by (auto simp: parents_first_def)

lemma expand_roots_law:
  assumes "distinct seen" "parents_first g R seen" "\<forall>x \<in> set seen. \<forall>c. child_in g x c \<longrightarrow> c \<in> set seen" "set roots \<subseteq> R"
  shows "distinct (expand_roots g roots seen) \<and> parents_first g R (expand_roots g roots seen) \<and>
    set seen \<union> set roots \<subseteq> set (expand_roots g roots seen) \<and>
    (\<forall>x \<in> set (expand_roots g roots seen). \<forall>c. child_in g x c \<longrightarrow> c \<in> set (expand_roots g roots seen))"
  using assms
proof (induction roots arbitrary: seen)
  case (Cons root roots)
  show ?case
  proof (cases "root \<in> set seen")
    case True
    then show ?thesis using Cons.IH[OF Cons.prems(1-3)] Cons.prems(4) by auto
  next
    case False
    let ?r = "expand_root g (seen @ [root]) [root]"
    have r: "distinct ?r \<and> parents_first g R ?r \<and> set (seen @ [root]) \<subseteq> set ?r \<and>
        (\<forall>x \<in> set ?r. \<forall>c. child_in g x c \<longrightarrow> c \<in> set ?r)"
    proof (rule expand_root_law)
      show "parents_first g R (seen @ [root])"
        by (rule parents_first_append[OF Cons.prems(2)]) (use Cons.prems(4) in auto)
    qed (use Cons.prems False in auto)
    then show ?thesis using Cons.IH[of ?r] Cons.prems(4) False by auto
  qed
qed simp

lemma parents_first_reach:
  assumes "parents_first g roots xs" "x \<in> set xs"
  shows "\<exists>r \<in> roots. (child_in g)\<^sup>*\<^sup>* r x"
proof -
  have "\<exists>r \<in> roots. (child_in g)\<^sup>*\<^sup>* r (xs ! i)" if "i < length xs" for i
    using that
  proof (induction i rule: less_induct)
    case (less i)
    have "xs ! i \<in> roots \<or> (\<exists>p \<in> set (take i xs). child_in g p (xs ! i))" using assms(1) less.prems by (simp add: parents_first_def)
    then show ?case
    proof
      assume "\<exists>p \<in> set (take i xs). child_in g p (xs ! i)"
      then obtain j where j: "j < i" "child_in g (xs ! j) (xs ! i)" using less.prems by (auto simp: in_set_conv_nth)
      obtain r where "r \<in> roots" "(child_in g)\<^sup>*\<^sup>* r (xs ! j)" using less.IH[OF j(1)] j(1) less.prems by auto
      then show ?thesis using j(2) by (meson rtranclp.rtrancl_into_rtrancl)
    qed auto
  qed
  then show ?thesis using assms(2) by (metis in_set_conv_nth)
qed

lemma same_delta_law:
  "distinct (fst (propagation_closure g roots))"
  "parents_first g (set roots) (fst (propagation_closure g roots))"
  "set (fst (propagation_closure g roots)) = {x. \<exists>r \<in> set roots. (child_in g)\<^sup>*\<^sup>* r x}"
proof -
  let ?r = "expand_roots g roots []"
  have r: "distinct ?r \<and> parents_first g (set roots) ?r \<and> set [] \<union> set roots \<subseteq> set ?r \<and>
      (\<forall>x \<in> set ?r. \<forall>c. child_in g x c \<longrightarrow> c \<in> set ?r)"
    by (rule expand_roots_law) (simp_all add: parents_first_def)
  have eq: "fst (propagation_closure g roots) = ?r" by (simp add: propagation_closure_def Let_def)
  show "distinct (fst (propagation_closure g roots))"
    "parents_first g (set roots) (fst (propagation_closure g roots))" using r by (simp_all add: eq)
  have "x \<in> set ?r" if "(child_in g)\<^sup>*\<^sup>* y x" "y \<in> set ?r" for x y
    using that by (induction rule: rtranclp_induct) (use r in auto)
  then show "set (fst (propagation_closure g roots)) = {x. \<exists>r \<in> set roots. (child_in g)\<^sup>*\<^sup>* r x}"
    using r parents_first_reach[of g "set roots" ?r] unfolding eq by blast
qed

lemma reproject_edges_law:
  assumes "reproject_edges same moved es acc = acc'" "distinct acc"
  shows "distinct acc' \<and> set acc' = set acc \<union> {(f, moved) | f. f \<notin> set same \<and> (\<exists>e \<in> set es. pe_kind e = Reproject \<and> pe_id e = f)}"
  using assms by (induction same moved es acc rule: reproject_edges.induct) (auto split: if_splits)

lemma reproject_law:
  "distinct (snd (propagation_closure g roots))"
  "set (snd (propagation_closure g roots)) =
     {(f, t). t \<in> set (fst (propagation_closure g roots)) \<and> f \<notin> set (fst (propagation_closure g roots)) \<and> follower_in g t f}"
proof -
  have "distinct (foldl (\<lambda>acc m. reproject_edges same m (graph_edges g m) acc) acc ms) \<and>
      set (foldl (\<lambda>acc m. reproject_edges same m (graph_edges g m) acc) acc ms) =
      set acc \<union> {(f, t). t \<in> set ms \<and> f \<notin> set same \<and> follower_in g t f}" if "distinct acc" for same ms acc
    using that
  proof (induction ms arbitrary: acc)
    case (Cons m ms)
    from reproject_edges_law[OF refl Cons.prems, of same m "graph_edges g m"]
    show ?case using Cons.IH[of "reproject_edges same m (graph_edges g m) acc"] by (auto simp: follower_in_def)
  qed simp
  from this[of "[]"] show "distinct (snd (propagation_closure g roots))"
    "set (snd (propagation_closure g roots)) =
     {(f, t). t \<in> set (fst (propagation_closure g roots)) \<and> f \<notin> set (fst (propagation_closure g roots)) \<and> follower_in g t f}"
    by (simp_all add: propagation_closure_def Let_def)
qed

end
