(* ===== verification/AnchorFollow.thy ===== *)
theory AnchorFollow
  imports Deform MoveTogether
begin

text \<open>
  Objects anchored to a moved object: \<open>binding/anchor_follow.rs\<close>. The bound node of a follower
  is projected through the target's new transform, or onto its new outline, and a rewritten
  follower is itself a reshaped target of the next wave.
\<close>

section \<open>One anchor\<close>

definition f_to_i64 :: "f64 \<Rightarrow> i64" where
  "f_to_i64 x = word_of_int (f_clamp_int (- (2 ^ 63)) (2 ^ 63 - 1) x)"

definition reproject_node_local_quantized :: "transform \<Rightarrow> transform \<Rightarrow> local_point \<Rightarrow> i64 \<times> i64" where
  "reproject_node_local_quantized follower_t target_t at =
     (case apply_affine (affine_of target_t) (f_div (f_of_i32 (l_x at)) units_per_px) (f_div (f_of_i32 (l_y at)) units_per_px) of
        (wx, wy) \<Rightarrow> case apply_affine (invert_affine (affine_of follower_t)) wx wy of
          (fx, fy) \<Rightarrow> (f_to_i64 (f_round (f_mul fx units_per_px)), f_to_i64 (f_round (f_mul fy units_per_px))))"

definition reproject_geometry_node ::
    "transform \<Rightarrow> transform \<Rightarrow> transform \<Rightarrow> local_point \<Rightarrow> i32 \<Rightarrow> str \<Rightarrow> str option" where
  "reproject_geometry_node follower_t target_t delta at node d =
     (case reproject_node_local_quantized follower_t (transform_mul delta target_t) at of
        (qx, qy) \<Rightarrow> set_path_node d node qx qy)"

text \<open>The nearest pair; the first of equal distances wins.\<close>

fun nearest_pair :: "f64 \<Rightarrow> f64 \<Rightarrow> point list \<Rightarrow> nat \<Rightarrow> i32 \<Rightarrow> f64 \<Rightarrow> i32" where
  "nearest_pair lx ly [] i best best_d = best"
| "nearest_pair lx ly ((nx, ny) # ns) i best best_d =
     (let dx = f_sub nx lx; dy = f_sub ny ly; dist = f_add (f_mul dx dx) (f_mul dy dy)
      in if f_lt dist best_d
         then nearest_pair lx ly ns (Suc i) (if i < 2 ^ 31 then word_of_nat i else 2 ^ 31 - 1) dist
         else nearest_pair lx ly ns (Suc i) best best_d)"

definition node_index_nearest_world :: "object \<Rightarrow> f64 \<Rightarrow> f64 \<Rightarrow> i32 option" where
  "node_index_nearest_world ob wx wy =
     (let nodes = local_nodes (g_path (o_geometry ob)) in
      if nodes = [] then None
      else case apply_affine (invert_affine (affine_of (o_transform ob))) wx wy of
        (lx, ly) \<Rightarrow> Some (nearest_pair (f_mul lx units_per_px) (f_mul ly units_per_px) nodes 0 0 (f_inf False)))"

section \<open>One follower\<close>

text \<open>The chord branch: the ends after every anchor with a new position, and whether there was one.\<close>

fun chord_ends ::
    "(anchor \<Rightarrow> (i64 \<times> i64) option) \<Rightarrow> anchor list \<Rightarrow> point \<Rightarrow> point \<Rightarrow> bool \<Rightarrow> (point \<times> point) option" where
  "chord_ends new_node [] s e moved = (if moved then Some (s, e) else None)"
| "chord_ends new_node (a # as) s e moved =
     (case new_node a of
        None \<Rightarrow> chord_ends new_node as s e moved
      | Some (qx, qy) \<Rightarrow>
          let p = (f_of_int (sint qx), f_of_int (sint qy)) in
          if a_node a = 0 then chord_ends new_node as p e True else chord_ends new_node as s p True)"

text \<open>The splice branch: each rewrite continues on the text of the one before.\<close>

fun splice_anchors :: "(anchor \<Rightarrow> (i64 \<times> i64) option) \<Rightarrow> str \<Rightarrow> anchor list \<Rightarrow> str option \<Rightarrow> str option" where
  "splice_anchors new_node base [] rewritten = rewritten"
| "splice_anchors new_node base (a # as) rewritten =
     (case new_node a of
        None \<Rightarrow> splice_anchors new_node base as rewritten
      | Some (qx, qy) \<Rightarrow>
          (case set_path_node (case rewritten of None \<Rightarrow> base | Some d \<Rightarrow> d) (a_node a) qx qy of
             None \<Rightarrow> splice_anchors new_node base as rewritten
           | Some d \<Rightarrow> splice_anchors new_node base as (Some d)))"

definition binds_ends :: "object \<Rightarrow> bool" where
  "binds_ends ob =
     (let pairs = length (local_nodes (g_path (o_geometry ob)));
          l = (case last_pair pairs of None \<Rightarrow> 2 ^ 31 - 1 | Some l \<Rightarrow> l)
      in 2 \<le> pairs \<and> (\<forall>a \<in> set (o_anchors ob). a_node a = 0 \<or> a_node a = l) \<and>
         is_open_class_d (g_path (o_geometry ob)))"

definition follower_edit_geometry ::
    "libm \<Rightarrow> object \<Rightarrow> (anchor \<Rightarrow> (i64 \<times> i64) option) \<Rightarrow> geometry option" where
  "follower_edit_geometry lm follower new_node =
     (let base = g_path (o_geometry follower);
          pairs = local_nodes base;
          d = (if binds_ends follower
               then Option.bind (chord_ends new_node (o_anchors follower) (hd pairs) (last pairs) False)
                      (\<lambda>(s, e). deform_open_path lm base s e)
               else splice_anchors new_node base (o_anchors follower) None)
      in Option.bind d (\<lambda>d. if d = base then None else Some (text_geometry d (g_rule (o_geometry follower)))))"

section \<open>Following a move\<close>

text \<open>The moved set: the first entry of an id keeps its place, the last value wins.\<close>

fun set_moved :: "object_id \<Rightarrow> 'm \<Rightarrow> (object_id \<times> 'm) list \<Rightarrow> (object_id \<times> 'm) list" where
  "set_moved i m [] = [(i, m)]"
| "set_moved i m ((j, n) # ms) = (if j = i then (j, m) # ms else (j, n) # set_moved i m ms)"

fun moved_transforms :: "scene \<Rightarrow> object_op list \<Rightarrow> (object_id \<times> transform) list \<Rightarrow> (object_id \<times> transform) list" where
  "moved_transforms sc [] moved = moved"
| "moved_transforms sc (SetTransform i t # ops) moved =
     moved_transforms sc ops (if scene_get sc i = None then moved else set_moved i t moved)"
| "moved_transforms sc (_ # ops) moved = moved_transforms sc ops moved"

fun edited_id :: "object_op \<Rightarrow> object_id option" where
  "edited_id (EditGeometry i _) = Some i"
| "edited_id _ = None"

definition anchor_follow_ops :: "libm \<Rightarrow> scene \<Rightarrow> object_op list \<Rightarrow> object_op list" where
  "anchor_follow_ops lm sc ops =
     (let moved = moved_transforms sc ops [];
          edited = List.map_filter edited_id ops
      in List.map_filter (\<lambda>follower.
           if map_of moved (o_id follower) \<noteq> None \<or> o_id follower \<in> set edited \<or> o_anchors follower = [] then None
           else map_option (EditGeometry (o_id follower))
             (follower_edit_geometry lm follower (\<lambda>a. map_option
                (\<lambda>t. reproject_node_local_quantized (o_transform follower) t (a_at a)) (map_of moved (a_target a)))))
         (objects sc))"

datatype moved_target =
    MovedTransform transform
  | MovedReshape geometry

definition reproject_through_moved :: "transform \<Rightarrow> object \<Rightarrow> moved_target \<Rightarrow> anchor \<Rightarrow> (i64 \<times> i64) option" where
  "reproject_through_moved follower_t target moved a =
     (case moved of
        MovedTransform t \<Rightarrow> Some (reproject_node_local_quantized follower_t t (a_at a))
      | MovedReshape g \<Rightarrow>
          (case geometry_ensure_parsed g of
             Inl _ \<Rightarrow> None
           | Inr h \<Rightarrow>
               (case derive_region h of
                  Inl _ \<Rightarrow> None
                | Inr r \<Rightarrow> Some (reproject_node_local_quantized follower_t (o_transform target)
                    (region_reproject r (a_at a))))))"

fun moved_targets :: "scene \<Rightarrow> object_op list \<Rightarrow> (object_id \<times> moved_target) list \<Rightarrow> (object_id \<times> moved_target) list" where
  "moved_targets sc [] moved = moved"
| "moved_targets sc (SetTransform i t # ops) moved =
     moved_targets sc ops (if scene_get sc i = None then moved else set_moved i (MovedTransform t) moved)"
| "moved_targets sc (EditGeometry i g # ops) moved =
     moved_targets sc ops (if scene_get sc i = None then moved else set_moved i (MovedReshape g) moved)"
| "moved_targets sc (_ # ops) moved = moved_targets sc ops moved"

record follow_state =
  fs_moved :: "(object_id \<times> moved_target) list"
  fs_visited :: "object_id list"
  fs_next :: "object_id list"
  fs_out :: "object_op list"

definition new_follower_node :: "scene \<Rightarrow> (object_id \<times> moved_target) list \<Rightarrow> object \<Rightarrow> anchor \<Rightarrow> (i64 \<times> i64) option" where
  "new_follower_node sc moved follower a =
     Option.bind (map_of moved (a_target a)) (\<lambda>mt.
     Option.bind (scene_get sc (a_target a)) (\<lambda>target.
       reproject_through_moved (o_transform follower) target mt a))"

definition follow_one :: "libm \<Rightarrow> scene \<Rightarrow> object_id list \<Rightarrow> object \<Rightarrow> follow_state \<Rightarrow> follow_state" where
  "follow_one lm sc frontier follower st =
     (if o_id follower \<in> set (fs_visited st) \<or> o_anchors follower = [] \<or>
         (\<forall>a \<in> set (o_anchors follower). a_target a \<notin> set frontier)
      then st
      else case follower_edit_geometry lm follower (new_follower_node sc (fs_moved st) follower) of
        None \<Rightarrow> st
      | Some g \<Rightarrow> st\<lparr>fs_visited := fs_visited st @ [o_id follower], fs_next := fs_next st @ [o_id follower],
          fs_moved := fs_moved st @ [(o_id follower, MovedReshape g)],
          fs_out := fs_out st @ [EditGeometry (o_id follower) g]\<rparr>)"

definition follow_wave :: "libm \<Rightarrow> scene \<Rightarrow> object_id list \<Rightarrow> follow_state \<Rightarrow> follow_state" where
  "follow_wave lm sc frontier st =
     fold (follow_one lm sc frontier) (objects sc) (st\<lparr>fs_next := []\<rparr>)"

text \<open>A wave that finds a follower visits it, so there are at most as many waves as objects.\<close>

lemma follow_wave_shape:
  assumes "set obs \<subseteq> set (objects sc)"
  shows "\<exists>new. fs_visited (fold (follow_one lm sc frontier) obs st) = fs_visited st @ new \<and>
    fs_next (fold (follow_one lm sc frontier) obs st) = fs_next st @ new \<and>
    set new \<subseteq> set (ids sc) - set (fs_visited st) \<and> distinct new"
  using assms
proof (induction obs arbitrary: st)
  case (Cons ob obs)
  let ?st = "follow_one lm sc frontier ob st"
  have sub: "set obs \<subseteq> set (objects sc)" "o_id ob \<in> set (ids sc)" using Cons.prems by (auto simp: ids_def)
  obtain new where new: "fs_visited (fold (follow_one lm sc frontier) obs ?st) = fs_visited ?st @ new"
    "fs_next (fold (follow_one lm sc frontier) obs ?st) = fs_next ?st @ new"
    "set new \<subseteq> set (ids sc) - set (fs_visited ?st)" "distinct new"
    using Cons.IH[OF sub(1), of ?st] by blast
  have "?st = st \<or> fs_visited ?st = fs_visited st @ [o_id ob] \<and> fs_next ?st = fs_next st @ [o_id ob] \<and> o_id ob \<notin> set (fs_visited st)"
    by (auto simp: follow_one_def split: option.split)
  then show ?case
  proof
    assume "?st = st"
    then show ?thesis using new by (intro exI[of _ new]) simp
  next
    assume s: "fs_visited ?st = fs_visited st @ [o_id ob] \<and> fs_next ?st = fs_next st @ [o_id ob] \<and> o_id ob \<notin> set (fs_visited st)"
    show ?thesis by (rule exI[of _ "o_id ob # new"]) (use new s sub(2) in auto)
  qed
qed simp

function follow_waves :: "libm \<Rightarrow> scene \<Rightarrow> object_id list \<Rightarrow> follow_state \<Rightarrow> object_op list" where
  "follow_waves lm sc frontier st =
     (if frontier = [] then fs_out st
      else follow_waves lm sc (fs_next (follow_wave lm sc frontier st)) (follow_wave lm sc frontier st))"
  by auto
termination
proof (relation "measures [\<lambda>(lm, sc, frontier, st). card (set (ids sc) - set (fs_visited st)),
    \<lambda>(lm, sc, frontier, st). length frontier]", goal_cases)
  case (2 lm sc frontier st)
  obtain new where new: "fs_visited (follow_wave lm sc frontier st) = fs_visited st @ new"
    "fs_next (follow_wave lm sc frontier st) = new" "set new \<subseteq> set (ids sc) - set (fs_visited st)"
    using follow_wave_shape[of "objects sc" sc lm frontier "st\<lparr>fs_next := []\<rparr>"] by (auto simp: follow_wave_def)
  show ?case
  proof (cases "new = []")
    case True
    then show ?thesis using new 2 by simp
  next
    case False
    then have "set (ids sc) - set (fs_visited st @ new) \<subset> set (ids sc) - set (fs_visited st)"
      using new(3) by (cases new) auto
    then have "card (set (ids sc) - set (fs_visited st @ new)) < card (set (ids sc) - set (fs_visited st))"
      by (intro psubset_card_mono) simp_all
    then show ?thesis by (simp add: new(1))
  qed
qed simp

declare follow_waves.simps [simp del]

definition geometry_follow_ops :: "libm \<Rightarrow> scene \<Rightarrow> object_op list \<Rightarrow> object_op list" where
  "geometry_follow_ops lm sc ops =
     (let moved = moved_targets sc ops [] in
      follow_waves lm sc (map fst moved)
        \<lparr>fs_moved = moved, fs_visited = map fst moved, fs_next = [], fs_out = []\<rparr>)"

section \<open>Anchors of a new object\<close>

definition synthesize_create_anchors :: "object \<Rightarrow> object \<Rightarrow> f64 \<Rightarrow> f64 \<Rightarrow> anchor list option" where
  "synthesize_create_anchors created target ex ey =
     (if o_id target = o_id created then None
      else Option.bind (node_index_nearest_world created ex ey) (\<lambda>node.
        case apply_affine (invert_affine (affine_of (o_transform target))) ex ey of
          (lx, ly) \<Rightarrow> Some [\<lparr>a_node = node, a_target = o_id target, a_at = \<lparr>l_x = quantize lx, l_y = quantize ly\<rparr>\<rparr>]))"

record create_snap =
  cs_at :: point
  cs_target :: object_id

record create_release =
  cr_end :: point
  cr_snapped :: bool
  cr_target :: "object_id option"

definition resolve_create_release :: "create_release \<Rightarrow> create_snap option \<Rightarrow> f64 \<Rightarrow> point \<times> object_id option" where
  "resolve_create_release rel last_snap tolerance =
     (if cr_snapped rel \<and> cr_target rel \<noteq> None then (cr_end rel, cr_target rel)
      else case last_snap of
        None \<Rightarrow> (cr_end rel, None)
      | Some snap \<Rightarrow>
          let dx = f_sub (fst (cr_end rel)) (fst (cs_at snap)); dy = f_sub (snd (cr_end rel)) (snd (cs_at snap))
          in if f_le (f_add (f_mul dx dx) (f_mul dy dy)) (f_mul tolerance tolerance)
             then (cs_at snap, Some (cs_target snap)) else (cr_end rel, None))"

fun add_new_nodes :: "anchor list \<Rightarrow> anchor list \<Rightarrow> anchor list" where
  "add_new_nodes [] anchors = anchors"
| "add_new_nodes (a # as) anchors =
     add_new_nodes as (if \<exists>prior \<in> set anchors. a_node prior = a_node a then anchors else anchors @ [a])"

fun synthesize_corners ::
    "scene \<Rightarrow> object \<Rightarrow> (object_id \<times> f64 \<times> f64) option list \<Rightarrow> anchor list \<Rightarrow> anchor list" where
  "synthesize_corners sc created [] anchors = anchors"
| "synthesize_corners sc created (None # corners) anchors = synthesize_corners sc created corners anchors"
| "synthesize_corners sc created (Some (i, ex, ey) # corners) anchors =
     (case scene_get sc i of
        None \<Rightarrow> synthesize_corners sc created corners anchors
      | Some target \<Rightarrow>
          (case synthesize_create_anchors created target ex ey of
             None \<Rightarrow> synthesize_corners sc created corners anchors
           | Some as \<Rightarrow> synthesize_corners sc created corners (add_new_nodes as anchors)))"

definition synthesize_create_anchors_both ::
    "scene \<Rightarrow> object \<Rightarrow> (object_id \<times> f64 \<times> f64) option list \<Rightarrow> anchor list" where
  "synthesize_create_anchors_both sc created corners = synthesize_corners sc created corners []"

end
