(* ===== verification/Cascade.thy ===== *)
theory Cascade
  imports AnchorFollow Reexport_Laws
begin

text \<open>
  The operations of a committed drag (\<open>binding/cascade.rs\<close>) and the edits built on them
  (\<open>authoring/edit.rs\<close>): moving, detaching and duplicating.
\<close>

section \<open>The cascade\<close>

definition move_op :: "transform \<Rightarrow> object \<Rightarrow> object_op" where
  "move_op delta ob = SetTransform (o_id ob) (transform_mul delta (o_transform ob))"

definition member_ops :: "libm \<Rightarrow> object_id list \<Rightarrow> transform \<Rightarrow> object \<Rightarrow> object_op list" where
  "member_ops lm moved_ids delta ob =
     (let d = g_path (o_geometry ob) in
      if o_anchors ob = [] \<and> is_pure_translate delta then [move_op delta ob]
      else if \<not> is_open_class (o_geometry ob) then [move_op delta ob]
      else case open_endpoint_pins d (o_anchors ob) (\<lambda>t. t \<in> set moved_ids) of
        None \<Rightarrow> [move_op delta ob]
      | Some (start_pinned, end_pinned) \<Rightarrow>
          (case route_open_endpoints d (o_transform ob) delta start_pinned end_pinned of
             Some RoutePinned \<Rightarrow> []
           | Some (RouteDeform s e) \<Rightarrow>
               (case deform_open_path lm d s e of
                  None \<Rightarrow> []
                | Some new_d \<Rightarrow>
                    if new_d = d then []
                    else [EditGeometry (o_id ob) (text_geometry new_d (g_rule (o_geometry ob)))])
           | Some RouteTranslate \<Rightarrow> [move_op delta ob]
           | None \<Rightarrow> [move_op delta ob]))"

definition cascade_same_delta_ops :: "libm \<Rightarrow> scene \<Rightarrow> object_id list \<Rightarrow> transform \<Rightarrow> object_op list" where
  "cascade_same_delta_ops lm sc roots delta =
     (let same = fst (propagation_closure (graph_build (binding_nodes sc)) roots) in
      concat (map (\<lambda>i. case scene_get sc i of None \<Rightarrow> [] | Some ob \<Rightarrow> member_ops lm same delta ob) same))"

definition cascade_transform_ops :: "libm \<Rightarrow> scene \<Rightarrow> object_id \<Rightarrow> transform \<Rightarrow> object_op list" where
  "cascade_transform_ops lm sc i delta =
     (if scene_get sc i = None then [] else cascade_same_delta_ops lm sc [i] delta)"

definition cascade_multi_transform_ops :: "libm \<Rightarrow> scene \<Rightarrow> object_id list \<Rightarrow> transform \<Rightarrow> object_op list" where
  "cascade_multi_transform_ops lm sc is delta =
     cascade_same_delta_ops lm sc (filter (\<lambda>i. scene_get sc i \<noteq> None) is) delta"

datatype move_roots =
    MoveSingle object_id
  | MoveMulti "object_id list"

definition move_ops :: "libm \<Rightarrow> scene \<Rightarrow> move_roots \<Rightarrow> transform \<Rightarrow> object_op list" where
  "move_ops lm sc roots delta =
     (let ops = (case roots of MoveSingle i \<Rightarrow> cascade_transform_ops lm sc i delta
                 | MoveMulti is \<Rightarrow> cascade_multi_transform_ops lm sc is delta)
      in ops @ geometry_follow_ops lm sc ops)"

section \<open>Edits of a selection\<close>

definition duplicate_offset_px :: f64 where
  "duplicate_offset_px = f_of_int 40"

definition shifted :: "transform \<Rightarrow> f64 \<Rightarrow> f64 \<Rightarrow> transform" where
  "shifted t dx dy = transform_mul (transform_translate dx dy) t"

definition clone_id :: "str \<Rightarrow> u32 \<Rightarrow> object_id" where
  "clone_id prefix n = prefix @ ''-'' @ show_nat (unat n)"

text \<open>\<open>unwrap_or_else\<close> with the marked key; a panic is not caught.\<close>

definition next_clone_key :: "str \<Rightarrow> key_error + str" where
  "next_clone_key prev =
     (case generate_key_between (Some prev) None of
        Inr k \<Rightarrow> Inr k | Inl e \<Rightarrow> if is_panic e then Inl e else Inr (prev @ ''~''))"

definition clone_object :: "object \<Rightarrow> object_id \<Rightarrow> str \<Rightarrow> object" where
  "clone_object src i order = src\<lparr>o_id := i, o_order := order,
     o_transform := shifted (o_transform src) duplicate_offset_px duplicate_offset_px\<rparr>"

fun duplicate_from :: "scene \<Rightarrow> str \<Rightarrow> object_id list \<Rightarrow> str \<Rightarrow> u32 \<Rightarrow> key_error + object_op list" where
  "duplicate_from sc prefix [] prev n = Inr []"
| "duplicate_from sc prefix (i # is) prev n =
     (case scene_get sc i of
        None \<Rightarrow> duplicate_from sc prefix is prev n
      | Some src \<Rightarrow>
          and_then (next_clone_key prev) (\<lambda>next.
          and_then (duplicate_from sc prefix is next (n + 1)) (\<lambda>ops.
            Inr (InsertObject (clone_object src (clone_id prefix n) prev) # ops))))"

definition duplicate_ops :: "scene \<Rightarrow> object_id list \<Rightarrow> str \<Rightarrow> u32 \<Rightarrow> key_error + object_op list" where
  "duplicate_ops sc is prefix seed = and_then (next_order_key sc) (\<lambda>k. duplicate_from sc prefix is k seed)"

text \<open>The first object of the id is changed, as \<open>find\<close> finds it.\<close>

definition clear_anchors :: "scene \<Rightarrow> object_id \<Rightarrow> scene" where
  "clear_anchors sc i =
     (case index_of sc i of None \<Rightarrow> sc | Some idx \<Rightarrow> modify_at sc idx (\<lambda>ob. ob\<lparr>o_anchors := []\<rparr>))"

definition detach_move_ops :: "libm \<Rightarrow> scene \<Rightarrow> object_id \<Rightarrow> transform \<Rightarrow> object_op list" where
  "detach_move_ops lm sc i delta =
     (if scene_get sc i = None then []
      else SetAnchor i [] # move_ops lm (clear_anchors sc i) (MoveSingle i) delta)"

definition move_roots_for :: "object_selection \<Rightarrow> object_id \<Rightarrow> move_roots" where
  "move_roots_for sel i =
     (case sel of SelMulti is \<Rightarrow> if i \<in> set is then MoveMulti is else MoveSingle i | _ \<Rightarrow> MoveSingle i)"

definition move_ops_for_pick :: "libm \<Rightarrow> scene \<Rightarrow> object_selection \<Rightarrow> object_id \<Rightarrow> transform \<Rightarrow> object_op list" where
  "move_ops_for_pick lm sc sel i delta = move_ops lm sc (move_roots_for sel i) delta"

section \<open>Laws of a move\<close>

text \<open>
  The committed drag: which objects its operations name, that none is named twice, and what they
  do to the scene.
\<close>

section \<open>Who is moved\<close>

text \<open>\<open>x\<close> is \<open>root\<close> or an object below it.\<close>

definition child_of :: "scene \<Rightarrow> object_id \<Rightarrow> object_id \<Rightarrow> bool" where
  "child_of sc p c \<longleftrightarrow> (\<exists>ob \<in> set (objects sc). o_id ob = c \<and> o_parent ob = Some p)"

abbreviation below :: "scene \<Rightarrow> object_id \<Rightarrow> object_id \<Rightarrow> bool" where
  "below sc \<equiv> (child_of sc)\<^sup>*\<^sup>*"

lemma child_in_scene: "child_in (graph_build (binding_nodes sc)) = child_of sc"
  by (simp add: scene_child_in child_of_def fun_eq_iff)

definition moved_ids :: "scene \<Rightarrow> object_id list \<Rightarrow> object_id list" where
  "moved_ids sc roots = fst (propagation_closure (graph_build (binding_nodes sc)) roots)"

lemma moved_ids_law:
  "distinct (moved_ids sc roots)" "set (moved_ids sc roots) = {x. \<exists>r \<in> set roots. below sc r x}"
  using same_delta_law(1,3)[of "graph_build (binding_nodes sc)" roots]
  by (simp_all add: moved_ids_def child_in_scene)

lemma moved_ids_live:
  assumes "\<forall>r \<in> set roots. scene_get sc r \<noteq> None" "x \<in> set (moved_ids sc roots)"
  shows "scene_get sc x \<noteq> None"
proof -
  obtain r where r: "r \<in> set roots" "below sc r x" using assms(2) by (auto simp: moved_ids_law)
  from r(2) show ?thesis
  proof (cases rule: rtranclp.cases)
    case rtrancl_refl
    then show ?thesis using r(1) assms(1) by simp
  next
    case (rtrancl_into_rtrancl b)
    then show ?thesis by (auto simp: child_of_def scene_get_def find_None_iff)
  qed
qed

section \<open>Nothing is named twice\<close>

lemma member_ops_ids: "member_ops lm mids delta ob = [] \<or> (\<exists>op. member_ops lm mids delta ob = [op] \<and> target_ids op = [o_id ob])"
  by (auto simp: member_ops_def Let_def move_op_def split: option.splits endpoint_route.splits prod.splits if_splits)

fun writes_pose :: "object_op \<Rightarrow> bool" where
  "writes_pose (SetTransform _ _) = True"
| "writes_pose (EditGeometry _ _) = True"
| "writes_pose _ = False"

lemma member_ops_kind: "op \<in> set (member_ops lm mids delta ob) \<Longrightarrow> writes_pose op \<and> target_ids op = [o_id ob]"
  by (auto simp: member_ops_def Let_def move_op_def split: option.splits endpoint_route.splits prod.splits if_splits)

definition cascade_at :: "libm \<Rightarrow> scene \<Rightarrow> object_id list \<Rightarrow> transform \<Rightarrow> object_id \<Rightarrow> object_op list" where
  "cascade_at lm sc mids delta i = (case scene_get sc i of None \<Rightarrow> [] | Some ob \<Rightarrow> member_ops lm mids delta ob)"

lemma cascade_eq:
  "cascade_same_delta_ops lm sc roots delta = concat (map (cascade_at lm sc (moved_ids sc roots) delta) (moved_ids sc roots))"
  by (simp add: cascade_same_delta_ops_def Let_def moved_ids_def cascade_at_def[abs_def])

lemma cascade_at_ids: "cascade_at lm sc mids delta i = [] \<or> (\<exists>op. cascade_at lm sc mids delta i = [op] \<and> target_ids op = [i])"
proof (cases "scene_get sc i")
  case (Some ob)
  then have "o_id ob = i" using scene_get_Some[of sc i ob] by simp
  then show ?thesis using member_ops_ids[of lm mids delta ob] Some by (simp add: cascade_at_def)
qed (simp add: cascade_at_def)

lemma cascade_distinct:
  assumes "distinct is"
  shows "distinct (map target_ids (concat (map (cascade_at lm sc mids delta) is))) \<and>
    set (map target_ids (concat (map (cascade_at lm sc mids delta) is))) \<subseteq> (\<lambda>i. [i]) ` set is"
  using assms
proof (induction "is")
  case (Cons i "is")
  from cascade_at_ids[of lm sc mids delta i] show ?case
  proof
    assume "cascade_at lm sc mids delta i = []"
    then show ?thesis using Cons by auto
  next
    assume "\<exists>op. cascade_at lm sc mids delta i = [op] \<and> target_ids op = [i]"
    then obtain op where op: "cascade_at lm sc mids delta i = [op]" "target_ids op = [i]" by blast
    have ih: "distinct (map target_ids (concat (map (cascade_at lm sc mids delta) is)))"
      "set (map target_ids (concat (map (cascade_at lm sc mids delta) is))) \<subseteq> (\<lambda>i. [i]) ` set is"
      using Cons by simp_all
    have "[i] \<notin> (\<lambda>i. [i]) ` set is" using Cons.prems by auto
    then have "[i] \<notin> set (map target_ids (concat (map (cascade_at lm sc mids delta) is)))" using ih(2) by blast
    then show ?thesis using ih by (auto simp: op)
  qed
qed simp

text \<open>The followers: each is written once, and none that the batch itself wrote.\<close>

definition follow_inv :: "object_id set \<Rightarrow> follow_state \<Rightarrow> bool" where
  "follow_inv moved st \<longleftrightarrow> (\<exists>fs. map target_ids (fs_out st) = map (\<lambda>i. [i]) fs \<and> distinct fs \<and>
     set fs \<inter> moved = {} \<and> set fs \<union> moved \<subseteq> set (fs_visited st))"

lemma follow_one_inv: "follow_inv moved st \<Longrightarrow> follow_inv moved (follow_one lm sc frontier ob st)"
proof -
  assume "follow_inv moved st"
  then obtain fs where fs: "map target_ids (fs_out st) = map (\<lambda>i. [i]) fs" "distinct fs" "set fs \<inter> moved = {}"
    "set fs \<union> moved \<subseteq> set (fs_visited st)" by (auto simp: follow_inv_def)
  show ?thesis
  proof (cases "follow_one lm sc frontier ob st = st")
    case True
    then show ?thesis using \<open>follow_inv moved st\<close> by simp
  next
    case False
    define stop where "stop \<longleftrightarrow> o_id ob \<in> set (fs_visited st) \<or> o_anchors ob = [] \<or>
      (\<forall>a \<in> set (o_anchors ob). a_target a \<notin> set frontier)"
    have step: "follow_one lm sc frontier ob st = (if stop then st
      else case follower_edit_geometry lm ob (new_follower_node sc (fs_moved st) ob) of None \<Rightarrow> st
      | Some g \<Rightarrow> st\<lparr>fs_visited := fs_visited st @ [o_id ob], fs_next := fs_next st @ [o_id ob],
         fs_moved := fs_moved st @ [(o_id ob, MovedReshape g)], fs_out := fs_out st @ [EditGeometry (o_id ob) g]\<rparr>)"
      unfolding follow_one_def stop_def by (rule refl)
    have "\<not> stop" using False by (auto simp: step)
    then have "o_id ob \<notin> set (fs_visited st)" by (simp add: stop_def)
    with False \<open>\<not> stop\<close> obtain g where g: "o_id ob \<notin> set (fs_visited st)"
      "follow_one lm sc frontier ob st = st\<lparr>fs_visited := fs_visited st @ [o_id ob], fs_next := fs_next st @ [o_id ob],
         fs_moved := fs_moved st @ [(o_id ob, MovedReshape g)], fs_out := fs_out st @ [EditGeometry (o_id ob) g]\<rparr>"
      unfolding step by (cases "follower_edit_geometry lm ob (new_follower_node sc (fs_moved st) ob)") simp_all
    show ?thesis unfolding follow_inv_def
      by (rule exI[of _ "fs @ [o_id ob]"]) (use fs g in auto)
  qed
qed

lemma follow_wave_inv: "follow_inv moved st \<Longrightarrow> follow_inv moved (follow_wave lm sc frontier st)"
proof -
  have "follow_inv moved (fold (follow_one lm sc frontier) obs st)" if "follow_inv moved st" for obs st
    using that by (induction obs arbitrary: st) (simp_all add: follow_one_inv)
  moreover assume "follow_inv moved st"
  then have "follow_inv moved (st\<lparr>fs_next := []\<rparr>)" by (simp add: follow_inv_def)
  ultimately show ?thesis by (simp add: follow_wave_def)
qed

lemma follow_waves_inv:
  "follow_inv moved st \<Longrightarrow> \<exists>fs. map target_ids (follow_waves lm sc frontier st) = map (\<lambda>i. [i]) fs \<and> distinct fs \<and> set fs \<inter> moved = {}"
proof (induction lm sc frontier st rule: follow_waves.induct)
  case (1 lm sc frontier st)
  show ?case
  proof (cases "frontier = []")
    case True
    then have "follow_waves lm sc frontier st = fs_out st" by (subst follow_waves.simps) simp
    then show ?thesis using 1(2) unfolding follow_inv_def by auto
  next
    case False
    then show ?thesis using 1(1)[OF False follow_wave_inv[OF 1(2)]] by (simp add: follow_waves.simps[of lm sc frontier])
  qed
qed

lemma set_moved_ids: "fst ` set (set_moved i m ms) = insert i (fst ` set ms)"
  by (induction i m ms rule: set_moved.induct) auto

lemma moved_targets_ids:
  assumes "\<forall>op \<in> set ops. writes_pose op \<and> (\<forall>i \<in> set (target_ids op). scene_get sc i \<noteq> None)"
  shows "fst ` set (moved_targets sc ops ms) = fst ` set ms \<union> {i. [i] \<in> target_ids ` set ops}"
  using assms
proof (induction ops arbitrary: ms)
  case (Cons op ops)
  have rest: "\<forall>op \<in> set ops. writes_pose op \<and> (\<forall>i \<in> set (target_ids op). scene_get sc i \<noteq> None)" using Cons.prems by simp
  show ?case using Cons.prems Cons.IH[OF rest] by (cases op) (auto simp: set_moved_ids)
qed simp

lemma move_ops_distinct:
  assumes "ops = concat (map (cascade_at lm sc mids delta) is)" "distinct is"
  shows "distinct (map target_ids (ops @ geometry_follow_ops lm sc ops))"
proof -
  have live: "\<forall>op \<in> set ops. writes_pose op \<and> (\<forall>i \<in> set (target_ids op). scene_get sc i \<noteq> None)"
  proof
    fix op assume "op \<in> set ops"
    then obtain i where "op \<in> set (cascade_at lm sc mids delta i)" by (auto simp: assms(1))
    then obtain ob where "scene_get sc i = Some ob" "op \<in> set (member_ops lm mids delta ob)"
      by (cases "scene_get sc i") (auto simp: cascade_at_def)
    moreover from this have "o_id ob = i" using scene_get_Some[of sc i ob] by simp
    ultimately show "writes_pose op \<and> (\<forall>i \<in> set (target_ids op). scene_get sc i \<noteq> None)"
      using member_ops_kind[of op lm mids delta ob] by auto
  qed
  let ?m = "moved_targets sc ops []"
  have ids: "set (map fst ?m) = {i. [i] \<in> target_ids ` set ops}" using moved_targets_ids[OF live, of "[]"] by simp
  have "follow_inv (set (map fst ?m)) \<lparr>fs_moved = ?m, fs_visited = map fst ?m, fs_next = [], fs_out = []\<rparr>"
    by (simp add: follow_inv_def)
  from follow_waves_inv[OF this, of lm sc "map fst ?m"] obtain fs where fs:
    "map target_ids (geometry_follow_ops lm sc ops) = map (\<lambda>i. [i]) fs" "distinct fs" "set fs \<inter> set (map fst ?m) = {}"
    by (auto simp: geometry_follow_ops_def Let_def)
  have "set (map target_ids ops) \<inter> set (map (\<lambda>i. [i]) fs) = {}"
  proof (rule equals0I)
    fix y assume "y \<in> set (map target_ids ops) \<inter> set (map (\<lambda>i. [i]) fs)"
    then obtain i where i: "i \<in> set fs" "y = [i]" "y \<in> target_ids ` set ops" unfolding set_map by (elim IntE imageE) simp
    then have "i \<in> set (map fst ?m)" unfolding ids by simp
    then show False using fs(3) i(1) by blast
  qed
  moreover have "distinct (map (\<lambda>i. [i]) fs)" using fs(2) by (simp add: distinct_map inj_on_def)
  moreover have "distinct (map target_ids ops)" using cascade_distinct[OF assms(2)] by (simp add: assms(1))
  ultimately show ?thesis by (simp add: fs(1))
qed

section \<open>What the moves do\<close>

lemma set_transform_get:
  assumes "scene_get sc i = Some ob"
  shows "\<exists>sc' iv. apply_object_op lm sc (SetTransform i t) = (sc', Inr iv) \<and>
    scene_get sc' i = Some (ob\<lparr>o_transform := t\<rparr>) \<and> (\<forall>x. x \<noteq> i \<longrightarrow> scene_get sc' x = scene_get sc x)"
proof -
  obtain idx where idx: "index_of sc i = Some idx" "object_at sc idx = ob"
    using assms by (cases "index_of sc i") (auto simp: scene_get_def find_position index_of_def object_at_def)
  let ?sc = "modify_at sc idx (\<lambda>ob. ob\<lparr>o_transform := t\<rparr>)"
  have "apply_object_op lm sc (SetTransform i t) =
      (with_version (scene_version ?sc + 1) ?sc, Inr (SetTransform i (o_transform ob)))"
    using idx by (simp add: apply_object_op_def apply_set_transform_def with_index_def modify_at_def with_version_def)
  moreover have "scene_get ?sc i = Some (ob\<lparr>o_transform := t\<rparr>)" using modify_get[OF idx(1)] idx(2) by simp
  moreover have "\<forall>x. x \<noteq> i \<longrightarrow> scene_get ?sc x = scene_get sc x" using modify_other[OF idx(1)] by simp
  ultimately show ?thesis by simp
qed

text \<open>
  What a drag makes of a member. An open path with an end anchored to an object that stays, or
  moved by more than a translation, keeps its transform and is deformed between its ends; with
  both ends pinned it stays as it is. Any other member rides.
\<close>

definition moves_whole :: "transform \<Rightarrow> object \<Rightarrow> bool" where
  "moves_whole delta ob \<longleftrightarrow> o_anchors ob = [] \<and> is_pure_translate delta \<or> \<not> is_open_class (o_geometry ob)"

definition end_pins :: "object_id list \<Rightarrow> object \<Rightarrow> (bool \<times> bool) option" where
  "end_pins mids ob = open_endpoint_pins (g_path (o_geometry ob)) (o_anchors ob) (\<lambda>t. t \<in> set mids)"

definition deforms :: "object_id list \<Rightarrow> transform \<Rightarrow> object \<Rightarrow> bool" where
  "deforms mids delta ob \<longleftrightarrow> \<not> moves_whole delta ob \<and>
     (case end_pins mids ob of None \<Rightarrow> False | Some (s, e) \<Rightarrow> s \<or> e \<or> \<not> is_pure_translate delta)"

definition deformed_geometry :: "libm \<Rightarrow> object_id list \<Rightarrow> transform \<Rightarrow> object \<Rightarrow> geometry" where
  "deformed_geometry lm mids delta ob =
     (case end_pins mids ob of
        Some (s, e) \<Rightarrow>
          (case route_open_endpoints (g_path (o_geometry ob)) (o_transform ob) delta s e of
             Some (RouteDeform a b) \<Rightarrow>
               (case deform_open_path lm (g_path (o_geometry ob)) a b of
                  Some d \<Rightarrow> \<lparr>g_path = d, g_rule = g_rule (o_geometry ob),
                     g_subpaths = (case parse_path d of Inr sps \<Rightarrow> sps | Inl _ \<Rightarrow> [])\<rparr>
                | None \<Rightarrow> o_geometry ob)
           | _ \<Rightarrow> o_geometry ob)
      | None \<Rightarrow> o_geometry ob)"

definition dragged :: "libm \<Rightarrow> object_id list \<Rightarrow> transform \<Rightarrow> object \<Rightarrow> object" where
  "dragged lm mids delta ob =
     (if deforms mids delta ob then ob\<lparr>o_geometry := deformed_geometry lm mids delta ob\<rparr>
      else ob\<lparr>o_transform := transform_mul delta (o_transform ob)\<rparr>)"

lemma both_pinned_stay:
  assumes "\<not> moves_whole delta ob" "end_pins mids ob = Some (True, True)"
  shows "dragged lm mids delta ob = ob"
proof -
  have "route_open_endpoints (g_path (o_geometry ob)) (o_transform ob) delta True True =
      (case parse_path (g_path (o_geometry ob)) of
         Inl _ \<Rightarrow> None | Inr sps \<Rightarrow> if single_open sps then Some RoutePinned else None)"
    by (simp add: route_open_endpoints_def split: sum.split)
  then consider "route_open_endpoints (g_path (o_geometry ob)) (o_transform ob) delta True True = None"
    | "route_open_endpoints (g_path (o_geometry ob)) (o_transform ob) delta True True = Some RoutePinned"
    by (cases "parse_path (g_path (o_geometry ob))") (auto split: if_splits)
  then have "deformed_geometry lm mids delta ob = o_geometry ob"
    by cases (simp_all add: deformed_geometry_def assms(2))
  then show ?thesis using assms by (simp add: dragged_def deforms_def)
qed

lemma deform_node_simps [simp]:
  "n_in (deform_node m n) = None \<longleftrightarrow> n_in n = None"
  "n_out (deform_node m n) = None \<longleftrightarrow> n_out n = None"
  "n_width (deform_node m n) = n_width n"
  by (simp_all add: deform_node_def Let_def split: prod.splits)

lemma canonical_deform:
  "canonical sp \<Longrightarrow> canonical \<lparr>sp_closed = False, sp_nodes = map (deform_node m) (sp_nodes sp)\<rparr>"
  by (auto simp: canonical_def hd_map last_map successively_map)

text \<open>The text of a deformed open path is that of a drawable path.\<close>

lemma deform_parses:
  assumes "geometry_ok g" "deform_open_path lm (g_path g) a b = Some d"
  shows "\<exists>sps. parse_path d = Inr sps \<and> geometry_ok \<lparr>g_path = d, g_rule = r, g_subpaths = sps\<rparr>"
proof -
  have p: "parse_path (g_path g) = Inr (g_subpaths g)" using assms(1) by (simp add: geometry_ok_def)
  with assms(2) have open_one: "single_open (g_subpaths g)"
    by (auto simp: deform_open_path_def split: if_splits)
  then obtain sp where sp: "g_subpaths g = [sp]" "\<not> sp_closed sp" by (cases "g_subpaths g" rule: single_open.cases) auto
  obtain m where d: "d = serialize [\<lparr>sp_closed = False, sp_nodes = map (deform_node m) (sp_nodes sp)\<rparr>]"
    using assms(2) p sp by (auto simp: deform_open_path_def Let_def split: if_splits)
  let ?sp = "\<lparr>sp_closed = False, sp_nodes = map (deform_node m) (sp_nodes sp)\<rparr>"
  have c: "canonical ?sp" "drawable [?sp]"
    using geometry_okD(1,2)[OF assms(1)] sp by (auto simp: canonical_deform drawable_def min_nodes_def)
  have "parse_path d = Inr [?sp]" using parse_serialize_canonical[of "[?sp]"] c(1) by (simp add: d)
  moreover have "validate_geometry \<lparr>g_path = d, g_rule = r, g_subpaths = [?sp]\<rparr> = Inr ()"
    using validate_geometry_drawable[of "\<lparr>g_path = d, g_rule = r, g_subpaths = [?sp]\<rparr>"] c by simp
  ultimately show ?thesis by (simp add: geometry_ok_def)
qed

lemma parse_path_empty: "parse_path [] = Inr []"
  by (simp add: parse_path_def opt_list_def)

lemma edit_geometry_get:
  assumes "scene_get sc i = Some ob" "parse_path d = Inr sps" "geometry_ok \<lparr>g_path = d, g_rule = r, g_subpaths = sps\<rparr>"
  shows "\<exists>sc' iv. apply_object_op lm sc (EditGeometry i (text_geometry d r)) = (sc', Inr iv) \<and>
    scene_get sc' i = Some (ob\<lparr>o_geometry := \<lparr>g_path = d, g_rule = r, g_subpaths = sps\<rparr>\<rparr>) \<and>
    (\<forall>x. x \<noteq> i \<longrightarrow> scene_get sc' x = scene_get sc x)"
proof -
  obtain idx where idx: "index_of sc i = Some idx" "object_at sc idx = ob"
    using assms(1) by (cases "index_of sc i") (auto simp: scene_get_def find_position index_of_def object_at_def)
  let ?g = "\<lparr>g_path = d, g_rule = r, g_subpaths = sps\<rparr>"
  let ?sc = "modify_at sc idx (\<lambda>ob. ob\<lparr>o_geometry := ?g\<rparr>)"
  have ne: "d \<noteq> []"
    using assms(2) geometry_okD(2)[OF assms(3)] by (auto simp: drawable_def parse_path_empty)
  have "geometry_ensure_parsed (text_geometry d r) = Inr ?g"
    using assms(2) ne by (simp add: geometry_ensure_parsed_def geometry_parse_def text_geometry_def)
  then have "apply_object_op lm sc (EditGeometry i (text_geometry d r)) =
      (with_version (scene_version ?sc + 1) ?sc, Inr (EditGeometry i (o_geometry ob)))"
    using idx geometry_okD(5)[OF assms(3)]
    by (simp add: apply_object_op_def apply_edit_geometry_def guarded_def parsed_def checked_def with_index_def
        modify_at_def with_version_def)
  moreover have "scene_get ?sc i = Some (ob\<lparr>o_geometry := ?g\<rparr>)" using modify_get[OF idx(1)] idx(2) by simp
  moreover have "\<forall>x. x \<noteq> i \<longrightarrow> scene_get ?sc x = scene_get sc x" using modify_other[OF idx(1)] by simp
  ultimately show ?thesis by simp
qed

lemma open_class_path:
  assumes "geometry_ok g" "is_open_class g"
  shows "parse_path (g_path g) = Inr (g_subpaths g)" "single_open (g_subpaths g)" "sp_nodes (hd (g_subpaths g)) \<noteq> []"
proof -
  show p: "parse_path (g_path g) = Inr (g_subpaths g)" using assms(1) by (simp add: geometry_ok_def)
  have "g_subpaths g \<noteq> []" using geometry_okD(2)[OF assms(1)] by (simp add: drawable_def)
  then show "single_open (g_subpaths g)" using assms(2) by (simp add: is_open_class_def)
  show "sp_nodes (hd (g_subpaths g)) \<noteq> []"
    using geometry_okD(1)[OF assms(1)] \<open>g_subpaths g \<noteq> []\<close> by (cases "g_subpaths g") (simp_all add: canonical_def)
qed

text \<open>The one operation of a member, or none, and what it leaves.\<close>

lemma member_ops_cases:
  assumes "geometry_ok (o_geometry ob)"
  shows "member_ops lm mids delta ob =
    (if \<not> deforms mids delta ob then [move_op delta ob]
     else if g_path (deformed_geometry lm mids delta ob) = g_path (o_geometry ob) then []
     else [EditGeometry (o_id ob) (text_geometry (g_path (deformed_geometry lm mids delta ob)) (g_rule (o_geometry ob)))])"
proof (cases "moves_whole delta ob")
  case True
  then show ?thesis by (auto simp: member_ops_def moves_whole_def deforms_def Let_def)
next
  case False
  then have oc: "is_open_class (o_geometry ob)" "\<not> (o_anchors ob = [] \<and> is_pure_translate delta)"
    by (auto simp: moves_whole_def)
  note path = open_class_path[OF assms oc(1)]
  show ?thesis
  proof (cases "end_pins mids ob")
    case None
    then show ?thesis using oc by (auto simp: member_ops_def deforms_def end_pins_def Let_def)
  next
    case (Some se)
    obtain s e where se: "se = (s, e)" by (cases se)
    show ?thesis using False oc Some path unfolding se
      by (auto simp: member_ops_def deforms_def deformed_geometry_def end_pins_def route_open_endpoints_def Let_def
          split: option.splits)
  qed
qed

lemma deformed_geometry_ok:
  assumes "geometry_ok (o_geometry ob)"
  shows "g_rule (deformed_geometry lm mids delta ob) = g_rule (o_geometry ob)"
    "geometry_ok (deformed_geometry lm mids delta ob)"
proof -
  let ?g = "deformed_geometry lm mids delta ob"
  have "?g = o_geometry ob \<or> (\<exists>a b d. deform_open_path lm (g_path (o_geometry ob)) a b = Some d \<and>
     ?g = \<lparr>g_path = d, g_rule = g_rule (o_geometry ob), g_subpaths = (case parse_path d of Inr sps \<Rightarrow> sps | Inl _ \<Rightarrow> [])\<rparr>)"
  proof (cases "end_pins mids ob")
    case (Some se)
    obtain s e where se: "se = (s, e)" by (cases se)
    show ?thesis
    proof (cases "route_open_endpoints (g_path (o_geometry ob)) (o_transform ob) delta s e")
      case (Some r)
      show ?thesis
      proof (cases r)
        case (RouteDeform a b)
        show ?thesis
        proof (cases "deform_open_path lm (g_path (o_geometry ob)) a b")
          case None
          then show ?thesis using \<open>end_pins mids ob = Some se\<close> Some RouteDeform se by (simp add: deformed_geometry_def)
        next
          case d: (Some d)
          then have "?g = \<lparr>g_path = d, g_rule = g_rule (o_geometry ob), g_subpaths = (case parse_path d of Inr sps \<Rightarrow> sps | Inl _ \<Rightarrow> [])\<rparr>"
            using \<open>end_pins mids ob = Some se\<close> Some RouteDeform se by (simp add: deformed_geometry_def)
          with d show ?thesis by blast
        qed
      qed (use \<open>end_pins mids ob = Some se\<close> Some se in \<open>simp_all add: deformed_geometry_def\<close>)
    qed (use Some se in \<open>simp add: deformed_geometry_def\<close>)
  qed (simp add: deformed_geometry_def)
  then consider (same) "?g = o_geometry ob"
    | (bent) a b d where "deform_open_path lm (g_path (o_geometry ob)) a b = Some d"
        "?g = \<lparr>g_path = d, g_rule = g_rule (o_geometry ob), g_subpaths = (case parse_path d of Inr sps \<Rightarrow> sps | Inl _ \<Rightarrow> [])\<rparr>"
    by blast
  then have "g_rule ?g = g_rule (o_geometry ob) \<and> geometry_ok ?g"
  proof cases
    case same
    then show ?thesis using assms by simp
  next
    case bent
    from deform_parses[OF assms bent(1), of "g_rule (o_geometry ob)"] obtain sps where
      "parse_path d = Inr sps" "geometry_ok \<lparr>g_path = d, g_rule = g_rule (o_geometry ob), g_subpaths = sps\<rparr>" by blast
    then show ?thesis unfolding bent(2) by simp
  qed
  then show "g_rule ?g = g_rule (o_geometry ob)" "geometry_ok ?g" by simp_all
qed

lemma member_run:
  assumes "scene_get sc i = Some ob" "geometry_ok (o_geometry ob)"
  shows "\<exists>sc'. apply_ops lm sc (member_ops lm mids delta ob) = Some sc' \<and>
    scene_get sc' i = Some (dragged lm mids delta ob) \<and> (\<forall>x. x \<noteq> i \<longrightarrow> scene_get sc' x = scene_get sc x)"
proof -
  have oid: "o_id ob = i" using scene_get_Some[OF assms(1)] by simp
  let ?g = "deformed_geometry lm mids delta ob"
  note g = deformed_geometry_ok[OF assms(2), of lm mids delta]
  have eq: "?g = o_geometry ob" if "g_path ?g = g_path (o_geometry ob)"
  proof -
    have "g_subpaths ?g = g_subpaths (o_geometry ob)"
      using that g(2) assms(2) by (auto simp: geometry_ok_def)
    with that g(1) show ?thesis by (cases ?g; cases "o_geometry ob") simp
  qed
  consider (ride) "\<not> deforms mids delta ob"
    | (stay) "deforms mids delta ob" "g_path ?g = g_path (o_geometry ob)"
    | (bend) "deforms mids delta ob" "g_path ?g \<noteq> g_path (o_geometry ob)" by blast
  then show ?thesis
  proof cases
    case ride
    then show ?thesis using set_transform_get[OF assms(1), of lm "transform_mul delta (o_transform ob)"]
      by (auto simp: member_ops_cases[OF assms(2)] dragged_def move_op_def oid)
  next
    case stay
    then show ?thesis using assms(1) eq by (simp add: member_ops_cases[OF assms(2)] dragged_def)
  next
    case bend
    have p: "parse_path (g_path ?g) = Inr (g_subpaths ?g)" using g(2) by (simp add: geometry_ok_def)
    have w: "\<lparr>g_path = g_path ?g, g_rule = g_rule (o_geometry ob), g_subpaths = g_subpaths ?g\<rparr> = ?g"
      using g(1) by (cases ?g) simp
    from edit_geometry_get[OF assms(1) p, of "g_rule (o_geometry ob)" lm] g(2) bend show ?thesis
      unfolding w by (auto simp: member_ops_cases[OF assms(2)] dragged_def oid)
  qed
qed

lemma members_run:
  assumes "distinct is" "\<forall>i \<in> set is. scene_get sc i = scene_get sc0 i"
    and "\<forall>i \<in> set is. \<exists>ob. scene_get sc0 i = Some ob \<and> geometry_ok (o_geometry ob)"
  shows "\<exists>sc'. apply_ops lm sc (concat (map (cascade_at lm sc0 mids delta) is)) = Some sc' \<and>
    (\<forall>x. scene_get sc' x = (if x \<in> set is then map_option (dragged lm mids delta) (scene_get sc0 x) else scene_get sc x))"
  using assms
proof (induction "is" arbitrary: sc)
  case (Cons i "is")
  obtain ob where ob: "scene_get sc0 i = Some ob" "geometry_ok (o_geometry ob)" using Cons.prems(3) by auto
  then have "scene_get sc i = Some ob" using Cons.prems(2) by simp
  from member_run[OF this ob(2), of lm mids delta] obtain sc1 where s:
    "apply_ops lm sc (member_ops lm mids delta ob) = Some sc1"
    "scene_get sc1 i = Some (dragged lm mids delta ob)" "\<forall>x. x \<noteq> i \<longrightarrow> scene_get sc1 x = scene_get sc x" by blast
  have "\<forall>j \<in> set is. scene_get sc1 j = scene_get sc0 j"
  proof
    fix j assume j: "j \<in> set is"
    then have "j \<noteq> i" using Cons.prems(1) by auto
    then show "scene_get sc1 j = scene_get sc0 j" using Cons.prems(2) s(3) j by simp
  qed
  from Cons.IH[OF _ this] Cons.prems(1,3) obtain sc' where sc':
    "apply_ops lm sc1 (concat (map (cascade_at lm sc0 mids delta) is)) = Some sc'"
    "\<forall>x. scene_get sc' x = (if x \<in> set is then map_option (dragged lm mids delta) (scene_get sc0 x) else scene_get sc1 x)"
    by auto
  have "scene_get sc' x = (if x \<in> set (i # is) then map_option (dragged lm mids delta) (scene_get sc0 x) else scene_get sc x)" for x
    using sc'(2) s(2,3) ob Cons.prems(1) by (cases "x = i") auto
  moreover have "cascade_at lm sc0 mids delta i = member_ops lm mids delta ob" using ob(1) by (simp add: cascade_at_def)
  then have "apply_ops lm sc (concat (map (cascade_at lm sc0 mids delta) (i # is))) = Some sc'"
    using s(1) sc'(1) by (simp only: list.map concat.simps apply_ops_append bind.bind_lunit)
  ultimately show ?case by blast
qed simp

lemma drag_law:
  assumes "\<forall>r \<in> set roots. scene_get sc r \<noteq> None" "\<forall>ob \<in> set (objects sc). geometry_ok (o_geometry ob)"
  shows "\<exists>sc'. apply_ops lm sc (cascade_same_delta_ops lm sc roots delta) = Some sc' \<and>
    (\<forall>x. scene_get sc' x = (if \<exists>r \<in> set roots. below sc r x
       then map_option (dragged lm (moved_ids sc roots) delta) (scene_get sc x) else scene_get sc x)) \<and>
    (\<forall>x ob. scene_get sc x = Some ob \<and> \<not> moves_whole delta ob \<and> end_pins (moved_ids sc roots) ob = Some (True, True) \<longrightarrow>
       scene_get sc' x = Some ob)"
proof -
  let ?is = "moved_ids sc roots"
  have "\<exists>ob. scene_get sc i = Some ob \<and> geometry_ok (o_geometry ob)" if i: "i \<in> set ?is" for i
    using moved_ids_live[OF assms(1) i] assms(2) scene_get_Some by blast
  with members_run[OF moved_ids_law(1)[of sc roots], of sc sc lm ?is delta] obtain sc' where
    "apply_ops lm sc (cascade_same_delta_ops lm sc roots delta) = Some sc'"
    and get: "\<forall>x. scene_get sc' x = (if \<exists>r \<in> set roots. below sc r x
       then map_option (dragged lm ?is delta) (scene_get sc x) else scene_get sc x)"
    unfolding cascade_eq by (auto simp: moved_ids_law(2))
  moreover have "scene_get sc' x = Some ob"
    if "scene_get sc x = Some ob" "\<not> moves_whole delta ob" "end_pins ?is ob = Some (True, True)" for x ob
    using get that both_pinned_stay[OF that(2,3), of lm] by simp
  ultimately show ?thesis by blast
qed

end
