(* ===== verification/Commands.thy ===== *)
theory Commands
  imports F64
begin

text \<open>
  The catalogs of commands, of held gestures and of theme colours: \<open>catalog/commands.rs\<close>,
  \<open>catalog/gestures.rs\<close> and \<open>catalog/theme.rs\<close>, entry by entry.
\<close>

section \<open>Commands\<close>

datatype command_category =
    CatTool
  | CatInsert
  | CatClipboard
  | CatEdit
  | CatSelection
  | CatArrange
  | CatOrder
  | CatHistory
  | CatPath
  | CatStyle
  | CatAnnotate
  | CatView

record command_entry =
  oc_id :: str
  oc_label :: str
  oc_category :: command_category
  oc_default_shortcut :: "str option"
  oc_description :: str
  oc_op_kind :: "str option"

definition object_command :: "str \<Rightarrow> str \<Rightarrow> command_category \<Rightarrow> str option \<Rightarrow> str \<Rightarrow> str option \<Rightarrow> command_entry" where
  "object_command i label category shortcut description kind =
     \<lparr>oc_id = i, oc_label = label, oc_category = category, oc_default_shortcut = shortcut,
      oc_description = description, oc_op_kind = kind\<rparr>"

definition tool_commands :: "command_entry list" where
  "tool_commands =
    [object_command ''select-move'' ''Select / Move'' CatTool (Some ''V'')
       ''Arm the select/move tool.'' None,
     object_command ''hand-pan'' ''Hand / Pan'' CatTool (Some ''H'')
       ''Arm the hand tool to pan the viewport.'' None,
     object_command ''draw'' ''Draw'' CatTool (Some ''P'')
       ''Arm the pen/draw tool.'' None,
     object_command ''erase'' ''Eraser'' CatTool (Some ''E'')
       ''Arm the eraser tool (hold Alt to erase partial geometry).'' None]"

definition insert_commands :: "command_entry list" where
  "insert_commands =
    [object_command ''insert-rectangle'' ''Rectangle'' CatInsert (Some ''R'')
       ''Insert a rectangle.'' None,
     object_command ''insert-ellipse'' ''Ellipse'' CatInsert (Some ''O'')
       ''Insert an ellipse.'' None,
     object_command ''insert-line'' ''Line'' CatInsert (Some ''L'')
       ''Insert a line.'' None,
     object_command ''insert-text'' ''Text'' CatInsert (Some ''T'')
       ''Insert a text object.'' None,
     object_command ''insert-frame'' ''Frame'' CatInsert (Some ''F'')
       ''Insert a frame.'' None]"

definition clipboard_commands :: "command_entry list" where
  "clipboard_commands =
    [object_command ''copy'' ''Copy'' CatClipboard (Some ''Mod+C'')
       ''Copy the current selection to the clipboard.'' None,
     object_command ''paste'' ''Paste'' CatClipboard (Some ''Mod+V'')
       ''Paste objects from the clipboard.'' None]"

definition edit_commands :: "command_entry list" where
  "edit_commands =
    [object_command ''duplicate'' ''Duplicate'' CatEdit (Some ''Mod+D'')
       ''Duplicate the current selection in place.'' None,
     object_command ''delete'' ''Delete'' CatEdit (Some ''Backspace'')
       ''Delete the current selection.'' (Some ''delete''),
     object_command ''group'' ''Group'' CatEdit (Some ''Mod+G'')
       ''Group the selected objects under a new parent.'' (Some ''reparent''),
     object_command ''ungroup'' ''Ungroup'' CatEdit (Some ''Mod+Shift+G'')
       ''Ungroup the selected group back to its parent.'' (Some ''reparent'')]"

definition selection_commands :: "command_entry list" where
  "selection_commands =
    [object_command ''select-all'' ''Select All'' CatSelection (Some ''Mod+A'')
       ''Select all objects in the scene.'' None,
     object_command ''clear-selection'' ''Clear Selection'' CatSelection (Some ''Escape'')
       ''Clear the current selection.'' None]"

definition arrange_commands :: "command_entry list" where
  "arrange_commands =
    [object_command ''nudge-up'' ''Nudge Up'' CatArrange (Some ''Up'')
       ''Move the selection up by one step.'' (Some ''set-transform''),
     object_command ''nudge-down'' ''Nudge Down'' CatArrange (Some ''Down'')
       ''Move the selection down by one step.'' (Some ''set-transform''),
     object_command ''nudge-left'' ''Nudge Left'' CatArrange (Some ''Left'')
       ''Move the selection left by one step.'' (Some ''set-transform''),
     object_command ''nudge-right'' ''Nudge Right'' CatArrange (Some ''Right'')
       ''Move the selection right by one step.'' (Some ''set-transform'')]"

definition order_commands :: "command_entry list" where
  "order_commands =
    [object_command ''bring-forward'' ''Bring Forward'' CatOrder (Some ''Mod+]'')
       ''Move the selection one step toward the front of the z-order.'' (Some ''reorder''),
     object_command ''send-backward'' ''Send Backward'' CatOrder (Some ''Mod+['')
       ''Move the selection one step toward the back of the z-order.'' (Some ''reorder''),
     object_command ''bring-to-front'' ''Bring to Front'' CatOrder (Some '']'')
       ''Bring the selection to the front of the z-order.'' (Some ''reorder''),
     object_command ''send-to-back'' ''Send to Back'' CatOrder (Some ''['')
       ''Send the selection to the back of the z-order.'' (Some ''reorder'')]"

definition history_commands :: "command_entry list" where
  "history_commands =
    [object_command ''undo'' ''Undo'' CatHistory (Some ''Mod+Z'')
       ''Undo the last edit.'' None,
     object_command ''redo'' ''Redo'' CatHistory (Some ''Mod+Shift+Z'')
       ''Redo the last undone edit.'' None]"

definition path_commands :: "command_entry list" where
  "path_commands =
    [object_command ''split'' ''Split'' CatPath None
       ''Split a multi-subpath object into one object per contour.'' (Some ''split''),
     object_command ''merge'' ''Merge'' CatPath None
       ''Merge the selected sibling objects into one multi-subpath object.'' (Some ''merge'')]"

definition style_commands :: "command_entry list" where
  "style_commands =
    [object_command ''set-fill'' ''Set Fill'' CatStyle None
       ''Set the fill of the selection.'' (Some ''set-style''),
     object_command ''set-stroke'' ''Set Stroke'' CatStyle None
       ''Set the stroke of the selection.'' (Some ''set-style''),
     object_command ''edit-text'' ''Edit Text'' CatStyle (Some ''Enter'')
       ''Edit the text of the selection.'' (Some ''set-text'')]"

definition annotate_commands :: "command_entry list" where
  "annotate_commands =
    [object_command ''add-comment'' ''Add Comment'' CatAnnotate (Some ''Mod+Shift+M'')
       ''Add a comment to the selection.'' (Some ''add-comment''),
     object_command ''toggle-clip'' ''Toggle Clip'' CatAnnotate None
       ''Toggle whether the selection clips its children.'' (Some ''set-clip''),
     object_command ''set-tags'' ''Set Tags'' CatAnnotate None
       ''Set the tags on the selection.'' (Some ''set-tags'')]"

definition view_commands :: "command_entry list" where
  "view_commands =
    [object_command ''zoom-in'' ''Zoom In'' CatView (Some ''Mod+='')
       ''Zoom the viewport in.'' None,
     object_command ''zoom-out'' ''Zoom Out'' CatView (Some ''Mod+-'')
       ''Zoom the viewport out.'' None,
     object_command ''zoom-fit'' ''Zoom to Fit'' CatView (Some ''Mod+0'')
       ''Fit the whole scene in the viewport.'' None,
     object_command ''open-settings'' ''Settings'' CatView (Some ''Mod+,'')
       ''Open the settings panel.'' None,
     object_command ''open-template-library'' ''Template Library'' CatView (Some ''Mod+/'')
       ''Open the template library.'' None,
     object_command ''toggle-theme'' ''Toggle Theme'' CatView None
       ''Switch between the light and dark theme.'' None,
     object_command ''export'' ''Export'' CatView None
       ''Export the current selection.'' None,
     object_command ''toggle-fullscreen'' ''Fullscreen'' CatView None
       ''Toggle fullscreen.'' None,
     object_command ''toggle-diagnostics'' ''Diagnostics'' CatView None
       ''Toggle the diagnostics panel.'' None]"

definition object_command_catalog :: "command_entry list" where
  "object_command_catalog = tool_commands @ insert_commands @ clipboard_commands @ edit_commands @ selection_commands @ arrange_commands @
     order_commands @ history_commands @ path_commands @ style_commands @ annotate_commands @ view_commands"

section \<open>Gestures\<close>

datatype gesture_category = GestPan | GestSelect | GestSnap | GestErase | GestTransform | GestAnchor | GestDraw

datatype hold_input = HoldKey | HoldButton | HoldModifier

record hold_trigger =
  ht_input :: hold_input
  ht_key :: "str option"
  ht_button :: "str option"
  ht_modifier :: "str option"
  ht_degrees :: "f64 option"

definition hold_key :: "str \<Rightarrow> hold_trigger" where
  "hold_key k = \<lparr>ht_input = HoldKey, ht_key = Some k, ht_button = None, ht_modifier = None, ht_degrees = None\<rparr>"

definition hold_button :: "str \<Rightarrow> hold_trigger" where
  "hold_button b = \<lparr>ht_input = HoldButton, ht_key = None, ht_button = Some b, ht_modifier = None, ht_degrees = None\<rparr>"

definition hold_modifier :: "str \<Rightarrow> hold_trigger" where
  "hold_modifier m = \<lparr>ht_input = HoldModifier, ht_key = None, ht_button = None, ht_modifier = Some m, ht_degrees = None\<rparr>"

definition with_degrees :: "hold_trigger \<Rightarrow> f64 \<Rightarrow> hold_trigger" where
  "with_degrees t d = t\<lparr>ht_degrees := Some d\<rparr>"

record gesture_entry =
  og_id :: str
  og_label :: str
  og_category :: gesture_category
  og_trigger :: hold_trigger
  og_description :: str

definition object_gesture :: "str \<Rightarrow> str \<Rightarrow> gesture_category \<Rightarrow> hold_trigger \<Rightarrow> str \<Rightarrow> gesture_entry" where
  "object_gesture i label category trigger description =
     \<lparr>og_id = i, og_label = label, og_category = category, og_trigger = trigger, og_description = description\<rparr>"

definition object_gesture_catalog :: "gesture_entry list" where
  "object_gesture_catalog =
    [object_gesture ''pan-space'' ''Pan (Space)'' GestPan (hold_key ''Space'')
       ''Hold Space to pan the viewport by dragging.'',
     object_gesture ''pan-middle'' ''Pan (Middle Button)'' GestPan (hold_button ''middle'')
       ''Hold the middle mouse button to pan the viewport by dragging.'',
     object_gesture ''additive-select-shift'' ''Add to Selection (Shift)'' GestSelect (hold_modifier ''Shift'')
       ''Hold Shift while selecting to add to the current selection.'',
     object_gesture ''additive-select-mod'' ''Add to Selection (Cmd/Ctrl)'' GestSelect (hold_modifier ''Mod'')
       ''Hold the primary modifier (Cmd/Ctrl) while selecting to add to the current selection.'',
     object_gesture ''no-snap-alt'' ''Disable Snap (Alt)'' GestSnap (hold_modifier ''Alt'')
       ''Hold Alt to suppress snapping while moving or inserting.'',
     object_gesture ''partial-erase-alt'' ''Partial Erase (Alt)'' GestErase (hold_modifier ''Alt'')
       ''Hold Alt with the erase tool to erase partial geometry instead of whole objects.'',
     object_gesture ''coarse-rotate-shift'' ''Fine Rotate (Shift)'' GestTransform (with_degrees (hold_modifier ''Shift'') (f_of_int 15))
       ''Rotation snaps to 15-degree steps by default; hold Shift to rotate freely (fine).'',
     object_gesture ''detach-alt'' ''Detach Anchors (Alt)'' GestAnchor (hold_modifier ''Alt'')
       ''Hold Alt while dragging an anchored object to move it whole, ignoring its anchors and detaching them.'',
     object_gesture ''free-recognize-shift'' ''Free-form Recognition (Shift)'' GestDraw (hold_modifier ''Shift'')
       ''Hold Shift while drawing with the pen to recognize the stroke as a free-form shape instead of snapping to a basic shape (release returns to Basic).'']"

section \<open>Theme tokens\<close>

text \<open>
  The theme tokens: \<open>catalog/theme.rs\<close>. The names of the colours that follow the theme, and
  their values in the light and the dark mode.
\<close>

datatype token =
    TokCanvasBg
  | TokSurface
  | TokSurfaceMuted
  | TokDefaultFill
  | TokDefaultStroke
  | TokText
  | TokShadow
  | TokSelectionRing
  | TokMaterial
  | TokHairline
  | TokHover
  | TokAccentSoft
  | TokTextSecondary

definition all_tokens :: "token list" where
  "all_tokens = [TokCanvasBg, TokSurface, TokSurfaceMuted, TokDefaultFill, TokDefaultStroke,
     TokText, TokShadow, TokSelectionRing, TokMaterial, TokHairline,
     TokHover, TokAccentSoft, TokTextSecondary]"

fun token_name :: "token \<Rightarrow> str" where
  "token_name TokCanvasBg = ''canvas-bg''"
| "token_name TokSurface = ''surface''"
| "token_name TokSurfaceMuted = ''surface-muted''"
| "token_name TokDefaultFill = ''default-fill''"
| "token_name TokDefaultStroke = ''default-stroke''"
| "token_name TokText = ''text''"
| "token_name TokShadow = ''shadow''"
| "token_name TokSelectionRing = ''selection-ring''"
| "token_name TokMaterial = ''material''"
| "token_name TokHairline = ''hairline''"
| "token_name TokHover = ''hover''"
| "token_name TokAccentSoft = ''accent-soft''"
| "token_name TokTextSecondary = ''text-secondary''"

definition token_from_name :: "str \<Rightarrow> token option" where
  "token_from_name name = find (\<lambda>t. token_name t = name) all_tokens"

type_synonym rgba = "8 word \<times> 8 word \<times> 8 word \<times> 8 word"

fun token_rgba :: "token \<Rightarrow> bool \<Rightarrow> rgba" where
  "token_rgba TokCanvasBg False = (0xf5, 0xf5, 0xf7, 0xff)"
| "token_rgba TokCanvasBg True = (0x1e, 0x1e, 0x20, 0xff)"
| "token_rgba TokSurface False = (0xff, 0xff, 0xff, 0xff)"
| "token_rgba TokSurface True = (0x2c, 0x2c, 0x2e, 0xff)"
| "token_rgba TokSurfaceMuted False = (0xe9, 0xe9, 0xeb, 0xff)"
| "token_rgba TokSurfaceMuted True = (0x3a, 0x3a, 0x3c, 0xff)"
| "token_rgba TokDefaultFill False = (0xff, 0xff, 0xff, 0xff)"
| "token_rgba TokDefaultFill True = (0x2c, 0x2c, 0x2e, 0xff)"
| "token_rgba TokDefaultStroke False = (0xc6, 0xc6, 0xc8, 0xff)"
| "token_rgba TokDefaultStroke True = (0x54, 0x54, 0x56, 0xff)"
| "token_rgba TokText False = (0x1d, 0x1d, 0x1f, 0xff)"
| "token_rgba TokText True = (0xf5, 0xf5, 0xf7, 0xff)"
| "token_rgba TokShadow False = (0x00, 0x00, 0x00, 0x40)"
| "token_rgba TokShadow True = (0xff, 0xff, 0xff, 0x66)"
| "token_rgba TokSelectionRing False = (0x00, 0x7a, 0xff, 0xff)"
| "token_rgba TokSelectionRing True = (0x0a, 0x84, 0xff, 0xff)"
| "token_rgba TokMaterial False = (0xf7, 0xf7, 0xf9, 0xe6)"
| "token_rgba TokMaterial True = (0x2c, 0x2c, 0x2e, 0xe6)"
| "token_rgba TokHairline False = (0x00, 0x00, 0x00, 0x1f)"
| "token_rgba TokHairline True = (0xff, 0xff, 0xff, 0x26)"
| "token_rgba TokHover False = (0x00, 0x00, 0x00, 0x14)"
| "token_rgba TokHover True = (0xff, 0xff, 0xff, 0x1f)"
| "token_rgba TokAccentSoft False = (0x00, 0x7a, 0xff, 0x26)"
| "token_rgba TokAccentSoft True = (0x0a, 0x84, 0xff, 0x3d)"
| "token_rgba TokTextSecondary False = (0x8a, 0x8a, 0x8e, 0xff)"
| "token_rgba TokTextSecondary True = (0x98, 0x98, 0x9d, 0xff)"

definition resolve_token :: "str \<Rightarrow> bool \<Rightarrow> rgba option" where
  "resolve_token name dark = map_option (\<lambda>t. token_rgba t dark) (token_from_name name)"

text \<open>Every token is in the table, and a name names one token.\<close>

lemma all_tokens_complete: "t \<in> set all_tokens"
  by (cases t) (simp_all add: all_tokens_def)

lemma token_name_inj: "token_name s = token_name t \<longleftrightarrow> s = t"
  by (cases s; cases t) simp_all

lemma token_round: "token_from_name (token_name t) = Some t"
  by (cases t) (simp_all add: token_from_name_def all_tokens_def)

end
