(* ===== verification/Primitives.thy ===== *)
theory Primitives
  imports Deform Commands
begin

text \<open>
  The primitive shapes of the toolbar and the recolouring of objects:
  \<open>authoring/primitives.rs\<close>.
\<close>

section \<open>Quantization\<close>

definition clamp_i32 :: "f64 \<Rightarrow> i32" where
  "clamp_i32 x = f_to_i32 (f_clamp x (f_of_int (- (2 ^ 31))) (f_of_int (2 ^ 31 - 1)))"

text \<open>\<open>Math.round\<close> of JavaScript: halves go up.\<close>

definition js_round :: "f64 \<Rightarrow> i32" where
  "js_round x = (if f_is_nan x then 0 else clamp_i32 (f_floor (f_add x f_half)))"

definition q_units :: "f64 \<Rightarrow> i32" where
  "q_units px = (if f_is_nan px then 0 else clamp_i32 (f_floor (f_add (f_mul px units_per_px) f_half)))"

section \<open>Paths\<close>

definition words_text :: "str list \<Rightarrow> str" where
  "words_text ws = concat (map (\<lambda>w. CHR '' '' # w) ws)"

definition rect_path :: "f64 \<Rightarrow> f64 \<Rightarrow> str" where
  "rect_path w h =
     (let qw = show_i32 (q_units w); qh = show_i32 (q_units h)
      in ''M 0 0 L '' @ qw @ '' 0 L '' @ qw @ '' '' @ qh @ '' L 0 '' @ qh @ '' Z'')"

definition kappa :: f64 where "kappa = 0x3FE1AC710CB295EA"  \<comment> \<open>0.5523\<close>

definition ellipse_path :: "f64 \<Rightarrow> f64 \<Rightarrow> str" where
  "ellipse_path w h =
     (let two = f_of_int 2;
          cx = q_units (f_div w two); cy = q_units (f_div h two);
          rx = q_units (f_div w two); ry = q_units (f_div h two);
          kx = js_round (f_mul (f_of_i32 rx) kappa); ky = js_round (f_mul (f_of_i32 ry) kappa);
          qw = q_units w; qh = q_units h;
          cubic = (\<lambda>ns. '' C'' @ words_text (map show_i32 ns))
      in ''M 0 '' @ show_i32 cy @
         cubic [0, cy - ky, cx - kx, 0, cx, 0] @
         cubic [cx + kx, 0, qw, cy - ky, qw, cy] @
         cubic [qw, cy + ky, cx + kx, qh, cx, qh] @
         cubic [cx - kx, qh, 0, cy + ky, 0, cy] @ '' Z'')"

definition line_path :: "f64 \<Rightarrow> str" where
  "line_path len = ''M 0 0 L '' @ show_i32 (q_units len) @ '' 0''"

section \<open>Colours\<close>

definition theme_default_color :: str where "theme_default_color = ''token:text''"

definition paint_for_color :: "str \<Rightarrow> paint" where
  "paint_for_color color = (if color = theme_default_color then PaintToken (token_name TokText) else Solid color)"

definition solid_fill :: "str \<Rightarrow> fill" where
  "solid_fill hex = \<lparr>f_paint = Solid hex, f_opacity = f_one\<rparr>"

definition solid_stroke :: "str \<Rightarrow> f64 \<Rightarrow> stroke" where
  "solid_stroke hex width_px = \<lparr>s_paint = Solid hex, s_width = q_units width_px, s_opacity = f_one, s_dash = [],
     s_cap = Butt, s_join = Miter\<rparr>"

definition default_inspector_stroke :: stroke where
  "default_inspector_stroke = solid_stroke ''#5b6472'' (f_of_int 2)"

section \<open>Primitives\<close>

datatype primitive_kind = Rectangle | Ellipse | Line | TextBox | Frame

definition primitive_from_str :: "str \<Rightarrow> primitive_kind option" where
  "primitive_from_str s =
     (if s = ''rectangle'' then Some Rectangle else if s = ''ellipse'' then Some Ellipse
      else if s = ''line'' then Some Line else if s = ''text'' then Some TextBox
      else if s = ''frame'' then Some Frame else None)"

record primitive_spec =
  ps_d :: str
  ps_fill :: "fill option"
  ps_stroke :: "stroke option"
  ps_width :: f64
  ps_height :: f64

definition f_1_5 :: f64 where "f_1_5 = 0x3FF8000000000000"  \<comment> \<open>1.5\<close>

definition spec_of :: "str \<Rightarrow> fill option \<Rightarrow> stroke option \<Rightarrow> int \<Rightarrow> int \<Rightarrow> primitive_spec" where
  "spec_of d fi st w h = \<lparr>ps_d = d, ps_fill = fi, ps_stroke = st, ps_width = f_of_int w, ps_height = f_of_int h\<rparr>"

fun primitive_spec_for :: "primitive_kind \<Rightarrow> primitive_spec" where
  "primitive_spec_for Rectangle = spec_of (rect_path (f_of_int 160) (f_of_int 100))
     (Some (solid_fill ''#e8eefc'')) (Some (solid_stroke ''#2f7ee6'' f_1_5)) 160 100"
| "primitive_spec_for Ellipse = spec_of (ellipse_path (f_of_int 140) (f_of_int 140))
     (Some (solid_fill ''#e8eefc'')) (Some (solid_stroke ''#2f7ee6'' f_1_5)) 140 140"
| "primitive_spec_for Line = spec_of (line_path (f_of_int 200)) None (Some (solid_stroke ''#5b6472'' (f_of_int 2))) 200 0"
| "primitive_spec_for TextBox = spec_of (rect_path (f_of_int 180) (f_of_int 80)) None None 180 80"
| "primitive_spec_for Frame = spec_of (rect_path (f_of_int 420) (f_of_int 300)) None
     (Some (solid_stroke ''#94a3b8'' f_one)) 420 300"

definition recolor_spec :: "primitive_spec \<Rightarrow> str option \<Rightarrow> primitive_spec" where
  "recolor_spec spec color =
     (case color of
        None \<Rightarrow> spec
      | Some c \<Rightarrow>
          spec\<lparr>ps_fill := map_option (\<lambda>fi. fi\<lparr>f_paint := paint_for_color c\<rparr>) (ps_fill spec),
               ps_stroke := map_option (\<lambda>st. st\<lparr>s_paint := paint_for_color c\<rparr>) (ps_stroke spec)\<rparr>)"

text \<open>A failing parse is ignored: the outline keeps only its text.\<close>

definition parsed_or_text :: "geometry \<Rightarrow> geometry" where
  "parsed_or_text g = (case geometry_parse g of Inl _ \<Rightarrow> g | Inr g' \<Rightarrow> g')"

definition object_from_spec :: "primitive_spec \<Rightarrow> object_id \<Rightarrow> str \<Rightarrow> transform \<Rightarrow> bool \<Rightarrow> object" where
  "object_from_spec spec oid order t clip =
     (object_new oid order (parsed_or_text (text_geometry (ps_d spec) NonZero)))
       \<lparr>o_transform := t, o_fill := ps_fill spec, o_stroke := ps_stroke spec,
        o_clip := (if clip then Some True else None)\<rparr>"

definition build_primitive :: "primitive_kind \<Rightarrow> f64 \<Rightarrow> f64 \<Rightarrow> str option \<Rightarrow> object_id \<Rightarrow> str \<Rightarrow> object" where
  "build_primitive kind ax ay color oid order =
     (let spec = recolor_spec (primitive_spec_for kind) color;
          tx = f_sub ax (f_div (ps_width spec) (f_of_int 2)); ty = f_sub ay (f_div (ps_height spec) (f_of_int 2))
      in object_from_spec spec oid order (transform_translate tx ty) (kind = Frame))"

record drag_span =
  ds_start_x :: f64
  ds_start_y :: f64
  ds_end_x :: f64
  ds_end_y :: f64

definition drag_geometry :: "primitive_kind \<Rightarrow> drag_span \<Rightarrow> str \<times> f64 \<times> f64" where
  "drag_geometry kind sp =
     (if kind = Line
      then (''M 0 0 L '' @ show_i32 (q_units (f_sub (ds_end_x sp) (ds_start_x sp))) @ '' '' @
              show_i32 (q_units (f_sub (ds_end_y sp) (ds_start_y sp))), ds_start_x sp, ds_start_y sp)
      else
        let w = f_abs (f_sub (ds_end_x sp) (ds_start_x sp)); h = f_abs (f_sub (ds_end_y sp) (ds_start_y sp))
        in (if kind = Ellipse then ellipse_path w h else rect_path w h,
            f_min (ds_start_x sp) (ds_end_x sp), f_min (ds_start_y sp) (ds_end_y sp)))"

definition build_primitive_from_drag :: "primitive_kind \<Rightarrow> drag_span \<Rightarrow> str option \<Rightarrow> object_id \<Rightarrow> str \<Rightarrow> object" where
  "build_primitive_from_drag kind sp color oid order =
     (let spec = recolor_spec (primitive_spec_for kind) color in
      case drag_geometry kind sp of
        (d, tx, ty) \<Rightarrow> object_from_spec (spec\<lparr>ps_d := d\<rparr>) oid order (transform_translate tx ty) (kind = Frame))"

definition build_set_style_op :: "object \<Rightarrow> str \<Rightarrow> object_op" where
  "build_set_style_op ob color =
     (let paint = paint_for_color color in
      if is_open_class (o_geometry ob)
      then SetStyle (o_id ob) None
             (Some (SetTo ((case o_stroke ob of None \<Rightarrow> default_inspector_stroke | Some st \<Rightarrow> st)\<lparr>s_paint := paint\<rparr>)))
      else
        let fill_edit = map_option (\<lambda>fi. SetTo (fi\<lparr>f_paint := paint\<rparr>)) (o_fill ob);
            stroke_edit = map_option (\<lambda>st. SetTo (st\<lparr>s_paint := paint\<rparr>)) (o_stroke ob)
        in SetStyle (o_id ob)
             (if o_fill ob = None \<and> o_stroke ob = None then Some (SetTo \<lparr>f_paint = paint, f_opacity = f_one\<rparr>) else fill_edit)
             stroke_edit)"

end
