(* ===== verification/Grouping.thy ===== *)
theory Grouping
  imports Primitives Export_Laws
begin

text \<open>
  Grouping and ungrouping: \<open>binding/grouping.rs\<close>, with the world box of an object from
  \<open>binding/region.rs\<close>. The functions author operations and never apply them.
\<close>

section \<open>The world box\<close>

record world_aabb =
  wa_min_x :: f64
  wa_min_y :: f64
  wa_max_x :: f64
  wa_max_y :: f64

definition grow_world :: "affine \<Rightarrow> point \<Rightarrow> world_aabb \<Rightarrow> world_aabb" where
  "grow_world a p w =
     (case apply_affine a (f_div (fst p) units_per_px) (f_div (snd p) units_per_px) of
        (wx, wy) \<Rightarrow> \<lparr>wa_min_x = f_min (wa_min_x w) wx, wa_min_y = f_min (wa_min_y w) wy,
                     wa_max_x = f_max (wa_max_x w) wx, wa_max_y = f_max (wa_max_y w) wy\<rparr>)"

definition object_world_aabb :: "object \<Rightarrow> world_aabb option" where
  "object_world_aabb ob =
     (let nodes = local_nodes (g_path (o_geometry ob)) in
      if nodes = [] then None
      else
        let w = fold (grow_world (affine_of (o_transform ob))) nodes
              \<lparr>wa_min_x = f_inf False, wa_min_y = f_inf False, wa_max_x = f_inf True, wa_max_y = f_inf True\<rparr>
        in if f_is_nan (wa_min_x w) \<or> f_is_inf (wa_min_x w) then None else Some w)"

section \<open>Queries\<close>

datatype double_click_action = DrillInContainer | EditLeaf

definition has_children :: "scene \<Rightarrow> object_id \<Rightarrow> bool" where
  "has_children sc i = (\<exists>ob \<in> set (objects sc). o_parent ob = Some i)"

definition ungroup_enabled :: "scene \<Rightarrow> object_id option \<Rightarrow> bool" where
  "ungroup_enabled sc sel = (case sel of None \<Rightarrow> False | Some i \<Rightarrow> has_children sc i)"

definition double_click :: "scene \<Rightarrow> object_id \<Rightarrow> double_click_action" where
  "double_click sc i = (if has_children sc i then DrillInContainer else EditLeaf)"

definition object_selection_in_scope :: "scene \<Rightarrow> object_selection \<Rightarrow> object_id \<Rightarrow> bool" where
  "object_selection_in_scope sc sel container =
     (case sel of
        SelObject i \<Rightarrow> i = container \<or> Option.bind (scene_get sc i) o_parent = Some container
      | _ \<Rightarrow> False)"

section \<open>Containment\<close>

definition pop_out_op :: "scene \<Rightarrow> object_id \<Rightarrow> object_op option" where
  "pop_out_op sc i =
     Option.bind (scene_get sc i) (\<lambda>child.
     map_option (\<lambda>p. Reparent i (Option.bind (scene_get sc p) o_parent) (o_order child)) (o_parent child))"

text \<open>Paint order, ties by id; the sort is stable.\<close>

fun insert_by_paint :: "object \<Rightarrow> object list \<Rightarrow> object list" where
  "insert_by_paint x [] = [x]"
| "insert_by_paint x (y # ys) =
     (if o_order x < o_order y \<or> o_order x = o_order y \<and> o_id x \<le> o_id y then x # y # ys
      else y # insert_by_paint x ys)"

definition sort_by_paint :: "object list \<Rightarrow> object list" where
  "sort_by_paint obs = foldr insert_by_paint obs []"

definition union_aabb :: "world_aabb option \<Rightarrow> object \<Rightarrow> world_aabb option" where
  "union_aabb u m =
     (case object_world_aabb m of
        None \<Rightarrow> u
      | Some b \<Rightarrow>
          (case u of
             None \<Rightarrow> Some b
           | Some w \<Rightarrow> Some \<lparr>wa_min_x = f_min (wa_min_x w) (wa_min_x b), wa_min_y = f_min (wa_min_y w) (wa_min_y b),
               wa_max_x = f_max (wa_max_x w) (wa_max_x b), wa_max_y = f_max (wa_max_y w) (wa_max_y b)\<rparr>))"

definition group_frame :: "object_id \<Rightarrow> str \<Rightarrow> world_aabb \<Rightarrow> object" where
  "group_frame frame_id order w =
     (let width = f_sub (wa_max_x w) (wa_min_x w); height = f_sub (wa_max_y w) (wa_min_y w)
      in (object_new frame_id order (parsed_or_text (text_geometry (rect_path width height) NonZero)))
        \<lparr>o_transform := transform_translate (wa_min_x w) (wa_min_y w), o_clip := Some False,
         o_layout := Some \<lparr>ly_axis = (if f_le height width then Horizontal else Vertical), ly_lanes = LaneCount 1,
           ly_spacing = 0, ly_align = \<lparr>al_main = MainStart, al_cross = CrossStart\<rparr>\<rparr>\<rparr>)"

text \<open>The outer error is a panic of the key functions; \<open>ok()?\<close> turns another error into none.\<close>

definition group_ops :: "scene \<Rightarrow> object_id list \<Rightarrow> object_id \<Rightarrow> key_error + object_op list option" where
  "group_ops sc is frame_id =
     (let members = sort_by_paint (List.map_filter (scene_get sc) is) in
      if length (List.map_filter (scene_get sc) is) < 2 then Inr None
      else case foldl union_aabb None members of
        None \<Rightarrow> Inr None
      | Some w \<Rightarrow>
          and_then (next_order_key sc) (\<lambda>order.
          case generate_n_keys_between None None (length members) of
            Inl e \<Rightarrow> if is_panic e then Inl e else Inr None
          | Inr keys \<Rightarrow>
              Inr (Some (InsertObject (group_frame frame_id order w) #
                map (\<lambda>(m, k). Reparent (o_id m) (Some frame_id) k) (zip members keys)))))"

definition ungroup_ops :: "scene \<Rightarrow> object_id \<Rightarrow> object_op list option" where
  "ungroup_ops sc frame_id =
     map_option (\<lambda>frame.
       map (\<lambda>c. Reparent (o_id c) (o_parent frame) (o_order c))
         (sort_by_paint (filter (\<lambda>ob. o_parent ob = Some frame_id) (objects sc))) @ [Delete frame_id])
     (scene_get sc frame_id)"

section \<open>Laws of grouping\<close>

text \<open>
  Grouping and ungrouping applied: the containment forest before and after, and the stacking of
  the members of a group.
\<close>

section \<open>The sort\<close>

lemma insert_by_paint_mset: "mset (insert_by_paint x ys) = add_mset x (mset ys)"
  by (induction ys) auto

lemma sort_by_paint_mset: "mset (sort_by_paint obs) = mset obs"
  by (induction obs) (simp_all add: sort_by_paint_def insert_by_paint_mset)

lemma sort_by_paint_set [simp]: "set (sort_by_paint obs) = set obs"
  using sort_by_paint_mset by (metis set_mset_mset)

lemma sort_by_paint_length [simp]: "length (sort_by_paint obs) = length obs"
  using sort_by_paint_mset by (metis size_mset)

lemma sort_by_paint_ids: "distinct (map o_id obs) \<Longrightarrow> distinct (map o_id (sort_by_paint obs))"
  by (rule distinct_mset_eq[OF sort_by_paint_mset[symmetric]])

definition painted_before :: "object \<Rightarrow> object \<Rightarrow> bool" where
  "painted_before x y \<longleftrightarrow> o_order x < o_order y \<or> o_order x = o_order y \<and> o_id x \<le> o_id y"

lemma sort_by_paint_sorted: "sorted_wrt painted_before (sort_by_paint obs)"
proof (induction obs)
  case (Cons x obs)
  have "sorted_wrt painted_before (insert_by_paint x ys)" if "sorted_wrt painted_before ys" for ys
    using that
  proof (induction ys)
    case (Cons y ys)
    show ?case
    proof (cases "painted_before x y")
      case True
      then have "painted_before x z" if "z \<in> set (y # ys)" for z
        using Cons.prems that by (auto simp: painted_before_def)
      then show ?thesis using True Cons.prems by (simp add: painted_before_def)
    next
      case False
      then have yx: "painted_before y x" by (auto simp: painted_before_def)
      have "sorted_wrt painted_before (insert_by_paint x ys)" using Cons by simp
      moreover have "\<forall>z \<in> set (insert_by_paint x ys). painted_before y z"
        using Cons.prems yx insert_by_paint_mset[of x ys] by (metis insert_iff set_mset_add_mset_insert set_mset_mset sorted_wrt.simps(2))
      moreover have "insert_by_paint x (y # ys) = y # insert_by_paint x ys"
        using False unfolding painted_before_def insert_by_paint.simps by (rule if_not_P)
      ultimately show ?thesis by simp
    qed
  qed simp
  then show ?case using Cons by (simp add: sort_by_paint_def)
qed (simp add: sort_by_paint_def)

section \<open>Reparenting in sequence\<close>

lemma rtrancl_into_target:
  assumes "(p, x) \<in> (R \<union> A \<times> {p})\<^sup>*"
  shows "(p, x) \<in> R\<^sup>*"
  using assms
proof (induction rule: rtrancl_induct)
  case (step y z)
  then show ?case by (auto intro: rtrancl_into_rtrancl)
qed simp

text \<open>Reparenting below an object that is not below the moved one succeeds.\<close>

lemma reparent_get:
  assumes "distinct (ids sc)" "acyclic (parent_rel sc)" "scene_get sc i = Some ob"
    "\<And>p. q = Some p \<Longrightarrow> (p, i) \<notin> (parent_rel sc)\<^sup>*"
  shows "\<exists>sc' iv. apply_object_op lm sc (Reparent i q k) = (sc', Inr iv) \<and> ids sc' = ids sc \<and>
    scene_get sc' i = Some (ob\<lparr>o_parent := q, o_order := k\<rparr>) \<and> (\<forall>x. x \<noteq> i \<longrightarrow> scene_get sc' x = scene_get sc x) \<and>
    acyclic (parent_rel sc') \<and> parent_rel sc' \<subseteq> parent_rel sc \<union> {(i, p) | p. q = Some p}"
proof -
  obtain idx where idx: "index_of sc i = Some idx" "object_at sc idx = ob"
    using assms(3) by (cases "index_of sc i") (auto simp: scene_get_def find_position index_of_def object_at_def)
  let ?sc = "modify_at sc idx (\<lambda>ob. ob\<lparr>o_parent := q, o_order := k\<rparr>)"
  have free: "\<not> (case q of None \<Rightarrow> False | Some p \<Rightarrow> would_cycle sc i p)"
    using assms(4) would_cycle_iff[OF assms(1,2)] by (cases q) auto
  have "apply_object_op lm sc (Reparent i q k) =
      (with_version (scene_version ?sc + 1) ?sc, Inr (Reparent i (o_parent ob) (o_order ob)))"
    using idx free by (simp add: apply_object_op_def apply_reparent_def with_index_def modify_at_def with_version_def)
  moreover have "scene_get ?sc i = Some (ob\<lparr>o_parent := q, o_order := k\<rparr>)" using modify_get[OF idx(1)] idx(2) by simp
  moreover have "\<forall>x. x \<noteq> i \<longrightarrow> scene_get ?sc x = scene_get sc x" using modify_other[OF idx(1)] by simp
  moreover have "ids ?sc = ids sc" by (simp add: ids_modify_at)
  moreover have rel: "parent_rel ?sc \<subseteq> parent_rel sc \<union> {(i, p) | p. q = Some p}"
    using parent_rel_reparent[where sc = sc and idx = idx and parent = q and order = k] index_of_Some[OF idx(1)] by simp
  moreover have "acyclic (parent_rel sc \<union> {(i, p) | p. q = Some p})"
    using assms(2,4) by (cases q) (auto simp: acyclic_insert)
  then have "acyclic (parent_rel ?sc)" using acyclic_subset[OF _ rel] by blast
  moreover have "parent_rel (with_version v sc0) = parent_rel sc0" for v and sc0 :: scene
    by (simp add: parent_rel_def with_version_def)
  ultimately show ?thesis by simp
qed

lemma reparents_get:
  assumes "distinct (ids sc)" "acyclic (parent_rel sc)" "distinct (map fst iks)" "\<forall>i \<in> fst ` set iks. scene_get sc i \<noteq> None"
    "\<And>p i. q = Some p \<Longrightarrow> i \<in> fst ` set iks \<Longrightarrow> (p, i) \<notin> (parent_rel sc)\<^sup>*"
  shows "\<exists>sc'. apply_ops lm sc (map (\<lambda>(i, k). Reparent i q k) iks) = Some sc' \<and> ids sc' = ids sc \<and>
    acyclic (parent_rel sc') \<and>
    (\<forall>x. scene_get sc' x = (case map_of iks x of None \<Rightarrow> scene_get sc x
       | Some k \<Rightarrow> map_option (\<lambda>ob. ob\<lparr>o_parent := q, o_order := k\<rparr>) (scene_get sc x)))"
  using assms
proof (induction iks arbitrary: sc)
  case (Cons ik iks)
  obtain i k where ik: "ik = (i, k)" by (cases ik)
  obtain ob where ob: "scene_get sc i = Some ob" using Cons.prems(4) ik by auto
  obtain sc1 iv where s: "apply_object_op lm sc (Reparent i q k) = (sc1, Inr iv)" "ids sc1 = ids sc"
    "scene_get sc1 i = Some (ob\<lparr>o_parent := q, o_order := k\<rparr>)" "\<forall>x. x \<noteq> i \<longrightarrow> scene_get sc1 x = scene_get sc x"
    "acyclic (parent_rel sc1)" "parent_rel sc1 \<subseteq> parent_rel sc \<union> {(i, p) | p. q = Some p}"
    using reparent_get[OF Cons.prems(1,2) ob, of q lm k] Cons.prems(5)[of _ i] ik by auto
  have ne: "j \<noteq> i" if "j \<in> fst ` set iks" for j using Cons.prems(3) that by (auto simp: ik)
  have below: "(p, j) \<notin> (parent_rel sc1)\<^sup>*" if "q = Some p" "j \<in> fst ` set iks" for p j
  proof
    assume "(p, j) \<in> (parent_rel sc1)\<^sup>*"
    moreover have "parent_rel sc1 \<subseteq> parent_rel sc \<union> {i} \<times> {p}" using s(6) that(1) by auto
    ultimately have "(p, j) \<in> (parent_rel sc \<union> {i} \<times> {p})\<^sup>*" using rtrancl_mono by blast
    then have "(p, j) \<in> (parent_rel sc)\<^sup>*" by (rule rtrancl_into_target)
    then show False using Cons.prems(5) that by auto
  qed
  have live: "\<forall>j \<in> fst ` set iks. scene_get sc1 j \<noteq> None"
  proof
    fix j assume j: "j \<in> fst ` set iks"
    have "scene_get sc j \<noteq> None" using Cons.prems(4) j by auto
    then show "scene_get sc1 j \<noteq> None" using s(4) ne[OF j] by simp
  qed
  have "distinct (ids sc1)" "distinct (map fst iks)" using Cons.prems(1,3) s(2) by simp_all
  from Cons.IH[OF this(1) s(5) this(2) live below] obtain sc' where sc':
    "apply_ops lm sc1 (map (\<lambda>(i, k). Reparent i q k) iks) = Some sc'" "ids sc' = ids sc1"
    "acyclic (parent_rel sc')"
    "\<forall>x. scene_get sc' x = (case map_of iks x of None \<Rightarrow> scene_get sc1 x
       | Some k \<Rightarrow> map_option (\<lambda>ob. ob\<lparr>o_parent := q, o_order := k\<rparr>) (scene_get sc1 x))" by blast
  have "map_of iks i = None" using ne by (metis map_of_eq_None_iff)
  then have "scene_get sc' x = (case map_of (ik # iks) x of None \<Rightarrow> scene_get sc x
       | Some k \<Rightarrow> map_option (\<lambda>ob. ob\<lparr>o_parent := q, o_order := k\<rparr>) (scene_get sc x))" for x
    using sc'(4) s(3,4) ob by (cases "x = i"; cases "map_of iks x") (simp_all add: ik)
  then show ?case using s(1,2) sc'(1-3) by (simp add: ik)
qed simp

section \<open>Ungrouping\<close>

lemma delete_succeeds:
  assumes "scene_get sc i = Some ob"
  shows "\<exists>sc' iv. apply_object_op lm sc (Delete i) = (sc', Inr iv)"
proof -
  obtain idx where idx: "index_of sc i = Some idx"
    using assms by (cases "index_of sc i") (auto simp: scene_get_def find_position index_of_def)
  then show ?thesis by (simp add: apply_object_op_def apply_delete_def with_index_def Let_def)
qed

definition lifted :: "object_id \<Rightarrow> object_id option \<Rightarrow> object \<Rightarrow> object" where
  "lifted f q ob = (if o_parent ob = Some f then ob\<lparr>o_parent := q\<rparr> else ob)"

lemma ungroup_law:
  assumes "distinct (ids sc)" "acyclic (parent_rel sc)" "scene_get sc f = Some frame" "ungroup_ops sc f = Some ops"
  shows "\<exists>sc'. apply_ops lm sc ops = Some sc' \<and>
    (\<forall>x. scene_get sc' x = (if x = f then None
       else map_option (\<lambda>ob. prune_anchors f (lifted f (o_parent frame) ob)) (scene_get sc x)))"
proof -
  let ?cs = "sort_by_paint (filter (\<lambda>ob. o_parent ob = Some f) (objects sc))"
  let ?iks = "map (\<lambda>c. (o_id c, o_order c)) ?cs"
  have ops: "ops = map (\<lambda>(i, k). Reparent i (o_parent frame) k) ?iks @ [Delete f]"
    using assms(3,4) by (simp add: ungroup_ops_def comp_def)
  have fr: "frame \<in> set (objects sc)" "o_id frame = f" using scene_get_Some[OF assms(3)] by simp_all
  have child: "scene_get sc (o_id c) = Some c" "o_parent c = Some f" if "c \<in> set ?cs" for c
    using that scene_get_eq[OF assms(1), of c] by simp_all
  have dist: "distinct (map fst ?iks)"
    using assms(1) by (simp add: comp_def sort_by_paint_ids distinct_map_filter ids_def)
  have up: "(p, i) \<notin> (parent_rel sc)\<^sup>*" if u: "o_parent frame = Some p" "i \<in> fst ` set ?iks" for p i
  proof
    assume cyc: "(p, i) \<in> (parent_rel sc)\<^sup>*"
    obtain c where "c \<in> set ?cs" "o_id c = i" using u(2) by auto
    then have "(i, f) \<in> parent_rel sc" unfolding parent_rel_def by auto
    moreover have "(f, p) \<in> parent_rel sc" using fr u(1) by (auto simp: parent_rel_def)
    ultimately have "(f, f) \<in> (parent_rel sc)\<^sup>+" using cyc by (meson rtrancl_into_trancl2 trancl.trancl_into_trancl)
    then show False using assms(2) by (simp add: acyclic_def)
  qed
  have live: "\<forall>i \<in> fst ` set ?iks. scene_get sc i \<noteq> None"
  proof
    fix i assume "i \<in> fst ` set ?iks"
    then obtain c where "c \<in> set ?cs" "i = o_id c" by auto
    then show "scene_get sc i \<noteq> None" using child(1) by simp
  qed
  from reparents_get[OF assms(1,2) dist live up] obtain sc1 where sc1:
    "apply_ops lm sc (map (\<lambda>(i, k). Reparent i (o_parent frame) k) ?iks) = Some sc1" "ids sc1 = ids sc"
    "\<forall>x. scene_get sc1 x = (case map_of ?iks x of None \<Rightarrow> scene_get sc x
       | Some k \<Rightarrow> map_option (\<lambda>ob. ob\<lparr>o_parent := o_parent frame, o_order := k\<rparr>) (scene_get sc x))" by blast
  have get1: "scene_get sc1 x = map_option (lifted f (o_parent frame)) (scene_get sc x)" for x
  proof (cases "scene_get sc x")
    case None
    then show ?thesis using sc1(3) by (simp split: option.split)
  next
    case (Some ob)
    have ob: "ob \<in> set (objects sc)" "o_id ob = x" using scene_get_Some[OF Some] by simp_all
    show ?thesis
    proof (cases "o_parent ob = Some f")
      case True
      then have "(x, o_order ob) \<in> set ?iks" using ob by force
      then have "map_of ?iks x = Some (o_order ob)" using dist by simp
      then show ?thesis using sc1(3) Some True by (simp add: lifted_def)
    next
      case False
      have "map_of ?iks x = None"
      proof (rule ccontr)
        assume "map_of ?iks x \<noteq> None"
        then obtain k where "(x, k) \<in> set ?iks" by (auto dest: map_of_SomeD)
        then obtain c where "c \<in> set ?cs" "o_id c = x" by auto
        then have "scene_get sc x = Some c" "o_parent c = Some f" using child by blast+
        then show False using Some False by simp
      qed
      then show ?thesis using sc1(3) Some False by (simp add: lifted_def)
    qed
  qed
  have "scene_get sc1 f \<noteq> None" using get1 assms(3) by simp
  then obtain sc' iv where d: "apply_object_op lm sc1 (Delete f) = (sc', Inr iv)" using delete_succeeds by blast
  have "distinct (ids sc1)" using assms(1) sc1(2) by simp
  note del = public_delete[OF d this]
  have "apply_ops lm sc ops = Some sc'" using sc1(1) d by (simp add: ops apply_ops_append)
  then show ?thesis using del get1 by (simp add: option.map_comp comp_def)
qed

section \<open>Grouping\<close>

lemma rect_path_parsed:
  "parsed_or_text (text_geometry (rect_path w h) r) =
     geometry_from_subpaths [\<lparr>sp_closed = True, sp_nodes =
       [corner 0 0, corner (q_units w) 0, corner (q_units w) (q_units h), corner 0 (q_units h)]\<rparr>] r"
proof -
  let ?sps = "[\<lparr>sp_closed = True, sp_nodes =
    [corner 0 0, corner (q_units w) 0, corner (q_units w) (q_units h), corner 0 (q_units h)]\<rparr>]"
  have "show_i32 0 = ''0''" by code_simp
  then have "rect_path w h = serialize ?sps"
    by (simp add: rect_path_def serialize_def emit_segment_def emit_closing_def corner_def Let_def)
  moreover have "parse_path (serialize ?sps) = Inr ?sps"
    by (rule parse_serialize_canonical) (simp_all add: canonical_def corner_def drawable_def min_nodes_def)
  ultimately show ?thesis
    by (simp add: parsed_or_text_def text_geometry_def geometry_parse_def geometry_from_subpaths_def)
qed

lemma group_frame_ok: "geometry_ok (o_geometry (group_frame i k w))" "o_id (group_frame i k w) = i"
  "o_parent (group_frame i k w) = None" "o_order (group_frame i k w) = k"
  unfolding group_frame_def Let_def rect_path_parsed
  by (simp_all add: object_new_def geometry_from_subpaths_ok canonical_def corner_def drawable_def min_nodes_def)

lemma map_of_strict:
  assumes "length ks = length ms" "distinct (map o_id ms)" "sorted_wrt painted_before ms" "sorted_wrt (<) (ks :: str list)"
    "a \<in> set ms" "b \<in> set ms" "\<not> painted_before b a"
  shows "the (map_of (zip (map o_id ms) ks) (o_id a)) < the (map_of (zip (map o_id ms) ks) (o_id b))"
proof -
  obtain i j where i: "i < length ms" "ms ! i = a" and j: "j < length ms" "ms ! j = b"
    using assms(5,6) by (meson in_set_conv_nth)
  have key: "map_of (zip (map o_id ms) ks) (o_id (ms ! n)) = Some (ks ! n)" if "n < length ms" for n
    using map_of_zip_nth[of "map o_id ms" ks n] assms(1,2) that by simp
  have "\<not> j < i" using sorted_wrt_nth_less[OF assms(3), of j i] i j assms(7) by auto
  moreover have "i \<noteq> j" using i j assms(7) by (auto simp: painted_before_def)
  ultimately have "ks ! i < ks ! j" using sorted_wrt_nth_less[OF assms(4), of i j] j assms(1) by simp
  then show ?thesis using key[OF i(1)] key[OF j(1)] i j by simp
qed

lemma members_of:
  assumes "distinct (ids sc)" "distinct is"
  shows "distinct (map o_id (List.map_filter (scene_get sc) is))"
    "set (List.map_filter (scene_get sc) is) = {ob. o_id ob \<in> set is \<and> scene_get sc (o_id ob) = Some ob}"
proof -
  have mem: "set (List.map_filter (scene_get sc) js) = {ob. o_id ob \<in> set js \<and> scene_get sc (o_id ob) = Some ob}" for js
  proof (induction js)
    case (Cons i js)
    show ?case
    proof (cases "scene_get sc i")
      case None
      then have "(o_id x = i \<or> o_id x \<in> A) \<and> scene_get sc (o_id x) = Some x \<longleftrightarrow>
          o_id x \<in> A \<and> scene_get sc (o_id x) = Some x" for x A by (cases "o_id x = i") simp_all
      moreover have "set (List.map_filter (scene_get sc) (i # js)) = set (List.map_filter (scene_get sc) js)"
        by (simp add: List.map_filter_simps None)
      ultimately show ?thesis unfolding Cons.IH by (simp only: insert_iff list.set)
    next
      case (Some ob)
      then have oid: "o_id ob = i" using scene_get_Some by blast
      have "x = ob \<longleftrightarrow> o_id x = i \<and> scene_get sc (o_id x) = Some x" for x
      proof (cases "o_id x = i")
        case True
        then show ?thesis unfolding True Some by (simp add: eq_commute)
      next
        case False
        then show ?thesis using oid by blast
      qed
      moreover have "set (List.map_filter (scene_get sc) (i # js)) = insert ob (set (List.map_filter (scene_get sc) js))"
        by (simp add: List.map_filter_simps Some)
      ultimately show ?thesis unfolding Cons.IH by (intro set_eqI) (simp only: insert_iff mem_Collect_eq list.set, blast)
    qed
  qed (simp add: List.map_filter_simps)
  then show "set (List.map_filter (scene_get sc) is) = {ob. o_id ob \<in> set is \<and> scene_get sc (o_id ob) = Some ob}" .
  show "distinct (map o_id (List.map_filter (scene_get sc) is))" using assms(2)
  proof (induction "is")
    case (Cons i js)
    show ?case
    proof (cases "scene_get sc i")
      case None
      then show ?thesis using Cons by (simp add: List.map_filter_simps)
    next
      case (Some ob)
      then have "o_id ob = i" using scene_get_Some by blast
      then have "o_id ob \<notin> o_id ` set (List.map_filter (scene_get sc) js)" unfolding mem using Cons.prems by auto
      then show ?thesis using Cons by (simp add: List.map_filter_simps Some)
    qed
  qed (simp add: List.map_filter_simps)
qed

lemma zip_reparents:
  "map (\<lambda>(m, k). Reparent (o_id m) q k) (zip ms ks) = map (\<lambda>(i, k). Reparent i q k) (zip (map o_id ms) ks)"
  by (simp add: zip_map1 case_prod_beta)

lemma find_append: "List.find P (xs @ ys) = (case List.find P xs of None \<Rightarrow> List.find P ys | Some x \<Rightarrow> Some x)"
  by (induction xs) simp_all

lemma frame_inserted:
  fixes k :: str and w :: world_aabb
  assumes "\<not> has_object sc f"
  defines "fr \<equiv> group_frame f k (w :: world_aabb)"
  defines "sc1 \<equiv> sc\<lparr>objects := objects sc @ [fr], scene_version := scene_version sc + 1\<rparr>"
  shows "apply_object_op lm sc (InsertObject fr) = (sc1, Inr (Delete f))"
    "scene_get sc1 x = (if x = f then Some fr else scene_get sc x)" "parent_rel sc1 = parent_rel sc"
    "distinct (ids sc) \<Longrightarrow> distinct (ids sc1)"
proof -
  have new: "\<not> has_object sc (o_id fr)" using assms(1) by (simp add: fr_def group_frame_ok)
  show "apply_object_op lm sc (InsertObject fr) = (sc1, Inr (Delete f))"
    using insert_succeeds[OF group_frame_ok(1)[of f k w, folded fr_def] new] by (simp add: sc1_def fr_def group_frame_ok)
  have "scene_get sc f = None" using assms(1) by (auto simp: scene_get_def has_object_def find_None_iff)
  then show "scene_get sc1 x = (if x = f then Some fr else scene_get sc x)"
    by (auto simp: sc1_def scene_get_def fr_def group_frame_ok find_append split: option.split)
  show "parent_rel sc1 = parent_rel sc" by (auto simp: sc1_def parent_rel_def fr_def group_frame_ok)
  show "distinct (ids sc) \<Longrightarrow> distinct (ids sc1)"
    using assms(1) by (auto simp: sc1_def ids_def fr_def group_frame_ok has_object_def)
qed

text \<open>The members of a group: below the frame, with keys of their own in the paint order.\<close>

definition grouped :: "object_id \<Rightarrow> object_id set \<Rightarrow> (object_id \<Rightarrow> str) \<Rightarrow> object \<Rightarrow> object" where
  "grouped f is key ob = (if o_id ob \<in> is then ob\<lparr>o_parent := Some f, o_order := key (o_id ob)\<rparr> else ob)"

lemma group_law:
  assumes "distinct (ids sc)" "acyclic (parent_rel sc)" "distinct is" "\<not> has_object sc f"
    "group_ops sc is f = Inr (Some ops)"
  shows "\<exists>sc' frame key. apply_ops lm sc ops = Some sc' \<and> scene_get sc' f = Some frame \<and> o_parent frame = None \<and>
    next_order_key sc = Inr (o_order frame) \<and> distinct (ids sc') \<and> acyclic (parent_rel sc') \<and>
    (\<forall>x. x \<noteq> f \<longrightarrow> scene_get sc' x = map_option (grouped f (set is) key) (scene_get sc x)) \<and>
    (\<forall>a b. {o_id a, o_id b} \<subseteq> set is \<and> scene_get sc (o_id a) = Some a \<and> scene_get sc (o_id b) = Some b \<and>
       \<not> painted_before b a \<longrightarrow> key (o_id a) < key (o_id b))"
proof -
  let ?ms = "sort_by_paint (List.map_filter (scene_get sc) is)"
  obtain w k ks where k: "next_order_key sc = Inr k" "generate_n_keys_between None None (length ?ms) = Inr ks"
    and ops: "ops = InsertObject (group_frame f k w) # map (\<lambda>(m, k). Reparent (o_id m) (Some f) k) (zip ?ms ks)"
    using assms(5) unfolding group_ops_def Let_def
    by (cases "generate_n_keys_between None None (length ?ms)"; cases "next_order_key sc";
        cases "foldl union_aabb None ?ms") (auto split: if_splits)
  let ?iks = "zip (map o_id ?ms) ks"
  note members = members_of[OF assms(1,3)]
  have run: "length ks = length ?ms" "sorted_wrt (<) ks" using generate_n_keys_run[OF k(2)] by (simp_all add: run_of_keys_def)
  note fr = frame_inserted(1)[OF assms(4), where lm = lm and k = k and w = w] frame_inserted(2-4)[OF assms(4), of k w]
  let ?sc1 = "sc\<lparr>objects := objects sc @ [group_frame f k w], scene_version := scene_version sc + 1\<rparr>"
  have dom: "fst ` set ?iks = set (map o_id ?ms)" using run(1) by (metis length_map map_fst_zip set_map)
  have dist: "distinct (map fst ?iks)" using run(1) members(1) by (simp add: sort_by_paint_ids)
  have mem: "scene_get sc i \<noteq> None \<and> i \<in> set is" if "i \<in> fst ` set ?iks" for i
    using that members(2) unfolding dom by auto
  have old: "scene_get sc f = None" using assms(4) by (auto simp: scene_get_def has_object_def find_None_iff)
  have live: "\<forall>i \<in> fst ` set ?iks. scene_get ?sc1 i \<noteq> None" using mem old by (auto simp: fr(2))
  have up: "(p, i) \<notin> (parent_rel ?sc1)\<^sup>*" if fp: "Some f = Some p" "i \<in> fst ` set ?iks" for p i
  proof
    assume "(p, i) \<in> (parent_rel ?sc1)\<^sup>*"
    moreover have "p \<noteq> i" using mem[OF fp(2)] old fp(1) by blast
    ultimately obtain z where "(p, z) \<in> parent_rel ?sc1" by (blast elim: converse_rtranclE)
    then have "(f, z) \<in> parent_rel ?sc1" using fp(1) by simp
    then have "(f, z) \<in> parent_rel sc" unfolding fr(3) .
    then show False using assms(4) by (auto simp: parent_rel_def has_object_def)
  qed
  have "acyclic (parent_rel ?sc1)" unfolding fr(3) by (rule assms(2))
  from reparents_get[OF fr(4)[OF assms(1)] this dist live up] obtain sc' where sc':
    "apply_ops lm ?sc1 (map (\<lambda>(i, k). Reparent i (Some f) k) ?iks) = Some sc'"
    "ids sc' = ids ?sc1" "acyclic (parent_rel sc')"
    "\<forall>x. scene_get sc' x = (case map_of ?iks x of None \<Rightarrow> scene_get ?sc1 x
       | Some k \<Rightarrow> map_option (\<lambda>ob. ob\<lparr>o_parent := Some f, o_order := k\<rparr>) (scene_get ?sc1 x))" by blast
  let ?key = "\<lambda>x. the (map_of ?iks x)"
  have "apply_ops lm sc ops = Some sc'" using sc'(1) fr(1) by (simp add: ops zip_reparents)
  moreover have "map_of ?iks f = None" using mem old by (metis map_of_eq_None_iff)
  then have "scene_get sc' f = Some (group_frame f k w)" using sc'(4) by (simp add: fr(2))
  moreover have "scene_get sc' x = map_option (grouped f (set is) ?key) (scene_get sc x)" if "x \<noteq> f" for x
  proof (cases "map_of ?iks x")
    case None
    then have "x \<notin> set is \<or> scene_get sc x = None"
      using members(2) scene_get_Some by (fastforce simp: dom map_of_eq_None_iff)
    then show ?thesis using sc'(4) None that scene_get_Some
      by (cases "scene_get sc x") (auto simp: fr(2) grouped_def)
  next
    case (Some v)
    then have "x \<in> set is" using mem by (metis map_of_eq_None_iff option.distinct(1))
    then show ?thesis using sc'(4) Some that scene_get_Some
      by (cases "scene_get sc x") (auto simp: fr(2) grouped_def)
  qed
  moreover have "?key (o_id a) < ?key (o_id b)" if "{o_id a, o_id b} \<subseteq> set is" "scene_get sc (o_id a) = Some a"
    "scene_get sc (o_id b) = Some b" "\<not> painted_before b a" for a b
  proof (rule map_of_strict)
    show "a \<in> set ?ms" "b \<in> set ?ms" using that members(2) by simp_all
  qed (use run members(1) that in \<open>simp_all add: sort_by_paint_ids sort_by_paint_sorted\<close>)
  moreover have "distinct (ids sc')" using fr(4)[OF assms(1)] sc'(2) by simp
  ultimately show ?thesis using k(1) sc'(3) by (intro exI[of _ sc'] exI[of _ "group_frame f k w"] exI[of _ ?key]) (simp add: group_frame_ok)
qed

text \<open>Grouping and ungrouping again changes the order keys of the members only.\<close>

lemma group_ungroup_law:
  assumes "distinct (ids sc)" "acyclic (parent_rel sc)" "distinct is" "\<not> has_object sc f"
    "group_ops sc is f = Inr (Some ops)" "\<forall>ob \<in> set (objects sc). o_parent ob \<noteq> Some f \<and> \<not> anchors_to f ob"
    "\<forall>ob \<in> set (objects sc). o_id ob \<in> set is \<longrightarrow> o_parent ob = None"
  shows "\<exists>sc1 back_ops sc2 key. apply_ops lm sc ops = Some sc1 \<and> ungroup_ops sc1 f = Some back_ops \<and>
    apply_ops lm sc1 back_ops = Some sc2 \<and>
    (\<forall>x. scene_get sc2 x = map_option (\<lambda>ob. if x \<in> set is then ob\<lparr>o_order := key x\<rparr> else ob) (scene_get sc x))"
proof -
  obtain sc1 frame key where sc1: "apply_ops lm sc ops = Some sc1" "scene_get sc1 f = Some frame" "o_parent frame = None"
    "distinct (ids sc1)" "acyclic (parent_rel sc1)"
    "\<forall>x. x \<noteq> f \<longrightarrow> scene_get sc1 x = map_option (grouped f (set is) key) (scene_get sc x)"
    using group_law[OF assms(1-5)] by blast
  obtain bops where bops: "ungroup_ops sc1 f = Some bops" using sc1(2) by (auto simp: ungroup_ops_def)
  obtain sc2 where sc2: "apply_ops lm sc1 bops = Some sc2" "\<forall>x. scene_get sc2 x = (if x = f then None
      else map_option (\<lambda>ob. prune_anchors f (lifted f (o_parent frame) ob)) (scene_get sc1 x))"
    using ungroup_law[OF sc1(4,5,2) bops] by blast
  have "scene_get sc2 x = map_option (\<lambda>ob. if x \<in> set is then ob\<lparr>o_order := key x\<rparr> else ob) (scene_get sc x)" for x
  proof (cases "scene_get sc x")
    case None
    then show ?thesis using sc1(6) sc2(2) by (cases "x = f") simp_all
  next
    case (Some ob)
    then have ob: "ob \<in> set (objects sc)" "o_id ob = x" using scene_get_Some[of sc x ob] by blast+
    then have "x \<noteq> f" using assms(4) by (auto simp: has_object_def)
    have "o_parent ob \<noteq> Some f" "\<not> anchors_to f ob" "x \<in> set is \<longrightarrow> o_parent ob = None" using ob assms(6,7) by blast+
    moreover have "prune_anchors f ob' = ob'" if "o_anchors ob' = o_anchors ob" for ob' :: object
      using that \<open>\<not> anchors_to f ob\<close> by (simp add: prune_anchors_def anchors_to_def)
    moreover have "ob\<lparr>o_order := k, o_parent := None\<rparr> = ob\<lparr>o_order := k\<rparr>" if "o_parent ob = None" for k
      using that by (cases ob) simp
    ultimately show ?thesis using sc2(2) sc1(3,6) \<open>x \<noteq> f\<close> Some ob(2) by (simp add: lifted_def grouped_def)
  qed
  then show ?thesis using sc1(1) bops sc2(1) by blast
qed

end
