(* ===== verification/LayoutSolve.thy ===== *)
theory LayoutSolve
  imports Grouping
begin

text \<open>
  The flow layout of a container: \<open>binding/layout_solve.rs\<close>. The result is derived, one
  transform per child; nothing of the scene changes. The deriver of outlines is the argument
  \<open>dr\<close>, a trait object in the code. A half-open range of children is a pair.
\<close>

definition to_px :: "i32 \<Rightarrow> f64" where
  "to_px q = f_div (f_of_i32 q) units_per_px"

record child_box =
  cb_id :: object_id
  cb_main :: f64
  cb_cross :: f64
  cb_obb_main :: f64
  cb_obb_cross :: f64
  cb_offset_main :: f64
  cb_offset_cross :: f64
  cb_main_fill :: bool
  cb_cross_fill :: bool
  cb_linear :: transform

fun linear_only :: "transform \<Rightarrow> transform" where
  "linear_only ((a, b, c), (d, e, f), r) = ((a, b, 0), (d, e, 0), r)"

section \<open>Extents\<close>

type_synonym extents = "f64 \<times> f64 \<times> f64 \<times> f64"

definition bounds_px :: "local_bounds \<Rightarrow> extents" where
  "bounds_px b = (to_px (lb_min_x b), to_px (lb_min_y b), to_px (lb_max_x b), to_px (lb_max_y b))"

fun grow_extent :: "affine \<Rightarrow> point \<Rightarrow> point \<Rightarrow> extents \<Rightarrow> extents" where
  "grow_extent a (ox, oy) (lx, ly) (x_lo, x_hi, y_lo, y_hi) =
     (let (wx, wy) = apply_affine a lx ly; rx = f_sub wx ox; ry = f_sub wy oy
      in (f_min x_lo rx, f_max x_hi rx, f_min y_lo ry, f_max y_hi ry))"

fun obb_extent :: "object \<Rightarrow> layout_axis \<Rightarrow> extents \<Rightarrow> extents" where
  "obb_extent ob axis (min_x, min_y, max_x, max_y) =
     (let a = affine_of (o_transform ob); origin = apply_affine a 0 0;
          (x_lo, x_hi, y_lo, y_hi) = fold (grow_extent a origin)
            [(min_x, min_y), (max_x, min_y), (max_x, max_y), (min_x, max_y)]
            (f_inf False, f_inf True, f_inf False, f_inf True)
      in case axis of Horizontal \<Rightarrow> (x_lo, x_hi, y_lo, y_hi) | Vertical \<Rightarrow> (y_lo, y_hi, x_lo, x_hi))"

definition sizing_of :: "object \<Rightarrow> sizing" where
  "sizing_of ob = (case o_sizing ob of Some s \<Rightarrow> s | None \<Rightarrow> \<lparr>sz_w = Hug, sz_h = Hug\<rparr>)"

definition main_cross :: "layout_axis \<Rightarrow> sizing \<Rightarrow> axis_sizing \<times> axis_sizing" where
  "main_cross axis s = (case axis of Horizontal \<Rightarrow> (sz_w s, sz_h s) | Vertical \<Rightarrow> (sz_h s, sz_w s))"

fun resolve_extent :: "axis_sizing \<Rightarrow> f64 \<Rightarrow> f64 \<times> bool" where
  "resolve_extent Hug intrinsic = (intrinsic, False)"
| "resolve_extent (Fixed v) intrinsic = (f_max (to_px v) 0, False)"
| "resolve_extent FillAxis intrinsic = (intrinsic, True)"

definition child_box_of :: "(geometry \<Rightarrow> region_error + derived_region) \<Rightarrow> layout_axis \<Rightarrow> object \<Rightarrow> child_box option" where
  "child_box_of dr axis ob =
     (case dr (o_geometry ob) of
        Inl _ \<Rightarrow> None
      | Inr r \<Rightarrow>
          (let (m_lo, m_hi, c_lo, c_hi) = obb_extent ob axis (bounds_px (rg_bounds r));
               obb_main = f_sub m_hi m_lo; obb_cross = f_sub c_hi c_lo;
               (s_main, s_cross) = main_cross axis (sizing_of ob);
               (main, main_fill) = resolve_extent s_main obb_main;
               (cross, cross_fill) = resolve_extent s_cross obb_cross
           in Some \<lparr>cb_id = o_id ob, cb_main = main, cb_cross = cross, cb_obb_main = obb_main,
                cb_obb_cross = obb_cross, cb_offset_main = m_lo, cb_offset_cross = c_lo,
                cb_main_fill = main_fill, cb_cross_fill = cross_fill, cb_linear = linear_only (o_transform ob)\<rparr>))"

section \<open>Lines\<close>

text \<open>The block length is positive whenever a child is left, see \<open>break_into_lines\<close>.\<close>

function block_lines :: "nat \<Rightarrow> nat \<Rightarrow> nat \<Rightarrow> (nat \<times> nat) list" where
  "block_lines per start n =
     (if start < n \<and> 0 < per then (start, min (start + per) n) # block_lines per (min (start + per) n) n else [])"
  by pat_completeness auto

termination by (relation "measure (\<lambda>(per, start, n). n - start)") auto

declare block_lines.simps [simp del]

fun wrap_lines :: "f64 \<Rightarrow> f64 \<Rightarrow> f64 list \<Rightarrow> nat \<Rightarrow> nat \<Rightarrow> f64 \<Rightarrow> (nat \<times> nat) list" where
  "wrap_lines limit spacing [] i start used = [(start, i)]"
| "wrap_lines limit spacing (w # ws) i start used =
     (let add = (if i = start then w else f_add spacing w) in
      if start < i \<and> f_lt limit (f_add used add)
      then (start, i) # wrap_lines limit spacing ws (Suc i) i w
      else wrap_lines limit spacing ws (Suc i) start (f_add used add))"

definition div_ceil :: "nat \<Rightarrow> nat \<Rightarrow> nat" where
  "div_ceil n d = (n + d - 1) div d"

definition break_into_lines :: "child_box list \<Rightarrow> layout \<Rightarrow> f64 option \<Rightarrow> f64 \<Rightarrow> (nat \<times> nat) list" where
  "break_into_lines boxes ly pinned spacing =
     (case ly_lanes ly of
        LaneCount v \<Rightarrow>
          (let tracks = max (unat v) 1 in
           if tracks \<le> 1 then [(0, length boxes)]
           else block_lines (div_ceil (length boxes) tracks) 0 (length boxes))
      | LaneFill \<Rightarrow>
          (case pinned of
             None \<Rightarrow> [(0, length boxes)]
           | Some limit \<Rightarrow> wrap_lines limit spacing (map cb_main boxes) 0 0 0))"

section \<open>Placement\<close>

definition range_of :: "nat \<times> nat \<Rightarrow> 'a list \<Rightarrow> 'a list" where
  "range_of ln xs = take (snd ln - fst ln) (drop (fst ln) xs)"

definition f_sum :: "f64 list \<Rightarrow> f64" where
  "f_sum xs = foldl f_add 0 xs"

definition gaps_of :: "f64 \<Rightarrow> nat \<Rightarrow> f64" where
  "gaps_of spacing n = f_mul spacing (f_of_int (int (n - 1)))"

definition fixed_main :: "child_box list \<Rightarrow> f64" where
  "fixed_main bs = f_sum (map cb_main (filter (\<lambda>b. \<not> cb_main_fill b) bs))"

definition content_main :: "child_box list \<Rightarrow> (nat \<times> nat) list \<Rightarrow> f64 \<Rightarrow> f64" where
  "content_main boxes lines spacing =
     foldl (\<lambda>acc ln. if fst ln = snd ln then acc
         else f_max acc (f_add (fixed_main (range_of ln boxes)) (gaps_of spacing (snd ln - fst ln))))
       0 lines"

definition grow_line :: "child_box list \<Rightarrow> f64 \<Rightarrow> f64 \<Rightarrow> nat \<times> nat \<Rightarrow> f64 list \<Rightarrow> f64 list" where
  "grow_line boxes line_main spacing ln sizes =
     (let bs = range_of ln boxes; fills = length (filter cb_main_fill bs) in
      if fst ln = snd ln \<or> fills = 0 then sizes
      else
        let leftover = f_max (f_sub (f_sub line_main (fixed_main bs)) (gaps_of spacing (snd ln - fst ln))) 0;
            share = f_div leftover (f_of_int (int fills))
        in map (\<lambda>(i, b, slot). if fst ln \<le> i \<and> i < snd ln \<and> cb_main_fill b then f_max share (cb_obb_main b) else slot)
             (zip [0..<length boxes] (zip boxes sizes)))"

definition half :: "f64 \<Rightarrow> f64" where
  "half x = f_div x (f_of_int 2)"

definition main_start :: "layout \<Rightarrow> bool \<Rightarrow> nat \<Rightarrow> f64 \<Rightarrow> f64 \<Rightarrow> f64 \<times> f64" where
  "main_start ly pinned n spacing free =
     (case al_main (ly_align ly) of
        MainStart \<Rightarrow> (spacing, spacing)
      | MainCenter \<Rightarrow> (f_add spacing (half free), spacing)
      | MainEnd \<Rightarrow> (f_add spacing free, spacing)
      | SpaceBetween \<Rightarrow>
          if pinned \<and> 1 < n \<and> f_lt 0 free then (spacing, f_add spacing (f_div free (f_of_int (int (n - 1)))))
          else (spacing, spacing))"

definition stretches :: "layout \<Rightarrow> child_box \<Rightarrow> bool" where
  "stretches ly b \<longleftrightarrow> al_cross (ly_align ly) = Stretch \<or> cb_cross_fill b"

definition band_cross :: "layout \<Rightarrow> child_box list \<Rightarrow> f64" where
  "band_cross ly bs =
     (let banded = foldl f_max 0 (map cb_cross (filter (\<lambda>b. \<not> stretches ly b) bs))
      in if f_lt 0 banded then banded else foldl f_max 0 (map cb_obb_cross bs))"

definition slot_epsilon :: f64 where "slot_epsilon = 0x3E112E0BE826D695"  \<comment> \<open>1e-9\<close>

definition place_child :: "layout \<Rightarrow> f64 \<Rightarrow> f64 \<Rightarrow> f64 \<Rightarrow> child_box \<Rightarrow> f64 \<Rightarrow> object_id \<times> transform" where
  "place_child ly band main_pos cross_cursor child extent =
     (let cross_target = (if stretches ly child then band else cb_cross child);
          free_cross = f_max (f_sub band cross_target) 0;
          cross_within = (case al_cross (ly_align ly) of
            CrossStart \<Rightarrow> 0 | Stretch \<Rightarrow> 0 | CrossCenter \<Rightarrow> half free_cross | CrossEnd \<Rightarrow> free_cross);
          cross_pos = f_add cross_cursor cross_within;
          resized = (cb_main_fill child \<or> f_lt slot_epsilon (f_abs (f_sub extent (cb_obb_main child)))) \<and>
            f_lt slot_epsilon (cb_obb_main child);
          k = (if resized then f_div extent (cb_obb_main child) else f_one);
          resized_cross = f_lt slot_epsilon (f_abs (f_sub cross_target (cb_obb_cross child))) \<and>
            f_lt slot_epsilon (cb_obb_cross child);
          k_cross = (if resized_cross then f_div cross_target (cb_obb_cross child) else f_one);
          scale = (case ly_axis ly of
            Horizontal \<Rightarrow> ((k, 0, 0), (0, k_cross, 0), (0, 0, f_one))
          | Vertical \<Rightarrow> ((k_cross, 0, 0), (0, k, 0), (0, 0, f_one)));
          main_origin = f_sub main_pos (f_mul (cb_offset_main child) k);
          cross_origin = f_sub cross_pos (f_mul (cb_offset_cross child) k_cross);
          (tx, ty) = (case ly_axis ly of
            Horizontal \<Rightarrow> (main_origin, cross_origin) | Vertical \<Rightarrow> (cross_origin, main_origin))
      in (cb_id child, transform_mul (transform_translate tx ty) (transform_mul scale (cb_linear child))))"

fun place_children :: "layout \<Rightarrow> f64 \<Rightarrow> f64 \<Rightarrow> f64 \<Rightarrow> f64 \<Rightarrow> (child_box \<times> f64) list \<Rightarrow> (object_id \<times> transform) list" where
  "place_children ly band between cross_cursor cursor [] = []"
| "place_children ly band between cross_cursor cursor ((b, extent) # rest) =
     place_child ly band cursor cross_cursor b extent #
     place_children ly band between cross_cursor (f_add cursor (f_add extent between)) rest"

fun place_from :: "child_box list \<Rightarrow> f64 list \<Rightarrow> layout \<Rightarrow> bool \<Rightarrow> f64 \<Rightarrow> f64 \<Rightarrow> f64 \<Rightarrow> (nat \<times> nat) list \<Rightarrow>
    (object_id \<times> transform) list" where
  "place_from boxes sizes ly pinned line_main spacing cross_cursor [] = []"
| "place_from boxes sizes ly pinned line_main spacing cross_cursor (ln # lines) =
     (if fst ln = snd ln then place_from boxes sizes ly pinned line_main spacing cross_cursor lines
      else
        let n = snd ln - fst ln; bs = range_of ln boxes; ss = range_of ln sizes;
            used = f_add (f_sum ss) (gaps_of spacing n);
            free = f_max (f_sub line_main used) 0;
            (cursor, between) = main_start ly pinned n spacing free;
            band = band_cross ly bs
        in place_children ly band between cross_cursor cursor (zip bs ss) @
           place_from boxes sizes ly pinned line_main spacing (f_add cross_cursor (f_add band spacing)) lines)"

definition place_lines :: "child_box list \<Rightarrow> (nat \<times> nat) list \<Rightarrow> layout \<Rightarrow> f64 option \<Rightarrow> f64 \<Rightarrow>
    (object_id \<times> transform) list" where
  "place_lines boxes lines ly pinned spacing =
     (let line_main = (case pinned of Some m \<Rightarrow> m | None \<Rightarrow> content_main boxes lines spacing);
          sizes = fold (grow_line boxes line_main spacing) lines (map cb_main boxes)
      in place_from boxes sizes ly (pinned \<noteq> None) line_main spacing spacing lines)"

section \<open>The solve\<close>

definition container_pin :: "(geometry \<Rightarrow> region_error + derived_region) \<Rightarrow> object \<Rightarrow> layout_axis \<Rightarrow> f64 \<Rightarrow> f64 option" where
  "container_pin dr container axis spacing =
     (let inset = (\<lambda>m. f_max (f_sub m (f_mul (f_of_int 2) spacing)) 0) in
      case fst (main_cross axis (sizing_of container)) of
        Fixed v \<Rightarrow> Some (inset (to_px v))
      | _ \<Rightarrow>
          (case dr (o_geometry container) of
             Inl _ \<Rightarrow> None
           | Inr r \<Rightarrow> (case obb_extent container axis (bounds_px (rg_bounds r)) of
               (lo, hi, _) \<Rightarrow> Some (inset (f_sub hi lo)))))"

definition laid_out :: "(geometry \<Rightarrow> region_error + derived_region) \<Rightarrow> scene \<Rightarrow> object_id \<Rightarrow> object list" where
  "laid_out dr sc gid = sort_by_paint
     (filter (\<lambda>ob. o_parent ob = Some gid \<and> (\<exists>r. dr (o_geometry ob) = Inr r)) (objects sc))"

definition solve_layout :: "(geometry \<Rightarrow> region_error + derived_region) \<Rightarrow> scene \<Rightarrow> object_id \<Rightarrow>
    (object_id \<times> transform) list" where
  "solve_layout dr sc gid =
     (case scene_get sc gid of
        None \<Rightarrow> []
      | Some container \<Rightarrow>
          (case o_layout container of
             None \<Rightarrow> []
           | Some ly \<Rightarrow>
               (let spacing = to_px (ly_spacing ly);
                    boxes = List.map_filter (child_box_of dr (ly_axis ly)) (laid_out dr sc gid)
                in if boxes = [] then []
                   else
                     let pinned = container_pin dr container (ly_axis ly) spacing
                     in place_lines boxes (break_into_lines boxes ly pinned spacing) ly pinned spacing)))"

section \<open>Laws of the solver\<close>

text \<open>
  The lines of a layout cut the children into consecutive runs, and every child is placed once,
  in paint order.
\<close>

definition indices :: "(nat \<times> nat) list \<Rightarrow> nat list" where
  "indices lines = concat (map (\<lambda>(s, e). [s..<e]) lines)"

lemma indices_Cons [simp]: "indices [] = []" "indices (ln # lines) = [fst ln..<snd ln] @ indices lines"
  by (simp_all add: indices_def split_beta)

section \<open>Lines\<close>

lemma upt_join: "i \<le> j \<Longrightarrow> j \<le> k \<Longrightarrow> [i..<j] @ [j..<k] = [i..<k]"
  using upt_add_eq_append[of i j "k - j"] by simp

definition within :: "nat \<Rightarrow> (nat \<times> nat) list \<Rightarrow> bool" where
  "within n lines \<longleftrightarrow> (\<forall>ln \<in> set lines. snd ln \<le> n)"

lemma within_block: "within n (block_lines per start n)"
proof (induction per start n rule: block_lines.induct)
  case (1 per start n)
  then show ?case by (subst block_lines.simps) (fastforce simp: within_def)
qed

lemma within_wrap: "within (i + length ws) (wrap_lines limit spacing ws i start used)"
proof (induction limit spacing ws i start used rule: wrap_lines.induct)
  case (2 limit spacing w ws i start used)
  then show ?case by (auto simp: Let_def within_def)
qed (simp add: within_def)

lemma block_lines_indices: "0 < per \<Longrightarrow> start \<le> n \<Longrightarrow> indices (block_lines per start n) = [start..<n]"
proof (induction per start n rule: block_lines.induct)
  case (1 per start n)
  show ?case
  proof (cases "start < n")
    case True
    have "indices (block_lines per (min (start + per) n) n) = [min (start + per) n..<n]" using 1 True by simp
    moreover have "[start..<min (start + per) n] @ [min (start + per) n..<n] = [start..<n]"
      using True by (intro upt_join) simp_all
    ultimately show ?thesis using True 1(2) by (simp add: block_lines.simps[of per start n])
  next
    case False
    then show ?thesis by (simp add: block_lines.simps[of per start n])
  qed
qed

lemma block_lines_length: "0 < per \<Longrightarrow> n \<le> start + k * per \<Longrightarrow> length (block_lines per start n) \<le> k"
proof (induction k arbitrary: start)
  case (Suc k)
  have "n \<le> min (start + per) n + k * per" using Suc.prems by (simp add: min_def)
  then show ?case using Suc by (subst block_lines.simps) simp
qed (simp add: block_lines.simps)

lemma wrap_lines_indices:
  "start \<le> i \<Longrightarrow> indices (wrap_lines limit spacing ws i start used) = [start..<i + length ws]"
proof (induction limit spacing ws i start used rule: wrap_lines.induct)
  case (2 limit spacing w ws i start used)
  have split: "[start..<i] @ [i..<i + length (w # ws)] = [start..<i + length (w # ws)]"
    using 2(3) by (intro upt_join) simp_all
  show ?case using 2 split by (auto simp: Let_def simp del: upt_Suc)
qed simp

lemma div_ceil_pos: "0 < n \<Longrightarrow> 0 < d \<Longrightarrow> 0 < div_ceil n d"
  by (simp add: div_ceil_def div_greater_zero_iff)

lemma div_ceil_mult: "0 < d \<Longrightarrow> n \<le> d * div_ceil n d"
proof -
  assume d: "0 < d"
  have "n + d - 1 = d * ((n + d - 1) div d) + (n + d - 1) mod d" by simp
  moreover have "(n + d - 1) mod d < d" using d by simp
  ultimately show ?thesis unfolding div_ceil_def by linarith
qed

lemma break_into_lines_indices: "indices (break_into_lines boxes ly pinned spacing) = [0..<length boxes]"
proof (cases "ly_lanes ly")
  case (LaneCount v)
  show ?thesis
  proof (cases "unat v \<le> 1")
    case True
    then show ?thesis by (simp add: break_into_lines_def LaneCount Let_def)
  next
    case False
    show ?thesis
    proof (cases "boxes = []")
      case True
      then show ?thesis by (simp add: break_into_lines_def LaneCount Let_def block_lines.simps)
    next
      case nonempty: False
      have "0 < div_ceil (length boxes) (unat v)" using False nonempty by (simp add: div_ceil_pos)
      from block_lines_indices[OF this, of 0 "length boxes"] show ?thesis
        using False by (simp add: break_into_lines_def LaneCount Let_def max_def)
    qed
  qed
next
  case LaneFill
  show ?thesis
  proof (cases pinned)
    case None
    then show ?thesis by (simp add: break_into_lines_def LaneFill)
  next
    case (Some limit)
    then show ?thesis using wrap_lines_indices[of 0 0 limit spacing "map cb_main boxes" 0]
      by (simp add: break_into_lines_def LaneFill)
  qed
qed

lemma break_into_lines_within: "within (length boxes) (break_into_lines boxes ly pinned spacing)"
proof -
  have "within (length boxes) (wrap_lines limit spacing (map cb_main boxes) 0 0 0)" for limit
    using within_wrap[of 0 "map cb_main boxes"] by simp
  then show ?thesis
    by (simp add: break_into_lines_def Let_def within_block split: lanes.split option.split) (simp add: within_def)
qed

lemma lane_count:
  assumes "ly_lanes ly = LaneCount v"
  shows "length (break_into_lines boxes ly pinned spacing) \<le> max (unat v) 1"
proof (cases "unat v \<le> 1")
  case True
  then have "break_into_lines boxes ly pinned spacing = [(0, length boxes)]"
    by (simp add: break_into_lines_def assms Let_def)
  then show ?thesis by simp
next
  case False
  let ?n = "length boxes" and ?k = "unat v"
  have lines: "break_into_lines boxes ly pinned spacing = block_lines (div_ceil ?n ?k) 0 ?n"
    using False by (simp add: break_into_lines_def assms Let_def max_def)
  show ?thesis
  proof (cases "?n = 0")
    case True
    then show ?thesis unfolding lines by (subst block_lines.simps) simp
  next
    case nonempty: False
    have "0 < div_ceil ?n ?k" using False nonempty by (intro div_ceil_pos) simp_all
    moreover have "?n \<le> 0 + ?k * div_ceil ?n ?k" using False div_ceil_mult[of ?k ?n] by simp
    ultimately have "length (block_lines (div_ceil ?n ?k) 0 ?n) \<le> ?k" by (rule block_lines_length)
    then show ?thesis unfolding lines by (rule order.trans) simp
  qed
qed

section \<open>Placement\<close>

lemma place_child_id: "fst (place_child ly band pos cc b ext) = cb_id b"
  by (simp add: place_child_def Let_def split_beta)

lemma place_children_ids: "map fst (place_children ly band between cc cursor bes) = map (cb_id \<circ> fst) bes"
  by (induction ly band between cc cursor bes rule: place_children.induct) (simp_all add: place_child_id)

lemma grow_line_length: "length sizes = length boxes \<Longrightarrow> length (grow_line boxes m sp ln sizes) = length boxes"
  by (simp add: grow_line_def Let_def)

lemma grow_lines_length: "length sizes = length boxes \<Longrightarrow> length (fold (grow_line boxes m sp) lines sizes) = length boxes"
  by (induction lines arbitrary: sizes) (simp_all add: grow_line_length)

lemma range_of_indices: "snd ln \<le> length xs \<Longrightarrow> range_of ln xs = map ((!) xs) [fst ln..<snd ln]"
  by (rule nth_equalityI) (auto simp: range_of_def)

lemma place_from_ids:
  assumes "length sizes = length boxes" "\<forall>i \<in> set (indices lines). i < length boxes" "\<forall>ln \<in> set lines. snd ln \<le> length boxes"
  shows "map fst (place_from boxes sizes ly pinned m sp cc lines) = map (\<lambda>i. cb_id (boxes ! i)) (indices lines)"
  using assms(2,3)
proof (induction lines arbitrary: cc)
  case (Cons ln lines)
  have rest: "map fst (place_from boxes sizes ly pinned m sp cc' lines) = map (\<lambda>i. cb_id (boxes ! i)) (indices lines)" for cc'
    using Cons by simp
  have "snd ln \<le> length boxes" using Cons.prems by simp
  then have "map (cb_id \<circ> fst) (zip (range_of ln boxes) (range_of ln sizes)) = map (\<lambda>i. cb_id (boxes ! i)) [fst ln..<snd ln]"
    using assms(1) by (simp add: range_of_indices map_zip_map zip_map_map comp_def zip_same_conv_map)
  then show ?case using rest by (simp add: Let_def split_beta place_children_ids)
qed simp

lemma map_filter_map:
  assumes "\<And>x. x \<in> set xs \<Longrightarrow> \<exists>b. f x = Some b \<and> g b = h x"
  shows "map g (List.map_filter f xs) = map h xs"
  using assms
proof (induction xs)
  case (Cons x xs)
  obtain b where "f x = Some b" "g b = h x" using Cons.prems[of x] by auto
  then show ?case using Cons by (simp add: List.map_filter_simps)
qed (simp add: List.map_filter_simps)

lemma child_box_of_id: "dr (o_geometry ob) = Inr r \<Longrightarrow> \<exists>b. child_box_of dr axis ob = Some b \<and> cb_id b = o_id ob"
  by (simp add: child_box_of_def Let_def split_beta)

lemma solve_layout_ids:
  assumes "scene_get sc gid = Some c" "o_layout c = Some ly"
  shows "map fst (solve_layout dr sc gid) = map o_id (laid_out dr sc gid)"
proof -
  let ?bs = "List.map_filter (child_box_of dr (ly_axis ly)) (laid_out dr sc gid)"
  have ids: "map cb_id ?bs = map o_id (laid_out dr sc gid)"
  proof (rule map_filter_map)
    fix ob assume "ob \<in> set (laid_out dr sc gid)"
    then have "\<exists>r. dr (o_geometry ob) = Inr r" by (simp add: laid_out_def)
    then show "\<exists>b. child_box_of dr (ly_axis ly) ob = Some b \<and> cb_id b = o_id ob" using child_box_of_id by blast
  qed
  have placed: "map fst (place_lines bs (break_into_lines bs ly pin sp) ly pin sp) = map cb_id bs" for bs pin sp
  proof -
    have "map fst (place_lines bs (break_into_lines bs ly pin sp) ly pin sp) = map (\<lambda>i. cb_id (bs ! i)) [0..<length bs]"
      unfolding place_lines_def Let_def break_into_lines_indices[of bs ly pin sp, symmetric]
      by (rule place_from_ids) (use break_into_lines_within[of bs ly pin sp] in
        \<open>simp_all add: grow_lines_length break_into_lines_indices within_def\<close>)
    also have "\<dots> = map cb_id bs" by (rule nth_equalityI) simp_all
    finally show ?thesis .
  qed
  show ?thesis
  proof (cases "?bs = []")
    case True
    then show ?thesis using ids assms by (simp add: solve_layout_def Let_def)
  next
    case False
    then show ?thesis using ids assms by (simp add: solve_layout_def Let_def placed)
  qed
qed

end
