(* ===== verification/InspectorEdit.thy ===== *)
theory InspectorEdit
  imports Primitives Affine
begin

text \<open>
  One edit of the inspector panel as an operation: \<open>binding/inspector_edit.rs\<close>. Only the edited
  field of the object's current value changes. Reading a structured value from JSON
  (\<open>serde_json::from_value\<close> on derived types) is a parameter.
\<close>

record edit_readers =
  er_paint :: "json \<Rightarrow> paint option"
  er_axis_sizing :: "json \<Rightarrow> axis_sizing option"
  er_axis :: "json \<Rightarrow> layout_axis option"
  er_lanes :: "json \<Rightarrow> lanes option"
  er_align :: "json \<Rightarrow> align option"
  er_text_align :: "json \<Rightarrow> text_align option"

definition default_flow_layout :: layout where
  "default_flow_layout = \<lparr>ly_axis = Horizontal, ly_lanes = LaneCount 1, ly_spacing = 0,
     ly_align = \<lparr>al_main = MainStart, al_cross = CrossStart\<rparr>\<rparr>"

definition i32_floor_at :: "i32 \<Rightarrow> i32 \<Rightarrow> i32" where
  "i32_floor_at lo x = (if sint x < sint lo then lo else x)"

definition axis_sizing_value :: "edit_readers \<Rightarrow> json \<Rightarrow> f64 \<Rightarrow> axis_sizing option" where
  "axis_sizing_value er v unit =
     (case json_f64 v of Some px \<Rightarrow> Some (Fixed (quantize_units px unit)) | None \<Rightarrow> er_axis_sizing er v)"

definition sizing_op :: "edit_readers \<Rightarrow> object \<Rightarrow> str \<Rightarrow> json \<Rightarrow> f64 \<Rightarrow> object_op option" where
  "sizing_op er ob control v unit =
     map_option (\<lambda>ax.
       let current = (case o_sizing ob of Some z \<Rightarrow> z | None \<Rightarrow> \<lparr>sz_w = Hug, sz_h = Hug\<rparr>)
       in SetSizing (o_id ob) (Some (if control = ''sizing-w'' then current\<lparr>sz_w := ax\<rparr> else current\<lparr>sz_h := ax\<rparr>)))
     (axis_sizing_value er v unit)"

definition layout_mode_op :: "object \<Rightarrow> json \<Rightarrow> object_op option" where
  "layout_mode_op ob v =
     Option.bind (json_str v) (\<lambda>mode.
       if mode = ''flow''
       then (if o_layout ob \<noteq> None then None else Some (SetLayout (o_id ob) (Some default_flow_layout)))
       else Some (SetLayout (o_id ob) None))"

definition layout_field_op :: "edit_readers \<Rightarrow> object \<Rightarrow> str \<Rightarrow> json \<Rightarrow> f64 \<Rightarrow> object_op option" where
  "layout_field_op er ob control v unit =
     Option.bind (o_layout ob) (\<lambda>ly.
     map_option (\<lambda>ly'. SetLayout (o_id ob) (Some ly'))
       (if control = ''axis'' then map_option (\<lambda>a. ly\<lparr>ly_axis := a\<rparr>) (er_axis er v)
        else if control = ''lanes'' then map_option (\<lambda>n. ly\<lparr>ly_lanes := n\<rparr>) (er_lanes er v)
        else if control = ''spacing''
        then map_option (\<lambda>px. ly\<lparr>ly_spacing := i32_floor_at 0 (quantize_units px unit)\<rparr>) (json_f64 v)
        else if control = ''align'' then map_option (\<lambda>a. ly\<lparr>ly_align := a\<rparr>) (er_align er v)
        else None))"

definition stroke_width_op :: "object \<Rightarrow> json \<Rightarrow> f64 \<Rightarrow> object_op option" where
  "stroke_width_op ob v unit =
     map_option (\<lambda>px.
       let width = i32_floor_at 0 (quantize_units px unit);
           st = (case o_stroke ob of Some st \<Rightarrow> st | None \<Rightarrow> default_inspector_stroke)
       in SetStyle (o_id ob) None (Some (SetTo (st\<lparr>s_width := width\<rparr>))))
     (json_f64 v)"

definition plain_run :: text_run where
  "plain_run = \<lparr>r_text = [], r_color = None, r_size = None, r_bold = False, r_italic = False, r_font = None\<rparr>"

definition update_first :: "('a \<Rightarrow> 'a) \<Rightarrow> 'a list \<Rightarrow> 'a list" where
  "update_first f xs = (case xs of [] \<Rightarrow> [] | x # ys \<Rightarrow> f x # ys)"

definition paint_hex :: "paint \<Rightarrow> str option" where
  "paint_hex p = (case p of Solid c \<Rightarrow> Some c | _ \<Rightarrow> None)"

definition text_field_op :: "edit_readers \<Rightarrow> object \<Rightarrow> str \<Rightarrow> json \<Rightarrow> f64 \<Rightarrow> object_op option" where
  "text_field_op er ob control v unit =
     Option.bind (o_text ob) (\<lambda>t0.
       let t = t0\<lparr>t_runs := (if t_runs t0 = [] then [plain_run] else t_runs t0)\<rparr>;
           on_run = (\<lambda>f. t\<lparr>t_runs := update_first f (t_runs t)\<rparr>)
       in map_option (\<lambda>t'. SetText (o_id ob) (Some t'))
         (if control = ''font'' then Some (on_run (\<lambda>r. r\<lparr>r_font := json_str v\<rparr>))
          else if control = ''font-size''
          then map_option (\<lambda>px. on_run (\<lambda>r. r\<lparr>r_size := Some (i32_floor_at 1 (quantize_units px unit))\<rparr>)) (json_f64 v)
          else if control = ''font-weight'' then Some (on_run (\<lambda>r. r\<lparr>r_bold := (json_str v = Some ''bold'')\<rparr>))
          else if control = ''text-color''
          then map_option (\<lambda>p. on_run (\<lambda>r. r\<lparr>r_color := paint_hex p\<rparr>)) (er_paint er v)
          else if control = ''text-align'' then map_option (\<lambda>a. t\<lparr>t_align := a\<rparr>) (er_text_align er v)
          else None))"

definition paint_to_fill :: "fill option \<Rightarrow> paint \<Rightarrow> fill" where
  "paint_to_fill current p = \<lparr>f_paint = p, f_opacity = (case current of None \<Rightarrow> f_one | Some fi \<Rightarrow> f_opacity fi)\<rparr>"

definition paint_to_stroke :: "stroke option \<Rightarrow> paint \<Rightarrow> stroke" where
  "paint_to_stroke current p = (case current of None \<Rightarrow> default_inspector_stroke | Some st \<Rightarrow> st)\<lparr>s_paint := p\<rparr>"

definition inspector_edit_op :: "edit_readers \<Rightarrow> object \<Rightarrow> str \<Rightarrow> json \<Rightarrow> f64 \<Rightarrow> object_op option" where
  "inspector_edit_op er ob control v unit =
     (if control = ''name''
      then Some (SetMeta (o_id ob)
             (Some (case json_str v of Some s \<Rightarrow> if s = [] then Clear else SetTo s | None \<Rightarrow> Clear)) None None)
      else if control = ''visible'' then map_option (\<lambda>b. SetMeta (o_id ob) None (Some (\<not> b)) None) (json_bool v)
      else if control = ''locked'' then map_option (\<lambda>b. SetMeta (o_id ob) None None (Some b)) (json_bool v)
      else if control = ''sizing-w'' \<or> control = ''sizing-h'' then sizing_op er ob control v unit
      else if control = ''layout-mode'' then layout_mode_op ob v
      else if control \<in> {''axis'', ''lanes'', ''spacing'', ''align''} then layout_field_op er ob control v unit
      else if control = ''clip'' then map_option (\<lambda>b. SetClip (o_id ob) (Some b)) (json_bool v)
      else if control = ''fill''
      then map_option (\<lambda>p. SetStyle (o_id ob) (Some (SetTo (paint_to_fill (o_fill ob) p))) None) (er_paint er v)
      else if control = ''stroke''
      then map_option (\<lambda>p. SetStyle (o_id ob) None (Some (SetTo (paint_to_stroke (o_stroke ob) p)))) (er_paint er v)
      else if control = ''stroke-width'' then stroke_width_op ob v unit
      else if control \<in> {''font'', ''font-size'', ''font-weight'', ''text-align'', ''text-color''}
      then text_field_op er ob control v unit
      else None)"

end
