(* ===== verification/Binding_Properties.thy ===== *)
theory Binding_Properties
  imports Cascade LayoutSolve InspectorEdit Samples
begin

text \<open>
  The properties of the derived edits: the drag of a selection with everything it carries, and
  grouping and ungrouping.
\<close>

text \<open>Two segments under a transform without a zero entry.\<close>

definition skew :: transform where
  "skew = ((f_one, f_one, f_one), (f_one, f_one, f_one), (f_one, f_one, f_one))"

definition segment_pq :: geometry where
  "segment_pq = geometry_from_subpaths [\<lparr>sp_closed = False, sp_nodes = [corner 8 16, corner 24 32]\<rparr>] EvenOdd"

definition object_p :: object where
  "object_p = (object_new ''p'' ''a0'' segment_pq)\<lparr>o_transform := skew\<rparr>"

definition object_q :: object where
  "object_q = (object_new ''q'' ''a1'' segment_pq)\<lparr>o_transform := skew\<rparr>"

definition pair_scene :: scene where
  "pair_scene = scene_default\<lparr>objects := [object_p, object_q]\<rparr>"

lemma pair_facts [simp]:
  "o_id object_p = ''p''" "o_id object_q = ''q''" "o_parent object_p = None" "o_parent object_q = None"
  "o_order object_p = ''a0''" "o_order object_q = ''a1''" "o_anchors object_p = []" "o_anchors object_q = []"
  "objects pair_scene = [object_p, object_q]"
  by (simp_all add: object_p_def object_q_def pair_scene_def object_new_def)

lemma pair_get: "scene_get pair_scene ''p'' = Some object_p" "scene_get pair_scene ''q'' = Some object_q"
  by (simp_all add: scene_get_def)

lemma pair_forest: "distinct (ids pair_scene)" "acyclic (parent_rel pair_scene)"
proof -
  have "parent_rel pair_scene = {}" by (auto simp: parent_rel_def)
  then show "distinct (ids pair_scene)" "acyclic (parent_rel pair_scene)" by (simp_all add: ids_def acyclic_def)
qed

lemma pair_box: "object_world_aabb object_p \<noteq> None" by code_simp

lemma union_some: "u \<noteq> None \<Longrightarrow> foldl union_aabb u ms \<noteq> None"
  by (induction ms arbitrary: u) (auto simp: union_aabb_def split: option.split)

lemma pair_order: "sort_by_paint [object_p, object_q] = [object_p, object_q]"
proof -
  have "o_order object_p < o_order object_q" by (simp add: less_list_code)
  then show ?thesis unfolding sort_by_paint_def by simp
qed

lemma pair_groups: "\<exists>ops. group_ops pair_scene [''p'', ''q''] ''g'' = Inr (Some ops)"
proof -
  have ms: "List.map_filter (scene_get pair_scene) [''p'', ''q''] = [object_p, object_q]"
    by (simp add: List.map_filter_simps pair_get)
  obtain w where w: "foldl union_aabb None [object_p, object_q] = Some w"
    using union_some[of "union_aabb None object_p" "[object_q]"] pair_box by (auto simp: union_aabb_def split: option.splits)
  obtain k where k: "next_order_key pair_scene = Inr k" using next_order_key_top[of pair_scene] sample_valid_keys
    by (auto simp: orders_def)
  obtain ks where "generate_n_keys_between None None 2 = Inr ks"
    using generate_n_keys_total[of None None 2] by (auto simp: bounds_ok_def validate_bound_def)
  then show ?thesis unfolding group_ops_def Let_def ms pair_order w using k by (simp add: numeral_2_eq_2)
qed

text \<open>A segment with both ends anchored to the second object, beside the two segments.\<close>

definition pinned_edge :: object where
  "pinned_edge = (object_new ''e'' ''a2'' segment_pq)\<lparr>o_anchors :=
     [\<lparr>a_node = 0, a_target = ''q'', a_at = \<lparr>l_x = 0, l_y = 0\<rparr>\<rparr>, \<lparr>a_node = 1, a_target = ''q'', a_at = \<lparr>l_x = 0, l_y = 0\<rparr>\<rparr>]\<rparr>"

definition pinned_scene :: scene where
  "pinned_scene = scene_default\<lparr>objects := [object_p, object_q, pinned_edge]\<rparr>"

lemma pinned_facts [simp]:
  "o_id pinned_edge = ''e''" "o_parent pinned_edge = None" "o_geometry pinned_edge = segment_pq"
  "objects pinned_scene = [object_p, object_q, pinned_edge]"
  by (simp_all add: pinned_edge_def pinned_scene_def object_new_def)

lemma segment_pq_ok: "geometry_ok segment_pq" "is_open_class segment_pq"
proof -
  have "parse_path (g_path segment_pq) = Inr (g_subpaths segment_pq)" "validate_geometry segment_pq = Inr ()" by code_simp+
  then show "geometry_ok segment_pq" by (simp add: geometry_ok_def)
  show "is_open_class segment_pq" by code_simp
qed

lemma pinned_ends: "end_pins [''p'', ''e''] pinned_edge = Some (True, True)"
  by code_simp

text \<open>C26: dragging live roots by a transform of a scene of drawable objects succeeds and touches
  exactly the roots and what is below them. A member keeps its geometry and has its transform
  pre-multiplied, unless it is an open path anchored at an end to an object that does not move, or
  an anchored or not purely translated open path both of whose ends follow: such a member keeps its
  transform and has its path deformed between its ends, and with both ends pinned it stays as it is.\<close>

theorem drag_moves_subtree:
  assumes "\<forall>r \<in> set roots. scene_get sc r \<noteq> None" "\<forall>ob \<in> set (objects sc). geometry_ok (o_geometry ob)"
  shows "\<exists>sc'. apply_ops lm sc (cascade_same_delta_ops lm sc roots delta) = Some sc' \<and>
    (\<forall>x. scene_get sc' x = (if \<exists>r \<in> set roots. below sc r x
       then map_option (\<lambda>ob. if deforms (moved_ids sc roots) delta ob
         then ob\<lparr>o_geometry := deformed_geometry lm (moved_ids sc roots) delta ob\<rparr>
         else ob\<lparr>o_transform := transform_mul delta (o_transform ob)\<rparr>) (scene_get sc x)
       else scene_get sc x)) \<and>
    (\<forall>x ob. scene_get sc x = Some ob \<and> \<not> moves_whole delta ob \<and> end_pins (moved_ids sc roots) ob = Some (True, True) \<longrightarrow>
       scene_get sc' x = Some ob)"
  using drag_law[OF assms, of lm delta] unfolding dragged_def[abs_def] .

theorem drag_moves_subtree_witness:
  "\<exists>sc'. apply_ops zero_libm pinned_scene (cascade_same_delta_ops zero_libm pinned_scene [''p'', ''e''] transform_identity) = Some sc' \<and>
     scene_get sc' ''p'' = Some (object_p\<lparr>o_transform := transform_mul transform_identity skew\<rparr>) \<and>
     scene_get sc' ''q'' = Some object_q \<and> scene_get sc' ''e'' = Some pinned_edge"
proof -
  have none: "\<not> child_of pinned_scene x y" for x y by (simp add: child_of_def)
  have below: "below pinned_scene r x \<longleftrightarrow> x = r" for r x by (auto simp: none elim: converse_rtranclpE)
  have moved: "moved_ids pinned_scene [''p'', ''e''] = [''p'', ''e'']" by code_simp
  have get: "scene_get pinned_scene ''p'' = Some object_p" "scene_get pinned_scene ''q'' = Some object_q"
    "scene_get pinned_scene ''e'' = Some pinned_edge" by (simp_all add: scene_get_def)
  have rides: "\<not> deforms [''p'', ''e''] transform_identity object_p"
    by (simp add: deforms_def moves_whole_def is_pure_translate_def transform_identity_def) code_simp
  have stays: "\<not> moves_whole transform_identity pinned_edge"
    using segment_pq_ok(2) by (simp add: moves_whole_def) (simp add: pinned_edge_def)
  have live: "\<forall>r \<in> set [''p'', ''e'']. scene_get pinned_scene r \<noteq> None" by (simp add: get)
  have drawn: "\<forall>ob \<in> set (objects pinned_scene). geometry_ok (o_geometry ob)"
    using segment_pq_ok(1) by (simp add: object_p_def object_q_def object_new_def)
  obtain sc' where run: "apply_ops zero_libm pinned_scene (cascade_same_delta_ops zero_libm pinned_scene [''p'', ''e''] transform_identity) = Some sc'"
    and at: "\<forall>x. scene_get sc' x = (if \<exists>r \<in> set [''p'', ''e'']. below pinned_scene r x
       then map_option (\<lambda>ob. if deforms [''p'', ''e''] transform_identity ob
         then ob\<lparr>o_geometry := deformed_geometry zero_libm [''p'', ''e''] transform_identity ob\<rparr>
         else ob\<lparr>o_transform := transform_mul transform_identity (o_transform ob)\<rparr>) (scene_get pinned_scene x)
       else scene_get pinned_scene x)"
    and still: "\<forall>x ob. scene_get pinned_scene x = Some ob \<and> \<not> moves_whole transform_identity ob \<and>
       end_pins [''p'', ''e''] ob = Some (True, True) \<longrightarrow> scene_get sc' x = Some ob"
    using drag_moves_subtree[OF live drawn, of zero_libm transform_identity] unfolding moved by (elim exE conjE)
  have "o_transform object_p = skew" by (simp add: object_p_def)
  then have "scene_get sc' ''p'' = Some (object_p\<lparr>o_transform := transform_mul transform_identity skew\<rparr>)"
    using at[THEN spec, of "''p''"] rides by (simp add: below get)
  moreover have "scene_get sc' ''q'' = Some object_q" using at[THEN spec, of "''q''"] by (simp add: below get)
  moreover have "scene_get sc' ''e'' = Some pinned_edge" using still get(3) stays pinned_ends by blast
  ultimately show ?thesis using run by blast
qed

text \<open>C27: the objects that a drag carries along are exactly the roots and the objects below them,
  each once, and every object that is not a root comes after an object it is a child of.\<close>

theorem drag_closure_exact:
  "set (fst (propagation_closure (graph_build (binding_nodes sc)) roots)) = {x. \<exists>r \<in> set roots. below sc r x} \<and>
   distinct (fst (propagation_closure (graph_build (binding_nodes sc)) roots)) \<and>
   parents_first (graph_build (binding_nodes sc)) (set roots) (fst (propagation_closure (graph_build (binding_nodes sc)) roots))"
  using moved_ids_law[of sc roots] same_delta_law[of "graph_build (binding_nodes sc)" roots] by (simp add: moved_ids_def)

text \<open>The operations of a move, with the anchored objects that follow it, name no object twice;
  the waves of followers end because every wave visits objects not visited before.\<close>

theorem move_names_objects_once:
  "distinct (map target_ids (move_ops lm sc roots delta))"
proof -
  have dist: "distinct (moved_ids sc rs)" for rs by (rule moved_ids_law)
  have cascade: "distinct (map target_ids (ops @ geometry_follow_ops lm sc ops))"
    if "ops = cascade_same_delta_ops lm sc rs delta" for ops rs
    using move_ops_distinct[OF that[unfolded cascade_eq] dist] .
  have none: "distinct (map target_ids ([] @ geometry_follow_ops lm sc []))"
    by (rule move_ops_distinct[of "[]" lm sc "[]" delta "[]"]) simp_all
  show ?thesis
  proof (cases roots)
    case (MoveSingle i)
    show ?thesis
    proof (cases "scene_get sc i = None")
      case True
      then show ?thesis using none unfolding MoveSingle move_ops_def cascade_transform_ops_def Let_def by simp
    next
      case False
      then have "cascade_transform_ops lm sc i delta = cascade_same_delta_ops lm sc [i] delta"
        unfolding cascade_transform_ops_def by (rule if_not_P)
      then show ?thesis using cascade[OF refl, of "[i]"] unfolding MoveSingle move_ops_def Let_def by simp
    qed
  next
    case (MoveMulti ids)
    show ?thesis
      unfolding MoveMulti move_ops_def cascade_multi_transform_ops_def Let_def move_roots.case by (rule cascade[OF refl])
  qed
qed

text \<open>C28: the operations of a group of two or more objects of a forest succeed: the frame is a new
  root above every key, the members hang below it, nothing else of any object changes, and members
  that were painted in order keep that order under their new keys.\<close>

theorem group_keeps_stacking:
  assumes "distinct (ids sc)" "acyclic (parent_rel sc)" "distinct is" "\<not> has_object sc f"
    "group_ops sc is f = Inr (Some ops)"
  shows "\<exists>sc' frame key. apply_ops lm sc ops = Some sc' \<and> scene_get sc' f = Some frame \<and> o_parent frame = None \<and>
    next_order_key sc = Inr (o_order frame) \<and>
    (\<forall>x. x \<noteq> f \<longrightarrow> scene_get sc' x = map_option (grouped f (set is) key) (scene_get sc x)) \<and>
    (\<forall>a b. {o_id a, o_id b} \<subseteq> set is \<and> scene_get sc (o_id a) = Some a \<and> scene_get sc (o_id b) = Some b \<and>
       \<not> painted_before b a \<longrightarrow> key (o_id a) < key (o_id b))"
  using group_law[OF assms, of lm] by blast

theorem group_keeps_stacking_witness:
  "\<exists>ops sc' frame. group_ops pair_scene [''p'', ''q''] ''g'' = Inr (Some ops) \<and>
     apply_ops zero_libm pair_scene ops = Some sc' \<and> scene_get sc' ''g'' = Some frame \<and> o_parent frame = None"
proof -
  obtain ops where ops: "group_ops pair_scene [''p'', ''q''] ''g'' = Inr (Some ops)" using pair_groups by blast
  have new: "distinct [''p'', ''q'']" "\<not> has_object pair_scene ''g''" by (simp_all add: has_object_def)
  from group_keeps_stacking[OF pair_forest new ops, of zero_libm] obtain sc' frame where
    "apply_ops zero_libm pair_scene ops = Some sc'" "scene_get sc' ''g'' = Some frame" "o_parent frame = None"
    by (elim exE conjE)
  then show ?thesis using ops by (intro exI conjI)
qed

text \<open>Ungrouping a container of a forest always succeeds: its children move up to its parent with
  their keys, it disappears with the anchors on it, and nothing else changes.\<close>

theorem ungroup_lifts_children:
  assumes "distinct (ids sc)" "acyclic (parent_rel sc)" "scene_get sc f = Some frame" "ungroup_ops sc f = Some ops"
  shows "\<exists>sc'. apply_ops lm sc ops = Some sc' \<and>
    (\<forall>x. scene_get sc' x = (if x = f then None
       else map_option (\<lambda>ob. prune_anchors f (lifted f (o_parent frame) ob)) (scene_get sc x)))"
  using ungroup_law[OF assms] .

theorem ungroup_lifts_children_witness:
  "\<exists>ops sc'. ungroup_ops pair_scene ''p'' = Some ops \<and> apply_ops zero_libm pair_scene ops = Some sc' \<and>
     scene_get sc' ''p'' = None"
proof -
  have "ungroup_ops pair_scene ''p'' \<noteq> None" by (simp add: ungroup_ops_def pair_get)
  then obtain ops where ops: "ungroup_ops pair_scene ''p'' = Some ops" by blast
  from ungroup_lifts_children[OF pair_forest pair_get(1) ops, of zero_libm] obtain sc' where
    "apply_ops zero_libm pair_scene ops = Some sc'" "\<forall>x. scene_get sc' x = (if x = ''p'' then None
       else map_option (\<lambda>ob. prune_anchors ''p'' (lifted ''p'' (o_parent object_p) ob)) (scene_get pair_scene x))" by (elim exE conjE)
  then show ?thesis using ops by (intro exI[of _ ops] exI[of _ sc'] conjI) (simp_all only: refl if_True)
qed

text \<open>C29: grouping root objects under a fresh frame and ungrouping that frame again gives back every
  object with all its fields; only the order keys of the members are new.\<close>

theorem group_ungroup_restores:
  assumes "distinct (ids sc)" "acyclic (parent_rel sc)" "distinct is" "\<not> has_object sc f"
    "group_ops sc is f = Inr (Some ops)" "\<forall>ob \<in> set (objects sc). o_parent ob \<noteq> Some f \<and> \<not> anchors_to f ob"
    "\<forall>ob \<in> set (objects sc). o_id ob \<in> set is \<longrightarrow> o_parent ob = None"
  shows "\<exists>sc1 back_ops sc2 key. apply_ops lm sc ops = Some sc1 \<and> ungroup_ops sc1 f = Some back_ops \<and>
    apply_ops lm sc1 back_ops = Some sc2 \<and>
    (\<forall>x. scene_get sc2 x = map_option (\<lambda>ob. if x \<in> set is then ob\<lparr>o_order := key x\<rparr> else ob) (scene_get sc x))"
  using group_ungroup_law[OF assms] .

theorem group_ungroup_restores_witness:
  "\<exists>ops sc1 back_ops sc2 k. group_ops pair_scene [''p'', ''q''] ''g'' = Inr (Some ops) \<and>
     apply_ops zero_libm pair_scene ops = Some sc1 \<and> ungroup_ops sc1 ''g'' = Some back_ops \<and>
     apply_ops zero_libm sc1 back_ops = Some sc2 \<and> scene_get sc2 ''p'' = Some (object_p\<lparr>o_order := k\<rparr>)"
proof -
  obtain ops where ops: "group_ops pair_scene [''p'', ''q''] ''g'' = Inr (Some ops)" using pair_groups by blast
  have new: "distinct [''p'', ''q'']" "\<not> has_object pair_scene ''g''" by (simp_all add: has_object_def)
  have free: "\<forall>ob \<in> set (objects pair_scene). o_parent ob \<noteq> Some ''g'' \<and> \<not> anchors_to ''g'' ob"
    "\<forall>ob \<in> set (objects pair_scene). o_id ob \<in> set [''p'', ''q''] \<longrightarrow> o_parent ob = None"
    by (simp_all add: anchors_to_def)
  obtain sc1 bops sc2 key where r: "apply_ops zero_libm pair_scene ops = Some sc1" "ungroup_ops sc1 ''g'' = Some bops"
    "apply_ops zero_libm sc1 bops = Some sc2"
    "\<forall>x. scene_get sc2 x = map_option (\<lambda>ob. if x \<in> set [''p'', ''q''] then ob\<lparr>o_order := key x\<rparr> else ob) (scene_get pair_scene x)"
    using group_ungroup_restores[OF pair_forest new ops free] by blast
  have "scene_get sc2 ''p'' = Some (object_p\<lparr>o_order := key ''p''\<rparr>)" using r(4) by (simp add: pair_get)
  then show ?thesis using ops r(1-3) by blast
qed

text \<open>C30: the lines of a layout cut the children into consecutive runs that cover all of them, and a
  container with a layout places every child that has a region exactly once, in paint order, whatever
  the outlines, sizes and floating point values are; one without places none.\<close>

theorem layout_places_each_child:
  "concat (map (\<lambda>(s, e). [s..<e]) (break_into_lines boxes ly pinned spacing)) = [0..<length boxes] \<and>
   map fst (solve_layout dr sc g) =
     (case Option.bind (scene_get sc g) o_layout of None \<Rightarrow> [] | Some _ \<Rightarrow> map o_id (laid_out dr sc g))"
proof -
  have "map fst (solve_layout dr sc g) =
      (case Option.bind (scene_get sc g) o_layout of None \<Rightarrow> [] | Some _ \<Rightarrow> map o_id (laid_out dr sc g))"
  proof (cases "scene_get sc g")
    case None
    then show ?thesis by (simp add: solve_layout_def)
  next
    case (Some c)
    then show ?thesis by (cases "o_layout c") (simp_all add: solve_layout_ids, simp add: solve_layout_def)
  qed
  then show ?thesis using break_into_lines_indices[unfolded indices_def] by blast
qed

end
