(* ===== verification/CanvasIndex.thy ===== *)
theory CanvasIndex
  imports ObjectStore
begin

text \<open>
  The durable list of canvases: \<open>server/canvas_index.rs\<close> with the summaries of
  \<open>scene-core/canvas.rs\<close>, over any adapter; and the pruning of the records of a deleted
  canvas (\<open>registry.rs\<close>). The JSON codec of the list is a parameter.
\<close>

record canvas =
  cv_id :: str
  cv_title :: str
  cv_created_at :: str
  cv_updated_at :: str

record canvas_summary =
  cs_id :: str
  cs_title :: str
  cs_updated_at :: str

definition new_canvas :: "str \<Rightarrow> str \<Rightarrow> str \<Rightarrow> canvas" where
  "new_canvas i title now = \<lparr>cv_id = i, cv_title = title, cv_created_at = now, cv_updated_at = now\<rparr>"

record index_codec =
  ic_enc :: "canvas_summary list \<Rightarrow> payload"
  ic_dec :: "payload \<Rightarrow> canvas_summary list option"

definition canvas_index_record_id :: str where "canvas_index_record_id = ''canvas-index''"
definition kind_canvas_index :: str where "kind_canvas_index = ''canvas-index''"

definition load_index :: "('a, 'z) storage_ops_scheme \<Rightarrow> index_codec \<Rightarrow> 'a \<Rightarrow> canvas_summary list" where
  "load_index io cd a =
     (case so_load io a canvas_index_record_id of
        Inr r \<Rightarrow> (case ic_dec cd (sr_payload r) of Some cs \<Rightarrow> cs | None \<Rightarrow> [])
      | Inl _ \<Rightarrow> [])"

definition index_record :: "index_codec \<Rightarrow> canvas_summary list \<Rightarrow> store_record" where
  "index_record cd cs = \<lparr>sr_id = canvas_index_record_id, sr_kind = kind_canvas_index,
     sr_version = of_nat (length cs), sr_payload = ic_enc cd cs\<rparr>"

definition save_index :: "('a, 'z) storage_ops_scheme \<Rightarrow> index_codec \<Rightarrow> 'a \<Rightarrow> canvas_summary list \<Rightarrow>
    'a \<times> (storage_error + unit)" where
  "save_index io cd a cs = so_save io a (index_record cd cs)"

definition create_canvas :: "('a, 'z) storage_ops_scheme \<Rightarrow> index_codec \<Rightarrow> 'a \<Rightarrow> str \<Rightarrow> str \<Rightarrow> str \<Rightarrow>
    'a \<times> (storage_error + canvas_summary)" where
  "create_canvas io cd a i title now =
     (let canvases = load_index io cd a in
      case List.find (\<lambda>c. cs_id c = i) canvases of
        Some existing \<Rightarrow> (a, Inr existing)
      | None \<Rightarrow>
          (let cv = new_canvas i title now;
               s = \<lparr>cs_id = cv_id cv, cs_title = cv_title cv, cs_updated_at = cv_updated_at cv\<rparr>
           in case save_index io cd a (canvases @ [s]) of
                (a', Inl e) \<Rightarrow> (a', Inl e)
              | (a', Inr _) \<Rightarrow> (a', Inr s)))"

definition delete_canvas :: "('a, 'z) storage_ops_scheme \<Rightarrow> index_codec \<Rightarrow> 'a \<Rightarrow> str \<Rightarrow>
    'a \<times> (storage_error + bool)" where
  "delete_canvas io cd a i =
     (let canvases = load_index io cd a; kept = filter (\<lambda>c. cs_id c \<noteq> i) canvases in
      if length kept = length canvases then (a, Inr False)
      else case save_index io cd a kept of
             (a', Inl e) \<Rightarrow> (a', Inl e)
           | (a', Inr _) \<Rightarrow> (a', Inr True))"

definition list_canvases :: "('a, 'z) storage_ops_scheme \<Rightarrow> index_codec \<Rightarrow> 'a \<Rightarrow> canvas_summary list" where
  "list_canvases io cd a = load_index io cd a"

text \<open>Every record under the prefix of the canvas; a failing listing prunes nothing.\<close>

definition delete_all :: "('a, 'z) storage_ops_scheme \<Rightarrow> 'a \<Rightarrow> str list \<Rightarrow> 'a" where
  "delete_all io a is = foldl (\<lambda>a i. fst (so_delete io a i)) a is"

definition prune_canvas_records :: "('a, 'z) storage_ops_scheme \<Rightarrow> 'a \<Rightarrow> str \<Rightarrow> 'a" where
  "prune_canvas_records io a canvas =
     delete_all io a (filter (has_prefix (canvas_record_prefix canvas))
       (case so_list io a of Inr is \<Rightarrow> is | Inl _ \<Rightarrow> []))"

section \<open>The index as a list\<close>

text \<open>The codec reads back what it writes.\<close>

definition codec_ok :: "index_codec \<Rightarrow> bool" where
  "codec_ok cd \<longleftrightarrow> (\<forall>cs. ic_dec cd (ic_enc cd cs) = Some cs)"

text \<open>Room for every version of the index record.\<close>

definition index_fits :: "(store_record \<Rightarrow> bool) \<Rightarrow> (records_map \<Rightarrow> bool) \<Rightarrow> index_codec \<Rightarrow> records_map \<Rightarrow> bool" where
  "index_fits ok fits cd C \<longleftrightarrow>
     (\<forall>cs. ok (index_record cd cs) \<and> fits (C(canvas_index_record_id \<mapsto> index_record cd cs)))"

definition listed :: "index_codec \<Rightarrow> records_map \<Rightarrow> canvas_summary list" where
  "listed cd C = (case C canvas_index_record_id of
     Some r \<Rightarrow> (case ic_dec cd (sr_payload r) of Some cs \<Rightarrow> cs | None \<Rightarrow> []) | None \<Rightarrow> [])"

lemma restrict_map_Cons: "(m(i := None)) |` (- set js) = m |` (- set (i # js))"
  by (rule ext) (simp add: restrict_map_def)

context record_store begin

lemma load_index_listed: "repr a C R \<Longrightarrow> load_index io cd a = listed cd C"
  using load_law[of a C R canvas_index_record_id]
  by (cases "C canvas_index_record_id") (simp_all add: load_index_def listed_def)

lemma save_index_listed:
  assumes "codec_ok cd" "index_fits rec_ok fits cd C" "repr a C R" "save_index io cd a cs = (a', x)"
  shows "x = Inr () \<and> repr a' (C(canvas_index_record_id \<mapsto> index_record cd cs)) R \<and> list_canvases io cd a' = cs"
proof -
  have "rec_ok (index_record cd cs)" "fits (C(canvas_index_record_id \<mapsto> index_record cd cs))" "sr_id (index_record cd cs) = canvas_index_record_id"
    using assms(2) by (simp_all add: index_fits_def index_record_def)
  then have s: "x = Inr () \<and> repr a' (C(canvas_index_record_id \<mapsto> index_record cd cs)) R"
    using save_law[OF assms(3), of "index_record cd cs" a' x] assms(4) by (simp add: save_index_def)
  then have "load_index io cd a' = listed cd (C(canvas_index_record_id \<mapsto> index_record cd cs))"
    by (intro load_index_listed[where R = R]) simp
  also have "\<dots> = cs" using assms(1) by (simp add: listed_def index_record_def codec_ok_def)
  finally show ?thesis using s by (simp add: list_canvases_def)
qed

lemma create_listed:
  assumes "codec_ok cd" "index_fits rec_ok fits cd C" "repr a C R" "create_canvas io cd a i title now = (a', x)"
  shows "\<exists>s. x = Inr s \<and> cs_id s = i \<and> s \<in> set (list_canvases io cd a') \<and>
    list_canvases io cd a' = (if \<exists>c \<in> set (list_canvases io cd a). cs_id c = i then list_canvases io cd a
      else list_canvases io cd a @ [\<lparr>cs_id = i, cs_title = title, cs_updated_at = now\<rparr>])"
proof (cases "List.find (\<lambda>c. cs_id c = i) (load_index io cd a)")
  case None
  let ?s = "\<lparr>cs_id = i, cs_title = title, cs_updated_at = now\<rparr>"
  obtain b y where b: "save_index io cd a (load_index io cd a @ [?s]) = (b, y)" by fastforce
  note saved = save_index_listed[OF assms(1-3) b]
  have "a' = b \<and> x = Inr ?s" using assms(4) None b saved by (auto simp: create_canvas_def new_canvas_def)
  moreover have "\<not> (\<exists>c \<in> set (list_canvases io cd a). cs_id c = i)"
    using None by (auto simp: find_None_iff list_canvases_def)
  ultimately show ?thesis using saved by (simp add: list_canvases_def)
next
  case (Some s)
  then have "s \<in> set (load_index io cd a) \<and> cs_id s = i" by (auto simp: find_Some_iff)
  moreover have "a' = a \<and> x = Inr s" using assms(4) Some by (simp add: create_canvas_def)
  ultimately show ?thesis by (auto simp: list_canvases_def)
qed

lemma delete_listed:
  assumes "codec_ok cd" "index_fits rec_ok fits cd C" "repr a C R" "delete_canvas io cd a i = (a', x)"
  shows "x = Inr (\<exists>c \<in> set (list_canvases io cd a). cs_id c = i) \<and>
    list_canvases io cd a' = filter (\<lambda>c. cs_id c \<noteq> i) (list_canvases io cd a)"
proof (cases "\<exists>c \<in> set (load_index io cd a). cs_id c = i")
  case True
  let ?kept = "filter (\<lambda>c. cs_id c \<noteq> i) (load_index io cd a)"
  obtain b y where b: "save_index io cd a ?kept = (b, y)" by fastforce
  note saved = save_index_listed[OF assms(1-3) b]
  have "length ?kept < length (load_index io cd a)" using True length_filter_less by force
  then have "a' = b \<and> x = Inr True" using assms(4) b saved by (auto simp: delete_canvas_def)
  then show ?thesis using saved True by (simp add: list_canvases_def)
next
  case False
  then have "filter (\<lambda>c. cs_id c \<noteq> i) (load_index io cd a) = load_index io cd a" by (simp add: filter_id_conv)
  moreover from this have "a' = a \<and> x = Inr False" using assms(4) by (simp add: delete_canvas_def)
  ultimately show ?thesis using False by (auto simp: list_canvases_def)
qed

lemma delete_all_repr:
  assumes "repr a C R"
  shows "repr (delete_all io a is) (C |` (- set is)) (R |` (- set is))"
  using assms
proof (induction "is" arbitrary: a C R)
  case (Cons i js)
  obtain b x where b: "so_delete io a i = (b, x)" by fastforce
  have "repr b (C(i := None)) (R(i := None))" using delete_law[OF Cons.prems b] by simp
  from Cons.IH[OF this] show ?case using b unfolding restrict_map_Cons by (simp add: delete_all_def)
qed (simp add: delete_all_def restrict_map_def)

lemma prune_repr:
  assumes "repr a C R"
  shows "\<exists>R'. repr (prune_canvas_records io a canvas) (C |` {i. \<not> has_prefix (canvas_record_prefix canvas) i}) R'"
proof -
  obtain js where js: "so_list io a = Inr js" "set js = dom C" using list_law[OF assms] by blast
  let ?gone = "filter (has_prefix (canvas_record_prefix canvas)) js"
  have "C |` (- set ?gone) = C |` {i. \<not> has_prefix (canvas_record_prefix canvas) i}"
    using js(2) by (auto simp: fun_eq_iff restrict_map_def domIff)
  then show ?thesis using delete_all_repr[OF assms, of ?gone] js(1) by (auto simp: prune_canvas_records_def)
qed

end

end
