(* ===== verification/Registry.thy ===== *)
theory Registry
  imports CanvasIndex Coordination
begin

text \<open>
  The registry of running actors: \<open>server/registry.rs\<close>. The code between two awaits is one
  step here, with the clock reading it uses as its argument; \<open>get_or_spawn\<close> and the other
  operations are their steps in sequence, the interleavings are in \<open>spawn_step\<close>. A handle is
  the parameter \<open>'h\<close>; shutting an actor down and the broadcast of presence leave no trace here.
  The table of live actors is a hash map, whose order is not specified: a list here.
\<close>

definition lease_ttl :: nat where "lease_ttl = 30000"
definition lease_renew_interval :: nat where "lease_renew_interval = 10000"

datatype spawn_error = NotOwner str | Draining

definition spawn_error_text :: "spawn_error \<Rightarrow> str" where
  "spawn_error_text e = (case e of
     NotOwner own \<Rightarrow> ''canvas is owned by '' @ [CHR 0x27] @ own @ [CHR 0x27]
   | Draining \<Rightarrow> ''registry is draining'')"

record 'h reg_entry =
  en_handle :: 'h
  en_lease :: lease
  en_last :: nat

record 'h registry =
  rg_inner :: "(str \<times> 'h reg_entry) list"
  rg_owner :: str
  rg_routes :: "str \<rightharpoonup> str"
  rg_draining :: bool

definition registry_new :: "str \<Rightarrow> 'h registry" where
  "registry_new own = \<lparr>rg_inner = [], rg_owner = own, rg_routes = Map.empty, rg_draining = False\<rparr>"

definition registry_contains :: "'h registry \<Rightarrow> str \<Rightarrow> bool" where
  "registry_contains rg c \<longleftrightarrow> map_of (rg_inner rg) c \<noteq> None"

definition registry_len :: "'h registry \<Rightarrow> nat" where
  "registry_len rg = length (rg_inner rg)"

section \<open>Spawning\<close>

definition touch :: "nat \<Rightarrow> str \<Rightarrow> 'h registry \<Rightarrow> 'h registry" where
  "touch now c rg = rg\<lparr>rg_inner := map (\<lambda>(k, e). (k, if k = c then e\<lparr>en_last := now\<rparr> else e)) (rg_inner rg)\<rparr>"

text \<open>Up to the first await: the live handle, or leave to go on.\<close>

definition spawn_lookup :: "nat \<Rightarrow> str \<Rightarrow> 'h registry \<Rightarrow> 'h registry \<times> (spawn_error + 'h option)" where
  "spawn_lookup now c rg =
     (case map_of (rg_inner rg) c of
        Some e \<Rightarrow> (touch now c rg, Inr (Some (en_handle e)))
      | None \<Rightarrow> (rg, if rg_draining rg then Inl Draining else Inr None))"

definition spawn_refused :: "coordinator \<Rightarrow> u64 \<Rightarrow> str \<Rightarrow> spawn_error" where
  "spawn_refused co clock c = NotOwner (case find_owner co clock c of Some own \<Rightarrow> own | None \<Rightarrow> [])"

text \<open>With the lock again: the new actor is kept, or another task was first.\<close>

definition spawn_insert :: "nat \<Rightarrow> str \<Rightarrow> 'h \<Rightarrow> lease \<Rightarrow> 'h registry \<Rightarrow> 'h registry \<times> 'h option" where
  "spawn_insert now c h l rg =
     (case map_of (rg_inner rg) c of
        Some e \<Rightarrow> (touch now c rg, Some (en_handle e))
      | None \<Rightarrow> (rg\<lparr>rg_inner := rg_inner rg @ [(c, \<lparr>en_handle = h, en_lease = l, en_last = now\<rparr>)]\<rparr>, None))"

definition cache_route :: "str \<Rightarrow> str \<Rightarrow> 'h registry \<Rightarrow> 'h registry" where
  "cache_route c own rg = rg\<lparr>rg_routes := (rg_routes rg)(c \<mapsto> own)\<rparr>"

definition uncache_route :: "str \<Rightarrow> 'h registry \<Rightarrow> 'h registry" where
  "uncache_route c rg = rg\<lparr>rg_routes := (rg_routes rg)(c := None)\<rparr>"

definition get_or_spawn :: "nat \<Rightarrow> u64 \<Rightarrow> str \<Rightarrow> 'h \<Rightarrow> coordinator \<times> 'h registry \<Rightarrow>
    (coordinator \<times> 'h registry) \<times> (spawn_error + 'h)" where
  "get_or_spawn now clock c h s =
     (case s of (co, rg) \<Rightarrow>
      case spawn_lookup now c rg of
        (rg1, Inl e) \<Rightarrow> ((co, rg1), Inl e)
      | (rg1, Inr (Some running)) \<Rightarrow> ((co, rg1), Inr running)
      | (rg1, Inr None) \<Rightarrow>
          (case acquire_lease co clock c (rg_owner rg1) lease_ttl of
             (co1, Inl _) \<Rightarrow> ((co1, rg1), Inl (spawn_refused co1 clock c))
           | (co1, Inr l) \<Rightarrow>
               (case spawn_insert now c h l rg1 of
                  (rg2, None) \<Rightarrow> ((co1, cache_route c (rg_owner rg2) rg2), Inr h)
                | (rg2, Some winner) \<Rightarrow>
                    ((release_lease co1 l, cache_route c (rg_owner rg2) rg2), Inr winner))))"

definition resolve_owner :: "u64 \<Rightarrow> str \<Rightarrow> coordinator \<times> 'h registry \<Rightarrow> (coordinator \<times> 'h registry) \<times> str" where
  "resolve_owner clock c s =
     (case s of (co, rg) \<Rightarrow>
      case rg_routes rg c of
        Some own \<Rightarrow> (s, own)
      | None \<Rightarrow>
          (let (co', own) = (case find_owner co clock c of
                 Some own \<Rightarrow> (co, own)
               | None \<Rightarrow>
                   (case acquire_lease co clock c (rg_owner rg) lease_ttl of
                      (co1, Inr l) \<Rightarrow> (release_lease co1 l, rg_owner rg)
                    | (co1, Inl _) \<Rightarrow>
                        (co1, case find_owner co1 clock c of Some own \<Rightarrow> own | None \<Rightarrow> rg_owner rg)))
           in ((co', cache_route c own rg), own)))"

text \<open>One tick of the renewal task of an entry; it stops when the renewal fails.\<close>

definition renew_tick :: "u64 \<Rightarrow> lease \<Rightarrow> coordinator \<Rightarrow> coordinator \<times> bool" where
  "renew_tick clock l co = (case renew co clock l lease_ttl of (co', Inr ()) \<Rightarrow> (co', True) | (co', Inl _) \<Rightarrow> (co', False))"

section \<open>Eviction\<close>

definition forget :: "str \<Rightarrow> 'h registry \<Rightarrow> 'h registry" where
  "forget c rg = rg\<lparr>rg_inner := filter (\<lambda>(k, _). k \<noteq> c) (rg_inner rg)\<rparr>"

definition evict :: "str \<Rightarrow> coordinator \<times> 'h registry \<Rightarrow> coordinator \<times> 'h registry" where
  "evict c s =
     (case s of (co, rg) \<Rightarrow>
      (case map_of (rg_inner rg) c of None \<Rightarrow> co | Some e \<Rightarrow> release_lease co (en_lease e),
       uncache_route c (forget c rg)))"

text \<open>The leases of the victims are released and their routes forgotten, one after the other.\<close>

definition release_entries :: "(str \<times> 'h reg_entry) list \<Rightarrow> coordinator \<times> 'h registry \<Rightarrow> coordinator \<times> 'h registry" where
  "release_entries es s = foldl (\<lambda>(co, rg) (c, e). (release_lease co (en_lease e), uncache_route c rg)) s es"

definition evict_idle :: "nat \<Rightarrow> nat \<Rightarrow> coordinator \<times> 'h registry \<Rightarrow> (coordinator \<times> 'h registry) \<times> str list" where
  "evict_idle now max_idle s =
     (case s of (co, rg) \<Rightarrow>
      let stale = filter (\<lambda>(_, e). max_idle \<le> now - en_last e) (rg_inner rg);
          rg1 = rg\<lparr>rg_inner := filter (\<lambda>(_, e). \<not> max_idle \<le> now - en_last e) (rg_inner rg)\<rparr>
      in (release_entries stale (co, rg1), map fst stale))"

definition shutdown :: "coordinator \<times> 'h registry \<Rightarrow> coordinator \<times> 'h registry" where
  "shutdown s =
     (case s of (co, rg) \<Rightarrow> release_entries (rg_inner rg) (co, rg\<lparr>rg_draining := True, rg_inner := []\<rparr>))"

section \<open>Canvases\<close>

definition registry_delete_canvas :: "('a, 'z) storage_ops_scheme \<Rightarrow> index_codec \<Rightarrow> str \<Rightarrow>
    'a \<Rightarrow> coordinator \<times> 'h registry \<Rightarrow> 'a \<times> (coordinator \<times> 'h registry) \<times> (storage_error + bool)" where
  "registry_delete_canvas io cd c a s =
     (let s1 = evict c s in
      case delete_canvas io cd a c of
        (a1, Inl e) \<Rightarrow> (a1, s1, Inl e)
      | (a1, Inr removed) \<Rightarrow>
          (prune_canvas_records io a1 c, (fst s1, uncache_route c (snd s1)), Inr removed))"

text \<open>\<open>owner-<pid>-<counter>\<close> and \<open>canvas-<pid>-<counter>\<close>.\<close>

definition default_owner :: "nat \<Rightarrow> u64 \<Rightarrow> str" where
  "default_owner pid n = ''owner-'' @ show_nat pid @ ''-'' @ show_nat (unat n)"

definition new_canvas_id :: "nat \<Rightarrow> u64 \<Rightarrow> str" where
  "new_canvas_id pid n = ''canvas-'' @ show_nat pid @ ''-'' @ show_nat (unat n)"

section \<open>Interleaved spawns\<close>

text \<open>
  Tasks of several registries over one coordinator. A task that looked its canvas up in vain
  waits for the lease; one that has the lease inserts its actor or, when raced, has the lease to
  release.
\<close>

datatype spawn_task =
    WantsLease str str
  | HasLease str str lease
  | MustRelease lease

record 'h spawn_world =
  sw_clock :: u64
  sw_coordinator :: coordinator
  sw_registries :: "str \<Rightarrow> 'h registry"
  sw_tasks :: "spawn_task list"

definition spawn_world_new :: "u64 \<Rightarrow> 'h spawn_world" where
  "spawn_world_new t = \<lparr>sw_clock = t, sw_coordinator = coordinator_new, sw_registries = registry_new, sw_tasks = []\<rparr>"

inductive spawn_step :: "'h spawn_world \<Rightarrow> 'h spawn_world \<Rightarrow> bool" where
  look: "spawn_lookup now c (sw_registries w own) = (rg, Inr None) \<Longrightarrow>
    spawn_step w (w\<lparr>sw_tasks := sw_tasks w @ [WantsLease own c]\<rparr>)"
| lease: "sw_tasks w = ts @ WantsLease own c # us \<Longrightarrow>
    acquire_lease (sw_coordinator w) (sw_clock w) c own lease_ttl = (co, Inr l) \<Longrightarrow>
    spawn_step w (w\<lparr>sw_coordinator := co, sw_tasks := ts @ HasLease own c l # us\<rparr>)"
| refuse: "sw_tasks w = ts @ WantsLease own c # us \<Longrightarrow>
    acquire_lease (sw_coordinator w) (sw_clock w) c own lease_ttl = (co, Inl e) \<Longrightarrow>
    spawn_step w (w\<lparr>sw_tasks := ts @ us\<rparr>)"
| insert: "sw_tasks w = ts @ HasLease own c l # us \<Longrightarrow> spawn_insert now c h l (sw_registries w own) = (rg, None) \<Longrightarrow>
    spawn_step w (w\<lparr>sw_registries := (sw_registries w)(own := cache_route c own rg), sw_tasks := ts @ us\<rparr>)"
| raced: "sw_tasks w = ts @ HasLease own c l # us \<Longrightarrow> spawn_insert now c h l (sw_registries w own) = (rg, Some winner) \<Longrightarrow>
    spawn_step w (w\<lparr>sw_registries := (sw_registries w)(own := cache_route c own rg), sw_tasks := ts @ MustRelease l # us\<rparr>)"
| release: "sw_tasks w = ts @ MustRelease l # us \<Longrightarrow>
    spawn_step w (w\<lparr>sw_coordinator := release_lease (sw_coordinator w) l, sw_tasks := ts @ us\<rparr>)"

section \<open>Laws of the registry\<close>

text \<open>
  What a lease protects: no operation of another instance disturbs it or brings its canvas to
  life there, and a shutdown gives all of them up; and how two spawns of one canvas that overlap
  lose the lease of the actor they leave running.
\<close>

section \<open>Leases under the operations\<close>

lemma release_lease_at:
  "co_leases (release_lease co l) c =
     (if c = ls_canvas_id l \<and> (\<exists>t. co_leases co c = Some t \<and> ln_token t = ls_token l \<and> ln_owner t = ls_owner l)
      then None else co_leases co c)"
  by (auto simp: release_lease_def split: option.split)

lemma acquire_other:
  assumes "co_leases co c = Some t" "clock < ln_expires_at t" "ln_owner t \<noteq> own"
  shows "acquire_lease co clock c own ttl = (co, Inl (LeasedBy c (ln_owner t) (ln_expires_at t)))"
  using assms by (simp add: acquire_lease_def)

lemma acquire_elsewhere: "acquire_lease co clock d own ttl = (co', x) \<Longrightarrow> c \<noteq> d \<Longrightarrow> co_leases co' c = co_leases co c"
  by (auto simp: acquire_lease_def next_token_def Let_def split: option.splits if_splits)

lemma acquired_lease: "acquire_lease co clock c own ttl = (co', Inr l) \<Longrightarrow> ls_canvas_id l = c \<and> ls_owner l = own"
  by (auto simp: acquire_lease_def next_token_def Let_def split: option.splits if_splits)

definition reg_ok :: "'h registry \<Rightarrow> bool" where
  "reg_ok rg \<longleftrightarrow> distinct (map fst (rg_inner rg)) \<and>
     (\<forall>(c, e) \<in> set (rg_inner rg). ls_canvas_id (en_lease e) = c \<and> ls_owner (en_lease e) = rg_owner rg)"

lemma reg_okD: "reg_ok rg \<Longrightarrow> (c, e) \<in> set (rg_inner rg) \<Longrightarrow> ls_canvas_id (en_lease e) = c \<and> ls_owner (en_lease e) = rg_owner rg"
  by (auto simp: reg_ok_def)

lemma release_entries_leases:
  "fst (release_entries es (co, rg)) = foldl release_lease co (map (en_lease \<circ> snd) es)"
  by (induction es arbitrary: co rg) (simp_all add: release_entries_def case_prod_beta)

lemma release_entries_registry:
  "rg_inner (snd (release_entries es (co, rg))) = rg_inner rg"
  "rg_owner (snd (release_entries es (co, rg))) = rg_owner rg"
  "rg_draining (snd (release_entries es (co, rg))) = rg_draining rg"
  by (induction es arbitrary: co rg) (simp_all add: release_entries_def uncache_route_def case_prod_beta)

lemma foldl_release_keeps:
  assumes "\<forall>l \<in> set ls. ls_canvas_id l = c \<longrightarrow> (\<forall>t. co_leases co c = Some t \<longrightarrow> ln_owner t \<noteq> ls_owner l)"
  shows "co_leases (foldl release_lease co ls) c = co_leases co c"
  using assms
proof (induction ls arbitrary: co)
  case (Cons l ls)
  have "co_leases (release_lease co l) c = co_leases co c" using Cons.prems by (auto simp: release_lease_at)
  then show ?case using Cons by simp
qed simp

lemma foldl_release_None: "co_leases co c = None \<Longrightarrow> co_leases (foldl release_lease co ls) c = None"
  by (induction ls arbitrary: co) (simp_all add: release_lease_at)

lemma foldl_release_gone:
  assumes "l \<in> set ls" "ls_canvas_id l = c" "co_leases co c = Some t" "ln_token t = ls_token l" "ln_owner t = ls_owner l"
  shows "co_leases (foldl release_lease co ls) c = None"
  using assms
proof (induction ls arbitrary: co)
  case (Cons k ls)
  show ?case
  proof (cases "co_leases (release_lease co k) c = None")
    case True
    then show ?thesis by (simp add: foldl_release_None)
  next
    case False
    then have same: "co_leases (release_lease co k) c = Some t" using Cons.prems(3) by (auto simp: release_lease_at split: if_splits)
    then have "l \<noteq> k" using Cons.prems by (auto simp: release_lease_at)
    then show ?thesis using Cons same by simp
  qed
qed simp

section \<open>One operation of an instance\<close>

datatype 'h reg_op =
    OpSpawn nat str 'h
  | OpResolve str
  | OpEvict str
  | OpEvictIdle nat nat
  | OpShutdown

fun reg_op_apply :: "u64 \<Rightarrow> 'h reg_op \<Rightarrow> coordinator \<times> 'h registry \<Rightarrow> coordinator \<times> 'h registry" where
  "reg_op_apply clock (OpSpawn now c h) s = fst (get_or_spawn now clock c h s)"
| "reg_op_apply clock (OpResolve c) s = fst (resolve_owner clock c s)"
| "reg_op_apply clock (OpEvict c) s = evict c s"
| "reg_op_apply clock (OpEvictIdle now m) s = fst (evict_idle now m s)"
| "reg_op_apply clock OpShutdown s = shutdown s"

definition leased_to :: "coordinator \<Rightarrow> u64 \<Rightarrow> str \<Rightarrow> str \<Rightarrow> bool" where
  "leased_to co clock c own \<longleftrightarrow> (\<exists>t. co_leases co c = Some t \<and> ln_owner t = own \<and> clock < ln_expires_at t)"

lemma touch_facts: "map fst (rg_inner (touch now c rg)) = map fst (rg_inner rg)" "rg_owner (touch now c rg) = rg_owner rg"
  by (simp_all add: touch_def comp_def split_beta)

lemma contains_iff: "registry_contains rg c \<longleftrightarrow> c \<in> fst ` set (rg_inner rg)"
  by (simp add: registry_contains_def map_of_eq_None_iff)

lemma spawn_other:
  assumes "leased_to co clock c a" "rg_owner rg \<noteq> a" "get_or_spawn now clock d h (co, rg) = ((co', rg'), x)"
  shows "co_leases co' c = co_leases co c \<and> (registry_contains rg' c \<longrightarrow> registry_contains rg c)"
proof (cases "map_of (rg_inner rg) d")
  case (Some e)
  then have "co' = co" "rg' = touch now d rg" using assms(3) by (simp_all add: get_or_spawn_def spawn_lookup_def)
  then show ?thesis by (metis contains_iff list.set_map touch_facts(1))
next
  case None
  show ?thesis
  proof (cases "rg_draining rg")
    case True
    then show ?thesis using None assms(3) by (simp add: get_or_spawn_def spawn_lookup_def)
  next
    case go: False
    show ?thesis
    proof (cases "d = c")
      case True
      then obtain t where "co_leases co d = Some t" "clock < ln_expires_at t" "ln_owner t \<noteq> rg_owner rg"
        using assms(1,2) by (auto simp: leased_to_def)
      from acquire_other[OF this] show ?thesis
        using None go assms(3) by (simp add: get_or_spawn_def spawn_lookup_def)
    next
      case False
      obtain co1 y where acq: "acquire_lease co clock d (rg_owner rg) lease_ttl = (co1, y)" by fastforce
      note same = acquire_elsewhere[OF acq, of c]
      show ?thesis
        using None go assms(3) acq same False
        by (cases y) (auto simp: get_or_spawn_def spawn_lookup_def spawn_insert_def cache_route_def registry_contains_def)
    qed
  qed
qed

lemma resolve_other:
  assumes "leased_to co clock c a" "rg_owner rg \<noteq> a"
  shows "co_leases (fst (fst (resolve_owner clock d (co, rg)))) c = co_leases co c"
    "rg_inner (snd (fst (resolve_owner clock d (co, rg)))) = rg_inner rg"
proof -
  obtain co1 y where acq: "acquire_lease co clock d (rg_owner rg) lease_ttl = (co1, y)" by fastforce
  have "co_leases co1 c = co_leases co c" if "find_owner co clock d = None"
  proof -
    have "d \<noteq> c" using that assms(1) by (auto simp: leased_to_def find_owner_def)
    then show ?thesis using acquire_elsewhere[OF acq] by simp
  qed
  moreover have "d \<noteq> c" if "find_owner co clock d = None"
    using that assms(1) by (auto simp: leased_to_def find_owner_def)
  ultimately show "co_leases (fst (fst (resolve_owner clock d (co, rg)))) c = co_leases co c"
    using acq acquired_lease[of co clock d "rg_owner rg" lease_ttl co1]
    by (cases y) (auto simp: resolve_owner_def release_lease_at split: option.split)
  show "rg_inner (snd (fst (resolve_owner clock d (co, rg)))) = rg_inner rg"
    by (simp add: resolve_owner_def cache_route_def Let_def split_beta split: option.split)
qed

lemma reg_op_other:
  assumes "leased_to co clock c a" "rg_owner rg \<noteq> a" "reg_ok rg" "reg_op_apply clock op (co, rg) = (co', rg')"
  shows "leased_to co' clock c a \<and> (registry_contains rg' c \<longrightarrow> registry_contains rg c)"
proof -
  obtain t where t: "co_leases co c = Some t" "ln_owner t = a" using assms(1) by (auto simp: leased_to_def)
  have other: "\<forall>l \<in> set (map (en_lease \<circ> snd) es). ls_canvas_id l = c \<longrightarrow> (\<forall>t. co_leases co c = Some t \<longrightarrow> ln_owner t \<noteq> ls_owner l)"
    if "set es \<subseteq> set (rg_inner rg)" for es
    using that assms(2) t reg_okD[OF assms(3)] by fastforce
  have "co_leases co' c = co_leases co c \<and> (registry_contains rg' c \<longrightarrow> registry_contains rg c)"
  proof (cases op)
    case (OpSpawn now d h)
    then obtain x where "get_or_spawn now clock d h (co, rg) = ((co', rg'), x)"
      using assms(4) by (cases "get_or_spawn now clock d h (co, rg)") simp
    then show ?thesis by (rule spawn_other[OF assms(1,2)])
  next
    case (OpResolve d)
    then show ?thesis using resolve_other[OF assms(1,2), of d] assms(4) by (simp add: registry_contains_def)
  next
    case (OpEvict d)
    have "co_leases (release_lease co (en_lease e)) c = co_leases co c" if "map_of (rg_inner rg) d = Some e" for e
      using foldl_release_keeps[OF other, of "[(d, e)]"] map_of_SomeD[OF that] by simp
    then show ?thesis using OpEvict assms(4)
      by (auto simp: evict_def forget_def uncache_route_def contains_iff split: option.splits)
  next
    case (OpEvictIdle now m)
    let ?es = "filter (\<lambda>(_, e). m \<le> now - en_last e) (rg_inner rg)"
    have "set ?es \<subseteq> set (rg_inner rg)" by auto
    note keep = foldl_release_keeps[OF other[OF this]]
    have res: "(co', rg') = release_entries ?es (co, rg\<lparr>rg_inner := filter (\<lambda>(_, e). \<not> m \<le> now - en_last e) (rg_inner rg)\<rparr>)"
      using OpEvictIdle assms(4) by (simp add: evict_idle_def Let_def)
    have "co_leases co' c = co_leases co c" using keep arg_cong[OF res, of fst] by (simp add: release_entries_leases)
    moreover have "rg_inner rg' = filter (\<lambda>(_, e). \<not> m \<le> now - en_last e) (rg_inner rg)"
      using arg_cong[OF res, of snd] by (simp add: release_entries_registry)
    ultimately show ?thesis by (auto simp: contains_iff)
  next
    case OpShutdown
    have res: "(co', rg') = release_entries (rg_inner rg) (co, rg\<lparr>rg_draining := True, rg_inner := []\<rparr>)"
      using OpShutdown assms(4) by (simp add: shutdown_def)
    have "co_leases co' c = co_leases co c"
      using foldl_release_keeps[OF other, of "rg_inner rg"] arg_cong[OF res, of fst] by (simp add: release_entries_leases)
    moreover have "rg_inner rg' = []" using arg_cong[OF res, of snd] by (simp add: release_entries_registry)
    ultimately show ?thesis by (simp add: contains_iff)
  qed
  then show ?thesis using assms(1) by (simp add: leased_to_def)
qed

section \<open>Shutdown\<close>

lemma shutdown_law:
  assumes "reg_ok rg" "shutdown (co, rg) = (co', rg')"
  shows "rg_inner rg' = []" "fst (get_or_spawn now clock c h (co', rg')) = (co', rg') \<and>
      snd (get_or_spawn now clock c h (co', rg')) = Inl Draining"
    "map_of (rg_inner rg) c = Some e \<Longrightarrow> co_leases co c = Some t \<Longrightarrow> ln_token t = ls_token (en_lease e) \<Longrightarrow>
      ln_owner t = rg_owner rg \<Longrightarrow> find_owner co' clock c = None"
proof -
  have res: "(co', rg') = release_entries (rg_inner rg) (co, rg\<lparr>rg_draining := True, rg_inner := []\<rparr>)"
    using assms(2) by (simp add: shutdown_def)
  show inner: "rg_inner rg' = []" using arg_cong[OF res, of snd] by (simp add: release_entries_registry)
  have "rg_draining rg'" using arg_cong[OF res, of snd] by (simp add: release_entries_registry)
  then show "fst (get_or_spawn now clock c h (co', rg')) = (co', rg') \<and>
      snd (get_or_spawn now clock c h (co', rg')) = Inl Draining"
    using inner by (simp add: get_or_spawn_def spawn_lookup_def)
  assume e: "map_of (rg_inner rg) c = Some e" "co_leases co c = Some t" "ln_token t = ls_token (en_lease e)"
    "ln_owner t = rg_owner rg"
  have mem: "(c, e) \<in> set (rg_inner rg)" using e(1) by (rule map_of_SomeD)
  then have "en_lease e \<in> set (map (en_lease \<circ> snd) (rg_inner rg))" by force
  from foldl_release_gone[OF this _ e(2,3)] have "co_leases co' c = None"
    using reg_okD[OF assms(1) mem] e(4) arg_cong[OF res, of fst] by (simp add: release_entries_leases)
  then show "find_owner co' clock c = None" by (simp add: find_owner_def)
qed

lemma reg_ok_new: "reg_ok (registry_new own)"
  by (simp add: reg_ok_def registry_new_def)

lemma reg_ok_touch: "reg_ok rg \<Longrightarrow> reg_ok (touch now c rg)"
  by (auto simp: reg_ok_def touch_def comp_def split_beta)

lemma reg_ok_inner:
  "reg_ok rg \<Longrightarrow> rg_inner rg' = filter P (rg_inner rg) \<Longrightarrow> rg_owner rg' = rg_owner rg \<Longrightarrow> reg_ok rg'"
  by (auto simp: reg_ok_def distinct_map_filter)

lemma reg_ok_insert:
  assumes "reg_ok rg" "spawn_insert now c h l rg = (rg', y)" "ls_canvas_id l = c" "ls_owner l = rg_owner rg"
  shows "reg_ok (cache_route c own rg')"
proof (cases "map_of (rg_inner rg) c")
  case None
  then have "c \<notin> fst ` set (rg_inner rg)" by (simp add: map_of_eq_None_iff)
  then show ?thesis using assms None by (auto simp: spawn_insert_def cache_route_def reg_ok_def)
next
  case (Some e)
  then have "reg_ok rg'" using assms(2) reg_ok_touch[OF assms(1)] by (auto simp: spawn_insert_def)
  then show ?thesis by (simp add: reg_ok_def cache_route_def)
qed

lemma reg_op_ok:
  assumes "reg_ok rg"
  shows "reg_ok (snd (reg_op_apply clock op (co, rg)))"
proof (cases op)
  case (OpSpawn now c h)
  obtain co1 y where acq: "acquire_lease co clock c (rg_owner rg) lease_ttl = (co1, y)" by fastforce
  have ins: "reg_ok (cache_route c own (fst (spawn_insert now c h l rg)))" if "y = Inr l" for l own
    using reg_ok_insert[OF assms surjective_pairing] acquired_lease acq that by blast
  show ?thesis
  proof (cases "map_of (rg_inner rg) c")
    case (Some e)
    then show ?thesis using OpSpawn reg_ok_touch[OF assms, of now c] by (simp add: get_or_spawn_def spawn_lookup_def)
  next
    case None
    then show ?thesis using OpSpawn acq ins assms
      by (cases y) (auto simp: get_or_spawn_def spawn_lookup_def split_beta split: option.split)
  qed
next
  case (OpResolve c)
  then show ?thesis using assms
    by (simp add: resolve_owner_def cache_route_def Let_def split_beta reg_ok_def split: option.split)
next
  case (OpEvict c)
  then show ?thesis
    using reg_ok_inner[OF assms, of "uncache_route c (forget c rg)" "\<lambda>(k, _). k \<noteq> c"]
    by (simp add: evict_def forget_def uncache_route_def)
next
  case (OpEvictIdle now m)
  then show ?thesis
    by (intro reg_ok_inner[OF assms, of _ "\<lambda>(_, e). \<not> m \<le> now - en_last e"])
      (simp_all add: evict_idle_def Let_def release_entries_registry)
next
  case OpShutdown
  then show ?thesis
    by (intro reg_ok_inner[OF assms, of _ "\<lambda>_. False"]) (simp_all add: shutdown_def release_entries_registry)
qed

section \<open>Overlapping spawns\<close>

definition race_lease :: "str \<Rightarrow> nat \<Rightarrow> lease" where
  "race_lease own n = \<lparr>ls_canvas_id = ''c'', ls_owner = own, ls_token = own @ ''-'' @ show_nat n, ls_expires_at = 30000\<rparr>"

lemma race_acquire:
  assumes "co_leases co ''c'' = None \<or> (\<exists>t. co_leases co ''c'' = Some t \<and> ln_owner t = own)" "unat (co_counter co) = n"
  shows "\<exists>co'. acquire_lease co 0 ''c'' own lease_ttl = (co', Inr (race_lease own n)) \<and>
    co_counter co' = co_counter co + 1 \<and>
    co_leases co' ''c'' = Some \<lparr>ln_owner = own, ln_token = own @ ''-'' @ show_nat n, ln_expires_at = 30000\<rparr>"
  using assms by (auto simp: acquire_lease_def next_token_def Let_def millis_u64_def lease_ttl_def race_lease_def)

abbreviation spawn_at :: "u64 \<Rightarrow> coordinator \<Rightarrow> (str \<Rightarrow> 'h registry) \<Rightarrow> spawn_task list \<Rightarrow> 'h spawn_world" where
  "spawn_at t co regs ts \<equiv> \<lparr>sw_clock = t, sw_coordinator = co, sw_registries = regs, sw_tasks = ts\<rparr>"

text \<open>The steps of a spawn as what they make of the parts of the world.\<close>

lemma look_step:
  "\<not> registry_contains (regs own) c \<Longrightarrow> \<not> rg_draining (regs own) \<Longrightarrow>
   spawn_step (spawn_at t co regs ts) (spawn_at t co regs (ts @ [WantsLease own c]))"
  using look[of undefined c "spawn_at t co regs ts" own "regs own"] by (simp add: spawn_lookup_def registry_contains_def)

lemma lease_step:
  "acquire_lease co t c own lease_ttl = (co', Inr l) \<Longrightarrow>
   spawn_step (spawn_at t co regs (ts @ WantsLease own c # us)) (spawn_at t co' regs (ts @ HasLease own c l # us))"
  using lease[of "spawn_at t co regs (ts @ WantsLease own c # us)" ts own c us co' l] by simp

lemma insert_step:
  assumes "\<not> registry_contains (regs own) c"
  shows "\<exists>rg. spawn_step (spawn_at t co regs (ts @ HasLease own c l # us)) (spawn_at t co (regs(own := rg)) (ts @ us)) \<and>
    registry_contains rg c"
proof -
  obtain rg where rg: "spawn_insert 0 c undefined l (regs own) = (rg, None)" "registry_contains rg c"
    using assms by (auto simp: spawn_insert_def registry_contains_def map_add_def)
  have "registry_contains (cache_route c own rg) c" using rg(2) by (simp add: registry_contains_def cache_route_def)
  then show ?thesis
    using insert[of "spawn_at t co regs (ts @ HasLease own c l # us)" ts own c l us 0 undefined rg] rg(1) by auto
qed

lemma raced_step:
  assumes "registry_contains (regs own) c"
  shows "\<exists>rg. spawn_step (spawn_at t co regs (ts @ HasLease own c l # us)) (spawn_at t co (regs(own := rg)) (ts @ MustRelease l # us)) \<and>
    registry_contains rg c"
proof -
  obtain e where e: "map_of (rg_inner (regs own)) c = Some e" using assms by (auto simp: registry_contains_def)
  have "map_of (map (\<lambda>(k, e). (k, if k = c then e\<lparr>en_last := now\<rparr> else e)) xs) c = map_option (en_last_update (\<lambda>_. now)) (map_of xs c)"
    for now and xs :: "(str \<times> 'a reg_entry) list" by (induction xs) auto
  then have "registry_contains (cache_route c own (touch now c (regs own))) c" for now
    using e by (simp add: registry_contains_def cache_route_def touch_def)
  moreover have "spawn_insert now c h l (regs own) = (touch now c (regs own), Some (en_handle e))" for now h
    using e by (simp add: spawn_insert_def)
  ultimately show ?thesis
    using raced[of "spawn_at t co regs (ts @ HasLease own c l # us)" ts own c l us] by fastforce
qed

lemma release_step:
  "spawn_step (spawn_at t co regs (ts @ MustRelease l # us)) (spawn_at t (release_lease co l) regs (ts @ us))"
  using release[of "spawn_at t co regs (ts @ MustRelease l # us)" ts l us] by simp

lemma acquire_free:
  assumes "find_owner co t c \<in> {None, Some own}"
  obtains co' l where "acquire_lease co t c own lease_ttl = (co', Inr l)" "ls_canvas_id l = c" "ls_owner l = own"
    "co_leases co' c = Some \<lparr>ln_owner = own, ln_token = ls_token l, ln_expires_at = ls_expires_at l\<rparr>"
    "find_owner co' t c \<in> {None, Some own}"
  using assms by (auto simp: acquire_lease_def next_token_def find_owner_def Let_def split: option.splits if_splits)

text \<open>
  Two tasks of the instance \<open>a\<close> look the canvas up, both get the lease, the first that got it
  inserts its actor, the second loses the race and releases its token, which is the one on record.
  Then \<open>b\<close> is granted the lease.
\<close>

lemma race_run:
  assumes "\<not> registry_contains (regs a) c" "\<not> rg_draining (regs a)" "find_owner co t c \<in> {None, Some a}"
  shows "\<exists>co' rg. spawn_step\<^sup>*\<^sup>* (spawn_at t co regs ts) (spawn_at t co' (regs(a := rg)) ts) \<and> registry_contains rg c \<and> co_leases co' c = None"
proof -
  obtain co1 l1 where l1: "acquire_lease co t c a lease_ttl = (co1, Inr l1)" "find_owner co1 t c \<in> {None, Some a}"
    using acquire_free[OF assms(3)] .
  obtain co2 l2 where l2: "acquire_lease co1 t c a lease_ttl = (co2, Inr l2)" "ls_canvas_id l2 = c" "ls_owner l2 = a"
    "co_leases co2 c = Some \<lparr>ln_owner = a, ln_token = ls_token l2, ln_expires_at = ls_expires_at l2\<rparr>"
    using acquire_free[OF l1(2)] .
  have "spawn_step (spawn_at t co regs ts) (spawn_at t co regs (ts @ [WantsLease a c]))"
    using assms(1,2) by (rule look_step)
  moreover have "spawn_step (spawn_at t co regs (ts @ [WantsLease a c])) (spawn_at t co regs (ts @ [WantsLease a c, WantsLease a c]))"
    using look_step[where regs = regs and own = a and c = c and ts = "ts @ [WantsLease a c]"] assms(1,2) by simp
  moreover have "spawn_step (spawn_at t co regs (ts @ [WantsLease a c, WantsLease a c])) (spawn_at t co1 regs (ts @ [HasLease a c l1, WantsLease a c]))"
    by (rule lease_step[OF l1(1)])
  moreover have "spawn_step (spawn_at t co1 regs (ts @ [HasLease a c l1, WantsLease a c])) (spawn_at t co2 regs (ts @ [HasLease a c l1, HasLease a c l2]))"
    using lease_step[OF l2(1), of regs "ts @ [HasLease a c l1]" "[]"] by simp
  moreover obtain rg1 where r1: "spawn_step (spawn_at t co2 regs (ts @ [HasLease a c l1, HasLease a c l2])) (spawn_at t co2 (regs(a := rg1)) (ts @ [HasLease a c l2]))"
    "registry_contains rg1 c" using insert_step[of regs a c t co2 ts l1 "[HasLease a c l2]", OF assms(1)] by auto
  moreover obtain rg2 where r2: "spawn_step (spawn_at t co2 (regs(a := rg1)) (ts @ [HasLease a c l2])) (spawn_at t co2 (regs(a := rg2)) (ts @ [MustRelease l2]))"
    "registry_contains rg2 c" using raced_step[of "regs(a := rg1)" a c t co2 ts l2 "[]"] r1(2) by auto
  moreover have "spawn_step (spawn_at t co2 (regs(a := rg2)) (ts @ [MustRelease l2])) (spawn_at t (release_lease co2 l2) (regs(a := rg2)) ts)"
    using release_step[of t co2 "regs(a := rg2)" ts l2 "[]"] by simp
  ultimately have "spawn_step\<^sup>*\<^sup>* (spawn_at t co regs ts) (spawn_at t (release_lease co2 l2) (regs(a := rg2)) ts)"
    by (meson rtranclp.rtrancl_refl rtranclp.rtrancl_into_rtrancl)
  moreover have "co_leases (release_lease co2 l2) c = None" using l2 by (simp add: release_lease_at)
  ultimately show ?thesis using r2(2) by blast
qed

lemma spawn_run:
  assumes "\<not> registry_contains (regs b) c" "\<not> rg_draining (regs b)" "co_leases co c = None"
  shows "\<exists>co' rg e. spawn_step\<^sup>*\<^sup>* (spawn_at t co regs ts) (spawn_at t co' (regs(b := rg)) ts) \<and> registry_contains rg c \<and>
    co_leases co' c = Some e \<and> ln_owner e = b"
proof -
  have "find_owner co t c \<in> {None, Some b}" using assms(3) by (simp add: find_owner_def)
  then obtain co1 l1 where l1: "acquire_lease co t c b lease_ttl = (co1, Inr l1)"
    "co_leases co1 c = Some \<lparr>ln_owner = b, ln_token = ls_token l1, ln_expires_at = ls_expires_at l1\<rparr>"
    by (rule acquire_free)
  have "spawn_step (spawn_at t co regs ts) (spawn_at t co regs (ts @ [WantsLease b c]))"
    using assms(1,2) by (rule look_step)
  moreover have "spawn_step (spawn_at t co regs (ts @ [WantsLease b c])) (spawn_at t co1 regs (ts @ [HasLease b c l1]))"
    by (rule lease_step[OF l1(1)])
  moreover obtain rg where "spawn_step (spawn_at t co1 regs (ts @ [HasLease b c l1])) (spawn_at t co1 (regs(b := rg)) ts)"
    "registry_contains rg c" using insert_step[of regs b c t co1 ts l1 "[]", OF assms(1)] by auto
  ultimately show ?thesis using l1(2)
    by (intro exI[of _ co1] exI[of _ rg] exI conjI) (blast intro: rtranclp.rtrancl_into_rtrancl, auto)
qed

end
