(* ===== verification/Registry_Properties.thy ===== *)
theory Registry_Properties
  imports Registry
begin

text \<open>
  The properties of the registry of actors and of the list of canvases.
\<close>

text \<open>A codec of summaries: a character is a one and its byte, a string ends with a zero.\<close>

fun plain_str :: "str \<Rightarrow> bytes" where
  "plain_str [] = [0]"
| "plain_str (c # s) = 1 # of_nat (of_char c) # plain_str s"

fun read_str :: "bytes \<Rightarrow> str \<times> bytes" where
  "read_str [] = ([], [])"
| "read_str [x] = ([], [])"
| "read_str (x # y # bs) =
     (if x = 0 then ([], y # bs) else let (s, rest) = read_str bs in (char_of (unat y) # s, rest))"

lemma read_plain: "read_str (plain_str s @ bs) = (s, bs)"
proof (induction s)
  case Nil
  then show ?case by (cases bs) simp_all
next
  case (Cons c s)
  have "unat (of_nat (of_char c) :: 8 word) = (of_char c :: nat)" by (simp add: unat_of_nat of_char_mod_256)
  then show ?case using Cons by simp
qed

definition plain_summary :: "canvas_summary \<Rightarrow> bytes" where
  "plain_summary c = plain_str (cs_id c) @ plain_str (cs_title c) @ plain_str (cs_updated_at c)"

fun read_summaries :: "nat \<Rightarrow> bytes \<Rightarrow> canvas_summary list" where
  "read_summaries 0 bs = []"
| "read_summaries (Suc n) bs =
     (if bs = [] then []
      else let (i, bs1) = read_str bs; (t, bs2) = read_str bs1; (u, bs3) = read_str bs2
        in \<lparr>cs_id = i, cs_title = t, cs_updated_at = u\<rparr> # read_summaries n bs3)"

definition plain_codec :: index_codec where
  "plain_codec = \<lparr>ic_enc = (\<lambda>cs. concat (map plain_summary cs)), ic_dec = (\<lambda>bs. Some (read_summaries (length bs) bs))\<rparr>"

lemma plain_str_ne [simp]: "plain_str s \<noteq> []"
  by (cases s) simp_all

lemma read_plain_summaries: "length cs \<le> n \<Longrightarrow> read_summaries n (concat (map plain_summary cs)) = cs"
proof (induction cs arbitrary: n)
  case Nil
  then show ?case by (cases n) simp_all
next
  case (Cons c cs)
  then obtain m where "n = Suc m" by (cases n) auto
  then show ?case using Cons by (simp add: plain_summary_def read_plain)
qed

lemma plain_codec_ok: "codec_ok plain_codec"
proof -
  have one: "1 \<le> length (plain_summary c)" for c by (cases "cs_id c") (simp_all add: plain_summary_def)
  have "length cs \<le> length (concat (map plain_summary cs))" for cs
  proof (induction cs)
    case (Cons c cs)
    then show ?case using one[of c] by simp
  qed simp
  then show ?thesis by (simp add: codec_ok_def plain_codec_def read_plain_summaries)
qed

lemma memory_room: "index_fits (\<lambda>_. True) (\<lambda>_. True) cd C"
  by (simp add: index_fits_def)

lemma memory_new_repr: "memory_repr memory_adapter_new Map.empty Map.empty"
  by (simp add: memory_repr_def memory_adapter_new_def bt_ok_def snapshot_ok_def fun_eq_iff bt_get_def)

text \<open>C39: over the memory adapter the index of canvases behaves as a list without repeated ids:
  creating appends a summary unless the id is listed, in which case the old one is returned and
  nothing changes; deleting removes exactly the id and tells whether it was there; and a deleted
  canvas leaves no record under its prefix while every other record stays.\<close>

theorem canvas_index_list:
  assumes "codec_ok cd" "memory_repr a C R" "create_canvas memory_ops cd a i title now = (a1, x)"
    "delete_canvas memory_ops cd a i = (a2, y)"
  shows "(\<exists>s. x = Inr s \<and> cs_id s = i \<and> s \<in> set (list_canvases memory_ops cd a1)) \<and>
    list_canvases memory_ops cd a1 =
      (if \<exists>c \<in> set (list_canvases memory_ops cd a). cs_id c = i then list_canvases memory_ops cd a
       else list_canvases memory_ops cd a @ [\<lparr>cs_id = i, cs_title = title, cs_updated_at = now\<rparr>]) \<and>
    y = Inr (\<exists>c \<in> set (list_canvases memory_ops cd a). cs_id c = i) \<and>
    list_canvases memory_ops cd a2 = filter (\<lambda>c. cs_id c \<noteq> i) (list_canvases memory_ops cd a) \<and>
    (\<exists>R'. memory_repr (prune_canvas_records memory_ops a i)
       (C |` {k. \<not> has_prefix (canvas_record_prefix i) k}) R')"
  using mem_store.create_listed[OF assms(1) memory_room assms(2,3)]
    mem_store.delete_listed[OF assms(1) memory_room assms(2,4)] mem_store.prune_repr[OF assms(2), of i] by blast

definition plan_entry :: canvas_summary where
  "plan_entry = \<lparr>cs_id = ''c'', cs_title = ''Plan'', cs_updated_at = ''1''\<rparr>"

definition notes_entry :: canvas_summary where
  "notes_entry = \<lparr>cs_id = ''d'', cs_title = ''Notes'', cs_updated_at = ''2''\<rparr>"

text \<open>Of two listed canvases, a third is created, one is created again and one is deleted.\<close>

theorem canvas_index_list_witness:
  "\<exists>a a1 s b1 t a2. save_index memory_ops plain_codec memory_adapter_new [plan_entry, notes_entry] = (a, Inr ()) \<and>
     create_canvas memory_ops plain_codec a ''e'' ''Map'' ''3'' = (a1, Inr s) \<and>
     list_canvases memory_ops plain_codec a1 = [plan_entry, notes_entry, \<lparr>cs_id = ''e'', cs_title = ''Map'', cs_updated_at = ''3''\<rparr>] \<and>
     create_canvas memory_ops plain_codec a ''c'' ''Other'' ''3'' = (b1, Inr t) \<and>
     list_canvases memory_ops plain_codec b1 = [plan_entry, notes_entry] \<and>
     delete_canvas memory_ops plain_codec a ''c'' = (a2, Inr True) \<and>
     list_canvases memory_ops plain_codec a2 = [notes_entry]"
proof -
  obtain a u where a: "save_index memory_ops plain_codec memory_adapter_new [plan_entry, notes_entry] = (a, u)" by fastforce
  note saved = mem_store.save_index_listed[OF plain_codec_ok memory_room memory_new_repr a]
  have u: "u = Inr ()" and r: "memory_repr a (Map.empty(canvas_index_record_id \<mapsto> index_record plain_codec [plan_entry, notes_entry])) Map.empty"
    and l: "list_canvases memory_ops plain_codec a = [plan_entry, notes_entry]" using saved by blast+
  have ids: "cs_id plan_entry = ''c''" "cs_id notes_entry = ''d''" by (simp_all add: plan_entry_def notes_entry_def)
  obtain a1 x where c: "create_canvas memory_ops plain_codec a ''e'' ''Map'' ''3'' = (a1, x)" by fastforce
  obtain b1 z where b: "create_canvas memory_ops plain_codec a ''c'' ''Other'' ''3'' = (b1, z)" by fastforce
  obtain a2 y where d: "delete_canvas memory_ops plain_codec a ''c'' = (a2, y)" by fastforce
  obtain a3 v where e: "delete_canvas memory_ops plain_codec a ''e'' = (a3, v)" by fastforce
  note fresh = canvas_index_list[OF plain_codec_ok r c e] and again = canvas_index_list[OF plain_codec_ok r b d]
  obtain s where s: "x = Inr s" using fresh by blast
  obtain t where t: "z = Inr t" using again by blast
  have new: "list_canvases memory_ops plain_codec a1 = [plan_entry, notes_entry, \<lparr>cs_id = ''e'', cs_title = ''Map'', cs_updated_at = ''3''\<rparr>]"
    using fresh[THEN conjunct2, THEN conjunct1] by (simp add: l ids)
  have old: "list_canvases memory_ops plain_codec b1 = [plan_entry, notes_entry]"
    using again[THEN conjunct2, THEN conjunct1] by (simp add: l ids)
  have gone: "y = Inr True" "list_canvases memory_ops plain_codec a2 = [notes_entry]"
    using again[THEN conjunct2, THEN conjunct2] by (simp_all add: l ids)
  show ?thesis
    by (rule exI[of _ a], rule exI[of _ a1], rule exI[of _ s], rule exI[of _ b1], rule exI[of _ t], rule exI[of _ a2])
      (simp only: a u c s b t d new old gone simp_thms)
qed

text \<open>While an instance holds the unexpired lease of a canvas, no operation of another instance
  (opening, resolving, evicting, idle eviction, shutdown) takes that lease away, and none brings the
  canvas to life there.\<close>

theorem held_lease_undisturbed:
  assumes "leased_to co clock c a" "rg_owner rg \<noteq> a" "reg_ok rg" "reg_op_apply clock op (co, rg) = (co', rg')"
  shows "leased_to co' clock c a \<and> (registry_contains rg' c \<longrightarrow> registry_contains rg c) \<and> reg_ok rg'"
proof -
  have "reg_ok rg'" using reg_op_ok[OF assms(3), of clock op co] unfolding assms(4) by simp
  then show ?thesis using reg_op_other[OF assms] by blast
qed

theorem held_lease_undisturbed_witness:
  "\<exists>co co' rg'. reg_op_apply 0 (OpSpawn 0 ''c'' ()) (co, registry_new ''b'') = (co', rg') \<and>
     leased_to co 0 ''c'' ''a'' \<and> leased_to co' 0 ''c'' ''a'' \<and> \<not> registry_contains rg' ''c''"
proof -
  have "co_leases coordinator_new ''c'' = None" by (simp add: coordinator_new_def)
  from race_acquire[OF disjI1[OF this] refl, of "''a''"] obtain co :: coordinator where
    co: "co_leases co ''c'' = Some \<lparr>ln_owner = ''a'', ln_token = ''a'' @ ''-'' @ show_nat (unat (co_counter coordinator_new)), ln_expires_at = 30000\<rparr>"
    by blast
  have held: "leased_to co 0 ''c'' ''a''" using co by (simp add: leased_to_def)
  obtain co' rg' where op: "reg_op_apply 0 (OpSpawn 0 ''c'' ()) (co, registry_new ''b'') = (co', rg')" by fastforce
  have own: "rg_owner (registry_new ''b'' :: unit registry) \<noteq> ''a''" by (simp add: registry_new_def)
  have fresh: "\<not> registry_contains (registry_new ''b'' :: unit registry) ''c''" by (simp add: registry_contains_def registry_new_def)
  note law = held_lease_undisturbed[OF held own reg_ok_new op]
  have "leased_to co' 0 ''c'' ''a''" using law by (rule conjunct1)
  moreover have "\<not> registry_contains rg' ''c''" using law fresh by blast
  ultimately show ?thesis using op held by (intro exI conjI)
qed

text \<open>C40: two opens of one canvas that overlap on one instance can leave its actor live and no lease on
  record, so that another instance opens the canvas too. In every state in which neither of two
  instances has the canvas live or is draining and no third one holds its lease, there is such an
  interleaving, and the clock need not move: both tasks of the first instance are granted the lease,
  the one granted first inserts its actor, and the other releases the lease on record.\<close>

theorem overlapping_spawns_two_writers:
  fixes w :: "'h spawn_world"
  assumes "a \<noteq> b" "find_owner (sw_coordinator w) (sw_clock w) c \<in> {None, Some a}"
    "\<not> registry_contains (sw_registries w a) c" "\<not> rg_draining (sw_registries w a)"
    "\<not> registry_contains (sw_registries w b) c" "\<not> rg_draining (sw_registries w b)"
  shows "\<exists>w' e. spawn_step\<^sup>*\<^sup>* w w' \<and> sw_clock w' = sw_clock w \<and> sw_tasks w' = sw_tasks w \<and>
     registry_contains (sw_registries w' a) c \<and> registry_contains (sw_registries w' b) c \<and>
     co_leases (sw_coordinator w') c = Some e \<and> ln_owner e = b"
proof -
  obtain t co regs ts where w: "w = spawn_at t co regs ts" by (cases w) simp
  obtain co1 rg1 where r1: "spawn_step\<^sup>*\<^sup>* w (spawn_at t co1 (regs(a := rg1)) ts)" "registry_contains rg1 c" "co_leases co1 c = None"
    using race_run[of regs a c co t ts] assms(2,3,4) unfolding w by auto
  obtain co2 rg2 e where r2: "spawn_step\<^sup>*\<^sup>* (spawn_at t co1 (regs(a := rg1)) ts) (spawn_at t co2 (regs(a := rg1, b := rg2)) ts)"
    "registry_contains rg2 c" "co_leases co2 c = Some e" "ln_owner e = b"
    using spawn_run[of "regs(a := rg1)" b c co1 t ts] assms(1,5,6) r1(3) unfolding w by auto
  show ?thesis
    by (rule exI[of _ "spawn_at t co2 (regs(a := rg1, b := rg2)) ts"], rule exI[of _ e])
      (use r1 r2 assms(1) rtranclp_trans[OF r1(1) r2(1)] in \<open>simp add: w\<close>)
qed

theorem overlapping_spawns_two_writers_witness:
  "\<exists>w' :: unit spawn_world. spawn_step\<^sup>*\<^sup>* (spawn_world_new 0) w' \<and> sw_clock w' = 0 \<and> sw_tasks w' = [] \<and>
     registry_contains (sw_registries w' ''a'') ''c'' \<and> registry_contains (sw_registries w' ''b'') ''c''"
proof -
  have "find_owner (sw_coordinator (spawn_world_new 0 :: unit spawn_world)) (sw_clock (spawn_world_new 0 :: unit spawn_world)) ''c'' \<in> {None, Some ''a''}"
    by (simp add: spawn_world_new_def coordinator_new_def find_owner_def)
  moreover have "\<not> registry_contains (sw_registries (spawn_world_new 0 :: unit spawn_world) own) ''c''"
    "\<not> rg_draining (sw_registries (spawn_world_new 0 :: unit spawn_world) own)" for own
    by (simp_all add: spawn_world_new_def registry_new_def registry_contains_def)
  moreover have "''a'' \<noteq> ''b''" by simp
  ultimately obtain w' e where "spawn_step\<^sup>*\<^sup>* (spawn_world_new 0 :: unit spawn_world) w'" "sw_clock w' = sw_clock (spawn_world_new 0 :: unit spawn_world)"
    "sw_tasks w' = sw_tasks (spawn_world_new 0 :: unit spawn_world)" "registry_contains (sw_registries w' ''a'') ''c''"
    "registry_contains (sw_registries w' ''b'') ''c''"
    using overlapping_spawns_two_writers[of "''a''" "''b''" "spawn_world_new 0 :: unit spawn_world" "''c''"] by blast
  then show ?thesis by (intro exI[of _ w']) (simp add: spawn_world_new_def)
qed

end
