(* ===== verification/RenderObject.thy ===== *)
theory RenderObject
  imports LayoutSolve Commands "HOL-Library.Product_Lexorder" "HOL-Library.AList"
begin

text \<open>
  The objects as the renderer sees them: \<open>renderer-core/src/render_object.rs\<close>, with its own path
  parser, and the mirror of the theme tokens in \<open>renderer-core/src/object_theme.rs\<close>. The serde
  attributes are not modelled.
\<close>

section \<open>Types\<close>

record r_local_point =
  rlp_x :: f64
  rlp_y :: f64

record r_anchor =
  ra_node :: nat
  ra_target :: str
  ra_at :: r_local_point

record r_gradient_stop =
  rgs_offset :: f64
  rgs_color :: str

datatype r_paint =
    RSolid str
  | RToken str
  | RGradient "r_gradient_stop list" f64
  | RImage str

record r_fill =
  rf_paint :: r_paint
  rf_opacity :: f64

datatype r_stroke_cap = RCapButt | RCapRound | RCapSquare
datatype r_stroke_join = RJoinMiter | RJoinRound | RJoinBevel

record r_stroke =
  rst_paint :: r_paint
  rst_width :: f64
  rst_opacity :: f64
  rst_dash :: "f64 list"
  rst_cap :: r_stroke_cap
  rst_join :: r_stroke_join

datatype r_text_mode = Sdf | Coverage
datatype r_text_align = RAlignStart | RAlignCenter | RAlignEnd | RAlignJustify
datatype r_text_valign = RAlignTop | RAlignMiddle | RAlignBottom

record r_text_run =
  rr_text :: str
  rr_color :: str
  rr_size :: f64
  rr_bold :: bool
  rr_italic :: bool
  rr_font :: str
  rr_mode :: r_text_mode

record r_text =
  rt_runs :: "r_text_run list"
  rt_align :: r_text_align
  rt_valign :: r_text_valign

record render_object =
  ro_id :: str
  ro_parent :: "str option"
  ro_order :: str
  ro_transform :: transform
  ro_geometry_d :: str
  ro_fill :: "r_fill option"
  ro_stroke :: "r_stroke option"
  ro_text :: "r_text option"
  ro_anchors :: "r_anchor list"
  ro_clip :: bool
  ro_hidden :: bool
  ro_locked :: bool

record camera_state =
  cam_x :: f64
  cam_y :: f64
  cam_zoom :: f64

record render_object_scene =
  rsc_id :: str
  rsc_camera :: camera_state
  rsc_objects :: "render_object list"
  rsc_selection :: "str option"
  rsc_multi_select :: "str list"

section \<open>From the objects of the scene\<close>

definition quant_per_px :: f64 where "quant_per_px = f_of_int 8"

definition dequantize :: "i32 \<Rightarrow> f64" where
  "dequantize quantized = f_div (f_of_i32 quantized) units_per_px"

fun rpaint_from :: "paint \<Rightarrow> r_paint" where
  "rpaint_from (Solid color) = RSolid color"
| "rpaint_from (Gradient stops angle) =
     RGradient (map (\<lambda>s. \<lparr>rgs_offset = gs_offset s, rgs_color = gs_color s\<rparr>) stops) angle"
| "rpaint_from (Image content_ref) = RImage content_ref"
| "rpaint_from (PaintToken name) = RToken name"

definition rfill_from :: "fill \<Rightarrow> r_fill" where
  "rfill_from f = \<lparr>rf_paint = rpaint_from (f_paint f), rf_opacity = f_opacity f\<rparr>"

definition rstroke_from :: "stroke \<Rightarrow> r_stroke" where
  "rstroke_from s =
     \<lparr>rst_paint = rpaint_from (s_paint s), rst_width = dequantize (s_width s), rst_opacity = s_opacity s,
      rst_dash = map dequantize (s_dash s),
      rst_cap = (case s_cap s of Butt \<Rightarrow> RCapButt | RoundCap \<Rightarrow> RCapRound | Square \<Rightarrow> RCapSquare),
      rst_join = (case s_join s of Miter \<Rightarrow> RJoinMiter | RoundJoin \<Rightarrow> RJoinRound | Bevel \<Rightarrow> RJoinBevel)\<rparr>"

definition default_text_color :: str where "default_text_color = ''#111111''"

definition default_run_size :: f64 where "default_run_size = f_mul (f_of_int 16) quant_per_px"

definition rrun_from :: "text_run \<Rightarrow> r_text_run" where
  "rrun_from run =
     \<lparr>rr_text = r_text run,
      rr_color = (case r_color run of Some c \<Rightarrow> c | None \<Rightarrow> default_text_color),
      rr_size = (case r_size run of Some s \<Rightarrow> f_of_i32 s | None \<Rightarrow> default_run_size),
      rr_bold = r_bold run, rr_italic = r_italic run,
      rr_font = (case r_font run of Some f \<Rightarrow> f | None \<Rightarrow> []), rr_mode = Sdf\<rparr>"

definition rtext_from :: "text_block \<Rightarrow> r_text" where
  "rtext_from t =
     \<lparr>rt_runs = map rrun_from (t_runs t),
      rt_align = (case t_align t of TextStart \<Rightarrow> RAlignStart | TextCenter \<Rightarrow> RAlignCenter
        | TextEnd \<Rightarrow> RAlignEnd | Justify \<Rightarrow> RAlignJustify),
      rt_valign = (case t_valign t of Top \<Rightarrow> RAlignTop | Middle \<Rightarrow> RAlignMiddle | Bottom \<Rightarrow> RAlignBottom)\<rparr>"

definition ranchor_from :: "anchor \<Rightarrow> r_anchor" where
  "ranchor_from a =
     \<lparr>ra_node = nat (sint (a_node a)), ra_target = a_target a,
      ra_at = \<lparr>rlp_x = f_of_i32 (l_x (a_at a)), rlp_y = f_of_i32 (l_y (a_at a))\<rparr>\<rparr>"

definition render_object_from :: "object \<Rightarrow> render_object" where
  "render_object_from ob =
     \<lparr>ro_id = o_id ob, ro_parent = o_parent ob, ro_order = o_order ob, ro_transform = o_transform ob,
      ro_geometry_d = g_path (o_geometry ob), ro_fill = map_option rfill_from (o_fill ob),
      ro_stroke = map_option rstroke_from (o_stroke ob), ro_text = map_option rtext_from (o_text ob),
      ro_anchors = map ranchor_from (o_anchors ob),
      ro_clip = (case o_clip ob of Some b \<Rightarrow> b | None \<Rightarrow> False),
      ro_hidden = o_hidden ob, ro_locked = o_locked ob\<rparr>"

section \<open>Placements of the layouts\<close>

definition parent_in :: "scene \<Rightarrow> object_id \<Rightarrow> object_id option" where
  "parent_in sc i = Option.bind (scene_get sc i) o_parent"

text \<open>The walk up the parents, cut off past \<open>cap\<close>.\<close>

function depth_from :: "scene \<Rightarrow> nat \<Rightarrow> nat \<Rightarrow> object_id option \<Rightarrow> nat" where
  "depth_from sc cap depth None = depth"
| "depth_from sc cap depth (Some p) =
     (if cap < Suc depth then Suc depth else depth_from sc cap (Suc depth) (parent_in sc p))"
  by pat_completeness auto
termination by (relation "measure (\<lambda>(sc, cap, depth, cur). Suc cap - depth)") auto

definition depth_of :: "scene \<Rightarrow> object_id \<Rightarrow> nat" where
  "depth_of sc i = depth_from sc (length (objects sc)) 0 (parent_in sc i)"

definition layout_containers :: "scene \<Rightarrow> object list" where
  "layout_containers sc =
     sort_key (\<lambda>ob. (depth_of sc (o_id ob), o_id ob)) (filter (\<lambda>ob. o_layout ob \<noteq> None) (objects sc))"

type_synonym overrides = "(object_id \<times> transform) list"

definition place_container :: "scene \<Rightarrow> object \<Rightarrow> overrides \<Rightarrow> overrides" where
  "place_container sc container ovr =
     (let eff = (case map_of ovr (o_id container) of Some m \<Rightarrow> m | None \<Rightarrow> o_transform container)
      in fold (\<lambda>(i, placed) ovr. if has_object sc i then AList.update i (transform_mul eff placed) ovr else ovr)
           (solve_layout derive_region sc (o_id container)) ovr)"

definition layout_overrides :: "scene \<Rightarrow> overrides" where
  "layout_overrides sc = fold (place_container sc) (layout_containers sc) []"

definition apply_layout_placements :: "scene \<Rightarrow> render_object list \<Rightarrow> render_object list" where
  "apply_layout_placements sc obs =
     (let ovr = layout_overrides sc in
      if ovr = [] then obs
      else map (\<lambda>ob. case map_of ovr (ro_id ob) of Some m \<Rightarrow> ob\<lparr>ro_transform := m\<rparr> | None \<Rightarrow> ob) obs)"

definition from_object_scene :: "scene \<Rightarrow> camera_state \<Rightarrow> object_selection \<Rightarrow> str \<Rightarrow> render_object_scene" where
  "from_object_scene sc camera sel scene_id =
     (let (selection, multi_select) = (case sel of
            SelObject i \<Rightarrow> (Some i, []) | SelMulti is \<Rightarrow> (None, is) | SelCanvas \<Rightarrow> (None, []))
      in \<lparr>rsc_id = scene_id, rsc_camera = camera,
          rsc_objects = apply_layout_placements sc (map render_object_from (objects sc)),
          rsc_selection = selection, rsc_multi_select = multi_select\<rparr>)"

section \<open>The path parser\<close>

text \<open>An error names the character or the text that was found.\<close>

datatype r_path_error =
    ExpectedCommand str
  | ExpectedInteger
  | InvalidInteger str
  | RLBeforeM
  | RCBeforeM
  | RCNoNode
  | OutHandleOverflow
  | InHandleOverflow
  | RZBeforeM
  | RUnsupportedCommand char
  | EmptyPath

record r_handle =
  rh_dx :: i32
  rh_dy :: i32

record r_node =
  rn_x :: i32
  rn_y :: i32
  rn_in :: "r_handle option"
  rn_out :: "r_handle option"

record r_sub_path =
  rs_closed :: bool
  rs_nodes :: "r_node list"

text \<open>Separators are the white space of Unicode and the comma, as for the kernel.\<close>

function skip_separators :: "str \<Rightarrow> str" where
  "skip_separators s = (if s = [] \<or> sep_len s = 0 then s else skip_separators (drop (sep_len s) s))"
  by auto
termination by (relation "measure length") (auto simp: diff_less)

declare skip_separators.simps [simp del]

definition utf8_head :: "str \<Rightarrow> str" where
  "utf8_head s = (case s of [] \<Rightarrow> [] | c # _ \<Rightarrow>
     take (if byte c < 0x80 then 1 else if byte c < 0xE0 then 2 else if byte c < 0xF0 then 3 else 4) s)"

definition ascii_alphabetic :: "char \<Rightarrow> bool" where
  "ascii_alphabetic c \<longleftrightarrow> (65 \<le> byte c \<and> byte c \<le> 90) \<or> (97 \<le> byte c \<and> byte c \<le> 122)"

definition next_command :: "str \<Rightarrow> r_path_error + (char \<times> str) option" where
  "next_command s =
     (case skip_separators s of
        [] \<Rightarrow> Inr None
      | c # cs \<Rightarrow> if ascii_alphabetic c then Inr (Some (c, cs)) else Inl (ExpectedCommand (utf8_head (c # cs))))"

definition number_char :: "char \<Rightarrow> bool" where
  "number_char c \<longleftrightarrow> (48 \<le> byte c \<and> byte c \<le> 57) \<or> c = CHR ''-'' \<or> c = CHR ''+''"

definition next_int :: "str \<Rightarrow> r_path_error + (i32 \<times> str)" where
  "next_int s =
     (let s' = skip_separators s; num = takeWhile number_char s' in
      if num = [] then Inl ExpectedInteger
      else map_sum (\<lambda>_. InvalidInteger num) (\<lambda>x. (x, dropWhile number_char s')) (parse_i32 num))"

definition next_pair :: "str \<Rightarrow> r_path_error + (i32 \<times> i32 \<times> str)" where
  "next_pair s = and_then (next_int s) (\<lambda>(x, s). and_then (next_int s) (\<lambda>(y, s). Inr (x, y, s)))"

definition checked_sub_i32 :: "i32 \<Rightarrow> i32 \<Rightarrow> i32 option" where
  "checked_sub_i32 a b =
     (if - (2 ^ 31) \<le> sint a - sint b \<and> sint a - sint b < 2 ^ 31 then Some (a - b) else None)"

definition checked_handle :: "r_path_error \<Rightarrow> i32 \<Rightarrow> i32 \<Rightarrow> i32 \<Rightarrow> i32 \<Rightarrow> r_path_error + r_handle" where
  "checked_handle e cx cy x y =
     (case (checked_sub_i32 cx x, checked_sub_i32 cy y) of
        (Some dx, Some dy) \<Rightarrow> Inr \<lparr>rh_dx = dx, rh_dy = dy\<rparr>
      | _ \<Rightarrow> Inl e)"

definition r_corner :: "i32 \<Rightarrow> i32 \<Rightarrow> r_node" where
  "r_corner x y = \<lparr>rn_x = x, rn_y = y, rn_in = None, rn_out = None\<rparr>"

type_synonym r_path_state = "r_sub_path list \<times> r_sub_path option"

fun r_command :: "r_path_state \<Rightarrow> char \<Rightarrow> str \<Rightarrow> r_path_error + (r_path_state \<times> str)" where
  "r_command (subs, cur) c s =
     (if c = CHR ''M'' then
        and_then (next_pair s) (\<lambda>(x, y, s).
          Inr ((subs @ opt_list cur, Some \<lparr>rs_closed = False, rs_nodes = [r_corner x y]\<rparr>), s))
      else if c = CHR ''L'' then
        (case cur of
           None \<Rightarrow> Inl RLBeforeM
         | Some sub \<Rightarrow>
             and_then (next_pair s) (\<lambda>(x, y, s).
               Inr ((subs, Some (sub\<lparr>rs_nodes := rs_nodes sub @ [r_corner x y]\<rparr>)), s)))
      else if c = CHR ''C'' then
        (case cur of
           None \<Rightarrow> Inl RCBeforeM
         | Some sub \<Rightarrow>
             and_then (next_pair s) (\<lambda>(x1, y1, s).
             and_then (next_pair s) (\<lambda>(x2, y2, s).
             and_then (next_pair s) (\<lambda>(x, y, s).
               if rs_nodes sub = [] then Inl RCNoNode
               else
                 let prev = last (rs_nodes sub) in
                 and_then (checked_handle OutHandleOverflow x1 y1 (rn_x prev) (rn_y prev)) (\<lambda>out.
                 and_then (checked_handle InHandleOverflow x2 y2 x y) (\<lambda>inn.
                   Inr ((subs, Some (sub\<lparr>rs_nodes := butlast (rs_nodes sub) @
                     [prev\<lparr>rn_out := Some out\<rparr>, \<lparr>rn_x = x, rn_y = y, rn_in = Some inn, rn_out = None\<rparr>]\<rparr>)), s)))))))
      else if c = CHR ''Z'' then
        (case cur of
           None \<Rightarrow> Inl RZBeforeM
         | Some sub \<Rightarrow> Inr ((subs, Some (sub\<lparr>rs_closed := True\<rparr>)), s))
      else Inl (RUnsupportedCommand c))"

declare r_command.simps [simp del]

lemma skip_separators_length: "length (skip_separators s) \<le> length s"
proof (induction s rule: skip_separators.induct)
  case (1 s)
  then show ?case by (subst skip_separators.simps) (force dest: order_trans)
qed

lemma next_int_shorter: "next_int s = Inr (x, r) \<Longrightarrow> length r \<le> length s"
  using skip_separators_length[of s] length_dropWhile_le[of number_char "skip_separators s"]
  by (auto simp: next_int_def Let_def map_sum_def split: if_splits sum.splits)

lemma next_pair_shorter: "next_pair s = Inr (x, y, r) \<Longrightarrow> length r \<le> length s"
  unfolding next_pair_def by (auto elim!: and_then_InrE dest!: next_int_shorter)

lemma next_command_shorter: "next_command s = Inr (Some (c, r)) \<Longrightarrow> length r < length s"
  using skip_separators_length[of s] by (auto simp: next_command_def split: list.splits if_splits)

lemma r_command_shorter: "r_command st c s = Inr (st', r) \<Longrightarrow> length r \<le> length s"
  by (cases st) (auto simp: r_command.simps Let_def elim!: and_then_InrE dest!: next_pair_shorter
      split: if_splits option.splits)

function r_parse_loop :: "r_path_state \<Rightarrow> str \<Rightarrow> r_path_error + r_path_state" where
  "r_parse_loop st s =
     (case next_command s of
        Inl e \<Rightarrow> Inl e
      | Inr None \<Rightarrow> Inr st
      | Inr (Some (c, r)) \<Rightarrow>
          (case r_command st c r of Inl e \<Rightarrow> Inl e | Inr (st', r') \<Rightarrow> r_parse_loop st' r'))"
  by pat_completeness auto
termination
  by (relation "measure (\<lambda>(st, s). length s)")
    (auto dest!: next_command_shorter r_command_shorter)

declare r_parse_loop.simps [simp del]

definition parse_path_d :: "str \<Rightarrow> r_path_error + r_sub_path list" where
  "parse_path_d d =
     and_then (r_parse_loop ([], None) d) (\<lambda>(subs, cur).
       let all = subs @ opt_list cur in if all = [] then Inl EmptyPath else Inr all)"

section \<open>Resolved style\<close>

definition default_fill :: r_fill where
  "default_fill = \<lparr>rf_paint = RSolid ''#ffffff'', rf_opacity = f_one\<rparr>"

definition default_stroke :: r_stroke where
  "default_stroke =
     \<lparr>rst_paint = RSolid ''#283644'', rst_width = f_one, rst_opacity = f_one, rst_dash = [],
      rst_cap = RCapButt, rst_join = RJoinMiter\<rparr>"

definition focus_ring_color :: str where "focus_ring_color = ''#2f7ee6''"
definition focus_ring_width :: f64 where "focus_ring_width = f_of_int 4"

record visual_flags =
  vf_selected :: bool
  vf_hovered :: bool
  vf_focused :: bool

record focus_ring =
  fr_color :: str
  fr_width :: f64

record resolved_style =
  rsv_fill :: r_fill
  rsv_stroke :: r_stroke
  rsv_focus_ring :: "focus_ring option"

definition resolve_visual :: "render_object \<Rightarrow> visual_flags \<Rightarrow> resolved_style" where
  "resolve_visual ob st =
     \<lparr>rsv_fill = (case ro_fill ob of Some f \<Rightarrow> f | None \<Rightarrow> default_fill),
      rsv_stroke = (case ro_stroke ob of Some s \<Rightarrow> s | None \<Rightarrow> default_stroke),
      rsv_focus_ring = (if vf_selected st \<or> vf_focused st
        then Some \<lparr>fr_color = focus_ring_color, fr_width = focus_ring_width\<rparr> else None)\<rparr>"

section \<open>Theme tokens of the renderer\<close>

datatype r_token =
    RCanvasBg
  | RSurface
  | RSurfaceMuted
  | RDefaultFill
  | RDefaultStroke
  | RText
  | RShadow
  | RSelectionRing
  | RMaterial
  | RHairline
  | RHover
  | RAccentSoft
  | RTextSecondary

definition all_r_tokens :: "r_token list" where
  "all_r_tokens = [RCanvasBg, RSurface, RSurfaceMuted, RDefaultFill, RDefaultStroke, RText,
     RShadow, RSelectionRing, RMaterial, RHairline, RHover, RAccentSoft, RTextSecondary]"

fun r_token_name :: "r_token \<Rightarrow> str" where
  "r_token_name RCanvasBg = ''canvas-bg''"
| "r_token_name RSurface = ''surface''"
| "r_token_name RSurfaceMuted = ''surface-muted''"
| "r_token_name RDefaultFill = ''default-fill''"
| "r_token_name RDefaultStroke = ''default-stroke''"
| "r_token_name RText = ''text''"
| "r_token_name RShadow = ''shadow''"
| "r_token_name RSelectionRing = ''selection-ring''"
| "r_token_name RMaterial = ''material''"
| "r_token_name RHairline = ''hairline''"
| "r_token_name RHover = ''hover''"
| "r_token_name RAccentSoft = ''accent-soft''"
| "r_token_name RTextSecondary = ''text-secondary''"

fun r_token_rgba :: "r_token \<Rightarrow> bool \<Rightarrow> rgba" where
  "r_token_rgba RCanvasBg False = (0xf5, 0xf5, 0xf7, 0xff)"
| "r_token_rgba RCanvasBg True = (0x1e, 0x1e, 0x20, 0xff)"
| "r_token_rgba RSurface False = (0xff, 0xff, 0xff, 0xff)"
| "r_token_rgba RSurface True = (0x2c, 0x2c, 0x2e, 0xff)"
| "r_token_rgba RSurfaceMuted False = (0xe9, 0xe9, 0xeb, 0xff)"
| "r_token_rgba RSurfaceMuted True = (0x3a, 0x3a, 0x3c, 0xff)"
| "r_token_rgba RDefaultFill False = (0xff, 0xff, 0xff, 0xff)"
| "r_token_rgba RDefaultFill True = (0x2c, 0x2c, 0x2e, 0xff)"
| "r_token_rgba RDefaultStroke False = (0xc6, 0xc6, 0xc8, 0xff)"
| "r_token_rgba RDefaultStroke True = (0x54, 0x54, 0x56, 0xff)"
| "r_token_rgba RText False = (0x1d, 0x1d, 0x1f, 0xff)"
| "r_token_rgba RText True = (0xf5, 0xf5, 0xf7, 0xff)"
| "r_token_rgba RShadow False = (0x00, 0x00, 0x00, 0x40)"
| "r_token_rgba RShadow True = (0xff, 0xff, 0xff, 0x66)"
| "r_token_rgba RSelectionRing False = (0x00, 0x7a, 0xff, 0xff)"
| "r_token_rgba RSelectionRing True = (0x0a, 0x84, 0xff, 0xff)"
| "r_token_rgba RMaterial False = (0xf7, 0xf7, 0xf9, 0xe6)"
| "r_token_rgba RMaterial True = (0x2c, 0x2c, 0x2e, 0xe6)"
| "r_token_rgba RHairline False = (0x00, 0x00, 0x00, 0x1f)"
| "r_token_rgba RHairline True = (0xff, 0xff, 0xff, 0x26)"
| "r_token_rgba RHover False = (0x00, 0x00, 0x00, 0x14)"
| "r_token_rgba RHover True = (0xff, 0xff, 0xff, 0x1f)"
| "r_token_rgba RAccentSoft False = (0x00, 0x7a, 0xff, 0x26)"
| "r_token_rgba RAccentSoft True = (0x0a, 0x84, 0xff, 0x3d)"
| "r_token_rgba RTextSecondary False = (0x8a, 0x8a, 0x8e, 0xff)"
| "r_token_rgba RTextSecondary True = (0x98, 0x98, 0x9d, 0xff)"

definition r_token_from_name :: "str \<Rightarrow> r_token option" where
  "r_token_from_name name = find (\<lambda>t. r_token_name t = name) all_r_tokens"

definition r_resolve_token :: "str \<Rightarrow> bool \<Rightarrow> rgba option" where
  "r_resolve_token name dark = map_option (\<lambda>t. r_token_rgba t dark) (r_token_from_name name)"

lemma r_resolve_token_eq: "r_resolve_token name dark = resolve_token name dark"
  by (cases dark) (simp_all add: r_resolve_token_def resolve_token_def r_token_from_name_def token_from_name_def
      all_r_tokens_def all_tokens_def)

end
