(* ===== verification/Render_Laws.thy ===== *)
theory Render_Laws
  imports RenderObject PathString_Laws
begin

text \<open>
  The placements of nested layouts compose, and the path parser of the renderer reads what the one
  of the kernel reads.
\<close>

section \<open>Depths\<close>

lemma parent_in_rel:
  assumes "distinct (ids sc)" shows "parent_in sc i = Some p \<longleftrightarrow> (i, p) \<in> parent_rel sc"
  by (simp add: parent_in_def parent_rel_iff[OF assms])

lemma parent_in_known: "parent_in sc i = Some p \<Longrightarrow> i \<in> set (ids sc)"
  by (auto simp: parent_in_def bind_eq_Some_conv ids_def dest!: scene_get_Some)

lemma depth_shift:
  assumes "distinct (ids sc)" "acyclic (parent_rel sc)" "V \<subseteq> set (ids sc)" "card V = Suc d"
    "\<forall>v \<in> V. \<forall>c. cur = Some c \<longrightarrow> (v, c) \<in> (parent_rel sc)\<^sup>+" "cap = length (objects sc)"
  shows "depth_from sc cap (Suc d) cur = Suc (depth_from sc cap d cur)"
  using assms
proof (induction sc cap d cur arbitrary: V rule: depth_from.induct)
  case (1 sc cap depth)
  then show ?case by simp
next
  case (2 sc cap d c)
  have fin: "finite V" using 2(4) finite_subset by blast
  have all: "card (set (ids sc)) = cap" using distinct_card[OF 2(2)] 2(7) by (simp add: ids_def)
  have le: "Suc d \<le> cap" using card_mono[OF _ 2(4)] 2(5) all by simp
  have fresh: "c \<notin> V" using 2(3,6) by (auto simp: acyclic_def)
  show ?case
  proof (cases "parent_in sc c")
    case None
    then show ?thesis using le by simp
  next
    case (Some p)
    then have c: "c \<in> set (ids sc)" by (rule parent_in_known)
    then have "card (insert c V) \<le> cap" using card_mono[of "set (ids sc)" "insert c V"] 2(4) all by simp
    then have le2: "Suc (Suc d) \<le> cap" using fresh fin 2(5) by simp
    have edge: "(c, p) \<in> parent_rel sc" using parent_in_rel[OF 2(2)] Some by blast
    have "depth_from sc cap (Suc (Suc d)) (parent_in sc c) = Suc (depth_from sc cap (Suc d) (parent_in sc c))"
    proof (rule 2(1)[of "insert c V"])
      show "\<not> cap < Suc d" using le by simp
      show "distinct (ids sc)" "acyclic (parent_rel sc)" "cap = length (objects sc)" by fact+
      show "insert c V \<subseteq> set (ids sc)" using c 2(4) by simp
      show "card (insert c V) = Suc (Suc d)" using fresh fin 2(5) by simp
      show "\<forall>v \<in> insert c V. \<forall>q. parent_in sc c = Some q \<longrightarrow> (v, q) \<in> (parent_rel sc)\<^sup>+"
        using Some edge 2(6) by (auto intro: trancl_into_trancl)
    qed
    then show ?thesis using le le2 by simp
  qed
qed

lemma depth_parent:
  assumes "distinct (ids sc)" "acyclic (parent_rel sc)" "parent_in sc i = Some p"
  shows "depth_of sc i = Suc (depth_of sc p)"
proof -
  have i: "i \<in> set (ids sc)" using assms(3) by (rule parent_in_known)
  then have pos: "0 < length (objects sc)" by (auto simp: ids_def)
  have edge: "(i, p) \<in> parent_rel sc" using parent_in_rel[OF assms(1)] assms(3) by blast
  have "depth_from sc (length (objects sc)) (Suc 0) (parent_in sc p) = Suc (depth_from sc (length (objects sc)) 0 (parent_in sc p))"
    by (rule depth_shift[OF assms(1,2), of "{i}"])
      (use i edge parent_in_rel[OF assms(1)] in \<open>auto intro: trancl_into_trancl\<close>)
  then show ?thesis using pos assms(3) by (simp add: depth_of_def)
qed

section \<open>Overrides\<close>

lemma update_fold_get:
  "map_of (fold (\<lambda>(i, placed) ovr. if has_object sc i then AList.update i (f placed) ovr else ovr) xs ovr) k =
     (case map_of (rev xs) k of Some placed \<Rightarrow> if has_object sc k then Some (f placed) else map_of ovr k | None \<Rightarrow> map_of ovr k)"
proof (induction xs arbitrary: ovr)
  case Nil
  then show ?case by simp
next
  case (Cons x xs)
  obtain i placed where x: "x = (i, placed)" by (cases x)
  show ?case unfolding x using Cons
    by (auto simp: update_conv' map_add_def split: option.splits)
qed

lemma map_of_distinct_rev: "distinct (map fst xs) \<Longrightarrow> map_of (rev xs) = map_of xs"
proof (induction xs)
  case (Cons x xs)
  then have "fst x \<notin> dom (map_of (rev xs))" by (auto simp: dom_map_of_conv_image_fst)
  then show ?case using Cons by (cases x) (auto simp: map_add_upd_left[symmetric] map_add_def fun_eq_iff split: option.splits)
qed simp

lemma solved_ids:
  "map fst (solve_layout dr sc g) = [] \<or> map fst (solve_layout dr sc g) = map o_id (laid_out dr sc g)"
proof (cases "Option.bind (scene_get sc g) o_layout")
  case None
  then show ?thesis by (auto simp: solve_layout_def bind_eq_None_conv split: option.splits)
next
  case (Some ly)
  then show ?thesis using solve_layout_ids[of sc g] by (auto simp: bind_eq_Some_conv)
qed

lemma solved_child:
  assumes "distinct (ids sc)" "(i, placed) \<in> set (solve_layout dr sc g)"
  shows "parent_in sc i = Some g \<and> has_object sc i"
proof -
  have "i \<in> set (map fst (solve_layout dr sc g))" using assms(2) by force
  then have "i \<in> set (map o_id (laid_out dr sc g))" using solved_ids[of dr sc g] by (elim disjE) simp_all
  then obtain ob where "ob \<in> set (objects sc)" "o_id ob = i" "o_parent ob = Some g" by (auto simp: laid_out_def)
  then show ?thesis using assms(1) by (auto simp: parent_in_def has_object_def scene_get_eq bind_eq_Some_conv)
qed

lemma solved_distinct:
  assumes "distinct (ids sc)" shows "distinct (map fst (solve_layout dr sc g))"
proof -
  have "distinct (map o_id (laid_out dr sc g))" unfolding laid_out_def
    by (rule sort_by_paint_ids) (use assms in \<open>simp add: ids_def distinct_map_filter\<close>)
  then show ?thesis using solved_ids[of dr sc g] by (elim disjE) simp_all
qed

definition effective :: "overrides \<Rightarrow> object \<Rightarrow> transform" where
  "effective ovr ob = (case map_of ovr (o_id ob) of Some m \<Rightarrow> m | None \<Rightarrow> o_transform ob)"

lemma place_container_get:
  assumes "distinct (ids sc)"
  shows "map_of (place_container sc c ovr) k =
    (case map_of (solve_layout derive_region sc (o_id c)) k of
       Some placed \<Rightarrow> Some (transform_mul (effective ovr c) placed) | None \<Rightarrow> map_of ovr k)"
proof -
  let ?xs = "solve_layout derive_region sc (o_id c)"
  have "map_of (rev ?xs) = map_of ?xs"
    by (rule map_of_distinct_rev[OF solved_distinct[OF assms]])
  moreover have "has_object sc k" if "map_of ?xs k = Some placed" for placed
    using solved_child[OF assms map_of_SomeD[OF that]] by simp
  ultimately show ?thesis
    unfolding place_container_def Let_def effective_def[symmetric] update_fold_get
    by (auto split: option.splits)
qed

lemma place_others:
  assumes "distinct (ids sc)" "parent_in sc k \<noteq> Some (o_id c)"
  shows "map_of (place_container sc c ovr) k = map_of ovr k"
  using solved_child[OF assms(1)] assms(2)
  by (auto simp: place_container_get[OF assms(1)] split: option.splits dest!: map_of_SomeD)

lemma place_many_others:
  assumes "distinct (ids sc)" "\<forall>c \<in> set cs. parent_in sc k \<noteq> Some (o_id c)"
  shows "map_of (fold (place_container sc) cs ovr) k = map_of ovr k"
  using assms(2) by (induction cs arbitrary: ovr) (simp_all add: place_others[OF assms(1)])

section \<open>Containers in order\<close>

abbreviation container_key :: "scene \<Rightarrow> object \<Rightarrow> nat \<times> str" where
  "container_key sc ob \<equiv> (depth_of sc (o_id ob), o_id ob)"

lemma containers_set: "set (layout_containers sc) = {ob \<in> set (objects sc). o_layout ob \<noteq> None}"
  by (auto simp: layout_containers_def)

lemma containers_distinct: "distinct (ids sc) \<Longrightarrow> distinct (map o_id (layout_containers sc))"
  by (simp add: layout_containers_def ids_def distinct_map inj_on_def)

lemma containers_sorted: "sorted (map (container_key sc) (layout_containers sc))"
  unfolding layout_containers_def by (rule sorted_sort_key)

text \<open>The container that lays an object out comes before the object.\<close>

lemma parent_before:
  assumes "distinct (ids sc)" "acyclic (parent_rel sc)" "layout_containers sc = A @ g # B" "c \<in> set (g # B)"
  shows "parent_in sc (o_id g) \<noteq> Some (o_id c)"
proof
  assume "parent_in sc (o_id g) = Some (o_id c)"
  then have "container_key sc c < container_key sc g" using depth_parent[OF assms(1,2)] by (simp add: less_prod_def)
  moreover have "sorted (map (container_key sc) (g # B))"
    using containers_sorted[of sc] unfolding assms(3) by (simp only: map_append sorted_append)
  then have "container_key sc g \<le> container_key sc c" using assms(4) by (auto simp del: less_eq_prod_def)
  ultimately show False by (meson leD)
qed

lemma layout_composed:
  assumes d: "distinct (ids sc)" and a: "acyclic (parent_rel sc)" and g: "g \<in> set (layout_containers sc)"
    and i: "(i, placed) \<in> set (solve_layout derive_region sc (o_id g))"
  shows "map_of (layout_overrides sc) i = Some (transform_mul (effective (layout_overrides sc) g) placed)"
proof -
  obtain A B where split: "layout_containers sc = A @ g # B" using g by (meson split_list)
  let ?before = "fold (place_container sc) A []"
  have all: "layout_overrides sc = fold (place_container sc) (g # B) ?before" by (simp add: layout_overrides_def split)
  have "map_of (layout_overrides sc) (o_id g) = map_of ?before (o_id g)"
    unfolding all by (rule place_many_others[OF d]) (use parent_before[OF d a split] in blast)
  then have eff: "effective (layout_overrides sc) g = effective ?before g" by (simp add: effective_def)
  have child: "parent_in sc i = Some (o_id g)" using solved_child[OF d i] by simp
  have "o_id g \<notin> set (map o_id B)" using containers_distinct[OF d] unfolding split by simp
  then have "map_of (layout_overrides sc) i = map_of (place_container sc g ?before) i"
    unfolding all fold_simps(2) by (intro place_many_others[OF d]) (use child in auto)
  also have "\<dots> = Some (transform_mul (effective ?before g) placed)"
    using map_of_is_SomeI[OF solved_distinct[OF d] i] by (simp add: place_container_get[OF d])
  finally show ?thesis by (simp add: eff)
qed

lemma not_laid_out:
  assumes "distinct (ids sc)"
    "\<forall>g \<in> set (layout_containers sc). i \<notin> set (map fst (solve_layout derive_region sc (o_id g)))"
  shows "map_of (layout_overrides sc) i = None"
proof -
  have "map_of (fold (place_container sc) cs ovr) i = map_of ovr i"
    if "\<forall>g \<in> set cs. i \<notin> set (map fst (solve_layout derive_region sc (o_id g)))" for cs ovr
    using that
  proof (induction cs arbitrary: ovr)
    case (Cons c cs)
    have "map_of (solve_layout derive_region sc (o_id c)) i = None"
      using Cons.prems by (simp add: map_of_eq_None_iff)
    then have "map_of (place_container sc c ovr) i = map_of ovr i" by (simp add: place_container_get[OF assms(1)])
    then show ?case using Cons by simp
  qed simp
  from this[OF assms(2), of "[]"] show ?thesis by (simp add: layout_overrides_def)
qed

lemma placements_transform:
  assumes "ob \<in> set (apply_layout_placements sc (map render_object_from (objects sc)))" "distinct (ids sc)"
    "scene_get sc (ro_id ob) = Some b"
  shows "ro_transform ob = effective (layout_overrides sc) b"
proof -
  from assms(1) obtain c where c: "c \<in> set (objects sc)"
    "ro_id ob = o_id c" "ro_transform ob = effective (layout_overrides sc) c"
    by (auto simp: apply_layout_placements_def Let_def effective_def render_object_from_def
        split: if_splits option.splits)
  then show ?thesis using assms(2,3) scene_get_eq by fastforce
qed

section \<open>Two readers of a path\<close>

definition to_r_handle :: "handle_point \<Rightarrow> r_handle" where
  "to_r_handle h = \<lparr>rh_dx = h_dx h, rh_dy = h_dy h\<rparr>"

definition to_r_node :: "path_node \<Rightarrow> r_node" where
  "to_r_node p = \<lparr>rn_x = n_x p, rn_y = n_y p, rn_in = map_option to_r_handle (n_in p),
     rn_out = map_option to_r_handle (n_out p)\<rparr>"

definition to_r_sub :: "sub_path \<Rightarrow> r_sub_path" where
  "to_r_sub sp = \<lparr>rs_closed = sp_closed sp, rs_nodes = map to_r_node (sp_nodes sp)\<rparr>"

definition sum_fits :: "i32 \<Rightarrow> i32 \<Rightarrow> bool" where
  "sum_fits a d \<longleftrightarrow> - (2 ^ 31) \<le> sint a + sint d \<and> sint a + sint d < 2 ^ 31"

fun handle_fits :: "i32 \<Rightarrow> i32 \<Rightarrow> handle_point option \<Rightarrow> bool" where
  "handle_fits x y None = True"
| "handle_fits x y (Some h) = (sum_fits x (h_dx h) \<and> sum_fits y (h_dy h))"

definition node_fits :: "path_node \<Rightarrow> bool" where
  "node_fits p \<longleftrightarrow> handle_fits (n_x p) (n_y p) (n_in p) \<and> handle_fits (n_x p) (n_y p) (n_out p)"

definition path_fits :: "sub_path list \<Rightarrow> bool" where
  "path_fits sps \<longleftrightarrow> list_all (\<lambda>sp. list_all node_fits (sp_nodes sp)) sps"

definition lower_command :: "str \<Rightarrow> bool" where
  "lower_command t \<longleftrightarrow> t \<in> {''m'', ''l'', ''c'', ''z''}"

subsection \<open>Words\<close>

lemma sep_tokens:
  assumes "sep_len s \<noteq> 0" shows "tokens s = tokens (drop (sep_len s) s)"
proof (cases s)
  case (Cons c cs)
  then have "drop (sep_len s) s = drop (sep_len s - 1) cs" using assms by (cases "sep_len s") auto
  then show ?thesis using assms Cons by (simp add: tokens_def push_token_def)
qed simp

lemma sep_ends: "sep_len s \<noteq> 0 \<Longrightarrow> s \<noteq> [] \<and> \<not> number_char (hd s)"
  by (auto simp: sep_len_def number_char_def split: list.splits if_splits)

definition word_ends :: "str \<Rightarrow> bool" where
  "word_ends r \<longleftrightarrow> r = [] \<or> sep_len r \<noteq> 0"

lemma word_split:
  assumes "cur \<noteq> []"
  shows "\<exists>w r. s = w @ r \<and> word_ends r \<and> tokens_from cur s = (cur @ w) # tokens r"
  using assms
proof (induction s arbitrary: cur)
  case Nil
  then show ?case by (simp add: push_token_def tokens_def word_ends_def)
next
  case (Cons c cs)
  show ?case
  proof (cases "sep_len (c # cs) = 0")
    case True
    obtain w r where "cs = w @ r" "word_ends r" "tokens_from (cur @ [c]) cs = ((cur @ [c]) @ w) # tokens r"
      using Cons.IH[of "cur @ [c]"] by blast
    then show ?thesis using True by (intro exI[of _ "c # w"] exI[of _ r]) simp
  next
    case False
    then show ?thesis using Cons.prems
      by (intro exI[of _ "[]"] exI[of _ "c # cs"]) (simp add: push_token_def word_ends_def tokens_def)
  qed
qed

lemma skip_words:
  "(case tokens s of
      [] \<Rightarrow> skip_separators s = []
    | t # ts \<Rightarrow> \<exists>r. skip_separators s = t @ r \<and> t \<noteq> [] \<and> word_ends r \<and> tokens r = ts)"
proof (induction s rule: skip_separators.induct)
  case (1 s)
  show ?case
  proof (cases "s = [] \<or> sep_len s = 0")
    case False
    then have eqs: "tokens s = tokens (drop (sep_len s) s)" "skip_separators s = skip_separators (drop (sep_len s) s)"
      using sep_tokens skip_separators.simps[of s] by auto
    show ?thesis unfolding eqs using False by (rule 1)
  next
    case True
    then have skip: "skip_separators s = s" by (simp add: skip_separators.simps)
    show ?thesis
    proof (cases s)
      case Nil
      then show ?thesis using skip by (simp add: tokens_def push_token_def)
    next
      case (Cons c cs)
      then have "tokens s = tokens_from [c] cs" using True by (simp add: tokens_def)
      moreover obtain w r where "cs = w @ r" "word_ends r" "tokens_from [c] cs = ([c] @ w) # tokens r"
        using word_split[of "[c]" cs] by blast
      ultimately show ?thesis using skip Cons by simp
    qed
  qed
qed

lemma skip_word:
  assumes "tokens s = t # ts"
  obtains r where "skip_separators s = t @ r" "t \<noteq> []" "word_ends r" "tokens r = ts"
  using skip_words[of s] assms by auto

lemma number_digits: "parse_digits lo hi sg acc s = Inr n \<Longrightarrow> list_all number_char s"
  by (induction lo hi sg acc s rule: parse_digits.induct)
    (auto simp: digit_value_def number_char_def split: if_splits option.splits)

lemma number_word: "parse_i32 t = Inr x \<Longrightarrow> t \<noteq> [] \<and> list_all number_char t"
  by (cases t) (auto simp: parse_i32_def parse_int_def number_char_def map_sum_def simp del: parse_digits.simps
      dest!: number_digits split: sum.splits if_splits)

subsection \<open>Simulation\<close>

lemma next_num_int:
  assumes "next_num (tokens s) = Inr (x, ts)"
  obtains r where "next_int s = Inr (x, r)" "tokens r = ts"
proof -
  obtain t where t: "tokens s = t # ts" "parse_i32 t = Inr x" using assms by (cases "tokens s") auto
  obtain r where r: "skip_separators s = t @ r" "word_ends r" "tokens r = ts" using t(1) by (rule skip_word)
  have all: "list_all number_char t" "t \<noteq> []" using number_word[OF t(2)] by simp_all
  have "r = [] \<or> \<not> number_char (hd r)" using r(2) sep_ends unfolding word_ends_def by blast
  then have "takeWhile number_char r = []" "dropWhile number_char r = r" by (cases r; simp)+
  then have "takeWhile number_char (t @ r) = t" "dropWhile number_char (t @ r) = r"
    using all by (simp_all add: list_all_iff)
  then show ?thesis using that[of r] r(1,3) t(2) all(2) by (simp add: next_int_def)
qed

lemma next_point_pair:
  assumes "next_point (tokens s) = Inr (x, y, ts)"
  obtains r where "next_pair s = Inr (x, y, r)" "tokens r = ts"
proof -
  obtain us where "next_num (tokens s) = Inr (x, us)" "next_num us = Inr (y, ts)"
    using assms unfolding next_point_def by auto
  then obtain a b where "next_int s = Inr (x, a)" "next_int a = Inr (y, b)" "tokens b = ts"
    by (elim next_num_int) (metis next_num_int)
  then show ?thesis using that by (simp add: next_pair_def)
qed

lemma command_word:
  assumes "tokens s = [c] # ts" "ascii_alphabetic c"
  obtains r where "next_command s = Inr (Some (c, r))" "tokens r = ts"
proof -
  obtain r where r: "skip_separators s = [c] @ r" "tokens r = ts" using assms(1) by (rule skip_word)
  then show ?thesis using that[of r] assms(2) by (simp add: next_command_def)
qed

lemma sint_add_range:
  fixes a b :: i32
  assumes "- (2 ^ 31) \<le> sint a + sint b" "sint a + sint b < 2 ^ 31"
  shows "sint (a + b) = sint a + sint b"
  using assms by (simp add: sint_word_ariths(1) signed_take_bit_int_eq_self)

lemma sub_fits:
  assumes "sum_fits x (c - x)" shows "checked_sub_i32 c x = Some (c - x)"
proof -
  have "sint x + sint (c - x) = sint (x + (c - x))"
    using assms unfolding sum_fits_def by (intro sint_add_range[symmetric]) simp_all
  then have "sint c - sint x = sint (c - x)" by simp
  moreover have "- (2 ^ 31) \<le> sint (c - x)" "sint (c - x) < 2 ^ 31"
    using sint_range_size[of "c - x"] by (simp_all add: word_size)
  ultimately show ?thesis by (simp add: checked_sub_i32_def)
qed

abbreviation r_state :: "path_state \<Rightarrow> r_path_state" where
  "r_state st \<equiv> (map to_r_sub (fst st), map_option to_r_sub (snd st))"

abbreviation all_subs :: "path_state \<Rightarrow> sub_path list" where
  "all_subs st \<equiv> fst st @ opt_list (snd st)"

lemma path_command_cases:
  assumes "path_command (sps, cur) t ts = Inr (st', ts')"
  obtains (M) x y where "is_command ''M'' ''m'' t" "next_point ts = Inr (x, y, ts')"
      "st' = (sps @ opt_list cur, Some \<lparr>sp_closed = False, sp_nodes = [corner x y]\<rparr>)"
    | (L) x y sp where "is_command ''L'' ''l'' t" "next_point ts = Inr (x, y, ts')" "cur = Some sp"
      "st' = (sps, Some (push_node sp (corner x y)))"
    | (C) cx cy ts1 ax ay ts2 x y sp where "is_command ''C'' ''c'' t" "next_point ts = Inr (cx, cy, ts1)"
      "next_point ts1 = Inr (ax, ay, ts2)" "next_point ts2 = Inr (x, y, ts')" "cur = Some sp"
      "st' = (sps, Some (push_node (set_last_out cx cy sp)
         \<lparr>n_x = x, n_y = y, n_in = Some \<lparr>h_dx = ax - x, h_dy = ay - y\<rparr>, n_out = None, n_width = None\<rparr>))"
    | (Z) sp where "is_command ''Z'' ''z'' t" "cur = Some sp" "st' = (sps, Some (sp\<lparr>sp_closed := True\<rparr>))" "ts' = ts"
  using assms unfolding path_command.simps
  by (auto split: if_splits option.splits)

lemma next_point_rest: "next_point ts = Inr (x, y, ts') \<Longrightarrow> set ts' \<subseteq> set ts"
  unfolding next_point_def by (cases ts; cases "tl ts") (auto elim!: and_then_InrE)

lemma path_command_rest: "path_command st t ts = Inr (st', ts') \<Longrightarrow> set ts' \<subseteq> set ts"
  by (cases st) (auto elim!: path_command_cases dest!: next_point_rest)

text \<open>The handles that a command sets fit when those of its result do.\<close>

lemma curve_nodes:
  assumes "canonical sp"
  obtains ns p where "sp_nodes sp = ns @ [p]" "n_out p = None" "sp_nodes (set_last_out cx cy sp) = ns @ [p\<lparr>n_out := Some \<lparr>h_dx = cx - n_x p, h_dy = cy - n_y p\<rparr>\<rparr>]"
proof -
  obtain ns p where n: "sp_nodes sp = ns @ [p]"
    using assms by (cases "sp_nodes sp" rule: rev_cases) (auto simp: canonical_def)
  then show ?thesis using that assms by (auto simp: canonical_def set_last_out_def)
qed

lemma command_fits_before:
  assumes "path_command st t ts = Inr (st', ts')" "list_all canonical (all_subs st)" "path_fits (all_subs st')"
  shows "path_fits (all_subs st)"
proof -
  obtain sps cur where st: "st = (sps, cur)" by (cases st)
  from assms(1)[unfolded st] show ?thesis
  proof (cases rule: path_command_cases)
    case (C cx cy ts1 ax ay ts2 x y sp)
    then have "canonical sp" using assms(2) by (simp add: st opt_list_def)
    from curve_nodes[OF this, of cx cy] obtain ns p where
      p: "sp_nodes sp = ns @ [p]" "n_out p = None"
        "sp_nodes (set_last_out cx cy sp) = ns @ [p\<lparr>n_out := Some \<lparr>h_dx = cx - n_x p, h_dy = cy - n_y p\<rparr>\<rparr>]" by blast
    have "path_fits sps" "list_all node_fits ns" "handle_fits (n_x p) (n_y p) (n_in p)"
      using assms(3) by (simp_all add: C(6) path_fits_def opt_list_def push_node_def p(3) node_fits_def)
    then show ?thesis by (simp add: st C(5) path_fits_def opt_list_def p(1,2) node_fits_def)
  qed (use assms(3) in \<open>simp_all add: st path_fits_def opt_list_def push_node_def split: option.splits\<close>)
qed

lemma loop_fits_before:
  "\<lbrakk>parse_loop st ts = Inr out; list_all canonical (all_subs st); path_fits out\<rbrakk> \<Longrightarrow> path_fits (all_subs st)"
proof (induction st ts rule: parse_loop.induct)
  case (2 st t ts)
  then obtain r where r: "path_command st t ts = Inr r" "parse_loop (fst r) (snd r) = Inr out"
    by auto
  have "list_all canonical (all_subs (fst r))"
    using path_command_canonical[of "fst st" "snd st" t ts "fst (fst r)" "snd (fst r)" "snd r"]
      r(1) "2.prems"(2) by (simp add: list_all_iff)
  then have "path_fits (all_subs (fst r))" using "2.IH"[OF r(1)] r(2) "2.prems"(3) by blast
  then show ?case using command_fits_before[of st t ts "fst r" "snd r"] r(1) "2.prems"(2) by simp
qed simp

lemma curve_command:
  assumes "canonical sp"
    "list_all node_fits (sp_nodes (push_node (set_last_out cx cy sp)
       \<lparr>n_x = x, n_y = y, n_in = Some \<lparr>h_dx = ax - x, h_dy = ay - y\<rparr>, n_out = None, n_width = None\<rparr>))"
    "next_pair s = Inr (cx, cy, s1)" "next_pair s1 = Inr (ax, ay, s2)" "next_pair s2 = Inr (x, y, s3)"
  shows "r_command (subs, Some (to_r_sub sp)) CHR ''C'' s = Inr ((subs, Some (to_r_sub (push_node (set_last_out cx cy sp)
       \<lparr>n_x = x, n_y = y, n_in = Some \<lparr>h_dx = ax - x, h_dy = ay - y\<rparr>, n_out = None, n_width = None\<rparr>))), s3)"
proof -
  obtain ns p where p: "sp_nodes sp = ns @ [p]" "n_out p = None"
    "sp_nodes (set_last_out cx cy sp) = ns @ [p\<lparr>n_out := Some \<lparr>h_dx = cx - n_x p, h_dy = cy - n_y p\<rparr>\<rparr>]"
    using assms(1) by (rule curve_nodes)
  have closed: "sp_closed (set_last_out cx cy sp) = sp_closed sp" by (simp add: set_last_out_def Let_def)
  have fits: "sum_fits (n_x p) (cx - n_x p)" "sum_fits (n_y p) (cy - n_y p)" "sum_fits x (ax - x)" "sum_fits y (ay - y)"
    using assms(2) by (simp_all add: push_node_def p(3) node_fits_def)
  show ?thesis unfolding r_command.simps
    by (simp add: assms(3-5) to_r_sub_def push_node_def p closed fits[THEN sub_fits] checked_handle_def
        to_r_node_def to_r_handle_def Let_def)
qed

lemma command_simulated:
  assumes "path_command st t ts = Inr (st', ts')" "list_all canonical (all_subs st)" "path_fits (all_subs st')"
    "\<not> lower_command t" "tokens s = t # ts"
  obtains c r r' where "next_command s = Inr (Some (c, r))" "r_command (r_state st) c r = Inr (r_state st', r')" "tokens r' = ts'"
proof -
  obtain sps cur where st: "st = (sps, cur)" by (cases st)
  have "t \<in> {''M'', ''L'', ''C'', ''Z''}"
    using assms(1,4) unfolding st by (auto simp: path_command.simps is_command_def lower_command_def split: if_splits)
  then obtain c where c: "t = [c]" "c \<in> {CHR ''M'', CHR ''L'', CHR ''C'', CHR ''Z''}" by auto
  then have "ascii_alphabetic c" by (auto simp: ascii_alphabetic_def)
  then obtain r where r: "next_command s = Inr (Some (c, r))" "tokens r = ts"
    using command_word assms(5) c(1) by blast
  have "\<exists>r'. r_command (r_state st) c r = Inr (r_state st', r') \<and> tokens r' = ts'"
    using assms(1)[unfolded st]
  proof (cases rule: path_command_cases)
    case (M x y)
    obtain r' where "next_pair r = Inr (x, y, r')" "tokens r' = ts'" using M(2)[folded r(2)] by (rule next_point_pair)
    moreover have "c = CHR ''M''" using M(1) c by (auto simp: is_command_def)
    ultimately show ?thesis using M(3)
      by (intro exI[of _ r']) (cases cur; simp add: r_command.simps st opt_list_def to_r_sub_def
        to_r_node_def corner_def r_corner_def)
  next
    case (L x y sp)
    obtain r' where "next_pair r = Inr (x, y, r')" "tokens r' = ts'" using L(2)[folded r(2)] by (rule next_point_pair)
    moreover have "c = CHR ''L''" using L(1) c by (auto simp: is_command_def)
    ultimately show ?thesis using L(3,4)
      by (intro exI[of _ r']) (simp add: r_command.simps st to_r_sub_def to_r_node_def push_node_def
        corner_def r_corner_def)
  next
    case (C cx cy ts1 ax ay ts2 x y sp)
    obtain r1 where r1: "next_pair r = Inr (cx, cy, r1)" "tokens r1 = ts1" using C(2)[folded r(2)] by (rule next_point_pair)
    obtain r2 where r2: "next_pair r1 = Inr (ax, ay, r2)" "tokens r2 = ts2" using C(3)[folded r1(2)] by (rule next_point_pair)
    obtain r3 where r3: "next_pair r2 = Inr (x, y, r3)" "tokens r3 = ts'" using C(4)[folded r2(2)] by (rule next_point_pair)
    have "canonical sp" using assms(2) by (simp add: st C(5) opt_list_def)
    moreover have "c = CHR ''C''" using C(1) c by (auto simp: is_command_def)
    ultimately show ?thesis using curve_command[OF _ _ r1(1) r2(1) r3(1), of sp] assms(3) r3(2)
      by (simp add: st C(5,6) opt_list_def path_fits_def)
  next
    case (Z sp)
    moreover have "c = CHR ''Z''" using Z(1) c by (auto simp: is_command_def)
    ultimately show ?thesis using Z r(2) by (simp add: r_command.simps st to_r_sub_def)
  qed
  then show ?thesis using that r(1) by blast
qed

lemma loop_simulated:
  "\<lbrakk>parse_loop st ts = Inr out; tokens s = ts; list_all canonical (all_subs st); path_fits out;
    \<not> list_ex lower_command ts\<rbrakk>
   \<Longrightarrow> \<exists>st'. r_parse_loop (r_state st) s = Inr (r_state st') \<and> out = all_subs st'"
proof (induction st ts arbitrary: s rule: parse_loop.induct)
  case (1 sps cur)
  then have "next_command s = Inr None" using skip_words[of s] by (simp add: next_command_def)
  then show ?case using 1(1) by (intro exI[of _ "(sps, cur)"]) (simp add: r_parse_loop.simps[of _ s])
next
  case (2 st t ts)
  then obtain st' ts' where r: "path_command st t ts = Inr (st', ts')" "parse_loop st' ts' = Inr out" by auto
  have can: "list_all canonical (all_subs st')"
    using path_command_canonical[of "fst st" "snd st" t ts "fst st'" "snd st'" ts'] r(1) "2.prems"(3) by (simp add: list_all_iff)
  have fits: "path_fits (all_subs st')" using loop_fits_before[OF r(2) can "2.prems"(4)] .
  obtain c a b where sim: "next_command s = Inr (Some (c, a))" "r_command (r_state st) c a = Inr (r_state st', b)" "tokens b = ts'"
    using command_simulated[OF r(1) "2.prems"(3) fits _ "2.prems"(2)] "2.prems"(5) by auto
  have "\<not> list_ex lower_command ts'" using path_command_rest[OF r(1)] "2.prems"(5) by (auto simp: list_ex_iff)
  then obtain st2 where "r_parse_loop (r_state st') b = Inr (r_state st2)" "out = all_subs st2"
    using "2.IH"[OF r(1), of b] r(2) sim(3) can "2.prems"(4) by auto
  then show ?case using sim(1,2) by (intro exI[of _ st2]) (simp add: r_parse_loop.simps[of _ s])
qed

lemma render_path_agrees:
  assumes "parse_path d = Inr sps" "sps \<noteq> []" "path_fits sps" "\<not> list_ex lower_command (tokens d)"
  shows "parse_path_d d = Inr (map to_r_sub sps)"
proof -
  obtain st' where "r_parse_loop ([], None) d = Inr (r_state st')" "sps = all_subs st'"
    using loop_simulated[of "([], None)" "tokens d" sps d] assms by (fastforce simp: parse_path_def opt_list_def)
  moreover have "map to_r_sub (fst st') @ opt_list (map_option to_r_sub (snd st')) = map to_r_sub (all_subs st')"
    by (cases "snd st'") (simp_all add: opt_list_def)
  ultimately show ?thesis using assms(2) by (simp add: parse_path_d_def Let_def)
qed

end
