(* ===== verification/UiWidget.thy ===== *)
theory UiWidget
  imports RenderObject
begin

text \<open>
  The widget tree of the panels and its placement: \<open>ui-core/src/widget.rs\<close>, \<open>layout.rs\<close>,
  \<open>hit.rs\<close>, \<open>metric.rs\<close>. Positions are screen pixels. A container keeps its children beside
  its own fields, since a record cannot be recursive.
\<close>

section \<open>Widgets\<close>

datatype ui_paint = UiToken str | UiSolid str

datatype text_paint = TextToken str | TextHex str

record rect_style =
  st_fill :: "ui_paint option"
  st_stroke :: "(ui_paint \<times> f64) option"
  st_radius :: f64
  st_opacity :: f64

definition rect_style_default :: rect_style where
  "rect_style_default = \<lparr>st_fill = None, st_stroke = None, st_radius = 0, st_opacity = f_one\<rparr>"

datatype flow_axis = FlowNone | FlowHorizontal | FlowVertical
datatype ui_cross_align = UiStart | UiCenter | UiEnd
datatype ui_main_align = PackStart | PackBetween

record edges =
  e_l :: f64
  e_t :: f64
  e_r :: f64
  e_b :: f64

definition edges_all :: "f64 \<Rightarrow> edges" where
  "edges_all v = \<lparr>e_l = v, e_t = v, e_r = v, e_b = v\<rparr>"

record edit_request =
  erq_id :: str
  erq_rect :: "f64 \<times> f64 \<times> f64 \<times> f64"
  erq_value :: str
  erq_size_px :: f64

text \<open>The fields that every widget starts with.\<close>

record ui_box =
  w_id :: str
  w_x :: f64
  w_y :: f64
  w_w :: f64
  w_h :: f64

record rect_widget = ui_box +
  rw_style :: rect_style
  rw_hoverable :: bool

record icon_widget = ui_box +
  iw_d :: str
  iw_fill :: "ui_paint option"
  iw_stroke :: "(ui_paint \<times> f64) option"

record text_widget = ui_box +
  tw_label :: str
  tw_size_px :: f64
  tw_color :: text_paint
  tw_center :: bool

record button_widget = ui_box +
  bw_label :: str
  bw_style :: rect_style
  bw_label_size_px :: f64
  bw_label_color :: text_paint

record swatch_widget = ui_box +
  sw_fill :: ui_paint
  sw_selected :: bool

record toggle_widget = ui_box +
  gw_on :: bool

record slider_widget = ui_box +
  lw_value :: f64

record segment_widget = ui_box +
  mw_labels :: "str list"
  mw_selected :: nat
  mw_label_size_px :: f64
  mw_label_color :: text_paint

record input_widget = ui_box +
  nw_value :: str
  nw_focused :: bool
  nw_size_px :: f64
  nw_color :: text_paint
  nw_placeholder :: str

record container = ui_box +
  ct_direction :: flow_axis
  ct_spacing :: f64
  ct_main_align :: ui_main_align
  ct_padding :: edges
  ct_align :: ui_cross_align
  ct_clip :: bool

datatype widget =
    VContainer container "widget list"
  | VRect rect_widget
  | VIcon icon_widget
  | VText text_widget
  | VButton button_widget
  | VSwatch swatch_widget
  | VToggle toggle_widget
  | VSlider slider_widget
  | VSegment segment_widget
  | VInput input_widget

section \<open>Placement\<close>

fun measure_widget :: "widget \<Rightarrow> f64 \<times> f64" where
  "measure_widget (VContainer c _) = (w_w c, w_h c)"
| "measure_widget (VRect r) = (w_w r, w_h r)"
| "measure_widget (VIcon i) = (w_w i, w_h i)"
| "measure_widget (VText t) = (w_w t, w_h t)"
| "measure_widget (VButton b) = (w_w b, w_h b)"
| "measure_widget (VSwatch s) = (w_w s, w_h s)"
| "measure_widget (VToggle t) = (w_w t, w_h t)"
| "measure_widget (VSlider s) = (w_w s, w_h s)"
| "measure_widget (VSegment s) = (w_w s, w_h s)"
| "measure_widget (VInput t) = (w_w t, w_h t)"

fun origin :: "widget \<Rightarrow> f64 \<times> f64" where
  "origin (VContainer c _) = (w_x c, w_y c)"
| "origin (VRect r) = (w_x r, w_y r)"
| "origin (VIcon i) = (w_x i, w_y i)"
| "origin (VText t) = (w_x t, w_y t)"
| "origin (VButton b) = (w_x b, w_y b)"
| "origin (VSwatch s) = (w_x s, w_y s)"
| "origin (VToggle t) = (w_x t, w_y t)"
| "origin (VSlider s) = (w_x s, w_y s)"
| "origin (VSegment s) = (w_x s, w_y s)"
| "origin (VInput t) = (w_x t, w_y t)"

definition cross_offset :: "ui_cross_align \<Rightarrow> f64 \<Rightarrow> f64 \<Rightarrow> f64" where
  "cross_offset al cross_extent child_cross =
     (case al of
        UiStart \<Rightarrow> 0
      | UiCenter \<Rightarrow> half (f_sub cross_extent child_cross)
      | UiEnd \<Rightarrow> f_sub cross_extent child_cross)"

definition main_gap :: "container \<Rightarrow> widget list \<Rightarrow> f64 \<Rightarrow> (widget \<Rightarrow> f64) \<Rightarrow> f64" where
  "main_gap c children main_extent child_main =
     (case ct_main_align c of
        PackStart \<Rightarrow> ct_spacing c
      | PackBetween \<Rightarrow>
          (let gaps = length children - 1 in
           if gaps = 0 then ct_spacing c
           else f_max (f_div (f_sub main_extent (f_sum (map child_main children))) (f_of_int (int gaps))) 0))"

text \<open>The children with their main and their cross position.\<close>

fun flow_children :: "(widget \<Rightarrow> f64) \<Rightarrow> (widget \<Rightarrow> f64) \<Rightarrow> f64 \<Rightarrow> f64 \<Rightarrow> widget list \<Rightarrow> (widget \<times> f64 \<times> f64) list" where
  "flow_children main cross gap cursor [] = []"
| "flow_children main cross gap cursor (w # ws) =
     (w, cursor, cross w) # flow_children main cross gap (f_add cursor (f_add (main w) gap)) ws"

definition layout_children :: "container \<Rightarrow> widget list \<Rightarrow> (widget \<times> f64 \<times> f64) list" where
  "layout_children c children =
     (let p = ct_padding c;
          inner_w = f_sub (f_sub (w_w c) (e_l p)) (e_r p);
          inner_h = f_sub (f_sub (w_h c) (e_t p)) (e_b p)
      in case ct_direction c of
           FlowNone \<Rightarrow> map (\<lambda>w. (w, origin w)) children
         | FlowHorizontal \<Rightarrow>
             flow_children (fst \<circ> measure_widget) (\<lambda>w. f_add (e_t p) (cross_offset (ct_align c) inner_h (snd (measure_widget w))))
               (main_gap c children inner_w (fst \<circ> measure_widget)) (e_l p) children
         | FlowVertical \<Rightarrow>
             map (\<lambda>(w, main, cross). (w, cross, main))
               (flow_children (snd \<circ> measure_widget) (\<lambda>w. f_add (e_l p) (cross_offset (ct_align c) inner_w (fst (measure_widget w))))
                  (main_gap c children inner_h (snd \<circ> measure_widget)) (e_t p) children))"

lemma flow_children_fst [simp]: "map fst (flow_children main cross gap cursor ws) = ws"
  by (induction ws arbitrary: cursor) auto

lemma layout_children_fst: "map fst (layout_children c ws) = ws"
  by (auto simp: layout_children_def Let_def comp_def case_prod_beta split: flow_axis.splits)

lemma layout_child: "(w, p) \<in> set (layout_children c ws) \<Longrightarrow> w \<in> set ws"
  using layout_children_fst[of c ws] by (metis image_eqI fst_conv list.set_map)

lemma child_smaller: "(w, p) \<in> set (layout_children c ws) \<Longrightarrow> size w < Suc (size_list size ws)"
  using size_list_estimation'[OF layout_child, of w p c ws "size w" size] by simp

section \<open>Hits\<close>

type_synonym hit_box = "str \<times> f64 \<times> f64 \<times> f64 \<times> f64"

definition box_at :: "'a ui_box_scheme \<Rightarrow> f64 \<Rightarrow> f64 \<Rightarrow> hit_box" where
  "box_at b x y = (w_id b, x, y, w_w b, w_h b)"

text \<open>The boxes of the interactive widgets, in the order of the tree.\<close>

function collect :: "widget \<Rightarrow> f64 \<Rightarrow> f64 \<Rightarrow> hit_box list" where
  "collect (VContainer c ws) ox oy =
     concat (map (\<lambda>(w, cx, cy). collect w (f_add ox cx) (f_add oy cy)) (layout_children c ws))"
| "collect (VRect r) ox oy = [box_at r ox oy]"
| "collect (VButton b) ox oy = [box_at b ox oy]"
| "collect (VSwatch s) ox oy = [box_at s ox oy]"
| "collect (VToggle t) ox oy = [box_at t ox oy]"
| "collect (VSlider s) ox oy = [box_at s ox oy]"
| "collect (VSegment s) ox oy = [box_at s ox oy]"
| "collect (VInput t) ox oy = [box_at t ox oy]"
| "collect (VIcon i) ox oy = []"
| "collect (VText t) ox oy = []"
  by pat_completeness auto
termination by (relation "measure (\<lambda>(w, _). size w)") (auto dest!: child_smaller)

definition tree_boxes :: "widget \<Rightarrow> hit_box list" where
  "tree_boxes tree = collect tree (fst (origin tree)) (snd (origin tree))"

fun in_box :: "f64 \<times> f64 \<Rightarrow> hit_box \<Rightarrow> bool" where
  "in_box (px, py) (i, sx, sy, w, h) \<longleftrightarrow>
     f_le sx px \<and> f_lt px (f_add sx w) \<and> f_le sy py \<and> f_lt py (f_add sy h)"

definition hit :: "widget \<Rightarrow> f64 \<times> f64 \<Rightarrow> str option" where
  "hit tree pt = map_option fst (List.find (in_box pt) (rev (tree_boxes tree)))"

definition resolved_box :: "widget \<Rightarrow> str \<Rightarrow> (f64 \<times> f64 \<times> f64 \<times> f64) option" where
  "resolved_box tree i = map_option snd (List.find (\<lambda>b. fst b = i) (rev (tree_boxes tree)))"

section \<open>Metrics\<close>

definition ui_grid :: f64 where "ui_grid = f_of_int 4"
definition space_xs :: f64 where "space_xs = ui_grid"
definition space_sm :: f64 where "space_sm = f_mul ui_grid (f_of_int 2)"
definition space_md :: f64 where "space_md = f_mul ui_grid (f_of_int 3)"
definition space_lg :: f64 where "space_lg = f_mul ui_grid (f_of_int 4)"
definition ui_row_h :: f64 where "ui_row_h = f_of_int 28"
definition panel_radius :: f64 where "panel_radius = f_of_int 14"

end
