(* ===== verification/UiState.thy ===== *)
theory UiState
  imports UiWidget
begin

text \<open>
  The interaction model of the panels: \<open>ui-core/src/state.rs\<close>. The tree is the view; the state
  keeps what is hovered, pressed and focused, and a value per widget id that overlays the value the
  tree declares.
\<close>

section \<open>Events and results\<close>

record key_input =
  ki_key :: str
  ki_text :: "str option"
  ki_ctrl :: bool
  ki_meta :: bool
  ki_alt :: bool

datatype ui_action =
    Pressed str
  | ToggleChanged str bool
  | SliderChanged str f64
  | SegmentChanged str nat
  | TextChanged str str
  | FocusOn str

record dispatch_result =
  dr_consumed :: bool
  dr_dirty :: bool
  dr_actions :: "ui_action list"
  dr_edit :: "edit_request option"

definition dispatch_none :: dispatch_result where
  "dispatch_none = \<lparr>dr_consumed = False, dr_dirty = False, dr_actions = [], dr_edit = None\<rparr>"

definition dispatched :: "ui_action list \<Rightarrow> dispatch_result" where
  "dispatched acts = \<lparr>dr_consumed = True, dr_dirty = True, dr_actions = acts, dr_edit = None\<rparr>"

datatype pointer_phase = PtrDown | PtrMove | PtrUp | PtrCancel

datatype widget_kind =
    KindButton
  | KindSwatch
  | KindToggle toggle_widget
  | KindSlider
  | KindSegment segment_widget
  | KindInput input_widget

record ui_state =
  ui_hovered :: "str option"
  ui_pressed :: "str option"
  ui_focused :: "str option"
  ui_sliders :: "str \<rightharpoonup> f64"
  ui_toggles :: "str \<rightharpoonup> bool"
  ui_segments :: "str \<rightharpoonup> nat"
  ui_texts :: "str \<rightharpoonup> str"
  ui_press_origin :: "(f64 \<times> f64) option"

definition ui_state_default :: ui_state where
  "ui_state_default = \<lparr>ui_hovered = None, ui_pressed = None, ui_focused = None, ui_sliders = Map.empty,
     ui_toggles = Map.empty, ui_segments = Map.empty, ui_texts = Map.empty, ui_press_origin = None\<rparr>"

record ui_runtime =
  rt_tree :: widget
  rt_dark :: bool
  rt_viewport :: "f64 \<times> f64"
  rt_state :: ui_state

definition ui_runtime_new :: "widget \<Rightarrow> f64 \<times> f64 \<Rightarrow> bool \<Rightarrow> ui_runtime" where
  "ui_runtime_new tree viewport dark =
     \<lparr>rt_tree = tree, rt_dark = dark, rt_viewport = viewport, rt_state = ui_state_default\<rparr>"

definition set_tree :: "ui_runtime \<Rightarrow> widget \<Rightarrow> ui_runtime" where
  "set_tree rt tree = rt\<lparr>rt_tree := tree\<rparr>"

definition set_viewport :: "ui_runtime \<Rightarrow> f64 \<times> f64 \<Rightarrow> ui_runtime \<times> bool" where
  "set_viewport rt v =
     (if f_eq (fst (rt_viewport rt)) (fst v) \<and> f_eq (snd (rt_viewport rt)) (snd v) then (rt, False)
      else (rt\<lparr>rt_viewport := v\<rparr>, True))"

definition set_theme :: "ui_runtime \<Rightarrow> bool \<Rightarrow> ui_runtime \<times> bool" where
  "set_theme rt dark = (if rt_dark rt = dark then (rt, False) else (rt\<lparr>rt_dark := dark\<rparr>, True))"

section \<open>Reading the tree and the caches\<close>

text \<open>The first widget with the id, in the order of the tree.\<close>

fun find_kind_in :: "widget \<Rightarrow> str \<Rightarrow> widget_kind option"
and find_kind_list :: "widget list \<Rightarrow> str \<Rightarrow> widget_kind option" where
  "find_kind_in (VContainer c ws) i = find_kind_list ws i"
| "find_kind_in (VButton b) i = (if w_id b = i then Some KindButton else None)"
| "find_kind_in (VRect r) i = (if rw_hoverable r \<and> w_id r = i then Some KindButton else None)"
| "find_kind_in (VSwatch s) i = (if w_id s = i then Some KindSwatch else None)"
| "find_kind_in (VToggle t) i = (if w_id t = i then Some (KindToggle t) else None)"
| "find_kind_in (VSlider s) i = (if w_id s = i then Some KindSlider else None)"
| "find_kind_in (VSegment s) i = (if w_id s = i then Some (KindSegment s) else None)"
| "find_kind_in (VInput t) i = (if w_id t = i then Some (KindInput t) else None)"
| "find_kind_in (VIcon _) i = None"
| "find_kind_in (VText _) i = None"
| "find_kind_list [] i = None"
| "find_kind_list (w # ws) i =
     (case find_kind_in w i of Some k \<Rightarrow> Some k | None \<Rightarrow> find_kind_list ws i)"

definition find_kind :: "ui_runtime \<Rightarrow> str \<Rightarrow> widget_kind option" where
  "find_kind rt i = find_kind_in (rt_tree rt) i"

definition is_input :: "widget_kind option \<Rightarrow> bool" where
  "is_input k = (case k of Some (KindInput _) \<Rightarrow> True | _ \<Rightarrow> False)"

definition has_text_focus :: "ui_runtime \<Rightarrow> bool" where
  "has_text_focus rt = (case ui_focused (rt_state rt) of None \<Rightarrow> False | Some i \<Rightarrow> is_input (find_kind rt i))"

definition current_text :: "ui_runtime \<Rightarrow> str \<Rightarrow> str" where
  "current_text rt i =
     (case ui_texts (rt_state rt) i of
        Some v \<Rightarrow> v
      | None \<Rightarrow> (case find_kind rt i of Some (KindInput t) \<Rightarrow> nw_value t | _ \<Rightarrow> []))"

definition current_toggle :: "ui_runtime \<Rightarrow> str \<Rightarrow> bool" where
  "current_toggle rt i =
     (case ui_toggles (rt_state rt) i of
        Some v \<Rightarrow> v
      | None \<Rightarrow> (case find_kind rt i of Some (KindToggle t) \<Rightarrow> gw_on t | _ \<Rightarrow> False))"

definition slider_value_at :: "f64 \<Rightarrow> f64 \<Rightarrow> f64 \<Rightarrow> f64" where
  "slider_value_at origin_x width screen_x =
     (if f_le width 0 then 0 else f_clamp (f_div (f_sub screen_x origin_x) width) 0 f_one)"

text \<open>\<open>n\<close> grows while it is below \<open>idx\<close> and a cell is left.\<close>

function cell_index :: "f64 \<Rightarrow> nat \<Rightarrow> nat \<Rightarrow> nat" where
  "cell_index idx cells n =
     (if f_lt (f_of_int (int n)) idx \<and> n + 1 < cells then cell_index idx cells (n + 1) else n)"
  by auto
termination by (relation "measure (\<lambda>(idx, cells, n). cells - n)") auto

declare cell_index.simps [simp del]

definition segment_cell_at :: "segment_widget \<Rightarrow> f64 \<Rightarrow> f64 \<Rightarrow> f64 \<Rightarrow> nat" where
  "segment_cell_at s origin_x width screen_x =
     (let cells = length (mw_labels s) in
      if cells = 0 \<or> f_le width 0 then 0
      else
        let cell_w = f_div width (f_of_int (int cells));
            raw = f_floor (f_div (f_sub screen_x origin_x) cell_w)
        in cell_index (f_clamp raw 0 (f_of_int (int (cells - 1)))) cells 0)"

text \<open>The box the widget is drawn at; the default of \<open>unwrap_or\<close> when it has none.\<close>

definition box_of :: "ui_runtime \<Rightarrow> str \<Rightarrow> f64 \<times> f64" where
  "box_of rt i = (case resolved_box (rt_tree rt) i of Some (ox, _, w, _) \<Rightarrow> (ox, w) | None \<Rightarrow> (0, 0))"

definition slider_at :: "ui_runtime \<Rightarrow> str \<Rightarrow> f64 \<Rightarrow> f64" where
  "slider_at rt i x = (case box_of rt i of (ox, w) \<Rightarrow> slider_value_at ox w x)"

section \<open>Pointer\<close>

definition upd :: "(ui_state \<Rightarrow> ui_state) \<Rightarrow> ui_runtime \<Rightarrow> ui_runtime" where
  "upd f rt = rt\<lparr>rt_state := f (rt_state rt)\<rparr>"

definition pointer_down :: "ui_runtime \<Rightarrow> f64 \<times> f64 \<Rightarrow> ui_runtime \<times> dispatch_result" where
  "pointer_down rt pt =
     (case hit (rt_tree rt) pt of
        None \<Rightarrow>
          if ui_focused (rt_state rt) \<noteq> None
          then (upd (\<lambda>s. s\<lparr>ui_focused := None\<rparr>) rt, dispatch_none\<lparr>dr_dirty := True\<rparr>)
          else (rt, dispatch_none)
      | Some i \<Rightarrow>
          let rt1 = upd (\<lambda>s. s\<lparr>ui_pressed := Some i, ui_press_origin := Some pt\<rparr>) rt in
          case find_kind rt1 i of
            Some (KindInput t) \<Rightarrow>
              (upd (\<lambda>s. s\<lparr>ui_focused := Some i\<rparr>) rt1,
               (dispatched [FocusOn i])\<lparr>dr_edit := Some \<lparr>erq_id = i,
                 erq_rect = (w_x t, w_y t, w_w t, w_h t), erq_value = current_text rt1 i, erq_size_px = nw_size_px t\<rparr>\<rparr>)
          | Some KindSlider \<Rightarrow>
              let v = slider_at rt1 i (fst pt) in
              (upd (\<lambda>s. s\<lparr>ui_sliders := (ui_sliders s)(i \<mapsto> v)\<rparr>) rt1, dispatched [SliderChanged i v])
          | _ \<Rightarrow> (upd (\<lambda>s. s\<lparr>ui_focused := None\<rparr>) rt1, dispatched []))"

text \<open>\<open>!=\<close> of two optional floats: a NaN differs from itself.\<close>

definition same_value :: "f64 option \<Rightarrow> f64 \<Rightarrow> bool" where
  "same_value a v = (case a of None \<Rightarrow> False | Some u \<Rightarrow> f_eq u v)"

definition captured_slider :: "ui_runtime \<Rightarrow> str option" where
  "captured_slider rt =
     (case ui_pressed (rt_state rt) of
        None \<Rightarrow> None
      | Some i \<Rightarrow> if find_kind rt i = Some KindSlider then Some i else None)"

definition pointer_move :: "ui_runtime \<Rightarrow> f64 \<times> f64 \<Rightarrow> ui_runtime \<times> dispatch_result" where
  "pointer_move rt pt =
     (case captured_slider rt of
        Some i \<Rightarrow>
          let v = slider_at rt i (fst pt); changed = (\<not> same_value (ui_sliders (rt_state rt) i) v) in
          (upd (\<lambda>s. s\<lparr>ui_sliders := (ui_sliders s)(i \<mapsto> v)\<rparr>) rt,
           \<lparr>dr_consumed = True, dr_dirty = changed, dr_actions = (if changed then [SliderChanged i v] else []), dr_edit = None\<rparr>)
      | None \<Rightarrow>
          let hovered = hit (rt_tree rt) pt in
          (upd (\<lambda>s. s\<lparr>ui_hovered := hovered\<rparr>) rt,
           dispatch_none\<lparr>dr_consumed := (hovered \<noteq> None), dr_dirty := (hovered \<noteq> ui_hovered (rt_state rt))\<rparr>))"

definition actuate :: "ui_runtime \<Rightarrow> f64 \<times> f64 \<Rightarrow> str \<Rightarrow> ui_runtime \<times> dispatch_result" where
  "actuate rt pt i =
     (case find_kind rt i of
        Some KindButton \<Rightarrow> (rt, dispatched [Pressed i])
      | Some KindSwatch \<Rightarrow> (rt, dispatched [Pressed i])
      | Some (KindToggle _) \<Rightarrow>
          let on = (\<not> current_toggle rt i) in
          (upd (\<lambda>s. s\<lparr>ui_toggles := (ui_toggles s)(i \<mapsto> on)\<rparr>) rt, dispatched [ToggleChanged i on])
      | Some (KindSegment s) \<Rightarrow>
          let index = (case box_of rt i of (ox, w) \<Rightarrow> segment_cell_at s ox w (fst pt)) in
          (upd (\<lambda>s. s\<lparr>ui_segments := (ui_segments s)(i \<mapsto> index)\<rparr>) rt, dispatched [SegmentChanged i index])
      | _ \<Rightarrow> (rt, dispatched []))"

definition pointer_up :: "ui_runtime \<Rightarrow> f64 \<times> f64 \<Rightarrow> ui_runtime \<times> dispatch_result" where
  "pointer_up rt pt =
     (case ui_pressed (rt_state rt) of
        None \<Rightarrow> (rt, dispatch_none)
      | Some i \<Rightarrow>
          let rt1 = upd (\<lambda>s. s\<lparr>ui_pressed := None, ui_press_origin := None\<rparr>) rt in
          if hit (rt_tree rt1) pt \<noteq> Some i then (rt1, dispatched []) else actuate rt1 pt i)"

definition pointer_cancel :: "ui_runtime \<Rightarrow> ui_runtime \<times> dispatch_result" where
  "pointer_cancel rt =
     (let was = (ui_pressed (rt_state rt) \<noteq> None) in
      (upd (\<lambda>s. s\<lparr>ui_pressed := None, ui_press_origin := None\<rparr>) rt,
       dispatch_none\<lparr>dr_consumed := was, dr_dirty := was\<rparr>))"

definition dispatch_pointer :: "ui_runtime \<Rightarrow> pointer_phase \<Rightarrow> f64 \<times> f64 \<Rightarrow> ui_runtime \<times> dispatch_result" where
  "dispatch_pointer rt phase pt =
     (case phase of
        PtrDown \<Rightarrow> pointer_down rt pt
      | PtrMove \<Rightarrow> pointer_move rt pt
      | PtrUp \<Rightarrow> pointer_up rt pt
      | PtrCancel \<Rightarrow> pointer_cancel rt)"

section \<open>Keys\<close>

text \<open>\<open>String::pop\<close>: the last character with its continuation bytes.\<close>

definition pop_char :: "str \<Rightarrow> str" where
  "pop_char s = rev (drop 1 (dropWhile (\<lambda>c. 0x80 \<le> byte c \<and> byte c < 0xC0) (rev s)))"

definition focused_input :: "ui_runtime \<Rightarrow> str option" where
  "focused_input rt =
     (case ui_focused (rt_state rt) of
        None \<Rightarrow> None
      | Some i \<Rightarrow> if is_input (find_kind rt i) then Some i else None)"

definition put_text :: "ui_runtime \<Rightarrow> str \<Rightarrow> str \<Rightarrow> ui_runtime" where
  "put_text rt i t = upd (\<lambda>s. s\<lparr>ui_texts := (ui_texts s)(i \<mapsto> t)\<rparr>) rt"

definition blur :: "ui_runtime \<Rightarrow> ui_runtime" where
  "blur rt = upd (\<lambda>s. s\<lparr>ui_focused := None\<rparr>) rt"

definition dispatch_key :: "ui_runtime \<Rightarrow> key_input \<Rightarrow> ui_runtime \<times> dispatch_result" where
  "dispatch_key rt k =
     (case focused_input rt of
        None \<Rightarrow> (rt, dispatch_none)
      | Some i \<Rightarrow>
          if ki_ctrl k \<or> ki_meta k then (rt, dispatch_none)
          else
            let t = current_text rt i in
            if ki_key k = ''Backspace'' then (put_text rt i (pop_char t), dispatched [TextChanged i (pop_char t)])
            else if ki_key k = ''Enter'' \<or> ki_key k = ''Escape'' then (blur rt, dispatched [TextChanged i t])
            else (case ki_text k of
                    Some s \<Rightarrow> (put_text rt i (t @ s), dispatched [TextChanged i (t @ s)])
                  | None \<Rightarrow> (rt, dispatch_none)))"

definition commit_text :: "ui_runtime \<Rightarrow> str \<Rightarrow> ui_runtime \<times> dispatch_result" where
  "commit_text rt value =
     (case focused_input rt of
        None \<Rightarrow> (rt, dispatch_none)
      | Some i \<Rightarrow> (blur (put_text rt i value), dispatched [TextChanged i value]))"

section \<open>Projection\<close>

definition phase_style :: "ui_state \<Rightarrow> str \<Rightarrow> rect_style \<Rightarrow> rect_style" where
  "phase_style s i st =
     (if ui_pressed s = Some i then st\<lparr>st_fill := Some (UiToken ''surface-muted'')\<rparr>
      else if ui_hovered s = Some i then st\<lparr>st_fill := Some (UiToken ''hover'')\<rparr>
      else st)"

definition overlay :: "'a option \<Rightarrow> 'a \<Rightarrow> 'a" where
  "overlay cached declared = (case cached of Some v \<Rightarrow> v | None \<Rightarrow> declared)"

fun project :: "ui_runtime \<Rightarrow> widget \<Rightarrow> widget" where
  "project rt (VContainer c ws) = VContainer c (map (project rt) ws)"
| "project rt (VButton b) = VButton (b\<lparr>bw_style := phase_style (rt_state rt) (w_id b) (bw_style b)\<rparr>)"
| "project rt (VRect r) =
     (if rw_hoverable r then VRect (r\<lparr>rw_style := phase_style (rt_state rt) (w_id r) (rw_style r)\<rparr>) else VRect r)"
| "project rt (VToggle t) = VToggle (t\<lparr>gw_on := current_toggle rt (w_id t)\<rparr>)"
| "project rt (VSlider s) = VSlider (s\<lparr>lw_value := overlay (ui_sliders (rt_state rt) (w_id s)) (lw_value s)\<rparr>)"
| "project rt (VSegment s) = VSegment (s\<lparr>mw_selected := overlay (ui_segments (rt_state rt) (w_id s)) (mw_selected s)\<rparr>)"
| "project rt (VInput t) =
     VInput (t\<lparr>nw_focused := (ui_focused (rt_state rt) = Some (w_id t)),
       nw_value := overlay (ui_texts (rt_state rt) (w_id t)) (nw_value t)\<rparr>)"
| "project rt (VSwatch s) = VSwatch s"
| "project rt (VIcon i) = VIcon i"
| "project rt (VText t) = VText t"

end
