(* ===== verification/UiRender.thy ===== *)
theory UiRender
  imports UiState
begin

text \<open>
  What the panels draw: \<open>ui-core/src/render.rs\<close>, with the token values of \<open>ui-core/src/theme.rs\<close>.
  Every function of the code pushes to one vector, whose length names the next order key: here each
  takes the objects so far and returns them with its own at the end.
\<close>

section \<open>Decimal text of floats\<close>

text \<open>The nearest float to \<open>m * 10 powi e\<close>.\<close>

definition decimal_f64 :: "bool \<Rightarrow> int \<Rightarrow> int \<Rightarrow> f64" where
  "decimal_f64 neg m e = (if 0 \<le> e then f_round_rat neg (m * 10 ^ nat e) 1 0 else f_round_rat neg m (10 ^ nat (- e)) 0)"

definition digits_int :: "str \<Rightarrow> int" where
  "digits_int ds = foldl (\<lambda>a c. 10 * a + (int (byte c) - 48)) 0 ds"

definition exponent_part :: "str \<Rightarrow> int option" where
  "exponent_part s =
     (case s of
        [] \<Rightarrow> Some 0
      | c # r \<Rightarrow>
          (let neg = (r \<noteq> [] \<and> hd r = CHR ''-''); ds = (if r \<noteq> [] \<and> hd r \<in> {CHR ''-'', CHR ''+''} then tl r else r)
           in if c \<in> {CHR ''e'', CHR ''E''} \<and> ds \<noteq> [] \<and> list_all ascii_digit ds
              then Some (if neg then - digits_int ds else digits_int ds) else None))"

definition number_part :: "bool \<Rightarrow> str \<Rightarrow> f64 option" where
  "number_part neg s =
     (let ip = takeWhile ascii_digit s; r1 = dropWhile ascii_digit s;
          point = (r1 \<noteq> [] \<and> hd r1 = CHR ''.'');
          fp = (if point then takeWhile ascii_digit (tl r1) else []);
          r2 = (if point then dropWhile ascii_digit (tl r1) else r1)
      in if ip = [] \<and> fp = [] then None
         else map_option (\<lambda>e. decimal_f64 neg (digits_int (ip @ fp)) (e - int (length fp))) (exponent_part r2))"

definition ascii_lower :: "char \<Rightarrow> char" where
  "ascii_lower c = (if 65 \<le> byte c \<and> byte c \<le> 90 then char_of (byte c + 32) else c)"

text \<open>\<open>str::parse::<f64>\<close>.\<close>

definition parse_f64 :: "str \<Rightarrow> f64 option" where
  "parse_f64 s =
     (let neg = (s \<noteq> [] \<and> hd s = CHR ''-'');
          body = (if s \<noteq> [] \<and> hd s \<in> {CHR ''-'', CHR ''+''} then tl s else s);
          lower = map ascii_lower body
      in case number_part neg body of
           Some v \<Rightarrow> Some v
         | None \<Rightarrow>
             if lower = ''nan'' then Some f_nan
             else if lower = ''inf'' \<or> lower = ''infinity'' then Some (f_inf neg)
             else None)"

text \<open>The absolute value of a finite float as a fraction.\<close>

definition f_ratio :: "f64 \<Rightarrow> int \<times> int" where
  "f_ratio x = (if 0 \<le> f_exp x then (\<bar>f_mant x\<bar> * 2 ^ nat (f_exp x), 1) else (\<bar>f_mant x\<bar>, 2 ^ nat (- f_exp x)))"

definition special_text :: "f64 \<Rightarrow> str option" where
  "special_text x =
     (if f_is_nan x then Some ''NaN''
      else if f_is_inf x then Some (if f_neg_sign x then ''-inf'' else ''inf'') else None)"

definition minus_text :: "f64 \<Rightarrow> str" where
  "minus_text x = (if f_neg_sign x then ''-'' else [])"

text \<open>\<open>{:.n}\<close>: rounded to \<open>n\<close> decimals, ties to even.\<close>

definition round_half_even :: "int \<Rightarrow> int \<Rightarrow> int" where
  "round_half_even num den =
     (let q = num div den; r = num mod den in if den < 2 * r \<or> (2 * r = den \<and> odd q) then q + 1 else q)"

definition zero_pad :: "nat \<Rightarrow> str \<Rightarrow> str" where
  "zero_pad n s = replicate (n - length s) (CHR ''0'') @ s"

definition fixed_text :: "nat \<Rightarrow> f64 \<Rightarrow> str" where
  "fixed_text n x =
     (case special_text x of
        Some s \<Rightarrow> s
      | None \<Rightarrow>
          (case f_ratio x of (num, den) \<Rightarrow>
             let ds = zero_pad (n + 1) (show_nat (nat (round_half_even (num * 10 ^ n) den)))
             in minus_text x @ take (length ds - n) ds @ (if n = 0 then [] else CHR ''.'' # drop (length ds - n) ds)))"

text \<open>
  \<open>Display\<close>: the shortest digits that read back as the value, the nearest of them. With \<open>n\<close>
  digits the candidates are the two neighbours of the value; \<open>k\<close> is the place of the point.
\<close>

fun point_place :: "nat \<Rightarrow> int \<Rightarrow> int \<Rightarrow> int" where
  "point_place 0 num den = 0"
| "point_place (Suc fuel) num den =
     (if den \<le> num then int (length (show_nat (nat (num div den)))) else point_place fuel (num * 10) den - 1)"

definition digits_candidate :: "f64 \<Rightarrow> int \<Rightarrow> nat \<Rightarrow> int option" where
  "digits_candidate x k n =
     (case f_ratio x of (num, den) \<Rightarrow>
        let e = int n - k;
            (a, b) = (if 0 \<le> e then (num * 10 ^ nat e, den) else (num, den * 10 ^ nat (- e)));
            q = a div b; r = a mod b;
            near = (if 2 * r \<le> b then [q, q + 1] else [q + 1, q])
        in List.find (\<lambda>d. decimal_f64 False d (- e) = f_abs x) near)"

fun shortest_from :: "nat \<Rightarrow> f64 \<Rightarrow> int \<Rightarrow> nat \<Rightarrow> int \<times> nat" where
  "shortest_from 0 x k n = (0, n)"
| "shortest_from (Suc fuel) x k n =
     (case digits_candidate x k n of Some d \<Rightarrow> (d, n) | None \<Rightarrow> shortest_from fuel x k (Suc n))"

definition show_f64 :: "f64 \<Rightarrow> str" where
  "show_f64 x =
     (case special_text x of
        Some s \<Rightarrow> s
      | None \<Rightarrow>
          if f_is_zero x then minus_text x @ ''0''
          else
            let k = (case f_ratio x of (num, den) \<Rightarrow> point_place 330 num den);
                (d, n) = shortest_from 17 x k 1;
                ds = show_nat (nat d); place = k + int (length ds) - int n
            in minus_text x @
               (if int (length ds) \<le> place then ds @ replicate (nat place - length ds) (CHR ''0'')
                else if 0 < place then take (nat place) ds @ CHR ''.'' # drop (nat place) ds
                else ''0.'' @ replicate (nat (- place)) (CHR ''0'') @ ds))"

section \<open>Colours of text\<close>

definition hex_digit :: "nat \<Rightarrow> char" where
  "hex_digit d = (if d < 10 then digit_char d else char_of (87 + d))"

definition hex_byte :: "8 word \<Rightarrow> str" where
  "hex_byte b = [hex_digit (unat b div 16), hex_digit (unat b mod 16)]"

definition token_triple :: "str \<Rightarrow> bool \<Rightarrow> 8 word \<times> 8 word \<times> 8 word" where
  "token_triple tok dark =
     (if tok = ''surface'' then (if dark then (0x2c, 0x2c, 0x2e) else (0xff, 0xff, 0xff))
      else if tok = ''surface-muted'' then (if dark then (0x3a, 0x3a, 0x3c) else (0xe9, 0xe9, 0xeb))
      else if tok = ''default-fill'' then (if dark then (0x2c, 0x2c, 0x2e) else (0xff, 0xff, 0xff))
      else if tok = ''default-stroke'' then (if dark then (0x54, 0x54, 0x56) else (0xc6, 0xc6, 0xc8))
      else if tok = ''selection-ring'' then (if dark then (0x0a, 0x84, 0xff) else (0x00, 0x7a, 0xff))
      else if tok = ''text-secondary'' then (if dark then (0x98, 0x98, 0x9d) else (0x8a, 0x8a, 0x8e))
      else (if dark then (0xf5, 0xf5, 0xf7) else (0x1d, 0x1d, 0x1f)))"

definition token_hex :: "str \<Rightarrow> bool \<Rightarrow> str" where
  "token_hex tok dark = (case token_triple tok dark of (r, g, b) \<Rightarrow> CHR ''#'' # hex_byte r @ hex_byte g @ hex_byte b)"

fun resolve_text_paint :: "text_paint \<Rightarrow> bool \<Rightarrow> str" where
  "resolve_text_paint (TextHex hex) dark = hex"
| "resolve_text_paint (TextToken name) dark = token_hex name dark"

section \<open>Paths\<close>

definition rounded_rect_path :: "f64 \<Rightarrow> f64 \<Rightarrow> f64 \<Rightarrow> str" where
  "rounded_rect_path w h r =
     (if f_le r 0 then rect_path w h
      else
        let r = f_min (f_min r (half w)) (half h);
            qw = q_units w; qh = q_units h; qr = q_units r;
            k = js_round (f_mul (f_of_i32 qr) kappa);
            pt = (\<lambda>ns. words_text (map show_i32 ns))
        in ''M'' @ pt [qr, 0] @
           '' L'' @ pt [qw - qr, 0] @
           '' C'' @ pt [qw - qr + k, 0, qw, qr - k, qw, qr] @
           '' L'' @ pt [qw, qh - qr] @
           '' C'' @ pt [qw, qh - qr + k, qw - qr + k, qh, qw - qr, qh] @
           '' L'' @ pt [qr, qh] @
           '' C'' @ pt [qr - k, qh, 0, qh - qr + k, 0, qh - qr] @
           '' L'' @ pt [0, qr] @
           '' C'' @ pt [0, qr - k, qr - k, 0, qr, 0] @ '' Z'')"

section \<open>Objects\<close>

definition next_order :: "nat \<Rightarrow> str" where
  "next_order idx = CHR ''a'' # zero_pad 4 (show_nat idx)"

fun paint_to_rpaint :: "ui_paint \<Rightarrow> r_paint" where
  "paint_to_rpaint (UiToken name) = RToken name"
| "paint_to_rpaint (UiSolid color) = RSolid color"

definition ui_object :: "str \<Rightarrow> str \<Rightarrow> f64 \<Rightarrow> f64 \<Rightarrow> str \<Rightarrow> render_object" where
  "ui_object i order sx sy d =
     \<lparr>ro_id = i, ro_parent = None, ro_order = order, ro_transform = transform_translate sx sy,
      ro_geometry_d = d, ro_fill = None, ro_stroke = None, ro_text = None, ro_anchors = [],
      ro_clip = False, ro_hidden = False, ro_locked = False\<rparr>"

definition style_stroke :: "r_stroke_cap \<Rightarrow> r_stroke_join \<Rightarrow> ui_paint \<times> f64 \<Rightarrow> r_stroke" where
  "style_stroke cap join p =
     \<lparr>rst_paint = paint_to_rpaint (fst p), rst_width = snd p, rst_opacity = f_one, rst_dash = [],
      rst_cap = cap, rst_join = join\<rparr>"

definition rect_object :: "str \<Rightarrow> str \<Rightarrow> f64 \<Rightarrow> f64 \<Rightarrow> f64 \<Rightarrow> f64 \<Rightarrow> rect_style \<Rightarrow> render_object" where
  "rect_object i order sx sy w h st =
     (ui_object i order sx sy
        (if f_lt 0 (st_radius st) then rounded_rect_path w h (st_radius st) else rect_path w h))
     \<lparr>ro_fill := Some (case st_fill st of
          Some p \<Rightarrow> \<lparr>rf_paint = paint_to_rpaint p, rf_opacity = st_opacity st\<rparr>
        | None \<Rightarrow> \<lparr>rf_paint = RSolid ''#000000'', rf_opacity = 0\<rparr>),
      ro_stroke := map_option (style_stroke RCapButt RJoinMiter) (st_stroke st)\<rparr>"

definition clip_object :: "str \<Rightarrow> str \<Rightarrow> f64 \<Rightarrow> f64 \<Rightarrow> f64 \<Rightarrow> f64 \<Rightarrow> render_object" where
  "clip_object i order sx sy w h = (ui_object i order sx sy (rect_path w h))\<lparr>ro_clip := True\<rparr>"

definition text_object :: "str \<Rightarrow> str \<Rightarrow> f64 \<Rightarrow> f64 \<Rightarrow> f64 \<Rightarrow> f64 \<Rightarrow> str \<Rightarrow> f64 \<Rightarrow> text_paint \<Rightarrow> bool \<Rightarrow> bool \<Rightarrow> render_object" where
  "text_object i order sx sy w h label size_px color center dark =
     (ui_object i order sx sy (rect_path w h))
     \<lparr>ro_text := Some \<lparr>rt_runs = [\<lparr>rr_text = label, rr_color = resolve_text_paint color dark,
          rr_size = f_mul size_px quant_per_px, rr_bold = False, rr_italic = False, rr_font = [], rr_mode = Coverage\<rparr>],
        rt_align = (if center then RAlignCenter else RAlignStart), rt_valign = RAlignMiddle\<rparr>\<rparr>"

text \<open>A push: the order key is read off the length.\<close>

definition push_rect :: "str \<Rightarrow> f64 \<Rightarrow> f64 \<Rightarrow> f64 \<Rightarrow> f64 \<Rightarrow> rect_style \<Rightarrow> render_object list \<Rightarrow> render_object list" where
  "push_rect i sx sy w h st out = out @ [rect_object i (next_order (length out)) sx sy w h st]"

definition push_text :: "str \<Rightarrow> f64 \<Rightarrow> f64 \<Rightarrow> f64 \<Rightarrow> f64 \<Rightarrow> str \<Rightarrow> f64 \<Rightarrow> text_paint \<Rightarrow> bool \<Rightarrow> bool \<Rightarrow> render_object list \<Rightarrow> render_object list" where
  "push_text i sx sy w h label size_px color center dark out =
     out @ [text_object i (next_order (length out)) sx sy w h label size_px color center dark]"

section \<open>Icons\<close>

definition map_coord :: "f64 \<Rightarrow> f64 \<Rightarrow> i32" where
  "map_coord c s = q_units (f_mul c s)"

text \<open>The coordinates that follow a command: as many numbers as it takes, or those before the first other token.\<close>

fun take_numbers :: "nat \<Rightarrow> str list \<Rightarrow> f64 list \<times> str list" where
  "take_numbers 0 ts = ([], ts)"
| "take_numbers (Suc n) [] = ([], [])"
| "take_numbers (Suc n) (t # ts) =
     (case parse_f64 t of
        None \<Rightarrow> ([], t # ts)
      | Some v \<Rightarrow> (case take_numbers n ts of (vs, rest) \<Rightarrow> (v # vs, rest)))"

lemma take_numbers_length: "length (snd (take_numbers n ts)) \<le> length ts"
  by (induction n ts rule: take_numbers.induct) (auto split: option.splits prod.splits)

fun scale_pairs :: "f64 \<Rightarrow> f64 \<Rightarrow> f64 list \<Rightarrow> i32 list" where
  "scale_pairs sx sy (x # y # vs) = map_coord x sx # map_coord y sy # scale_pairs sx sy vs"
| "scale_pairs sx sy _ = []"

function scale_icon_tokens :: "f64 \<Rightarrow> f64 \<Rightarrow> str \<Rightarrow> str list \<Rightarrow> str" where
  "scale_icon_tokens sx sy out [] = out"
| "scale_icon_tokens sx sy out (t # ts) =
     (if t \<in> {''M'', ''L'', ''C'', ''Z''} then
        let want = (if t \<in> {''M'', ''L''} then 2 else if t = ''C'' then 6 else 0);
            r = take_numbers want ts
        in scale_icon_tokens sx sy
             (if length (fst r) \<noteq> want then out
              else out @ (if out = [] then [] else '' '') @ t @ words_text (map show_i32 (scale_pairs sx sy (fst r))))
             (snd r)
      else scale_icon_tokens sx sy out ts)"
  by pat_completeness auto
termination
  by (relation "measure (\<lambda>(sx, sy, out, ts). length ts)")
    (auto simp: less_Suc_eq_le take_numbers_length)

text \<open>\<open>split_whitespace\<close>: the white space of Unicode, without the comma.\<close>

definition space_len :: "str \<Rightarrow> nat" where
  "space_len s = (if s \<noteq> [] \<and> byte (hd s) = 44 then 0 else sep_len s)"

function words_from :: "str \<Rightarrow> str \<Rightarrow> str list" where
  "words_from cur [] = push_token cur []"
| "words_from cur (c # cs) =
     (if space_len (c # cs) = 0 then words_from (cur @ [c]) cs
      else push_token cur (words_from [] (drop (space_len (c # cs) - 1) cs)))"
  by pat_completeness auto
termination by (relation "measure (\<lambda>(cur, s). length s)") auto

definition split_whitespace :: "str \<Rightarrow> str list" where
  "split_whitespace s = words_from [] s"

definition scale_icon_path :: "str \<Rightarrow> f64 \<Rightarrow> f64 \<Rightarrow> str" where
  "scale_icon_path d w h =
     scale_icon_tokens (f_div w (f_of_int 24)) (f_div h (f_of_int 24)) [] (split_whitespace d)"

section \<open>The parts of a widget\<close>

definition solid_part :: "str \<Rightarrow> f64 \<Rightarrow> rect_style" where
  "solid_part tok radius = \<lparr>st_fill = Some (UiToken tok), st_stroke = None, st_radius = radius, st_opacity = f_one\<rparr>"

definition emit_button :: "button_widget \<Rightarrow> f64 \<Rightarrow> f64 \<Rightarrow> bool \<Rightarrow> render_object list \<Rightarrow> render_object list" where
  "emit_button b sx sy dark out =
     push_text (w_id b @ ''::label'') sx sy (w_w b) (w_h b) (bw_label b) (bw_label_size_px b) (bw_label_color b) True dark
       (push_rect (w_id b) sx sy (w_w b) (w_h b) (bw_style b) out)"

definition emit_icon :: "icon_widget \<Rightarrow> f64 \<Rightarrow> f64 \<Rightarrow> render_object list \<Rightarrow> render_object list" where
  "emit_icon i sx sy out = out @
     [(ui_object (w_id i) (next_order (length out)) sx sy (scale_icon_path (iw_d i) (w_w i) (w_h i)))
       \<lparr>ro_fill := map_option (\<lambda>p. \<lparr>rf_paint = paint_to_rpaint p, rf_opacity = f_one\<rparr>) (iw_fill i),
        ro_stroke := map_option (style_stroke RCapRound RJoinRound) (iw_stroke i)\<rparr>]"

definition emit_swatch :: "swatch_widget \<Rightarrow> f64 \<Rightarrow> f64 \<Rightarrow> render_object list \<Rightarrow> render_object list" where
  "emit_swatch s sx sy out =
     push_rect (w_id s) sx sy (w_w s) (w_h s)
       \<lparr>st_fill = Some (sw_fill s),
        st_stroke = (if sw_selected s then Some (UiToken ''selection-ring'', f_of_int 2) else None),
        st_radius = f_of_int 6, st_opacity = f_one\<rparr> out"

definition emit_toggle :: "toggle_widget \<Rightarrow> f64 \<Rightarrow> f64 \<Rightarrow> render_object list \<Rightarrow> render_object list" where
  "emit_toggle t sx sy out =
     (let pad = f_of_int 2; knob = f_sub (w_h t) (f_mul pad (f_of_int 2));
          knob_x = (if gw_on t then f_sub (f_sub (f_add sx (w_w t)) knob) pad else f_add sx pad)
      in push_rect (w_id t @ ''::knob'') knob_x (f_add sy pad) knob knob (solid_part ''surface'' (half knob))
           (push_rect (w_id t) sx sy (w_w t) (w_h t)
              (solid_part (if gw_on t then ''selection-ring'' else ''surface-muted'') (half (w_h t))) out))"

definition emit_slider :: "slider_widget \<Rightarrow> f64 \<Rightarrow> f64 \<Rightarrow> render_object list \<Rightarrow> render_object list" where
  "emit_slider s sx sy out =
     (let value = f_clamp (lw_value s) 0 f_one; knob = w_h s;
          knob_x = f_sub (f_add sx (f_mul value (w_w s))) (half knob)
      in push_rect (w_id s @ ''::knob'') knob_x sy knob knob (solid_part ''surface'' (half knob))
           (push_rect (w_id s @ ''::fill'') sx sy (f_mul value (w_w s)) (w_h s) (solid_part ''selection-ring'' (half (w_h s)))
              (push_rect (w_id s) sx sy (w_w s) (w_h s) (solid_part ''surface-muted'' (half (w_h s))) out)))"

definition pill_inset :: f64 where "pill_inset = f_of_int 2"

fun emit_cells :: "segment_widget \<Rightarrow> f64 \<Rightarrow> f64 \<Rightarrow> f64 \<Rightarrow> bool \<Rightarrow> nat \<Rightarrow> str list \<Rightarrow> render_object list \<Rightarrow> render_object list" where
  "emit_cells s sx sy cell_w dark n [] out = out"
| "emit_cells s sx sy cell_w dark n (label # labels) out =
     emit_cells s sx sy cell_w dark (Suc n) labels
       (push_text (w_id s @ ''::seg'' @ show_nat n @ ''::label'') (f_add sx (f_mul (f_of_int (int n)) cell_w)) sy cell_w (w_h s)
          label (mw_label_size_px s) (mw_label_color s) True dark out)"

definition emit_segment_control :: "segment_widget \<Rightarrow> f64 \<Rightarrow> f64 \<Rightarrow> bool \<Rightarrow> render_object list \<Rightarrow> render_object list" where
  "emit_segment_control s sx sy dark out =
     (let out1 = push_rect (w_id s) sx sy (w_w s) (w_h s) (solid_part ''surface-muted'' (f_of_int 8)) out;
          cell_w = f_div (w_w s) (f_of_int (int (max (length (mw_labels s)) 1)));
          out2 = (if mw_selected s < length (mw_labels s)
            then push_rect (w_id s @ ''::sel'')
              (f_add (f_add sx (f_mul (f_of_int (int (mw_selected s))) cell_w)) pill_inset) (f_add sy pill_inset)
              (f_max (f_sub cell_w (f_mul pill_inset (f_of_int 2))) 0) (f_max (f_sub (w_h s) (f_mul pill_inset (f_of_int 2))) 0)
              (solid_part ''accent-soft'' (f_of_int 6)) out1
            else out1)
      in emit_cells s sx sy cell_w dark 0 (mw_labels s) out2)"

definition text_input_pad :: f64 where "text_input_pad = f_of_int 8"

definition emit_text_input :: "input_widget \<Rightarrow> f64 \<Rightarrow> f64 \<Rightarrow> bool \<Rightarrow> render_object list \<Rightarrow> render_object list" where
  "emit_text_input t sx sy dark out =
     (let pad = text_input_pad;
          out1 = push_rect (w_id t) sx sy (w_w t) (w_h t)
            \<lparr>st_fill = Some (UiToken ''surface-muted''),
             st_stroke = Some (if nw_focused t then (UiToken ''selection-ring'', f_of_int 2) else (UiToken ''hairline'', f_one)),
             st_radius = f_of_int 6, st_opacity = f_one\<rparr> out;
          out2 = push_text (w_id t @ ''::value'') (f_add sx pad) sy (f_sub (w_w t) (f_mul pad (f_of_int 2))) (w_h t)
            (if nw_value t = [] then nw_placeholder t else nw_value t) (nw_size_px t) (nw_color t) False dark out1;
          caret_w = f_of_int 2; caret_inset = f_of_int 6
      in if nw_focused t
         then push_rect (w_id t @ ''::caret'') (f_sub (f_sub (f_add sx (w_w t)) pad) caret_w) (f_add sy caret_inset)
                caret_w (f_sub (w_h t) (f_mul caret_inset (f_of_int 2))) (solid_part ''selection-ring'' 0) out2
         else out2)"

section \<open>The tree\<close>

text \<open>The objects pushed since \<open>start\<close> that have no parent hang below the clipping container.\<close>

definition adopt :: "str \<Rightarrow> nat \<Rightarrow> render_object list \<Rightarrow> render_object list" where
  "adopt clip_id start out =
     take start out @ map (\<lambda>ob. if ro_parent ob = None then ob\<lparr>ro_parent := Some clip_id\<rparr> else ob) (drop start out)"

function emit :: "widget \<Rightarrow> f64 \<Rightarrow> f64 \<Rightarrow> bool \<Rightarrow> render_object list \<Rightarrow> render_object list" where
  "emit (VContainer c ws) ox oy dark out =
     (let out1 = (if ct_clip c then out @ [clip_object (w_id c) (next_order (length out)) ox oy (w_w c) (w_h c)] else out);
          out2 = fold (\<lambda>(w, cx, cy). emit w (f_add ox cx) (f_add oy cy) dark) (layout_children c ws) out1
      in if ct_clip c then adopt (w_id c) (length out1) out2 else out2)"
| "emit (VRect r) ox oy dark out = push_rect (w_id r) ox oy (w_w r) (w_h r) (rw_style r) out"
| "emit (VText t) ox oy dark out =
     push_text (w_id t) ox oy (w_w t) (w_h t) (tw_label t) (tw_size_px t) (tw_color t) (tw_center t) dark out"
| "emit (VIcon i) ox oy dark out = emit_icon i ox oy out"
| "emit (VButton b) ox oy dark out = emit_button b ox oy dark out"
| "emit (VSwatch s) ox oy dark out = emit_swatch s ox oy out"
| "emit (VToggle t) ox oy dark out = emit_toggle t ox oy out"
| "emit (VSlider s) ox oy dark out = emit_slider s ox oy out"
| "emit (VSegment s) ox oy dark out = emit_segment_control s ox oy dark out"
| "emit (VInput t) ox oy dark out = emit_text_input t ox oy dark out"
  by pat_completeness auto
termination by (relation "measure (\<lambda>(w, _). size w)") (auto dest!: child_smaller)

definition ui_render :: "widget \<Rightarrow> f64 \<times> f64 \<Rightarrow> bool \<Rightarrow> render_object_scene" where
  "ui_render tree viewport dark =
     \<lparr>rsc_id = ''ui-scene'', rsc_camera = \<lparr>cam_x = 0, cam_y = 0, cam_zoom = f_one\<rparr>,
      rsc_objects = emit tree (fst (origin tree)) (snd (origin tree)) dark [],
      rsc_selection = None, rsc_multi_select = []\<rparr>"

definition runtime_render :: "ui_runtime \<Rightarrow> render_object_scene" where
  "runtime_render rt = ui_render (project rt (rt_tree rt)) (rt_viewport rt) (rt_dark rt)"

end
