(* ===== verification/Inspector.thy ===== *)
theory Inspector
  imports InspectorEdit Grouping
begin

text \<open>
  The inspector panel: \<open>catalog/inspector.rs\<close>, the static catalog of controls and the view that
  filters it by the roles of the selected objects and reads their values. The encoding of the
  structured values (\<open>serde_json::to_value\<close> on derived types) is a parameter, as is the deriver
  of outlines.
\<close>

section \<open>The catalog\<close>

datatype inspector_section = SecHeader | SecPlacement | SecLayout | SecAppearance | SecText | SecAction

datatype inspector_widget =
    WText
  | WToggle
  | WBadge
  | WButton
  | WPaint
  | WNumber str "f64 option" "f64 option" f64
  | WSegment "str list"
  | WLanes
  | WAlign9

datatype applies_to = ForAlways | ForFreePlaced | ForFlowChild | ForContainer | ForFlowContainer | ForHasText

record control_entry =
  ic_id :: str
  ic_label :: str
  ic_section :: inspector_section
  ic_widget :: inspector_widget
  ic_applies_to :: applies_to
  ic_op_kind :: "str option"
  ic_field :: "str option"
  ic_unit_scale :: f64
  ic_description :: str

definition inspector_control :: "str \<Rightarrow> str \<Rightarrow> inspector_section \<Rightarrow> inspector_widget \<Rightarrow> applies_to \<Rightarrow>
    str option \<Rightarrow> str option \<Rightarrow> str \<Rightarrow> control_entry" where
  "inspector_control i label sec widget applies kind field description =
     \<lparr>ic_id = i, ic_label = label, ic_section = sec, ic_widget = widget, ic_applies_to = applies,
      ic_op_kind = kind, ic_field = field, ic_unit_scale = f_one, ic_description = description\<rparr>"

definition quantum_unit_scale :: f64 where
  "quantum_unit_scale = units_per_px"

definition with_unit_scale :: "control_entry \<Rightarrow> control_entry" where
  "with_unit_scale c = c\<lparr>ic_unit_scale := quantum_unit_scale\<rparr>"

definition number_widget :: "str \<Rightarrow> f64 option \<Rightarrow> f64 option \<Rightarrow> f64 \<Rightarrow> inspector_widget" where
  "number_widget unit lo hi step = WNumber unit lo hi step"

definition header_controls :: "control_entry list" where
  "header_controls =
    [inspector_control ''name'' ''Name'' SecHeader WText ForAlways (Some ''set-meta'') (Some ''name'')
       ''Panel display name for the object.'',
     inspector_control ''visible'' ''Visible'' SecHeader WToggle ForAlways (Some ''set-meta'') (Some ''hidden'')
       ''Show or hide the object (toggles the stored `hidden` flag, presented inverted).'',
     inspector_control ''locked'' ''Locked'' SecHeader WToggle ForAlways (Some ''set-meta'') (Some ''locked'')
       ''Lock the object against selection and editing.'',
     inspector_control ''role'' ''Role'' SecHeader WBadge ForAlways None None
       (''The object'' @ [CHR 0x27] @ ''s placement/container role (read-only).'')]"

definition placement_controls :: "control_entry list" where
  "placement_controls =
    [inspector_control ''x'' ''X'' SecPlacement (number_widget ''px'' None None (f_of_int 1)) ForFreePlaced (Some ''set-transform'') (Some ''translate.x'')
       ''Horizontal position (transform translate x).'',
     inspector_control ''y'' ''Y'' SecPlacement (number_widget ''px'' None None (f_of_int 1)) ForFreePlaced (Some ''set-transform'') (Some ''translate.y'')
       ''Vertical position (transform translate y).'',
     inspector_control ''width'' ''Width'' SecPlacement (number_widget ''px'' (Some (f_of_int 0)) None (f_of_int 1)) ForFreePlaced (Some ''set-transform'') (Some ''scale.x'')
       ''Width (transform scale x).'',
     inspector_control ''height'' ''Height'' SecPlacement (number_widget ''px'' (Some (f_of_int 0)) None (f_of_int 1)) ForFreePlaced (Some ''set-transform'') (Some ''scale.y'')
       ''Height (transform scale y).'',
     inspector_control ''rotation'' ''Rotation'' SecPlacement (number_widget ''deg'' None None (f_of_int 1)) ForFreePlaced (Some ''set-transform'') (Some ''rotation'')
       ''Rotation, read from the transform affine decomposition.'',
     with_unit_scale (inspector_control ''sizing-w'' ''Width sizing'' SecPlacement (WSegment [''Hug'', ''Fill'', ''Fixed'']) ForFlowChild (Some ''set-sizing'') (Some ''w'')
       ''How the child sizes along the width: hug content, fill the track, or a fixed value.''),
     with_unit_scale (inspector_control ''sizing-h'' ''Height sizing'' SecPlacement (WSegment [''Hug'', ''Fill'', ''Fixed'']) ForFlowChild (Some ''set-sizing'') (Some ''h'')
       ''How the child sizes along the height: hug content, fill the track, or a fixed value.''),
     inspector_control ''rotation-flow'' ''Rotation'' SecPlacement (number_widget ''deg'' None None (f_of_int 1)) ForFlowChild (Some ''set-transform'') (Some ''rotation'')
       ''Rotation, read from the transform affine decomposition.'']"

definition layout_controls :: "control_entry list" where
  "layout_controls =
    [inspector_control ''layout-mode'' ''Layout'' SecLayout (WSegment [''Free'', ''Flow'']) ForContainer (Some ''set-layout'') (Some ''mode'')
       ''Free (children keep their own transform) or Flow (the parent arranges children).'',
     inspector_control ''axis'' ''Axis'' SecLayout (WSegment [''Horizontal'', ''Vertical'']) ForFlowContainer (Some ''set-layout'') (Some ''axis'')
       ''Main axis the children flow along.'',
     inspector_control ''lanes'' ''Lanes'' SecLayout WLanes ForFlowContainer (Some ''set-layout'') (Some ''lanes'')
       ''Track count: 1 = list, N = grid, Fill = wrap-as-fit.'',
     with_unit_scale (inspector_control ''spacing'' ''Spacing'' SecLayout (number_widget ''px'' (Some (f_of_int 0)) None (f_of_int 1)) ForFlowContainer (Some ''set-layout'') (Some ''spacing'')
       ''Inter-child gap AND uniform container edge inset.''),
     inspector_control ''align'' ''Align'' SecLayout WAlign9 ForFlowContainer (Some ''set-layout'') (Some ''align'')
       ''Main- and cross-axis alignment of the children.'',
     inspector_control ''clip'' ''Clip'' SecLayout WToggle ForFlowContainer (Some ''set-clip'') (Some ''clip'')
       (''Clip children to this container'' @ [CHR 0x27] @ ''s bounds.'')]"

definition appearance_controls :: "control_entry list" where
  "appearance_controls =
    [inspector_control ''fill'' ''Fill'' SecAppearance WPaint ForAlways (Some ''set-style'') (Some ''fill'')
       ''Fill paint.'',
     inspector_control ''stroke'' ''Stroke'' SecAppearance WPaint ForAlways (Some ''set-style'') (Some ''stroke'')
       ''Stroke paint.'',
     with_unit_scale (inspector_control ''stroke-width'' ''Stroke width'' SecAppearance (number_widget ''px'' (Some (f_of_int 0)) None (f_of_int 1)) ForAlways (Some ''set-style'') (Some ''stroke.width'')
       ''Stroke width.'')]"

definition text_controls :: "control_entry list" where
  "text_controls =
    [inspector_control ''font'' ''Font'' SecText (WSegment [''Sans'', ''Serif'', ''Mono'']) ForHasText (Some ''set-text'') (Some ''font'')
       ''Font family.'',
     with_unit_scale (inspector_control ''font-size'' ''Size'' SecText (number_widget ''px'' (Some (f_of_int 1)) None (f_of_int 1)) ForHasText (Some ''set-text'') (Some ''size'')
       ''Font size.''),
     inspector_control ''font-weight'' ''Weight'' SecText (WSegment [''Regular'', ''Bold'']) ForHasText (Some ''set-text'') (Some ''bold'')
       ''Font weight.'',
     inspector_control ''text-align'' ''Text align'' SecText (WSegment [''Start'', ''Center'', ''End'', ''Justify'']) ForHasText (Some ''set-text'') (Some ''align'')
       ''Text alignment.'',
     inspector_control ''text-color'' ''Text color'' SecText WPaint ForHasText (Some ''set-text'') (Some ''color'')
       ''Text color.'']"

definition action_controls :: "control_entry list" where
  "action_controls =
    [inspector_control ''canonicalize'' ''Straighten'' SecAction WButton ForAlways (Some ''canonicalize'') None
       ''Extract the dominant orientation into the transform and re-axis-align the geometry.'']"

definition object_inspector_catalog :: "control_entry list" where
  "object_inspector_catalog = header_controls @ placement_controls @ layout_controls @ appearance_controls @ text_controls @ action_controls"

section \<open>Roles\<close>

datatype placement = PlacedFree | PlacedFlowChild

record inspector_role =
  ir_placement :: placement
  ir_container :: bool
  ir_flow_container :: bool
  ir_has_text :: bool

fun role_matches :: "inspector_role \<Rightarrow> applies_to \<Rightarrow> bool" where
  "role_matches r ForAlways = True"
| "role_matches r ForFreePlaced = (ir_placement r = PlacedFree)"
| "role_matches r ForFlowChild = (ir_placement r = PlacedFlowChild)"
| "role_matches r ForContainer = ir_container r"
| "role_matches r ForFlowContainer = ir_flow_container r"
| "role_matches r ForHasText = ir_has_text r"

definition role_label :: "inspector_role \<Rightarrow> str" where
  "role_label r =
     (if ir_flow_container r then ''Flow container''
      else if ir_container r then ''Free container''
      else if ir_placement r = PlacedFlowChild then ''Flow child''
      else ''Free placed'')"

definition resolve_role :: "scene \<Rightarrow> object \<Rightarrow> inspector_role" where
  "resolve_role sc ob =
     (let in_flow_parent = (case Option.bind (o_parent ob) (scene_get sc) of None \<Rightarrow> False | Some p \<Rightarrow> o_layout p \<noteq> None);
          container = has_children sc (o_id ob)
      in \<lparr>ir_placement = (if in_flow_parent then PlacedFlowChild else PlacedFree), ir_container = container,
          ir_flow_container = (container \<and> o_layout ob \<noteq> None), ir_has_text = (o_text ob \<noteq> None)\<rparr>)"

section \<open>Values\<close>

record value_writers =
  vw_axis_sizing :: "axis_sizing \<Rightarrow> json"
  vw_axis :: "layout_axis \<Rightarrow> json"
  vw_lanes :: "lanes \<Rightarrow> json"
  vw_align :: "align \<Rightarrow> json"
  vw_paint :: "paint \<Rightarrow> json"
  vw_text_align :: "text_align \<Rightarrow> json"

text \<open>\<open>Number::from_f64\<close> refuses what is not finite; \<open>null\<close> then.\<close>

definition float_value :: "f64 \<Rightarrow> json" where
  "float_value v = (if f_is_nan v \<or> f_is_inf v then JNull else JFloat v)"

definition or_null :: "('a \<Rightarrow> json) \<Rightarrow> 'a option \<Rightarrow> json" where
  "or_null f x = (case x of None \<Rightarrow> JNull | Some y \<Rightarrow> f y)"

definition px_value :: "i32 \<Rightarrow> f64 \<Rightarrow> json" where
  "px_value units scale = float_value (f_div (f_of_i32 units) scale)"

datatype axis = AxisX | AxisY

record read_ctx =
  rc_decomposition :: affine_decomposition
  rc_bounds :: "local_bounds option"

type_synonym deriver = "geometry \<Rightarrow> region_error + derived_region"

definition read_ctx_of :: "libm \<Rightarrow> deriver \<Rightarrow> object \<Rightarrow> read_ctx" where
  "read_ctx_of lm dr ob = \<lparr>rc_decomposition = decompose_affine lm (o_transform ob),
     rc_bounds = (case dr (o_geometry ob) of Inl _ \<Rightarrow> None | Inr r \<Rightarrow> Some (rg_bounds r))\<rparr>"

text \<open>The difference of two \<open>i32\<close> wraps.\<close>

definition bounds_extent_px :: "local_bounds \<Rightarrow> axis \<Rightarrow> f64" where
  "bounds_extent_px b ax =
     f_div (f_of_i32 (case ax of AxisX \<Rightarrow> lb_max_x b - lb_min_x b | AxisY \<Rightarrow> lb_max_y b - lb_min_y b)) units_per_px"

definition axis_extent_px :: "read_ctx \<Rightarrow> axis \<Rightarrow> json" where
  "axis_extent_px ctx ax =
     or_null (\<lambda>b. float_value (f_mul (bounds_extent_px b ax)
       (f_abs (case ax of AxisX \<Rightarrow> fst (d_scale (rc_decomposition ctx)) | AxisY \<Rightarrow> snd (d_scale (rc_decomposition ctx))))))
     (rc_bounds ctx)"

definition shown_sizing :: "value_writers \<Rightarrow> axis_sizing \<Rightarrow> f64 \<Rightarrow> json" where
  "shown_sizing vw s scale =
     (case s of
        Fixed v \<Rightarrow> JObject [(''kind'', JString ''fixed''), (''value'', float_value (f_div (f_of_i32 v) scale))]
      | _ \<Rightarrow> vw_axis_sizing vw s)"

definition first_run :: "text_block option \<Rightarrow> text_run option" where
  "first_run t = Option.bind t (\<lambda>t. case t_runs t of [] \<Rightarrow> None | r # _ \<Rightarrow> Some r)"

text \<open>\<open>f64::to_degrees\<close> multiplies by \<open>180 / pi\<close>.\<close>

definition to_degrees :: "f64 \<Rightarrow> f64" where
  "to_degrees x = f_mul x 0x404CA5DC1A63C1F8"

definition read_value :: "value_writers \<Rightarrow> control_entry \<Rightarrow> object \<Rightarrow> inspector_role \<Rightarrow> read_ctx \<Rightarrow> json" where
  "read_value vw c ob role ctx =
     (let i = ic_id c; d = rc_decomposition ctx; scale = ic_unit_scale c;
          paint = or_null (vw_paint vw)
      in if i = ''name'' then or_null JString (o_name ob)
         else if i = ''visible'' then JBool (\<not> o_hidden ob)
         else if i = ''locked'' then JBool (o_locked ob)
         else if i = ''role'' then JString (role_label role)
         else if i = ''x'' then float_value (fst (d_translate d))
         else if i = ''y'' then float_value (snd (d_translate d))
         else if i = ''width'' then axis_extent_px ctx AxisX
         else if i = ''height'' then axis_extent_px ctx AxisY
         else if i = ''rotation'' \<or> i = ''rotation-flow'' then float_value (to_degrees (d_rotation d))
         else if i = ''sizing-w'' then shown_sizing vw (case o_sizing ob of None \<Rightarrow> Hug | Some s \<Rightarrow> sz_w s) scale
         else if i = ''sizing-h'' then shown_sizing vw (case o_sizing ob of None \<Rightarrow> Hug | Some s \<Rightarrow> sz_h s) scale
         else if i = ''layout-mode'' then JString (if o_layout ob \<noteq> None then ''flow'' else ''free'')
         else if i = ''axis'' then or_null (vw_axis vw \<circ> ly_axis) (o_layout ob)
         else if i = ''lanes'' then or_null (vw_lanes vw \<circ> ly_lanes) (o_layout ob)
         else if i = ''spacing'' then or_null (\<lambda>l. px_value (ly_spacing l) scale) (o_layout ob)
         else if i = ''align'' then or_null (vw_align vw \<circ> ly_align) (o_layout ob)
         else if i = ''clip'' then JBool (case o_clip ob of None \<Rightarrow> False | Some b \<Rightarrow> b)
         else if i = ''fill'' then paint (map_option f_paint (o_fill ob))
         else if i = ''stroke'' then paint (map_option s_paint (o_stroke ob))
         else if i = ''stroke-width'' then or_null (\<lambda>s. px_value (s_width s) scale) (o_stroke ob)
         else if i = ''font'' then or_null JString (Option.bind (first_run (o_text ob)) r_font)
         else if i = ''font-size'' then or_null (\<lambda>s. px_value s scale) (Option.bind (first_run (o_text ob)) r_size)
         else if i = ''font-weight'' then or_null (JBool \<circ> r_bold) (first_run (o_text ob))
         else if i = ''text-align'' then or_null (vw_text_align vw \<circ> t_align) (o_text ob)
         else if i = ''text-color'' then or_null JString (Option.bind (first_run (o_text ob)) r_color)
         else JNull)"

text \<open>The transform that gives the object the target size on one axis.\<close>

definition f_copysign :: "f64 \<Rightarrow> f64 \<Rightarrow> f64" where
  "f_copysign x s = (if f_neg_sign s then f_neg (f_abs x) else f_abs x)"

definition resize_axis :: "libm \<Rightarrow> deriver \<Rightarrow> transform \<Rightarrow> geometry \<Rightarrow> axis \<Rightarrow> f64 \<Rightarrow> transform" where
  "resize_axis lm dr t g ax target_px =
     (case dr g of
        Inl _ \<Rightarrow> t
      | Inr r \<Rightarrow>
          (let extent_px = bounds_extent_px (rg_bounds r) ax in
           if f_eq extent_px 0 then t
           else
             let d = decompose_affine lm t; factor = f_div target_px extent_px;
                 (sx, sy) = d_scale d;
                 scale = (case ax of AxisX \<Rightarrow> (f_copysign factor sx, sy) | AxisY \<Rightarrow> (sx, f_copysign factor sy))
             in compose_affine lm (d_translate d) (d_rotation d) scale (d_skew d)))"

section \<open>The view\<close>

record control_value =
  cv_control_id :: str
  cv_label :: str
  cv_widget :: inspector_widget
  cv_value :: json
  cv_mixed :: bool
  cv_op_kind :: "str option"
  cv_field :: "str option"
  cv_unit_scale :: f64

type_synonym selected = "(object \<times> inspector_role) \<times> read_ctx"

definition value_of :: "value_writers \<Rightarrow> control_entry \<Rightarrow> selected \<Rightarrow> json" where
  "value_of vw c s = (case s of ((ob, role), ctx) \<Rightarrow> read_value vw c ob role ctx)"

definition control_value_of :: "value_writers \<Rightarrow> control_entry \<Rightarrow> selected list \<Rightarrow> control_value" where
  "control_value_of vw c entries =
     (let first = value_of vw c (hd entries);
          mixed = (\<exists>s \<in> set (tl entries). \<not> json_eq (value_of vw c s) first)
      in \<lparr>cv_control_id = ic_id c, cv_label = ic_label c, cv_widget = ic_widget c,
          cv_value = (if mixed then JNull else first), cv_mixed = mixed, cv_op_kind = ic_op_kind c,
          cv_field = ic_field c, cv_unit_scale = ic_unit_scale c\<rparr>)"

definition selected_objects :: "scene \<Rightarrow> object_selection \<Rightarrow> object list" where
  "selected_objects sc sel =
     (case sel of
        SelCanvas \<Rightarrow> []
      | SelObject i \<Rightarrow> (case scene_get sc i of None \<Rightarrow> [] | Some ob \<Rightarrow> [ob])
      | SelMulti is \<Rightarrow> List.map_filter (scene_get sc) is)"

type_synonym section_view = "inspector_section \<times> control_value list"

fun push_control :: "inspector_section \<Rightarrow> control_value \<Rightarrow> section_view list \<Rightarrow> section_view list" where
  "push_control sec v [] = [(sec, [v])]"
| "push_control sec v ((s, vs) # secs) = (if s = sec then (s, vs @ [v]) # secs else (s, vs) # push_control sec v secs)"

record inspector_view =
  iv_role :: inspector_role
  iv_sections :: "section_view list"

definition plain_role :: inspector_role where
  "plain_role = \<lparr>ir_placement = PlacedFree, ir_container = False, ir_flow_container = False, ir_has_text = False\<rparr>"

definition shown_for :: "(object \<times> inspector_role) list \<Rightarrow> control_entry \<Rightarrow> bool" where
  "shown_for sel c \<longleftrightarrow> (\<forall>(ob, r) \<in> set sel. role_matches r (ic_applies_to c))"

definition inspector_view_of :: "libm \<Rightarrow> deriver \<Rightarrow> value_writers \<Rightarrow> scene \<Rightarrow> object_selection \<Rightarrow> inspector_view" where
  "inspector_view_of lm dr vw sc sel =
     (let chosen = map (\<lambda>ob. (ob, resolve_role sc ob)) (selected_objects sc sel);
          role = (case chosen of [(_, r)] \<Rightarrow> r | _ \<Rightarrow> plain_role)
      in if chosen = [] then \<lparr>iv_role = role, iv_sections = []\<rparr>
         else
           let entries = map (\<lambda>(ob, r). ((ob, r), read_ctx_of lm dr ob)) chosen
           in \<lparr>iv_role = role,
               iv_sections = fold (\<lambda>c. push_control (ic_section c) (control_value_of vw c entries))
                 (filter (shown_for chosen) object_inspector_catalog) []\<rparr>)"

end
