(* ===== verification/UiPanels.thy ===== *)
theory UiPanels
  imports UiRender Inspector
begin

text \<open>
  The panels of the product, built from the state of the application: the files of
  \<open>ui/src\<close> except the inspector, the settings and the intents. A string literal that is not ASCII
  is written as its UTF-8 bytes.
\<close>

section \<open>The model\<close>

record canvas_entry =
  ce_id :: str
  ce_title :: str

record diagnostics_text =
  dg_state :: str
  dg_detail :: str
  dg_objects :: str
  dg_frame_ms :: str
  dg_camera :: str

record template_entry =
  te_id :: str
  te_title :: str
  te_description :: str

record context_menu_item =
  cmi_command_id :: "str option"
  cmi_label :: str
  cmi_danger :: bool
  cmi_disabled :: bool

record context_menu_model =
  cmm_x :: f64
  cmm_y :: f64
  cmm_title :: "str option"
  cmm_items :: "context_menu_item list"

record peer_cursor =
  pk_user_id :: str
  pk_screen :: "f64 \<times> f64"
  pk_color :: str
  pk_label :: str

record ui_model =
  um_theme_dark :: bool
  um_viewport :: "f64 \<times> f64"
  um_active_tool :: str
  um_create_kind :: "str option"
  um_selected_color :: str
  um_pen_palette :: "str list"
  um_pen_width :: f64
  um_pen_widths :: "f64 list"
  um_templates :: "template_entry list"
  um_template_open :: bool
  um_canvases :: "canvas_entry list"
  um_active_canvas_id :: str
  um_connection_online :: bool
  um_canvas_busy :: bool
  um_diagnostics :: "diagnostics_text option"
  um_diagnostics_open :: bool
  um_command_catalog :: "command_entry list"
  um_gesture_catalog :: "gesture_entry list"
  um_inspector_view :: "inspector_view option"
  um_is_mac :: bool
  um_settings_open :: bool
  um_context_menu :: "context_menu_model option"
  um_peers :: "peer_cursor list"
  um_busy :: bool
  um_status :: "str option"
  um_toast :: "str option"

section \<open>Literals\<close>

abbreviation fl :: "int \<Rightarrow> f64" where "fl \<equiv> f_of_int"

text \<open>\<open>count as f64\<close> and \<open>chars().count() as f64\<close>.\<close>

definition f_count :: "nat \<Rightarrow> f64" where
  "f_count k = f_of_int (int k)"

definition char_count :: "str \<Rightarrow> nat" where
  "char_count s = length (filter (\<lambda>c. byte c < 0x80 \<or> 0xC0 \<le> byte c) s)"

definition rect_part :: "str \<Rightarrow> f64 \<Rightarrow> f64 \<Rightarrow> f64 \<Rightarrow> f64 \<Rightarrow> rect_style \<Rightarrow> bool \<Rightarrow> widget" where
  "rect_part i x y w h st hoverable =
     VRect \<lparr>w_id = i, w_x = x, w_y = y, w_w = w, w_h = h, rw_style = st, rw_hoverable = hoverable\<rparr>"

definition label_part :: "str \<Rightarrow> f64 \<Rightarrow> f64 \<Rightarrow> f64 \<Rightarrow> f64 \<Rightarrow> str \<Rightarrow> f64 \<Rightarrow> text_paint \<Rightarrow> bool \<Rightarrow> widget" where
  "label_part i x y w h text sz color center =
     VText \<lparr>w_id = i, w_x = x, w_y = y, w_w = w, w_h = h, tw_label = text, tw_size_px = sz,
       tw_color = color, tw_center = center\<rparr>"

definition button_part :: "str \<Rightarrow> f64 \<Rightarrow> f64 \<Rightarrow> f64 \<Rightarrow> f64 \<Rightarrow> str \<Rightarrow> rect_style \<Rightarrow> f64 \<Rightarrow> text_paint \<Rightarrow> widget" where
  "button_part i x y w h text st sz color =
     VButton \<lparr>w_id = i, w_x = x, w_y = y, w_w = w, w_h = h, bw_label = text, bw_style = st,
       bw_label_size_px = sz, bw_label_color = color\<rparr>"

definition stack_box :: "flow_axis \<Rightarrow> f64 \<Rightarrow> ui_main_align \<Rightarrow> edges \<Rightarrow> ui_cross_align \<Rightarrow> bool \<Rightarrow>
    str \<Rightarrow> f64 \<Rightarrow> f64 \<Rightarrow> f64 \<Rightarrow> f64 \<Rightarrow> widget list \<Rightarrow> widget" where
  "stack_box dir spacing main pad cross clip i x y w h ws =
     VContainer \<lparr>w_id = i, w_x = x, w_y = y, w_w = w, w_h = h, ct_direction = dir, ct_spacing = spacing,
       ct_main_align = main, ct_padding = pad, ct_align = cross, ct_clip = clip\<rparr> ws"

text \<open>The absolute container that most of the panels use.\<close>

definition group_box :: "str \<Rightarrow> f64 \<Rightarrow> f64 \<Rightarrow> f64 \<Rightarrow> f64 \<Rightarrow> widget list \<Rightarrow> widget" where
  "group_box = stack_box FlowNone 0 PackStart (edges_all 0) UiStart False"

definition fill_style :: "str \<Rightarrow> f64 \<Rightarrow> rect_style" where
  "fill_style tok radius = \<lparr>st_fill = Some (UiToken tok), st_stroke = None, st_radius = radius, st_opacity = f_one\<rparr>"

definition bordered_style :: "str \<Rightarrow> f64 \<Rightarrow> rect_style" where
  "bordered_style tok radius =
     \<lparr>st_fill = Some (UiToken tok), st_stroke = Some (UiToken ''hairline'', f_one), st_radius = radius, st_opacity = f_one\<rparr>"

section \<open>Shared parts\<close>

definition soft_shadow :: "str \<Rightarrow> f64 \<Rightarrow> f64 \<Rightarrow> f64 \<Rightarrow> widget" where
  "soft_shadow prefix w h radius =
     (let spread = fl 3; drop = fl 5 in
      rect_part (prefix @ ''::shadow'') (f_neg spread) (f_add (f_neg spread) drop)
        (f_add w (f_mul spread (fl 2))) (f_add h (f_mul spread (fl 2)))
        \<lparr>st_fill = Some (UiSolid ''#000000''), st_stroke = None, st_radius = f_add radius spread,
         st_opacity = 0x3FBEB851EB851EB8\<rparr> False)"

definition material_panel :: "str \<Rightarrow> f64 \<Rightarrow> f64 \<Rightarrow> f64 \<Rightarrow> widget list" where
  "material_panel prefix w h radius =
     [soft_shadow prefix w h radius, rect_part (prefix @ ''::bg'') 0 0 w h (bordered_style ''material'' radius) False]"

definition button_style :: "bool \<Rightarrow> rect_style" where
  "button_style active =
     \<lparr>st_fill = (if active then Some (UiToken ''accent-soft'') else None), st_stroke = None,
      st_radius = fl 8, st_opacity = f_one\<rparr>"

section \<open>Icons\<close>

definition icon_registry :: "(str \<times> str) list" where
  "icon_registry =
    [(''select-move'',
       ''M 5 3 L 5 19 L 9 15 L 12 21 L 14 20 L 11 14 L 17 14 Z''),
     (''hand-pan'',
       ''M 7 12 L 7 7 C 7 6 9 6 9 7 L 9 11 L 9 5 C 9 4 11 4 11 5 L 11 11 L 11 4 C 11 3 13 3 13 4 L 13 11 L 13 6 C 13 5 15 5 15 6 L 15 13 C 15 18 13 21 10 21 C 8 21 7 20 6 18 L 4 14 C 3 13 5 11 6 12 Z''),
     (''draw'',
       ''M 16 3 L 21 8 L 9 20 L 4 21 L 5 16 Z M 14 5 L 19 10''),
     (''erase'',
       ''M 4 16 L 12 8 C 13 7 14 7 15 8 L 19 12 C 20 13 20 14 19 15 L 14 20 L 8 20 Z M 4 21 L 20 21''),
     (''insert-rectangle'',
       ''M 6 4 L 18 4 C 19 4 20 5 20 6 L 20 18 C 20 19 19 20 18 20 L 6 20 C 5 20 4 19 4 18 L 4 6 C 4 5 5 4 6 4 Z''),
     (''insert-ellipse'',
       ''M 12 3 C 16 3 21 8 21 12 C 21 16 16 21 12 21 C 8 21 3 16 3 12 C 3 8 8 3 12 3 Z''),
     (''insert-line'',
       ''M 4 20 L 20 4''),
     (''insert-text'',
       ''M 5 5 L 19 5 M 12 5 L 12 19''),
     (''insert-frame'',
       ''M 7 3 L 7 21 M 17 3 L 17 21 M 3 7 L 21 7 M 3 17 L 21 17''),
     (''duplicate'',
       ''M 4 4 L 14 4 L 14 14 L 4 14 Z M 10 10 L 20 10 L 20 20 L 10 20 Z''),
     (''delete'',
       ''M 4 6 L 20 6 M 9 6 L 9 4 L 15 4 L 15 6 M 6 6 L 7 20 L 17 20 L 18 6 M 10 9 L 10 17 M 14 9 L 14 17''),
     (''group'',
       ''M 3 3 L 8 3 M 16 3 L 21 3 M 3 21 L 8 21 M 16 21 L 21 21 M 3 3 L 3 8 M 21 3 L 21 8 M 3 16 L 3 21 M 21 16 L 21 21 M 7 7 L 13 7 L 13 13 L 7 13 Z M 11 11 L 17 11 L 17 17 L 11 17 Z''),
     (''ungroup'',
       ''M 3 3 L 9 3 M 15 3 L 21 3 M 3 21 L 9 21 M 3 3 L 3 9 M 21 9 L 21 15 M 21 18 L 21 21 L 18 21 M 8 8 L 16 8 L 16 16 L 8 16 Z''),
     (''undo'',
       ''M 8 8 L 4 12 L 8 16 M 4 12 L 15 12 C 19 12 20 15 20 17 C 20 19 19 20 17 20''),
     (''redo'',
       ''M 16 8 L 20 12 L 16 16 M 20 12 L 9 12 C 5 12 4 15 4 17 C 4 19 5 20 7 20''),
     (''open-template-library'',
       ''M 4 4 L 11 4 L 11 11 L 4 11 Z M 13 4 L 20 4 L 20 11 L 13 11 Z M 4 13 L 11 13 L 11 20 L 4 20 Z M 13 13 L 20 13 L 20 20 L 13 20 Z''),
     (''export'',
       ''M 4 14 L 4 20 L 20 20 L 20 14 M 12 16 L 12 4 M 8 8 L 12 4 L 16 8''),
     (''toggle-diagnostics'',
       ''M 3 12 L 8 12 L 11 5 L 14 19 L 17 12 L 21 12''),
     (''zoom-out'',
       ''M 11 4 C 14 4 18 8 18 11 C 18 14 14 18 11 18 C 8 18 4 14 4 11 C 4 8 8 4 11 4 Z M 16 16 L 21 21 M 8 11 L 14 11''),
     (''zoom-in'',
       ''M 11 4 C 14 4 18 8 18 11 C 18 14 14 18 11 18 C 8 18 4 14 4 11 C 4 8 8 4 11 4 Z M 16 16 L 21 21 M 8 11 L 14 11 M 11 8 L 11 14''),
     (''zoom-fit'',
       ''M 4 9 L 4 4 L 9 4 M 15 4 L 20 4 L 20 9 M 20 15 L 20 20 L 15 20 M 9 20 L 4 20 L 4 15 M 4 4 L 9 9 M 20 4 L 15 9 M 20 20 L 15 15 M 4 20 L 9 15''),
     (''toggle-fullscreen'',
       ''M 9 4 L 4 4 L 4 9 M 15 4 L 20 4 L 20 9 M 20 15 L 20 20 L 15 20 M 9 20 L 4 20 L 4 15 M 4 4 L 10 10 M 20 4 L 14 10 M 20 20 L 14 14 M 4 20 L 10 14''),
     (''toggle-theme'',
       ''M 12 7 C 15 7 17 9 17 12 C 17 15 15 17 12 17 C 9 17 7 15 7 12 C 7 9 9 7 12 7 Z M 12 2 L 12 5 M 12 19 L 12 22 M 2 12 L 5 12 M 19 12 L 22 12 M 5 5 L 7 7 M 17 17 L 19 19 M 19 5 L 17 7 M 7 17 L 5 19''),
     (''canvas-new'',
       ''M 12 4 L 12 20 M 4 12 L 20 12''),
     (''canvas-delete'',
       ''M 4 6 L 20 6 M 9 6 L 9 4 L 15 4 L 15 6 M 6 6 L 7 20 L 17 20 L 18 6 M 10 9 L 10 17 M 14 9 L 14 17'')]"

definition icon_path :: "str \<Rightarrow> str option" where
  "icon_path i = map_option snd (List.find (\<lambda>(k, _). k = i) icon_registry)"

definition icon_stroke_w :: f64 where "icon_stroke_w = 0x3FFCCCCCCCCCCCCD"
definition icon_box :: f64 where "icon_box = fl 24"

definition icon_in_box :: "str \<Rightarrow> str \<Rightarrow> f64 \<Rightarrow> f64 \<Rightarrow> f64 \<Rightarrow> f64 \<Rightarrow> ui_paint \<Rightarrow> widget option" where
  "icon_in_box widget_id i x y w h paint =
     map_option (\<lambda>d. VIcon \<lparr>w_id = widget_id, w_x = f_add x (half (f_sub w icon_box)), w_y = f_add y (half (f_sub h icon_box)),
       w_w = icon_box, w_h = icon_box, iw_d = d, iw_fill = None, iw_stroke = Some (paint, icon_stroke_w)\<rparr>)
     (icon_path i)"

section \<open>Toolbar\<close>

definition cmd_prefix :: str where "cmd_prefix = ''cmd:''"
definition swatch_prefix :: str where "swatch_prefix = ''swatch:''"
definition pen_width_prefix :: str where "pen_width_prefix = ''pen-width:''"

definition toolbar_groups :: "str list list" where
  "toolbar_groups =
    [[''select-move'', ''hand-pan'', ''draw'', ''erase''],
     [''insert-rectangle'', ''insert-ellipse'', ''insert-line'', ''insert-text'', ''insert-frame''],
     [''duplicate'', ''delete'', ''group'', ''ungroup''],
     [''undo'', ''redo''],
     [''open-template-library'', ''export'', ''toggle-diagnostics''],
     [''zoom-out'', ''zoom-in'', ''zoom-fit'', ''toggle-fullscreen'']]"

definition tb_btn :: f64 where "tb_btn = fl 32"
definition tb_swatch_w :: f64 where "tb_swatch_w = fl 24"
definition tb_chip_w :: f64 where "tb_chip_w = fl 34"
definition tb_spacing :: f64 where "tb_spacing = space_xs"
definition tb_sep_gap :: f64 where "tb_sep_gap = space_sm"
definition tb_sep_w :: f64 where "tb_sep_w = f_one"
definition tb_padding :: f64 where "tb_padding = fl 6"
definition tb_tray_radius :: f64 where "tb_tray_radius = fl 14"
definition tb_btn_radius :: f64 where "tb_btn_radius = fl 8"
definition tray_h :: f64 where "tray_h = f_add (f_mul tb_padding (fl 2)) tb_btn"
definition tb_bottom_margin :: f64 where "tb_bottom_margin = fl 24"

definition row_extent :: "nat \<Rightarrow> f64 \<Rightarrow> f64" where
  "row_extent k box_w =
     (if k = 0 then 0 else f_add (f_mul (f_count k) box_w) (f_mul (f_count (k - 1)) tb_spacing))"

definition find_command :: "command_entry list \<Rightarrow> str \<Rightarrow> command_entry option" where
  "find_command catalog i = List.find (\<lambda>c. oc_id c = i) catalog"

definition tray_body :: "f64 \<Rightarrow> f64 \<Rightarrow> widget" where
  "tray_body w h = rect_part ''toolbar::tray'' 0 0 w h (bordered_style ''material'' tb_tray_radius) False"

definition tb_separator :: "f64 \<Rightarrow> f64 \<Rightarrow> widget" where
  "tb_separator cx h =
     (let inset = f_add tb_padding (fl 2) in
      rect_part (''toolbar::sep@'' @ show_f64 cx) (f_add cx (half (f_sub tb_sep_gap tb_sep_w))) inset tb_sep_w
        (f_sub h (f_mul inset (fl 2))) (fill_style ''hairline'' 0) False)"

definition icon_button :: "command_entry \<Rightarrow> bool \<Rightarrow> f64 \<Rightarrow> f64 \<Rightarrow> widget list" where
  "icon_button cmd active x y =
     (let body_id = cmd_prefix @ oc_id cmd in
      rect_part body_id x y tb_btn tb_btn
        \<lparr>st_fill = (if active then Some (UiToken ''accent-soft'') else None), st_stroke = None,
         st_radius = tb_btn_radius, st_opacity = f_one\<rparr> True #
      opt_list (icon_in_box (body_id @ ''::icon'') (oc_id cmd) x y tb_btn tb_btn
        (UiToken (if active then ''selection-ring'' else ''text''))))"

definition width_chip :: "f64 \<Rightarrow> bool \<Rightarrow> f64 \<Rightarrow> f64 \<Rightarrow> widget" where
  "width_chip width active x y =
     button_part (pen_width_prefix @ show_f64 width) x y tb_chip_w tb_btn (show_f64 width) (button_style active)
       (fl 11) (TextToken ''text'')"

definition color_swatch :: "str \<Rightarrow> bool \<Rightarrow> f64 \<Rightarrow> f64 \<Rightarrow> widget" where
  "color_swatch hex selected x y =
     VSwatch \<lparr>w_id = swatch_prefix @ hex, w_x = x, w_y = y, w_w = tb_swatch_w, w_h = tb_btn,
       sw_fill = UiSolid hex, sw_selected = selected\<rparr>"

definition is_active :: "ui_model \<Rightarrow> str \<Rightarrow> bool" where
  "is_active m i =
     (if i = ''open-template-library'' then um_template_open m
      else if i = ''toggle-diagnostics'' then um_diagnostics_open m
      else case map_option oc_category (find_command (um_command_catalog m) i) of
             Some CatTool \<Rightarrow> um_active_tool m = i
           | Some CatInsert \<Rightarrow> um_create_kind m = Some i
           | _ \<Rightarrow> False)"

text \<open>The state of the second pass is the children so far and the position.\<close>

type_synonym tb_state = "widget list \<times> f64"

definition tb_command :: "ui_model \<Rightarrow> str \<Rightarrow> tb_state \<Rightarrow> tb_state" where
  "tb_command m i s =
     (case find_command (um_command_catalog m) i of
        None \<Rightarrow> s
      | Some cmd \<Rightarrow>
          (fst s @ icon_button cmd (is_active m (oc_id cmd)) (snd s) tb_padding,
           f_add (snd s) (f_add tb_btn tb_spacing)))"

definition tb_gap :: "tb_state \<Rightarrow> tb_state" where
  "tb_gap s = (fst s @ [tb_separator (snd s) tray_h], f_add (snd s) tb_sep_gap)"

definition tb_group :: "ui_model \<Rightarrow> nat \<times> str list \<Rightarrow> tb_state \<Rightarrow> tb_state" where
  "tb_group m g s =
     (let s1 = (if fst g > 0 then tb_gap s else s); s2 = fold (tb_command m) (snd g) s1
      in if snd g = [] then s2 else (fst s2, f_sub (snd s2) tb_spacing))"

definition tb_width :: "ui_model \<Rightarrow> f64 \<Rightarrow> tb_state \<Rightarrow> tb_state" where
  "tb_width m w s =
     (fst s @ [width_chip w (f_lt (f_abs (f_sub (um_pen_width m) w)) f_epsilon) (snd s) tb_padding],
      f_add (snd s) (f_add tb_chip_w tb_spacing))"

definition tb_color :: "ui_model \<Rightarrow> str \<Rightarrow> tb_state \<Rightarrow> tb_state" where
  "tb_color m c s =
     (fst s @ [color_swatch c (c = um_selected_color m) (snd s) tb_padding],
      f_add (snd s) (f_add tb_swatch_w tb_spacing))"

definition command_row_w :: "ui_model \<Rightarrow> f64" where
  "command_row_w m =
     f_add (f_sum (map (\<lambda>g. row_extent (length (filter (\<lambda>i. find_command (um_command_catalog m) i \<noteq> None) g)) tb_btn) toolbar_groups))
       (f_mul (f_count (length toolbar_groups - 1)) tb_sep_gap)"

definition toolbar_build :: "ui_model \<Rightarrow> widget" where
  "toolbar_build m =
     (let cmd_w = command_row_w m; widths = um_pen_widths m; colors = um_pen_palette m;
          trailing = length widths + length colors;
          split = (0 < trailing \<and> f_lt 0 cmd_w);
          inner_w = f_add (f_add (f_add (f_add cmd_w (if split then tb_sep_gap else 0)) (row_extent (length widths) tb_chip_w))
            (if widths \<noteq> [] \<and> colors \<noteq> [] then tb_spacing else 0)) (row_extent (length colors) tb_swatch_w);
          tray_w = f_add (f_mul tb_padding (fl 2)) inner_w;
          tx = f_max (half (f_sub (fst (um_viewport m)) tray_w)) 0;
          ty = f_max (f_sub (f_sub (snd (um_viewport m)) tray_h) tb_bottom_margin) 0;
          s0 = ([soft_shadow ''toolbar'' tray_w tray_h tb_tray_radius, tray_body tray_w tray_h], tb_padding);
          s1 = fold (tb_group m) (enumerate 0 toolbar_groups) s0;
          s2 = (if split then tb_gap s1 else s1);
          s3 = fold (tb_width m) widths s2;
          s4 = (if widths = [] then s3
                else let cx = f_sub (snd s3) tb_spacing in (fst s3, if colors = [] then cx else f_add cx tb_spacing));
          s5 = fold (tb_color m) colors s4
      in group_box ''toolbar'' tx ty tray_w tray_h (fst s5))"

section \<open>Chrome\<close>

definition canvas_prefix :: str where "canvas_prefix = ''canvas:''"
definition canvas_delete_prefix :: str where "canvas_delete_prefix = ''canvas-delete:''"
definition canvas_new_id :: str where "canvas_new_id = ''canvas-new''"

definition chrome_size :: f64 where "chrome_size = fl 36"
definition chrome_margin :: f64 where "chrome_margin = fl 16"

definition icon_chrome_button :: "str \<Rightarrow> str \<Rightarrow> f64 \<Rightarrow> f64 \<Rightarrow> f64 \<Rightarrow> widget" where
  "icon_chrome_button i glyph x y sz =
     group_box (i @ ''::button'') x y sz sz
       (rect_part i 0 0 sz sz (button_style False) True #
        opt_list (icon_in_box (i @ ''::icon'') glyph 0 0 sz sz (UiToken ''text'')))"

definition theme_toggle :: widget where
  "theme_toggle = icon_chrome_button (cmd_prefix @ ''toggle-theme'') ''toggle-theme'' chrome_margin chrome_margin chrome_size"

definition watermark :: "ui_model \<Rightarrow> widget" where
  "watermark m =
     (let w = fl 96; h = fl 24 in
      label_part ''watermark'' (f_max (f_sub (f_sub (fst (um_viewport m)) w) chrome_margin) 0)
        (f_max (f_sub (f_sub (snd (um_viewport m)) h) chrome_margin) 0) w h ''shape.ai'' (fl 13)
        (TextToken ''text-secondary'') False)"

definition switch_h :: f64 where "switch_h = fl 30"
definition tab_w :: f64 where "tab_w = fl 110"
definition ctrl_w :: f64 where "ctrl_w = fl 30"
definition switch_gap :: f64 where "switch_gap = fl 6"
definition conn_w :: f64 where "conn_w = fl 22"

definition control_button :: "str \<Rightarrow> str \<Rightarrow> f64 \<Rightarrow> widget" where
  "control_button i glyph x = icon_chrome_button i glyph x 0 switch_h"

definition tab_style :: "bool \<Rightarrow> rect_style" where
  "tab_style active =
     (if active
      then \<lparr>st_fill = Some (UiToken ''surface-muted''), st_stroke = Some (UiToken ''selection-ring'', f_one),
            st_radius = fl 8, st_opacity = f_one\<rparr>
      else button_style False)"

fun canvas_tabs :: "str \<Rightarrow> f64 \<Rightarrow> canvas_entry list \<Rightarrow> widget list" where
  "canvas_tabs active cx [] = []"
| "canvas_tabs active cx (c # cs) =
     button_part (canvas_prefix @ ce_id c) cx 0 tab_w switch_h (ce_title c) (tab_style (ce_id c = active)) (fl 11)
       (TextToken ''text'') # canvas_tabs active (f_add cx (f_add tab_w switch_gap)) cs"

definition canvas_switcher :: "ui_model \<Rightarrow> widget" where
  "canvas_switcher m =
     (let dot = fl 12;
          conn = rect_part ''canvas-switcher::conn'' 0 (half (f_sub switch_h dot)) dot dot
            \<lparr>st_fill = Some (UiSolid (if um_connection_online m then ''#2ea043'' else ''#8b949e'')), st_stroke = None,
             st_radius = fl 6, st_opacity = f_one\<rparr> False;
          cs = um_canvases m;
          cx1 = fold (\<lambda>_ cx. f_add cx (f_add tab_w switch_gap)) cs (f_add 0 conn_w);
          new = control_button canvas_new_id ''canvas-new'' cx1;
          cx2 = f_add cx1 (f_add ctrl_w switch_gap);
          deletable = (1 < length cs \<and> \<not> um_canvas_busy m);
          delete = (if deletable then [control_button (canvas_delete_prefix @ um_active_canvas_id m) ''canvas-delete'' cx2] else []);
          cx3 = (if deletable then f_add cx2 ctrl_w else cx2)
      in group_box ''canvas-switcher'' (f_add (f_add chrome_margin chrome_size) switch_gap) chrome_margin cx3 switch_h
           (conn # canvas_tabs (um_active_canvas_id m) (f_add 0 conn_w) cs @ new # delete))"

section \<open>Context menu\<close>

definition context_scrim_id :: str where "context_scrim_id = ''context-menu::scrim''"
definition menu_w :: f64 where "menu_w = fl 200"
definition menu_row_h :: f64 where "menu_row_h = fl 30"
definition menu_title_h :: f64 where "menu_title_h = fl 26"
definition menu_sep_h :: f64 where "menu_sep_h = space_sm"
definition menu_pad :: f64 where "menu_pad = fl 6"

definition menu_inner_w :: f64 where "menu_inner_w = f_sub menu_w (f_mul menu_pad (fl 2))"

definition title_row :: "str \<Rightarrow> f64 \<Rightarrow> widget" where
  "title_row title y = label_part ''context-menu::title'' menu_pad y menu_inner_w menu_title_h title (fl 11) (TextToken ''text'') False"

definition item_row :: "str \<Rightarrow> context_menu_item \<Rightarrow> f64 \<Rightarrow> widget" where
  "item_row command_id item y =
     button_part (if cmi_disabled item then ''context-menu::disabled::'' @ command_id else cmd_prefix @ command_id)
       menu_pad y menu_inner_w menu_row_h (cmi_label item)
       ((button_style False)\<lparr>st_stroke := None, st_fill := None, st_radius := fl 6\<rparr>) (fl 12)
       (if cmi_danger item then TextHex ''#e5484d'' else TextToken ''text'')"

definition menu_separator :: "nat \<Rightarrow> f64 \<Rightarrow> widget" where
  "menu_separator index y =
     rect_part (''context-menu::sep::'' @ show_nat index) menu_pad (f_add y (half (f_sub menu_sep_h f_one)))
       menu_inner_w f_one (fill_style ''hairline'' 0) False"

definition item_h :: "context_menu_item \<Rightarrow> f64" where
  "item_h item = (if cmi_command_id item = None then menu_sep_h else menu_row_h)"

fun menu_rows :: "nat \<Rightarrow> f64 \<Rightarrow> context_menu_item list \<Rightarrow> widget list" where
  "menu_rows i cy [] = []"
| "menu_rows i cy (item # items) =
     (case cmi_command_id item of None \<Rightarrow> menu_separator i cy | Some c \<Rightarrow> item_row c item cy) #
     menu_rows (Suc i) (f_add cy (item_h item)) items"

definition context_scrim :: "f64 \<times> f64 \<Rightarrow> widget" where
  "context_scrim v =
     rect_part context_scrim_id 0 0 (fst v) (snd v)
       \<lparr>st_fill = Some (UiSolid ''#000000''), st_stroke = None, st_radius = 0, st_opacity = 0\<rparr> False"

definition context_panel :: "f64 \<Rightarrow> f64 \<Rightarrow> f64 \<Rightarrow> widget list \<Rightarrow> widget" where
  "context_panel x y h rows =
     group_box ''context-menu::panel'' x y menu_w h (material_panel ''context-menu'' menu_w h (fl 8) @ rows)"

definition context_menu_build :: "context_menu_model \<Rightarrow> f64 \<times> f64 \<Rightarrow> widget" where
  "context_menu_build menu v =
     (let head = (case cmm_title menu of None \<Rightarrow> [] | Some t \<Rightarrow> [title_row t menu_pad]);
          title_h = (if cmm_title menu = None then (\<lambda>x. x) else (\<lambda>x. f_add x menu_title_h));
          rows = head @ menu_rows 0 (title_h menu_pad) (cmm_items menu);
          h = fold (\<lambda>item h. f_add h (item_h item)) (cmm_items menu) (title_h (f_mul menu_pad (fl 2)));
          x = f_max (f_min (cmm_x menu) (f_max (f_sub (fst v) menu_w) 0)) 0;
          y = f_max (f_min (cmm_y menu) (f_max (f_sub (snd v) h) 0)) 0
      in group_box ''context-menu'' 0 0 0 0 [context_scrim v, context_panel x y h rows])"

section \<open>Templates\<close>

definition template_prefix :: str where "template_prefix = ''template:''"
definition template_panel_w :: f64 where "template_panel_w = fl 280"
definition template_row_h :: f64 where "template_row_h = fl 44"
definition template_pad :: f64 where "template_pad = fl 8"
definition template_bottom_margin :: f64 where "template_bottom_margin = fl 76"

definition template_row :: "template_entry \<Rightarrow> f64 \<Rightarrow> widget" where
  "template_row e y =
     (let inner_w = f_sub template_panel_w (f_mul template_pad (fl 2)) in
      group_box (''template::row::'' @ te_id e) template_pad y inner_w template_row_h
        [rect_part (template_prefix @ te_id e) 0 0 inner_w template_row_h
           \<lparr>st_fill = None, st_stroke = None, st_radius = fl 6, st_opacity = f_one\<rparr> True,
         label_part (''template::title::'' @ te_id e) (fl 8) (fl 6) (f_sub inner_w (fl 16)) (fl 16) (te_title e) (fl 13)
           (TextToken ''text'') False,
         label_part (''template::desc::'' @ te_id e) (fl 8) (f_sub template_row_h (fl 18)) (f_sub inner_w (fl 16)) (fl 14)
           (te_description e) (fl 10) (TextToken ''text-secondary'') False])"

definition template_build :: "ui_model \<Rightarrow> widget" where
  "template_build m =
     (let rows = um_templates m;
          h = f_add (f_mul template_pad (fl 2)) (f_mul (f_count (length rows)) template_row_h);
          x = f_max (half (f_sub (fst (um_viewport m)) template_panel_w)) 0;
          y = f_max (f_sub (f_sub (snd (um_viewport m)) h) template_bottom_margin) 0
      in group_box ''template'' x y template_panel_w h
           (material_panel ''template'' template_panel_w h (fl 12) @
            map (\<lambda>(i, e). template_row e (f_add template_pad (f_mul (f_count i) template_row_h))) (enumerate 0 rows)))"

section \<open>Presence\<close>

definition peer_glyph :: f64 where "peer_glyph = fl 18"
definition peer_pill_h :: f64 where "peer_pill_h = fl 16"
definition peer_pill_pad :: f64 where "peer_pill_pad = fl 6"
definition ui_char_w :: f64 where "ui_char_w = 0x401A000000000000"  \<comment> \<open>6.5\<close>

definition peer_widget :: "peer_cursor \<Rightarrow> widget" where
  "peer_widget p =
     (let pill_w = f_add (f_mul peer_pill_pad (fl 2)) (f_mul (f_count (char_count (pk_label p))) ui_char_w);
          base = ''presence::'' @ pk_user_id p; shift = f_mul peer_glyph f_half
      in group_box base (fst (pk_screen p)) (snd (pk_screen p)) (f_max peer_glyph pill_w)
           (f_add (f_add peer_glyph peer_pill_h) (fl 2))
           [label_part (base @ ''::glyph'') 0 0 peer_glyph peer_glyph [CHR 0xE2, CHR 0x97, CHR 0xA4] peer_glyph
              (TextHex (pk_color p)) False,
            rect_part (base @ ''::pill-bg'') shift peer_glyph pill_w peer_pill_h
              \<lparr>st_fill = Some (UiSolid (pk_color p)), st_stroke = None, st_radius = half peer_pill_h, st_opacity = f_one\<rparr> False,
            label_part (base @ ''::label'') (f_add shift peer_pill_pad) peer_glyph
              (f_sub pill_w (f_mul peer_pill_pad (fl 2))) peer_pill_h (pk_label p) (fl 11) (TextHex ''#ffffff'') False])"

definition presence_build :: "peer_cursor list \<Rightarrow> widget" where
  "presence_build ps = group_box ''presence'' 0 0 0 0 (map peer_widget ps)"

section \<open>Status\<close>

definition strip_h :: f64 where "strip_h = fl 28"
definition status_margin :: f64 where "status_margin = fl 16"
definition spinner_size :: f64 where "spinner_size = fl 14"
definition toast_h :: f64 where "toast_h = fl 30"
definition status_pad :: f64 where "status_pad = fl 12"

definition status_strip :: "ui_model \<Rightarrow> widget option" where
  "status_strip m =
     (let status = (case um_status m of Some s \<Rightarrow> s | None \<Rightarrow> ''Ready'') in
      if \<not> um_busy m \<and> status = ''Ready'' then None
      else
        let label_w = f_mul (f_count (char_count status)) ui_char_w;
            spin = f_add spinner_size (fl 6);
            w = f_add (f_add (f_mul status_pad (fl 2)) (if um_busy m then spin else 0)) label_w;
            y = f_sub (f_sub (snd (um_viewport m)) strip_h) status_margin;
            text_x = (if um_busy m then f_add status_pad spin else status_pad)
        in Some (group_box ''status::strip'' status_margin y w strip_h
             (rect_part ''status::strip-bg'' 0 0 w strip_h (bordered_style ''material'' (half strip_h)) False #
              (if um_busy m
               then [rect_part ''status::spinner'' status_pad (half (f_sub strip_h spinner_size)) spinner_size spinner_size
                       (fill_style ''selection-ring'' (half spinner_size)) False]
               else []) @
              [label_part ''status::label'' text_x 0 label_w strip_h status (fl 12) (TextToken ''text'') False])))"

definition toast_widget :: "ui_model \<Rightarrow> widget option" where
  "toast_widget m =
     map_option (\<lambda>message.
       let w = f_add (f_mul status_pad (fl 2)) (f_mul (f_count (char_count message)) ui_char_w);
           x = f_max (half (f_sub (fst (um_viewport m)) w)) 0;
           y = f_sub (f_sub (f_sub (snd (um_viewport m)) toast_h) status_margin) (fl 72)
       in group_box ''status::toast'' x (f_max y 0) w toast_h
            [rect_part ''status::toast-bg'' 0 0 w toast_h (bordered_style ''surface-muted'' (half toast_h)) False,
             label_part ''status::toast-label'' 0 0 w toast_h message (fl 12) (TextToken ''text'') True])
     (um_toast m)"

definition status_build :: "ui_model \<Rightarrow> widget option" where
  "status_build m =
     (if status_strip m = None \<and> toast_widget m = None then None
      else Some (group_box ''status'' 0 0 0 0 (opt_list (status_strip m) @ opt_list (toast_widget m))))"

definition diag_w :: f64 where "diag_w = fl 240"
definition diag_row_h :: f64 where "diag_row_h = fl 20"
definition diag_pad :: f64 where "diag_pad = fl 10"

definition diag_rows :: "diagnostics_text \<Rightarrow> (str \<times> str \<times> str) list" where
  "diag_rows d =
     [(''state'', ''State'', dg_state d), (''detail'', ''Detail'', dg_detail d), (''objects'', ''Objects'', dg_objects d),
      (''frame-ms'', ''Frame ms'', dg_frame_ms d), (''camera'', ''Camera'', dg_camera d)]"

definition diagnostics_build :: "ui_model \<Rightarrow> widget option" where
  "diagnostics_build m =
     map_option (\<lambda>d.
       let rows = diag_rows d;
           h = f_add (f_mul diag_pad (fl 2)) (f_mul (f_count (length rows)) diag_row_h);
           x = f_max (f_sub (f_sub (fst (um_viewport m)) diag_w) status_margin) 0
       in group_box ''diagnostics'' x status_margin diag_w h
            (material_panel ''diagnostics'' diag_w h (fl 12) @
             map (\<lambda>(i, key, label, value).
               label_part (''diagnostics::'' @ key) diag_pad (f_add diag_pad (f_mul (f_count i) diag_row_h))
                 (f_sub diag_w (f_mul diag_pad (fl 2))) diag_row_h (label @ '': '' @ value) (fl 11)
                 (TextToken ''text-secondary'') False) (enumerate 0 rows)))
     (um_diagnostics m)"

end
