(* ===== verification/UiForms.thy ===== *)
theory UiForms
  imports UiPanels
begin

text \<open>
  The forms: \<open>ui/src/composites.rs\<close>, the inspector panel of \<open>inspector.rs\<close> and the list of
  shortcuts of \<open>settings.rs\<close>, and \<open>build_root\<close> of \<open>lib.rs\<close>. \<open>to_lowercase\<close> and
  \<open>to_uppercase\<close> are modelled on ASCII, which is what the labels of the catalogs are.
\<close>

section \<open>Composites\<close>

definition inspector_prefix :: str where "inspector_prefix = ''insp:''"

definition text_label :: text_paint where "text_label = TextToken ''text''"
definition muted_label :: text_paint where "muted_label = TextToken ''text-secondary''"

definition text_input :: "str \<Rightarrow> str \<Rightarrow> str \<Rightarrow> f64 \<Rightarrow> f64 \<Rightarrow> widget" where
  "text_input i value placeholder w h =
     VInput \<lparr>w_id = inspector_prefix @ i, w_x = 0, w_y = 0, w_w = w, w_h = h, nw_value = value, nw_focused = False,
       nw_size_px = fl 12, nw_color = text_label, nw_placeholder = placeholder\<rparr>"

definition field_row :: "f64 \<Rightarrow> str \<Rightarrow> f64 \<Rightarrow> f64 \<Rightarrow> f64 \<Rightarrow> f64 \<Rightarrow> widget list \<Rightarrow> widget" where
  "field_row spacing = stack_box FlowHorizontal spacing PackStart (edges_all 0) UiCenter False"

definition badge :: "str \<Rightarrow> str \<Rightarrow> f64 \<Rightarrow> f64 \<Rightarrow> f64 \<Rightarrow> f64 \<Rightarrow> widget" where
  "badge i text x y w h =
     group_box (i @ ''::badge'') x y w h
       [rect_part (i @ ''::badge-bg'') 0 0 w h (fill_style ''surface-muted'' (half h)) False,
        label_part (i @ ''::badge-label'') 0 0 w h text (fl 12) text_label True]"

definition number_field :: "str \<Rightarrow> str \<Rightarrow> str \<Rightarrow> f64 \<Rightarrow> f64 \<Rightarrow> f64 \<Rightarrow> f64 \<Rightarrow> widget" where
  "number_field i value unit x y w h =
     (let unit_w = fl 28; input_w = f_max (f_sub (f_sub w unit_w) space_xs) 0 in
      field_row space_xs (i @ ''::number'') x y w h
        [text_input i value [] input_w h,
         label_part (i @ ''::unit'') 0 0 unit_w h unit (fl 12) muted_label False])"

definition paint_field :: "str \<Rightarrow> str \<Rightarrow> f64 \<Rightarrow> f64 \<Rightarrow> f64 \<Rightarrow> f64 \<Rightarrow> widget" where
  "paint_field i hex x y w h =
     (let swatch_w = h; input_w = f_max (f_sub (f_sub w swatch_w) space_sm) 0 in
      field_row space_sm (i @ ''::paint'') x y w h
        [VSwatch \<lparr>w_id = i @ ''::paint-swatch'', w_x = 0, w_y = 0, w_w = swatch_w, w_h = h,
           sw_fill = (if hex = [] then UiToken ''surface-muted'' else UiSolid hex), sw_selected = False\<rparr>,
         text_input i hex ''#rrggbb'' input_w h])"

definition lanes_field :: "str \<Rightarrow> int option \<Rightarrow> bool \<Rightarrow> f64 \<Rightarrow> f64 \<Rightarrow> f64 \<Rightarrow> f64 \<Rightarrow> widget" where
  "lanes_field i lane_n fill x y w h =
     (let toggle_w = fl 48; count_w = f_max (f_sub (f_sub w toggle_w) space_sm) 0;
          count_str = (if fill then [] else case lane_n of Some c \<Rightarrow> show_int c | None \<Rightarrow> [])
      in field_row space_sm (i @ ''::lanes'') x y w h
        [text_input (i @ ''::count'') count_str ''1'' count_w h,
         VToggle \<lparr>w_id = inspector_prefix @ i @ ''::fill'', w_x = 0, w_y = 0, w_w = toggle_w, w_h = f_min h (fl 24), gw_on = fill\<rparr>])"

definition align_steps :: "str list" where "align_steps = [''start'', ''center'', ''end'']"

definition align_id :: "str \<Rightarrow> str \<Rightarrow> str \<Rightarrow> str" where
  "align_id i main cross = inspector_prefix @ i @ '':main='' @ main @ '',cross='' @ cross"

definition align_cell :: "str \<Rightarrow> str \<Rightarrow> str \<Rightarrow> nat \<times> str \<Rightarrow> nat \<times> str \<Rightarrow> widget" where
  "align_cell i main cross r c =
     (let cell = fl 18; gap = fl 3; selected = (main = snd c \<and> cross = snd r) in
      VSwatch \<lparr>w_id = align_id i (snd c) (snd r), w_x = f_mul (f_count (fst c)) (f_add cell gap),
        w_y = f_mul (f_count (fst r)) (f_add cell gap), w_w = cell, w_h = cell,
        sw_fill = UiToken (if selected then ''accent-soft'' else ''surface-muted''), sw_selected = selected\<rparr>)"

definition align9 :: "str \<Rightarrow> str \<Rightarrow> str \<Rightarrow> f64 \<Rightarrow> f64 \<Rightarrow> widget" where
  "align9 i main cross x y =
     (let cell = fl 18; gap = fl 3; extent = f_add (f_mul cell (fl 3)) (f_mul gap (fl 2));
          toggle_y = f_add extent (fl 6); steps = enumerate 0 align_steps
      in group_box (i @ ''::align'') x y extent (f_add (f_add toggle_y (fl 26)) (fl 22))
        (concat (map (\<lambda>r. map (align_cell i main cross r) steps) steps) @
         [button_part (align_id i ''spaceBetween'' cross) 0 toggle_y extent (fl 22) ''Space between''
            (button_style (main = ''spaceBetween'')) (fl 11) text_label,
          button_part (align_id i main ''stretch'') 0 (f_add toggle_y (fl 26)) extent (fl 22) ''Stretch''
            (button_style (cross = ''stretch'')) (fl 11) text_label]))"

definition segment_field :: "str \<Rightarrow> str list \<Rightarrow> nat \<Rightarrow> f64 \<Rightarrow> f64 \<Rightarrow> f64 \<Rightarrow> f64 \<Rightarrow> widget" where
  "segment_field i labels selected x y w h =
     VSegment \<lparr>w_id = inspector_prefix @ i, w_x = x, w_y = y, w_w = w, w_h = h, mw_labels = labels,
       mw_selected = selected, mw_label_size_px = fl 12, mw_label_color = text_label\<rparr>"

definition toggle_field :: "str \<Rightarrow> bool \<Rightarrow> f64 \<Rightarrow> f64 \<Rightarrow> widget" where
  "toggle_field i on x y =
     VToggle \<lparr>w_id = inspector_prefix @ i, w_x = x, w_y = y, w_w = fl 48, w_h = fl 24, gw_on = on\<rparr>"

definition action_button :: "str \<Rightarrow> str \<Rightarrow> f64 \<Rightarrow> f64 \<Rightarrow> f64 \<Rightarrow> widget" where
  "action_button i text x y w =
     button_part (inspector_prefix @ i) x y w (fl 28) text (fill_style ''surface-muted'' (fl 8)) (fl 12) text_label"

section \<open>Reading the value of a control\<close>

definition string_value :: "control_value \<Rightarrow> str" where
  "string_value c = unwrap_or (json_str (cv_value c)) []"

definition bool_value :: "control_value \<Rightarrow> bool" where
  "bool_value c \<longleftrightarrow> cv_value c = JBool True"

text \<open>Two decimals, without the trailing zeros and the point.\<close>

definition trim_end_char :: "char \<Rightarrow> str \<Rightarrow> str" where
  "trim_end_char c s = rev (dropWhile (\<lambda>d. d = c) (rev s))"

definition fmt_num :: "f64 \<Rightarrow> str" where
  "fmt_num x =
     (let trimmed = trim_end_char (CHR ''.'') (trim_end_char (CHR ''0'')
            (map (\<lambda>c. if c = CHR '','' then CHR ''.'' else c) (fixed_text 2 x)))
      in if trimmed = ''-0'' then ''0'' else trimmed)"

definition number_str :: "control_value \<Rightarrow> str" where
  "number_str c = (case json_f64 (cv_value c) of Some x \<Rightarrow> fmt_num x | None \<Rightarrow> [])"

definition value_str :: "control_value \<Rightarrow> str \<Rightarrow> str option" where
  "value_str c key = Option.bind (json_get (cv_value c) key) json_str"

definition control_paint_hex :: "control_value \<Rightarrow> str" where
  "control_paint_hex c = (if value_str c ''kind'' = Some ''solid'' then unwrap_or (value_str c ''color'') [] else [])"

definition sizing_fixed_px :: "control_value \<Rightarrow> f64 option" where
  "sizing_fixed_px c =
     (if value_str c ''kind'' = Some ''fixed''
      then Some (unwrap_or (Option.bind (json_get (cv_value c) ''value'') json_f64) 0) else None)"

definition lanes_fill :: "control_value \<Rightarrow> bool" where
  "lanes_fill c \<longleftrightarrow> value_str c ''kind'' = Some ''fill''"

text \<open>\<open>as_i64\<close>: an integer in the range of \<open>i64\<close>.\<close>

definition json_i64 :: "json \<Rightarrow> int option" where
  "json_i64 v = (case v of JPos k \<Rightarrow> if uint k < 2 ^ 63 then Some (uint k) else None | JNeg k \<Rightarrow> Some (sint k) | _ \<Rightarrow> None)"

definition lanes_count :: "control_value \<Rightarrow> int option" where
  "lanes_count c =
     (if value_str c ''kind'' = Some ''count''
      then Some (unwrap_or (Option.bind (json_get (cv_value c) ''value'') json_i64) 1) else None)"

definition align_main :: "control_value \<Rightarrow> str" where
  "align_main c = unwrap_or (value_str c ''main'') ''start''"

definition align_cross :: "control_value \<Rightarrow> str" where
  "align_cross c = unwrap_or (value_str c ''cross'') ''start''"

definition lowercase :: "str \<Rightarrow> str" where
  "lowercase s = map ascii_lower s"

definition segment_option_selected :: "control_value \<Rightarrow> str \<Rightarrow> bool" where
  "segment_option_selected c opt =
     (if cv_control_id c \<in> {''sizing-w'', ''sizing-h''} then value_str c ''kind'' = Some (lowercase opt)
      else (case cv_value c of
              JBool b \<Rightarrow> b = (lowercase opt = ''bold'')
            | JString s \<Rightarrow> s = lowercase opt
            | _ \<Rightarrow> False))"

definition segment_selected :: "control_value \<Rightarrow> str list \<Rightarrow> nat" where
  "segment_selected c options = unwrap_or (position (segment_option_selected c) options) 0"

section \<open>The inspector panel\<close>

definition insp_panel_w :: f64 where "insp_panel_w = fl 264"
definition insp_margin :: f64 where "insp_margin = space_lg"
definition insp_row_gap :: f64 where "insp_row_gap = space_sm"
definition insp_section_gap :: f64 where "insp_section_gap = space_md"
definition insp_label_w :: f64 where "insp_label_w = fl 92"
definition segment_w :: f64 where "segment_w = f_sub insp_panel_w (f_mul insp_margin (fl 2))"
definition control_w :: f64 where "control_w = f_sub (f_sub segment_w insp_label_w) space_sm"
definition toolbar_reserve :: f64 where "toolbar_reserve = f_add (f_add tray_h tb_bottom_margin) space_lg"

definition stack_height :: "widget list \<Rightarrow> f64 \<Rightarrow> f64" where
  "stack_height items gap =
     f_add (f_sum (map (snd \<circ> measure_widget) items)) (f_mul (f_count (length items - 1)) gap)"

definition column_box :: "f64 \<Rightarrow> bool \<Rightarrow> str \<Rightarrow> f64 \<Rightarrow> f64 \<Rightarrow> f64 \<Rightarrow> f64 \<Rightarrow> widget list \<Rightarrow> widget" where
  "column_box spacing clip = stack_box FlowVertical spacing PackStart (edges_all 0) UiStart clip"

fun section_label :: "inspector_section \<Rightarrow> str" where
  "section_label SecHeader = ''Object''"
| "section_label SecPlacement = ''Placement''"
| "section_label SecLayout = ''Layout''"
| "section_label SecAppearance = ''Appearance''"
| "section_label SecText = ''Text''"
| "section_label SecAction = ''Actions''"

fun section_key :: "inspector_section \<Rightarrow> str" where
  "section_key SecHeader = ''header''"
| "section_key SecPlacement = ''placement''"
| "section_key SecLayout = ''layout''"
| "section_key SecAppearance = ''appearance''"
| "section_key SecText = ''text''"
| "section_key SecAction = ''action''"

definition section_title :: "inspector_section \<Rightarrow> widget" where
  "section_title sec =
     label_part (''inspector::section::'' @ section_key sec) 0 0 segment_w ui_row_h (section_label sec) (fl 13) text_label False"

definition stack_labeled :: "str \<Rightarrow> str \<Rightarrow> widget \<Rightarrow> widget" where
  "stack_labeled i text body =
     (let children = [label_part (''inspector::label::'' @ i) 0 0 segment_w ui_row_h text (fl 12) muted_label False, body]
      in column_box insp_row_gap False (''inspector::stacked::'' @ i) 0 0 segment_w (stack_height children insp_row_gap) children)"

definition stack_fixed_companion :: "control_value \<Rightarrow> widget \<Rightarrow> f64 \<Rightarrow> widget" where
  "stack_fixed_companion c seg px =
     column_box insp_row_gap False (cv_control_id c @ ''::sizing'') 0 0 segment_w
       (f_add (f_mul ui_row_h (fl 2)) insp_row_gap)
       [seg, number_field (cv_control_id c) (fmt_num px) ''px'' 0 0 control_w ui_row_h]"

definition segment_body :: "control_value \<Rightarrow> str list \<Rightarrow> widget" where
  "segment_body c options =
     (let seg = segment_field (cv_control_id c) options (segment_selected c options) 0 0 segment_w ui_row_h
      in case sizing_fixed_px c of Some px \<Rightarrow> stack_fixed_companion c seg px | None \<Rightarrow> seg)"

definition control_widget :: "control_value \<Rightarrow> widget" where
  "control_widget c =
     (let i = cv_control_id c in
      case cv_widget c of
        WText \<Rightarrow> text_input i (string_value c) [] control_w ui_row_h
      | WToggle \<Rightarrow> toggle_field i (bool_value c) 0 0
      | WBadge \<Rightarrow> badge i (string_value c) 0 0 control_w (fl 20)
      | WButton \<Rightarrow> action_button i (cv_label c) 0 0 segment_w
      | WPaint \<Rightarrow> paint_field i (control_paint_hex c) 0 0 control_w ui_row_h
      | WNumber unit _ _ _ \<Rightarrow> number_field i (number_str c) unit 0 0 control_w ui_row_h
      | WSegment options \<Rightarrow> stack_labeled i (cv_label c) (segment_body c options)
      | WLanes \<Rightarrow> lanes_field i (lanes_count c) (lanes_fill c) 0 0 control_w ui_row_h
      | WAlign9 \<Rightarrow> align9 i (align_main c) (align_cross c) 0 0)"

definition control_row :: "control_value \<Rightarrow> widget" where
  "control_row c =
     (let labeled = (case cv_widget c of WButton \<Rightarrow> False | WSegment _ \<Rightarrow> False | _ \<Rightarrow> True);
          children = (if labeled
            then [label_part (''inspector::label::'' @ cv_control_id c) 0 0 insp_label_w ui_row_h (cv_label c) (fl 12) muted_label False]
            else []) @ [control_widget c];
          h = foldl f_max 0 (map (snd \<circ> measure_widget) children)
      in stack_box FlowHorizontal 0 PackBetween (edges_all 0) UiCenter False (''inspector::row::'' @ cv_control_id c)
           0 0 segment_w h children)"

definition section_block :: "section_view \<Rightarrow> widget" where
  "section_block s =
     (let children = section_title (fst s) # map control_row (snd s)
      in column_box insp_row_gap False (''inspector::block::'' @ section_key (fst s)) 0 0 segment_w
           (stack_height children insp_row_gap) children)"

definition inspector_build :: "inspector_view \<Rightarrow> f64 \<times> f64 \<Rightarrow> widget" where
  "inspector_build v viewport =
     (let x = f_max (f_sub (f_sub (fst viewport) insp_panel_w) insp_margin) 0;
          blocks = map section_block (iv_sections v);
          margins = f_mul insp_margin (fl 2);
          content_h = f_add (stack_height blocks insp_section_gap) margins;
          max_h = f_max (f_sub (f_sub (snd viewport) insp_margin) toolbar_reserve) 0;
          panel_h = f_min content_h max_h;
          content = column_box insp_section_gap True ''inspector::content'' insp_margin insp_margin segment_w
            (f_max (f_sub panel_h margins) 0) blocks
      in group_box ''inspector'' x insp_margin insp_panel_w panel_h
           (material_panel ''inspector'' insp_panel_w panel_h panel_radius @ [content]))"

section \<open>Settings\<close>

definition settings_scrim_id :: str where "settings_scrim_id = ''settings::scrim''"
definition settings_panel_w :: f64 where "settings_panel_w = fl 420"
definition settings_padding :: f64 where "settings_padding = f_add space_lg space_xs"
definition settings_title_h :: f64 where "settings_title_h = fl 28"
definition settings_note_h :: f64 where "settings_note_h = fl 24"
definition settings_section_h :: f64 where "settings_section_h = fl 22"
definition settings_row_h :: f64 where "settings_row_h = fl 24"
definition settings_content_w :: f64 where "settings_content_w = f_sub settings_panel_w (f_mul settings_padding (fl 2))"
definition kbd_w :: f64 where "kbd_w = fl 96"

fun split_plus :: "str \<Rightarrow> str \<Rightarrow> str list" where
  "split_plus cur [] = [cur]"
| "split_plus cur (c # cs) = (if c = CHR ''+'' then cur # split_plus [] cs else split_plus (cur @ [c]) cs)"

fun join_text :: "str \<Rightarrow> str list \<Rightarrow> str" where
  "join_text sep [] = []"
| "join_text sep [t] = t"
| "join_text sep (t # ts) = t @ sep @ join_text sep ts"

definition shortcut_token :: "bool \<Rightarrow> str \<Rightarrow> str" where
  "shortcut_token mac tok =
     (if tok = ''Mod'' then (if mac then [CHR 0xE2, CHR 0x8C, CHR 0x98] else ''Ctrl'')
      else if tok = ''Shift'' then (if mac then [CHR 0xE2, CHR 0x87, CHR 0xA7] else ''Shift'')
      else if tok = ''Alt'' then (if mac then [CHR 0xE2, CHR 0x8C, CHR 0xA5] else ''Alt'')
      else tok)"

definition format_shortcut :: "str \<Rightarrow> bool \<Rightarrow> str" where
  "format_shortcut shortcut mac =
     join_text (if mac then [] else ''+'') (map (shortcut_token mac) (split_plus [] shortcut))"

definition ascii_upper :: "char \<Rightarrow> char" where
  "ascii_upper c = (if 97 \<le> byte c \<and> byte c \<le> 122 then char_of (byte c - 32) else c)"

definition capitalize :: "str \<Rightarrow> str" where
  "capitalize tok = (case tok of [] \<Rightarrow> [] | c # cs \<Rightarrow> ascii_upper c # cs)"

text \<open>\<open>deg.fract() == 0.0\<close>: the value is an integer; a NaN and the infinities are not.\<close>

definition is_whole :: "f64 \<Rightarrow> bool" where
  "is_whole x \<longleftrightarrow> \<not> f_is_nan x \<and> \<not> f_is_inf x \<and> (0 \<le> f_exp x \<or> f_mant x mod 2 ^ nat (- f_exp x) = 0)"

definition fmt_degrees :: "f64 \<Rightarrow> str" where
  "fmt_degrees deg = (if is_whole deg then fixed_text 0 deg else show_f64 deg)"

definition format_gesture_trigger :: "gesture_entry \<Rightarrow> bool \<Rightarrow> str" where
  "format_gesture_trigger g mac =
     (let t = og_trigger g;
          tok = (case ht_input t of
            HoldKey \<Rightarrow> unwrap_or (ht_key t) []
          | HoldButton \<Rightarrow> capitalize (unwrap_or (ht_button t) []) @ '' Button''
          | HoldModifier \<Rightarrow> format_shortcut (unwrap_or (ht_modifier t) []) mac);
          base = ''Hold '' @ tok
      in case ht_degrees t of
           Some deg \<Rightarrow> base @ '' '' @ [CHR 0xC2, CHR 0xB7] @ '' '' @ fmt_degrees deg @ [CHR 0xC2, CHR 0xB0]
         | None \<Rightarrow> base)"

fun category_label :: "command_category \<Rightarrow> str" where
  "category_label CatTool = ''Tool''"
| "category_label CatInsert = ''Insert''"
| "category_label CatClipboard = ''Clipboard''"
| "category_label CatEdit = ''Edit''"
| "category_label CatSelection = ''Selection''"
| "category_label CatArrange = ''Arrange''"
| "category_label CatOrder = ''Order''"
| "category_label CatHistory = ''History''"
| "category_label CatPath = ''Path''"
| "category_label CatStyle = ''Style''"
| "category_label CatAnnotate = ''Annotate''"
| "category_label CatView = ''View''"

fun push_grouped :: "command_entry \<Rightarrow> (command_category \<times> command_entry list) list \<Rightarrow> (command_category \<times> command_entry list) list" where
  "push_grouped c [] = [(oc_category c, [c])]"
| "push_grouped c ((k, cs) # gs) = (if k = oc_category c then (k, cs @ [c]) # gs else (k, cs) # push_grouped c gs)"

definition group_by_category :: "command_entry list \<Rightarrow> (command_category \<times> command_entry list) list" where
  "group_by_category catalog = fold push_grouped catalog []"

definition kbd_pill :: "str \<Rightarrow> str \<Rightarrow> widget" where
  "kbd_pill i kbd =
     (let h = f_sub settings_row_h space_xs in
      group_box (i @ ''::kbd-pill'') 0 0 kbd_w h
        [rect_part (i @ ''::kbd-bg'') 0 0 kbd_w h (fill_style ''surface-muted'' (fl 5)) False,
         label_part (i @ ''::kbd'') 0 0 kbd_w h kbd (fl 11) text_label True])"

definition settings_row :: "str \<Rightarrow> str \<Rightarrow> str \<Rightarrow> widget" where
  "settings_row i text kbd =
     stack_box FlowHorizontal 0 PackBetween (edges_all 0) UiCenter False (i @ ''::row'') 0 0 settings_content_w settings_row_h
       [label_part (i @ ''::label'') 0 0 (f_sub settings_content_w kbd_w) settings_row_h text (fl 12) text_label False,
        kbd_pill i kbd]"

definition command_row :: "bool \<Rightarrow> command_entry \<Rightarrow> widget" where
  "command_row mac c =
     settings_row (''settings::cmd::'' @ oc_id c) (oc_label c)
       (case oc_default_shortcut c of Some s \<Rightarrow> format_shortcut s mac | None \<Rightarrow> [CHR 0xE2, CHR 0x80, CHR 0x94])"

definition gesture_row :: "bool \<Rightarrow> gesture_entry \<Rightarrow> widget" where
  "gesture_row mac g = settings_row (''settings::gesture::'' @ og_id g) (og_label g) (format_gesture_trigger g mac)"

definition settings_section :: "str \<Rightarrow> widget list \<Rightarrow> widget" where
  "settings_section text rows =
     (let children = label_part (''settings::section::'' @ lowercase text) 0 0 settings_content_w settings_section_h text (fl 13)
            text_label False # rows
      in column_box space_xs False (''settings::sec::'' @ lowercase text) 0 0 settings_content_w
           (stack_height children space_xs) children)"

definition settings_scrim :: "f64 \<times> f64 \<Rightarrow> widget" where
  "settings_scrim v = rect_part settings_scrim_id 0 0 (fst v) (snd v) (fill_style ''shadow'' 0) False"

definition settings_panel :: "f64 \<Rightarrow> f64 \<Rightarrow> f64 \<Rightarrow> widget list \<Rightarrow> widget" where
  "settings_panel x y h blocks =
     group_box ''settings::panel'' x y settings_panel_w h
       (material_panel ''settings'' settings_panel_w h panel_radius @
        [stack_box FlowVertical space_md PackStart (edges_all settings_padding) UiStart False ''settings::content'' 0 0
           settings_panel_w h blocks])"

definition settings_blocks :: "ui_model \<Rightarrow> widget list" where
  "settings_blocks m =
     [label_part ''settings::title'' 0 0 settings_content_w settings_title_h ''Keyboard Shortcuts'' (fl 16) text_label False,
      label_part ''settings::note'' 0 0 settings_content_w settings_note_h ''Shortcuts are read-only here.'' (fl 11) muted_label False] @
     map (\<lambda>(k, cs). settings_section (category_label k) (map (command_row (um_is_mac m)) cs))
       (group_by_category (um_command_catalog m)) @
     (if um_gesture_catalog m = [] then []
      else [settings_section ''Gestures'' (map (gesture_row (um_is_mac m)) (um_gesture_catalog m))])"

definition settings_build :: "ui_model \<Rightarrow> widget" where
  "settings_build m =
     (let blocks = settings_blocks m; v = um_viewport m;
          h = f_add (stack_height blocks space_md) (f_mul settings_padding (fl 2));
          x = f_max (half (f_sub (fst v) settings_panel_w)) 0;
          y = f_max (half (f_sub (snd v) h)) 0
      in group_box ''settings'' 0 0 0 0 [settings_scrim v, settings_panel x y h blocks])"

section \<open>The root\<close>

definition view_is_empty :: "inspector_view \<Rightarrow> bool" where
  "view_is_empty v \<longleftrightarrow> iv_sections v = []"

definition build_root :: "ui_model \<Rightarrow> widget" where
  "build_root m =
     group_box ''ui-root'' 0 0 0 0
       ([watermark m, toolbar_build m] @
        (if um_template_open m \<and> um_templates m \<noteq> [] then [template_build m] else []) @
        (case um_inspector_view m of
           Some v \<Rightarrow> if view_is_empty v then [] else [inspector_build v (um_viewport m)]
         | None \<Rightarrow> []) @
        [theme_toggle, canvas_switcher m] @
        (if um_peers m = [] then [] else [presence_build (um_peers m)]) @
        opt_list (status_build m) @
        (if um_diagnostics_open m then opt_list (diagnostics_build m) else []) @
        (if um_settings_open m then [settings_build m] else []) @
        (case um_context_menu m of Some menu \<Rightarrow> [context_menu_build menu (um_viewport m)] | None \<Rightarrow> []))"

end
