(* ===== verification/Intent.thy ===== *)
theory Intent
  imports UiForms
begin

text \<open>
  From an actuation to the request the shell authors: \<open>ui/src/intent.rs\<close>. The id of a widget
  carries what it is bound to.
\<close>

datatype intent =
    ICommand str
  | ISelectColor str
  | ISelectPenWidth f64
  | IApplyTemplate str
  | ISelectCanvas str
  | INewCanvas
  | IDeleteCanvas str
  | IInspectorEdit str str "str option" f64 json
  | IInspectorAction str
  | IDismiss

definition strip_suffix :: "str \<Rightarrow> str \<Rightarrow> str option" where
  "strip_suffix p s = map_option rev (strip_prefix (rev p) (rev s))"

text \<open>The text before and after the first comma.\<close>

definition split_comma :: "str \<Rightarrow> (str \<times> str) option" where
  "split_comma s =
     (case dropWhile (\<lambda>c. c \<noteq> CHR '','') s of
        [] \<Rightarrow> None
      | _ # rest \<Rightarrow> Some (takeWhile (\<lambda>c. c \<noteq> CHR '','') s, rest))"

section \<open>Controls\<close>

definition view_controls :: "ui_model \<Rightarrow> control_value list" where
  "view_controls m = (case um_inspector_view m of None \<Rightarrow> [] | Some v \<Rightarrow> concat (map snd (iv_sections v)))"

definition find_control :: "ui_model \<Rightarrow> str \<Rightarrow> control_value option" where
  "find_control m i = List.find (\<lambda>c. cv_control_id c = i) (view_controls m)"

definition edit_from_control :: "control_value \<Rightarrow> json \<Rightarrow> intent option" where
  "edit_from_control c v =
     map_option (\<lambda>kind. IInspectorEdit (cv_control_id c) kind (cv_field c) (cv_unit_scale c) v) (cv_op_kind c)"

definition inspector_edit :: "ui_model \<Rightarrow> str \<Rightarrow> json \<Rightarrow> intent option" where
  "inspector_edit m i v = Option.bind (find_control m i) (\<lambda>c. edit_from_control c v)"

definition max_lanes :: f64 where "max_lanes = f_of_int 1000"

definition lanes_count_from_text :: "str \<Rightarrow> u32 option" where
  "lanes_count_from_text text =
     map_option (\<lambda>x. f_to_u32 (f_clamp (f_round x) f_one max_lanes)) (parse_f64 text)"

definition kind_value :: "str \<Rightarrow> json \<Rightarrow> json" where
  "kind_value k v = JObject [(''kind'', JString k), (''value'', v)]"

definition kind_only :: "str \<Rightarrow> json" where
  "kind_only k = JObject [(''kind'', JString k)]"

text \<open>The keys of a JSON object are kept in order.\<close>

definition decode_align :: "str \<Rightarrow> json option" where
  "decode_align payload =
     Option.bind (strip_prefix ''align:'' payload) (\<lambda>rest.
     Option.bind (split_comma rest) (\<lambda>(main_kv, cross_kv).
     Option.bind (strip_prefix ''main='' main_kv) (\<lambda>main.
     map_option (\<lambda>cross. JObject [(''cross'', JString cross), (''main'', JString main)])
       (strip_prefix ''cross='' cross_kv))))"

section \<open>Resolving\<close>

definition resolve_inspector_press :: "str \<Rightarrow> ui_model \<Rightarrow> intent option" where
  "resolve_inspector_press i m =
     Option.bind (strip_prefix inspector_prefix i) (\<lambda>payload.
       case decode_align payload of
         Some v \<Rightarrow> inspector_edit m ''align'' v
       | None \<Rightarrow> Some (IInspectorAction payload))"

definition resolve_pressed :: "str \<Rightarrow> ui_model \<Rightarrow> intent option" where
  "resolve_pressed i m =
     (if i = settings_scrim_id \<or> i = context_scrim_id then Some IDismiss
      else if i = canvas_new_id then Some INewCanvas
      else case strip_prefix cmd_prefix i of Some c \<Rightarrow> Some (ICommand c)
      | None \<Rightarrow> (case strip_prefix swatch_prefix i of Some hex \<Rightarrow> Some (ISelectColor hex)
      | None \<Rightarrow> (case strip_prefix pen_width_prefix i of Some px \<Rightarrow> map_option ISelectPenWidth (parse_f64 px)
      | None \<Rightarrow> (case strip_prefix template_prefix i of Some t \<Rightarrow> Some (IApplyTemplate t)
      | None \<Rightarrow> (case strip_prefix canvas_delete_prefix i of Some c \<Rightarrow> Some (IDeleteCanvas c)
      | None \<Rightarrow> (case strip_prefix canvas_prefix i of Some c \<Rightarrow> Some (ISelectCanvas c)
      | None \<Rightarrow> resolve_inspector_press i m))))))"

definition resolve_toggle :: "str \<Rightarrow> ui_model \<Rightarrow> bool \<Rightarrow> intent option" where
  "resolve_toggle i m on =
     Option.bind (strip_prefix inspector_prefix i) (\<lambda>payload.
       case strip_suffix ''::fill'' payload of
         Some c \<Rightarrow> inspector_edit m c (if on then kind_only ''fill'' else kind_value ''count'' (JPos 1))
       | None \<Rightarrow> inspector_edit m payload (JBool on))"

definition text_edit_value :: "control_value \<Rightarrow> str \<Rightarrow> json option" where
  "text_edit_value c text =
     (case cv_widget c of
        WPaint \<Rightarrow> Some (JObject [(''color'', JString text), (''kind'', JString ''solid'')])
      | WNumber _ _ _ _ \<Rightarrow> map_option float_value (parse_f64 text)
      | _ \<Rightarrow> Some (JString text))"

definition resolve_text :: "str \<Rightarrow> ui_model \<Rightarrow> str \<Rightarrow> intent option" where
  "resolve_text i m text =
     Option.bind (strip_prefix inspector_prefix i) (\<lambda>payload.
       case strip_suffix ''::count'' payload of
         Some c \<Rightarrow>
           Option.bind (lanes_count_from_text text) (\<lambda>count.
             inspector_edit m c (kind_value ''count'' (JPos (ucast count))))
       | None \<Rightarrow>
           Option.bind (find_control m payload) (\<lambda>c.
           Option.bind (text_edit_value c text) (edit_from_control c)))"

definition segment_value :: "str \<Rightarrow> str \<Rightarrow> json" where
  "segment_value i lower =
     (if i = ''sizing-w'' \<or> i = ''sizing-h''
      then (if lower = ''fixed'' then kind_value ''fixed'' (JPos 0) else kind_only lower)
      else if i = ''font-weight'' then JBool (lower = ''bold'')
      else JString lower)"

definition resolve_segment :: "str \<Rightarrow> ui_model \<Rightarrow> nat \<Rightarrow> intent option" where
  "resolve_segment i m index =
     Option.bind (strip_prefix inspector_prefix i) (\<lambda>control_id.
     Option.bind (find_control m control_id) (\<lambda>c.
       case cv_widget c of
         WSegment options \<Rightarrow>
           if index < length options
           then edit_from_control c (segment_value control_id (lowercase (options ! index)))
           else None
       | _ \<Rightarrow> None))"

fun resolve_action :: "ui_action \<Rightarrow> ui_model \<Rightarrow> intent option" where
  "resolve_action (Pressed i) m = resolve_pressed i m"
| "resolve_action (ToggleChanged i on) m = resolve_toggle i m on"
| "resolve_action (SegmentChanged i index) m = resolve_segment i m index"
| "resolve_action (TextChanged i text) m = resolve_text i m text"
| "resolve_action (SliderChanged _ _) m = None"
| "resolve_action (FocusOn _) m = None"

end
