(* ===== verification/View_Laws.thy ===== *)
theory View_Laws
  imports Intent InspectorEdit "HOL-Library.Sublist"
begin

text \<open>
  What is drawn and what is hit are the same boxes; what an interaction may actuate; what the ids
  of the panels mean.
\<close>

section \<open>Boxes and objects\<close>

text \<open>An object draws a box: the same id, placed at its corner, with an outline of its size.\<close>

fun drawn_box :: "hit_box \<Rightarrow> render_object \<Rightarrow> bool" where
  "drawn_box (i, x, y, w, h) ob \<longleftrightarrow>
     ro_id ob = i \<and> ro_transform ob = transform_translate x y \<and>
     (ro_geometry_d ob = rect_path w h \<or> (\<exists>r. ro_geometry_d ob = rounded_rect_path w h r))"

definition draws :: "hit_box list \<Rightarrow> render_object list \<Rightarrow> bool" where
  "draws bs obs \<longleftrightarrow> (\<exists>sel. subseq sel obs \<and> list_all2 drawn_box bs sel)"

lemma draws_Nil [simp]: "draws [] obs"
  by (auto simp: draws_def intro: exI[of _ "[]"])

lemma draws_append: "draws as xs \<Longrightarrow> draws bs ys \<Longrightarrow> draws (as @ bs) (xs @ ys)"
  unfolding draws_def by (meson list_all2_appendI list_emb_append_mono)

lemma draws_head: "drawn_box b ob \<Longrightarrow> draws [b] (ob # obs)"
  unfolding draws_def by (intro exI[of _ "[ob]"]) simp

lemma drawn_parent [simp]: "drawn_box b (ob\<lparr>ro_parent := p\<rparr>) = drawn_box b ob"
  by (cases b) simp

definition reparent :: "str \<Rightarrow> render_object \<Rightarrow> render_object" where
  "reparent c ob = (if ro_parent ob = None then ob\<lparr>ro_parent := Some c\<rparr> else ob)"

lemma reparent_order [simp]: "ro_order (reparent c ob) = ro_order ob"
  by (simp add: reparent_def)

lemma draws_reparent: "draws bs obs \<Longrightarrow> draws bs (map (reparent c) obs)"
proof -
  assume "draws bs obs"
  then obtain sel where "subseq sel obs" "list_all2 drawn_box bs sel" by (auto simp: draws_def)
  moreover have "list_all2 drawn_box bs (map (reparent c) sel)"
    using \<open>list_all2 drawn_box bs sel\<close> by (auto simp: list_all2_conv_all_nth reparent_def)
  ultimately show ?thesis unfolding draws_def by (intro exI[of _ "map (reparent c) sel"]) (simp add: subseq_map)
qed

lemma adopt_append: "adopt c (length out) (out @ new) = out @ map (reparent c) new"
  by (simp add: adopt_def reparent_def)

text \<open>The objects that a widget adds: they follow the ones before and carry the next order keys.\<close>

definition adds :: "hit_box list \<Rightarrow> render_object list \<Rightarrow> render_object list \<Rightarrow> bool" where
  "adds bs out out' \<longleftrightarrow>
     (\<exists>new. out' = out @ new \<and> draws bs new \<and>
        map ro_order new = map next_order [length out..<length out + length new])"

lemma adds_refl [simp]: "adds [] out out"
  by (simp add: adds_def)

lemma adds_trans: "adds as out mid \<Longrightarrow> adds bs mid out' \<Longrightarrow> adds (as @ bs) out out'"
proof -
  assume "adds as out mid" "adds bs mid out'"
  then obtain n1 n2 where n: "mid = out @ n1" "draws as n1" "map ro_order n1 = map next_order [length out..<length out + length n1]"
    "out' = mid @ n2" "draws bs n2" "map ro_order n2 = map next_order [length mid..<length mid + length n2]"
    by (auto simp: adds_def)
  have "map ro_order (n1 @ n2) = map next_order [length out..<length out + length (n1 @ n2)]"
    using n(1,3,6) by (simp add: upt_add_eq_append[of "length out" "length out + length n1"] add.assoc[symmetric])
  then show ?thesis unfolding adds_def using n(1,4) draws_append[OF n(2,5)]
    by (intro exI[of _ "n1 @ n2"]) simp
qed

lemma rect_drawn: "drawn_box (i, sx, sy, w, h) (rect_object i k sx sy w h st)"
  by (auto simp: rect_object_def ui_object_def)

lemma push_rect_adds: "adds [(i, sx, sy, w, h)] out (push_rect i sx sy w h st out)"
  unfolding adds_def push_rect_def
  by (intro exI[of _ "[rect_object i (next_order (length out)) sx sy w h st]"])
    (simp add: draws_head[OF rect_drawn], simp add: rect_object_def ui_object_def)

lemma push_box_adds: "adds [box_at b x y] out (push_rect (w_id b) x y (w_w b) (w_h b) st out)"
  by (simp add: box_at_def push_rect_adds)

lemma push_rect_more: "adds [] out (push_rect i sx sy w h st out)"
  unfolding adds_def push_rect_def by (intro exI[of _ "[rect_object i (next_order (length out)) sx sy w h st]"])
    (simp add: rect_object_def ui_object_def)

lemma push_text_adds: "adds [] out (push_text i sx sy w h l p c ce dark out)"
  unfolding adds_def push_text_def
  by (intro exI[of _ "[text_object i (next_order (length out)) sx sy w h l p c ce dark]"])
    (simp add: text_object_def ui_object_def)

lemmas adds_more = adds_trans[OF _ push_text_adds, simplified] adds_trans[OF _ push_rect_more, simplified]

lemma cells_add: "adds bs out0 out \<Longrightarrow> adds bs out0 (emit_cells s sx sy cw dark n ls out)"
  by (induction ls arbitrary: n out) (simp_all add: adds_more)

lemma controls_add:
  "adds [] out (emit_icon i ox oy out)"
  "adds [box_at b ox oy] out (emit_button b ox oy dark out)"
  "adds [box_at s ox oy] out (emit_swatch s ox oy out)"
  "adds [box_at t ox oy] out (emit_toggle t ox oy out)"
  "adds [box_at l ox oy] out (emit_slider l ox oy out)"
  "adds [box_at m ox oy] out (emit_segment_control m ox oy dark out)"
  "adds [box_at n ox oy] out (emit_text_input n ox oy dark out)"
proof -
  show "adds [] out (emit_icon i ox oy out)"
    unfolding adds_def emit_icon_def by (auto simp: ui_object_def)
qed (simp_all add: emit_button_def emit_swatch_def emit_toggle_def emit_slider_def emit_segment_control_def
    emit_text_input_def Let_def box_at_def push_rect_adds adds_more cells_add)

lemma adopt_adds:
  assumes "adds [] out out1" "adds bs out1 out2" shows "adds bs out (adopt c (length out1) out2)"
proof -
  obtain new where "out2 = out1 @ new" "draws bs new"
    "map ro_order new = map next_order [length out1..<length out1 + length new]"
    using assms(2) by (auto simp: adds_def)
  then have "adds bs out1 (adopt c (length out1) out2)"
    unfolding adds_def by (intro exI[of _ "map (reparent c) new"])
      (simp add: adopt_append draws_reparent comp_def)
  from adds_trans[OF assms(1) this] show ?thesis by simp
qed

lemma clip_adds: "adds [] out (out @ [clip_object i (next_order (length out)) ox oy w h])"
  unfolding adds_def by (simp add: clip_object_def ui_object_def)

lemma fold_adds:
  assumes "\<And>w p out. (w, p) \<in> set ws \<Longrightarrow> adds (g w p) out (f w p out)"
  shows "adds (concat (map (\<lambda>(w, p). g w p) ws)) out (fold (\<lambda>(w, p). f w p) ws out)"
  using assms
proof (induction ws arbitrary: out)
  case (Cons a ws)
  obtain w p where a: "a = (w, p)" by (cases a)
  have "adds (g w p) out (f w p out)" using Cons.prems a by simp
  then show ?case unfolding a using Cons.IH[of "f w p out"] Cons.prems by (simp add: adds_trans)
qed simp

lemma emit_adds: "adds (collect w ox oy) out (emit w ox oy dark out)"
proof (induction w ox oy dark out rule: emit.induct)
  case (1 c ws ox oy dark out)
  let ?out1 = "if ct_clip c then out @ [clip_object (w_id c) (next_order (length out)) ox oy (w_w c) (w_h c)] else out"
  let ?out2 = "fold (\<lambda>(w, cx, cy). emit w (f_add ox cx) (f_add oy cy) dark) (layout_children c ws) ?out1"
  have clip: "adds [] out ?out1" by (simp add: clip_adds)
  have kids: "adds (collect (VContainer c ws) ox oy) ?out1 ?out2"
    unfolding collect.simps by (rule fold_adds) (use 1 in \<open>auto split: prod.splits\<close>)
  show ?case
    using adopt_adds[OF clip kids, of "w_id c"] kids by (simp add: Let_def split: if_splits)
qed (simp_all add: controls_add push_box_adds push_text_adds)

lemma measure_project [simp]: "measure_widget (project rt w) = measure_widget w"
  by (cases w) auto

lemma origin_project [simp]: "origin (project rt w) = origin w"
  by (cases w) auto

lemma flow_children_map:
  assumes "\<And>w. main (f w) = main w" "\<And>w. cross (f w) = cross w"
  shows "flow_children main cross gap cursor (map f ws) = map (\<lambda>(w, p). (f w, p)) (flow_children main cross gap cursor ws)"
  by (induction ws arbitrary: cursor) (simp_all add: assms)

lemma layout_children_project:
  "layout_children c (map (project rt) ws) = map (\<lambda>(w, p). (project rt w, p)) (layout_children c ws)"
proof -
  have gap: "main_gap c (map (project rt) ws) e (sel \<circ> measure_widget) = main_gap c ws e (sel \<circ> measure_widget)" for e sel
    by (simp add: main_gap_def Let_def comp_def split: ui_main_align.splits)
  show ?thesis unfolding layout_children_def Let_def gap
    by (auto simp: flow_children_map comp_def case_prod_beta split: flow_axis.splits)
qed

lemma collect_project: "collect (project rt w) ox oy = collect w ox oy"
proof (induction w ox oy rule: collect.induct)
  case (1 c ws ox oy)
  have "map (\<lambda>(w, cx, cy). collect (project rt w) (f_add ox cx) (f_add oy cy)) (layout_children c ws) =
        map (\<lambda>(w, cx, cy). collect w (f_add ox cx) (f_add oy cy)) (layout_children c ws)"
    by (rule map_cong) (use 1 in \<open>auto split: prod.splits\<close>)
  then show ?case by (simp add: layout_children_project comp_def case_prod_unfold cong: map_cong)
qed (simp_all add: box_at_def)

lemma render_adds: "adds (tree_boxes (rt_tree rt)) [] (rsc_objects (runtime_render rt))"
  using emit_adds[of "project rt (rt_tree rt)"]
  by (simp add: runtime_render_def ui_render_def tree_boxes_def collect_project)

section \<open>Order keys of the interface\<close>

lemma order_digits:
  assumes "i < 10000"
  shows "zero_pad 4 (show_nat i) =
    [digit_char (i div 1000), digit_char (i div 100 mod 10), digit_char (i div 10 mod 10), digit_char (i mod 10)]"
proof -
  have z: "digit_char 0 = CHR ''0''" by code_simp
  have r: "replicate 3 c = [c, c, c]" "replicate 2 c = [c, c]" for c :: char
    by (simp_all add: numeral_eq_Suc)
  have d: "i div 100 = i div 10 div 10" "i div 1000 = i div 10 div 10 div 10" by (simp_all add: div_mult2_eq[symmetric])
  consider "i < 10" | "\<not> i < 10" "i div 10 < 10" | "\<not> i < 10" "\<not> i div 10 < 10" "i div 10 div 10 < 10"
    | "\<not> i < 10" "\<not> i div 10 < 10" "\<not> i div 10 div 10 < 10" by blast
  then show ?thesis
  proof cases
    case 1
    then show ?thesis by (simp add: show_nat.simps[of i] zero_pad_def z r)
  next
    case 2
    then have "show_nat i = [digit_char (i div 10), digit_char (i mod 10)]" by (simp add: show_nat.simps)
    then show ?thesis using 2 unfolding d by (simp add: zero_pad_def z r)
  next
    case 3
    then have "show_nat i = [digit_char (i div 10 div 10), digit_char (i div 10 mod 10), digit_char (i mod 10)]"
      by (simp only: show_nat.simps[of i] show_nat.simps[of "i div 10"] show_nat.simps[of "i div 10 div 10"] if_True if_False append.simps)
    then show ?thesis using 3 unfolding d by (simp add: zero_pad_def z)
  next
    case 4
    have "i div 10 div 10 div 10 < 10" using assms by simp
    then have "show_nat i = [digit_char (i div 10 div 10 div 10), digit_char (i div 10 div 10 mod 10), digit_char (i div 10 mod 10), digit_char (i mod 10)]"
      using 4 by (simp only: show_nat.simps[of i] show_nat.simps[of "i div 10"] show_nat.simps[of "i div 10 div 10"]
        show_nat.simps[of "i div 10 div 10 div 10"] if_True if_False append.simps)
    then show ?thesis unfolding d by (simp add: zero_pad_def)
  qed
qed

lemma less_digits: "i < j \<longleftrightarrow> i div 10 < j div 10 \<or> (i div 10 = j div 10 \<and> i mod 10 < j mod (10::nat))"
proof -
  have eq: "i = 10 * (i div 10) + i mod 10" "j = 10 * (j div 10) + j mod 10" "i mod 10 < 10" "j mod 10 < 10" by simp_all
  consider "i div 10 < j div 10" | "i div 10 = j div 10" | "j div 10 < i div 10" by linarith
  then show ?thesis
  proof cases
    case 1
    then show ?thesis using div_le_mono[of j i 10] by force
  next
    case 2
    then show ?thesis using eq by linarith
  next
    case 3
    then show ?thesis using div_le_mono[of i j 10] by force
  qed
qed

lemma digit_char_less: "d < 10 \<Longrightarrow> e < 10 \<Longrightarrow> digit_char d < digit_char e \<longleftrightarrow> d < e"
  by (simp add: less_char_def byte_digit_char)

lemma digit_char_eq: "d < 10 \<Longrightarrow> e < 10 \<Longrightarrow> digit_char d = digit_char e \<longleftrightarrow> d = e"
  using byte_digit_char by (metis add_left_cancel)

lemma next_order_less:
  assumes "i < j" "j < 10000" shows "next_order i < next_order j"
proof -
  have "i div 1000 < 10" "j div 1000 < 10" using assms by simp_all
  moreover have "i div 10 div 10 = i div 100" "i div 10 div 10 div 10 = i div 1000"
    "j div 10 div 10 = j div 100" "j div 10 div 10 div 10 = j div 1000"
    by (simp_all add: div_mult2_eq[symmetric])
  ultimately show ?thesis using assms less_digits[of i j] less_digits[of "i div 10" "j div 10"]
      less_digits[of "i div 100" "j div 100"]
    by (simp add: next_order_def order_digits digit_char_less digit_char_eq) metis
qed

lemma render_orders:
  assumes "length (rsc_objects (runtime_render rt)) \<le> 10000"
  shows "sorted_wrt (<) (map ro_order (rsc_objects (runtime_render rt)))"
proof -
  obtain new where "rsc_objects (runtime_render rt) = new" "map ro_order new = map next_order [0..<length new]"
    using render_adds[of rt] by (auto simp: adds_def)
  moreover have "sorted_wrt (<) (map next_order [0..<k])" if "k \<le> 10000" for k
    using that by (auto simp: sorted_wrt_iff_nth_less next_order_less)
  ultimately show ?thesis using assms by simp
qed

section \<open>Interactions\<close>

datatype ui_event =
    EvPointer pointer_phase "f64 \<times> f64"
  | EvKey key_input
  | EvCommit str
  | EvTree widget
  | EvViewport "f64 \<times> f64"
  | EvTheme bool

fun ui_step :: "ui_runtime \<Rightarrow> ui_event \<Rightarrow> ui_runtime \<times> ui_action list" where
  "ui_step rt (EvPointer ph pt) = map_prod (\<lambda>r. r) dr_actions (dispatch_pointer rt ph pt)"
| "ui_step rt (EvKey k) = map_prod (\<lambda>r. r) dr_actions (dispatch_key rt k)"
| "ui_step rt (EvCommit v) = map_prod (\<lambda>r. r) dr_actions (commit_text rt v)"
| "ui_step rt (EvTree t) = (set_tree rt t, [])"
| "ui_step rt (EvViewport v) = (fst (set_viewport rt v), [])"
| "ui_step rt (EvTheme d) = (fst (set_theme rt d), [])"

text \<open>The states of a runtime whose trees all satisfy \<open>P\<close>.\<close>

inductive ui_reach :: "(widget \<Rightarrow> bool) \<Rightarrow> ui_runtime \<Rightarrow> bool" for P where
  start: "P t \<Longrightarrow> ui_reach P (ui_runtime_new t v d)"
| step: "ui_reach P rt \<Longrightarrow> (\<And>t. ev = EvTree t \<Longrightarrow> P t) \<Longrightarrow> ui_reach P (fst (ui_step rt ev))"

text \<open>The bodies of the handlers, for case analysis.\<close>

lemma upd_simps [simp]:
  "rt_tree (upd f rt) = rt_tree rt" "rt_state (upd f rt) = f (rt_state rt)"
  "find_kind (upd f rt) i = find_kind rt i"
  by (simp_all add: upd_def find_kind_def)

lemma box_of_upd [simp]: "box_of (upd f rt) i = box_of rt i"
  by (simp add: box_of_def)

lemma slider_at_upd [simp]: "slider_at (upd f rt) i x = slider_at rt i x"
  by (simp add: slider_at_def)

text \<open>A slider holds a value of the unit interval, or a NaN when the geometry gives one.\<close>

definition unit_value :: "f64 \<Rightarrow> bool" where
  "unit_value v \<longleftrightarrow> f_is_nan v \<or> (f_le 0 v \<and> f_le v f_one)"

lemma unit_clamp: "unit_value (f_clamp x 0 f_one)"
proof -
  have "f_le 0 0" "f_le 0 f_one" "f_le f_one f_one" by code_simp+
  then show ?thesis
    by (auto simp: unit_value_def f_clamp_def f_lt_def f_le_def)
qed

lemma slider_unit: "unit_value (slider_at rt i x)"
proof -
  have "unit_value 0" by code_simp
  then show ?thesis by (auto simp: slider_at_def slider_value_at_def unit_clamp split: prod.splits)
qed

lemma cell_index_bound: "n < cells \<Longrightarrow> cell_index idx cells n < cells"
proof (induction idx cells n rule: cell_index.induct)
  case (1 idx cells n)
  then show ?case by (subst cell_index.simps) simp
qed

lemma segment_cell_bound: "segment_cell_at s ox w x < max 1 (length (mw_labels s))"
  by (simp add: segment_cell_at_def Let_def cell_index_bound less_max_iff_disj)

definition cached_values_ok :: "ui_state \<Rightarrow> bool" where
  "cached_values_ok s \<longleftrightarrow> (\<forall>i v. ui_sliders s i = Some v \<longrightarrow> unit_value v)"

lemma cached_updates [simp]:
  "cached_values_ok (s\<lparr>ui_hovered := h\<rparr>) = cached_values_ok s" "cached_values_ok (s\<lparr>ui_pressed := q\<rparr>) = cached_values_ok s"
  "cached_values_ok (s\<lparr>ui_press_origin := r\<rparr>) = cached_values_ok s" "cached_values_ok (s\<lparr>ui_focused := f\<rparr>) = cached_values_ok s"
  "cached_values_ok (s\<lparr>ui_toggles := g\<rparr>) = cached_values_ok s" "cached_values_ok (s\<lparr>ui_segments := m\<rparr>) = cached_values_ok s"
  "cached_values_ok (s\<lparr>ui_texts := x\<rparr>) = cached_values_ok s"
  "cached_values_ok s0 \<Longrightarrow> unit_value v \<Longrightarrow> cached_values_ok (s\<lparr>ui_sliders := (ui_sliders s0)(i \<mapsto> v)\<rparr>)"
  by (simp_all add: cached_values_ok_def)

lemma cached_pointer:
  assumes "cached_values_ok (rt_state rt)"
  shows "cached_values_ok (rt_state (fst (dispatch_pointer rt ph pt)))"
proof -
  have act: "cached_values_ok (rt_state (fst (actuate rt pt i)))" if "cached_values_ok (rt_state rt)" for rt i
    using that by (simp add: actuate_def Let_def split: option.splits widget_kind.splits prod.splits)
  show ?thesis using assms
    by (simp add: dispatch_pointer_def pointer_down_def pointer_move_def pointer_up_def pointer_cancel_def Let_def act slider_unit
        split: pointer_phase.splits option.splits widget_kind.splits)
qed

lemma sliders_step:
  "cached_values_ok (rt_state rt) \<Longrightarrow> cached_values_ok (rt_state (fst (ui_step rt ev)))"
  by (cases ev)
    (simp_all add: cached_pointer dispatch_key_def commit_text_def put_text_def blur_def set_tree_def set_viewport_def
      set_theme_def Let_def split: option.splits)

text \<open>
  Where the press began, what has the focus, which cell is chosen: each was found in one of the
  trees of \<open>P\<close>, the trees installed so far; \<open>set_tree\<close> keeps all three. On one tree they fit that
  tree.
\<close>

definition interaction_from :: "(widget \<Rightarrow> bool) \<Rightarrow> ui_state \<Rightarrow> bool" where
  "interaction_from P s \<longleftrightarrow>
     (case (ui_pressed s, ui_press_origin s) of
        (None, None) \<Rightarrow> True
      | (Some i, Some p) \<Rightarrow> (\<exists>t. P t \<and> hit t p = Some i)
      | _ \<Rightarrow> False) \<and>
     (\<forall>i. ui_focused s = Some i \<longrightarrow> (\<exists>t. P t \<and> is_input (find_kind_in t i))) \<and>
     (\<forall>i k. ui_segments s i = Some k \<longrightarrow>
        (\<exists>t m. P t \<and> find_kind_in t i = Some (KindSegment m) \<and> k < max 1 (length (mw_labels m))))"

abbreviation interaction_ok :: "widget \<Rightarrow> ui_state \<Rightarrow> bool" where
  "interaction_ok t \<equiv> interaction_from (\<lambda>u. u = t)"

lemma interaction_updates [simp]:
  "interaction_from P (s\<lparr>ui_hovered := h\<rparr>) = interaction_from P s"
  "interaction_from P (s\<lparr>ui_sliders := l\<rparr>) = interaction_from P s"
  "interaction_from P (s\<lparr>ui_toggles := g\<rparr>) = interaction_from P s"
  "interaction_from P (s\<lparr>ui_texts := x\<rparr>) = interaction_from P s"
  by (simp_all add: interaction_from_def)

lemma interaction_release [simp]:
  "interaction_from P s \<Longrightarrow> interaction_from P (s\<lparr>ui_pressed := None, ui_press_origin := None\<rparr>)"
  by (simp add: interaction_from_def)

lemma interaction_press:
  "interaction_from P s \<Longrightarrow> P t \<Longrightarrow> hit t p = Some i \<Longrightarrow> interaction_from P (s\<lparr>ui_pressed := Some i, ui_press_origin := Some p\<rparr>)"
  by (auto simp: interaction_from_def)

lemma interaction_blur [simp]: "interaction_from P s \<Longrightarrow> interaction_from P (s\<lparr>ui_focused := None\<rparr>)"
  by (simp add: interaction_from_def)

lemma interaction_focus:
  "interaction_from P s \<Longrightarrow> P t \<Longrightarrow> find_kind_in t i = Some (KindInput n) \<Longrightarrow> interaction_from P (s\<lparr>ui_focused := Some i\<rparr>)"
  by (auto simp: interaction_from_def is_input_def)

lemma interaction_segment:
  "interaction_from P s \<Longrightarrow> P t \<Longrightarrow> find_kind_in t i = Some (KindSegment m) \<Longrightarrow> k < max 1 (length (mw_labels m)) \<Longrightarrow>
   interaction_from P (s\<lparr>ui_segments := (ui_segments s)(i \<mapsto> k)\<rparr>)"
  by (auto simp: interaction_from_def)

lemmas interaction_cell = interaction_segment[OF _ _ _ segment_cell_bound]

lemma down_state:
  "interaction_from P (rt_state rt) \<Longrightarrow> P (rt_tree rt) \<Longrightarrow> interaction_from P (rt_state (fst (pointer_down rt pt)))"
  by (auto simp: pointer_down_def Let_def find_kind_def interaction_press interaction_focus
      split: option.splits widget_kind.splits)

lemma actuate_state:
  "interaction_from P (rt_state rt) \<Longrightarrow> P (rt_tree rt) \<Longrightarrow> interaction_from P (rt_state (fst (actuate rt pt i)))"
  by (auto simp: actuate_def Let_def find_kind_def interaction_cell
      split: option.splits widget_kind.splits prod.splits)

lemma up_state:
  "interaction_from P (rt_state rt) \<Longrightarrow> P (rt_tree rt) \<Longrightarrow> interaction_from P (rt_state (fst (pointer_up rt pt)))"
  using actuate_state[of P "upd (\<lambda>s. s\<lparr>ui_pressed := None, ui_press_origin := None\<rparr>) rt" pt]
  by (simp add: pointer_up_def Let_def split: option.splits)

lemma other_states:
  assumes "interaction_from P (rt_state rt)"
  shows "interaction_from P (rt_state (fst (pointer_move rt pt)))" "interaction_from P (rt_state (fst (pointer_cancel rt)))"
    "interaction_from P (rt_state (fst (dispatch_key rt k)))" "interaction_from P (rt_state (fst (commit_text rt v)))"
  using assms by (simp_all add: pointer_move_def pointer_cancel_def dispatch_key_def commit_text_def put_text_def blur_def
      Let_def split: option.splits)

lemma handler_tree [simp]:
  "rt_tree (fst (actuate rt pt i)) = rt_tree rt"
  "rt_tree (fst (dispatch_pointer rt ph pt)) = rt_tree rt" "rt_tree (fst (dispatch_key rt k)) = rt_tree rt"
  "rt_tree (fst (commit_text rt v)) = rt_tree rt" "rt_tree (fst (set_viewport rt w)) = rt_tree rt"
  "rt_tree (fst (set_theme rt d)) = rt_tree rt"
proof -
  show act: "rt_tree (fst (actuate rt pt i)) = rt_tree rt" for rt i
    by (simp add: actuate_def Let_def split: option.splits widget_kind.splits prod.splits)
  show "rt_tree (fst (dispatch_pointer rt ph pt)) = rt_tree rt"
    by (simp add: dispatch_pointer_def pointer_down_def pointer_move_def pointer_up_def pointer_cancel_def Let_def act
        split: pointer_phase.splits option.splits widget_kind.splits)
qed (simp_all add: dispatch_key_def commit_text_def put_text_def blur_def set_viewport_def set_theme_def Let_def
    split: option.splits)

lemma interaction_step:
  assumes "interaction_from P (rt_state rt)" "P (rt_tree rt)"
  shows "interaction_from P (rt_state (fst (ui_step rt ev)))"
  using assms
  by (cases ev)
    (simp_all add: dispatch_pointer_def down_state up_state other_states set_tree_def set_viewport_def set_theme_def
      split: pointer_phase.splits)

lemma step_tree: "rt_tree (fst (ui_step rt ev)) = (case ev of EvTree u \<Rightarrow> u | _ \<Rightarrow> rt_tree rt)"
  by (cases ev) (simp_all add: set_tree_def)

lemma interaction_reach: "ui_reach P rt \<Longrightarrow> P (rt_tree rt) \<and> interaction_from P (rt_state rt)"
proof (induction rule: ui_reach.induct)
  case (start u v d)
  then show ?case by (simp add: interaction_from_def ui_runtime_new_def ui_state_default_def)
next
  case (step rt ev)
  then show ?case using interaction_step[of P rt ev] step_tree[of rt ev] by (cases ev) auto
qed

lemma sliders_reach: "ui_reach P rt \<Longrightarrow> cached_values_ok (rt_state rt)"
proof (induction rule: ui_reach.induct)
  case (start u v d)
  then show ?case by (simp add: cached_values_ok_def ui_runtime_new_def ui_state_default_def)
next
  case (step rt ev)
  then show ?case by (intro sliders_step)
qed

fun action_id :: "ui_action \<Rightarrow> str" where
  "action_id (Pressed i) = i"
| "action_id (ToggleChanged i _) = i"
| "action_id (SliderChanged i _) = i"
| "action_id (SegmentChanged i _) = i"
| "action_id (TextChanged i _) = i"
| "action_id (FocusOn i) = i"

lemma actuate_action: "a \<in> set (dr_actions (snd (actuate rt pt i))) \<Longrightarrow> action_id a = i \<and> dr_actions (snd (actuate rt pt i)) = [a]"
  by (auto simp: actuate_def dispatched_def Let_def split: option.splits widget_kind.splits prod.splits)

lemma actuation:
  assumes "interaction_ok t (rt_state rt)" "rt_tree rt = t" "a \<in> set (dr_actions (snd (pointer_up rt pt)))"
  shows "\<exists>p. ui_press_origin (rt_state rt) = Some p \<and> hit t p = Some (action_id a) \<and>
    hit t pt = Some (action_id a) \<and> dr_actions (snd (pointer_up rt pt)) = [a]"
  using assms
  by (auto simp: interaction_from_def pointer_up_def dispatched_def dispatch_none_def Let_def dest!: actuate_action
      split: option.splits if_splits)

section \<open>The scrims\<close>

definition is_scrim :: "str \<Rightarrow> bool" where
  "is_scrim i \<longleftrightarrow> i = settings_scrim_id \<or> i = context_scrim_id"

text \<open>A widget that actuates nothing under the id of a scrim.\<close>

definition quiet :: "widget \<Rightarrow> bool" where
  "quiet w \<longleftrightarrow> (\<forall>i. is_scrim i \<longrightarrow> find_kind_in w i = None)"

lemma find_kind_list_None: "find_kind_list ws i = None \<longleftrightarrow> list_all (\<lambda>w. find_kind_in w i = None) ws"
  by (induction ws) (auto split: option.splits)

lemma quiet_simps [simp]:
  "quiet (VContainer c ws) \<longleftrightarrow> list_all quiet ws"
  "quiet (VText t)" "quiet (VIcon k)"
  "quiet (VRect r) \<longleftrightarrow> \<not> rw_hoverable r \<or> \<not> is_scrim (w_id r)"
  "quiet (VButton b) \<longleftrightarrow> \<not> is_scrim (w_id b)"
  "quiet (VSwatch s) \<longleftrightarrow> \<not> is_scrim (w_id s)"
  "quiet (VToggle g) \<longleftrightarrow> \<not> is_scrim (w_id g)"
  "quiet (VSlider l) \<longleftrightarrow> \<not> is_scrim (w_id l)"
  "quiet (VSegment m) \<longleftrightarrow> \<not> is_scrim (w_id m)"
  "quiet (VInput n) \<longleftrightarrow> \<not> is_scrim (w_id n)"
  by (auto simp: quiet_def find_kind_list_None list_all_iff)

lemma quiet_parts [simp]:
  "quiet (stack_box d sp ma pa cr cl i x y w h ws) \<longleftrightarrow> list_all quiet ws"
  "quiet (group_box i x y w h ws) \<longleftrightarrow> list_all quiet ws"
  "quiet (column_box sp cl i x y w h ws) \<longleftrightarrow> list_all quiet ws"
  "quiet (field_row sp i x y w h ws) \<longleftrightarrow> list_all quiet ws"
  "quiet (rect_part i x y w h st hov) \<longleftrightarrow> \<not> hov \<or> \<not> is_scrim i"
  "quiet (label_part i x y w h l sz c ce)"
  "quiet (button_part i x y w h l st sz c) \<longleftrightarrow> \<not> is_scrim i"
  by (simp_all add: stack_box_def group_box_def column_box_def field_row_def rect_part_def label_part_def button_part_def)

lemma scrim_last: "is_scrim (s @ ''::paint-swatch'') \<Longrightarrow> False"
proof -
  assume "is_scrim (s @ ''::paint-swatch'')"
  then have "last (s @ ''::paint-swatch'') = CHR ''m''"
    by (elim is_scrim_def[THEN iffD1, THEN disjE]) (simp_all add: settings_scrim_id_def context_scrim_id_def)
  then show False by simp
qed

lemma not_scrim [simp]:
  "\<not> is_scrim (cmd_prefix @ s)" "\<not> is_scrim (swatch_prefix @ s)" "\<not> is_scrim (pen_width_prefix @ s)"
  "\<not> is_scrim (template_prefix @ s)" "\<not> is_scrim (canvas_prefix @ s)" "\<not> is_scrim (canvas_delete_prefix @ s)"
  "\<not> is_scrim canvas_new_id" "\<not> is_scrim (inspector_prefix @ s)" "\<not> is_scrim (s @ ''::paint-swatch'')"
  "\<not> is_scrim (''context-menu::disabled::'' @ s)"
  using scrim_last by (auto simp: is_scrim_def settings_scrim_id_def context_scrim_id_def cmd_prefix_def swatch_prefix_def
      pen_width_prefix_def template_prefix_def canvas_prefix_def canvas_delete_prefix_def canvas_new_id_def inspector_prefix_def)

lemma quiet_icon [simp]: "list_all quiet (opt_list (icon_in_box wid i x y w h p))"
  by (simp add: icon_in_box_def opt_list_def split: option.splits)

lemma quiet_chrome [simp]: "\<not> is_scrim i \<Longrightarrow> quiet (icon_chrome_button i g x y sz)"
  by (simp add: icon_chrome_button_def)

lemma quiet_panel [simp]: "list_all quiet (material_panel p w h r)"
  by (simp add: material_panel_def soft_shadow_def Let_def)

subsection \<open>The toolbar\<close>

abbreviation quiet_state :: "tb_state \<Rightarrow> bool" where
  "quiet_state s \<equiv> list_all quiet (fst s)"

lemma fold_quiet: "(\<And>x s. P s \<Longrightarrow> P (f x s)) \<Longrightarrow> P s \<Longrightarrow> P (fold f xs s)"
  by (induction xs arbitrary: s) auto

lemma quiet_toolbar [simp]: "quiet (toolbar_build m)"
proof -
  have gap: "quiet_state s \<Longrightarrow> quiet_state (tb_gap s)" for s
    by (simp add: tb_gap_def tb_separator_def Let_def)
  have command: "quiet_state s \<Longrightarrow> quiet_state (tb_command m i s)" for i s
    by (simp add: tb_command_def icon_button_def Let_def split: option.splits)
  have commands: "quiet_state s \<Longrightarrow> quiet_state (tb_group m g s)" for g s
    by (simp add: tb_group_def Let_def fold_quiet[of quiet_state, OF command] gap)
  have width: "quiet_state s \<Longrightarrow> quiet_state (tb_width m w s)" for w s
    by (simp add: tb_width_def width_chip_def)
  have color: "quiet_state s \<Longrightarrow> quiet_state (tb_color m c s)" for c s
    by (simp add: tb_color_def color_swatch_def)
  note pass = fold_quiet[of quiet_state]
  show ?thesis unfolding toolbar_build_def Let_def quiet_parts
    by (intro pass[OF color]; simp?; (intro conjI impI)?)
      (auto intro!: pass[OF color] pass[OF width] pass[OF commands] gap simp: soft_shadow_def tray_body_def Let_def)
qed

subsection \<open>The other panels\<close>

lemma list_all_map_enumerate: "(\<And>i x. P (f (i, x))) \<Longrightarrow> list_all P (map f (enumerate n xs))"
  by (induction xs arbitrary: n) auto

lemma quiet_switcher [simp]: "quiet (canvas_switcher m)"
proof -
  have "list_all quiet (canvas_tabs a cx cs)" for a cx cs
    by (induction a cx cs rule: canvas_tabs.induct) auto
  then show ?thesis by (simp add: canvas_switcher_def control_button_def Let_def)
qed

lemma quiet_menu [simp]: "quiet (context_menu_build menu v)"
proof -
  have "list_all quiet (menu_rows i cy items)" for i cy items
    by (induction i cy items rule: menu_rows.induct)
      (auto simp: item_row_def menu_separator_def is_scrim_def settings_scrim_id_def context_scrim_id_def cmd_prefix_def
        split: option.splits)
  then show ?thesis
    by (simp add: context_menu_build_def context_scrim_def context_panel_def title_row_def Let_def split: option.splits)
qed

lemma quiet_template [simp]: "quiet (template_build m)"
  by (simp add: template_build_def template_row_def Let_def list_all_map_enumerate)

lemma quiet_presence [simp]: "quiet (presence_build ps)"
  by (induction ps) (simp_all add: presence_build_def peer_widget_def Let_def)

lemma quiet_status [simp]: "list_all quiet (opt_list (status_build m))"
proof -
  have "list_all quiet (opt_list (status_strip m))" "list_all quiet (opt_list (toast_widget m))"
    by (auto simp: status_strip_def toast_widget_def opt_list_def Let_def split: option.splits)
  then show ?thesis by (simp add: status_build_def opt_list_def)
qed

lemma quiet_diagnostics [simp]: "list_all quiet (opt_list (diagnostics_build m))"
  by (auto simp: diagnostics_build_def opt_list_def Let_def case_prod_unfold list_all_map_enumerate split: option.splits)

lemma quiet_text_input [simp]: "quiet (text_input i v p w h)"
  by (simp add: text_input_def)

lemma quiet_number [simp]: "quiet (number_field i v u x y w h)"
  by (simp add: number_field_def Let_def)

lemma quiet_align [simp]: "quiet (align9 i m c x y)"
  by (simp add: align9_def align_cell_def align_id_def align_steps_def Let_def)

lemma quiet_control [simp]: "quiet (control_widget c)"
  by (auto simp: control_widget_def toggle_field_def badge_def action_button_def paint_field_def stack_labeled_def
      segment_body_def segment_field_def stack_fixed_companion_def lanes_field_def Let_def
      split: inspector_widget.splits option.splits)

lemma quiet_inspector [simp]: "quiet (inspector_build v vp)"
proof -
  have "quiet (control_row c)" for c by (simp add: control_row_def Let_def)
  then have "quiet (section_block s)" for s by (simp add: section_block_def section_title_def Let_def list_all_iff)
  then show ?thesis by (simp add: inspector_build_def Let_def list_all_iff[of _ "map _ _"])
qed

lemma quiet_settings [simp]: "quiet (settings_build m)"
proof -
  have row: "quiet (settings_row i l k)" for i l k by (simp add: settings_row_def kbd_pill_def Let_def)
  have "quiet (settings_section l rows)" if "list_all quiet rows" for l rows
    using that by (simp add: settings_section_def Let_def)
  then have "list_all quiet (settings_blocks m)"
    by (auto simp: settings_blocks_def command_row_def gesture_row_def row list_all_iff)
  then show ?thesis by (simp add: settings_build_def settings_scrim_def settings_panel_def Let_def)
qed

lemma quiet_root: "quiet (build_root m)"
  by (simp add: build_root_def watermark_def theme_toggle_def Let_def split: option.splits)

subsection \<open>What is never authored\<close>

lemma segment_not_dismiss: "resolve_segment i m k \<noteq> Some IDismiss"
proof -
  have "(case cv_widget c of WSegment os \<Rightarrow> if k < length os then edit_from_control c (f os) else None | _ \<Rightarrow> None) \<noteq> Some IDismiss" for c f
    by (cases "cv_widget c") (auto simp: edit_from_control_def)
  then show ?thesis by (auto simp: resolve_segment_def bind_eq_Some_conv)
qed

lemma resolve_dismiss: "resolve_action a m = Some IDismiss \<Longrightarrow> (\<exists>i. a = Pressed i \<and> is_scrim i)"
  by (cases a)
    (auto simp: resolve_pressed_def is_scrim_def resolve_inspector_press_def inspector_edit_def edit_from_control_def
      resolve_toggle_def segment_not_dismiss resolve_text_def bind_eq_Some_conv
      split: if_splits option.splits inspector_widget.splits)

lemma pressed_actuable: "Pressed i \<in> set (snd (ui_step rt ev)) \<Longrightarrow> find_kind_in (rt_tree rt) i \<noteq> None"
  by (cases ev)
    (auto simp: dispatch_pointer_def pointer_down_def pointer_move_def pointer_up_def pointer_cancel_def actuate_def
      dispatch_key_def commit_text_def dispatched_def dispatch_none_def find_kind_def Let_def
      split: pointer_phase.splits option.splits widget_kind.splits if_splits prod.splits)

lemma never_dismissed:
  assumes "ui_reach (\<lambda>t. \<exists>m. t = build_root m) rt" "a \<in> set (snd (ui_step rt ev))"
  shows "resolve_action a m \<noteq> Some IDismiss"
proof
  assume "resolve_action a m = Some IDismiss"
  then obtain i where i: "a = Pressed i" "is_scrim i" using resolve_dismiss by blast
  obtain m' where "rt_tree rt = build_root m'" using interaction_reach[OF assms(1)] by blast
  then show False using pressed_actuable[of i rt ev] assms(2) i quiet_root[of m'] by (simp add: quiet_def)
qed

text \<open>The field beside a fixed sizing has the id of the segment above it, which is found first.\<close>

lemma companion_shadowed:
  "find_kind_in (stack_fixed_companion c (segment_field (cv_control_id c) ls k x y w h) px) (inspector_prefix @ cv_control_id c) =
     Some (KindSegment \<lparr>w_id = inspector_prefix @ cv_control_id c, w_x = x, w_y = y, w_w = w, w_h = h, mw_labels = ls,
       mw_selected = k, mw_label_size_px = fl 12, mw_label_color = text_label\<rparr>)"
  by (simp add: stack_fixed_companion_def column_box_def stack_box_def segment_field_def)

section \<open>The modal\<close>

definition boxes_named :: "(str \<Rightarrow> bool) \<Rightarrow> widget \<Rightarrow> bool" where
  "boxes_named Q w \<longleftrightarrow> (\<forall>ox oy. list_all (\<lambda>b. Q (fst b)) (collect w ox oy))"

lemma named_container: "list_all (boxes_named Q) ws \<Longrightarrow> boxes_named Q (VContainer c ws)"
  by (fastforce simp: boxes_named_def list_all_iff dest: layout_child)

lemma named_leaves [simp]:
  "boxes_named Q (VText u)" "boxes_named Q (VRect r) \<longleftrightarrow> Q (w_id r)"
  by (simp_all add: boxes_named_def box_at_def)

lemma named_parts [simp]:
  "list_all (boxes_named Q) ws \<Longrightarrow> boxes_named Q (stack_box d sp ma pa cr cl i x y w h ws)"
  "list_all (boxes_named Q) ws \<Longrightarrow> boxes_named Q (group_box i x y w h ws)"
  "list_all (boxes_named Q) ws \<Longrightarrow> boxes_named Q (column_box sp cl i x y w h ws)"
  "boxes_named Q (rect_part i x y w h st hov) \<longleftrightarrow> Q i"
  "boxes_named Q (label_part i x y w h l sz c ce)"
  by (simp_all add: stack_box_def group_box_def column_box_def rect_part_def label_part_def named_container)

definition settings_name :: "str \<Rightarrow> bool" where
  "settings_name i \<longleftrightarrow> prefix ''settings::'' i"

lemma named_settings: "boxes_named settings_name (settings_build m)"
proof -
  have row: "boxes_named settings_name (settings_row i l k)" if "prefix ''settings::'' i" for i l k
    using that by (simp add: settings_row_def kbd_pill_def Let_def settings_name_def)
  have sect: "boxes_named settings_name (settings_section l rows)" if "list_all (boxes_named settings_name) rows" for l rows
    using that by (simp add: settings_section_def Let_def)
  have "list_all (boxes_named settings_name) (settings_blocks m)"
    by (auto simp: settings_blocks_def command_row_def gesture_row_def list_all_iff intro!: sect row)
  then show ?thesis
    by (simp add: settings_build_def settings_scrim_def settings_panel_def material_panel_def soft_shadow_def Let_def
        settings_name_def settings_scrim_id_def)
qed

lemma modal_hit:
  assumes "um_settings_open m" "um_context_menu m = None"
    "in_box pt (settings_scrim_id, 0, 0, fst (um_viewport m), snd (um_viewport m))"
  shows "\<exists>i. hit (build_root m) pt = Some i \<and> prefix ''settings::'' i"
proof -
  let ?b = "(settings_scrim_id, 0, 0, fst (um_viewport m), snd (um_viewport m))"
  let ?bs = "collect (settings_build m) (f_add 0 0) (f_add 0 0)"
  have z: "f_add 0 0 = 0" by code_simp
  obtain ws where root: "build_root m = group_box ''ui-root'' 0 0 0 0 ws" "ws \<noteq> []" "last ws = settings_build m"
    by (rule that[OF build_root_def]) (use assms(1,2) in simp_all)
  then have ws: "ws = butlast ws @ [settings_build m]" by (metis append_butlast_last_id)
  have "fst (origin (settings_build m)) = 0" "snd (origin (settings_build m)) = 0"
    by (simp_all add: settings_build_def group_box_def stack_box_def Let_def)
  then obtain bs where bs: "tree_boxes (build_root m) = bs @ ?bs"
    unfolding root(1) by (subst (asm) ws) (simp add: tree_boxes_def group_box_def stack_box_def layout_children_def Let_def case_prod_unfold)
  have "?b \<in> set ?bs"
    by (simp add: settings_build_def group_box_def stack_box_def settings_scrim_def rect_part_def layout_children_def Let_def z box_at_def)
  then obtain b where b: "List.find (in_box pt) (rev ?bs) = Some b"
    using assms(3) by (metis find_None_iff2 not_None_eq set_rev find_None_iff)
  then have "b \<in> set ?bs" by (auto simp: find_Some_iff) (metis nth_mem set_rev length_rev)
  then have "prefix ''settings::'' (fst b)"
    using named_settings[of m] by (simp add: boxes_named_def list_all_iff settings_name_def)
  moreover have "hit (build_root m) pt = Some (fst b)" by (simp add: hit_def bs find_append b)
  ultimately show ?thesis by blast
qed

section \<open>The count of lanes\<close>

lemma clamped_trunc:
  assumes "f_le f_one x" "f_le x max_lanes"
  shows "1 \<le> f_trunc_int x \<and> f_trunc_int x \<le> 1000 \<and> \<not> f_is_inf x"
proof -
  have "f_key f_one = 1023 * 2 ^ 52" "f_key max_lanes = 4652007308841189376" by code_simp+
  then have key: "1023 * 2 ^ 52 \<le> f_key x" "f_key x \<le> 4652007308841189376" using assms by (simp_all add: f_le_def)
  have "0 \<le> f_mag x" by (simp add: f_mag_def)
  then have pos: "\<not> f_neg_sign x" using key(1) by (auto simp: f_key_def split: if_splits)
  then have mag: "1023 * 2 ^ 52 \<le> f_mag x" "f_mag x \<le> 4652007308841189376" using key by (simp_all add: f_key_def)
  define e where "e = f_mag x div 2 ^ 52"
  define m where "m = f_mag x mod 2 ^ 52"
  have split: "f_mag x = e * 2 ^ 52 + m" "0 \<le> m" "m < 2 ^ 52" by (simp_all add: e_def m_def)
  have e: "1023 \<le> e" "e \<le> 1032" using mag split by simp_all
  have val: "f_mant x = m + 2 ^ 52" "f_exp x = e - 1075" using e pos by (simp_all add: f_mant_def f_exp_def e_def m_def Let_def)
  then have trunc: "f_trunc_int x = (m + 2 ^ 52) div 2 ^ nat (1075 - e)" using e split(2) by (simp add: f_trunc_int_def)
  have "(2::int) ^ nat (1075 - e) \<le> 2 ^ 52" using e by (intro power_increasing) simp_all
  then have low: "1 \<le> (m + 2 ^ 52) div 2 ^ nat (1075 - e)" using split(2) by (simp add: zdiv_mono1 pos_imp_zdiv_pos_iff int_one_le_iff_zero_less)
  have "(m + 2 ^ 52) div 2 ^ nat (1075 - e) \<le> 1000"
  proof (cases "e = 1032")
    case True
    then show ?thesis using mag(2) split by simp
  next
    case False
    then have "(2::int) ^ 44 \<le> 2 ^ nat (1075 - e)" using e by (intro power_increasing) simp_all
    then have "(m + 2 ^ 52) div 2 ^ nat (1075 - e) \<le> (m + 2 ^ 52) div 2 ^ 44" using split(2) by (intro zdiv_mono2) simp_all
    then show ?thesis using split(3) by simp
  qed
  then show ?thesis using low mag(2) unfolding trunc by (simp add: f_is_inf_def)
qed

lemma clamp_between:
  assumes "\<not> f_is_nan x" shows "f_le f_one (f_clamp x f_one max_lanes) \<and> f_le (f_clamp x f_one max_lanes) max_lanes"
proof -
  have "f_le f_one f_one" "f_le f_one max_lanes" "f_le max_lanes max_lanes" by code_simp+
  then show ?thesis using assms by (auto simp: f_clamp_def f_lt_def f_le_def)
qed

lemma lanes_bound:
  assumes "lanes_count_from_text s = Some k"
  shows "unat k \<le> 1000 \<and> (k = 0 \<longleftrightarrow> (\<exists>x. parse_f64 s = Some x \<and> f_is_nan (f_round x)))"
proof -
  obtain x where x: "parse_f64 s = Some x" "k = f_to_u32 (f_clamp (f_round x) f_one max_lanes)"
    using assms by (auto simp: lanes_count_from_text_def)
  show ?thesis
  proof (cases "f_is_nan (f_round x)")
    case True
    then have "k = 0" by (simp add: x(2) f_clamp_def f_lt_def f_to_u32_def f_clamp_int_def)
    then show ?thesis using True x(1) by simp
  next
    case False
    let ?y = "f_clamp (f_round x) f_one max_lanes"
    have "\<not> f_is_nan ?y" "1 \<le> f_trunc_int ?y" "f_trunc_int ?y \<le> 1000" "\<not> f_is_inf ?y"
      using clamp_between[OF False] clamped_trunc[of ?y] by (simp_all add: f_le_def)
    then have "k = word_of_int (f_trunc_int ?y)" "uint k = f_trunc_int ?y"
      by (simp_all add: x(2) f_to_u32_def f_clamp_int_def uint_word_of_int)
    then have bounds: "1 \<le> uint k" "uint k \<le> 1000" using \<open>1 \<le> f_trunc_int ?y\<close> \<open>f_trunc_int ?y \<le> 1000\<close> by simp_all
    have "k \<noteq> 0" using bounds(1) by (intro notI) simp
    moreover have "unat k \<le> 1000" using nat_mono[OF bounds(2)] by simp
    ultimately show ?thesis using False x(1) by simp
  qed
qed

section \<open>An alignment cell\<close>

lemma align_payload:
  assumes "CHR '','' \<notin> set main"
  shows "decode_align (''align:main='' @ main @ '',cross='' @ cross) =
    Some (JObject [(''cross'', JString cross), (''main'', JString main)])"
proof -
  have c: "CHR '','' \<notin> set (''main='' @ main)" using assms by simp
  have "dropWhile (\<lambda>c. c \<noteq> CHR '','') ((''main='' @ main) @ CHR '','' # rest) = CHR '','' # rest"
    "takeWhile (\<lambda>c. c \<noteq> CHR '','') ((''main='' @ main) @ CHR '','' # rest) = ''main='' @ main" for rest
    using c by (subst dropWhile_append2 takeWhile_append2; auto)+
  note cut = this[of "''cross='' @ cross", simplified]
  show ?thesis by (simp add: decode_align_def strip_prefix_def has_prefix_def split_comma_def cut)
qed

lemma align_pressed:
  assumes "CHR '','' \<notin> set main" "find_control m ''align'' = Some c" "cv_op_kind c = Some k"
  shows "resolve_action (Pressed (align_id ''align'' main cross)) m =
    Some (IInspectorEdit ''align'' k (cv_field c) (cv_unit_scale c)
      (JObject [(''cross'', JString cross), (''main'', JString main)]))"
proof -
  have "cv_control_id c = ''align''" using assms(2) by (auto simp: find_control_def find_Some_iff)
  then show ?thesis using align_payload[OF assms(1), of cross]
    by (simp add: align_id_def resolve_pressed_def settings_scrim_id_def context_scrim_id_def canvas_new_id_def cmd_prefix_def
      swatch_prefix_def pen_width_prefix_def template_prefix_def canvas_delete_prefix_def canvas_prefix_def inspector_prefix_def
      strip_prefix_def has_prefix_def resolve_inspector_press_def inspector_edit_def edit_from_control_def assms(2,3))
qed

lemma align_authored:
  assumes "CHR '','' \<notin> set main" "find_control m ''align'' = Some c" "cv_op_kind c = Some k" "o_layout ob = Some ly"
    "er_align er (JObject [(''cross'', JString cross), (''main'', JString main)]) = Some al"
  shows "\<exists>field unit v. resolve_action (Pressed (align_id ''align'' main cross)) m = Some (IInspectorEdit ''align'' k field unit v) \<and>
    inspector_edit_op er ob ''align'' v unit = Some (SetLayout (o_id ob) (Some (ly\<lparr>ly_align := al\<rparr>)))"
proof -
  let ?v = "JObject [(''cross'', JString cross), (''main'', JString main)]"
  have "inspector_edit_op er ob ''align'' ?v u = Some (SetLayout (o_id ob) (Some (ly\<lparr>ly_align := al\<rparr>)))" for u
    using assms(4,5) by (simp add: inspector_edit_op_def layout_field_op_def)
  then show ?thesis using align_pressed[OF assms(1-3)] by blast
qed

end
