(* ===== verification/View_Properties.thy ===== *)
theory View_Properties
  imports Render_Laws View_Laws Samples
begin

text \<open>
  The properties of what is drawn and of the interface, with their witnesses: the transforms of
  nested layouts, the second reader of paths, the boxes under the pointer, what an interaction may
  actuate and what it authors.
\<close>

section \<open>The scene of the renderer\<close>

text \<open>C31: the rendered transforms of nested layouts compose. For every container and every child it
  lays out, the transform of the rendered child is the rendered transform of the container times the
  placement that the solver gives the child, however deep the container itself is laid out; an object
  that no container lays out keeps the transform it has in the scene.\<close>

theorem layout_composes:
  assumes "drawn = rsc_objects (from_object_scene sc camera sel name)"
    "distinct (ids sc)" "acyclic (parent_rel sc)"
    "c \<in> set drawn" "scene_get sc (ro_id c) = Some g" "o_layout g \<noteq> None"
    "ob \<in> set drawn" "(ro_id ob, placed) \<in> set (solve_layout derive_region sc (o_id g))"
    "free \<in> set drawn" "scene_get sc (ro_id free) = Some h"
    "\<forall>k \<in> set (layout_containers sc). ro_id free \<notin> set (map fst (solve_layout derive_region sc (o_id k)))"
  shows "ro_transform ob = transform_mul (ro_transform c) placed \<and> ro_transform free = o_transform h"
proof -
  have drawn: "drawn = apply_layout_placements sc (map render_object_from (objects sc))"
    by (simp add: assms(1) from_object_scene_def split: object_selection.splits)
  have g: "g \<in> set (layout_containers sc)" "o_id g = ro_id c"
    using assms(5,6) scene_get_Some[OF assms(5)] by (simp_all add: containers_set)
  obtain b where b: "scene_get sc (ro_id ob) = Some b"
    using solved_child[OF assms(2,8)] by (auto simp: parent_in_def bind_eq_Some_conv)
  have "ro_transform ob = transform_mul (effective (layout_overrides sc) g) placed"
    using placements_transform[OF assms(7)[unfolded drawn] assms(2) b] layout_composed[OF assms(2,3) g(1) assms(8)]
      scene_get_Some[OF b] by (simp add: effective_def)
  moreover have "ro_transform c = effective (layout_overrides sc) g"
    using placements_transform[OF assms(4)[unfolded drawn] assms(2,5)] .
  moreover have "ro_transform free = o_transform h"
    using placements_transform[OF assms(9)[unfolded drawn] assms(2,10)] not_laid_out[OF assms(2,11)]
      scene_get_Some[OF assms(10)] by (simp add: effective_def)
  ultimately show ?thesis by simp
qed

definition nested_scene :: scene where
  "nested_scene = scene_default\<lparr>objects :=
     [(object_new ''outer'' ''a0'' line_a)\<lparr>o_layout := Some default_flow_layout\<rparr>,
      (object_new ''inner'' ''a1'' line_a)\<lparr>o_parent := Some ''outer'', o_layout := Some default_flow_layout\<rparr>,
      (object_new ''leaf'' ''a2'' line_a)\<lparr>o_parent := Some ''inner''\<rparr>]\<rparr>"

abbreviation nested_drawn :: "render_object list" where
  "nested_drawn \<equiv> rsc_objects (from_object_scene nested_scene \<lparr>cam_x = 0, cam_y = 0, cam_zoom = f_one\<rparr> SelCanvas ''scene'')"

lemma nested_forest: "distinct (ids nested_scene)" "acyclic (parent_rel nested_scene)"
proof -
  have "parent_rel nested_scene \<subseteq> measure (\<lambda>i. if i = ''leaf'' then 0 else if i = ''inner'' then 1 else 2)"
    by (auto simp: parent_rel_def nested_scene_def object_new_def)
  then show "acyclic (parent_rel nested_scene)" by (meson acyclic_subset wf_acyclic wf_measure)
  show "distinct (ids nested_scene)" by (simp add: ids_def nested_scene_def object_new_def)
qed

lemma rendered_ids: "map ro_id (rsc_objects (from_object_scene sc camera sel name)) = map o_id (objects sc)"
  by (auto simp: from_object_scene_def apply_layout_placements_def Let_def render_object_from_def
      split: option.splits object_selection.splits)

lemma nested_has: "i \<in> {''outer'', ''inner'', ''leaf''} \<Longrightarrow> \<exists>ob \<in> set nested_drawn. ro_id ob = i"
proof -
  assume "i \<in> {''outer'', ''inner'', ''leaf''}"
  then have "i \<in> set (map o_id (objects nested_scene))" by (auto simp: nested_scene_def object_new_def)
  then have "i \<in> set (map ro_id nested_drawn)" unfolding rendered_ids .
  then show ?thesis by (simp only: set_map) blast
qed

lemma nested_placed:
  "map fst (solve_layout derive_region nested_scene ''inner'') = [''leaf'']"
  "map fst (solve_layout derive_region nested_scene ''outer'') = [''inner'']"
proof -
  have s: "scene_get nested_scene ''inner'' = Some (objects nested_scene ! 1)" "o_layout (objects nested_scene ! 1) = Some default_flow_layout"
    "scene_get nested_scene ''outer'' = Some (objects nested_scene ! 0)" "o_layout (objects nested_scene ! 0) = Some default_flow_layout"
    by (simp_all add: scene_get_def nested_scene_def object_new_def)
  have line: "\<exists>r. derive_region line_a = Inr r" by (simp add: derive_region_def line_a_def geometry_from_subpaths_def)
  have "map o_id (laid_out derive_region nested_scene ''inner'') = [''leaf'']"
    "map o_id (laid_out derive_region nested_scene ''outer'') = [''inner'']"
    using line by (simp_all add: laid_out_def nested_scene_def object_new_def sort_by_paint_def)
  then show "map fst (solve_layout derive_region nested_scene ''inner'') = [''leaf'']"
    "map fst (solve_layout derive_region nested_scene ''outer'') = [''inner'']"
    using solve_layout_ids[OF s(1,2)] solve_layout_ids[OF s(3,4)] by simp_all
qed

theorem layout_composes_witness:
  "\<exists>ob c free placed. ob \<in> set nested_drawn \<and> ro_id ob = ''leaf'' \<and> c \<in> set nested_drawn \<and> ro_id c = ''inner'' \<and>
     (''leaf'', placed) \<in> set (solve_layout derive_region nested_scene ''inner'') \<and>
     ro_transform ob = transform_mul (ro_transform c) placed \<and>
     free \<in> set nested_drawn \<and> ro_id free = ''outer'' \<and> ro_transform free = transform_identity"
proof -
  obtain ob where ob: "ob \<in> set nested_drawn" "ro_id ob = ''leaf''" using nested_has[of "''leaf''"] by blast
  obtain c where c: "c \<in> set nested_drawn" "ro_id c = ''inner''" using nested_has[of "''inner''"] by blast
  obtain free where free: "free \<in> set nested_drawn" "ro_id free = ''outer''" using nested_has[of "''outer''"] by blast
  have "\<exists>y. (x, y) \<in> set xs" if "map fst xs = [x]" for x :: object_id and xs :: "(object_id \<times> transform) list"
    using that by auto
  from this[OF nested_placed(1)] obtain placed where
    p: "(''leaf'', placed) \<in> set (solve_layout derive_region nested_scene ''inner'')" by (elim exE)
  have n: "\<forall>k \<in> set (layout_containers nested_scene).
      ro_id free \<notin> set (map fst (solve_layout derive_region nested_scene (o_id k)))"
  proof
    fix k assume "k \<in> set (layout_containers nested_scene)"
    then have "o_id k = ''inner'' \<or> o_id k = ''outer''"
      unfolding containers_set by (auto simp: nested_scene_def object_new_def)
    then show "ro_id free \<notin> set (map fst (solve_layout derive_region nested_scene (o_id k)))"
      by (elim disjE) (simp_all only: nested_placed free(2), simp_all)
  qed
  have get: "scene_get nested_scene (ro_id c) = Some (objects nested_scene ! 1)" "o_id (objects nested_scene ! 1) = ''inner''"
    "scene_get nested_scene (ro_id free) = Some (objects nested_scene ! 0)" "o_transform (objects nested_scene ! 0) = transform_identity"
    "o_layout (objects nested_scene ! 1) \<noteq> None"
    using c(2) free(2) by (simp_all add: scene_get_def nested_scene_def object_new_def)
  have "(ro_id ob, placed) \<in> set (solve_layout derive_region nested_scene (o_id (objects nested_scene ! 1)))"
    using p unfolding ob(2) get(2) .
  note law = layout_composes[OF refl nested_forest c(1) get(1) get(5) ob(1) this free(1) get(3) n]
  show ?thesis
    by (rule exI[of _ ob], rule exI[of _ c], rule exI[of _ free], rule exI[of _ placed])
      (use ob c free p law[THEN conjunct1] law[THEN conjunct2] get(4) in \<open>simp only: simp_thms\<close>)
qed

text \<open>C32: the renderer reads a path the way the kernel does. Whatever text the kernel decodes into at
  least one contour, with capital commands and control points inside the i32 range, the separate
  parser of the renderer accepts, and it returns the same contours, nodes and handles.\<close>

theorem renderer_reads_kernel_paths:
  assumes "parse_path d = Inr sps" "sps \<noteq> []" "path_fits sps" "\<not> list_ex lower_command (tokens d)"
  shows "parse_path_d d = Inr (map to_r_sub sps)"
  using render_path_agrees[OF assms] .

theorem renderer_reads_kernel_paths_witness:
  "\<exists>sps. parse_path ''M 8 8 C 16 8,24 8 32 8 Z'' = Inr sps \<and> parse_path_d ''M 8 8 C 16 8,24 8 32 8 Z'' = Inr (map to_r_sub sps)"
proof -
  let ?sps = "[\<lparr>sp_closed = True, sp_nodes =
    [(corner 8 8)\<lparr>n_out := Some \<lparr>h_dx = 8, h_dy = 0\<rparr>\<rparr>, (corner 32 8)\<lparr>n_in := Some \<lparr>h_dx = -8, h_dy = 0\<rparr>\<rparr>]\<rparr>]"
  have "parse_path ''M 8 8 C 16 8,24 8 32 8 Z'' = Inr ?sps" "path_fits ?sps"
    "\<not> list_ex lower_command (tokens ''M 8 8 C 16 8,24 8 32 8 Z'')" by code_simp+
  then show ?thesis using renderer_reads_kernel_paths[of "''M 8 8 C 16 8,24 8 32 8 Z''" ?sps] by simp
qed

section \<open>The interface\<close>

text \<open>C33: what can be hit is what is drawn. Every box that the hit test knows appears, in the order of
  the test, among the objects of the rendered interface: under the id of the box, at its corner, with
  an outline of its size; hovering, pressing, typing and the cached values never move one.\<close>

theorem hit_boxes_are_drawn:
  "\<exists>shown. subseq shown (rsc_objects (runtime_render rt)) \<and> list_all2 drawn_box (tree_boxes (rt_tree rt)) shown"
  using render_adds[of rt] by (auto simp: adds_def draws_def)

definition press_tree :: widget where
  "press_tree = group_box ''root'' (fl 1) (fl 1) (fl 64) (fl 64)
     [button_part ''cmd:undo'' (fl 4) (fl 4) (fl 16) (fl 16) ''Undo'' (button_style False) (fl 11) text_label,
      VSlider \<lparr>w_id = ''width'', w_x = fl 32, w_y = fl 4, w_w = fl 16, w_h = fl 16, lw_value = f_half\<rparr>]"

abbreviation pressed_runtime :: ui_runtime where
  "pressed_runtime \<equiv> fst (ui_step (ui_runtime_new press_tree (fl 64, fl 64) False) (EvPointer PtrDown (fl 8, fl 8)))"

lemma pressed_reach: "ui_reach (\<lambda>t. t = press_tree) pressed_runtime"
  by (intro ui_reach.step ui_reach.start) simp_all

text \<open>C34: releasing the pointer actuates at most one widget, and only the one that was under the
  pointer both when the press began and when it ended. This holds in every state that any sequence of
  pointer, key, text, theme and viewport events reaches on a tree.\<close>

theorem release_actuates_pressed:
  assumes "ui_reach (\<lambda>t. t = tree) rt" "a \<in> set (dr_actions (snd (dispatch_pointer rt PtrUp pt)))"
  shows "dr_actions (snd (dispatch_pointer rt PtrUp pt)) = [a] \<and> hit tree pt = Some (action_id a) \<and>
    (\<exists>p. ui_press_origin (rt_state rt) = Some p \<and> hit tree p = Some (action_id a))"
  using actuation[of tree rt a pt] interaction_reach[OF assms(1)] assms(2) by (auto simp: dispatch_pointer_def)

lemma press_boxes:
  "tree_boxes press_tree =
     [(''cmd:undo'', f_add (fl 1) (fl 4), f_add (fl 1) (fl 4), fl 16, fl 16),
      (''width'', f_add (fl 1) (fl 32), f_add (fl 1) (fl 4), fl 16, fl 16)]"
  by (simp add: press_tree_def group_box_def stack_box_def button_part_def tree_boxes_def layout_children_def Let_def box_at_def)

lemma press_hits: "hit press_tree (fl 8, fl 8) = Some ''cmd:undo''" "hit press_tree (fl 12, fl 12) = Some ''cmd:undo''"
proof -
  have "in_box (fl 8, fl 8) (''cmd:undo'', f_add (fl 1) (fl 4), f_add (fl 1) (fl 4), fl 16, fl 16)"
    "in_box (fl 12, fl 12) (''cmd:undo'', f_add (fl 1) (fl 4), f_add (fl 1) (fl 4), fl 16, fl 16)"
    "\<not> in_box (fl 8, fl 8) (''width'', f_add (fl 1) (fl 32), f_add (fl 1) (fl 4), fl 16, fl 16)"
    "\<not> in_box (fl 12, fl 12) (''width'', f_add (fl 1) (fl 32), f_add (fl 1) (fl 4), fl 16, fl 16)" by code_simp+
  then show "hit press_tree (fl 8, fl 8) = Some ''cmd:undo''" "hit press_tree (fl 12, fl 12) = Some ''cmd:undo''"
    by (simp_all only: hit_def press_boxes rev.simps append.simps List.find.simps if_True if_False option.map fst_conv)
qed

lemma press_kind: "find_kind_in press_tree ''cmd:undo'' = Some KindButton"
  by (simp add: press_tree_def group_box_def stack_box_def button_part_def)

theorem release_actuates_pressed_witness:
  "dr_actions (snd (dispatch_pointer pressed_runtime PtrUp (fl 12, fl 12))) = [Pressed ''cmd:undo''] \<and>
   hit press_tree (fl 12, fl 12) = Some ''cmd:undo''"
proof -
  have "Pressed ''cmd:undo'' \<in> set (dr_actions (snd (dispatch_pointer pressed_runtime PtrUp (fl 12, fl 12))))"
    by (simp add: dispatch_pointer_def pointer_down_def pointer_up_def actuate_def find_kind_def dispatched_def Let_def
        ui_runtime_new_def press_hits press_kind)
  from release_actuates_pressed[OF pressed_reach this] show ?thesis by simp
qed

text \<open>C35: the state of the interface stays coherent with the trees it was shown over, whatever trees
  replace each other. In every reachable state a press in progress names the widget that was under the
  point where it began, the focus is on a text field, and a chosen segment is one of the cells of its
  control, each in one of the trees installed so far; a slider holds a value between 0 and 1 or a NaN.
  So the state fits the tree on the screen as long as no other tree replaces it; a tree that does
  replace it inherits the press, the focus and the chosen cells, whether or not it has those widgets.\<close>

theorem interface_state_coherent:
  assumes "ui_reach P rt"
  shows "P (rt_tree rt) \<and> interaction_from P (rt_state rt) \<and> cached_values_ok (rt_state rt) \<and>
    (\<forall>t. rt_state (set_tree rt t) = rt_state rt \<and> rt_tree (set_tree rt t) = t)"
  using interaction_reach[OF assms] sliders_reach[OF assms] by (simp add: set_tree_def)

text \<open>A press, and then a tree without the pressed widget: the press is that of the first tree.\<close>

definition bare_tree :: widget where
  "bare_tree = group_box ''root'' (fl 1) (fl 1) (fl 64) (fl 64) []"

theorem interface_state_coherent_witness:
  "interaction_ok press_tree (rt_state pressed_runtime) \<and> cached_values_ok (rt_state pressed_runtime) \<and>
   interaction_from (\<lambda>t. t = press_tree \<or> t = bare_tree) (rt_state (fst (ui_step pressed_runtime (EvTree bare_tree))))"
proof -
  have "ui_reach (\<lambda>t. t = press_tree \<or> t = bare_tree) (fst (ui_step pressed_runtime (EvTree bare_tree)))"
    by (intro ui_reach.step ui_reach.start) simp_all
  from interface_state_coherent[OF this] interface_state_coherent[OF pressed_reach] show ?thesis by simp
qed

section \<open>What is authored\<close>

text \<open>C36: the scrims dismiss nothing. Whatever models the panels are built from and whatever the user
  does, no action that the interface emits resolves to the dismissal of an overlay: a scrim is drawn
  and swallows the pointer, but it is not a widget that a press actuates.\<close>

theorem scrims_never_dismiss:
  assumes "ui_reach (\<lambda>t. \<exists>m. t = build_root m) rt"
  shows "list_all (\<lambda>a. resolve_action a m \<noteq> Some IDismiss) (snd (ui_step rt ev))"
  using never_dismissed[OF assms] by (simp add: list_all_iff)

definition plain_ui_model :: ui_model where
  "plain_ui_model = \<lparr>um_theme_dark = False, um_viewport = (fl 800, fl 600), um_active_tool = ''select-move'',
     um_create_kind = None, um_selected_color = ''#000000'', um_pen_palette = [], um_pen_width = f_one,
     um_pen_widths = [], um_templates = [], um_template_open = False, um_canvases = [], um_active_canvas_id = ''c'',
     um_connection_online = True, um_canvas_busy = False, um_diagnostics = None, um_diagnostics_open = False,
     um_command_catalog = [], um_gesture_catalog = [], um_inspector_view = None, um_is_mac = False,
     um_settings_open = True, um_context_menu = None, um_peers = [], um_busy = False, um_status = None, um_toast = None\<rparr>"

text \<open>With the settings open, a press and a release in the middle of the viewport.\<close>

theorem scrims_never_dismiss_witness:
  "list_all (\<lambda>a. resolve_action a plain_ui_model \<noteq> Some IDismiss)
     (snd (ui_step (fst (ui_step (ui_runtime_new (build_root plain_ui_model) (fl 800, fl 600) False)
        (EvPointer PtrDown (fl 400, fl 300)))) (EvPointer PtrUp (fl 400, fl 300))))"
  by (rule scrims_never_dismiss) (intro ui_reach.step ui_reach.start; auto)

text \<open>C37: a cell of the alignment control sets the alignment it shows. Pressing the cell for a main and a
  cross value, with the control in the inspector, is resolved to the edit of the control, and the edit
  turns into the operation that replaces exactly the alignment in the layout of the object.\<close>

theorem align_cell_authors_layout:
  assumes "CHR '','' \<notin> set main" "find_control m ''align'' = Some c" "cv_op_kind c = Some k" "o_layout ob = Some ly"
    "er_align er (JObject [(''cross'', JString cross), (''main'', JString main)]) = Some al"
  shows "\<exists>field unit v. resolve_action (Pressed (align_id ''align'' main cross)) m = Some (IInspectorEdit ''align'' k field unit v) \<and>
    inspector_edit_op er ob ''align'' v unit = Some (SetLayout (o_id ob) (Some (ly\<lparr>ly_align := al\<rparr>)))"
  using align_authored[OF assms] .

definition align_control :: control_value where
  "align_control = \<lparr>cv_control_id = ''align'', cv_label = ''Align'', cv_widget = WAlign9, cv_value = JNull, cv_mixed = False,
     cv_op_kind = Some ''set-layout'', cv_field = Some ''align'', cv_unit_scale = f_one\<rparr>"

definition align_reader :: edit_readers where
  "align_reader = \<lparr>er_paint = (\<lambda>_. None), er_axis_sizing = (\<lambda>_. None), er_axis = (\<lambda>_. None), er_lanes = (\<lambda>_. None),
     er_align = (\<lambda>v. if v = JObject [(''cross'', JString ''end''), (''main'', JString ''center'')]
       then Some \<lparr>al_main = MainCenter, al_cross = CrossEnd\<rparr> else None),
     er_text_align = (\<lambda>_. None)\<rparr>"

theorem align_cell_authors_layout_witness:
  "\<exists>field unit v. resolve_action (Pressed (align_id ''align'' ''center'' ''end''))
       (plain_ui_model\<lparr>um_inspector_view := Some \<lparr>iv_role = plain_role, iv_sections = [(SecLayout, [align_control])]\<rparr>\<rparr>) =
     Some (IInspectorEdit ''align'' ''set-layout'' field unit v) \<and>
   inspector_edit_op align_reader (object_a\<lparr>o_layout := Some default_flow_layout\<rparr>) ''align'' v unit =
     Some (SetLayout ''a'' (Some (default_flow_layout\<lparr>ly_align := \<lparr>al_main = MainCenter, al_cross = CrossEnd\<rparr>\<rparr>)))"
proof -
  let ?m = "plain_ui_model\<lparr>um_inspector_view := Some \<lparr>iv_role = plain_role, iv_sections = [(SecLayout, [align_control])]\<rparr>\<rparr>"
  have c: "find_control ?m ''align'' = Some align_control" "cv_op_kind align_control = Some ''set-layout''"
    by (simp_all add: find_control_def view_controls_def align_control_def)
  have "er_align align_reader (JObject [(''cross'', JString ''end''), (''main'', JString ''center'')]) =
    Some \<lparr>al_main = MainCenter, al_cross = CrossEnd\<rparr>" by (simp add: align_reader_def)
  from align_cell_authors_layout[OF _ c _ this, of "object_a\<lparr>o_layout := Some default_flow_layout\<rparr>" default_flow_layout]
  show ?thesis by simp
qed

text \<open>C38: a count of lanes typed into the inspector is at most a thousand, and it is zero exactly when
  the text is a number that rounds to a NaN, which the clamp to 1 and 1000 lets through.\<close>

theorem lanes_typed_bounded:
  assumes "lanes_count_from_text s = Some k"
  shows "unat k \<le> 1000 \<and> (k = 0 \<longleftrightarrow> (\<exists>x. parse_f64 s = Some x \<and> f_is_nan (f_round x)))"
  using lanes_bound[OF assms] .

theorem lanes_typed_bounded_witness:
  "\<exists>k. lanes_count_from_text ''nan'' = Some k \<and> k = 0 \<and> unat k \<le> 1000"
proof -
  have n: "lanes_count_from_text ''nan'' = Some 0" by code_simp
  from lanes_typed_bounded[OF n] n show ?thesis by blast
qed

end
