(* ===== verification/Spec2Isabelle.thy ===== *)
theory Spec2Isabelle
  imports Kernel_Properties Client_Properties Server_Properties Extension_Properties Binding_Properties
    Registry_Properties View_Properties
begin

text \<open>
  A model of shape.ai, a shared canvas, and the theorems that make it correct. The model follows
  the Rust crates under \<open>src/crates\<close> and \<open>src/extensions\<close>: a struct is a record with the source's
  fields (prefixed, since field names are global here), an enum a datatype with the source's
  variants, a function a definition of the same name where it is free, an \<open>i32\<close>, \<open>i64\<close> or \<open>u64\<close> a
  word of its width with the wrap-around of release builds, an \<open>f64\<close> its 64-bit pattern, a
  \<open>Result\<close> a sum with the error on the left, a panic an error value of its own.

  \<^bold>\<open>How the parts interact.\<close> A canvas is a scene, a list of objects. Everything that changes it is one
  \<open>object_op\<close>: the tools of the client author operations from the scene and never apply them; the
  kernel applies an operation and returns its inverse; the client applies it at once, keeps it in
  an outbox and sends it; the actor of the canvas on the server applies it to its own copy, writes
  the touched objects through a storage adapter, journals it, answers it and broadcasts it; the
  other clients apply the broadcast unless an unacknowledged edit of their own claims the same
  property. A lease of the coordinator decides which server instance may run the actor of a canvas.
  What the user sees is derived: layouts are solved from the scene, objects are resolved for the
  renderer, panels are built from the state of the application and answer the pointer with actions
  that are turned back into operations.

  \<^bold>\<open>Shared vocabulary.\<close> \<open>Prelude\<close> (strings as bytes, the \<open>?\<close> operator), \<open>Decimal\<close> (\<open>Display\<close> and
  \<open>parse\<close> of integers), \<open>F64\<close> (binary64 arithmetic, computed on integers and rounded once),
  \<open>Bytes\<close> (endianness, UTF-8), \<open>Base64\<close>, \<open>BTreeMap\<close>.

  \<^bold>\<open>The kernel\<close> (\<open>scene-core/src/object/kernel\<close>, \<open>fractional.rs\<close>, \<open>lww.rs\<close>). \<open>Model\<close> and \<open>Ops\<close>
  hold the types of \<open>model.rs\<close> and \<open>op.rs\<close>, \<open>Fractional\<close> and \<open>OrderKeys\<close> the order keys,
  \<open>PathString\<close> the path codec, \<open>Validate\<close> and \<open>Apply\<close> the guards and the effect of every operation,
  \<open>UndoStack\<close> the undo engine with the wrapper that the shell holds (\<open>wasm_api.rs\<close>), \<open>Selection\<close>
  the selection, \<open>Lww\<close> the per-property merge. A failed step returns the scene it left with its
  error, so that "an error changes nothing" is a theorem and not part of the model. \<open>History\<close> drives
  the engine the way the header and the tests of \<open>undo.rs\<close> ask of its host, which is outside the
  repository's Rust code: an edit is applied and recorded with its inverse, an undo is applied and
  reported back; its specification is a timeline of scenes. \<open>Fractional_Laws\<close>, \<open>PathString_Laws\<close>,
  \<open>Apply_Laws\<close>, \<open>Touched_Laws\<close> and \<open>Undo_Laws\<close> carry the proofs; \<open>Kernel_Properties\<close> states what
  they show: keys lie strictly between their bounds, the path codec is stable, operations keep the
  scene well formed, failures change nothing, inverses undo, later writes win and the merge
  converges.

  \<^bold>\<open>Derived edits\<close> (\<open>object/binding\<close>, \<open>object/authoring\<close>, \<open>object/catalog\<close>). \<open>Affine\<close>, \<open>Region\<close>,
  \<open>MoveTogether\<close>, \<open>AnchorFollow\<close>, \<open>Deform\<close>, \<open>Cascade\<close>, \<open>Grouping\<close>, \<open>LayoutSolve\<close>, \<open>Inspector\<close>,
  \<open>InspectorEdit\<close>, \<open>Primitives\<close> and \<open>Commands\<close> translate the files of the same names. A drag moves
  the closure of its roots over containment; a member rides by its transform or, when it is an open
  path pinned at an end, is deformed between its ends; anchored objects follow in waves.
  \<open>Binding_Properties\<close> states what a drag, a group and a layout do to the scene once applied.

  \<^bold>\<open>The client\<close> (\<open>client-runtime/src\<close>). \<open>Wire\<close> has the messages, \<open>Outbox\<close> the port of the durable
  outbox with the in-memory store, \<open>SyncEngine\<close> the optimistic engine, \<open>Presence\<close> the peers and the
  subscribed window. In \<open>SyncEngine_Laws\<close> a \<open>session\<close> is an engine with what its surroundings do to
  it: built on any outbox, reseeded from the durable rows at any time (\<open>wasm_session.rs\<close>), drained
  by the shell. \<open>Client_Properties\<close> states who owns a key, what an acknowledgement settles, what a
  reconnect replays and that no entry is lost on the way to the transport.

  \<^bold>\<open>Storage\<close> (\<open>storage-core/src\<close>). \<open>Storage\<close> has the records, the adapter port and the in-memory
  adapter, \<open>Bundle\<close> the sharded bundle with its checksums and its merging cursor, \<open>FileStore\<close> the
  adapter over a bundle directory whose steps may fail, \<open>Morton\<close> and \<open>Redb\<close> the key-value adapter
  with its spatial index; \<open>Bundle_Laws\<close>, \<open>Cursor_Laws\<close> and \<open>Redb_Laws\<close> their proofs.

  \<^bold>\<open>The server\<close> (\<open>server/src\<close>, \<open>coordination/src\<close>). \<open>Dedup\<close> (\<open>sync.rs\<close>), \<open>ObjectStore\<close>,
  \<open>CanvasActor\<close>, \<open>Coordination\<close>, \<open>CanvasIndex\<close>, \<open>Registry\<close> and \<open>ObjectTools\<close> (\<open>object_mcp.rs\<close>).
  \<open>ObjectStore_Laws\<close> relates the records on disk to the scene (\<open>on_disk\<close>), \<open>Recovery_Laws\<close> has the
  invariant of the actor and its restart. Code between two awaits is one step; \<open>spawn_step\<close>
  interleaves the steps of overlapping spawns. \<open>Server_Properties\<close> and \<open>Registry_Properties\<close> state
  durability, the answer to a resend, recovery, the exact answer of a region query, the round trip
  of a bundle, the single writer of a lease and the defect in the spawn that breaks it.

  \<^bold>\<open>The extensions\<close> (\<open>extensions/*\<close>, \<open>extension_registry.rs\<close>). \<open>Extensions\<close> has the contract, the
  board and the diagram, \<open>ExtensionRegistry\<close> the reconciliation of an export with the scene;
  \<open>Extension_Laws\<close>, \<open>Export_Laws\<close> and \<open>Reexport_Laws\<close> lead to \<open>Extension_Properties\<close>: the tools keep
  the models well formed, and after a reconciliation the scene holds the export, model blob
  included.

  \<^bold>\<open>The view\<close> (\<open>renderer-core\<close>, \<open>ui-core\<close>, \<open>ui\<close>). \<open>RenderObject\<close> resolves a scene for the renderer,
  with the renderer's own path parser; \<open>UiWidget\<close>, \<open>UiState\<close> and \<open>UiRender\<close> are the widget toolkit,
  \<open>UiPanels\<close> and \<open>UiForms\<close> the panels built with it, \<open>Intent\<close> what their actions mean.
  \<open>Render_Laws\<close>, \<open>View_Laws\<close> and \<open>View_Properties\<close> show that nested placements compose, that both
  path parsers agree, that what can be hit is what is drawn, and what an interaction may author;
  \<open>ui_reach\<close> is every state that events reach, with the trees that replaced each other.

  \<^bold>\<open>Interfaces.\<close> A component that relies on another one does so through a locale, interpreted on the
  code's models: \<open>lww_store\<close> (the store of \<open>lww.rs\<close>), \<open>outbox_store\<close> (the in-memory outbox),
  \<open>record_store\<close> and \<open>spatial_store\<close> (the in-memory adapter; by sublocale the file adapter over
  \<open>bundle_files\<close> and the key-value adapter over \<open>redb_engine\<close>), \<open>canvas_store\<close> (the actor's view of
  the key-value adapter), \<open>lease_table\<close> (both coordinators). The laws of the actor are proved once,
  for every adapter that keeps the contract.

  \<^bold>\<open>Parameters.\<close> Code outside the repository is an argument: the math library (\<open>libm\<close>), the deriver of
  outlines, the JSON codecs (\<open>codec\<close>, \<open>index_codec\<close>, \<open>edit_readers\<close>, \<open>value_writers\<close>, the manifest
  of \<open>bundle_env\<close>), the key-value engine and the compressor (\<open>redb_env\<close>). What a theorem needs of
  them is a named hypothesis (\<open>json_law\<close>, \<open>reads_back\<close>, \<open>codec_ok\<close>, \<open>entry_reads_back\<close>, \<open>redb_engine\<close>) and
  its witness instantiates them. \<open>Samples\<close> and \<open>Server_Samples\<close> hold the concrete scenes, codecs and
  stores of the witnesses.

  \<^bold>\<open>Loops.\<close> Every loop of the code is a total function. Most end by a measure: the tokens or bytes
  left, the objects not visited yet (closures, waves of followers), the guard of the parent walk,
  the lines left. A bundle cursor takes fuel, and \<open>cursor_fuel\<close> shows that one step per announced
  record is enough and that more changes nothing. The digits of a printed float are looked for up to
  17, which identify every binary64, with the decimal point within 330 places; the integer root of
  \<open>f_sqrt\<close> gets more Newton steps than its argument has bits.

  \<^bold>\<open>Not modelled.\<close> The renderers on the graphics API and the floating point geometry they draw with,
  the recognition of freehand strokes, the merge of strokes, the template library, the glue of HTTP,
  WebSocket, MCP and WebAssembly, the JSON text that \<open>serde\<close> derives, broadcast channels, and the
  bodies of platform traits. Case conversion of text is modelled on ASCII. A sum of floats starts
  at positive zero. The clock of a step is its argument.
\<close>

end
